(* ===== verification/Green_Prelude.thy ===== *)
theory Green_Prelude
  imports Main "HOL-Library.Char_ord" "HOL-Library.List_Lexorder" "HOL-Library.AList"
begin

text \<open>
  The shared vocabulary of the development: JavaScript strings and their \<open>trim\<close>, the errors
  that the program throws, the JavaScript values that reach the program as \<open>unknown\<close>
  (what \<open>JSON.parse\<close> or a caller hands over), and the error-and-state monad in which
  database code is written.

  A string is a list of code units. The characters of \<open>string\<close> are the code units below 256,
  so a model string is a JavaScript string over Latin-1; lengths count code units, as
  \<open>String.prototype.length\<close> does.
\<close>

section \<open>Collections of the development\<close>

named_theorems preserves_intros \<open>rules that show that a database action keeps an invariant\<close>
named_theorems js_simps \<open>evaluation of the JavaScript operations the program uses\<close>

section \<open>Errors\<close>

text \<open>
  A thrown error is its class and its message. \<open>SqlError\<close> is what the SQLite driver throws when
  a statement violates a constraint or a trigger of the schema in \<open>migrations/\<close>.
\<close>

datatype js_error =
    TypeError string
  | RangeError string
  | PlainError string
  | SqlError string
  | RoomServiceClosedError

section \<open>Strings\<close>

text \<open>The white space and line terminators that \<open>String.prototype.trim\<close> removes (below 256).\<close>

definition js_space :: "char \<Rightarrow> bool" where
  "js_space c \<longleftrightarrow> (of_char c :: nat) \<in> {9, 10, 11, 12, 13, 32, 160}"

definition js_trim_start :: "string \<Rightarrow> string" where
  "js_trim_start s = dropWhile js_space s"

definition js_trim_end :: "string \<Rightarrow> string" where
  "js_trim_end s = rev (dropWhile js_space (rev s))"

definition js_trim :: "string \<Rightarrow> string" where
  "js_trim s = js_trim_end (js_trim_start s)"

text \<open>A canonical nonblank string: nonempty and equal to its own \<open>trim()\<close>.\<close>

definition js_canonical :: "string \<Rightarrow> bool" where
  "js_canonical s \<longleftrightarrow> s \<noteq> [] \<and> js_trim s = s"

lemma js_canonical_nonempty [dest]: "js_canonical s \<Longrightarrow> s \<noteq> []"
  by (simp add: js_canonical_def)

fun js_join :: "string \<Rightarrow> string list \<Rightarrow> string" where
  "js_join sep [] = []"
| "js_join sep [x] = x"
| "js_join sep (x # y # ys) = x @ sep @ js_join sep (y # ys)"

definition nul :: string where
  "nul = [CHR 0x00]"

section \<open>Numbers\<close>

text \<open>
  A JavaScript number is a double. \<open>Num m e\<close> is the finite number whose shortest decimal form is
  \<open>m * 10 ^ -e\<close>; in normal form (\<open>jsnum_ok\<close>) the exponent is zero for an integer and
  \<open>m\<close> is no multiple of ten otherwise, so equal numbers have equal representations and an
  integer is exactly a \<open>Num m 0\<close>.
\<close>

datatype jsnum = Num int nat | NaN | Infinity bool

fun jsnum_ok :: "jsnum \<Rightarrow> bool" where
  "jsnum_ok (Num m e) = (e = 0 \<or> \<not> 10 dvd m)"
| "jsnum_ok _ = True"

definition max_safe_integer :: int where
  "max_safe_integer = 9007199254740991"

fun is_integer :: "jsnum \<Rightarrow> bool" where
  "is_integer (Num m e) = (e = 0)"
| "is_integer _ = False"

fun is_safe_integer :: "jsnum \<Rightarrow> bool" where
  "is_safe_integer (Num m e) = (e = 0 \<and> \<bar>m\<bar> \<le> max_safe_integer)"
| "is_safe_integer _ = False"

fun is_finite :: "jsnum \<Rightarrow> bool" where
  "is_finite (Num m e) = True"
| "is_finite _ = False"

text \<open>The comparisons \<open>x < k\<close> and \<open>x > k\<close> with an integer literal \<open>k\<close>.\<close>

fun num_less :: "jsnum \<Rightarrow> int \<Rightarrow> bool" where
  "num_less (Num m e) k = (m < k * 10 ^ e)"
| "num_less NaN k = False"
| "num_less (Infinity positive) k = (\<not> positive)"

fun num_greater :: "jsnum \<Rightarrow> int \<Rightarrow> bool" where
  "num_greater (Num m e) k = (m > k * 10 ^ e)"
| "num_greater NaN k = False"
| "num_greater (Infinity positive) k = positive"

text \<open>\<open>String(n)\<close> of an integer: decimal digits, a minus sign for a negative one.\<close>

fun show_nat :: "nat \<Rightarrow> string" where
  "show_nat n = (if n < 10 then [char_of (48 + n)] else show_nat (n div 10) @ [char_of (48 + n mod 10)])"

declare show_nat.simps [simp del]

definition show_int :: "int \<Rightarrow> string" where
  "show_int i = (if i < 0 then CHR ''-'' # show_nat (nat (- i)) else show_nat (nat i))"

lemma show_nat_nonempty [simp]: "show_nat n \<noteq> []"
  by (subst show_nat.simps) simp

section \<open>Values\<close>

text \<open>
  What a parameter of type \<open>unknown\<close> can hold. \<open>JObj\<close> is an ordinary object: its own
  enumerable string-keyed data properties in insertion order. \<open>JArr\<close> is an
  ordinary array without holes. \<open>JExotic\<close> is an object with another prototype (an instance of a
  class), \<open>JCode\<close> a function, symbol or bigint. Values are trees.
\<close>

datatype jval =
    JUndefined
  | JNull
  | JBool bool
  | JNum jsnum
  | JStr string
  | JArr "jval list"
  | JObj "(string \<times> jval) list"
  | JExotic
  | JCode

abbreviation JInt :: "int \<Rightarrow> jval" where
  "JInt n \<equiv> JNum (Num n 0)"

text \<open>\<open>value.key\<close> on a value that is not nullish; a missing property reads as \<open>undefined\<close>.\<close>

fun jget :: "string \<Rightarrow> jval \<Rightarrow> jval" where
  "jget k (JObj fields) = (case map_of fields k of None \<Rightarrow> JUndefined | Some v \<Rightarrow> v)"
| "jget k _ = JUndefined"

fun jkeys :: "jval \<Rightarrow> string list" where
  "jkeys (JObj fields) = map fst fields"
| "jkeys _ = []"

text \<open>\<open>value ?? fallback\<close>\<close>

fun nullish :: "jval \<Rightarrow> bool" where
  "nullish JUndefined = True"
| "nullish JNull = True"
| "nullish _ = False"

definition coalesce :: "jval \<Rightarrow> jval \<Rightarrow> jval" where
  "coalesce v w = (if nullish v then w else v)"

text \<open>\<open>Number.isSafeInteger(value)\<close> and \<open>value < 0\<close> on a value of unknown type.\<close>

fun jsafe_nonneg :: "jval \<Rightarrow> nat option" where
  "jsafe_nonneg (JNum (Num m e)) =
     (if e = 0 \<and> 0 \<le> m \<and> m \<le> max_safe_integer then Some (nat m) else None)"
| "jsafe_nonneg _ = None"

lemma jsafe_nonneg_of_nat [simp]:
  "jsafe_nonneg (JInt (int n)) = (if int n \<le> max_safe_integer then Some n else None)"
  by simp

lemma jsafe_nonneg_bound: "jsafe_nonneg v = Some n \<Longrightarrow> int n \<le> max_safe_integer"
  by (induction v rule: jsafe_nonneg.induct) (auto split: if_splits)

section \<open>Errors as values\<close>

text \<open>
  \<open>bindE\<close> sequences computations that may throw: a thrown error skips the rest.
\<close>

definition bindE :: "'e + 'a \<Rightarrow> ('a \<Rightarrow> 'e + 'b) \<Rightarrow> 'e + 'b" where
  "bindE m f = (case m of Inl e \<Rightarrow> Inl e | Inr x \<Rightarrow> f x)"

lemma bindE_simps [simp]: "bindE (Inl e) f = Inl e" "bindE (Inr x) f = f x"
  by (simp_all add: bindE_def)

lemma bindE_eq_Inr [simp]: "bindE m f = Inr y \<longleftrightarrow> (\<exists>x. m = Inr x \<and> f x = Inr y)"
  by (cases m) auto

lemma guard_eq_Inr [simp]:
  "(if b then Inl e else r) = Inr y \<longleftrightarrow> \<not> b \<and> r = Inr y"
  "(if b then Inr x else Inl e) = Inr y \<longleftrightarrow> b \<and> x = y"
  by auto

text \<open>\<open>xs.map(f)\<close> where \<open>f\<close> may throw: the first error wins.\<close>

fun mapE :: "('a \<Rightarrow> 'e + 'b) \<Rightarrow> 'a list \<Rightarrow> 'e + 'b list" where
  "mapE f [] = Inr []"
| "mapE f (x # xs) = bindE (f x) (\<lambda>y. bindE (mapE f xs) (\<lambda>ys. Inr (y # ys)))"

lemma mapE_length: "mapE f xs = Inr ys \<Longrightarrow> length ys = length xs"
  by (induction xs arbitrary: ys) auto

lemma mapE_eq_Inr: "mapE f xs = Inr ys \<longleftrightarrow> list_all2 (\<lambda>x y. f x = Inr y) xs ys"
  by (induction xs arbitrary: ys) (auto simp: list_all2_Cons1)

lemma mapE_id_iff: "(\<And>x y. f x = Inr y \<Longrightarrow> y = x) \<Longrightarrow> mapE f xs = Inr ys \<Longrightarrow> ys = xs"
  by (induction xs arbitrary: ys) auto

lemma mapE_all: "mapE f xs = Inr ys \<Longrightarrow> \<forall>x \<in> set xs. \<exists>y. f x = Inr y"
  by (induction xs arbitrary: ys) auto

lemma mapE_InrI: "(\<And>x. x \<in> set xs \<Longrightarrow> f x = Inr (g x)) \<Longrightarrow> mapE f xs = Inr (map g xs)"
  by (induction xs) auto

section \<open>Lists\<close>

text \<open>\<open>xs.indexOf(x)\<close>: the first position of \<open>x\<close>, None for the -1 of an absent element.\<close>

fun index_of :: "'a \<Rightarrow> 'a list \<Rightarrow> nat option" where
  "index_of x [] = None"
| "index_of x (y # ys) = (if y = x then Some 0 else map_option Suc (index_of x ys))"

lemma index_of_Some: "index_of x xs = Some i \<Longrightarrow> i < length xs \<and> xs ! i = x"
  by (induction xs arbitrary: i) (auto split: if_splits)

lemma index_of_None [simp]: "index_of x xs = None \<longleftrightarrow> x \<notin> set xs"
  by (induction xs) auto

lemma index_of_nth: "distinct xs \<Longrightarrow> i < length xs \<Longrightarrow> index_of (xs ! i) xs = Some i"
proof (induction xs arbitrary: i)
  case Nil
  then show ?case by simp
next
  case (Cons x xs)
  then show ?case by (cases i) auto
qed

text \<open>Keeping the last \<open>n\<close> elements, one element at a time.\<close>

lemma drop_last_snoc:
  assumes "0 < n"
  shows "drop (Suc (length (drop (length xs - n) xs)) - n) (drop (length xs - n) xs @ [k]) =
         drop (Suc (length xs) - n) (xs @ [k])"
proof -
  have "drop (length xs - n) xs @ [k] = drop (length xs - n) (xs @ [k])" by simp
  moreover have "Suc (length (drop (length xs - n) xs)) - n + (length xs - n) = Suc (length xs) - n"
    using assms by auto
  ultimately show ?thesis by (metis drop_drop)
qed

lemma mod_less_of: "(i::nat) < n \<Longrightarrow> x mod n < n"
  by simp

lemma in_set_tlD: "x \<in> set (tl xs) \<Longrightarrow> x \<in> set xs"
  by (cases xs) auto

section \<open>Association lists\<close>

lemma AList_update_new: "k \<notin> fst ` set al \<Longrightarrow> AList.update k v al = al @ [(k, v)]"
  by (induction al) auto

end
