(* ===== verification/Dedup_Window.thy ===== *)
theory Dedup_Window
  imports Green_Prelude
begin

text \<open>
  The interface of a bounded duplicate window: what the director relies on to schedule an event
  identity at most once. Interpreted on the director's own window in theory \<open>Director\<close>.
\<close>

section \<open>The duplicate window as an interface\<close>

text \<open>
  What duplicate suppression relies on: a window of at most \<open>cap\<close> keys in order of arrival,
  membership is membership in the window, and recording a new key appends it and drops the
  oldest key when the window is full.
\<close>

locale dedup_window =
  fixes seen :: "'s \<Rightarrow> 'k \<Rightarrow> bool"
    and record_key :: "'s \<Rightarrow> 'k \<Rightarrow> 's"
    and order :: "'s \<Rightarrow> 'k list"
    and cap :: nat
    and invar :: "'s \<Rightarrow> bool"
  assumes cap_pos: "0 < cap"
    and seen_order: "invar s \<Longrightarrow> seen s k \<longleftrightarrow> k \<in> set (order s)"
    and order_record: "invar s \<Longrightarrow> \<not> seen s k \<Longrightarrow>
      order (record_key s k) = (if length (order s) < cap then order s @ [k] else tl (order s) @ [k])"
    and invar_record: "invar s \<Longrightarrow> \<not> seen s k \<Longrightarrow> invar (record_key s k)"
    and order_bound: "invar s \<Longrightarrow> length (order s) \<le> cap"
begin

lemma seen_record_self: "invar s \<Longrightarrow> \<not> seen s k \<Longrightarrow> seen (record_key s k) k"
  by (simp add: seen_order invar_record order_record)

lemma order_record_take:
  "invar s \<Longrightarrow> \<not> seen s k \<Longrightarrow>
   order (record_key s k) = drop (Suc (length (order s)) - cap) (order s @ [k])"
proof (cases "length (order s) < cap")
  case True
  assume "invar s" "\<not> seen s k"
  with True show ?thesis by (simp add: order_record)
next
  case False
  assume "invar s" "\<not> seen s k"
  moreover from this False have "length (order s) = cap" using order_bound by force
  moreover from this cap_pos have "order s \<noteq> []" by auto
  ultimately show ?thesis by (cases "order s") (auto simp: order_record)
qed

text \<open>A recorded key is remembered until \<open>cap\<close> later keys have been recorded.\<close>

lemma fold_record_order:
  assumes "invar s" and "distinct ks" and "\<forall>k \<in> set ks. \<not> seen s k"
  shows "invar (foldl record_key s ks) \<and>
         order (foldl record_key s ks) = drop (length (order s) + length ks - cap) (order s @ ks)"
  using assms(2,3)
proof (induction ks rule: rev_induct)
  case Nil
  then show ?case using order_bound [OF assms(1)] assms(1) by simp
next
  case (snoc k ks)
  let ?t = "foldl record_key s ks"
  from snoc have IH: "invar ?t" "order ?t = drop (length (order s) + length ks - cap) (order s @ ks)"
    by auto
  have fresh: "\<not> seen ?t k"
    using snoc.prems IH seen_order [OF assms(1), of k] seen_order [OF IH(1), of k]
    by (auto dest: in_set_dropD)
  have "order (record_key ?t k) = drop (Suc (length (order ?t)) - cap) (order ?t @ [k])"
    by (rule order_record_take [OF IH(1) fresh])
  also have "\<dots> = drop (length (order s) + length (ks @ [k]) - cap) (order s @ ks @ [k])"
    using drop_last_snoc [OF cap_pos, of "order s @ ks" k] by (simp add: IH(2))
  finally show ?case using invar_record [OF IH(1) fresh] by simp
qed

lemma remembers:
  assumes "invar s" and "\<not> seen s k" and "distinct ks" and "k \<notin> set ks"
    and "\<forall>k' \<in> set ks. \<not> seen s k'" and "length ks < cap"
  shows "seen (foldl record_key (record_key s k) ks) k"
proof -
  let ?u = "foldl record_key s (k # ks)"
  have "invar ?u" and
    order: "order ?u = drop (length (order s) + length (k # ks) - cap) (order s @ k # ks)"
    using fold_record_order [of s "k # ks"] assms by auto
  moreover have "length (order s) + length (k # ks) - cap \<le> length (order s)"
    using assms(6) by simp
  then have "k \<in> set (order ?u)"
    unfolding order by simp
  ultimately show ?thesis using seen_order by simp
qed

end

end
