(* ===== verification/Director.thy ===== *)
theory Director
  imports Dedup_Window
begin

text \<open>
  The deterministic director of \<open>packages/core/src/director.ts\<close>: the trusted event adapter, the
  bounded duplicate window, speaker selection (round robin with a one-event cooldown), muting,
  cancellation, and the snapshot that a restart restores.
\<close>

section \<open>Limits, reasons and events\<close>

definition MAX_NAMESPACE_LENGTH :: nat where "MAX_NAMESPACE_LENGTH = 128"

definition MAX_EVENT_ID_LENGTH :: nat where "MAX_EVENT_ID_LENGTH = 256"

definition MAX_TRACKED_EVENT_IDENTITIES :: nat where "MAX_TRACKED_EVENT_IDENTITIES = 500"

definition ONE_EVENT_COOLDOWN :: int where "ONE_EVENT_COOLDOWN = 1"

definition DEFAULT_AUTONOMOUS_TURN_BUDGET :: int where "DEFAULT_AUTONOMOUS_TURN_BUDGET = 10"

datatype director_reason =
    Selected
  | Directed
  | Cancelled
  | Unverified_Event
  | Duplicate
  | Self_Trigger_Blocked
  | Budget_Exhausted
  | Deliberate_Silence
  | No_Persona
  | No_Eligible_Persona
  | Cooldown

record director_decision =
  speaker :: "string option"
  reason :: director_reason

definition decision :: "string option \<Rightarrow> director_reason \<Rightarrow> director_decision" where
  "decision s r = \<lparr>speaker = s, reason = r\<rparr>"

record director_event =
  event_namespace :: string
  event_id :: string
  isHuman :: bool
  event_text :: string
  wantsResponse :: bool

text \<open>
  \<open>schedule\<close> takes any value. \<open>Verified\<close> is an instance of the module-private class
  \<open>VerifiedDirectorEvent\<close>, which only the adapter constructs; \<open>Unverified\<close> is everything else.
\<close>

datatype director_input = Verified director_event | Unverified

definition requireCanonicalIdentifier :: "string \<Rightarrow> string \<Rightarrow> nat option \<Rightarrow> js_error + string" where
  "requireCanonicalIdentifier v field maxLength =
     (if v = [] \<or> js_trim v \<noteq> v
      then Inl (TypeError (field @ '' must be a canonical nonblank string''))
      else (case maxLength of
              None \<Rightarrow> Inr v
            | Some m \<Rightarrow> if length v > m then Inl (TypeError (field @ '' must be at most '' @ show_nat m @ '' characters'')) else Inr v))"

definition requireNonNegativeInteger :: "jval \<Rightarrow> string \<Rightarrow> js_error + nat" where
  "requireNonNegativeInteger v field =
     (case jsafe_nonneg v of
        None \<Rightarrow> Inl (TypeError (field @ '' must be a non-negative safe integer''))
      | Some n \<Rightarrow> Inr n)"

section \<open>The trusted event adapter\<close>

text \<open>An adapter is its validated namespace.\<close>

definition trustedEventAdapter :: "string \<Rightarrow> js_error + string" where
  "trustedEventAdapter ns = requireCanonicalIdentifier ns ''namespace'' (Some MAX_NAMESPACE_LENGTH)"

definition adapterEvent :: "string \<Rightarrow> string \<Rightarrow> bool \<Rightarrow> string \<Rightarrow> bool \<Rightarrow> js_error + director_input" where
  "adapterEvent ns eventId human txt wants =
     bindE (requireCanonicalIdentifier eventId ''eventId'' (Some MAX_EVENT_ID_LENGTH)) (\<lambda>i.
       Inr (Verified \<lparr>event_namespace = ns, event_id = i, isHuman = human,
                      event_text = txt, wantsResponse = wants\<rparr>))"

definition humanEvent :: "string \<Rightarrow> string \<Rightarrow> string \<Rightarrow> bool \<Rightarrow> js_error + director_input" where
  "humanEvent ns eventId txt wants = adapterEvent ns eventId True txt wants"

definition nonHumanEvent :: "string \<Rightarrow> string \<Rightarrow> string \<Rightarrow> js_error + director_input" where
  "nonHumanEvent ns eventId txt = adapterEvent ns eventId False txt True"

section \<open>State\<close>

text \<open>
  The private fields of class \<open>Director\<close>. \<open>lastSelectedAt\<close> is a JavaScript \<open>Map\<close>, kept as an
  association list in insertion order (\<open>AList.update\<close> is \<open>Map.set\<close>: in place, or appended);
  \<open>#personaSet\<close> is the set of the frozen roster.
\<close>

record director =
  personas :: "string list"
  muted :: "string set"
  lastSelectedAt :: "(string \<times> nat) list"
  seenByNamespace :: "string \<Rightarrow> string set option"
  seenOrder :: "(string \<times> string) list"
  maxAutonomousTurns :: nat
  autonomousTurns :: nat
  acceptedHumanEventNumber :: nat
  fallbackIndex :: nat
  cancelled :: bool

section \<open>The duplicate window\<close>

definition hasSeen :: "director \<Rightarrow> string \<Rightarrow> string \<Rightarrow> bool" where
  "hasSeen d ns eventId =
     (case seenByNamespace d ns of None \<Rightarrow> False | Some ids \<Rightarrow> eventId \<in> ids)"

definition addIdentity ::
    "(string \<Rightarrow> string set option) \<Rightarrow> string \<Rightarrow> string \<Rightarrow> (string \<Rightarrow> string set option)" where
  "addIdentity by_ns ns i =
     by_ns(ns := Some (case by_ns ns of None \<Rightarrow> {i} | Some ids \<Rightarrow> insert i ids))"

definition dropIdentity ::
    "(string \<Rightarrow> string set option) \<Rightarrow> string \<Rightarrow> string \<Rightarrow> (string \<Rightarrow> string set option)" where
  "dropIdentity by_ns ns i =
     (case by_ns ns of
        None \<Rightarrow> by_ns
      | Some ids \<Rightarrow> if ids - {i} = {} then by_ns(ns := None) else by_ns(ns := Some (ids - {i})))"

definition recordSeen :: "director \<Rightarrow> string \<Rightarrow> string \<Rightarrow> director" where
  "recordSeen d ns eventId =
     (let by_ns = addIdentity (seenByNamespace d) ns eventId;
          order = seenOrder d @ [(ns, eventId)]
      in if length order \<le> MAX_TRACKED_EVENT_IDENTITIES
         then d\<lparr>seenByNamespace := by_ns, seenOrder := order\<rparr>
         else d\<lparr>seenByNamespace := dropIdentity by_ns (fst (hd order)) (snd (hd order)),
                seenOrder := tl order\<rparr>)"

section \<open>Selection and scheduling\<close>

definition cooledDown :: "director \<Rightarrow> string \<Rightarrow> bool" where
  "cooledDown d personaId =
     (case map_of (lastSelectedAt d) personaId of
        None \<Rightarrow> True
      | Some n \<Rightarrow> int (acceptedHumanEventNumber d) - int n > ONE_EVENT_COOLDOWN)"

text \<open>The loop over \<open>offset\<close> returns at the first eligible roster position.\<close>

definition deterministicEligibleSpeaker :: "director \<Rightarrow> (string \<times> nat) option" where
  "deterministicEligibleSpeaker d =
     (let n = length (personas d); at = (\<lambda>offset. (fallbackIndex d + offset) mod n)
      in map_option (\<lambda>offset. (personas d ! at offset, at offset))
           (find (\<lambda>offset. personas d ! at offset \<notin> muted d \<and> cooledDown d (personas d ! at offset))
              [0..<n]))"

text \<open>
  \<open>{ personaId, index: this.#personas.indexOf(personaId) }\<close>. Every caller passes a roster
  member, so \<open>indexOf\<close> finds it; the -1 of an absent id would make \<open>(index + 1) % n\<close> zero.
\<close>

definition rosterSpeaker :: "director \<Rightarrow> string \<Rightarrow> string \<times> nat" where
  "rosterSpeaker d p = (p, (case index_of p (personas d) of None \<Rightarrow> length (personas d) - 1 | Some i \<Rightarrow> i))"

definition chooseSpeaker :: "director \<Rightarrow> string option \<Rightarrow> (string \<times> nat) option" where
  "chooseSpeaker d directed =
     (case directed of
        Some p \<Rightarrow> Some (rosterSpeaker d p)
      | None \<Rightarrow>
          (case filter (\<lambda>p. p \<notin> muted d) (personas d) of
             [p] \<Rightarrow> Some (rosterSpeaker d p)
           | _ \<Rightarrow> deterministicEligibleSpeaker d))"

definition recordSelection :: "director \<Rightarrow> string \<Rightarrow> nat \<Rightarrow> director" where
  "recordSelection d p i =
     d\<lparr>lastSelectedAt := AList.update p (acceptedHumanEventNumber d) (lastSelectedAt d),
       fallbackIndex := (i + 1) mod length (personas d),
       autonomousTurns := autonomousTurns d + 1\<rparr>"

definition checkDirected :: "director \<Rightarrow> string option \<Rightarrow> js_error + unit" where
  "checkDirected d directed =
     (case directed of
        None \<Rightarrow> Inr ()
      | Some p \<Rightarrow>
          bindE (requireCanonicalIdentifier p ''directed persona id'' None) (\<lambda>_.
            if p \<notin> set (personas d) then Inl (RangeError (''unknown persona: '' @ p))
            else if p \<in> muted d then Inl (RangeError (''muted persona: '' @ p))
            else Inr ()))"

text \<open>The part of \<open>schedule\<close> after the event is recorded and found to be human.\<close>

definition scheduleHuman ::
    "director \<Rightarrow> director_event \<Rightarrow> string option \<Rightarrow> director_decision \<times> director" where
  "scheduleHuman d0 e directed =
     (let d = d0\<lparr>acceptedHumanEventNumber := acceptedHumanEventNumber d0 + 1\<rparr>
      in if \<not> wantsResponse e then (decision None Deliberate_Silence, d)
         else if personas d = [] then (decision None No_Persona, d)
         else if filter (\<lambda>p. p \<notin> muted d) (personas d) = [] then (decision None No_Eligible_Persona, d)
         else (case chooseSpeaker d directed of
                 None \<Rightarrow> (decision None Cooldown, d)
               | Some (p, i) \<Rightarrow>
                   (decision (Some p) (if directed = None then Selected else Directed),
                    recordSelection d p i)))"

definition schedule ::
    "director \<Rightarrow> director_input \<Rightarrow> string option \<Rightarrow> js_error + (director_decision \<times> director)" where
  "schedule d input directed =
     bindE (checkDirected d directed) (\<lambda>_.
       if cancelled d then Inr (decision None Cancelled, d)
       else case input of
         Unverified \<Rightarrow> Inr (decision None Unverified_Event, d)
       | Verified e \<Rightarrow>
           if hasSeen d (event_namespace e) (event_id e) then Inr (decision None Duplicate, d)
           else let d1 = recordSeen d (event_namespace e) (event_id e)
                in if \<not> isHuman e then Inr (decision None Self_Trigger_Blocked, d1)
                   else Inr (scheduleHuman d1 e directed))"

definition cancel :: "director \<Rightarrow> director" where
  "cancel d = d\<lparr>cancelled := True\<rparr>"

definition duplicateTrackingCount :: "director \<Rightarrow> nat" where
  "duplicateTrackingCount d = length (seenOrder d)"

definition setMuted :: "director \<Rightarrow> string \<Rightarrow> bool \<Rightarrow> js_error + director" where
  "setMuted d p m =
     (if p \<notin> set (personas d) then Inl (RangeError (''unknown persona: '' @ p))
      else Inr (d\<lparr>muted := (if m then insert p (muted d) else muted d - {p})\<rparr>))"

section \<open>Snapshots\<close>

definition snapshot :: "director \<Rightarrow> jval" where
  "snapshot d = JObj
     [(''version'', JInt 1),
      (''autonomousTurns'', JInt (int (autonomousTurns d))),
      (''acceptedHumanEventNumber'', JInt (int (acceptedHumanEventNumber d))),
      (''fallbackIndex'', JInt (int (fallbackIndex d))),
      (''cancelled'', JBool (cancelled d)),
      (''maxAutonomousTurns'', JInt (int (maxAutonomousTurns d))),
      (''lastSelectedAt'', JArr (map (\<lambda>(p, n). JArr [JStr p, JInt (int n)]) (lastSelectedAt d))),
      (''seen'', JArr (map (\<lambda>(ns, i). JArr [JStr ns, JStr i]) (seenOrder d)))]"

definition DIRECTOR_SNAPSHOT_KEYS :: "string list" where
  "DIRECTOR_SNAPSHOT_KEYS =
     [''acceptedHumanEventNumber'', ''autonomousTurns'', ''cancelled'', ''fallbackIndex'',
      ''lastSelectedAt'', ''maxAutonomousTurns'', ''seen'', ''version'']"

text \<open>The first loop of \<open>#restore\<close>: the selection history, entry by entry.\<close>

fun restoreSelections ::
    "jval list \<Rightarrow> string set \<Rightarrow> nat set \<Rightarrow> director \<Rightarrow> js_error + director" where
  "restoreSelections [] selected numbers d = Inr d"
| "restoreSelections (entry # rest) selected numbers d =
     (case entry of
        JArr [JStr p, v] \<Rightarrow>
          if p \<notin> set (personas d) \<or> p \<in> selected
          then Inl (TypeError ''snapshot lastSelectedAt is invalid'')
          else bindE (requireNonNegativeInteger v ''snapshot event number'') (\<lambda>n.
            if n = 0 \<or> n > acceptedHumanEventNumber d \<or> n \<in> numbers
            then Inl (TypeError ''snapshot lastSelectedAt is inconsistent'')
            else restoreSelections rest (insert p selected) (insert n numbers)
                   (d\<lparr>lastSelectedAt := AList.update p n (lastSelectedAt d)\<rparr>))
      | _ \<Rightarrow> Inl (TypeError ''snapshot lastSelectedAt is invalid''))"

text \<open>\<open>reduce\<close> to the entry with the largest event number, the earlier one on a tie.\<close>

definition latestSelection :: "(string \<times> nat) list \<Rightarrow> string \<times> nat" where
  "latestSelection es = foldl (\<lambda>latest entry. if snd entry > snd latest then entry else latest) (hd es) (tl es)"

definition checkSelectionHistory :: "director \<Rightarrow> js_error + unit" where
  "checkSelectionHistory d =
     (if length (lastSelectedAt d) > autonomousTurns d \<or>
         (autonomousTurns d = 0) \<noteq> (lastSelectedAt d = [])
      then Inl (TypeError ''snapshot selection history is inconsistent'')
      else if autonomousTurns d = 0
      then (if fallbackIndex d \<noteq> 0
            then Inl (TypeError ''snapshot fallbackIndex is inconsistent with selection history'')
            else Inr ())
      else let latest = latestSelection (lastSelectedAt d)
           in if snd latest < autonomousTurns d
              then Inl (TypeError ''snapshot selection history is inconsistent'')
              else if fallbackIndex d \<noteq> (snd (rosterSpeaker d (fst latest)) + 1) mod length (personas d)
              then Inl (TypeError ''snapshot fallbackIndex is inconsistent with selection history'')
              else Inr ())"

text \<open>The second loop of \<open>#restore\<close>: the duplicate window, oldest first.\<close>

fun restoreSeen :: "jval list \<Rightarrow> director \<Rightarrow> js_error + director" where
  "restoreSeen [] d = Inr d"
| "restoreSeen (entry # rest) d =
     (case entry of
        JArr [a, b] \<Rightarrow>
          (case (a, b) of
             (JStr ns0, JStr i0) \<Rightarrow>
               bindE (requireCanonicalIdentifier ns0 ''snapshot namespace'' (Some MAX_NAMESPACE_LENGTH)) (\<lambda>ns.
               bindE (requireCanonicalIdentifier i0 ''snapshot eventId'' (Some MAX_EVENT_ID_LENGTH)) (\<lambda>i.
                 if hasSeen d ns i then Inl (TypeError ''snapshot seen identities must be unique'')
                 else restoreSeen rest (recordSeen d ns i)))
           | (JStr ns0, _) \<Rightarrow>
               bindE (requireCanonicalIdentifier ns0 ''snapshot namespace'' (Some MAX_NAMESPACE_LENGTH)) (\<lambda>_.
                 Inl (TypeError ''snapshot eventId must be a canonical nonblank string''))
           | _ \<Rightarrow> Inl (TypeError ''snapshot namespace must be a canonical nonblank string''))
      | _ \<Rightarrow> Inl (TypeError ''snapshot seen identity is invalid''))"

definition restoreCollections :: "jval \<Rightarrow> director \<Rightarrow> js_error + director" where
  "restoreCollections s d =
     (case (jget ''lastSelectedAt'' s, jget ''seen'' s) of
        (JArr selections, JArr seen) \<Rightarrow>
          if length seen > MAX_TRACKED_EVENT_IDENTITIES
          then Inl (TypeError ''director snapshot collections are invalid'')
          else bindE (restoreSelections selections {} {} d) (\<lambda>d1.
               bindE (checkSelectionHistory d1) (\<lambda>_.
                 if length seen < min (acceptedHumanEventNumber d1) MAX_TRACKED_EVENT_IDENTITIES
                 then Inl (TypeError ''snapshot seen history is inconsistent'')
                 else restoreSeen seen d1))
      | _ \<Rightarrow> Inl (TypeError ''director snapshot collections are invalid''))"

definition restore :: "jval \<Rightarrow> director \<Rightarrow> js_error + director" where
  "restore s d =
     (if jget ''version'' s \<noteq> JInt 1 \<or>
         js_join nul (sort (jkeys s)) \<noteq> js_join nul DIRECTOR_SNAPSHOT_KEYS
      then Inl (TypeError ''director snapshot version is invalid'')
      else
        bindE (requireNonNegativeInteger (jget ''autonomousTurns'' s) ''snapshot autonomousTurns'') (\<lambda>turns.
        bindE (requireNonNegativeInteger (jget ''acceptedHumanEventNumber'' s)
                 ''snapshot acceptedHumanEventNumber'') (\<lambda>accepted.
        if turns > accepted then Inl (TypeError ''snapshot autonomousTurns is inconsistent'')
        else
        bindE (requireNonNegativeInteger (jget ''fallbackIndex'' s) ''snapshot fallbackIndex'') (\<lambda>fallback.
        if (if personas d = [] then fallback \<noteq> 0 else fallback \<ge> length (personas d))
        then Inl (TypeError ''snapshot fallbackIndex is outside the roster'')
        else case jget ''cancelled'' s of
          JBool c \<Rightarrow>
            restoreCollections s
              (d\<lparr>autonomousTurns := turns, acceptedHumanEventNumber := accepted,
                 fallbackIndex := fallback, cancelled := c\<rparr>)
        | _ \<Rightarrow> Inl (TypeError ''snapshot cancelled is invalid'')))))"

text \<open>
  The constructor. \<open>options.maxAutonomousTurns\<close> and the snapshot are values; \<open>JUndefined\<close>
  stands for an absent option or snapshot.
\<close>

definition newDirector :: "string list \<Rightarrow> jval \<Rightarrow> jval \<Rightarrow> js_error + director" where
  "newDirector ps option snap =
     bindE (mapE (\<lambda>p. requireCanonicalIdentifier p ''persona id'' None) ps) (\<lambda>canonical.
     if \<not> distinct canonical then Inl (TypeError ''duplicate persona ids are not allowed'')
     else case jsafe_nonneg (coalesce (jget ''maxAutonomousTurns'' snap)
                 (coalesce option (JInt DEFAULT_AUTONOMOUS_TURN_BUDGET))) of
       None \<Rightarrow> Inl (TypeError ''maxAutonomousTurns must be a non-negative integer'')
     | Some budget \<Rightarrow>
         if snap \<noteq> JUndefined \<and> option \<noteq> JUndefined \<and> snap = JNull
         then Inl (TypeError ''Cannot read properties of null'')
         else if snap \<noteq> JUndefined \<and> option \<noteq> JUndefined \<and> option \<noteq> jget ''maxAutonomousTurns'' snap
         then Inl (TypeError ''snapshot autonomous-turn budget does not match options'')
         else let d = \<lparr>personas = canonical, muted = {}, lastSelectedAt = [],
                       seenByNamespace = (\<lambda>_. None), seenOrder = [], maxAutonomousTurns = budget,
                       autonomousTurns = 0, acceptedHumanEventNumber = 0, fallbackIndex = 0,
                       cancelled = False\<rparr>
              in if snap = JUndefined then Inr d else restore snap d)"

section \<open>The director's window implements the interface\<close>

text \<open>What \<open>#seenByNamespace\<close> holds is a function of \<open>#seenOrder\<close>: no empty set is kept.\<close>

definition seenIndex :: "(string \<times> string) list \<Rightarrow> string \<Rightarrow> string set option" where
  "seenIndex order ns =
     (let ids = {i. (ns, i) \<in> set order} in if ids = {} then None else Some ids)"

definition seen_window :: "director \<Rightarrow> bool" where
  "seen_window d \<longleftrightarrow>
     distinct (seenOrder d) \<and> length (seenOrder d) \<le> MAX_TRACKED_EVENT_IDENTITIES \<and>
     seenByNamespace d = seenIndex (seenOrder d)"

lemma seenIndex_Nil [simp]: "seenIndex [] = (\<lambda>_. None)"
  by (simp add: seenIndex_def fun_eq_iff)

lemma seenIndex_iff: "(case seenIndex order ns of None \<Rightarrow> False | Some ids \<Rightarrow> i \<in> ids) \<longleftrightarrow> (ns, i) \<in> set order"
  by (auto simp: seenIndex_def Let_def)

lemma hasSeen_iff: "seen_window d \<Longrightarrow> hasSeen d ns i \<longleftrightarrow> (ns, i) \<in> set (seenOrder d)"
  by (simp add: hasSeen_def seen_window_def seenIndex_iff)

lemma addIdentity_seenIndex: "addIdentity (seenIndex order) ns i = seenIndex (order @ [(ns, i)])"
  by (auto simp: addIdentity_def seenIndex_def Let_def fun_eq_iff)

lemma dropIdentity_seenIndex:
  assumes "distinct ((ns, i) # order)"
  shows "dropIdentity (seenIndex ((ns, i) # order)) ns i = seenIndex order"
proof -
  have new: "(ns, i) \<notin> set order" using assms by simp
  then have "{j. (ns, j) \<in> set ((ns, i) # order)} - {i} = {j. (ns, j) \<in> set order}"
    by auto
  then show ?thesis
    by (auto simp: dropIdentity_def seenIndex_def Let_def fun_eq_iff)
qed

lemma recordSeen_below:
  assumes "seen_window d" and "\<not> hasSeen d ns i" and "length (seenOrder d) < MAX_TRACKED_EVENT_IDENTITIES"
  shows "recordSeen d ns i =
    d\<lparr>seenByNamespace := seenIndex (seenOrder d @ [(ns, i)]), seenOrder := seenOrder d @ [(ns, i)]\<rparr>"
  using assms by (simp add: recordSeen_def Let_def seen_window_def addIdentity_seenIndex)

lemma recordSeen_full:
  assumes w: "seen_window d" and new: "\<not> hasSeen d ns i"
    and full: "\<not> length (seenOrder d) < MAX_TRACKED_EVENT_IDENTITIES"
  shows "recordSeen d ns i =
    d\<lparr>seenByNamespace := seenIndex (tl (seenOrder d) @ [(ns, i)]),
      seenOrder := tl (seenOrder d) @ [(ns, i)]\<rparr>"
proof -
  obtain ns0 i0 rest where order: "seenOrder d = (ns0, i0) # rest"
    using full by (cases "seenOrder d") (auto simp: MAX_TRACKED_EVENT_IDENTITIES_def)
  have "distinct ((ns0, i0) # rest @ [(ns, i)])"
    using w new hasSeen_iff [OF w] by (auto simp: seen_window_def order)
  then show ?thesis
    using full w dropIdentity_seenIndex [of ns0 i0 "rest @ [(ns, i)]"]
      addIdentity_seenIndex [of "seenOrder d" ns i]
    by (simp add: recordSeen_def Let_def order seen_window_def)
qed

lemma seenOrder_recordSeen:
  assumes "seen_window d" and "\<not> hasSeen d ns i"
  shows "seenOrder (recordSeen d ns i) =
    (if length (seenOrder d) < MAX_TRACKED_EVENT_IDENTITIES then seenOrder d @ [(ns, i)]
     else tl (seenOrder d) @ [(ns, i)])"
  using assms by (simp add: recordSeen_below recordSeen_full)

lemma seen_window_recordSeen:
  assumes w: "seen_window d" and new: "\<not> hasSeen d ns i"
  shows "seen_window (recordSeen d ns i)"
proof -
  have fresh: "(ns, i) \<notin> set (seenOrder d)"
    using new hasSeen_iff [OF w] by simp
  show ?thesis
  proof (cases "length (seenOrder d) < MAX_TRACKED_EVENT_IDENTITIES")
    case True
    then show ?thesis using w fresh
      by (simp add: recordSeen_below [OF w new] seen_window_def)
  next
    case False
    then show ?thesis using w fresh
      by (auto simp: recordSeen_full [OF w new] seen_window_def distinct_tl
          MAX_TRACKED_EVENT_IDENTITIES_def dest: list.set_sel(2) [rotated])
  qed
qed

lemma recordSeen_frame [simp]:
  "personas (recordSeen d ns i) = personas d"
  "muted (recordSeen d ns i) = muted d"
  "lastSelectedAt (recordSeen d ns i) = lastSelectedAt d"
  "maxAutonomousTurns (recordSeen d ns i) = maxAutonomousTurns d"
  "autonomousTurns (recordSeen d ns i) = autonomousTurns d"
  "acceptedHumanEventNumber (recordSeen d ns i) = acceptedHumanEventNumber d"
  "fallbackIndex (recordSeen d ns i) = fallbackIndex d"
  "cancelled (recordSeen d ns i) = cancelled d"
  by (simp_all add: recordSeen_def Let_def)

interpretation dw: dedup_window
  "\<lambda>d k. hasSeen d (fst k) (snd k)" "\<lambda>d k. recordSeen d (fst k) (snd k)" seenOrder
  MAX_TRACKED_EVENT_IDENTITIES seen_window
proof unfold_locales
  show "0 < MAX_TRACKED_EVENT_IDENTITIES" by (simp add: MAX_TRACKED_EVENT_IDENTITIES_def)
next
  fix d k
  assume w: "seen_window d"
  show "hasSeen d (fst k) (snd k) = (k \<in> set (seenOrder d))" by (simp add: hasSeen_iff [OF w])
  show "length (seenOrder d) \<le> MAX_TRACKED_EVENT_IDENTITIES" using w by (simp add: seen_window_def)
  assume "\<not> hasSeen d (fst k) (snd k)"
  with w show "seenOrder (recordSeen d (fst k) (snd k)) =
      (if length (seenOrder d) < MAX_TRACKED_EVENT_IDENTITIES then seenOrder d @ [k]
       else tl (seenOrder d) @ [k])"
    and "seen_window (recordSeen d (fst k) (snd k))"
    by (simp_all add: seenOrder_recordSeen seen_window_recordSeen)
qed

end
