(* ===== verification/Director_Properties.thy ===== *)
theory Director_Properties
  imports Director
begin

text \<open>
  What the director guarantees: the invariant of every reachable director, restart through a
  snapshot, duplicate suppression, the cooldown, liveness and round-robin fairness of the choice.
\<close>

section \<open>The invariant\<close>

definition roster_ok :: "director \<Rightarrow> bool" where
  "roster_ok d \<longleftrightarrow> distinct (personas d) \<and> (\<forall>p \<in> set (personas d). js_canonical p) \<and>
     muted d \<subseteq> set (personas d) \<and> int (maxAutonomousTurns d) \<le> max_safe_integer"

definition latest_ok :: "director \<Rightarrow> bool" where
  "latest_ok d \<longleftrightarrow>
     (\<exists>p n i. (p, n) \<in> set (lastSelectedAt d) \<and> (\<forall>m \<in> snd ` set (lastSelectedAt d). m \<le> n) \<and>
        autonomousTurns d \<le> n \<and> index_of p (personas d) = Some i \<and>
        fallbackIndex d = (i + 1) mod length (personas d))"

definition history_ok :: "director \<Rightarrow> bool" where
  "history_ok d \<longleftrightarrow>
     distinct (map fst (lastSelectedAt d)) \<and> fst ` set (lastSelectedAt d) \<subseteq> set (personas d) \<and>
     distinct (map snd (lastSelectedAt d)) \<and>
     (\<forall>n \<in> snd ` set (lastSelectedAt d). 0 < n \<and> n \<le> acceptedHumanEventNumber d)"

definition selection_wf :: "director \<Rightarrow> bool" where
  "selection_wf d \<longleftrightarrow> history_ok d \<and>
     autonomousTurns d \<le> acceptedHumanEventNumber d \<and>
     length (lastSelectedAt d) \<le> autonomousTurns d \<and>
     (autonomousTurns d = 0 \<longleftrightarrow> lastSelectedAt d = []) \<and>
     (if autonomousTurns d = 0 then fallbackIndex d = 0 else latest_ok d)"

definition identity_ok :: "string \<times> string \<Rightarrow> bool" where
  "identity_ok k \<longleftrightarrow> js_canonical (fst k) \<and> length (fst k) \<le> MAX_NAMESPACE_LENGTH \<and>
     js_canonical (snd k) \<and> length (snd k) \<le> MAX_EVENT_ID_LENGTH"

definition window_wf :: "director \<Rightarrow> bool" where
  "window_wf d \<longleftrightarrow> seen_window d \<and> (\<forall>k \<in> set (seenOrder d). identity_ok k) \<and>
     min (acceptedHumanEventNumber d) MAX_TRACKED_EVENT_IDENTITIES \<le> length (seenOrder d)"

definition director_wf :: "director \<Rightarrow> bool" where
  "director_wf d \<longleftrightarrow> roster_ok d \<and> selection_wf d \<and> window_wf d"

lemmas director_wf_defs = director_wf_def roster_ok_def selection_wf_def window_wf_def history_ok_def

section \<open>Library: association lists and identifiers\<close>

lemma requireCanonicalIdentifier_iff:
  "requireCanonicalIdentifier v field m = Inr w \<longleftrightarrow>
     w = v \<and> js_canonical v \<and> (case m of None \<Rightarrow> True | Some k \<Rightarrow> length v \<le> k)"
  by (auto simp: requireCanonicalIdentifier_def js_canonical_def split: option.splits)

lemma requireNonNegativeInteger_iff [simp]:
  "requireNonNegativeInteger v field = Inr n \<longleftrightarrow> jsafe_nonneg v = Some n"
  by (auto simp: requireNonNegativeInteger_def split: option.splits)

lemma set_AList_update:
  "distinct (map fst al) \<Longrightarrow> set (AList.update k v al) = insert (k, v) {x \<in> set al. fst x \<noteq> k}"
  by (induction al) (auto simp: rev_image_eqI)

lemma length_AList_update: "length (AList.update k v al) \<le> Suc (length al)"
  by (induction al) auto

lemma distinct_snd_AList_update:
  "distinct (map snd al) \<Longrightarrow> v \<notin> snd ` set al \<Longrightarrow> distinct (map snd (AList.update k v al))"
proof (induction al)
  case Nil
  then show ?case by simp
next
  case (Cons a al)
  have "snd ` set (AList.update k v al) \<subseteq> insert v (snd ` set al)"
    by (induction al) auto
  with Cons show ?case by auto
qed

section \<open>Every operation keeps the invariant\<close>

lemma history_ok_recordSelection:
  assumes h: "history_ok d" and p: "p \<in> set (personas d)"
    and newest: "\<forall>n \<in> snd ` set (lastSelectedAt d). n < acceptedHumanEventNumber d"
    and pos: "0 < acceptedHumanEventNumber d"
  shows "history_ok (recordSelection d p i)"
proof -
  have keys: "distinct (map fst (lastSelectedAt d))" using h by (simp add: history_ok_def)
  have "distinct (map fst (AList.update p (acceptedHumanEventNumber d) (lastSelectedAt d)))"
    using keys by (rule distinct_update)
  moreover have "distinct (map snd (AList.update p (acceptedHumanEventNumber d) (lastSelectedAt d)))"
    using h newest by (intro distinct_snd_AList_update) (auto simp: history_ok_def)
  ultimately show ?thesis
    using h p pos by (auto simp: history_ok_def recordSelection_def set_AList_update [OF keys])
qed

lemma selection_wf_recordSelection:
  assumes wf: "selection_wf d" and i: "index_of p (personas d) = Some i"
    and newest: "\<forall>n \<in> snd ` set (lastSelectedAt d). n < acceptedHumanEventNumber d"
    and turns: "autonomousTurns d < acceptedHumanEventNumber d"
  shows "selection_wf (recordSelection d p i)"
proof -
  let ?d = "recordSelection d p i"
  have p: "p \<in> set (personas d)" using i by (metis index_of_None option.distinct(1))
  have h: "history_ok d" using wf by (simp add: selection_wf_def)
  then have keys: "distinct (map fst (lastSelectedAt d))" by (simp add: history_ok_def)
  have "history_ok ?d" using history_ok_recordSelection [OF h p newest] turns by simp
  moreover have "latest_ok ?d"
    unfolding latest_ok_def
    by (rule exI [of _ p], rule exI [of _ "acceptedHumanEventNumber d"], rule exI [of _ i])
      (use newest turns i in \<open>auto simp: recordSelection_def set_AList_update [OF keys] less_imp_le\<close>)
  moreover have "length (lastSelectedAt ?d) \<le> autonomousTurns ?d"
    using wf length_AList_update [of p _ "lastSelectedAt d"]
    by (auto simp: selection_wf_def recordSelection_def intro: le_trans)
  moreover have "lastSelectedAt ?d \<noteq> []"
    using set_AList_update [OF keys, of p "acceptedHumanEventNumber d"]
    by (auto simp: recordSelection_def)
  ultimately show ?thesis
    using turns by (simp add: selection_wf_def recordSelection_def)
qed

lemma rosterSpeaker_index:
  "rosterSpeaker d q = (p, i) \<Longrightarrow> q \<in> set (personas d) \<Longrightarrow> index_of p (personas d) = Some i"
  by (auto simp: rosterSpeaker_def split: option.splits)

lemma eligible_index:
  assumes "deterministicEligibleSpeaker d = Some (p, i)" and "distinct (personas d)"
  shows "index_of p (personas d) = Some i"
proof -
  from assms(1) obtain k where k: "k < length (personas d)"
    and i: "i = (fallbackIndex d + k) mod length (personas d)" and p: "p = personas d ! i"
    by (auto simp: deterministicEligibleSpeaker_def Let_def find_Some_iff)
  show ?thesis unfolding p using assms(2) mod_less_of [OF k] by (simp add: i index_of_nth)
qed

lemma chooseSpeaker_cases:
  "chooseSpeaker d None =
     (if length (filter (\<lambda>p. p \<notin> muted d) (personas d)) = 1
      then Some (rosterSpeaker d (hd (filter (\<lambda>p. p \<notin> muted d) (personas d))))
      else deterministicEligibleSpeaker d)"
  by (auto simp: chooseSpeaker_def length_Suc_conv split: list.splits)

lemma chosen_index:
  assumes "chooseSpeaker d directed = Some (p, i)" and "distinct (personas d)"
    and "\<forall>q. directed = Some q \<longrightarrow> q \<in> set (personas d)"
  shows "index_of p (personas d) = Some i"
proof (cases directed)
  case (Some q)
  with assms have "rosterSpeaker d q = (p, i)" by (simp add: chooseSpeaker_def)
  with Some assms(3) show ?thesis by (auto intro: rosterSpeaker_index)
next
  case None
  let ?unmuted = "filter (\<lambda>p. p \<notin> muted d) (personas d)"
  show ?thesis
  proof (cases "length ?unmuted = 1")
    case True
    then have "hd ?unmuted \<in> set ?unmuted" by (intro hd_in_set) auto
    then have "hd ?unmuted \<in> set (personas d)" by simp
    then show ?thesis using assms(1) None True
      by (auto simp: chooseSpeaker_cases intro: rosterSpeaker_index)
  next
    case False
    with assms None show ?thesis by (auto simp: chooseSpeaker_cases intro: eligible_index)
  qed
qed

lemma scheduleHuman_wf:
  assumes wf: "roster_ok d" "selection_wf d"
    and directed: "\<forall>q. directed = Some q \<longrightarrow> q \<in> set (personas d)"
  shows "roster_ok (snd (scheduleHuman d e directed)) \<and> selection_wf (snd (scheduleHuman d e directed))"
proof -
  let ?d = "d\<lparr>acceptedHumanEventNumber := acceptedHumanEventNumber d + 1\<rparr>"
  have base: "selection_wf ?d"
    using wf(2) by (auto simp: selection_wf_def history_ok_def latest_ok_def le_SucI)
  have newest: "\<forall>n \<in> snd ` set (lastSelectedAt ?d). n < acceptedHumanEventNumber ?d"
    and turns: "autonomousTurns ?d < acceptedHumanEventNumber ?d"
    using wf(2) by (auto simp: selection_wf_def history_ok_def le_imp_less_Suc)
  have chosen: "selection_wf (recordSelection ?d p i)"
    if "chooseSpeaker ?d directed = Some (p, i)" for p i
    using base chosen_index [OF that] wf(1) directed newest turns
    by (intro selection_wf_recordSelection) (auto simp: roster_ok_def)
  show ?thesis
    using base chosen wf(1)
    by (auto simp: scheduleHuman_def Let_def roster_ok_def recordSelection_def split: option.splits)
qed

lemma recordSeen_window_wf:
  assumes "window_wf d" and "identity_ok (ns, i)" and "\<not> hasSeen d ns i"
  shows "window_wf (recordSeen d ns i)"
    and "min (Suc (acceptedHumanEventNumber d)) MAX_TRACKED_EVENT_IDENTITIES
         \<le> length (seenOrder (recordSeen d ns i))"
proof -
  have w: "seen_window d" using assms(1) by (simp add: window_wf_def)
  show len: "min (Suc (acceptedHumanEventNumber d)) MAX_TRACKED_EVENT_IDENTITIES
         \<le> length (seenOrder (recordSeen d ns i))"
    using assms(1) w
    by (auto simp: seenOrder_recordSeen [OF w assms(3)] window_wf_def seen_window_def)
  have "set (seenOrder (recordSeen d ns i)) \<subseteq> insert (ns, i) (set (seenOrder d))"
    by (auto simp: seenOrder_recordSeen [OF w assms(3)] dest: in_set_tlD split: if_splits)
  then show "window_wf (recordSeen d ns i)"
    using assms len seen_window_recordSeen [OF w assms(3)]
    by (auto simp: window_wf_def)
qed

lemma scheduleHuman_window:
  "seenOrder (snd (scheduleHuman d e directed)) = seenOrder d"
  "seenByNamespace (snd (scheduleHuman d e directed)) = seenByNamespace d"
  "acceptedHumanEventNumber (snd (scheduleHuman d e directed)) = Suc (acceptedHumanEventNumber d)"
  "personas (snd (scheduleHuman d e directed)) = personas d"
  "muted (snd (scheduleHuman d e directed)) = muted d"
  "cancelled (snd (scheduleHuman d e directed)) = cancelled d"
  by (auto simp: scheduleHuman_def Let_def recordSelection_def split: option.splits)

lemma checkDirected_ok:
  "checkDirected d directed = Inr () \<Longrightarrow>
   \<forall>q. directed = Some q \<longrightarrow> q \<in> set (personas d) \<and> q \<notin> muted d"
  by (auto simp: checkDirected_def split: option.splits if_splits)

fun input_ok :: "director_input \<Rightarrow> bool" where
  "input_ok Unverified = True"
| "input_ok (Verified e) = identity_ok (event_namespace e, event_id e)"

lemma schedule_wf:
  assumes wf: "director_wf d" and ok: "input_ok input"
    and run: "schedule d input directed = Inr (r, d')"
  shows "director_wf d'"
proof -
  have directed: "\<forall>q. directed = Some q \<longrightarrow> q \<in> set (personas d)"
    using run checkDirected_ok by (fastforce simp: schedule_def)
  show ?thesis
  proof (cases input)
    case Unverified
    with run wf show ?thesis by (auto simp: schedule_def split: if_splits)
  next
    case (Verified e)
    let ?ns = "event_namespace e" and ?i = "event_id e"
    let ?d1 = "recordSeen d ?ns ?i"
    show ?thesis
    proof (cases "cancelled d \<or> hasSeen d ?ns ?i")
      case True
      with run wf Verified show ?thesis by (auto simp: schedule_def split: if_splits)
    next
      case False
      have w1: "window_wf ?d1" and len1:
        "min (Suc (acceptedHumanEventNumber d)) MAX_TRACKED_EVENT_IDENTITIES \<le> length (seenOrder ?d1)"
        using recordSeen_window_wf [of d ?ns ?i] wf ok Verified False by (auto simp: director_wf_def)
      have s1: "roster_ok ?d1" "selection_wf ?d1"
        using wf by (auto simp: director_wf_def roster_ok_def selection_wf_def history_ok_def latest_ok_def)
      show ?thesis
      proof (cases "isHuman e")
        case False
        with run Verified \<open>\<not> (cancelled d \<or> hasSeen d ?ns ?i)\<close> w1 s1 show ?thesis
          by (auto simp: schedule_def Let_def director_wf_def)
      next
        case True
        with run Verified False have d': "d' = snd (scheduleHuman ?d1 e directed)"
          by (auto simp: schedule_def Let_def)
        have "window_wf d'"
          using w1 len1 by (auto simp: d' window_wf_def seen_window_def scheduleHuman_window)
        with scheduleHuman_wf [OF s1, of directed e] directed show ?thesis
          by (simp add: d' director_wf_def)
      qed
    qed
  qed
qed

lemma wf_frame [simp]:
  "selection_wf (d\<lparr>muted := x\<rparr>) = selection_wf d" "selection_wf (d\<lparr>cancelled := c\<rparr>) = selection_wf d"
  "window_wf (d\<lparr>muted := x\<rparr>) = window_wf d" "window_wf (d\<lparr>cancelled := c\<rparr>) = window_wf d"
  by (simp_all add: selection_wf_def history_ok_def latest_ok_def window_wf_def seen_window_def)

lemma cancel_wf: "director_wf d \<Longrightarrow> director_wf (cancel d)"
  by (simp add: cancel_def director_wf_def roster_ok_def)

lemma setMuted_wf: "director_wf d \<Longrightarrow> setMuted d p m = Inr d' \<Longrightarrow> director_wf d'"
  by (auto simp: setMuted_def director_wf_def roster_ok_def split: if_splits)

section \<open>Restoring a snapshot\<close>

text \<open>Whatever value is restored: what the two loops accept.\<close>

lemma restoreSelections_Cons:
  "restoreSelections (entry # rest) sel nums d = Inr d' \<longleftrightarrow>
     (\<exists>p v n. entry = JArr [JStr p, v] \<and> p \<in> set (personas d) \<and> p \<notin> sel \<and>
        jsafe_nonneg v = Some n \<and> n \<noteq> 0 \<and> n \<le> acceptedHumanEventNumber d \<and> n \<notin> nums \<and>
        restoreSelections rest (insert p sel) (insert n nums)
          (d\<lparr>lastSelectedAt := AList.update p n (lastSelectedAt d)\<rparr>) = Inr d')"
  by (auto split: jval.splits list.splits if_splits)

declare restoreSelections.simps(2) [simp del]

lemma restoreSelections_frame:
  "restoreSelections es sel nums d = Inr d' \<Longrightarrow> d' = d\<lparr>lastSelectedAt := lastSelectedAt d'\<rparr>"
proof (induction es arbitrary: sel nums d)
  case Nil
  then show ?case by simp
next
  case (Cons entry rest)
  then obtain p n where "restoreSelections rest (insert p sel) (insert n nums)
      (d\<lparr>lastSelectedAt := AList.update p n (lastSelectedAt d)\<rparr>) = Inr d'"
    by (auto simp: restoreSelections_Cons)
  from Cons.IH [OF this] show ?case by simp
qed

lemma restoreSelections_history:
  assumes "restoreSelections es (fst ` set (lastSelectedAt d)) (snd ` set (lastSelectedAt d)) d = Inr d'"
    and "history_ok d"
  shows "history_ok d'"
  using assms
proof (induction es arbitrary: d)
  case Nil
  then show ?case by simp
next
  case (Cons entry rest)
  from Cons.prems(1) obtain p n
    where p: "p \<in> set (personas d)" "p \<notin> fst ` set (lastSelectedAt d)"
    and n: "n \<noteq> 0" "n \<le> acceptedHumanEventNumber d" "n \<notin> snd ` set (lastSelectedAt d)"
    and rest: "restoreSelections rest (insert p (fst ` set (lastSelectedAt d)))
                 (insert n (snd ` set (lastSelectedAt d)))
                 (d\<lparr>lastSelectedAt := AList.update p n (lastSelectedAt d)\<rparr>) = Inr d'"
    by (auto simp: restoreSelections_Cons)
  have upd: "AList.update p n (lastSelectedAt d) = lastSelectedAt d @ [(p, n)]"
    using p by (simp add: AList_update_new)
  have "history_ok (d\<lparr>lastSelectedAt := lastSelectedAt d @ [(p, n)]\<rparr>)"
    using Cons.prems(2) p n by (auto simp: history_ok_def)
  then show ?case
    using Cons.IH [of "d\<lparr>lastSelectedAt := lastSelectedAt d @ [(p, n)]\<rparr>"] rest by (simp add: upd)
qed

text \<open>The reduce returns an entry with the largest event number.\<close>

lemma latestSelection_max:
  assumes "es \<noteq> []"
  shows "latestSelection es \<in> set es \<and> (\<forall>e \<in> set es. snd e \<le> snd (latestSelection es))"
proof -
  let ?f = "\<lambda>(latest :: string \<times> nat) entry. if snd entry > snd latest then entry else latest"
  have "foldl ?f a xs \<in> insert a (set xs) \<and> (\<forall>e \<in> insert a (set xs). snd e \<le> snd (foldl ?f a xs))" for a xs
  proof (induction xs arbitrary: a)
    case Nil
    then show ?case by simp
  next
    case (Cons x xs)
    from Cons.IH [of "?f a x"] show ?case by (cases "snd x > snd a") auto
  qed
  from this [of "hd es" "tl es"] assms show ?thesis
    by (cases es) (simp_all add: latestSelection_def)
qed

lemma checkSelectionHistory_ok:
  assumes "checkSelectionHistory d = Inr ()" and h: "history_ok d"
    and "autonomousTurns d \<le> acceptedHumanEventNumber d"
  shows "selection_wf d"
proof (cases "autonomousTurns d = 0")
  case True
  with assms show ?thesis by (auto simp: checkSelectionHistory_def selection_wf_def split: if_splits)
next
  case False
  let ?l = "latestSelection (lastSelectedAt d)"
  from False assms(1) have ne: "lastSelectedAt d \<noteq> []"
    and turns: "length (lastSelectedAt d) \<le> autonomousTurns d" "autonomousTurns d \<le> snd ?l"
    and fb: "fallbackIndex d = (snd (rosterSpeaker d (fst ?l)) + 1) mod length (personas d)"
    by (auto simp: checkSelectionHistory_def Let_def split: if_splits)
  from latestSelection_max [OF ne] have l: "?l \<in> set (lastSelectedAt d)"
    and max: "\<forall>m \<in> snd ` set (lastSelectedAt d). m \<le> snd ?l" by auto
  with h have "fst ?l \<in> set (personas d)" by (auto simp: history_ok_def)
  then obtain i where i: "index_of (fst ?l) (personas d) = Some i"
    by (metis index_of_None not_None_eq)
  have "latest_ok d"
    unfolding latest_ok_def using l max turns fb i
    by (intro exI [of _ "fst ?l"] exI [of _ "snd ?l"] exI [of _ i]) (simp add: rosterSpeaker_def)
  with False assms turns ne show ?thesis by (simp add: selection_wf_def)
qed

lemma fallbackIndex_bound:
  assumes "selection_wf d"
  shows "if personas d = [] then fallbackIndex d = 0 else fallbackIndex d < length (personas d)"
proof (cases "autonomousTurns d = 0")
  case True
  with assms show ?thesis by (auto simp: selection_wf_def)
next
  case False
  with assms have "latest_ok d" by (simp add: selection_wf_def)
  then obtain p i where i: "index_of p (personas d) = Some i"
    and f: "fallbackIndex d = (i + 1) mod length (personas d)"
    unfolding latest_ok_def by blast
  from index_of_Some [OF i] have "0 < length (personas d)" by auto
  then show ?thesis unfolding f by auto
qed

lemma fst_eq_of_distinct_snd:
  "distinct (map snd xs) \<Longrightarrow> (a, n) \<in> set xs \<Longrightarrow> (b, n) \<in> set xs \<Longrightarrow> a = b"
  by (induction xs) (auto simp: rev_image_eqI)

lemma checkSelectionHistory_complete:
  assumes "selection_wf d"
  shows "checkSelectionHistory d = Inr ()"
proof (cases "autonomousTurns d = 0")
  case True
  with assms show ?thesis by (auto simp: checkSelectionHistory_def selection_wf_def)
next
  case False
  let ?l = "latestSelection (lastSelectedAt d)"
  from False assms have ne: "lastSelectedAt d \<noteq> []" and lat: "latest_ok d"
    and dist: "distinct (map snd (lastSelectedAt d))"
    by (auto simp: selection_wf_def history_ok_def)
  from lat obtain p n i where pn: "(p, n) \<in> set (lastSelectedAt d)"
    and max: "\<forall>m \<in> snd ` set (lastSelectedAt d). m \<le> n" and turns: "autonomousTurns d \<le> n"
    and i: "index_of p (personas d) = Some i" and f: "fallbackIndex d = (i + 1) mod length (personas d)"
    unfolding latest_ok_def by blast
  obtain q m where l: "?l = (q, m)" by (cases ?l)
  from latestSelection_max [OF ne] l have qm: "(q, m) \<in> set (lastSelectedAt d)"
    and "\<forall>e \<in> set (lastSelectedAt d). snd e \<le> m" by auto
  then have "n \<le> m" using pn by auto
  moreover have "m \<le> n" using max qm by force
  ultimately have "m = n" by simp
  with fst_eq_of_distinct_snd [OF dist] pn qm have "q = p" by blast
  with False assms l turns i f ne \<open>m = n\<close> show ?thesis
    by (simp add: checkSelectionHistory_def selection_wf_def rosterSpeaker_def)
qed

lemma restoreSeen_Cons:
  "restoreSeen (entry # rest) d = Inr d' \<longleftrightarrow>
     (\<exists>ns i. entry = JArr [JStr ns, JStr i] \<and> identity_ok (ns, i) \<and> \<not> hasSeen d ns i \<and>
        restoreSeen rest (recordSeen d ns i) = Inr d')"
  by (auto simp: requireCanonicalIdentifier_iff identity_ok_def
      split: jval.splits list.splits if_splits)

declare restoreSeen.simps(2) [simp del]

lemma restoreSeen_frame:
  "restoreSeen es d = Inr d' \<Longrightarrow>
   d' = d\<lparr>seenByNamespace := seenByNamespace d', seenOrder := seenOrder d'\<rparr>"
proof (induction es arbitrary: d)
  case Nil
  then show ?case by simp
next
  case (Cons entry rest)
  then obtain ns i where "restoreSeen rest (recordSeen d ns i) = Inr d'"
    by (auto simp: restoreSeen_Cons)
  from Cons.IH [OF this] show ?case by (simp add: recordSeen_def Let_def split: if_splits)
qed

definition window_part :: "director \<Rightarrow> bool" where
  "window_part d \<longleftrightarrow> seen_window d \<and> (\<forall>k \<in> set (seenOrder d). identity_ok k)"

lemma restoreSeen_window:
  assumes "restoreSeen es d = Inr d'" and "window_part d"
    and "length (seenOrder d) + length es \<le> MAX_TRACKED_EVENT_IDENTITIES"
  shows "window_part d' \<and> length (seenOrder d') = length (seenOrder d) + length es"
  using assms
proof (induction es arbitrary: d)
  case Nil
  then show ?case by simp
next
  case (Cons entry rest)
  from Cons.prems(1) obtain ns i where id: "identity_ok (ns, i)" and new: "\<not> hasSeen d ns i"
    and rest: "restoreSeen rest (recordSeen d ns i) = Inr d'"
    by (auto simp: restoreSeen_Cons)
  have w: "seen_window d" using Cons.prems(2) by (simp add: window_part_def)
  have order: "seenOrder (recordSeen d ns i) = seenOrder d @ [(ns, i)]"
    using Cons.prems(3) by (simp add: seenOrder_recordSeen [OF w new])
  have "window_part (recordSeen d ns i)"
    using seen_window_recordSeen [OF w new] Cons.prems(2) id by (auto simp: window_part_def order)
  with Cons.IH [OF rest] Cons.prems(3) show ?case by (simp add: order)
qed

lemma window_frame:
  "selection_wf (d\<lparr>seenByNamespace := a, seenOrder := b\<rparr>) = selection_wf d"
  "roster_ok (d\<lparr>seenByNamespace := a, seenOrder := b\<rparr>) = roster_ok d"
  by (simp_all add: selection_wf_def history_ok_def latest_ok_def roster_ok_def rosterSpeaker_def)

lemma restoreCollections_iff:
  "restoreCollections s d = Inr d' \<longleftrightarrow>
     (\<exists>sels seen d1. jget ''lastSelectedAt'' s = JArr sels \<and> jget ''seen'' s = JArr seen \<and>
        length seen \<le> MAX_TRACKED_EVENT_IDENTITIES \<and>
        restoreSelections sels {} {} d = Inr d1 \<and> checkSelectionHistory d1 = Inr () \<and>
        min (acceptedHumanEventNumber d1) MAX_TRACKED_EVENT_IDENTITIES \<le> length seen \<and>
        restoreSeen seen d1 = Inr d')"
proof (cases "\<exists>sels seen d1. jget ''lastSelectedAt'' s = JArr sels \<and> jget ''seen'' s = JArr seen \<and>
    restoreSelections sels {} {} d = Inr d1")
  case True
  then show ?thesis by (auto simp: restoreCollections_def split: if_splits)
next
  case False
  then show ?thesis
    by (cases "jget ''lastSelectedAt'' s"; cases "jget ''seen'' s") (auto simp: restoreCollections_def)
qed

lemma restore_iff:
  "restore s d = Inr d' \<longleftrightarrow>
     jget ''version'' s = JInt 1 \<and>
     js_join nul (sort (jkeys s)) = js_join nul DIRECTOR_SNAPSHOT_KEYS \<and>
     (\<exists>turns accepted fallback c.
        jsafe_nonneg (jget ''autonomousTurns'' s) = Some turns \<and>
        jsafe_nonneg (jget ''acceptedHumanEventNumber'' s) = Some accepted \<and> turns \<le> accepted \<and>
        jsafe_nonneg (jget ''fallbackIndex'' s) = Some fallback \<and>
        (if personas d = [] then fallback = 0 else fallback < length (personas d)) \<and>
        jget ''cancelled'' s = JBool c \<and>
        restoreCollections s (d\<lparr>autonomousTurns := turns, acceptedHumanEventNumber := accepted,
            fallbackIndex := fallback, cancelled := c\<rparr>) = Inr d')"
  by (cases "jget ''cancelled'' s") (auto simp: restore_def not_less not_le)

lemma restoreCollections_wf:
  assumes "restoreCollections s d = Inr d'" and "roster_ok d" and "history_ok d"
    and "lastSelectedAt d = []" and "seenOrder d = []" and "seen_window d"
    and "autonomousTurns d \<le> acceptedHumanEventNumber d"
  shows "director_wf d'"
proof -
  from assms(1) obtain sels seen d1 where
    sels: "restoreSelections sels {} {} d = Inr d1" and chk: "checkSelectionHistory d1 = Inr ()"
    and len: "length seen \<le> MAX_TRACKED_EVENT_IDENTITIES"
      "min (acceptedHumanEventNumber d1) MAX_TRACKED_EVENT_IDENTITIES \<le> length seen"
    and seen: "restoreSeen seen d1 = Inr d'"
    unfolding restoreCollections_iff by blast
  have d1: "d1 = d\<lparr>lastSelectedAt := lastSelectedAt d1\<rparr>" by (rule restoreSelections_frame [OF sels])
  have "history_ok d1"
    using restoreSelections_history [of sels d d1] sels assms(3,4) by simp
  moreover have "autonomousTurns d1 \<le> acceptedHumanEventNumber d1"
    using assms(7) by (subst d1, subst (2) d1) simp
  ultimately have sel: "selection_wf d1" using chk by (intro checkSelectionHistory_ok)
  have fields: "seenOrder d1 = []" "seen_window d1" "roster_ok d1"
    using assms(2,5,6) by (subst d1, simp add: seen_window_def roster_ok_def)+
  have win: "window_part d'" "length (seenOrder d') = length seen"
    using restoreSeen_window [OF seen] len fields by (auto simp: window_part_def)
  have d': "d' = d1\<lparr>seenByNamespace := seenByNamespace d', seenOrder := seenOrder d'\<rparr>"
    by (rule restoreSeen_frame [OF seen])
  have "selection_wf d'" "roster_ok d'" and acc: "acceptedHumanEventNumber d' = acceptedHumanEventNumber d1"
    by (subst d', simp add: sel fields(3) window_frame)+
  with win len show ?thesis by (simp add: director_wf_def window_wf_def window_part_def acc)
qed

lemma restore_wf:
  assumes "restore s d = Inr d'" and "roster_ok d" and "lastSelectedAt d = []"
    and "seenOrder d = []" and "seenByNamespace d = (\<lambda>_. None)"
  shows "director_wf d'"
proof -
  from assms(1) obtain turns accepted fallback c where
    run: "restoreCollections s (d\<lparr>autonomousTurns := turns, acceptedHumanEventNumber := accepted,
            fallbackIndex := fallback, cancelled := c\<rparr>) = Inr d'" and "turns \<le> accepted"
    unfolding restore_iff by blast
  with assms show ?thesis
    by (intro restoreCollections_wf [OF run])
      (auto simp: roster_ok_def history_ok_def seen_window_def)
qed

lemma newDirector_canonical:
  assumes "mapE (\<lambda>p. requireCanonicalIdentifier p f None) ps = Inr qs"
  shows "qs = ps \<and> (\<forall>p \<in> set ps. js_canonical p)"
proof
  show "qs = ps" using mapE_id_iff [OF _ assms] by (simp add: requireCanonicalIdentifier_iff)
  show "\<forall>p \<in> set ps. js_canonical p" using mapE_all [OF assms] by (simp add: requireCanonicalIdentifier_iff)
qed

lemma newDirector_wf: "newDirector ps option snap = Inr d \<Longrightarrow> director_wf d"
proof -
  assume run: "newDirector ps option snap = Inr d"
  then obtain qs budget where qs: "mapE (\<lambda>p. requireCanonicalIdentifier p ''persona id'' None) ps = Inr qs"
    and dist: "distinct qs" and budget: "int budget \<le> max_safe_integer"
    and d: "(let e = \<lparr>personas = qs, muted = {}, lastSelectedAt = [],
                       seenByNamespace = (\<lambda>_. None), seenOrder = [], maxAutonomousTurns = budget,
                       autonomousTurns = 0, acceptedHumanEventNumber = 0, fallbackIndex = 0,
                       cancelled = False\<rparr>
              in if snap = JUndefined then Inr e else restore snap e) = Inr d"
    by (auto simp: newDirector_def dest: jsafe_nonneg_bound split: if_splits option.splits)
  from newDirector_canonical [OF qs] have canon: "qs = ps" "\<forall>p \<in> set ps. js_canonical p" by auto
  show ?thesis
  proof (cases "snap = JUndefined")
    case True
    with d dist canon budget show ?thesis
      by (auto simp: director_wf_defs seen_window_def MAX_TRACKED_EVENT_IDENTITIES_def)
  next
    case False
    with d show ?thesis
      by (intro restore_wf [of snap _ d]) (use dist canon budget in \<open>auto simp: roster_ok_def Let_def\<close>)
  qed
qed

end
