(* ===== verification/Director_Claims.thy ===== *)
theory Director_Claims
  imports Director_Properties
begin

text \<open>
  What the director promises its room: the invariant of every reachable director, restart through
  its own snapshot, at-most-once scheduling of an event, and round-robin choice that never starves
  a persona and never stays silent when someone can speak.
\<close>

section \<open>Reachable directors\<close>

text \<open>What a caller can hand to \<open>schedule\<close>: an event of an adapter, or something else.\<close>

definition adapter_input :: "director_input \<Rightarrow> bool" where
  "adapter_input input \<longleftrightarrow> input = Unverified \<or>
     (\<exists>ns0 ns i human txt wants. trustedEventAdapter ns0 = Inr ns \<and>
        adapterEvent ns i human txt wants = Inr input)"

inductive director_reach :: "director \<Rightarrow> bool" where
  start: "newDirector ps option snap = Inr d \<Longrightarrow> director_reach d"
| step_cancel: "director_reach d \<Longrightarrow> director_reach (cancel d)"
| step_mute: "director_reach d \<Longrightarrow> setMuted d p m = Inr d' \<Longrightarrow> director_reach d'"
| step_schedule: "director_reach d \<Longrightarrow> adapter_input input \<Longrightarrow>
    schedule d input directed = Inr (r, d') \<Longrightarrow> director_reach d'"

lemma adapter_input_ok: "adapter_input input \<Longrightarrow> input_ok input"
  by (auto simp: adapter_input_def trustedEventAdapter_def adapterEvent_def
      requireCanonicalIdentifier_iff identity_ok_def)

text \<open>
  Every director reachable from the constructor (with any snapshot value whatsoever) by
  any interleaving of schedule, setMuted and cancel satisfies the invariant: unique canonical
  roster, selection history consistent with the counters and the fallback index, and a duplicate
  window of at most 500 distinct well-formed identities whose per-namespace index agrees with it.
\<close>

theorem director_invariant: "director_reach d \<Longrightarrow> director_wf d"
proof (induction rule: director_reach.induct)
  case (start ps option snap d)
  then show ?case by (rule newDirector_wf)
next
  case (step_cancel d)
  then show ?case by (simp add: cancel_wf)
next
  case (step_mute d p m d')
  then show ?case by (blast intro: setMuted_wf)
next
  case (step_schedule d input directed r d')
  then show ?case by (blast intro: schedule_wf adapter_input_ok)
qed

definition example_director :: "director" where
  "example_director =
     \<lparr>personas = [''ada'', ''bob''], muted = {}, lastSelectedAt = [], seenByNamespace = (\<lambda>_. None),
      seenOrder = [], maxAutonomousTurns = 10, autonomousTurns = 0, acceptedHumanEventNumber = 0,
      fallbackIndex = 0, cancelled = False\<rparr>"

lemma newDirector_example: "newDirector [''ada'', ''bob''] JUndefined JUndefined = Inr example_director"
  by (simp add: newDirector_def requireCanonicalIdentifier_def js_trim_def js_trim_start_def
      js_trim_end_def js_space_def coalesce_def DEFAULT_AUTONOMOUS_TURN_BUDGET_def
      max_safe_integer_def example_director_def)

lemma example_director_wf: "director_wf example_director"
  by (rule newDirector_wf [OF newDirector_example])

theorem director_invariant_witness: "director_wf (cancel example_director)"
  by (intro director_invariant step_cancel start [OF newDirector_example])

section \<open>Restart through a snapshot\<close>

lemma restoreSelections_snapshot:
  assumes "distinct (map fst (lastSelectedAt d @ es))" and "distinct (map snd es)"
    and "fst ` set es \<subseteq> set (personas d)" and "fst ` set es \<inter> sel = {}" and "snd ` set es \<inter> nums = {}"
    and "\<forall>n \<in> snd ` set es. 0 < n \<and> n \<le> acceptedHumanEventNumber d"
    and "int (acceptedHumanEventNumber d) \<le> max_safe_integer"
  shows "restoreSelections (map (\<lambda>(p, n). JArr [JStr p, JInt (int n)]) es) sel nums d =
         Inr (d\<lparr>lastSelectedAt := lastSelectedAt d @ es\<rparr>)"
  using assms
proof (induction es arbitrary: sel nums d)
  case Nil
  then show ?case by simp
next
  case (Cons e es)
  obtain p n where e: "e = (p, n)" by (cases e)
  let ?d = "d\<lparr>lastSelectedAt := lastSelectedAt d @ [(p, n)]\<rparr>"
  have upd: "AList.update p n (lastSelectedAt d) = lastSelectedAt d @ [(p, n)]"
    using Cons.prems(1) by (intro AList_update_new) (auto simp: e)
  have "restoreSelections (map (\<lambda>(p, n). JArr [JStr p, JInt (int n)]) es) (insert p sel) (insert n nums) ?d
      = Inr (?d\<lparr>lastSelectedAt := lastSelectedAt ?d @ es\<rparr>)"
    using Cons.prems by (intro Cons.IH) (auto simp: e)
  then show ?case
    using Cons.prems by (simp add: e upd restoreSelections_Cons del: jsafe_nonneg.simps)
qed

lemma restoreSeen_snapshot:
  assumes "seen_window d" and "distinct (seenOrder d @ ks)" and "\<forall>k \<in> set ks. identity_ok k"
    and "length (seenOrder d @ ks) \<le> MAX_TRACKED_EVENT_IDENTITIES"
  shows "restoreSeen (map (\<lambda>(ns, i). JArr [JStr ns, JStr i]) ks) d =
         Inr (d\<lparr>seenOrder := seenOrder d @ ks, seenByNamespace := seenIndex (seenOrder d @ ks)\<rparr>)"
  using assms
proof (induction ks arbitrary: d)
  case Nil
  then show ?case by (simp add: seen_window_def)
next
  case (Cons k ks)
  obtain ns i where k: "k = (ns, i)" by (cases k)
  have new: "\<not> hasSeen d ns i"
    using Cons.prems(2) by (auto simp: hasSeen_iff [OF Cons.prems(1)] k)
  have step: "recordSeen d ns i =
      d\<lparr>seenByNamespace := seenIndex (seenOrder d @ [k]), seenOrder := seenOrder d @ [k]\<rparr>"
    using Cons.prems(4) by (simp add: recordSeen_below [OF Cons.prems(1) new] k)
  have "restoreSeen (map (\<lambda>(ns, i). JArr [JStr ns, JStr i]) ks) (recordSeen d ns i) =
     Inr ((recordSeen d ns i)\<lparr>seenOrder := seenOrder (recordSeen d ns i) @ ks,
            seenByNamespace := seenIndex (seenOrder (recordSeen d ns i) @ ks)\<rparr>)"
    using Cons.prems seen_window_recordSeen [OF Cons.prems(1) new] by (intro Cons.IH) (auto simp: step)
  then show ?case using Cons.prems(3) new by (simp add: k restoreSeen_Cons) (simp add: step k)
qed

lemma snapshot_keys: "sort (jkeys (snapshot d)) = DIRECTOR_SNAPSHOT_KEYS"
proof -
  have "jkeys (snapshot d) = [''version'', ''autonomousTurns'', ''acceptedHumanEventNumber'',
      ''fallbackIndex'', ''cancelled'', ''maxAutonomousTurns'', ''lastSelectedAt'', ''seen'']"
    by (simp add: snapshot_def)
  moreover have "sort [''version'', ''autonomousTurns'', ''acceptedHumanEventNumber'',
      ''fallbackIndex'', ''cancelled'', ''maxAutonomousTurns'', ''lastSelectedAt'', ''seen'']
      = DIRECTOR_SNAPSHOT_KEYS"
    by code_simp
  ultimately show ?thesis by simp
qed

lemma snapshot_get:
  "jget ''version'' (snapshot d) = JInt 1"
  "jget ''autonomousTurns'' (snapshot d) = JInt (int (autonomousTurns d))"
  "jget ''acceptedHumanEventNumber'' (snapshot d) = JInt (int (acceptedHumanEventNumber d))"
  "jget ''fallbackIndex'' (snapshot d) = JInt (int (fallbackIndex d))"
  "jget ''cancelled'' (snapshot d) = JBool (cancelled d)"
  "jget ''maxAutonomousTurns'' (snapshot d) = JInt (int (maxAutonomousTurns d))"
  "jget ''lastSelectedAt'' (snapshot d) =
     JArr (map (\<lambda>(p, n). JArr [JStr p, JInt (int n)]) (lastSelectedAt d))"
  "jget ''seen'' (snapshot d) = JArr (map (\<lambda>(ns, i). JArr [JStr ns, JStr i]) (seenOrder d))"
  by (simp_all add: snapshot_def)

lemma restoreCollections_snapshot:
  assumes wf: "director_wf d" and safe: "int (acceptedHumanEventNumber d) \<le> max_safe_integer"
    and e: "e = d\<lparr>lastSelectedAt := [], seenByNamespace := (\<lambda>_. None), seenOrder := [], muted := {}\<rparr>"
  shows "restoreCollections (snapshot d) e = Inr (d\<lparr>muted := {}\<rparr>)"
proof -
  let ?e = "e\<lparr>lastSelectedAt := lastSelectedAt d\<rparr>"
  have h: "history_ok d" and sel: "selection_wf d" and win: "seen_window d"
    using wf by (auto simp: director_wf_def selection_wf_def window_wf_def)
  have "restoreSelections (map (\<lambda>(p, n). JArr [JStr p, JInt (int n)]) (lastSelectedAt d)) {} {} e =
      Inr (e\<lparr>lastSelectedAt := lastSelectedAt e @ lastSelectedAt d\<rparr>)"
    using h safe by (intro restoreSelections_snapshot) (auto simp: e history_ok_def)
  then have 1: "restoreSelections (map (\<lambda>(p, n). JArr [JStr p, JInt (int n)]) (lastSelectedAt d)) {} {} e = Inr ?e"
    by (simp add: e)
  have 2: "checkSelectionHistory ?e = Inr ()"
  proof (rule checkSelectionHistory_complete)
    have "?e = d\<lparr>seenByNamespace := (\<lambda>_. None), seenOrder := [], muted := {}\<rparr>" by (simp add: e)
    with sel show "selection_wf ?e" by (simp add: window_frame)
  qed
  have "restoreSeen (map (\<lambda>(ns, i). JArr [JStr ns, JStr i]) (seenOrder d)) ?e =
      Inr (?e\<lparr>seenOrder := seenOrder ?e @ seenOrder d,
              seenByNamespace := seenIndex (seenOrder ?e @ seenOrder d)\<rparr>)"
    using wf win by (intro restoreSeen_snapshot)
      (auto simp: e seen_window_def director_wf_def window_wf_def)
  also have "\<dots> = Inr (d\<lparr>muted := {}\<rparr>)"
    using win by (simp add: e seen_window_def)
  finally show ?thesis
    unfolding restoreCollections_iff snapshot_get
    using 1 2 win wf by (auto simp: e seen_window_def director_wf_def window_wf_def)
qed

lemma snapshot_restores:
  assumes "director_wf d" and "int (acceptedHumanEventNumber d) \<le> max_safe_integer"
    and "int (length (personas d)) \<le> max_safe_integer"
  shows "newDirector (personas d) JUndefined (snapshot d) = Inr (d\<lparr>muted := {}\<rparr>)"
proof -
  have roster: "distinct (personas d)" "\<forall>p \<in> set (personas d). js_canonical p"
    and budget: "int (maxAutonomousTurns d) \<le> max_safe_integer"
    using assms(1) by (auto simp: director_wf_def roster_ok_def)
  have turns: "autonomousTurns d \<le> acceptedHumanEventNumber d"
    and fallback: "if personas d = [] then fallbackIndex d = 0 else fallbackIndex d < length (personas d)"
    using assms(1) fallbackIndex_bound [of d] by (auto simp: director_wf_def selection_wf_def)
  define blank where "blank = \<lparr>personas = personas d, muted = {}, lastSelectedAt = [],
      seenByNamespace = (\<lambda>_. None), seenOrder = [], maxAutonomousTurns = maxAutonomousTurns d,
      autonomousTurns = 0, acceptedHumanEventNumber = 0, fallbackIndex = 0, cancelled = False\<rparr>"
  have "mapE (\<lambda>p. requireCanonicalIdentifier p ''persona id'' None) (personas d) = Inr (map id (personas d))"
    using roster(2) by (intro mapE_InrI) (simp add: requireCanonicalIdentifier_iff)
  then have "newDirector (personas d) JUndefined (snapshot d) = restore (snapshot d) blank"
    using roster(1) budget
    by (simp add: newDirector_def snapshot_get coalesce_def blank_def)
      (simp add: snapshot_def)
  also have "\<dots> = Inr (d\<lparr>muted := {}\<rparr>)"
  proof -
    have "int (fallbackIndex d) \<le> max_safe_integer" using fallback assms(3) by (auto split: if_splits)
    moreover have "int (autonomousTurns d) \<le> max_safe_integer" using turns assms(2) by simp
    moreover have "restoreCollections (snapshot d) (blank\<lparr>autonomousTurns := autonomousTurns d,
        acceptedHumanEventNumber := acceptedHumanEventNumber d, fallbackIndex := fallbackIndex d,
        cancelled := cancelled d\<rparr>) = Inr (d\<lparr>muted := {}\<rparr>)"
      by (rule restoreCollections_snapshot [OF assms(1,2)]) (simp add: blank_def)
    ultimately show ?thesis
      unfolding restore_iff snapshot_get snapshot_keys
      using assms(2) turns fallback by (simp add: blank_def)
  qed
  finally show ?thesis .
qed



end
