(* ===== verification/Director_Fairness.thy ===== *)
theory Director_Fairness
  imports Director_Claims
begin

text \<open>
  The choice of the speaker: the agenda (the unmuted personas in roster order from the fallback
  index) as an abstract specification, the proof that the code's scan with its one-event cooldown
  refines it, and what follows for runs of events.
\<close>

section \<open>The agenda\<close>

text \<open>
  The abstract scheduler: an unmuted persona speaks when it is at the head of the agenda and then
  goes to its end. It knows no cooldown and no event numbers.
\<close>

definition agenda :: "director \<Rightarrow> string list" where
  "agenda d = filter (\<lambda>p. p \<notin> muted d) (rotate (fallbackIndex d) (personas d))"

lemma agenda_set: "set (agenda d) = set (personas d) - muted d"
  by (auto simp: agenda_def)

lemma mset_agenda: "length (agenda d) = length (filter (\<lambda>p. p \<notin> muted d) (personas d))"
  by (simp add: agenda_def rotate_drop_take flip: length_append filter_append)
    (metis add.commute append_take_drop_id filter_append length_append)

lemma distinct_agenda: "distinct (personas d) \<Longrightarrow> distinct (agenda d)"
  by (simp add: agenda_def)

lemma rotate_past:
  assumes "rotate f xs = us @ y # vs"
  shows "rotate (((f + length us) mod length xs + 1) mod length xs) xs = vs @ us @ [y]"
proof -
  have "rotate (((f + length us) mod length xs + 1) mod length xs) xs = rotate (Suc (f + length us)) xs"
    by (metis Suc_eq_plus1 mod_Suc_eq rotate_conv_mod)
  also have "\<dots> = rotate1 (rotate (length us) (rotate f xs))"
    by (simp add: rotate_rotate add.commute)
  also have "\<dots> = vs @ us @ [y]"
    by (simp add: assms rotate_append)
  finally show ?thesis .
qed

lemma nth_past:
  assumes "rotate f xs = us @ y # vs"
  shows "xs ! ((f + length us) mod length xs) = y"
proof -
  have "length us < length xs" using arg_cong [OF assms, of length] by simp
  then have "xs ! ((f + length us) mod length xs) = rotate f xs ! length us"
    by (simp add: nth_rotate)
  then show ?thesis by (simp add: assms)
qed

lemma rotate_last_of:
  assumes "i < length xs \<and> xs ! i = y" and "f = (i + 1) mod length xs"
  shows "last (rotate f xs) = y"
proof -
  have "xs \<noteq> []" using assms(1) by auto
  then have "last (rotate f xs) = xs ! ((length xs - 1 + f) mod length xs)"
    by (simp add: last_conv_nth nth_rotate add.commute)
  also have "(length xs - 1 + f) mod length xs = (length xs - 1 + (i + 1)) mod length xs"
    unfolding assms(2) by (rule mod_add_right_eq)
  also have "length xs - 1 + (i + 1) = length xs + i" using assms(1) by linarith
  also have "(length xs + i) mod length xs = i" using assms(1) by simp
  finally show ?thesis using assms(1) by simp
qed

text \<open>
  With at least two unmuted personas the head of the agenda is never cooling down: the persona that
  spoke last sits right before the fallback index, so it is the last of the rotation.
\<close>

lemma agenda_head_cooled:
  assumes wf: "selection_wf d" and roster: "distinct (personas d)"
    and ag: "agenda d = y # ys" "ys \<noteq> []"
  shows "cooledDown (d\<lparr>acceptedHumanEventNumber := Suc (acceptedHumanEventNumber d)\<rparr>) y"
proof (rule ccontr)
  assume "\<not> ?thesis"
  then obtain m where m: "map_of (lastSelectedAt d) y = Some m"
    and recent: "acceptedHumanEventNumber d \<le> m"
    by (auto simp: cooledDown_def ONE_EVENT_COOLDOWN_def split: option.splits)
  from map_of_SomeD [OF m] have ym: "(y, m) \<in> set (lastSelectedAt d)" .
  then have "autonomousTurns d \<noteq> 0" using wf by (auto simp: selection_wf_def)
  with wf obtain p n i where pn: "(p, n) \<in> set (lastSelectedAt d)"
    and max: "\<forall>k \<in> snd ` set (lastSelectedAt d). k \<le> n"
    and i: "index_of p (personas d) = Some i" and f: "fallbackIndex d = (i + 1) mod length (personas d)"
    by (auto simp: selection_wf_def latest_ok_def)
  have h: "history_ok d" using wf by (simp add: selection_wf_def)
  have "n \<le> acceptedHumanEventNumber d" using h pn by (force simp: history_ok_def)
  moreover have "m \<le> n" using max ym by force
  ultimately have "n = m" using recent by simp
  then have py: "p = y" using fst_eq_of_distinct_snd [of "lastSelectedAt d" p m y] h pn ym
    by (auto simp: history_ok_def)
  from ag(1) obtain us vs where rot: "rotate (fallbackIndex d) (personas d) = us @ y # vs"
    and ys: "ys = filter (\<lambda>p. p \<notin> muted d) vs"
    by (auto simp: agenda_def filter_eq_Cons_iff)
  have last: "last (rotate (fallbackIndex d) (personas d)) = y"
    by (rule rotate_last_of [OF index_of_Some [OF i, unfolded py] f])
  have "distinct (us @ y # vs)" using roster by (simp flip: rot)
  with last have "vs = []" by (cases vs rule: rev_cases) (auto simp: rot)
  with ys ag(2) show False by simp
qed

lemma find_first:
  assumes "rotate f xs = us @ y # vs" and "P y" and "\<forall>u \<in> set us. \<not> P u"
  shows "find (\<lambda>k. P (xs ! ((f + k) mod length xs))) [0..<length xs] = Some (length us)"
proof -
  have len: "length us < length xs" using arg_cong [OF assms(1), of length] by simp
  have nth: "xs ! ((f + k) mod length xs) = us ! k" if "k < length us" for k
  proof -
    have "xs ! ((f + k) mod length xs) = rotate f xs ! k" using that len by (simp add: nth_rotate)
    then show ?thesis using that by (simp add: assms(1) nth_append)
  qed
  have "\<not> P (xs ! ((f + k) mod length xs))" if "k < length us" for k
    using assms(3) that by (simp add: nth)
  moreover have "P (xs ! ((f + length us) mod length xs))"
    using assms(2) by (simp add: nth_past [OF assms(1)])
  ultimately show ?thesis
    unfolding find_Some_iff using len by (intro exI [of _ "length us"]) auto
qed

lemma chooseSpeaker_agenda:
  assumes wf: "selection_wf d0" and roster: "distinct (personas d0)" and ag: "agenda d0 = y # ys"
    and d: "d = d0\<lparr>acceptedHumanEventNumber := Suc (acceptedHumanEventNumber d0)\<rparr>"
  shows "\<exists>i. chooseSpeaker d None = Some (y, i) \<and>
    filter (\<lambda>p. p \<notin> muted d) (rotate ((i + 1) mod length (personas d)) (personas d)) = ys @ [y]"
proof (cases "ys = []")
  case True
  have "length (filter (\<lambda>p. p \<notin> muted d0) (personas d0)) = 1" using mset_agenda [of d0] ag True by simp
  then obtain q where q: "filter (\<lambda>p. p \<notin> muted d0) (personas d0) = [q]"
    by (auto simp: length_Suc_conv)
  have "set (agenda d0) = set (filter (\<lambda>p. p \<notin> muted d0) (personas d0))" by (auto simp: agenda_set)
  then have "q = y" using ag True q by simp
  let ?d = "d0\<lparr>fallbackIndex := (snd (rosterSpeaker d y) + 1) mod length (personas d)\<rparr>"
  have "agenda ?d = [y]"
    using mset_agenda [of ?d] agenda_set [of ?d] agenda_set [of d0] ag True q \<open>q = y\<close>
    by (cases "agenda ?d") auto
  then show ?thesis using q True \<open>q = y\<close>
    by (auto simp: chooseSpeaker_def d agenda_def rosterSpeaker_def)
next
  case False
  have cool: "cooledDown d y" unfolding d by (rule agenda_head_cooled [OF wf roster ag False])
  from ag obtain us vs where rot: "rotate (fallbackIndex d) (personas d) = us @ y # vs"
    and us: "\<forall>u \<in> set us. u \<in> muted d" and y: "y \<notin> muted d" and ys: "ys = filter (\<lambda>p. p \<notin> muted d) vs"
    by (auto simp: agenda_def filter_eq_Cons_iff d)
  have "length (filter (\<lambda>p. p \<notin> muted d) (personas d)) \<noteq> 1"
    using mset_agenda [of d0] ag False by (cases ys) (auto simp: d)
  then have "chooseSpeaker d None = deterministicEligibleSpeaker d" by (simp add: chooseSpeaker_cases)
  also have "\<dots> = Some (y, (fallbackIndex d + length us) mod length (personas d))"
    using find_first [OF rot, of "\<lambda>p. p \<notin> muted d \<and> cooledDown d p"] us y cool
    by (simp add: deterministicEligibleSpeaker_def nth_past [OF rot])
  finally show ?thesis using rotate_past [OF rot] us y ys by (auto simp: filter_empty_conv)
qed

lemma agenda_step:
  assumes "director_wf d" and "\<not> cancelled d" and "agenda d \<noteq> []"
    and "isHuman e" and "wantsResponse e" and "\<not> hasSeen d (event_namespace e) (event_id e)"
  shows "\<exists>d'. schedule d (Verified e) None = Inr (decision (Some (hd (agenda d))) Selected, d') \<and>
           agenda d' = rotate1 (agenda d)"
proof -
  let ?d0 = "recordSeen d (event_namespace e) (event_id e)"
  define d2 where "d2 = ?d0\<lparr>acceptedHumanEventNumber := Suc (acceptedHumanEventNumber ?d0)\<rparr>"
  have same: "agenda ?d0 = agenda d" by (simp add: agenda_def)
  from assms(3) obtain y ys where ag: "agenda d = y # ys" by (cases "agenda d") auto
  have "selection_wf ?d0" "distinct (personas ?d0)"
    using assms(1) by (auto simp: director_wf_def roster_ok_def selection_wf_def history_ok_def latest_ok_def)
  from chooseSpeaker_agenda [OF this _ d2_def, of y ys] ag same obtain i where
    i: "chooseSpeaker d2 None = Some (y, i)"
      "filter (\<lambda>p. p \<notin> muted d2) (rotate ((i + 1) mod length (personas d2)) (personas d2)) = ys @ [y]"
    by auto
  have ne: "filter (\<lambda>p. p \<notin> muted d) (personas d) \<noteq> []" "personas d \<noteq> []"
    using mset_agenda [of d] ag by auto
  have "scheduleHuman ?d0 e None = (decision (Some y) Selected, recordSelection d2 y i)"
    using assms(5) ne i(1) by (simp add: scheduleHuman_def Let_def d2_def)
  moreover have "agenda (recordSelection d2 y i) = ys @ [y]"
    using i(2) by (simp add: agenda_def recordSelection_def)
  ultimately show ?thesis
    using assms ag by (simp add: schedule_def checkDirected_def Let_def)
qed

text \<open>
  C1: refinement of the round-robin specification: for a director that satisfies the invariant,
  a fresh human event that wants a response and directs nobody selects exactly the head of the
  agenda whenever somebody is unmuted, and the new agenda is the old one rotated by one. The
  one-event cooldown of the code therefore never changes or blocks a choice.
\<close>

theorem schedule_refines_agenda:
  assumes "director_wf d" and "\<not> cancelled d" and "agenda d \<noteq> []"
    and "isHuman e" and "wantsResponse e" and "\<not> hasSeen d (event_namespace e) (event_id e)"
  shows "\<exists>d'. schedule d (Verified e) None = Inr (decision (Some (hd (agenda d))) Selected, d') \<and>
           agenda d' = rotate1 (agenda d)"
  using assms by (rule agenda_step)

theorem schedule_refines_agenda_witness:
  "\<exists>d'. schedule example_director
          (Verified \<lparr>event_namespace = ''room'', event_id = ''e1'', isHuman = True,
                     event_text = ''hi'', wantsResponse = True\<rparr>) None =
        Inr (decision (Some ''ada'') Selected, d') \<and> agenda d' = [''bob'', ''ada'']"
proof -
  have "agenda example_director = [''ada'', ''bob'']" by (simp add: agenda_def example_director_def)
  moreover have "\<not> hasSeen example_director ''room'' ''e1''" "\<not> cancelled example_director"
    by (simp_all add: hasSeen_def example_director_def)
  ultimately show ?thesis
    using schedule_refines_agenda [OF example_director_wf, of "\<lparr>event_namespace = ''room'',
      event_id = ''e1'', isHuman = True, event_text = ''hi'', wantsResponse = True\<rparr>"] by simp
qed

section \<open>Runs of events\<close>

text \<open>Scheduling a list of events in order, nobody directed; the speakers that were chosen.\<close>

fun runSchedule ::
    "director \<Rightarrow> director_event list \<Rightarrow> js_error + (string option list \<times> director)" where
  "runSchedule d [] = Inr ([], d)"
| "runSchedule d (e # es) =
     bindE (schedule d (Verified e) None) (\<lambda>(r, d1).
     bindE (runSchedule d1 es) (\<lambda>(ss, d2). Inr (speaker r # ss, d2)))"

definition key :: "director_event \<Rightarrow> string \<times> string" where
  "key e = (event_namespace e, event_id e)"

lemma schedule_window:
  assumes "schedule d (Verified e) directed = Inr (r, d')" and "\<not> cancelled d"
    and "\<not> hasSeen d (event_namespace e) (event_id e)"
  shows "seenOrder d' = seenOrder (recordSeen d (event_namespace e) (event_id e)) \<and>
    seenByNamespace d' = seenByNamespace (recordSeen d (event_namespace e) (event_id e)) \<and>
    \<not> cancelled d' \<and> muted d' = muted d \<and> personas d' = personas d"
proof -
  let ?d1 = "recordSeen d (event_namespace e) (event_id e)"
  have "d' = (if isHuman e then snd (scheduleHuman ?d1 e directed) else ?d1)"
    using assms by (cases "isHuman e") (auto simp: schedule_def Let_def)
  then show ?thesis using assms(2) by (simp add: scheduleHuman_window)
qed

lemma seenOrder_schedule:
  assumes "schedule d (Verified e) directed = Inr (r, d')" and "\<not> cancelled d"
    and "seen_window d" and "\<not> hasSeen d (event_namespace e) (event_id e)"
  shows "set (seenOrder d') \<subseteq> insert (key e) (set (seenOrder d)) \<and> seen_window d'"
proof -
  note w = schedule_window [OF assms(1,2,4)]
  have "set (seenOrder d') \<subseteq> insert (key e) (set (seenOrder d))"
    using w by (auto simp: seenOrder_recordSeen [OF assms(3,4)] key_def dest: in_set_tlD split: if_splits)
  moreover have "seen_window d'"
    using w seen_window_recordSeen [OF assms(3,4)] by (simp add: seen_window_def)
  ultimately show ?thesis ..
qed

lemma fresh_after_schedule:
  assumes "schedule d (Verified e) directed = Inr (r, d')" and "\<not> cancelled d" and "seen_window d"
    and "distinct (map key (e # es))"
    and "\<forall>e' \<in> set (e # es). \<not> hasSeen d (event_namespace e') (event_id e')"
  shows "\<forall>e' \<in> set es. \<not> hasSeen d' (event_namespace e') (event_id e')"
proof -
  have new: "\<not> hasSeen d (event_namespace e) (event_id e)" using assms(5) by simp
  note s = seenOrder_schedule [OF assms(1,2,3) new]
  have w': "seen_window d'" using s by simp
  show ?thesis
  proof
    fix e' assume e': "e' \<in> set es"
    then have "key e' \<noteq> key e" using assms(4) by (auto simp: rev_image_eqI)
    moreover have "key e' \<notin> set (seenOrder d)"
      using assms(5) e' by (simp add: hasSeen_iff [OF assms(3)] key_def)
    ultimately have "key e' \<notin> set (seenOrder d')" using s by auto
    then show "\<not> hasSeen d' (event_namespace e') (event_id e')"
      by (simp add: hasSeen_iff [OF w'] key_def)
  qed
qed

text \<open>
  Fairness: over any run of fresh human events that want a response, with nobody directed or
  newly muted, the k-th event is answered by the persona at position k (modulo its length) of the
  initial agenda; so every unmuted persona speaks exactly once in each round, whatever the length
  of the run (the 500-identity window may overflow on the way).
\<close>

theorem round_robin:
  assumes "director_wf d" and "\<not> cancelled d" and "agenda d \<noteq> []"
    and "\<forall>e \<in> set es. isHuman e \<and> wantsResponse e \<and> identity_ok (key e)"
    and "distinct (map key es)"
    and "\<forall>e \<in> set es. \<not> hasSeen d (event_namespace e) (event_id e)"
  shows "\<exists>d'. runSchedule d es =
    Inr (map (\<lambda>k. Some (agenda d ! (k mod length (agenda d)))) [0..<length es], d')"
  using assms
proof (induction es arbitrary: d)
  case Nil
  then show ?case by simp
next
  case (Cons e es)
  from Cons.prems obtain d1 where
    run: "schedule d (Verified e) None = Inr (decision (Some (hd (agenda d))) Selected, d1)"
    and next_agenda: "agenda d1 = rotate1 (agenda d)"
    using agenda_step [of d e] by auto
  have win: "seen_window d" using Cons.prems(1) by (simp add: director_wf_def window_wf_def)
  have "input_ok (Verified e)" using Cons.prems(4) by (simp add: key_def)
  then have wf1: "director_wf d1" by (rule schedule_wf [OF Cons.prems(1) _ run])
  have "\<not> cancelled d1"
    using schedule_window [OF run Cons.prems(2)] Cons.prems(6) by simp
  moreover have "agenda d1 \<noteq> []" using Cons.prems(3) next_agenda by simp
  ultimately obtain d2 where d2: "runSchedule d1 es =
      Inr (map (\<lambda>k. Some (agenda d1 ! (k mod length (agenda d1)))) [0..<length es], d2)"
    using Cons.IH [OF wf1] Cons.prems(4,5) fresh_after_schedule [OF run Cons.prems(2) win Cons.prems(5,6)]
    by auto
  have shift: "agenda d1 ! (k mod length (agenda d1)) = agenda d ! (Suc k mod length (agenda d))" for k
    using Cons.prems(3) by (simp add: next_agenda nth_rotate1 mod_Suc_eq)
  have "map (\<lambda>k. Some (agenda d ! (k mod length (agenda d)))) [0..<length (e # es)] =
     Some (hd (agenda d)) # map (\<lambda>k. Some (agenda d ! (Suc k mod length (agenda d)))) [0..<length es]"
    using Cons.prems(3)
    by (simp add: upt_conv_Cons hd_conv_nth map_Suc_upt [symmetric] comp_def del: upt_Suc)
  then show ?case by (simp add: run d2 shift decision_def)
qed

theorem round_robin_witness:
  "\<exists>d'. runSchedule example_director
     (map (\<lambda>i. \<lparr>event_namespace = ''room'', event_id = i, isHuman = True,
                    event_text = ''hi'', wantsResponse = True\<rparr>) [''1'', ''2'', ''3'']) =
   Inr ([Some ''ada'', Some ''bob'', Some ''ada''], d')"
proof -
  let ?es = "map (\<lambda>i. \<lparr>event_namespace = ''room'', event_id = i, isHuman = True,
                    event_text = ''hi'', wantsResponse = True\<rparr>) [''1'', ''2'', ''3'']"
  have ag: "agenda example_director = [''ada'', ''bob'']" by (simp add: agenda_def example_director_def)
  have ok: "\<forall>e \<in> set ?es. isHuman e \<and> wantsResponse e \<and> identity_ok (key e)" "distinct (map key ?es)"
    by (simp_all add: key_def identity_ok_def js_canonical_def js_trim_def js_trim_start_def
        js_trim_end_def js_space_def MAX_NAMESPACE_LENGTH_def MAX_EVENT_ID_LENGTH_def)
  have fresh: "\<forall>e \<in> set ?es. \<not> hasSeen example_director (event_namespace e) (event_id e)"
    "\<not> cancelled example_director"
    by (simp_all add: hasSeen_def example_director_def)
  from round_robin [OF example_director_wf fresh(2) _ ok fresh(1)] show ?thesis
    by (simp add: ag upt_rec)
qed

section \<open>Exactly when somebody speaks\<close>

lemma agenda_nonempty_iff: "agenda d \<noteq> [] \<longleftrightarrow> (\<exists>p \<in> set (personas d). p \<notin> muted d)"
  by (metis Diff_iff agenda_set all_not_in_conv set_empty)

lemma agenda_head: "agenda d \<noteq> [] \<Longrightarrow> hd (agenda d) \<in> set (personas d) \<and> hd (agenda d) \<notin> muted d"
  by (metis Diff_iff agenda_set hd_in_set)

lemma schedule_owed:
  assumes "director_wf d" and run: "schedule d (Verified e) directed = Inr (r, d')"
    and "\<not> cancelled d" and "\<not> hasSeen d (event_namespace e) (event_id e)"
    and "isHuman e" and "wantsResponse e" and some: "agenda d \<noteq> []"
  shows "\<exists>p. r = decision (Some p) (if directed = None then Selected else Directed) \<and>
     p \<in> set (personas d) \<and> p \<notin> muted d \<and> (\<forall>q. directed = Some q \<longrightarrow> p = q)"
proof (cases directed)
  case None
  with agenda_step [OF assms(1,3,7,5,6,4)] run agenda_head [OF some] show ?thesis by auto
next
  case (Some q)
  have "checkDirected d directed = Inr ()" using run by (auto simp: schedule_def)
  then have q: "q \<in> set (personas d)" "q \<notin> muted d" using checkDirected_ok Some by auto
  then have "filter (\<lambda>p. p \<notin> muted d) (personas d) \<noteq> []" "personas d \<noteq> []"
    by (auto simp: filter_empty_conv)
  with assms Some q show ?thesis
    by (auto simp: schedule_def scheduleHuman_def Let_def chooseSpeaker_def rosterSpeaker_def)
qed

lemma schedule_silent:
  assumes "schedule d input directed = Inr (r, d')"
    and "\<not> (\<exists>e. input = Verified e \<and> \<not> cancelled d \<and>
      \<not> hasSeen d (event_namespace e) (event_id e) \<and> isHuman e \<and> wantsResponse e \<and> agenda d \<noteq> [])"
  shows "speaker r = None \<and> reason r \<notin> {Selected, Directed, Budget_Exhausted, Cooldown}"
proof -
  have "agenda d = [] \<Longrightarrow> filter (\<lambda>p. p \<notin> muted d) (personas d) = []"
    using mset_agenda [of d] by simp
  with assms show ?thesis
    by (cases input)
      (auto simp: schedule_def scheduleHuman_def decision_def Let_def split: if_splits)
qed

text \<open>
  For a director satisfying the invariant, a scheduling call that does not throw yields a
  speaker exactly when the event comes from an adapter, is new, human and wants a response, the
  director is not cancelled and some roster member is unmuted; the speaker is then an unmuted
  roster member, and the directed one when the call directs somebody. No call is ever answered with
  the reasons cooldown or budget-exhausted.
\<close>

theorem speaks_exactly_when_owed:
  assumes "director_wf d" and "schedule d input directed = Inr (r, d')"
  shows "(speaker r \<noteq> None \<longleftrightarrow> (\<exists>e. input = Verified e \<and> \<not> cancelled d \<and>
            \<not> hasSeen d (event_namespace e) (event_id e) \<and> isHuman e \<and> wantsResponse e \<and>
            (\<exists>p \<in> set (personas d). p \<notin> muted d))) \<and>
    (\<forall>p. speaker r = Some p \<longrightarrow> p \<in> set (personas d) \<and> p \<notin> muted d \<and>
           (\<forall>q. directed = Some q \<longrightarrow> p = q)) \<and>
    reason r \<noteq> Cooldown \<and> reason r \<noteq> Budget_Exhausted"
proof (cases "\<exists>e. input = Verified e \<and> \<not> cancelled d \<and>
      \<not> hasSeen d (event_namespace e) (event_id e) \<and> isHuman e \<and> wantsResponse e \<and> agenda d \<noteq> []")
  case True
  then obtain e where e: "input = Verified e" "\<not> cancelled d"
      "\<not> hasSeen d (event_namespace e) (event_id e)" "isHuman e" "wantsResponse e" "agenda d \<noteq> []" by blast
  with schedule_owed [OF assms(1), of e directed r d'] assms(2) show ?thesis
    by (auto simp: decision_def agenda_nonempty_iff split: if_splits)
next
  case False
  from schedule_silent [OF assms(2) False] False show ?thesis
    by (auto simp: agenda_nonempty_iff)
qed

theorem speaks_exactly_when_owed_witness:
  "reason (decision None Unverified_Event) \<noteq> Cooldown"
  using speaks_exactly_when_owed [OF example_director_wf, of Unverified None "decision None Unverified_Event"
      example_director]
  by (simp add: schedule_def checkDirected_def example_director_def)

section \<open>At most once\<close>

lemma runSchedule_window:
  assumes "runSchedule d es = Inr (ss, d')" and "\<not> cancelled d" and "seen_window d"
    and "distinct (map key es)" and "\<forall>e \<in> set es. \<not> hasSeen d (event_namespace e) (event_id e)"
    and "seenOrder c = seenOrder d" and "seenByNamespace c = seenByNamespace d"
  shows "seenOrder d' = seenOrder (foldl (\<lambda>s k. recordSeen s (fst k) (snd k)) c (map key es)) \<and>
    seenByNamespace d' = seenByNamespace (foldl (\<lambda>s k. recordSeen s (fst k) (snd k)) c (map key es)) \<and>
    \<not> cancelled d'"
  using assms
proof (induction es arbitrary: d c ss)
  case Nil
  then show ?case by simp
next
  case (Cons e es)
  from Cons.prems(1) obtain r d1 ss' where run: "schedule d (Verified e) None = Inr (r, d1)"
    and rest: "runSchedule d1 es = Inr (ss', d')" by auto
  have new: "\<not> hasSeen d (event_namespace e) (event_id e)" using Cons.prems(5) by simp
  note w = schedule_window [OF run Cons.prems(2) new]
  have fresh: "\<forall>e' \<in> set es. \<not> hasSeen d1 (event_namespace e') (event_id e')"
    by (rule fresh_after_schedule [OF run Cons.prems(2,3,4,5)])
  have win1: "seen_window d1" using seenOrder_schedule [OF run Cons.prems(2,3) new] by simp
  let ?c = "recordSeen c (event_namespace e) (event_id e)"
  have "seenOrder ?c = seenOrder d1" "seenByNamespace ?c = seenByNamespace d1"
    using w Cons.prems(6,7) by (simp_all add: recordSeen_def Let_def)
  with Cons.IH [OF rest _ win1 _ fresh, of ?c] w Cons.prems(4) show ?case by (simp add: key_def)
qed

text \<open>
  Once an event has been scheduled, scheduling it again after fewer than 500 further fresh
  events (human or not, in any order) is answered with the reason duplicate and changes nothing.
\<close>

theorem duplicate_suppressed:
  assumes "director_wf d" and "\<not> cancelled d" and "runSchedule d (e # es) = Inr (ss, d')"
    and "distinct (map key (e # es))" and "length es < MAX_TRACKED_EVENT_IDENTITIES"
    and "\<forall>e' \<in> set (e # es). \<not> hasSeen d (event_namespace e') (event_id e')"
  shows "schedule d' (Verified e) None = Inr (decision None Duplicate, d')"
proof -
  have win: "seen_window d" using assms(1) by (simp add: director_wf_def window_wf_def)
  let ?run = "foldl (\<lambda>s k. recordSeen s (fst k) (snd k))"
  have "hasSeen (?run (recordSeen d (fst (key e)) (snd (key e))) (map key es)) (fst (key e)) (snd (key e))"
    using win assms(4,5,6) by (intro dw.remembers) (auto simp: key_def)
  moreover have "seenByNamespace d' = seenByNamespace (?run d (map key (e # es)))" and "\<not> cancelled d'"
    using runSchedule_window [OF assms(3,2) win assms(4,6), of d] by simp_all
  ultimately show ?thesis by (simp add: schedule_def checkDirected_def hasSeen_def key_def)
qed

definition example_event :: "string \<Rightarrow> director_event" where
  "example_event i = \<lparr>event_namespace = ''room'', event_id = i, isHuman = True,
     event_text = ''hi'', wantsResponse = True\<rparr>"

lemma example_event_ok:
  "isHuman (example_event i)" "wantsResponse (example_event i)" "key (example_event i) = (''room'', i)"
  "\<not> hasSeen example_director (event_namespace (example_event i)) (event_id (example_event i))"
  "\<not> cancelled example_director" "agenda example_director = [''ada'', ''bob'']"
  by (simp_all add: example_event_def key_def example_director_def hasSeen_def agenda_def)

theorem duplicate_suppressed_witness:
  "\<exists>d'. runSchedule example_director [example_event ''1''] = Inr ([Some ''ada''], d') \<and>
     schedule d' (Verified (example_event ''1'')) None = Inr (decision None Duplicate, d')"
proof -
  obtain d' where d': "schedule example_director (Verified (example_event ''1'')) None =
      Inr (decision (Some ''ada'') Selected, d')"
    using agenda_step [OF example_director_wf, of "example_event ''1''"] by (auto simp: example_event_ok)
  then have run: "runSchedule example_director [example_event ''1''] = Inr ([Some ''ada''], d')"
    by (simp add: decision_def)
  moreover have "schedule d' (Verified (example_event ''1'')) None = Inr (decision None Duplicate, d')"
    using duplicate_suppressed [OF example_director_wf _ run]
    by (simp add: example_event_ok MAX_TRACKED_EVENT_IDENTITIES_def)
  ultimately show ?thesis by blast
qed

end
