(* ===== verification/Json.thy ===== *)
theory Json
  imports Green_Prelude
begin

text \<open>
  The canonical JSON of \<open>src/db/events.ts\<close> (\<open>canonicalize\<close>, \<open>canonicalJson\<close>), the text of every
  row the room service stores and of every request it digests, with what it uses of the language:
  \<open>JSON.stringify\<close> of strings and numbers and \<open>JSON.parse\<close>.
\<close>

section \<open>Strings\<close>

definition hex_digit :: "nat \<Rightarrow> char" where
  "hex_digit n = (if n < 10 then char_of (48 + n) else char_of (87 + n))"

definition hex_value :: "char \<Rightarrow> nat option" where
  "hex_value c =
     (let n = of_char c in
      if 48 \<le> n \<and> n \<le> 57 then Some (n - 48)
      else if 97 \<le> n \<and> n \<le> 102 then Some (n - 87)
      else if 65 \<le> n \<and> n \<le> 70 then Some (n - 55)
      else None)"

text \<open>\<open>JSON.stringify\<close> of one code unit.\<close>

definition escape_char :: "char \<Rightarrow> string" where
  "escape_char c =
     (let n = (of_char c :: nat) in
      if n = 34 then [CHR 0x5C, CHR 0x22]
      else if n = 92 then [CHR 0x5C, CHR 0x5C]
      else if n = 8 then [CHR 0x5C, CHR ''b'']
      else if n = 9 then [CHR 0x5C, CHR ''t'']
      else if n = 10 then [CHR 0x5C, CHR ''n'']
      else if n = 12 then [CHR 0x5C, CHR ''f'']
      else if n = 13 then [CHR 0x5C, CHR ''r'']
      else if n < 32 then [CHR 0x5C, CHR ''u'', CHR ''0'', CHR ''0'', hex_digit (n div 16), hex_digit (n mod 16)]
      else [c])"

definition json_string :: "string \<Rightarrow> string" where
  "json_string s = CHR 0x22 # concat (map escape_char s) @ [CHR 0x22]"

text \<open>The rest of a string literal after its opening quote, and what follows the closing one.\<close>

fun parse_string :: "string \<Rightarrow> (string \<times> string) option" where
  "parse_string [] = None"
| "parse_string (c # cs) =
     (if c = CHR 0x22 then Some ([], cs)
      else if c = CHR 0x5C then
        (case cs of
           d # ds \<Rightarrow>
             (if d = CHR ''u'' then
                (case ds of
                   h1 # h2 # h3 # h4 # es \<Rightarrow>
                     (case (hex_value h1, hex_value h2, hex_value h3, hex_value h4) of
                        (Some 0, Some 0, Some a, Some b) \<Rightarrow>
                          map_option (\<lambda>(t, r). (char_of (16 * a + b) # t, r)) (parse_string es)
                      | _ \<Rightarrow> None)
                 | _ \<Rightarrow> None)
              else
                (case map_of [(CHR 0x22, CHR 0x22), (CHR 0x5C, CHR 0x5C), (CHR ''/'', CHR ''/''),
                              (CHR ''b'', CHR 0x08), (CHR ''f'', CHR 0x0C), (CHR ''n'', CHR 0x0A),
                              (CHR ''r'', CHR 0x0D), (CHR ''t'', CHR 0x09)] d of
                   None \<Rightarrow> None
                 | Some e \<Rightarrow> map_option (\<lambda>(t, r). (e # t, r)) (parse_string ds)))
         | [] \<Rightarrow> None)
      else if (of_char c :: nat) < 32 then None
      else map_option (\<lambda>(t, r). (c # t, r)) (parse_string cs))"

declare parse_string.simps(2) [simp del]

lemma hex_value_digit: "n < 16 \<Longrightarrow> hex_value (hex_digit n) = Some n"
  by (auto simp: hex_value_def hex_digit_def Let_def)

lemma parse_plain:
  "c \<noteq> CHR 0x22 \<Longrightarrow> c \<noteq> CHR 0x5C \<Longrightarrow> 32 \<le> (of_char c :: nat) \<Longrightarrow>
   parse_string (c # cs) = map_option (\<lambda>(t, r). (c # t, r)) (parse_string cs)"
  by (simp add: parse_string.simps(2))

lemma parse_unicode:
  "a < 16 \<Longrightarrow> b < 16 \<Longrightarrow>
   parse_string (CHR 0x5C # CHR ''u'' # CHR ''0'' # CHR ''0'' # hex_digit a # hex_digit b # cs) =
   map_option (\<lambda>(t, r). (char_of (16 * a + b) # t, r)) (parse_string cs)"
proof -
  have "hex_value (CHR ''0'') = Some 0" by (simp add: hex_value_def)
  then show "a < 16 \<Longrightarrow> b < 16 \<Longrightarrow> ?thesis" by (simp add: parse_string.simps(2) hex_value_digit)
qed

lemma parse_short:
  "(d, e) \<in> {(CHR 0x22, CHR 0x22), (CHR 0x5C, CHR 0x5C), (CHR ''b'', CHR 0x08), (CHR ''f'', CHR 0x0C),
     (CHR ''n'', CHR 0x0A), (CHR ''r'', CHR 0x0D), (CHR ''t'', CHR 0x09)} \<Longrightarrow>
   parse_string (CHR 0x5C # d # cs) = map_option (\<lambda>(t, r). (e # t, r)) (parse_string cs)"
  by (auto simp: parse_string.simps(2))

lemma escaped_chars:
  "char_of (34 :: nat) = CHR 0x22" "char_of (92 :: nat) = CHR 0x5C" "char_of (8 :: nat) = CHR 0x08"
  "char_of (9 :: nat) = CHR 0x09" "char_of (10 :: nat) = CHR 0x0A" "char_of (12 :: nat) = CHR 0x0C"
  "char_of (13 :: nat) = CHR 0x0D"
  by code_simp+

lemma char_eq_of_nat: "(of_char c :: nat) = n \<Longrightarrow> c = char_of n"
  by auto

lemma parse_escape:
  "parse_string (escape_char c @ cs) = map_option (\<lambda>(t, r). (c # t, r)) (parse_string cs)"
proof -
  define n where "n = (of_char c :: nat)"
  note shorts = parse_short [of "CHR 0x22" "CHR 0x22"] parse_short [of "CHR 0x5C" "CHR 0x5C"]
    parse_short [of "CHR ''b''" "CHR 0x08"] parse_short [of "CHR ''f''" "CHR 0x0C"]
    parse_short [of "CHR ''n''" "CHR 0x0A"] parse_short [of "CHR ''r''" "CHR 0x0D"]
    parse_short [of "CHR ''t''" "CHR 0x09"]
  consider "n = 34" | "n = 92" | "n = 8" | "n = 9" | "n = 10" | "n = 12" | "n = 13"
    | "n < 32" "n \<notin> {8, 9, 10, 12, 13}" | "32 \<le> n" "n \<noteq> 34" "n \<noteq> 92" by fastforce
  then show ?thesis
  proof cases
    case 8
    have "char_of (16 * (n div 16) + n mod 16) = c" by (simp add: n_def)
    moreover have "n div 16 < 16" using 8 by simp
    ultimately show ?thesis
      using 8 parse_unicode [of "n div 16" "n mod 16" cs]
      by (simp add: escape_char_def Let_def flip: n_def)
  next
    case 9
    then have "c \<noteq> CHR 0x22" "c \<noteq> CHR 0x5C" by (auto simp: n_def)
    then show ?thesis using 9 parse_plain [of c cs] by (simp add: escape_char_def Let_def flip: n_def)
  qed (use shorts char_eq_of_nat [of c] in \<open>simp_all add: escape_char_def escaped_chars flip: n_def\<close>)
qed

lemma parse_json_string: "parse_string (concat (map escape_char s) @ CHR 0x22 # rest) = Some (s, rest)"
  by (induction s) (simp_all add: parse_escape, simp add: parse_string.simps(2))

section \<open>Numbers\<close>

text \<open>
  \<open>Number::toString\<close> of a finite number: its shortest digits \<open>d\<close> (no trailing zero), the position
  \<open>n\<close> of the decimal point relative to them, and the four layouts of the language's definition.
\<close>

fun strip10 :: "nat \<Rightarrow> nat \<Rightarrow> nat \<times> nat" where
  "strip10 m z = (if m \<noteq> 0 \<and> 10 dvd m then strip10 (m div 10) (Suc z) else (m, z))"

declare strip10.simps [simp del]

definition exponent_string :: "int \<Rightarrow> string" where
  "exponent_string x = CHR ''e'' # (if x < 0 then CHR ''-'' else CHR ''+'') # show_nat (nat \<bar>x\<bar>)"

definition number_text :: "nat \<Rightarrow> nat \<Rightarrow> string" where
  "number_text m e =
     (let (d, z) = strip10 m 0; s = show_nat d; k = int (length s); n = k + int z - int e
      in if k \<le> n \<and> n \<le> 21 then s @ replicate (nat (n - k)) (CHR ''0'')
         else if 0 < n \<and> n \<le> 21 then take (nat n) s @ CHR ''.'' # drop (nat n) s
         else if -6 < n \<and> n \<le> 0 then CHR ''0'' # CHR ''.'' # replicate (nat (- n)) (CHR ''0'') @ s
         else if k = 1 then s @ exponent_string (n - 1)
         else hd s # CHR ''.'' # tl s @ exponent_string (n - 1))"

fun number_string :: "jsnum \<Rightarrow> string" where
  "number_string (Num m e) =
     (if m = 0 then ''0''
      else if m < 0 then CHR ''-'' # number_text (nat (- m)) e
      else number_text (nat m) e)"
| "number_string NaN = ''NaN''"
| "number_string (Infinity positive) = (if positive then ''Infinity'' else ''-Infinity'')"

definition is_digit :: "char \<Rightarrow> bool" where
  "is_digit c \<longleftrightarrow> 48 \<le> (of_char c :: nat) \<and> (of_char c :: nat) \<le> 57"

definition digit_value :: "char \<Rightarrow> nat" where
  "digit_value c = of_char c - 48"

definition nat_of_digits :: "string \<Rightarrow> nat" where
  "nat_of_digits s = foldl (\<lambda>a c. 10 * a + digit_value c) 0 s"

text \<open>
  The number with decimal mantissa \<open>m\<close> and exponent \<open>-e\<close> in normal form. A literal with more
  digits than a double holds would be rounded by the language; no text the program writes has one.
\<close>

fun norm_num :: "int \<Rightarrow> nat \<Rightarrow> jsnum" where
  "norm_num m 0 = Num m 0"
| "norm_num m (Suc e) =
     (if m = 0 then Num 0 0 else if 10 dvd m then norm_num (m div 10) e else Num m (Suc e))"

definition scaled :: "int \<Rightarrow> int \<Rightarrow> jsnum" where
  "scaled m e = (if e < 0 then Num (m * 10 ^ nat (- e)) 0 else norm_num m (nat e))"

text \<open>The three parts of a number literal; a missing optional part is empty.\<close>

definition parse_fraction :: "string \<Rightarrow> (string \<times> string) option" where
  "parse_fraction s =
     (case s of
        c # t \<Rightarrow>
          if c = CHR ''.''
          then (let ds = takeWhile is_digit t
                in if ds = [] then None else Some (ds, dropWhile is_digit t))
          else Some ([], s)
      | [] \<Rightarrow> Some ([], []))"

definition parse_exponent :: "string \<Rightarrow> (int \<times> string) option" where
  "parse_exponent s =
     (case s of
        c # t \<Rightarrow>
          if c = CHR ''e'' \<or> c = CHR ''E''
          then (let neg = (t \<noteq> [] \<and> hd t = CHR ''-'');
                    u = (if t \<noteq> [] \<and> (hd t = CHR ''-'' \<or> hd t = CHR ''+'') then tl t else t);
                    ds = takeWhile is_digit u
                in if ds = [] then None
                   else Some ((if neg then - int (nat_of_digits ds) else int (nat_of_digits ds)),
                              dropWhile is_digit u))
          else Some (0, s)
      | [] \<Rightarrow> Some (0, []))"

definition parse_unsigned :: "bool \<Rightarrow> string \<Rightarrow> (jsnum \<times> string) option" where
  "parse_unsigned neg s =
     (let ds = takeWhile is_digit s
      in if ds = [] \<or> (hd ds = CHR ''0'' \<and> tl ds \<noteq> []) then None
         else case parse_fraction (dropWhile is_digit s) of
                None \<Rightarrow> None
              | Some (fs, t) \<Rightarrow>
                  (case parse_exponent t of
                     None \<Rightarrow> None
                   | Some (x, r) \<Rightarrow>
                       (let m = int (nat_of_digits (ds @ fs))
                        in Some (scaled (if neg then - m else m) (int (length fs) - x), r))))"

definition parse_number :: "string \<Rightarrow> (jsnum \<times> string) option" where
  "parse_number s =
     (case s of
        c # t \<Rightarrow> if c = CHR ''-'' then parse_unsigned True t else parse_unsigned False s
      | [] \<Rightarrow> None)"

definition number_end :: "string \<Rightarrow> bool" where
  "number_end s \<longleftrightarrow>
     (case s of [] \<Rightarrow> True
      | c # _ \<Rightarrow> \<not> is_digit c \<and> c \<noteq> CHR ''.'' \<and> c \<noteq> CHR ''e'' \<and> c \<noteq> CHR ''E'')"

lemma digit_chars: "n < 10 \<Longrightarrow> is_digit (char_of (48 + n)) \<and> digit_value (char_of (48 + n)) = n"
  by (simp add: is_digit_def digit_value_def)

lemma show_nat_digits: "\<forall>c \<in> set (show_nat n). is_digit c"
proof (induction n rule: show_nat.induct)
  case (1 n)
  then show ?case by (subst show_nat.simps) (auto simp: digit_chars)
qed

lemma nat_of_digits_append: "nat_of_digits (s @ [c]) = 10 * nat_of_digits s + digit_value c"
  by (simp add: nat_of_digits_def)

lemma nat_of_digits_show: "nat_of_digits (show_nat n) = n"
proof (induction n rule: show_nat.induct)
  case (1 n)
  then show ?case
    by (subst show_nat.simps)
      (auto simp: nat_of_digits_append digit_chars, simp add: nat_of_digits_def digit_chars)
qed

lemma show_nat_hd: "0 < n \<Longrightarrow> hd (show_nat n) \<noteq> CHR ''0''"
proof (induction n rule: show_nat.induct)
  case (1 n)
  show ?case
  proof (cases "n < 10")
    case True
    then have "digit_value (char_of (48 + n)) = n" by (simp add: digit_chars)
    moreover have "digit_value (CHR ''0'') = 0" by (simp add: digit_value_def)
    ultimately have "digit_value (char_of (48 + n)) \<noteq> digit_value (CHR ''0'')" using 1(2) by linarith
    then have "char_of (48 + n) \<noteq> CHR ''0''" by metis
    then show ?thesis using True by (subst show_nat.simps) simp
  next
    case False
    then show ?thesis using 1 by (subst show_nat.simps) (simp add: hd_append)
  qed
qed

lemma nat_of_digits_zeros: "nat_of_digits (replicate j (CHR ''0'') @ s) = nat_of_digits s"
  by (induction j) (simp_all add: nat_of_digits_def digit_value_def)

lemma nat_of_digits_replicate: "nat_of_digits (s @ replicate j (CHR ''0'')) = nat_of_digits s * 10 ^ j"
proof (induction j)
  case 0
  then show ?case by simp
next
  case (Suc j)
  have "s @ replicate (Suc j) (CHR ''0'') = (s @ replicate j (CHR ''0'')) @ [CHR ''0'']"
    by (simp add: replicate_append_same)
  then show ?case using Suc by (simp only: nat_of_digits_append) (simp add: digit_value_def)
qed

lemma strip10_value: "strip10 m z = (d, z') \<Longrightarrow> z \<le> z' \<and> m = d * 10 ^ (z' - z) \<and> (0 < m \<longrightarrow> 0 < d)"
proof (induction m z rule: strip10.induct)
  case (1 m z)
  show ?case
  proof (cases "m \<noteq> 0 \<and> 10 dvd m")
    case True
    then have "strip10 (m div 10) (Suc z) = (d, z')" using 1(2) by (subst (asm) strip10.simps) simp
    with 1(1) True have IH: "Suc z \<le> z'" "m div 10 = d * 10 ^ (z' - Suc z)" "0 < m div 10 \<longrightarrow> 0 < d" by auto
    then have "m = d * 10 ^ Suc (z' - Suc z)" using True by (auto simp: dvd_def)
    with IH True show ?thesis by (auto simp: Suc_diff_Suc)
  next
    case False
    then show ?thesis using 1(2) by (subst (asm) strip10.simps) auto
  qed
qed

lemma norm_num_ok: "e = 0 \<or> \<not> 10 dvd m \<Longrightarrow> norm_num m e = Num m e"
  by (cases e) auto

lemma span_digits:
  assumes "\<forall>c \<in> set s. is_digit c" and "t = [] \<or> \<not> is_digit (hd t)"
  shows "takeWhile is_digit (s @ t) = s" "dropWhile is_digit (s @ t) = t"
  using assms by (cases t; simp add: takeWhile_append dropWhile_append)+

lemma span_nondigit:
  "r = [] \<or> \<not> is_digit (hd r) \<Longrightarrow> takeWhile is_digit r = [] \<and> dropWhile is_digit r = r"
  by (cases r) auto

lemma number_end_digit: "number_end r \<Longrightarrow> r = [] \<or> \<not> is_digit (hd r)"
  by (cases r) (auto simp: number_end_def)

lemma parse_fraction_none:
  "r = [] \<or> hd r \<noteq> CHR ''.'' \<Longrightarrow> parse_fraction r = Some ([], r)"
  by (cases r) (auto simp: parse_fraction_def)

lemma parse_fraction_digits:
  assumes "fs \<noteq> []" and "\<forall>c \<in> set fs. is_digit c" and "r = [] \<or> \<not> is_digit (hd r)"
  shows "parse_fraction (CHR ''.'' # fs @ r) = Some (fs, r)"
  using assms by (simp add: parse_fraction_def Let_def span_nondigit)

lemma parse_exponent_none:
  "r = [] \<or> hd r \<noteq> CHR ''e'' \<and> hd r \<noteq> CHR ''E'' \<Longrightarrow> parse_exponent r = Some (0, r)"
  by (cases r) (auto simp: parse_exponent_def)

lemma parse_exponent_string:
  assumes "number_end r"
  shows "parse_exponent (exponent_string x @ r) = Some (x, r)"
  by (simp add: parse_exponent_def exponent_string_def Let_def show_nat_digits
      span_nondigit [OF number_end_digit [OF assms]] nat_of_digits_show)

lemma number_end_neq: "number_end r \<Longrightarrow> r = [] \<or> hd r \<noteq> CHR ''.'' \<and> hd r \<noteq> CHR ''e'' \<and> hd r \<noteq> CHR ''E''"
  by (cases r) (auto simp: number_end_def)

text \<open>What every layout has in common: integer digits, fraction digits, exponent.\<close>

lemma parse_unsigned_parts:
  assumes ds: "ds \<noteq> []" "\<forall>c \<in> set ds. is_digit c" "hd ds = CHR ''0'' \<longrightarrow> tl ds = []"
    and fs: "\<forall>c \<in> set fs. is_digit c" and r: "number_end r"
    and ex: "ex = [] \<and> x = 0 \<or> ex = exponent_string x"
    and m: "nat_of_digits (ds @ fs) = m"
  shows "parse_unsigned neg (ds @ (if fs = [] then [] else CHR ''.'' # fs) @ ex @ r) =
    Some (scaled (if neg then - int m else int m) (int (length fs) - x), r)"
proof -
  let ?t = "(if fs = [] then [] else CHR ''.'' # fs) @ ex @ r"
  have ndig: "\<not> is_digit (CHR ''.'')" "\<not> is_digit (CHR ''e'')" by (simp_all add: is_digit_def)
  have er: "ex @ r = [] \<or> \<not> is_digit (hd (ex @ r)) \<and> hd (ex @ r) \<noteq> CHR ''.''"
    using ex number_end_digit [OF r] number_end_neq [OF r] ndig by (auto simp: exponent_string_def)
  then have "?t = [] \<or> \<not> is_digit (hd ?t)" using ndig by auto
  note span = span_digits [OF ds(2) this]
  have frac: "parse_fraction ?t = Some (fs, ex @ r)"
  proof (cases "fs = []")
    case True
    then show ?thesis using er by (auto simp: parse_fraction_none)
  next
    case False
    then show ?thesis using parse_fraction_digits [OF False fs] er by auto
  qed
  have "parse_exponent (ex @ r) = Some (x, r)"
    using ex parse_exponent_string [OF r] number_end_neq [OF r] by (auto simp: parse_exponent_none)
  with frac ds m show ?thesis by (auto simp: parse_unsigned_def Let_def span)
qed

lemma parse_number_text:
  assumes m: "0 < m" and ok: "e = 0 \<or> \<not> 10 dvd m" and r: "number_end r"
  shows "parse_unsigned neg (number_text m e @ r) = Some (Num (if neg then - int m else int m) e, r)"
proof -
  obtain d z where dz: "strip10 m 0 = (d, z)" by (cases "strip10 m 0")
  from strip10_value [OF dz] m have md: "m = d * 10 ^ z" and d: "0 < d" by auto
  have z: "e \<noteq> 0 \<Longrightarrow> z = 0 \<and> d = m" using ok md by (cases z) auto
  let ?s = "show_nat d"
  define n where "n = int (length ?s) + int z - int e"
  have s: "?s \<noteq> []" "\<forall>c \<in> set ?s. is_digit c" "hd ?s \<noteq> CHR ''0''" "nat_of_digits ?s = d"
    using d by (simp_all add: show_nat_digits show_nat_hd nat_of_digits_show)
  have layout: "number_text m e =
      (if int (length ?s) \<le> n \<and> n \<le> 21 then ?s @ replicate (nat (n - int (length ?s))) (CHR ''0'')
       else if 0 < n \<and> n \<le> 21 then take (nat n) ?s @ CHR ''.'' # drop (nat n) ?s
       else if -6 < n \<and> n \<le> 0 then CHR ''0'' # CHR ''.'' # replicate (nat (- n)) (CHR ''0'') @ ?s
       else if length ?s = 1 then ?s @ exponent_string (n - 1)
       else hd ?s # CHR ''.'' # tl ?s @ exponent_string (n - 1))"
    by (simp add: number_text_def dz n_def Let_def)
  define v where "v = (if neg then - int m else int m)"
  define w where "w = (if neg then - int d else int d)"
  have scaled_m: "scaled v (int e) = Num v e"
  proof -
    have "(10 :: int) dvd int m \<longleftrightarrow> 10 dvd m" using int_dvd_int_iff [of 10 m] by simp
    with ok show ?thesis
      using norm_num_ok [of e "int m"] norm_num_ok [of e "- int m"] by (auto simp: scaled_def v_def)
  qed
  have scaled_d: "scaled w (int e - int z) = Num v e"
  proof (cases "e = 0")
    case True
    then show ?thesis by (simp add: scaled_def md v_def w_def)
  next
    case False
    then have "w = v" "z = 0" using z by (simp_all add: v_def w_def)
    with scaled_m show ?thesis by simp
  qed
  have "parse_unsigned neg (number_text m e @ r) = Some (Num v e, r)"
  proof -
    consider (plain) "int (length ?s) \<le> n" "n \<le> 21"
      | (point) "\<not> int (length ?s) \<le> n" "0 < n" "n \<le> 21"
      | (small) "-6 < n" "n \<le> 0"
      | (expo) "\<not> (int (length ?s) \<le> n \<and> n \<le> 21)" "\<not> (0 < n \<and> n \<le> 21)" "\<not> (-6 < n \<and> n \<le> 0)"
      by linarith
    then show ?thesis
    proof cases
      case plain
      have "e = 0" using plain z by (cases "e = 0") (auto simp: n_def)
      then have n: "nat (n - int (length ?s)) = z" by (simp add: n_def)
      have "parse_unsigned neg ((?s @ replicate z (CHR ''0'')) @ r) =
          Some (scaled v 0, r)"
      proof -
        have "\<forall>c \<in> set (?s @ replicate z (CHR ''0'')). is_digit c"
          using s by (auto simp: is_digit_def [of "CHR ''0''"])
        with s show ?thesis
          using parse_unsigned_parts [of "?s @ replicate z (CHR ''0'')" "[]" r "[]" 0 m neg, folded v_def] r
          by (simp add: nat_of_digits_replicate md hd_append)
      qed
      moreover have "number_text m e = ?s @ replicate z (CHR ''0'')"
        unfolding layout using plain n by simp
      ultimately show ?thesis using scaled_m \<open>e = 0\<close> by simp
    next
      case point
      then have "e \<noteq> 0" by (auto simp: n_def)
      then have zd: "z = 0" "d = m" using z by auto
      let ?k = "nat n"
      have k: "0 < ?k" "?k < length ?s" "length ?s - ?k = e" using point zd by (auto simp: n_def)
      have "parse_unsigned neg (take ?k ?s @ (if drop ?k ?s = [] then [] else CHR ''.'' # drop ?k ?s) @ [] @ r) =
          Some (scaled v (int (length (drop ?k ?s)) - 0), r)"
        using s k zd unfolding v_def
        by (intro parse_unsigned_parts [OF _ _ _ _ r]) (auto dest: in_set_takeD in_set_dropD)
      then show ?thesis using point k scaled_m by (simp add: layout)
    next
      case small
      have "0 < length ?s" by simp
      with small have "e \<noteq> 0" by (auto simp: n_def simp del: length_greater_0_conv)
      then have zd: "z = 0" "d = m" using z by auto
      let ?f = "replicate (nat (- n)) (CHR ''0'') @ ?s"
      have "nat_of_digits ([CHR ''0''] @ ?f) = m"
        using nat_of_digits_zeros [of "Suc (nat (- n))" ?s] s zd by simp
      then have "parse_unsigned neg ([CHR ''0''] @ (if ?f = [] then [] else CHR ''.'' # ?f) @ [] @ r) =
          Some (scaled v (int (length ?f) - 0), r)"
        using s unfolding v_def
        by (intro parse_unsigned_parts [OF _ _ _ _ r]) (auto simp: is_digit_def)
      moreover have "int (length ?f) = int e" using small zd by (simp add: n_def)
      moreover have "\<not> int (length ?s) \<le> n" using small \<open>0 < length ?s\<close> by linarith
      ultimately show ?thesis using small s(1) scaled_m by (simp add: layout)
    next
      case expo
      have "parse_unsigned neg ([hd ?s] @ (if tl ?s = [] then [] else CHR ''.'' # tl ?s) @ exponent_string (n - 1) @ r) =
          Some (scaled w (int (length (tl ?s)) - (n - 1)), r)"
        using s unfolding w_def
        by (intro parse_unsigned_parts [OF _ _ _ _ r]) (auto dest: in_set_tlD)
      moreover have "int (length (tl ?s)) - (n - 1) = int e - int z"
        using s(1) by (cases ?s) (simp_all add: n_def)
      moreover have "number_text m e = [hd ?s] @ (if tl ?s = [] then [] else CHR ''.'' # tl ?s) @ exponent_string (n - 1)"
        unfolding layout using expo s(1) by (cases ?s) auto
      ultimately show ?thesis using scaled_d by simp
    qed
  qed
  then show ?thesis by (simp add: v_def)
qed

lemma digit_not_minus: "is_digit c \<Longrightarrow> c \<noteq> CHR ''-''"
  by (auto simp: is_digit_def)

lemma number_text_hd:
  assumes "0 < m" and "e = 0 \<or> \<not> 10 dvd m"
  shows "\<exists>c t. number_text m e = c # t \<and> is_digit c"
proof -
  have "parse_unsigned False (number_text m e @ []) \<noteq> None"
    using parse_number_text [OF assms, of "[]" False] by (simp add: number_end_def)
  then have "takeWhile is_digit (number_text m e) \<noteq> []"
    by (auto simp: parse_unsigned_def Let_def)
  then show ?thesis by (cases "number_text m e") (auto split: if_splits)
qed

lemma parse_number_string:
  assumes ok: "jsnum_ok n" and fin: "is_finite n" and r: "number_end r"
  shows "parse_number (number_string n @ r) = Some (n, r)"
proof -
  obtain m e where n: "n = Num m e" using fin by (cases n) auto
  consider "m = 0" | "0 < m" | "m < 0" by linarith
  then show ?thesis
  proof cases
    case 1
    then have e: "e = 0" using ok n by simp
    have "parse_unsigned False ([CHR ''0''] @ (if [] = ([] :: string) then [] else CHR ''.'' # []) @ [] @ r)
        = Some (scaled (if False then - int 0 else int 0) (int (length ([] :: string)) - 0), r)"
      by (rule parse_unsigned_parts [OF _ _ _ _ r])
        (auto simp: is_digit_def nat_of_digits_def digit_value_def)
    then show ?thesis using 1 e by (simp add: n parse_number_def scaled_def)
  next
    case 2
    have "e = 0 \<or> \<not> 10 dvd nat m" using ok n 2 int_dvd_int_iff [of 10 "nat m"] by auto
    moreover from this 2 obtain c t where "number_text (nat m) e = c # t" "is_digit c"
      using number_text_hd [of "nat m" e] by auto
    ultimately show ?thesis
      using parse_number_text [of "nat m" e r False] 2 r digit_not_minus [of c]
      by (simp add: n parse_number_def)
  next
    case 3
    have "e = 0 \<or> \<not> 10 dvd nat (- m)" using ok n 3 int_dvd_int_iff [of 10 "nat (- m)"] by auto
    then show ?thesis using parse_number_text [of "nat (- m)" e r True] 3 r
      by (simp add: n parse_number_def)
  qed
qed

lemma number_string_hd:
  assumes "jsnum_ok n" and "is_finite n"
  shows "\<exists>c t. number_string n = c # t \<and> (is_digit c \<or> c = CHR ''-'')"
proof -
  obtain m e where n: "n = Num m e" using assms(2) by (cases n) auto
  show ?thesis
  proof (cases "m \<le> 0")
    case True
    then show ?thesis by (auto simp: n is_digit_def)
  next
    case False
    then have "e = 0 \<or> \<not> 10 dvd nat m" using assms n int_dvd_int_iff [of 10 "nat m"] by auto
    then show ?thesis using number_text_hd [of "nat m" e] False by (simp add: n) blast
  qed
qed

section \<open>Canonical JSON\<close>

lemma mapE_cong [fundef_cong]:
  "xs = ys \<Longrightarrow> (\<And>x. x \<in> set ys \<Longrightarrow> f x = g x) \<Longrightarrow> mapE f xs = mapE g ys"
  by (induction ys arbitrary: xs) auto

text \<open>
  \<open>canonicalize\<close>. The values of the model are trees, so its check for cycles cannot fail. The keys of
  an object are distinct; sorting the entries by key sorts \<open>Object.keys\<close>.
\<close>

definition entry_text :: "string \<times> (js_error + string) \<Rightarrow> js_error + string" where
  "entry_text p = bindE (snd p) (\<lambda>t. Inr (json_string (fst p) @ '':'' @ t))"

fun canonicalize :: "jval \<Rightarrow> js_error + string" where
  "canonicalize JNull = Inr ''null''"
| "canonicalize (JBool b) = Inr (if b then ''true'' else ''false'')"
| "canonicalize (JStr s) = Inr (json_string s)"
| "canonicalize (JNum n) =
     (if is_finite n then Inr (number_string n)
      else Inl (TypeError ''Event JSON numbers must be finite''))"
| "canonicalize (JArr xs) =
     bindE (mapE canonicalize xs) (\<lambda>ts. Inr (''['' @ js_join '','' ts @ '']''))"
| "canonicalize (JObj fields) =
     bindE (mapE entry_text (sort_key fst (map (\<lambda>p. (fst p, canonicalize (snd p))) fields)))
       (\<lambda>ts. Inr (''{'' @ js_join '','' ts @ ''}''))"
| "canonicalize JExotic = Inl (TypeError ''Event JSON objects must be plain objects'')"
| "canonicalize JUndefined = Inl (TypeError ''Event values must be valid JSON'')"
| "canonicalize JCode = Inl (TypeError ''Event values must be valid JSON'')"

definition canonicalJson :: "jval \<Rightarrow> js_error + string" where
  "canonicalJson v = canonicalize v"

section \<open>JSON.parse\<close>

definition json_space :: "char \<Rightarrow> bool" where
  "json_space c \<longleftrightarrow> c \<in> {CHR 0x20, CHR 0x09, CHR 0x0A, CHR 0x0D}"

definition skip_ws :: "string \<Rightarrow> string" where
  "skip_ws s = dropWhile json_space s"

definition expect :: "char \<Rightarrow> string \<Rightarrow> string option" where
  "expect c s = (case skip_ws s of d # t \<Rightarrow> if d = c then Some t else None | [] \<Rightarrow> None)"

definition parse_keyword :: "string \<Rightarrow> jval \<Rightarrow> string \<Rightarrow> (jval \<times> string) option" where
  "parse_keyword k v s = (if take (length k) s = k then Some (v, drop (length k) s) else None)"

text \<open>
  Recursive descent with fuel; \<open>json_parse\<close> gives it more fuel than the text has characters. A
  repeated key overwrites the earlier value (\<open>AList.update\<close>).
\<close>

fun parse_value :: "nat \<Rightarrow> string \<Rightarrow> (jval \<times> string) option"
  and parse_elements :: "nat \<Rightarrow> string \<Rightarrow> (jval list \<times> string) option"
  and parse_members :: "nat \<Rightarrow> string \<Rightarrow> ((string \<times> jval) list \<times> string) option" where
  "parse_value 0 s = None"
| "parse_value (Suc n) s =
     (case skip_ws s of
        [] \<Rightarrow> None
      | c # t \<Rightarrow>
          if c = CHR 0x22 then map_option (\<lambda>(u, r). (JStr u, r)) (parse_string t)
          else if c = CHR ''['' then
            (case expect (CHR '']'') t of
               Some r \<Rightarrow> Some (JArr [], r)
             | None \<Rightarrow> map_option (\<lambda>(xs, r). (JArr xs, r)) (parse_elements n t))
          else if c = CHR ''{'' then
            (case expect (CHR ''}'') t of
               Some r \<Rightarrow> Some (JObj [], r)
             | None \<Rightarrow> map_option (\<lambda>(fs, r). (JObj (foldl (\<lambda>obj p. AList.update (fst p) (snd p) obj) [] fs), r))
                         (parse_members n t))
          else if c = CHR ''n'' then parse_keyword ''null'' JNull (c # t)
          else if c = CHR ''t'' then parse_keyword ''true'' (JBool True) (c # t)
          else if c = CHR ''f'' then parse_keyword ''false'' (JBool False) (c # t)
          else map_option (\<lambda>(x, r). (JNum x, r)) (parse_number (c # t)))"
| "parse_elements 0 s = None"
| "parse_elements (Suc n) s =
     (case parse_value n s of
        None \<Rightarrow> None
      | Some (v, t) \<Rightarrow>
          (case expect (CHR '','') t of
             Some u \<Rightarrow> map_option (\<lambda>(xs, r). (v # xs, r)) (parse_elements n u)
           | None \<Rightarrow> map_option (\<lambda>r. ([v], r)) (expect (CHR '']'') t)))"
| "parse_members 0 s = None"
| "parse_members (Suc n) s =
     (case Option.bind (expect (CHR 0x22) s) parse_string of
        None \<Rightarrow> None
      | Some (k, t) \<Rightarrow>
          (case Option.bind (expect (CHR '':'') t) (parse_value n) of
             None \<Rightarrow> None
           | Some (v, u) \<Rightarrow>
               (case expect (CHR '','') u of
                  Some w \<Rightarrow> map_option (\<lambda>(fs, r). ((k, v) # fs, r)) (parse_members n w)
                | None \<Rightarrow> map_option (\<lambda>r. ([(k, v)], r)) (expect (CHR ''}'') u))))"

definition json_parse :: "string \<Rightarrow> jval option" where
  "json_parse s =
     (case parse_value (Suc (length s)) s of
        None \<Rightarrow> None
      | Some (v, r) \<Rightarrow> if skip_ws r = [] then Some v else None)"

section \<open>The round trip\<close>

text \<open>The values that have a canonical text, and the value that parsing it gives back: keys in order.\<close>

fun json_ok :: "jval \<Rightarrow> bool" where
  "json_ok JNull = True"
| "json_ok (JBool b) = True"
| "json_ok (JStr s) = True"
| "json_ok (JNum n) = (is_finite n \<and> jsnum_ok n)"
| "json_ok (JArr xs) = (\<forall>x \<in> set xs. json_ok x)"
| "json_ok (JObj fields) = (distinct (map fst fields) \<and> (\<forall>p \<in> set fields. json_ok (snd p)))"
| "json_ok _ = False"

fun json_norm :: "jval \<Rightarrow> jval" where
  "json_norm (JArr xs) = JArr (map json_norm xs)"
| "json_norm (JObj fields) = JObj (sort_key fst (map (\<lambda>p. (fst p, json_norm (snd p))) fields))"
| "json_norm v = v"

lemma insort_key_fst_map:
  "insort_key fst (fst p, h p) (map (\<lambda>p. (fst p, h p)) xs) = map (\<lambda>p. (fst p, h p)) (insort_key fst p xs)"
  by (induction xs) auto

lemma sort_key_fst_map:
  "sort_key fst (map (\<lambda>p. (fst p, h p)) xs) = map (\<lambda>p. (fst p, h p)) (sort_key fst xs)"
  by (induction xs) (simp_all add: insort_key_fst_map [symmetric])

definition token_start :: "char \<Rightarrow> bool" where
  "token_start c \<longleftrightarrow> \<not> json_space c \<and> c \<noteq> CHR '','' \<and> c \<noteq> CHR '']'' \<and> c \<noteq> CHR ''}''"

definition parses :: "jval \<Rightarrow> string \<Rightarrow> bool" where
  "parses v t \<longleftrightarrow> (\<exists>c u. t = c # u \<and> token_start c) \<and>
     (\<forall>n r. length t \<le> n \<longrightarrow> number_end r \<longrightarrow> parse_value n (t @ r) = Some (v, r))"

lemma expect_same: "\<not> json_space c \<Longrightarrow> expect c (c # t) = Some t"
  by (simp add: expect_def skip_ws_def)

lemma expect_other: "\<not> json_space d \<Longrightarrow> d \<noteq> c \<Longrightarrow> expect c (d # t) = None"
  by (simp add: expect_def skip_ws_def)

lemma punctuation:
  "\<not> json_space (CHR '','')" "\<not> json_space (CHR '']'')" "\<not> json_space (CHR ''}'')"
  "\<not> json_space (CHR '':'')" "\<not> json_space (CHR 0x22)" "\<not> json_space (CHR ''['')"
  "\<not> json_space (CHR ''{'')"
  "number_end (CHR '','' # r)" "number_end (CHR '']'' # r)" "number_end (CHR ''}'' # r)"
  by (simp_all add: json_space_def number_end_def is_digit_def)

lemma parses_elements:
  assumes "list_all2 parses vs ts" and "vs \<noteq> []" and "length (js_join '','' ts) < n"
  shows "parse_elements n (js_join '','' ts @ CHR '']'' # r) = Some (vs, r)"
  using assms
proof (induction vs ts arbitrary: n rule: list_all2_induct)
  case Nil
  then show ?case by simp
next
  case (Cons v vs t ts)
  obtain m where n: "n = Suc m" using Cons.prems(2) by (cases n) auto
  show ?case
  proof (cases ts)
    case Nil
    then have "vs = []" using Cons.hyps(2) by simp
    moreover have "parse_value m (t @ CHR '']'' # r) = Some (v, CHR '']'' # r)"
      using Cons Nil n by (simp add: parses_def punctuation)
    ultimately show ?thesis
      by (simp add: n Nil expect_same expect_other punctuation)
  next
    case (Cons t2 ts2)
    let ?rest = "js_join '','' ts @ CHR '']'' # r"
    have len: "length t \<le> m" "length (js_join '','' ts) < m"
      using Cons.prems(2) Cons n by simp_all
    have "parse_value m (t @ CHR '','' # ?rest) = Some (v, CHR '','' # ?rest)"
      using Cons.hyps(1) len(1) by (simp add: parses_def punctuation)
    moreover have "parse_elements m ?rest = Some (vs, r)"
      using Cons.IH [OF _ len(2)] Cons.hyps(2) Cons by auto
    ultimately show ?thesis
      by (simp add: n Cons expect_same punctuation)
  qed
qed

definition entry_parses :: "string \<times> jval \<Rightarrow> string \<Rightarrow> bool" where
  "entry_parses p e \<longleftrightarrow> (\<exists>t. e = json_string (fst p) @ CHR '':'' # t \<and> parses (snd p) t)"

lemma expect_key:
  "Option.bind (expect (CHR 0x22) (json_string k @ r)) parse_string = Some (k, r)"
  by (simp add: json_string_def expect_same punctuation parse_json_string)

lemma parses_members:
  assumes "list_all2 entry_parses ps es" and "ps \<noteq> []" and "length (js_join '','' es) < n"
  shows "parse_members n (js_join '','' es @ CHR ''}'' # r) = Some (ps, r)"
  using assms
proof (induction ps es arbitrary: n rule: list_all2_induct)
  case Nil
  then show ?case by simp
next
  case (Cons p ps e es)
  obtain m where n: "n = Suc m" using Cons.prems(2) by (cases n) auto
  from Cons.hyps(1) obtain t where e: "e = json_string (fst p) @ CHR '':'' # t" and t: "parses (snd p) t"
    by (auto simp: entry_parses_def)
  have value_of: "length t \<le> m \<Longrightarrow> number_end s \<Longrightarrow> parse_value m (t @ s) = Some (snd p, s)" for s
    using t by (simp add: parses_def)
  show ?case
  proof (cases es)
    case Nil
    then have "ps = []" using Cons.hyps(2) by simp
    have "length t \<le> m" using Cons.prems(2) n Nil e by simp
    then show ?thesis using \<open>ps = []\<close> value_of
      by (simp add: n Nil e expect_key expect_same expect_other punctuation)
  next
    case (Cons e2 es2)
    let ?rest = "js_join '','' es @ CHR ''}'' # r"
    have len: "length t \<le> m" "length (js_join '','' es) < m"
      using Cons.prems(2) Cons n e by simp_all
    have "parse_members m ?rest = Some (ps, r)"
      using Cons.IH [OF _ len(2)] Cons.hyps(2) Cons by auto
    then show ?thesis using value_of [OF len(1), of "CHR '','' # ?rest"]
      by (simp add: n Cons e expect_key expect_same punctuation)
  qed
qed

lemma foldl_update_distinct:
  "distinct (map fst (al @ ps)) \<Longrightarrow> foldl (\<lambda>obj p. AList.update (fst p) (snd p) obj) al ps = al @ ps"
proof (induction ps arbitrary: al)
  case Nil
  then show ?case by simp
next
  case (Cons p ps)
  then have "AList.update (fst p) (snd p) al = al @ [p]"
    by (subst AList_update_new) auto
  with Cons show ?case by simp
qed

lemma js_join_hd: "es \<noteq> [] \<Longrightarrow> hd es = c # t \<Longrightarrow> \<exists>u. js_join sep es = c # u"
  by (cases es; cases "tl es") auto

lemma parses_array:
  assumes "list_all2 parses vs ts"
  shows "parses (JArr vs) (''['' @ js_join '','' ts @ '']'')"
proof -
  have "parse_value n ((''['' @ js_join '','' ts @ '']'') @ r) = Some (JArr vs, r)"
    if n: "length (''['' @ js_join '','' ts @ '']'') \<le> n" for n r
  proof -
    obtain m where m: "n = Suc m" "length (js_join '','' ts) < m" using n by (cases n) auto
    show ?thesis
    proof (cases vs)
      case Nil
      then show ?thesis using assms by (simp add: m skip_ws_def punctuation expect_same)
    next
      case (Cons v vs')
      with assms obtain t ts' where ts: "ts = t # ts'" "parses v t" by (auto simp: list_all2_Cons1)
      then obtain c u where "t = c # u" and c: "token_start c" by (auto simp: parses_def)
      with ts obtain u' where "js_join '','' ts = c # u'" using js_join_hd [of ts c u "'',''"] by auto
      with c have "expect (CHR '']'') (js_join '','' ts @ CHR '']'' # r) = None"
        by (simp add: expect_other token_start_def)
      then show ?thesis using parses_elements [OF assms, of m r] Cons m(2)
        by (simp add: m(1) skip_ws_def punctuation)
    qed
  qed
  then show ?thesis by (simp add: parses_def token_start_def punctuation)
qed

lemma parses_object:
  assumes "list_all2 entry_parses ps es" and "distinct (map fst ps)"
  shows "parses (JObj ps) (''{'' @ js_join '','' es @ ''}'')"
proof -
  have "parse_value n ((''{'' @ js_join '','' es @ ''}'') @ r) = Some (JObj ps, r)"
    if n: "length (''{'' @ js_join '','' es @ ''}'') \<le> n" for n r
  proof -
    obtain m where m: "n = Suc m" "length (js_join '','' es) < m" using n by (cases n) auto
    show ?thesis
    proof (cases ps)
      case Nil
      then show ?thesis using assms by (simp add: m skip_ws_def punctuation expect_same)
    next
      case (Cons p ps')
      with assms obtain e es' where es: "es = e # es'" "entry_parses p e" by (auto simp: list_all2_Cons1)
      then obtain u where "e = CHR 0x22 # u" by (auto simp: entry_parses_def json_string_def)
      with es obtain u' where "js_join '','' es = CHR 0x22 # u'"
        using js_join_hd [of es "CHR 0x22" u "'',''"] by auto
      then have "expect (CHR ''}'') (js_join '','' es @ CHR ''}'' # r) = None"
        by (simp add: expect_other punctuation)
      then show ?thesis
        using parses_members [OF assms(1), of m r] Cons m(2) foldl_update_distinct [of "[]" ps] assms(2)
        by (simp add: m(1) skip_ws_def punctuation)
    qed
  qed
  then show ?thesis by (simp add: parses_def token_start_def punctuation)
qed

lemma parses_leaf:
  assumes "t = c # u" and "token_start c"
    and "\<And>n r. number_end r \<Longrightarrow> parse_value (Suc n) (t @ r) = Some (v, r)"
  shows "parses v t"
proof -
  have "parse_value n (t @ r) = Some (v, r)" if "length t \<le> n" "number_end r" for n r
    using that assms(1,3) by (cases n) auto
  with assms(1,2) show ?thesis by (auto simp: parses_def)
qed

lemma mapE_all2:
  "(\<And>x. x \<in> set xs \<Longrightarrow> \<exists>y. f x = Inr y \<and> P x y) \<Longrightarrow> \<exists>ys. mapE f xs = Inr ys \<and> list_all2 P xs ys"
  by (induction xs) (auto, fastforce)

lemma mapE_map: "mapE f (map g xs) = mapE (\<lambda>x. f (g x)) xs"
  by (induction xs) auto

lemma canonicalize_parses: "json_ok v \<Longrightarrow> \<exists>t. canonicalize v = Inr t \<and> parses (json_norm v) t"
proof (induction v rule: canonicalize.induct)
  case 1
  have "parses JNull ''null''"
    by (rule parses_leaf) (auto simp: token_start_def json_space_def skip_ws_def parse_keyword_def)
  then show ?case by simp
next
  case (2 b)
  have "parses (JBool True) ''true''"
    by (rule parses_leaf) (auto simp: token_start_def json_space_def skip_ws_def parse_keyword_def)
  moreover have "parses (JBool False) ''false''"
    by (rule parses_leaf) (auto simp: token_start_def json_space_def skip_ws_def parse_keyword_def)
  ultimately show ?case by (cases b) simp_all
next
  case (3 s)
  have "parses (JStr s) (json_string s)"
    by (rule parses_leaf)
      (auto simp: json_string_def token_start_def json_space_def skip_ws_def parse_json_string)
  then show ?case by simp
next
  case (4 n)
  then have n: "jsnum_ok n" "is_finite n" by auto
  from number_string_hd [OF n] obtain c t where t: "number_string n = c # t"
    and c: "is_digit c \<or> c = CHR ''-''" by blast
  have cs: "token_start c" "\<not> json_space c" "c \<notin> {CHR 0x22, CHR ''['', CHR ''{'', CHR ''n'', CHR ''t'', CHR ''f''}"
    using c by (auto simp: token_start_def json_space_def is_digit_def)
  have "parses (JNum n) (number_string n)"
    using parse_number_string [OF n] cs t
    by (intro parses_leaf [OF t]) (auto simp: skip_ws_def t)
  then show ?case using n by auto
next
  case (5 xs)
  have "\<exists>ts. mapE canonicalize xs = Inr ts \<and> list_all2 (\<lambda>x t. parses (json_norm x) t) xs ts"
    using 5 by (intro mapE_all2) auto
  then obtain ts where "mapE canonicalize xs = Inr ts" "list_all2 parses (map json_norm xs) ts"
    by (auto simp: list_all2_map1)
  then show ?case using parses_array by auto
next
  case (6 fields)
  let ?ps = "sort_key fst fields"
  have "\<exists>es. mapE (\<lambda>p. entry_text (fst p, canonicalize (snd p))) ?ps = Inr es \<and>
      list_all2 (\<lambda>p e. entry_parses (fst p, json_norm (snd p)) e) ?ps es"
  proof (rule mapE_all2)
    fix p assume "p \<in> set ?ps"
    then have "p \<in> set fields" by simp
    with 6 obtain t where "canonicalize (snd p) = Inr t" "parses (json_norm (snd p)) t" by fastforce
    then show "\<exists>e. entry_text (fst p, canonicalize (snd p)) = Inr e \<and> entry_parses (fst p, json_norm (snd p)) e"
      by (auto simp: entry_text_def entry_parses_def)
  qed
  then obtain es where es: "mapE entry_text (sort_key fst (map (\<lambda>p. (fst p, canonicalize (snd p))) fields)) = Inr es"
    and all: "list_all2 entry_parses (map (\<lambda>p. (fst p, json_norm (snd p))) ?ps) es"
    by (auto simp: sort_key_fst_map mapE_map list_all2_map1)
  have "distinct (map fst (sort_key fst fields))"
    using 6(2) by (simp add: distinct_map inj_on_def)
  then have "distinct (map fst (map (\<lambda>p. (fst p, json_norm (snd p))) ?ps))" by (simp add: comp_def)
  from parses_object [OF all this] es show ?case by (simp add: sort_key_fst_map)
qed simp_all

lemma canonicalJson_roundtrip:
  assumes "json_ok v"
  shows "\<exists>t. canonicalJson v = Inr t \<and> json_parse t = Some (json_norm v)"
proof -
  from canonicalize_parses [OF assms] obtain t where t: "canonicalize v = Inr t" "parses (json_norm v) t"
    by blast
  have "number_end []" by (simp add: number_end_def)
  with t(2) have "parse_value (Suc (length t)) t = Some (json_norm v, [])"
    unfolding parses_def by (metis append_Nil2 le_SucI le_refl)
  with t(1) show ?thesis by (simp add: canonicalJson_def json_parse_def skip_ws_def)
qed

lemma sort_key_fst_idem: "sort_key fst (sort_key fst xs) = sort_key fst xs"
  by (simp add: sort_key_id_if_sorted)

lemma canonicalize_norm: "canonicalize (json_norm v) = canonicalize v"
proof (induction v rule: canonicalize.induct)
  case (5 xs)
  then show ?case by (simp add: mapE_map cong: mapE_cong)
next
  case (6 fields)
  have eq: "map (\<lambda>p. (fst p, canonicalize (json_norm (snd p)))) (sort_key fst fields) =
      map (\<lambda>p. (fst p, canonicalize (snd p))) (sort_key fst fields)"
    using 6 by (intro map_cong) fastforce+
  have "map (\<lambda>p. (fst p, canonicalize (snd p)))
          (sort_key fst (map (\<lambda>p. (fst p, json_norm (snd p))) fields)) =
      map (\<lambda>p. (fst p, canonicalize (json_norm (snd p)))) (sort_key fst fields)"
    by (simp add: sort_key_fst_map comp_def)
  then show ?case by (simp only: json_norm.simps canonicalize.simps sort_key_fst_map sort_key_fst_idem eq)
qed simp_all

section \<open>What the canonical text promises\<close>

text \<open>
  C34: two JSON values have the same canonical text exactly when they are equal up to the order of
  object keys: \<open>canonicalJson\<close> never fails on them, its text parses back to the value with its keys
  sorted, and no two different values share a text (so neither do two different requests that are
  digested through it).
\<close>

theorem canonical_json_identifies:
  assumes "json_ok v" and "json_ok w"
  shows "(\<exists>t. canonicalJson v = Inr t \<and> json_parse t = Some (json_norm v)) \<and>
    (canonicalJson v = canonicalJson w \<longleftrightarrow> json_norm v = json_norm w)"
proof -
  have "canonicalJson v = canonicalJson w \<Longrightarrow> json_norm v = json_norm w"
    using canonicalJson_roundtrip [OF assms(1)] canonicalJson_roundtrip [OF assms(2)] by auto
  moreover have "json_norm v = json_norm w \<Longrightarrow> canonicalJson v = canonicalJson w"
    by (metis canonicalJson_def canonicalize_norm)
  ultimately show ?thesis using canonicalJson_roundtrip [OF assms(1)] by blast
qed

theorem canonical_json_identifies_witness:
  "canonicalJson (JObj [(''b'', JInt 2), (''a'', JNum (Num (-15) 1))]) =
   canonicalJson (JObj [(''a'', JNum (Num (-15) 1)), (''b'', JInt 2)])"
  using canonical_json_identifies
    [of "JObj [(''b'', JInt 2), (''a'', JNum (Num (-15) 1))]"
        "JObj [(''a'', JNum (Num (-15) 1)), (''b'', JInt 2)]"] by simp

end
