(* ===== verification/Provider_Definitions.thy ===== *)
theory Provider_Definitions
  imports Green_Prelude
begin

text \<open>
  The approved cloud providers of \<open>packages/core/src/providers/provider-definitions.ts\<close>, the model
  list parser of \<open>src/providers/provider-definitions.ts\<close> and the opaque model identifiers of
  \<open>src/providers/opaque-model-id.ts\<close>.
\<close>

section \<open>Definitions\<close>

definition APPROVED_CLOUD_PROVIDER_IDS :: "string list" where
  "APPROVED_CLOUD_PROVIDER_IDS = [''openrouter'', ''openai'', ''xai'', ''groq'', ''together'']"

definition IPHONE_PROVIDER_DISCLOSURE_VERSION :: int where
  "IPHONE_PROVIDER_DISCLOSURE_VERSION = 1"

datatype output_token_field = Max_Tokens | Max_Completion_Tokens

datatype model_parser = Data_Id | Array_Id

record cloud_provider_definition =
  def_id :: string
  displayName :: string
  def_version :: int
  definitionVersion :: int
  disclosureVersion :: int
  def_adapter :: string
  scheme :: string
  hostname :: string
  port :: int
  basePath :: string
  modelsPath :: string
  chatPath :: string
  authorization_scheme :: string
  authorization_header :: string
  outputTokenField :: output_token_field
  modelParser :: model_parser

definition provider_definition ::
    "string \<Rightarrow> string \<Rightarrow> string \<Rightarrow> string \<Rightarrow> output_token_field \<Rightarrow> model_parser \<Rightarrow> cloud_provider_definition" where
  "provider_definition i name host base tokens parser =
     \<lparr>def_id = i, displayName = name, def_version = 1, definitionVersion = 1,
      disclosureVersion = IPHONE_PROVIDER_DISCLOSURE_VERSION, def_adapter = ''openai-compatible'',
      scheme = ''https'', hostname = host, port = 443, basePath = base,
      modelsPath = base @ ''/models'', chatPath = base @ ''/chat/completions'',
      authorization_scheme = ''Bearer'', authorization_header = ''authorization'',
      outputTokenField = tokens, modelParser = parser\<rparr>"

definition APPROVED_CLOUD_PROVIDER_DEFINITIONS :: "cloud_provider_definition list" where
  "APPROVED_CLOUD_PROVIDER_DEFINITIONS =
     [provider_definition ''openrouter'' ''OpenRouter'' ''openrouter.ai'' ''/api/v1'' Max_Tokens Data_Id,
      provider_definition ''openai'' ''OpenAI'' ''api.openai.com'' ''/v1'' Max_Completion_Tokens Data_Id,
      provider_definition ''xai'' ''xAI'' ''api.x.ai'' ''/v1'' Max_Tokens Data_Id,
      provider_definition ''groq'' ''Groq'' ''api.groq.com'' ''/openai/v1'' Max_Completion_Tokens Data_Id,
      provider_definition ''together'' ''Together AI'' ''api.together.ai'' ''/v1'' Max_Tokens Array_Id]"

definition isApprovedCloudProviderId :: "jval \<Rightarrow> bool" where
  "isApprovedCloudProviderId v =
     (case v of JStr s \<Rightarrow> s \<in> set APPROVED_CLOUD_PROVIDER_IDS | _ \<Rightarrow> False)"

definition getProviderDefinition :: "string \<Rightarrow> js_error + cloud_provider_definition" where
  "getProviderDefinition i =
     (if \<not> isApprovedCloudProviderId (JStr i)
      then Inl (TypeError ''cloud provider definition is not approved'')
      else case find (\<lambda>d. def_id d = i) APPROVED_CLOUD_PROVIDER_DEFINITIONS of
             None \<Rightarrow> Inl (TypeError ''cloud provider definition is not approved'')
           | Some d \<Rightarrow> Inr d)"

section \<open>The fixture parser\<close>

definition DEFINITION_KEYS :: "string list" where
  "DEFINITION_KEYS =
     [''adapter'', ''authorization'', ''basePath'', ''chatPath'', ''definitionVersion'',
      ''disclosureVersion'', ''displayName'', ''hostname'', ''id'', ''modelParser'', ''modelsPath'',
      ''outputTokenField'', ''port'', ''scheme'', ''version'']"

definition AUTHORIZATION_KEYS :: "string list" where
  "AUTHORIZATION_KEYS = [''header'', ''scheme'']"

fun output_token_field_name :: "output_token_field \<Rightarrow> string" where
  "output_token_field_name Max_Tokens = ''max_tokens''"
| "output_token_field_name Max_Completion_Tokens = ''max_completion_tokens''"

fun model_parser_name :: "model_parser \<Rightarrow> string" where
  "model_parser_name Data_Id = ''data-id''"
| "model_parser_name Array_Id = ''array-id''"

text \<open>\<open>expected[key]\<close>\<close>

definition definition_field :: "cloud_provider_definition \<Rightarrow> string \<Rightarrow> jval" where
  "definition_field d k =
     jget k (JObj
       [(''adapter'', JStr (def_adapter d)), (''basePath'', JStr (basePath d)),
        (''chatPath'', JStr (chatPath d)), (''definitionVersion'', JInt (definitionVersion d)),
        (''disclosureVersion'', JInt (disclosureVersion d)), (''displayName'', JStr (displayName d)),
        (''hostname'', JStr (hostname d)), (''id'', JStr (def_id d)),
        (''modelParser'', JStr (model_parser_name (modelParser d))),
        (''modelsPath'', JStr (modelsPath d)),
        (''outputTokenField'', JStr (output_token_field_name (outputTokenField d))),
        (''port'', JInt (port d)), (''scheme'', JStr (scheme d)), (''version'', JInt (def_version d))])"

definition ownDataRecord :: "jval \<Rightarrow> string list \<Rightarrow> js_error + jval" where
  "ownDataRecord v expected =
     (case v of
        JObj fs \<Rightarrow>
          if length fs \<noteq> length expected \<or> (\<exists>k \<in> set (map fst fs). k \<notin> set expected)
          then Inl (TypeError ''provider definitions fixture contains unknown or missing fields'')
          else if \<exists>k \<in> set expected. k \<notin> set (map fst fs)
          then Inl (TypeError ''provider definitions fixture is invalid'')
          else Inr v
      | JExotic \<Rightarrow> Inl (TypeError ''provider definitions fixture contains unknown or missing fields'')
      | _ \<Rightarrow> Inl (TypeError ''provider definitions fixture is invalid''))"

definition ownDataArray :: "jval \<Rightarrow> js_error + jval list" where
  "ownDataArray v =
     (case v of
        JArr xs \<Rightarrow>
          if length xs \<noteq> length APPROVED_CLOUD_PROVIDER_IDS
          then Inl (TypeError ''provider definitions fixture must contain exactly five definitions'')
          else Inr xs
      | _ \<Rightarrow> Inl (TypeError ''provider definitions fixture must be an array''))"

definition checkFixtureEntry :: "jval \<times> cloud_provider_definition \<Rightarrow> js_error + unit" where
  "checkFixtureEntry p =
     bindE (ownDataRecord (fst p) DEFINITION_KEYS) (\<lambda>r.
     bindE (ownDataRecord (jget ''authorization'' r) AUTHORIZATION_KEYS) (\<lambda>a.
       if \<exists>k \<in> set DEFINITION_KEYS. k \<noteq> ''authorization'' \<and> jget k r \<noteq> definition_field (snd p) k
       then Inl (TypeError ''provider definitions fixture does not match the approved definitions'')
       else if jget ''scheme'' a \<noteq> JStr (authorization_scheme (snd p)) \<or>
               jget ''header'' a \<noteq> JStr (authorization_header (snd p))
       then Inl (TypeError ''provider definitions fixture does not match the approved definitions'')
       else Inr ()))"

definition parseProviderDefinitionsFixture :: "jval \<Rightarrow> js_error + cloud_provider_definition list" where
  "parseProviderDefinitionsFixture v =
     bindE (ownDataArray v) (\<lambda>entries.
     bindE (mapE checkFixtureEntry (zip entries APPROVED_CLOUD_PROVIDER_DEFINITIONS)) (\<lambda>_.
       Inr APPROVED_CLOUD_PROVIDER_DEFINITIONS))"

section \<open>Opaque model identifiers\<close>

definition MAX_OPAQUE_MODEL_ID_BYTES :: nat where "MAX_OPAQUE_MODEL_ID_BYTES = 256"

text \<open>The classes \<open>Cc\<close> and \<open>White_Space\<close> below code unit 256.\<close>

definition control_or_whitespace :: "char \<Rightarrow> bool" where
  "control_or_whitespace c \<longleftrightarrow>
     (of_char c :: nat) < 33 \<or> (127 \<le> (of_char c :: nat) \<and> (of_char c :: nat) \<le> 160)"

text \<open>The UTF-8 length of a Latin-1 string; such a string has no surrogates and is its own NFC.\<close>

definition utf8_length :: "string \<Rightarrow> nat" where
  "utf8_length s = sum_list (map (\<lambda>c. if (of_char c :: nat) < 128 then 1 else 2) s)"

definition opaque_model_id :: "string \<Rightarrow> bool" where
  "opaque_model_id s \<longleftrightarrow>
     0 < length s \<and> length s \<le> MAX_OPAQUE_MODEL_ID_BYTES \<and>
     (\<forall>c \<in> set s. \<not> control_or_whitespace c) \<and> utf8_length s \<le> MAX_OPAQUE_MODEL_ID_BYTES"

definition isBoundedOpaqueModelId :: "jval \<Rightarrow> bool" where
  "isBoundedOpaqueModelId v = (case v of JStr s \<Rightarrow> opaque_model_id s | _ \<Rightarrow> False)"

section \<open>Provider model lists\<close>

definition invalidModelList :: js_error where
  "invalidModelList = PlainError ''Provider model list was invalid''"

definition opaqueModelId :: "jval \<Rightarrow> js_error + string" where
  "opaqueModelId v = (case v of JStr s \<Rightarrow> if opaque_model_id s then Inr s else Inl invalidModelList
                                | _ \<Rightarrow> Inl invalidModelList)"

definition ownDataProperty :: "jval \<Rightarrow> string \<Rightarrow> js_error + jval" where
  "ownDataProperty v k =
     (case v of
        JObj fs \<Rightarrow> (case map_of fs k of None \<Rightarrow> Inl invalidModelList | Some x \<Rightarrow> Inr x)
      | _ \<Rightarrow> Inl invalidModelList)"

definition modelList :: "jval \<Rightarrow> js_error + jval list" where
  "modelList v =
     (case v of
        JArr xs \<Rightarrow> if length xs < 1 \<or> length xs > 1024 then Inl invalidModelList else Inr xs
      | _ \<Rightarrow> Inl invalidModelList)"

text \<open>Every error of the body of \<open>parseProviderModels\<close> is replaced by the same one.\<close>

definition parseProviderModels :: "string \<Rightarrow> jval \<Rightarrow> js_error + string list" where
  "parseProviderModels i body =
     bindE (getProviderDefinition i) (\<lambda>d.
       case bindE (bindE (if modelParser d = Data_Id then ownDataProperty body ''data'' else Inr body) modelList)
              (\<lambda>list. bindE (mapE (\<lambda>e. bindE (ownDataProperty e ''id'') opaqueModelId) list) (\<lambda>models.
                 if distinct models then Inr models else Inl invalidModelList)) of
         Inl _ \<Rightarrow> Inl invalidModelList
       | Inr models \<Rightarrow> Inr models)"

section \<open>What the definitions and the parser promise\<close>

lemma approved_ids: "map def_id APPROVED_CLOUD_PROVIDER_DEFINITIONS = APPROVED_CLOUD_PROVIDER_IDS"
  by (simp add: APPROVED_CLOUD_PROVIDER_DEFINITIONS_def APPROVED_CLOUD_PROVIDER_IDS_def provider_definition_def)

lemma getProviderDefinition_ok:
  "(\<exists>d. getProviderDefinition i = Inr d) \<longleftrightarrow> i \<in> set APPROVED_CLOUD_PROVIDER_IDS"
proof -
  have "i \<in> set APPROVED_CLOUD_PROVIDER_IDS \<Longrightarrow> \<exists>d \<in> set APPROVED_CLOUD_PROVIDER_DEFINITIONS. def_id d = i"
    by (simp flip: approved_ids) blast
  then have "i \<in> set APPROVED_CLOUD_PROVIDER_IDS \<Longrightarrow>
      find (\<lambda>d. def_id d = i) APPROVED_CLOUD_PROVIDER_DEFINITIONS \<noteq> None"
    by (auto simp: find_None_iff)
  then show ?thesis
    by (auto simp: getProviderDefinition_def isApprovedCloudProviderId_def)
qed

lemma getProviderDefinition_sound:
  "getProviderDefinition i = Inr d \<Longrightarrow> d \<in> set APPROVED_CLOUD_PROVIDER_DEFINITIONS \<and> def_id d = i"
  by (auto simp: getProviderDefinition_def find_Some_iff split: if_splits option.splits)

lemma opaqueModelId_iff: "opaqueModelId v = Inr s \<longleftrightarrow> v = JStr s \<and> opaque_model_id s"
  by (auto simp: opaqueModelId_def split: jval.splits)

text \<open>
  A provider's model list is accepted exactly when the provider is approved and the
  body (or its \<open>data\<close> field, as the definition says) is an array of 1 to 1024 objects whose \<open>id\<close>
  fields are distinct bounded opaque identifiers; the result lists those identifiers in order.
\<close>

theorem parseProviderModels_correct:
  "parseProviderModels i body = Inr models \<longleftrightarrow>
     (\<exists>d entries. getProviderDefinition i = Inr d \<and>
        (if modelParser d = Data_Id then \<exists>fs. body = JObj fs \<and> map_of fs ''data'' = Some (JArr entries)
         else body = JArr entries) \<and>
        1 \<le> length entries \<and> length entries \<le> 1024 \<and>
        list_all2 (\<lambda>e m. \<exists>fs. e = JObj fs \<and> map_of fs ''id'' = Some (JStr m)) entries models \<and>
        distinct models \<and> (\<forall>m \<in> set models. opaque_model_id m))"
proof -
  have entry: "bindE (ownDataProperty e ''id'') opaqueModelId = Inr m \<longleftrightarrow>
      (\<exists>fs. e = JObj fs \<and> map_of fs ''id'' = Some (JStr m)) \<and> opaque_model_id m" for e m
    by (auto simp: ownDataProperty_def opaqueModelId_iff split: jval.splits option.splits)
  have ids: "mapE (\<lambda>e. bindE (ownDataProperty e ''id'') opaqueModelId) entries = Inr ms \<longleftrightarrow>
      list_all2 (\<lambda>e m. \<exists>fs. e = JObj fs \<and> map_of fs ''id'' = Some (JStr m)) entries ms \<and>
      (\<forall>m \<in> set ms. opaque_model_id m)" for entries ms
    unfolding mapE_eq_Inr entry by (induction entries ms rule: list_induct2') auto
  have list: "modelList v = Inr entries \<longleftrightarrow> v = JArr entries \<and> 1 \<le> length entries \<and> length entries \<le> 1024"
    for v entries
    by (auto simp: modelList_def Suc_le_eq not_less split: jval.splits if_splits)
  have sanitized: "(case r of Inl _ \<Rightarrow> Inl invalidModelList | Inr ms \<Rightarrow> Inr ms) = Inr models \<longleftrightarrow> r = Inr models"
    for r :: "js_error + string list" by (cases r) auto
  have property: "ownDataProperty v k = Inr x \<longleftrightarrow> (\<exists>fs. v = JObj fs \<and> map_of fs k = Some x)" for v k x
    by (auto simp: ownDataProperty_def split: jval.splits option.splits)
  show ?thesis
    unfolding parseProviderModels_def bindE_eq_Inr sanitized list guard_eq_Inr
    by (auto simp: property ids cong: conj_cong split: if_splits)
qed

theorem parseProviderModels_correct_witness:
  "parseProviderModels ''groq'' (JObj [(''data'', JArr [JObj [(''id'', JStr ''m1'')], JObj [(''id'', JStr ''m2'')]])])
   = Inr [''m1'', ''m2'']"
proof -
  obtain d where "getProviderDefinition ''groq'' = Inr d" "modelParser d = Data_Id"
    by (simp add: getProviderDefinition_def isApprovedCloudProviderId_def APPROVED_CLOUD_PROVIDER_IDS_def
        APPROVED_CLOUD_PROVIDER_DEFINITIONS_def provider_definition_def)
  then show ?thesis
    by (subst parseProviderModels_correct)
      (simp add: opaque_model_id_def MAX_OPAQUE_MODEL_ID_BYTES_def control_or_whitespace_def utf8_length_def)
qed

end
