(* ===== verification/Contracts.thy ===== *)
theory Contracts
  imports Json Provider_Definitions
begin

text \<open>
  The profile contracts of \<open>src/providers/profile-contracts.ts\<close>: connection profiles, model
  profiles, room bindings and decision snapshots, each with the parser that is the only way a value
  of unknown type becomes one, and the JSON that the database stores for it.
\<close>

section \<open>Types\<close>

definition MAX_ID_LENGTH :: nat where "MAX_ID_LENGTH = 128"

definition MAX_REVISION :: int where "MAX_REVISION = 2147483647"

definition LOCAL_ADAPTERS :: "string list" where "LOCAL_ADAPTERS = [''ollama'', ''openai-compatible'']"

datatype connection_target =
    Approved_Provider (target_definitionId: string)
  | Local_Endpoint (target_adapter: string)

record connection_profile =
  cp_id :: string
  cp_revision :: int
  cp_target :: connection_target
  credentialRef :: "string option"
  mutationId :: "string option"

record profile_revision_ref =
  ref_profileId :: string
  ref_revision :: int

record generation_defaults =
  temperature :: jsnum
  maxOutputTokens :: int

record model_profile =
  mp_id :: string
  mp_revision :: int
  mp_connection :: profile_revision_ref
  mp_modelId :: string
  requiredCapabilities :: "string list"
  mp_generation :: generation_defaults

record room_binding =
  rb_id :: string
  rb_revision :: int
  rb_roomId :: string
  rb_purpose :: string
  rb_model :: profile_revision_ref

record snapshot_connection_profile =
  sc_id :: string
  sc_revision :: int
  sc_target :: connection_target

record adapter_evidence =
  adapter_id :: string
  adapter_version :: string

record decision_snapshot =
  ds_id :: string
  ds_binding :: room_binding
  ds_connection :: snapshot_connection_profile
  ds_model :: model_profile
  effectiveGeneration :: generation_defaults
  ds_adapter :: adapter_evidence
  capabilityFingerprint :: string
  directorRevision :: int
  policyRevision :: int

section \<open>Fields and leaves\<close>

text \<open>
  \<open>dataFields\<close>: the own keys of an ordinary object, all of them allowed, the required ones all
  present; \<open>jget\<close> reads a field of the result.
\<close>

definition dataFields :: "jval \<Rightarrow> string list \<Rightarrow> string list \<Rightarrow> string \<Rightarrow> js_error + jval" where
  "dataFields v required optional label =
     (case v of
        JObj fs \<Rightarrow>
          if \<exists>k \<in> set (map fst fs). k \<notin> set (required @ optional)
          then Inl (TypeError (label @ '' contains an unknown or invalid field''))
          else if \<exists>k \<in> set required. k \<notin> set (map fst fs)
          then Inl (TypeError (label @ '' is missing a required field''))
          else Inr v
      | _ \<Rightarrow> Inl (TypeError (label @ '' must be a plain object'')))"

definition lower_alpha :: "char \<Rightarrow> bool" where
  "lower_alpha c \<longleftrightarrow> 97 \<le> (of_char c :: nat) \<and> (of_char c :: nat) \<le> 122"

definition lower_alnum :: "char \<Rightarrow> bool" where
  "lower_alnum c \<longleftrightarrow> lower_alpha c \<or> is_digit c"

text \<open>The expression \<open>/^[a-z][a-z0-9]*(?:[._-][a-z0-9]+)*$/u\<close>; the flag is set after a separator.\<close>

fun id_rest :: "bool \<Rightarrow> string \<Rightarrow> bool" where
  "id_rest after_separator [] = (\<not> after_separator)"
| "id_rest after_separator (c # cs) =
     (if lower_alnum c then id_rest False cs
      else c \<in> {CHR ''.'', CHR ''_'', CHR ''-''} \<and> \<not> after_separator \<and> id_rest True cs)"

definition id_pattern :: "string \<Rightarrow> bool" where
  "id_pattern s = (case s of [] \<Rightarrow> False | c # cs \<Rightarrow> lower_alpha c \<and> id_rest False cs)"

definition canonical_id :: "string \<Rightarrow> bool" where
  "canonical_id s \<longleftrightarrow> s \<noteq> [] \<and> length s \<le> MAX_ID_LENGTH \<and> id_pattern s"

definition canonicalId :: "jval \<Rightarrow> string \<Rightarrow> js_error + string" where
  "canonicalId v label =
     (case v of
        JStr s \<Rightarrow> if canonical_id s then Inr s
                  else Inl (TypeError (label @ '' must be a canonical ID of at most 128 characters''))
      | _ \<Rightarrow> Inl (TypeError (label @ '' must be a canonical ID of at most 128 characters'')))"

text \<open>\<open>Number.isInteger(value)\<close> and both bounds.\<close>

definition integer_between :: "int \<Rightarrow> int \<Rightarrow> jval \<Rightarrow> int option" where
  "integer_between lo hi v =
     (case v of
        JNum n \<Rightarrow> (case n of Num m e \<Rightarrow> if e = 0 \<and> lo \<le> m \<and> m \<le> hi then Some m else None | _ \<Rightarrow> None)
      | _ \<Rightarrow> None)"

definition revision :: "jval \<Rightarrow> string \<Rightarrow> js_error + int" where
  "revision v label =
     (case integer_between 1 MAX_REVISION v of
        None \<Rightarrow> Inl (TypeError (label @ '' must be an integer from 1 through 2147483647''))
      | Some n \<Rightarrow> Inr n)"

section \<open>Connection profiles\<close>

definition connectionTarget :: "jval \<Rightarrow> js_error + connection_target" where
  "connectionTarget v =
     bindE (dataFields v [''class''] [''adapter'', ''definitionId''] ''connection target'') (\<lambda>t.
       if jget ''class'' t = JStr ''approved-provider'' then
         bindE (dataFields v [''class'', ''definitionId''] [] ''connection target'') (\<lambda>a.
           case jget ''definitionId'' a of
             JStr i \<Rightarrow> if isApprovedCloudProviderId (JStr i) then Inr (Approved_Provider i)
                       else Inl (TypeError ''connection target definitionId is not approved'')
           | _ \<Rightarrow> Inl (TypeError ''connection target definitionId is not approved''))
       else if jget ''class'' t = JStr ''local-endpoint'' then
         bindE (dataFields v [''adapter'', ''class''] [] ''connection target'') (\<lambda>l.
           case jget ''adapter'' l of
             JStr a \<Rightarrow> if a \<in> set LOCAL_ADAPTERS then Inr (Local_Endpoint a)
                       else Inl (TypeError ''connection target adapter is not supported'')
           | _ \<Rightarrow> Inl (TypeError ''connection target adapter is not supported''))
       else Inl (TypeError ''connection target class is not supported''))"

definition credential_ref_of :: "string \<Rightarrow> int \<Rightarrow> string" where
  "credential_ref_of i r = ''credential:'' @ i @ '':'' @ show_int r"

text \<open>The expression \<open>/^[a-z0-9][a-z0-9-]{0,127}$/u\<close>.\<close>

definition mutation_id :: "string \<Rightarrow> bool" where
  "mutation_id s =
     (case s of
        [] \<Rightarrow> False
      | c # cs \<Rightarrow> lower_alnum c \<and> length cs \<le> 127 \<and> (\<forall>d \<in> set cs. lower_alnum d \<or> d = CHR ''-''))"

definition parseCredentialRef :: "string \<Rightarrow> int \<Rightarrow> jval \<Rightarrow> js_error + string option" where
  "parseCredentialRef i r v =
     (if v = JUndefined then Inr None
      else if v = JStr (credential_ref_of i r) then Inr (Some (credential_ref_of i r))
      else Inl (TypeError ''connection profile credentialRef must be its opaque local reference''))"

definition parseMutationId :: "jval \<Rightarrow> js_error + string option" where
  "parseMutationId v =
     (case v of
        JUndefined \<Rightarrow> Inr None
      | JStr s \<Rightarrow> if mutation_id s then Inr (Some s)
                  else Inl (TypeError ''connection profile mutationId must be a canonical non-secret ID'')
      | _ \<Rightarrow> Inl (TypeError ''connection profile mutationId must be a canonical non-secret ID''))"

definition parseConnectionProfile :: "jval \<Rightarrow> js_error + connection_profile" where
  "parseConnectionProfile v =
     bindE (dataFields v [''id'', ''revision'', ''target''] [''credentialRef'', ''mutationId'']
              ''connection profile'') (\<lambda>p.
     bindE (canonicalId (jget ''id'' p) ''connection profile id'') (\<lambda>i.
     bindE (connectionTarget (jget ''target'' p)) (\<lambda>t.
     bindE (revision (jget ''revision'' p) ''connection profile revision'') (\<lambda>r.
     bindE (parseCredentialRef i r (jget ''credentialRef'' p)) (\<lambda>c.
     bindE (parseMutationId (jget ''mutationId'' p)) (\<lambda>m.
       Inr \<lparr>cp_id = i, cp_revision = r, cp_target = t, credentialRef = c, mutationId = m\<rparr>))))))"

section \<open>Model profiles\<close>

definition profileRevisionRef :: "jval \<Rightarrow> string \<Rightarrow> js_error + profile_revision_ref" where
  "profileRevisionRef v label =
     bindE (dataFields v [''profileId'', ''revision''] [] label) (\<lambda>f.
     bindE (canonicalId (jget ''profileId'' f) (label @ '' profileId'')) (\<lambda>i.
     bindE (revision (jget ''revision'' f) (label @ '' revision'')) (\<lambda>r.
       Inr \<lparr>ref_profileId = i, ref_revision = r\<rparr>)))"

definition modelId :: "jval \<Rightarrow> js_error + string" where
  "modelId v =
     (case v of
        JStr s \<Rightarrow> if isBoundedOpaqueModelId (JStr s) then Inr s
                  else Inl (TypeError ''model profile modelId must be a bounded opaque provider ID'')
      | _ \<Rightarrow> Inl (TypeError ''model profile modelId must be a bounded opaque provider ID''))"

definition MODEL_CAPABILITIES :: "string list" where
  "MODEL_CAPABILITIES = [''chat'', ''json-output'', ''streaming'', ''system-messages'']"

definition modelCapability :: "jval \<Rightarrow> js_error + string" where
  "modelCapability v =
     (case v of
        JStr s \<Rightarrow> if s \<in> set MODEL_CAPABILITIES then Inr s
                  else Inl (TypeError ''model profile contains an unsupported required capability'')
      | _ \<Rightarrow> Inl (TypeError ''model profile contains an unsupported required capability''))"

text \<open>No element is at most its predecessor.\<close>

fun strictly_sorted :: "string list \<Rightarrow> bool" where
  "strictly_sorted (x # y # ys) = (\<not> y \<le> x \<and> strictly_sorted (y # ys))"
| "strictly_sorted _ = True"

definition parseCapabilities :: "jval \<Rightarrow> js_error + string list" where
  "parseCapabilities v =
     (case v of
        JArr xs \<Rightarrow>
          bindE (mapE modelCapability xs) (\<lambda>cs.
            if length cs > length MODEL_CAPABILITIES \<or> \<not> strictly_sorted cs
            then Inl (TypeError ''model profile requiredCapabilities must be unique and sorted'')
            else Inr cs)
      | _ \<Rightarrow> Inl (TypeError ''model profile requiredCapabilities must be a plain array''))"

definition valid_temperature :: "jsnum \<Rightarrow> bool" where
  "valid_temperature n \<longleftrightarrow> is_finite n \<and> \<not> num_less n 0 \<and> \<not> num_greater n 2"

definition generationDefaults :: "jval \<Rightarrow> js_error + generation_defaults" where
  "generationDefaults v =
     bindE (dataFields v [''maxOutputTokens'', ''temperature''] [] ''model profile generation'') (\<lambda>g.
       case jget ''temperature'' g of
         JNum n \<Rightarrow>
           if \<not> valid_temperature n
           then Inl (TypeError ''model profile temperature must be from 0 through 2'')
           else (case integer_between 1 32768 (jget ''maxOutputTokens'' g) of
                   None \<Rightarrow> Inl (TypeError ''model profile maxOutputTokens must be an integer from 1 through 32768'')
                 | Some m \<Rightarrow> Inr \<lparr>temperature = n, maxOutputTokens = m\<rparr>)
       | _ \<Rightarrow> Inl (TypeError ''model profile temperature must be from 0 through 2''))"

definition parseModelProfile :: "jval \<Rightarrow> js_error + model_profile" where
  "parseModelProfile v =
     bindE (dataFields v [''connection'', ''generation'', ''id'', ''modelId'', ''requiredCapabilities'',
                          ''revision''] [] ''model profile'') (\<lambda>p.
     bindE (canonicalId (jget ''id'' p) ''model profile id'') (\<lambda>i.
     bindE (revision (jget ''revision'' p) ''model profile revision'') (\<lambda>r.
     bindE (profileRevisionRef (jget ''connection'' p) ''model profile connection'') (\<lambda>c.
     bindE (modelId (jget ''modelId'' p)) (\<lambda>m.
     bindE (parseCapabilities (jget ''requiredCapabilities'' p)) (\<lambda>q.
     bindE (generationDefaults (jget ''generation'' p)) (\<lambda>g.
       Inr \<lparr>mp_id = i, mp_revision = r, mp_connection = c, mp_modelId = m,
            requiredCapabilities = q, mp_generation = g\<rparr>)))))))"

section \<open>Room bindings\<close>

definition parseRoomBinding :: "jval \<Rightarrow> js_error + room_binding" where
  "parseRoomBinding v =
     bindE (dataFields v [''id'', ''model'', ''purpose'', ''revision'', ''roomId''] [] ''room binding'') (\<lambda>b.
       if jget ''purpose'' b \<noteq> JStr ''persona-default''
       then Inl (TypeError ''room binding purpose is not supported'')
       else
     bindE (canonicalId (jget ''id'' b) ''room binding id'') (\<lambda>i.
     bindE (revision (jget ''revision'' b) ''room binding revision'') (\<lambda>r.
     bindE (canonicalId (jget ''roomId'' b) ''room binding roomId'') (\<lambda>room.
     bindE (profileRevisionRef (jget ''model'' b) ''room binding model'') (\<lambda>m.
       Inr \<lparr>rb_id = i, rb_revision = r, rb_roomId = room, rb_purpose = ''persona-default'',
            rb_model = m\<rparr>)))))"

section \<open>Decision snapshots\<close>

text \<open>
  The semantic version: everything before the first plus sign is core and prerelease, everything
  before the first hyphen of that is the core; dots separate identifiers.
\<close>

fun split_on :: "char \<Rightarrow> string \<Rightarrow> string list" where
  "split_on d [] = [[]]"
| "split_on d (c # cs) =
     (if c = d then [] # split_on d cs
      else case split_on d cs of [] \<Rightarrow> [[c]] | w # ws \<Rightarrow> (c # w) # ws)"

definition split_first :: "char \<Rightarrow> string \<Rightarrow> string \<times> string option" where
  "split_first d s =
     (case dropWhile (\<lambda>c. c \<noteq> d) s of
        [] \<Rightarrow> (s, None)
      | _ # t \<Rightarrow> (takeWhile (\<lambda>c. c \<noteq> d) s, Some t))"

definition version_char :: "char \<Rightarrow> bool" where
  "version_char c \<longleftrightarrow> lower_alnum c \<or> (65 \<le> (of_char c :: nat) \<and> (of_char c :: nat) \<le> 90) \<or> c = CHR ''-''"

definition numeric_identifier :: "string \<Rightarrow> bool" where
  "numeric_identifier s \<longleftrightarrow> s \<noteq> [] \<and> (\<forall>c \<in> set s. is_digit c) \<and> (hd s = CHR ''0'' \<longrightarrow> tl s = [])"

definition prerelease_identifier :: "string \<Rightarrow> bool" where
  "prerelease_identifier s \<longleftrightarrow>
     numeric_identifier s \<or>
     (\<forall>c \<in> set s. version_char c) \<and> (\<exists>c \<in> set s. version_char c \<and> \<not> is_digit c)"

definition build_identifier :: "string \<Rightarrow> bool" where
  "build_identifier s \<longleftrightarrow> s \<noteq> [] \<and> (\<forall>c \<in> set s. version_char c)"

definition semver :: "string \<Rightarrow> bool" where
  "semver s =
     (let (main, build) = split_first (CHR ''+'') s; (core, pre) = split_first (CHR ''-'') main
      in length (split_on (CHR ''.'') core) = 3 \<and> list_all numeric_identifier (split_on (CHR ''.'') core) \<and>
         (case pre of None \<Rightarrow> True | Some p \<Rightarrow> list_all prerelease_identifier (split_on (CHR ''.'') p)) \<and>
         (case build of None \<Rightarrow> True | Some b \<Rightarrow> list_all build_identifier (split_on (CHR ''.'') b)))"

definition adapterEvidence :: "jval \<Rightarrow> js_error + adapter_evidence" where
  "adapterEvidence v =
     bindE (dataFields v [''id'', ''version''] [] ''decision snapshot adapter'') (\<lambda>a.
       case jget ''version'' a of
         JStr ver \<Rightarrow>
           if length ver > 32 \<or> \<not> semver ver
           then Inl (TypeError ''decision snapshot adapter version must be canonical semver'')
           else bindE (canonicalId (jget ''id'' a) ''decision snapshot adapter id'') (\<lambda>i.
             if i \<noteq> ''ollama'' \<and> i \<noteq> ''openai-compatible''
             then Inl (TypeError ''decision snapshot adapter id is not supported'')
             else Inr \<lparr>adapter_id = i, adapter_version = ver\<rparr>)
       | _ \<Rightarrow> Inl (TypeError ''decision snapshot adapter version must be canonical semver''))"

fun adapterForTarget :: "connection_target \<Rightarrow> string" where
  "adapterForTarget (Local_Endpoint a) = a"
| "adapterForTarget (Approved_Provider i) = ''openai-compatible''"

definition sameReference :: "profile_revision_ref \<Rightarrow> string \<Rightarrow> int \<Rightarrow> bool" where
  "sameReference ref i r \<longleftrightarrow> ref_profileId ref = i \<and> ref_revision ref = r"

definition lower_hex :: "char \<Rightarrow> bool" where
  "lower_hex c \<longleftrightarrow> is_digit c \<or> (97 \<le> (of_char c :: nat) \<and> (of_char c :: nat) \<le> 102)"

text \<open>The expression \<open>/^sha256:[0-9a-f]{64}$/u\<close>.\<close>

definition sha256_fingerprint :: "string \<Rightarrow> bool" where
  "sha256_fingerprint s \<longleftrightarrow>
     take 7 s = ''sha256:'' \<and> length (drop 7 s) = 64 \<and> (\<forall>c \<in> set (drop 7 s). lower_hex c)"

definition snapshotFingerprint :: "jval \<Rightarrow> js_error + string" where
  "snapshotFingerprint v =
     (case v of
        JStr s \<Rightarrow> if sha256_fingerprint s then Inr s
                  else Inl (TypeError ''decision snapshot capabilityFingerprint must be canonical sha256'')
      | _ \<Rightarrow> Inl (TypeError ''decision snapshot capabilityFingerprint must be canonical sha256''))"

definition parseDecisionSnapshot :: "jval \<Rightarrow> js_error + decision_snapshot" where
  "parseDecisionSnapshot v =
     bindE (dataFields v [''adapter'', ''binding'', ''capabilityFingerprint'', ''connection'', ''directorRevision'',
                          ''effectiveGeneration'', ''id'', ''model'', ''policyRevision''] []
              ''decision snapshot'') (\<lambda>s.
     bindE (parseConnectionProfile (jget ''connection'' s)) (\<lambda>c.
       if credentialRef c \<noteq> None
       then Inl (TypeError ''decision snapshots must not contain credential references'')
       else
     bindE (parseModelProfile (jget ''model'' s)) (\<lambda>m.
     bindE (parseRoomBinding (jget ''binding'' s)) (\<lambda>b.
       if \<not> sameReference (mp_connection m) (cp_id c) (cp_revision c)
       then Inl (TypeError ''decision snapshot model does not reference its exact connection revision'')
       else if \<not> sameReference (rb_model b) (mp_id m) (mp_revision m)
       then Inl (TypeError ''decision snapshot binding does not reference its exact model revision'')
       else
     bindE (snapshotFingerprint (jget ''capabilityFingerprint'' s)) (\<lambda>fp.
     bindE (adapterEvidence (jget ''adapter'' s)) (\<lambda>a.
       if adapter_id a \<noteq> adapterForTarget (cp_target c)
       then Inl (TypeError ''decision snapshot adapter does not match its connection target'')
       else
     bindE (canonicalId (jget ''id'' s) ''decision snapshot id'') (\<lambda>i.
     bindE (generationDefaults (jget ''effectiveGeneration'' s)) (\<lambda>g.
     bindE (revision (jget ''directorRevision'' s) ''decision snapshot directorRevision'') (\<lambda>dr.
     bindE (revision (jget ''policyRevision'' s) ''decision snapshot policyRevision'') (\<lambda>pr.
       Inr \<lparr>ds_id = i, ds_binding = b,
            ds_connection = \<lparr>sc_id = cp_id c, sc_revision = cp_revision c, sc_target = cp_target c\<rparr>,
            ds_model = m, effectiveGeneration = g, ds_adapter = a, capabilityFingerprint = fp,
            directorRevision = dr, policyRevision = pr\<rparr>))))))))))"

end
