(* ===== verification/Contract_Codec.thy ===== *)
theory Contract_Codec
  imports Contracts
begin

text \<open>
  The JSON objects that the parsers of \<open>src/providers/profile-contracts.ts\<close> build, as the database
  stores them, and the proof that parsing validates: what a parser returns is well formed, and the
  stored canonical text of a well-formed contract parses back to it.
\<close>

section \<open>Encoders\<close>

fun target_json :: "connection_target \<Rightarrow> jval" where
  "target_json (Approved_Provider i) = JObj [(''class'', JStr ''approved-provider''), (''definitionId'', JStr i)]"
| "target_json (Local_Endpoint a) = JObj [(''class'', JStr ''local-endpoint''), (''adapter'', JStr a)]"

definition opt_field :: "string \<Rightarrow> string option \<Rightarrow> (string \<times> jval) list" where
  "opt_field k v = (case v of None \<Rightarrow> [] | Some s \<Rightarrow> [(k, JStr s)])"

definition connection_json :: "connection_profile \<Rightarrow> jval" where
  "connection_json p = JObj
     ([(''id'', JStr (cp_id p)), (''revision'', JInt (cp_revision p)), (''target'', target_json (cp_target p))]
      @ opt_field ''credentialRef'' (credentialRef p) @ opt_field ''mutationId'' (mutationId p))"

definition ref_json :: "profile_revision_ref \<Rightarrow> jval" where
  "ref_json r = JObj [(''profileId'', JStr (ref_profileId r)), (''revision'', JInt (ref_revision r))]"

definition generation_json :: "generation_defaults \<Rightarrow> jval" where
  "generation_json g = JObj [(''temperature'', JNum (temperature g)), (''maxOutputTokens'', JInt (maxOutputTokens g))]"

definition model_json :: "model_profile \<Rightarrow> jval" where
  "model_json p = JObj
     [(''id'', JStr (mp_id p)), (''revision'', JInt (mp_revision p)), (''connection'', ref_json (mp_connection p)),
      (''modelId'', JStr (mp_modelId p)),
      (''requiredCapabilities'', JArr (map JStr (requiredCapabilities p))),
      (''generation'', generation_json (mp_generation p))]"

definition binding_json :: "room_binding \<Rightarrow> jval" where
  "binding_json b = JObj
     [(''id'', JStr (rb_id b)), (''revision'', JInt (rb_revision b)), (''roomId'', JStr (rb_roomId b)),
      (''purpose'', JStr (rb_purpose b)), (''model'', ref_json (rb_model b))]"

definition snapshot_connection_json :: "snapshot_connection_profile \<Rightarrow> jval" where
  "snapshot_connection_json c = JObj
     [(''id'', JStr (sc_id c)), (''revision'', JInt (sc_revision c)), (''target'', target_json (sc_target c))]"

definition adapter_json :: "adapter_evidence \<Rightarrow> jval" where
  "adapter_json a = JObj [(''id'', JStr (adapter_id a)), (''version'', JStr (adapter_version a))]"

definition decision_json :: "decision_snapshot \<Rightarrow> jval" where
  "decision_json s = JObj
     [(''id'', JStr (ds_id s)), (''binding'', binding_json (ds_binding s)),
      (''connection'', snapshot_connection_json (ds_connection s)), (''model'', model_json (ds_model s)),
      (''effectiveGeneration'', generation_json (effectiveGeneration s)), (''adapter'', adapter_json (ds_adapter s)),
      (''capabilityFingerprint'', JStr (capabilityFingerprint s)),
      (''directorRevision'', JInt (directorRevision s)), (''policyRevision'', JInt (policyRevision s))]"

section \<open>Well-formed contracts\<close>

definition revision_ok :: "int \<Rightarrow> bool" where
  "revision_ok r \<longleftrightarrow> 1 \<le> r \<and> r \<le> MAX_REVISION"

fun target_wf :: "connection_target \<Rightarrow> bool" where
  "target_wf (Approved_Provider i) = (i \<in> set APPROVED_CLOUD_PROVIDER_IDS)"
| "target_wf (Local_Endpoint a) = (a \<in> set LOCAL_ADAPTERS)"

definition connection_wf :: "connection_profile \<Rightarrow> bool" where
  "connection_wf p \<longleftrightarrow> canonical_id (cp_id p) \<and> revision_ok (cp_revision p) \<and> target_wf (cp_target p) \<and>
     credentialRef p \<in> {None, Some (credential_ref_of (cp_id p) (cp_revision p))} \<and>
     (case mutationId p of None \<Rightarrow> True | Some m \<Rightarrow> mutation_id m)"

definition ref_wf :: "profile_revision_ref \<Rightarrow> bool" where
  "ref_wf r \<longleftrightarrow> canonical_id (ref_profileId r) \<and> revision_ok (ref_revision r)"

definition generation_wf :: "generation_defaults \<Rightarrow> bool" where
  "generation_wf g \<longleftrightarrow> valid_temperature (temperature g) \<and> 1 \<le> maxOutputTokens g \<and> maxOutputTokens g \<le> 32768"

definition model_wf :: "model_profile \<Rightarrow> bool" where
  "model_wf p \<longleftrightarrow> canonical_id (mp_id p) \<and> revision_ok (mp_revision p) \<and> ref_wf (mp_connection p) \<and>
     opaque_model_id (mp_modelId p) \<and> set (requiredCapabilities p) \<subseteq> set MODEL_CAPABILITIES \<and>
     length (requiredCapabilities p) \<le> length MODEL_CAPABILITIES \<and>
     strictly_sorted (requiredCapabilities p) \<and> generation_wf (mp_generation p)"

definition binding_wf :: "room_binding \<Rightarrow> bool" where
  "binding_wf b \<longleftrightarrow> canonical_id (rb_id b) \<and> revision_ok (rb_revision b) \<and> canonical_id (rb_roomId b) \<and>
     rb_purpose b = ''persona-default'' \<and> ref_wf (rb_model b)"

definition adapter_wf :: "adapter_evidence \<Rightarrow> bool" where
  "adapter_wf a \<longleftrightarrow> adapter_id a \<in> {''ollama'', ''openai-compatible''} \<and>
     length (adapter_version a) \<le> 32 \<and> semver (adapter_version a)"

definition snapshot_connection_wf :: "snapshot_connection_profile \<Rightarrow> bool" where
  "snapshot_connection_wf c \<longleftrightarrow> canonical_id (sc_id c) \<and> revision_ok (sc_revision c) \<and> target_wf (sc_target c)"

definition decision_wf :: "decision_snapshot \<Rightarrow> bool" where
  "decision_wf s \<longleftrightarrow> canonical_id (ds_id s) \<and> binding_wf (ds_binding s) \<and> model_wf (ds_model s) \<and>
     snapshot_connection_wf (ds_connection s) \<and> generation_wf (effectiveGeneration s) \<and>
     adapter_wf (ds_adapter s) \<and> sha256_fingerprint (capabilityFingerprint s) \<and>
     revision_ok (directorRevision s) \<and> revision_ok (policyRevision s) \<and>
     sameReference (mp_connection (ds_model s)) (sc_id (ds_connection s)) (sc_revision (ds_connection s)) \<and>
     sameReference (rb_model (ds_binding s)) (mp_id (ds_model s)) (mp_revision (ds_model s)) \<and>
     adapter_id (ds_adapter s) = adapterForTarget (sc_target (ds_connection s))"

section \<open>Parsers accept exactly the well-formed\<close>

lemma canonicalId_iff [simp]: "canonicalId v label = Inr i \<longleftrightarrow> v = JStr i \<and> canonical_id i"
  by (auto simp: canonicalId_def split: jval.splits)

lemma integer_between_iff [simp]: "integer_between lo hi v = Some n \<longleftrightarrow> v = JInt n \<and> lo \<le> n \<and> n \<le> hi"
  by (auto simp: integer_between_def split: jval.splits jsnum.splits)

lemma revision_iff [simp]: "revision v label = Inr r \<longleftrightarrow> v = JInt r \<and> revision_ok r"
  by (auto simp: revision_def revision_ok_def integer_between_def split: jval.splits jsnum.splits)

lemma dataFields_iff:
  "dataFields v required optional label = Inr w \<longleftrightarrow>
     w = v \<and> (\<exists>fs. v = JObj fs \<and> set required \<subseteq> fst ` set fs \<and> fst ` set fs \<subseteq> set required \<union> set optional)"
  by (auto simp: dataFields_def split: jval.splits)

lemma approved_iff [simp]: "isApprovedCloudProviderId (JStr i) \<longleftrightarrow> i \<in> set APPROVED_CLOUD_PROVIDER_IDS"
  by (simp add: isApprovedCloudProviderId_def)

lemma leaf_iff [simp]:
  "modelId v = Inr m \<longleftrightarrow> v = JStr m \<and> opaque_model_id m"
  "modelCapability v = Inr m \<longleftrightarrow> v = JStr m \<and> m \<in> set MODEL_CAPABILITIES"
  "snapshotFingerprint v = Inr m \<longleftrightarrow> v = JStr m \<and> sha256_fingerprint m"
  by (auto simp: modelId_def isBoundedOpaqueModelId_def modelCapability_def snapshotFingerprint_def
      split: jval.splits)

lemma case_JStr_eq_Inr [simp]:
  "(case v of JStr s \<Rightarrow> f s | _ \<Rightarrow> Inl e) = Inr y \<longleftrightarrow> (\<exists>s. v = JStr s \<and> f s = Inr y)"
  by (cases v) auto

lemma case_JNum_eq_Inr [simp]:
  "(case v of JNum n \<Rightarrow> f n | _ \<Rightarrow> Inl e) = Inr y \<longleftrightarrow> (\<exists>n. v = JNum n \<and> f n = Inr y)"
  by (cases v) auto

lemma case_JArr_eq_Inr [simp]:
  "(case v of JArr xs \<Rightarrow> f xs | _ \<Rightarrow> Inl e) = Inr y \<longleftrightarrow> (\<exists>xs. v = JArr xs \<and> f xs = Inr y)"
  by (cases v) auto

lemma case_option_eq_Inr [simp]:
  "(case x of None \<Rightarrow> Inl e | Some a \<Rightarrow> f a) = Inr y \<longleftrightarrow> (\<exists>a. x = Some a \<and> f a = Inr y)"
  by (cases x) auto

text \<open>The object \<open>v\<close> has the keys \<open>required\<close> and at most the keys \<open>optional\<close> besides.\<close>

definition has_keys :: "jval \<Rightarrow> string list \<Rightarrow> string list \<Rightarrow> bool" where
  "has_keys v required optional \<longleftrightarrow> (\<exists>fs. v = JObj fs \<and> set required \<subseteq> fst ` set fs \<and>
     fst ` set fs \<subseteq> set required \<union> set optional)"

lemma dataFields_has_keys: "dataFields v required optional label = Inr w \<longleftrightarrow> w = v \<and> has_keys v required optional"
  by (simp add: dataFields_iff has_keys_def)

lemma connectionTarget_iff:
  "connectionTarget v = Inr t \<longleftrightarrow> target_wf t \<and>
     (case t of
        Approved_Provider i \<Rightarrow> has_keys v [''class'', ''definitionId''] [] \<and>
          jget ''class'' v = JStr ''approved-provider'' \<and> jget ''definitionId'' v = JStr i
      | Local_Endpoint a \<Rightarrow> has_keys v [''adapter'', ''class''] [] \<and>
          jget ''class'' v = JStr ''local-endpoint'' \<and> jget ''adapter'' v = JStr a)"
proof -
  have "has_keys v [''class'', ''definitionId''] [] \<Longrightarrow> has_keys v [''class''] [''adapter'', ''definitionId'']"
    and "has_keys v [''adapter'', ''class''] [] \<Longrightarrow> has_keys v [''class''] [''adapter'', ''definitionId'']"
    by (auto simp: has_keys_def)
  then show ?thesis
    by (cases t) (auto simp: connectionTarget_def dataFields_has_keys)
qed

lemma parseCredentialRef_iff:
  "parseCredentialRef i r v = Inr c \<longleftrightarrow>
     c \<in> {None, Some (credential_ref_of i r)} \<and> v = (case c of None \<Rightarrow> JUndefined | Some s \<Rightarrow> JStr s)"
  by (auto simp: parseCredentialRef_def split: option.splits)

lemma parseMutationId_iff:
  "parseMutationId v = Inr c \<longleftrightarrow> (case c of None \<Rightarrow> v = JUndefined | Some m \<Rightarrow> v = JStr m \<and> mutation_id m)"
  by (auto simp: parseMutationId_def split: jval.splits option.splits)

lemma parseConnectionProfile_iff:
  "parseConnectionProfile v = Inr p \<longleftrightarrow> connection_wf p \<and>
     has_keys v [''id'', ''revision'', ''target''] [''credentialRef'', ''mutationId''] \<and>
     jget ''id'' v = JStr (cp_id p) \<and> jget ''revision'' v = JInt (cp_revision p) \<and>
     connectionTarget (jget ''target'' v) = Inr (cp_target p) \<and>
     jget ''credentialRef'' v = (case credentialRef p of None \<Rightarrow> JUndefined | Some s \<Rightarrow> JStr s) \<and>
     jget ''mutationId'' v = (case mutationId p of None \<Rightarrow> JUndefined | Some s \<Rightarrow> JStr s)"
  by (cases p)
    (auto simp: parseConnectionProfile_def dataFields_has_keys connection_wf_def parseCredentialRef_iff
      parseMutationId_iff connectionTarget_iff split: option.splits)

lemma profileRevisionRef_iff:
  "profileRevisionRef v label = Inr r \<longleftrightarrow> ref_wf r \<and> has_keys v [''profileId'', ''revision''] [] \<and>
     jget ''profileId'' v = JStr (ref_profileId r) \<and> jget ''revision'' v = JInt (ref_revision r)"
  by (cases r) (auto simp: profileRevisionRef_def dataFields_has_keys ref_wf_def)

lemma generationDefaults_iff:
  "generationDefaults v = Inr g \<longleftrightarrow> generation_wf g \<and> has_keys v [''maxOutputTokens'', ''temperature''] [] \<and>
     jget ''temperature'' v = JNum (temperature g) \<and> jget ''maxOutputTokens'' v = JInt (maxOutputTokens g)"
  by (cases g) (auto simp: generationDefaults_def dataFields_has_keys generation_wf_def)

lemma mapE_modelCapability:
  "mapE modelCapability xs = Inr cs \<longleftrightarrow> xs = map JStr cs \<and> set cs \<subseteq> set MODEL_CAPABILITIES"
  unfolding mapE_eq_Inr by (induction xs cs rule: list_induct2') auto

lemma parseCapabilities_iff:
  "parseCapabilities v = Inr cs \<longleftrightarrow> v = JArr (map JStr cs) \<and> set cs \<subseteq> set MODEL_CAPABILITIES \<and>
     length cs \<le> length MODEL_CAPABILITIES \<and> strictly_sorted cs"
  by (auto simp: parseCapabilities_def mapE_modelCapability not_less)

lemma parseModelProfile_iff:
  "parseModelProfile v = Inr p \<longleftrightarrow> model_wf p \<and>
     has_keys v [''connection'', ''generation'', ''id'', ''modelId'', ''requiredCapabilities'', ''revision''] [] \<and>
     jget ''id'' v = JStr (mp_id p) \<and> jget ''revision'' v = JInt (mp_revision p) \<and>
     profileRevisionRef (jget ''connection'' v) ''model profile connection'' = Inr (mp_connection p) \<and>
     jget ''modelId'' v = JStr (mp_modelId p) \<and>
     jget ''requiredCapabilities'' v = JArr (map JStr (requiredCapabilities p)) \<and>
     generationDefaults (jget ''generation'' v) = Inr (mp_generation p)"
  by (cases p)
    (auto simp: parseModelProfile_def dataFields_has_keys model_wf_def parseCapabilities_iff
      dest: profileRevisionRef_iff [THEN iffD1] generationDefaults_iff [THEN iffD1])

lemma parseRoomBinding_iff:
  "parseRoomBinding v = Inr b \<longleftrightarrow> binding_wf b \<and>
     has_keys v [''id'', ''model'', ''purpose'', ''revision'', ''roomId''] [] \<and>
     jget ''purpose'' v = JStr (rb_purpose b) \<and> jget ''id'' v = JStr (rb_id b) \<and>
     jget ''revision'' v = JInt (rb_revision b) \<and> jget ''roomId'' v = JStr (rb_roomId b) \<and>
     profileRevisionRef (jget ''model'' v) ''room binding model'' = Inr (rb_model b)"
  by (cases b)
    (auto simp: parseRoomBinding_def dataFields_has_keys binding_wf_def
      dest: profileRevisionRef_iff [THEN iffD1])

lemma adapter_ids_canonical: "canonical_id ''ollama''" "canonical_id ''openai-compatible''"
  by (simp_all add: canonical_id_def MAX_ID_LENGTH_def id_pattern_def lower_alpha_def lower_alnum_def is_digit_def)

lemma adapterEvidence_iff:
  "adapterEvidence v = Inr a \<longleftrightarrow> adapter_wf a \<and> has_keys v [''id'', ''version''] [] \<and>
     jget ''id'' v = JStr (adapter_id a) \<and> jget ''version'' v = JStr (adapter_version a)"
  by (cases a) (auto simp: adapterEvidence_def dataFields_has_keys adapter_wf_def adapter_ids_canonical)

definition connection_of_snapshot :: "snapshot_connection_profile \<Rightarrow> string option \<Rightarrow> connection_profile" where
  "connection_of_snapshot c m =
     \<lparr>cp_id = sc_id c, cp_revision = sc_revision c, cp_target = sc_target c, credentialRef = None, mutationId = m\<rparr>"

lemma parseDecisionSnapshot_iff:
  "parseDecisionSnapshot v = Inr s \<longleftrightarrow> decision_wf s \<and>
     has_keys v [''adapter'', ''binding'', ''capabilityFingerprint'', ''connection'', ''directorRevision'',
                 ''effectiveGeneration'', ''id'', ''model'', ''policyRevision''] [] \<and>
     (\<exists>m. parseConnectionProfile (jget ''connection'' v) = Inr (connection_of_snapshot (ds_connection s) m)) \<and>
     parseModelProfile (jget ''model'' v) = Inr (ds_model s) \<and>
     parseRoomBinding (jget ''binding'' v) = Inr (ds_binding s) \<and>
     jget ''capabilityFingerprint'' v = JStr (capabilityFingerprint s) \<and>
     adapterEvidence (jget ''adapter'' v) = Inr (ds_adapter s) \<and>
     jget ''id'' v = JStr (ds_id s) \<and>
     generationDefaults (jget ''effectiveGeneration'' v) = Inr (effectiveGeneration s) \<and>
     jget ''directorRevision'' v = JInt (directorRevision s) \<and>
     jget ''policyRevision'' v = JInt (policyRevision s)"
  (is "?L \<longleftrightarrow> ?R")
proof
  assume ?L
  then obtain c m b fp a i g dr pr where
    "has_keys v [''adapter'', ''binding'', ''capabilityFingerprint'', ''connection'', ''directorRevision'',
                 ''effectiveGeneration'', ''id'', ''model'', ''policyRevision''] []"
    and c: "parseConnectionProfile (jget ''connection'' v) = Inr c" "credentialRef c = None"
    and m: "parseModelProfile (jget ''model'' v) = Inr m"
    and b: "parseRoomBinding (jget ''binding'' v) = Inr b"
    and same: "sameReference (mp_connection m) (cp_id c) (cp_revision c)"
      "sameReference (rb_model b) (mp_id m) (mp_revision m)"
    and fp: "jget ''capabilityFingerprint'' v = JStr fp" "sha256_fingerprint fp"
    and a: "adapterEvidence (jget ''adapter'' v) = Inr a" "adapter_id a = adapterForTarget (cp_target c)"
    and i: "jget ''id'' v = JStr i" "canonical_id i"
    and g: "generationDefaults (jget ''effectiveGeneration'' v) = Inr g"
    and r: "jget ''directorRevision'' v = JInt dr" "revision_ok dr"
      "jget ''policyRevision'' v = JInt pr" "revision_ok pr"
    and s: "s = \<lparr>ds_id = i, ds_binding = b,
       ds_connection = \<lparr>sc_id = cp_id c, sc_revision = cp_revision c, sc_target = cp_target c\<rparr>,
       ds_model = m, effectiveGeneration = g, ds_adapter = a, capabilityFingerprint = fp,
       directorRevision = dr, policyRevision = pr\<rparr>"
    unfolding parseDecisionSnapshot_def by (auto simp: dataFields_has_keys)
  moreover have "c = connection_of_snapshot (ds_connection s) (mutationId c)"
    using c(2) by (simp add: connection_of_snapshot_def s)
  moreover from c m b a g have "connection_wf c" "model_wf m" "binding_wf b" "adapter_wf a" "generation_wf g"
    by (simp_all add: parseConnectionProfile_iff parseModelProfile_iff parseRoomBinding_iff
        adapterEvidence_iff generationDefaults_iff)
  then have "decision_wf s"
    using same fp i r a by (simp add: decision_wf_def snapshot_connection_wf_def connection_wf_def s)
  ultimately show ?R by auto
next
  assume ?R
  then show ?L
    by (cases s) (auto simp: parseDecisionSnapshot_def dataFields_has_keys connection_of_snapshot_def decision_wf_def)
qed

section \<open>Parsing does not depend on key order\<close>

definition stored :: "jval \<Rightarrow> bool" where
  "stored v \<longleftrightarrow> json_ok v \<or> v = JUndefined"

lemma distinct_sort_key_fst: "distinct (map fst (sort_key fst xs)) \<longleftrightarrow> distinct (map fst xs)"
  by (metis (no_types, lifting) distinct_map distinct_sort set_sort)

lemma map_of_sort_key: "distinct (map fst xs) \<Longrightarrow> map_of (sort_key fst xs) = map_of xs"
  by (subst map_of_inject_set) (simp_all add: distinct_sort_key_fst)

lemma jget_norm: "stored v \<Longrightarrow> jget k (json_norm v) = json_norm (jget k v)"
proof (cases v)
  case (JObj fs)
  assume "stored v"
  then have "distinct (map fst (map (\<lambda>p. (fst p, json_norm (snd p))) fs))"
    by (simp add: JObj stored_def comp_def)
  from map_of_sort_key [OF this] show ?thesis
    by (simp add: JObj map_of_map [of json_norm fs, unfolded case_prod_unfold] split: option.splits)
qed simp_all

lemma jget_stored: "stored v \<Longrightarrow> stored (jget k v)"
  by (cases v) (auto simp: stored_def dest: map_of_SomeD split: option.splits)

lemma has_keys_norm: "has_keys (json_norm v) required optional = has_keys v required optional"
  by (cases v) (auto simp: has_keys_def image_image)

lemma norm_leaf [simp]:
  "json_norm v = JStr s \<longleftrightarrow> v = JStr s" "json_norm v = JNum n \<longleftrightarrow> v = JNum n"
  "json_norm v = JUndefined \<longleftrightarrow> v = JUndefined"
  by (cases v; simp)+

lemma norm_strings [simp]: "json_norm v = JArr (map JStr ss) \<longleftrightarrow> v = JArr (map JStr ss)"
proof -
  have "map json_norm xs = map JStr ss \<longleftrightarrow> xs = map JStr ss" for xs
    by (induction xs ss rule: list_induct2') auto
  then show ?thesis by (cases v) auto
qed

lemma norm_optional [simp]:
  "json_norm v = (case c of None \<Rightarrow> JUndefined | Some s \<Rightarrow> JStr s) \<longleftrightarrow>
   v = (case c of None \<Rightarrow> JUndefined | Some s \<Rightarrow> JStr s)"
  by (cases c) simp_all

lemmas norm_rules = jget_norm has_keys_norm jget_stored

lemma connectionTarget_norm: "stored v \<Longrightarrow> connectionTarget (json_norm v) = Inr t \<longleftrightarrow> connectionTarget v = Inr t"
  by (simp add: connectionTarget_iff norm_rules split: connection_target.splits)

lemma parseConnectionProfile_norm:
  "stored v \<Longrightarrow> parseConnectionProfile (json_norm v) = Inr p \<longleftrightarrow> parseConnectionProfile v = Inr p"
  by (simp add: parseConnectionProfile_iff norm_rules connectionTarget_norm)

lemma profileRevisionRef_norm:
  "stored v \<Longrightarrow> profileRevisionRef (json_norm v) label = Inr r \<longleftrightarrow> profileRevisionRef v label = Inr r"
  by (simp add: profileRevisionRef_iff norm_rules)

lemma generationDefaults_norm:
  "stored v \<Longrightarrow> generationDefaults (json_norm v) = Inr g \<longleftrightarrow> generationDefaults v = Inr g"
  by (simp add: generationDefaults_iff norm_rules)

lemma parseModelProfile_norm:
  "stored v \<Longrightarrow> parseModelProfile (json_norm v) = Inr p \<longleftrightarrow> parseModelProfile v = Inr p"
  by (simp add: parseModelProfile_iff norm_rules profileRevisionRef_norm generationDefaults_norm)

lemma parseRoomBinding_norm:
  "stored v \<Longrightarrow> parseRoomBinding (json_norm v) = Inr b \<longleftrightarrow> parseRoomBinding v = Inr b"
  by (simp add: parseRoomBinding_iff norm_rules profileRevisionRef_norm)

lemma adapterEvidence_norm:
  "stored v \<Longrightarrow> adapterEvidence (json_norm v) = Inr a \<longleftrightarrow> adapterEvidence v = Inr a"
  by (simp add: adapterEvidence_iff norm_rules)

lemma parseDecisionSnapshot_norm:
  "stored v \<Longrightarrow> parseDecisionSnapshot (json_norm v) = Inr s \<longleftrightarrow> parseDecisionSnapshot v = Inr s"
  by (simp add: parseDecisionSnapshot_iff norm_rules parseConnectionProfile_norm parseModelProfile_norm
      parseRoomBinding_norm adapterEvidence_norm generationDefaults_norm)

section \<open>What is stored is read back\<close>

text \<open>Parsers accept the encodings of well-formed contracts.\<close>

lemma target_parses: "target_wf t \<Longrightarrow> connectionTarget (target_json t) = Inr t"
  by (cases t) (simp_all add: connectionTarget_iff has_keys_def insert_commute)

lemma connection_parses: "connection_wf p \<Longrightarrow> parseConnectionProfile (connection_json p) = Inr p"
  by (auto simp: parseConnectionProfile_iff connection_json_def has_keys_def opt_field_def target_parses
      connection_wf_def split: option.splits)

lemma ref_parses: "ref_wf r \<Longrightarrow> profileRevisionRef (ref_json r) label = Inr r"
  by (simp add: profileRevisionRef_iff ref_json_def has_keys_def)

lemma generation_parses: "generation_wf g \<Longrightarrow> generationDefaults (generation_json g) = Inr g"
  by (simp add: generationDefaults_iff generation_json_def has_keys_def insert_commute)

lemma model_parses: "model_wf p \<Longrightarrow> parseModelProfile (model_json p) = Inr p"
  by (simp add: parseModelProfile_iff)
    (simp add: model_json_def has_keys_def ref_parses generation_parses model_wf_def insert_commute)

lemma binding_parses: "binding_wf b \<Longrightarrow> parseRoomBinding (binding_json b) = Inr b"
  by (simp add: parseRoomBinding_iff)
    (simp add: binding_json_def has_keys_def ref_parses binding_wf_def insert_commute)

lemma adapter_parses: "adapter_wf a \<Longrightarrow> adapterEvidence (adapter_json a) = Inr a"
  by (simp add: adapterEvidence_iff adapter_json_def has_keys_def)

lemma snapshot_connection_parses:
  "snapshot_connection_wf c \<Longrightarrow>
   parseConnectionProfile (snapshot_connection_json c) = Inr (connection_of_snapshot c None)"
  by (auto simp: parseConnectionProfile_iff connection_of_snapshot_def snapshot_connection_json_def has_keys_def
      target_parses connection_wf_def snapshot_connection_wf_def)

lemma decision_parses: "decision_wf s \<Longrightarrow> parseDecisionSnapshot (decision_json s) = Inr s"
  by (simp add: parseDecisionSnapshot_iff)
    (simp add: decision_json_def has_keys_def decision_wf_def model_parses binding_parses adapter_parses
      generation_parses insert_commute, blast intro: snapshot_connection_parses)

text \<open>A number that comes from JSON is in normal form, so the encodings are JSON values.\<close>

definition generation_num_ok :: "generation_defaults \<Rightarrow> bool" where
  "generation_num_ok g \<longleftrightarrow> jsnum_ok (temperature g)"

lemma generation_from_json:
  "json_ok v \<Longrightarrow> generationDefaults (jget k v) = Inr g \<Longrightarrow> generation_num_ok g"
proof -
  assume "json_ok v" and g: "generationDefaults (jget k v) = Inr g"
  then have "stored (jget ''temperature'' (jget k v))" by (intro jget_stored) (simp add: stored_def)
  with g show ?thesis by (simp add: generationDefaults_iff stored_def generation_num_ok_def)
qed

lemma target_json_ok: "json_ok (target_json t)"
  by (cases t) auto

lemma connection_json_ok: "json_ok (connection_json p)"
  by (auto simp: connection_json_def opt_field_def target_json_ok split: option.splits)

lemma ref_json_ok: "json_ok (ref_json r)"
  by (simp add: ref_json_def)

lemma generation_json_ok: "generation_num_ok g \<Longrightarrow> generation_wf g \<Longrightarrow> json_ok (generation_json g)"
  by (simp add: generation_json_def generation_num_ok_def generation_wf_def valid_temperature_def)

lemma model_json_ok: "generation_num_ok (mp_generation p) \<Longrightarrow> model_wf p \<Longrightarrow> json_ok (model_json p)"
  by (auto simp: model_json_def ref_json_ok model_wf_def intro: generation_json_ok)

lemma binding_json_ok: "json_ok (binding_json b)"
  by (simp add: binding_json_def ref_json_ok)

lemma decision_json_ok:
  "generation_num_ok (mp_generation (ds_model s)) \<Longrightarrow> generation_num_ok (effectiveGeneration s) \<Longrightarrow>
   decision_wf s \<Longrightarrow> json_ok (decision_json s)"
  by (auto simp: decision_json_def decision_wf_def snapshot_connection_json_def adapter_json_def target_json_ok
      intro: binding_json_ok model_json_ok generation_json_ok)

text \<open>\<open>parse\<close> of the canonical text of \<open>v\<close> gives \<open>x\<close>.\<close>

definition reads_back :: "(jval \<Rightarrow> js_error + 'a) \<Rightarrow> jval \<Rightarrow> 'a \<Rightarrow> bool" where
  "reads_back parse v x \<longleftrightarrow>
     (\<exists>t w. canonicalJson v = Inr t \<and> json_parse t = Some w \<and> parse w = Inr x)"

lemma reads_backI: "json_ok v \<Longrightarrow> parse (json_norm v) = Inr x \<Longrightarrow> reads_back parse v x"
  using canonicalJson_roundtrip [of v] by (auto simp: reads_back_def)

lemma connection_reads_back: "connection_wf p \<Longrightarrow> reads_back parseConnectionProfile (connection_json p) p"
  by (intro reads_backI connection_json_ok)
    (simp add: parseConnectionProfile_norm connection_parses stored_def connection_json_ok)

lemma model_reads_back:
  "model_wf p \<Longrightarrow> generation_num_ok (mp_generation p) \<Longrightarrow> reads_back parseModelProfile (model_json p) p"
  by (intro reads_backI model_json_ok)
    (simp_all add: parseModelProfile_norm model_parses stored_def model_json_ok)

lemma binding_reads_back: "binding_wf b \<Longrightarrow> reads_back parseRoomBinding (binding_json b) b"
  by (intro reads_backI binding_json_ok)
    (simp add: parseRoomBinding_norm binding_parses stored_def binding_json_ok)

lemma decision_reads_back:
  "decision_wf s \<Longrightarrow> generation_num_ok (mp_generation (ds_model s)) \<Longrightarrow>
   generation_num_ok (effectiveGeneration s) \<Longrightarrow> reads_back parseDecisionSnapshot (decision_json s) s"
  by (intro reads_backI decision_json_ok)
    (simp_all add: parseDecisionSnapshot_norm decision_parses stored_def decision_json_ok)

text \<open>
  Whatever JSON value is parsed, a connection profile, model profile or room binding that
  a parser returns is well formed (canonical identifiers, bounded revisions, an approved target, a
  credential reference that names exactly this revision, sorted unique capabilities, bounded
  generation settings), and the canonical text stored for it is read back as the same contract.
\<close>

theorem profile_contracts_validate:
  assumes "json_ok v"
  shows "(parseConnectionProfile v = Inr c \<longrightarrow>
            connection_wf c \<and> reads_back parseConnectionProfile (connection_json c) c) \<and>
    (parseModelProfile v = Inr m \<longrightarrow> model_wf m \<and> reads_back parseModelProfile (model_json m) m) \<and>
    (parseRoomBinding v = Inr b \<longrightarrow> binding_wf b \<and> reads_back parseRoomBinding (binding_json b) b)"
  using assms generation_from_json [OF assms]
  by (auto simp: parseConnectionProfile_iff [of v c] parseModelProfile_iff [of v m] parseRoomBinding_iff [of v b]
      intro!: connection_reads_back model_reads_back binding_reads_back)

text \<open>Every key at every depth of a JSON value.\<close>

fun all_keys :: "jval \<Rightarrow> string list" where
  "all_keys (JObj fs) = map fst fs @ concat (map (\<lambda>p. all_keys (snd p)) fs)"
| "all_keys (JArr xs) = concat (map all_keys xs)"
| "all_keys _ = []"

lemma target_keys: "set (all_keys (target_json t)) \<subseteq> {''class'', ''definitionId'', ''adapter''}"
  by (cases t) auto

lemma decision_keys: "''credentialRef'' \<notin> set (all_keys (decision_json s))"
  using target_keys [of "sc_target (ds_connection s)"]
  by (auto simp: decision_json_def binding_json_def snapshot_connection_json_def model_json_def
      generation_json_def adapter_json_def ref_json_def)

lemma parsed_decision_generation:
  assumes "json_ok v" and "parseDecisionSnapshot v = Inr s"
  shows "generation_num_ok (mp_generation (ds_model s))" and "generation_num_ok (effectiveGeneration s)"
proof -
  have m: "parseModelProfile (jget ''model'' v) = Inr (ds_model s)"
    using assms by (simp add: parseDecisionSnapshot_iff)
  then have "jget ''model'' v \<noteq> JUndefined" by (auto simp: parseModelProfile_iff has_keys_def)
  then have "json_ok (jget ''model'' v)" using jget_stored [of v "''model''"] assms(1) by (simp add: stored_def)
  then show "generation_num_ok (mp_generation (ds_model s))"
    using m by (auto simp: parseModelProfile_iff intro: generation_from_json)
  show "generation_num_ok (effectiveGeneration s)"
    using assms by (auto simp: parseDecisionSnapshot_iff intro: generation_from_json)
qed

text \<open>
  C35: a decision snapshot that the parser accepts is well formed and internally consistent
  (the model names exactly the snapshot's connection revision, the binding exactly its model
  revision, the adapter is the one of the connection's target), carries no credential reference at
  any depth, and the canonical text stored for it is read back as the same snapshot.
\<close>

theorem decision_snapshot_validates:
  assumes "json_ok v" and "parseDecisionSnapshot v = Inr s"
  shows "decision_wf s \<and> ''credentialRef'' \<notin> set (all_keys (decision_json s)) \<and>
    reads_back parseDecisionSnapshot (decision_json s) s"
  using assms parsed_decision_generation [OF assms] decision_keys [of s] decision_reads_back [of s]
  by (simp add: parseDecisionSnapshot_iff)

section \<open>A concrete contract of each kind\<close>

definition example_connection :: connection_profile where
  "example_connection =
     \<lparr>cp_id = ''conn-a'', cp_revision = 1, cp_target = Approved_Provider ''openai'',
      credentialRef = Some ''credential:conn-a:1'', mutationId = None\<rparr>"

definition example_generation :: generation_defaults where
  "example_generation = \<lparr>temperature = Num 7 1, maxOutputTokens = 512\<rparr>"

definition example_model :: model_profile where
  "example_model =
     \<lparr>mp_id = ''model-a'', mp_revision = 1,
      mp_connection = \<lparr>ref_profileId = ''conn-a'', ref_revision = 1\<rparr>, mp_modelId = ''gpt-x'',
      requiredCapabilities = [''chat'', ''streaming''], mp_generation = example_generation\<rparr>"

definition example_binding :: room_binding where
  "example_binding =
     \<lparr>rb_id = ''bind-a'', rb_revision = 1, rb_roomId = ''first-playable'', rb_purpose = ''persona-default'',
      rb_model = \<lparr>ref_profileId = ''model-a'', ref_revision = 1\<rparr>\<rparr>"

definition example_fingerprint :: string where
  "example_fingerprint = ''sha256:'' @ replicate 64 (CHR ''a'')"

definition example_decision :: decision_snapshot where
  "example_decision =
     \<lparr>ds_id = ''decision-a'', ds_binding = example_binding,
      ds_connection = \<lparr>sc_id = ''conn-a'', sc_revision = 1, sc_target = Approved_Provider ''openai''\<rparr>,
      ds_model = example_model, effectiveGeneration = example_generation,
      ds_adapter = \<lparr>adapter_id = ''openai-compatible'', adapter_version = ''1.2.0''\<rparr>,
      capabilityFingerprint = example_fingerprint, directorRevision = 1, policyRevision = 1\<rparr>"

lemmas example_simps = canonical_id_def MAX_ID_LENGTH_def id_pattern_def lower_alpha_def lower_alnum_def
  is_digit_def revision_ok_def MAX_REVISION_def

lemma example_ids:
  "canonical_id ''conn-a''" "canonical_id ''model-a''" "canonical_id ''bind-a''" "canonical_id ''decision-a''"
  "canonical_id ''first-playable''" "revision_ok 1"
  by (simp_all add: example_simps)

lemma show_one: "show_int 1 = ''1''"
  by code_simp

lemma example_connection_wf: "connection_wf example_connection"
  by (simp add: connection_wf_def example_connection_def example_ids APPROVED_CLOUD_PROVIDER_IDS_def
      credential_ref_of_def show_one)

lemma example_generation_wf: "generation_wf example_generation" "generation_num_ok example_generation"
  by (simp_all add: generation_wf_def generation_num_ok_def example_generation_def valid_temperature_def)

lemma example_model_wf: "model_wf example_model"
proof -
  have "strictly_sorted [''chat'', ''streaming'']" by code_simp
  then show ?thesis
    by (simp add: model_wf_def example_model_def example_ids ref_wf_def example_generation_wf
        MODEL_CAPABILITIES_def opaque_model_id_def MAX_OPAQUE_MODEL_ID_BYTES_def
        control_or_whitespace_def utf8_length_def)
qed

lemma example_binding_wf: "binding_wf example_binding"
  by (simp add: binding_wf_def example_binding_def example_ids ref_wf_def)

lemma example_fingerprint_ok: "sha256_fingerprint example_fingerprint"
  by (auto simp: sha256_fingerprint_def example_fingerprint_def lower_hex_def is_digit_def)

lemma example_decision_wf: "decision_wf example_decision"
proof -
  have "semver ''1.2.0''" by code_simp
  then show ?thesis
    by (simp add: decision_wf_def example_decision_def example_ids example_binding_wf example_model_wf
        example_generation_wf adapter_wf_def example_fingerprint_ok snapshot_connection_wf_def
        APPROVED_CLOUD_PROVIDER_IDS_def)
      (simp add: sameReference_def example_model_def example_binding_def)
qed

theorem profile_contracts_validate_witness:
  "reads_back parseConnectionProfile (connection_json example_connection) example_connection \<and>
   model_wf example_model"
  using profile_contracts_validate [OF connection_json_ok, of example_connection example_connection example_model
      example_binding]
    profile_contracts_validate [OF model_json_ok, of example_model example_connection example_model example_binding]
    connection_parses [OF example_connection_wf] model_parses [OF example_model_wf] example_model_wf
    example_generation_wf(2)
  by (simp add: example_model_def)

theorem decision_snapshot_validates_witness:
  "decision_wf example_decision \<and> ''credentialRef'' \<notin> set (all_keys (decision_json example_decision))"
proof -
  have "json_ok (decision_json example_decision)"
    using example_decision_wf example_generation_wf(2)
    by (intro decision_json_ok) (simp_all add: example_decision_def example_model_def)
  from decision_snapshot_validates [OF this decision_parses [OF example_decision_wf]] show ?thesis by simp
qed

end
