(* ===== verification/Database.thy ===== *)
theory Database
  imports Contract_Codec
begin

text \<open>
  The SQLite database of the room server: the rows of the tables of \<open>migrations/\<close> that the
  operations use, the actions that read and write them, transactions
  (\<open>src/db/transaction.ts\<close>) and the event log (\<open>src/db/events.ts\<close>).

  Integer columns are natural numbers; the driver would throw beyond 2^53. A JSON column holds its
  text. \<open>db_clock\<close> is the value of \<open>CURRENT_TIMESTAMP\<close>.
\<close>

section \<open>Rows\<close>

datatype room_status = Active | Paused | Stopped

datatype participant_kind = Human | Persona

record room_row =
  room_id :: string
  room_title :: string
  room_status :: room_status
  room_generation :: nat
  next_event_sequence :: nat
  room_created_at :: string
  activity_order :: nat
  archived :: bool

record participant_row =
  part_id :: string
  part_room :: string
  part_kind :: participant_kind
  part_name :: string
  part_muted :: bool
  sort_order :: nat
  persona_slug :: "string option"

record event_row =
  event_room :: string
  event_sequence :: nat
  event_json :: string
  event_created_at :: string

text \<open>
  \<open>claim_owner\<close> and \<open>claim_expires_at\<close> are null together (trigger \<open>command_claim_*_is_valid\<close>), so
  they are one optional pair.
\<close>

record command_row =
  request_digest :: string
  result_json :: string
  claim :: "(string \<times> nat) option"

record director_row =
  last_speaker_id :: "string option"
  last_human_event_sequence :: "nat option"
  autonomous_turns :: nat
  scheduling_window_generation :: nat

record result_row =
  res_digest :: string
  res_json :: string

datatype profile_state = Enabled | Disabled | Deleted

record connection_row =
  crow_id :: string
  crow_revision :: int
  crow_state :: profile_state
  crow_json :: string

record model_row =
  mrow_id :: string
  mrow_revision :: int
  mrow_state :: profile_state
  mrow_connection :: "string \<times> int"
  mrow_json :: string

record observation_row =
  obs_id :: string
  obs_connection :: "string \<times> int"
  obs_health :: string
  obs_fingerprint :: string
  obs_evidence :: string

record binding_row =
  brow_id :: string
  brow_revision :: int
  brow_room :: string
  brow_purpose :: string
  brow_model :: "string \<times> int"
  brow_json :: string

record snapshot_row =
  srow_id :: string
  srow_room :: string
  srow_request :: string
  srow_binding :: "string \<times> int"
  srow_connection :: "string \<times> int"
  srow_model :: "string \<times> int"
  srow_fingerprint :: string
  srow_definition :: "(string \<times> int) option"
  srow_policy :: string
  srow_json :: string

text \<open>
  The database of one connection. Tables that are read by key only are maps, the others lists in
  insertion order. \<open>current_room\<close> is the singleton row (room and selection revision).
\<close>

record db =
  db_rooms :: "room_row list"
  db_participants :: "participant_row list"
  db_events :: "event_row list"
  db_commands :: "string \<times> string \<Rightarrow> command_row option"
  db_director :: "string \<Rightarrow> director_row option"
  current_room :: "(string \<times> nat) option"
  selection_commands :: "string \<Rightarrow> result_row option"
  cast_commands :: "string \<Rightarrow> result_row option"
  next_activity_order :: nat
  db_connections :: "connection_row list"
  db_models :: "model_row list"
  db_observations :: "observation_row list"
  db_bindings :: "binding_row list"
  db_snapshots :: "snapshot_row list"
  db_clock :: string
  is_transaction :: bool

section \<open>Actions\<close>

type_synonym 'a action = "db \<Rightarrow> (js_error + 'a) \<times> db"

definition returnA :: "'a \<Rightarrow> 'a action" where
  "returnA x db = (Inr x, db)"

definition failA :: "js_error \<Rightarrow> 'a action" where
  "failA e db = (Inl e, db)"

definition bindA :: "'a action \<Rightarrow> ('a \<Rightarrow> 'b action) \<Rightarrow> 'b action" where
  "bindA m f db = (case m db of (Inl e, db') \<Rightarrow> (Inl e, db') | (Inr x, db') \<Rightarrow> f x db')"

definition liftA :: "js_error + 'a \<Rightarrow> 'a action" where
  "liftA r db = (r, db)"

definition queryA :: "(db \<Rightarrow> 'a) \<Rightarrow> 'a action" where
  "queryA f db = (Inr (f db), db)"

definition updateA :: "(db \<Rightarrow> db) \<Rightarrow> unit action" where
  "updateA f db = (Inr (), f db)"

definition requireA :: "bool \<Rightarrow> js_error \<Rightarrow> unit action" where
  "requireA b e = (if b then returnA () else failA e)"

definition someA :: "'a option \<Rightarrow> js_error \<Rightarrow> 'a action" where
  "someA x e = (case x of None \<Rightarrow> failA e | Some y \<Rightarrow> returnA y)"

fun mapA :: "('a \<Rightarrow> 'b action) \<Rightarrow> 'a list \<Rightarrow> 'b list action" where
  "mapA f [] = returnA []"
| "mapA f (x # xs) = bindA (f x) (\<lambda>y. bindA (mapA f xs) (\<lambda>ys. returnA (y # ys)))"

text \<open>How an action can succeed.\<close>

lemma action_ok [simp]:
  "returnA x1 db = (Inr y1, db') \<longleftrightarrow> y1 = x1 \<and> db' = db"
  "failA e db \<noteq> (Inr y2, db')"
  "liftA r db = (Inr y3, db') \<longleftrightarrow> r = Inr y3 \<and> db' = db"
  "queryA f db = (Inr y4, db') \<longleftrightarrow> y4 = f db \<and> db' = db"
  "updateA g db = (Inr u, db') \<longleftrightarrow> db' = g db"
  "requireA b e db = (Inr u, db') \<longleftrightarrow> b \<and> db' = db"
  "someA x e db = (Inr y, db') \<longleftrightarrow> x = Some y \<and> db' = db"
  by (auto simp: returnA_def failA_def liftA_def queryA_def updateA_def requireA_def someA_def
      split: option.splits)

lemma bindA_ok [simp]:
  "bindA m f db = (Inr y, db') \<longleftrightarrow> (\<exists>x db1. m db = (Inr x, db1) \<and> f x db1 = (Inr y, db'))"
  by (auto simp: bindA_def split: sum.splits prod.splits)

text \<open>Running an action from its front.\<close>

lemma action_run:
  "bindA (returnA x) f1 db = f1 x db"
  "bindA (failA e) f2 db = (Inl e, db)"
  "bindA (queryA h) f3 db = f3 (h db) db"
  "bindA (updateA k) f4 db = f4 () (k db)"
  "bindA (requireA b e) f5 db = (if b then f5 () db else (Inl e, db))"
  "bindA (someA y e) f6 db = (case y of None \<Rightarrow> (Inl e, db) | Some z \<Rightarrow> f6 z db)"
  "bindA (liftA r) f7 db = (case r of Inl e \<Rightarrow> (Inl e, db) | Inr z \<Rightarrow> f7 z db)"
  by (auto simp: bindA_def returnA_def failA_def queryA_def updateA_def requireA_def someA_def liftA_def
      split: option.splits sum.splits)

text \<open>An action that keeps \<open>I\<close> whenever it succeeds.\<close>

definition preserves :: "(db \<Rightarrow> bool) \<Rightarrow> 'a action \<Rightarrow> bool" where
  "preserves I m \<longleftrightarrow> (\<forall>db x db'. I db \<longrightarrow> m db = (Inr x, db') \<longrightarrow> I db')"

lemma preservesI: "(\<And>db x db'. I db \<Longrightarrow> m db = (Inr x, db') \<Longrightarrow> I db') \<Longrightarrow> preserves I m"
  by (auto simp: preserves_def)

lemma preservesD: "preserves I m \<Longrightarrow> m db = (Inr x, db') \<Longrightarrow> I db \<Longrightarrow> I db'"
  by (auto simp: preserves_def)

lemma preserves_basic [preserves_intros]:
  "preserves I (returnA x)" "preserves I (failA e)" "preserves I (liftA r)" "preserves I (queryA f)"
  "preserves I (requireA b e)" "preserves I (someA y e)"
  by (auto intro!: preservesI)

lemma preserves_bind [preserves_intros]:
  "preserves I m \<Longrightarrow> (\<And>x. preserves I (f x)) \<Longrightarrow> preserves I (bindA m f)"
  unfolding preserves_def bindA_ok by blast

lemma preserves_update: "(\<And>db. I db \<Longrightarrow> I (g db)) \<Longrightarrow> preserves I (updateA g)"
  by (auto intro!: preservesI)

lemma preserves_mapA [preserves_intros]: "(\<And>x. preserves I (f x)) \<Longrightarrow> preserves I (mapA f xs)"
  by (induction xs) (auto intro: preserves_intros)

lemma preserves_if [preserves_intros]:
  "preserves I m \<Longrightarrow> preserves I n \<Longrightarrow> preserves I (if b then m else n)"
  by simp

lemma preserves_option [preserves_intros]:
  "preserves I m \<Longrightarrow> (\<And>y. preserves I (f y)) \<Longrightarrow> preserves I (case x of None \<Rightarrow> m | Some y \<Rightarrow> f y)"
  by (cases x) auto

section \<open>Transactions\<close>

text \<open>
  \<open>withImmediateTransaction\<close>. Inside a transaction it just runs the action; otherwise it begins one,
  commits on success and rolls back, restoring every table, when the action throws.
\<close>

definition withImmediateTransaction :: "'a action \<Rightarrow> 'a action" where
  "withImmediateTransaction act db =
     (if is_transaction db then act db
      else (case act (db\<lparr>is_transaction := True\<rparr>) of
              (Inr x, db') \<Rightarrow> (Inr x, db'\<lparr>is_transaction := False\<rparr>)
            | (Inl e, db') \<Rightarrow> (Inl e, if is_transaction db' then db else db')))"

text \<open>An action that leaves the transaction open, whether it throws or not.\<close>

definition stays_open :: "'a action \<Rightarrow> bool" where
  "stays_open m \<longleftrightarrow> (\<forall>db. is_transaction db \<longrightarrow> is_transaction (snd (m db)))"

named_theorems open_intros \<open>actions that leave the transaction open\<close>

lemma stays_open_basic [open_intros]:
  "stays_open (returnA x)" "stays_open (failA e)" "stays_open (liftA r)" "stays_open (queryA f)"
  "stays_open (requireA b e)" "stays_open (someA y e)"
  by (auto simp: stays_open_def returnA_def failA_def liftA_def queryA_def requireA_def someA_def
      split: option.splits)

lemma stays_open_bind [open_intros]:
  "stays_open m \<Longrightarrow> (\<And>x. stays_open (f x)) \<Longrightarrow> stays_open (bindA m f)"
  unfolding stays_open_def bindA_def by (auto split: prod.splits sum.splits)

lemma stays_open_update [open_intros]:
  "(\<And>db. is_transaction db \<Longrightarrow> is_transaction (g db)) \<Longrightarrow> stays_open (updateA g)"
  by (simp add: stays_open_def updateA_def)

lemma stays_open_mapA [open_intros]: "(\<And>x. stays_open (f x)) \<Longrightarrow> stays_open (mapA f xs)"
  by (induction xs) (auto intro: open_intros)

lemma stays_open_if [open_intros]: "stays_open m \<Longrightarrow> stays_open n \<Longrightarrow> stays_open (if b then m else n)"
  by simp

lemma stays_open_option [open_intros]:
  "stays_open m \<Longrightarrow> (\<And>y. stays_open (f y)) \<Longrightarrow> stays_open (case x of None \<Rightarrow> m | Some y \<Rightarrow> f y)"
  by (cases x) auto

lemma stays_open_transaction [open_intros]: "stays_open m \<Longrightarrow> stays_open (withImmediateTransaction m)"
  by (auto simp: stays_open_def withImmediateTransaction_def)

text \<open>A transaction that throws leaves the database as it was.\<close>

lemma transaction_atomic:
  assumes "stays_open m" and "\<not> is_transaction db" and "withImmediateTransaction m db = (Inl e, db')"
  shows "db' = db"
proof -
  have "is_transaction (snd (m (db\<lparr>is_transaction := True\<rparr>)))" using assms(1) by (simp add: stays_open_def)
  with assms(2,3) show ?thesis
    by (auto simp: withImmediateTransaction_def split: prod.splits sum.splits if_splits)
qed

lemma transaction_ok:
  assumes "\<not> is_transaction db"
  shows "withImmediateTransaction m db = (Inr x, db') \<longleftrightarrow>
    (\<exists>db1. m (db\<lparr>is_transaction := True\<rparr>) = (Inr x, db1) \<and> db' = db1\<lparr>is_transaction := False\<rparr>)"
  using assms by (auto simp: withImmediateTransaction_def split: prod.splits sum.splits)

lemma preserves_transaction [preserves_intros]:
  assumes "preserves I m" and "\<And>db b. I (db\<lparr>is_transaction := b\<rparr>) = I db"
  shows "preserves I (withImmediateTransaction m)"
  using assms
  by (auto intro!: preservesI simp: withImmediateTransaction_def preserves_def split: prod.splits sum.splits if_splits)

section \<open>Atomic operations\<close>

text \<open>An operation that, called outside a transaction, changes nothing when it throws.\<close>

definition atomic :: "'a action \<Rightarrow> bool" where
  "atomic m \<longleftrightarrow> (\<forall>db e db'. \<not> is_transaction db \<longrightarrow> m db = (Inl e, db') \<longrightarrow> db' = db)"

named_theorems atomic_intros \<open>operations that change nothing when they throw\<close>

lemma atomic_basic [atomic_intros]:
  "atomic (returnA x)" "atomic (failA e)" "atomic (liftA r)" "atomic (queryA f)" "atomic (requireA b e)"
  "atomic (someA y e)"
  by (auto simp: atomic_def returnA_def failA_def liftA_def queryA_def requireA_def someA_def
      split: option.splits if_splits)

lemma atomic_transaction [atomic_intros]: "stays_open m \<Longrightarrow> atomic (withImmediateTransaction m)"
  unfolding atomic_def using transaction_atomic by blast

text \<open>Reading and checking before the first write keeps an operation atomic.\<close>

lemma atomic_front [atomic_intros]:
  "(\<And>x. atomic (f x)) \<Longrightarrow> atomic (bindA (liftA r) f)"
  "(\<And>x. atomic (g x)) \<Longrightarrow> atomic (bindA (queryA h) g)"
  "(\<And>x. atomic (k x)) \<Longrightarrow> atomic (bindA (requireA b e) k)"
  "(\<And>x. atomic (l x)) \<Longrightarrow> atomic (bindA (someA y e') l)"
  unfolding atomic_def action_run
  by (fastforce split: sum.splits option.splits if_splits)+

lemma atomicD: "atomic m \<Longrightarrow> \<not> is_transaction db \<Longrightarrow> m db = (Inl e, db') \<Longrightarrow> db' = db"
  by (auto simp: atomic_def)

text \<open>An operation that has closed its transaction when it succeeds.\<close>

lemma transaction_closes: "\<not> is_transaction db \<Longrightarrow> withImmediateTransaction m db = (Inr x, db') \<Longrightarrow> \<not> is_transaction db'"
  by (auto simp: transaction_ok)

lemma transaction_idle:
  assumes "stays_open m" and "\<not> is_transaction db"
  shows "\<not> is_transaction (snd (withImmediateTransaction m db))"
proof (cases "m (db\<lparr>is_transaction := True\<rparr>)")
  case (Pair x db1)
  have "is_transaction (snd (m (db\<lparr>is_transaction := True\<rparr>)))" using assms(1) by (simp add: stays_open_def)
  with Pair assms(2) show ?thesis by (cases x) (simp_all add: withImmediateTransaction_def)
qed

text \<open>An operation that never leaves a transaction open.\<close>

definition idle_after :: "'a action \<Rightarrow> bool" where
  "idle_after m \<longleftrightarrow> (\<forall>db. \<not> is_transaction db \<longrightarrow> \<not> is_transaction (snd (m db)))"

named_theorems idle_intros \<open>operations that never leave a transaction open\<close>

lemma idle_basic [idle_intros]:
  "idle_after (returnA x)" "idle_after (failA e)" "idle_after (liftA r)" "idle_after (queryA f)"
  "idle_after (requireA b e)" "idle_after (someA y e)"
  by (auto simp: idle_after_def returnA_def failA_def liftA_def queryA_def requireA_def someA_def
      split: option.splits)

lemma idle_bind [idle_intros]:
  "idle_after m \<Longrightarrow> (\<And>x. idle_after (f x)) \<Longrightarrow> idle_after (bindA m f)"
  unfolding idle_after_def bindA_def by (auto split: prod.splits sum.splits)

lemma idle_transaction [idle_intros]: "stays_open m \<Longrightarrow> idle_after (withImmediateTransaction m)"
  unfolding idle_after_def using transaction_idle by blast

text \<open>One run of an atomic operation, whether it succeeds or throws.\<close>

lemma step_invariant:
  assumes "preserves I m" and "atomic m" and "\<not> is_transaction db" and "I db" and "m db = (x, db')"
  shows "I db'"
proof (cases x)
  case (Inl e)
  with atomicD [OF assms(2,3)] assms(4,5) show ?thesis by simp
next
  case (Inr r)
  with preservesD [OF assms(1)] assms(4,5) show ?thesis by simp
qed

end
