(* ===== verification/Events.thy ===== *)
theory Events
  imports Database
begin

text \<open>
  The event log of \<open>src/db/events.ts\<close>: one contiguous, append-only sequence per room. The log is
  stated as an interface (locale \<open>event_log\<close>) and \<open>appendEventInTransaction\<close> is shown to provide it.
\<close>

section \<open>Rows by condition\<close>

definition update_where :: "('r \<Rightarrow> bool) \<Rightarrow> ('r \<Rightarrow> 'r) \<Rightarrow> 'r list \<Rightarrow> 'r list" where
  "update_where P f rows = map (\<lambda>r. if P r then f r else r) rows"

lemma find_update_where:
  "(\<And>r. Q (f r) = Q r) \<Longrightarrow>
   find Q (update_where P f rows) = map_option (\<lambda>r. if P r then f r else r) (find Q rows)"
  by (induction rows) (auto simp: update_where_def)

lemma map_update_where: "(\<And>r. g (f r) = g r) \<Longrightarrow> map g (update_where P f rows) = map g rows"
  by (simp add: update_where_def)

lemma set_update_where: "set (update_where P f rows) = (\<lambda>r. if P r then f r else r) ` set rows"
  by (simp add: update_where_def)

section \<open>Rooms and events\<close>

definition find_room :: "db \<Rightarrow> string \<Rightarrow> room_row option" where
  "find_room db r = find (\<lambda>row. room_id row = r) (db_rooms db)"

definition room_events :: "db \<Rightarrow> string \<Rightarrow> event_row list" where
  "room_events db r = filter (\<lambda>e. event_room e = r) (db_events db)"

definition is_json_object :: "string \<Rightarrow> bool" where
  "is_json_object t = (case json_parse t of Some (JObj fs) \<Rightarrow> True | _ \<Rightarrow> False)"

text \<open>
  \<open>UPDATE rooms SET next_event_sequence = next_event_sequence + 1 WHERE id = ? RETURNING
  next_event_sequence - 1\<close>: the number that was next, None for no row.
\<close>

definition allocateSequence :: "string \<Rightarrow> nat option action" where
  "allocateSequence r =
     bindA (queryA (\<lambda>db. map_option next_event_sequence (find_room db r))) (\<lambda>allocated.
     bindA (updateA (\<lambda>db. db\<lparr>db_rooms := update_where (\<lambda>row. room_id row = r)
              (\<lambda>row. row\<lparr>next_event_sequence := next_event_sequence row + 1\<rparr>) (db_rooms db)\<rparr>)) (\<lambda>_.
       returnA allocated))"

text \<open>
  \<open>INSERT INTO events\<close>, with the constraints of the table and the trigger
  \<open>room_event_updates_activity\<close> of \<open>migrations/0006-room-library.sql\<close>.
\<close>

definition insertEvent :: "string \<Rightarrow> nat \<Rightarrow> string \<Rightarrow> unit action" where
  "insertEvent r n t =
     bindA (queryA (\<lambda>db. find_room db r \<noteq> None)) (\<lambda>fk.
     bindA (queryA (\<lambda>db. \<exists>e \<in> set (db_events db). event_room e = r \<and> event_sequence e = n)) (\<lambda>taken.
     bindA (requireA (1 \<le> n \<and> is_json_object t) (SqlError ''CHECK constraint failed: events'')) (\<lambda>_.
     bindA (requireA (\<not> taken) (SqlError ''UNIQUE constraint failed: events'')) (\<lambda>_.
     bindA (requireA fk (SqlError ''FOREIGN KEY constraint failed'')) (\<lambda>_.
       updateA (\<lambda>db. db\<lparr>
         db_events := db_events db @
           [\<lparr>event_room = r, event_sequence = n, event_json = t, event_created_at = db_clock db\<rparr>],
         db_rooms := update_where (\<lambda>row. room_id row = r)
           (\<lambda>row. row\<lparr>activity_order := next_activity_order db\<rparr>) (db_rooms db),
         next_activity_order := next_activity_order db + 1\<rparr>))))))"

definition appendEventInTransaction :: "string \<Rightarrow> jval \<Rightarrow> (string \<times> nat) action" where
  "appendEventInTransaction r event =
     bindA (queryA is_transaction) (\<lambda>open_transaction.
     bindA (requireA open_transaction
             (PlainError ''appendEventInTransaction requires an active transaction'')) (\<lambda>_.
     bindA (liftA (canonicalJson event)) (\<lambda>eventJson.
     bindA (allocateSequence r) (\<lambda>allocated.
     bindA (someA allocated (PlainError (''Unknown room: '' @ r))) (\<lambda>n.
     bindA (insertEvent r n eventJson) (\<lambda>_.
       returnA (eventJson, n)))))))"

definition appendEvent :: "string \<Rightarrow> jval \<Rightarrow> (string \<times> nat) action" where
  "appendEvent r event = withImmediateTransaction (appendEventInTransaction r event)"

section \<open>The log as an interface\<close>

text \<open>
  What the rest of the server relies on: an append gives the next number of the room's log, puts
  the entry at its end, and leaves the logs of the other rooms alone.
\<close>

locale event_log =
  fixes append_entry :: "'r \<Rightarrow> 'e \<Rightarrow> 's \<Rightarrow> (nat \<times> 's) option"
    and text_of :: "'e \<Rightarrow> 't"
    and entries :: "'s \<Rightarrow> 'r \<Rightarrow> (nat \<times> 't) list"
    and invar :: "'s \<Rightarrow> bool"
  assumes append_number: "invar s \<Longrightarrow> append_entry r e s = Some (n, s') \<Longrightarrow> n = Suc (length (entries s r))"
    and append_entries: "invar s \<Longrightarrow> append_entry r e s = Some (n, s') \<Longrightarrow>
      entries s' q = (if q = r then entries s q @ [(n, text_of e)] else entries s q)"
    and append_invar: "invar s \<Longrightarrow> append_entry r e s = Some (n, s') \<Longrightarrow> invar s'"
    and numbered: "invar s \<Longrightarrow> map fst (entries s r) = [1..<Suc (length (entries s r))]"
begin

text \<open>A run of appends, each with its room; it stops at the first one that fails.\<close>

fun append_all :: "('r \<times> 'e) list \<Rightarrow> 's \<Rightarrow> 's option" where
  "append_all [] s = Some s"
| "append_all ((r, e) # res) s =
     (case append_entry r e s of None \<Rightarrow> None | Some (n, s') \<Rightarrow> append_all res s')"

lemma append_all_entries:
  "invar s \<Longrightarrow> append_all res s = Some s' \<Longrightarrow>
   invar s' \<and> (\<exists>new. entries s' q = entries s q @ new \<and> map snd new = map (\<lambda>p. text_of (snd p)) (filter (\<lambda>p. fst p = q) res))"
proof (induction res arbitrary: s)
  case Nil
  then show ?case by simp
next
  case (Cons p res)
  obtain r e where p: "p = (r, e)" by (cases p)
  from Cons.prems(2) obtain n s1 where s1: "append_entry r e s = Some (n, s1)" "append_all res s1 = Some s'"
    by (auto simp: p split: option.splits)
  from Cons.IH [OF append_invar [OF Cons.prems(1) s1(1)] s1(2)] obtain new where
    "invar s'" "entries s' q = entries s1 q @ new" "map snd new = map (\<lambda>p. text_of (snd p)) (filter (\<lambda>p. fst p = q) res)"
    by blast
  with append_entries [OF Cons.prems(1) s1(1), of q] show ?case
    by (cases "q = r") (auto simp: p intro: exI [of _ "(n, text_of e) # new"])
qed

lemma entry_numbers_distinct: "invar s \<Longrightarrow> distinct (map fst (entries s r))"
  by (simp add: numbered del: upt_Suc)

lemma entry_at: "invar s \<Longrightarrow> (n, t) \<in> set (entries s r) \<Longrightarrow> 1 \<le> n \<and> n \<le> length (entries s r) \<and> entries s r ! (n - 1) = (n, t)"
proof -
  assume s: "invar s" and e: "(n, t) \<in> set (entries s r)"
  from e obtain i where i: "i < length (entries s r)" "entries s r ! i = (n, t)"
    by (auto simp: in_set_conv_nth)
  have "n = map fst (entries s r) ! i" using i by simp
  also have "\<dots> = Suc i" using i(1) by (simp add: numbered [OF s] del: upt_Suc)
  finally show ?thesis using i by simp
qed

end

section \<open>The database implements the log\<close>

definition rooms_distinct :: "db \<Rightarrow> bool" where
  "rooms_distinct db \<longleftrightarrow> distinct (map room_id (db_rooms db))"

definition log_ok :: "db \<Rightarrow> bool" where
  "log_ok db \<longleftrightarrow> rooms_distinct db \<and>
     (\<forall>e \<in> set (db_events db). find_room db (event_room e) \<noteq> None) \<and>
     (\<forall>row \<in> set (db_rooms db). next_event_sequence row = Suc (length (room_events db (room_id row)))) \<and>
     (\<forall>r. map event_sequence (room_events db r) = [1..<Suc (length (room_events db r))])"

lemma find_room_Some: "find_room db r = Some row \<Longrightarrow> row \<in> set (db_rooms db) \<and> room_id row = r"
  by (auto simp: find_room_def find_Some_iff)

lemma find_room_None: "find_room db r = None \<longleftrightarrow> r \<notin> room_id ` set (db_rooms db)"
  by (auto simp: find_room_def find_None_iff)

definition room_after_append :: "nat \<Rightarrow> room_row \<Rightarrow> room_row" where
  "room_after_append k row = row\<lparr>next_event_sequence := next_event_sequence row + 1, activity_order := k\<rparr>"

lemma appendEventInTransaction_ok:
  "appendEventInTransaction r event db = (Inr (t, n), db') \<longleftrightarrow>
     is_transaction db \<and> canonicalJson event = Inr t \<and> is_json_object t \<and>
     (\<exists>row. find_room db r = Some row \<and> n = next_event_sequence row \<and> 1 \<le> n \<and>
        \<not> (\<exists>e \<in> set (db_events db). event_room e = r \<and> event_sequence e = n) \<and>
        db' = db\<lparr>
          db_rooms := update_where (\<lambda>row. room_id row = r) (room_after_append (next_activity_order db)) (db_rooms db),
          db_events := db_events db @
            [\<lparr>event_room = r, event_sequence = n, event_json = t, event_created_at = db_clock db\<rparr>],
          next_activity_order := next_activity_order db + 1\<rparr>)"
proof -
  have "find_room (db\<lparr>db_rooms := update_where P f (db_rooms db)\<rparr>) r \<noteq> None \<longleftrightarrow> find_room db r \<noteq> None"
    if "\<And>row. room_id (f row) = room_id row" for P f
    using that by (simp add: find_room_def find_update_where)
  moreover have "update_where (\<lambda>row. room_id row = r) (\<lambda>row. row\<lparr>activity_order := k\<rparr>)
      (update_where (\<lambda>row. room_id row = r) (\<lambda>row. row\<lparr>next_event_sequence := next_event_sequence row + 1\<rparr>) rows) =
      update_where (\<lambda>row. room_id row = r) (room_after_append k) rows" for k and rows :: "room_row list"
    by (simp add: update_where_def room_after_append_def)
  ultimately show ?thesis
    by (auto simp: appendEventInTransaction_def allocateSequence_def insertEvent_def)
qed

lemma find_room_cong: "db_rooms db' = db_rooms db \<Longrightarrow> find_room db' r = find_room db r"
  by (simp add: find_room_def)

lemma room_id_after_append [simp]: "room_id (room_after_append k row) = room_id row"
  by (simp add: room_after_append_def)

lemma find_room_append:
  "db_rooms db' = update_where (\<lambda>row. room_id row = r) (room_after_append k) (db_rooms db) \<Longrightarrow>
   find_room db' q = map_option (\<lambda>row. if room_id row = r then room_after_append k row else row) (find_room db q)"
  by (simp add: find_room_def find_update_where)

lemma log_ok_next: "log_ok db \<Longrightarrow> find_room db r = Some row \<Longrightarrow>
   next_event_sequence row = Suc (length (room_events db r))"
  by (auto simp: log_ok_def dest!: find_room_Some)

lemma appendEvent_log:
  assumes ok: "log_ok db" and run: "appendEventInTransaction r event db = (Inr (t, n), db')"
  shows "n = Suc (length (room_events db r)) \<and> log_ok db' \<and>
    room_events db' q = room_events db q @
      (if q = r then [\<lparr>event_room = r, event_sequence = n, event_json = t, event_created_at = db_clock db\<rparr>] else [])"
proof -
  let ?e = "\<lparr>event_room = r, event_sequence = n, event_json = t, event_created_at = db_clock db\<rparr>"
  from run obtain row where row: "find_room db r = Some row" and n: "n = next_event_sequence row"
    and rooms: "db_rooms db' = update_where (\<lambda>row. room_id row = r) (room_after_append (next_activity_order db)) (db_rooms db)"
    and events: "db_events db' = db_events db @ [?e]"
    unfolding appendEventInTransaction_ok by auto
  have log: "room_events db' q = room_events db q @ (if q = r then [?e] else [])" for q
    by (simp add: room_events_def events)
  have num: "n = Suc (length (room_events db r))" using log_ok_next [OF ok row] n by simp
  have "rooms_distinct db'" using ok by (simp add: log_ok_def rooms_distinct_def rooms map_update_where)
  moreover have "\<forall>e \<in> set (db_events db'). find_room db' (event_room e) \<noteq> None"
    using ok row by (auto simp: events find_room_append [OF rooms] log_ok_def)
  moreover have "\<forall>row \<in> set (db_rooms db'). next_event_sequence row = Suc (length (room_events db' (room_id row)))"
    using ok by (auto simp: rooms set_update_where log log_ok_def room_after_append_def)
  moreover have "\<forall>q. map event_sequence (room_events db' q) = [1..<Suc (length (room_events db' q))]"
    using ok num by (auto simp: log log_ok_def)
  ultimately show ?thesis using num log by (simp add: log_ok_def)
qed

definition log_entries :: "db \<Rightarrow> string \<Rightarrow> (nat \<times> string) list" where
  "log_entries db r = map (\<lambda>e. (event_sequence e, event_json e)) (room_events db r)"

definition event_text :: "jval \<Rightarrow> string" where
  "event_text event = (case canonicalJson event of Inr t \<Rightarrow> t | Inl _ \<Rightarrow> [])"

definition append_entry :: "string \<Rightarrow> jval \<Rightarrow> db \<Rightarrow> (nat \<times> db) option" where
  "append_entry r event db =
     (case appendEventInTransaction r event db of (Inr (t, n), db') \<Rightarrow> Some (n, db') | _ \<Rightarrow> None)"

lemma append_entry_Some:
  "append_entry r event db = Some (n, db') \<Longrightarrow>
   appendEventInTransaction r event db = (Inr (event_text event, n), db')"
proof -
  assume "append_entry r event db = Some (n, db')"
  then obtain t where "appendEventInTransaction r event db = (Inr (t, n), db')"
    by (auto simp: append_entry_def split: prod.splits sum.splits)
  moreover from this have "canonicalJson event = Inr t" unfolding appendEventInTransaction_ok by simp
  ultimately show ?thesis by (simp add: event_text_def)
qed

interpretation elog: event_log append_entry event_text log_entries log_ok
proof unfold_locales
  fix db :: db and r event n db' q
  assume ok: "log_ok db"
  then show "map fst (log_entries db r) = [1..<Suc (length (log_entries db r))]"
    by (simp add: log_entries_def log_ok_def comp_def)
  assume "append_entry r event db = Some (n, db')"
  note run = appendEvent_log [OF ok append_entry_Some [OF this]]
  show "n = Suc (length (log_entries db r))" using run by (simp add: log_entries_def)
  show "log_ok db'" using run by simp
  show "log_entries db' q = (if q = r then log_entries db q @ [(n, event_text event)] else log_entries db q)"
    using run [of q] by (simp add: log_entries_def)
qed

section \<open>The database after the migrations\<close>

definition seeded_participant :: "string \<Rightarrow> participant_kind \<Rightarrow> string \<Rightarrow> nat \<Rightarrow> participant_row" where
  "seeded_participant i k name n =
     \<lparr>part_id = i, part_room = ''first-playable'', part_kind = k, part_name = name, part_muted = False,
      sort_order = n, persona_slug = (if k = Persona then Some i else None)\<rparr>"

text \<open>What \<open>migrations/0001\<close> to \<open>0008\<close> leave: one room with its fixed cast, selected at revision 0.\<close>

definition migrated_db :: "string \<Rightarrow> db" where
  "migrated_db clock =
     \<lparr>db_rooms = [\<lparr>room_id = ''first-playable'', room_title = ''The Green Room'', room_status = Active,
        room_generation = 0, next_event_sequence = 1, room_created_at = clock, activity_order = 1,
        archived = False\<rparr>],
      db_participants =
        [seeded_participant ''human'' Human ''You'' 0, seeded_participant ''detective'' Persona ''The Detective'' 1,
         seeded_participant ''fixer'' Persona ''The Fixer'' 2, seeded_participant ''optimist'' Persona ''The Optimist'' 3],
      db_events = [], db_commands = (\<lambda>_. None),
      db_director = (\<lambda>r. if r = ''first-playable''
        then Some \<lparr>last_speaker_id = None, last_human_event_sequence = None, autonomous_turns = 0,
                   scheduling_window_generation = 0\<rparr> else None),
      current_room = Some (''first-playable'', 0), selection_commands = (\<lambda>_. None), cast_commands = (\<lambda>_. None),
      next_activity_order = 2, db_connections = [], db_models = [], db_observations = [], db_bindings = [],
      db_snapshots = [], db_clock = clock, is_transaction = False\<rparr>"

lemma migrated_log_ok: "log_ok (migrated_db clock)"
  by (simp add: log_ok_def migrated_db_def rooms_distinct_def room_events_def)

lemma log_ok_frame [simp]: "log_ok (db\<lparr>is_transaction := b\<rparr>) = log_ok db"
  by (simp add: log_ok_def rooms_distinct_def find_room_def room_events_def)

lemma object_text: "json_ok (JObj fs) \<Longrightarrow> \<exists>t. canonicalJson (JObj fs) = Inr t \<and> is_json_object t"
  using canonicalJson_roundtrip [of "JObj fs"] by (auto simp: is_json_object_def)

section \<open>What the log promises\<close>

text \<open>
  C26: starting from a database whose logs are in order, any run of appends to any rooms leaves
  every room's log numbered 1, 2, 3 and so on without a gap, with the earlier entries untouched and
  followed by exactly the canonical texts of the events appended to that room, in order.
\<close>

theorem event_log_append_only:
  assumes "log_ok db" and "elog.append_all appended db = Some db'"
  shows "map fst (log_entries db' r) = [1..<Suc (length (log_entries db' r))] \<and>
    (\<exists>new. log_entries db' r = log_entries db r @ new \<and>
       map snd new = map (\<lambda>p. event_text (snd p)) (filter (\<lambda>p. fst p = r) appended))"
  using elog.append_all_entries [OF assms, of r] elog.numbered by blast

definition example_event_json :: jval where
  "example_event_json = JObj [(''type'', JStr ''note'')]"

lemma append_example:
  "\<exists>db'. append_entry ''first-playable'' example_event_json ((migrated_db []) \<lparr>is_transaction := True\<rparr>) = Some (1, db')"
proof -
  obtain t where t: "canonicalJson example_event_json = Inr t" "is_json_object t"
    using object_text [of "[(''type'', JStr ''note'')]"] by (auto simp: example_event_json_def)
  define db where "db = (migrated_db [])\<lparr>is_transaction := True\<rparr>"
  have "\<exists>db'. appendEventInTransaction ''first-playable'' example_event_json db = (Inr (t, 1), db')"
    unfolding appendEventInTransaction_ok using t
    by (simp add: db_def migrated_db_def find_room_def)
  then show ?thesis by (auto simp: append_entry_def db_def)
qed

theorem event_log_append_only_witness:
  "\<exists>db'. elog.append_all [(''first-playable'', example_event_json)] ((migrated_db [])\<lparr>is_transaction := True\<rparr>) = Some db' \<and>
     map fst (log_entries db' ''first-playable'') = [1]"
proof -
  obtain db' where db': "append_entry ''first-playable'' example_event_json
      ((migrated_db [])\<lparr>is_transaction := True\<rparr>) = Some (1, db')" using append_example by blast
  then have run: "elog.append_all [(''first-playable'', example_event_json)]
      ((migrated_db [])\<lparr>is_transaction := True\<rparr>) = Some db'" by simp
  have "log_ok ((migrated_db [])\<lparr>is_transaction := True\<rparr>)" by (simp add: migrated_log_ok)
  from event_log_append_only [OF this run, of "''first-playable''"] obtain new where
    "map fst (log_entries db' ''first-playable'') = [1..<Suc (length (log_entries db' ''first-playable''))]"
    and "log_entries db' ''first-playable'' = new" "length new = 1"
    by (auto simp: log_entries_def migrated_db_def room_events_def dest: arg_cong [where f = length])
  then show ?thesis using run by auto
qed

lemma stays_open_append [open_intros]: "stays_open (appendEventInTransaction r event)"
  unfolding appendEventInTransaction_def allocateSequence_def insertEvent_def
  by (intro open_intros; simp)

text \<open>
  \<open>appendEvent\<close> outside a transaction either appends exactly one entry with the next
  number to the named room's log, or throws and leaves the whole database (the allocated number
  included) as it was.
\<close>

theorem appendEvent_all_or_nothing:
  assumes "log_ok db" and "\<not> is_transaction db"
  shows "case appendEvent r event db of
      (Inr (t, n), db') \<Rightarrow> canonicalJson event = Inr t \<and> n = Suc (length (log_entries db r)) \<and>
         log_entries db' r = log_entries db r @ [(n, t)] \<and> (\<forall>q. q \<noteq> r \<longrightarrow> log_entries db' q = log_entries db q)
    | (Inl e, db') \<Rightarrow> db' = db"
proof (cases "appendEvent r event db")
  case (Pair res db')
  show ?thesis
  proof (cases res)
    case (Inl e)
    with Pair show ?thesis
      using transaction_atomic [OF stays_open_append assms(2)] by (simp add: appendEvent_def)
  next
    case (Inr p)
    obtain t n where p: "p = (t, n)" by (cases p)
    from Pair Inr p obtain db1 where
      run: "appendEventInTransaction r event (db\<lparr>is_transaction := True\<rparr>) = (Inr (t, n), db1)"
      and db': "db' = db1\<lparr>is_transaction := False\<rparr>"
      by (auto simp: appendEvent_def transaction_ok [OF assms(2)])
    have ok: "log_ok (db\<lparr>is_transaction := True\<rparr>)" using assms(1) by simp
    have "canonicalJson event = Inr t" using run unfolding appendEventInTransaction_ok by simp
    with appendEvent_log [OF ok run] show ?thesis
      by (simp add: Pair Inr p db' log_entries_def room_events_def)
  qed
qed

theorem appendEvent_all_or_nothing_witness:
  "snd (appendEvent ''nowhere'' example_event_json (migrated_db [])) = migrated_db []"
proof -
  have "\<not> is_transaction (migrated_db [])" by (simp add: migrated_db_def)
  moreover have "\<And>t n db'. appendEvent ''nowhere'' example_event_json (migrated_db []) \<noteq> (Inr (t, n), db')"
  proof
    fix t n db'
    assume "appendEvent ''nowhere'' example_event_json (migrated_db []) = (Inr (t, n), db')"
    then obtain db1 where "appendEventInTransaction ''nowhere'' example_event_json
        ((migrated_db [])\<lparr>is_transaction := True\<rparr>) = (Inr (t, n), db1)"
      by (auto simp: appendEvent_def transaction_ok migrated_db_def)
    then show False unfolding appendEventInTransaction_ok by (auto simp: find_room_def migrated_db_def)
  qed
  ultimately show ?thesis
    using appendEvent_all_or_nothing [OF migrated_log_ok [of "[]"],
      where r = "''nowhere''" and event = example_event_json]
    by (auto split: prod.splits sum.splits)
qed

end
