(* ===== verification/Cast_Dto.thy ===== *)
theory Cast_Dto
  imports Events
begin

text \<open>
  The data transfer objects of \<open>src/db/cast.ts\<close>, the JSON that the command tables keep of them and
  what reading that JSON back gives (\<open>JSON.parse(row.result_json) as RoomSelectionResult\<close>).
\<close>

section \<open>Types\<close>

definition PUBLIC_ROOM_ID :: string where "PUBLIC_ROOM_ID = ''first-playable''"

definition ROOM_LIBRARY_LIMIT :: nat where "ROOM_LIBRARY_LIMIT = 100"

record cast_persona_input =
  cpi_slug :: string
  cpi_name :: string

record room_participant_dto =
  dto_id :: string
  dto_kind :: participant_kind
  dto_displayName :: string
  dto_muted :: bool
  dto_personaSlug :: "string option"

record current_room_dto =
  rd_id :: string
  rd_sessionId :: string
  rd_title :: string
  rd_status :: room_status
  rd_generation :: nat
  rd_participants :: "room_participant_dto list"

record room_selection_state_dto =
  rss_revision :: nat
  rss_room :: current_room_dto

record room_selection_result =
  rsr_requestId :: string
  rsr_revision :: nat
  rsr_room :: current_room_dto

record select_room_command =
  src_expectedRevision :: jval
  src_requestId :: string
  src_roomId :: string

record room_summary_dto =
  sum_id :: string
  sum_title :: string
  sum_status :: room_status
  sum_selected :: bool
  sum_lastActivity :: string
  sum_cast :: "room_participant_dto list"

record selected_cast_dto =
  sel_participantId :: string
  sel_slug :: string
  sel_name :: string
  sel_sortOrder :: nat

record cast_replacement_result =
  crr_requestId :: string
  crr_selectionRevision :: nat
  crr_sessionId :: string
  crr_room :: current_room_dto
  crr_selectedCast :: "selected_cast_dto list"

record replace_cast_command =
  rcc_expectedRevision :: jval
  rcc_requestId :: string
  rcc_personas :: "cast_persona_input list"

section \<open>JSON of results\<close>

fun kind_name :: "participant_kind \<Rightarrow> string" where
  "kind_name Human = ''human''"
| "kind_name Persona = ''persona''"

fun status_name :: "room_status \<Rightarrow> string" where
  "status_name Active = ''active''"
| "status_name Paused = ''paused''"
| "status_name Stopped = ''stopped''"

definition participant_dto_json :: "room_participant_dto \<Rightarrow> jval" where
  "participant_dto_json p = JObj
     ([(''id'', JStr (dto_id p)), (''kind'', JStr (kind_name (dto_kind p))),
       (''displayName'', JStr (dto_displayName p)), (''muted'', JBool (dto_muted p))]
      @ opt_field ''personaSlug'' (dto_personaSlug p))"

definition room_dto_json :: "current_room_dto \<Rightarrow> jval" where
  "room_dto_json r = JObj
     [(''id'', JStr (rd_id r)), (''sessionId'', JStr (rd_sessionId r)), (''title'', JStr (rd_title r)),
      (''status'', JStr (status_name (rd_status r))), (''generation'', JInt (int (rd_generation r))),
      (''participants'', JArr (map participant_dto_json (rd_participants r)))]"

definition selection_result_json :: "room_selection_result \<Rightarrow> jval" where
  "selection_result_json r = JObj
     [(''kind'', JStr ''room_selection''), (''requestId'', JStr (rsr_requestId r)),
      (''revision'', JInt (int (rsr_revision r))), (''room'', room_dto_json (rsr_room r))]"

definition selected_cast_json :: "selected_cast_dto \<Rightarrow> jval" where
  "selected_cast_json c = JObj
     [(''participantId'', JStr (sel_participantId c)), (''slug'', JStr (sel_slug c)),
      (''name'', JStr (sel_name c)), (''sortOrder'', JInt (int (sel_sortOrder c)))]"

definition cast_result_json :: "cast_replacement_result \<Rightarrow> jval" where
  "cast_result_json r = JObj
     [(''kind'', JStr ''cast''), (''requestId'', JStr (crr_requestId r)),
      (''selectionRevision'', JInt (int (crr_selectionRevision r))), (''sessionId'', JStr (crr_sessionId r)),
      (''room'', room_dto_json (crr_room r)),
      (''selectedCast'', JArr (map selected_cast_json (crr_selectedCast r)))]"

section \<open>Reading results back\<close>

text \<open>
  The fields of a parsed value; None where the value does not have the type the code casts it to,
  which no stored text of this program reaches.
\<close>

fun as_str :: "jval \<Rightarrow> string option" where
  "as_str (JStr s) = Some s"
| "as_str _ = None"

fun as_bool :: "jval \<Rightarrow> bool option" where
  "as_bool (JBool b) = Some b"
| "as_bool _ = None"

definition as_nat :: "jval \<Rightarrow> nat option" where
  "as_nat v =
     (case v of
        JNum n \<Rightarrow> (case n of Num m e \<Rightarrow> if e = 0 \<and> 0 \<le> m then Some (nat m) else None | _ \<Rightarrow> None)
      | _ \<Rightarrow> None)"

definition as_opt :: "jval \<Rightarrow> string option option" where
  "as_opt v = (if v = JUndefined then Some None else map_option Some (as_str v))"

fun as_list :: "jval \<Rightarrow> jval list option" where
  "as_list (JArr xs) = Some xs"
| "as_list _ = None"

definition as_kind :: "jval \<Rightarrow> participant_kind option" where
  "as_kind v = (if v = JStr ''human'' then Some Human else if v = JStr ''persona'' then Some Persona else None)"

definition as_status :: "jval \<Rightarrow> room_status option" where
  "as_status v = (if v = JStr ''active'' then Some Active else if v = JStr ''paused'' then Some Paused
     else if v = JStr ''stopped'' then Some Stopped else None)"

fun map_opt :: "('a \<Rightarrow> 'b option) \<Rightarrow> 'a list \<Rightarrow> 'b list option" where
  "map_opt f [] = Some []"
| "map_opt f (x # xs) = Option.bind (f x) (\<lambda>y. map_option ((#) y) (map_opt f xs))"

definition read_list :: "(jval \<Rightarrow> 'a option) \<Rightarrow> jval \<Rightarrow> 'a list option" where
  "read_list f v = (case as_list v of None \<Rightarrow> None | Some xs \<Rightarrow> map_opt f xs)"

definition read_participant :: "jval \<Rightarrow> room_participant_dto option" where
  "read_participant v =
     Option.bind (as_str (jget ''id'' v)) (\<lambda>i. Option.bind (as_kind (jget ''kind'' v)) (\<lambda>k.
     Option.bind (as_str (jget ''displayName'' v)) (\<lambda>n. Option.bind (as_bool (jget ''muted'' v)) (\<lambda>m.
     Option.bind (as_opt (jget ''personaSlug'' v)) (\<lambda>s.
       Some \<lparr>dto_id = i, dto_kind = k, dto_displayName = n, dto_muted = m, dto_personaSlug = s\<rparr>)))))"

definition read_room :: "jval \<Rightarrow> current_room_dto option" where
  "read_room v =
     Option.bind (as_str (jget ''id'' v)) (\<lambda>i. Option.bind (as_str (jget ''sessionId'' v)) (\<lambda>s.
     Option.bind (as_str (jget ''title'' v)) (\<lambda>t. Option.bind (as_status (jget ''status'' v)) (\<lambda>st.
     Option.bind (as_nat (jget ''generation'' v)) (\<lambda>g.
     Option.bind (read_list read_participant (jget ''participants'' v)) (\<lambda>ps.
       Some \<lparr>rd_id = i, rd_sessionId = s, rd_title = t, rd_status = st, rd_generation = g,
             rd_participants = ps\<rparr>))))))"

definition read_selection_result :: "jval \<Rightarrow> room_selection_result option" where
  "read_selection_result v =
     Option.bind (as_str (jget ''requestId'' v)) (\<lambda>q. Option.bind (as_nat (jget ''revision'' v)) (\<lambda>n.
     Option.bind (read_room (jget ''room'' v)) (\<lambda>r.
       Some \<lparr>rsr_requestId = q, rsr_revision = n, rsr_room = r\<rparr>)))"

definition read_selected_cast :: "jval \<Rightarrow> selected_cast_dto option" where
  "read_selected_cast v =
     Option.bind (as_str (jget ''participantId'' v)) (\<lambda>p. Option.bind (as_str (jget ''slug'' v)) (\<lambda>s.
     Option.bind (as_str (jget ''name'' v)) (\<lambda>n. Option.bind (as_nat (jget ''sortOrder'' v)) (\<lambda>k.
       Some \<lparr>sel_participantId = p, sel_slug = s, sel_name = n, sel_sortOrder = k\<rparr>))))"

definition read_cast_result :: "jval \<Rightarrow> cast_replacement_result option" where
  "read_cast_result v =
     Option.bind (as_str (jget ''requestId'' v)) (\<lambda>q. Option.bind (as_nat (jget ''selectionRevision'' v)) (\<lambda>n.
     Option.bind (as_str (jget ''sessionId'' v)) (\<lambda>s. Option.bind (read_room (jget ''room'' v)) (\<lambda>r.
     Option.bind (read_list read_selected_cast (jget ''selectedCast'' v)) (\<lambda>cs.
       Some \<lparr>crr_requestId = q, crr_selectionRevision = n, crr_sessionId = s, crr_room = r,
             crr_selectedCast = cs\<rparr>)))))"

text \<open>\<open>JSON.parse(text) as T\<close>\<close>

definition stored_as :: "(jval \<Rightarrow> 'a option) \<Rightarrow> string \<Rightarrow> js_error + 'a" where
  "stored_as read_value t =
     (case json_parse t of
        None \<Rightarrow> Inl (PlainError ''SyntaxError'')
      | Some v \<Rightarrow> (case read_value v of None \<Rightarrow> Inl (PlainError ''Stored result has another type'') | Some x \<Rightarrow> Inr x))"

section \<open>Stored results are read back\<close>

lemma as_simps [simp]:
  "as_nat (JInt (int n)) = Some n" "as_opt JUndefined = Some None" "as_opt (JStr s) = Some (Some s)"
  by (simp_all add: as_nat_def as_opt_def)

lemma as_kind_name [simp]: "as_kind (JStr (kind_name k)) = Some k"
  by (cases k) (simp_all add: as_kind_def)

lemma as_status_name [simp]: "as_status (JStr (status_name s)) = Some s"
  by (cases s) (simp_all add: as_status_def)

lemma map_opt_map: "(\<And>x. x \<in> set xs \<Longrightarrow> f (g x) = Some x) \<Longrightarrow> map_opt f (map g xs) = Some xs"
  by (induction xs) auto

text \<open>A reader that inverts an encoding on the parsed text.\<close>

definition inverts :: "(jval \<Rightarrow> 'a option) \<Rightarrow> ('a \<Rightarrow> jval) \<Rightarrow> bool" where
  "inverts read_value enc \<longleftrightarrow> (\<forall>x. json_ok (enc x) \<and> read_value (json_norm (enc x)) = Some x)"

lemma inverts_stored: "inverts r enc \<Longrightarrow> stored (enc x)"
  by (simp add: inverts_def stored_def)

lemma inverts_read: "inverts r enc \<Longrightarrow> r (json_norm (enc x)) = Some x"
  by (simp add: inverts_def)

lemma inverts_ok: "inverts r enc \<Longrightarrow> json_ok (enc x)"
  by (simp add: inverts_def)

lemma inverts_list:
  "inverts r enc \<Longrightarrow> read_list r (json_norm (JArr (map enc xs))) = Some xs"
  using map_opt_map [of xs r "json_norm \<circ> enc"] by (simp add: inverts_def read_list_def comp_def)

lemma stored_as_text:
  assumes "inverts r enc" and "canonicalJson (enc x) = Inr t"
  shows "stored_as r t = Inr x"
proof -
  from canonicalJson_roundtrip [OF inverts_ok [OF assms(1)], of x] assms(2)
  have "json_parse t = Some (json_norm (enc x))" by auto
  with inverts_read [OF assms(1), of x] show ?thesis by (simp add: stored_as_def)
qed

lemma inverts_text: "inverts r enc \<Longrightarrow> \<exists>t. canonicalJson (enc x) = Inr t"
  using canonicalJson_roundtrip by (fastforce simp: inverts_def)

lemma inverts_participant: "inverts read_participant participant_dto_json"
proof -
  have ok: "json_ok (participant_dto_json p)" for p
    by (auto simp: participant_dto_json_def opt_field_def split: option.splits)
  then have "read_participant (json_norm (participant_dto_json p)) = Some p" for p
    by (cases "dto_personaSlug p")
      (simp_all add: read_participant_def jget_norm stored_def, simp_all add: participant_dto_json_def opt_field_def)
  with ok show ?thesis by (simp add: inverts_def)
qed

lemma inverts_room: "inverts read_room room_dto_json"
proof -
  note ps = inverts_list [OF inverts_participant]
  have ok: "json_ok (room_dto_json r)" for r
    by (auto simp: room_dto_json_def inverts_ok [OF inverts_participant])
  then have "read_room (json_norm (room_dto_json r)) = Some r" for r
    by (simp add: read_room_def jget_norm stored_def)
      (simp add: room_dto_json_def ps del: json_norm.simps(1,2))
  with ok show ?thesis by (simp add: inverts_def)
qed

lemma inverts_selection: "inverts read_selection_result selection_result_json"
proof -
  have ok: "json_ok (selection_result_json r)" for r
    by (auto simp: selection_result_json_def inverts_ok [OF inverts_room])
  then have "read_selection_result (json_norm (selection_result_json r)) = Some r" for r
    by (simp add: read_selection_result_def jget_norm stored_def)
      (simp add: selection_result_json_def inverts_read [OF inverts_room] del: json_norm.simps(1,2))
  with ok show ?thesis by (simp add: inverts_def)
qed

lemma inverts_selected_cast: "inverts read_selected_cast selected_cast_json"
proof -
  have ok: "json_ok (selected_cast_json c)" for c by (simp add: selected_cast_json_def)
  then have "read_selected_cast (json_norm (selected_cast_json c)) = Some c" for c
    by (simp add: read_selected_cast_def jget_norm stored_def) (simp add: selected_cast_json_def)
  with ok show ?thesis by (simp add: inverts_def)
qed

lemma inverts_cast: "inverts read_cast_result cast_result_json"
proof -
  note cs = inverts_list [OF inverts_selected_cast]
  have ok: "json_ok (cast_result_json r)" for r
    by (auto simp: cast_result_json_def inverts_ok [OF inverts_room] inverts_ok [OF inverts_selected_cast])
  then have "read_cast_result (json_norm (cast_result_json r)) = Some r" for r
    by (simp add: read_cast_result_def jget_norm stored_def)
      (simp add: cast_result_json_def inverts_read [OF inverts_room] cs del: json_norm.simps(1,2))
  with ok show ?thesis by (simp add: inverts_def)
qed

end
