(* ===== verification/Command_Store.thy ===== *)
theory Command_Store
  imports Green_Prelude
begin

text \<open>
  Two interfaces that the server's commands share. A request-keyed command records its result under
  its request id together with a digest of the command; a repeated request is answered from the
  record. A revisioned command is in addition a compare-and-set on a revision number.
\<close>

section \<open>Request-keyed commands\<close>

text \<open>
  \<open>again c c'\<close>: \<open>c'\<close> is the request \<open>c\<close> sent again (it may be served with other fresh
  identifiers). \<open>idle\<close>: no transaction is open.
\<close>

locale idempotent_command =
  fixes run :: "'c \<Rightarrow> 's \<Rightarrow> ('e + 'r) \<times> 's"
    and recorded :: "'s \<Rightarrow> 'k \<Rightarrow> ('g \<times> 'r) option"
    and key_of :: "'c \<Rightarrow> 'k"
    and digest_of :: "'c \<Rightarrow> 'g"
    and again :: "'c \<Rightarrow> 'c \<Rightarrow> bool"
    and idle :: "'s \<Rightarrow> bool"
  assumes failed: "idle s \<Longrightarrow> run c s = (Inl e, s') \<Longrightarrow> s' = s"
    and records: "idle s \<Longrightarrow> run c s = (Inr r, s') \<Longrightarrow> recorded s' (key_of c) = Some (digest_of c, r)"
    and stays_idle: "idle s \<Longrightarrow> run c s = (Inr r, s') \<Longrightarrow> idle s'"
    and keeps: "idle s \<Longrightarrow> run c s = (Inr r, s') \<Longrightarrow> recorded s q = Some y \<Longrightarrow> recorded s' q = Some y"
    and matches: "idle s \<Longrightarrow> run c s = (Inr r, s') \<Longrightarrow> recorded s (key_of c) = Some (g, r0) \<Longrightarrow> g = digest_of c"
    and replays: "idle s \<Longrightarrow> run c s = (Inr r, s') \<Longrightarrow> again c c' \<Longrightarrow> idle t \<Longrightarrow>
      recorded t (key_of c) = Some (digest_of c, r0) \<Longrightarrow> run c' t = (Inr r0, t)"
begin

text \<open>Any number of commands, one after the other; what each answered is ignored.\<close>

fun run_all :: "'c list \<Rightarrow> 's \<Rightarrow> 's" where
  "run_all [] s = s"
| "run_all (c # res) s = run_all res (snd (run c s))"

lemma step_keeps: "idle s \<Longrightarrow> idle (snd (run c s)) \<and> (recorded s q = Some y \<longrightarrow> recorded (snd (run c s)) q = Some y)"
proof (cases "run c s")
  case (Pair x s')
  assume s: "idle s"
  show ?thesis
  proof (cases x)
    case (Inl e)
    then have "s' = s" using failed [OF s] Pair by blast
    with s Pair show ?thesis by simp
  next
    case (Inr r)
    with stays_idle [OF s] keeps [OF s] Pair show ?thesis by auto
  qed
qed

lemma run_all_idle: "idle s \<Longrightarrow> idle (run_all cs s)"
  by (induction cs arbitrary: s) (auto simp: step_keeps)

lemma run_all_keeps: "idle s \<Longrightarrow> recorded s q = Some y \<Longrightarrow> recorded (run_all cs s) q = Some y"
  by (induction cs arbitrary: s) (auto simp: step_keeps)

lemma recorded_later:
  assumes "idle s" and "run c s = (Inr r, s1)"
  shows "idle (run_all cs s1)" and "recorded (run_all cs s1) (key_of c) = Some (digest_of c, r)"
  using assms records stays_idle run_all_idle run_all_keeps by blast+

text \<open>A request that was answered is answered alike, without effect, whatever ran in between.\<close>

lemma answered_once:
  assumes "idle s" and "run c s = (Inr r, s1)" and "again c c'"
  shows "run c' (run_all cs s1) = (Inr r, run_all cs s1)"
  using replays [OF assms recorded_later [OF assms(1,2)]] .

text \<open>Its id cannot be reused for a command with another digest.\<close>

lemma id_not_reused:
  assumes "idle s" and "run c s = (Inr r, s1)" and "key_of c' = key_of c" and "digest_of c' \<noteq> digest_of c"
  shows "\<exists>e. run c' (run_all cs s1) = (Inl e, run_all cs s1)"
proof -
  note later = recorded_later [OF assms(1,2), of cs]
  obtain x s2 where run2: "run c' (run_all cs s1) = (x, s2)" by (cases "run c' (run_all cs s1)")
  show ?thesis
  proof (cases x)
    case (Inl e)
    with failed [OF later(1)] run2 show ?thesis by auto
  next
    case (Inr r2)
    with matches [OF later(1)] later(2) run2 assms(3,4) show ?thesis by metis
  qed
qed

end

section \<open>Revisioned commands\<close>

text \<open>
  \<open>expected c\<close> is the revision the command expects. A command that is not answered from a record
  moves the revision from there to the next number.
\<close>

locale revisioned_command = idempotent_command +
  fixes rev_of :: "'b \<Rightarrow> nat option"
    and expected :: "'a \<Rightarrow> nat"
  assumes moves: "idle s \<Longrightarrow> run c s = (Inr r, s') \<Longrightarrow> recorded s (key_of c) = None \<Longrightarrow>
      rev_of s = Some (expected c) \<and> rev_of s' = Some (Suc (expected c))"
    and answers: "idle s \<Longrightarrow> run c s = (Inr r, s') \<Longrightarrow> recorded s (key_of c) \<noteq> None \<Longrightarrow> s' = s"
begin

lemma step_revision: "idle s \<Longrightarrow> rev_of s = Some n \<Longrightarrow> \<exists>m \<ge> n. rev_of (snd (run c s)) = Some m"
proof (cases "run c s")
  case (Pair x s')
  assume s: "idle s" and n: "rev_of s = Some n"
  show ?thesis
  proof (cases x)
    case (Inl e)
    with failed [OF s] Pair n show ?thesis by auto
  next
    case (Inr r)
    show ?thesis
    proof (cases "recorded s (key_of c) = None")
      case True
      with moves [OF s] Inr Pair n show ?thesis by fastforce
    next
      case False
      with answers [OF s] Inr Pair have "s' = s" by blast
      with Pair n show ?thesis by simp
    qed
  qed
qed

lemma run_all_revision: "idle s \<Longrightarrow> rev_of s = Some n \<Longrightarrow> \<exists>m \<ge> n. rev_of (run_all cs s) = Some m"
proof (induction cs arbitrary: s n)
  case Nil
  then show ?case by simp
next
  case (Cons c cs)
  from step_revision [OF Cons.prems] obtain m where m: "m \<ge> n" "rev_of (snd (run c s)) = Some m" by blast
  have "idle (snd (run c s))" using step_keeps Cons.prems(1) by blast
  from Cons.IH [OF this m(2)] m(1) show ?case by fastforce
qed

text \<open>Of the commands that expect one revision, only the first to succeed has an effect.\<close>

lemma one_winner:
  assumes "idle s" and "run c s = (Inr r, s1)" and "recorded s (key_of c) = None"
    and "recorded (run_all cs s1) (key_of c') = None" and "expected c' \<le> expected c"
  shows "\<exists>e. run c' (run_all cs s1) = (Inl e, run_all cs s1)"
proof -
  have idle1: "idle s1" using stays_idle [OF assms(1,2)] .
  have "rev_of s1 = Some (Suc (expected c))" using moves [OF assms(1,2,3)] by blast
  from run_all_revision [OF idle1 this] obtain m where m: "m \<ge> Suc (expected c)"
    "rev_of (run_all cs s1) = Some m" by blast
  note later = run_all_idle [OF idle1, of cs]
  obtain x s2 where run2: "run c' (run_all cs s1) = (x, s2)" by (cases "run c' (run_all cs s1)")
  show ?thesis
  proof (cases x)
    case (Inl e)
    with failed [OF later] run2 show ?thesis by auto
  next
    case (Inr r2)
    with moves [OF later _ assms(4)] run2 m assms(5) show ?thesis by fastforce
  qed
qed

end

end
