(* ===== verification/Cast.thy ===== *)
theory Cast
  imports Cast_Dto Command_Store
begin

text \<open>
  The room library of \<open>src/db/cast.ts\<close>: reading rooms, the selected room and its revision, listing
  rooms, selecting a room and replacing the cast (which starts a room). A call that needs fresh
  identifiers takes them as the function \<open>uuid\<close> (its k-th \<open>randomUUID()\<close> is \<open>uuid k\<close>); \<open>sha\<close> is
  \<open>createHash("sha256")...digest("hex")\<close> of \<open>node:crypto\<close>.
\<close>

section \<open>Validation\<close>

definition castIdentifier :: "string \<Rightarrow> string \<Rightarrow> nat \<Rightarrow> js_error + string" where
  "castIdentifier v field maximum =
     (if v = [] \<or> length v > maximum \<or> js_trim v \<noteq> v
      then Inl (TypeError (field @ '' must be a canonical bounded identifier'')) else Inr v)"

definition canonicalRevision :: "jval \<Rightarrow> string \<Rightarrow> js_error + nat" where
  "canonicalRevision v field =
     (case jsafe_nonneg v of
        None \<Rightarrow> Inl (TypeError (field @ '' must be a non-negative safe integer''))
      | Some n \<Rightarrow> Inr n)"

text \<open>The expression \<open>/^[a-z0-9]+(?:-[a-z0-9]+)*$/\<close>; the flag says that a letter or digit must follow.\<close>

fun slug_rest :: "bool \<Rightarrow> string \<Rightarrow> bool" where
  "slug_rest expecting [] = (\<not> expecting)"
| "slug_rest expecting (c # cs) =
     (if lower_alnum c then slug_rest False cs else c = CHR ''-'' \<and> \<not> expecting \<and> slug_rest True cs)"

definition canonicalSlug :: "string \<Rightarrow> js_error + string" where
  "canonicalSlug v =
     bindE (castIdentifier v ''persona slug'' 128) (\<lambda>_.
       if \<not> slug_rest True v then Inl (TypeError ''persona slug must be canonical'') else Inr v)"

definition castDisplayName :: "string \<Rightarrow> js_error + string" where
  "castDisplayName v =
     (if v = [] \<or> length v > 128 \<or> js_trim v \<noteq> v
      then Inl (TypeError ''persona name must be a bounded display name'') else Inr v)"

text \<open>\<open>value.replace(" ", "T")\<close> replaces the first space.\<close>

definition canonicalTimestamp :: "string \<Rightarrow> string" where
  "canonicalTimestamp v =
     (case dropWhile (\<lambda>c. c \<noteq> CHR '' '') v of
        [] \<Rightarrow> v
      | _ # rest \<Rightarrow> takeWhile (\<lambda>c. c \<noteq> CHR '' '') v @ CHR ''T'' # rest) @ ''Z''"

definition roomTitle :: "cast_persona_input list \<Rightarrow> string" where
  "roomTitle ps =
     (let names = map cpi_name ps;
          title = (if length names = 1 then hd names
                   else if length names = 2 then names ! 0 @ '' & '' @ names ! 1
                   else names ! 0 @ '', '' @ names ! 1 @ '' & '' @ names ! 2)
      in js_trim_end (take 128 title))"

section \<open>Reading rooms\<close>

definition room_participants :: "db \<Rightarrow> string \<Rightarrow> participant_row list" where
  "room_participants db r = sort_key sort_order (filter (\<lambda>p. part_room p = r) (db_participants db))"

definition participant_dto :: "participant_row \<Rightarrow> room_participant_dto" where
  "participant_dto p =
     \<lparr>dto_id = part_id p, dto_kind = part_kind p, dto_displayName = part_name p, dto_muted = part_muted p,
      dto_personaSlug = persona_slug p\<rparr>"

definition roomDto :: "string \<Rightarrow> current_room_dto action" where
  "roomDto r =
     bindA (queryA (\<lambda>db. find_room db r)) (\<lambda>found.
     bindA (someA found (PlainError ''Current room pointer references a missing room'')) (\<lambda>room.
     bindA (queryA (\<lambda>db. room_participants db r)) (\<lambda>ps.
       returnA \<lparr>rd_id = r, rd_sessionId = r, rd_title = room_title room, rd_status = room_status room,
                rd_generation = room_generation room, rd_participants = map participant_dto ps\<rparr>)))"

definition currentRoomId :: "string action" where
  "currentRoomId =
     bindA (queryA current_room) (\<lambda>row.
     bindA (someA row (PlainError ''Missing singleton current room pointer'')) (\<lambda>p. returnA (fst p)))"

definition readCurrentRoom :: "current_room_dto action" where
  "readCurrentRoom = bindA currentRoomId roomDto"

definition readRoomSelection :: "room_selection_state_dto action" where
  "readRoomSelection =
     bindA (queryA current_room) (\<lambda>row.
     bindA (someA (case row of None \<Rightarrow> None
                   | Some p \<Rightarrow> if int (snd p) \<le> max_safe_integer then Some p else None)
             (PlainError ''Current room selection state is unavailable'')) (\<lambda>p.
     bindA (roomDto (fst p)) (\<lambda>room. returnA \<lparr>rss_revision = snd p, rss_room = room\<rparr>)))"

definition readRoom :: "string \<Rightarrow> current_room_dto action" where
  "readRoom r = bindA (liftA (castIdentifier r ''roomId'' 128)) roomDto"

section \<open>Listing rooms\<close>

text \<open>\<open>ORDER BY activity_order DESC, id ASC\<close> (\<open>sort_key\<close> is stable).\<close>

definition by_activity :: "room_row list \<Rightarrow> room_row list" where
  "by_activity rows = sort_key (\<lambda>row. - int (activity_order row)) (sort_key room_id rows)"

definition library_rows :: "db \<Rightarrow> string \<Rightarrow> room_row list" where
  "library_rows db selected =
     (let recent = take (ROOM_LIBRARY_LIMIT - 1)
            (by_activity (filter (\<lambda>row. \<not> archived row \<and> room_id row \<noteq> selected) (db_rooms db)))
      in by_activity (filter (\<lambda>row. \<not> archived row \<and>
           (room_id row = selected \<or> room_id row \<in> room_id ` set recent)) (db_rooms db)))"

definition lastActivity :: "db \<Rightarrow> room_row \<Rightarrow> string" where
  "lastActivity db row =
     (case map event_created_at (room_events db (room_id row)) of
        [] \<Rightarrow> room_created_at row
      | t # ts \<Rightarrow> foldl max t ts)"

definition listRooms :: "room_summary_dto list action" where
  "listRooms =
     bindA currentRoomId (\<lambda>selected.
     bindA (queryA (\<lambda>db. map (\<lambda>row. (row, lastActivity db row)) (library_rows db selected))) (\<lambda>rows.
       mapA (\<lambda>p. bindA (roomDto (room_id (fst p))) (\<lambda>room.
         returnA \<lparr>sum_id = room_id (fst p), sum_title = room_title (fst p), sum_status = room_status (fst p),
                  sum_selected = (room_id (fst p) = selected),
                  sum_lastActivity = canonicalTimestamp (snd p),
                  sum_cast = filter (\<lambda>q. dto_kind q = Persona) (rd_participants room)\<rparr>)) rows))"

section \<open>The selection revision\<close>

definition requireRoomSelection :: "string \<Rightarrow> jval \<Rightarrow> unit action" where
  "requireRoomSelection r selectionRevision =
     bindA (liftA (castIdentifier r ''roomId'' 128)) (\<lambda>room.
     bindA (liftA (canonicalRevision selectionRevision ''selectionRevision'')) (\<lambda>revision.
     bindA (queryA current_room) (\<lambda>row.
       requireA (row = Some (room, revision)) (PlainError ''Room selection revision conflict''))))"

text \<open>
  \<open>UPDATE current_room SET room_id = ?, selection_revision = selection_revision + 1 WHERE singleton
  = 1 AND selection_revision = ?\<close>, and the check that it changed one row.
\<close>

definition advanceSelection :: "string \<Rightarrow> nat \<Rightarrow> unit action" where
  "advanceSelection r expected =
     bindA (queryA current_room) (\<lambda>row.
     bindA (requireA (map_option snd row = Some expected) (PlainError ''Room selection revision conflict'')) (\<lambda>_.
       updateA (\<lambda>db. db\<lparr>current_room := Some (r, expected + 1)\<rparr>)))"

section \<open>Recorded results\<close>

text \<open>SQLite's \<open>trim\<close> removes spaces only.\<close>

definition sql_trimmed :: "string \<Rightarrow> bool" where
  "sql_trimmed s \<longleftrightarrow> s = [] \<or> (hd s \<noteq> CHR '' '' \<and> last s \<noteq> CHR '' '')"

definition private_keys :: "string list" where
  "private_keys = [''prompt'', ''promptSha256'', ''promptUtf8Bytes'', ''sourcePath'', ''manifestId'',
     ''manifest'', ''provenance'', ''sources'', ''license'', ''digest'', ''byteCount'']"

text \<open>The constraints and insert triggers of \<open>cast_commands\<close> and \<open>room_selection_commands\<close>.\<close>

definition result_row_ok :: "string \<Rightarrow> string \<Rightarrow> string \<Rightarrow> bool" where
  "result_row_ok requestId digest t \<longleftrightarrow>
     1 \<le> length requestId \<and> length requestId \<le> 256 \<and> sql_trimmed requestId \<and>
     length digest = 64 \<and> (\<forall>c \<in> set digest. lower_hex c) \<and> is_json_object t \<and> length t \<le> 32768 \<and>
     (case json_parse t of None \<Rightarrow> False | Some v \<Rightarrow> set (all_keys v) \<inter> set private_keys = {})"

definition insertSelectionCommand :: "string \<Rightarrow> string \<Rightarrow> string \<Rightarrow> unit action" where
  "insertSelectionCommand requestId digest t =
     bindA (queryA (\<lambda>db. selection_commands db requestId = None)) (\<lambda>free.
     bindA (requireA (result_row_ok requestId digest t) (SqlError ''room_selection_commands constraint failed'')) (\<lambda>_.
     bindA (requireA free (SqlError ''UNIQUE constraint failed: room_selection_commands'')) (\<lambda>_.
       updateA (\<lambda>db. db\<lparr>selection_commands :=
         (selection_commands db)(requestId \<mapsto> \<lparr>res_digest = digest, res_json = t\<rparr>)\<rparr>))))"

definition insertCastCommand :: "string \<Rightarrow> string \<Rightarrow> string \<Rightarrow> unit action" where
  "insertCastCommand requestId digest t =
     bindA (queryA (\<lambda>db. cast_commands db requestId = None)) (\<lambda>free.
     bindA (requireA (result_row_ok requestId digest t) (SqlError ''cast_commands constraint failed'')) (\<lambda>_.
     bindA (requireA free (SqlError ''UNIQUE constraint failed: cast_commands'')) (\<lambda>_.
       updateA (\<lambda>db. db\<lparr>cast_commands :=
         (cast_commands db)(requestId \<mapsto> \<lparr>res_digest = digest, res_json = t\<rparr>)\<rparr>))))"

section \<open>Selecting a room\<close>

definition select_request_json :: "string \<Rightarrow> string \<Rightarrow> nat \<Rightarrow> jval" where
  "select_request_json requestId r expectedRevision = JObj
     [(''kind'', JStr ''selectRoom''), (''requestId'', JStr requestId), (''roomId'', JStr r),
      (''expectedRevision'', JInt (int expectedRevision))]"

definition jsonDigest :: "(string \<Rightarrow> string) \<Rightarrow> jval \<Rightarrow> js_error + string" where
  "jsonDigest sha v = bindE (canonicalJson v) (\<lambda>t. Inr (sha t))"

definition selectRoomInTransaction :: "string \<Rightarrow> string \<Rightarrow> nat \<Rightarrow> string \<Rightarrow> room_selection_result action" where
  "selectRoomInTransaction requestId r expectedRevision requestDigest =
     bindA (queryA (\<lambda>db. selection_commands db requestId)) (\<lambda>prior.
     case prior of
       Some row \<Rightarrow>
         bindA (requireA (res_digest row = requestDigest)
                 (PlainError ''Request id was already used for a different room selection'')) (\<lambda>_.
           liftA (stored_as read_selection_result (res_json row)))
     | None \<Rightarrow>
         bindA (queryA (\<lambda>db. find (\<lambda>row. room_id row = r \<and> \<not> archived row) (db_rooms db))) (\<lambda>present.
         bindA (someA present (PlainError (''Unknown room: '' @ r))) (\<lambda>_.
         bindA (advanceSelection r expectedRevision) (\<lambda>_.
         bindA readRoomSelection (\<lambda>state.
           let result = \<lparr>rsr_requestId = requestId, rsr_revision = rss_revision state, rsr_room = rss_room state\<rparr>
           in bindA (liftA (canonicalJson (selection_result_json result))) (\<lambda>t.
              bindA (insertSelectionCommand requestId requestDigest t) (\<lambda>_. returnA result)))))))"

definition selectRoom :: "(string \<Rightarrow> string) \<Rightarrow> select_room_command \<Rightarrow> room_selection_result action" where
  "selectRoom sha command =
     bindA (liftA (castIdentifier (src_requestId command) ''requestId'' 256)) (\<lambda>requestId.
     bindA (liftA (castIdentifier (src_roomId command) ''roomId'' 128)) (\<lambda>r.
     bindA (liftA (canonicalRevision (src_expectedRevision command) ''expectedRevision'')) (\<lambda>expectedRevision.
     bindA (liftA (jsonDigest sha (select_request_json requestId r expectedRevision))) (\<lambda>requestDigest.
       withImmediateTransaction (selectRoomInTransaction requestId r expectedRevision requestDigest)))))"

section \<open>Replacing the cast\<close>

text \<open>The trigger \<open>participant_cast_insert_is_valid\<close> of \<open>migrations/0003-room-cast.sql\<close>.\<close>

definition participant_valid :: "participant_row \<Rightarrow> bool" where
  "participant_valid p \<longleftrightarrow>
     1 \<le> length (part_id p) \<and> length (part_id p) \<le> 128 \<and> sql_trimmed (part_id p) \<and>
     1 \<le> length (part_name p) \<and> length (part_name p) \<le> 128 \<and> sql_trimmed (part_name p) \<and>
     (case part_kind p of
        Human \<Rightarrow> persona_slug p = None \<and> sort_order p = 0
      | Persona \<Rightarrow>
          (case persona_slug p of
             None \<Rightarrow> False
           | Some s \<Rightarrow> length s \<le> 128 \<and> slug_rest True s) \<and>
          1 \<le> sort_order p \<and> sort_order p \<le> 3)"

text \<open>\<open>INSERT INTO participants\<close> with the trigger, the foreign key and the three unique indexes.\<close>

definition insertParticipant :: "participant_row \<Rightarrow> unit action" where
  "insertParticipant p =
     bindA (queryA (\<lambda>db. find_room db (part_room p) \<noteq> None)) (\<lambda>fk.
     bindA (queryA (\<lambda>db. \<forall>q \<in> set (db_participants db).
        part_id q \<noteq> part_id p \<and>
        (part_room q = part_room p \<longrightarrow> sort_order q \<noteq> sort_order p \<and>
           (persona_slug p = None \<or> persona_slug q \<noteq> persona_slug p)))) (\<lambda>unique.
     bindA (requireA (participant_valid p) (SqlError ''invalid bounded participant cast identity'')) (\<lambda>_.
     bindA (requireA unique (SqlError ''UNIQUE constraint failed: participants'')) (\<lambda>_.
     bindA (requireA fk (SqlError ''FOREIGN KEY constraint failed'')) (\<lambda>_.
       updateA (\<lambda>db. db\<lparr>db_participants := db_participants db @ [p]\<rparr>))))))"

definition insertRoom :: "string \<Rightarrow> string \<Rightarrow> unit action" where
  "insertRoom r title =
     bindA (queryA (\<lambda>db. find_room db r = None)) (\<lambda>free.
     bindA (requireA free (SqlError ''UNIQUE constraint failed: rooms.id'')) (\<lambda>_.
       updateA (\<lambda>db. db\<lparr>db_rooms := db_rooms db @
         [\<lparr>room_id = r, room_title = title, room_status = Active, room_generation = 0,
           next_event_sequence = 1, room_created_at = db_clock db, activity_order = 0,
           archived = False\<rparr>]\<rparr>)))"

definition insertDirectorState :: "string \<Rightarrow> unit action" where
  "insertDirectorState r =
     bindA (queryA (\<lambda>db. db_director db r = None)) (\<lambda>free.
     bindA (requireA free (SqlError ''UNIQUE constraint failed: director_state.room_id'')) (\<lambda>_.
       updateA (\<lambda>db. db\<lparr>db_director := (db_director db)(r \<mapsto>
         \<lparr>last_speaker_id = None, last_human_event_sequence = None, autonomous_turns = 0,
          scheduling_window_generation = 0\<rparr>)\<rparr>)))"

definition castPersona :: "cast_persona_input \<Rightarrow> js_error + cast_persona_input" where
  "castPersona p =
     bindE (canonicalSlug (cpi_slug p)) (\<lambda>s. bindE (castDisplayName (cpi_name p)) (\<lambda>n.
       Inr \<lparr>cpi_slug = s, cpi_name = n\<rparr>))"

definition castPersonas :: "cast_persona_input list \<Rightarrow> js_error + cast_persona_input list" where
  "castPersonas ps =
     (if length ps < 1 \<or> length ps > 3 then Inl (TypeError ''cast must contain one to three personas'')
      else bindE (mapE castPersona ps) (\<lambda>qs.
        if \<not> distinct (map cpi_slug qs) then Inl (TypeError ''duplicate persona slugs are not allowed'')
        else Inr qs))"

definition cast_request_json :: "string \<Rightarrow> nat \<Rightarrow> cast_persona_input list \<Rightarrow> jval" where
  "cast_request_json requestId expectedRevision ps = JObj
     [(''kind'', JStr ''replaceCast''), (''requestId'', JStr requestId),
      (''expectedRevision'', JInt (int expectedRevision)),
      (''personaSlugs'', JArr (map (\<lambda>p. JStr (cpi_slug p)) ps))]"

definition selected_cast :: "(nat \<Rightarrow> string) \<Rightarrow> cast_persona_input list \<Rightarrow> selected_cast_dto list" where
  "selected_cast uuid ps =
     map (\<lambda>(k, p). \<lparr>sel_participantId = ''persona-'' @ uuid (k + 2), sel_slug = cpi_slug p,
                     sel_name = cpi_name p, sel_sortOrder = k + 1\<rparr>) (enumerate 0 ps)"

definition room_started_json :: "selected_cast_dto list \<Rightarrow> jval" where
  "room_started_json cs = JObj
     [(''type'', JStr ''room_started''),
      (''cast'', JArr (map (\<lambda>c. JObj [(''participantId'', JStr (sel_participantId c)),
                                     (''personaSlug'', JStr (sel_slug c))]) cs))]"

text \<open>The rows of a new room, from \<open>INSERT INTO rooms\<close> to \<open>INSERT INTO director_state\<close>.\<close>

definition startRoom :: "(nat \<Rightarrow> string) \<Rightarrow> cast_persona_input list \<Rightarrow> selected_cast_dto list action" where
  "startRoom uuid ps =
     (let sessionId = ''room-'' @ uuid 0; cs = selected_cast uuid ps
      in bindA (insertRoom sessionId (roomTitle ps)) (\<lambda>_.
         bindA (insertParticipant \<lparr>part_id = ''human-'' @ uuid 1, part_room = sessionId, part_kind = Human,
                  part_name = ''You'', part_muted = False, sort_order = 0, persona_slug = None\<rparr>) (\<lambda>_.
         bindA (mapA (\<lambda>c. insertParticipant \<lparr>part_id = sel_participantId c, part_room = sessionId,
                  part_kind = Persona, part_name = sel_name c, part_muted = False,
                  sort_order = sel_sortOrder c, persona_slug = Some (sel_slug c)\<rparr>) cs) (\<lambda>_.
         bindA (insertDirectorState sessionId) (\<lambda>_. returnA cs)))))"

definition replaceCastInTransaction ::
    "(nat \<Rightarrow> string) \<Rightarrow> string \<Rightarrow> nat \<Rightarrow> cast_persona_input list \<Rightarrow> string \<Rightarrow> cast_replacement_result action" where
  "replaceCastInTransaction uuid requestId expectedRevision ps requestDigest =
     bindA (queryA (\<lambda>db. cast_commands db requestId)) (\<lambda>prior.
     case prior of
       Some row \<Rightarrow>
         bindA (requireA (res_digest row = requestDigest)
                 (PlainError ''Request id was already used for a different cast'')) (\<lambda>_.
           liftA (stored_as read_cast_result (res_json row)))
     | None \<Rightarrow>
         bindA readRoomSelection (\<lambda>selection.
         bindA (requireA (rss_revision selection = expectedRevision)
                 (PlainError ''Room selection revision conflict'')) (\<lambda>_.
         bindA (queryA (\<lambda>db. length (filter (\<lambda>row. \<not> archived row) (db_rooms db)))) (\<lambda>roomCount.
         bindA (requireA (roomCount < ROOM_LIBRARY_LIMIT) (PlainError ''Room library is full'')) (\<lambda>_.
         bindA (startRoom uuid ps) (\<lambda>cs.
         bindA (appendEventInTransaction (''room-'' @ uuid 0) (room_started_json cs)) (\<lambda>_.
         bindA (advanceSelection (''room-'' @ uuid 0) expectedRevision) (\<lambda>_.
         bindA (roomDto (''room-'' @ uuid 0)) (\<lambda>room.
           let result = \<lparr>crr_requestId = requestId, crr_selectionRevision = expectedRevision + 1,
                         crr_sessionId = ''room-'' @ uuid 0, crr_room = room, crr_selectedCast = cs\<rparr>
           in bindA (liftA (canonicalJson (cast_result_json result))) (\<lambda>t.
              bindA (insertCastCommand requestId requestDigest t) (\<lambda>_. returnA result)))))))))))"

definition replaceCurrentRoomCast ::
    "(string \<Rightarrow> string) \<Rightarrow> (nat \<Rightarrow> string) \<Rightarrow> replace_cast_command \<Rightarrow> cast_replacement_result action" where
  "replaceCurrentRoomCast sha uuid command =
     bindA (liftA (castIdentifier (rcc_requestId command) ''requestId'' 256)) (\<lambda>requestId.
     bindA (liftA (canonicalRevision (rcc_expectedRevision command) ''expectedRevision'')) (\<lambda>expectedRevision.
     bindA (liftA (castPersonas (rcc_personas command))) (\<lambda>ps.
     bindA (liftA (jsonDigest sha (cast_request_json requestId expectedRevision ps))) (\<lambda>requestDigest.
       withImmediateTransaction
         (replaceCastInTransaction uuid requestId expectedRevision ps requestDigest)))))"

end
