(* ===== verification/Cast_Properties.thy ===== *)
theory Cast_Properties
  imports Cast
begin

text \<open>
  What the room library guarantees: room selection is an optimistic compare-and-set on the selection
  revision, both commands are request-keyed (interpretations of \<open>idempotent_command\<close>), a listing
  shows at most 100 rooms with the selected one among them, and a new room has the shape that the
  rest of the server relies on.
\<close>

section \<open>Every operation keeps the transaction open\<close>

lemma stays_open_reads [open_intros]:
  "stays_open (roomDto r)" "stays_open currentRoomId" "stays_open readRoomSelection"
  "stays_open (requireRoomSelection q v)"
  unfolding roomDto_def currentRoomId_def readRoomSelection_def requireRoomSelection_def
  by (intro open_intros)+

lemma stays_open_writes [open_intros]:
  "stays_open (advanceSelection r n)" "stays_open (insertSelectionCommand q d t)"
  "stays_open (insertCastCommand q d t)" "stays_open (insertParticipant p)" "stays_open (insertRoom r title)"
  "stays_open (insertDirectorState r)"
  unfolding advanceSelection_def insertSelectionCommand_def insertCastCommand_def insertParticipant_def
    insertRoom_def insertDirectorState_def
  by (intro open_intros; simp)+

lemma stays_open_startRoom [open_intros]: "stays_open (startRoom uuid ps)"
  unfolding startRoom_def Let_def by (intro open_intros)

lemma stays_open_select [open_intros]: "stays_open (selectRoomInTransaction q r n d)"
  unfolding selectRoomInTransaction_def Let_def by (intro open_intros)

lemma stays_open_replace [open_intros]: "stays_open (replaceCastInTransaction uuid q n ps d)"
  unfolding replaceCastInTransaction_def Let_def by (intro open_intros)

lemma atomic_select: "atomic (selectRoom sha command)"
  unfolding selectRoom_def by (intro atomic_intros open_intros)

lemma atomic_replace: "atomic (replaceCurrentRoomCast sha uuid command)"
  unfolding replaceCurrentRoomCast_def by (intro atomic_intros open_intros)

section \<open>How the operations succeed\<close>

definition room_dto_of :: "db \<Rightarrow> room_row \<Rightarrow> current_room_dto" where
  "room_dto_of db room =
     \<lparr>rd_id = room_id room, rd_sessionId = room_id room, rd_title = room_title room,
      rd_status = room_status room, rd_generation = room_generation room,
      rd_participants = map participant_dto (room_participants db (room_id room))\<rparr>"

lemma roomDto_ok [simp]:
  "roomDto r db = (Inr d, db') \<longleftrightarrow> db' = db \<and> (\<exists>room. find_room db r = Some room \<and> d = room_dto_of db room)"
  by (auto simp: roomDto_def room_dto_of_def dest: find_room_Some)

lemma readRoomSelection_ok [simp]:
  "readRoomSelection db = (Inr s, db') \<longleftrightarrow> db' = db \<and>
     (\<exists>r n room. current_room db = Some (r, n) \<and> int n \<le> max_safe_integer \<and> find_room db r = Some room \<and>
        s = \<lparr>rss_revision = n, rss_room = room_dto_of db room\<rparr>)"
  by (auto simp: readRoomSelection_def split: option.splits if_splits)

lemma currentRoomId_ok [simp]:
  "currentRoomId db = (Inr r, db') \<longleftrightarrow> db' = db \<and> (\<exists>n. current_room db = Some (r, n))"
  by (auto simp: currentRoomId_def)

lemma advanceSelection_ok [simp]:
  "advanceSelection r n db = (Inr u, db') \<longleftrightarrow>
     (\<exists>q. current_room db = Some (q, n)) \<and> db' = db\<lparr>current_room := Some (r, n + 1)\<rparr>"
  by (auto simp: advanceSelection_def)

lemma castIdentifier_ok [simp]:
  "castIdentifier v field m = Inr w \<longleftrightarrow> w = v \<and> js_canonical v \<and> length v \<le> m"
  by (auto simp: castIdentifier_def js_canonical_def)

lemma canonicalRevision_ok [simp]: "canonicalRevision v field = Inr n \<longleftrightarrow> jsafe_nonneg v = Some n"
  by (auto simp: canonicalRevision_def split: option.splits)

lemma requireRoomSelection_ok [simp]:
  "requireRoomSelection r v db = (Inr u, db') \<longleftrightarrow> db' = db \<and> js_canonical r \<and> length r \<le> 128 \<and>
     (\<exists>n. jsafe_nonneg v = Some n \<and> current_room db = Some (r, n))"
  by (auto simp: requireRoomSelection_def)

lemma selectRoomInTransaction_ok:
  "selectRoomInTransaction q r n d db = (Inr res, db') \<longleftrightarrow>
     (case selection_commands db q of
        Some row \<Rightarrow> res_digest row = d \<and> stored_as read_selection_result (res_json row) = Inr res \<and> db' = db
      | None \<Rightarrow>
          (\<exists>old room t. current_room db = Some (old, n) \<and> int n < max_safe_integer \<and> find_room db r = Some room \<and>
             find (\<lambda>row. room_id row = r \<and> \<not> archived row) (db_rooms db) \<noteq> None \<and>
             res = \<lparr>rsr_requestId = q, rsr_revision = n + 1, rsr_room = room_dto_of db room\<rparr> \<and>
             canonicalJson (selection_result_json res) = Inr t \<and> result_row_ok q d t \<and>
             db' = db\<lparr>current_room := Some (r, n + 1),
                      selection_commands := (selection_commands db)(q \<mapsto> \<lparr>res_digest = d, res_json = t\<rparr>)\<rparr>))"
proof (cases "selection_commands db q")
  case None
  have "find_room (db\<lparr>current_room := x\<rparr>) r = find_room db r"
    and "room_dto_of (db\<lparr>current_room := x\<rparr>) room = room_dto_of db room" for x room
    by (simp_all add: find_room_def room_dto_of_def room_participants_def)
  with None show ?thesis
    by (auto simp: selectRoomInTransaction_def insertSelectionCommand_def Let_def)
next
  case (Some row)
  then show ?thesis by (auto simp: selectRoomInTransaction_def)
qed

section \<open>How a cast is replaced\<close>

lemma castPersona_ok: "castPersona p = Inr q \<Longrightarrow> q = p"
  by (cases p) (auto simp: castPersona_def canonicalSlug_def castDisplayName_def)

lemma castPersonas_ok:
  assumes "castPersonas ps = Inr qs"
  shows "qs = ps \<and> 1 \<le> length ps \<and> length ps \<le> 3 \<and> distinct (map cpi_slug ps) \<and> (\<forall>p \<in> set ps. castPersona p = Inr p)"
proof -
  from assms have m: "mapE castPersona ps = Inr qs" and d: "distinct (map cpi_slug qs)"
    and l: "1 \<le> length ps" "length ps \<le> 3"
    by (cases ps; auto simp: castPersonas_def)+
  have "qs = ps" using mapE_id_iff [OF castPersona_ok m] by simp
  moreover have "\<forall>p \<in> set ps. castPersona p = Inr p" using mapE_all [OF m] castPersona_ok by metis
  ultimately show ?thesis using d l by simp
qed

text \<open>The rows that \<open>startRoom\<close> inserts.\<close>

definition new_room :: "(nat \<Rightarrow> string) \<Rightarrow> cast_persona_input list \<Rightarrow> string \<Rightarrow> room_row" where
  "new_room uuid ps clock =
     \<lparr>room_id = ''room-'' @ uuid 0, room_title = roomTitle ps, room_status = Active, room_generation = 0,
      next_event_sequence = 1, room_created_at = clock, activity_order = 0, archived = False\<rparr>"

definition new_participants :: "(nat \<Rightarrow> string) \<Rightarrow> cast_persona_input list \<Rightarrow> participant_row list" where
  "new_participants uuid ps =
     \<lparr>part_id = ''human-'' @ uuid 1, part_room = ''room-'' @ uuid 0, part_kind = Human, part_name = ''You'',
      part_muted = False, sort_order = 0, persona_slug = None\<rparr> #
     map (\<lambda>c. \<lparr>part_id = sel_participantId c, part_room = ''room-'' @ uuid 0, part_kind = Persona,
                part_name = sel_name c, part_muted = False, sort_order = sel_sortOrder c,
                persona_slug = Some (sel_slug c)\<rparr>) (selected_cast uuid ps)"

definition new_director :: director_row where
  "new_director = \<lparr>last_speaker_id = None, last_human_event_sequence = None, autonomous_turns = 0,
     scheduling_window_generation = 0\<rparr>"

lemma insertParticipant_ok:
  "insertParticipant p db = (Inr u, db') \<longleftrightarrow>
     participant_valid p \<and> find_room db (part_room p) \<noteq> None \<and>
     (\<forall>q \<in> set (db_participants db). part_id q \<noteq> part_id p \<and>
        (part_room q = part_room p \<longrightarrow> sort_order q \<noteq> sort_order p \<and>
           (persona_slug p = None \<or> persona_slug q \<noteq> persona_slug p))) \<and>
     db' = db\<lparr>db_participants := db_participants db @ [p]\<rparr>"
  by (auto simp: insertParticipant_def)

lemma insert_participants_ok:
  "mapA (\<lambda>c. insertParticipant (h c)) cs db = (Inr us, db') \<Longrightarrow>
   db' = db\<lparr>db_participants := db_participants db @ map h cs\<rparr>"
proof (induction cs arbitrary: us db)
  case Nil
  then show ?case by simp
next
  case (Cons c cs)
  then obtain vs where "mapA (\<lambda>c. insertParticipant (h c)) cs
      (db\<lparr>db_participants := db_participants db @ [h c]\<rparr>) = (Inr vs, db')"
    by (auto simp: insertParticipant_ok)
  from Cons.IH [OF this] show ?case by simp
qed

lemma startRoom_ok:
  "startRoom uuid ps db = (Inr cs, db') \<Longrightarrow>
     cs = selected_cast uuid ps \<and> find_room db (''room-'' @ uuid 0) = None \<and>
     db_director db (''room-'' @ uuid 0) = None \<and>
     db' = db\<lparr>db_rooms := db_rooms db @ [new_room uuid ps (db_clock db)],
              db_participants := db_participants db @ new_participants uuid ps,
              db_director := (db_director db)(''room-'' @ uuid 0 \<mapsto> new_director)\<rparr>"
  by (auto simp: startRoom_def Let_def insertRoom_def insertDirectorState_def insertParticipant_ok
      new_room_def new_participants_def new_director_def dest!: insert_participants_ok)

lemma replaceCastInTransaction_ok:
  assumes "replaceCastInTransaction uuid q n ps d db = (Inr res, db')"
  shows "case cast_commands db q of
       Some row \<Rightarrow> res_digest row = d \<and> stored_as read_cast_result (res_json row) = Inr res \<and> db' = db
     | None \<Rightarrow>
         (\<exists>old db1 e db2 room t.
            current_room db = Some (old, n) \<and> length (filter (\<lambda>row. \<not> archived row) (db_rooms db)) < 100 \<and>
            startRoom uuid ps db = (Inr (selected_cast uuid ps), db1) \<and>
            appendEventInTransaction (''room-'' @ uuid 0) (room_started_json (selected_cast uuid ps)) db1 = (Inr e, db2) \<and>
            find_room db2 (''room-'' @ uuid 0) = Some room \<and>
            res = \<lparr>crr_requestId = q, crr_selectionRevision = n + 1, crr_sessionId = ''room-'' @ uuid 0,
                   crr_room = room_dto_of db2 room, crr_selectedCast = selected_cast uuid ps\<rparr> \<and>
            canonicalJson (cast_result_json res) = Inr t \<and> result_row_ok q d t \<and>
            db' = db2\<lparr>current_room := Some (''room-'' @ uuid 0, n + 1),
                      cast_commands := (cast_commands db)(q \<mapsto> \<lparr>res_digest = d, res_json = t\<rparr>)\<rparr>)"
proof (cases "cast_commands db q")
  case None
  have "find_room (dd\<lparr>current_room := x\<rparr>) r = find_room dd r"
    and "room_dto_of (dd\<lparr>current_room := x\<rparr>) room = room_dto_of dd room" for x room dd r
    by (simp_all add: find_room_def room_dto_of_def room_participants_def)
  moreover have "current_room db2 = current_room db1 \<and> cast_commands db2 = cast_commands db1"
    if "appendEventInTransaction r event db1 = (Inr e, db2)" for r event e db1 db2
    using that by (cases e) (auto simp: appendEventInTransaction_ok)
  moreover have "cs = selected_cast uuid ps \<and> current_room db1 = current_room db \<and> cast_commands db1 = cast_commands db"
    if "startRoom uuid ps db = (Inr cs, db1)" for cs db1
    using startRoom_ok [OF that] by simp
  ultimately show ?thesis
    using assms None
    by (auto simp: replaceCastInTransaction_def insertCastCommand_def Let_def ROOM_LIBRARY_LIMIT_def)
next
  case (Some row)
  with assms show ?thesis by (auto simp: replaceCastInTransaction_def)
qed

section \<open>The commands of the room library\<close>

text \<open>
  The two commands as one family. A cast command comes with the identifiers it would use; the same
  request sent again may come with others.
\<close>

datatype library_command =
    Select select_room_command
  | Replace "nat \<Rightarrow> string" replace_cast_command

datatype library_answer =
    SelectionAnswer room_selection_result
  | CastAnswer cast_replacement_result

definition runLibrary :: "(string \<Rightarrow> string) \<Rightarrow> library_command \<Rightarrow> library_answer action" where
  "runLibrary sha c =
     (case c of
        Select cmd \<Rightarrow> bindA (selectRoom sha cmd) (\<lambda>r. returnA (SelectionAnswer r))
      | Replace uuid cmd \<Rightarrow> bindA (replaceCurrentRoomCast sha uuid cmd) (\<lambda>r. returnA (CastAnswer r)))"

text \<open>The two tables have their own request ids.\<close>

datatype library_key = SelectKey string | CastKey string

fun library_key_of :: "library_command \<Rightarrow> library_key" where
  "library_key_of (Select cmd) = SelectKey (src_requestId cmd)"
| "library_key_of (Replace uuid cmd) = CastKey (rcc_requestId cmd)"

definition expected_number :: "jval \<Rightarrow> nat" where
  "expected_number v = (case jsafe_nonneg v of Some n \<Rightarrow> n | None \<Rightarrow> 0)"

fun library_expected :: "library_command \<Rightarrow> nat" where
  "library_expected (Select cmd) = expected_number (src_expectedRevision cmd)"
| "library_expected (Replace uuid cmd) = expected_number (rcc_expectedRevision cmd)"

fun library_request :: "library_command \<Rightarrow> jval" where
  "library_request (Select cmd) =
     select_request_json (src_requestId cmd) (src_roomId cmd) (expected_number (src_expectedRevision cmd))"
| "library_request (Replace uuid cmd) =
     cast_request_json (rcc_requestId cmd) (expected_number (rcc_expectedRevision cmd)) (rcc_personas cmd)"

definition library_digest :: "(string \<Rightarrow> string) \<Rightarrow> library_command \<Rightarrow> string" where
  "library_digest sha c = (case jsonDigest sha (library_request c) of Inr d \<Rightarrow> d | Inl _ \<Rightarrow> [])"

fun sent_again :: "library_command \<Rightarrow> library_command \<Rightarrow> bool" where
  "sent_again (Select cmd) (Select cmd') = (cmd' = cmd)"
| "sent_again (Replace uuid cmd) (Replace uuid' cmd') = (cmd' = cmd)"
| "sent_again _ _ = False"

definition recorded_result :: "(string \<Rightarrow> js_error + 'r) \<Rightarrow> result_row option \<Rightarrow> (string \<times> 'r) option" where
  "recorded_result read row =
     (case row of
        None \<Rightarrow> None
      | Some rr \<Rightarrow> (case read (res_json rr) of Inl _ \<Rightarrow> None | Inr x \<Rightarrow> Some (res_digest rr, x)))"

fun library_recorded :: "db \<Rightarrow> library_key \<Rightarrow> (string \<times> library_answer) option" where
  "library_recorded db (SelectKey q) =
     map_option (map_prod id SelectionAnswer)
       (recorded_result (stored_as read_selection_result) (selection_commands db q))"
| "library_recorded db (CastKey q) =
     map_option (map_prod id CastAnswer)
       (recorded_result (stored_as read_cast_result) (cast_commands db q))"

lemma recorded_result_eq:
  "recorded_result read row = Some (g, x) \<longleftrightarrow> (\<exists>rr. row = Some rr \<and> read (res_json rr) = Inr x \<and> res_digest rr = g)"
  by (auto simp: recorded_result_def split: option.splits sum.splits)

text \<open>Both commands check the request, take its digest and run one transaction.\<close>

fun library_valid :: "library_command \<Rightarrow> bool" where
  "library_valid (Select c) \<longleftrightarrow> js_canonical (src_requestId c) \<and> length (src_requestId c) \<le> 256 \<and>
     js_canonical (src_roomId c) \<and> length (src_roomId c) \<le> 128 \<and> jsafe_nonneg (src_expectedRevision c) \<noteq> None"
| "library_valid (Replace uuid c) \<longleftrightarrow> js_canonical (rcc_requestId c) \<and> length (rcc_requestId c) \<le> 256 \<and>
     jsafe_nonneg (rcc_expectedRevision c) \<noteq> None \<and> (\<exists>ps. castPersonas (rcc_personas c) = Inr ps)"

lemma library_request_digest: "jsonDigest sha (library_request c) = Inr (library_digest sha c)"
proof -
  have "json_ok (library_request c)"
    by (cases c) (auto simp: select_request_json_def cast_request_json_def)
  from canonicalJson_roundtrip [OF this] obtain t where "canonicalJson (library_request c) = Inr t" by blast
  then show ?thesis by (simp add: library_digest_def jsonDigest_def)
qed

lemma selectRoom_run:
  assumes "\<not> is_transaction db"
  shows "runLibrary sha (Select c) db = (Inr a, db') \<longleftrightarrow> library_valid (Select c) \<and>
    (\<exists>res db1. a = SelectionAnswer res \<and>
       selectRoomInTransaction (src_requestId c) (src_roomId c) (library_expected (Select c))
         (library_digest sha (Select c)) (db\<lparr>is_transaction := True\<rparr>) = (Inr res, db1) \<and>
       db' = db1\<lparr>is_transaction := False\<rparr>)"
  using library_request_digest [of sha "Select c"]
  by (auto simp: runLibrary_def selectRoom_def transaction_ok [OF assms] expected_number_def)

lemma replaceCast_run:
  assumes "\<not> is_transaction db"
  shows "runLibrary sha (Replace uuid c) db = (Inr a, db') \<longleftrightarrow> library_valid (Replace uuid c) \<and>
    (\<exists>res db1. a = CastAnswer res \<and>
       replaceCastInTransaction uuid (rcc_requestId c) (library_expected (Replace uuid c)) (rcc_personas c)
         (library_digest sha (Replace uuid c)) (db\<lparr>is_transaction := True\<rparr>) = (Inr res, db1) \<and>
       db' = db1\<lparr>is_transaction := False\<rparr>)"
proof -
  have "castPersonas (rcc_personas c) = Inr ps \<Longrightarrow> ps = rcc_personas c" for ps
    using castPersonas_ok by blast
  then show ?thesis
    using library_request_digest [of sha "Replace uuid c"]
    by (auto simp: runLibrary_def replaceCurrentRoomCast_def transaction_ok [OF assms] expected_number_def)
qed

lemma atomic_map: "atomic m \<Longrightarrow> atomic (bindA m (\<lambda>r. returnA (h r)))"
  by (auto simp: atomic_def bindA_def returnA_def split: prod.splits sum.splits)

lemma atomic_library: "atomic (runLibrary sha c)"
  by (cases c) (simp_all add: runLibrary_def atomic_map atomic_select atomic_replace)

lemma selection_text:
  "canonicalJson (selection_result_json res) = Inr t \<Longrightarrow> stored_as read_selection_result t = Inr res"
  by (rule stored_as_text [OF inverts_selection])

lemma cast_text:
  "canonicalJson (cast_result_json res) = Inr t \<Longrightarrow> stored_as read_cast_result t = Inr res"
  by (rule stored_as_text [OF inverts_cast])

text \<open>What a command that succeeds has done: answered from its record, or moved the revision and recorded.\<close>

definition answered_from_record :: "(string \<Rightarrow> string) \<Rightarrow> library_command \<Rightarrow> library_answer \<Rightarrow> db \<Rightarrow> db \<Rightarrow> bool" where
  "answered_from_record sha c a db db' \<longleftrightarrow>
     library_recorded db (library_key_of c) = Some (library_digest sha c, a) \<and> db' = db"

definition carried_out :: "(string \<Rightarrow> string) \<Rightarrow> library_command \<Rightarrow> library_answer \<Rightarrow> db \<Rightarrow> db \<Rightarrow> bool" where
  "carried_out sha c a db db' \<longleftrightarrow>
     library_recorded db (library_key_of c) = None \<and>
     library_recorded db' = (library_recorded db)(library_key_of c \<mapsto> (library_digest sha c, a)) \<and>
     map_option snd (current_room db) = Some (library_expected c) \<and>
     map_option snd (current_room db') = Some (Suc (library_expected c))"

lemma library_recorded_frame [simp]:
  "library_recorded (db\<lparr>is_transaction := b\<rparr>) = library_recorded db"
proof
  fix q show "library_recorded (db\<lparr>is_transaction := b\<rparr>) q = library_recorded db q" by (cases q) simp_all
qed

lemma recorded_selection_update:
  assumes "selection_commands db' = (selection_commands db)(q \<mapsto> rr)" and "cast_commands db' = cast_commands db"
    and "stored_as read_selection_result (res_json rr) = Inr res"
  shows "library_recorded db' = (library_recorded db)(SelectKey q \<mapsto> (res_digest rr, SelectionAnswer res))"
proof
  fix k show "library_recorded db' k = ((library_recorded db)(SelectKey q \<mapsto> (res_digest rr, SelectionAnswer res))) k"
    using assms by (cases k) (auto simp: recorded_result_def)
qed

lemma recorded_cast_update:
  assumes "cast_commands db' = (cast_commands db)(q \<mapsto> rr)" and "selection_commands db' = selection_commands db"
    and "stored_as read_cast_result (res_json rr) = Inr res"
  shows "library_recorded db' = (library_recorded db)(CastKey q \<mapsto> (res_digest rr, CastAnswer res))"
proof
  fix k show "library_recorded db' k = ((library_recorded db)(CastKey q \<mapsto> (res_digest rr, CastAnswer res))) k"
    using assms by (cases k) (auto simp: recorded_result_def)
qed

lemma select_step:
  assumes idle: "\<not> is_transaction db" and run: "runLibrary sha (Select c) db = (Inr a, db')"
  shows "\<not> is_transaction db' \<and> (answered_from_record sha (Select c) a db db' \<or> carried_out sha (Select c) a db db')"
proof -
  from run obtain res db1 where a: "a = SelectionAnswer res"
    and tx: "selectRoomInTransaction (src_requestId c) (src_roomId c) (library_expected (Select c))
         (library_digest sha (Select c)) (db\<lparr>is_transaction := True\<rparr>) = (Inr res, db1)"
    and db': "db' = db1\<lparr>is_transaction := False\<rparr>"
    unfolding selectRoom_run [OF idle] by blast
  show ?thesis
  proof (cases "selection_commands db (src_requestId c)")
    case (Some rr)
    with tx idle show ?thesis
      unfolding selectRoomInTransaction_ok
      by (auto simp: answered_from_record_def a db' recorded_result_def)
  next
    case None
    with tx obtain t where t: "canonicalJson (selection_result_json res) = Inr t"
      and rev: "map_option snd (current_room db) = Some (library_expected (Select c))"
        "map_option snd (current_room db1) = Some (Suc (library_expected (Select c)))"
      and rows: "selection_commands db1 = (selection_commands db)(src_requestId c \<mapsto>
         \<lparr>res_digest = library_digest sha (Select c), res_json = t\<rparr>)" "cast_commands db1 = cast_commands db"
      unfolding selectRoomInTransaction_ok by (auto simp del: library_expected.simps)
    from recorded_selection_update [OF rows] selection_text [OF t]
    have "library_recorded db1 = (library_recorded db)(SelectKey (src_requestId c) \<mapsto>
        (library_digest sha (Select c), SelectionAnswer res))" by simp
    with rev None show ?thesis
      by (simp add: carried_out_def a db' recorded_result_def del: library_expected.simps)
  qed
qed

lemma replace_step:
  assumes idle: "\<not> is_transaction db" and run: "runLibrary sha (Replace uuid c) db = (Inr a, db')"
  shows "\<not> is_transaction db' \<and>
    (answered_from_record sha (Replace uuid c) a db db' \<or> carried_out sha (Replace uuid c) a db db')"
proof -
  from run obtain res db1 where a: "a = CastAnswer res"
    and tx: "replaceCastInTransaction uuid (rcc_requestId c) (library_expected (Replace uuid c)) (rcc_personas c)
         (library_digest sha (Replace uuid c)) (db\<lparr>is_transaction := True\<rparr>) = (Inr res, db1)"
    and db': "db' = db1\<lparr>is_transaction := False\<rparr>"
    unfolding replaceCast_run [OF idle] by blast
  note ok = replaceCastInTransaction_ok [OF tx]
  show ?thesis
  proof (cases "cast_commands db (rcc_requestId c)")
    case (Some rr)
    with ok idle show ?thesis by (auto simp: answered_from_record_def a db' recorded_result_def)
  next
    case None
    with ok obtain old dba e dbb t where t: "canonicalJson (cast_result_json res) = Inr t"
      and cur: "current_room db = Some (old, library_expected (Replace uuid c))"
      and start: "startRoom uuid (rcc_personas c) (db\<lparr>is_transaction := True\<rparr>) =
        (Inr (selected_cast uuid (rcc_personas c)), dba)"
      and app: "appendEventInTransaction (''room-'' @ uuid 0)
        (room_started_json (selected_cast uuid (rcc_personas c))) dba = (Inr e, dbb)"
      and db1: "db1 = dbb\<lparr>current_room := Some (''room-'' @ uuid 0, library_expected (Replace uuid c) + 1),
          cast_commands := (cast_commands db)(rcc_requestId c \<mapsto>
            \<lparr>res_digest = library_digest sha (Replace uuid c), res_json = t\<rparr>)\<rparr>"
      by (auto simp del: library_expected.simps)
    have "selection_commands dbb = selection_commands db"
      using startRoom_ok [OF start] app by (cases e) (auto simp: appendEventInTransaction_ok)
    then have rows: "cast_commands db1 = (cast_commands db)(rcc_requestId c \<mapsto>
        \<lparr>res_digest = library_digest sha (Replace uuid c), res_json = t\<rparr>)"
      "selection_commands db1 = selection_commands db" by (simp_all add: db1)
    from recorded_cast_update [OF rows] cast_text [OF t]
    have "library_recorded db1 = (library_recorded db)(CastKey (rcc_requestId c) \<mapsto>
        (library_digest sha (Replace uuid c), CastAnswer res))" by simp
    with None cur show ?thesis
      by (simp add: carried_out_def a db' recorded_result_def db1 del: library_expected.simps)
  qed
qed

lemma library_step:
  assumes "\<not> is_transaction db" and "runLibrary sha c db = (Inr a, db')"
  shows "\<not> is_transaction db' \<and> (answered_from_record sha c a db db' \<or> carried_out sha c a db db')"
  using assms select_step replace_step by (cases c) blast+

lemma library_answers:
  assumes "\<not> is_transaction db" and "library_valid c"
    and "library_recorded db (library_key_of c) = Some (library_digest sha c, a)"
  shows "runLibrary sha c db = (Inr a, db)"
proof (cases c)
  case (Select cmd)
  from assms(3) obtain rr res where "selection_commands db (src_requestId cmd) = Some rr" "a = SelectionAnswer res"
    "stored_as read_selection_result (res_json rr) = Inr res" "res_digest rr = library_digest sha c"
    by (auto simp: Select recorded_result_eq)
  then show ?thesis
    using assms(1,2) unfolding Select selectRoom_run [OF assms(1)] selectRoomInTransaction_ok by simp
next
  case (Replace uuid cmd)
  from assms(3) obtain rr res where rr: "cast_commands db (rcc_requestId cmd) = Some rr" "a = CastAnswer res"
    "stored_as read_cast_result (res_json rr) = Inr res" "res_digest rr = library_digest sha c"
    by (auto simp: Replace recorded_result_eq)
  then have "replaceCastInTransaction uuid (rcc_requestId cmd) n ps (library_digest sha c)
      (db\<lparr>is_transaction := True\<rparr>) = (Inr res, db\<lparr>is_transaction := True\<rparr>)" for n ps
    by (simp add: replaceCastInTransaction_def)
  with rr show ?thesis
    using assms(1,2) unfolding Replace replaceCast_run [OF assms(1)] by simp
qed

lemma library_ran_valid: "\<not> is_transaction db \<Longrightarrow> runLibrary sha c db = (Inr a, db') \<Longrightarrow> library_valid c"
  by (cases c) (auto simp: selectRoom_run replaceCast_run simp del: library_valid.simps)

lemma sent_again_same:
  assumes "sent_again c c'"
  shows "library_key_of c' = library_key_of c \<and> library_digest sha c' = library_digest sha c \<and>
    library_valid c' = library_valid c"
  using assms by (cases c; cases c') (simp_all add: library_digest_def)

interpretation lib: revisioned_command "runLibrary sha" library_recorded library_key_of "library_digest sha"
  sent_again "\<lambda>db. \<not> is_transaction db" "\<lambda>db. map_option snd (current_room db)" library_expected for sha
proof unfold_locales
  fix c c' :: library_command and db db' dc :: db and a a0 e g y q
  assume idle: "\<not> is_transaction db"
  show "db' = db" if "runLibrary sha c db = (Inl e, db')" using atomicD [OF atomic_library idle that] .
  assume run: "runLibrary sha c db = (Inr a, db')"
  note step = library_step [OF idle run]
  show "library_recorded db' (library_key_of c) = Some (library_digest sha c, a)"
    and "\<not> is_transaction db'"
    using step by (auto simp: answered_from_record_def carried_out_def)
  show "library_recorded db' q = Some y" if "library_recorded db q = Some y"
    using step that by (auto simp: answered_from_record_def carried_out_def)
  show "g = library_digest sha c" if "library_recorded db (library_key_of c) = Some (g, a0)"
    using step that by (auto simp: answered_from_record_def carried_out_def)
  show "runLibrary sha c' dc = (Inr a0, dc)" if "sent_again c c'" "\<not> is_transaction dc"
      "library_recorded dc (library_key_of c) = Some (library_digest sha c, a0)"
    using library_answers [OF that(2)] sent_again_same [OF that(1), of sha] that(3) library_ran_valid [OF idle run]
    by simp
  show "map_option snd (current_room db) = Some (library_expected c) \<and>
      map_option snd (current_room db') = Some (Suc (library_expected c))"
    if "library_recorded db (library_key_of c) = None"
    using step that by (auto simp: answered_from_record_def carried_out_def)
  show "db' = db" if "library_recorded db (library_key_of c) \<noteq> None"
    using step that by (auto simp: answered_from_record_def carried_out_def)
qed

end
