(* ===== verification/Cast_Invariant.thy ===== *)
theory Cast_Invariant
  imports Cast_Properties
begin

text \<open>
  The invariant of the room library, kept by every operation that writes rooms, participants or the
  event log: logs in order, a well-formed cast in every room, a selected room that exists and is not
  archived, and at most 100 rooms.
\<close>

section \<open>Participants\<close>

definition participants_ok :: "db \<Rightarrow> bool" where
  "participants_ok db \<longleftrightarrow>
     (\<forall>p \<in> set (db_participants db). participant_valid p \<and> find_room db (part_room p) \<noteq> None) \<and>
     distinct (map part_id (db_participants db)) \<and>
     distinct (map (\<lambda>p. (part_room p, sort_order p)) (db_participants db)) \<and>
     distinct (map (\<lambda>p. (part_room p, persona_slug p))
       (filter (\<lambda>p. persona_slug p \<noteq> None) (db_participants db)))"

definition open_rooms :: "db \<Rightarrow> room_row list" where
  "open_rooms db = filter (\<lambda>row. \<not> archived row) (db_rooms db)"

definition selection_ok :: "db \<Rightarrow> bool" where
  "selection_ok db \<longleftrightarrow> (\<exists>r n. current_room db = Some (r, n) \<and> (\<exists>room. find_room db r = Some room \<and> \<not> archived room))"

definition library_ok :: "db \<Rightarrow> bool" where
  "library_ok db \<longleftrightarrow> log_ok db \<and> participants_ok db \<and> selection_ok db \<and> length (open_rooms db) \<le> ROOM_LIBRARY_LIMIT"

lemma find_append: "find P (xs @ ys) = (case find P xs of None \<Rightarrow> find P ys | Some x \<Rightarrow> Some x)"
  by (induction xs) auto

lemma insertParticipant_participants: "preserves participants_ok (insertParticipant p)"
  by (rule preservesI) (auto simp: participants_ok_def insertParticipant_ok find_room_def)

lemma insertRoom_participants: "preserves participants_ok (insertRoom r title)"
  by (rule preservesI) (auto simp: participants_ok_def insertRoom_def find_room_def find_append)

lemma insertDirectorState_participants: "preserves participants_ok (insertDirectorState r)"
  by (rule preservesI) (auto simp: participants_ok_def insertDirectorState_def find_room_def)

lemma startRoom_participants: "preserves participants_ok (startRoom uuid ps)"
  unfolding startRoom_def Let_def
  by (intro preserves_intros insertRoom_participants insertParticipant_participants insertDirectorState_participants)

lemma participants_ok_rooms:
  assumes "participants_ok db" and "db_participants db' = db_participants db"
    and "\<And>r. find_room db r \<noteq> None \<Longrightarrow> find_room db' r \<noteq> None"
  shows "participants_ok db'"
  using assms by (simp add: participants_ok_def)

section \<open>Appending to a log\<close>

lemma append_rooms:
  assumes "appendEventInTransaction r event db = (Inr (t, n), db')"
  shows "db_participants db' = db_participants db" and "current_room db' = current_room db"
    and "find_room db' q = map_option (\<lambda>row. if room_id row = r then room_after_append (next_activity_order db) row else row) (find_room db q)"
    and "length (open_rooms db') = length (open_rooms db)"
    and "is_transaction db' = is_transaction db"
proof -
  from assms have rooms: "db_rooms db' = update_where (\<lambda>row. room_id row = r) (room_after_append (next_activity_order db)) (db_rooms db)"
    and rest: "db_participants db' = db_participants db" "current_room db' = current_room db" "is_transaction db' = is_transaction db"
    unfolding appendEventInTransaction_ok by auto
  show "db_participants db' = db_participants db" "current_room db' = current_room db" "is_transaction db' = is_transaction db" by fact+
  show "find_room db' q = map_option (\<lambda>row. if room_id row = r then room_after_append (next_activity_order db) row else row) (find_room db q)"
    using find_room_append [OF rooms] .
  have "length (filter (\<lambda>row. \<not> archived row) (update_where P (room_after_append k) rows)) =
      length (filter (\<lambda>row. \<not> archived row) rows)" for P k rows
    by (induction rows) (auto simp: update_where_def room_after_append_def)
  then show "length (open_rooms db') = length (open_rooms db)" by (simp add: open_rooms_def rooms)
qed

lemma append_library_ok:
  assumes "library_ok db" and run: "appendEventInTransaction r event db = (Inr (t, n), db')"
  shows "library_ok db'"
proof -
  note rooms = append_rooms [OF run]
  have "log_ok db'" using appendEvent_log [OF _ run] assms(1) by (simp add: library_ok_def)
  moreover have "participants_ok db'"
    using assms(1) participants_ok_rooms [of db db'] rooms(1,3) by (simp add: library_ok_def)
  moreover have "selection_ok db'"
  proof -
    from assms(1) obtain q n room where "current_room db = Some (q, n)" "find_room db q = Some room" "\<not> archived room"
      by (auto simp: library_ok_def selection_ok_def)
    with rooms(2) rooms(3) [of q] show ?thesis by (simp add: selection_ok_def room_after_append_def)
  qed
  ultimately show ?thesis using assms(1) rooms(4) by (simp add: library_ok_def)
qed

section \<open>The commands\<close>

lemma library_ok_frame [simp]: "library_ok (db\<lparr>is_transaction := b\<rparr>) = library_ok db"
  by (simp add: library_ok_def participants_ok_def selection_ok_def open_rooms_def find_room_def
      log_ok_def rooms_distinct_def room_events_def)

lemma log_ok_cong:
  "db_rooms db' = db_rooms db \<Longrightarrow> db_events db' = db_events db \<Longrightarrow> log_ok db' = log_ok db"
  by (simp add: log_ok_def rooms_distinct_def find_room_def room_events_def)

lemma find_open_room:
  "rooms_distinct db \<Longrightarrow> find (\<lambda>row. room_id row = r \<and> \<not> archived row) (db_rooms db) \<noteq> None \<Longrightarrow>
   find_room db r = Some room \<Longrightarrow> \<not> archived room"
  unfolding rooms_distinct_def find_None_iff
  by (metis (mono_tags, lifting) distinct_map find_room_Some inj_onD)

lemma select_library_ok: "preserves library_ok (selectRoomInTransaction q r n d)"
proof (rule preservesI)
  fix db res db'
  assume ok: "library_ok db" and run: "selectRoomInTransaction q r n d db = (Inr res, db')"
  show "library_ok db'"
  proof (cases "selection_commands db q")
    case (Some row)
    with run ok show ?thesis unfolding selectRoomInTransaction_ok by simp
  next
    case None
    with run obtain room t where room: "find_room db r = Some room"
      "find (\<lambda>row. room_id row = r \<and> \<not> archived row) (db_rooms db) \<noteq> None"
      and db': "db' = db\<lparr>current_room := Some (r, n + 1),
                      selection_commands := (selection_commands db)(q \<mapsto> \<lparr>res_digest = d, res_json = t\<rparr>)\<rparr>"
      unfolding selectRoomInTransaction_ok by auto
    have "\<not> archived room"
      using find_open_room [OF _ room(2,1)] ok by (simp add: library_ok_def log_ok_def)
    with room(1) ok show ?thesis
      by (simp add: db' library_ok_def participants_ok_def selection_ok_def open_rooms_def find_room_def
          log_ok_def rooms_distinct_def room_events_def)
  qed
qed

text \<open>A started room has an empty log and is numbered from 1.\<close>

lemma startRoom_log_ok:
  assumes ok: "log_ok db" and run: "startRoom uuid ps db = (Inr cs, db')"
  shows "log_ok db'"
proof -
  let ?sid = "''room-'' @ uuid 0"
  note start = startRoom_ok [OF run]
  have free: "find_room db ?sid = None" using start by blast
  have db': "db_rooms db' = db_rooms db @ [new_room uuid ps (db_clock db)]" "db_events db' = db_events db"
    using start by simp_all
  have sid: "room_id (new_room uuid ps clk) = ?sid" "next_event_sequence (new_room uuid ps clk) = 1" for clk
    by (simp_all add: new_room_def)
  have none: "room_events db ?sid = []"
    using ok free by (auto simp: log_ok_def room_events_def filter_empty_conv)
  have log: "room_events db' r = room_events db r" for r by (simp add: room_events_def db')
  have "rooms_distinct db'"
    using ok free by (auto simp: rooms_distinct_def log_ok_def db' sid find_room_None)
  moreover have "find_room db' r \<noteq> None" if "find_room db r \<noteq> None" for r
    using that by (auto simp: find_room_def db' find_None_iff)
  ultimately show ?thesis
    using ok none by (auto simp: log_ok_def db' log sid)
qed

lemma replace_library_ok: "preserves library_ok (replaceCastInTransaction uuid q n ps d)"
proof (rule preservesI)
  fix db res db'
  assume ok: "library_ok db" and run: "replaceCastInTransaction uuid q n ps d db = (Inr res, db')"
  let ?sid = "''room-'' @ uuid 0"
  note shape = replaceCastInTransaction_ok [OF run]
  show "library_ok db'"
  proof (cases "cast_commands db q")
    case (Some row)
    with shape ok show ?thesis by simp
  next
    case None
    with shape obtain db1 t1 n1 db2 room t where count: "length (filter (\<lambda>row. \<not> archived row) (db_rooms db)) < 100"
      and start: "startRoom uuid ps db = (Inr (selected_cast uuid ps), db1)"
      and app: "appendEventInTransaction ?sid (room_started_json (selected_cast uuid ps)) db1 = (Inr (t1, n1), db2)"
      and db': "db' = db2\<lparr>current_room := Some (?sid, n + 1),
                      cast_commands := (cast_commands db)(q \<mapsto> \<lparr>res_digest = d, res_json = t\<rparr>)\<rparr>"
      by auto
    note st = startRoom_ok [OF start] and ap = append_rooms [OF app]
    have free: "find_room db ?sid = None" using st by blast
    have "log_ok db2" using appendEvent_log [OF _ app] startRoom_log_ok [OF _ start] ok by (simp add: library_ok_def)
    moreover have "participants_ok db2"
      using preservesD [OF startRoom_participants start] ok participants_ok_rooms [of db1 db2] ap(1,3)
      by (simp add: library_ok_def)
    moreover have "find_room db1 ?sid = Some (new_room uuid ps (db_clock db))"
      using st free by (simp add: find_room_def find_append new_room_def)
    then have "\<exists>room. find_room db2 ?sid = Some room \<and> \<not> archived room"
      by (simp add: ap(3) new_room_def room_after_append_def)
    moreover have "length (open_rooms db1) \<le> ROOM_LIBRARY_LIMIT"
      using st count by (simp add: open_rooms_def new_room_def ROOM_LIBRARY_LIMIT_def)
    then have "length (open_rooms db2) \<le> ROOM_LIBRARY_LIMIT" by (simp only: ap(4))
    ultimately show ?thesis
      by (simp add: db' library_ok_def participants_ok_def selection_ok_def open_rooms_def find_room_def
          log_ok_def rooms_distinct_def room_events_def)
  qed
qed

lemma library_command_ok: "preserves library_ok (runLibrary sha c)"
  unfolding runLibrary_def selectRoom_def replaceCurrentRoomCast_def
  by (cases c) (auto intro!: preserves_intros select_library_ok replace_library_ok)

lemma append_in_transaction_ok: "preserves library_ok (appendEventInTransaction r event)"
  by (rule preservesI) (auto dest: append_library_ok)

lemma append_ok: "preserves library_ok (appendEvent r event)"
  unfolding appendEvent_def by (intro preserves_intros append_in_transaction_ok) simp

lemma migrated_participants_ok: "participants_ok (migrated_db clock)"
proof -
  have "slug_rest True ''detective''" "slug_rest True ''fixer''" "slug_rest True ''optimist''" by code_simp+
  then have "participant_valid (seeded_participant ''human'' Human ''You'' 0)"
    "participant_valid (seeded_participant ''detective'' Persona ''The Detective'' 1)"
    "participant_valid (seeded_participant ''fixer'' Persona ''The Fixer'' 2)"
    "participant_valid (seeded_participant ''optimist'' Persona ''The Optimist'' 3)"
    by (simp_all add: participant_valid_def seeded_participant_def sql_trimmed_def)
  moreover have "find_room (migrated_db clock) ''first-playable'' \<noteq> None"
    by (simp add: find_room_def migrated_db_def)
  moreover have "part_room (seeded_participant i k n s) = ''first-playable''" for i k n s
    by (simp add: seeded_participant_def)
  ultimately show ?thesis
    unfolding participants_ok_def
    by (simp add: migrated_db_def) (simp add: seeded_participant_def)
qed

lemma migrated_library_ok: "library_ok (migrated_db clock)"
  unfolding library_ok_def using migrated_log_ok migrated_participants_ok
  by (simp add: migrated_db_def selection_ok_def open_rooms_def find_room_def ROOM_LIBRARY_LIMIT_def)

section \<open>Listing\<close>

definition summary_of :: "db \<Rightarrow> string \<Rightarrow> room_row \<Rightarrow> room_summary_dto" where
  "summary_of db selected row =
     \<lparr>sum_id = room_id row, sum_title = room_title row, sum_status = room_status row,
      sum_selected = (room_id row = selected), sum_lastActivity = canonicalTimestamp (lastActivity db row),
      sum_cast = filter (\<lambda>q. dto_kind q = Persona) (map participant_dto (room_participants db (room_id row)))\<rparr>"

lemma by_activity_perm: "set (by_activity rows) = set rows \<and> length (by_activity rows) = length rows"
  by (simp add: by_activity_def)

lemma library_rows_all:
  assumes "library_ok db" and "current_room db = Some (selected, n)"
  shows "library_rows db selected = by_activity (open_rooms db)"
proof -
  let ?others = "filter (\<lambda>row. \<not> archived row \<and> room_id row \<noteq> selected) (db_rooms db)"
  from assms obtain room where room: "find_room db selected = Some room" "\<not> archived room"
    by (auto simp: library_ok_def selection_ok_def)
  then have "room \<in> set (open_rooms db)" "room_id room = selected"
    by (auto simp: open_rooms_def dest: find_room_Some)
  then have "length (filter (\<lambda>row. room_id row \<noteq> selected) (open_rooms db)) < length (open_rooms db)"
    by (intro length_filter_less) auto
  moreover have "filter (\<lambda>row. room_id row \<noteq> selected) (open_rooms db) = ?others"
    by (simp add: open_rooms_def)
  moreover have "length (open_rooms db) \<le> ROOM_LIBRARY_LIMIT" using assms(1) by (simp add: library_ok_def)
  ultimately have "length ?others \<le> ROOM_LIBRARY_LIMIT - 1" by simp
  then have "set (take (ROOM_LIBRARY_LIMIT - 1) (by_activity ?others)) = set ?others"
    by (simp add: by_activity_perm)
  then have "filter (\<lambda>row. \<not> archived row \<and> (room_id row = selected \<or>
      room_id row \<in> room_id ` set (take (ROOM_LIBRARY_LIMIT - 1) (by_activity ?others)))) (db_rooms db) = open_rooms db"
    unfolding open_rooms_def by (intro filter_cong) auto
  then show ?thesis by (simp add: library_rows_def Let_def)
qed

lemma bindA_assoc: "bindA (bindA m f) g = bindA m (\<lambda>x. bindA (f x) g)"
  by (rule ext) (auto simp: bindA_def split: prod.splits sum.splits)

lemma mapA_reads:
  "(\<And>x. x \<in> set xs \<Longrightarrow> f x db = (Inr (g x), db)) \<Longrightarrow> mapA f xs db = (Inr (map g xs), db)"
  by (induction xs) (auto simp: bindA_def returnA_def)

lemma find_room_of:
  assumes "row \<in> set (db_rooms db)" and "distinct (map room_id (db_rooms db))"
  shows "find_room db (room_id row) = Some row"
proof (cases "find_room db (room_id row)")
  case None
  with assms(1) show ?thesis by (simp add: find_room_None)
next
  case (Some other)
  from find_room_Some [OF this] assms have "other = row" by (metis distinct_map inj_onD)
  with Some show ?thesis by simp
qed

lemma listRooms_ok:
  assumes ok: "library_ok db" and cur: "current_room db = Some (selected, n)"
  shows "listRooms db = (Inr (map (summary_of db selected) (by_activity (open_rooms db))), db)"
proof -
  have found: "find_room db (room_id row) = Some row" if "row \<in> set (by_activity (open_rooms db))" for row
  proof -
    from that have "row \<in> set (db_rooms db)" by (simp add: by_activity_perm open_rooms_def)
    moreover have "distinct (map room_id (db_rooms db))" using ok by (simp add: library_ok_def log_ok_def rooms_distinct_def)
    ultimately show ?thesis by (rule find_room_of)
  qed
  have dto: "roomDto (room_id row) db = (Inr (room_dto_of db row), db)"
    if "row \<in> set (by_activity (open_rooms db))" for row
    using found [OF that] by simp
  have "mapA (\<lambda>p. bindA (roomDto (room_id (fst p))) (\<lambda>room.
         returnA \<lparr>sum_id = room_id (fst p), sum_title = room_title (fst p), sum_status = room_status (fst p),
                  sum_selected = (room_id (fst p) = selected),
                  sum_lastActivity = canonicalTimestamp (snd p),
                  sum_cast = filter (\<lambda>q. dto_kind q = Persona) (rd_participants room)\<rparr>))
       (map (\<lambda>row. (row, lastActivity db row)) (by_activity (open_rooms db))) db =
     (Inr (map (\<lambda>p. summary_of db selected (fst p)) (map (\<lambda>row. (row, lastActivity db row)) (by_activity (open_rooms db)))), db)"
    by (rule mapA_reads) (auto simp: summary_of_def room_dto_of_def found)
  then show ?thesis
    using cur by (simp add: listRooms_def currentRoomId_def action_run library_rows_all [OF ok cur] comp_def
        bindA_assoc)
qed

end
