(* ===== verification/Json_Size.thy ===== *)
theory Json_Size
  imports Contract_Codec
begin

text \<open>
  The length of a canonical text and its keys: a bound computed from the value alone, which the size
  constraints of the tables (\<open>length(result_json) <= 32768\<close> and the like) are checked with.
\<close>

fun text_bound :: "jval \<Rightarrow> nat" where
  "text_bound (JStr s) = 6 * length s + 2"
| "text_bound (JNum n) = length (number_string n)"
| "text_bound (JArr xs) = 2 + sum_list (map (\<lambda>x. Suc (text_bound x)) xs)"
| "text_bound (JObj fs) = 2 + sum_list (map (\<lambda>p. 6 * length (fst p) + 4 + text_bound (snd p)) fs)"
| "text_bound v = 5"

lemma json_string_bound: "length (json_string s) \<le> 6 * length s + 2"
proof -
  have "length (escape_char c) \<le> 6" for c by (simp add: escape_char_def Let_def)
  then have "length (concat (map escape_char s)) \<le> 6 * length s"
    by (induction s) (auto intro: add_mono)
  then show ?thesis by (simp add: json_string_def)
qed

lemma js_join_bound: "length (js_join '','' ts) \<le> sum_list (map (\<lambda>t. Suc (length t)) ts)"
  by (induction "'',''" ts rule: js_join.induct) auto

lemma sum_list_zip_le:
  "list_all2 (\<lambda>x y. g y \<le> (f x :: nat)) xs ys \<Longrightarrow> sum_list (map g ys) \<le> sum_list (map f xs)"
  by (induction rule: list_all2_induct) auto

lemma sum_list_sort_key: "sum_list (map f (sort_key k xs)) = (sum_list (map f xs) :: nat)"
proof -
  have "sum_list (map f (insort_key k x xs)) = f x + (sum_list (map f xs) :: nat)" for x xs
    by (induction xs) auto
  then show ?thesis by (induction xs) auto
qed

lemma canonicalize_bound: "canonicalize v = Inr t \<Longrightarrow> length t \<le> text_bound v"
proof (induction v arbitrary: t rule: canonicalize.induct)
  case (5 xs)
  then obtain ts where ts: "mapE canonicalize xs = Inr ts" "t = ''['' @ js_join '','' ts @ '']''" by auto
  have "list_all2 (\<lambda>x y. Suc (length y) \<le> Suc (text_bound x)) xs ts"
    using ts(1) 5(1) unfolding mapE_eq_Inr by (auto simp: list_all2_conv_all_nth)
  from sum_list_zip_le [OF this] js_join_bound [of ts] show ?case by (simp add: ts(2))
next
  case (6 fs)
  let ?es = "sort_key fst (map (\<lambda>p. (fst p, canonicalize (snd p))) fs)"
  let ?fs = "sort_key fst (map (\<lambda>p. (fst p, snd p)) fs)"
  from 6(2) obtain ts where ts: "mapE entry_text ?es = Inr ts" "t = ''{'' @ js_join '','' ts @ ''}''" by auto
  have es: "?es = map (\<lambda>p. (fst p, canonicalize (snd p))) (sort_key fst fs)" by (rule sort_key_fst_map)
  have "Suc (length y) \<le> 6 * length (fst p) + 4 + text_bound (snd p)"
    if "p \<in> set fs" "entry_text (fst p, canonicalize (snd p)) = Inr y" for p y
    using that 6(1) json_string_bound [of "fst p"] by (fastforce simp: entry_text_def)
  moreover have "list_all2 (\<lambda>p y. entry_text (fst p, canonicalize (snd p)) = Inr y) (sort_key fst fs) ts"
    using ts(1) unfolding es mapE_eq_Inr list_all2_map1 .
  ultimately have "list_all2 (\<lambda>p y. Suc (length y) \<le> 6 * length (fst p) + 4 + text_bound (snd p)) (sort_key fst fs) ts"
    by (auto elim!: list.rel_mono_strong)
  from sum_list_zip_le [OF this] js_join_bound [of ts] show ?case
    by (simp add: ts(2) sum_list_sort_key)
next
  case (3 s)
  then show ?case using json_string_bound by auto
qed (auto split: if_splits)

lemma canonicalJson_bound: "canonicalJson v = Inr t \<Longrightarrow> length t \<le> text_bound v"
  using canonicalize_bound by (simp add: canonicalJson_def)

lemma all_keys_norm: "set (all_keys (json_norm v)) = set (all_keys v)"
proof (induction v rule: json_norm.induct)
  case (2 fs)
  have "fst ` set (map (\<lambda>p. (fst p, json_norm (snd p))) fs) = fst ` set fs" by force
  with 2 show ?case by simp
qed auto

end
