(* ===== verification/Cast_Claims.thy ===== *)
theory Cast_Claims
  imports Cast_Invariant Json_Size "HOL-Library.Multiset"
begin

text \<open>
  The properties of the room library (\<open>src/db/cast.ts\<close>), with witnesses on the database that the
  migrations leave.
\<close>

section \<open>Examples\<close>

text \<open>A stand-in for the digest: 64 lower-case hex digits that depend on the length of the text.\<close>

definition example_sha :: "string \<Rightarrow> string" where
  "example_sha t = replicate 63 CHR ''0'' @ [''0123456789'' ! (length t mod 10)]"

definition example_uuid :: "nat \<Rightarrow> string" where
  "example_uuid k = [''0123456789'' ! (k mod 10)]"

definition example_select :: select_room_command where
  "example_select = \<lparr>src_expectedRevision = JInt 0, src_requestId = ''r1'', src_roomId = ''first-playable''\<rparr>"

definition example_replace :: replace_cast_command where
  "example_replace = \<lparr>rcc_expectedRevision = JInt 0, rcc_requestId = ''r2'',
     rcc_personas = [\<lparr>cpi_slug = ''ada'', cpi_name = ''Ada''\<rparr>, \<lparr>cpi_slug = ''bob'', cpi_name = ''Bob''\<rparr>]\<rparr>"

lemma example_sha_ok: "length (example_sha t) = 64 \<and> (\<forall>c \<in> set (example_sha t). lower_hex c)"
proof -
  have "''0123456789'' ! (length t mod 10) \<in> set ''0123456789''" by (rule nth_mem) simp
  then show ?thesis by (auto simp: example_sha_def lower_hex_def is_digit_def)
qed

lemma result_row_okI:
  assumes t: "canonicalJson v = Inr t" and v: "v = JObj fs" "json_ok v"
    and q: "1 \<le> length q" "length q \<le> 256" "sql_trimmed q" and d: "length d = 64 \<and> (\<forall>c \<in> set d. lower_hex c)"
    and size: "text_bound v \<le> 32768 \<and> set (all_keys v) \<inter> set private_keys = {}"
  shows "result_row_ok q d t"
proof -
  from canonicalJson_roundtrip [OF v(2)] t have parsed: "json_parse t = Some (json_norm v)" by auto
  moreover from this have "is_json_object t" by (simp add: is_json_object_def v(1))
  moreover have "length t \<le> 32768" using canonicalJson_bound [OF t] size by simp
  ultimately show ?thesis using q d size by (simp add: result_row_ok_def all_keys_norm)
qed

lemma example_digest_ok:
  "length (library_digest example_sha c) = 64 \<and> (\<forall>x \<in> set (library_digest example_sha c). lower_hex x)"
proof -
  obtain t where "library_digest example_sha c = example_sha t"
    using library_request_digest [of example_sha c] by (auto simp: jsonDigest_def dest: sym)
  then show ?thesis by (simp add: example_sha_ok)
qed

lemma small_numbers: "number_text (Suc 0) 0 = ''1''" "number_text 1 0 = ''1''" "number_text 2 0 = ''2''"
  by code_simp+

text \<open>Both commands succeed on the migrated database.\<close>

definition example_db :: db where
  "example_db = (migrated_db [])\<lparr>is_transaction := True\<rparr>"

definition example_room :: current_room_dto where
  "example_room =
     \<lparr>rd_id = ''first-playable'', rd_sessionId = ''first-playable'', rd_title = ''The Green Room'',
      rd_status = Active, rd_generation = 0,
      rd_participants = map participant_dto (db_participants (migrated_db []))\<rparr>"

definition example_selected :: room_selection_result where
  "example_selected = \<lparr>rsr_requestId = ''r1'', rsr_revision = 1, rsr_room = example_room\<rparr>"

lemmas result_json_simps = selection_result_json_def room_dto_json_def participant_dto_json_def opt_field_def
  participant_dto_def seeded_participant_def cast_result_json_def selected_cast_json_def

lemma example_selected_fits:
  "text_bound (selection_result_json example_selected) \<le> 32768 \<and>
   set (all_keys (selection_result_json example_selected)) \<inter> set private_keys = {}"
  by (simp add: example_selected_def example_room_def migrated_db_def result_json_simps private_keys_def
      small_numbers)

lemma example_room_found:
  "\<exists>room. find_room example_db ''first-playable'' = Some room \<and> room_dto_of example_db room = example_room"
  by (simp add: example_db_def migrated_db_def find_room_def room_dto_of_def room_participants_def example_room_def
      seeded_participant_def)

lemma migrated_idle: "\<not> is_transaction (migrated_db clock)"
  by (simp add: migrated_db_def)

lemma run_example_select: "\<exists>db1. runLibrary example_sha (Select example_select) (migrated_db []) = (Inr (SelectionAnswer example_selected), db1)"
proof -
  obtain t where t: "canonicalJson (selection_result_json example_selected) = Inr t"
    using inverts_text [OF inverts_selection] by blast
  have "result_row_ok ''r1'' (library_digest example_sha (Select example_select)) t"
    using result_row_okI [OF t selection_result_json_def inverts_ok [OF inverts_selection] _ _ _ example_digest_ok
        example_selected_fits]
    by (simp add: sql_trimmed_def)
  then show ?thesis
    unfolding selectRoom_run [OF migrated_idle] example_db_def [symmetric] selectRoomInTransaction_ok
    using t example_room_found
    by (auto simp: example_select_def example_selected_def js_canonical_def js_trim_def js_trim_end_def js_trim_start_def
      js_space_def expected_number_def max_safe_integer_def example_db_def migrated_db_def)
qed

definition example_started :: db where
  "example_started = example_db\<lparr>
     db_rooms := db_rooms example_db @ [new_room example_uuid (rcc_personas example_replace) []],
     db_participants := db_participants example_db @ new_participants example_uuid (rcc_personas example_replace),
     db_director := (db_director example_db)(''room-0'' \<mapsto> new_director)\<rparr>"

definition example_cast :: "selected_cast_dto list" where
  "example_cast =
     [\<lparr>sel_participantId = ''persona-2'', sel_slug = ''ada'', sel_name = ''Ada'', sel_sortOrder = 1\<rparr>,
      \<lparr>sel_participantId = ''persona-3'', sel_slug = ''bob'', sel_name = ''Bob'', sel_sortOrder = 2\<rparr>]"

lemma example_cast: "selected_cast example_uuid (rcc_personas example_replace) = example_cast"
  by code_simp

lemma example_uuids: "example_uuid 0 = ''0''" "example_uuid (Suc 0) = ''1''"
  by code_simp+

lemma example_slugs: "slug_rest True ''ada''" "slug_rest True ''bob''"
  by code_simp+

lemma example_started:
  "startRoom example_uuid (rcc_personas example_replace) example_db = (Inr example_cast, example_started)"
  by (simp add: startRoom_def Let_def insertRoom_def insertDirectorState_def insertParticipant_ok example_cast
      example_uuids example_started_def new_room_def new_participants_def new_director_def find_room_def
      example_db_def migrated_db_def)
    (simp add: example_cast_def insertParticipant_ok find_room_def participant_valid_def sql_trimmed_def
      seeded_participant_def lower_alnum_def lower_alpha_def exI [of _ True])

definition example_event_log :: db where
  "example_event_log = snd (appendEventInTransaction ''room-0'' (room_started_json example_cast) example_started)"

lemma example_appended:
  "\<exists>t. appendEventInTransaction ''room-0'' (room_started_json example_cast) example_started = (Inr (t, 1), example_event_log)"
proof -
  obtain t where t: "canonicalJson (room_started_json example_cast) = Inr t" "is_json_object t"
    using object_text [of "[(''type'', JStr ''room_started''),
      (''cast'', JArr (map (\<lambda>c. JObj [(''participantId'', JStr (sel_participantId c)),
                                     (''personaSlug'', JStr (sel_slug c))]) example_cast))]"]
    by (auto simp: room_started_json_def)
  have "\<exists>db'. appendEventInTransaction ''room-0'' (room_started_json example_cast) example_started = (Inr (t, 1), db')"
    unfolding appendEventInTransaction_ok
    using t by (simp add: example_started_def example_db_def migrated_db_def find_room_def new_room_def example_uuids)
  then show ?thesis by (auto simp: example_event_log_def)
qed

definition example_new_room :: current_room_dto where
  "example_new_room =
     \<lparr>rd_id = ''room-0'', rd_sessionId = ''room-0'', rd_title = ''Ada & Bob'', rd_status = Active, rd_generation = 0,
      rd_participants = map participant_dto (new_participants example_uuid (rcc_personas example_replace))\<rparr>"

lemma example_title: "roomTitle (rcc_personas example_replace) = ''Ada & Bob''"
  by code_simp

definition example_replaced :: cast_replacement_result where
  "example_replaced = \<lparr>crr_requestId = ''r2'', crr_selectionRevision = 1, crr_sessionId = ''room-0'',
     crr_room = example_new_room, crr_selectedCast = example_cast\<rparr>"

lemma example_new_room:
  "roomDto ''room-0'' (example_event_log\<lparr>current_room := x\<rparr>) = (Inr example_new_room, example_event_log\<lparr>current_room := x\<rparr>)"
proof -
  obtain t where app: "appendEventInTransaction ''room-0'' (room_started_json example_cast) example_started = (Inr (t, 1), example_event_log)"
    using example_appended by blast
  have "find_room example_started ''room-0'' = Some (new_room example_uuid (rcc_personas example_replace) [])"
    by (simp add: example_started_def example_db_def migrated_db_def find_room_def new_room_def example_uuids)
  then have "find_room example_event_log ''room-0'' = Some (room_after_append (next_activity_order example_started)
      (new_room example_uuid (rcc_personas example_replace) []))"
    by (simp add: append_rooms(3) [OF app]) (simp add: new_room_def example_uuids)
  moreover have "room_participants example_event_log ''room-0'' = new_participants example_uuid (rcc_personas example_replace)"
    by (simp add: room_participants_def append_rooms(1) [OF app])
      (simp add: example_started_def example_db_def migrated_db_def new_participants_def example_uuids example_cast
        example_cast_def seeded_participant_def)
  ultimately show ?thesis
    by (simp add: find_room_def room_dto_of_def room_participants_def example_new_room_def)
      (simp add: new_room_def room_after_append_def example_uuids example_title)
qed

lemma example_replaced_fits:
  "text_bound (cast_result_json example_replaced) \<le> 32768 \<and>
   set (all_keys (cast_result_json example_replaced)) \<inter> set private_keys = {}"
  by (simp add: example_replaced_def example_new_room_def result_json_simps private_keys_def
      new_participants_def example_cast example_cast_def example_uuids small_numbers)

lemma example_before:
  "cast_commands example_db q = None" "current_room example_db = Some (''first-playable'', 0)"
  "\<exists>room. find_room example_db ''first-playable'' = Some room"
  "length (filter (\<lambda>row. \<not> archived row) (db_rooms example_db)) = 1"
  "int 0 \<le> max_safe_integer"
  by (simp_all add: example_db_def migrated_db_def find_room_def max_safe_integer_def)

lemma append_frame:
  assumes "appendEventInTransaction r event db = (Inr (t, n), db')"
  shows "cast_commands db' = cast_commands db" and "current_room db' = current_room db"
  using assms unfolding appendEventInTransaction_ok by auto

lemma run_example_replace:
  "\<exists>db1. runLibrary example_sha (Replace example_uuid example_replace) (migrated_db []) = (Inr (CastAnswer example_replaced), db1)"
proof -
  let ?c = "Replace example_uuid example_replace"
  obtain t where t: "canonicalJson (cast_result_json example_replaced) = Inr t"
    using inverts_text [OF inverts_cast] by blast
  have row: "result_row_ok ''r2'' (library_digest example_sha ?c) t"
    using result_row_okI [OF t cast_result_json_def inverts_ok [OF inverts_cast] _ _ _ example_digest_ok
        example_replaced_fits]
    by (simp add: sql_trimmed_def)
  have valid: "library_valid ?c"
    by (simp add: example_replace_def js_canonical_def js_trim_def js_trim_end_def js_trim_start_def js_space_def
      castPersonas_def castPersona_def canonicalSlug_def castDisplayName_def lower_alnum_def lower_alpha_def
      max_safe_integer_def exI [of _ True])
  obtain e where app: "appendEventInTransaction ''room-0'' (room_started_json example_cast) example_started = (Inr (e, 1), example_event_log)"
    using example_appended by blast
  have cmds: "cast_commands example_event_log = cast_commands example_db" "current_room example_event_log = current_room example_db"
    using append_frame [OF app] by (simp_all add: example_started_def)
  have "\<exists>db1. replaceCastInTransaction example_uuid ''r2'' 0 (rcc_personas example_replace)
      (library_digest example_sha ?c) example_db = (Inr example_replaced, db1)"
    using row t app example_new_room cmds example_before
    by (simp add: replaceCastInTransaction_def insertCastCommand_def Let_def ROOM_LIBRARY_LIMIT_def example_uuids
        example_started example_replaced_def del: roomDto_ok) auto
  then show ?thesis
    unfolding replaceCast_run [OF migrated_idle] example_db_def [symmetric]
    using valid by (auto simp: example_replace_def expected_number_def max_safe_integer_def simp del: library_valid.simps)
qed

section \<open>The room library keeps its invariant\<close>

text \<open>The databases the room library reaches: time passes between the operations.\<close>

inductive library_reachable :: "(string \<Rightarrow> string) \<Rightarrow> db \<Rightarrow> bool" for sha where
  migrated: "library_reachable sha (migrated_db clock)"
| command: "library_reachable sha db \<Longrightarrow> runLibrary sha c db = (x, db') \<Longrightarrow> library_reachable sha db'"
| event: "library_reachable sha db \<Longrightarrow> appendEvent r e db = (y, db') \<Longrightarrow> library_reachable sha db'"
| tick: "library_reachable sha db \<Longrightarrow> library_reachable sha (db\<lparr>db_clock := clock\<rparr>)"

lemma library_ok_clock: "library_ok db \<Longrightarrow> library_ok (db\<lparr>db_clock := clock\<rparr>)"
  by (simp add: library_ok_def participants_ok_def selection_ok_def open_rooms_def find_room_def
      log_ok_def rooms_distinct_def room_events_def)

lemma appendEvent_idle: "\<not> is_transaction db \<Longrightarrow> \<not> is_transaction (snd (appendEvent r e db))"
  unfolding appendEvent_def by (rule transaction_idle [OF stays_open_append])

lemma reachable_library:
  "library_reachable sha db \<Longrightarrow> library_ok db \<and> \<not> is_transaction db"
proof (induction rule: library_reachable.induct)
  case (migrated clock)
  show ?case by (simp add: migrated_library_ok migrated_idle)
next
  case (command db c x db')
  then have "\<not> is_transaction db'" using lib.step_keeps [of db sha c] by simp
  with command step_invariant [OF library_command_ok atomic_library] show ?case by blast
next
  case (event db r e y db')
  have "atomic (appendEvent r e)" unfolding appendEvent_def by (intro atomic_intros open_intros)
  from step_invariant [OF append_ok this, of db] appendEvent_idle [of db r e] event show ?case by simp
next
  case (tick db clock)
  then show ?case by (simp add: library_ok_clock)
qed

text \<open>
  C32: in every database that selections, cast replacements (with whatever identifiers they draw) and
  event appends reach, failing ones included, the selected room exists and is not archived, at most 100 rooms
  are open, every participant is well formed and belongs to an existing room, no two participants of
  a room share a place or a persona, and every room's log is numbered 1, 2, 3 without a gap.
\<close>

theorem library_invariant:
  assumes "library_reachable sha db"
  shows "(\<exists>r n room. current_room db = Some (r, n) \<and> find_room db r = Some room \<and> \<not> archived room) \<and>
    length (filter (\<lambda>row. \<not> archived row) (db_rooms db)) \<le> ROOM_LIBRARY_LIMIT \<and>
    (\<forall>p \<in> set (db_participants db). participant_valid p \<and> find_room db (part_room p) \<noteq> None) \<and>
    distinct (map (\<lambda>p. (part_room p, sort_order p)) (db_participants db)) \<and>
    distinct (map (\<lambda>p. (part_room p, persona_slug p)) (filter (\<lambda>p. persona_slug p \<noteq> None) (db_participants db))) \<and>
    map event_sequence (room_events db q) = [1..<Suc (length (room_events db q))]"
  using reachable_library [OF assms]
  unfolding library_ok_def selection_ok_def participants_ok_def open_rooms_def log_ok_def by blast

theorem library_invariant_witness:
  "\<exists>db1 db2. runLibrary example_sha (Replace example_uuid example_replace) (migrated_db []) =
      (Inr (CastAnswer example_replaced), db1) \<and>
    runLibrary example_sha (Select example_select) db1 = db2 \<and>
    map event_sequence (room_events (snd db2) ''room-0'') = [1..<Suc (length (room_events (snd db2) ''room-0''))]"
proof -
  from run_example_replace obtain db1 where db1: "runLibrary example_sha (Replace example_uuid example_replace) (migrated_db []) =
      (Inr (CastAnswer example_replaced), db1)" by blast
  obtain x db2 where db2: "runLibrary example_sha (Select example_select) db1 = (x, db2)" by fastforce
  have "library_reachable example_sha db2"
    using library_reachable.migrated library_reachable.command db1 db2 by blast
  from library_invariant [OF this, of "''room-0''"] db1 db2 show ?thesis by simp
qed

section \<open>Commands are answered once\<close>

text \<open>
  A room selection or cast replacement that succeeded is answered with the same result,
  and without any further effect, when its request is sent again (even if other identifiers would be
  drawn), no matter what commands ran in between; and its request id is refused for a request of
  another digest, again without effect.
\<close>

theorem library_commands_answered_once:
  assumes "\<not> is_transaction db" and "runLibrary sha c db = (Inr answer, db1)"
    and "later = lib.run_all sha others db1"
  shows "(sent_again c c' \<longrightarrow> runLibrary sha c' later = (Inr answer, later)) \<and>
    (library_key_of c' = library_key_of c \<and> library_digest sha c' \<noteq> library_digest sha c \<longrightarrow>
       (\<exists>e. runLibrary sha c' later = (Inl e, later)))"
  using lib.answered_once [OF assms(1,2)] lib.id_not_reused [OF assms(1,2)] by (simp add: assms(3))

theorem library_commands_answered_once_witness:
  "\<exists>db1. runLibrary example_sha (Replace example_uuid example_replace) (migrated_db []) =
       (Inr (CastAnswer example_replaced), db1) \<and>
     runLibrary example_sha (Replace (\<lambda>_. ''other'') example_replace)
         (lib.run_all example_sha [Select example_select] db1) =
       (Inr (CastAnswer example_replaced), lib.run_all example_sha [Select example_select] db1)"
proof -
  from run_example_replace obtain db1 where db1: "runLibrary example_sha (Replace example_uuid example_replace) (migrated_db []) =
      (Inr (CastAnswer example_replaced), db1)" by blast
  from library_commands_answered_once [OF migrated_idle db1 refl, of "Replace (\<lambda>_. ''other'') example_replace" "[Select example_select]"] db1
  show ?thesis by simp
qed

text \<open>
  C25: the selection revision is a compare-and-set. A command that is carried out found the revision
  it expects and moved it up by one, the revision never falls, and after it every other command (one
  that is not a resent request) which expects that revision or an older one is refused without
  effect: of competing clients only the first wins.
\<close>

theorem one_change_per_revision:
  assumes "\<not> is_transaction db" and "runLibrary sha c db = (Inr answer, db1)"
    and "library_recorded db (library_key_of c) = None" and "later = lib.run_all sha others db1"
  shows "map_option snd (current_room db) = Some (library_expected c) \<and>
    map_option snd (current_room db1) = Some (library_expected c + 1) \<and>
    (\<exists>n. map_option snd (current_room later) = Some n \<and> library_expected c < n) \<and>
    (library_recorded later (library_key_of c') = None \<and> library_expected c' \<le> library_expected c \<longrightarrow>
       (\<exists>e. runLibrary sha c' later = (Inl e, later)))"
proof -
  note moved = lib.moves [OF assms(1,2,3)] and idle1 = lib.stays_idle [OF assms(1,2)]
  from moved have "map_option snd (current_room db1) = Some (Suc (library_expected c))" by blast
  from lib.run_all_revision [OF idle1 this, of sha others] moved lib.one_winner [OF assms(1,2,3), of others c']
  show ?thesis by (auto simp: assms(4))
qed

definition example_rival :: library_command where
  "example_rival = Select \<lparr>src_expectedRevision = JInt 0, src_requestId = ''r3'', src_roomId = ''first-playable''\<rparr>"

theorem one_change_per_revision_witness:
  "\<exists>db1 e. runLibrary example_sha (Select example_select) (migrated_db []) =
       (Inr (SelectionAnswer example_selected), db1) \<and>
     runLibrary example_sha example_rival db1 = (Inl e, db1)"
proof -
  from run_example_select obtain db1 where db1: "runLibrary example_sha (Select example_select) (migrated_db []) =
      (Inr (SelectionAnswer example_selected), db1)" by blast
  have fresh: "library_recorded (migrated_db []) k = None" for k
    by (cases k) (simp_all add: migrated_db_def recorded_result_def)
  have keys: "library_key_of example_rival \<noteq> library_key_of (Select example_select)"
    by (simp add: example_rival_def example_select_def)
  have "carried_out example_sha (Select example_select) (SelectionAnswer example_selected) (migrated_db []) db1"
    using library_step [OF migrated_idle db1] unfolding answered_from_record_def fresh by blast
  then have "library_recorded db1 (library_key_of example_rival) = None"
    unfolding carried_out_def using fresh keys by (metis fun_upd_other)
  moreover have "library_expected example_rival \<le> library_expected (Select example_select)"
    by (simp add: example_rival_def example_select_def)
  ultimately show ?thesis
    using one_change_per_revision [OF migrated_idle db1 fresh refl, where c' = example_rival and others = "[]"] db1 by auto
qed

section \<open>What a cast replacement does\<close>

lemma selected_cast_parts:
  "map sel_slug (selected_cast uuid ps) = map cpi_slug ps"
  "map sel_sortOrder (selected_cast uuid ps) = [1..<Suc (length ps)]"
  by (rule nth_equalityI; simp add: selected_cast_def nth_enumerate_eq del: upt_Suc)+

lemma new_participants_parts:
  "map part_kind (new_participants uuid ps) = Human # map (\<lambda>_. Persona) ps"
  "map persona_slug (new_participants uuid ps) = None # map (Some \<circ> cpi_slug) ps"
  "map sort_order (new_participants uuid ps) = [0..<Suc (length ps)]"
  "\<forall>p \<in> set (new_participants uuid ps). part_room p = ''room-'' @ uuid 0"
proof -
  have "length (selected_cast uuid ps) = length ps" by (simp add: selected_cast_def)
  then show "map part_kind (new_participants uuid ps) = Human # map (\<lambda>_. Persona) ps"
    by (simp add: new_participants_def map_replicate_const comp_def)
  show "map persona_slug (new_participants uuid ps) = None # map (Some \<circ> cpi_slug) ps"
    using arg_cong [OF selected_cast_parts(1) [of uuid ps], of "map Some"]
    by (simp add: new_participants_def comp_def)
  show "map sort_order (new_participants uuid ps) = [0..<Suc (length ps)]"
    using selected_cast_parts(2) [of uuid ps] by (simp add: new_participants_def comp_def upt_conv_Cons del: upt_Suc)
  show "\<forall>p \<in> set (new_participants uuid ps). part_room p = ''room-'' @ uuid 0"
    by (auto simp: new_participants_def)
qed

lemma replace_carried_out:
  assumes "\<not> is_transaction db" and "runLibrary sha (Replace uuid c) db = (Inr (CastAnswer res), db')"
    and "cast_commands db (rcc_requestId c) = None"
  obtains db1 t n db2 room where
    "startRoom uuid (rcc_personas c) (db\<lparr>is_transaction := True\<rparr>) = (Inr (selected_cast uuid (rcc_personas c)), db1)"
    "appendEventInTransaction (''room-'' @ uuid 0) (room_started_json (selected_cast uuid (rcc_personas c))) db1 = (Inr (t, n), db2)"
    "find_room db2 (''room-'' @ uuid 0) = Some room" "crr_room res = room_dto_of db2 room"
    "crr_sessionId res = ''room-'' @ uuid 0" "crr_selectedCast res = selected_cast uuid (rcc_personas c)"
    "db_rooms db' = db_rooms db2" "db_participants db' = db_participants db2" "db_events db' = db_events db2"
    "current_room db' = Some (''room-'' @ uuid 0, crr_selectionRevision res)"
proof -
  from assms(2) obtain db3 where tx: "replaceCastInTransaction uuid (rcc_requestId c) (library_expected (Replace uuid c))
      (rcc_personas c) (library_digest sha (Replace uuid c)) (db\<lparr>is_transaction := True\<rparr>) = (Inr res, db3)"
    and db': "db' = db3\<lparr>is_transaction := False\<rparr>"
    unfolding replaceCast_run [OF assms(1)] by blast
  from replaceCastInTransaction_ok [OF tx] assms(3) show ?thesis
    by (auto simp: db' intro!: that)
qed

text \<open>
  A cast replacement that is carried out starts a new room and selects it. The room did not exist before; it is
  active at generation 0 with the human first and the chosen personas after, in the order of the
  request; its log holds exactly the \<open>room_started\<close> event as entry 1; no other room, participant or log entry
  changes; and the answer describes the room as it is stored.
\<close>

theorem started_room:
  assumes "library_ok db" and "\<not> is_transaction db"
    and "runLibrary sha (Replace uuid c) db = (Inr (CastAnswer res), db')"
    and "cast_commands db (rcc_requestId c) = None"
  shows "find_room db (crr_sessionId res) = None \<and>
    current_room db' = Some (crr_sessionId res, crr_selectionRevision res) \<and>
    (\<exists>room. find_room db' (crr_sessionId res) = Some room \<and> room_status room = Active \<and>
       room_generation room = 0 \<and> next_event_sequence room = 2 \<and> crr_room res = room_dto_of db' room) \<and>
    map part_kind (room_participants db' (crr_sessionId res)) = Human # map (\<lambda>_. Persona) (rcc_personas c) \<and>
    map persona_slug (room_participants db' (crr_sessionId res)) = None # map (Some \<circ> cpi_slug) (rcc_personas c) \<and>
    log_entries db' (crr_sessionId res) = [(1, event_text (room_started_json (crr_selectedCast res)))] \<and>
    (\<forall>r. r \<noteq> crr_sessionId res \<longrightarrow> find_room db' r = find_room db r \<and>
       room_participants db' r = room_participants db r \<and> log_entries db' r = log_entries db r)"
proof -
  from replace_carried_out [OF assms(2-4)] obtain db1 t n db2 room where
    start: "startRoom uuid (rcc_personas c) (db\<lparr>is_transaction := True\<rparr>) = (Inr (selected_cast uuid (rcc_personas c)), db1)"
    and app: "appendEventInTransaction (''room-'' @ uuid 0) (room_started_json (selected_cast uuid (rcc_personas c))) db1 = (Inr (t, n), db2)"
    and res: "find_room db2 (''room-'' @ uuid 0) = Some room" "crr_room res = room_dto_of db2 room"
      "crr_sessionId res = ''room-'' @ uuid 0" "crr_selectedCast res = selected_cast uuid (rcc_personas c)"
    and rows: "db_rooms db' = db_rooms db2" "db_participants db' = db_participants db2" "db_events db' = db_events db2"
      "current_room db' = Some (''room-'' @ uuid 0, crr_selectionRevision res)" by metis
  let ?sid = "''room-'' @ uuid 0"
  note st = startRoom_ok [OF start] and ap = append_rooms [OF app]
  have free: "find_room db ?sid = None" using st by (simp add: find_room_def)
  have ok0: "log_ok (db\<lparr>is_transaction := True\<rparr>)" using assms(1) by (simp add: library_ok_def)
  have ok1: "log_ok db1" by (rule startRoom_log_ok [OF ok0 start])
  note log = appendEvent_log [OF ok1 app]
  have none: "room_events db ?sid = []" "\<forall>p \<in> set (db_participants db). part_room p \<noteq> ?sid"
    using assms(1) free by (auto simp: library_ok_def log_ok_def participants_ok_def room_events_def filter_empty_conv)
  have found: "find_room db1 r = (if r = ?sid then Some (new_room uuid (rcc_personas c) (db_clock db)) else find_room db r)" for r
    using st free by (auto simp: find_room_def find_append new_room_def split: option.splits)
  have parts: "room_participants db' r = (if r = ?sid then new_participants uuid (rcc_personas c) else room_participants db r)" for r
  proof -
    have "db_participants db' = db_participants db @ new_participants uuid (rcc_personas c)" using st ap(1) rows(2) by simp
    moreover have "sort_key sort_order (new_participants uuid (rcc_personas c)) = new_participants uuid (rcc_personas c)"
      using new_participants_parts(3) [of uuid "rcc_personas c"] by (intro sort_key_id_if_sorted) (simp del: upt_Suc)
    ultimately show ?thesis
      using none(2) new_participants_parts(4) [of uuid "rcc_personas c"]
      by (auto simp: room_participants_def filter_empty_conv intro!: arg_cong [where f = "sort_key sort_order"])
  qed
  have room: "room = room_after_append (next_activity_order db1) (new_room uuid (rcc_personas c) (db_clock db))"
    using res(1) ap(3) [of ?sid] found [of ?sid] by (simp add: new_room_def)
  have rest: "find_room db' r = find_room db r" if "r \<noteq> ?sid" for r
    using ap(3) [of r] found [of r] that find_room_cong [OF rows(1)]
    by (cases "find_room db r") (auto dest: find_room_Some)
  have entry: "t = event_text (room_started_json (crr_selectedCast res))"
    using app unfolding appendEventInTransaction_ok by (simp add: event_text_def res(4))
  have events: "room_events db1 r = room_events db r" "room_events db' r = room_events db2 r" for r
    using st rows(3) by (simp_all add: room_events_def)
  have new_log: "log_entries db' ?sid = [(1, t)]"
    using log [of ?sid] none(1) by (simp add: log_entries_def events)
  have other_logs: "log_entries db' r = log_entries db r" if "r \<noteq> ?sid" for r
    using log [of r] that by (simp add: log_entries_def events)
  have dto: "crr_room res = room_dto_of db' room"
    using res(2) rows(2) by (simp add: room_dto_of_def room_participants_def)
  have found': "find_room db' ?sid = Some room" using res(1) find_room_cong [OF rows(1)] by simp
  have fields: "room_status room = Active" "room_generation room = 0" "next_event_sequence room = 2"
    by (simp_all add: room room_after_append_def new_room_def)
  show ?thesis
    using free rows(4) found' fields dto new_log other_logs rest entry
    by (simp add: res(3) parts new_participants_parts)
qed

theorem started_room_witness:
  "\<exists>db1. runLibrary example_sha (Replace example_uuid example_replace) (migrated_db []) =
       (Inr (CastAnswer example_replaced), db1) \<and>
     map persona_slug (room_participants db1 ''room-0'') = [None, Some ''ada'', Some ''bob'']"
proof -
  from run_example_replace obtain db1 where db1: "runLibrary example_sha (Replace example_uuid example_replace) (migrated_db []) =
      (Inr (CastAnswer example_replaced), db1)" by blast
  have "cast_commands (migrated_db []) (rcc_requestId example_replace) = None" by (simp add: migrated_db_def)
  from started_room [OF migrated_library_ok migrated_idle db1 this] db1
  show ?thesis by (simp add: example_replaced_def example_replace_def)
qed

section \<open>The listing\<close>

text \<open>A stable sort by \<open>k\<close> of a list sorted by \<open>R\<close> is sorted by \<open>k\<close>, then \<open>R\<close>.\<close>

lemma insort_key_sorted_wrt:
  assumes "sorted_wrt (\<lambda>x y. k x < (k y :: 'k :: linorder) \<or> k x = k y \<and> R x y) ys" and "\<forall>y \<in> set ys. R x y"
  shows "sorted_wrt (\<lambda>x y. k x < k y \<or> k x = k y \<and> R x y) (insort_key k x ys)"
  using assms
proof (induction ys)
  case (Cons y ys)
  then show ?case by (auto simp: set_insort_key)
qed simp

lemma sort_key_sorted_wrt:
  "sorted_wrt R xs \<Longrightarrow> sorted_wrt (\<lambda>x y. k x < (k y :: 'k :: linorder) \<or> k x = k y \<and> R x y) (sort_key k xs)"
  by (induction xs) (simp_all add: insort_key_sorted_wrt)

lemma by_activity_sorted:
  "sorted_wrt (\<lambda>a b. activity_order b < activity_order a \<or> activity_order a = activity_order b \<and> room_id a \<le> room_id b)
     (by_activity rows)"
proof -
  have "sorted_wrt (\<lambda>a b. room_id a \<le> room_id b) (sort_key room_id rows)"
    using sorted_sort_key [of room_id rows] unfolding sorted_map .
  from sort_key_sorted_wrt [OF this, of "\<lambda>row. - int (activity_order row)"] show ?thesis
    by (auto simp: by_activity_def elim: sorted_wrt_mono_rel [rotated])
qed

lemma filter_one:
  "distinct (map f xs) \<Longrightarrow> a \<in> f ` set xs \<Longrightarrow> map f (filter (\<lambda>x. f x = a) xs) = [a]"
proof (induction xs)
  case (Cons x xs)
  show ?case
  proof (cases "f x = a")
    case True
    with Cons.prems have "filter (\<lambda>x. f x = a) xs = []" by (auto simp: filter_empty_conv image_iff)
    with True show ?thesis by simp
  next
    case False
    with Cons show ?thesis by auto
  qed
qed simp

lemma sum_id_of: "sum_id (summary_of db selected row) = room_id row"
  by (simp add: summary_of_def)

lemma by_activity_mset: "mset (by_activity rows) = mset rows"
  by (simp add: by_activity_def)

text \<open>
  The room list never fails and hides no room: under the invariant it shows every open room exactly
  once (so at most 100), most recently active first and by id among equals, and exactly the selected
  one is marked as selected.
\<close>

theorem listing_complete:
  assumes "library_ok db" and "current_room db = Some (selected, n)"
  shows "\<exists>xs. listRooms db = (Inr xs, db) \<and> length xs \<le> 100 \<and>
    distinct (map sum_id xs) \<and> set (map sum_id xs) = room_id ` {row \<in> set (db_rooms db). \<not> archived row} \<and>
    map sum_id (filter sum_selected xs) = [selected] \<and>
    sorted_wrt (\<lambda>x y. case (find_room db (sum_id x), find_room db (sum_id y)) of
       (Some a, Some b) \<Rightarrow> activity_order b < activity_order a \<or>
          (activity_order a = activity_order b \<and> sum_id x \<le> sum_id y)
      | _ \<Rightarrow> False) xs"
proof -
  let ?rows = "by_activity (open_rooms db)" and ?xs = "map (summary_of db selected) (by_activity (open_rooms db))"
  have ids: "distinct (map room_id (db_rooms db))"
    using assms(1) by (simp add: library_ok_def log_ok_def rooms_distinct_def)
  then have "distinct (map room_id (open_rooms db))" by (simp add: open_rooms_def distinct_map_filter)
  then have dist: "distinct (map room_id ?rows)"
    by (metis by_activity_mset mset_eq_imp_distinct_iff mset_map)
  have ids': "map sum_id ?xs = map room_id ?rows" by (simp add: summary_of_def comp_def)
  have sel: "selected \<in> room_id ` set ?rows"
    using assms by (force simp: library_ok_def selection_ok_def by_activity_perm open_rooms_def dest: find_room_Some)
  have "map sum_id (filter sum_selected ?xs) = map room_id (filter (\<lambda>row. room_id row = selected) ?rows)"
    by (simp add: summary_of_def filter_map comp_def)
  then have marked: "map sum_id (filter sum_selected ?xs) = [selected]" using filter_one [OF dist sel] by simp
  have found: "find_room db (room_id row) = Some row" if "row \<in> set ?rows" for row
    using find_room_of [OF _ ids, of row] that by (simp add: by_activity_perm open_rooms_def)
  have "sorted_wrt (\<lambda>a b. case (find_room db (room_id a), find_room db (room_id b)) of
       (Some a', Some b') \<Rightarrow> activity_order b' < activity_order a' \<or>
          (activity_order a' = activity_order b' \<and> room_id a \<le> room_id b)
      | _ \<Rightarrow> False) ?rows"
    by (rule sorted_wrt_mono_rel [OF _ by_activity_sorted]) (simp add: found)
  then have sorted: "sorted_wrt (\<lambda>x y. case (find_room db (sum_id x), find_room db (sum_id y)) of
       (Some a, Some b) \<Rightarrow> activity_order b < activity_order a \<or>
          (activity_order a = activity_order b \<and> sum_id x \<le> sum_id y)
      | _ \<Rightarrow> False) ?xs"
    by (simp only: sorted_wrt_map sum_id_of)
  have dist': "distinct (map sum_id ?xs)" unfolding ids' by (rule dist)
  have "length ?xs \<le> 100"
    using assms(1) by (simp add: by_activity_perm library_ok_def ROOM_LIBRARY_LIMIT_def)
  moreover have "set (map sum_id ?xs) = room_id ` {row \<in> set (db_rooms db). \<not> archived row}"
    unfolding ids' by (simp add: by_activity_perm open_rooms_def)
  ultimately show ?thesis
    using listRooms_ok [OF assms] dist' marked sorted by (intro exI conjI)
qed

theorem listing_complete_witness:
  "\<exists>xs. listRooms (migrated_db []) = (Inr xs, migrated_db []) \<and> map sum_id (filter sum_selected xs) = [''first-playable'']"
proof -
  have "current_room (migrated_db []) = Some (''first-playable'', 0)" by (simp add: migrated_db_def)
  from listing_complete [OF migrated_library_ok this] show ?thesis
    by (elim exE conjE, intro exI conjI)
qed

end
