(* ===== verification/Revision_Store.thy ===== *)
theory Revision_Store
  imports Database
begin

text \<open>
  Append-only tables of numbered revisions: the connection profiles, model profiles and room
  bindings of \<open>migrations/0008-provider-profiles.sql\<close> are three of them. The reads, the trigger that
  keeps revisions contiguous and what the tables promise (locale \<open>revision_lineage\<close>).
\<close>

section \<open>Reading\<close>

definition rows_of :: "('r \<Rightarrow> string) \<Rightarrow> string \<Rightarrow> 'r list \<Rightarrow> 'r list" where
  "rows_of key i rows = filter (\<lambda>r. key r = i) rows"

text \<open>\<open>ORDER BY revision DESC LIMIT 1\<close>\<close>

fun newest :: "('r \<Rightarrow> int) \<Rightarrow> 'r list \<Rightarrow> 'r option" where
  "newest rev_no [] = None"
| "newest rev_no (r # rs) =
     (case newest rev_no rs of None \<Rightarrow> Some r | Some s \<Rightarrow> if rev_no s < rev_no r then Some r else Some s)"

text \<open>\<open>SELECT max(revision)\<close>\<close>

definition latestRevision :: "('r \<Rightarrow> int) \<Rightarrow> 'r list \<Rightarrow> int option" where
  "latestRevision rev_no rows = map_option rev_no (newest rev_no rows)"

definition exact_row :: "('r \<Rightarrow> string) \<Rightarrow> ('r \<Rightarrow> int) \<Rightarrow> 'r list \<Rightarrow> string \<Rightarrow> int \<Rightarrow> 'r option" where
  "exact_row key rev_no rows i n = find (\<lambda>r. key r = i \<and> rev_no r = n) rows"

definition current_row :: "('r \<Rightarrow> string) \<Rightarrow> ('r \<Rightarrow> int) \<Rightarrow> 'r list \<Rightarrow> string \<Rightarrow> 'r option" where
  "current_row key rev_no rows i = newest rev_no (rows_of key i rows)"

text \<open>The triggers \<open>..._revisions_are_contiguous\<close>.\<close>

definition next_revision :: "('r \<Rightarrow> string) \<Rightarrow> ('r \<Rightarrow> int) \<Rightarrow> 'r list \<Rightarrow> 'r \<Rightarrow> bool" where
  "next_revision key rev_no rows r \<longleftrightarrow>
     rev_no r = (case latestRevision rev_no (rows_of key (key r) rows) of None \<Rightarrow> 1 | Some n \<Rightarrow> n + 1)"

section \<open>Contiguous revisions\<close>

definition contiguous :: "('r \<Rightarrow> int) \<Rightarrow> 'r list \<Rightarrow> bool" where
  "contiguous rev_no rows \<longleftrightarrow> map rev_no rows = map (\<lambda>k. int k + 1) [0..<length rows]"

lemma newest_snoc: "\<forall>x \<in> set xs. rev_no x < rev_no r \<Longrightarrow> newest rev_no (xs @ [r]) = Some r"
  by (induction xs) auto

lemma newest_in: "newest rev_no rows = Some r \<Longrightarrow> r \<in> set rows"
  by (induction rows arbitrary: r) (auto split: option.splits if_splits)

lemma newest_None [simp]: "newest rev_no rows = None \<longleftrightarrow> rows = []"
  by (cases rows) (auto split: option.splits)

lemma contiguous_nth:
  assumes "contiguous rev_no rows" and "k < length rows"
  shows "rev_no (rows ! k) = int k + 1"
proof -
  have "map rev_no rows ! k = map (\<lambda>k. int k + 1) [0..<length rows] ! k"
    using assms(1) by (simp add: contiguous_def)
  with assms(2) show ?thesis by simp
qed

lemma contiguous_newest:
  assumes "contiguous rev_no rows" and "rows \<noteq> []"
  shows "newest rev_no rows = Some (last rows) \<and> rev_no (last rows) = int (length rows)"
proof -
  have len: "0 < length rows" using assms(2) by simp
  have last: "rev_no (last rows) = int (length rows)"
    using contiguous_nth [OF assms(1), of "length rows - 1"] len by (simp add: last_conv_nth assms(2))
  have "rev_no x < rev_no (last rows)" if "x \<in> set (butlast rows)" for x
  proof -
    from that obtain k where k: "k < length rows - 1" "x = rows ! k"
      by (auto simp: in_set_conv_nth nth_butlast)
    have "rev_no x = int k + 1" using contiguous_nth [OF assms(1), of k] k by simp
    with k(1) last show ?thesis by simp
  qed
  then have "newest rev_no (butlast rows @ [last rows]) = Some (last rows)" by (intro newest_snoc) blast
  with last show ?thesis using assms(2) by simp
qed

lemma latest_contiguous:
  "contiguous rev_no rows \<Longrightarrow> latestRevision rev_no rows = (if rows = [] then None else Some (int (length rows)))"
  using contiguous_newest by (auto simp: latestRevision_def)

lemma contiguous_snoc:
  "contiguous rev_no rows \<Longrightarrow> rev_no r = int (length rows) + 1 \<Longrightarrow> contiguous rev_no (rows @ [r])"
  by (simp add: contiguous_def)

lemma exact_append: "exact_row key rev_no rows i n = Some r \<Longrightarrow> exact_row key rev_no (rows @ xs) i n = Some r"
  by (induction rows) (auto simp: exact_row_def)

lemma exact_rows_of:
  "exact_row key rev_no rows i n = find (\<lambda>r. rev_no r = n) (rows_of key i rows)"
  by (induction rows) (auto simp: exact_row_def rows_of_def)

lemma exact_contiguous:
  assumes "contiguous rev_no (rows_of key i rows)"
  shows "exact_row key rev_no rows i n = Some r \<longleftrightarrow>
    (\<exists>k < length (rows_of key i rows). n = int k + 1 \<and> r = rows_of key i rows ! k)"
proof -
  note at = contiguous_nth [OF assms]
  show ?thesis
    unfolding exact_rows_of find_Some_iff using at by (fastforce intro: less_trans)
qed

section \<open>What such a table promises\<close>

locale revision_lineage =
  fixes insert_row :: "'r \<Rightarrow> 's \<Rightarrow> 's option"
    and table :: "'s \<Rightarrow> 'r list"
    and key :: "'r \<Rightarrow> string"
    and rev_no :: "'r \<Rightarrow> int"
  assumes insert_appends: "insert_row r s = Some s' \<Longrightarrow> table s' = table s @ [r]"
    and insert_next: "insert_row r s = Some s' \<Longrightarrow> next_revision key rev_no (table s) r"
begin

definition lineage_ok :: "'s \<Rightarrow> bool" where
  "lineage_ok s \<longleftrightarrow> (\<forall>i. contiguous rev_no (rows_of key i (table s)))"

lemma rows_of_insert:
  "insert_row r s = Some s' \<Longrightarrow>
   rows_of key i (table s') = (if i = key r then rows_of key i (table s) @ [r] else rows_of key i (table s))"
  using insert_appends by (simp add: rows_of_def)

lemma insert_lineage:
  assumes "lineage_ok s" and "insert_row r s = Some s'"
  shows "lineage_ok s'"
proof -
  have c: "contiguous rev_no (rows_of key i (table s))" for i using assms(1) by (simp add: lineage_ok_def)
  have "rev_no r = int (length (rows_of key (key r) (table s))) + 1"
    using insert_next [OF assms(2)] latest_contiguous [OF c, of "key r"] by (auto simp: next_revision_def split: if_splits)
  with c show ?thesis unfolding lineage_ok_def rows_of_insert [OF assms(2)] by (simp add: contiguous_snoc)
qed

text \<open>The current revision is the last, numbered by how many there are.\<close>

lemma current_last:
  "lineage_ok s \<Longrightarrow> current_row key rev_no (table s) i = Some r \<Longrightarrow>
   r = last (rows_of key i (table s)) \<and> rev_no r = int (length (rows_of key i (table s)))"
  using contiguous_newest unfolding lineage_ok_def current_row_def
  by (metis newest.simps(1) option.distinct(1) option.inject)

lemma exact_bounded:
  "lineage_ok s \<Longrightarrow> exact_row key rev_no (table s) i n = Some r \<Longrightarrow>
   1 \<le> n \<and> n \<le> int (length (rows_of key i (table s)))"
  using exact_contiguous [of rev_no key i "table s" n r] by (auto simp: lineage_ok_def)

lemma current_exact:
  "lineage_ok s \<Longrightarrow> current_row key rev_no (table s) i = Some r \<Longrightarrow> exact_row key rev_no (table s) i (rev_no r) = Some r"
proof -
  assume ok: "lineage_ok s" and cur: "current_row key rev_no (table s) i = Some r"
  have "rows_of key i (table s) \<noteq> []" using cur by (auto simp: current_row_def)
  then have "int (length (rows_of key i (table s)) - Suc 0) + 1 = int (length (rows_of key i (table s)))"
    by (cases "rows_of key i (table s)") auto
  moreover have "rows_of key i (table s) \<noteq> []" using cur by (auto simp: current_row_def)
  ultimately show ?thesis using current_last [OF ok cur]
    using ok exact_contiguous [of rev_no key i "table s"]
    by (auto simp: lineage_ok_def last_conv_nth intro!: exI [of _ "length (rows_of key i (table s)) - 1"])
qed

text \<open>Any run of insertions.\<close>

inductive later :: "'s \<Rightarrow> 's \<Rightarrow> bool" where
  same: "table s' = table s \<Longrightarrow> later s s'"
| inserted: "later s s1 \<Longrightarrow> insert_row r s1 = Some s2 \<Longrightarrow> table s' = table s2 \<Longrightarrow> later s s'"

lemma later_table: "later s s' \<Longrightarrow> table s'' = table s' \<Longrightarrow> later s s''"
  by (induction rule: later.induct) (auto intro: later.intros)

lemma later_lineage: "later s s' \<Longrightarrow> lineage_ok s \<Longrightarrow> lineage_ok s'"
proof (induction rule: later.induct)
  case (same s' s)
  then show ?case by (simp add: lineage_ok_def)
next
  case (inserted s s1 r s2 s')
  then have "lineage_ok s2" using insert_lineage by blast
  with inserted.hyps(3) show ?case by (simp add: lineage_ok_def)
qed

lemma later_appends: "later s s' \<Longrightarrow> \<exists>xs. table s' = table s @ xs"
  by (induction rule: later.induct) (auto dest: insert_appends)

text \<open>Revisions never change or disappear, and one that is no longer current never is again.\<close>

lemma later_exact: "later s s' \<Longrightarrow> exact_row key rev_no (table s) i n = Some r \<Longrightarrow> exact_row key rev_no (table s') i n = Some r"
  using later_appends exact_append by metis

lemma later_length: "later s s' \<Longrightarrow> length (rows_of key i (table s)) \<le> length (rows_of key i (table s'))"
  using later_appends by (fastforce simp: rows_of_def)

lemma superseded:
  assumes "lineage_ok s" and "current_row key rev_no (table s) i = Some r" and "n < rev_no r" and "later s s'"
    and "current_row key rev_no (table s') i = Some r'"
  shows "n < rev_no r'"
  using current_last [OF assms(1,2)] current_last [OF later_lineage [OF assms(4,1)] assms(5)]
    later_length [OF assms(4), of i] assms(3) by linarith

end

end
