(* ===== verification/Profiles.thy ===== *)
theory Profiles
  imports Revision_Store Events Cast_Dto
begin

text \<open>
  Connection profiles, model profiles and capability observations in the database
  (\<open>src/db/provider-profiles.ts\<close>), with the constraints and triggers of
  \<open>migrations/0008-provider-profiles.sql\<close>. A profile is never changed: revising, disabling or
  deleting it appends a revision.
\<close>

section \<open>Types\<close>

record connection_revision =
  cr_state :: profile_state
  cr_profile :: connection_profile

record model_revision =
  mr_state :: profile_state
  mr_profile :: model_profile

record provider_observation =
  po_id :: string
  po_connection :: profile_revision_ref
  po_health :: string
  po_fingerprint :: string
  po_evidence :: jval

definition OBSERVATION_EVIDENCE_FIELDS :: "string list" where
  "OBSERVATION_EVIDENCE_FIELDS = [''chat'', ''jsonOutput'', ''streaming'', ''systemMessages'']"

fun state_text :: "profile_state \<Rightarrow> string" where
  "state_text Enabled = ''enabled''"
| "state_text Disabled = ''disabled''"
| "state_text Deleted = ''deleted''"

section \<open>Constraints of the tables\<close>

definition ascii_lower :: "string \<Rightarrow> string" where
  "ascii_lower s = map (\<lambda>c. if 65 \<le> (of_char c :: nat) \<and> (of_char c :: nat) \<le> 90
                            then char_of ((of_char c :: nat) + 32) else c) s"

definition secret_keys :: "string list" where
  "secret_keys = [''credential'', ''apikey'', ''api_key'', ''authorization'', ''secret'', ''token'']"

definition has_key_of :: "string list \<Rightarrow> jval \<Rightarrow> bool" where
  "has_key_of ks v \<longleftrightarrow> (\<exists>k \<in> set (all_keys v). ascii_lower k \<in> set ks)"

text \<open>\<open>length(id) BETWEEN 1 AND 128 AND id GLOB '[a-z]*' AND id NOT GLOB '*[^a-z0-9._-]*'\<close>\<close>

definition sql_id :: "string \<Rightarrow> bool" where
  "sql_id i \<longleftrightarrow> i \<noteq> [] \<and> length i \<le> 128 \<and> lower_alpha (hd i) \<and>
     (\<forall>c \<in> set i. lower_alnum c \<or> c \<in> {CHR ''.'', CHR ''_'', CHR ''-''})"

definition sql_object :: "string \<Rightarrow> nat \<Rightarrow> jval option" where
  "sql_object t maximum =
     (case json_parse t of Some (JObj fs) \<Rightarrow> if length t \<le> maximum then Some (JObj fs) else None | _ \<Rightarrow> None)"

definition connection_row_ok :: "connection_row \<Rightarrow> bool" where
  "connection_row_ok r \<longleftrightarrow> sql_id (crow_id r) \<and> 1 \<le> crow_revision r \<and> crow_revision r \<le> MAX_REVISION \<and>
     (case sql_object (crow_json r) 8192 of
        None \<Rightarrow> False
      | Some v \<Rightarrow> jget ''id'' v = JStr (crow_id r) \<and> jget ''revision'' v = JInt (crow_revision r) \<and>
          (crow_state r = Enabled \<or> jget ''credentialRef'' v = JUndefined) \<and>
          jget ''credentialRef'' v \<in> {JUndefined, JStr (credential_ref_of (crow_id r) (crow_revision r))} \<and>
          \<not> has_key_of secret_keys v)"

definition model_row_ok :: "model_row \<Rightarrow> bool" where
  "model_row_ok r \<longleftrightarrow> sql_id (mrow_id r) \<and> 1 \<le> mrow_revision r \<and> mrow_revision r \<le> MAX_REVISION \<and>
     (case sql_object (mrow_json r) 16384 of
        None \<Rightarrow> False
      | Some v \<Rightarrow> jget ''id'' v = JStr (mrow_id r) \<and> jget ''revision'' v = JInt (mrow_revision r) \<and>
          jget ''profileId'' (jget ''connection'' v) = JStr (fst (mrow_connection r)) \<and>
          jget ''revision'' (jget ''connection'' v) = JInt (snd (mrow_connection r)) \<and>
          \<not> has_key_of (''credentialref'' # secret_keys) v)"

definition observation_row_ok :: "observation_row \<Rightarrow> bool" where
  "observation_row_ok r \<longleftrightarrow> obs_id r \<noteq> [] \<and> length (obs_id r) \<le> 128 \<and>
     (hd (obs_id r) \<noteq> CHR '' '' \<and> last (obs_id r) \<noteq> CHR '' '') \<and>
     obs_health r \<in> {''ready'', ''degraded'', ''failed''} \<and> sha256_fingerprint (obs_fingerprint r) \<and>
     (case sql_object (obs_evidence r) 16384 of
        Some (JObj fs) \<Rightarrow> (\<forall>p \<in> set fs. fst p \<in> set OBSERVATION_EVIDENCE_FIELDS \<and> snd p \<in> {JBool True, JBool False})
      | _ \<Rightarrow> False)"

section \<open>Inserting\<close>

definition exact_connection :: "db \<Rightarrow> string \<times> int \<Rightarrow> connection_row option" where
  "exact_connection db ref = exact_row crow_id crow_revision (db_connections db) (fst ref) (snd ref)"

definition exact_model :: "db \<Rightarrow> string \<times> int \<Rightarrow> model_row option" where
  "exact_model db ref = exact_row mrow_id mrow_revision (db_models db) (fst ref) (snd ref)"

definition insertConnection :: "connection_row \<Rightarrow> unit action" where
  "insertConnection r =
     bindA (queryA (\<lambda>db. next_revision crow_id crow_revision (db_connections db) r)) (\<lambda>follows.
     bindA (queryA (\<lambda>db. exact_connection db (crow_id r, crow_revision r) = None)) (\<lambda>free.
     bindA (requireA follows (SqlError ''connection profile revision gap or conflict'')) (\<lambda>_.
     bindA (requireA (connection_row_ok r) (SqlError ''CHECK constraint failed: connection_profile_revisions'')) (\<lambda>_.
     bindA (requireA free (SqlError ''UNIQUE constraint failed: connection_profile_revisions'')) (\<lambda>_.
       updateA (\<lambda>db. db\<lparr>db_connections := db_connections db @ [r]\<rparr>))))))"

definition insertModel :: "model_row \<Rightarrow> unit action" where
  "insertModel r =
     bindA (queryA (\<lambda>db. next_revision mrow_id mrow_revision (db_models db) r)) (\<lambda>follows.
     bindA (queryA (\<lambda>db. exact_model db (mrow_id r, mrow_revision r) = None)) (\<lambda>free.
     bindA (queryA (\<lambda>db. exact_connection db (mrow_connection r) \<noteq> None)) (\<lambda>fk.
     bindA (requireA follows (SqlError ''model profile revision gap or conflict'')) (\<lambda>_.
     bindA (requireA (model_row_ok r) (SqlError ''CHECK constraint failed: model_profile_revisions'')) (\<lambda>_.
     bindA (requireA free (SqlError ''UNIQUE constraint failed: model_profile_revisions'')) (\<lambda>_.
     bindA (requireA fk (SqlError ''FOREIGN KEY constraint failed'')) (\<lambda>_.
       updateA (\<lambda>db. db\<lparr>db_models := db_models db @ [r]\<rparr>))))))))"

definition insertObservation :: "observation_row \<Rightarrow> unit action" where
  "insertObservation r =
     bindA (queryA (\<lambda>db. \<forall>q \<in> set (db_observations db). obs_id q \<noteq> obs_id r)) (\<lambda>free.
     bindA (queryA (\<lambda>db. exact_connection db (obs_connection r) \<noteq> None)) (\<lambda>fk.
     bindA (requireA (observation_row_ok r) (SqlError ''CHECK constraint failed: provider_observations'')) (\<lambda>_.
     bindA (requireA free (SqlError ''UNIQUE constraint failed: provider_observations.id'')) (\<lambda>_.
     bindA (requireA fk (SqlError ''FOREIGN KEY constraint failed'')) (\<lambda>_.
       updateA (\<lambda>db. db\<lparr>db_observations := db_observations db @ [r]\<rparr>))))))"

section \<open>Connection profiles\<close>

text \<open>\<open>parse(JSON.parse(text))\<close>\<close>

definition parse_text :: "(jval \<Rightarrow> js_error + 'a) \<Rightarrow> string \<Rightarrow> js_error + 'a" where
  "parse_text parse t = (case json_parse t of None \<Rightarrow> Inl (PlainError ''SyntaxError'') | Some v \<Rightarrow> parse v)"

definition frozenConnection :: "connection_row option \<Rightarrow> js_error + connection_revision option" where
  "frozenConnection row =
     (case row of
        None \<Rightarrow> Inr None
      | Some r \<Rightarrow> bindE (parse_text parseConnectionProfile (crow_json r)) (\<lambda>p.
          Inr (Some \<lparr>cr_state = crow_state r, cr_profile = p\<rparr>)))"

definition frozenModel :: "model_row option \<Rightarrow> js_error + model_revision option" where
  "frozenModel row =
     (case row of
        None \<Rightarrow> Inr None
      | Some r \<Rightarrow> bindE (parse_text parseModelProfile (mrow_json r)) (\<lambda>p.
          Inr (Some \<lparr>mr_state = mrow_state r, mr_profile = p\<rparr>)))"

definition readConnectionProfile :: "string \<Rightarrow> int \<Rightarrow> connection_revision option action" where
  "readConnectionProfile profileId n =
     bindA (queryA (\<lambda>db. exact_connection db (profileId, n))) (\<lambda>row. liftA (frozenConnection row))"

definition readCurrentConnectionProfile :: "string \<Rightarrow> connection_revision option action" where
  "readCurrentConnectionProfile profileId =
     bindA (queryA (\<lambda>db. current_row crow_id crow_revision (db_connections db) profileId)) (\<lambda>row.
       liftA (frozenConnection row))"

text \<open>\<open>INSERT INTO connection_profile_revisions\<close> of a profile, and what the operations return.\<close>

definition storeConnection :: "profile_state \<Rightarrow> connection_profile \<Rightarrow> connection_revision action" where
  "storeConnection state p =
     bindA (liftA (canonicalJson (connection_json p))) (\<lambda>t.
     bindA (insertConnection \<lparr>crow_id = cp_id p, crow_revision = cp_revision p, crow_state = state, crow_json = t\<rparr>) (\<lambda>_.
       returnA \<lparr>cr_state = state, cr_profile = p\<rparr>))"

definition createConnectionProfile :: "jval \<Rightarrow> connection_revision action" where
  "createConnectionProfile v =
     bindA (liftA (parseConnectionProfile v)) (\<lambda>p.
     bindA (requireA (cp_revision p = 1) (PlainError ''Connection profile must start at revision 1'')) (\<lambda>_.
       withImmediateTransaction (
         bindA (queryA (\<lambda>db. latestRevision crow_revision (rows_of crow_id (cp_id p) (db_connections db)))) (\<lambda>latest.
         bindA (requireA (latest = None) (PlainError ''Connection profile already exists'')) (\<lambda>_.
           storeConnection Enabled p)))))"

definition reviseConnectionProfile :: "jval \<Rightarrow> int \<Rightarrow> connection_revision action" where
  "reviseConnectionProfile v expectedRevision =
     bindA (liftA (parseConnectionProfile v)) (\<lambda>p.
       withImmediateTransaction (
         bindA (readCurrentConnectionProfile (cp_id p)) (\<lambda>found.
         bindA (someA found (PlainError ''Connection profile does not exist'')) (\<lambda>current.
         bindA (requireA (cr_state current \<noteq> Deleted) (PlainError ''Connection profile does not exist'')) (\<lambda>_.
         bindA (requireA (cp_revision (cr_profile current) = expectedRevision \<and> cp_revision p = expectedRevision + 1)
                 (PlainError ''Connection profile revision conflict'')) (\<lambda>_.
           storeConnection Enabled p))))))"

definition transitionConnection :: "string \<Rightarrow> int option \<Rightarrow> profile_state \<Rightarrow> connection_revision action" where
  "transitionConnection profileId expectedRevision state =
     withImmediateTransaction (
       bindA (readCurrentConnectionProfile profileId) (\<lambda>found.
       bindA (someA found (PlainError ''Connection profile does not exist'')) (\<lambda>current.
         if state = Deleted \<and> cr_state current = Deleted then returnA current
         else
           bindA (requireA (expectedRevision = Some (cp_revision (cr_profile current)))
                   (PlainError ''Connection profile revision conflict'')) (\<lambda>_.
           bindA (liftA (parseConnectionProfile (connection_json
                   \<lparr>cp_id = cp_id (cr_profile current), cp_revision = cp_revision (cr_profile current) + 1,
                    cp_target = cp_target (cr_profile current), credentialRef = None, mutationId = None\<rparr>))) (\<lambda>p.
             storeConnection state p)))))"

definition disableConnectionProfile :: "string \<Rightarrow> int \<Rightarrow> connection_revision action" where
  "disableConnectionProfile profileId expectedRevision =
     transitionConnection profileId (Some expectedRevision) Disabled"

definition deleteConnectionProfile :: "string \<Rightarrow> int option \<Rightarrow> connection_revision action" where
  "deleteConnectionProfile profileId expectedRevision = transitionConnection profileId expectedRevision Deleted"

section \<open>Model profiles\<close>

definition readModelProfile :: "string \<Rightarrow> int \<Rightarrow> model_revision option action" where
  "readModelProfile profileId n =
     bindA (queryA (\<lambda>db. exact_model db (profileId, n))) (\<lambda>row. liftA (frozenModel row))"

definition readCurrentModelProfile :: "string \<Rightarrow> model_revision option action" where
  "readCurrentModelProfile profileId =
     bindA (queryA (\<lambda>db. current_row mrow_id mrow_revision (db_models db) profileId)) (\<lambda>row.
       liftA (frozenModel row))"

definition requireCurrentEnabledConnection :: "profile_revision_ref \<Rightarrow> unit action" where
  "requireCurrentEnabledConnection ref =
     bindA (readConnectionProfile (ref_profileId ref) (ref_revision ref)) (\<lambda>found.
     bindA (someA found (PlainError ''Model profile connection revision does not exist'')) (\<lambda>exact.
     bindA (requireA (cr_state exact = Enabled)
             (PlainError (''Model profile connection revision is '' @ state_text (cr_state exact)))) (\<lambda>_.
     bindA (readCurrentConnectionProfile (ref_profileId ref)) (\<lambda>current.
       requireA (map_option (\<lambda>c. cp_revision (cr_profile c)) current = Some (ref_revision ref))
         (PlainError ''Model profile connection revision is stale'')))))"

definition storeModel :: "profile_state \<Rightarrow> model_profile \<Rightarrow> model_revision action" where
  "storeModel state p =
     bindA (liftA (canonicalJson (model_json p))) (\<lambda>t.
     bindA (insertModel \<lparr>mrow_id = mp_id p, mrow_revision = mp_revision p, mrow_state = state,
              mrow_connection = (ref_profileId (mp_connection p), ref_revision (mp_connection p)), mrow_json = t\<rparr>) (\<lambda>_.
       returnA \<lparr>mr_state = state, mr_profile = p\<rparr>))"

definition createModelProfile :: "jval \<Rightarrow> model_revision action" where
  "createModelProfile v =
     bindA (liftA (parseModelProfile v)) (\<lambda>p.
     bindA (requireA (mp_revision p = 1) (PlainError ''Model profile must start at revision 1'')) (\<lambda>_.
       withImmediateTransaction (
         bindA (queryA (\<lambda>db. latestRevision mrow_revision (rows_of mrow_id (mp_id p) (db_models db)))) (\<lambda>latest.
         bindA (requireA (latest = None) (PlainError ''Model profile already exists'')) (\<lambda>_.
         bindA (requireCurrentEnabledConnection (mp_connection p)) (\<lambda>_.
           storeModel Enabled p))))))"

definition reviseModelProfile :: "jval \<Rightarrow> int \<Rightarrow> model_revision action" where
  "reviseModelProfile v expectedRevision =
     bindA (liftA (parseModelProfile v)) (\<lambda>p.
       withImmediateTransaction (
         bindA (readCurrentModelProfile (mp_id p)) (\<lambda>found.
         bindA (someA found (PlainError ''Model profile does not exist'')) (\<lambda>current.
         bindA (requireA (mr_state current \<noteq> Deleted) (PlainError ''Model profile does not exist'')) (\<lambda>_.
         bindA (requireA (mp_revision (mr_profile current) = expectedRevision \<and> mp_revision p = expectedRevision + 1)
                 (PlainError ''Model profile revision conflict'')) (\<lambda>_.
         bindA (requireCurrentEnabledConnection (mp_connection p)) (\<lambda>_.
           storeModel Enabled p)))))))"

definition transitionModel :: "string \<Rightarrow> int option \<Rightarrow> profile_state \<Rightarrow> model_revision action" where
  "transitionModel profileId expectedRevision state =
     withImmediateTransaction (
       bindA (readCurrentModelProfile profileId) (\<lambda>found.
       bindA (someA found (PlainError ''Model profile does not exist'')) (\<lambda>current.
         if state = Deleted \<and> mr_state current = Deleted then returnA current
         else
           bindA (requireA (expectedRevision = Some (mp_revision (mr_profile current)))
                   (PlainError ''Model profile revision conflict'')) (\<lambda>_.
           bindA (liftA (parseModelProfile (model_json
                   ((mr_profile current)\<lparr>mp_revision := mp_revision (mr_profile current) + 1\<rparr>)))) (\<lambda>p.
             storeModel state p)))))"

definition disableModelProfile :: "string \<Rightarrow> int \<Rightarrow> model_revision action" where
  "disableModelProfile profileId expectedRevision = transitionModel profileId (Some expectedRevision) Disabled"

definition deleteModelProfile :: "string \<Rightarrow> int option \<Rightarrow> model_revision action" where
  "deleteModelProfile profileId expectedRevision = transitionModel profileId expectedRevision Deleted"

section \<open>Observations\<close>

text \<open>\<open>evidence[key] = descriptor.value\<close> for every own key, refusing other keys and values.\<close>

definition validateEvidence :: "jval \<Rightarrow> js_error + jval" where
  "validateEvidence v =
     (case v of
        JObj fs \<Rightarrow>
          if \<exists>p \<in> set fs. fst p \<notin> set OBSERVATION_EVIDENCE_FIELDS \<or> snd p \<notin> {JBool True, JBool False}
          then Inl (TypeError ''Observation evidence contains an unknown or invalid field'')
          else bindE (canonicalJson v) (\<lambda>t.
            if length t > 16384 then Inl (TypeError ''Observation evidence is oversized'')
            else parse_text Inr t)
      | _ \<Rightarrow> Inl (TypeError ''Observation evidence must be a plain object''))"

definition validateObservation :: "provider_observation \<Rightarrow> js_error + provider_observation" where
  "validateObservation ob =
     (if po_id ob = [] \<or> length (po_id ob) > 128 \<or> js_trim (po_id ob) \<noteq> po_id ob
      then Inl (TypeError ''Observation id must be a canonical bounded identifier'')
      else if \<not> id_pattern (ref_profileId (po_connection ob)) \<or> ref_revision (po_connection ob) < 1
      then Inl (TypeError ''Observation connection reference is invalid'')
      else if po_health ob \<notin> {''ready'', ''degraded'', ''failed''}
      then Inl (TypeError ''Observation health is invalid'')
      else if \<not> sha256_fingerprint (po_fingerprint ob)
      then Inl (TypeError ''Observation capability fingerprint is invalid'')
      else bindE (validateEvidence (po_evidence ob)) (\<lambda>evidence. Inr (ob\<lparr>po_evidence := evidence\<rparr>)))"

definition observeConnection :: "provider_observation \<Rightarrow> provider_observation action" where
  "observeConnection value =
     bindA (liftA (validateObservation value)) (\<lambda>ob.
       withImmediateTransaction (
         bindA (readConnectionProfile (ref_profileId (po_connection ob)) (ref_revision (po_connection ob))) (\<lambda>found.
         bindA (someA found (PlainError ''Observation connection revision does not exist'')) (\<lambda>connection.
         bindA (requireA (cr_state connection \<noteq> Deleted) (PlainError ''Observation connection revision is deleted'')) (\<lambda>_.
         bindA (liftA (canonicalJson (po_evidence ob))) (\<lambda>t.
         bindA (insertObservation \<lparr>obs_id = po_id ob,
                  obs_connection = (ref_profileId (po_connection ob), ref_revision (po_connection ob)),
                  obs_health = po_health ob, obs_fingerprint = po_fingerprint ob, obs_evidence = t\<rparr>) (\<lambda>_.
           returnA ob)))))))"

definition observationFromRow :: "observation_row option \<Rightarrow> js_error + provider_observation option" where
  "observationFromRow row =
     (case row of
        None \<Rightarrow> Inr None
      | Some r \<Rightarrow>
          bindE (parse_text Inr (obs_evidence r)) (\<lambda>evidence.
          bindE (validateObservation
              \<lparr>po_id = obs_id r,
               po_connection = \<lparr>ref_profileId = fst (obs_connection r), ref_revision = snd (obs_connection r)\<rparr>,
               po_health = obs_health r, po_fingerprint = obs_fingerprint r, po_evidence = evidence\<rparr>) (\<lambda>ob.
            Inr (Some ob))))"

definition readConnectionObservation :: "string \<Rightarrow> provider_observation option action" where
  "readConnectionObservation i =
     bindA (queryA (\<lambda>db. find (\<lambda>r. obs_id r = i) (db_observations db))) (\<lambda>row. liftA (observationFromRow row))"

text \<open>\<open>ORDER BY observation_sequence DESC LIMIT 1\<close>: the last row inserted.\<close>

definition readLatestConnectionObservation :: "profile_revision_ref \<Rightarrow> provider_observation option action" where
  "readLatestConnectionObservation ref =
     bindA (queryA (\<lambda>db. find (\<lambda>r. obs_connection r = (ref_profileId ref, ref_revision ref)) (rev (db_observations db))))
       (\<lambda>row. liftA (observationFromRow row))"

end
