(* ===== verification/Bindings.thy ===== *)
theory Bindings
  imports Profiles
begin

text \<open>
  Room bindings and the provider decision of a room (\<open>src/db/provider-bindings.ts\<close>), and decision
  snapshots (\<open>src/db/provider-snapshots.ts\<close>). The purpose of a binding is always
  \<open>persona-default\<close>, the only one the contract and the table accept.
\<close>

section \<open>Bindings\<close>

record resolved_decision =
  rd_binding :: room_binding
  rd_connection :: snapshot_connection_profile
  rd_model :: model_profile
  rd_observation :: provider_observation

definition exact_binding :: "db \<Rightarrow> string \<times> int \<Rightarrow> binding_row option" where
  "exact_binding db ref = exact_row brow_id brow_revision (db_bindings db) (fst ref) (snd ref)"

definition bindingFromRow :: "binding_row option \<Rightarrow> js_error + room_binding option" where
  "bindingFromRow row =
     (case row of
        None \<Rightarrow> Inr None
      | Some r \<Rightarrow> bindE (parse_text parseRoomBinding (brow_json r)) (\<lambda>b. Inr (Some b)))"

definition readRoomBinding :: "string \<Rightarrow> int \<Rightarrow> room_binding option action" where
  "readRoomBinding bindingId n =
     bindA (queryA (\<lambda>db. exact_binding db (bindingId, n))) (\<lambda>row. liftA (bindingFromRow row))"

definition effective_row :: "db \<Rightarrow> string \<Rightarrow> string \<Rightarrow> binding_row option" where
  "effective_row db r purpose =
     newest brow_revision (filter (\<lambda>b. brow_room b = r \<and> brow_purpose b = purpose) (db_bindings db))"

definition readEffectiveRoomBinding :: "string \<Rightarrow> string \<Rightarrow> room_binding option action" where
  "readEffectiveRoomBinding r purpose =
     bindA (queryA (\<lambda>db. effective_row db r purpose)) (\<lambda>row. liftA (bindingFromRow row))"

definition requireBindableModel :: "room_binding \<Rightarrow> unit action" where
  "requireBindableModel binding =
     bindA (readModelProfile (ref_profileId (rb_model binding)) (ref_revision (rb_model binding))) (\<lambda>found.
     bindA (someA found (PlainError ''Room binding model revision does not exist'')) (\<lambda>model.
     bindA (requireA (mr_state model = Enabled)
             (PlainError (''Room binding model revision is '' @ state_text (mr_state model)))) (\<lambda>_.
     bindA (readCurrentModelProfile (ref_profileId (rb_model binding))) (\<lambda>currentModel.
     bindA (requireA (map_option (\<lambda>m. mp_revision (mr_profile m)) currentModel = Some (ref_revision (rb_model binding)))
             (PlainError ''Room binding model revision is stale'')) (\<lambda>_.
     bindA (readConnectionProfile (ref_profileId (mp_connection (mr_profile model)))
             (ref_revision (mp_connection (mr_profile model)))) (\<lambda>foundConnection.
     bindA (someA foundConnection (PlainError ''Room binding connection revision does not exist'')) (\<lambda>connection.
     bindA (requireA (cr_state connection = Enabled)
             (PlainError (''Room binding connection revision is '' @ state_text (cr_state connection)))) (\<lambda>_.
     bindA (readCurrentConnectionProfile (cp_id (cr_profile connection))) (\<lambda>currentConnection.
       requireA (map_option (\<lambda>c. cp_revision (cr_profile c)) currentConnection =
                 Some (cp_revision (cr_profile connection)))
         (PlainError ''Room binding connection revision is stale''))))))))))"

text \<open>The constraints and triggers of \<open>room_binding_revisions\<close>.\<close>

definition binding_row_ok :: "binding_row \<Rightarrow> bool" where
  "binding_row_ok r \<longleftrightarrow> sql_id (brow_id r) \<and> 1 \<le> brow_revision r \<and> brow_revision r \<le> MAX_REVISION \<and>
     brow_purpose r = ''persona-default'' \<and>
     (case sql_object (brow_json r) 8192 of
        None \<Rightarrow> False
      | Some v \<Rightarrow> jget ''id'' v = JStr (brow_id r) \<and> jget ''revision'' v = JInt (brow_revision r) \<and>
          jget ''roomId'' v = JStr (brow_room r) \<and> jget ''purpose'' v = JStr (brow_purpose r) \<and>
          jget ''profileId'' (jget ''model'' v) = JStr (fst (brow_model r)) \<and>
          jget ''revision'' (jget ''model'' v) = JInt (snd (brow_model r)))"

definition binding_lineage_ok :: "binding_row list \<Rightarrow> binding_row \<Rightarrow> bool" where
  "binding_lineage_ok rows r \<longleftrightarrow>
     (\<forall>q \<in> set rows. brow_room q = brow_room r \<and> brow_purpose q = brow_purpose r \<longrightarrow> brow_id q = brow_id r) \<and>
     (\<forall>q \<in> set rows. brow_id q = brow_id r \<longrightarrow> brow_room q = brow_room r \<and> brow_purpose q = brow_purpose r)"

definition insertBinding :: "binding_row \<Rightarrow> unit action" where
  "insertBinding r =
     bindA (queryA (\<lambda>db. next_revision brow_id brow_revision (db_bindings db) r)) (\<lambda>follows.
     bindA (queryA (\<lambda>db. binding_lineage_ok (db_bindings db) r)) (\<lambda>lineage.
     bindA (queryA (\<lambda>db. exact_binding db (brow_id r, brow_revision r) = None)) (\<lambda>free.
     bindA (queryA (\<lambda>db. find_room db (brow_room r) \<noteq> None \<and> exact_model db (brow_model r) \<noteq> None)) (\<lambda>fk.
     bindA (requireA lineage (SqlError ''room binding identity mismatch'')) (\<lambda>_.
     bindA (requireA follows (SqlError ''room binding revision gap or conflict'')) (\<lambda>_.
     bindA (requireA (binding_row_ok r) (SqlError ''CHECK constraint failed: room_binding_revisions'')) (\<lambda>_.
     bindA (requireA free (SqlError ''UNIQUE constraint failed: room_binding_revisions'')) (\<lambda>_.
     bindA (requireA fk (SqlError ''FOREIGN KEY constraint failed'')) (\<lambda>_.
       updateA (\<lambda>db. db\<lparr>db_bindings := db_bindings db @ [r]\<rparr>))))))))))"

definition storeBinding :: "room_binding \<Rightarrow> room_binding action" where
  "storeBinding b =
     bindA (liftA (canonicalJson (binding_json b))) (\<lambda>t.
     bindA (insertBinding \<lparr>brow_id = rb_id b, brow_revision = rb_revision b, brow_room = rb_roomId b,
              brow_purpose = rb_purpose b, brow_model = (ref_profileId (rb_model b), ref_revision (rb_model b)),
              brow_json = t\<rparr>) (\<lambda>_. returnA b))"

definition bindRoom :: "jval \<Rightarrow> room_binding action" where
  "bindRoom v =
     bindA (liftA (parseRoomBinding v)) (\<lambda>b.
     bindA (requireA (rb_revision b = 1) (PlainError ''Room binding must start at revision 1'')) (\<lambda>_.
       withImmediateTransaction (
         bindA (readEffectiveRoomBinding (rb_roomId b) (rb_purpose b)) (\<lambda>existing.
         bindA (requireA (existing = None) (PlainError ''Room binding already exists'')) (\<lambda>_.
         bindA (requireBindableModel b) (\<lambda>_.
           storeBinding b))))))"

definition rebindRoom :: "jval \<Rightarrow> int \<Rightarrow> room_binding action" where
  "rebindRoom v expectedRevision =
     bindA (liftA (parseRoomBinding v)) (\<lambda>b.
       withImmediateTransaction (
         bindA (readEffectiveRoomBinding (rb_roomId b) (rb_purpose b)) (\<lambda>found.
         bindA (someA found (PlainError ''Room binding does not exist'')) (\<lambda>current.
         bindA (requireA (rb_id current = rb_id b \<and> rb_revision current = expectedRevision \<and>
                          rb_revision b = expectedRevision + 1)
                 (PlainError ''Room binding revision conflict'')) (\<lambda>_.
         bindA (requireBindableModel b) (\<lambda>_.
           storeBinding b))))))"

section \<open>The provider decision of a room\<close>

definition resolveRoomProviderDecision :: "string \<Rightarrow> string \<Rightarrow> resolved_decision action" where
  "resolveRoomProviderDecision r purpose =
     bindA (readEffectiveRoomBinding r purpose) (\<lambda>foundBinding.
     bindA (someA foundBinding (PlainError ''Room has no provider binding'')) (\<lambda>binding.
     bindA (readModelProfile (ref_profileId (rb_model binding)) (ref_revision (rb_model binding))) (\<lambda>foundModel.
     bindA (someA foundModel (PlainError ''Room binding references a missing model revision'')) (\<lambda>model.
     bindA (readCurrentModelProfile (ref_profileId (rb_model binding))) (\<lambda>currentModel.
     bindA (requireA (map_option (\<lambda>m. mp_revision (mr_profile m)) currentModel = Some (ref_revision (rb_model binding)))
             (PlainError ''Room binding references a stale model revision'')) (\<lambda>_.
     bindA (requireA (mr_state model = Enabled)
             (PlainError (''Room binding references a '' @ state_text (mr_state model) @ '' model revision''))) (\<lambda>_.
     bindA (readConnectionProfile (ref_profileId (mp_connection (mr_profile model)))
             (ref_revision (mp_connection (mr_profile model)))) (\<lambda>foundConnection.
     bindA (someA foundConnection (PlainError ''Model profile references a missing connection revision'')) (\<lambda>connection.
     bindA (readCurrentConnectionProfile (ref_profileId (mp_connection (mr_profile model)))) (\<lambda>currentConnection.
     bindA (requireA (map_option (\<lambda>c. cp_revision (cr_profile c)) currentConnection =
                      Some (ref_revision (mp_connection (mr_profile model))))
             (PlainError ''Model profile references a stale connection revision'')) (\<lambda>_.
     bindA (requireA (cr_state connection = Enabled)
             (PlainError (''Model profile references a '' @ state_text (cr_state connection) @ '' connection revision''))) (\<lambda>_.
     bindA (readLatestConnectionObservation (mp_connection (mr_profile model))) (\<lambda>foundObservation.
     bindA (someA foundObservation (PlainError ''Connection revision has no capability observation'')) (\<lambda>observation.
     bindA (requireA (po_health observation = ''ready'')
             (PlainError (''Connection revision health is '' @ po_health observation))) (\<lambda>_.
       returnA
         \<lparr>rd_binding = binding,
          rd_connection = \<lparr>sc_id = cp_id (cr_profile connection), sc_revision = cp_revision (cr_profile connection),
                           sc_target = cp_target (cr_profile connection)\<rparr>,
          rd_model = mr_profile model, rd_observation = observation\<rparr>)))))))))))))))"

text \<open>Every error of the resolution is caught and means that the decision is not current.\<close>

definition isResolvedRoomProviderDecisionCurrent :: "resolved_decision \<Rightarrow> db \<Rightarrow> bool" where
  "isResolvedRoomProviderDecisionCurrent decision db =
     (case fst (resolveRoomProviderDecision (rb_roomId (rd_binding decision)) (rb_purpose (rd_binding decision)) db) of
        Inl _ \<Rightarrow> False
      | Inr current \<Rightarrow>
          rb_id (rd_binding current) = rb_id (rd_binding decision) \<and>
          rb_revision (rd_binding current) = rb_revision (rd_binding decision) \<and>
          mp_id (rd_model current) = mp_id (rd_model decision) \<and>
          mp_revision (rd_model current) = mp_revision (rd_model decision) \<and>
          sc_id (rd_connection current) = sc_id (rd_connection decision) \<and>
          sc_revision (rd_connection current) = sc_revision (rd_connection decision) \<and>
          po_fingerprint (rd_observation current) = po_fingerprint (rd_observation decision))"

section \<open>Decision snapshots\<close>

definition SINGLE_ATTEMPT_ROUTING_POLICY :: string where
  "SINGLE_ATTEMPT_ROUTING_POLICY = ''single-attempt-no-fallback-v1''"

record snapshot_record =
  sr_roomId :: string
  sr_requestId :: string
  sr_snapshot :: decision_snapshot
  sr_definition :: "(string \<times> int) option"
  sr_policy :: string

text \<open>The snapshot of the input is a value of unknown type; the rest is typed.\<close>

record snapshot_input =
  si_roomId :: string
  si_requestId :: string
  si_snapshot :: jval
  si_definition :: "(string \<times> int) option"
  si_policy :: string

definition sameExactDecision :: "resolved_decision \<Rightarrow> decision_snapshot \<Rightarrow> bool" where
  "sameExactDecision current s \<longleftrightarrow>
     canonicalJson (binding_json (rd_binding current)) = canonicalJson (binding_json (ds_binding s)) \<and>
     canonicalJson (snapshot_connection_json (rd_connection current)) =
       canonicalJson (snapshot_connection_json (ds_connection s)) \<and>
     canonicalJson (model_json (rd_model current)) = canonicalJson (model_json (ds_model s)) \<and>
     canonicalJson (generation_json (mp_generation (rd_model current))) =
       canonicalJson (generation_json (effectiveGeneration s))"

definition definitionEvidence :: "connection_target \<Rightarrow> (string \<times> int) option \<Rightarrow> js_error + (string \<times> int) option" where
  "definitionEvidence target given =
     (case target of
        Approved_Provider i \<Rightarrow>
          bindE (getProviderDefinition i) (\<lambda>d.
            if given \<noteq> Some (def_id d, def_version d)
            then Inl (PlainError ''Decision snapshot provider definition evidence mismatch'')
            else Inr given)
      | Local_Endpoint _ \<Rightarrow>
          if given \<noteq> None
          then Inl (PlainError ''Local decision snapshot cannot contain provider definition evidence'')
          else Inr None)"

definition validatedRecord :: "snapshot_input \<Rightarrow> js_error + snapshot_record" where
  "validatedRecord input =
     (if \<not> js_canonical (si_roomId input) \<or> length (si_roomId input) > 128
      then Inl (TypeError ''Decision snapshot roomId is invalid'')
      else if \<not> js_canonical (si_requestId input) \<or> length (si_requestId input) > 256
      then Inl (TypeError ''Decision snapshot requestId is invalid'')
      else if si_policy input \<noteq> SINGLE_ATTEMPT_ROUTING_POLICY
      then Inl (TypeError ''Decision snapshot routing policy is not supported'')
      else bindE (parseDecisionSnapshot (si_snapshot input)) (\<lambda>s.
        if rb_roomId (ds_binding s) \<noteq> si_roomId input then Inl (PlainError ''Decision snapshot room mismatch'')
        else bindE (definitionEvidence (sc_target (ds_connection s)) (si_definition input)) (\<lambda>evidence.
          Inr \<lparr>sr_roomId = si_roomId input, sr_requestId = si_requestId input, sr_snapshot = s,
               sr_definition = evidence, sr_policy = si_policy input\<rparr>)))"

text \<open>The constraints and the trigger of \<open>provider_decision_snapshots\<close>.\<close>

definition snapshot_row_ok :: "snapshot_row \<Rightarrow> bool" where
  "snapshot_row_ok r \<longleftrightarrow> sql_id (srow_id r) \<and> srow_request r \<noteq> [] \<and> length (srow_request r) \<le> 256 \<and>
     hd (srow_request r) \<noteq> CHR '' '' \<and> last (srow_request r) \<noteq> CHR '' '' \<and>
     sha256_fingerprint (srow_fingerprint r) \<and>
     (case srow_definition r of None \<Rightarrow> True | Some d \<Rightarrow> snd d = 1) \<and>
     srow_policy r = SINGLE_ATTEMPT_ROUTING_POLICY \<and>
     (case sql_object (srow_json r) 32768 of
        None \<Rightarrow> False
      | Some v \<Rightarrow> jget ''id'' v = JStr (srow_id r) \<and>
          jget ''id'' (jget ''binding'' v) = JStr (fst (srow_binding r)) \<and>
          jget ''revision'' (jget ''binding'' v) = JInt (snd (srow_binding r)) \<and>
          jget ''roomId'' (jget ''binding'' v) = JStr (srow_room r) \<and>
          jget ''id'' (jget ''connection'' v) = JStr (fst (srow_connection r)) \<and>
          jget ''revision'' (jget ''connection'' v) = JInt (snd (srow_connection r)) \<and>
          jget ''id'' (jget ''model'' v) = JStr (fst (srow_model r)) \<and>
          jget ''revision'' (jget ''model'' v) = JInt (snd (srow_model r)) \<and>
          jget ''capabilityFingerprint'' v = JStr (srow_fingerprint r) \<and>
          \<not> has_key_of (''credentialref'' # secret_keys) v)"

definition insertSnapshot :: "snapshot_row \<Rightarrow> unit action" where
  "insertSnapshot r =
     bindA (queryA (\<lambda>db. \<forall>q \<in> set (db_snapshots db). srow_id q \<noteq> srow_id r \<and>
        (srow_room q, srow_request q) \<noteq> (srow_room r, srow_request r))) (\<lambda>free.
     bindA (queryA (\<lambda>db. find_room db (srow_room r) \<noteq> None \<and> exact_binding db (srow_binding r) \<noteq> None \<and>
        exact_connection db (srow_connection r) \<noteq> None \<and> exact_model db (srow_model r) \<noteq> None)) (\<lambda>fk.
     bindA (requireA (snapshot_row_ok r) (SqlError ''CHECK constraint failed: provider_decision_snapshots'')) (\<lambda>_.
     bindA (requireA free (SqlError ''UNIQUE constraint failed: provider_decision_snapshots'')) (\<lambda>_.
     bindA (requireA fk (SqlError ''FOREIGN KEY constraint failed'')) (\<lambda>_.
       updateA (\<lambda>db. db\<lparr>db_snapshots := db_snapshots db @ [r]\<rparr>))))))"

definition commitDecisionSnapshotInTransaction :: "snapshot_input \<Rightarrow> snapshot_record action" where
  "commitDecisionSnapshotInTransaction input =
     bindA (queryA is_transaction) (\<lambda>active.
     bindA (requireA active (PlainError ''commitDecisionSnapshotInTransaction requires an active transaction'')) (\<lambda>_.
     bindA (liftA (validatedRecord input)) (\<lambda>rec.
     bindA (resolveRoomProviderDecision (rb_roomId (ds_binding (sr_snapshot rec)))
             (rb_purpose (ds_binding (sr_snapshot rec)))) (\<lambda>current.
     bindA (requireA (sameExactDecision current (sr_snapshot rec))
             (PlainError ''Decision snapshot references a stale or mismatched provider revision'')) (\<lambda>_.
     bindA (requireA (po_fingerprint (rd_observation current) = capabilityFingerprint (sr_snapshot rec))
             (PlainError ''Decision snapshot capability fingerprint is stale or mismatched'')) (\<lambda>_.
     bindA (liftA (canonicalJson (decision_json (sr_snapshot rec)))) (\<lambda>t.
     bindA (insertSnapshot
        \<lparr>srow_id = ds_id (sr_snapshot rec), srow_room = sr_roomId rec, srow_request = sr_requestId rec,
         srow_binding = (rb_id (ds_binding (sr_snapshot rec)), rb_revision (ds_binding (sr_snapshot rec))),
         srow_connection = (sc_id (ds_connection (sr_snapshot rec)), sc_revision (ds_connection (sr_snapshot rec))),
         srow_model = (mp_id (ds_model (sr_snapshot rec)), mp_revision (ds_model (sr_snapshot rec))),
         srow_fingerprint = capabilityFingerprint (sr_snapshot rec), srow_definition = sr_definition rec,
         srow_policy = sr_policy rec, srow_json = t\<rparr>) (\<lambda>_.
       returnA rec))))))))"

definition snapshotFromRow :: "snapshot_row option \<Rightarrow> js_error + snapshot_record option" where
  "snapshotFromRow row =
     (case row of
        None \<Rightarrow> Inr None
      | Some r \<Rightarrow>
          bindE (parse_text Inr (srow_json r)) (\<lambda>v.
          bindE (validatedRecord \<lparr>si_roomId = srow_room r, si_requestId = srow_request r, si_snapshot = v,
                   si_definition = srow_definition r, si_policy = srow_policy r\<rparr>) (\<lambda>rec. Inr (Some rec))))"

definition readDecisionSnapshot :: "string \<Rightarrow> snapshot_record option action" where
  "readDecisionSnapshot i =
     bindA (queryA (\<lambda>db. find (\<lambda>r. srow_id r = i) (db_snapshots db))) (\<lambda>row. liftA (snapshotFromRow row))"

definition readDecisionSnapshotForRequest :: "string \<Rightarrow> string \<Rightarrow> snapshot_record option action" where
  "readDecisionSnapshotForRequest r q =
     bindA (queryA (\<lambda>db. find (\<lambda>row. srow_room row = r \<and> srow_request row = q) (db_snapshots db)))
       (\<lambda>row. liftA (snapshotFromRow row))"

end
