(* ===== verification/Provider_Invariant.thy ===== *)
theory Provider_Invariant
  imports Bindings Json_Size
begin

text \<open>
  The invariant of the provider tables: contiguous revisions, texts that parse to a contract that
  agrees with the columns of its row, references that exist. Every operation keeps it, so reading a
  stored profile or binding never fails.
\<close>

section \<open>The three tables are revision lineages\<close>

lemma insertConnection_ok:
  "insertConnection r db = (Inr u, db') \<longleftrightarrow>
     next_revision crow_id crow_revision (db_connections db) r \<and> connection_row_ok r \<and>
     exact_connection db (crow_id r, crow_revision r) = None \<and> db' = db\<lparr>db_connections := db_connections db @ [r]\<rparr>"
  by (auto simp: insertConnection_def)

lemma insertModel_ok:
  "insertModel r db = (Inr u, db') \<longleftrightarrow>
     next_revision mrow_id mrow_revision (db_models db) r \<and> model_row_ok r \<and>
     exact_model db (mrow_id r, mrow_revision r) = None \<and> exact_connection db (mrow_connection r) \<noteq> None \<and>
     db' = db\<lparr>db_models := db_models db @ [r]\<rparr>"
  by (auto simp: insertModel_def)

lemma insertBinding_ok:
  "insertBinding r db = (Inr u, db') \<longleftrightarrow>
     next_revision brow_id brow_revision (db_bindings db) r \<and> binding_lineage_ok (db_bindings db) r \<and>
     binding_row_ok r \<and> exact_binding db (brow_id r, brow_revision r) = None \<and>
     find_room db (brow_room r) \<noteq> None \<and> exact_model db (brow_model r) \<noteq> None \<and>
     db' = db\<lparr>db_bindings := db_bindings db @ [r]\<rparr>"
  by (auto simp: insertBinding_def)

lemma insertObservation_ok:
  "insertObservation r db = (Inr u, db') \<longleftrightarrow>
     observation_row_ok r \<and> (\<forall>q \<in> set (db_observations db). obs_id q \<noteq> obs_id r) \<and>
     exact_connection db (obs_connection r) \<noteq> None \<and> db' = db\<lparr>db_observations := db_observations db @ [r]\<rparr>"
  by (auto simp: insertObservation_def)

text \<open>An insertion as a partial function on the database.\<close>

definition inserted :: "('r \<Rightarrow> unit action) \<Rightarrow> 'r \<Rightarrow> db \<Rightarrow> db option" where
  "inserted ins r db = (case ins r db of (Inr _, db') \<Rightarrow> Some db' | (Inl _, _) \<Rightarrow> None)"

lemma inserted_Some: "inserted ins r db = Some db' \<longleftrightarrow> ins r db = (Inr (), db')"
  by (auto simp: inserted_def split: prod.splits sum.splits)

interpretation cl: revision_lineage "inserted insertConnection" db_connections crow_id crow_revision
  by unfold_locales (auto simp: inserted_Some insertConnection_ok)

interpretation ml: revision_lineage "inserted insertModel" db_models mrow_id mrow_revision
  by unfold_locales (auto simp: inserted_Some insertModel_ok)

interpretation bl: revision_lineage "inserted insertBinding" db_bindings brow_id brow_revision
  by unfold_locales (auto simp: inserted_Some insertBinding_ok)

section \<open>Rows and the contracts they hold\<close>

definition connection_of :: "connection_row \<Rightarrow> connection_profile \<Rightarrow> bool" where
  "connection_of r p \<longleftrightarrow> parse_text parseConnectionProfile (crow_json r) = Inr p \<and>
     cp_id p = crow_id r \<and> cp_revision p = crow_revision r \<and> connection_wf p \<and>
     (crow_state r \<noteq> Enabled \<longrightarrow> credentialRef p = None)"

definition model_of :: "model_row \<Rightarrow> model_profile \<Rightarrow> bool" where
  "model_of r p \<longleftrightarrow> parse_text parseModelProfile (mrow_json r) = Inr p \<and>
     mp_id p = mrow_id r \<and> mp_revision p = mrow_revision r \<and> model_wf p \<and> generation_num_ok (mp_generation p) \<and>
     mrow_connection r = (ref_profileId (mp_connection p), ref_revision (mp_connection p)) \<and>
     \<not> has_key_of (''credentialref'' # secret_keys) (model_json p)"

definition binding_of :: "binding_row \<Rightarrow> room_binding \<Rightarrow> bool" where
  "binding_of r b \<longleftrightarrow> parse_text parseRoomBinding (brow_json r) = Inr b \<and>
     rb_id b = brow_id r \<and> rb_revision b = brow_revision r \<and> rb_roomId b = brow_room r \<and>
     rb_purpose b = brow_purpose r \<and> binding_wf b \<and>
     brow_model r = (ref_profileId (rb_model b), ref_revision (rb_model b))"

definition provider_ok :: "db \<Rightarrow> bool" where
  "provider_ok db \<longleftrightarrow> cl.lineage_ok db \<and> ml.lineage_ok db \<and> bl.lineage_ok db \<and>
     (\<forall>r \<in> set (db_connections db). \<exists>p. connection_of r p) \<and>
     (\<forall>r \<in> set (db_models db). (\<exists>p. model_of r p) \<and> exact_connection db (mrow_connection r) \<noteq> None) \<and>
     (\<forall>r \<in> set (db_bindings db). (\<exists>b. binding_of r b) \<and> exact_model db (brow_model r) \<noteq> None \<and>
        binding_lineage_ok (db_bindings db) r) \<and>
     (\<forall>r \<in> set (db_observations db). exact_connection db (obs_connection r) \<noteq> None)"

lemma parse_text_back: "reads_back parse v x \<Longrightarrow> canonicalJson v = Inr t \<Longrightarrow> parse_text parse t = Inr x"
  by (auto simp: reads_back_def parse_text_def)

section \<open>Reading\<close>

definition connection_view :: "connection_row \<Rightarrow> connection_revision" where
  "connection_view r = \<lparr>cr_state = crow_state r,
     cr_profile = (case parse_text parseConnectionProfile (crow_json r) of Inr p \<Rightarrow> p | Inl _ \<Rightarrow> undefined)\<rparr>"

definition model_view :: "model_row \<Rightarrow> model_revision" where
  "model_view r = \<lparr>mr_state = mrow_state r,
     mr_profile = (case parse_text parseModelProfile (mrow_json r) of Inr p \<Rightarrow> p | Inl _ \<Rightarrow> undefined)\<rparr>"

definition binding_view :: "binding_row \<Rightarrow> room_binding" where
  "binding_view r = (case parse_text parseRoomBinding (brow_json r) of Inr b \<Rightarrow> b | Inl _ \<Rightarrow> undefined)"

lemma connection_view: "connection_of r p \<Longrightarrow> connection_view r = \<lparr>cr_state = crow_state r, cr_profile = p\<rparr>"
  by (simp add: connection_of_def connection_view_def)

lemma model_view: "model_of r p \<Longrightarrow> model_view r = \<lparr>mr_state = mrow_state r, mr_profile = p\<rparr>"
  by (simp add: model_of_def model_view_def)

lemma binding_view: "binding_of r b \<Longrightarrow> binding_view r = b"
  by (simp add: binding_of_def binding_view_def)

lemma exact_in: "exact_row key rev_no rows i n = Some r \<Longrightarrow> r \<in> set rows \<and> key r = i \<and> rev_no r = n"
  by (auto simp: exact_row_def find_Some_iff)

lemma current_in: "current_row key rev_no rows i = Some r \<Longrightarrow> r \<in> set rows \<and> key r = i"
  by (auto simp: current_row_def rows_of_def dest: newest_in)

lemma effective_in:
  "effective_row db r purpose = Some row \<Longrightarrow> row \<in> set (db_bindings db) \<and> brow_room row = r \<and> brow_purpose row = purpose"
  by (auto simp: effective_row_def dest: newest_in)

lemma frozen_ok:
  "(\<And>r. row = Some r \<Longrightarrow> \<exists>p. connection_of r p) \<Longrightarrow> frozenConnection row = Inr (map_option connection_view row)"
  "(\<And>r. mrow = Some r \<Longrightarrow> \<exists>p. model_of r p) \<Longrightarrow> frozenModel mrow = Inr (map_option model_view mrow)"
  "(\<And>r. brow = Some r \<Longrightarrow> \<exists>p. binding_of r p) \<Longrightarrow> bindingFromRow brow = Inr (map_option binding_view brow)"
  subgoal by (cases row; fastforce simp: frozenConnection_def connection_of_def connection_view_def)
  subgoal by (cases mrow; fastforce simp: frozenModel_def model_of_def model_view_def)
  subgoal by (cases brow; fastforce simp: bindingFromRow_def binding_of_def binding_view_def)
  done

lemma read_connection:
  assumes ok: "provider_ok db"
  shows "readConnectionProfile i n db = (Inr (map_option connection_view (exact_connection db (i, n))), db)"
  "readCurrentConnectionProfile i db =
     (Inr (map_option connection_view (current_row crow_id crow_revision (db_connections db) i)), db)"
  using ok
  by (auto simp: readConnectionProfile_def readCurrentConnectionProfile_def exact_connection_def provider_ok_def
      intro!: frozen_ok(1) dest!: exact_in current_in)

lemma read_model:
  assumes ok: "provider_ok db"
  shows "readModelProfile i n db = (Inr (map_option model_view (exact_model db (i, n))), db)"
  "readCurrentModelProfile i db =
     (Inr (map_option model_view (current_row mrow_id mrow_revision (db_models db) i)), db)"
  using ok
  by (auto simp: readModelProfile_def readCurrentModelProfile_def exact_model_def provider_ok_def
      intro!: frozen_ok(2) dest!: exact_in current_in)

lemma read_binding:
  assumes ok: "provider_ok db"
  shows "readRoomBinding i n db = (Inr (map_option binding_view (exact_binding db (i, n))), db)"
  "readEffectiveRoomBinding r purpose db = (Inr (map_option binding_view (effective_row db r purpose)), db)"
  using ok
  by (auto simp: readRoomBinding_def readEffectiveRoomBinding_def exact_binding_def provider_ok_def
      intro!: frozen_ok(3) dest!: exact_in effective_in)

section \<open>Storing\<close>

lemma provider_ok_frame:
  assumes "db_connections db' = db_connections db" and "db_models db' = db_models db"
    and "db_bindings db' = db_bindings db" and "db_observations db' = db_observations db"
  shows "provider_ok db' = provider_ok db"
  using assms
  by (simp add: provider_ok_def cl.lineage_ok_def ml.lineage_ok_def bl.lineage_ok_def exact_connection_def exact_model_def)

lemma provider_ok_transaction [simp]: "provider_ok (db\<lparr>is_transaction := b\<rparr>) = provider_ok db"
  by (rule provider_ok_frame) simp_all

lemma exact_keeps:
  "exact_connection db ref \<noteq> None \<Longrightarrow> db_connections db' = db_connections db @ rs \<Longrightarrow> exact_connection db' ref \<noteq> None"
  "exact_model db ref' \<noteq> None \<Longrightarrow> db_models db' = db_models db @ ms \<Longrightarrow> exact_model db' ref' \<noteq> None"
  unfolding exact_connection_def exact_model_def using exact_append by fastforce+

lemma storeConnection_ok:
  "storeConnection state p db = (Inr c, db') \<longleftrightarrow> c = \<lparr>cr_state = state, cr_profile = p\<rparr> \<and>
     (\<exists>t. canonicalJson (connection_json p) = Inr t \<and>
        insertConnection \<lparr>crow_id = cp_id p, crow_revision = cp_revision p, crow_state = state, crow_json = t\<rparr> db = (Inr (), db'))"
  by (auto simp: storeConnection_def)

lemma storeModel_ok:
  "storeModel state p db = (Inr c, db') \<longleftrightarrow> c = \<lparr>mr_state = state, mr_profile = p\<rparr> \<and>
     (\<exists>t. canonicalJson (model_json p) = Inr t \<and>
        insertModel \<lparr>mrow_id = mp_id p, mrow_revision = mp_revision p, mrow_state = state,
              mrow_connection = (ref_profileId (mp_connection p), ref_revision (mp_connection p)), mrow_json = t\<rparr> db = (Inr (), db'))"
  by (auto simp: storeModel_def)

lemma storeBinding_ok:
  "storeBinding b db = (Inr c, db') \<longleftrightarrow> c = b \<and>
     (\<exists>t. canonicalJson (binding_json b) = Inr t \<and>
        insertBinding \<lparr>brow_id = rb_id b, brow_revision = rb_revision b, brow_room = rb_roomId b,
              brow_purpose = rb_purpose b, brow_model = (ref_profileId (rb_model b), ref_revision (rb_model b)),
              brow_json = t\<rparr> db = (Inr (), db'))"
  by (auto simp: storeBinding_def)

lemma connection_of_stored:
  "connection_wf p \<Longrightarrow> (state \<noteq> Enabled \<longrightarrow> credentialRef p = None) \<Longrightarrow> canonicalJson (connection_json p) = Inr t \<Longrightarrow>
   connection_of \<lparr>crow_id = cp_id p, crow_revision = cp_revision p, crow_state = state, crow_json = t\<rparr> p"
  using parse_text_back [OF connection_reads_back] by (simp add: connection_of_def)

lemma model_of_stored:
  assumes "model_wf p" and "generation_num_ok (mp_generation p)" and "canonicalJson (model_json p) = Inr t"
    and row: "model_row_ok \<lparr>mrow_id = mp_id p, mrow_revision = mp_revision p, mrow_state = state,
              mrow_connection = (ref_profileId (mp_connection p), ref_revision (mp_connection p)), mrow_json = t\<rparr>"
  shows "model_of \<lparr>mrow_id = mp_id p, mrow_revision = mp_revision p, mrow_state = state,
              mrow_connection = (ref_profileId (mp_connection p), ref_revision (mp_connection p)), mrow_json = t\<rparr> p"
proof -
  have "json_ok (model_json p)" by (rule model_json_ok [OF assms(2,1)])
  from canonicalJson_roundtrip [OF this] assms(3) have "json_parse t = Some (json_norm (model_json p))" by auto
  then have "\<not> has_key_of (''credentialref'' # secret_keys) (json_norm (model_json p))"
    using row by (auto simp: model_row_ok_def sql_object_def split: jval.splits if_splits)
  then have "\<not> has_key_of (''credentialref'' # secret_keys) (model_json p)"
    unfolding has_key_of_def all_keys_norm .
  then show ?thesis
    using assms parse_text_back [OF model_reads_back [OF assms(1,2)] assms(3)] by (simp add: model_of_def)
qed

lemma binding_of_stored:
  "binding_wf b \<Longrightarrow> canonicalJson (binding_json b) = Inr t \<Longrightarrow>
   binding_of \<lparr>brow_id = rb_id b, brow_revision = rb_revision b, brow_room = rb_roomId b,
              brow_purpose = rb_purpose b, brow_model = (ref_profileId (rb_model b), ref_revision (rb_model b)),
              brow_json = t\<rparr> b"
  using parse_text_back [OF binding_reads_back] by (simp add: binding_of_def)

lemma storeConnection_keeps:
  assumes "connection_wf p" and "state \<noteq> Enabled \<longrightarrow> credentialRef p = None"
  shows "preserves provider_ok (storeConnection state p)"
proof (rule preservesI)
  fix db c db'
  assume ok: "provider_ok db" and run: "storeConnection state p db = (Inr c, db')"
  then obtain t where t: "canonicalJson (connection_json p) = Inr t"
    and ins: "insertConnection \<lparr>crow_id = cp_id p, crow_revision = cp_revision p, crow_state = state, crow_json = t\<rparr> db = (Inr (), db')"
    unfolding storeConnection_ok by blast
  let ?r = "\<lparr>crow_id = cp_id p, crow_revision = cp_revision p, crow_state = state, crow_json = t\<rparr>"
  have db': "db' = db\<lparr>db_connections := db_connections db @ [?r]\<rparr>" using ins by (simp add: insertConnection_ok)
  have "cl.lineage_ok db'"
    using cl.insert_lineage [of db ?r db'] ok ins by (simp add: inserted_Some provider_ok_def)
  moreover have "connection_of ?r p" using connection_of_stored [OF assms t] .
  moreover have "exact_connection db' ref \<noteq> None" if "exact_connection db ref \<noteq> None" for ref
    using exact_keeps(1) [OF that, of db'] db' by simp
  ultimately show "provider_ok db'"
    using ok by (auto simp: provider_ok_def db' ml.lineage_ok_def bl.lineage_ok_def exact_model_def)
qed

lemma storeModel_keeps:
  assumes "model_wf p" and "generation_num_ok (mp_generation p)"
  shows "preserves provider_ok (storeModel state p)"
proof (rule preservesI)
  fix db c db'
  assume ok: "provider_ok db" and run: "storeModel state p db = (Inr c, db')"
  let ?r = "\<lambda>t. \<lparr>mrow_id = mp_id p, mrow_revision = mp_revision p, mrow_state = state,
              mrow_connection = (ref_profileId (mp_connection p), ref_revision (mp_connection p)), mrow_json = t\<rparr>"
  from run obtain t where t: "canonicalJson (model_json p) = Inr t" and ins: "insertModel (?r t) db = (Inr (), db')"
    unfolding storeModel_ok by blast
  have db': "db' = db\<lparr>db_models := db_models db @ [?r t]\<rparr>" using ins by (simp add: insertModel_ok)
  have "ml.lineage_ok db'"
    using ml.insert_lineage [of db "?r t" db'] ok ins by (simp add: inserted_Some provider_ok_def)
  moreover have "model_of (?r t) p" using model_of_stored [OF assms t] ins by (simp add: insertModel_ok)
  moreover have "exact_connection db (mrow_connection (?r t)) \<noteq> None" using ins by (simp add: insertModel_ok)
  moreover have "exact_model db' ref \<noteq> None" if "exact_model db ref \<noteq> None" for ref
    using exact_keeps(2) [OF that, of db'] db' by simp
  ultimately show "provider_ok db'"
    using ok by (auto simp: provider_ok_def db' cl.lineage_ok_def bl.lineage_ok_def exact_connection_def)
qed

lemma binding_lineage_snoc:
  assumes r: "binding_lineage_ok rows r" and q: "q \<in> set rows" and "binding_lineage_ok rows q"
  shows "binding_lineage_ok (rows @ [r]) q"
proof -
  have "(brow_room r = brow_room q \<and> brow_purpose r = brow_purpose q \<longrightarrow> brow_id r = brow_id q) \<and>
      (brow_id r = brow_id q \<longrightarrow> brow_room r = brow_room q \<and> brow_purpose r = brow_purpose q)"
    using r q unfolding binding_lineage_ok_def by metis
  with assms(3) show ?thesis unfolding binding_lineage_ok_def set_append ball_Un list.set by blast
qed

lemma storeBinding_keeps:
  assumes "binding_wf b"
  shows "preserves provider_ok (storeBinding b)"
proof (rule preservesI)
  fix db c db'
  assume ok: "provider_ok db" and run: "storeBinding b db = (Inr c, db')"
  let ?r = "\<lambda>t. \<lparr>brow_id = rb_id b, brow_revision = rb_revision b, brow_room = rb_roomId b,
              brow_purpose = rb_purpose b, brow_model = (ref_profileId (rb_model b), ref_revision (rb_model b)),
              brow_json = t\<rparr>"
  from run obtain t where t: "canonicalJson (binding_json b) = Inr t" and ins: "insertBinding (?r t) db = (Inr (), db')"
    unfolding storeBinding_ok by blast
  have db': "db' = db\<lparr>db_bindings := db_bindings db @ [?r t]\<rparr>" using ins by (simp add: insertBinding_ok)
  have "bl.lineage_ok db'"
    using bl.insert_lineage [of db "?r t" db'] ok ins by (simp add: inserted_Some provider_ok_def)
  moreover have "\<forall>q \<in> set (db_bindings db @ [?r t]). (\<exists>b. binding_of q b) \<and> exact_model db (brow_model q) \<noteq> None \<and>
      binding_lineage_ok (db_bindings db @ [?r t]) q"
  proof
    fix q assume q: "q \<in> set (db_bindings db @ [?r t])"
    have lineage: "binding_lineage_ok (db_bindings db) (?r t)" using ins by (simp add: insertBinding_ok)
    show "(\<exists>b. binding_of q b) \<and> exact_model db (brow_model q) \<noteq> None \<and>
        binding_lineage_ok (db_bindings db @ [?r t]) q"
    proof (cases "q \<in> set (db_bindings db)")
      case True
      with ok show ?thesis using binding_lineage_snoc [OF lineage True] by (simp add: provider_ok_def)
    next
      case False
      with q have "q = ?r t" by simp
      moreover have "exact_model db (brow_model (?r t)) \<noteq> None" using ins by (simp add: insertBinding_ok)
      moreover have "binding_lineage_ok (db_bindings db @ [?r t]) (?r t)"
        using lineage unfolding binding_lineage_ok_def set_append ball_Un list.set by blast
      ultimately show ?thesis using binding_of_stored [OF assms t] by blast
    qed
  qed
  ultimately show "provider_ok db'"
    using ok by (simp add: provider_ok_def db' cl.lineage_ok_def ml.lineage_ok_def exact_connection_def exact_model_def)
qed

section \<open>Every operation keeps the invariant\<close>

datatype provider_op =
    CreateConnection jval
  | ReviseConnection jval int
  | DisableConnection string int
  | DeleteConnection string "int option"
  | CreateModel jval
  | ReviseModel jval int
  | DisableModel string int
  | DeleteModel string "int option"
  | Observe provider_observation
  | BindRoom jval
  | RebindRoom jval int

definition ignoring :: "'a action \<Rightarrow> unit action" where
  "ignoring m = bindA m (\<lambda>_. returnA ())"

fun runProvider :: "provider_op \<Rightarrow> unit action" where
  "runProvider (CreateConnection v) = ignoring (createConnectionProfile v)"
| "runProvider (ReviseConnection v n) = ignoring (reviseConnectionProfile v n)"
| "runProvider (DisableConnection i n) = ignoring (disableConnectionProfile i n)"
| "runProvider (DeleteConnection i n) = ignoring (deleteConnectionProfile i n)"
| "runProvider (CreateModel v) = ignoring (createModelProfile v)"
| "runProvider (ReviseModel v n) = ignoring (reviseModelProfile v n)"
| "runProvider (DisableModel i n) = ignoring (disableModelProfile i n)"
| "runProvider (DeleteModel i n) = ignoring (deleteModelProfile i n)"
| "runProvider (Observe ob) = ignoring (observeConnection ob)"
| "runProvider (BindRoom v) = ignoring (bindRoom v)"
| "runProvider (RebindRoom v n) = ignoring (rebindRoom v n)"

text \<open>The values an operation is given are JSON values.\<close>

fun op_json_ok :: "provider_op \<Rightarrow> bool" where
  "op_json_ok (CreateModel v) = json_ok v"
| "op_json_ok (ReviseModel v n) = json_ok v"
| "op_json_ok _ = True"

lemma preserves_lift: "(\<And>p. r = Inr p \<Longrightarrow> preserves I (f p)) \<Longrightarrow> preserves I (bindA (liftA r) f)"
  by (auto simp: preserves_def)

lemma preserves_some: "(\<And>y. x = Some y \<Longrightarrow> preserves I (f y)) \<Longrightarrow> preserves I (bindA (someA x e) f)"
  by (auto simp: preserves_def)

lemma preserves_bind_post:
  assumes "preserves I m" and "\<And>db x db'. I db \<Longrightarrow> m db = (Inr x, db') \<Longrightarrow> Q x" and "\<And>x. Q x \<Longrightarrow> preserves I (f x)"
  shows "preserves I (bindA m f)"
  using assms unfolding preserves_def bindA_ok by blast

lemma preserves_ignoring [preserves_intros]: "preserves I m \<Longrightarrow> preserves I (ignoring m)"
  unfolding ignoring_def by (intro preserves_intros)

lemmas provider_reads = readConnectionProfile_def readCurrentConnectionProfile_def readModelProfile_def
  readCurrentModelProfile_def readRoomBinding_def readEffectiveRoomBinding_def readConnectionObservation_def
  readLatestConnectionObservation_def requireCurrentEnabledConnection_def requireBindableModel_def

lemma reads_preserve [preserves_intros]:
  "preserves I (readConnectionProfile i n)" "preserves I (readCurrentConnectionProfile i)"
  "preserves I (readModelProfile i n)" "preserves I (readCurrentModelProfile i)"
  "preserves I (readRoomBinding i n)" "preserves I (readEffectiveRoomBinding r purpose)"
  "preserves I (readConnectionObservation i)" "preserves I (readLatestConnectionObservation ref)"
  "preserves I (requireCurrentEnabledConnection ref)" "preserves I (requireBindableModel b)"
  unfolding provider_reads by (intro preserves_intros)+

lemma insertObservation_keeps: "preserves provider_ok (insertObservation r)"
proof (rule preservesI)
  fix db u db'
  assume ok: "provider_ok db" and "insertObservation r db = (Inr u, db')"
  then have "db' = db\<lparr>db_observations := db_observations db @ [r]\<rparr>" "exact_connection db (obs_connection r) \<noteq> None"
    unfolding insertObservation_ok by auto
  with ok show "provider_ok db'"
    by (auto simp: provider_ok_def cl.lineage_ok_def ml.lineage_ok_def bl.lineage_ok_def exact_connection_def exact_model_def)
qed

lemma parsed_connection: "parseConnectionProfile v = Inr p \<Longrightarrow> connection_wf p"
  by (simp add: parseConnectionProfile_iff)

lemma parsed_model: "parseModelProfile v = Inr p \<Longrightarrow> json_ok v \<Longrightarrow> model_wf p \<and> generation_num_ok (mp_generation p)"
  using generation_from_json by (auto simp: parseModelProfile_iff)

lemma parsed_model_json:
  "parseModelProfile (model_json q) = Inr p \<Longrightarrow> generation_num_ok (mp_generation q) \<Longrightarrow>
   model_wf p \<and> generation_num_ok (mp_generation p)"
  by (auto simp: parseModelProfile_iff model_json_def generationDefaults_iff generation_json_def generation_num_ok_def)

lemma parsed_binding: "parseRoomBinding v = Inr b \<Longrightarrow> binding_wf b"
  by (simp add: parseRoomBinding_iff)

lemma parsed_transition:
  "parseConnectionProfile (connection_json \<lparr>cp_id = i, cp_revision = n, cp_target = t, credentialRef = None, mutationId = None\<rparr>) = Inr p \<Longrightarrow>
   connection_wf p \<and> credentialRef p = None \<and> mutationId p = None \<and> cp_id p = i \<and> cp_revision p = n \<and> cp_target p = t"
  by (cases t) (auto simp: parseConnectionProfile_iff connection_json_def opt_field_def connectionTarget_iff
      split: option.splits connection_target.splits if_splits)

lemma transition_current:
  "provider_ok db \<Longrightarrow> readCurrentModelProfile i db = (Inr (Some c), db') \<Longrightarrow> generation_num_ok (mp_generation (mr_profile c))"
  using read_model(2) [of db i] by (auto simp: provider_ok_def model_view model_of_def dest!: current_in)

lemma connection_ops_keep:
  "preserves provider_ok (createConnectionProfile v)"
  "preserves provider_ok (reviseConnectionProfile v n)"
  "preserves provider_ok (transitionConnection i m state)"
  unfolding createConnectionProfile_def reviseConnectionProfile_def transitionConnection_def
  by (intro preserves_lift preserves_intros storeConnection_keeps; auto dest: parsed_connection parsed_transition)+

lemma model_ops_keep:
  "json_ok v \<Longrightarrow> preserves provider_ok (createModelProfile v)"
  "json_ok v \<Longrightarrow> preserves provider_ok (reviseModelProfile v n)"
  unfolding createModelProfile_def reviseModelProfile_def
  by (intro preserves_lift preserves_intros storeModel_keeps; auto dest: parsed_model)+

lemma transitionModel_keeps: "preserves provider_ok (transitionModel i m state)"
  unfolding transitionModel_def
proof (rule preserves_transaction [OF preserves_bind_post [where Q = "\<lambda>found. \<forall>c. found = Some c \<longrightarrow> generation_num_ok (mp_generation (mr_profile c))"]])
  fix found :: "model_revision option"
  assume "\<forall>c. found = Some c \<longrightarrow> generation_num_ok (mp_generation (mr_profile c))"
  then show "preserves provider_ok (bindA (someA found (PlainError ''Model profile does not exist'')) (\<lambda>current.
       if state = Deleted \<and> mr_state current = Deleted then returnA current
       else
         bindA (requireA (m = Some (mp_revision (mr_profile current)))
                 (PlainError ''Model profile revision conflict'')) (\<lambda>_.
         bindA (liftA (parseModelProfile (model_json
                 ((mr_profile current)\<lparr>mp_revision := mp_revision (mr_profile current) + 1\<rparr>)))) (\<lambda>p.
           storeModel state p))))"
    by (intro preserves_some preserves_if preserves_lift preserves_bind preserves_basic storeModel_keeps)
      (auto dest: parsed_model_json)
qed (auto intro: preserves_intros dest: transition_current)

end
