(* ===== verification/Provider_History.thy ===== *)
theory Provider_History
  imports Provider_Invariant
begin

text \<open>
  Runs of the provider operations: every operation keeps the invariant, changes nothing when it
  throws, and only appends revisions.
\<close>

section \<open>The invariant\<close>

lemma observe_keeps [preserves_intros]: "preserves provider_ok (observeConnection ob)"
  unfolding observeConnection_def by (intro preserves_intros insertObservation_keeps) simp

lemma binding_ops_keep:
  "preserves provider_ok (bindRoom v)"
  "preserves provider_ok (rebindRoom v n)"
  unfolding bindRoom_def rebindRoom_def
  by (intro preserves_lift preserves_intros storeBinding_keeps; auto dest: parsed_binding)+

lemma runProvider_keeps: "op_json_ok x \<Longrightarrow> preserves provider_ok (runProvider x)"
  by (cases x) (auto simp: disableConnectionProfile_def deleteConnectionProfile_def disableModelProfile_def
      deleteModelProfile_def intro!: preserves_ignoring connection_ops_keep model_ops_keep transitionModel_keeps
      observe_keeps binding_ops_keep)

section \<open>Nothing changes when an operation throws\<close>

lemma reads_open [open_intros]:
  "stays_open (readConnectionProfile i n)" "stays_open (readCurrentConnectionProfile i)"
  "stays_open (readModelProfile i n)" "stays_open (readCurrentModelProfile i)"
  "stays_open (readRoomBinding i n)" "stays_open (readEffectiveRoomBinding r purpose)"
  "stays_open (readConnectionObservation i)" "stays_open (readLatestConnectionObservation ref)"
  "stays_open (requireCurrentEnabledConnection ref)" "stays_open (requireBindableModel b)"
  "stays_open (resolveRoomProviderDecision r purpose)"
  unfolding provider_reads resolveRoomProviderDecision_def by (intro open_intros)+

lemma stores_open [open_intros]:
  "stays_open (storeConnection state p)" "stays_open (storeModel state q)" "stays_open (storeBinding b)"
  "stays_open (insertObservation ob)" "stays_open (insertSnapshot sn)"
  unfolding storeConnection_def storeModel_def storeBinding_def insertConnection_def insertModel_def
    insertBinding_def insertObservation_def insertSnapshot_def
  by (intro open_intros; simp)+

lemma runProvider_body_atomic:
  "atomic (createConnectionProfile v)" "atomic (reviseConnectionProfile v n)" "atomic (transitionConnection i m state)"
  "atomic (createModelProfile v)" "atomic (reviseModelProfile v n)" "atomic (transitionModel i m state)"
  "atomic (observeConnection ob)" "atomic (bindRoom v)" "atomic (rebindRoom v n)"
  unfolding createConnectionProfile_def reviseConnectionProfile_def transitionConnection_def
    createModelProfile_def reviseModelProfile_def transitionModel_def observeConnection_def bindRoom_def rebindRoom_def
  by (intro atomic_intros open_intros)+

lemma ignoring_error: "ignoring m db = (Inl e, db') \<longleftrightarrow> m db = (Inl e, db')"
  by (auto simp: ignoring_def bindA_def returnA_def split: prod.splits sum.splits)

lemma runProvider_atomic: "atomic (runProvider x)"
  using runProvider_body_atomic unfolding atomic_def
  by (cases x) (simp_all add: ignoring_error disableConnectionProfile_def deleteConnectionProfile_def
      disableModelProfile_def deleteModelProfile_def)

section \<open>Revisions are only appended\<close>

definition history :: "db \<Rightarrow> db \<Rightarrow> bool" where
  "history db0 db \<longleftrightarrow> cl.later db0 db \<and> ml.later db0 db \<and> bl.later db0 db"

lemma history_refl: "history db db"
  by (simp add: history_def cl.same ml.same bl.same)

lemma history_frame:
  assumes "db_connections db' = db_connections db" and "db_models db' = db_models db" and "db_bindings db' = db_bindings db"
  shows "history db0 db \<Longrightarrow> history db0 db'"
  using assms cl.later_table ml.later_table bl.later_table unfolding history_def by metis

lemma history_transaction [simp]: "history db0 (db\<lparr>is_transaction := b\<rparr>) = history db0 db"
  using history_frame [of "db\<lparr>is_transaction := b\<rparr>" db] history_frame [of db "db\<lparr>is_transaction := b\<rparr>"] by auto

lemma history_inserts [preserves_intros]:
  "preserves (history db0) (insertConnection c)" "preserves (history db0) (insertModel m)"
  "preserves (history db0) (insertBinding b)" "preserves (history db0) (insertObservation ob)"
  "preserves (history db0) (insertSnapshot sn)"
  subgoal
  proof (rule preservesI)
    fix db u db'
    assume h: "history db0 db" and run: "insertConnection c db = (Inr u, db')"
    then have "cl.later db0 db'" using cl.inserted [of db0 db c db' db'] by (simp add: history_def inserted_Some)
    with h run show "history db0 db'"
      by (auto simp: history_def insertConnection_ok intro: ml.later_table bl.later_table)
  qed
  subgoal
  proof (rule preservesI)
    fix db u db'
    assume h: "history db0 db" and run: "insertModel m db = (Inr u, db')"
    then have "ml.later db0 db'" using ml.inserted [of db0 db m db' db'] by (simp add: history_def inserted_Some)
    with h run show "history db0 db'"
      by (auto simp: history_def insertModel_ok intro: cl.later_table bl.later_table)
  qed
  subgoal
  proof (rule preservesI)
    fix db u db'
    assume h: "history db0 db" and run: "insertBinding b db = (Inr u, db')"
    then have "bl.later db0 db'" using bl.inserted [of db0 db b db' db'] by (simp add: history_def inserted_Some)
    with h run show "history db0 db'"
      by (auto simp: history_def insertBinding_ok intro: cl.later_table ml.later_table)
  qed
  subgoal by (rule preservesI) (auto simp: insertObservation_ok elim: history_frame [rotated 3])
  subgoal by (rule preservesI) (auto simp: insertSnapshot_def elim: history_frame [rotated 3])
  done

lemma history_stores [preserves_intros]:
  "preserves (history db0) (storeConnection state p)" "preserves (history db0) (storeModel state q)"
  "preserves (history db0) (storeBinding b)"
  unfolding storeConnection_def storeModel_def storeBinding_def by (intro preserves_intros)+

lemma history_ops:
  "preserves (history db0) (createConnectionProfile v)" "preserves (history db0) (reviseConnectionProfile v n)"
  "preserves (history db0) (transitionConnection i m state)"
  "preserves (history db0) (createModelProfile v)" "preserves (history db0) (reviseModelProfile v n)"
  "preserves (history db0) (transitionModel i m state)"
  "preserves (history db0) (observeConnection ob)" "preserves (history db0) (bindRoom v)" "preserves (history db0) (rebindRoom v n)"
  unfolding createConnectionProfile_def reviseConnectionProfile_def transitionConnection_def
    createModelProfile_def reviseModelProfile_def transitionModel_def observeConnection_def bindRoom_def rebindRoom_def
  by (intro preserves_intros; simp)+

lemma runProvider_history: "preserves (history db0) (runProvider x)"
  by (cases x) (auto simp: disableConnectionProfile_def deleteConnectionProfile_def disableModelProfile_def
      deleteModelProfile_def intro!: preserves_ignoring history_ops)

section \<open>Runs\<close>

text \<open>Any sequence of operations, those that throw included.\<close>

inductive provider_run :: "db \<Rightarrow> provider_op list \<Rightarrow> db \<Rightarrow> bool" where
  none: "provider_run db [] db"
| step: "provider_run db xs db1 \<Longrightarrow> op_json_ok x \<Longrightarrow> runProvider x db1 = (res, db2) \<Longrightarrow> provider_run db (xs @ [x]) db2"

lemma runProvider_idle: "idle_after (runProvider x)"
  by (cases x) (auto simp: ignoring_def disableConnectionProfile_def deleteConnectionProfile_def disableModelProfile_def
      deleteModelProfile_def createConnectionProfile_def reviseConnectionProfile_def transitionConnection_def
      createModelProfile_def reviseModelProfile_def transitionModel_def observeConnection_def bindRoom_def rebindRoom_def
      intro!: idle_intros open_intros)

theorem provider_run_ok:
  assumes "provider_run db xs db'" and "provider_ok db" and "\<not> is_transaction db"
  shows "provider_ok db' \<and> \<not> is_transaction db' \<and> history db db'"
  using assms
proof (induction rule: provider_run.induct)
  case (none db)
  then show ?case by (simp add: history_refl)
next
  case (step db xs db1 x res db2)
  then have ok: "provider_ok db1" "\<not> is_transaction db1" "history db db1" by auto
  show ?case
    using step_invariant [OF runProvider_keeps [OF step.hyps(2)] runProvider_atomic ok(2,1) step.hyps(3)]
      step_invariant [OF runProvider_history runProvider_atomic ok(2,3) step.hyps(3)]
      runProvider_idle [of x] ok(2) step.hyps(3)
    by (fastforce simp: idle_after_def)
qed

end
