(* ===== verification/Connection_Refinement.thy ===== *)
theory Connection_Refinement
  imports Provider_History
begin

text \<open>
  The connection profiles of the database implement a map from ids to histories: every operation
  either appends one revision to one history or is refused for a reason that the histories show.
  In particular a well-formed profile always fits the constraints of its table.
\<close>

section \<open>A well-formed profile fits its row\<close>

lemma show_nat_lower: "0 < d \<Longrightarrow> 10 ^ (length (show_nat d) - 1) \<le> d"
proof (induction d rule: show_nat.induct)
  case (1 n)
  show ?case
  proof (cases "n < 10")
    case True
    with 1(2) show ?thesis by (subst show_nat.simps) simp
  next
    case False
    then have "10 ^ (length (show_nat (n div 10)) - 1) \<le> n div 10" using 1(1) by simp
    then have "10 * 10 ^ (length (show_nat (n div 10)) - 1) \<le> 10 * (n div 10)" by simp
    also have "\<dots> \<le> n" by simp
    finally have "10 ^ Suc (length (show_nat (n div 10)) - 1) \<le> n" unfolding power_Suc .
    then have "10 ^ length (show_nat (n div 10)) \<le> n" by simp
    then show ?thesis using False by (subst show_nat.simps) simp
  qed
qed

lemma number_text_bound:
  assumes "0 < m" and "m < 10 ^ n" and "n \<le> 21"
  shows "length (number_text m 0) \<le> n"
proof -
  obtain d z where dz: "strip10 m 0 = (d, z)" by (cases "strip10 m 0")
  from strip10_value [OF dz] assms(1) have md: "m = d * 10 ^ z" and d: "0 < d" by auto
  let ?k = "length (show_nat d)"
  have "(10::nat) ^ (?k - 1) * 10 ^ z \<le> m" using show_nat_lower [OF d] md by simp
  then have "(10::nat) ^ (?k - 1 + z) < 10 ^ n" using assms(2) by (simp add: power_add)
  then have "?k - 1 + z < n" by (rule power_less_imp_less_exp [rotated]) simp
  moreover have "0 < ?k" by simp
  ultimately have "?k + z \<le> n" by linarith
  then show ?thesis using assms(3) by (simp add: number_text_def dz)
qed

lemma revision_text_bound: "revision_ok n \<Longrightarrow> length (number_string (Num n 0)) \<le> 10"
  using number_text_bound [of "nat n" 10] by (simp add: revision_ok_def MAX_REVISION_def nat_less_iff)

text \<open>An integer that a JavaScript number holds exactly has at most 16 digits.\<close>

lemma safe_text_bound: "int n \<le> max_safe_integer \<Longrightarrow> length (number_string (Num (int n) 0)) \<le> 16"
  using number_text_bound [of n 16] by (simp add: max_safe_integer_def)

lemma show_int_bound: "revision_ok n \<Longrightarrow> length (show_int n) \<le> 10"
proof -
  assume n: "revision_ok n"
  then have "(10::nat) ^ (length (show_nat (nat n)) - 1) \<le> nat n"
    by (intro show_nat_lower) (simp add: revision_ok_def)
  also have "\<dots> < 10 ^ 10" using n by (simp add: revision_ok_def MAX_REVISION_def nat_less_iff)
  finally have "length (show_nat (nat n)) - 1 < 10" by (rule power_less_imp_less_exp [rotated]) simp
  then have "length (show_nat (nat n)) \<le> 10" by linarith
  with n show ?thesis by (simp add: show_int_def revision_ok_def)
qed

lemma id_rest_chars: "id_rest after s \<Longrightarrow> \<forall>c \<in> set s. lower_alnum c \<or> c \<in> {CHR ''.'', CHR ''_'', CHR ''-''}"
  by (induction after s rule: id_rest.induct) (auto split: if_splits)

lemma canonical_sql_id: "canonical_id i \<Longrightarrow> sql_id i"
  by (cases i) (auto simp: canonical_id_def MAX_ID_LENGTH_def id_pattern_def sql_id_def lower_alnum_def dest!: id_rest_chars)

lemma target_bound: "target_wf t \<Longrightarrow> text_bound (target_json t) \<le> 400"
  by (cases t) (auto simp: APPROVED_CLOUD_PROVIDER_IDS_def LOCAL_ADAPTERS_def)

text \<open>The length of a field of an object.\<close>

definition field_bound :: "string \<times> jval \<Rightarrow> nat" where
  "field_bound p = 6 * length (fst p) + 4 + text_bound (snd p)"

lemma object_bound: "text_bound (JObj fs) = 2 + sum_list (map field_bound fs)"
  by (simp add: field_bound_def [abs_def])

lemma revision_field_bound: "revision_ok n \<Longrightarrow> field_bound (k, JInt n) \<le> 6 * length k + 14"
  using revision_text_bound [of n] by (simp add: field_bound_def del: number_string.simps)

lemma id_field_bound: "length i \<le> n \<Longrightarrow> field_bound (k, JStr i) \<le> 6 * length k + 6 * n + 6"
  by (simp add: field_bound_def)

lemma five_fields:
  "a \<le> 786 \<Longrightarrow> b \<le> 62 \<Longrightarrow> c \<le> 440 \<Longrightarrow> d \<le> 1200 \<Longrightarrow> e \<le> 1200 \<Longrightarrow>
   2 + (a + (b + (c + 0)) + (d + e)) \<le> (8192::nat)"
  by simp

lemma connection_bound:
  assumes "connection_wf p"
  shows "text_bound (connection_json p) \<le> 8192"
proof -
  have ok: "revision_ok (cp_revision p)" "length (cp_id p) \<le> 128" "target_wf (cp_target p)"
    using assms by (auto simp: connection_wf_def canonical_id_def MAX_ID_LENGTH_def)
  have i: "field_bound (''id'', JStr (cp_id p)) \<le> 786" using id_field_bound [OF ok(2), of "''id''"] by simp
  have n: "field_bound (''revision'', JInt (cp_revision p)) \<le> 62"
    using revision_field_bound [OF ok(1), of "''revision''"] by simp
  have t: "field_bound (''target'', target_json (cp_target p)) \<le> 440"
    using target_bound [OF ok(3)] by (simp add: field_bound_def)
  have c: "sum_list (map field_bound (opt_field ''credentialRef'' (credentialRef p))) \<le> 1200"
  proof (cases "credentialRef p")
    case (Some s)
    then have "length s \<le> 150"
      using assms ok(2) show_int_bound [OF ok(1)] by (auto simp: connection_wf_def credential_ref_of_def)
    from id_field_bound [OF this, of "''credentialRef''"] Some show ?thesis by (simp add: opt_field_def)
  qed (simp add: opt_field_def)
  have m: "sum_list (map field_bound (opt_field ''mutationId'' (mutationId p))) \<le> 1200"
  proof (cases "mutationId p")
    case (Some s)
    then have "length s \<le> 128" using assms by (auto simp: connection_wf_def mutation_id_def split: list.splits)
    from id_field_bound [OF this, of "''mutationId''"] Some show ?thesis by (simp add: opt_field_def)
  qed (simp add: opt_field_def)
  have eq: "text_bound (connection_json p) = 2 +
      (field_bound (''id'', JStr (cp_id p)) + (field_bound (''revision'', JInt (cp_revision p)) +
        (field_bound (''target'', target_json (cp_target p)) + 0)) +
       (sum_list (map field_bound (opt_field ''credentialRef'' (credentialRef p))) +
        sum_list (map field_bound (opt_field ''mutationId'' (mutationId p)))))"
    unfolding connection_json_def object_bound map_append sum_list.append list.map sum_list.Cons sum_list.Nil ..
  show ?thesis unfolding eq by (rule five_fields [OF i n t c m])
qed

definition connection_key_names :: "string list" where
  "connection_key_names =
     [''id'', ''revision'', ''target'', ''class'', ''definitionId'', ''adapter'', ''credentialRef'', ''mutationId'']"

lemma connection_keys: "set (all_keys (connection_json p)) \<subseteq> set connection_key_names"
  by (cases "cp_target p"; cases "credentialRef p"; cases "mutationId p")
    (simp_all add: connection_json_def opt_field_def connection_key_names_def)

lemma connection_no_secret: "\<not> has_key_of secret_keys (connection_json p)"
proof -
  have "map ascii_lower connection_key_names =
      [''id'', ''revision'', ''target'', ''class'', ''definitionid'', ''adapter'', ''credentialref'', ''mutationid'']"
    by code_simp
  then have "set (map ascii_lower connection_key_names) \<inter> set secret_keys = {}" by (simp add: secret_keys_def)
  with connection_keys [of p] show ?thesis unfolding has_key_of_def set_map by blast
qed

lemma connection_row_ok_stored:
  assumes wf: "connection_wf p" and cred: "state \<noteq> Enabled \<longrightarrow> credentialRef p = None"
    and t: "canonicalJson (connection_json p) = Inr t"
  shows "connection_row_ok \<lparr>crow_id = cp_id p, crow_revision = cp_revision p, crow_state = state, crow_json = t\<rparr>"
proof -
  let ?v = "json_norm (connection_json p)"
  have ok: "json_ok (connection_json p)" by (rule connection_json_ok)
  from canonicalJson_roundtrip [OF ok] t have parsed: "json_parse t = Some ?v" by auto
  have fits: "length t \<le> 8192" using canonicalJson_bound [OF t] connection_bound [OF wf] by (rule le_trans)
  obtain fs where obj: "?v = JObj fs" by (simp add: connection_json_def)
  have object: "sql_object t 8192 = Some ?v" using parsed fits by (simp add: sql_object_def obj)
  have secret: "\<not> has_key_of secret_keys ?v"
    using connection_no_secret [of p] by (simp add: has_key_of_def all_keys_norm)
  have st: "stored (connection_json p)" using ok by (simp add: stored_def)
  have fields: "jget ''id'' ?v = JStr (cp_id p)" "jget ''revision'' ?v = JInt (cp_revision p)"
    "jget ''credentialRef'' ?v = (case credentialRef p of None \<Rightarrow> JUndefined | Some s \<Rightarrow> JStr s)"
    by (simp_all add: jget_norm [OF st] connection_json_def opt_field_def split: option.splits)
  show ?thesis
    using wf cred secret
    by (auto simp: connection_row_ok_def object fields connection_wf_def revision_ok_def canonical_sql_id split: option.splits)
qed

section \<open>Histories\<close>

type_synonym histories = "string \<Rightarrow> connection_revision list"

datatype connection_request =
    Create_Profile jval
  | Revise_Profile jval int
  | Retire_Profile string "int option" profile_state

definition revision_conflict :: js_error where
  "revision_conflict = PlainError ''Connection profile revision conflict''"

definition missing_profile :: js_error where
  "missing_profile = PlainError ''Connection profile does not exist''"

text \<open>The next revision of a profile that is disabled or deleted: the credential is dropped.\<close>

definition retired :: "profile_state \<Rightarrow> connection_revision \<Rightarrow> connection_revision" where
  "retired state c = \<lparr>cr_state = state,
     cr_profile = \<lparr>cp_id = cp_id (cr_profile c), cp_revision = cp_revision (cr_profile c) + 1,
                   cp_target = cp_target (cr_profile c), credentialRef = None, mutationId = None\<rparr>\<rparr>"

fun connection_answer :: "histories \<Rightarrow> connection_request \<Rightarrow> js_error + connection_revision" where
  "connection_answer h (Create_Profile v) =
     bindE (parseConnectionProfile v) (\<lambda>p.
       if cp_revision p \<noteq> 1 then Inl (PlainError ''Connection profile must start at revision 1'')
       else if h (cp_id p) \<noteq> [] then Inl (PlainError ''Connection profile already exists'')
       else Inr \<lparr>cr_state = Enabled, cr_profile = p\<rparr>)"
| "connection_answer h (Revise_Profile v n) =
     bindE (parseConnectionProfile v) (\<lambda>p.
       if h (cp_id p) = [] \<or> cr_state (last (h (cp_id p))) = Deleted then Inl missing_profile
       else if int (length (h (cp_id p))) \<noteq> n \<or> cp_revision p \<noteq> n + 1 then Inl revision_conflict
       else Inr \<lparr>cr_state = Enabled, cr_profile = p\<rparr>)"
| "connection_answer h (Retire_Profile i n state) =
     (if h i = [] then Inl missing_profile
      else if state = Deleted \<and> cr_state (last (h i)) = Deleted then Inr (last (h i))
      else if n \<noteq> Some (int (length (h i))) then Inl revision_conflict
      else if int (length (h i)) = MAX_REVISION
      then Inl (TypeError ''connection profile revision must be an integer from 1 through 2147483647'')
      else Inr (retired state (last (h i))))"

definition record_answer :: "histories \<Rightarrow> js_error + connection_revision \<Rightarrow> histories" where
  "record_answer h answer =
     (case answer of
        Inl _ \<Rightarrow> h
      | Inr c \<Rightarrow> (let i = cp_id (cr_profile c) in if c \<in> set (h i) then h else h(i := h i @ [c])))"

fun runConnection :: "connection_request \<Rightarrow> connection_revision action" where
  "runConnection (Create_Profile v) = createConnectionProfile v"
| "runConnection (Revise_Profile v n) = reviseConnectionProfile v n"
| "runConnection (Retire_Profile i n state) = transitionConnection i n state"

definition histories :: "db \<Rightarrow> histories" where
  "histories db i = map connection_view (rows_of crow_id i (db_connections db))"

section \<open>The database implements them\<close>

lemma history_nth:
  assumes "provider_ok db" and "k < length (histories db i)"
  shows "cp_id (cr_profile (histories db i ! k)) = i \<and> cp_revision (cr_profile (histories db i ! k)) = int k + 1 \<and>
    connection_wf (cr_profile (histories db i ! k)) \<and>
    (cr_state (histories db i ! k) \<noteq> Enabled \<longrightarrow> credentialRef (cr_profile (histories db i ! k)) = None)"
proof -
  let ?rows = "rows_of crow_id i (db_connections db)"
  have k: "k < length ?rows" using assms(2) by (simp add: histories_def)
  then have "?rows ! k \<in> set ?rows" by simp
  then have r: "?rows ! k \<in> set (db_connections db)" "crow_id (?rows ! k) = i" by (auto simp: rows_of_def)
  with assms(1) obtain p where "connection_of (?rows ! k) p" by (auto simp: provider_ok_def)
  moreover have "crow_revision (?rows ! k) = int k + 1"
    using assms(1) contiguous_nth [of crow_revision ?rows k] k by (auto simp: provider_ok_def cl.lineage_ok_def)
  ultimately show ?thesis using k r(2) by (simp add: histories_def connection_view) (simp add: connection_of_def)
qed

lemma history_last:
  assumes "provider_ok db" and "histories db i \<noteq> []"
  shows "cp_id (cr_profile (last (histories db i))) = i"
    "cp_revision (cr_profile (last (histories db i))) = int (length (histories db i))"
    "connection_wf (cr_profile (last (histories db i)))"
  using history_nth [OF assms(1), of "length (histories db i) - 1" i] assms(2)
  by (simp_all add: last_conv_nth)
    (metis Suc_pred length_greater_0_conv of_nat_Suc add.commute)

lemma read_current_history:
  assumes "provider_ok db"
  shows "readCurrentConnectionProfile i db =
    (Inr (if histories db i = [] then None else Some (last (histories db i))), db)"
proof -
  have c: "contiguous crow_revision (rows_of crow_id i (db_connections db))"
    using assms by (simp add: provider_ok_def cl.lineage_ok_def)
  show ?thesis
    using contiguous_newest [OF c]
    by (auto simp: read_connection(2) [OF assms] current_row_def histories_def last_map)
qed

lemma storeConnection_next:
  assumes ok: "provider_ok db" and wf: "connection_wf p" and cred: "state \<noteq> Enabled \<longrightarrow> credentialRef p = None"
    and rev: "cp_revision p = int (length (histories db (cp_id p))) + 1"
  shows "\<exists>db'. storeConnection state p db = (Inr \<lparr>cr_state = state, cr_profile = p\<rparr>, db') \<and>
    histories db' = (histories db)(cp_id p := histories db (cp_id p) @ [\<lparr>cr_state = state, cr_profile = p\<rparr>]) \<and>
    db' = db\<lparr>db_connections := db_connections db'\<rparr>"
proof -
  obtain t where t: "canonicalJson (connection_json p) = Inr t"
    using canonicalJson_roundtrip [OF connection_json_ok, of p] by blast
  let ?r = "\<lparr>crow_id = cp_id p, crow_revision = cp_revision p, crow_state = state, crow_json = t\<rparr>"
  have c: "contiguous crow_revision (rows_of crow_id (cp_id p) (db_connections db))"
    using ok by (simp add: provider_ok_def cl.lineage_ok_def)
  have "next_revision crow_id crow_revision (db_connections db) ?r"
    using latest_contiguous [OF c] rev by (simp add: next_revision_def histories_def)
  moreover have "exact_connection db (cp_id p, cp_revision p) = None"
  proof (rule ccontr)
    assume "\<not> ?thesis"
    then obtain r where "exact_row crow_id crow_revision (db_connections db) (cp_id p) (cp_revision p) = Some r"
      by (auto simp: exact_connection_def)
    from cl.exact_bounded [OF _ this] ok rev show False by (simp add: provider_ok_def histories_def)
  qed
  ultimately have "insertConnection ?r db = (Inr (), db\<lparr>db_connections := db_connections db @ [?r]\<rparr>)"
    using connection_row_ok_stored [OF wf cred t] by (simp add: insertConnection_ok)
  then have "storeConnection state p db =
      (Inr \<lparr>cr_state = state, cr_profile = p\<rparr>, db\<lparr>db_connections := db_connections db @ [?r]\<rparr>)"
    using t by (simp add: storeConnection_ok)
  moreover have "connection_view ?r = \<lparr>cr_state = state, cr_profile = p\<rparr>"
    using connection_view [OF connection_of_stored [OF wf cred t]] by simp
  ultimately show ?thesis by (auto simp: histories_def rows_of_def fun_eq_iff)
qed

text \<open>What carrying out a request means on the histories.\<close>

definition implements :: "connection_request \<Rightarrow> db \<Rightarrow> bool" where
  "implements q db \<longleftrightarrow>
     fst (runConnection q db) = connection_answer (histories db) q \<and>
     histories (snd (runConnection q db)) = record_answer (histories db) (connection_answer (histories db) q) \<and>
     snd (runConnection q db) = db\<lparr>db_connections := db_connections (snd (runConnection q db))\<rparr>"

lemma histories_transaction [simp]: "histories (db\<lparr>is_transaction := b\<rparr>) = histories db"
  by (simp add: histories_def fun_eq_iff)

lemma fresh_revision:
  assumes "provider_ok db" and "cp_revision (cr_profile c) = int (length (histories db i)) + 1"
  shows "c \<notin> set (histories db i)"
  using history_nth [OF assms(1), of _ i] assms(2) by (force simp: in_set_conv_nth)

text \<open>A transaction that throws at once, and one that appends a revision.\<close>

lemma implements_refused:
  assumes "runConnection q db = (Inl e, db)" and "connection_answer (histories db) q = Inl e"
  shows "implements q db"
  using assms by (simp add: implements_def record_answer_def)

lemma implements_stored:
  assumes ok: "provider_ok db" and idle: "\<not> is_transaction db"
    and run: "runConnection q db =
      withImmediateTransaction (\<lambda>_. storeConnection state p (db\<lparr>is_transaction := True\<rparr>)) db"
    and answer: "connection_answer (histories db) q = Inr \<lparr>cr_state = state, cr_profile = p\<rparr>"
    and wf: "connection_wf p" and cred: "state \<noteq> Enabled \<longrightarrow> credentialRef p = None"
    and rev: "cp_revision p = int (length (histories db (cp_id p))) + 1"
  shows "implements q db"
proof -
  let ?db = "db\<lparr>is_transaction := True\<rparr>"
  from storeConnection_next [of ?db p state] ok wf cred rev obtain db' where
    store: "storeConnection state p ?db = (Inr \<lparr>cr_state = state, cr_profile = p\<rparr>, db')"
    and hist: "histories db' = (histories db)(cp_id p := histories db (cp_id p) @ [\<lparr>cr_state = state, cr_profile = p\<rparr>])"
    and frame: "db' = ?db\<lparr>db_connections := db_connections db'\<rparr>"
    by auto
  have "runConnection q db = (Inr \<lparr>cr_state = state, cr_profile = p\<rparr>, db'\<lparr>is_transaction := False\<rparr>)"
    unfolding run using idle store by (simp add: transaction_ok)
  moreover have "db'\<lparr>is_transaction := False\<rparr> = db\<lparr>db_connections := db_connections db'\<rparr>"
    using idle by (subst (1) frame) (cases db, simp)
  moreover have "histories (db\<lparr>db_connections := db_connections db'\<rparr>) = histories db'"
    by (simp add: histories_def fun_eq_iff)
  ultimately show ?thesis
    using answer hist fresh_revision [OF ok, of "\<lparr>cr_state = state, cr_profile = p\<rparr>" "cp_id p"] rev
    by (simp add: implements_def record_answer_def Let_def)
qed

lemma create_implements:
  assumes ok: "provider_ok db" and idle: "\<not> is_transaction db"
  shows "implements (Create_Profile v) db"
proof (cases "parseConnectionProfile v")
  case (Inl e)
  then show ?thesis by (intro implements_refused) (simp_all add: createConnectionProfile_def action_run)
next
  case (Inr p)
  note wf = parsed_connection [OF Inr]
  have latest: "latestRevision crow_revision (rows_of crow_id (cp_id p) (db_connections db)) = None \<longleftrightarrow> histories db (cp_id p) = []"
    by (simp add: latestRevision_def histories_def)
  show ?thesis
  proof (cases "cp_revision p = 1 \<and> histories db (cp_id p) = []")
    case True
    show ?thesis
      by (rule implements_stored [OF ok idle, where p = p and state = Enabled])
        (use Inr True wf latest idle in \<open>simp_all add: createConnectionProfile_def action_run withImmediateTransaction_def\<close>)
  next
    case False
    show ?thesis
      by (rule implements_refused [where e = "if cp_revision p \<noteq> 1 then PlainError ''Connection profile must start at revision 1''
            else PlainError ''Connection profile already exists''"])
        (use Inr False latest idle in \<open>auto simp: createConnectionProfile_def action_run withImmediateTransaction_def\<close>)
  qed
qed

lemma revise_implements:
  assumes ok: "provider_ok db" and idle: "\<not> is_transaction db"
  shows "implements (Revise_Profile v n) db"
proof (cases "parseConnectionProfile v")
  case (Inl e)
  then show ?thesis by (intro implements_refused) (simp_all add: reviseConnectionProfile_def action_run)
next
  case (Inr p)
  note wf = parsed_connection [OF Inr]
  let ?h = "histories db (cp_id p)"
  have read: "readCurrentConnectionProfile (cp_id p) (db\<lparr>is_transaction := True\<rparr>) =
      (Inr (if ?h = [] then None else Some (last ?h)), db\<lparr>is_transaction := True\<rparr>)"
    using read_current_history [of "db\<lparr>is_transaction := True\<rparr>" "cp_id p"] ok by simp
  note front = Inr reviseConnectionProfile_def action_run withImmediateTransaction_def bindA_def [of "readCurrentConnectionProfile _"] read
  show ?thesis
  proof (cases "?h \<noteq> [] \<and> cr_state (last ?h) \<noteq> Deleted \<and> int (length ?h) = n \<and> cp_revision p = n + 1")
    case True
    then have "cp_revision (cr_profile (last ?h)) = n" using history_last(2) [OF ok] by simp
    with True show ?thesis
      by (intro implements_stored [OF ok idle, where p = p and state = Enabled]) (use wf idle in \<open>simp_all add: front\<close>)
  next
    case False
    have "?h \<noteq> [] \<Longrightarrow> cp_revision (cr_profile (last ?h)) = int (length ?h)" using history_last(2) [OF ok] by simp
    with False show ?thesis
      by (intro implements_refused [where e = "if ?h = [] \<or> cr_state (last ?h) = Deleted then missing_profile else revision_conflict"])
        (use idle in \<open>auto simp: front missing_profile_def revision_conflict_def\<close>)
  qed
qed

text \<open>The profile of a retired revision, unless the revisions are used up.\<close>

lemma parse_retired:
  assumes "connection_wf (cr_profile c)"
  shows "parseConnectionProfile (connection_json (cr_profile (retired state c))) =
    (if cp_revision (cr_profile c) = MAX_REVISION
     then Inl (TypeError ''connection profile revision must be an integer from 1 through 2147483647'')
     else Inr (cr_profile (retired state c)))"
proof (cases "cp_revision (cr_profile c) = MAX_REVISION")
  case True
  have t: "connectionTarget (target_json (cp_target (cr_profile c))) = Inr (cp_target (cr_profile c))"
    using assms target_parses by (simp add: connection_wf_def)
  from True assms t show ?thesis
    by (simp add: parseConnectionProfile_def dataFields_def connection_json_def retired_def opt_field_def canonicalId_def
        connection_wf_def revision_def integer_between_def MAX_REVISION_def)
next
  case False
  with assms have "connection_wf (cr_profile (retired state c))"
    by (auto simp: connection_wf_def retired_def revision_ok_def)
  from connection_parses [OF this] False show ?thesis by simp
qed

lemma retire_implements:
  assumes ok: "provider_ok db" and idle: "\<not> is_transaction db"
  shows "implements (Retire_Profile i n state) db"
proof -
  let ?h = "histories db i" and ?db = "db\<lparr>is_transaction := True\<rparr>"
  have read: "readCurrentConnectionProfile i ?db = (Inr (if ?h = [] then None else Some (last ?h)), ?db)"
    using read_current_history [of ?db i] ok by simp
  note front = transitionConnection_def action_run withImmediateTransaction_def bindA_def [of "readCurrentConnectionProfile _"] read
  show ?thesis
  proof (cases "?h = []")
    case True
    then show ?thesis
      by (intro implements_refused [where e = missing_profile]) (use idle in \<open>simp_all add: front missing_profile_def\<close>)
  next
    case False
    note last = history_last [OF ok False]
    have parsed: "parseConnectionProfile (connection_json
          \<lparr>cp_id = cp_id (cr_profile (last ?h)), cp_revision = cp_revision (cr_profile (last ?h)) + 1,
           cp_target = cp_target (cr_profile (last ?h)), credentialRef = None, mutationId = None\<rparr>) =
        (if int (length ?h) = MAX_REVISION
         then Inl (TypeError ''connection profile revision must be an integer from 1 through 2147483647'')
         else Inr (cr_profile (retired state (last ?h))))"
      using parse_retired [OF last(3), of state] last(2) by (simp add: retired_def)
    consider (again) "state = Deleted \<and> cr_state (last ?h) = Deleted"
      | (refused) "\<not> (state = Deleted \<and> cr_state (last ?h) = Deleted)" "n \<noteq> Some (int (length ?h)) \<or> int (length ?h) = MAX_REVISION"
      | (stored) "\<not> (state = Deleted \<and> cr_state (last ?h) = Deleted)" "n = Some (int (length ?h))" "int (length ?h) \<noteq> MAX_REVISION"
      by blast
    then show ?thesis
    proof cases
      case again
      have "db\<lparr>is_transaction := False\<rparr> = db" using idle by (cases db) simp
      with again False idle last(1) show ?thesis
        by (simp add: implements_def front returnA_def record_answer_def Let_def)
    next
      case refused
      with False show ?thesis
        by (intro implements_refused [where e = "if n \<noteq> Some (int (length ?h)) then revision_conflict
              else TypeError ''connection profile revision must be an integer from 1 through 2147483647''"])
          (use idle last parsed in \<open>auto simp: front revision_conflict_def\<close>)
    next
      case stored
      have "connection_wf (cr_profile (retired state (last ?h)))"
        using parsed stored(3) parsed_connection by auto
      with stored False show ?thesis
        by (intro implements_stored [OF ok idle, where p = "cr_profile (retired state (last ?h))" and state = state])
          (use idle last parsed in \<open>auto simp: front retired_def\<close>)
    qed
  qed
qed

lemma runConnection_implements: "provider_ok db \<Longrightarrow> \<not> is_transaction db \<Longrightarrow> implements q db"
  by (cases q) (simp_all add: create_implements revise_implements retire_implements)

end
