(* ===== verification/Provider_Decisions.thy ===== *)
theory Provider_Decisions
  imports Connection_Refinement
begin

text \<open>
  What a resolved provider decision is made of, and when it has been superseded.
\<close>

section \<open>What a resolved decision is made of\<close>

lemma view_of_row:
  assumes "provider_ok db"
  shows "exact_model db ref = Some r \<Longrightarrow> model_of r (mr_profile (model_view r)) \<and> mr_state (model_view r) = mrow_state r \<and>
      mrow_id r = fst ref \<and> mrow_revision r = snd ref"
    and "exact_connection db ref = Some c \<Longrightarrow> connection_of c (cr_profile (connection_view c)) \<and>
      cr_state (connection_view c) = crow_state c \<and> crow_id c = fst ref \<and> crow_revision c = snd ref"
    and "effective_row db rm purpose = Some b \<Longrightarrow> binding_of b (binding_view b) \<and> brow_room b = rm \<and> brow_purpose b = purpose"
proof -
  assume r: "exact_model db ref = Some r"
  then have "r \<in> set (db_models db)" "mrow_id r = fst ref" "mrow_revision r = snd ref"
    by (auto simp: exact_model_def dest: exact_in)
  with assms obtain p where "model_of r p" by (auto simp: provider_ok_def)
  with r show "model_of r (mr_profile (model_view r)) \<and> mr_state (model_view r) = mrow_state r \<and>
      mrow_id r = fst ref \<and> mrow_revision r = snd ref"
    using \<open>mrow_id r = fst ref\<close> \<open>mrow_revision r = snd ref\<close> by (simp add: model_view)
next
  assume c: "exact_connection db ref = Some c"
  then have c': "c \<in> set (db_connections db)" "crow_id c = fst ref" "crow_revision c = snd ref"
    by (auto simp: exact_connection_def dest: exact_in)
  with assms obtain p where "connection_of c p" by (auto simp: provider_ok_def)
  with c' show "connection_of c (cr_profile (connection_view c)) \<and>
      cr_state (connection_view c) = crow_state c \<and> crow_id c = fst ref \<and> crow_revision c = snd ref"
    by (simp add: connection_view)
next
  assume b: "effective_row db rm purpose = Some b"
  then have b': "b \<in> set (db_bindings db)" "brow_room b = rm" "brow_purpose b = purpose"
    by (auto dest: effective_in)
  with assms obtain p where "binding_of b p" by (auto simp: provider_ok_def)
  with b' show "binding_of b (binding_view b) \<and> brow_room b = rm \<and> brow_purpose b = purpose"
    by (simp add: binding_view)
qed

text \<open>A profile in its current revision.\<close>

definition current_connection :: "db \<Rightarrow> string \<Rightarrow> connection_revision option" where
  "current_connection db i = map_option connection_view (current_row crow_id crow_revision (db_connections db) i)"

definition current_model :: "db \<Rightarrow> string \<Rightarrow> model_revision option" where
  "current_model db i = map_option model_view (current_row mrow_id mrow_revision (db_models db) i)"

definition effective_binding :: "db \<Rightarrow> string \<Rightarrow> string \<Rightarrow> room_binding option" where
  "effective_binding db r purpose = map_option binding_view (effective_row db r purpose)"

lemma current_of_exact:
  assumes ok: "provider_ok db"
  shows "exact_model db (i, n) = Some r \<Longrightarrow>
      map_option (\<lambda>m. mp_revision (mr_profile m)) (current_model db i) = Some n \<Longrightarrow> current_model db i = Some (model_view r)"
    and "exact_connection db (i, n) = Some c \<Longrightarrow>
      map_option (\<lambda>m. cp_revision (cr_profile m)) (current_connection db i) = Some n \<Longrightarrow>
      current_connection db i = Some (connection_view c)"
proof -
  assume r: "exact_model db (i, n) = Some r"
    and "map_option (\<lambda>m. mp_revision (mr_profile m)) (current_model db i) = Some n"
  then obtain q where q: "current_row mrow_id mrow_revision (db_models db) i = Some q" "mp_revision (mr_profile (model_view q)) = n"
    by (auto simp: current_model_def)
  from current_in [OF q(1)] ok obtain p where "model_of q p" by (auto simp: provider_ok_def)
  with q(2) have "mrow_revision q = n" by (simp add: model_view) (simp add: model_of_def)
  with ml.current_exact [OF _ q(1)] ok have "exact_model db (i, n) = Some q"
    by (simp add: provider_ok_def exact_model_def)
  with q(1) r show "current_model db i = Some (model_view r)" by (simp add: current_model_def)
next
  assume r: "exact_connection db (i, n) = Some c"
    and "map_option (\<lambda>m. cp_revision (cr_profile m)) (current_connection db i) = Some n"
  then obtain q where q: "current_row crow_id crow_revision (db_connections db) i = Some q"
      "cp_revision (cr_profile (connection_view q)) = n"
    by (auto simp: current_connection_def)
  from current_in [OF q(1)] ok obtain p where "connection_of q p" by (auto simp: provider_ok_def)
  with q(2) have "crow_revision q = n" by (simp add: connection_view) (simp add: connection_of_def)
  with cl.current_exact [OF _ q(1)] ok have "exact_connection db (i, n) = Some q"
    by (simp add: provider_ok_def exact_connection_def)
  with q(1) r show "current_connection db i = Some (connection_view c)" by (simp add: current_connection_def)
qed

definition usable :: "db \<Rightarrow> resolved_decision \<Rightarrow> bool" where
  "usable db d \<longleftrightarrow>
     effective_binding db (rb_roomId (rd_binding d)) (rb_purpose (rd_binding d)) = Some (rd_binding d) \<and>
     ref_profileId (rb_model (rd_binding d)) = mp_id (rd_model d) \<and> ref_revision (rb_model (rd_binding d)) = mp_revision (rd_model d) \<and>
     current_model db (mp_id (rd_model d)) = Some \<lparr>mr_state = Enabled, mr_profile = rd_model d\<rparr> \<and>
     ref_profileId (mp_connection (rd_model d)) = sc_id (rd_connection d) \<and>
     ref_revision (mp_connection (rd_model d)) = sc_revision (rd_connection d) \<and>
     (\<exists>c. current_connection db (sc_id (rd_connection d)) = Some \<lparr>cr_state = Enabled, cr_profile = c\<rparr> \<and>
        cp_id c = sc_id (rd_connection d) \<and> cp_revision c = sc_revision (rd_connection d) \<and> cp_target c = sc_target (rd_connection d)) \<and>
     po_health (rd_observation d) = ''ready'' \<and>
     readLatestConnectionObservation (mp_connection (rd_model d)) db = (Inr (Some (rd_observation d)), db)"

lemma observation_read:
  "readLatestConnectionObservation ref db = (Inr x, db') \<longleftrightarrow>
   fst (readLatestConnectionObservation ref db) = Inr x \<and> db' = db"
  by (auto simp: readLatestConnectionObservation_def bindA_def queryA_def liftA_def)

lemma resolve_usable:
  assumes ok: "provider_ok db" and run: "resolveRoomProviderDecision r purpose db = (Inr d, db')"
  shows "usable db d \<and> db' = db \<and> rb_roomId (rd_binding d) = r \<and> rb_purpose (rd_binding d) = purpose"
proof -
  note reads = read_connection [OF ok, folded current_connection_def] read_model [OF ok, folded current_model_def]
    read_binding [OF ok]
  note steps = run [unfolded resolveRoomProviderDecision_def]
  from steps obtain b where b: "effective_row db r purpose = Some b" by (auto simp: reads)
  let ?mref = "rb_model (binding_view b)"
  from steps b obtain m where m: "exact_model db (ref_profileId ?mref, ref_revision ?mref) = Some m"
    by (auto simp: reads)
  from steps b m obtain mc where mc: "current_model db (ref_profileId ?mref) = Some mc"
      "mp_revision (mr_profile mc) = ref_revision ?mref"
    by (auto simp: reads)
  from steps b m have men: "mr_state (model_view m) = Enabled" by (auto simp: reads)
  let ?cref = "mp_connection (mr_profile (model_view m))"
  from steps b m obtain c where c: "exact_connection db (ref_profileId ?cref, ref_revision ?cref) = Some c"
    by (auto simp: reads)
  from steps b m c obtain cc where cc: "current_connection db (ref_profileId ?cref) = Some cc"
      "cp_revision (cr_profile cc) = ref_revision ?cref"
    by (auto simp: reads)
  from steps b m c have cen: "cr_state (connection_view c) = Enabled" by (auto simp: reads)
  from steps b m c obtain ob where
    obs: "fst (readLatestConnectionObservation ?cref db) = Inr (Some ob)" and health: "po_health ob = ''ready''" and
    d: "d = \<lparr>rd_binding = binding_view b,
          rd_connection = \<lparr>sc_id = cp_id (cr_profile (connection_view c)), sc_revision = cp_revision (cr_profile (connection_view c)),
                           sc_target = cp_target (cr_profile (connection_view c))\<rparr>,
          rd_model = mr_profile (model_view m), rd_observation = ob\<rparr>" and
    same: "db' = db"
    by (auto simp: reads observation_read)
  note vb = view_of_row(3) [OF ok b] and vm = view_of_row(1) [OF ok m] and vc = view_of_row(2) [OF ok c]
  have mid: "mp_id (mr_profile (model_view m)) = ref_profileId (rb_model (binding_view b))"
      "mp_revision (mr_profile (model_view m)) = ref_revision (rb_model (binding_view b))"
    using vm by (simp_all add: model_of_def)
  have cid: "cp_id (cr_profile (connection_view c)) = ref_profileId (mp_connection (mr_profile (model_view m)))"
      "cp_revision (cr_profile (connection_view c)) = ref_revision (mp_connection (mr_profile (model_view m)))"
    using vc by (simp_all add: connection_of_def)
  have "model_view m = \<lparr>mr_state = Enabled, mr_profile = mr_profile (model_view m)\<rparr>" using men by (cases "model_view m") simp
  moreover have "connection_view c = \<lparr>cr_state = Enabled, cr_profile = cr_profile (connection_view c)\<rparr>"
    using cen by (cases "connection_view c") simp
  moreover note current_of_exact(1) [OF ok m] current_of_exact(2) [OF ok c]
  moreover have room: "rb_roomId (binding_view b) = r" "rb_purpose (binding_view b) = purpose"
    using vb by (simp_all add: binding_of_def)
  ultimately show ?thesis
    using mid cid obs health b mc cc unfolding usable_def d same effective_binding_def
    by (simp add: observation_read) (rule exI [of _ "cr_profile (connection_view c)"], simp)
qed

lemma resolve_current: "provider_ok db \<Longrightarrow> resolveRoomProviderDecision r purpose db = (Inr d, db') \<Longrightarrow>
   isResolvedRoomProviderDecisionCurrent d db"
  using resolve_usable [of db r purpose d db'] by (simp add: isResolvedRoomProviderDecisionCurrent_def)

lemma currentE:
  assumes "provider_ok db" and "isResolvedRoomProviderDecisionCurrent d db"
  obtains d' where "usable db d'" and "rb_roomId (rd_binding d') = rb_roomId (rd_binding d)"
    and "rb_purpose (rd_binding d') = rb_purpose (rd_binding d)" and "rb_revision (rd_binding d') = rb_revision (rd_binding d)"
    and "mp_id (rd_model d') = mp_id (rd_model d)" and "mp_revision (rd_model d') = mp_revision (rd_model d)"
    and "sc_id (rd_connection d') = sc_id (rd_connection d)" and "sc_revision (rd_connection d') = sc_revision (rd_connection d)"
proof -
  obtain x db' where run: "resolveRoomProviderDecision (rb_roomId (rd_binding d)) (rb_purpose (rd_binding d)) db = (x, db')"
    by fastforce
  with assms(2) obtain d' where x: "x = Inr d'"
    by (auto simp: isResolvedRoomProviderDecisionCurrent_def split: sum.splits)
  with run assms resolve_usable [OF assms(1), of _ _ d' db'] show ?thesis
    by (intro that [of d']) (auto simp: isResolvedRoomProviderDecisionCurrent_def)
qed

section \<open>Superseded revisions\<close>

definition superseded :: "resolved_decision \<Rightarrow> db \<Rightarrow> bool" where
  "superseded d db \<longleftrightarrow>
     (\<exists>c. current_connection db (sc_id (rd_connection d)) = Some c \<and> sc_revision (rd_connection d) < cp_revision (cr_profile c)) \<or>
     (\<exists>m. current_model db (mp_id (rd_model d)) = Some m \<and> mp_revision (rd_model d) < mp_revision (mr_profile m)) \<or>
     (\<exists>b. effective_binding db (rb_roomId (rd_binding d)) (rb_purpose (rd_binding d)) = Some b \<and>
        rb_revision (rd_binding d) < rb_revision b)"

text \<open>The effective binding of a room is the current revision of one binding.\<close>

lemma binding_same:
  "binding_lineage_ok rows r \<Longrightarrow> q \<in> set rows \<Longrightarrow>
   brow_room q = brow_room r \<and> brow_purpose q = brow_purpose r \<longleftrightarrow> brow_id q = brow_id r"
  unfolding binding_lineage_ok_def by blast

lemma effective_current:
  assumes ok: "provider_ok db" and row: "effective_row db r purpose = Some b"
  shows "current_row brow_id brow_revision (db_bindings db) (brow_id b) = Some b"
proof -
  from effective_in [OF row] have b: "b \<in> set (db_bindings db)" "brow_room b = r" "brow_purpose b = purpose" by auto
  with ok have "binding_lineage_ok (db_bindings db) b" by (simp add: provider_ok_def)
  from binding_same [OF this] have "filter (\<lambda>q. brow_room q = r \<and> brow_purpose q = purpose) (db_bindings db) =
      filter (\<lambda>q. brow_id q = brow_id b) (db_bindings db)"
    unfolding b(2,3) by (rule filter_cong [OF refl])
  with row show ?thesis by (simp add: effective_row_def current_row_def rows_of_def)
qed

lemma effective_None: "effective_row db r purpose = None \<longleftrightarrow> (\<forall>q \<in> set (db_bindings db). brow_room q = r \<longrightarrow> brow_purpose q \<noteq> purpose)"
  by (auto simp: effective_row_def filter_empty_conv)

lemma current_row_later:
  "later_rows = rows @ xs \<Longrightarrow> current_row k n rows i = Some r \<Longrightarrow> \<exists>r'. current_row k n later_rows i = Some r'"
  by (cases "newest n (rows_of k i later_rows)") (auto simp: current_row_def rows_of_def)

lemma view_numbers:
  assumes "provider_ok db"
  shows "current_row crow_id crow_revision (db_connections db) i = Some c \<Longrightarrow>
      cp_revision (cr_profile (connection_view c)) = crow_revision c"
    and "current_row mrow_id mrow_revision (db_models db) i = Some m \<Longrightarrow>
      mp_revision (mr_profile (model_view m)) = mrow_revision m"
    and "effective_row db r purpose = Some b \<Longrightarrow> rb_revision (binding_view b) = brow_revision b"
  using assms current_in [of crow_id crow_revision "db_connections db" i c] current_in [of mrow_id mrow_revision "db_models db" i m]
    view_of_row(3) [OF assms, of r purpose b]
  by (auto simp: provider_ok_def connection_view model_view binding_of_def) (auto simp: connection_of_def model_of_def
      connection_view_def model_view_def)

lemma superseded_stays:
  assumes ok: "provider_ok db" "provider_ok db'" and later: "history db db'" and old: "superseded d db"
  shows "superseded d db'"
proof -
  have lin: "cl.lineage_ok db" "ml.lineage_ok db" "bl.lineage_ok db" using ok(1) by (simp_all add: provider_ok_def)
  have l: "cl.later db db'" "ml.later db db'" "bl.later db db'" using later by (simp_all add: history_def)
  from old consider
      (connection) c where "current_row crow_id crow_revision (db_connections db) (sc_id (rd_connection d)) = Some c"
        "sc_revision (rd_connection d) < crow_revision c"
    | (model) m where "current_row mrow_id mrow_revision (db_models db) (mp_id (rd_model d)) = Some m"
        "mp_revision (rd_model d) < mrow_revision m"
    | (binding) b where "effective_row db (rb_roomId (rd_binding d)) (rb_purpose (rd_binding d)) = Some b"
        "rb_revision (rd_binding d) < brow_revision b"
    using view_numbers [OF ok(1)]
    by (auto simp: superseded_def current_connection_def current_model_def effective_binding_def)
  then show ?thesis
  proof cases
    case connection
    from current_row_later [OF _ connection(1)] cl.later_appends [OF l(1)] obtain c' where
      c': "current_row crow_id crow_revision (db_connections db') (sc_id (rd_connection d)) = Some c'" by blast
    from cl.superseded [OF lin(1) connection l(1) c'] view_numbers(1) [OF ok(2) c'] c' show ?thesis
      by (simp add: superseded_def current_connection_def)
  next
    case model
    from current_row_later [OF _ model(1)] ml.later_appends [OF l(2)] obtain m' where
      m': "current_row mrow_id mrow_revision (db_models db') (mp_id (rd_model d)) = Some m'" by blast
    from ml.superseded [OF lin(2) model l(2) m'] view_numbers(2) [OF ok(2) m'] m' show ?thesis
      by (simp add: superseded_def current_model_def)
  next
    case binding
    from bl.later_appends [OF l(3)] obtain xs where xs: "db_bindings db' = db_bindings db @ xs" by blast
    from effective_in [OF binding(1)] have b: "b \<in> set (db_bindings db')" by (simp add: xs)
    with effective_in [OF binding(1)] obtain b' where
      b': "effective_row db' (rb_roomId (rd_binding d)) (rb_purpose (rd_binding d)) = Some b'"
      by (metis effective_None option.exhaust)
    have "brow_id b' = brow_id b"
    proof -
      have "binding_lineage_ok (db_bindings db') b" using ok(2) b by (simp add: provider_ok_def)
      from binding_same [OF this, of b'] effective_in [OF b'] effective_in [OF binding(1)] show ?thesis by simp
    qed
    with effective_current [OF ok(2) b'] have "current_row brow_id brow_revision (db_bindings db') (brow_id b) = Some b'" by simp
    from bl.superseded [OF lin(3) effective_current [OF ok(1) binding(1)] binding(2) l(3) this]
      view_numbers(3) [OF ok(2) b'] b' show ?thesis
      by (simp add: superseded_def effective_binding_def)
  qed
qed

lemma superseded_not_current:
  assumes ok: "provider_ok db" and old: "superseded d db"
  shows "\<not> isResolvedRoomProviderDecisionCurrent d db"
proof
  assume "isResolvedRoomProviderDecisionCurrent d db"
  from currentE [OF ok this] obtain d' where u: "usable db d'" and
    same: "rb_roomId (rd_binding d') = rb_roomId (rd_binding d)" "rb_purpose (rd_binding d') = rb_purpose (rd_binding d)"
      "rb_revision (rd_binding d') = rb_revision (rd_binding d)" "mp_id (rd_model d') = mp_id (rd_model d)"
      "mp_revision (rd_model d') = mp_revision (rd_model d)" "sc_id (rd_connection d') = sc_id (rd_connection d)"
      "sc_revision (rd_connection d') = sc_revision (rd_connection d)"
    by blast
  from u have "effective_binding db (rb_roomId (rd_binding d)) (rb_purpose (rd_binding d)) = Some (rd_binding d')"
    unfolding usable_def same by blast
  moreover from u have "current_model db (mp_id (rd_model d)) = Some \<lparr>mr_state = Enabled, mr_profile = rd_model d'\<rparr>"
    unfolding usable_def same by blast
  moreover from u obtain c where "current_connection db (sc_id (rd_connection d)) = Some \<lparr>cr_state = Enabled, cr_profile = c\<rparr>"
      "cp_revision c = sc_revision (rd_connection d)"
    unfolding usable_def same by blast
  ultimately show False using old same(3,5) by (simp add: superseded_def)
qed

end
