(* ===== verification/Provider_Example.thy ===== *)
theory Provider_Example
  imports Provider_Decisions
begin

text \<open>
  A concrete run: a connection, an observation of it, a model profile and a room binding, after which
  the provider decision of the room resolves.
\<close>

section \<open>A concrete run\<close>

lemma migrated_provider_ok: "provider_ok (migrated_db clock)"
  by (simp add: provider_ok_def migrated_db_def cl.lineage_ok_def ml.lineage_ok_def bl.lineage_ok_def rows_of_def
      contiguous_def)

lemma example_created:
  assumes "provider_ok db" and "\<not> is_transaction db" and "histories db ''conn-a'' = []"
  shows "\<exists>db'. createConnectionProfile (connection_json example_connection) db =
      (Inr \<lparr>cr_state = Enabled, cr_profile = example_connection\<rparr>, db') \<and>
    provider_ok db' \<and> \<not> is_transaction db' \<and> db' = db\<lparr>db_connections := db_connections db'\<rparr> \<and>
    histories db' = (histories db)(''conn-a'' := [\<lparr>cr_state = Enabled, cr_profile = example_connection\<rparr>])"
proof -
  let ?q = "Create_Profile (connection_json example_connection)"
  have answer: "connection_answer (histories db) ?q = Inr \<lparr>cr_state = Enabled, cr_profile = example_connection\<rparr>"
    using connection_parses [OF example_connection_wf] assms(3) by (simp add: example_connection_def)
  obtain x db' where run: "createConnectionProfile (connection_json example_connection) db = (x, db')" by fastforce
  from runConnection_implements [OF assms(1,2), of ?q] run have
    x: "x = Inr \<lparr>cr_state = Enabled, cr_profile = example_connection\<rparr>" and
    hist: "histories db' = (histories db)(''conn-a'' := [\<lparr>cr_state = Enabled, cr_profile = example_connection\<rparr>])" and
    frame: "db' = db\<lparr>db_connections := db_connections db'\<rparr>"
    unfolding implements_def answer using assms(3)
    by (simp_all add: record_answer_def Let_def example_connection_def)
  have "provider_ok db'" using preservesD [OF connection_ops_keep(1) _ assms(1)] run x by blast
  moreover have "\<not> is_transaction db'" using assms(2) by (subst frame) simp
  ultimately show ?thesis using run x hist frame by blast
qed


definition ready_observation :: provider_observation where
  "ready_observation = \<lparr>po_id = ''observation-a'', po_connection = \<lparr>ref_profileId = ''conn-a'', ref_revision = 1\<rparr>,
     po_health = ''ready'', po_fingerprint = example_fingerprint, po_evidence = JObj [(''chat'', JBool True)]\<rparr>"

definition observation_row :: observation_row where
  "observation_row = \<lparr>obs_id = ''observation-a'', obs_connection = (''conn-a'', 1), obs_health = ''ready'',
     obs_fingerprint = example_fingerprint, obs_evidence = ''{\"chat\":true}''\<rparr>"

lemma evidence_text: "canonicalJson (JObj [(''chat'', JBool True)]) = Inr ''{\"chat\":true}''"
  by code_simp

lemma evidence_parses: "json_parse ''{\"chat\":true}'' = Some (JObj [(''chat'', JBool True)])"
  by code_simp

lemma ready_observation_valid: "validateObservation ready_observation = Inr ready_observation"
  by (simp add: validateObservation_def ready_observation_def validateEvidence_def evidence_text evidence_parses parse_text_def
      example_fingerprint_ok OBSERVATION_EVIDENCE_FIELDS_def js_trim_def js_trim_start_def js_trim_end_def js_space_def
      example_simps)

lemma observation_row_ok: "observation_row_ok observation_row"
  by (simp add: observation_row_ok_def observation_row_def sql_object_def evidence_parses example_fingerprint_ok
      OBSERVATION_EVIDENCE_FIELDS_def)

lemma observation_read_back: "observationFromRow (Some observation_row) = Inr (Some ready_observation)"
  using ready_observation_valid
  by (simp add: observationFromRow_def observation_row_def parse_text_def evidence_parses ready_observation_def)

text \<open>The database holds the example connection in its first revision, and then the example model.\<close>

definition has_connection :: "db \<Rightarrow> bool" where
  "has_connection db \<longleftrightarrow> provider_ok db \<and>
     (\<exists>r. rows_of crow_id ''conn-a'' (db_connections db) = [r] \<and> crow_revision r = 1 \<and> crow_state r = Enabled \<and>
        connection_of r example_connection)"

definition has_model :: "db \<Rightarrow> bool" where
  "has_model db \<longleftrightarrow> (\<exists>r. rows_of mrow_id ''model-a'' (db_models db) = [r] \<and> mrow_revision r = 1 \<and> mrow_state r = Enabled \<and>
     model_of r example_model)"

lemma has_frame [simp]:
  "has_connection (db\<lparr>is_transaction := b\<rparr>) = has_connection db"
  "has_model (db\<lparr>is_transaction := b\<rparr>) = has_model db"
  by (simp_all add: has_connection_def has_model_def)

lemma has_connection_reads:
  assumes "has_connection db"
  shows "readConnectionProfile ''conn-a'' 1 db = (Inr (Some \<lparr>cr_state = Enabled, cr_profile = example_connection\<rparr>), db)"
    "readCurrentConnectionProfile ''conn-a'' db = (Inr (Some \<lparr>cr_state = Enabled, cr_profile = example_connection\<rparr>), db)"
    "exact_connection db (''conn-a'', 1) \<noteq> None"
proof -
  from assms have ok: "provider_ok db" by (simp add: has_connection_def)
  from assms obtain r where r: "rows_of crow_id ''conn-a'' (db_connections db) = [r]" "crow_revision r = 1" "crow_state r = Enabled"
      "connection_of r example_connection" by (auto simp: has_connection_def)
  have exact: "exact_connection db (''conn-a'', 1) = Some r" by (simp add: exact_connection_def exact_rows_of r)
  have cur: "current_row crow_id crow_revision (db_connections db) ''conn-a'' = Some r" by (simp add: current_row_def r)
  from r have view: "connection_view r = \<lparr>cr_state = Enabled, cr_profile = example_connection\<rparr>" by (simp add: connection_view)
  show "readConnectionProfile ''conn-a'' 1 db = (Inr (Some \<lparr>cr_state = Enabled, cr_profile = example_connection\<rparr>), db)"
    by (simp add: read_connection [OF ok] exact view)
  show "readCurrentConnectionProfile ''conn-a'' db = (Inr (Some \<lparr>cr_state = Enabled, cr_profile = example_connection\<rparr>), db)"
    by (simp add: read_connection [OF ok] cur view)
  show "exact_connection db (''conn-a'', 1) \<noteq> None" by (simp add: exact)
qed

lemma has_model_reads:
  assumes "provider_ok db" and "has_model db"
  shows "readModelProfile ''model-a'' 1 db = (Inr (Some \<lparr>mr_state = Enabled, mr_profile = example_model\<rparr>), db)"
    "readCurrentModelProfile ''model-a'' db = (Inr (Some \<lparr>mr_state = Enabled, mr_profile = example_model\<rparr>), db)"
    "exact_model db (''model-a'', 1) \<noteq> None"
proof -
  from assms(2) obtain r where r: "rows_of mrow_id ''model-a'' (db_models db) = [r]" "mrow_revision r = 1" "mrow_state r = Enabled"
      "model_of r example_model" by (auto simp: has_model_def)
  have exact: "exact_model db (''model-a'', 1) = Some r" by (simp add: exact_model_def exact_rows_of r)
  have cur: "current_row mrow_id mrow_revision (db_models db) ''model-a'' = Some r" by (simp add: current_row_def r)
  from r have view: "model_view r = \<lparr>mr_state = Enabled, mr_profile = example_model\<rparr>" by (simp add: model_view)
  show "readModelProfile ''model-a'' 1 db = (Inr (Some \<lparr>mr_state = Enabled, mr_profile = example_model\<rparr>), db)"
    by (simp add: read_model [OF assms(1)] exact view)
  show "readCurrentModelProfile ''model-a'' db = (Inr (Some \<lparr>mr_state = Enabled, mr_profile = example_model\<rparr>), db)"
    by (simp add: read_model [OF assms(1)] cur view)
  show "exact_model db (''model-a'', 1) \<noteq> None" by (simp add: exact)
qed

lemma example_number: "number_text 1 0 = ''1''" "number_text (Suc 0) 0 = ''1''" "number_text 512 0 = ''512''" "number_text 7 (Suc 0) = ''0.7''"
  by code_simp+

lemma example_model_fits: "text_bound (model_json example_model) \<le> 16384"
  by (simp add: model_json_def example_model_def ref_json_def generation_json_def example_generation_def example_number)

lemma example_binding_fits: "text_bound (binding_json example_binding) \<le> 8192"
  by (simp add: binding_json_def example_binding_def ref_json_def example_number)

lemma example_model_keys: "\<not> has_key_of (''credentialref'' # secret_keys) (model_json example_model)"
proof -
  have "all_keys (model_json example_model) = [''id'', ''revision'', ''connection'', ''modelId'', ''requiredCapabilities'',
      ''generation'', ''profileId'', ''revision'', ''temperature'', ''maxOutputTokens'']"
    by (simp add: model_json_def example_model_def ref_json_def generation_json_def)
  moreover have "map ascii_lower [''id'', ''revision'', ''connection'', ''modelId'', ''requiredCapabilities'', ''generation'',
       ''profileId'', ''revision'', ''temperature'', ''maxOutputTokens''] =
      [''id'', ''revision'', ''connection'', ''modelid'', ''requiredcapabilities'', ''generation'',
       ''profileid'', ''revision'', ''temperature'', ''maxoutputtokens'']"
    by code_simp
  ultimately have "set (map ascii_lower (all_keys (model_json example_model))) \<inter> set (''credentialref'' # secret_keys) = {}"
    by (simp add: secret_keys_def)
  then show ?thesis unfolding has_key_of_def set_map by blast
qed

text \<open>A stored text as the constraints of a table see it.\<close>

lemma sql_object_stored:
  assumes "json_ok v" and "canonicalJson v = Inr t" and "text_bound v \<le> n" and "v = JObj fs"
  shows "sql_object t n = Some (json_norm v)"
proof -
  from canonicalJson_roundtrip [OF assms(1)] assms(2) have "json_parse t = Some (json_norm v)" by auto
  moreover have "length t \<le> n" using canonicalJson_bound [OF assms(2)] assms(3) by simp
  ultimately show ?thesis by (simp add: sql_object_def assms(4))
qed

definition model_row_of :: "string \<Rightarrow> model_row" where
  "model_row_of t = \<lparr>mrow_id = ''model-a'', mrow_revision = 1, mrow_state = Enabled, mrow_connection = (''conn-a'', 1), mrow_json = t\<rparr>"

definition binding_row_of :: "string \<Rightarrow> binding_row" where
  "binding_row_of t = \<lparr>brow_id = ''bind-a'', brow_revision = 1, brow_room = ''first-playable'', brow_purpose = ''persona-default'',
     brow_model = (''model-a'', 1), brow_json = t\<rparr>"

lemma example_sql_ids: "sql_id ''model-a''" "sql_id ''bind-a''" "sql_id ''decision-a''"
  using canonical_sql_id example_ids by blast+

lemma model_row_fits:
  assumes "canonicalJson (model_json example_model) = Inr t"
  shows "model_row_ok (model_row_of t)"
proof -
  have ok: "json_ok (model_json example_model)"
    by (rule model_json_ok [OF _ example_model_wf]) (simp add: example_model_def example_generation_wf)
  then have st: "stored (model_json example_model)" by (simp add: stored_def)
  have obj: "sql_object t 16384 = Some (json_norm (model_json example_model))"
    using sql_object_stored [OF ok assms example_model_fits] by (simp add: model_json_def)
  have fields: "jget ''id'' (model_json example_model) = JStr ''model-a''" "jget ''revision'' (model_json example_model) = JInt 1"
    "jget ''connection'' (model_json example_model) = ref_json \<lparr>ref_profileId = ''conn-a'', ref_revision = 1\<rparr>"
    by (simp_all add: model_json_def example_model_def)
  have st': "stored (ref_json \<lparr>ref_profileId = ''conn-a'', ref_revision = 1\<rparr>)" by (simp add: stored_def ref_json_ok)
  have "\<not> has_key_of (''credentialref'' # secret_keys) (json_norm (model_json example_model))"
    using example_model_keys by (simp add: has_key_of_def all_keys_norm)
  then show ?thesis
    by (simp add: model_row_ok_def model_row_of_def obj jget_norm [OF st] jget_norm [OF st'] fields example_sql_ids MAX_REVISION_def)
      (simp add: ref_json_def)
qed

lemma binding_row_fits:
  assumes "canonicalJson (binding_json example_binding) = Inr t"
  shows "binding_row_ok (binding_row_of t)"
proof -
  note ok = binding_json_ok [of example_binding]
  then have st: "stored (binding_json example_binding)" by (simp add: stored_def)
  have obj: "sql_object t 8192 = Some (json_norm (binding_json example_binding))"
    using sql_object_stored [OF ok assms example_binding_fits] by (simp add: binding_json_def)
  have fields: "jget ''id'' (binding_json example_binding) = JStr ''bind-a''" "jget ''revision'' (binding_json example_binding) = JInt 1"
    "jget ''roomId'' (binding_json example_binding) = JStr ''first-playable''"
    "jget ''purpose'' (binding_json example_binding) = JStr ''persona-default''"
    "jget ''model'' (binding_json example_binding) = ref_json \<lparr>ref_profileId = ''model-a'', ref_revision = 1\<rparr>"
    by (simp_all add: binding_json_def example_binding_def)
  have st': "stored (ref_json \<lparr>ref_profileId = ''model-a'', ref_revision = 1\<rparr>)" by (simp add: stored_def ref_json_ok)
  show ?thesis
    by (simp add: binding_row_ok_def binding_row_of_def obj jget_norm [OF st] jget_norm [OF st'] fields example_sql_ids MAX_REVISION_def)
      (simp add: ref_json_def)
qed

text \<open>The four operations, each on any database that fits.\<close>

lemma transaction_frame: "\<not> is_transaction db \<Longrightarrow> db\<lparr>is_transaction := False\<rparr> = db"
  by (cases db) simp

lemma exact_frame [simp]:
  "exact_connection (db\<lparr>is_transaction := b\<rparr>) ref1 = exact_connection db ref1"
  "exact_model (db\<lparr>is_transaction := b\<rparr>) ref2 = exact_model db ref2"
  "exact_binding (db\<lparr>is_transaction := b\<rparr>) ref3 = exact_binding db ref3"
  by (simp_all add: exact_connection_def exact_model_def exact_binding_def)

lemma example_observe:
  assumes "has_connection db" and "\<not> is_transaction db" and "\<forall>q \<in> set (db_observations db). obs_id q \<noteq> ''observation-a''"
  shows "observeConnection ready_observation db = (Inr ready_observation, db\<lparr>db_observations := db_observations db @ [observation_row]\<rparr>)"
proof -
  note read = has_connection_reads [of "db\<lparr>is_transaction := True\<rparr>"]
  show ?thesis
    unfolding observeConnection_def
    using ready_observation_valid read observation_row_ok assms transaction_frame [of db]
    by (simp add: action_run transaction_ok ready_observation_def evidence_text insertObservation_ok observation_row_def)
qed

lemma example_create_model:
  assumes conn: "has_connection db" and idle: "\<not> is_transaction db" and new: "rows_of mrow_id ''model-a'' (db_models db) = []"
    and t: "canonicalJson (model_json example_model) = Inr t"
  shows "createModelProfile (model_json example_model) db =
    (Inr \<lparr>mr_state = Enabled, mr_profile = example_model\<rparr>, db\<lparr>db_models := db_models db @ [model_row_of t]\<rparr>)"
proof -
  let ?db = "db\<lparr>is_transaction := True\<rparr>"
  note read = has_connection_reads [of ?db]
  have require: "requireCurrentEnabledConnection (mp_connection example_model) ?db = (Inr (), ?db)"
    using read conn by (simp add: requireCurrentEnabledConnection_def example_model_def example_connection_def)
  have "next_revision mrow_id mrow_revision (db_models db) (model_row_of t)"
    by (simp add: next_revision_def model_row_of_def new latestRevision_def)
  moreover have "exact_model db (''model-a'', 1) = None" by (simp add: exact_model_def exact_rows_of new)
  ultimately have "insertModel (model_row_of t) ?db = (Inr (), ?db\<lparr>db_models := db_models db @ [model_row_of t]\<rparr>)"
    using model_row_fits [OF t] has_connection_reads(3) [OF conn] by (simp add: insertModel_ok model_row_of_def)
  then have store: "storeModel Enabled example_model ?db =
      (Inr \<lparr>mr_state = Enabled, mr_profile = example_model\<rparr>, ?db\<lparr>db_models := db_models db @ [model_row_of t]\<rparr>)"
    using t by (simp add: storeModel_ok model_row_of_def) (simp add: example_model_def)
  have "latestRevision mrow_revision (rows_of mrow_id (mp_id example_model) (db_models db)) = None"
    using new by (simp add: latestRevision_def example_model_def)
  moreover have "mp_revision example_model = 1" by (simp add: example_model_def)
  ultimately show ?thesis
    unfolding createModelProfile_def using require store idle transaction_frame [OF idle]
    by (simp add: action_run transaction_ok model_parses [OF example_model_wf])
qed

lemma example_bind:
  assumes conn: "has_connection db" and mod: "has_model db" and idle: "\<not> is_transaction db"
    and new: "db_bindings db = []" and room: "find_room db ''first-playable'' \<noteq> None"
    and t: "canonicalJson (binding_json example_binding) = Inr t"
  shows "bindRoom (binding_json example_binding) db =
    (Inr example_binding, db\<lparr>db_bindings := [binding_row_of t]\<rparr>)"
proof -
  let ?db = "db\<lparr>is_transaction := True\<rparr>"
  have ok: "provider_ok ?db" using conn by (simp add: has_connection_def)
  note read = has_connection_reads [of ?db] has_model_reads [of ?db]
  have require: "requireBindableModel example_binding ?db = (Inr (), ?db)"
    using read conn mod ok
    by (simp add: requireBindableModel_def example_model_def example_connection_def example_binding_def)
  have "next_revision brow_id brow_revision (db_bindings db) (binding_row_of t)" "binding_lineage_ok (db_bindings db) (binding_row_of t)"
    by (simp_all add: next_revision_def binding_row_of_def new latestRevision_def rows_of_def binding_lineage_ok_def)
  moreover have "exact_binding db (''bind-a'', 1) = None" by (simp add: exact_binding_def exact_row_def new)
  ultimately have "insertBinding (binding_row_of t) ?db = (Inr (), ?db\<lparr>db_bindings := [binding_row_of t]\<rparr>)"
    using binding_row_fits [OF t] has_model_reads(3) [of db] mod ok room new
    by (simp add: insertBinding_ok binding_row_of_def find_room_def)
  then have store: "storeBinding example_binding ?db = (Inr example_binding, ?db\<lparr>db_bindings := [binding_row_of t]\<rparr>)"
    using t by (simp add: storeBinding_ok binding_row_of_def) (simp add: example_binding_def)
  have "readEffectiveRoomBinding (rb_roomId example_binding) (rb_purpose example_binding) ?db = (Inr None, ?db)"
    by (simp add: read_binding [OF ok] effective_row_def new)
  moreover have "rb_revision example_binding = 1" by (simp add: example_binding_def)
  ultimately show ?thesis
    unfolding bindRoom_def using require store idle transaction_frame [OF idle]
    by (simp add: action_run transaction_ok binding_parses [OF example_binding_wf])
qed

section \<open>The whole run\<close>

definition example_ops :: "provider_op list" where
  "example_ops = [CreateConnection (connection_json example_connection), Observe ready_observation,
     CreateModel (model_json example_model), BindRoom (binding_json example_binding)]"

definition example_resolved :: resolved_decision where
  "example_resolved = \<lparr>rd_binding = example_binding,
     rd_connection = \<lparr>sc_id = ''conn-a'', sc_revision = 1, sc_target = Approved_Provider ''openai''\<rparr>,
     rd_model = example_model, rd_observation = ready_observation\<rparr>"

definition example_ready :: "db \<Rightarrow> bool" where
  "example_ready db \<longleftrightarrow> provider_run (migrated_db []) example_ops db \<and> \<not> is_transaction db \<and> has_connection db \<and> has_model db \<and>
     resolveRoomProviderDecision ''first-playable'' ''persona-default'' db = (Inr example_resolved, db) \<and>
     effective_binding db ''first-playable'' ''persona-default'' = Some example_binding \<and>
     db_observations db = [observation_row] \<and> exact_binding db (''bind-a'', 1) \<noteq> None \<and> db_snapshots db = [] \<and> find_room db ''first-playable'' \<noteq> None"

lemma example_model_json_ok: "json_ok (model_json example_model)"
  by (rule model_json_ok [OF _ example_model_wf]) (simp add: example_model_def example_generation_wf)

lemma example_resolves:
  assumes conn: "has_connection db" and mod: "has_model db"
    and bind: "effective_binding db ''first-playable'' ''persona-default'' = Some example_binding"
    and obs: "db_observations db = [observation_row]"
  shows "resolveRoomProviderDecision ''first-playable'' ''persona-default'' db = (Inr example_resolved, db)"
proof -
  have ok: "provider_ok db" using conn by (simp add: has_connection_def)
  have "readEffectiveRoomBinding ''first-playable'' ''persona-default'' db = (Inr (Some example_binding), db)"
    using bind by (simp add: read_binding [OF ok] effective_binding_def)
  moreover have "readLatestConnectionObservation \<lparr>ref_profileId = ''conn-a'', ref_revision = 1\<rparr> db = (Inr (Some ready_observation), db)"
    using observation_read_back by (simp add: readLatestConnectionObservation_def action_run obs) (simp add: observation_row_def)
  ultimately show ?thesis
    using has_connection_reads [OF conn] has_model_reads [OF ok mod]
    by (simp add: resolveRoomProviderDecision_def example_binding_def example_model_def example_connection_def
        example_resolved_def ready_observation_def)
qed

lemma example_first:
  "\<exists>db1. createConnectionProfile (connection_json example_connection) (migrated_db []) =
      (Inr \<lparr>cr_state = Enabled, cr_profile = example_connection\<rparr>, db1) \<and>
    has_connection db1 \<and> \<not> is_transaction db1 \<and> db_observations db1 = [] \<and> db_models db1 = [] \<and>
    db_bindings db1 = [] \<and> db_snapshots db1 = [] \<and> find_room db1 ''first-playable'' \<noteq> None"
proof -
  have ok0: "provider_ok (migrated_db [])" and idle0: "\<not> is_transaction (migrated_db [])"
    by (rule migrated_provider_ok) (simp add: migrated_db_def)
  have "histories (migrated_db []) ''conn-a'' = []" by (simp add: histories_def migrated_db_def rows_of_def)
  from example_created [OF ok0 idle0 this] obtain db1 where
    run1: "createConnectionProfile (connection_json example_connection) (migrated_db []) =
      (Inr \<lparr>cr_state = Enabled, cr_profile = example_connection\<rparr>, db1)" and
    ok1: "provider_ok db1" "\<not> is_transaction db1" and
    frame1: "db1 = (migrated_db [])\<lparr>db_connections := db_connections db1\<rparr>" and
    hist1: "histories db1 ''conn-a'' = [\<lparr>cr_state = Enabled, cr_profile = example_connection\<rparr>]" by auto
  from hist1 obtain r where r: "rows_of crow_id ''conn-a'' (db_connections db1) = [r]"
      "connection_view r = \<lparr>cr_state = Enabled, cr_profile = example_connection\<rparr>" by (auto simp: histories_def)
  have "r \<in> set (rows_of crow_id ''conn-a'' (db_connections db1))" by (simp add: r)
  then have "r \<in> set (db_connections db1)" by (simp add: rows_of_def)
  with ok1(1) obtain p where p: "connection_of r p" by (auto simp: provider_ok_def)
  with r(2) have "connection_of r example_connection" "crow_state r = Enabled" by (simp_all add: connection_view)
  moreover from this have "crow_revision r = 1" by (simp add: connection_of_def example_connection_def)
  ultimately have conn1: "has_connection db1" using r(1) ok1 by (auto simp: has_connection_def)
  have empty1: "db_observations db1 = []" "db_models db1 = []" "db_bindings db1 = []" "db_snapshots db1 = []"
      "find_room db1 ''first-playable'' \<noteq> None"
    by (subst frame1; simp add: migrated_db_def find_room_def)+
  show ?thesis using run1 conn1 ok1(2) empty1 by blast
qed

lemma example_run: "\<exists>db. example_ready db"
proof -
  from example_first obtain db1 where
    run1: "createConnectionProfile (connection_json example_connection) (migrated_db []) =
      (Inr \<lparr>cr_state = Enabled, cr_profile = example_connection\<rparr>, db1)" and
    conn1: "has_connection db1" and idle1: "\<not> is_transaction db1" and
    empty1: "db_observations db1 = []" "db_models db1 = []" "db_bindings db1 = []" "db_snapshots db1 = []"
      "find_room db1 ''first-playable'' \<noteq> None"
    by blast
  have ok1: "provider_ok db1" using conn1 by (simp add: has_connection_def)
  let ?db2 = "db1\<lparr>db_observations := [observation_row]\<rparr>"
  have run2: "observeConnection ready_observation db1 = (Inr ready_observation, ?db2)"
    using example_observe [OF conn1 idle1] empty1 by simp
  have ok2: "provider_ok ?db2" using preservesD [OF observe_keeps run2 ok1] .
  then have conn2: "has_connection ?db2" using conn1 by (simp add: has_connection_def)
  obtain t where t: "canonicalJson (model_json example_model) = Inr t"
    using canonicalJson_roundtrip [OF example_model_json_ok] by blast
  let ?db3 = "?db2\<lparr>db_models := [model_row_of t]\<rparr>"
  have run3: "createModelProfile (model_json example_model) ?db2 = (Inr \<lparr>mr_state = Enabled, mr_profile = example_model\<rparr>, ?db3)"
    using example_create_model [OF conn2 _ _ t] idle1 empty1 by (simp add: rows_of_def)
  have ok3: "provider_ok ?db3" using preservesD [OF model_ops_keep(1) [OF example_model_json_ok] run3 ok2] .
  then have conn3: "has_connection ?db3" using conn2 by (simp add: has_connection_def)
  from ok3 obtain m where m: "model_of (model_row_of t) m" by (auto simp: provider_ok_def)
  moreover have "parse_text parseModelProfile t = Inr example_model"
    using parse_text_back [OF model_reads_back [OF example_model_wf] t] example_generation_wf(2) by (simp add: example_model_def)
  with m have "m = example_model" by (simp add: model_of_def model_row_of_def)
  ultimately have "model_of (model_row_of t) example_model" by blast
  then have mod3: "has_model ?db3" by (simp add: has_model_def rows_of_def model_row_of_def)
  obtain s where s: "canonicalJson (binding_json example_binding) = Inr s"
    using canonicalJson_roundtrip [OF binding_json_ok] by blast
  let ?db4 = "?db3\<lparr>db_bindings := [binding_row_of s]\<rparr>"
  have run4: "bindRoom (binding_json example_binding) ?db3 = (Inr example_binding, ?db4)"
    using example_bind [OF conn3 mod3 _ _ _ s] idle1 empty1 by (simp add: find_room_def)
  have ok4: "provider_ok ?db4" using preservesD [OF binding_ops_keep(1) run4 ok3] .
  then have conn4: "has_connection ?db4" and mod4: "has_model ?db4"
    using conn3 mod3 by (simp_all add: has_connection_def has_model_def)
  have "parse_text parseRoomBinding s = Inr example_binding"
    using parse_text_back [OF binding_reads_back [OF example_binding_wf] s] .
  then have eff4: "effective_binding ?db4 ''first-playable'' ''persona-default'' = Some example_binding"
    by (simp add: effective_binding_def effective_row_def binding_row_of_def binding_view_def)
  from example_resolves [OF conn4 mod4 eff4]
  have "resolveRoomProviderDecision ''first-playable'' ''persona-default'' ?db4 = (Inr example_resolved, ?db4)" by simp
  moreover have "provider_run (migrated_db []) example_ops ?db4"
  proof -
    note run_simps = ignoring_def bindA_def returnA_def
    have "runProvider (CreateConnection (connection_json example_connection)) (migrated_db []) = (Inr (), db1)"
      "runProvider (Observe ready_observation) db1 = (Inr (), ?db2)"
      "runProvider (CreateModel (model_json example_model)) ?db2 = (Inr (), ?db3)"
      "runProvider (BindRoom (binding_json example_binding)) ?db3 = (Inr (), ?db4)"
      using run1 run2 run3 run4 by (simp_all add: run_simps)
    from provider_run.step [OF provider_run.step [OF provider_run.step [OF provider_run.step [OF provider_run.none
        _ this(1)] _ this(2)] _ this(3)] _ this(4)]
    show ?thesis by (simp add: example_ops_def example_model_json_ok)
  qed
  ultimately show ?thesis
    using conn4 mod4 eff4 idle1 empty1 by (auto simp: example_ready_def exact_binding_def exact_row_def binding_row_of_def find_room_def)
qed

end
