(* ===== verification/Provider_Claims.thy ===== *)
theory Provider_Claims
  imports Provider_Example
begin

text \<open>
  The properties of provider profiles, room bindings and decision snapshots, with witnesses on the
  database that the migrations leave.
\<close>

section \<open>Connection profiles\<close>

text \<open>
  C36: creating, revising, disabling and deleting connection
  profiles implements a map from ids to histories: in every well-formed database each request gives
  exactly the answer (or the error) that the histories determine, and appends exactly that revision
  to exactly that history; the revision expected by the caller is a compare-and-set on the length of
  the history, and no other table changes.
\<close>

theorem connection_profiles_refine_histories:
  assumes "provider_ok db" and "\<not> is_transaction db"
  shows "fst (runConnection q db) = connection_answer (histories db) q \<and>
    histories (snd (runConnection q db)) = record_answer (histories db) (connection_answer (histories db) q) \<and>
    snd (runConnection q db) = db\<lparr>db_connections := db_connections (snd (runConnection q db))\<rparr>"
  using runConnection_implements [OF assms] by (simp only: implements_def)

theorem connection_profiles_refine_histories_witness:
  "fst (runConnection (Create_Profile (connection_json example_connection)) (migrated_db [])) =
     Inr \<lparr>cr_state = Enabled, cr_profile = example_connection\<rparr>"
proof -
  have idle: "\<not> is_transaction (migrated_db [])" by (simp add: migrated_db_def)
  have "histories (migrated_db []) ''conn-a'' = []" by (simp add: histories_def migrated_db_def rows_of_def)
  then have "connection_answer (histories (migrated_db [])) (Create_Profile (connection_json example_connection)) =
      Inr \<lparr>cr_state = Enabled, cr_profile = example_connection\<rparr>"
    using connection_parses [OF example_connection_wf] by (simp add: example_connection_def)
  with connection_profiles_refine_histories [OF migrated_provider_ok idle, of "Create_Profile (connection_json example_connection)"]
  show ?thesis by simp
qed

section \<open>History\<close>

text \<open>
  C40: whatever sequence of provider operations runs, including those that
  throw, the tables stay well formed (contiguous revisions, texts that parse, references that
  exist), and every revision of a connection profile, model profile or binding that could be read
  before is read afterwards with exactly the same content.
\<close>

theorem provider_history_immutable:
  assumes "provider_run db xs db'" and "provider_ok db" and "\<not> is_transaction db"
  shows "provider_ok db' \<and>
    (fst (readConnectionProfile i n db) = Inr (Some c) \<longrightarrow> readConnectionProfile i n db' = (Inr (Some c), db')) \<and>
    (fst (readModelProfile j k db) = Inr (Some m) \<longrightarrow> readModelProfile j k db' = (Inr (Some m), db')) \<and>
    (fst (readRoomBinding l h db) = Inr (Some b) \<longrightarrow> readRoomBinding l h db' = (Inr (Some b), db'))"
proof -
  from provider_run_ok [OF assms] have ok: "provider_ok db'" and later: "history db db'" by auto
  have "exact_connection db ref = Some r \<Longrightarrow> exact_connection db' ref = Some r" for ref r
    using later unfolding exact_connection_def history_def by (blast intro: cl.later_exact)
  moreover have "exact_model db ref = Some r \<Longrightarrow> exact_model db' ref = Some r" for ref r
    using later unfolding exact_model_def history_def by (blast intro: ml.later_exact)
  moreover have "exact_binding db ref = Some r \<Longrightarrow> exact_binding db' ref = Some r" for ref r
    using later unfolding exact_binding_def history_def by (blast intro: bl.later_exact)
  ultimately show ?thesis
    using ok by (auto simp: read_connection [OF assms(2)] read_model [OF assms(2)] read_binding [OF assms(2)]
        read_connection [OF ok] read_model [OF ok] read_binding [OF ok])
qed

theorem provider_history_immutable_witness:
  "\<exists>db. provider_run (migrated_db []) example_ops db \<and> provider_ok db"
proof -
  obtain db where run: "provider_run (migrated_db []) example_ops db" using example_run by (auto simp: example_ready_def)
  have idle: "\<not> is_transaction (migrated_db [])" by (simp add: migrated_db_def)
  from provider_history_immutable [OF run migrated_provider_ok idle] run show ?thesis by blast
qed

section \<open>The provider decision of a room\<close>

text \<open>
  C37: when the provider decision of a room resolves, it is made of the
  effective binding of that room, the current revision of its model, enabled, the current revision
  of the connection that the model names, enabled, and the latest observation of exactly that
  connection revision, which is ready. Resolving changes nothing and carries no credential, and the
  decision is current at that moment.
\<close>

theorem resolved_decision_is_usable:
  assumes "provider_ok db" and "resolveRoomProviderDecision r purpose db = (Inr d, db')"
  shows "usable db d \<and> rb_roomId (rd_binding d) = r \<and> rb_purpose (rd_binding d) = purpose \<and> db' = db \<and>
    isResolvedRoomProviderDecisionCurrent d db"
  using resolve_usable [OF assms] resolve_current [OF assms] by simp

theorem resolved_decision_is_usable_witness:
  "\<exists>db. resolveRoomProviderDecision ''first-playable'' ''persona-default'' db = (Inr example_resolved, db) \<and>
     usable db example_resolved"
proof -
  obtain db where "example_ready db" using example_run by blast
  then have ok: "provider_ok db" and
    run: "resolveRoomProviderDecision ''first-playable'' ''persona-default'' db = (Inr example_resolved, db)"
    by (simp_all add: example_ready_def has_connection_def)
  from resolved_decision_is_usable [OF ok run] run show ?thesis by blast
qed

text \<open>
  C39: once the connection, the model or the room binding of a decision has a
  newer revision, the decision is refused as not current, after every later sequence of provider
  operations: no operation brings a superseded revision back.
\<close>

theorem superseded_never_current:
  assumes "provider_run db xs db'" and "provider_ok db" and "\<not> is_transaction db" and "superseded d db"
  shows "\<not> isResolvedRoomProviderDecisionCurrent d db'"
  using provider_run_ok [OF assms(1-3)] superseded_stays [OF assms(2) _ _ assms(4)] superseded_not_current by blast

definition example_disabled :: connection_revision where
  "example_disabled = retired Disabled \<lparr>cr_state = Enabled, cr_profile = example_connection\<rparr>"

lemma example_disable:
  assumes ready: "example_ready db"
  shows "\<exists>db1. transitionConnection ''conn-a'' (Some 1) Disabled db = (Inr example_disabled, db1) \<and>
    provider_ok db1 \<and> \<not> is_transaction db1 \<and> current_connection db1 ''conn-a'' = Some example_disabled"
proof -
  let ?q = "Retire_Profile ''conn-a'' (Some 1) Disabled"
  have conn: "has_connection db" and idle: "\<not> is_transaction db" using ready by (simp_all add: example_ready_def)
  then have ok: "provider_ok db" by (simp add: has_connection_def)
  from conn obtain row where "rows_of crow_id ''conn-a'' (db_connections db) = [row]"
      "connection_view row = \<lparr>cr_state = Enabled, cr_profile = example_connection\<rparr>"
    by (auto simp: has_connection_def connection_view)
  then have hist: "histories db ''conn-a'' = [\<lparr>cr_state = Enabled, cr_profile = example_connection\<rparr>]"
    by (simp add: histories_def)
  then have answer: "connection_answer (histories db) ?q = Inr example_disabled"
    by (simp add: example_disabled_def MAX_REVISION_def)
  obtain x db1 where run: "transitionConnection ''conn-a'' (Some 1) Disabled db = (x, db1)" by fastforce
  from runConnection_implements [OF ok idle, of ?q] answer run have
    x: "x = Inr example_disabled" and hist1: "histories db1 = record_answer (histories db) (Inr example_disabled)"
    by (simp_all add: implements_def)
  have ok1: "provider_ok db1" using preservesD [OF connection_ops_keep(3) _ ok] run x by blast
  have "\<not> is_transaction db1" using run unfolding transitionConnection_def x by (rule transaction_closes [OF idle])
  moreover have "last (histories db1 ''conn-a'') = example_disabled" "histories db1 ''conn-a'' \<noteq> []"
    by (auto simp: hist1 record_answer_def Let_def example_disabled_def retired_def example_connection_def hist)
  then have "current_connection db1 ''conn-a'' = Some example_disabled"
    using read_current_history [OF ok1, of "''conn-a''"] read_connection(2) [OF ok1, of "''conn-a''"]
    by (simp add: current_connection_def)
  ultimately show ?thesis using run x ok1 by blast
qed

theorem superseded_never_current_witness:
  "\<exists>db1 db2. superseded example_resolved db1 \<and> provider_run db1 [BindRoom (binding_json example_binding)] db2 \<and>
     \<not> isResolvedRoomProviderDecisionCurrent example_resolved db2"
proof -
  obtain db where "example_ready db" using example_run by blast
  from example_disable [OF this] obtain db1 where ok: "provider_ok db1" and idle: "\<not> is_transaction db1" and
    cur: "current_connection db1 ''conn-a'' = Some example_disabled" by blast
  then have old: "superseded example_resolved db1"
    by (simp add: superseded_def example_resolved_def example_disabled_def retired_def example_connection_def)
  obtain x db2 where "runProvider (BindRoom (binding_json example_binding)) db1 = (x, db2)" by fastforce
  with provider_run.step [OF provider_run.none, of "BindRoom (binding_json example_binding)" db1 x db2]
  have run: "provider_run db1 [BindRoom (binding_json example_binding)] db2" by simp
  from superseded_never_current [OF run ok idle old] old run show ?thesis by blast
qed

section \<open>Retired connections\<close>

lemma retired_revisions:
  assumes "transitionConnection i n state db = (Inr c, db1)" and "state \<noteq> Enabled"
    and ok: "provider_ok db" and idle: "\<not> is_transaction db" and run: "provider_run db1 xs db'"
    and usable: "usable db' d" "sc_id (rd_connection d) = i"
  shows "credentialRef (cr_profile c) = None \<and> cp_revision (cr_profile c) < sc_revision (rd_connection d)"
proof -
  have imp: "implements (Retire_Profile i n state) db" by (rule runConnection_implements [OF ok idle])
  have ok1: "provider_ok db1" using preservesD [OF connection_ops_keep(3) assms(1) ok] .
  have idle1: "\<not> is_transaction db1"
    using assms(1) unfolding transitionConnection_def by (rule transaction_closes [OF idle])
  from provider_run_ok [OF run ok1 idle1] have ok': "provider_ok db'" and later: "history db1 db'" by auto
  have c: "connection_answer (histories db) (Retire_Profile i n state) = Inr c"
      "histories db1 = record_answer (histories db) (Inr c)"
    using imp assms(1) by (simp_all add: implements_def)
  from c(1) consider (again) "histories db i \<noteq> []" "c = last (histories db i)" "cr_state c = Deleted"
    | (new) "histories db i \<noteq> []" "c = retired state (last (histories db i))"
    by (auto split: if_splits)
  then have hist: "histories db1 i \<noteq> [] \<and> last (histories db1 i) = c \<and> cr_state c \<noteq> Enabled"
  proof cases
    case again
    then have "cp_id (cr_profile c) = i" "c \<in> set (histories db i)" using history_last(1) [OF ok, of i] by auto
    with again show ?thesis by (simp add: c(2) record_answer_def Let_def)
  next
    case new
    note at = history_last [OF ok new(1)]
    have "cp_revision (cr_profile c) = int (length (histories db i)) + 1" "cp_id (cr_profile c) = i" "cr_state c = state"
      using at(1,2) by (simp_all add: new(2) retired_def)
    with fresh_revision [OF ok this(1)] assms(2) show ?thesis by (simp add: c(2) record_answer_def Let_def)
  qed
  have rev: "cp_revision (cr_profile c) = int (length (histories db1 i))" and cred: "credentialRef (cr_profile c) = None"
  proof -
    have at: "histories db1 i ! (length (histories db1 i) - 1) = c" using hist by (metis last_conv_nth)
    have "length (histories db1 i) - 1 < length (histories db1 i)" using hist by simp
    from history_nth [OF ok1 this, unfolded at] hist show "credentialRef (cr_profile c) = None" by blast
    from history_last(2) [OF ok1, of i] hist show "cp_revision (cr_profile c) = int (length (histories db1 i))" by simp
  qed
  from usable obtain q where
    q: "current_connection db' i = Some \<lparr>cr_state = Enabled, cr_profile = q\<rparr>" "cp_revision q = sc_revision (rd_connection d)"
    by (auto simp: usable_def)
  obtain ys where ys: "histories db' i = histories db1 i @ ys"
    using cl.later_appends [of db1 db'] later by (auto simp: history_def histories_def rows_of_def)
  have "last (histories db' i) = \<lparr>cr_state = Enabled, cr_profile = q\<rparr>"
    using read_current_history [OF ok', of i] read_connection(2) [OF ok', of i] q(1)
    by (simp add: current_connection_def split: if_splits)
  moreover from this have "ys \<noteq> []" using hist ys by auto
  moreover have "cp_revision (cr_profile (last (histories db' i))) = int (length (histories db' i))"
    using history_last(2) [OF ok', of i] hist ys by simp
  ultimately show ?thesis using rev cred q(2) ys by (cases ys) simp_all
qed

text \<open>
  Disabling or deleting a connection profile stores a revision
  without a credential; and a decision that names that revision of the connection, or an older one,
  is neither resolved for any room nor accepted as current after any later sequence of provider
  operations, re-enabling the connection included.
\<close>

theorem retired_connection_never_used:
  assumes "transitionConnection i n state db = (Inr c, db1)" and "state \<noteq> Enabled"
    and "provider_ok db" and "\<not> is_transaction db" and "provider_run db1 xs db'"
    and "sc_id (rd_connection d) = i" and "sc_revision (rd_connection d) \<le> cp_revision (cr_profile c)"
  shows "cr_state c \<noteq> Enabled \<and> credentialRef (cr_profile c) = None \<and>
    fst (resolveRoomProviderDecision r purpose db') \<noteq> Inr d \<and> \<not> isResolvedRoomProviderDecisionCurrent d db'"
proof -
  have ok1: "provider_ok db1" using preservesD [OF connection_ops_keep(3) assms(1,3)] .
  have idle1: "\<not> is_transaction db1"
    using assms(1) unfolding transitionConnection_def by (rule transaction_closes [OF assms(4)])
  from provider_run_ok [OF assms(5) ok1 idle1] have ok': "provider_ok db'" by simp
  have stale: "\<not> isResolvedRoomProviderDecisionCurrent d db'"
  proof
    assume "isResolvedRoomProviderDecisionCurrent d db'"
    from currentE [OF ok' this] obtain d' where "usable db' d'" "sc_id (rd_connection d') = sc_id (rd_connection d)"
        "sc_revision (rd_connection d') = sc_revision (rd_connection d)" by blast
    with retired_revisions [OF assms(1-5), of d'] assms(6,7) show False by simp
  qed
  have refused: "fst (resolveRoomProviderDecision r purpose db') \<noteq> Inr d"
  proof
    assume "fst (resolveRoomProviderDecision r purpose db') = Inr d"
    then have "resolveRoomProviderDecision r purpose db' = (Inr d, snd (resolveRoomProviderDecision r purpose db'))"
      by (simp add: prod_eq_iff)
    from resolve_current [OF ok' this] stale show False by blast
  qed
  have "connection_answer (histories db) (Retire_Profile i n state) = Inr c"
    using runConnection_implements [OF assms(3,4), of "Retire_Profile i n state"] assms(1) by (simp add: implements_def)
  then have c: "cr_state c \<noteq> Enabled" "c \<in> set (histories db i) \<or> credentialRef (cr_profile c) = None"
    using assms(2) by (auto simp: retired_def split: if_splits)
  from c(2) have "credentialRef (cr_profile c) = None"
  proof
    assume "c \<in> set (histories db i)"
    then obtain k where k: "k < length (histories db i)" "histories db i ! k = c" by (auto simp: in_set_conv_nth)
    from history_nth [OF assms(3) k(1), unfolded k(2)] c(1) show ?thesis by blast
  qed
  with c(1) stale refused show ?thesis by blast
qed

theorem retired_connection_never_used_witness:
  "\<exists>db db1. transitionConnection ''conn-a'' (Some 1) Disabled db = (Inr example_disabled, db1) \<and>
     fst (resolveRoomProviderDecision ''first-playable'' ''persona-default'' db) = Inr example_resolved \<and>
     fst (resolveRoomProviderDecision ''first-playable'' ''persona-default'' db1) \<noteq> Inr example_resolved"
proof -
  obtain db where ready: "example_ready db" using example_run by blast
  from example_disable [OF this] obtain db1 where
    run: "transitionConnection ''conn-a'' (Some 1) Disabled db = (Inr example_disabled, db1)" by blast
  have ok: "provider_ok db" "\<not> is_transaction db" using ready by (simp_all add: example_ready_def has_connection_def)
  have "Disabled \<noteq> Enabled" "sc_id (rd_connection example_resolved) = ''conn-a''"
      "sc_revision (rd_connection example_resolved) \<le> cp_revision (cr_profile example_disabled)"
    by (simp_all add: example_resolved_def example_disabled_def retired_def example_connection_def)
  from retired_connection_never_used [OF run this(1) ok provider_run.none this(2,3)]
  have "fst (resolveRoomProviderDecision ''first-playable'' ''persona-default'' db1) \<noteq> Inr example_resolved" by blast
  moreover have "fst (resolveRoomProviderDecision ''first-playable'' ''persona-default'' db) = Inr example_resolved"
    using ready by (simp add: example_ready_def)
  ultimately show ?thesis using run by blast
qed

end
