(* ===== verification/Snapshot_Claims.thy ===== *)
theory Snapshot_Claims
  imports Provider_Example
begin

text \<open>
  Decision snapshots: what committing one means, and that a request has at most one.
\<close>

section \<open>Frames\<close>

lemma observation_frame:
  "fst (readLatestConnectionObservation ref (db\<lparr>is_transaction := b\<rparr>)) = fst (readLatestConnectionObservation ref db)"
  by (simp add: readLatestConnectionObservation_def action_run liftA_def)

lemma usable_frame: "usable (db\<lparr>is_transaction := b\<rparr>) d = usable db d"
  by (simp add: usable_def effective_binding_def effective_row_def current_model_def current_connection_def
      observation_read observation_frame)

section \<open>Committing\<close>

definition snapshot_row_of :: "snapshot_record \<Rightarrow> string \<Rightarrow> snapshot_row" where
  "snapshot_row_of rec t =
     \<lparr>srow_id = ds_id (sr_snapshot rec), srow_room = sr_roomId rec, srow_request = sr_requestId rec,
      srow_binding = (rb_id (ds_binding (sr_snapshot rec)), rb_revision (ds_binding (sr_snapshot rec))),
      srow_connection = (sc_id (ds_connection (sr_snapshot rec)), sc_revision (ds_connection (sr_snapshot rec))),
      srow_model = (mp_id (ds_model (sr_snapshot rec)), mp_revision (ds_model (sr_snapshot rec))),
      srow_fingerprint = capabilityFingerprint (sr_snapshot rec), srow_definition = sr_definition rec,
      srow_policy = sr_policy rec, srow_json = t\<rparr>"

lemma commit_ok:
  "commitDecisionSnapshotInTransaction input db = (Inr rec, db') \<longleftrightarrow>
     is_transaction db \<and> validatedRecord input = Inr rec \<and>
     (\<exists>d db1 t. resolveRoomProviderDecision (rb_roomId (ds_binding (sr_snapshot rec))) (rb_purpose (ds_binding (sr_snapshot rec))) db =
         (Inr d, db1) \<and> sameExactDecision d (sr_snapshot rec) \<and>
       po_fingerprint (rd_observation d) = capabilityFingerprint (sr_snapshot rec) \<and>
       canonicalJson (decision_json (sr_snapshot rec)) = Inr t \<and>
       insertSnapshot (snapshot_row_of rec t) db1 = (Inr (), db'))"
  by (auto simp: commitDecisionSnapshotInTransaction_def snapshot_row_of_def)

lemma insertSnapshot_ok:
  "insertSnapshot r db = (Inr u, db') \<longleftrightarrow>
     (\<forall>q \<in> set (db_snapshots db). srow_id q \<noteq> srow_id r \<and> (srow_room q, srow_request q) \<noteq> (srow_room r, srow_request r)) \<and>
     find_room db (srow_room r) \<noteq> None \<and> exact_binding db (srow_binding r) \<noteq> None \<and>
     exact_connection db (srow_connection r) \<noteq> None \<and> exact_model db (srow_model r) \<noteq> None \<and>
     snapshot_row_ok r \<and> db' = db\<lparr>db_snapshots := db_snapshots db @ [r]\<rparr>"
  by (auto simp: insertSnapshot_def)

lemma validated_ok:
  "validatedRecord input = Inr rec \<longleftrightarrow>
     js_canonical (si_roomId input) \<and> length (si_roomId input) \<le> 128 \<and>
     js_canonical (si_requestId input) \<and> length (si_requestId input) \<le> 256 \<and>
     si_policy input = SINGLE_ATTEMPT_ROUTING_POLICY \<and> parseDecisionSnapshot (si_snapshot input) = Inr (sr_snapshot rec) \<and>
     rb_roomId (ds_binding (sr_snapshot rec)) = si_roomId input \<and>
     definitionEvidence (sc_target (ds_connection (sr_snapshot rec))) (si_definition input) = Inr (sr_definition rec) \<and>
     sr_roomId rec = si_roomId input \<and> sr_requestId rec = si_requestId input \<and> sr_policy rec = si_policy input"
  by (cases rec) (auto simp: validatedRecord_def)

lemma definitionEvidence_given: "definitionEvidence t given = Inr e \<Longrightarrow> e = given"
  by (cases given) (auto simp: definitionEvidence_def split: connection_target.splits if_splits)

lemma commit_open: "stays_open (commitDecisionSnapshotInTransaction input)"
  unfolding commitDecisionSnapshotInTransaction_def by (intro open_intros)

text \<open>A committed snapshot is read back from its row.\<close>

lemma snapshot_read_back:
  assumes ok: "json_ok (si_snapshot input)" and rec: "validatedRecord input = Inr rec"
    and t: "canonicalJson (decision_json (sr_snapshot rec)) = Inr t"
  shows "snapshotFromRow (Some (snapshot_row_of rec t)) = Inr (Some rec)"
proof -
  have p: "parseDecisionSnapshot (si_snapshot input) = Inr (sr_snapshot rec)" using rec by (simp add: validated_ok)
  have "reads_back parseDecisionSnapshot (decision_json (sr_snapshot rec)) (sr_snapshot rec)"
    using parsed_decision_generation [OF ok p] p by (intro decision_reads_back) (simp_all add: parseDecisionSnapshot_iff)
  with t obtain v where "json_parse t = Some v" "parseDecisionSnapshot v = Inr (sr_snapshot rec)"
    by (auto simp: reads_back_def)
  moreover have "sr_definition rec = si_definition input"
    using rec definitionEvidence_given by (auto simp: validated_ok)
  ultimately show ?thesis
    using rec by (auto simp: snapshotFromRow_def parse_text_def validated_ok snapshot_row_of_def)
qed

lemma commit_once:
  assumes "provider_ok db" and "commitDecisionSnapshotInTransaction input db = (Inr rec, db')" and "q \<in> set (db_snapshots db)"
  shows "(srow_room q, srow_request q) \<noteq> (si_roomId input, si_requestId input)"
proof -
  from assms(2) obtain d db1 t where rec: "validatedRecord input = Inr rec" and
    run: "resolveRoomProviderDecision (rb_roomId (ds_binding (sr_snapshot rec))) (rb_purpose (ds_binding (sr_snapshot rec))) db = (Inr d, db1)" and
    ins: "insertSnapshot (snapshot_row_of rec t) db1 = (Inr (), db')"
    unfolding commit_ok by blast
  have "db1 = db" using resolve_usable [OF assms(1) run] by simp
  with ins assms(3) rec show ?thesis by (auto simp: insertSnapshot_ok snapshot_row_of_def validated_ok)
qed

lemma commit_no_secret:
  assumes "json_ok (si_snapshot input)" and "validatedRecord input = Inr rec"
    and t: "canonicalJson (decision_json (sr_snapshot rec)) = Inr t" and row: "snapshot_row_ok (snapshot_row_of rec t)"
  shows "\<not> has_key_of (''credentialref'' # secret_keys) (decision_json (sr_snapshot rec))"
proof -
  have p: "parseDecisionSnapshot (si_snapshot input) = Inr (sr_snapshot rec)" using assms(2) by (simp add: validated_ok)
  have "json_ok (decision_json (sr_snapshot rec))"
    using parsed_decision_generation [OF assms(1) p] p by (intro decision_json_ok) (simp_all add: parseDecisionSnapshot_iff)
  from canonicalJson_roundtrip [OF this] t have "json_parse t = Some (json_norm (decision_json (sr_snapshot rec)))" by auto
  with row have "\<not> has_key_of (''credentialref'' # secret_keys) (json_norm (decision_json (sr_snapshot rec)))"
    by (auto simp: snapshot_row_ok_def snapshot_row_of_def sql_object_def split: jval.splits if_splits)
  then show ?thesis unfolding has_key_of_def all_keys_norm .
qed

lemma find_snoc: "\<forall>q \<in> set xs. \<not> P q \<Longrightarrow> P r \<Longrightarrow> find P (xs @ [r]) = Some r"
  by (induction xs) auto

text \<open>
  C38: committing a decision snapshot in a transaction stores it only when
  it equals, contract by contract and with the same capability fingerprint, the decision that the
  room resolves to at that moment; the stored snapshot has no secret or credential key at any depth
  and reads back, by id and by request, as what was committed; nothing else changes; and any further
  commit for the same room and request throws and changes nothing.
\<close>

theorem decision_snapshot_committed:
  assumes "provider_ok db" and "\<not> is_transaction db" and "json_ok (si_snapshot input)"
    and "withImmediateTransaction (commitDecisionSnapshotInTransaction input) db = (Inr rec, db')"
  shows "(\<exists>d. usable db d \<and> rb_roomId (rd_binding d) = si_roomId input \<and> sameExactDecision d (sr_snapshot rec) \<and>
        po_fingerprint (rd_observation d) = capabilityFingerprint (sr_snapshot rec)) \<and>
    \<not> has_key_of (''credentialref'' # secret_keys) (decision_json (sr_snapshot rec)) \<and>
    readDecisionSnapshotForRequest (si_roomId input) (si_requestId input) db' = (Inr (Some rec), db') \<and>
    readDecisionSnapshot (ds_id (sr_snapshot rec)) db' = (Inr (Some rec), db') \<and>
    db' = db\<lparr>db_snapshots := db_snapshots db'\<rparr> \<and> length (db_snapshots db') = Suc (length (db_snapshots db)) \<and>
    (si_roomId input2 = si_roomId input \<and> si_requestId input2 = si_requestId input \<longrightarrow>
       (\<exists>e. withImmediateTransaction (commitDecisionSnapshotInTransaction input2) db' = (Inl e, db')))"
proof -
  let ?db = "db\<lparr>is_transaction := True\<rparr>"
  from assms(2,4) obtain db2 where commit: "commitDecisionSnapshotInTransaction input ?db = (Inr rec, db2)"
    and db': "db' = db2\<lparr>is_transaction := False\<rparr>"
    by (auto simp: transaction_ok)
  have ok: "provider_ok ?db" using assms(1) by simp
  from commit obtain d db1 t where rec: "validatedRecord input = Inr rec" and
    run: "resolveRoomProviderDecision (rb_roomId (ds_binding (sr_snapshot rec))) (rb_purpose (ds_binding (sr_snapshot rec))) ?db = (Inr d, db1)" and
    same: "sameExactDecision d (sr_snapshot rec)" "po_fingerprint (rd_observation d) = capabilityFingerprint (sr_snapshot rec)" and
    t: "canonicalJson (decision_json (sr_snapshot rec)) = Inr t" and
    ins: "insertSnapshot (snapshot_row_of rec t) db1 = (Inr (), db2)"
    unfolding commit_ok by blast
  let ?r = "snapshot_row_of rec t"
  have room: "rb_roomId (ds_binding (sr_snapshot rec)) = si_roomId input" "sr_roomId rec = si_roomId input" "sr_requestId rec = si_requestId input"
    using rec by (auto simp: validated_ok)
  from resolve_usable [OF ok run] have d: "usable db d" "rb_roomId (rd_binding d) = si_roomId input" and db1: "db1 = ?db"
    using room by (simp_all add: usable_frame)
  from ins have free: "\<forall>q \<in> set (db_snapshots db). srow_id q \<noteq> srow_id ?r \<and> (srow_room q, srow_request q) \<noteq> (srow_room ?r, srow_request ?r)"
    and row: "snapshot_row_ok ?r" and db2: "db2 = ?db\<lparr>db_snapshots := db_snapshots db @ [?r]\<rparr>"
    by (simp_all add: insertSnapshot_ok db1)
  have eq: "db' = db\<lparr>db_snapshots := db_snapshots db @ [?r]\<rparr>" using assms(2) by (cases db) (simp add: db' db2)
  have keys: "srow_room ?r = si_roomId input" "srow_request ?r = si_requestId input" "srow_id ?r = ds_id (sr_snapshot rec)"
    using room by (simp_all add: snapshot_row_of_def)
  have reads: "readDecisionSnapshotForRequest (si_roomId input) (si_requestId input) db' = (Inr (Some rec), db')"
      "readDecisionSnapshot (ds_id (sr_snapshot rec)) db' = (Inr (Some rec), db')"
    using free keys snapshot_read_back [OF assms(3) rec t]
    by (simp_all add: readDecisionSnapshotForRequest_def readDecisionSnapshot_def eq find_snoc action_run liftA_def)
  have secret: "\<not> has_key_of (''credentialref'' # secret_keys) (decision_json (sr_snapshot rec))"
    using commit_no_secret [OF assms(3) rec t row] .
  have ok': "provider_ok db'" using assms(1) by (subst provider_ok_frame [of db' db]) (simp_all add: eq)
  have again: "\<exists>e. withImmediateTransaction (commitDecisionSnapshotInTransaction input2) db' = (Inl e, db')"
    if "si_roomId input2 = si_roomId input" "si_requestId input2 = si_requestId input"
  proof -
    obtain x db3 where x: "withImmediateTransaction (commitDecisionSnapshotInTransaction input2) db' = (x, db3)" by fastforce
    have idle: "\<not> is_transaction db'" by (simp add: db')
    show ?thesis
    proof (cases x)
      case (Inl e)
      with transaction_atomic [OF commit_open idle] x show ?thesis by blast
    next
      case (Inr rec2)
      with x idle obtain db4 where "commitDecisionSnapshotInTransaction input2 (db'\<lparr>is_transaction := True\<rparr>) = (Inr rec2, db4)"
        by (auto simp: transaction_ok)
      from commit_once [OF _ this, of ?r] ok' keys that show ?thesis by (simp add: eq)
    qed
  qed
  show ?thesis using d same reads secret again eq by auto
qed

definition example_input :: snapshot_input where
  "example_input = \<lparr>si_roomId = ''first-playable'', si_requestId = ''request-1'', si_snapshot = decision_json example_decision,
     si_definition = Some (''openai'', 1), si_policy = SINGLE_ATTEMPT_ROUTING_POLICY\<rparr>"

definition example_record :: snapshot_record where
  "example_record = \<lparr>sr_roomId = ''first-playable'', sr_requestId = ''request-1'', sr_snapshot = example_decision,
     sr_definition = Some (''openai'', 1), sr_policy = SINGLE_ATTEMPT_ROUTING_POLICY\<rparr>"

lemma example_definition: "definitionEvidence (Approved_Provider ''openai'') (Some (''openai'', 1)) = Inr (Some (''openai'', 1))"
  by code_simp

lemma example_validated: "validatedRecord example_input = Inr example_record"
  using decision_parses [OF example_decision_wf] example_definition
  by (simp add: validated_ok example_input_def example_record_def js_canonical_def js_trim_def js_trim_start_def js_trim_end_def
      js_space_def) (simp add: example_decision_def example_binding_def)

lemma example_decision_json_ok: "json_ok (decision_json example_decision)"
  using example_decision_wf example_generation_wf(2)
  by (intro decision_json_ok) (simp_all add: example_decision_def example_model_def)

lemma example_decision_fits: "text_bound (decision_json example_decision) \<le> 32768"
  using example_model_fits example_binding_fits
  by (simp add: decision_json_def example_decision_def snapshot_connection_json_def adapter_json_def generation_json_def
      example_generation_def example_number example_fingerprint_def)

lemma example_decision_keys: "\<not> has_key_of (''credentialref'' # secret_keys) (decision_json example_decision)"
proof -
  let ?ks = "[''id'', ''binding'', ''connection'', ''model'', ''effectiveGeneration'', ''adapter'', ''capabilityFingerprint'',
    ''directorRevision'', ''policyRevision'', ''revision'', ''roomId'', ''purpose'', ''profileId'', ''target'', ''class'',
    ''definitionId'', ''modelId'', ''requiredCapabilities'', ''generation'', ''temperature'', ''maxOutputTokens'', ''version'']"
  have "set (all_keys (decision_json example_decision)) \<subseteq> set ?ks"
    by (simp add: decision_json_def example_decision_def snapshot_connection_json_def adapter_json_def generation_json_def
        model_json_def binding_json_def ref_json_def example_model_def example_binding_def)
  moreover have "map ascii_lower ?ks = [''id'', ''binding'', ''connection'', ''model'', ''effectivegeneration'', ''adapter'', ''capabilityfingerprint'',
    ''directorrevision'', ''policyrevision'', ''revision'', ''roomid'', ''purpose'', ''profileid'', ''target'', ''class'',
    ''definitionid'', ''modelid'', ''requiredcapabilities'', ''generation'', ''temperature'', ''maxoutputtokens'', ''version'']"
    by code_simp
  then have "set (map ascii_lower ?ks) \<inter> set (''credentialref'' # secret_keys) = {}" by (simp add: secret_keys_def)
  ultimately show ?thesis unfolding has_key_of_def set_map by blast
qed

lemma example_snapshot_row:
  assumes "canonicalJson (decision_json example_decision) = Inr t"
  shows "snapshot_row_ok (snapshot_row_of example_record t)"
proof -
  note ok = example_decision_json_ok
  have st: "stored (decision_json example_decision)" using ok by (simp add: stored_def)
  have obj: "sql_object t 32768 = Some (json_norm (decision_json example_decision))"
    using sql_object_stored [OF ok assms example_decision_fits] by (simp add: decision_json_def)
  have fields: "jget ''id'' (decision_json example_decision) = JStr ''decision-a''"
    "jget ''binding'' (decision_json example_decision) = binding_json example_binding"
    "jget ''connection'' (decision_json example_decision) =
       snapshot_connection_json \<lparr>sc_id = ''conn-a'', sc_revision = 1, sc_target = Approved_Provider ''openai''\<rparr>"
    "jget ''model'' (decision_json example_decision) = model_json example_model"
    "jget ''capabilityFingerprint'' (decision_json example_decision) = JStr example_fingerprint"
    by (simp_all add: decision_json_def example_decision_def)
  have st': "stored (binding_json example_binding)" "stored (model_json example_model)"
    "stored (snapshot_connection_json \<lparr>sc_id = ''conn-a'', sc_revision = 1, sc_target = Approved_Provider ''openai''\<rparr>)"
    using binding_json_ok example_model_json_ok by (simp_all add: stored_def snapshot_connection_json_def)
  have "\<not> has_key_of (''credentialref'' # secret_keys) (json_norm (decision_json example_decision))"
    using example_decision_keys by (simp add: has_key_of_def all_keys_norm)
  then show ?thesis
    by (simp add: snapshot_row_ok_def snapshot_row_of_def obj jget_norm [OF st] jget_norm [OF st'(1)] jget_norm [OF st'(2)]
        jget_norm [OF st'(3)] fields example_sql_ids example_record_def example_fingerprint_ok)
      (simp add: example_decision_def binding_json_def model_json_def snapshot_connection_json_def example_binding_def
        example_model_def example_sql_ids example_fingerprint_ok)
qed

lemma example_commit:
  assumes ready: "example_ready db"
  shows "\<exists>db'. withImmediateTransaction (commitDecisionSnapshotInTransaction example_input) db = (Inr example_record, db')"
proof -
  let ?db = "db\<lparr>is_transaction := True\<rparr>"
  obtain t where t: "canonicalJson (decision_json example_decision) = Inr t"
    using canonicalJson_roundtrip [OF example_decision_json_ok] by blast
  have eff: "effective_binding ?db ''first-playable'' ''persona-default'' = Some example_binding"
    using ready by (simp add: example_ready_def effective_binding_def effective_row_def)
  have "resolveRoomProviderDecision ''first-playable'' ''persona-default'' ?db = (Inr example_resolved, ?db)"
    using ready example_resolves [of ?db, OF _ _ eff] by (simp add: example_ready_def)
  moreover have "sameExactDecision example_resolved example_decision"
    by (simp add: sameExactDecision_def example_resolved_def example_decision_def example_model_def)
  moreover have "insertSnapshot (snapshot_row_of example_record t) ?db = (Inr (), ?db\<lparr>db_snapshots := [snapshot_row_of example_record t]\<rparr>)"
    using ready example_snapshot_row [OF t] has_connection_reads(3) [of db] has_model_reads(3) [of db]
    by (simp add: insertSnapshot_ok example_ready_def has_connection_def snapshot_row_of_def example_record_def
        example_decision_def example_binding_def example_model_def find_room_def)
  ultimately have "commitDecisionSnapshotInTransaction example_input ?db =
      (Inr example_record, ?db\<lparr>db_snapshots := [snapshot_row_of example_record t]\<rparr>)"
    using example_validated t unfolding commit_ok
    by (simp add: example_record_def) (simp add: example_decision_def example_binding_def example_resolved_def ready_observation_def)
  then show ?thesis using ready by (auto simp: transaction_ok example_ready_def)
qed

theorem decision_snapshot_committed_witness:
  "\<exists>db db'. withImmediateTransaction (commitDecisionSnapshotInTransaction example_input) db = (Inr example_record, db') \<and>
     readDecisionSnapshotForRequest ''first-playable'' ''request-1'' db' = (Inr (Some example_record), db')"
proof -
  obtain db where ready: "example_ready db" using example_run by blast
  from example_commit [OF this] obtain db' where
    run: "withImmediateTransaction (commitDecisionSnapshotInTransaction example_input) db = (Inr example_record, db')" by blast
  have "provider_ok db" "\<not> is_transaction db" "json_ok (si_snapshot example_input)"
    using ready example_decision_json_ok by (simp_all add: example_ready_def has_connection_def example_input_def)
  from decision_snapshot_committed [OF this run] run show ?thesis
    by (intro exI [of _ db] exI [of _ db']) (simp add: example_input_def)
qed

end
