(* ===== verification/Room_Dto.thy ===== *)
theory Room_Dto
  imports Cast Bindings Director
begin

text \<open>
  Commands, results and stored commands of \<open>src/runtime/room-service.ts\<close>: their types, validation,
  the JSON that the table \<open>commands\<close> keeps of them and what reading that JSON back gives.
\<close>

section \<open>Limits\<close>

definition DEFAULT_GENERATION_TIMEOUT_MS :: nat where "DEFAULT_GENERATION_TIMEOUT_MS = 60000"
definition DEFAULT_PENDING_WORK_LEASE_MS :: nat where "DEFAULT_PENDING_WORK_LEASE_MS = 30000"
definition DEFAULT_PENDING_WORK_POLL_MS :: nat where "DEFAULT_PENDING_WORK_POLL_MS = 50"
definition MAX_GENERATION_TIMEOUT_MS :: nat where "MAX_GENERATION_TIMEOUT_MS = 300000"
definition MAX_PENDING_WORK_LEASE_MS :: nat where "MAX_PENDING_WORK_LEASE_MS = 300000"

definition MAX_IDENTIFIER_LENGTH :: nat where "MAX_IDENTIFIER_LENGTH = 256"
definition MAX_MESSAGE_LENGTH :: nat where "MAX_MESSAGE_LENGTH = 16384"
definition MAX_PROVIDER_TEXT_LENGTH :: nat where "MAX_PROVIDER_TEXT_LENGTH = 16384"

section \<open>Commands\<close>

text \<open>
  Identifiers and texts are strings (the \<open>typeof\<close> checks of the code are then vacuous); a revision
  and \<open>wantsResponse\<close> can be any value.
\<close>

record room_command =
  rc_requestId :: string
  rc_roomId :: string
  rc_selectionRevision :: jval

record send_message_command = room_command +
  smc_text :: string
  smc_wantsResponse :: jval
  smc_target :: "string option"

record persona_control_command = room_command +
  pcc_personaId :: string

record message_command =
  mc_roomId :: string
  mc_requestId :: string
  mc_selectionRevision :: nat
  mc_text :: string
  mc_wantsResponse :: bool
  mc_target :: "string option"

section \<open>Results\<close>

datatype message_outcome = Not_Scheduled | Silence_Outcome | Stale_Outcome | Text_Outcome

record send_message_result =
  smr_requestId :: string
  smr_human :: nat
  smr_director :: nat
  smr_persona :: "nat option"
  smr_decision :: director_decision
  smr_outcome :: message_outcome
  smr_generation :: nat

datatype room_control = Pause | Resume | Stop

record room_control_result =
  rcr_kind :: room_control
  rcr_requestId :: string
  rcr_status :: room_status
  rcr_generation :: nat
  rcr_changed :: bool

datatype persona_control = Mute | Unmute

record persona_control_result =
  pcr_kind :: persona_control
  pcr_requestId :: string
  pcr_personaId :: string
  pcr_muted :: bool
  pcr_generation :: nat
  pcr_changed :: bool

record pending_message =
  pm_requestId :: string
  pm_human :: nat
  pm_director :: nat
  pm_decision :: director_decision
  pm_generation :: nat
  pm_prompt :: string
  pm_providerDecision :: "jval option"

datatype 'r stored_command = Complete_Command 'r | Pending_Command pending_message

datatype provider_result = Provider_Silence | Provider_Text string

record generated_message =
  gm_providerResult :: "provider_result option"
  gm_providerDecision :: "decision_snapshot option"

section \<open>Validation\<close>

definition canonicalIdentifier :: "string \<Rightarrow> string \<Rightarrow> js_error + string" where
  "canonicalIdentifier v field =
     (if v = [] \<or> js_trim v \<noteq> v \<or> length v > MAX_IDENTIFIER_LENGTH
      then Inl (TypeError (field @ '' must be a canonical nonblank identifier'')) else Inr v)"

definition canonicalSelectionRevision :: "jval \<Rightarrow> js_error + nat" where
  "canonicalSelectionRevision v =
     (case jsafe_nonneg v of
        None \<Rightarrow> Inl (TypeError ''selectionRevision must be a non-negative safe integer'')
      | Some n \<Rightarrow> Inr n)"

definition messageText :: "string \<Rightarrow> js_error + string" where
  "messageText v =
     (if js_trim v = [] \<or> length v > MAX_MESSAGE_LENGTH
      then Inl (TypeError ''text must be a nonblank bounded string'') else Inr v)"

text \<open>\<open>command.wantsResponse ?? true\<close>, refused when it is not a boolean.\<close>

definition wants_response :: "jval \<Rightarrow> js_error + bool" where
  "wants_response v =
     (case v of
        JUndefined \<Rightarrow> Inr True
      | JNull \<Rightarrow> Inr True
      | JBool b \<Rightarrow> Inr b
      | _ \<Rightarrow> Inl (TypeError ''wantsResponse must be a boolean''))"

definition optional_identifier :: "string option \<Rightarrow> string \<Rightarrow> js_error + string option" where
  "optional_identifier v field =
     (case v of None \<Rightarrow> Inr None | Some i \<Rightarrow> bindE (canonicalIdentifier i field) (\<lambda>j. Inr (Some j)))"

text \<open>The fields in the order the object literal evaluates them, then the two checks.\<close>

definition normalizeMessage :: "send_message_command \<Rightarrow> js_error + message_command" where
  "normalizeMessage c =
     bindE (canonicalIdentifier (rc_roomId c) ''roomId'') (\<lambda>r.
     bindE (canonicalIdentifier (rc_requestId c) ''requestId'') (\<lambda>q.
     bindE (canonicalSelectionRevision (rc_selectionRevision c)) (\<lambda>n.
     bindE (messageText (smc_text c)) (\<lambda>t.
     bindE (optional_identifier (smc_target c) ''targetPersonaId'') (\<lambda>target.
     bindE (wants_response (smc_wantsResponse c)) (\<lambda>wants.
       if \<not> wants \<and> target \<noteq> None then Inl (TypeError ''targetPersonaId requires wantsResponse'')
       else Inr \<lparr>mc_roomId = r, mc_requestId = q, mc_selectionRevision = n, mc_text = t,
                 mc_wantsResponse = wants, mc_target = target\<rparr>))))))"

text \<open>\<open>#currentTime\<close>: the value of the clock, refused when it is not a time.\<close>

definition currentTime :: "jval \<Rightarrow> js_error + nat" where
  "currentTime now =
     (case jsafe_nonneg now of
        None \<Rightarrow> Inl (TypeError ''now must return a non-negative safe integer'')
      | Some n \<Rightarrow> Inr n)"

text \<open>\<open>#validatedProviderResult\<close>: what a provider resolved to is any value.\<close>

definition validatedProviderResult :: "jval \<Rightarrow> js_error + provider_result" where
  "validatedProviderResult v =
     (case v of
        JObj fs \<Rightarrow>
          if jget ''kind'' v = JStr ''silence'' then Inr Provider_Silence
          else if jget ''kind'' v \<noteq> JStr ''text'' then Inl (TypeError ''Provider text must be a nonempty bounded string'')
          else (case jget ''text'' v of
                  JStr s \<Rightarrow> if s = [] \<or> length s > MAX_PROVIDER_TEXT_LENGTH
                            then Inl (TypeError ''Provider text must be a nonempty bounded string'')
                            else Inr (Provider_Text s)
                | _ \<Rightarrow> Inl (TypeError ''Provider text must be a nonempty bounded string''))
      | JArr xs \<Rightarrow> Inl (TypeError ''Provider text must be a nonempty bounded string'')
      | _ \<Rightarrow> Inl (TypeError ''Provider result must be an object''))"

section \<open>JSON\<close>

fun reason_name :: "director_reason \<Rightarrow> string" where
  "reason_name Selected = ''selected''"
| "reason_name Directed = ''directed''"
| "reason_name Cancelled = ''cancelled''"
| "reason_name Unverified_Event = ''unverified_event''"
| "reason_name Duplicate = ''duplicate''"
| "reason_name Self_Trigger_Blocked = ''self_trigger_blocked''"
| "reason_name Budget_Exhausted = ''budget_exhausted''"
| "reason_name Deliberate_Silence = ''deliberate_silence''"
| "reason_name No_Persona = ''no_persona''"
| "reason_name No_Eligible_Persona = ''no_eligible_persona''"
| "reason_name Cooldown = ''cooldown''"

fun outcome_name :: "message_outcome \<Rightarrow> string" where
  "outcome_name Not_Scheduled = ''not_scheduled''"
| "outcome_name Silence_Outcome = ''silence''"
| "outcome_name Stale_Outcome = ''stale''"
| "outcome_name Text_Outcome = ''text''"

fun control_name :: "room_control \<Rightarrow> string" where
  "control_name Pause = ''pause''"
| "control_name Resume = ''resume''"
| "control_name Stop = ''stop''"

fun mute_name :: "persona_control \<Rightarrow> string" where
  "mute_name Mute = ''mute''"
| "mute_name Unmute = ''unmute''"

definition str_or_null :: "string option \<Rightarrow> jval" where
  "str_or_null s = (case s of None \<Rightarrow> JNull | Some t \<Rightarrow> JStr t)"

definition nat_or_null :: "nat option \<Rightarrow> jval" where
  "nat_or_null n = (case n of None \<Rightarrow> JNull | Some k \<Rightarrow> JInt (int k))"

definition choice_json :: "director_decision \<Rightarrow> jval" where
  "choice_json d = JObj [(''speaker'', str_or_null (speaker d)), (''reason'', JStr (reason_name (reason d)))]"

definition message_result_json :: "send_message_result \<Rightarrow> jval" where
  "message_result_json r = JObj
     [(''kind'', JStr ''message''), (''requestId'', JStr (smr_requestId r)),
      (''humanEventSequence'', JInt (int (smr_human r))), (''directorEventSequence'', JInt (int (smr_director r))),
      (''personaEventSequence'', nat_or_null (smr_persona r)), (''decision'', choice_json (smr_decision r)),
      (''outcome'', JStr (outcome_name (smr_outcome r))), (''generation'', JInt (int (smr_generation r)))]"

definition control_result_json :: "room_control_result \<Rightarrow> jval" where
  "control_result_json r = JObj
     [(''kind'', JStr (control_name (rcr_kind r))), (''requestId'', JStr (rcr_requestId r)),
      (''status'', JStr (status_name (rcr_status r))), (''generation'', JInt (int (rcr_generation r))),
      (''changed'', JBool (rcr_changed r))]"

definition persona_result_json :: "persona_control_result \<Rightarrow> jval" where
  "persona_result_json r = JObj
     [(''kind'', JStr (mute_name (pcr_kind r))), (''requestId'', JStr (pcr_requestId r)),
      (''personaId'', JStr (pcr_personaId r)), (''muted'', JBool (pcr_muted r)),
      (''generation'', JInt (int (pcr_generation r))), (''changed'', JBool (pcr_changed r))]"

definition pending_json :: "pending_message \<Rightarrow> jval" where
  "pending_json p = JObj
     ([(''state'', JStr ''pending''), (''requestId'', JStr (pm_requestId p)),
       (''humanEventSequence'', JInt (int (pm_human p))), (''directorEventSequence'', JInt (int (pm_director p))),
       (''decision'', choice_json (pm_decision p)), (''generation'', JInt (int (pm_generation p))),
       (''prompt'', JStr (pm_prompt p))]
      @ (case pm_providerDecision p of None \<Rightarrow> [] | Some v \<Rightarrow> [(''providerDecision'', v)]))"

definition completed :: "jval \<Rightarrow> jval" where
  "completed result = JObj [(''state'', JStr ''complete''), (''result'', result)]"

section \<open>Reading back\<close>

fun enum_of :: "(string \<times> 'a) list \<Rightarrow> jval \<Rightarrow> 'a option" where
  "enum_of table (JStr s) = map_of table s"
| "enum_of table _ = None"

definition all_reasons :: "director_reason list" where
  "all_reasons = [Selected, Directed, Cancelled, Unverified_Event, Duplicate, Self_Trigger_Blocked, Budget_Exhausted,
     Deliberate_Silence, No_Persona, No_Eligible_Persona, Cooldown]"

definition as_reason :: "jval \<Rightarrow> director_reason option" where
  "as_reason = enum_of (map (\<lambda>r. (reason_name r, r)) all_reasons)"

definition as_outcome :: "jval \<Rightarrow> message_outcome option" where
  "as_outcome = enum_of (map (\<lambda>r. (outcome_name r, r)) [Not_Scheduled, Silence_Outcome, Stale_Outcome, Text_Outcome])"

definition as_control :: "jval \<Rightarrow> room_control option" where
  "as_control = enum_of (map (\<lambda>r. (control_name r, r)) [Pause, Resume, Stop])"

definition as_mute :: "jval \<Rightarrow> persona_control option" where
  "as_mute = enum_of (map (\<lambda>r. (mute_name r, r)) [Mute, Unmute])"

definition as_str_or_null :: "jval \<Rightarrow> string option option" where
  "as_str_or_null v = (if v = JNull then Some None else map_option Some (as_str v))"

definition as_nat_or_null :: "jval \<Rightarrow> nat option option" where
  "as_nat_or_null v = (if v = JNull then Some None else map_option Some (as_nat v))"

definition read_choice :: "jval \<Rightarrow> director_decision option" where
  "read_choice v =
     Option.bind (as_str_or_null (jget ''speaker'' v)) (\<lambda>s. Option.bind (as_reason (jget ''reason'' v)) (\<lambda>r.
       Some \<lparr>speaker = s, reason = r\<rparr>))"

definition read_message_result :: "jval \<Rightarrow> send_message_result option" where
  "read_message_result v =
     Option.bind (as_str (jget ''requestId'' v)) (\<lambda>q. Option.bind (as_nat (jget ''humanEventSequence'' v)) (\<lambda>h.
     Option.bind (as_nat (jget ''directorEventSequence'' v)) (\<lambda>d.
     Option.bind (as_nat_or_null (jget ''personaEventSequence'' v)) (\<lambda>p.
     Option.bind (read_choice (jget ''decision'' v)) (\<lambda>c. Option.bind (as_outcome (jget ''outcome'' v)) (\<lambda>out.
     Option.bind (as_nat (jget ''generation'' v)) (\<lambda>g.
       Some \<lparr>smr_requestId = q, smr_human = h, smr_director = d, smr_persona = p, smr_decision = c,
             smr_outcome = out, smr_generation = g\<rparr>)))))))"

definition read_control_result :: "jval \<Rightarrow> room_control_result option" where
  "read_control_result v =
     Option.bind (as_control (jget ''kind'' v)) (\<lambda>k. Option.bind (as_str (jget ''requestId'' v)) (\<lambda>q.
     Option.bind (as_status (jget ''status'' v)) (\<lambda>s. Option.bind (as_nat (jget ''generation'' v)) (\<lambda>g.
     Option.bind (as_bool (jget ''changed'' v)) (\<lambda>c.
       Some \<lparr>rcr_kind = k, rcr_requestId = q, rcr_status = s, rcr_generation = g, rcr_changed = c\<rparr>)))))"

definition read_persona_result :: "jval \<Rightarrow> persona_control_result option" where
  "read_persona_result v =
     Option.bind (as_mute (jget ''kind'' v)) (\<lambda>k. Option.bind (as_str (jget ''requestId'' v)) (\<lambda>q.
     Option.bind (as_str (jget ''personaId'' v)) (\<lambda>p. Option.bind (as_bool (jget ''muted'' v)) (\<lambda>m.
     Option.bind (as_nat (jget ''generation'' v)) (\<lambda>g. Option.bind (as_bool (jget ''changed'' v)) (\<lambda>c.
       Some \<lparr>pcr_kind = k, pcr_requestId = q, pcr_personaId = p, pcr_muted = m, pcr_generation = g,
             pcr_changed = c\<rparr>))))))"

definition read_pending :: "jval \<Rightarrow> pending_message option" where
  "read_pending v =
     Option.bind (as_str (jget ''requestId'' v)) (\<lambda>q. Option.bind (as_nat (jget ''humanEventSequence'' v)) (\<lambda>h.
     Option.bind (as_nat (jget ''directorEventSequence'' v)) (\<lambda>d.
     Option.bind (read_choice (jget ''decision'' v)) (\<lambda>c. Option.bind (as_nat (jget ''generation'' v)) (\<lambda>g.
     Option.bind (as_str (jget ''prompt'' v)) (\<lambda>t.
       Some \<lparr>pm_requestId = q, pm_human = h, pm_director = d, pm_decision = c, pm_generation = g, pm_prompt = t,
             pm_providerDecision = (if jget ''providerDecision'' v = JUndefined then None
                                    else Some (jget ''providerDecision'' v))\<rparr>))))))"

text \<open>
  \<open>parseStored\<close>, then the cast to the type of the command; the cast fails in the model where a stored
  text has another shape, which no text of this program has.
\<close>

definition parseStored :: "(jval \<Rightarrow> 'r option) \<Rightarrow> string \<Rightarrow> js_error + 'r stored_command" where
  "parseStored read_result t =
     (case json_parse t of
        None \<Rightarrow> Inl (PlainError ''SyntaxError'')
      | Some v \<Rightarrow>
          if (\<forall>fs. v \<noteq> JObj fs) \<and> (\<forall>xs. v \<noteq> JArr xs) then Inl (PlainError ''Stored command result is invalid'')
          else if jget ''state'' v = JStr ''complete''
          then (case read_result (jget ''result'' v) of
                  None \<Rightarrow> Inl (PlainError ''Stored result has another type'') | Some r \<Rightarrow> Inr (Complete_Command r))
          else if jget ''state'' v = JStr ''pending''
          then (case read_pending v of
                  None \<Rightarrow> Inl (PlainError ''Stored result has another type'') | Some p \<Rightarrow> Inr (Pending_Command p))
          else Inl (PlainError ''Stored command result has an unknown state''))"

section \<open>What is stored is read back\<close>

lemma as_enums [simp]:
  "as_reason (JStr (reason_name r)) = Some r" "as_outcome (JStr (outcome_name out)) = Some out"
  "as_control (JStr (control_name k)) = Some k" "as_mute (JStr (mute_name m)) = Some m"
  subgoal by (cases r) (simp_all add: as_reason_def all_reasons_def)
  subgoal by (cases out) (simp_all add: as_outcome_def)
  subgoal by (cases k) (simp_all add: as_control_def)
  subgoal by (cases m) (simp_all add: as_mute_def)
  done

lemma as_nulls [simp]:
  "as_str_or_null (str_or_null s) = Some s" "as_nat_or_null (nat_or_null n) = Some n"
  "json_norm (str_or_null s) = str_or_null s" "json_norm (nat_or_null n) = nat_or_null n"
  "json_ok (str_or_null s)" "json_ok (nat_or_null n)"
  by (auto simp: as_str_or_null_def str_or_null_def as_nat_or_null_def nat_or_null_def split: option.splits)

lemma inverts_choice: "inverts read_choice choice_json"
proof -
  have ok: "json_ok (choice_json d)" for d by (simp add: choice_json_def)
  then have "read_choice (json_norm (choice_json d)) = Some d" for d
    by (simp add: read_choice_def jget_norm stored_def) (simp add: choice_json_def)
  with ok show ?thesis by (simp add: inverts_def)
qed

lemma inverts_message: "inverts read_message_result message_result_json"
proof -
  have ok: "json_ok (message_result_json r)" for r
    by (simp add: message_result_json_def inverts_ok [OF inverts_choice])
  then have "read_message_result (json_norm (message_result_json r)) = Some r" for r
    by (simp add: read_message_result_def jget_norm stored_def)
      (simp add: message_result_json_def inverts_read [OF inverts_choice] del: json_norm.simps(1,2))
  with ok show ?thesis by (simp add: inverts_def)
qed

lemma inverts_control: "inverts read_control_result control_result_json"
proof -
  have ok: "json_ok (control_result_json r)" for r by (simp add: control_result_json_def)
  then have "read_control_result (json_norm (control_result_json r)) = Some r" for r
    by (simp add: read_control_result_def jget_norm stored_def) (simp add: control_result_json_def)
  with ok show ?thesis by (simp add: inverts_def)
qed

lemma inverts_persona: "inverts read_persona_result persona_result_json"
proof -
  have ok: "json_ok (persona_result_json r)" for r by (simp add: persona_result_json_def)
  then have "read_persona_result (json_norm (persona_result_json r)) = Some r" for r
    by (simp add: read_persona_result_def jget_norm stored_def) (simp add: persona_result_json_def)
  with ok show ?thesis by (simp add: inverts_def)
qed

text \<open>The stored form of a pending message: its pinned decision in normal form.\<close>

definition normal_pending :: "pending_message \<Rightarrow> pending_message" where
  "normal_pending p = p\<lparr>pm_providerDecision := map_option json_norm (pm_providerDecision p)\<rparr>"

definition pending_ok :: "pending_message \<Rightarrow> bool" where
  "pending_ok p \<longleftrightarrow> (case pm_providerDecision p of None \<Rightarrow> True | Some v \<Rightarrow> json_ok v)"

lemma pending_json_ok: "pending_ok p \<Longrightarrow> json_ok (pending_json p)"
  by (auto simp: pending_json_def pending_ok_def inverts_ok [OF inverts_choice] split: option.splits)

lemma json_norm_defined: "json_ok v \<Longrightarrow> json_norm v \<noteq> JUndefined"
  by (cases v) auto

lemma read_pending_back: "pending_ok p \<Longrightarrow> read_pending (json_norm (pending_json p)) = Some (normal_pending p)"
proof -
  assume ok: "pending_ok p"
  then have st: "stored (pending_json p)" using pending_json_ok by (simp add: stored_def)
  have fields: "jget ''requestId'' (pending_json p) = JStr (pm_requestId p)"
    "jget ''humanEventSequence'' (pending_json p) = JInt (int (pm_human p))"
    "jget ''directorEventSequence'' (pending_json p) = JInt (int (pm_director p))"
    "jget ''decision'' (pending_json p) = choice_json (pm_decision p)"
    "jget ''generation'' (pending_json p) = JInt (int (pm_generation p))"
    "jget ''prompt'' (pending_json p) = JStr (pm_prompt p)"
    "jget ''providerDecision'' (pending_json p) = (case pm_providerDecision p of None \<Rightarrow> JUndefined | Some v \<Rightarrow> v)"
    by (simp_all add: pending_json_def split: option.splits)
  note read = read_pending_def jget_norm [OF st] fields inverts_read [OF inverts_choice] normal_pending_def
  show ?thesis
    using ok json_norm_defined by (cases "pm_providerDecision p") (simp_all add: read pending_ok_def)
qed

text \<open>Reading a stored command.\<close>

lemma parseStored_complete:
  assumes "inverts r enc" and "canonicalJson (completed (enc x)) = Inr t"
  shows "parseStored r t = Inr (Complete_Command x)"
proof -
  have ok: "json_ok (completed (enc x))" by (simp add: completed_def inverts_ok [OF assms(1)])
  then have st: "stored (completed (enc x))" by (simp add: stored_def)
  obtain fs where obj: "json_norm (completed (enc x)) = JObj fs" by (simp add: completed_def)
  from canonicalJson_roundtrip [OF ok] assms(2) have parsed: "json_parse t = Some (json_norm (completed (enc x)))" by auto
  have "jget ''state'' (json_norm (completed (enc x))) = JStr ''complete''"
    "jget ''result'' (json_norm (completed (enc x))) = json_norm (enc x)"
    unfolding jget_norm [OF st] by (simp_all add: completed_def)
  then show ?thesis using parsed obj inverts_read [OF assms(1), of x] by (simp add: parseStored_def)
qed

lemma parseStored_pending:
  assumes "pending_ok p" and "canonicalJson (pending_json p) = Inr t"
  shows "parseStored r t = Inr (Pending_Command (normal_pending p))"
proof -
  note ok = pending_json_ok [OF assms(1)]
  then have st: "stored (pending_json p)" by (simp add: stored_def)
  obtain fs where obj: "json_norm (pending_json p) = JObj fs" by (simp add: pending_json_def)
  from canonicalJson_roundtrip [OF ok] assms(2) have parsed: "json_parse t = Some (json_norm (pending_json p))" by auto
  have "jget ''state'' (json_norm (pending_json p)) = JStr ''pending''"
    unfolding jget_norm [OF st] by (simp add: pending_json_def)
  then show ?thesis using parsed obj read_pending_back [OF assms(1)] by (simp add: parseStored_def)
qed

end
