(* ===== verification/Room_Service.thy ===== *)
theory Room_Service
  imports Room_Dto
begin

text \<open>
  The room service of \<open>src/runtime/room-service.ts\<close>: the transactions that its commands and its
  message workers run. How workers interleave is the subject of \<open>Room_Workers\<close>.

  The clock gives any value (\<open>now\<close>), \<open>sha\<close> is the SHA-256 digest of \<open>node:crypto\<close>, \<open>owner\<close> the
  identifier a worker took from \<open>randomUUID\<close>, \<open>lease\<close> the option \<open>pendingWorkLeaseMs\<close>.
\<close>

section \<open>The table \<open>commands\<close>\<close>

definition stored_state :: "string \<Rightarrow> jval" where
  "stored_state t = (case json_parse t of None \<Rightarrow> JUndefined | Some v \<Rightarrow> jget ''state'' v)"

definition stored_prompt :: "string \<Rightarrow> jval" where
  "stored_prompt t = (case json_parse t of None \<Rightarrow> JUndefined | Some v \<Rightarrow> jget ''prompt'' v)"

definition MAX_TIME :: nat where "MAX_TIME = 8640000000000000"

text \<open>The constraints of the table and the triggers of \<open>migrations/0002-claim-pending-work.sql\<close>.\<close>

definition command_row_ok :: "command_row \<Rightarrow> bool" where
  "command_row_ok row \<longleftrightarrow>
     length (request_digest row) = 64 \<and> is_json_object (result_json row) \<and> length (result_json row) \<le> 131072 \<and>
     (case claim row of
        None \<Rightarrow> True
      | Some (own, expires) \<Rightarrow> 1 \<le> length own \<and> length own \<le> 128 \<and> expires \<le> MAX_TIME \<and>
          stored_state (result_json row) = JStr ''pending'') \<and>
     (stored_state (result_json row) = JStr ''pending'' \<longrightarrow>
        (case stored_prompt (result_json row) of JStr s \<Rightarrow> length s \<le> MAX_MESSAGE_LENGTH | _ \<Rightarrow> False))"

definition findCommand :: "string \<Rightarrow> string \<Rightarrow> command_row option action" where
  "findCommand r q = queryA (\<lambda>db. db_commands db (r, q))"

definition insertCommand :: "string \<Rightarrow> string \<Rightarrow> string \<Rightarrow> jval \<Rightarrow> (string \<times> nat) option \<Rightarrow> unit action" where
  "insertCommand r q digest v cl =
     bindA (liftA (canonicalJson v)) (\<lambda>t.
     bindA (queryA (\<lambda>db. db_commands db (r, q) = None)) (\<lambda>free.
     bindA (queryA (\<lambda>db. find_room db r \<noteq> None)) (\<lambda>fk.
     bindA (requireA (command_row_ok \<lparr>request_digest = digest, result_json = t, claim = cl\<rparr>)
             (SqlError ''invalid command claim or oversized command metadata'')) (\<lambda>_.
     bindA (requireA free (SqlError ''UNIQUE constraint failed: commands'')) (\<lambda>_.
     bindA (requireA fk (SqlError ''FOREIGN KEY constraint failed'')) (\<lambda>_.
       updateA (\<lambda>db. db\<lparr>db_commands :=
         (db_commands db)((r, q) \<mapsto> \<lparr>request_digest = digest, result_json = t, claim = cl\<rparr>)\<rparr>)))))))"

text \<open>\<open>UPDATE commands SET ... WHERE room_id = ? AND request_id = ? AND ...\<close>: the number of rows changed.\<close>

definition updateCommand :: "string \<Rightarrow> string \<Rightarrow> (command_row \<Rightarrow> bool) \<Rightarrow> (command_row \<Rightarrow> command_row) \<Rightarrow> nat action" where
  "updateCommand r q cond f =
     bindA (queryA (\<lambda>db. db_commands db (r, q))) (\<lambda>found.
     case found of
       None \<Rightarrow> returnA 0
     | Some row \<Rightarrow>
         if \<not> cond row then returnA 0
         else
           bindA (requireA (command_row_ok (f row)) (SqlError ''invalid command claim or oversized command metadata'')) (\<lambda>_.
           bindA (updateA (\<lambda>db. db\<lparr>db_commands := (db_commands db)((r, q) \<mapsto> f row)\<rparr>)) (\<lambda>_. returnA 1)))"

definition owned_by :: "string \<Rightarrow> command_row \<Rightarrow> bool" where
  "owned_by owner row \<longleftrightarrow> (case claim row of None \<Rightarrow> False | Some (own, _) \<Rightarrow> own = owner)"

definition row_pending :: "command_row \<Rightarrow> bool" where
  "row_pending row \<longleftrightarrow> stored_state (result_json row) = JStr ''pending''"

text \<open>\<open>#releaseClaim\<close>, \<open>#releaseRoomClaims\<close> and the renewal of \<open>#maintainClaim\<close>, which reports whether it renewed.\<close>

definition releaseClaim :: "string \<Rightarrow> string \<Rightarrow> string \<Rightarrow> unit action" where
  "releaseClaim r q owner =
     withImmediateTransaction (
       bindA (updateCommand r q (\<lambda>row. owned_by owner row \<and> row_pending row) (\<lambda>row. row\<lparr>claim := None\<rparr>)) (\<lambda>_.
         returnA ()))"

definition releaseRoomClaims :: "string \<Rightarrow> unit action" where
  "releaseRoomClaims r =
     updateA (\<lambda>db. db\<lparr>db_commands := (\<lambda>k. if fst k = r
         then map_option (\<lambda>row. if claim row \<noteq> None \<and> row_pending row then row\<lparr>claim := None\<rparr> else row) (db_commands db k)
         else db_commands db k)\<rparr>)"

definition renewClaim :: "nat \<Rightarrow> string \<Rightarrow> string \<Rightarrow> string \<Rightarrow> jval \<Rightarrow> bool action" where
  "renewClaim lease r q owner now =
     withImmediateTransaction (
       bindA (liftA (currentTime now)) (\<lambda>n.
       bindA (updateCommand r q
               (\<lambda>row. (case claim row of None \<Rightarrow> False | Some (own, expires) \<Rightarrow> own = owner \<and> n < expires) \<and> row_pending row)
               (\<lambda>row. row\<lparr>claim := Some (owner, n + lease)\<rparr>)) (\<lambda>changes.
         returnA (changes = 1))))"

text \<open>How long a worker waits between two renewals.\<close>

definition renewal_interval :: "nat \<Rightarrow> nat" where
  "renewal_interval lease = max 1 (lease div 3)"

section \<open>Rooms and participants\<close>

definition room_row_of :: "string \<Rightarrow> room_row action" where
  "room_row_of r =
     bindA (queryA (\<lambda>db. find_room db r)) (\<lambda>found. someA found (PlainError (''Unknown room: '' @ r)))"

definition roomError :: "room_status \<Rightarrow> js_error" where
  "roomError s = PlainError (''Room is '' @ status_name s)"

definition updateRoom :: "string \<Rightarrow> (room_row \<Rightarrow> room_row) \<Rightarrow> unit action" where
  "updateRoom r f = updateA (\<lambda>db. db\<lparr>db_rooms := update_where (\<lambda>row. room_id row = r) f (db_rooms db)\<rparr>)"

text \<open>\<open>SELECT ... WHERE room_id = ? AND kind = 'persona' ORDER BY sort_order\<close>\<close>

definition personas_of :: "db \<Rightarrow> string \<Rightarrow> participant_row list" where
  "personas_of db r = filter (\<lambda>p. part_kind p = Persona) (room_participants db r)"

definition persona_row :: "db \<Rightarrow> string \<Rightarrow> string \<Rightarrow> participant_row option" where
  "persona_row db r i = find (\<lambda>p. part_room p = r \<and> part_id p = i \<and> part_kind p = Persona) (db_participants db)"

definition event_type :: "event_row \<Rightarrow> jval" where
  "event_type e = (case json_parse (event_json e) of None \<Rightarrow> JUndefined | Some v \<Rightarrow> jget ''type'' v)"

definition human_messages_after :: "db \<Rightarrow> string \<Rightarrow> nat \<Rightarrow> nat" where
  "human_messages_after db r n =
     length (filter (\<lambda>e. n < event_sequence e \<and> event_type e = JStr ''human_message'') (room_events db r))"

definition isStale :: "db \<Rightarrow> string \<Rightarrow> nat \<Rightarrow> string \<Rightarrow> bool" where
  "isStale db r g i =
     (case (find_room db r, find (\<lambda>p. part_room p = r \<and> part_id p = i) (db_participants db)) of
        (Some room, Some p) \<Rightarrow> room_status room \<noteq> Active \<or> room_generation room \<noteq> g \<or> part_muted p
      | _ \<Rightarrow> True)"

definition providerPersonaId :: "string \<Rightarrow> string \<Rightarrow> string action" where
  "providerPersonaId r i =
     bindA (queryA (\<lambda>db. persona_row db r i)) (\<lambda>found.
     bindA (someA found (PlainError (''Unknown persona: '' @ i))) (\<lambda>p.
       returnA (case persona_slug p of None \<Rightarrow> i | Some s \<Rightarrow> s)))"

section \<open>Choosing a speaker\<close>

definition findIndex :: "('a \<Rightarrow> bool) \<Rightarrow> 'a list \<Rightarrow> nat option" where
  "findIndex P xs = (if \<exists>x \<in> set xs. P x then Some (length (takeWhile (\<lambda>x. \<not> P x) xs)) else None)"

definition speaker_on_cooldown :: "db \<Rightarrow> string \<Rightarrow> director_row \<Rightarrow> bool" where
  "speaker_on_cooldown db r state \<longleftrightarrow>
     last_speaker_id state \<noteq> None \<and>
     (case last_human_event_sequence state of None \<Rightarrow> False | Some n \<Rightarrow> human_messages_after db r n \<le> 1)"

text \<open>The loop over the personas in turn, starting after the last speaker.\<close>

definition in_turn :: "participant_row list \<Rightarrow> string option \<Rightarrow> participant_row list" where
  "in_turn ps last_speaker =
     (let start = (case findIndex (\<lambda>p. Some (part_id p) = last_speaker) ps of
                     None \<Rightarrow> 0 | Some k \<Rightarrow> (k + 1) mod length ps)
      in map (\<lambda>offset. ps ! ((start + offset) mod length ps)) [0..<length ps])"

definition decide :: "string \<Rightarrow> director_row \<Rightarrow> bool \<Rightarrow> string option \<Rightarrow> director_decision action" where
  "decide r state wants target =
     bindA (queryA (\<lambda>db. personas_of db r)) (\<lambda>ps.
     case target of
       Some i \<Rightarrow>
         bindA (someA (find (\<lambda>p. part_id p = i) ps) (PlainError ''Unknown persona for directed question'')) (\<lambda>p.
         bindA (requireA (\<not> part_muted p) (PlainError ''Target persona is muted'')) (\<lambda>_.
           returnA (decision (Some (part_id p)) Directed)))
     | None \<Rightarrow>
         if \<not> wants then returnA (decision None Deliberate_Silence)
         else if ps = [] then returnA (decision None No_Persona)
         else
           (case filter (\<lambda>p. \<not> part_muted p) ps of
              [] \<Rightarrow> returnA (decision None No_Eligible_Persona)
            | [p] \<Rightarrow> returnA (decision (Some (part_id p)) Selected)
            | _ \<Rightarrow>
                bindA (queryA (\<lambda>db. speaker_on_cooldown db r state)) (\<lambda>cooldown.
                  returnA (case find (\<lambda>p. \<not> part_muted p \<and> (\<not> cooldown \<or> Some (part_id p) \<noteq> last_speaker_id state))
                                     (in_turn ps (last_speaker_id state)) of
                             None \<Rightarrow> decision None Cooldown
                           | Some p \<Rightarrow> decision (Some (part_id p)) Selected))))"

section \<open>Preparing a message\<close>

definition human_message_json :: "string \<Rightarrow> string \<Rightarrow> jval" where
  "human_message_json participant t = JObj
     [(''type'', JStr ''human_message''), (''participantId'', JStr participant), (''text'', JStr t)]"

definition director_event_json :: "nat \<Rightarrow> director_decision \<Rightarrow> jval" where
  "director_event_json n d = JObj
     [(''type'', JStr ''director_decision''), (''sourceEventSequence'', JInt (int n)),
      (''speaker'', str_or_null (speaker d)), (''reason'', JStr (reason_name (reason d)))]"

definition persona_message_json :: "string \<Rightarrow> nat \<Rightarrow> string \<Rightarrow> jval" where
  "persona_message_json participant n t = JObj
     [(''type'', JStr ''persona_message''), (''participantId'', JStr participant),
      (''sourceEventSequence'', JInt (int n)), (''text'', JStr t)]"

text \<open>
  What \<open>#prepareMessage\<close> returns: the answer, the pending message with the claim taken, or the
  pending message of another worker with the time its claim ends.
\<close>

datatype prepared_message =
    Answered send_message_result
  | Claimed pending_message
  | Observed nat pending_message

definition assertMatchingDigest :: "command_row \<Rightarrow> string \<Rightarrow> unit action" where
  "assertMatchingDigest row digest =
     requireA (request_digest row = digest) (PlainError ''Request id was already used for a different command'')"

text \<open>A resent message: answered, taken over when its claim is gone or has expired, or left to its worker.\<close>

definition resumeMessage :: "nat \<Rightarrow> message_command \<Rightarrow> string \<Rightarrow> string \<Rightarrow> nat \<Rightarrow> command_row \<Rightarrow> prepared_message action" where
  "resumeMessage lease c digest owner n prior =
     bindA (assertMatchingDigest prior digest) (\<lambda>_.
     bindA (liftA (parseStored read_message_result (result_json prior))) (\<lambda>stored_cmd.
     case stored_cmd of
       Complete_Command res \<Rightarrow> returnA (Answered res)
     | Pending_Command p \<Rightarrow>
         (case claim prior of
            Some (own, expires) \<Rightarrow>
              if expires \<le> n
              then bindA (updateCommand (mc_roomId c) (mc_requestId c) (\<lambda>_. True) (\<lambda>row. row\<lparr>claim := Some (owner, n + lease)\<rparr>))
                     (\<lambda>_. returnA (Claimed p))
              else returnA (Observed expires p)
          | None \<Rightarrow>
              bindA (updateCommand (mc_roomId c) (mc_requestId c) (\<lambda>_. True) (\<lambda>row. row\<lparr>claim := Some (owner, n + lease)\<rparr>))
                (\<lambda>_. returnA (Claimed p)))))"

text \<open>\<open>UPDATE director_state\<close> after a decision; its foreign key holds, the speaker is a participant.\<close>

definition updateDirector :: "string \<Rightarrow> nat \<Rightarrow> director_decision \<Rightarrow> nat \<Rightarrow> unit action" where
  "updateDirector r n d g =
     updateA (\<lambda>db. db\<lparr>db_director := (db_director db)(r := map_option (\<lambda>state. state\<lparr>
         last_human_event_sequence := (case speaker d of None \<Rightarrow> last_human_event_sequence state | Some _ \<Rightarrow> Some n),
         last_speaker_id := (case speaker d of None \<Rightarrow> last_speaker_id state | Some s \<Rightarrow> Some s),
         autonomous_turns := autonomous_turns state + (case speaker d of None \<Rightarrow> 0 | Some _ \<Rightarrow> 1),
         scheduling_window_generation := g\<rparr>) (db_director db r))\<rparr>)"

text \<open>A new message: its two events, the director's state and the command.\<close>

definition recordMessage :: "nat \<Rightarrow> message_command \<Rightarrow> string \<Rightarrow> string \<Rightarrow> nat \<Rightarrow> room_row \<Rightarrow> director_row \<Rightarrow> string \<Rightarrow> prepared_message action" where
  "recordMessage lease c digest owner n room state human_id =
     bindA (appendEventInTransaction (mc_roomId c) (human_message_json human_id (mc_text c))) (\<lambda>human.
     bindA (decide (mc_roomId c) state (mc_wantsResponse c) (mc_target c)) (\<lambda>d.
     bindA (appendEventInTransaction (mc_roomId c) (director_event_json (snd human) d)) (\<lambda>director.
     bindA (updateDirector (mc_roomId c) (snd human) d (room_generation room)) (\<lambda>_.
     case speaker d of
       None \<Rightarrow>
         (let res = \<lparr>smr_requestId = mc_requestId c, smr_human = snd human, smr_director = snd director, smr_persona = None,
                     smr_decision = d, smr_outcome = Not_Scheduled, smr_generation = room_generation room\<rparr>
          in bindA (insertCommand (mc_roomId c) (mc_requestId c) digest (completed (message_result_json res)) None) (\<lambda>_.
               returnA (Answered res)))
     | Some _ \<Rightarrow>
         (let p = \<lparr>pm_requestId = mc_requestId c, pm_human = snd human, pm_director = snd director, pm_decision = d,
                   pm_generation = room_generation room, pm_prompt = mc_text c, pm_providerDecision = None\<rparr>
          in bindA (insertCommand (mc_roomId c) (mc_requestId c) digest (pending_json p) (Some (owner, n + lease))) (\<lambda>_.
               returnA (Claimed p)))))))"

definition prepareInTransaction :: "nat \<Rightarrow> message_command \<Rightarrow> string \<Rightarrow> string \<Rightarrow> jval \<Rightarrow> prepared_message action" where
  "prepareInTransaction lease c digest owner now =
     bindA (requireRoomSelection (mc_roomId c) (JInt (int (mc_selectionRevision c)))) (\<lambda>_.
     bindA (liftA (currentTime now)) (\<lambda>n.
     bindA (findCommand (mc_roomId c) (mc_requestId c)) (\<lambda>prior.
     case prior of
       Some row \<Rightarrow> resumeMessage lease c digest owner n row
     | None \<Rightarrow>
         bindA (room_row_of (mc_roomId c)) (\<lambda>room.
         bindA (requireA (room_status room = Active) (roomError (room_status room))) (\<lambda>_.
         bindA (queryA (\<lambda>db. db_director db (mc_roomId c))) (\<lambda>found_state.
         bindA (someA found_state (PlainError (''Missing director state for room: '' @ mc_roomId c))) (\<lambda>state.
         bindA (queryA (\<lambda>db. find (\<lambda>p. part_room p = mc_roomId c \<and> part_kind p = Human) (db_participants db))) (\<lambda>found_human.
         bindA (someA found_human (PlainError (''Missing human participant for room: '' @ mc_roomId c))) (\<lambda>human.
           recordMessage lease c digest owner n room state (part_id human))))))))))"

definition prepareMessage :: "nat \<Rightarrow> message_command \<Rightarrow> string \<Rightarrow> string \<Rightarrow> jval \<Rightarrow> prepared_message action" where
  "prepareMessage lease c digest owner now = withImmediateTransaction (prepareInTransaction lease c digest owner now)"

end
