(* ===== verification/Room_Completion.thy ===== *)
theory Room_Completion
  imports Room_Service
begin

text \<open>
  The rest of a message's life in \<open>src/runtime/room-service.ts\<close>: pinning the provider decision, the
  generation, completing the command; and the control commands of a room.
\<close>

section \<open>The provider decision of a message\<close>

record provider_decision_evidence =
  pde_adapterVersion :: string
  pde_directorRevision :: int
  pde_policyRevision :: int

definition decision_id_json :: "string \<Rightarrow> string \<Rightarrow> room_binding \<Rightarrow> jval" where
  "decision_id_json r q b = JObj
     [(''roomId'', JStr r), (''requestId'', JStr q), (''bindingId'', JStr (rb_id b)), (''bindingRevision'', JInt (rb_revision b))]"

definition target_adapter :: "connection_target \<Rightarrow> string" where
  "target_adapter t = (case t of Approved_Provider _ \<Rightarrow> ''openai-compatible'' | Local_Endpoint a \<Rightarrow> a)"

text \<open>The snapshot literal that is parsed; \<open>id\<close> is its digest-derived identifier.\<close>

definition resolved_snapshot_json :: "string \<Rightarrow> provider_decision_evidence \<Rightarrow> resolved_decision \<Rightarrow> jval" where
  "resolved_snapshot_json i evidence d = JObj
     [(''id'', JStr i), (''binding'', binding_json (rd_binding d)),
      (''connection'', snapshot_connection_json (rd_connection d)), (''model'', model_json (rd_model d)),
      (''effectiveGeneration'', generation_json (mp_generation (rd_model d))),
      (''adapter'', JObj [(''id'', JStr (target_adapter (sc_target (rd_connection d)))),
                         (''version'', JStr (pde_adapterVersion evidence))]),
      (''capabilityFingerprint'', JStr (po_fingerprint (rd_observation d))),
      (''directorRevision'', JInt (pde_directorRevision evidence)), (''policyRevision'', JInt (pde_policyRevision evidence))]"

definition resolvePinned ::
    "(string \<Rightarrow> string) \<Rightarrow> provider_decision_evidence option \<Rightarrow> string \<Rightarrow> string \<Rightarrow> decision_snapshot action" where
  "resolvePinned sha evidence r q =
     bindA (someA evidence (PlainError ''Provider decision evidence is required for a bound room'')) (\<lambda>ev.
     bindA (resolveRoomProviderDecision r ''persona-default'') (\<lambda>resolved.
     bindA (liftA (jsonDigest sha (decision_id_json r q (rd_binding resolved)))) (\<lambda>dg.
       liftA (parseDecisionSnapshot (resolved_snapshot_json (''decision-'' @ take 64 dg) ev resolved)))))"

definition pinProviderDecision ::
    "(string \<Rightarrow> string) \<Rightarrow> provider_decision_evidence option \<Rightarrow> string \<Rightarrow> string \<Rightarrow> string \<Rightarrow> decision_snapshot option action" where
  "pinProviderDecision sha evidence r q owner =
     withImmediateTransaction (
       bindA (findCommand r q) (\<lambda>found.
       bindA (someA (case found of None \<Rightarrow> None | Some row \<Rightarrow> if owned_by owner row then Some row else None)
               (PlainError ''Pending provider claim was lost'')) (\<lambda>row.
       bindA (liftA (parseStored read_message_result (result_json row))) (\<lambda>stored_cmd.
       case stored_cmd of
         Complete_Command _ \<Rightarrow> failA (PlainError ''Pending command completed before provider resolution'')
       | Pending_Command p \<Rightarrow>
           (case pm_providerDecision p of
              Some v \<Rightarrow> bindA (liftA (parseDecisionSnapshot v)) (\<lambda>s. returnA (Some s))
            | None \<Rightarrow>
                bindA (readEffectiveRoomBinding r ''persona-default'') (\<lambda>binding.
                if binding = None then returnA None
                else
                  bindA (resolvePinned sha evidence r q) (\<lambda>s.
                  bindA (liftA (canonicalJson (pending_json (p\<lparr>pm_providerDecision := Some (decision_json s)\<rparr>)))) (\<lambda>t.
                  bindA (updateCommand r q (owned_by owner) (\<lambda>row. row\<lparr>result_json := t\<rparr>)) (\<lambda>_.
                    returnA (Some s))))))))))"

definition decision_as_resolved :: "decision_snapshot \<Rightarrow> resolved_decision" where
  "decision_as_resolved s =
     \<lparr>rd_binding = ds_binding s, rd_connection = ds_connection s, rd_model = ds_model s,
      rd_observation = \<lparr>po_id = ''snapshot-observation'',
        po_connection = \<lparr>ref_profileId = sc_id (ds_connection s), ref_revision = sc_revision (ds_connection s)\<rparr>,
        po_health = ''ready'', po_fingerprint = capabilityFingerprint s, po_evidence = JObj []\<rparr>\<rparr>"

definition isProviderDecisionCurrent :: "decision_snapshot \<Rightarrow> db \<Rightarrow> bool" where
  "isProviderDecisionCurrent s db = isResolvedRoomProviderDecisionCurrent (decision_as_resolved s) db"

section \<open>Completing a message\<close>

definition snapshot_input_of :: "string \<Rightarrow> string \<Rightarrow> decision_snapshot \<Rightarrow> js_error + snapshot_input" where
  "snapshot_input_of r q s =
     (case sc_target (ds_connection s) of
        Approved_Provider i \<Rightarrow>
          bindE (getProviderDefinition i) (\<lambda>d.
            Inr \<lparr>si_roomId = r, si_requestId = q, si_snapshot = decision_json s,
                 si_definition = Some (i, def_version d), si_policy = SINGLE_ATTEMPT_ROUTING_POLICY\<rparr>)
      | Local_Endpoint _ \<Rightarrow>
          Inr \<lparr>si_roomId = r, si_requestId = q, si_snapshot = decision_json s, si_definition = None,
               si_policy = SINGLE_ATTEMPT_ROUTING_POLICY\<rparr>)"

text \<open>The event of the answer, and its sequence number.\<close>

definition publishAnswer ::
    "string \<Rightarrow> string \<Rightarrow> pending_message \<Rightarrow> bool \<Rightarrow> provider_result option \<Rightarrow> (nat option \<times> message_outcome) action" where
  "publishAnswer r i p stale res =
     (case (stale, res) of
        (False, Some Provider_Silence) \<Rightarrow> returnA (None, Silence_Outcome)
      | (False, Some (Provider_Text t)) \<Rightarrow>
          bindA (appendEventInTransaction r (persona_message_json i (pm_human p) t)) (\<lambda>ev.
            returnA (Some (snd ev), Text_Outcome))
      | _ \<Rightarrow> returnA (None, Stale_Outcome))"

definition recordDecision :: "string \<Rightarrow> string \<Rightarrow> bool \<Rightarrow> generated_message \<Rightarrow> unit action" where
  "recordDecision r q stale g =
     (case (stale, gm_providerResult g, gm_providerDecision g) of
        (False, Some _, Some s) \<Rightarrow>
          bindA (liftA (snapshot_input_of r q s)) (\<lambda>input.
          bindA (commitDecisionSnapshotInTransaction input) (\<lambda>_. returnA ()))
      | _ \<Rightarrow> returnA ())"

definition finishMessage :: "string \<Rightarrow> string \<Rightarrow> pending_message \<Rightarrow> generated_message \<Rightarrow> string \<Rightarrow> send_message_result action" where
  "finishMessage r q p g owner =
     bindA (someA (speaker (pm_decision p)) (PlainError ''Stored pending command has no speaker'')) (\<lambda>i.
     bindA (queryA (\<lambda>db. isStale db r (pm_generation p) i \<or>
        (case gm_providerDecision g of None \<Rightarrow> False | Some s \<Rightarrow> \<not> isProviderDecisionCurrent s db))) (\<lambda>stale.
     bindA (publishAnswer r i p stale (gm_providerResult g)) (\<lambda>published.
     bindA (recordDecision r q stale g) (\<lambda>_.
       let res = \<lparr>smr_requestId = q, smr_human = pm_human p, smr_director = pm_director p, smr_persona = fst published,
                  smr_decision = pm_decision p, smr_outcome = snd published, smr_generation = pm_generation p\<rparr>
       in bindA (liftA (canonicalJson (completed (message_result_json res)))) (\<lambda>t.
          bindA (updateCommand r q (owned_by owner) (\<lambda>row. row\<lparr>result_json := t, claim := None\<rparr>)) (\<lambda>_.
            returnA res))))))"

text \<open>None: the claim is gone, the worker starts over. The clock is read only by the owner of the claim.\<close>

definition completeMessage ::
    "string \<Rightarrow> string \<Rightarrow> pending_message \<Rightarrow> generated_message \<Rightarrow> string \<Rightarrow> jval \<Rightarrow> send_message_result option action" where
  "completeMessage r q p g owner now =
     withImmediateTransaction (
       bindA (findCommand r q) (\<lambda>found.
       bindA (someA found (PlainError ''Pending command disappeared'')) (\<lambda>row.
       bindA (liftA (parseStored read_message_result (result_json row))) (\<lambda>stored_cmd.
       case stored_cmd of
         Complete_Command res \<Rightarrow> returnA (Some res)
       | Pending_Command _ \<Rightarrow>
           (case claim row of
              Some (own, expires) \<Rightarrow>
                if own \<noteq> owner then returnA None
                else
                  bindA (liftA (currentTime now)) (\<lambda>n.
                  if expires \<le> n then returnA None
                  else bindA (finishMessage r q p g owner) (\<lambda>res. returnA (Some res)))
            | None \<Rightarrow> returnA None)))))"

section \<open>Control commands\<close>

definition control_request_json :: "string \<Rightarrow> string \<Rightarrow> string \<Rightarrow> nat \<Rightarrow> jval" where
  "control_request_json kind r q n = JObj
     [(''kind'', JStr kind), (''roomId'', JStr r), (''requestId'', JStr q), (''selectionRevision'', JInt (int n))]"

definition persona_request_json :: "string \<Rightarrow> string \<Rightarrow> string \<Rightarrow> nat \<Rightarrow> string \<Rightarrow> jval" where
  "persona_request_json kind r q n i = JObj
     [(''kind'', JStr kind), (''roomId'', JStr r), (''requestId'', JStr q), (''selectionRevision'', JInt (int n)),
      (''personaId'', JStr i)]"

definition message_request_json :: "message_command \<Rightarrow> jval" where
  "message_request_json c = JObj
     ([(''kind'', JStr ''sendMessage''), (''roomId'', JStr (mc_roomId c)), (''requestId'', JStr (mc_requestId c)),
       (''selectionRevision'', JInt (int (mc_selectionRevision c))), (''text'', JStr (mc_text c)),
       (''wantsResponse'', JBool (mc_wantsResponse c))] @ opt_field ''targetPersonaId'' (mc_target c))"

text \<open>The answer of a control command that was already carried out.\<close>

definition replayControl :: "(jval \<Rightarrow> 'r option) \<Rightarrow> command_row \<Rightarrow> string \<Rightarrow> 'r action" where
  "replayControl read_result row digest =
     bindA (assertMatchingDigest row digest) (\<lambda>_.
     bindA (liftA (parseStored read_result (result_json row))) (\<lambda>stored_cmd.
     case stored_cmd of
       Complete_Command res \<Rightarrow> returnA res
     | Pending_Command _ \<Rightarrow> failA (PlainError ''Control command cannot be pending'')))"

fun target_status :: "room_control \<Rightarrow> room_status" where
  "target_status Pause = Paused"
| "target_status Resume = Active"
| "target_status Stop = Stopped"

text \<open>
  The flag beside the result says that the generations of the room are aborted afterwards.
\<close>

definition control_fences :: "room_control \<Rightarrow> room_row \<Rightarrow> bool" where
  "control_fences kind room \<longleftrightarrow> room_status room \<noteq> target_status kind \<and> kind \<in> {Pause, Stop}"

definition changeStatus :: "room_control \<Rightarrow> string \<Rightarrow> room_row \<Rightarrow> unit action" where
  "changeStatus kind r room =
     (if room_status room \<noteq> target_status kind
      then bindA (updateRoom r (\<lambda>row. row\<lparr>room_status := target_status kind,
               room_generation := room_generation row + (if control_fences kind room then 1 else 0)\<rparr>)) (\<lambda>_.
             if control_fences kind room then releaseRoomClaims r else returnA ())
      else returnA ())"

definition controlRoom :: "room_control \<Rightarrow> string \<Rightarrow> string \<Rightarrow> string \<Rightarrow> (bool \<times> room_control_result) action" where
  "controlRoom kind r q digest =
     bindA (room_row_of r) (\<lambda>room.
     bindA (requireA (\<not> (kind \<in> {Resume, Pause} \<and> room_status room = Stopped)) (roomError (room_status room))) (\<lambda>_.
     bindA (changeStatus kind r room) (\<lambda>_.
     bindA (room_row_of r) (\<lambda>updated.
       let res = \<lparr>rcr_kind = kind, rcr_requestId = q, rcr_status = room_status updated,
                  rcr_generation = room_generation updated, rcr_changed = (room_status room \<noteq> target_status kind)\<rparr>
       in bindA (insertCommand r q digest (completed (control_result_json res)) None) (\<lambda>_.
            returnA (control_fences kind room, res))))))"

definition roomControl :: "(string \<Rightarrow> string) \<Rightarrow> room_control \<Rightarrow> room_command \<Rightarrow> (bool \<times> room_control_result) action" where
  "roomControl sha kind c =
     bindA (liftA (canonicalIdentifier (rc_roomId c) ''roomId'')) (\<lambda>r.
     bindA (liftA (canonicalIdentifier (rc_requestId c) ''requestId'')) (\<lambda>q.
     bindA (liftA (canonicalSelectionRevision (rc_selectionRevision c))) (\<lambda>n.
     bindA (liftA (jsonDigest sha (control_request_json (control_name kind) r q n))) (\<lambda>digest.
       withImmediateTransaction (
         bindA (requireRoomSelection r (JInt (int n))) (\<lambda>_.
         bindA (findCommand r q) (\<lambda>prior.
         case prior of
           Some row \<Rightarrow> bindA (replayControl read_control_result row digest) (\<lambda>res. returnA (False, res))
         | None \<Rightarrow> controlRoom kind r q digest)))))))"

definition updateMuted :: "string \<Rightarrow> string \<Rightarrow> bool \<Rightarrow> unit action" where
  "updateMuted r i b =
     updateA (\<lambda>db. db\<lparr>db_participants := update_where (\<lambda>p. part_room p = r \<and> part_id p = i)
        (\<lambda>p. p\<lparr>part_muted := b\<rparr>) (db_participants db)\<rparr>)"

definition changeMuted :: "persona_control \<Rightarrow> string \<Rightarrow> string \<Rightarrow> participant_row \<Rightarrow> unit action" where
  "changeMuted kind r i persona =
     (if part_muted persona \<noteq> (kind = Mute)
      then bindA (updateMuted r i (kind = Mute)) (\<lambda>_.
             if kind = Mute
             then bindA (updateRoom r (\<lambda>row. row\<lparr>room_generation := room_generation row + 1\<rparr>)) (\<lambda>_. releaseRoomClaims r)
             else returnA ())
      else returnA ())"

definition controlPersona :: "persona_control \<Rightarrow> string \<Rightarrow> string \<Rightarrow> string \<Rightarrow> string \<Rightarrow> (bool \<times> persona_control_result) action" where
  "controlPersona kind r q i digest =
     bindA (room_row_of r) (\<lambda>room.
     bindA (requireA (room_status room \<noteq> Stopped) (roomError (room_status room))) (\<lambda>_.
     bindA (queryA (\<lambda>db. persona_row db r i)) (\<lambda>found.
     bindA (someA found (PlainError (''Unknown persona: '' @ i))) (\<lambda>persona.
     bindA (changeMuted kind r i persona) (\<lambda>_.
     bindA (room_row_of r) (\<lambda>updated.
       let res = \<lparr>pcr_kind = kind, pcr_requestId = q, pcr_personaId = i, pcr_muted = (kind = Mute),
                  pcr_generation = room_generation updated, pcr_changed = (part_muted persona \<noteq> (kind = Mute))\<rparr>
       in bindA (insertCommand r q digest (completed (persona_result_json res)) None) (\<lambda>_.
            returnA (part_muted persona \<noteq> (kind = Mute) \<and> kind = Mute, res))))))))"

definition personaControl ::
    "(string \<Rightarrow> string) \<Rightarrow> persona_control \<Rightarrow> persona_control_command \<Rightarrow> (bool \<times> persona_control_result) action" where
  "personaControl sha kind c =
     bindA (liftA (canonicalIdentifier (rc_roomId c) ''roomId'')) (\<lambda>r.
     bindA (liftA (canonicalIdentifier (rc_requestId c) ''requestId'')) (\<lambda>q.
     bindA (liftA (canonicalSelectionRevision (rc_selectionRevision c))) (\<lambda>n.
     bindA (liftA (canonicalIdentifier (pcc_personaId c) ''personaId'')) (\<lambda>i.
     bindA (liftA (jsonDigest sha (persona_request_json (mute_name kind) r q n i))) (\<lambda>digest.
       withImmediateTransaction (
         bindA (requireRoomSelection r (JInt (int n))) (\<lambda>_.
         bindA (findCommand r q) (\<lambda>prior.
         case prior of
           Some row \<Rightarrow> bindA (replayControl read_persona_result row digest) (\<lambda>res. returnA (False, res))
         | None \<Rightarrow> controlPersona kind r q i digest))))))))"

end
