(* ===== verification/Room_Messages.thy ===== *)
theory Room_Messages
  imports Room_Completion Cast_Invariant Provider_History Provider_Decisions
begin

text \<open>
  What the database says about messages: the command of a message, the events of its room that
  belong to it, and the invariant that ties them together (\<open>messages_ok\<close>). \<open>advances\<close> relates two
  databases of which the second is later. The lemmas here are about the few ways in which an
  operation can change the database; \<open>Room_Steps\<close> applies them to the operations.
\<close>

section \<open>Views\<close>

definition event_source :: "event_row \<Rightarrow> jval" where
  "event_source e = (case json_parse (event_json e) of None \<Rightarrow> JUndefined | Some v \<Rightarrow> jget ''sourceEventSequence'' v)"

definition is_human :: "event_row \<Rightarrow> bool" where
  "is_human e \<longleftrightarrow> event_type e = JStr ''human_message''"

definition is_answer :: "event_row \<Rightarrow> bool" where
  "is_answer e \<longleftrightarrow> event_type e = JStr ''persona_message''"

definition humans :: "db \<Rightarrow> string \<Rightarrow> nat list" where
  "humans db r = map event_sequence (filter is_human (room_events db r))"

text \<open>The persona messages of a room: the event each answers and its own number.\<close>

definition answers :: "db \<Rightarrow> string \<Rightarrow> (jval \<times> nat) list" where
  "answers db r = map (\<lambda>e. (event_source e, event_sequence e)) (filter is_answer (room_events db r))"

definition answers_to :: "db \<Rightarrow> string \<Rightarrow> nat \<Rightarrow> nat list" where
  "answers_to db r h = map snd (filter (\<lambda>p. fst p = JInt (int h)) (answers db r))"

definition stored_message :: "string \<Rightarrow> send_message_result stored_command option" where
  "stored_message t = (case parseStored read_message_result t of Inl _ \<Rightarrow> None | Inr sc \<Rightarrow> Some sc)"

definition message_at :: "db \<Rightarrow> string \<times> string \<Rightarrow> send_message_result stored_command option" where
  "message_at db k = (case db_commands db k of None \<Rightarrow> None | Some row \<Rightarrow> stored_message (result_json row))"

definition phase_of :: "db \<Rightarrow> string \<Rightarrow> (room_status \<times> nat) option" where
  "phase_of db r = map_option (\<lambda>room. (room_status room, room_generation room)) (find_room db r)"

text \<open>What a message's command keeps from its recording to its answer.\<close>

fun core_of :: "send_message_result stored_command \<Rightarrow> nat \<times> nat \<times> director_decision \<times> nat" where
  "core_of (Complete_Command res) = (smr_human res, smr_director res, smr_decision res, smr_generation res)"
| "core_of (Pending_Command p) = (pm_human p, pm_director p, pm_decision p, pm_generation p)"

definition human_of :: "send_message_result stored_command \<Rightarrow> nat" where
  "human_of sc = fst (core_of sc)"

definition generation_of :: "send_message_result stored_command \<Rightarrow> nat" where
  "generation_of sc = snd (snd (snd (core_of sc)))"

lemma core_parts [simp]:
  "human_of (Complete_Command res) = smr_human res" "human_of (Pending_Command p) = pm_human p"
  "generation_of (Complete_Command res) = smr_generation res" "generation_of (Pending_Command p) = pm_generation p"
  by (simp_all add: human_of_def generation_of_def)

lemma same_core: "core_of a = core_of b \<Longrightarrow> human_of a = human_of b \<and> generation_of a = generation_of b"
  by (simp add: human_of_def generation_of_def)

text \<open>The numbers of the persona messages that a command reports.\<close>

fun published :: "send_message_result stored_command \<Rightarrow> nat list" where
  "published (Complete_Command res) = (case smr_persona res of None \<Rightarrow> [] | Some n \<Rightarrow> [n])"
| "published (Pending_Command p) = []"

fun outcome_ok :: "send_message_result stored_command \<Rightarrow> bool" where
  "outcome_ok (Complete_Command res) = ((smr_persona res \<noteq> None) = (smr_outcome res = Text_Outcome))"
| "outcome_ok (Pending_Command p) = True"

section \<open>The invariant\<close>

text \<open>
  Every message has its human event and a generation its room has reached, no two messages share
  their human event, the persona messages that answer it are exactly those its command reports
  (none while it is pending, at most one afterwards), and every persona message answers a message.
\<close>

definition message_ok :: "db \<Rightarrow> string \<Rightarrow> send_message_result stored_command \<Rightarrow> bool" where
  "message_ok db r sc \<longleftrightarrow>
     human_of sc \<in> set (humans db r) \<and> answers_to db r (human_of sc) = published sc \<and> outcome_ok sc \<and>
     (\<exists>st g. phase_of db r = Some (st, g) \<and> generation_of sc \<le> g)"

definition messages_ok :: "db \<Rightarrow> bool" where
  "messages_ok db \<longleftrightarrow>
     (\<forall>r q sc. message_at db (r, q) = Some sc \<longrightarrow> message_ok db r sc) \<and>
     (\<forall>r q q' sc sc'. message_at db (r, q) = Some sc \<longrightarrow> message_at db (r, q') = Some sc' \<longrightarrow>
        human_of sc = human_of sc' \<longrightarrow> q = q') \<and>
     (\<forall>r. \<forall>s \<in> set (map fst (answers db r)). \<exists>q sc. message_at db (r, q) = Some sc \<and> s = JInt (int (human_of sc)))"

section \<open>Moving forward\<close>

text \<open>The room had not moved past the message's generation.\<close>

definition unfenced :: "db \<Rightarrow> string \<Rightarrow> send_message_result stored_command \<Rightarrow> bool" where
  "unfenced db r sc \<longleftrightarrow> (\<forall>st g. phase_of db r = Some (st, g) \<longrightarrow> g \<le> generation_of sc)"

definition message_grows :: "db \<Rightarrow> db \<Rightarrow> bool" where
  "message_grows db db' \<longleftrightarrow> (\<forall>r q sc. message_at db (r, q) = Some sc \<longrightarrow>
     (\<exists>sc'. message_at db' (r, q) = Some sc' \<and> core_of sc' = core_of sc \<and>
        (\<forall>res. sc = Complete_Command res \<longrightarrow> sc' = sc) \<and>
        (published sc' \<noteq> [] \<longrightarrow> sc' = sc \<or> unfenced db r sc)))"

definition room_grows :: "db \<Rightarrow> db \<Rightarrow> bool" where
  "room_grows db db' \<longleftrightarrow> (\<forall>r st g. phase_of db r = Some (st, g) \<longrightarrow>
     (\<exists>st' g'. phase_of db' r = Some (st', g') \<and> g \<le> g' \<and>
        (st = Stopped \<longrightarrow> st' = Stopped \<and> g' = g \<and> room_events db' r = room_events db r)))"

definition log_grows :: "db \<Rightarrow> db \<Rightarrow> bool" where
  "log_grows db db' \<longleftrightarrow> (\<forall>r. \<exists>new. room_events db' r = room_events db r @ new)"

definition advances :: "db \<Rightarrow> db \<Rightarrow> bool" where
  "advances db db' \<longleftrightarrow> message_grows db db' \<and> room_grows db db' \<and> log_grows db db'"

lemma advances_refl: "advances db db"
  by (auto simp: advances_def message_grows_def room_grows_def log_grows_def)

lemma message_grows_trans:
  assumes mg: "message_grows a b" "message_grows b c" and rg: "room_grows a b"
  shows "message_grows a c"
  unfolding message_grows_def
proof (intro allI impI)
  fix r q sc assume "message_at a (r, q) = Some sc"
  with mg(1) obtain sb where sb: "message_at b (r, q) = Some sb" "core_of sb = core_of sc"
    "\<forall>res. sc = Complete_Command res \<longrightarrow> sb = sc" "published sb \<noteq> [] \<longrightarrow> sb = sc \<or> unfenced a r sc"
    unfolding message_grows_def by blast
  from mg(2) sb(1) obtain sd where sd: "message_at c (r, q) = Some sd" "core_of sd = core_of sb"
    "\<forall>res. sb = Complete_Command res \<longrightarrow> sd = sb" "published sd \<noteq> [] \<longrightarrow> sd = sb \<or> unfenced b r sb"
    unfolding message_grows_def by blast
  have "generation_of sb = generation_of sc" using same_core [OF sb(2)] by simp
  then have "unfenced a r sc" if "unfenced b r sb"
    using that rg unfolding unfenced_def room_grows_def by (metis order_trans)
  with sb(4) sd(4) have "published sd \<noteq> [] \<longrightarrow> sd = sc \<or> unfenced a r sc" by blast
  moreover have "\<forall>res. sc = Complete_Command res \<longrightarrow> sd = sc" using sb(3) sd(3) by blast
  ultimately show "\<exists>sc'. message_at c (r, q) = Some sc' \<and> core_of sc' = core_of sc \<and>
      (\<forall>res. sc = Complete_Command res \<longrightarrow> sc' = sc) \<and> (published sc' \<noteq> [] \<longrightarrow> sc' = sc \<or> unfenced a r sc)"
    using sd(1,2) sb(2) by auto
qed

lemma room_grows_trans:
  assumes "room_grows a b" and "room_grows b c"
  shows "room_grows a c"
  unfolding room_grows_def
proof (intro allI impI)
  fix r st g assume "phase_of a r = Some (st, g)"
  with assms(1) obtain st1 g1 where 1: "phase_of b r = Some (st1, g1)" "g \<le> g1"
    "st = Stopped \<longrightarrow> st1 = Stopped \<and> g1 = g \<and> room_events b r = room_events a r"
    unfolding room_grows_def by blast
  with assms(2) obtain st2 g2 where 2: "phase_of c r = Some (st2, g2)" "g1 \<le> g2"
    "st1 = Stopped \<longrightarrow> st2 = Stopped \<and> g2 = g1 \<and> room_events c r = room_events b r"
    unfolding room_grows_def by blast
  with 1 show "\<exists>st' g'. phase_of c r = Some (st', g') \<and> g \<le> g' \<and>
      (st = Stopped \<longrightarrow> st' = Stopped \<and> g' = g \<and> room_events c r = room_events a r)"
    by auto
qed

lemma log_grows_trans: "log_grows a b \<Longrightarrow> log_grows b c \<Longrightarrow> log_grows a c"
  unfolding log_grows_def by (metis append_assoc)

lemma advances_trans: "advances a b \<Longrightarrow> advances b c \<Longrightarrow> advances a c"
  unfolding advances_def using message_grows_trans room_grows_trans log_grows_trans by blast

section \<open>How a database can change\<close>

text \<open>Everything that the views read.\<close>

lemma views_cong:
  assumes "message_at db' = message_at db" and "room_events db' = room_events db" and "phase_of db' = phase_of db"
  shows "messages_ok db' = messages_ok db" and "advances db db'"
  using assms
  by (simp_all add: messages_ok_def message_ok_def humans_def answers_def answers_to_def advances_def message_grows_def
      room_grows_def log_grows_def)

text \<open>New events of a room whose phase stays; the commands stay.\<close>

lemma humans_append: "room_events db' r = room_events db r @ new \<Longrightarrow>
  humans db' r = humans db r @ map event_sequence (filter is_human new)"
  by (simp add: humans_def)

lemma answers_append: "room_events db' r = room_events db r @ new \<Longrightarrow>
  answers db' r = answers db r @ map (\<lambda>e. (event_source e, event_sequence e)) (filter is_answer new)"
  by (simp add: answers_def)

lemma answers_to_append: "answers db' r = answers db r @ xs \<Longrightarrow>
  answers_to db' r h = answers_to db r h @ map snd (filter (\<lambda>p. fst p = JInt (int h)) xs)"
  by (simp add: answers_to_def)

lemma log_growsI:
  assumes "room_events db' = (room_events db)(r := room_events db r @ new)"
  shows "log_grows db db'"
  using assms by (simp add: log_grows_def)

lemma quiet_append:
  assumes ok: "messages_ok db"
    and views: "message_at db' = message_at db" "room_events db' = (room_events db)(r := room_events db r @ new)"
    and phase: "phase_of db' = phase_of db" "\<And>g. phase_of db r \<noteq> Some (Stopped, g)"
    and quiet: "\<forall>e \<in> set new. \<not> is_answer e"
  shows "messages_ok db' \<and> advances db db'"
proof -
  have none: "filter is_answer new = []" using quiet by (simp add: filter_empty_conv)
  have ans: "answers db' = answers db"
    by (rule ext) (simp add: answers_def views none)
  have ans_to: "answers_to db' = answers_to db" by (rule ext)+ (simp add: answers_to_def ans)
  have hum: "set (humans db s) \<subseteq> set (humans db' s)" for s by (auto simp: humans_def views)
  have "message_ok db' s sc" if "message_ok db s sc" for s sc
    using that hum [of s] by (auto simp: message_ok_def ans_to phase)
  with ok have "messages_ok db'" by (simp add: messages_ok_def views ans)
  moreover have "advances db db'"
    using log_growsI [OF views(2)] phase(2)
    by (auto simp: advances_def message_grows_def room_grows_def views phase)
  ultimately show ?thesis ..
qed

text \<open>A message is recorded: its human event is new to the messages.\<close>

lemma new_message:
  assumes ok: "messages_ok db" and free: "message_at db (r, q) = None"
    and views: "message_at db' = (message_at db)((r, q) \<mapsto> sc)" "room_events db' = room_events db" "phase_of db' = phase_of db"
    and new: "human_of sc \<in> set (humans db r)" "published sc = []" "outcome_ok sc"
      "\<exists>st g. phase_of db r = Some (st, g) \<and> generation_of sc \<le> g"
    and fresh: "\<And>q' sc'. message_at db (r, q') = Some sc' \<Longrightarrow> human_of sc' \<noteq> human_of sc"
  shows "messages_ok db' \<and> advances db db'"
proof -
  have same: "humans db' = humans db" "answers db' = answers db" "answers_to db' = answers_to db"
    by (rule ext; simp add: humans_def answers_def views)+ (auto simp: fun_eq_iff answers_to_def answers_def views)
  have none: "answers_to db r (human_of sc) = []"
  proof -
    have "s \<noteq> JInt (int (human_of sc))" if s: "s \<in> set (map fst (answers db r))" for s
    proof -
      from ok s obtain q' sc' where q': "message_at db (r, q') = Some sc'" and eq: "s = JInt (int (human_of sc'))"
        unfolding messages_ok_def by blast
      from fresh [OF q'] eq show ?thesis by simp
    qed
    then show ?thesis by (auto simp: answers_to_def filter_empty_conv)
  qed
  have m: "message_ok db' s x = message_ok db s x" for s x by (simp add: message_ok_def same views)
  have "message_ok db r sc" using new none by (simp add: message_ok_def)
  with ok have 1: "\<forall>s k x. message_at db' (s, k) = Some x \<longrightarrow> message_ok db' s x"
    unfolding m by (auto simp: views messages_ok_def)
  have 2: "k = k'" if "message_at db' (s, k) = Some x" "message_at db' (s, k') = Some x'" "human_of x = human_of x'" for s k k' x x'
    using that ok fresh by (auto simp: views messages_ok_def split: if_splits)
  have 3: "\<forall>s. \<forall>v \<in> set (map fst (answers db' s)). \<exists>k x. message_at db' (s, k) = Some x \<and> v = JInt (int (human_of x))"
  proof (intro allI ballI)
    fix s v assume "v \<in> set (map fst (answers db' s))"
    with ok obtain k x where kx: "message_at db (s, k) = Some x" "v = JInt (int (human_of x))"
      unfolding same messages_ok_def by blast
    with free have "message_at db' (s, k) = Some x" by (auto simp: views)
    with kx(2) show "\<exists>k x. message_at db' (s, k) = Some x \<and> v = JInt (int (human_of x))" by blast
  qed
  have "messages_ok db'" unfolding messages_ok_def using 1 2 3 by blast
  moreover have "advances db db'"
    using free by (auto simp: advances_def message_grows_def room_grows_def log_grows_def views)
  ultimately show ?thesis ..
qed

text \<open>A pending message changes: its core stays, and what it publishes is what is appended.\<close>

lemma changed_message:
  assumes ok: "messages_ok db" and old: "message_at db (r, q) = Some (Pending_Command p)"
    and views: "message_at db' = (message_at db)((r, q) \<mapsto> sc)"
      "room_events db' = (room_events db)(r := room_events db r @ new)" "phase_of db' = phase_of db"
    and new: "core_of sc = core_of (Pending_Command p)" "outcome_ok sc" "map event_sequence new = published sc"
      "\<forall>e \<in> set new. is_answer e \<and> event_source e = JInt (int (pm_human p))"
    and live: "new \<noteq> [] \<Longrightarrow> phase_of db r = Some (Active, pm_generation p)"
  shows "messages_ok db' \<and> advances db db'"
proof -
  have hg: "human_of sc = pm_human p" "generation_of sc = pm_generation p"
    using same_core [OF new(1)] by simp_all
  have all: "filter is_answer new = new" using new(4) by (simp add: filter_id_conv)
  define xs where "xs = map (\<lambda>e. (event_source e, event_sequence e)) new"
  have ans: "answers db' = (answers db)(r := answers db r @ xs)"
    by (rule ext) (simp add: answers_def views all xs_def)
  have hum: "set (humans db s) \<subseteq> set (humans db' s)" for s by (auto simp: humans_def views)
  have src: "fst x = JInt (int (pm_human p))" if "x \<in> set xs" for x using that new(4) by (auto simp: xs_def)
  have to: "answers_to db' s h = answers_to db s h @ (if s = r \<and> h = pm_human p then published sc else [])" for s h
  proof -
    have "filter (\<lambda>x. fst x = JInt (int h)) xs = (if h = pm_human p then xs else [])"
      using src by (auto simp: filter_id_conv filter_empty_conv)
    moreover have "map snd xs = published sc" using new(3) by (simp add: xs_def comp_def)
    ultimately show ?thesis by (auto simp: answers_to_def ans)
  qed
  have pok: "message_ok db r (Pending_Command p)" using ok old by (simp add: messages_ok_def)
  have uniq: "k = q" if "message_at db (r, k) = Some x" "human_of x = pm_human p" for k x
    using ok old that unfolding messages_ok_def by (metis core_parts(2))
  have 1: "message_ok db' s x" if x: "message_at db' (s, k) = Some x" for s k x
  proof (cases "(s, k) = (r, q)")
    case True
    with x have "x = sc" by (simp add: views)
    with pok hum [of r] True show ?thesis by (auto simp: message_ok_def to hg new(2) views)
  next
    case False
    with x have x': "message_at db (s, k) = Some x" by (simp add: views split: if_splits)
    with ok have m: "message_ok db s x" by (simp add: messages_ok_def)
    have "\<not> (s = r \<and> human_of x = pm_human p)" using uniq x' False by auto
    with m hum [of s] show ?thesis by (auto simp: message_ok_def to views)
  qed
  have 2: "k = k'" if "message_at db' (s, k) = Some x" "message_at db' (s, k') = Some x'" "human_of x = human_of x'" for s k k' x x'
  proof -
    have "\<exists>y. message_at db (s, j) = Some y \<and> human_of y = human_of z" if "message_at db' (s, j) = Some z" for j z
      using that old hg by (auto simp: views split: if_splits)
    with that ok show ?thesis unfolding messages_ok_def by metis
  qed
  have keep: "\<exists>y. message_at db' (s, k) = Some y \<and> human_of y = human_of x" if "message_at db (s, k) = Some x" for s k x
    using that old hg by (auto simp: views)
  have 3: "\<exists>k x. message_at db' (s, k) = Some x \<and> v = JInt (int (human_of x))" if v: "v \<in> set (map fst (answers db' s))" for s v
  proof (cases "v \<in> set (map fst (answers db s))")
    case True
    with ok obtain k x where "message_at db (s, k) = Some x" "v = JInt (int (human_of x))" unfolding messages_ok_def by blast
    with keep show ?thesis by metis
  next
    case False
    with v src have "s = r" "v = JInt (int (pm_human p))" by (auto simp: ans split: if_splits)
    with keep [OF old] show ?thesis by (metis core_parts(2))
  qed
  have "messages_ok db'" unfolding messages_ok_def using 1 2 3 by blast
  moreover have "advances db db'"
  proof -
    have "unfenced db r (Pending_Command p)" if "published sc \<noteq> []"
      using live that new(3) by (cases new) (auto simp: unfenced_def)
    then have "message_grows db db'" using old new(1) by (auto simp: message_grows_def views)
    moreover have "room_grows db db'"
      using live by (cases "new = []") (auto simp: room_grows_def views)
    ultimately show ?thesis using log_growsI [OF views(2)] by (simp add: advances_def)
  qed
  ultimately show ?thesis ..
qed

text \<open>The phase of a room changes: a stopped room stays as it is, a generation never decreases.\<close>

lemma new_phase:
  assumes ok: "messages_ok db"
    and views: "message_at db' = message_at db" "room_events db' = room_events db"
    and phase: "\<And>r st g. phase_of db r = Some (st, g) \<Longrightarrow>
      \<exists>st' g'. phase_of db' r = Some (st', g') \<and> g \<le> g' \<and> (st = Stopped \<longrightarrow> st' = Stopped \<and> g' = g)"
  shows "messages_ok db' \<and> advances db db'"
proof -
  have same: "humans db' = humans db" "answers db' = answers db" "answers_to db' = answers_to db"
    by (auto simp: fun_eq_iff humans_def answers_def answers_to_def views)
  have "message_ok db' r sc" if m: "message_ok db r sc" for r sc
  proof -
    from m obtain st g where "phase_of db r = Some (st, g)" "generation_of sc \<le> g" by (auto simp: message_ok_def)
    with phase obtain st' g' where "phase_of db' r = Some (st', g')" "generation_of sc \<le> g'" by (meson le_trans)
    with m show ?thesis by (simp add: message_ok_def same)
  qed
  with ok have "messages_ok db'" by (simp add: messages_ok_def views same)
  moreover have "advances db db'"
    using phase by (auto simp: advances_def message_grows_def room_grows_def log_grows_def views)
  ultimately show ?thesis ..
qed

section \<open>The databases of a run\<close>

definition room_ok :: "db \<Rightarrow> db \<Rightarrow> bool" where
  "room_ok db0 db \<longleftrightarrow> log_ok db \<and> provider_ok db \<and> messages_ok db \<and> advances db0 db"

lemma room_ok_parts:
  "room_ok db0 db \<Longrightarrow> log_ok db" "room_ok db0 db \<Longrightarrow> provider_ok db" "room_ok db0 db \<Longrightarrow> messages_ok db"
  "room_ok db0 db \<Longrightarrow> advances db0 db"
  by (simp_all add: room_ok_def)

lemma room_ok_step:
  "room_ok db0 db \<Longrightarrow> log_ok db' \<Longrightarrow> provider_ok db' \<Longrightarrow> messages_ok db' \<and> advances db db' \<Longrightarrow> room_ok db0 db'"
  unfolding room_ok_def using advances_trans by blast

lemma room_ok_views:
  "room_ok db0 db \<Longrightarrow> log_ok db' \<Longrightarrow> provider_ok db' \<Longrightarrow> message_at db' = message_at db \<Longrightarrow> room_events db' = room_events db \<Longrightarrow>
   phase_of db' = phase_of db \<Longrightarrow> room_ok db0 db'"
  using room_ok_step views_cong room_ok_parts(3) by blast

lemma view_frames [simp]:
  "message_at (db\<lparr>is_transaction := b\<rparr>) = message_at db"
  "room_events (db\<lparr>is_transaction := b\<rparr>) = room_events db"
  "phase_of (db\<lparr>is_transaction := b\<rparr>) = phase_of db"
  by (auto simp: fun_eq_iff message_at_def room_events_def phase_of_def find_room_def)

lemma room_ok_frame [simp]: "room_ok db0 (db\<lparr>is_transaction := b\<rparr>) = room_ok db0 db"
proof -
  have "room_ok db0 db2" if "room_ok db0 db1" "message_at db2 = message_at db1" "room_events db2 = room_events db1"
    "phase_of db2 = phase_of db1" "log_ok db2 = log_ok db1" "provider_ok db2 = provider_ok db1" for db1 db2
    using that room_ok_views room_ok_parts by metis
  from this [of "db\<lparr>is_transaction := b\<rparr>" db] this [of db "db\<lparr>is_transaction := b\<rparr>"] show ?thesis by auto
qed

end
