(* ===== verification/Room_Steps.thy ===== *)
theory Room_Steps
  imports Room_Messages Snapshot_Claims
begin

text \<open>
  Every operation that can change the database of a room keeps the invariant of its messages and only
  moves forward: the transactions of the room service, the commands of the room library and the
  operations on provider profiles.
\<close>

section \<open>Tables that the views do not read\<close>

lemma untouched [simp]:
  "room_events (db\<lparr>db_commands := c\<rparr>) = room_events db" "phase_of (db\<lparr>db_commands := c\<rparr>) = phase_of db"
  "room_events (db\<lparr>db_director := d\<rparr>) = room_events db" "phase_of (db\<lparr>db_director := d\<rparr>) = phase_of db"
  "message_at (db\<lparr>db_director := d\<rparr>) = message_at db"
  "room_events (db\<lparr>db_participants := ps\<rparr>) = room_events db" "phase_of (db\<lparr>db_participants := ps\<rparr>) = phase_of db"
  "message_at (db\<lparr>db_participants := ps\<rparr>) = message_at db"
  "room_events (db\<lparr>db_snapshots := sn\<rparr>) = room_events db" "phase_of (db\<lparr>db_snapshots := sn\<rparr>) = phase_of db"
  "message_at (db\<lparr>db_snapshots := sn\<rparr>) = message_at db"
  "room_events (db\<lparr>db_rooms := rs\<rparr>) = room_events db" "message_at (db\<lparr>db_rooms := rs\<rparr>) = message_at db"
  "room_events (db\<lparr>current_room := cr\<rparr>) = room_events db" "message_at (db\<lparr>current_room := cr\<rparr>) = message_at db"
  "phase_of (db\<lparr>current_room := cr\<rparr>) = phase_of db"
  "room_events (db\<lparr>selection_commands := sc\<rparr>) = room_events db" "message_at (db\<lparr>selection_commands := sc\<rparr>) = message_at db"
  "phase_of (db\<lparr>selection_commands := sc\<rparr>) = phase_of db"
  "room_events (db\<lparr>cast_commands := cc\<rparr>) = room_events db" "message_at (db\<lparr>cast_commands := cc\<rparr>) = message_at db"
  "phase_of (db\<lparr>cast_commands := cc\<rparr>) = phase_of db"
  "room_events (db\<lparr>db_clock := clk\<rparr>) = room_events db" "message_at (db\<lparr>db_clock := clk\<rparr>) = message_at db"
  "phase_of (db\<lparr>db_clock := clk\<rparr>) = phase_of db"
  by (auto simp: fun_eq_iff room_events_def phase_of_def find_room_def message_at_def)

lemma untouched_ok [simp]:
  "log_ok (db\<lparr>db_commands := c\<rparr>) = log_ok db" "provider_ok (db\<lparr>db_commands := c\<rparr>) = provider_ok db"
  "log_ok (db\<lparr>db_director := d\<rparr>) = log_ok db" "provider_ok (db\<lparr>db_director := d\<rparr>) = provider_ok db"
  "log_ok (db\<lparr>db_participants := ps\<rparr>) = log_ok db" "provider_ok (db\<lparr>db_participants := ps\<rparr>) = provider_ok db"
  "log_ok (db\<lparr>db_snapshots := sn\<rparr>) = log_ok db" "provider_ok (db\<lparr>db_snapshots := sn\<rparr>) = provider_ok db"
  "provider_ok (db\<lparr>db_rooms := rs\<rparr>) = provider_ok db"
  "log_ok (db\<lparr>current_room := cr\<rparr>) = log_ok db" "provider_ok (db\<lparr>current_room := cr\<rparr>) = provider_ok db"
  "log_ok (db\<lparr>selection_commands := sc\<rparr>) = log_ok db" "provider_ok (db\<lparr>selection_commands := sc\<rparr>) = provider_ok db"
  "log_ok (db\<lparr>cast_commands := cc\<rparr>) = log_ok db" "provider_ok (db\<lparr>cast_commands := cc\<rparr>) = provider_ok db"
  "log_ok (db\<lparr>db_clock := clk\<rparr>) = log_ok db" "provider_ok (db\<lparr>db_clock := clk\<rparr>) = provider_ok db"
  by (rule log_ok_cong provider_ok_frame; simp)+

lemma message_at_put [simp]:
  "message_at (db\<lparr>db_commands := (db_commands db)(k \<mapsto> row)\<rparr>) = (message_at db)(k := stored_message (result_json row))"
  by (auto simp: fun_eq_iff message_at_def)

section \<open>Commands\<close>

lemma insertCommand_ok:
  "insertCommand r q d v cl db = (Inr u, db') \<longleftrightarrow>
     (\<exists>t. canonicalJson v = Inr t \<and> command_row_ok \<lparr>request_digest = d, result_json = t, claim = cl\<rparr> \<and>
        db_commands db (r, q) = None \<and> find_room db r \<noteq> None \<and>
        db' = db\<lparr>db_commands := (db_commands db)((r, q) \<mapsto> \<lparr>request_digest = d, result_json = t, claim = cl\<rparr>)\<rparr>)"
  by (auto simp: insertCommand_def)

lemma updateCommand_ok:
  "updateCommand r q cond f db = (Inr n, db') \<longleftrightarrow>
     (case db_commands db (r, q) of
        None \<Rightarrow> n = 0 \<and> db' = db
      | Some row \<Rightarrow> if cond row
          then command_row_ok (f row) \<and> n = 1 \<and> db' = db\<lparr>db_commands := (db_commands db)((r, q) \<mapsto> f row)\<rparr>
          else n = 0 \<and> db' = db)"
  by (auto simp: updateCommand_def split: option.splits)

text \<open>A claim changes, the text does not.\<close>

lemma claim_update [preserves_intros]:
  assumes "\<And>row. result_json (f row) = result_json row"
  shows "preserves (room_ok db0) (updateCommand r q cond f)"
proof (rule preservesI)
  fix db n db'
  assume ok: "room_ok db0 db" and run: "updateCommand r q cond f db = (Inr n, db')"
  have "message_at (db\<lparr>db_commands := (db_commands db)((r, q) \<mapsto> f row)\<rparr>) = message_at db"
    if "db_commands db (r, q) = Some row" for row
    using that assms by (auto simp: fun_eq_iff message_at_def)
  then show "room_ok db0 db'"
    using run ok room_ok_parts [OF ok]
    by (auto simp: updateCommand_ok intro: room_ok_views split: option.splits if_splits)
qed

lemma release_keeps [preserves_intros]:
  "preserves (room_ok db0) (releaseClaim r q owner)" "preserves (room_ok db0) (releaseRoomClaims r)"
  "preserves (room_ok db0) (renewClaim lease r q owner now)"
  subgoal unfolding releaseClaim_def by (intro preserves_intros) simp_all
  subgoal
  proof -
    have "room_ok db0 (db\<lparr>db_commands := (\<lambda>k. if fst k = r
         then map_option (\<lambda>row. if claim row \<noteq> None \<and> row_pending row then row\<lparr>claim := None\<rparr> else row) (db_commands db k)
         else db_commands db k)\<rparr>)" if "room_ok db0 db" for db
      using room_ok_parts [OF that] by (intro room_ok_views [OF that]) (auto simp: fun_eq_iff message_at_def split: option.splits)
    then show ?thesis unfolding releaseRoomClaims_def by (rule preserves_update)
  qed
  subgoal unfolding renewClaim_def by (intro preserves_intros) simp_all
  done

text \<open>The answer of a control command is not a message.\<close>

lemma no_message:
  assumes ok: "json_ok v" and h: "jget ''humanEventSequence'' v = JUndefined"
    and t: "canonicalJson (completed v) = Inr t"
  shows "stored_message t = None"
proof -
  have okc: "json_ok (completed v)" using ok by (simp add: completed_def)
  then have st: "stored (completed v)" "stored v" using ok by (simp_all add: stored_def)
  from canonicalJson_roundtrip [OF okc] t have parsed: "json_parse t = Some (json_norm (completed v))" by auto
  have "jget ''state'' (json_norm (completed v)) = JStr ''complete''"
    and res: "jget ''result'' (json_norm (completed v)) = json_norm v"
    unfolding jget_norm [OF st(1)] by (simp_all add: completed_def)
  moreover have "read_message_result (json_norm v) = None"
    by (cases "as_str (json_norm (jget ''requestId'' v))") (simp_all add: read_message_result_def jget_norm [OF st(2)] h as_nat_def)
  moreover obtain fs where "json_norm (completed v) = JObj fs" by (simp add: completed_def)
  ultimately show ?thesis using parsed by (simp add: stored_message_def parseStored_def)
qed

lemma insert_answer [preserves_intros]:
  assumes "json_ok v" and "jget ''humanEventSequence'' v = JUndefined"
  shows "preserves (room_ok db0) (insertCommand r q d (completed v) None)"
proof (rule preservesI)
  fix db u db'
  assume ok: "room_ok db0 db" and run: "insertCommand r q d (completed v) None db = (Inr u, db')"
  then obtain t where t: "canonicalJson (completed v) = Inr t" and free: "db_commands db (r, q) = None" and
    db': "db' = db\<lparr>db_commands := (db_commands db)((r, q) \<mapsto> \<lparr>request_digest = d, result_json = t, claim = None\<rparr>)\<rparr>"
    by (auto simp: insertCommand_ok)
  have "message_at db (r, q) = None" using free by (simp add: message_at_def)
  then have "message_at db' = message_at db"
    using no_message [OF assms t] by (auto simp: db' fun_eq_iff)
  then show "room_ok db0 db'" using room_ok_parts [OF ok] by (intro room_ok_views [OF ok]) (simp_all add: db')
qed

lemma control_answers_plain:
  "json_ok (control_result_json res)" "jget ''humanEventSequence'' (control_result_json res) = JUndefined"
  "json_ok (persona_result_json res')" "jget ''humanEventSequence'' (persona_result_json res') = JUndefined"
  by (simp_all add: control_result_json_def persona_result_json_def)

section \<open>Rooms\<close>

lemma find_room_update:
  "(\<And>row. room_id (f row) = room_id row) \<Longrightarrow>
   find_room (db\<lparr>db_rooms := update_where (\<lambda>row. room_id row = r) f (db_rooms db)\<rparr>) s =
     map_option (\<lambda>row. if s = r then f row else row) (find_room db s)"
  unfolding find_room_def by (auto simp: find_update_where find_Some_iff intro!: option.map_cong)

text \<open>A room changes its status or its generation: not when it is stopped, and never backwards.\<close>

definition phase_step :: "(room_row \<Rightarrow> room_row) \<Rightarrow> room_row \<Rightarrow> bool" where
  "phase_step f row \<longleftrightarrow> room_status row \<noteq> Stopped \<and> room_generation row \<le> room_generation (f row)"

lemma updateRoom_ok:
  assumes ok: "room_ok db0 db" and f: "\<And>row. room_id (f row) = room_id row" "\<And>row. next_event_sequence (f row) = next_event_sequence row"
    and step: "\<And>row. find_room db r = Some row \<Longrightarrow> phase_step f row"
  shows "room_ok db0 (db\<lparr>db_rooms := update_where (\<lambda>row. room_id row = r) f (db_rooms db)\<rparr>)" (is "room_ok db0 ?db'")
proof -
  note found = find_room_update [of f, OF f(1)]
  have "log_ok ?db'"
    using room_ok_parts(1) [OF ok]
    by (auto simp: log_ok_def found rooms_distinct_def map_update_where f set_update_where)
  moreover have "messages_ok ?db' \<and> advances db ?db'"
  proof (rule new_phase [OF room_ok_parts(3) [OF ok]])
    fix s st g assume "phase_of db s = Some (st, g)"
    then obtain row where row: "find_room db s = Some row" "room_status row = st" "room_generation row = g"
      by (auto simp: phase_of_def)
    with step show "\<exists>st' g'. phase_of ?db' s = Some (st', g') \<and> g \<le> g' \<and> (st = Stopped \<longrightarrow> st' = Stopped \<and> g' = g)"
      by (cases "s = r") (auto simp: phase_of_def found phase_step_def)
  qed simp_all
  ultimately show ?thesis using room_ok_step [OF ok] room_ok_parts(2) [OF ok] by simp
qed

section \<open>The event log\<close>

lemma appended:
  assumes log: "log_ok db" and run: "appendEventInTransaction r v db = (Inr ev, db')" and v: "json_ok v"
  obtains e where "room_events db' = (room_events db)(r := room_events db r @ [e])" and "event_sequence e = snd ev"
    and "event_type e = json_norm (jget ''type'' v)" and "event_source e = json_norm (jget ''sourceEventSequence'' v)"
proof -
  obtain t n where ev: "ev = (t, n)" by (cases ev)
  let ?e = "\<lparr>event_room = r, event_sequence = n, event_json = t, event_created_at = db_clock db\<rparr>"
  have t: "canonicalJson v = Inr t" using run unfolding ev appendEventInTransaction_ok by simp
  with canonicalJson_roundtrip [OF v] have parsed: "json_parse t = Some (json_norm v)" by auto
  have st: "stored v" using v by (simp add: stored_def)
  show thesis
  proof (rule that [of ?e])
    show "room_events db' = (room_events db)(r := room_events db r @ [?e])"
      using appendEvent_log [OF log run [unfolded ev]] by auto
  qed (simp_all add: ev event_type_def event_source_def parsed jget_norm [OF st])
qed

lemma append_keeps:
  assumes run: "appendEventInTransaction r v db = (Inr ev, db')"
  shows "log_ok db \<Longrightarrow> log_ok db' \<and> snd ev = Suc (length (room_events db r))" and "message_at db' = message_at db" and "phase_of db' = phase_of db"
    and "provider_ok db' = provider_ok db" and "db_commands db' = db_commands db"
    and "db_participants db' = db_participants db" and "db_director db' = db_director db"
    and "find_room db' s = None \<longleftrightarrow> find_room db s = None" and "current_room db' = current_room db"
proof -
  obtain t n where ev: "ev = (t, n)" by (cases ev)
  note run' = run [unfolded ev]
  show "log_ok db \<Longrightarrow> log_ok db' \<and> snd ev = Suc (length (room_events db r))"
    using appendEvent_log [OF _ run'] by (simp add: ev)
  from run' have commands: "db_commands db' = db_commands db" and dir: "db_director db' = db_director db"
    unfolding appendEventInTransaction_ok by auto
  show "db_commands db' = db_commands db" "db_director db' = db_director db" by fact+
  show "message_at db' = message_at db" by (simp add: fun_eq_iff message_at_def commands)
  show "phase_of db' = phase_of db"
    by (auto simp: fun_eq_iff phase_of_def append_rooms(3) [OF run'] option.map_comp comp_def room_after_append_def
        intro!: option.map_cong)
  show "provider_ok db' = provider_ok db"
    using run' unfolding appendEventInTransaction_ok by (intro provider_ok_frame) auto
  show "db_participants db' = db_participants db" "current_room db' = current_room db" by (rule append_rooms [OF run'])+
  show "find_room db' s = None \<longleftrightarrow> find_room db s = None" by (simp add: append_rooms(3) [OF run'])
qed

text \<open>An event that is not a persona message, in a room that is not stopped.\<close>

lemma append_quiet:
  assumes ok: "room_ok db0 db" and run: "appendEventInTransaction r v db = (Inr ev, db')" and v: "json_ok v"
    and quiet: "jget ''type'' v \<noteq> JStr ''persona_message''" and live: "\<And>g. phase_of db r \<noteq> Some (Stopped, g)"
  shows "room_ok db0 db'"
proof -
  note parts = room_ok_parts [OF ok] and keeps = append_keeps [OF run]
  obtain e where e: "room_events db' = (room_events db)(r := room_events db r @ [e])" "event_type e = json_norm (jget ''type'' v)"
    using appended [OF parts(1) run v] by metis
  have "\<not> is_answer e" using quiet by (cases "jget ''type'' v") (auto simp: is_answer_def e(2))
  then have "messages_ok db' \<and> advances db db'"
    using quiet_append [OF parts(3) keeps(2) e(1) keeps(3) live] by simp
  then show ?thesis using room_ok_step [OF ok] keeps(1,4) parts by simp
qed

lemma human_bound:
  assumes "log_ok db" and "h \<in> set (humans db r)"
  shows "h \<le> length (room_events db r)"
proof -
  from assms(2) have "h \<in> set (map event_sequence (room_events db r))" by (auto simp: humans_def)
  moreover from assms(1) have "map event_sequence (room_events db r) = [1..<Suc (length (room_events db r))]" by (simp add: log_ok_def)
  ultimately show ?thesis by (auto simp del: upt_Suc)
qed

section \<open>Control commands\<close>

lemma room_row_of_ok [simp]:
  "room_row_of r db = (Inr room, db') \<longleftrightarrow> find_room db r = Some room \<and> db' = db"
  by (auto simp: room_row_of_def)

lemma reads_keep [preserves_intros]: "preserves I (room_row_of r)" "preserves I (findCommand r q)" "preserves I (requireRoomSelection r v)"
  by (auto intro!: preservesI simp: findCommand_def)

lemma answer_keeps:
  "preserves (room_ok db0) (bindA (room_row_of r) (\<lambda>u. bindA (insertCommand r q d (completed (control_result_json (h u))) None) (\<lambda>_. returnA (k u))))"
  "preserves (room_ok db0) (bindA (room_row_of r) (\<lambda>u. bindA (insertCommand r q d (completed (persona_result_json (h' u))) None) (\<lambda>_. returnA (k' u))))"
  by (intro preserves_intros control_answers_plain)+

lemma changeStatus_keeps:
  assumes ok: "room_ok db0 db" and room: "find_room db r = Some room" "\<not> (kind \<in> {Resume, Pause} \<and> room_status room = Stopped)"
    and run: "changeStatus kind r room db = (Inr u, db')"
  shows "room_ok db0 db'"
proof (cases "room_status room = target_status kind")
  case True
  with run ok show ?thesis by (simp add: changeStatus_def)
next
  case False
  define f where "f = (\<lambda>row :: room_row. row\<lparr>room_status := target_status kind,
    room_generation := room_generation row + (if control_fences kind room then 1 else 0)\<rparr>)"
  have "phase_step f room" using room(2) False by (cases kind) (auto simp: phase_step_def f_def)
  then have "room_ok db0 (db\<lparr>db_rooms := update_where (\<lambda>row. room_id row = r) f (db_rooms db)\<rparr>)"
    using room(1) by (intro updateRoom_ok [OF ok]) (simp_all add: f_def)
  moreover from run False have "(if control_fences kind room then releaseRoomClaims r else returnA ())
      (db\<lparr>db_rooms := update_where (\<lambda>row. room_id row = r) f (db_rooms db)\<rparr>) = (Inr u, db')"
    by (simp add: changeStatus_def updateRoom_def f_def)
  ultimately show ?thesis using preservesD [OF release_keeps(2)] by (cases "control_fences kind room") auto
qed

lemma controlRoom_keeps [preserves_intros]: "preserves (room_ok db0) (controlRoom kind r q d)"
proof (rule preservesI)
  fix db x db'
  assume ok: "room_ok db0 db" and run: "controlRoom kind r q d db = (Inr x, db')"
  from run obtain room db1 where room: "find_room db r = Some room" "\<not> (kind \<in> {Resume, Pause} \<and> room_status room = Stopped)"
    and chg: "changeStatus kind r room db = (Inr (), db1)" and
    rest: "bindA (room_row_of r) (\<lambda>updated. bindA (insertCommand r q d (completed (control_result_json
        \<lparr>rcr_kind = kind, rcr_requestId = q, rcr_status = room_status updated, rcr_generation = room_generation updated,
         rcr_changed = (room_status room \<noteq> target_status kind)\<rparr>)) None) (\<lambda>_. returnA (control_fences kind room,
        \<lparr>rcr_kind = kind, rcr_requestId = q, rcr_status = room_status updated, rcr_generation = room_generation updated,
         rcr_changed = (room_status room \<noteq> target_status kind)\<rparr>))) db1 = (Inr x, db')"
    by (auto simp: controlRoom_def Let_def)
  show "room_ok db0 db'" by (rule preservesD [OF answer_keeps(1) rest changeStatus_keeps [OF ok room chg]])
qed

lemma changeMuted_keeps:
  assumes ok: "room_ok db0 db" and room: "find_room db r = Some room" "room_status room \<noteq> Stopped"
    and run: "changeMuted kind r i persona db = (Inr u, db')"
  shows "room_ok db0 db'"
proof -
  let ?db = "db\<lparr>db_participants := update_where (\<lambda>p. part_room p = r \<and> part_id p = i) (\<lambda>p. p\<lparr>part_muted := (kind = Mute)\<rparr>) (db_participants db)\<rparr>"
  let ?f = "\<lambda>row :: room_row. row\<lparr>room_generation := room_generation row + 1\<rparr>"
  have ok2: "room_ok db0 ?db" using room_ok_parts [OF ok] by (intro room_ok_views [OF ok]) simp_all
  have "phase_step ?f room" using room by (simp add: phase_step_def)
  then have "room_ok db0 (?db\<lparr>db_rooms := update_where (\<lambda>row. room_id row = r) ?f (db_rooms ?db)\<rparr>)"
    using room(1) by (intro updateRoom_ok [OF ok2]) (auto simp: find_room_def)
  then show ?thesis
    using run ok ok2 preservesD [OF release_keeps(2)]
    by (cases "part_muted persona = (kind = Mute)"; cases kind)
      (auto simp: changeMuted_def updateMuted_def updateRoom_def)
qed

lemma controlPersona_keeps [preserves_intros]: "preserves (room_ok db0) (controlPersona kind r q i d)"
proof (rule preservesI)
  fix db x db'
  assume ok: "room_ok db0 db" and run: "controlPersona kind r q i d db = (Inr x, db')"
  from run obtain room persona db1 where room: "find_room db r = Some room" "room_status room \<noteq> Stopped"
    and chg: "changeMuted kind r i persona db = (Inr (), db1)" and
    rest: "bindA (room_row_of r) (\<lambda>updated. bindA (insertCommand r q d (completed (persona_result_json
        \<lparr>pcr_kind = kind, pcr_requestId = q, pcr_personaId = i, pcr_muted = (kind = Mute),
         pcr_generation = room_generation updated, pcr_changed = (part_muted persona \<noteq> (kind = Mute))\<rparr>)) None) (\<lambda>_.
         returnA (part_muted persona \<noteq> (kind = Mute) \<and> kind = Mute,
        \<lparr>pcr_kind = kind, pcr_requestId = q, pcr_personaId = i, pcr_muted = (kind = Mute),
         pcr_generation = room_generation updated, pcr_changed = (part_muted persona \<noteq> (kind = Mute))\<rparr>))) db1 = (Inr x, db')"
    by (auto simp: controlPersona_def Let_def)
  show "room_ok db0 db'" by (rule preservesD [OF answer_keeps(2) rest changeMuted_keeps [OF ok room chg]])
qed

lemma replay_keeps [preserves_intros]: "preserves I (replayControl read_result row d)"
proof -
  have "preserves I (case sc of Complete_Command res \<Rightarrow> returnA res | Pending_Command p \<Rightarrow> failA e)" for sc :: "'a stored_command" and e
    by (cases sc) (auto intro: preserves_intros)
  note [preserves_intros] = this
  show ?thesis unfolding replayControl_def assertMatchingDigest_def by (intro preserves_intros)
qed

lemma controls_keep:
  "preserves (room_ok db0) (roomControl sha kind c)"
  "preserves (room_ok db0) (personaControl sha mute pc)"
  unfolding roomControl_def personaControl_def by (intro preserves_intros; simp)+

section \<open>The room library\<close>

lemma select_keeps: "preserves (room_ok db0) (selectRoomInTransaction q r n d)"
proof (rule preservesI)
  fix db res db'
  assume ok: "room_ok db0 db" and run: "selectRoomInTransaction q r n d db = (Inr res, db')"
  then show "room_ok db0 db'"
    using room_ok_parts [OF ok]
    by (auto simp: selectRoomInTransaction_ok split: option.splits intro: room_ok_views [OF ok])
qed

lemma startRoom_keeps: "room_ok db0 db \<Longrightarrow> startRoom uuid ps db = (Inr cs, db') \<Longrightarrow>
  room_ok db0 db' \<and> phase_of db' (''room-'' @ uuid 0) = Some (Active, 0)"
proof -
  assume ok: "room_ok db0 db" and run: "startRoom uuid ps db = (Inr cs, db')"
  let ?sid = "''room-'' @ uuid 0"
  note start = startRoom_ok [OF run]
  have rows: "db_rooms db' = db_rooms db @ [new_room uuid ps (db_clock db)]" using start by simp
  have found: "find_room db' s = (if s = ?sid then Some (new_room uuid ps (db_clock db)) else find_room db s)" for s
    using start by (auto simp: find_room_def rows find_append new_room_def split: option.splits)
  have phase: "phase_of db' s = (if s = ?sid then Some (Active, 0) else phase_of db s)" for s
    by (simp add: phase_of_def found) (simp add: new_room_def)
  have none: "phase_of db ?sid = None" using start by (simp add: phase_of_def)
  have "messages_ok db' \<and> advances db db'"
  proof (rule new_phase [OF room_ok_parts(3) [OF ok]])
    show "message_at db' = message_at db" using start by (auto simp: fun_eq_iff message_at_def)
    show "room_events db' = room_events db" using start by (auto simp: fun_eq_iff room_events_def)
    fix s st g assume "phase_of db s = Some (st, g)"
    with phase none show "\<exists>st' g'. phase_of db' s = Some (st', g') \<and> g \<le> g' \<and> (st = Stopped \<longrightarrow> st' = Stopped \<and> g' = g)"
      by (cases "s = ?sid") auto
  qed
  moreover have "log_ok db'" using startRoom_log_ok [OF room_ok_parts(1) [OF ok] run] .
  moreover have "provider_ok db'" using room_ok_parts(2) [OF ok] start by (subst provider_ok_frame [of db' db]) auto
  moreover have "phase_of db' ?sid = Some (Active, 0)" by (simp add: phase)
  ultimately show ?thesis using room_ok_step [OF ok] by simp
qed

lemma room_started_plain: "json_ok (room_started_json cs)" "jget ''type'' (room_started_json cs) \<noteq> JStr ''persona_message''"
  by (auto simp: room_started_json_def)

lemma replace_keeps: "preserves (room_ok db0) (replaceCastInTransaction uuid q n ps d)"
proof (rule preservesI)
  fix db res db'
  assume ok: "room_ok db0 db" and run: "replaceCastInTransaction uuid q n ps d db = (Inr res, db')"
  note shape = replaceCastInTransaction_ok [OF run]
  show "room_ok db0 db'"
  proof (cases "cast_commands db q")
    case (Some row)
    with shape ok show ?thesis by simp
  next
    case None
    with shape obtain db1 e db2 t where start: "startRoom uuid ps db = (Inr (selected_cast uuid ps), db1)"
      and app: "appendEventInTransaction (''room-'' @ uuid 0) (room_started_json (selected_cast uuid ps)) db1 = (Inr e, db2)"
      and db': "db' = db2\<lparr>current_room := Some (''room-'' @ uuid 0, n + 1),
                      cast_commands := (cast_commands db)(q \<mapsto> \<lparr>res_digest = d, res_json = t\<rparr>)\<rparr>"
      by auto
    from startRoom_keeps [OF ok start] have "room_ok db0 db1" "\<And>g. phase_of db1 (''room-'' @ uuid 0) \<noteq> Some (Stopped, g)" by auto
    then have ok2: "room_ok db0 db2" by (intro append_quiet [OF _ app] room_started_plain) auto
    show ?thesis using room_ok_parts [OF ok2] by (intro room_ok_views [OF ok2]) (simp_all add: db')
  qed
qed

lemma library_keeps: "preserves (room_ok db0) (runLibrary sha c)"
proof -
  have "preserves (room_ok db0) (selectRoom sha cmd)" for cmd
    unfolding selectRoom_def by (intro preserves_intros select_keeps; simp)
  moreover have "preserves (room_ok db0) (replaceCurrentRoomCast sha uuid cmd)" for uuid cmd
    unfolding replaceCurrentRoomCast_def by (intro preserves_intros replace_keeps; simp)
  ultimately show ?thesis unfolding runLibrary_def by (cases c) (auto intro: preserves_intros)
qed

section \<open>Provider profiles\<close>

text \<open>The operations on profiles do not touch the tables of rooms.\<close>

definition same_rooms :: "db \<Rightarrow> db \<Rightarrow> bool" where
  "same_rooms db0 db \<longleftrightarrow> db_rooms db = db_rooms db0 \<and> db_events db = db_events db0 \<and> db_commands db = db_commands db0"

lemma same_rooms_transaction [simp]: "same_rooms db0 (db\<lparr>is_transaction := b\<rparr>) = same_rooms db0 db"
  by (simp add: same_rooms_def)

lemma same_rooms_inserts [preserves_intros]:
  "preserves (same_rooms db0) (insertConnection c)" "preserves (same_rooms db0) (insertModel m)"
  "preserves (same_rooms db0) (insertBinding b)" "preserves (same_rooms db0) (insertObservation ob)"
  by (auto intro!: preservesI simp: same_rooms_def insertConnection_ok insertModel_ok insertBinding_ok insertObservation_ok)

lemma same_rooms_stores [preserves_intros]:
  "preserves (same_rooms db0) (storeConnection state p)" "preserves (same_rooms db0) (storeModel state q)"
  "preserves (same_rooms db0) (storeBinding b)"
  unfolding storeConnection_def storeModel_def storeBinding_def by (intro preserves_intros)+

lemma same_rooms_ops:
  "preserves (same_rooms db0) (createConnectionProfile v)" "preserves (same_rooms db0) (reviseConnectionProfile v n)"
  "preserves (same_rooms db0) (transitionConnection i m state)"
  "preserves (same_rooms db0) (createModelProfile v)" "preserves (same_rooms db0) (reviseModelProfile v n)"
  "preserves (same_rooms db0) (transitionModel i m state)"
  "preserves (same_rooms db0) (observeConnection ob)" "preserves (same_rooms db0) (bindRoom v)" "preserves (same_rooms db0) (rebindRoom v n)"
  unfolding createConnectionProfile_def reviseConnectionProfile_def transitionConnection_def
    createModelProfile_def reviseModelProfile_def transitionModel_def observeConnection_def bindRoom_def rebindRoom_def
  by (intro preserves_intros; simp)+

lemma runProvider_rooms: "preserves (same_rooms db0) (runProvider x)"
  by (cases x) (auto simp: disableConnectionProfile_def deleteConnectionProfile_def disableModelProfile_def
      deleteModelProfile_def intro!: preserves_ignoring same_rooms_ops)

lemma provider_keeps:
  assumes "op_json_ok x"
  shows "preserves (room_ok db0) (runProvider x)"
proof (rule preservesI)
  fix db u db'
  assume ok: "room_ok db0 db" and run: "runProvider x db = (Inr u, db')"
  have "same_rooms db db'" using preservesD [OF runProvider_rooms run, of db] by (simp add: same_rooms_def)
  then have same: "db_rooms db' = db_rooms db" "db_events db' = db_events db" "db_commands db' = db_commands db"
    by (simp_all add: same_rooms_def)
  have "provider_ok db'" using preservesD [OF runProvider_keeps [OF assms] run] room_ok_parts(2) [OF ok] by blast
  moreover have "message_at db' = message_at db" "room_events db' = room_events db" "phase_of db' = phase_of db"
    by (simp_all add: fun_eq_iff message_at_def room_events_def phase_of_def find_room_def same)
  moreover have "log_ok db'" using log_ok_cong [OF same(1,2)] room_ok_parts(1) [OF ok] by simp
  ultimately show "room_ok db0 db'" by (intro room_ok_views [OF ok])
qed

end
