(* ===== verification/Room_Message_Steps.thy ===== *)
theory Room_Message_Steps
  imports Room_Steps
begin

text \<open>
  The transactions of a message worker keep the invariant of the messages: taking up or recording a
  message, pinning the provider decision, completing. The worker must come with the message that its
  command stores (\<open>holds\<close>); what it was given by \<open>prepareMessage\<close> stays such a message.
\<close>

section \<open>Choosing a speaker reads only\<close>

lemma decide_reads: "decide r state wants target db = (Inr d, db') \<Longrightarrow> db' = db"
  by (auto simp: decide_def split: option.splits if_splits list.splits)

section \<open>What a worker holds\<close>

definition holds :: "db \<Rightarrow> string \<times> string \<Rightarrow> pending_message \<Rightarrow> bool" where
  "holds db k p \<longleftrightarrow> (\<exists>sc. message_at db k = Some sc \<and> core_of sc = core_of (Pending_Command p))"

lemma holds_later: "holds db k p \<Longrightarrow> advances db db' \<Longrightarrow> holds db' k p"
  unfolding holds_def advances_def message_grows_def by (cases k) fastforce

lemma normal_core [simp]: "core_of (Pending_Command (normal_pending p)) = core_of (Pending_Command p)"
  by (simp add: normal_pending_def)

section \<open>Taking up a message\<close>

text \<open>What the worker knows of the message it was given.\<close>

fun prepared_ok :: "db \<Rightarrow> string \<times> string \<Rightarrow> prepared_message \<Rightarrow> bool" where
  "prepared_ok db k (Answered res) \<longleftrightarrow> message_at db k = Some (Complete_Command res)"
| "prepared_ok db k (Claimed p) \<longleftrightarrow> holds db k p"
| "prepared_ok db k (Observed n p) \<longleftrightarrow> holds db k p"

lemma resume_keeps:
  assumes ok: "room_ok db0 db" and prior: "db_commands db (mc_roomId c, mc_requestId c) = Some row"
    and run: "resumeMessage lease c d owner n row db = (Inr x, db')"
  shows "room_ok db0 db' \<and> prepared_ok db' (mc_roomId c, mc_requestId c) x"
proof -
  from run obtain sc where sc: "parseStored read_message_result (result_json row) = Inr sc"
    by (auto simp: resumeMessage_def)
  have at: "message_at db (mc_roomId c, mc_requestId c) = Some sc" by (simp add: message_at_def prior stored_message_def sc)
  have claim: "room_ok db0 db2 \<and> message_at db2 = message_at db"
    if "updateCommand (mc_roomId c) (mc_requestId c) (\<lambda>_. True) (\<lambda>row. row\<lparr>claim := Some (owner, n + lease)\<rparr>) db = (Inr k, db2)" for k db2
  proof -
    have "room_ok db0 db2" using preservesD [OF claim_update that ok] by simp
    moreover have "message_at db2 = message_at db"
      using that prior by (auto simp: updateCommand_ok fun_eq_iff message_at_def)
    ultimately show ?thesis ..
  qed
  show ?thesis
  proof (cases sc)
    case (Complete_Command res)
    with run sc at ok show ?thesis by (auto simp: resumeMessage_def assertMatchingDigest_def)
  next
    case (Pending_Command p)
    with run sc at ok claim show ?thesis
      by (auto simp: resumeMessage_def assertMatchingDigest_def holds_def split: option.splits if_splits)
  qed
qed

lemma message_plain:
  "json_ok (human_message_json i t)" "jget ''type'' (human_message_json i t) = JStr ''human_message''"
  "json_ok (director_event_json n d)" "jget ''type'' (director_event_json n d) = JStr ''director_decision''"
  "json_ok (persona_message_json i n t)" "jget ''type'' (persona_message_json i n t) = JStr ''persona_message''"
  "jget ''sourceEventSequence'' (persona_message_json i n t) = JInt (int n)"
  by (simp_all add: human_message_json_def director_event_json_def persona_message_json_def)

lemma insert_new_message:
  assumes ok: "room_ok db0 db" and run: "insertCommand r q d v cl db = (Inr u, db')"
    and reads: "\<And>t. canonicalJson v = Inr t \<Longrightarrow> stored_message t = Some sc"
    and new: "human_of sc \<in> set (humans db r)" "published sc = []" "outcome_ok sc" "phase_of db r = Some (st, generation_of sc)"
    and fresh: "\<And>q' sc'. message_at db (r, q') = Some sc' \<Longrightarrow> human_of sc' \<noteq> human_of sc"
  shows "room_ok db0 db' \<and> message_at db' (r, q) = Some sc"
proof -
  from run obtain t where t: "canonicalJson v = Inr t" and free: "db_commands db (r, q) = None"
    and db': "db' = db\<lparr>db_commands := (db_commands db)((r, q) \<mapsto> \<lparr>request_digest = d, result_json = t, claim = cl\<rparr>)\<rparr>"
    by (auto simp: insertCommand_ok)
  have at: "message_at db' = (message_at db)((r, q) \<mapsto> sc)" by (simp add: db' reads [OF t])
  have none: "message_at db (r, q) = None" using free by (simp add: message_at_def)
  have "messages_ok db' \<and> advances db db'"
    by (rule new_message [OF room_ok_parts(3) [OF ok] none at _ _ new(1-3) _ fresh]) (simp_all add: db' new(4))
  then show ?thesis using room_ok_step [OF ok] room_ok_parts [OF ok] at by (simp add: db')
qed

lemma stored_complete: "canonicalJson (completed (message_result_json res)) = Inr t \<Longrightarrow> stored_message t = Some (Complete_Command res)"
  using parseStored_complete [OF inverts_message] by (simp add: stored_message_def)

lemma stored_pending: "pending_ok p \<Longrightarrow> canonicalJson (pending_json p) = Inr t \<Longrightarrow> stored_message t = Some (Pending_Command (normal_pending p))"
  using parseStored_pending [of p t read_message_result] by (simp add: stored_message_def)

lemma record_keeps:
  assumes ok: "room_ok db0 db" and room: "find_room db (mc_roomId c) = Some room" "room_status room = Active"
    and run: "recordMessage lease c digest owner n room state human_id db = (Inr x, db')"
  shows "room_ok db0 db' \<and> prepared_ok db' (mc_roomId c, mc_requestId c) x"
proof -
  let ?r = "mc_roomId c" and ?q = "mc_requestId c"
  from run obtain human db1 d db2 director db3 where
    app1: "appendEventInTransaction ?r (human_message_json human_id (mc_text c)) db = (Inr human, db1)" and
    dec: "decide ?r state (mc_wantsResponse c) (mc_target c) db1 = (Inr d, db2)" and
    app2: "appendEventInTransaction ?r (director_event_json (snd human) d) db2 = (Inr director, db3)"
    by (auto simp: recordMessage_def)
  define db4 where "db4 = snd (updateDirector ?r (snd human) d (room_generation room) db3)"
  have upd: "updateDirector ?r (snd human) d (room_generation room) db3 = (Inr (), db4)"
    by (simp add: db4_def updateDirector_def) (simp add: updateA_def)
  have same2: "db2 = db1" using decide_reads [OF dec] .
  have phase: "phase_of db ?r = Some (Active, room_generation room)" using room by (simp add: phase_of_def)
  note k1 = append_keeps [OF app1] and k2 = append_keeps [OF app2]
  have ok1: "room_ok db0 db1" by (rule append_quiet [OF ok app1]) (simp_all add: message_plain phase)
  have ok3: "room_ok db0 db3"
    by (rule append_quiet [OF _ app2]) (simp_all add: message_plain same2 ok1 k1(3) phase)
  have db4: "message_at db4 = message_at db" "room_events db4 = room_events db3" "phase_of db4 = phase_of db"
    using k1 k2 by (simp_all add: db4_def updateDirector_def updateA_def same2)
  have ok4: "room_ok db0 db4"
    using room_ok_parts [OF ok3] by (intro room_ok_views [OF ok3]) (simp_all add: db4_def updateDirector_def updateA_def)
  have hum: "snd human \<in> set (humans db4 ?r)"
  proof -
    obtain e where e: "room_events db1 = (room_events db)(?r := room_events db ?r @ [e])" "event_sequence e = snd human" "is_human e"
      by (rule appended [OF room_ok_parts(1) [OF ok] app1]) (auto simp: message_plain is_human_def)
    obtain e2 where "room_events db3 = (room_events db1)(?r := room_events db1 ?r @ [e2])"
      by (rule appended [OF room_ok_parts(1) [OF ok1] app2 [unfolded same2]]) (auto simp: message_plain)
    with e show ?thesis by (auto simp: humans_def db4)
  qed
  have fresh: "human_of sc' \<noteq> snd human" if "message_at db4 (?r, q') = Some sc'" for q' sc'
  proof -
    from that have "message_at db (?r, q') = Some sc'" by (simp add: db4)
    with room_ok_parts(3) [OF ok] have "human_of sc' \<in> set (humans db ?r)" unfolding messages_ok_def message_ok_def by blast
    from human_bound [OF room_ok_parts(1) [OF ok] this] k1(1) [OF room_ok_parts(1) [OF ok]] show ?thesis by simp
  qed
  show ?thesis
  proof (cases "speaker d")
    case None
    define res where "res = \<lparr>smr_requestId = ?q, smr_human = snd human, smr_director = snd director, smr_persona = None,
                     smr_decision = d, smr_outcome = Not_Scheduled, smr_generation = room_generation room\<rparr>"
    from run None have ins: "insertCommand ?r ?q digest (completed (message_result_json res)) None db4 = (Inr (), db')" and x: "x = Answered res"
      by (auto simp: recordMessage_def app1 dec app2 upd res_def Let_def bindA_def returnA_def split: prod.splits sum.splits)
    have "room_ok db0 db' \<and> message_at db' (?r, ?q) = Some (Complete_Command res)"
      by (rule insert_new_message [OF ok4 ins stored_complete]) (simp_all add: res_def hum db4(3) phase fresh)
    then show ?thesis by (simp add: x)
  next
    case (Some s)
    define p where "p = \<lparr>pm_requestId = ?q, pm_human = snd human, pm_director = snd director, pm_decision = d,
                   pm_generation = room_generation room, pm_prompt = mc_text c, pm_providerDecision = None\<rparr>"
    have pok: "pending_ok p" by (simp add: p_def pending_ok_def)
    have norm: "normal_pending p = p" by (simp add: p_def normal_pending_def)
    from run Some have ins: "insertCommand ?r ?q digest (pending_json p) (Some (owner, n + lease)) db4 = (Inr (), db')" and x: "x = Claimed p"
      by (auto simp: recordMessage_def app1 dec app2 upd p_def Let_def bindA_def returnA_def split: prod.splits sum.splits)
    have "room_ok db0 db' \<and> message_at db' (?r, ?q) = Some (Pending_Command p)"
      by (rule insert_new_message [OF ok4 ins stored_pending [OF pok, unfolded norm]]) (simp_all add: p_def hum db4(3) phase fresh)
    then show ?thesis by (simp add: x holds_def)
  qed
qed

lemma prepare_body_keeps:
  assumes ok: "room_ok db0 db" and run: "prepareInTransaction lease c digest owner now db = (Inr x, db')"
  shows "room_ok db0 db' \<and> prepared_ok db' (mc_roomId c, mc_requestId c) x"
proof (cases "db_commands db (mc_roomId c, mc_requestId c)")
  case (Some row)
  with run resume_keeps [OF ok Some] show ?thesis by (auto simp: prepareInTransaction_def findCommand_def)
next
  case None
  with run record_keeps [OF ok] show ?thesis by (auto simp: prepareInTransaction_def findCommand_def)
qed

lemma prepare_keeps:
  assumes ok: "room_ok db0 db" and idle: "\<not> is_transaction db"
    and run: "prepareMessage lease c digest owner now db = (Inr x, db')"
  shows "room_ok db0 db' \<and> prepared_ok db' (mc_roomId c, mc_requestId c) x"
proof -
  have frame: "prepared_ok (db1\<lparr>is_transaction := b\<rparr>) k x = prepared_ok db1 k x" for db1 b k
    by (cases x) (simp_all add: holds_def)
  from run [unfolded prepareMessage_def transaction_ok [OF idle]] obtain db1 where
    body: "prepareInTransaction lease c digest owner now (db\<lparr>is_transaction := True\<rparr>) = (Inr x, db1)"
    and db': "db' = db1\<lparr>is_transaction := False\<rparr>" by blast
  have "room_ok db0 db1 \<and> prepared_ok db1 (mc_roomId c, mc_requestId c) x"
    by (rule prepare_body_keeps [OF _ body]) (simp add: ok)
  then show ?thesis by (simp add: db' frame)
qed

section \<open>Pinning the provider decision\<close>

lemma usable_model:
  assumes "provider_ok db" and "usable db d"
  shows "model_wf (rd_model d) \<and> generation_num_ok (mp_generation (rd_model d))"
proof -
  from assms(2) obtain row where row: "current_row mrow_id mrow_revision (db_models db) (mp_id (rd_model d)) = Some row"
    and view: "model_view row = \<lparr>mr_state = Enabled, mr_profile = rd_model d\<rparr>"
    by (auto simp: usable_def current_model_def)
  from current_in [OF row] assms(1) obtain p where "model_of row p" by (auto simp: provider_ok_def)
  with view model_view [OF this] show ?thesis by (auto simp: model_of_def)
qed

lemma resolvePinned_ok:
  assumes ok: "provider_ok db" and run: "resolvePinned sha evidence r q db = (Inr s, db')"
  shows "db' = db \<and> decision_wf s \<and> json_ok (decision_json s)"
proof -
  from run obtain ev d dg where res: "resolveRoomProviderDecision r ''persona-default'' db = (Inr d, db')"
    and s: "parseDecisionSnapshot (resolved_snapshot_json (''decision-'' @ take 64 dg) ev d) = Inr s"
    by (auto simp: resolvePinned_def)
  note d = resolve_usable [OF ok res]
  note m = usable_model [OF ok, of d]
  have "json_ok (resolved_snapshot_json i ev d)" for i
    using d m by (simp add: resolved_snapshot_json_def snapshot_connection_json_def target_json_ok binding_json_ok model_json_ok
        generation_json_ok model_wf_def)
  note gen = parsed_decision_generation [OF this s]
  have wf: "decision_wf s" using s by (simp add: parseDecisionSnapshot_iff)
  show ?thesis using d wf gen by (auto intro: decision_json_ok)
qed

lemma rewrite_pending:
  assumes ok: "room_ok db0 db" and row: "db_commands db (r, q) = Some row" and cond: "cond row"
    and old: "message_at db (r, q) = Some (Pending_Command p)"
    and run: "updateCommand r q cond (\<lambda>row. row\<lparr>result_json := t\<rparr>) db = (Inr n, db')"
    and t: "stored_message t = Some sc" and sc: "core_of sc = core_of (Pending_Command p)" "outcome_ok sc" "published sc = []"
  shows "room_ok db0 db'"
proof -
  have db': "db' = db\<lparr>db_commands := (db_commands db)((r, q) \<mapsto> row\<lparr>result_json := t\<rparr>)\<rparr>"
    using run row cond by (simp add: updateCommand_ok)
  have "messages_ok db' \<and> advances db db'"
    by (rule changed_message [OF room_ok_parts(3) [OF ok] old, of db' sc "[]"]) (simp_all add: db' t sc)
  then show ?thesis using room_ok_step [OF ok] room_ok_parts [OF ok] by (simp add: db')
qed

lemma pin_body_keeps:
  assumes ok: "room_ok db0 db" and row: "findCommand r q db = (Inr (Some row), db)" "owned_by owner row"
    and p: "parseStored read_message_result (result_json row) = Inr (Pending_Command p)" and none: "pm_providerDecision p = None"
    and res: "resolvePinned sha evidence r q db = (Inr s, db1)"
    and t: "canonicalJson (pending_json (p\<lparr>pm_providerDecision := Some (decision_json s)\<rparr>)) = Inr t"
    and upd: "updateCommand r q (owned_by owner) (\<lambda>row. row\<lparr>result_json := t\<rparr>) db1 = (Inr n, db')"
  shows "room_ok db0 db'"
proof -
  let ?p = "p\<lparr>pm_providerDecision := Some (decision_json s)\<rparr>"
  from row have found: "db_commands db (r, q) = Some row" by (simp add: findCommand_def)
  note pinned = resolvePinned_ok [OF room_ok_parts(2) [OF ok] res]
  have "pending_ok ?p" using pinned by (simp add: pending_ok_def)
  note st = stored_pending [OF this t]
  have "message_at db (r, q) = Some (Pending_Command p)" by (simp add: message_at_def found stored_message_def p)
  moreover have "core_of (Pending_Command (normal_pending ?p)) = core_of (Pending_Command p)"
    by (simp only: normal_core) simp
  moreover have "updateCommand r q (owned_by owner) (\<lambda>row. row\<lparr>result_json := t\<rparr>) db = (Inr n, db')" using upd pinned by simp
  ultimately show ?thesis
    using rewrite_pending [where cond = "owned_by owner", OF ok found row(2) _ _ st] by (simp del: core_of.simps)
qed

lemma pin_keeps: "preserves (room_ok db0) (pinProviderDecision sha evidence r q owner)"
  unfolding pinProviderDecision_def
proof (rule preserves_transaction [OF preservesI])
  fix db x db'
  assume ok: "room_ok db0 db" and run: "bindA (findCommand r q) (\<lambda>found.
       bindA (someA (case found of None \<Rightarrow> None | Some row \<Rightarrow> if owned_by owner row then Some row else None)
               (PlainError ''Pending provider claim was lost'')) (\<lambda>row.
       bindA (liftA (parseStored read_message_result (result_json row))) (\<lambda>stored_cmd.
       case stored_cmd of
         Complete_Command _ \<Rightarrow> failA (PlainError ''Pending command completed before provider resolution'')
       | Pending_Command p \<Rightarrow>
           (case pm_providerDecision p of
              Some v \<Rightarrow> bindA (liftA (parseDecisionSnapshot v)) (\<lambda>s. returnA (Some s))
            | None \<Rightarrow>
                bindA (readEffectiveRoomBinding r ''persona-default'') (\<lambda>binding.
                if binding = None then returnA None
                else
                  bindA (resolvePinned sha evidence r q) (\<lambda>s.
                  bindA (liftA (canonicalJson (pending_json (p\<lparr>pm_providerDecision := Some (decision_json s)\<rparr>)))) (\<lambda>t.
                  bindA (updateCommand r q (owned_by owner) (\<lambda>row. row\<lparr>result_json := t\<rparr>)) (\<lambda>_.
                    returnA (Some s))))))))) db = (Inr x, db')"
  from run obtain row sc where row: "findCommand r q db = (Inr (Some row), db)" "owned_by owner row"
    and sc: "parseStored read_message_result (result_json row) = Inr sc"
    by (auto simp: findCommand_def split: option.splits if_splits)
  from run row sc obtain p where p: "sc = Pending_Command p" by (cases sc) auto
  show "room_ok db0 db'"
  proof (cases "pm_providerDecision p")
    case (Some v)
    with run row sc p ok show ?thesis by auto
  next
    case None
    with run row sc p obtain b where "readEffectiveRoomBinding r ''persona-default'' db = (Inr b, db) \<and>
        (if b = None then db' = db else (\<exists>s db1 t n. resolvePinned sha evidence r q db = (Inr s, db1) \<and>
           canonicalJson (pending_json (p\<lparr>pm_providerDecision := Some (decision_json s)\<rparr>)) = Inr t \<and>
           updateCommand r q (owned_by owner) (\<lambda>row. row\<lparr>result_json := t\<rparr>) db1 = (Inr n, db')))"
      by (auto simp: readEffectiveRoomBinding_def split: if_splits)
    with ok pin_body_keeps [OF ok row sc [unfolded p] None] show ?thesis by (auto split: if_splits)
  qed
qed simp

section \<open>Completing a message\<close>

text \<open>What \<open>publishAnswer\<close> adds to the log, and what it reports.\<close>

lemma publish_ok:
  assumes log: "log_ok db" and run: "publishAnswer r i p stale res db = (Inr pub, db')"
  obtains new where "room_events db' = (room_events db)(r := room_events db r @ new)"
    and "map event_sequence new = (case fst pub of None \<Rightarrow> [] | Some n \<Rightarrow> [n])"
    and "\<forall>e \<in> set new. is_answer e \<and> event_source e = JInt (int (pm_human p))"
    and "new \<noteq> [] \<Longrightarrow> \<not> stale" and "(fst pub \<noteq> None) = (snd pub = Text_Outcome)"
    and "message_at db' = message_at db" and "phase_of db' = phase_of db" and "log_ok db'"
    and "provider_ok db' = provider_ok db" and "db_commands db' = db_commands db"
proof (cases "\<exists>t. \<not> stale \<and> res = Some (Provider_Text t)")
  case True
  then obtain t where live: "\<not> stale" "res = Some (Provider_Text t)" by blast
  with run obtain ev where app: "appendEventInTransaction r (persona_message_json i (pm_human p) t) db = (Inr ev, db')"
    and pub: "pub = (Some (snd ev), Text_Outcome)"
    by (auto simp: publishAnswer_def)
  note keeps = append_keeps [OF app]
  obtain e where e: "room_events db' = (room_events db)(r := room_events db r @ [e])" "event_sequence e = snd ev"
      "is_answer e" "event_source e = JInt (int (pm_human p))"
    by (rule appended [OF log app]) (auto simp: message_plain is_answer_def)
  show thesis
    by (rule that [OF e(1)]) (use keeps log live e(2-4) in \<open>simp_all add: pub\<close>)
next
  case False
  with run have "db' = db" and pub: "fst pub = None" "snd pub \<noteq> Text_Outcome"
    by (auto simp: publishAnswer_def split: bool.splits option.splits provider_result.splits)
  with log show thesis by (intro that [of "[]"]) simp_all
qed

lemma recordDecision_ok:
  assumes "provider_ok db" and "recordDecision r q stale g db = (Inr u, db')"
  shows "\<exists>sn. db' = db\<lparr>db_snapshots := sn\<rparr>"
proof -
  have same: "\<exists>sn. db = db\<lparr>db_snapshots := sn\<rparr>" by (intro exI [of _ "db_snapshots db"]) simp
  have "\<exists>sn. db2 = db\<lparr>db_snapshots := sn\<rparr>" if "commitDecisionSnapshotInTransaction input db = (Inr rec, db2)" for input rec db2
  proof -
    from that obtain d db1 row where "resolveRoomProviderDecision (rb_roomId (ds_binding (sr_snapshot rec)))
        (rb_purpose (ds_binding (sr_snapshot rec))) db = (Inr d, db1)" "insertSnapshot row db1 = (Inr (), db2)"
      unfolding commit_ok by blast
    with resolve_usable [OF assms(1) this(1)] show ?thesis by (auto simp: insertSnapshot_ok)
  qed
  with same assms(2) show ?thesis
    by (auto simp: recordDecision_def split: bool.splits option.splits)
qed

lemma finish_keeps:
  assumes ok: "room_ok db0 db" and row: "db_commands db (r, q) = Some row" "owned_by owner row"
    and old: "message_at db (r, q) = Some (Pending_Command p')" and held: "holds db (r, q) p"
    and run: "finishMessage r q p g owner db = (Inr res, db')"
  shows "room_ok db0 db' \<and> message_at db' (r, q) = Some (Complete_Command res)"
proof -
  define stale where "stale i \<longleftrightarrow> isStale db r (pm_generation p) i \<or>
        (case gm_providerDecision g of None \<Rightarrow> False | Some s \<Rightarrow> \<not> isProviderDecisionCurrent s db)" for i
  from run obtain i pub db1 db2 t n where i: "speaker (pm_decision p) = Some i" and
    pub: "publishAnswer r i p (stale i) (gm_providerResult g) db = (Inr pub, db1)" and
    rec: "recordDecision r q (stale i) g db1 = (Inr (), db2)" and
    res: "res = \<lparr>smr_requestId = q, smr_human = pm_human p, smr_director = pm_director p, smr_persona = fst pub,
                  smr_decision = pm_decision p, smr_outcome = snd pub, smr_generation = pm_generation p\<rparr>" and
    t: "canonicalJson (completed (message_result_json res)) = Inr t" and
    upd: "updateCommand r q (owned_by owner) (\<lambda>row. row\<lparr>result_json := t, claim := None\<rparr>) db2 = (Inr n, db')"
    by (auto simp: finishMessage_def stale_def Let_def)
  from held old have core: "core_of (Complete_Command res) = core_of (Pending_Command p')" by (simp add: holds_def res)
  obtain new where new: "room_events db1 = (room_events db)(r := room_events db r @ new)"
      "map event_sequence new = (case fst pub of None \<Rightarrow> [] | Some n \<Rightarrow> [n])"
      "\<forall>e \<in> set new. is_answer e \<and> event_source e = JInt (int (pm_human p))"
      "new \<noteq> [] \<Longrightarrow> \<not> stale i" "(fst pub \<noteq> None) = (snd pub = Text_Outcome)"
    and db1: "message_at db1 = message_at db" "phase_of db1 = phase_of db" "log_ok db1"
      "provider_ok db1 = provider_ok db" "db_commands db1 = db_commands db"
    by (rule publish_ok [OF room_ok_parts(1) [OF ok] pub]) blast
  have pok1: "provider_ok db1" using db1 room_ok_parts(2) [OF ok] by simp
  from recordDecision_ok [OF pok1 rec] obtain sn where db2: "db2 = db1\<lparr>db_snapshots := sn\<rparr>" by blast
  have db': "db' = db2\<lparr>db_commands := (db_commands db2)((r, q) \<mapsto> row\<lparr>result_json := t, claim := None\<rparr>)\<rparr>"
    using upd row db1(5) by (simp add: updateCommand_ok db2)
  have at: "message_at db' = (message_at db)((r, q) \<mapsto> Complete_Command res)"
    by (simp add: db' stored_complete [OF t]) (simp add: db2 db1(1))
  have human: "pm_human p' = pm_human p" and gen: "pm_generation p' = pm_generation p" using core by (simp_all add: res)
  have live: "phase_of db r = Some (Active, pm_generation p')" if "new \<noteq> []"
    using new(4) [OF that] by (auto simp: stale_def isStale_def phase_of_def gen split: option.splits)
  have "messages_ok db' \<and> advances db db'"
  proof (rule changed_message [OF room_ok_parts(3) [OF ok] old at _ _ core _ _ _ live])
    show "room_events db' = (room_events db)(r := room_events db r @ new)" "phase_of db' = phase_of db"
      by (simp_all add: db' db2 new(1) db1(2))
    show "outcome_ok (Complete_Command res)" using new(5) by (simp add: res)
    show "map event_sequence new = published (Complete_Command res)" using new(2) by (simp add: res)
    show "\<forall>e \<in> set new. is_answer e \<and> event_source e = JInt (int (pm_human p'))" using new(3) human by simp
  qed
  then show ?thesis using room_ok_step [OF ok] db1(3) pok1 at by (simp add: db' db2)
qed

lemma complete_keeps:
  assumes ok: "room_ok db0 db" and idle: "\<not> is_transaction db" and held: "holds db (r, q) p"
    and run: "completeMessage r q p g owner now db = (Inr x, db')"
  shows "room_ok db0 db' \<and> (\<forall>res. x = Some res \<longrightarrow> message_at db' (r, q) = Some (Complete_Command res))"
proof -
  let ?db = "db\<lparr>is_transaction := True\<rparr>"
  from run [unfolded completeMessage_def transaction_ok [OF idle]] obtain db1 row sc where
    row: "db_commands db (r, q) = Some row" and sc: "parseStored read_message_result (result_json row) = Inr sc" and
    rest: "(case sc of
         Complete_Command res \<Rightarrow> returnA (Some res)
       | Pending_Command _ \<Rightarrow>
           (case claim row of
              Some (own, expires) \<Rightarrow>
                if own \<noteq> owner then returnA None
                else
                  bindA (liftA (currentTime now)) (\<lambda>n.
                  if expires \<le> n then returnA None
                  else bindA (finishMessage r q p g owner) (\<lambda>res. returnA (Some res)))
            | None \<Rightarrow> returnA None)) ?db = (Inr x, db1)" and
    db': "db' = db1\<lparr>is_transaction := False\<rparr>"
    by (auto simp: findCommand_def)
  have at: "message_at db (r, q) = Some sc" by (simp add: message_at_def row stored_message_def sc)
  have "room_ok db0 db1 \<and> (\<forall>res. x = Some res \<longrightarrow> message_at db1 (r, q) = Some (Complete_Command res))"
  proof (cases sc)
    case (Complete_Command res)
    with rest ok at show ?thesis by auto
  next
    case (Pending_Command p')
    have fin: "room_ok db0 db1 \<and> message_at db1 (r, q) = Some (Complete_Command res)"
      if "finishMessage r q p g owner ?db = (Inr res, db1)" "owned_by owner row" for res
      using finish_keeps [OF _ _ that(2) _ _ that(1)] ok row at held Pending_Command by (simp add: holds_def)
    show ?thesis
    proof (cases "claim row")
      case None
      with rest Pending_Command ok show ?thesis by auto
    next
      case (Some c)
      obtain own expires where c: "c = (own, expires)" by (cases c)
      with Some have "owned_by owner row \<longleftrightarrow> own = owner" by (simp add: owned_by_def)
      with rest Pending_Command Some c ok fin show ?thesis by (auto split: if_splits)
    qed
  qed
  then show ?thesis by (simp add: db')
qed

end
