(* ===== verification/Room_Workers.thy ===== *)
theory Room_Workers
  imports Room_Message_Steps
begin

text \<open>
  Message workers of \<open>src/runtime/room-service.ts\<close> (\<open>#executeMessage\<close>, \<open>#generateMessage\<close>,
  \<open>#maintainClaim\<close>, \<open>#close\<close>) as a step relation. Any number of services share one database; each
  call of \<open>sendMessage\<close> runs a worker. A step is one piece of code between two awaits or one
  transaction, so other workers, control commands, the room library and the operations on provider
  profiles come in between. The provider and the clock give any value, a service can close or crash.
\<close>

section \<open>Workers\<close>

record invitation =
  inv_id :: string
  inv_personaId :: string
  inv_prompt :: string

text \<open>
  Where a worker is: at the head of its loop; holding the claim, before the check for staleness;
  before pinning; before the check that the pinned decision is current; waiting for the provider;
  in the handler of an error; before completing; returned; thrown; gone with its process.
\<close>

datatype worker_phase =
    Looping
  | Holding pending_message
  | Checked pending_message
  | Pinned pending_message "decision_snapshot option"
  | Generating pending_message "decision_snapshot option" invitation
  | Failing pending_message js_error
  | Generated pending_message generated_message
  | Returned send_message_result
  | Threw js_error
  | Crashed

text \<open>\<open>w_lost\<close> and \<open>w_error\<close> are the fields of \<open>ClaimMaintenanceState\<close>.\<close>

record worker =
  w_service :: nat
  w_command :: message_command
  w_digest :: string
  w_lost :: bool
  w_error :: "js_error option"
  w_phase :: worker_phase

definition w_key :: "worker \<Rightarrow> string \<times> string" where
  "w_key w = (mc_roomId (w_command w), mc_requestId (w_command w))"

fun finished :: "worker_phase \<Rightarrow> bool" where
  "finished (Returned res) = True"
| "finished (Threw e) = True"
| "finished Crashed = True"
| "finished _ = False"

text \<open>The phases in which \<open>#maintainClaim\<close> runs.\<close>

fun maintained :: "worker_phase \<Rightarrow> bool" where
  "maintained (Holding p) = True"
| "maintained (Checked p) = True"
| "maintained (Pinned p d) = True"
| "maintained (Generating p d iv) = True"
| "maintained (Failing p e) = True"
| "maintained _ = False"

text \<open>The state of the world: the database, the workers by the claim owner they drew, the closed services.\<close>

record room_world =
  rw_db :: db
  rw_workers :: "string \<Rightarrow> worker option"
  rw_closed :: "nat set"

definition put_worker :: "string \<Rightarrow> worker \<Rightarrow> room_world \<Rightarrow> room_world" where
  "put_worker owner w W = W\<lparr>rw_workers := (rw_workers W)(owner \<mapsto> w)\<rparr>"

definition closed_error :: js_error where
  "closed_error = RoomServiceClosedError"

section \<open>Pieces of code\<close>

definition no_result :: "decision_snapshot option \<Rightarrow> generated_message" where
  "no_result d = \<lparr>gm_providerResult = None, gm_providerDecision = d\<rparr>"

fun after_prepare :: "js_error + prepared_message \<Rightarrow> worker_phase" where
  "after_prepare (Inl e) = Threw e"
| "after_prepare (Inr (Answered res)) = Returned res"
| "after_prepare (Inr (Claimed p)) = Holding p"
| "after_prepare (Inr (Observed n p)) = Looping"

definition after_stale_check :: "db \<Rightarrow> string \<Rightarrow> pending_message \<Rightarrow> worker_phase" where
  "after_stale_check db r p =
     (case speaker (pm_decision p) of
        None \<Rightarrow> Threw (PlainError ''Cannot generate without a selected speaker'')
      | Some i \<Rightarrow> if isStale db r (pm_generation p) i then Generated p (no_result None) else Checked p)"

fun after_pin :: "pending_message \<Rightarrow> js_error + decision_snapshot option \<Rightarrow> worker_phase" where
  "after_pin p (Inl e) = Failing p e"
| "after_pin p (Inr d) = Pinned p d"

definition invitation_of :: "string \<Rightarrow> pending_message \<Rightarrow> string \<Rightarrow> string \<Rightarrow> invitation" where
  "invitation_of r p i persona =
     \<lparr>inv_id = r @ '':'' @ number_string (Num (int (pm_generation p)) 0) @ '':'' @ number_string (Num (int (pm_human p)) 0) @ '':'' @ i,
      inv_personaId = persona, inv_prompt = pm_prompt p\<rparr>"

definition after_current_check :: "db \<Rightarrow> string \<Rightarrow> pending_message \<Rightarrow> decision_snapshot option \<Rightarrow> worker_phase" where
  "after_current_check db r p d =
     (if (case d of None \<Rightarrow> False | Some s \<Rightarrow> \<not> isProviderDecisionCurrent s db) then Generated p (no_result d)
      else (case speaker (pm_decision p) of
              None \<Rightarrow> Threw (PlainError ''Cannot generate without a selected speaker'')
            | Some i \<Rightarrow>
                (case fst (providerPersonaId r i db) of
                   Inl e \<Rightarrow> Failing p e
                 | Inr persona \<Rightarrow> Generating p d (invitation_of r p i persona))))"

definition after_result :: "worker \<Rightarrow> pending_message \<Rightarrow> decision_snapshot option \<Rightarrow> jval \<Rightarrow> worker_phase" where
  "after_result w p d v =
     (if w_lost w then Generated p (no_result d)
      else (case w_error w of
              Some e \<Rightarrow> Failing p e
            | None \<Rightarrow>
                (case validatedProviderResult v of
                   Inl e \<Rightarrow> Failing p e
                 | Inr res \<Rightarrow> Generated p \<lparr>gm_providerResult = Some res, gm_providerDecision = d\<rparr>)))"

text \<open>The handler: the phase it leads to, or the error it throws once the claim is released.\<close>

definition after_failure :: "db \<Rightarrow> string \<Rightarrow> worker \<Rightarrow> pending_message \<Rightarrow> js_error \<Rightarrow> worker_phase + js_error" where
  "after_failure db r w p e =
     (if (case speaker (pm_decision p) of None \<Rightarrow> True | Some i \<Rightarrow> isStale db r (pm_generation p) i) \<or> w_lost w
      then Inl (Generated p (no_result None))
      else Inr (case w_error w of Some e' \<Rightarrow> e' | None \<Rightarrow> e))"

fun after_complete :: "js_error + send_message_result option \<Rightarrow> worker_phase" where
  "after_complete (Inl e) = Threw e"
| "after_complete (Inr None) = Looping"
| "after_complete (Inr (Some res)) = Returned res"

definition after_renewal :: "worker \<Rightarrow> js_error + bool \<Rightarrow> worker" where
  "after_renewal w x =
     (case x of Inl e \<Rightarrow> w\<lparr>w_error := Some e\<rparr> | Inr renewed \<Rightarrow> if renewed then w else w\<lparr>w_lost := True\<rparr>)"

definition new_worker :: "nat \<Rightarrow> message_command \<Rightarrow> string \<Rightarrow> worker" where
  "new_worker s c digest =
     \<lparr>w_service = s, w_command = c, w_digest = digest, w_lost = False, w_error = None, w_phase = Looping\<rparr>"

text \<open>
  A call of \<open>sendMessage\<close> joins a worker of its service that runs for the same request
  (\<open>#inFlight\<close>); only otherwise it starts one.
\<close>

definition in_flight :: "room_world \<Rightarrow> nat \<Rightarrow> string \<times> string \<Rightarrow> bool" where
  "in_flight W s k \<longleftrightarrow> (\<exists>owner w. rw_workers W owner = Some w \<and> w_service w = s \<and> w_key w = k \<and> \<not> finished (w_phase w))"

definition crash_worker :: "nat \<Rightarrow> worker \<Rightarrow> worker" where
  "crash_worker s w = (if w_service w = s \<and> \<not> finished (w_phase w) then w\<lparr>w_phase := Crashed\<rparr> else w)"

section \<open>Steps\<close>

inductive room_step :: "(string \<Rightarrow> string) \<Rightarrow> provider_decision_evidence option \<Rightarrow> nat \<Rightarrow> room_world \<Rightarrow> room_world \<Rightarrow> bool"
  for sha evidence lease where
  start: "s \<notin> rw_closed W \<Longrightarrow> normalizeMessage c = Inr m \<Longrightarrow> jsonDigest sha (message_request_json m) = Inr digest \<Longrightarrow>
     \<not> in_flight W s (mc_roomId m, mc_requestId m) \<Longrightarrow> rw_workers W owner = None \<Longrightarrow>
     room_step sha evidence lease W (put_worker owner (new_worker s m digest) W)"
| prepare: "rw_workers W owner = Some w \<Longrightarrow> w_phase w = Looping \<Longrightarrow> w_service w \<notin> rw_closed W \<Longrightarrow>
     prepareMessage lease (w_command w) (w_digest w) owner now (rw_db W) = (x, db') \<Longrightarrow>
     room_step sha evidence lease W (put_worker owner (w\<lparr>w_lost := False, w_error := None, w_phase := after_prepare x\<rparr>) (W\<lparr>rw_db := db'\<rparr>))"
| stale_check: "rw_workers W owner = Some w \<Longrightarrow> w_phase w = Holding p \<Longrightarrow>
     room_step sha evidence lease W (put_worker owner (w\<lparr>w_phase := after_stale_check (rw_db W) (fst (w_key w)) p\<rparr>) W)"
| pin: "rw_workers W owner = Some w \<Longrightarrow> w_phase w = Checked p \<Longrightarrow>
     pinProviderDecision sha evidence (fst (w_key w)) (snd (w_key w)) owner (rw_db W) = (x, db') \<Longrightarrow>
     room_step sha evidence lease W (put_worker owner (w\<lparr>w_phase := after_pin p x\<rparr>) (W\<lparr>rw_db := db'\<rparr>))"
| current_check: "rw_workers W owner = Some w \<Longrightarrow> w_phase w = Pinned p d \<Longrightarrow>
     room_step sha evidence lease W (put_worker owner (w\<lparr>w_phase := after_current_check (rw_db W) (fst (w_key w)) p d\<rparr>) W)"
| no_provider: "rw_workers W owner = Some w \<Longrightarrow> w_phase w = Pinned p (Some d) \<Longrightarrow>
     room_step sha evidence lease W (put_worker owner (w\<lparr>w_phase := Failing p e\<rparr>) W)"
| provider_result: "rw_workers W owner = Some w \<Longrightarrow> w_phase w = Generating p d iv \<Longrightarrow>
     (if \<not> w_lost w \<and> w_error w \<noteq> None then snd (releaseClaim (fst (w_key w)) (snd (w_key w)) owner (rw_db W)) else rw_db W) = db' \<Longrightarrow>
     room_step sha evidence lease W (put_worker owner (w\<lparr>w_phase := after_result w p d v\<rparr>) (W\<lparr>rw_db := db'\<rparr>))"
| provider_error: "rw_workers W owner = Some w \<Longrightarrow> w_phase w = Generating p d iv \<Longrightarrow>
     room_step sha evidence lease W (put_worker owner (w\<lparr>w_phase := Failing p e\<rparr>) W)"
| recover: "rw_workers W owner = Some w \<Longrightarrow> w_phase w = Failing p e \<Longrightarrow>
     after_failure (rw_db W) (fst (w_key w)) w p e = Inl phase \<Longrightarrow>
     room_step sha evidence lease W (put_worker owner (w\<lparr>w_phase := phase\<rparr>) W)"
| give_up: "rw_workers W owner = Some w \<Longrightarrow> w_phase w = Failing p e \<Longrightarrow>
     after_failure (rw_db W) (fst (w_key w)) w p e = Inr e' \<Longrightarrow>
     releaseClaim (fst (w_key w)) (snd (w_key w)) owner (rw_db W) = (x, db') \<Longrightarrow>
     room_step sha evidence lease W
       (put_worker owner (w\<lparr>w_phase := Threw (case x of Inl e'' \<Rightarrow> e'' | Inr _ \<Rightarrow> e')\<rparr>) (W\<lparr>rw_db := db'\<rparr>))"
| renew: "rw_workers W owner = Some w \<Longrightarrow> maintained (w_phase w) \<Longrightarrow> \<not> w_lost w \<Longrightarrow> w_error w = None \<Longrightarrow>
     renewClaim lease (fst (w_key w)) (snd (w_key w)) owner now (rw_db W) = (x, db') \<Longrightarrow>
     room_step sha evidence lease W (put_worker owner (after_renewal w x) (W\<lparr>rw_db := db'\<rparr>))"
| wait_error: "rw_workers W owner = Some w \<Longrightarrow> maintained (w_phase w) \<Longrightarrow> \<not> w_lost w \<Longrightarrow> w_error w = None \<Longrightarrow>
     room_step sha evidence lease W (put_worker owner (w\<lparr>w_error := Some e\<rparr>) W)"
| complete: "rw_workers W owner = Some w \<Longrightarrow> w_phase w = Generated p g \<Longrightarrow> w_service w \<notin> rw_closed W \<Longrightarrow>
     completeMessage (fst (w_key w)) (snd (w_key w)) p g owner now (rw_db W) = (x, db') \<Longrightarrow>
     room_step sha evidence lease W (put_worker owner (w\<lparr>w_phase := after_complete x\<rparr>) (W\<lparr>rw_db := db'\<rparr>))"
| closed: "rw_workers W owner = Some w \<Longrightarrow> w_service w \<in> rw_closed W \<Longrightarrow> w_phase w = Looping \<or> (\<exists>p g. w_phase w = Generated p g) \<Longrightarrow>
     room_step sha evidence lease W (put_worker owner (w\<lparr>w_phase := Threw closed_error\<rparr>) W)"
| release: "rw_workers W owner = Some w \<Longrightarrow> w_service w \<in> rw_closed W \<Longrightarrow>
     releaseClaim (fst (w_key w)) (snd (w_key w)) owner (rw_db W) = (x, db') \<Longrightarrow>
     room_step sha evidence lease W (W\<lparr>rw_db := db'\<rparr>)"
| room_control: "roomControl sha kind c (rw_db W) = (x, db') \<Longrightarrow> room_step sha evidence lease W (W\<lparr>rw_db := db'\<rparr>)"
| persona_control: "personaControl sha mkind pc (rw_db W) = (y, db') \<Longrightarrow> room_step sha evidence lease W (W\<lparr>rw_db := db'\<rparr>)"
| library: "runLibrary sha lc (rw_db W) = (z, db') \<Longrightarrow> room_step sha evidence lease W (W\<lparr>rw_db := db'\<rparr>)"
| profiles: "op_json_ok po \<Longrightarrow> runProvider po (rw_db W) = (u, db') \<Longrightarrow> room_step sha evidence lease W (W\<lparr>rw_db := db'\<rparr>)"
| tick: "room_step sha evidence lease W (W\<lparr>rw_db := (rw_db W)\<lparr>db_clock := clock\<rparr>\<rparr>)"
| close: "room_step sha evidence lease W (W\<lparr>rw_closed := insert s (rw_closed W)\<rparr>)"
| crash: "room_step sha evidence lease W (W\<lparr>rw_workers := (\<lambda>owner. map_option (crash_worker s) (rw_workers W owner))\<rparr>)"

inductive room_run :: "(string \<Rightarrow> string) \<Rightarrow> provider_decision_evidence option \<Rightarrow> nat \<Rightarrow> room_world \<Rightarrow> room_world \<Rightarrow> bool"
  for sha evidence lease where
  stay: "room_run sha evidence lease W W"
| go: "room_run sha evidence lease W W1 \<Longrightarrow> room_step sha evidence lease W1 W2 \<Longrightarrow> room_run sha evidence lease W W2"

definition first_world :: "string \<Rightarrow> room_world" where
  "first_world clock = \<lparr>rw_db = migrated_db clock, rw_workers = (\<lambda>_. None), rw_closed = {}\<rparr>"

section \<open>Transactions are atomic\<close>

lemma service_open [open_intros]:
  "stays_open (findCommand r q)" "stays_open (room_row_of r)" "stays_open (insertCommand r q d v cl)"
  "stays_open (updateCommand r q cond f)" "stays_open (releaseRoomClaims r)" "stays_open (updateRoom r rf)"
  "stays_open (updateMuted r i b)" "stays_open (updateDirector r n dd g)" "stays_open (decide r state wants target)"
  "stays_open (assertMatchingDigest row d)"
  unfolding findCommand_def room_row_of_def insertCommand_def updateCommand_def releaseRoomClaims_def updateRoom_def
    updateMuted_def updateDirector_def assertMatchingDigest_def
  subgoal by (intro open_intros)
  subgoal by (intro open_intros)
  subgoal by (intro open_intros) simp
  subgoal by (intro open_intros) simp
  subgoal by (intro open_intros) simp
  subgoal by (intro open_intros) simp
  subgoal by (intro open_intros) simp
  subgoal by (intro open_intros) simp
  subgoal
  proof -
    have "stays_open m \<Longrightarrow> (\<And>p. stays_open (f p)) \<Longrightarrow> (\<And>p q qs. stays_open (g p q qs)) \<Longrightarrow>
        stays_open (case ps of [] \<Rightarrow> m | [p] \<Rightarrow> f p | p # q # qs \<Rightarrow> g p q qs)"
      for m :: "director_decision action" and f g and ps :: "participant_row list"
      by (auto split: list.splits)
    note [open_intros] = this
    show ?thesis unfolding decide_def by (intro open_intros)
  qed
  subgoal by (intro open_intros)
  done

end
