(* ===== verification/Room_Invariant.thy ===== *)
theory Room_Invariant
  imports Room_Workers
begin

text \<open>
  Every step of the workers and of what runs beside them keeps the invariant of the messages and only
  moves forward; a worker holds the message of its command, and has returned what the command stores.
\<close>

section \<open>Transactions are atomic and leave none open\<close>

lemma stays_open_stored [open_intros]:
  "(\<And>res. stays_open (f res)) \<Longrightarrow> (\<And>p. stays_open (g p)) \<Longrightarrow>
   stays_open (case sc of Complete_Command res \<Rightarrow> f res | Pending_Command p \<Rightarrow> g p)"
  by (cases sc) auto

lemma stays_open_pair [open_intros]: "(\<And>a b. stays_open (f a b)) \<Longrightarrow> stays_open (case p of (a, b) \<Rightarrow> f a b)"
  by (cases p) auto

lemma prepare_open [open_intros]: "stays_open (prepareInTransaction lease c d owner now)"
  unfolding prepareInTransaction_def resumeMessage_def recordMessage_def Let_def by (intro open_intros)

lemma pinned_open [open_intros]: "stays_open (resolvePinned sha evidence r q)"
  unfolding resolvePinned_def by (intro open_intros)

lemma publish_open [open_intros]: "stays_open (publishAnswer r i p stale res)"
  by (cases stale; cases res rule: option.exhaust [case_product provider_result.exhaust])
    (auto simp: publishAnswer_def intro: open_intros split: option.splits provider_result.splits)

lemma record_open [open_intros]: "stays_open (recordDecision r q stale g)"
  by (cases stale; cases "gm_providerResult g"; cases "gm_providerDecision g")
    (auto simp: recordDecision_def intro!: open_intros commit_open)

lemma finish_open [open_intros]: "stays_open (finishMessage r q p g owner)"
  unfolding finishMessage_def Let_def by (intro open_intros)

lemma control_open [open_intros]:
  "stays_open (controlRoom kind r q d)" "stays_open (controlPersona mkind r q i d)" "stays_open (replayControl rd row d)"
  unfolding controlRoom_def controlPersona_def changeStatus_def changeMuted_def replayControl_def Let_def by (intro open_intros)+

lemma service_atomic:
  "atomic (prepareMessage lease c d owner now)" "atomic (pinProviderDecision sha evidence r q owner)"
  "atomic (releaseClaim r q owner)" "atomic (renewClaim lease r q owner now)"
  "atomic (completeMessage r q p g owner now)" "atomic (roomControl sha kind rc)" "atomic (personaControl sha mkind pc)"
  unfolding prepareMessage_def pinProviderDecision_def releaseClaim_def renewClaim_def completeMessage_def
    roomControl_def personaControl_def
  by (intro atomic_intros open_intros)+

lemma service_idle:
  "idle_after (prepareMessage lease c d owner now)" "idle_after (pinProviderDecision sha evidence r q owner)"
  "idle_after (releaseClaim r q owner)" "idle_after (renewClaim lease r q owner now)"
  "idle_after (completeMessage r q p g owner now)" "idle_after (roomControl sha kind rc)" "idle_after (personaControl sha mkind pc)"
  unfolding prepareMessage_def pinProviderDecision_def releaseClaim_def renewClaim_def completeMessage_def
    roomControl_def personaControl_def
  by (intro idle_intros open_intros)+

lemma library_idle: "idle_after (runLibrary sha c)"
  unfolding runLibrary_def selectRoom_def replaceCurrentRoomCast_def
  by (cases c) (auto intro!: idle_intros open_intros)

section \<open>The database of a step\<close>

definition db_ok :: "db \<Rightarrow> db \<Rightarrow> bool" where
  "db_ok db0 db \<longleftrightarrow> room_ok db0 db \<and> \<not> is_transaction db"

lemma db_ok_step:
  assumes "preserves (room_ok db0) m" and "atomic m" and "idle_after m" and "db_ok db0 db" and "m db = (x, db')"
  shows "db_ok db0 db'"
  using step_invariant [OF assms(1,2) _ _ assms(5)] assms(3-5) by (fastforce simp: db_ok_def idle_after_def)

lemma db_ok_prepare:
  assumes ok: "db_ok db0 db" and run: "prepareMessage lease c d owner now db = (x, db')"
  shows "db_ok db0 db' \<and> (\<forall>y. x = Inr y \<longrightarrow> prepared_ok db' (mc_roomId c, mc_requestId c) y)"
proof (cases x)
  case (Inl e)
  with atomicD [OF service_atomic(1) _ run [unfolded Inl]] ok show ?thesis by (simp add: db_ok_def)
next
  case (Inr y)
  moreover have "\<not> is_transaction db'" using service_idle(1) [of lease c d owner now] ok run by (fastforce simp: db_ok_def idle_after_def)
  ultimately show ?thesis using prepare_keeps [of db0 db, OF _ _ run [unfolded Inr]] ok by (simp add: db_ok_def)
qed

lemma db_ok_complete:
  assumes ok: "db_ok db0 db" and held: "holds db (r, q) p" and run: "completeMessage r q p g owner now db = (x, db')"
  shows "db_ok db0 db' \<and> (\<forall>res. x = Inr (Some res) \<longrightarrow> message_at db' (r, q) = Some (Complete_Command res))"
proof (cases x)
  case (Inl e)
  with atomicD [OF service_atomic(5) _ run [unfolded Inl]] ok show ?thesis by (simp add: db_ok_def)
next
  case (Inr y)
  moreover have "\<not> is_transaction db'"
    using service_idle(5) [of r q p g owner now] ok run by (fastforce simp: db_ok_def idle_after_def)
  ultimately show ?thesis using complete_keeps [of db0 db, OF _ _ held run [unfolded Inr]] ok by (simp add: db_ok_def)
qed

lemma db_ok_service:
  "db_ok db0 db \<Longrightarrow> pinProviderDecision sha evidence r q owner db = (x1, db1) \<Longrightarrow> db_ok db0 db1"
  "db_ok db0 db \<Longrightarrow> releaseClaim r q owner db = (x2, db2) \<Longrightarrow> db_ok db0 db2"
  "db_ok db0 db \<Longrightarrow> renewClaim lease r q owner now db = (x3, db3) \<Longrightarrow> db_ok db0 db3"
  "db_ok db0 db \<Longrightarrow> roomControl sha kind rc db = (x4, db4) \<Longrightarrow> db_ok db0 db4"
  "db_ok db0 db \<Longrightarrow> personaControl sha mkind pc db = (x5, db5) \<Longrightarrow> db_ok db0 db5"
  "db_ok db0 db \<Longrightarrow> runLibrary sha lc db = (x6, db6) \<Longrightarrow> db_ok db0 db6"
  "db_ok db0 db \<Longrightarrow> op_json_ok po \<Longrightarrow> runProvider po db = (x7, db7) \<Longrightarrow> db_ok db0 db7"
  using db_ok_step pin_keeps release_keeps(1,3) controls_keep library_keeps provider_keeps service_atomic service_idle
    atomic_library library_idle runProvider_atomic runProvider_idle by metis+

section \<open>The invariant of the world\<close>

fun phase_ok :: "db \<Rightarrow> string \<times> string \<Rightarrow> worker_phase \<Rightarrow> bool" where
  "phase_ok db k (Holding p) \<longleftrightarrow> holds db k p"
| "phase_ok db k (Checked p) \<longleftrightarrow> holds db k p"
| "phase_ok db k (Pinned p d) \<longleftrightarrow> holds db k p"
| "phase_ok db k (Generating p d iv) \<longleftrightarrow> holds db k p"
| "phase_ok db k (Failing p e) \<longleftrightarrow> holds db k p"
| "phase_ok db k (Generated p g) \<longleftrightarrow> holds db k p"
| "phase_ok db k (Returned res) \<longleftrightarrow> message_at db k = Some (Complete_Command res)"
| "phase_ok db k _ \<longleftrightarrow> True"

lemma phase_later: "phase_ok db k ph \<Longrightarrow> advances db db' \<Longrightarrow> phase_ok db' k ph"
proof (cases ph)
  case (Returned res)
  assume "phase_ok db k ph" and "advances db db'"
  with Returned show ?thesis by (cases k) (fastforce simp: advances_def message_grows_def)
qed (auto intro: holds_later)

definition world_ok :: "db \<Rightarrow> room_world \<Rightarrow> bool" where
  "world_ok db0 W \<longleftrightarrow> db_ok db0 (rw_db W) \<and>
     (\<forall>owner w. rw_workers W owner = Some w \<longrightarrow> phase_ok (rw_db W) (w_key w) (w_phase w))"

lemma db_ok_advances: "db_ok db0 db \<Longrightarrow> db_ok db db"
  by (simp add: db_ok_def room_ok_def advances_refl)

text \<open>A step that moves one worker and the database.\<close>

lemma world_step:
  assumes ok: "world_ok db0 W" and db': "\<And>d. db_ok d (rw_db W) \<Longrightarrow> db_ok d db'"
    and w: "phase_ok db' (w_key w) (w_phase w)"
  shows "world_ok db0 (put_worker owner w (W\<lparr>rw_db := db'\<rparr>))"
proof -
  have "db_ok (rw_db W) db'" using db' db_ok_advances ok by (auto simp: world_ok_def)
  then have "advances (rw_db W) db'" by (simp add: db_ok_def room_ok_def)
  with ok db' w show ?thesis by (auto simp: world_ok_def put_worker_def intro: phase_later)
qed

lemma world_db_step:
  assumes ok: "world_ok db0 W" and db': "\<And>d. db_ok d (rw_db W) \<Longrightarrow> db_ok d db'"
  shows "world_ok db0 (W\<lparr>rw_db := db'\<rparr>)"
proof -
  have "db_ok (rw_db W) db'" using db' db_ok_advances ok by (auto simp: world_ok_def)
  then have "advances (rw_db W) db'" by (simp add: db_ok_def room_ok_def)
  with ok db' show ?thesis by (auto simp: world_ok_def intro: phase_later)
qed

lemma world_worker_step:
  "world_ok db0 W \<Longrightarrow> phase_ok (rw_db W) (w_key w) (w_phase w) \<Longrightarrow> world_ok db0 (put_worker owner w W)"
  using world_step [of db0 W "rw_db W" w owner] by simp

lemma w_key_phase [simp]:
  "w_key (w\<lparr>w_phase := ph\<rparr>) = w_key w" "w_key (w\<lparr>w_lost := b\<rparr>) = w_key w" "w_key (w\<lparr>w_error := e\<rparr>) = w_key w"
  by (simp_all add: w_key_def)

lemma key_parts: "(fst (w_key w), snd (w_key w)) = w_key w" "w_key w = (mc_roomId (w_command w), mc_requestId (w_command w))"
  by (simp_all add: w_key_def)

lemma worker_ok: "world_ok db0 W \<Longrightarrow> rw_workers W owner = Some w \<Longrightarrow> phase_ok (rw_db W) (w_key w) (w_phase w)"
  by (simp add: world_ok_def)

section \<open>The phases that follow\<close>

lemma after_phases:
  "holds db k p \<Longrightarrow> phase_ok db k (after_stale_check db2 r p)"
  "holds db k p \<Longrightarrow> phase_ok db k (after_pin p x)"
  "holds db k p \<Longrightarrow> phase_ok db k (after_current_check db2 r p d)"
  "holds db k p \<Longrightarrow> phase_ok db k (after_result w p d v)"
  "holds db k p \<Longrightarrow> after_failure db2 r w p e = Inl ph \<Longrightarrow> phase_ok db k ph"
  by (auto simp: after_stale_check_def after_current_check_def after_result_def after_failure_def
      split: option.splits sum.splits if_splits) (cases x; simp)

lemma after_prepare_ok: "(\<And>y. x = Inr y \<Longrightarrow> prepared_ok db k y) \<Longrightarrow> phase_ok db k (after_prepare x)"
  by (cases x rule: after_prepare.cases) auto

lemma after_complete_ok: "(\<And>res. x = Inr (Some res) \<Longrightarrow> message_at db k = Some (Complete_Command res)) \<Longrightarrow> phase_ok db k (after_complete x)"
  by (cases x rule: after_complete.cases) auto

lemma after_renewal_same [simp]: "w_key (after_renewal w x) = w_key w" "w_phase (after_renewal w x) = w_phase w"
  by (auto simp: after_renewal_def split: sum.splits)

section \<open>Every step\<close>

lemma room_step_ok: "room_step sha evidence lease W W' \<Longrightarrow> world_ok db0 W \<Longrightarrow> world_ok db0 W'"
proof (induction rule: room_step.induct)
  case (start s W c m digest owner)
  then show ?case by (intro world_worker_step) (simp_all add: new_worker_def)
next
  case (prepare W owner w now x db')
  note p = db_ok_prepare [OF _ prepare.hyps(4)]
  show ?case
  proof (rule world_step [OF prepare.prems])
    show "db_ok d db'" if "db_ok d (rw_db W)" for d using p [OF that] by blast
    have "phase_ok db' (w_key w) (after_prepare x)"
      using p prepare.prems by (intro after_prepare_ok) (auto simp: world_ok_def key_parts(2))
    then show "phase_ok db' (w_key (w\<lparr>w_lost := False, w_error := None, w_phase := after_prepare x\<rparr>))
        (w_phase (w\<lparr>w_lost := False, w_error := None, w_phase := after_prepare x\<rparr>))" by simp
  qed
next
  case (stale_check W owner w p)
  with worker_ok [OF stale_check.prems stale_check.hyps(1)] show ?case
    by (intro world_worker_step) (simp_all add: after_phases)
next
  case (pin W owner w p x db')
  have adv: "advances (rw_db W) db'"
    using db_ok_service(1) [OF db_ok_advances pin.hyps(3)] pin.prems by (auto simp: world_ok_def db_ok_def room_ok_def)
  have "holds db' (w_key w) p" using worker_ok [OF pin.prems pin.hyps(1)] pin.hyps(2) holds_later adv by simp
  then show ?case
    by (intro world_step [OF pin.prems] db_ok_service(1) [OF _ pin.hyps(3)]) (simp_all add: after_phases)
next
  case (current_check W owner w p d)
  with worker_ok [OF current_check.prems current_check.hyps(1)] show ?case
    by (intro world_worker_step) (simp_all add: after_phases)
next
  case (no_provider W owner w p d e)
  with worker_ok [OF no_provider.prems no_provider.hyps(1)] show ?case by (intro world_worker_step) simp_all
next
  case (provider_result W owner w p d iv db' v)
  have db': "db_ok d2 db'" if "db_ok d2 (rw_db W)" for d2
    using that db_ok_service(2) [OF that, of "fst (w_key w)" "snd (w_key w)" owner] provider_result.hyps(3)
    by (cases "releaseClaim (fst (w_key w)) (snd (w_key w)) owner (rw_db W)") (auto split: if_splits)
  have adv: "advances (rw_db W) db'"
    using db' [OF db_ok_advances] provider_result.prems by (auto simp: world_ok_def db_ok_def room_ok_def)
  have "holds db' (w_key w) p" using worker_ok [OF provider_result.prems provider_result.hyps(1)] provider_result.hyps(2) holds_later adv by simp
  then show ?case by (intro world_step [OF provider_result.prems] db') (simp_all add: after_phases)
next
  case (provider_error W owner w p d iv e)
  with worker_ok [OF provider_error.prems provider_error.hyps(1)] show ?case by (intro world_worker_step) simp_all
next
  case (recover W owner w p e phase)
  with worker_ok [OF recover.prems recover.hyps(1)] show ?case
    by (intro world_worker_step) (auto intro: after_phases(5))
next
  case (give_up W owner w p e e' x db')
  then show ?case by (intro world_step db_ok_service(2) [OF _ give_up.hyps(4)]) simp_all
next
  case (renew W owner w now x db')
  have adv: "advances (rw_db W) db'"
    using db_ok_service(3) [OF db_ok_advances renew.hyps(5)] renew.prems by (auto simp: world_ok_def db_ok_def room_ok_def)
  show ?case
    using phase_later [OF worker_ok [OF renew.prems renew.hyps(1)] adv]
    by (intro world_step [OF renew.prems] db_ok_service(3) [OF _ renew.hyps(5)]) simp_all
next
  case (wait_error W owner w e)
  with worker_ok [OF wait_error.prems wait_error.hyps(1)] show ?case by (intro world_worker_step) simp_all
next
  case (complete W owner w p g now x db')
  have held: "holds (rw_db W) (fst (w_key w), snd (w_key w)) p"
    using worker_ok [OF complete.prems complete.hyps(1)] complete.hyps(2) by simp
  note c = db_ok_complete [OF _ held complete.hyps(4)]
  have "phase_ok db' (w_key w) (after_complete x)"
    using c complete.prems by (intro after_complete_ok) (auto simp: world_ok_def)
  with c show ?case by (intro world_step [OF complete.prems]) auto
next
  case (closed W owner w)
  then show ?case by (intro world_worker_step) simp_all
next
  case (release W owner w x db')
  then show ?case by (intro world_db_step db_ok_service(2) [OF _ release.hyps(3)])
next
  case (room_control kind c W x db')
  then show ?case by (intro world_db_step db_ok_service(4) [OF _ room_control.hyps])
next
  case (persona_control mkind pc W y db')
  then show ?case by (intro world_db_step db_ok_service(5) [OF _ persona_control.hyps])
next
  case (library lc W z db')
  then show ?case by (intro world_db_step db_ok_service(6) [OF _ library.hyps])
next
  case (profiles po W u db')
  then show ?case by (intro world_db_step db_ok_service(7) [OF _ profiles.hyps])
next
  case (tick W clock)
  have "room_ok d (db\<lparr>db_clock := clock\<rparr>)" if "room_ok d db" for d db
    using room_ok_parts [OF that] by (intro room_ok_views [OF that]) simp_all
  with tick show ?case by (intro world_db_step) (simp_all add: db_ok_def)
next
  case (close W s)
  then show ?case by (simp add: world_ok_def)
next
  case (crash W s)
  then show ?case by (auto simp: world_ok_def crash_worker_def)
qed

lemma room_run_ok: "room_run sha evidence lease W W' \<Longrightarrow> world_ok db0 W \<Longrightarrow> world_ok db0 W'"
  by (induction rule: room_run.induct) (auto dest: room_step_ok)

lemma migrated_world: "db_ok (migrated_db clock) (migrated_db clock)"
proof -
  have "message_at (migrated_db clock) = (\<lambda>_. None)" "room_events (migrated_db clock) = (\<lambda>_. [])"
    by (auto simp: fun_eq_iff message_at_def room_events_def migrated_db_def)
  then have "messages_ok (migrated_db clock)" by (simp add: messages_ok_def answers_def)
  then show ?thesis using migrated_log_ok migrated_provider_ok by (simp add: db_ok_def room_ok_def advances_refl migrated_db_def)
qed

lemma first_world_ok: "world_ok (migrated_db clock) (first_world clock)"
  using migrated_world by (simp add: world_ok_def first_world_def)

text \<open>Between any two worlds of a run the database moves forward.\<close>

lemma run_advances:
  assumes "room_run sha evidence lease (first_world clock) W1" and "room_run sha evidence lease W1 W2"
  shows "world_ok (rw_db W1) W1" and "world_ok (rw_db W1) W2" and "advances (rw_db W1) (rw_db W2)"
    and "messages_ok (rw_db W2)" and "log_ok (rw_db W2)"
proof -
  have "world_ok (migrated_db clock) W1" using room_run_ok [OF assms(1) first_world_ok] .
  then show 1: "world_ok (rw_db W1) W1" using db_ok_advances by (auto simp: world_ok_def)
  show 2: "world_ok (rw_db W1) W2" using room_run_ok [OF assms(2) 1] .
  then show "advances (rw_db W1) (rw_db W2)" "messages_ok (rw_db W2)" "log_ok (rw_db W2)"
    by (simp_all add: world_ok_def db_ok_def room_ok_def)
qed

end
