(* ===== verification/Room_Choice.thy ===== *)
theory Room_Choice
  imports Room_Invariant
begin

text \<open>
  \<open>#decide\<close> of \<open>src/runtime/room-service.ts\<close> against a reference definition: the unmuted personas of a
  room take turns in the order of the cast, starting after the last speaker.
\<close>

section \<open>The order of turns\<close>

definition turns_after :: "string option \<Rightarrow> participant_row list \<Rightarrow> participant_row list" where
  "turns_after last_speaker ps =
     rotate (case findIndex (\<lambda>p. Some (part_id p) = last_speaker) ps of None \<Rightarrow> 0 | Some k \<Rightarrow> Suc k) ps"

text \<open>The choice: \<open>last_speaker\<close> is the speaker of the last message that was scheduled.\<close>

fun pick_speaker :: "participant_row list \<Rightarrow> string option \<Rightarrow> bool \<Rightarrow> string option \<Rightarrow> js_error + director_decision" where
  "pick_speaker ps last_speaker wants (Some i) =
     (case find (\<lambda>p. part_id p = i) ps of
        None \<Rightarrow> Inl (PlainError ''Unknown persona for directed question'')
      | Some p \<Rightarrow> if part_muted p then Inl (PlainError ''Target persona is muted'')
                  else Inr (decision (Some i) Directed))"
| "pick_speaker ps last_speaker wants None =
     (if \<not> wants then Inr (decision None Deliberate_Silence)
      else if ps = [] then Inr (decision None No_Persona)
      else (case find (\<lambda>p. \<not> part_muted p) (turns_after last_speaker ps) of
              None \<Rightarrow> Inr (decision None No_Eligible_Persona)
            | Some p \<Rightarrow> Inr (decision (Some (part_id p)) Selected)))"

lemma findIndex_Some:
  assumes "findIndex P xs = Some k"
  shows "k < length xs \<and> P (xs ! k)"
proof -
  from assms have k: "k = length (takeWhile (\<lambda>x. \<not> P x) xs)" and ex: "\<exists>x \<in> set xs. P x"
    by (auto simp: findIndex_def split: if_splits)
  from ex have "takeWhile (\<lambda>x. \<not> P x) xs \<noteq> xs" by (metis takeWhile_eq_all_conv)
  then have "k < length xs" unfolding k by (metis length_takeWhile_le le_neq_implies_less takeWhile_eq_take take_all_iff order_refl)
  with nth_length_takeWhile [of "\<lambda>x. \<not> P x" xs] show ?thesis by (simp add: k)
qed

lemma findIndex_None: "findIndex P xs = None \<Longrightarrow> x \<in> set xs \<Longrightarrow> \<not> P x"
  by (auto simp: findIndex_def split: if_splits)

lemma in_turn_rotates: "in_turn ps last_speaker = turns_after last_speaker ps"
proof -
  have rot: "map (\<lambda>offset. ps ! ((s + offset) mod length ps)) [0..<length ps] = rotate s ps" for s
    by (rule nth_equalityI) (auto simp: nth_rotate add.commute)
  have "rotate (Suc k mod length ps) ps = rotate (Suc k) ps" for k by (rule rotate_conv_mod [symmetric])
  then show ?thesis by (simp add: in_turn_def turns_after_def Let_def rot split: option.splits)
qed

lemma turns_same [simp]: "set (turns_after last_speaker ps) = set ps" "length (turns_after last_speaker ps) = length ps"
  by (simp_all add: turns_after_def)

text \<open>The last speaker has the last turn.\<close>

lemma last_speaker_last:
  assumes "distinct (map part_id ps)" and "p \<in> set ps" and "Some (part_id p) = last_speaker"
  shows "turns_after last_speaker ps \<noteq> [] \<and> last (turns_after last_speaker ps) = p \<and>
    (\<forall>x \<in> set (butlast (turns_after last_speaker ps)). Some (part_id x) \<noteq> last_speaker)"
proof -
  let ?P = "\<lambda>p. Some (part_id p) = last_speaker"
  obtain k where k: "findIndex ?P ps = Some k"
    using findIndex_None [of ?P ps p] assms(2,3) by (cases "findIndex ?P ps") auto
  have kp: "k < length ps" "ps ! k = p"
    using findIndex_Some [OF k] assms
    by (auto simp: in_set_conv_nth distinct_conv_nth)
  have turns: "turns_after last_speaker ps = drop (Suc k) ps @ take (Suc k) ps"
    using k kp(1) by (cases "Suc k = length ps") (simp_all add: turns_after_def rotate_drop_take)
  have split: "take (Suc k) ps = take k ps @ [p]" using kp by (simp add: take_Suc_conv_app_nth)
  have "part_id x \<noteq> part_id p" if "x \<in> set (drop (Suc k) ps @ take k ps)" for x
  proof -
    have "ps = take k ps @ p # drop (Suc k) ps" using kp id_take_nth_drop by metis
    with assms(1) have "distinct (map part_id (take k ps @ p # drop (Suc k) ps))" by metis
    with that show ?thesis by (auto simp: image_iff)
  qed
  then show ?thesis using assms(3) by (auto simp: turns split butlast_append)
qed

lemma find_prefix: "\<exists>x \<in> set xs. P x \<Longrightarrow> find P (xs @ ys) = find P xs"
  by (induction xs) auto

lemma find_agree: "(\<And>x. x \<in> set xs \<Longrightarrow> P x = Q x) \<Longrightarrow> find P xs = find Q xs"
  by (induction xs) auto

text \<open>With two unmuted personas the cooldown of the last speaker makes no difference.\<close>

lemma cooldown_irrelevant:
  assumes d: "distinct (map part_id ps)" and two: "filter (\<lambda>p. \<not> part_muted p) ps = a # b # rest"
  shows "find (\<lambda>p. \<not> part_muted p \<and> (\<not> cooldown \<or> Some (part_id p) \<noteq> last_speaker)) (turns_after last_speaker ps) =
         find (\<lambda>p. \<not> part_muted p) (turns_after last_speaker ps)"
proof (cases "\<exists>p \<in> set ps. Some (part_id p) = last_speaker")
  case False
  then show ?thesis by (intro find_agree) auto
next
  case True
  then obtain p where p: "p \<in> set ps" "Some (part_id p) = last_speaker" by blast
  note l = last_speaker_last [OF d p]
  let ?t = "turns_after last_speaker ps"
  have t: "?t = butlast ?t @ [p]" using l append_butlast_last_id [of ?t] by simp
  have ab: "a \<noteq> b" "a \<in> set ps" "b \<in> set ps" "\<not> part_muted a" "\<not> part_muted b"
  proof -
    have "distinct (filter (\<lambda>p. \<not> part_muted p) ps)" using d by (simp add: distinct_map)
    with two show "a \<noteq> b" by simp
    have "{a, b} \<subseteq> set (filter (\<lambda>p. \<not> part_muted p) ps)" by (simp add: two)
    then show "a \<in> set ps" "b \<in> set ps" "\<not> part_muted a" "\<not> part_muted b" by auto
  qed
  have "set ?t \<subseteq> insert p (set (butlast ?t))" by (subst t) auto
  then have "a \<in> set (butlast ?t) \<or> b \<in> set (butlast ?t)" using ab(1-3) by auto
  then have ex: "\<exists>x \<in> set (butlast ?t). \<not> part_muted x" using ab(4,5) by blast
  then have ex': "\<exists>x \<in> set (butlast ?t). \<not> part_muted x \<and> (\<not> cooldown \<or> Some (part_id x) \<noteq> last_speaker)" using l by blast
  have "find (\<lambda>p. \<not> part_muted p \<and> (\<not> cooldown \<or> Some (part_id p) \<noteq> last_speaker)) ?t =
      find (\<lambda>p. \<not> part_muted p \<and> (\<not> cooldown \<or> Some (part_id p) \<noteq> last_speaker)) (butlast ?t)"
    using find_prefix [OF ex', of "[p]"] t by simp
  also have "\<dots> = find (\<lambda>p. \<not> part_muted p) (butlast ?t)" by (rule find_agree) (use l in auto)
  also have "\<dots> = find (\<lambda>p. \<not> part_muted p) ?t" using find_prefix [OF ex, of "[p]"] t by simp
  finally show ?thesis .
qed

section \<open>The code makes this choice\<close>

lemma personas_distinct: "participants_ok db \<Longrightarrow> distinct (map part_id (personas_of db r))"
proof -
  assume "participants_ok db"
  then have "distinct (map part_id (db_participants db))" by (simp add: participants_ok_def)
  then show ?thesis by (auto simp: personas_of_def room_participants_def distinct_map intro: inj_on_subset)
qed

lemma find_filter_nil:
  assumes "filter P xs = []" and "set ys = set xs"
  shows "find P ys = None"
  using assms by (simp add: filter_empty_conv find_None_iff)

lemma find_filter_one:
  assumes "filter P xs = [a]" and "set ys = set xs"
  shows "find P ys = Some a"
proof -
  have "{x \<in> set ys. P x} = {a}" using arg_cong [OF assms(1), of set] by (simp add: assms(2))
  then have a: "a \<in> set ys" "P a" and all: "\<And>x. x \<in> set ys \<Longrightarrow> P x \<Longrightarrow> x = a" by blast+
  from a have "find P ys \<noteq> None" by (simp only: find_None_iff) blast
  then obtain x where x: "find P ys = Some x" by blast
  then have "x \<in> set ys" "P x" by (auto simp: find_Some_iff)
  then have "x = a" by (rule all)
  with x show ?thesis by simp
qed

lemma decide_chooses:
  assumes d: "distinct (map part_id (personas_of db r))"
  shows "decide r state wants target db = (pick_speaker (personas_of db r) (last_speaker_id state) wants target, db)"
proof (cases target)
  case (Some i)
  show ?thesis
  proof (cases "find (\<lambda>p. part_id p = i) (personas_of db r)")
    case (Some p)
    then have "part_id p = i" by (auto simp: find_Some_iff)
    with Some \<open>target = Some i\<close> show ?thesis by (simp add: decide_def action_run returnA_def)
  qed (simp add: decide_def action_run \<open>target = Some i\<close>)
next
  case None
  let ?ps = "personas_of db r" and ?last = "last_speaker_id state"
  show ?thesis
  proof (cases "filter (\<lambda>p. \<not> part_muted p) ?ps")
    case Nil
    with find_filter_nil [OF Nil turns_same(1), of ?last] None show ?thesis
      by (auto simp: decide_def action_run returnA_def)
  next
    case (Cons a more)
    show ?thesis
    proof (cases more)
      case Nil
      with Cons find_filter_one [of "\<lambda>p. \<not> part_muted p" ?ps a "turns_after ?last ?ps"] None show ?thesis
        by (auto simp: decide_def action_run returnA_def)
    next
      case (Cons b rest)
      with \<open>filter _ ?ps = a # more\<close> have two: "filter (\<lambda>p. \<not> part_muted p) ?ps = a # b # rest" by simp
      then have "\<exists>x \<in> set (turns_after ?last ?ps). \<not> part_muted x" by (metis filter_False list.distinct(1) turns_same(1))
      then obtain p where "find (\<lambda>p. \<not> part_muted p) (turns_after ?last ?ps) = Some p"
        by (metis find_None_iff not_None_eq)
      with two None cooldown_irrelevant [OF d two] show ?thesis
        by (auto simp: decide_def action_run returnA_def in_turn_rotates)
    qed
  qed
qed

end
