(* ===== verification/Room_Recording.thy ===== *)
theory Room_Recording
  imports Room_Choice
begin

text \<open>
  A new message is always recorded: what \<open>#prepareMessage\<close> does for a valid message in the selected,
  active room, and why its command fits the table.
\<close>

section \<open>The command fits\<close>

lemma reason_short: "length (reason_name d) \<le> 20"
  by (cases d) simp_all

definition choice_short :: "director_decision \<Rightarrow> bool" where
  "choice_short d \<longleftrightarrow> (case speaker d of None \<Rightarrow> True | Some i \<Rightarrow> length i \<le> 128)"

lemma choice_bound: "choice_short d \<Longrightarrow> text_bound (choice_json d) \<le> 1000"
  using reason_short [of "reason d"] by (auto simp: choice_json_def str_or_null_def choice_short_def split: option.splits)

definition safe_number :: "nat \<Rightarrow> bool" where
  "safe_number n \<longleftrightarrow> int n \<le> max_safe_integer"

lemma safe_bound: "safe_number n \<Longrightarrow> text_bound (JInt (int n)) \<le> 16"
  using safe_text_bound by (simp add: safe_number_def)

lemma pending_fits:
  assumes "length (pm_requestId p) \<le> 256" and "length (pm_prompt p) \<le> MAX_MESSAGE_LENGTH" and "choice_short (pm_decision p)"
    and "safe_number (pm_human p)" and "safe_number (pm_director p)" and "safe_number (pm_generation p)"
    and "(case pm_providerDecision p of None \<Rightarrow> 0 | Some v \<Rightarrow> text_bound v) \<le> 24576"
  shows "text_bound (pending_json p) \<le> 131072"
  using assms choice_bound [OF assms(3)] safe_bound [OF assms(4)] safe_bound [OF assms(5)] safe_bound [OF assms(6)]
  by (auto simp: pending_json_def MAX_MESSAGE_LENGTH_def simp del: text_bound.simps(2) split: option.splits)

lemma result_fits:
  assumes "length (smr_requestId res) \<le> 256" and "choice_short (smr_decision res)"
    and "safe_number (smr_human res)" and "safe_number (smr_director res)" and "safe_number (smr_generation res)"
    and "case smr_persona res of None \<Rightarrow> True | Some n \<Rightarrow> safe_number n"
  shows "text_bound (completed (message_result_json res)) \<le> 131072"
proof -
  have "text_bound (nat_or_null (smr_persona res)) \<le> 16"
    using assms(6) safe_bound by (cases "smr_persona res") (simp_all add: nat_or_null_def del: number_string.simps)
  moreover have "text_bound (JStr (outcome_name (smr_outcome res))) \<le> 100" by (cases "smr_outcome res") simp_all
  ultimately show ?thesis
    using assms choice_bound [OF assms(2)] safe_bound [OF assms(3)] safe_bound [OF assms(4)] safe_bound [OF assms(5)]
    by (simp add: completed_def message_result_json_def)
qed

section \<open>What is recorded\<close>

text \<open>The answer to a new message whose human event has number \<open>h\<close> and whose decision is \<open>d\<close>.\<close>

definition recorded :: "message_command \<Rightarrow> room_row \<Rightarrow> nat \<Rightarrow> director_decision \<Rightarrow> prepared_message" where
  "recorded c room h d =
     (case speaker d of
        None \<Rightarrow> Answered \<lparr>smr_requestId = mc_requestId c, smr_human = h, smr_director = Suc h, smr_persona = None,
                     smr_decision = d, smr_outcome = Not_Scheduled, smr_generation = room_generation room\<rparr>
      | Some _ \<Rightarrow> Claimed \<lparr>pm_requestId = mc_requestId c, pm_human = h, pm_director = Suc h, pm_decision = d,
                   pm_generation = room_generation room, pm_prompt = mc_text c, pm_providerDecision = None\<rparr>)"

definition recorded_row :: "prepared_message \<Rightarrow> string \<Rightarrow> (string \<times> nat) \<Rightarrow> command_row \<Rightarrow> bool" where
  "recorded_row x digest cl row \<longleftrightarrow> request_digest row = digest \<and>
     (case x of
        Answered res \<Rightarrow> canonicalJson (completed (message_result_json res)) = Inr (result_json row) \<and> claim row = None
      | Claimed p \<Rightarrow> canonicalJson (pending_json p) = Inr (result_json row) \<and> claim row = Some cl
      | Observed n p \<Rightarrow> False)"

definition director_after :: "director_row \<Rightarrow> nat \<Rightarrow> director_decision \<Rightarrow> nat \<Rightarrow> director_row" where
  "director_after state h d g =
     (case speaker d of
        None \<Rightarrow> state\<lparr>scheduling_window_generation := g\<rparr>
      | Some i \<Rightarrow> \<lparr>last_speaker_id = Some i, last_human_event_sequence = Some h,
                   autonomous_turns = autonomous_turns state + 1, scheduling_window_generation = g\<rparr>)"

lemma append_succeeds:
  assumes "is_transaction db" and "log_ok db" and "find_room db r = Some room" and v: "json_ok v" "v = JObj fs"
  shows "\<exists>t db'. appendEventInTransaction r v db = (Inr (t, Suc (length (room_events db r))), db')"
proof -
  obtain t where t: "canonicalJson v = Inr t" "is_json_object t" using object_text [OF v(1) [unfolded v(2)]] v(2) by blast
  have "next_event_sequence room = Suc (length (room_events db r))" using log_ok_next assms(2,3) by blast
  moreover have "\<not> (\<exists>e \<in> set (db_events db). event_room e = r \<and> event_sequence e = Suc (length (room_events db r)))"
  proof
    assume "\<exists>e \<in> set (db_events db). event_room e = r \<and> event_sequence e = Suc (length (room_events db r))"
    then have "Suc (length (room_events db r)) \<in> set (map event_sequence (room_events db r))"
      unfolding room_events_def by force
    moreover have "map event_sequence (room_events db r) = [1..<Suc (length (room_events db r))]" using assms(2) by (simp add: log_ok_def)
    ultimately show False by (simp del: upt_Suc)
  qed
  ultimately show ?thesis
    unfolding appendEventInTransaction_ok using assms(1,3) t by simp
qed

lemma append_log:
  assumes "log_ok db" and "appendEventInTransaction r v db = (Inr ev, db')"
  shows "log_entries db' s = log_entries db s @ (if s = r then [(snd ev, Events.event_text v)] else [])"
proof -
  obtain t n where ev: "ev = (t, n)" by (cases ev)
  have "canonicalJson v = Inr t" using assms(2) unfolding ev appendEventInTransaction_ok by simp
  with appendEvent_log [OF assms(1) assms(2) [unfolded ev], of s] show ?thesis by (simp add: log_entries_def Events.event_text_def ev)
qed

lemma stored_fields:
  assumes "json_ok v" and "canonicalJson v = Inr t"
  shows "stored_state t = jget ''state'' (json_norm v)" and "stored_prompt t = jget ''prompt'' (json_norm v)"
proof -
  from canonicalJson_roundtrip [OF assms(1)] assms(2) have "json_parse t = Some (json_norm v)" by auto
  then show "stored_state t = jget ''state'' (json_norm v)" "stored_prompt t = jget ''prompt'' (json_norm v)"
    by (simp_all add: stored_state_def stored_prompt_def)
qed

lemma pending_row_fits:
  assumes ok: "pending_ok p" and t: "canonicalJson (pending_json p) = Inr t" and size: "text_bound (pending_json p) \<le> 131072"
    and prompt: "length (pm_prompt p) \<le> MAX_MESSAGE_LENGTH" and digest: "length digest = 64"
    and cl: "1 \<le> length (fst cl)" "length (fst cl) \<le> 128" "snd cl \<le> MAX_TIME"
  shows "command_row_ok \<lparr>request_digest = digest, result_json = t, claim = Some cl\<rparr>"
proof -
  note j = pending_json_ok [OF ok]
  have st: "stored (pending_json p)" using j by (simp add: stored_def)
  have "stored_state t = JStr ''pending''" "stored_prompt t = JStr (pm_prompt p)"
    unfolding stored_fields [OF j t] jget_norm [OF st] by (simp_all add: pending_json_def)
  moreover have "is_json_object t" using object_text [OF j [unfolded pending_json_def]] t by (simp add: pending_json_def)
  ultimately show ?thesis
    using canonicalJson_bound [OF t] size prompt digest cl by (cases cl) (simp add: command_row_ok_def)
qed

lemma complete_row_fits:
  assumes t: "canonicalJson (completed v) = Inr t" and ok: "json_ok v" and size: "text_bound (completed v) \<le> 131072"
    and digest: "length digest = 64"
  shows "command_row_ok \<lparr>request_digest = digest, result_json = t, claim = None\<rparr>"
proof -
  have j: "json_ok (completed v)" using ok by (simp add: completed_def)
  then have st: "stored (completed v)" by (simp add: stored_def)
  have "stored_state t = JStr ''complete''"
    unfolding stored_fields [OF j t] jget_norm [OF st] by (simp add: completed_def)
  moreover have "is_json_object t" using object_text [OF j [unfolded completed_def]] t by (simp add: completed_def)
  ultimately show ?thesis using canonicalJson_bound [OF t] size digest by (simp add: command_row_ok_def)
qed

section \<open>A new message\<close>

lemma find_in: "find P xs = Some x \<Longrightarrow> x \<in> set xs \<and> P x"
  by (auto simp: find_Some_iff)

lemma pick_member:
  assumes "pick_speaker ps last_speaker wants target = Inr d" and "speaker d = Some i"
  shows "\<exists>p \<in> set ps. part_id p = i \<and> \<not> part_muted p"
proof (cases target)
  case (Some j)
  with assms show ?thesis by (auto simp: decision_def split: option.splits if_splits dest!: find_in)
next
  case None
  with assms show ?thesis
    by (auto simp: decision_def split: option.splits if_splits dest!: find_in)
qed

lemma persona_in_room: "p \<in> set (personas_of db r) \<Longrightarrow> p \<in> set (db_participants db) \<and> part_room p = r \<and> part_kind p = Persona"
  by (auto simp: personas_of_def room_participants_def)

lemma personas_cong: "db_participants db' = db_participants db \<Longrightarrow> personas_of db' r = personas_of db r"
  by (simp add: personas_of_def room_participants_def)

lemma chosen_short:
  assumes "participants_ok db" and "pick_speaker (personas_of db r) last_speaker wants target = Inr d"
  shows "choice_short d"
proof (cases "speaker d")
  case (Some i)
  from pick_member [OF assms(2) Some] obtain p where "p \<in> set (personas_of db r)" "part_id p = i" by blast
  with assms(1) persona_in_room have "participant_valid p" by (auto simp: participants_ok_def)
  with \<open>part_id p = i\<close> Some show ?thesis by (simp add: choice_short_def participant_valid_def)
qed (simp add: choice_short_def)

lemma insert_recorded:
  assumes room: "find_room db (mc_roomId c) = Some room'" and fresh: "db_commands db (mc_roomId c, mc_requestId c) = None"
    and short: "choice_short d" "length (mc_requestId c) \<le> 256" "length (mc_text c) \<le> MAX_MESSAGE_LENGTH"
    and numbers: "safe_number h" "safe_number (Suc h)" "safe_number (room_generation room)"
    and digest: "length digest = 64" and cl: "1 \<le> length owner" "length owner \<le> 128" "until \<le> MAX_TIME"
  shows "\<exists>row. recorded_row (recorded c room h d) digest (owner, until) row \<and>
    (case recorded c room h d of
       Answered res \<Rightarrow> insertCommand (mc_roomId c) (mc_requestId c) digest (completed (message_result_json res)) None db
     | Claimed p \<Rightarrow> insertCommand (mc_roomId c) (mc_requestId c) digest (pending_json p) (Some (owner, until)) db
     | Observed n p \<Rightarrow> (Inr (), db)) =
    (Inr (), db\<lparr>db_commands := (db_commands db)((mc_roomId c, mc_requestId c) \<mapsto> row)\<rparr>)"
proof (cases "speaker d")
  case None
  define res where "res = \<lparr>smr_requestId = mc_requestId c, smr_human = h, smr_director = Suc h, smr_persona = None,
                     smr_decision = d, smr_outcome = Not_Scheduled, smr_generation = room_generation room\<rparr>"
  have rec: "recorded c room h d = Answered res" by (simp add: recorded_def None res_def)
  have ok: "json_ok (message_result_json res)" using inverts_ok [OF inverts_message] .
  then have "json_ok (completed (message_result_json res))" by (simp add: completed_def)
  then obtain t where t: "canonicalJson (completed (message_result_json res)) = Inr t" using canonicalJson_roundtrip by blast
  have size: "text_bound (completed (message_result_json res)) \<le> 131072"
    by (rule result_fits) (simp_all add: res_def short numbers)
  note row = complete_row_fits [OF t ok size digest]
  show ?thesis
    by (rule exI [of _ "\<lparr>request_digest = digest, result_json = t, claim = None\<rparr>"])
      (simp add: rec recorded_row_def t insertCommand_ok row fresh room)
next
  case (Some i)
  define p where "p = \<lparr>pm_requestId = mc_requestId c, pm_human = h, pm_director = Suc h, pm_decision = d,
                   pm_generation = room_generation room, pm_prompt = mc_text c, pm_providerDecision = None\<rparr>"
  have rec: "recorded c room h d = Claimed p" by (simp add: recorded_def Some p_def)
  have ok: "pending_ok p" by (simp add: p_def pending_ok_def)
  obtain t where t: "canonicalJson (pending_json p) = Inr t" using canonicalJson_roundtrip [OF pending_json_ok [OF ok]] by blast
  have size: "text_bound (pending_json p) \<le> 131072"
    by (rule pending_fits) (simp_all add: p_def short numbers)
  have row: "command_row_ok \<lparr>request_digest = digest, result_json = t, claim = Some (owner, until)\<rparr>"
    by (rule pending_row_fits [OF ok t size _ digest]) (use cl in \<open>simp_all add: p_def short\<close>)
  show ?thesis
    by (rule exI [of _ "\<lparr>request_digest = digest, result_json = t, claim = Some (owner, until)\<rparr>"])
      (simp add: rec recorded_row_def t insertCommand_ok row fresh room)
qed

lemma record_run:
  assumes app1: "appendEventInTransaction (mc_roomId c) (human_message_json human_id (mc_text c)) db = (Inr human, db1)"
    and dec: "decide (mc_roomId c) state (mc_wantsResponse c) (mc_target c) db1 = (Inr d, db1)"
    and app2: "appendEventInTransaction (mc_roomId c) (director_event_json (snd human) d) db1 = (Inr director, db2)"
    and next_number: "snd director = Suc (snd human)"
    and upd: "updateDirector (mc_roomId c) (snd human) d (room_generation room) db2 = (Inr (), db3)"
    and ins: "(case recorded c room (snd human) d of
       Answered res \<Rightarrow> insertCommand (mc_roomId c) (mc_requestId c) digest (completed (message_result_json res)) None db3
     | Claimed p \<Rightarrow> insertCommand (mc_roomId c) (mc_requestId c) digest (pending_json p) (Some (owner, n + lease)) db3
     | Observed n p \<Rightarrow> (Inr (), db3)) = (Inr (), db')"
  shows "recordMessage lease c digest owner n room state human_id db = (Inr (recorded c room (snd human) d), db')"
  using assms
  by (cases "speaker d") (simp_all add: recordMessage_def recorded_def bindA_def returnA_def Let_def)

lemma normalized:
  assumes "normalizeMessage cmd = Inr c"
  shows "js_canonical (mc_roomId c)" and "length (mc_requestId c) \<le> 256" and "length (mc_text c) \<le> MAX_MESSAGE_LENGTH"
    and "safe_number (mc_selectionRevision c)"
  using assms jsafe_nonneg_bound
  by (auto simp: normalizeMessage_def canonicalIdentifier_def messageText_def canonicalSelectionRevision_def js_canonical_def
      MAX_IDENTIFIER_LENGTH_def safe_number_def split: if_splits option.splits)

lemma plain_objects:
  "\<exists>fs. human_message_json i t = JObj fs" "\<exists>fs. director_event_json n d = JObj fs" "\<exists>fs. persona_message_json i n t = JObj fs"
  by (simp_all add: human_message_json_def director_event_json_def persona_message_json_def)

lemma record_new_message:
  assumes open_db: "is_transaction db" and log: "log_ok db" and cast: "participants_ok db"
    and valid: "normalizeMessage cmd = Inr c"
    and fresh: "db_commands db (mc_roomId c, mc_requestId c) = None"
    and room: "find_room db (mc_roomId c) = Some room"
    and state: "db_director db (mc_roomId c) = Some state"
    and numbers: "safe_number (length (log_entries db (mc_roomId c)) + 2)" "safe_number (room_generation room)"
    and pick: "pick_speaker (personas_of db (mc_roomId c)) (last_speaker_id state) (mc_wantsResponse c) (mc_target c) = Inr d"
    and digest: "length digest = 64" and cl: "1 \<le> length owner" "length owner \<le> 128" "n + lease \<le> MAX_TIME"
    and h: "h = Suc (length (log_entries db (mc_roomId c)))"
  shows "\<exists>db' row. recordMessage lease c digest owner n room state human_id db = (Inr (recorded c room h d), db') \<and>
    recorded_row (recorded c room h d) digest (owner, n + lease) row \<and>
    db_commands db' = (db_commands db)((mc_roomId c, mc_requestId c) \<mapsto> row) \<and>
    db_director db' = (db_director db)(mc_roomId c \<mapsto> director_after state h d (room_generation room)) \<and>
    log_entries db' = (log_entries db)(mc_roomId c := log_entries db (mc_roomId c) @
      [(h, Events.event_text (human_message_json human_id (mc_text c))), (Suc h, Events.event_text (director_event_json h d))]) \<and>
    db_participants db' = db_participants db \<and> current_room db' = current_room db \<and> phase_of db' = phase_of db \<and>
    db_bindings db' = db_bindings db"
proof -
  let ?r = "mc_roomId c"
  have len: "length (log_entries db ?r) = length (room_events db ?r)" by (simp add: log_entries_def)
  obtain fs1 where fs1: "human_message_json human_id (mc_text c) = JObj fs1" using plain_objects(1) by blast
  from append_succeeds [OF open_db log room message_plain(1) fs1] obtain t1 db1
    where app1: "appendEventInTransaction ?r (human_message_json human_id (mc_text c)) db = (Inr (t1, h), db1)"
    by (auto simp: h len)
  note k1 = append_keeps [OF app1] and r1 = append_rooms [OF app1]
  have log1: "log_ok db1" using k1(1) log by blast
  have dec: "decide ?r state (mc_wantsResponse c) (mc_target c) db1 = (Inr d, db1)"
    using decide_chooses [OF personas_distinct [OF cast], of ?r state "mc_wantsResponse c" "mc_target c"]
    by (simp add: pick decide_chooses personas_cong [OF k1(6)] personas_distinct [OF cast])
  have open1: "is_transaction db1" using r1(5) open_db by simp
  obtain room1 where room1: "find_room db1 ?r = Some room1" using r1(3) [of ?r] room by simp
  obtain fs2 where fs2: "director_event_json h d = JObj fs2" using plain_objects(2) by blast
  have "log_entries db1 ?r = log_entries db ?r @ [(h, Events.event_text (human_message_json human_id (mc_text c)))]"
    using append_log [OF log app1, of ?r] by simp
  then have len1: "length (room_events db1 ?r) = h" using h by (metis length_append_singleton length_map log_entries_def)
  from append_succeeds [OF open1 log1 room1 message_plain(3) fs2] obtain t2 db2
    where app2: "appendEventInTransaction ?r (director_event_json h d) db1 = (Inr (t2, Suc h), db2)"
    by (auto simp: len1)
  note k2 = append_keeps [OF app2] and r2 = append_rooms [OF app2]
  define db3 where "db3 = snd (updateDirector ?r h d (room_generation room) db2)"
  have upd: "updateDirector ?r h d (room_generation room) db2 = (Inr (), db3)"
    by (simp add: db3_def updateDirector_def) (simp add: updateA_def)
  have db3: "db3 = db2\<lparr>db_director := (db_director db)(?r \<mapsto> director_after state h d (room_generation room))\<rparr>"
    using upd state k1(7) k2(7)
    by (cases "speaker d"; cases state) (auto simp: updateDirector_def director_after_def)
  obtain room2 where room2: "find_room db3 ?r = Some room2" using r2(3) [of ?r] room1 by (simp add: db3 find_room_def)
  have fresh3: "db_commands db3 (?r, mc_requestId c) = None" using fresh k1(5) k2(5) by (simp add: db3)
  have nums: "safe_number h" "safe_number (Suc h)" using numbers(1) by (simp_all add: safe_number_def h)
  from insert_recorded [OF room2 fresh3 chosen_short [OF cast pick] normalized(2,3) [OF valid] nums numbers(2) digest cl]
  obtain row where row: "recorded_row (recorded c room h d) digest (owner, n + lease) row" and
    ins: "(case recorded c room h d of
       Answered res \<Rightarrow> insertCommand ?r (mc_requestId c) digest (completed (message_result_json res)) None db3
     | Claimed p \<Rightarrow> insertCommand ?r (mc_requestId c) digest (pending_json p) (Some (owner, n + lease)) db3
     | Observed n p \<Rightarrow> (Inr (), db3)) =
    (Inr (), db3\<lparr>db_commands := (db_commands db3)((?r, mc_requestId c) \<mapsto> row)\<rparr>)" by blast
  let ?db' = "db3\<lparr>db_commands := (db_commands db3)((?r, mc_requestId c) \<mapsto> row)\<rparr>"
  have "recordMessage lease c digest owner n room state human_id db = (Inr (recorded c room h d), ?db')"
    using record_run [OF app1 dec, of "(t2, Suc h)" db2 room db3 digest owner n lease ?db'] app2 upd ins by simp
  moreover have "log_entries ?db' = (log_entries db)(?r := log_entries db ?r @
      [(h, Events.event_text (human_message_json human_id (mc_text c))), (Suc h, Events.event_text (director_event_json h d))])"
  proof
    fix s
    have "log_entries ?db' s = log_entries db2 s" by (simp add: db3 log_entries_def)
    then show "log_entries ?db' s = ((log_entries db)(?r := log_entries db ?r @
      [(h, Events.event_text (human_message_json human_id (mc_text c))), (Suc h, Events.event_text (director_event_json h d))])) s"
      using append_log [OF log app1, of s] append_log [OF log1 app2, of s] by simp
  qed
  moreover have "db_commands ?db' = (db_commands db)((?r, mc_requestId c) \<mapsto> row)" "db_participants ?db' = db_participants db"
    "current_room ?db' = current_room db" "phase_of ?db' = phase_of db"
    "db_director ?db' = (db_director db)(?r \<mapsto> director_after state h d (room_generation room))"
    using k1 k2 by (simp_all add: db3)
  moreover have "db_bindings ?db' = db_bindings db"
    using app1 app2 unfolding appendEventInTransaction_ok by (auto simp: db3)
  ultimately show ?thesis using row by blast
qed

end
