(* ===== verification/Room_Finishing.thy ===== *)
theory Room_Finishing
  imports Room_Recording
begin

text \<open>
  Completing a message: what is published, that it always succeeds for the worker that holds the
  claim, and that a message whose claim has lapsed is taken over.
\<close>

section \<open>What is published\<close>

text \<open>The persona message, numbered \<open>n\<close>, and the outcome.\<close>

fun outcome_of :: "bool \<Rightarrow> provider_result option \<Rightarrow> nat \<Rightarrow> nat option \<times> message_outcome" where
  "outcome_of False (Some Provider_Silence) n = (None, Silence_Outcome)"
| "outcome_of False (Some (Provider_Text t)) n = (Some n, Text_Outcome)"
| "outcome_of _ _ n = (None, Stale_Outcome)"

fun answer_entries :: "bool \<Rightarrow> provider_result option \<Rightarrow> string \<Rightarrow> pending_message \<Rightarrow> nat \<Rightarrow> (nat \<times> string) list" where
  "answer_entries False (Some (Provider_Text t)) i p n = [(n, Events.event_text (persona_message_json i (pm_human p) t))]"
| "answer_entries _ _ i p n = []"

definition finished_result :: "string \<Rightarrow> pending_message \<Rightarrow> nat option \<times> message_outcome \<Rightarrow> send_message_result" where
  "finished_result q p pub =
     \<lparr>smr_requestId = q, smr_human = pm_human p, smr_director = pm_director p, smr_persona = fst pub,
      smr_decision = pm_decision p, smr_outcome = snd pub, smr_generation = pm_generation p\<rparr>"

lemma bind_run: "m db = (Inr x, db1) \<Longrightarrow> bindA m f db = f x db1"
  by (simp add: bindA_def)

lemma publish_log:
  assumes log: "log_ok db" and run: "publishAnswer r i p stale res db = (Inr pub, db')"
  shows "pub = outcome_of stale res (Suc (length (log_entries db r))) \<and>
    log_entries db' = (log_entries db)(r := log_entries db r @ answer_entries stale res i p (Suc (length (log_entries db r))))"
proof (cases "\<exists>t. \<not> stale \<and> res = Some (Provider_Text t)")
  case True
  then obtain t where live: "stale = False" "res = Some (Provider_Text t)" by blast
  with run obtain ev where app: "appendEventInTransaction r (persona_message_json i (pm_human p) t) db = (Inr ev, db')"
    and pub: "pub = (Some (snd ev), Text_Outcome)"
    by (auto simp: publishAnswer_def)
  have "snd ev = Suc (length (log_entries db r))" using append_keeps(1) [OF app log] by (simp add: log_entries_def)
  with append_log [OF log app] show ?thesis by (auto simp: pub live fun_eq_iff)
next
  case False
  with run have "db' = db" "pub = outcome_of stale res n" "answer_entries stale res i p n = []" for n
    by (cases stale; cases res rule: option.exhaust [case_product provider_result.exhaust];
        auto simp: publishAnswer_def split: option.splits provider_result.splits)+
  then show ?thesis by simp
qed

lemma publish_succeeds:
  assumes "is_transaction db" and "log_ok db" and "find_room db r = Some room"
  shows "\<exists>pub db'. publishAnswer r i p stale res db = (Inr pub, db')"
proof -
  have "\<exists>ev db'. appendEventInTransaction r (persona_message_json i (pm_human p) t) db = (Inr ev, db')" for t
    using append_succeeds [OF assms message_plain(5)] plain_objects(3) by metis
  moreover have "stale \<or> res = None \<or> res = Some Provider_Silence \<or> (\<exists>t. \<not> stale \<and> res = Some (Provider_Text t))"
    by (metis option.exhaust provider_result.exhaust)
  ultimately show ?thesis
    by (auto simp: publishAnswer_def bind_run returnA_def split: bool.splits option.splits provider_result.splits)
      (metis bind_run)
qed

section \<open>The owner of the claim completes\<close>

definition result_sizes :: "string \<Rightarrow> pending_message \<Rightarrow> bool" where
  "result_sizes q p \<longleftrightarrow> length q \<le> 256 \<and> choice_short (pm_decision p) \<and> safe_number (pm_human p) \<and>
     safe_number (pm_director p) \<and> safe_number (pm_generation p)"

text \<open>The answer of the provider came with no decision to record, or is not published.\<close>

definition stale_now :: "db \<Rightarrow> string \<Rightarrow> pending_message \<Rightarrow> generated_message \<Rightarrow> string \<Rightarrow> bool" where
  "stale_now db r p g i \<longleftrightarrow> isStale db r (pm_generation p) i \<or>
     (case gm_providerDecision g of None \<Rightarrow> False | Some s \<Rightarrow> \<not> isProviderDecisionCurrent s db)"

lemma finish_unfold:
  "finishMessage r q p g owner =
     bindA (someA (speaker (pm_decision p)) (PlainError ''Stored pending command has no speaker'')) (\<lambda>i.
     bindA (queryA (\<lambda>db. stale_now db r p g i)) (\<lambda>stale.
     bindA (publishAnswer r i p stale (gm_providerResult g)) (\<lambda>published.
     bindA (recordDecision r q stale g) (\<lambda>_.
     bindA (liftA (canonicalJson (completed (message_result_json (finished_result q p published))))) (\<lambda>t.
     bindA (updateCommand r q (owned_by owner) (\<lambda>row. row\<lparr>result_json := t, claim := None\<rparr>)) (\<lambda>_.
       returnA (finished_result q p published)))))))"
  by (simp add: finishMessage_def stale_now_def finished_result_def Let_def)

lemma finish_run:
  assumes log: "log_ok db" and prov: "provider_ok db" and row: "db_commands db (r, q) = Some row" "owned_by owner row"
    and run: "finishMessage r q p g owner db = (Inr res, db')"
  shows "\<exists>i. speaker (pm_decision p) = Some i \<and>
    res = finished_result q p (outcome_of (stale_now db r p g i) (gm_providerResult g) (Suc (length (log_entries db r)))) \<and>
    log_entries db' = (log_entries db)(r := log_entries db r @
      answer_entries (stale_now db r p g i) (gm_providerResult g) i p (Suc (length (log_entries db r))))"
proof -
  from run obtain i pub db1 db2 t n where i: "speaker (pm_decision p) = Some i" and
    pub: "publishAnswer r i p (stale_now db r p g i) (gm_providerResult g) db = (Inr pub, db1)" and
    rec: "recordDecision r q (stale_now db r p g i) g db1 = (Inr (), db2)" and
    res: "res = finished_result q p pub" and
    upd: "updateCommand r q (owned_by owner) (\<lambda>row. row\<lparr>result_json := t, claim := None\<rparr>) db2 = (Inr n, db')"
    by (auto simp: finish_unfold)
  have prov1: "provider_ok db1" by (rule publish_ok [OF log pub]) (use prov in simp)
  from recordDecision_ok [OF prov1 rec] obtain sn where "db2 = db1\<lparr>db_snapshots := sn\<rparr>" by blast
  then have "room_events db' = room_events db1" using upd by (auto simp: updateCommand_ok split: option.splits if_splits)
  then have "log_entries db' = log_entries db1" by (simp add: fun_eq_iff log_entries_def)
  with publish_log [OF log pub] i res show ?thesis by simp
qed

lemma finish_succeeds:
  assumes open_db: "is_transaction db" and log: "log_ok db" and room: "find_room db r = Some room"
    and row: "db_commands db (r, q) = Some row" "owned_by owner row" "length (request_digest row) = 64"
    and i: "speaker (pm_decision p) = Some i" and sizes: "result_sizes q p" "safe_number (Suc (length (log_entries db r)))"
    and plain: "gm_providerDecision g = None \<or> gm_providerResult g = None"
  shows "\<exists>db'. finishMessage r q p g owner db =
    (Inr (finished_result q p (outcome_of (stale_now db r p g i) (gm_providerResult g) (Suc (length (log_entries db r))))), db')"
proof -
  obtain pub db1 where pub: "publishAnswer r i p (stale_now db r p g i) (gm_providerResult g) db = (Inr pub, db1)"
    using publish_succeeds [OF open_db log room] by blast
  note p = publish_log [OF log pub]
  have rec: "recordDecision r q (stale_now db r p g i) g db1 = (Inr (), db1)"
    using plain by (auto simp: recordDecision_def returnA_def split: bool.splits option.splits)
  let ?res = "finished_result q p pub"
  have ok: "json_ok (message_result_json ?res)" using inverts_ok [OF inverts_message] .
  then have "json_ok (completed (message_result_json ?res))" by (simp add: completed_def)
  then obtain t where t: "canonicalJson (completed (message_result_json ?res)) = Inr t" using canonicalJson_roundtrip by blast
  have "fst (outcome_of st v n) = Some m \<Longrightarrow> m = n" for st v n m by (cases "(st, v, n)" rule: outcome_of.cases) auto
  then have "text_bound (completed (message_result_json ?res)) \<le> 131072"
    using sizes p by (intro result_fits) (auto simp: finished_result_def result_sizes_def split: option.splits)
  from complete_row_fits [OF t ok this row(3)] have fits: "command_row_ok (row\<lparr>result_json := t, claim := None\<rparr>)"
    by (cases row) simp
  have row1: "db_commands db1 (r, q) = Some row" by (rule publish_ok [OF log pub]) (use row in simp)
  have "updateCommand r q (owned_by owner) (\<lambda>row. row\<lparr>result_json := t, claim := None\<rparr>) db1 =
      (Inr 1, db1\<lparr>db_commands := (db_commands db1)((r, q) \<mapsto> row\<lparr>result_json := t, claim := None\<rparr>)\<rparr>)"
    by (simp add: updateCommand_ok row1 row(2) fits)
  from p show ?thesis
    using pub rec t \<open>updateCommand r q _ _ db1 = _\<close> by (simp add: finish_unfold action_run i bind_run returnA_def)
qed

section \<open>Reads inside a transaction\<close>

text \<open>An action that does the same inside and outside a transaction.\<close>

definition blind :: "'a action \<Rightarrow> bool" where
  "blind m \<longleftrightarrow> (\<forall>db b. m (db\<lparr>is_transaction := b\<rparr>) = apsnd (\<lambda>d. d\<lparr>is_transaction := b\<rparr>) (m db))"

named_theorems blind_intros \<open>actions that do the same inside and outside a transaction\<close>

lemma blind_basic [blind_intros]:
  "blind (returnA x)" "blind (failA e)" "blind (liftA v)" "blind (requireA c e)" "blind (someA y e)"
  by (auto simp: blind_def returnA_def failA_def liftA_def requireA_def someA_def split: option.splits)

lemma blind_query [blind_intros]: "(\<And>db b. f (db\<lparr>is_transaction := b\<rparr>) = f db) \<Longrightarrow> blind (queryA f)"
  by (simp add: blind_def queryA_def)

lemma blind_bind [blind_intros]:
  assumes "blind m" and "\<And>x. blind (f x)"
  shows "blind (bindA m f)"
  unfolding blind_def
proof (intro allI)
  fix db b
  show "bindA m f (db\<lparr>is_transaction := b\<rparr>) = apsnd (\<lambda>d. d\<lparr>is_transaction := b\<rparr>) (bindA m f db)"
    using assms by (cases "m db") (auto simp: blind_def bindA_def split: sum.splits)
qed

lemma blind_reads [blind_intros]:
  "blind (readConnectionProfile i n)" "blind (readCurrentConnectionProfile i)"
  "blind (readModelProfile i n)" "blind (readCurrentModelProfile i)" "blind (readEffectiveRoomBinding r purpose)"
  "blind (readLatestConnectionObservation ref)"
  unfolding provider_reads
  by (intro blind_intros; simp add: exact_connection_def exact_model_def effective_row_def)+

lemma blind_resolve: "blind (resolveRoomProviderDecision r purpose)"
  unfolding resolveRoomProviderDecision_def by (intro blind_intros)

lemma stale_now_frame: "stale_now (db\<lparr>is_transaction := b\<rparr>) r p g i = stale_now db r p g i"
proof -
  have "isProviderDecisionCurrent s (db\<lparr>is_transaction := b\<rparr>) = isProviderDecisionCurrent s db" for s
    using blind_resolve by (simp add: isProviderDecisionCurrent_def isResolvedRoomProviderDecisionCurrent_def blind_def)
  then show ?thesis by (cases "gm_providerDecision g") (simp_all add: stale_now_def isStale_def find_room_def)
qed

section \<open>The transaction around it\<close>

definition stores_pending :: "command_row \<Rightarrow> pending_message \<Rightarrow> bool" where
  "stores_pending row p \<longleftrightarrow> parseStored read_message_result (result_json row) = Inr (Pending_Command p)"

lemma stores_message: "db_commands db k = Some row \<Longrightarrow> stores_pending row p \<Longrightarrow> message_at db k = Some (Pending_Command p)"
  by (simp add: message_at_def stored_message_def stores_pending_def)

lemma complete_unfold:
  assumes "db_commands db (r, q) = Some row" and "stores_pending row p'" and "claim row = Some (owner, expires)"
  shows "completeMessage r q p g owner now db =
    withImmediateTransaction (\<lambda>db'. case currentTime now of
        Inl e \<Rightarrow> (Inl e, db')
      | Inr n \<Rightarrow> if expires \<le> n then (Inr None, db')
                 else bindA (finishMessage r q p g owner) (\<lambda>res. returnA (Some res)) db') db"
proof -
  have "db_commands (db\<lparr>is_transaction := b\<rparr>) (r, q) = Some row" for b using assms(1) by simp
  then show ?thesis
    using assms
    by (simp add: completeMessage_def withImmediateTransaction_def findCommand_def action_run stores_pending_def returnA_def
        split: sum.splits)
qed

lemma complete_run:
  assumes idle: "\<not> is_transaction db" and ok: "log_ok db" "provider_ok db"
    and row: "db_commands db (r, q) = Some row" "stores_pending row p'" "claim row = Some (owner, expires)"
    and run: "completeMessage r q p g owner now db = (Inr (Some res), db')"
  shows "\<exists>i. speaker (pm_decision p) = Some i \<and>
    res = finished_result q p (outcome_of (stale_now db r p g i) (gm_providerResult g) (Suc (length (log_entries db r)))) \<and>
    log_entries db' = (log_entries db)(r := log_entries db r @
      answer_entries (stale_now db r p g i) (gm_providerResult g) i p (Suc (length (log_entries db r))))"
proof -
  from run [unfolded complete_unfold [OF row] transaction_ok [OF idle]] obtain db1 where
    fin: "finishMessage r q p g owner (db\<lparr>is_transaction := True\<rparr>) = (Inr res, db1)" and db': "db' = db1\<lparr>is_transaction := False\<rparr>"
    by (auto split: sum.splits if_splits)
  have logs: "log_entries (d\<lparr>is_transaction := b\<rparr>) = log_entries d" for d b by (simp add: fun_eq_iff log_entries_def)
  have own: "owned_by owner row" using row(3) by (simp add: owned_by_def)
  show ?thesis using finish_run [OF _ _ _ own fin] ok row(1) by (simp add: stale_now_frame logs db')
qed

lemma complete_succeeds:
  assumes idle: "\<not> is_transaction db" and log: "log_ok db" and room: "find_room db r = Some room"
    and row: "db_commands db (r, q) = Some row" "stores_pending row p'" "claim row = Some (owner, expires)"
      "length (request_digest row) = 64"
    and now: "currentTime now = Inr n" "n < expires"
    and i: "speaker (pm_decision p) = Some i" and sizes: "result_sizes q p" "safe_number (Suc (length (log_entries db r)))"
    and plain: "gm_providerDecision g = None \<or> gm_providerResult g = None"
  shows "\<exists>db'. completeMessage r q p g owner now db =
    (Inr (Some (finished_result q p (outcome_of (stale_now db r p g i) (gm_providerResult g) (Suc (length (log_entries db r)))))), db')"
proof -
  let ?db = "db\<lparr>is_transaction := True\<rparr>"
  have frame: "log_entries ?db = log_entries db" "find_room ?db r = Some room" "db_commands ?db (r, q) = Some row"
    using room row(1) by (simp_all add: fun_eq_iff log_entries_def find_room_def)
  have own: "owned_by owner row" using row(3) by (simp add: owned_by_def)
  from finish_succeeds [OF _ _ frame(2,3) own row(4) i sizes(1) _ plain] log sizes(2) obtain db1 where
    "finishMessage r q p g owner ?db =
      (Inr (finished_result q p (outcome_of (stale_now db r p g i) (gm_providerResult g) (Suc (length (log_entries db r))))), db1)"
    by (auto simp: frame(1) stale_now_frame)
  then show ?thesis
    unfolding complete_unfold [OF row(1-3)] transaction_ok [OF idle] using now by (simp add: bind_run returnA_def)
qed

section \<open>Taking over\<close>

definition lapsed :: "command_row \<Rightarrow> nat \<Rightarrow> bool" where
  "lapsed row n \<longleftrightarrow> (case claim row of None \<Rightarrow> True | Some (own, expires) \<Rightarrow> expires \<le> n)"

lemma pending_state:
  assumes "stores_pending row p"
  shows "row_pending row"
proof -
  from assms obtain v where v: "json_parse (result_json row) = Some v" "jget ''state'' v = JStr ''pending''"
    by (auto simp: stores_pending_def parseStored_def split: option.splits if_splits)
  then show ?thesis by (simp add: row_pending_def stored_state_def)
qed

lemma take_over:
  assumes idle: "\<not> is_transaction db" and selected: "current_room db = Some (mc_roomId c, mc_selectionRevision c)"
    and valid: "js_canonical (mc_roomId c)" "length (mc_roomId c) \<le> 128" "safe_number (mc_selectionRevision c)"
    and now: "currentTime now = Inr n" "n + lease \<le> MAX_TIME"
    and row: "db_commands db (mc_roomId c, mc_requestId c) = Some row" "stores_pending row p" "command_row_ok row"
      "request_digest row = digest" "lapsed row n"
    and owner: "1 \<le> length owner" "length owner \<le> 128"
  shows "prepareMessage lease c digest owner now db =
    (Inr (Claimed p), db\<lparr>db_commands := (db_commands db)((mc_roomId c, mc_requestId c) \<mapsto> row\<lparr>claim := Some (owner, n + lease)\<rparr>)\<rparr>)"
proof -
  let ?db = "db\<lparr>is_transaction := True\<rparr>" and ?k = "(mc_roomId c, mc_requestId c)"
  let ?row = "row\<lparr>claim := Some (owner, n + lease)\<rparr>"
  have fits: "command_row_ok ?row"
    using row(3) pending_state [OF row(2)] owner now(2) by (auto simp: command_row_ok_def row_pending_def split: option.splits)
  have upd: "updateCommand (mc_roomId c) (mc_requestId c) (\<lambda>_. True) (\<lambda>row. row\<lparr>claim := Some (owner, n + lease)\<rparr>) ?db =
      (Inr 1, ?db\<lparr>db_commands := (db_commands db)(?k \<mapsto> ?row)\<rparr>)"
    using row(1) fits by (simp add: updateCommand_ok)
  have res: "resumeMessage lease c digest owner n row ?db = (Inr (Claimed p), ?db\<lparr>db_commands := (db_commands db)(?k \<mapsto> ?row)\<rparr>)"
    using row(2,4,5) upd
    by (cases "claim row") (auto simp: resumeMessage_def assertMatchingDigest_def action_run stores_pending_def lapsed_def bind_run returnA_def)
  have sel: "requireRoomSelection (mc_roomId c) (JInt (int (mc_selectionRevision c))) ?db = (Inr (), ?db)"
    using selected valid by (simp add: safe_number_def)
  have "prepareInTransaction lease c digest owner now ?db = (Inr (Claimed p), ?db\<lparr>db_commands := (db_commands db)(?k \<mapsto> ?row)\<rparr>)"
    using row(1) now(1) res sel by (simp add: prepareInTransaction_def bind_run findCommand_def action_run del: requireRoomSelection_ok)
  then show ?thesis unfolding prepareMessage_def transaction_ok [OF idle] using idle by (cases db) auto
qed

end
