(* ===== verification/Room_Control.thy ===== *)
theory Room_Control
  imports Room_Finishing
begin

text \<open>
  The control commands of a room: what each does, that a request is carried out once and answered
  alike when it is sent again (an interpretation of \<open>idempotent_command\<close>), and that pausing,
  stopping and muting move the room past the generation of every message it has.
\<close>

section \<open>What a control command does\<close>

definition released_claims :: "string \<Rightarrow> db \<Rightarrow> db" where
  "released_claims r db = snd (releaseRoomClaims r db)"

lemma released_claims: "releaseRoomClaims r db = (Inr (), released_claims r db)"
  by (simp add: released_claims_def releaseRoomClaims_def updateA_def)

definition room_changed :: "string \<Rightarrow> (room_row \<Rightarrow> room_row) \<Rightarrow> db \<Rightarrow> db" where
  "room_changed r f db = db\<lparr>db_rooms := update_where (\<lambda>row. room_id row = r) f (db_rooms db)\<rparr>"

lemma updateRoom_run: "updateRoom r f db = (Inr (), room_changed r f db)"
  by (simp add: updateRoom_def room_changed_def updateA_def)

definition person_muted :: "string \<Rightarrow> string \<Rightarrow> bool \<Rightarrow> db \<Rightarrow> db" where
  "person_muted r i b db = db\<lparr>db_participants := update_where (\<lambda>p. part_room p = r \<and> part_id p = i)
     (\<lambda>p. p\<lparr>part_muted := b\<rparr>) (db_participants db)\<rparr>"

lemma updateMuted_run: "updateMuted r i b db = (Inr (), person_muted r i b db)"
  by (simp add: updateMuted_def person_muted_def updateA_def)

lemma released_views [simp]:
  "find_room (released_claims r db) s = find_room db s" "room_events (released_claims r db) = room_events db"
  "db_participants (released_claims r db) = db_participants db" "current_room (released_claims r db) = current_room db"
  "is_transaction (released_claims r db) = is_transaction db"
  "phase_of (released_claims r db) = phase_of db"
  by (auto simp: released_claims_def releaseRoomClaims_def updateA_def find_room_def room_events_def phase_of_def fun_eq_iff)

lemma released_message_at [simp]: "message_at (released_claims r db) = message_at db"
  by (auto simp: released_claims_def releaseRoomClaims_def updateA_def fun_eq_iff message_at_def split: option.splits)

lemma released_none [simp]: "db_commands (released_claims r db) k = None \<longleftrightarrow> db_commands db k = None"
  by (auto simp: released_claims_def releaseRoomClaims_def updateA_def)

lemma released_row:
  "db_commands (released_claims r db) k = Some row \<Longrightarrow>
   \<exists>row0. db_commands db k = Some row0 \<and> request_digest row0 = request_digest row \<and> result_json row0 = result_json row \<and>
     (fst k = r \<and> row_pending row \<longrightarrow> claim row = None)"
proof -
  assume "db_commands (released_claims r db) k = Some row"
  moreover have "db_commands (released_claims r db) k =
      (if fst k = r then map_option (\<lambda>row. if claim row \<noteq> None \<and> row_pending row then row\<lparr>claim := None\<rparr> else row) (db_commands db k)
       else db_commands db k)"
    by (simp add: released_claims_def releaseRoomClaims_def updateA_def)
  ultimately obtain row0 where row0: "db_commands db k = Some row0" and
    row: "row = (if fst k = r \<and> claim row0 \<noteq> None \<and> row_pending row0 then row0\<lparr>claim := None\<rparr> else row0)"
    by (cases "db_commands db k"; cases "fst k = r") simp_all
  then show ?thesis by (cases "claim row0") (auto simp: row_pending_def)
qed

lemma changed_views [simp]:
  "room_events (room_changed r f db) = room_events db" "message_at (room_changed r f db) = message_at db"
  "db_commands (room_changed r f db) = db_commands db" "current_room (room_changed r f db) = current_room db"
  "db_participants (room_changed r f db) = db_participants db"
  "room_events (person_muted r i b db) = room_events db" "message_at (person_muted r i b db) = message_at db"
  "db_commands (person_muted r i b db) = db_commands db" "current_room (person_muted r i b db) = current_room db"
  "find_room (person_muted r i b db) s = find_room db s" "phase_of (person_muted r i b db) = phase_of db"
  by (auto simp: room_changed_def person_muted_def find_room_def)

lemma changed_room:
  "(\<And>row. room_id (f row) = room_id row) \<Longrightarrow>
   find_room (room_changed r f db) s = map_option (\<lambda>row. if s = r then f row else row) (find_room db s)"
  unfolding room_changed_def by (rule find_room_update)

text \<open>The database after pausing, resuming or stopping, before the command is recorded.\<close>

definition control_update :: "room_control \<Rightarrow> room_row \<Rightarrow> room_row \<Rightarrow> room_row" where
  "control_update kind room row =
     row\<lparr>room_status := target_status kind, room_generation := room_generation row + (if control_fences kind room then 1 else 0)\<rparr>"

definition controlled :: "room_control \<Rightarrow> room_row \<Rightarrow> string \<Rightarrow> db \<Rightarrow> db" where
  "controlled kind room r db =
     (if room_status room = target_status kind then db
      else (if control_fences kind room then released_claims r (room_changed r (control_update kind room) db)
            else room_changed r (control_update kind room) db))"

definition control_result :: "room_control \<Rightarrow> room_row \<Rightarrow> string \<Rightarrow> room_control_result" where
  "control_result kind room q =
     \<lparr>rcr_kind = kind, rcr_requestId = q, rcr_status = target_status kind,
      rcr_generation = room_generation room + (if control_fences kind room then 1 else 0),
      rcr_changed = (room_status room \<noteq> target_status kind)\<rparr>"

lemma controlled_room:
  assumes "find_room db r = Some room"
  shows "find_room (controlled kind room r db) r =
    Some (if room_status room = target_status kind then room else control_update kind room room)"
  using assms by (auto simp: controlled_def changed_room control_update_def)

lemma changeStatus_run: "changeStatus kind r room db = (Inr (), controlled kind room r db)"
proof -
  have "(\<lambda>row :: room_row. row\<lparr>room_status := target_status kind,
      room_generation := room_generation row + (if control_fences kind room then 1 else 0)\<rparr>) = control_update kind room"
    by (rule ext) (simp add: control_update_def)
  then show ?thesis
    by (simp add: changeStatus_def controlled_def bind_run updateRoom_run released_claims returnA_def del: One_nat_def)
qed

lemma controlRoom_ok:
  "controlRoom kind r q d db = (Inr (aborts, res), db') \<longleftrightarrow>
     (\<exists>room. find_room db r = Some room \<and> \<not> (kind \<in> {Resume, Pause} \<and> room_status room = Stopped) \<and>
        aborts = control_fences kind room \<and> res = control_result kind room q \<and>
        insertCommand r q d (completed (control_result_json res)) None (controlled kind room r db) = (Inr (), db'))"
proof (cases "find_room db r")
  case None
  then show ?thesis by (auto simp: controlRoom_def)
next
  case (Some room)
  obtain u where u: "find_room (controlled kind room r db) r = Some u" using controlled_room [OF Some] by blast
  have "\<lparr>rcr_kind = kind, rcr_requestId = q, rcr_status = room_status u, rcr_generation = room_generation u,
        rcr_changed = (room_status room \<noteq> target_status kind)\<rparr> = control_result kind room q"
    using u controlled_room [OF Some, of kind]
    by (auto simp: control_result_def control_update_def control_fences_def split: if_splits)
  then show ?thesis
    using Some u by (auto simp: controlRoom_def Let_def changeStatus_run)
qed

text \<open>Muting and unmuting a persona.\<close>

definition mute_fences :: "persona_control \<Rightarrow> participant_row \<Rightarrow> bool" where
  "mute_fences kind persona \<longleftrightarrow> \<not> part_muted persona \<and> kind = Mute"

definition next_generation :: "room_row \<Rightarrow> room_row" where
  "next_generation row = row\<lparr>room_generation := room_generation row + 1\<rparr>"

definition mute_controlled :: "persona_control \<Rightarrow> participant_row \<Rightarrow> string \<Rightarrow> string \<Rightarrow> db \<Rightarrow> db" where
  "mute_controlled kind persona r i db =
     (if mute_fences kind persona then released_claims r (room_changed r next_generation (person_muted r i True db))
      else if part_muted persona \<noteq> (kind = Mute) then person_muted r i (kind = Mute) db
      else db)"

definition mute_result :: "persona_control \<Rightarrow> room_row \<Rightarrow> participant_row \<Rightarrow> string \<Rightarrow> string \<Rightarrow> persona_control_result" where
  "mute_result kind room persona q i =
     \<lparr>pcr_kind = kind, pcr_requestId = q, pcr_personaId = i, pcr_muted = (kind = Mute),
      pcr_generation = room_generation room + (if mute_fences kind persona then 1 else 0),
      pcr_changed = (part_muted persona \<noteq> (kind = Mute))\<rparr>"

lemma next_generation_simps [simp]:
  "room_id (next_generation row) = room_id row" "room_generation (next_generation row) = Suc (room_generation row)"
  "room_status (next_generation row) = room_status row"
  by (simp_all add: next_generation_def)

lemma mute_controlled_room:
  assumes "find_room db r = Some room"
  shows "find_room (mute_controlled kind persona r i db) r = Some (if mute_fences kind persona then next_generation room else room)"
  using assms by (auto simp: mute_controlled_def changed_room)

lemma changeMuted_run: "changeMuted kind r i persona db = (Inr (), mute_controlled kind persona r i db)"
proof -
  have "(\<lambda>row :: room_row. row\<lparr>room_generation := room_generation row + 1\<rparr>) = next_generation"
    by (rule ext) (simp add: next_generation_def)
  then show ?thesis
    by (cases kind)
      (simp_all add: changeMuted_def mute_controlled_def mute_fences_def bind_run updateRoom_run updateMuted_run released_claims
        returnA_def del: One_nat_def)
qed

lemma controlPersona_ok:
  "controlPersona kind r q i d db = (Inr (aborts, res), db') \<longleftrightarrow>
     (\<exists>room persona. find_room db r = Some room \<and> room_status room \<noteq> Stopped \<and> persona_row db r i = Some persona \<and>
        aborts = mute_fences kind persona \<and> res = mute_result kind room persona q i \<and>
        insertCommand r q d (completed (persona_result_json res)) None (mute_controlled kind persona r i db) = (Inr (), db'))"
proof (cases "find_room db r")
  case None
  then show ?thesis by (auto simp: controlPersona_def)
next
  case (Some room)
  show ?thesis
  proof (cases "persona_row db r i")
    case None
    then show ?thesis by (auto simp: controlPersona_def)
  next
    case (Some persona)
    note u = mute_controlled_room [OF \<open>find_room db r = Some room\<close>, of kind persona i]
    have "\<lparr>pcr_kind = kind, pcr_requestId = q, pcr_personaId = i, pcr_muted = (kind = Mute),
          pcr_generation = room_generation (if mute_fences kind persona then next_generation room else room),
          pcr_changed = (part_muted persona \<noteq> (kind = Mute))\<rparr> = mute_result kind room persona q i"
      by (simp add: mute_result_def)
    moreover have "(part_muted persona \<noteq> (kind = Mute) \<and> kind = Mute) = mute_fences kind persona" by (auto simp: mute_fences_def)
    ultimately show ?thesis
      using Some u \<open>find_room db r = Some room\<close>
      by (simp only: controlPersona_def Let_def bindA_ok action_ok room_row_of_ok changeMuted_run) auto
  qed
qed

section \<open>The commands as one family\<close>

datatype room_request = Control room_control room_command | Persona_Control persona_control persona_control_command

datatype room_answer = Control_Answer room_control_result | Persona_Answer persona_control_result

definition runRoom :: "(string \<Rightarrow> string) \<Rightarrow> room_request \<Rightarrow> room_answer action" where
  "runRoom sha c =
     (case c of
        Control kind cmd \<Rightarrow> bindA (roomControl sha kind cmd) (\<lambda>p. returnA (Control_Answer (snd p)))
      | Persona_Control kind cmd \<Rightarrow> bindA (personaControl sha kind cmd) (\<lambda>p. returnA (Persona_Answer (snd p))))"

datatype room_key = Control_Key string string | Persona_Key string string

fun room_key_of :: "room_request \<Rightarrow> room_key" where
  "room_key_of (Control kind cmd) = Control_Key (rc_roomId cmd) (rc_requestId cmd)"
| "room_key_of (Persona_Control kind cmd) = Persona_Key (rc_roomId cmd) (rc_requestId cmd)"

definition revision_of :: "room_command \<Rightarrow> nat" where
  "revision_of cmd = (case jsafe_nonneg (rc_selectionRevision cmd) of None \<Rightarrow> 0 | Some n \<Rightarrow> n)"

fun room_request_json :: "room_request \<Rightarrow> jval" where
  "room_request_json (Control kind cmd) =
     control_request_json (control_name kind) (rc_roomId cmd) (rc_requestId cmd) (revision_of cmd)"
| "room_request_json (Persona_Control kind cmd) =
     persona_request_json (mute_name kind) (rc_roomId cmd) (rc_requestId cmd) (revision_of (room_command.truncate cmd)) (pcc_personaId cmd)"

definition room_digest :: "(string \<Rightarrow> string) \<Rightarrow> room_request \<Rightarrow> string" where
  "room_digest sha c = (case jsonDigest sha (room_request_json c) of Inr d \<Rightarrow> d | Inl _ \<Rightarrow> [])"

lemma room_request_digest: "jsonDigest sha (room_request_json c) = Inr (room_digest sha c)"
proof -
  have "json_ok (room_request_json c)"
    by (cases c) (simp_all add: control_request_json_def persona_request_json_def)
  then obtain t where "canonicalJson (room_request_json c) = Inr t" using canonicalJson_roundtrip by blast
  then show ?thesis by (simp add: room_digest_def jsonDigest_def)
qed

text \<open>What a command's row holds, read as the answer of a control command.\<close>

definition control_recorded :: "command_row option \<Rightarrow> (string \<times> room_answer) option" where
  "control_recorded row = (case row of
     None \<Rightarrow> None
   | Some row \<Rightarrow> (case parseStored read_control_result (result_json row) of
        Inr (Complete_Command res) \<Rightarrow> Some (request_digest row, Control_Answer res) | _ \<Rightarrow> None))"

definition persona_recorded :: "command_row option \<Rightarrow> (string \<times> room_answer) option" where
  "persona_recorded row = (case row of
     None \<Rightarrow> None
   | Some row \<Rightarrow> (case parseStored read_persona_result (result_json row) of
        Inr (Complete_Command res) \<Rightarrow> Some (request_digest row, Persona_Answer res) | _ \<Rightarrow> None))"

fun room_recorded :: "db \<Rightarrow> room_key \<Rightarrow> (string \<times> room_answer) option" where
  "room_recorded db (Control_Key r q) = control_recorded (db_commands db (r, q))"
| "room_recorded db (Persona_Key r q) = persona_recorded (db_commands db (r, q))"

text \<open>Between two commands: no transaction, and the selection that the commands name.\<close>

definition at_selection :: "string \<times> nat \<Rightarrow> db \<Rightarrow> bool" where
  "at_selection sel db \<longleftrightarrow> \<not> is_transaction db \<and> current_room db = Some sel"

section \<open>Carried out once\<close>

lemma room_validation [simp]:
  "canonicalIdentifier v field = Inr w \<longleftrightarrow> w = v \<and> js_canonical v \<and> length v \<le> MAX_IDENTIFIER_LENGTH"
  "canonicalSelectionRevision j = Inr n \<longleftrightarrow> jsafe_nonneg j = Some n"
  by (auto simp: canonicalIdentifier_def canonicalSelectionRevision_def js_canonical_def split: option.splits)

text \<open>The commands of a database keep their digests and texts.\<close>

definition rows_kept :: "db \<Rightarrow> db \<Rightarrow> bool" where
  "rows_kept db db' \<longleftrightarrow> (\<forall>k row. db_commands db k = Some row \<longrightarrow>
     (\<exists>row'. db_commands db' k = Some row' \<and> request_digest row' = request_digest row \<and> result_json row' = result_json row))"

lemma rows_kept_released: "rows_kept db0 db \<Longrightarrow> rows_kept db0 (released_claims r db)"
  unfolding rows_kept_def using released_row released_none by (metis not_None_eq option.inject)

lemma rows_kept_controls: "rows_kept db (controlled kind room r db)" "rows_kept db (mute_controlled mkind persona r i db)"
  by (auto simp: controlled_def mute_controlled_def intro!: rows_kept_released) (auto simp: rows_kept_def)

lemma controls_same [simp]:
  "current_room (controlled kind room r db) = current_room db" "current_room (mute_controlled mkind persona r i db) = current_room db"
  "db_commands (controlled kind room r db) k = None \<longleftrightarrow> db_commands db k = None"
  "db_commands (mute_controlled mkind persona r i db) k = None \<longleftrightarrow> db_commands db k = None"
  by (auto simp: controlled_def mute_controlled_def)

lemma recorded_same:
  assumes "request_digest row' = request_digest row" and "result_json row' = result_json row"
  shows "control_recorded (Some row') = control_recorded (Some row)" and "persona_recorded (Some row') = persona_recorded (Some row)"
  unfolding control_recorded_def persona_recorded_def option.case assms by (rule refl)+

lemma recorded_kept:
  assumes "rows_kept db db'" and "room_recorded db k = Some y"
  shows "room_recorded db' k = Some y"
proof (cases k)
  case (Control_Key r q)
  with assms(2) obtain row where row: "db_commands db (r, q) = Some row" by (auto simp: control_recorded_def split: option.splits)
  with assms(1) obtain row' where "db_commands db' (r, q) = Some row'" "request_digest row' = request_digest row" "result_json row' = result_json row"
    unfolding rows_kept_def by blast
  with assms(2) row Control_Key recorded_same(1) [of row' row] show ?thesis by simp
next
  case (Persona_Key r q)
  with assms(2) obtain row where row: "db_commands db (r, q) = Some row" by (auto simp: persona_recorded_def split: option.splits)
  with assms(1) obtain row' where "db_commands db' (r, q) = Some row'" "request_digest row' = request_digest row" "result_json row' = result_json row"
    unfolding rows_kept_def by blast
  with assms(2) row Persona_Key recorded_same(2) [of row' row] show ?thesis by simp
qed

lemma insert_kept:
  assumes "insertCommand r q d v None db1 = (Inr u, db')" and "rows_kept db db1"
  shows "rows_kept db db' \<and> current_room db' = current_room db1"
proof -
  from assms(1) obtain t where t: "db_commands db1 (r, q) = None"
    "db' = db1\<lparr>db_commands := (db_commands db1)((r, q) \<mapsto> \<lparr>request_digest = d, result_json = t, claim = None\<rparr>)\<rparr>"
    by (auto simp: insertCommand_ok)
  have "k \<noteq> (r, q)" if "db_commands db k = Some row" for k row
    using assms(2) that t(1) unfolding rows_kept_def by force
  with assms(2) t(2) show ?thesis unfolding rows_kept_def by simp
qed

fun room_valid :: "string \<times> nat \<Rightarrow> room_request \<Rightarrow> bool" where
  "room_valid sel (Control kind cmd) \<longleftrightarrow> js_canonical (rc_roomId cmd) \<and> length (rc_roomId cmd) \<le> 128 \<and>
     js_canonical (rc_requestId cmd) \<and> length (rc_requestId cmd) \<le> 256 \<and>
     jsafe_nonneg (rc_selectionRevision cmd) = Some (snd sel) \<and> fst sel = rc_roomId cmd"
| "room_valid sel (Persona_Control kind cmd) \<longleftrightarrow> js_canonical (rc_roomId cmd) \<and> length (rc_roomId cmd) \<le> 128 \<and>
     js_canonical (rc_requestId cmd) \<and> length (rc_requestId cmd) \<le> 256 \<and>
     jsafe_nonneg (rc_selectionRevision cmd) = Some (snd sel) \<and> fst sel = rc_roomId cmd \<and>
     js_canonical (pcc_personaId cmd) \<and> length (pcc_personaId cmd) \<le> 256"

text \<open>The transaction of a valid command.\<close>

fun room_body :: "(string \<Rightarrow> string) \<Rightarrow> room_request \<Rightarrow> room_answer action" where
  "room_body sha (Control kind cmd) =
     (\<lambda>db. case db_commands db (rc_roomId cmd, rc_requestId cmd) of
        Some row \<Rightarrow> bindA (replayControl read_control_result row (room_digest sha (Control kind cmd))) (\<lambda>res. returnA (Control_Answer res)) db
      | None \<Rightarrow> bindA (controlRoom kind (rc_roomId cmd) (rc_requestId cmd) (room_digest sha (Control kind cmd)))
                  (\<lambda>p. returnA (Control_Answer (snd p))) db)"
| "room_body sha (Persona_Control kind cmd) =
     (\<lambda>db. case db_commands db (rc_roomId cmd, rc_requestId cmd) of
        Some row \<Rightarrow> bindA (replayControl read_persona_result row (room_digest sha (Persona_Control kind cmd))) (\<lambda>res. returnA (Persona_Answer res)) db
      | None \<Rightarrow> bindA (controlPersona kind (rc_roomId cmd) (rc_requestId cmd) (pcc_personaId cmd) (room_digest sha (Persona_Control kind cmd)))
                  (\<lambda>p. returnA (Persona_Answer (snd p))) db)"

lemma digest_eqs:
  "jsafe_nonneg (rc_selectionRevision cmd) = Some n \<Longrightarrow>
   jsonDigest sha (control_request_json (control_name kind) (rc_roomId cmd) (rc_requestId cmd) n) = Inr (room_digest sha (Control kind cmd))"
  "jsafe_nonneg (rc_selectionRevision pcmd) = Some n \<Longrightarrow>
   jsonDigest sha (persona_request_json (mute_name mkind) (rc_roomId pcmd) (rc_requestId pcmd) n (pcc_personaId pcmd)) =
     Inr (room_digest sha (Persona_Control mkind pcmd))"
  using room_request_digest [of sha "Control kind cmd"] room_request_digest [of sha "Persona_Control mkind pcmd"]
  by (simp_all add: revision_of_def room_command.truncate_def)

lemma runRoom_ok:
  assumes "at_selection sel db"
  shows "runRoom sha c db = (Inr a, db') \<longleftrightarrow> room_valid sel c \<and>
    (\<exists>db1. room_body sha c (db\<lparr>is_transaction := True\<rparr>) = (Inr a, db1) \<and> db' = db1\<lparr>is_transaction := False\<rparr>)"
proof -
  have idle: "\<not> is_transaction db" and cur: "current_room db = Some sel" using assms by (simp_all add: at_selection_def)
  show ?thesis
  proof (cases c)
    case (Control kind cmd)
    show ?thesis
    proof (cases "jsafe_nonneg (rc_selectionRevision cmd)")
      case None
      then show ?thesis by (auto simp: Control runRoom_def roomControl_def)
    next
      case (Some n)
      show ?thesis
        using cur digest_eqs(1) [OF Some, of sha kind] jsafe_nonneg_bound [OF Some]
        by (cases sel; cases "db_commands db (rc_roomId cmd, rc_requestId cmd)")
          (auto simp: Control Some runRoom_def roomControl_def transaction_ok [OF idle] findCommand_def MAX_IDENTIFIER_LENGTH_def)
    qed
  next
    case (Persona_Control kind cmd)
    show ?thesis
    proof (cases "jsafe_nonneg (rc_selectionRevision cmd)")
      case None
      then show ?thesis by (auto simp: Persona_Control runRoom_def personaControl_def)
    next
      case (Some n)
      show ?thesis
        using cur digest_eqs(2) [OF Some, of sha kind] jsafe_nonneg_bound [OF Some]
        by (cases sel; cases "db_commands db (rc_roomId cmd, rc_requestId cmd)")
          (auto simp: Persona_Control Some runRoom_def personaControl_def transaction_ok [OF idle] findCommand_def MAX_IDENTIFIER_LENGTH_def)
    qed
  qed
qed

lemma request_parts:
  "\<exists>r q. room_key_of c = Control_Key r q \<and> (\<exists>kind cmd. c = Control kind cmd \<and> r = rc_roomId cmd \<and> q = rc_requestId cmd) \<or>
     room_key_of c = Persona_Key r q \<and> (\<exists>kind cmd. c = Persona_Control kind cmd \<and> r = rc_roomId cmd \<and> q = rc_requestId cmd)"
  by (cases c) auto

text \<open>A command is answered from its record, without effect, or carried out and recorded.\<close>

lemma replay_ok:
  "replayControl rd row d db = (Inr res, db') \<longleftrightarrow> request_digest row = d \<and>
     parseStored rd (result_json row) = Inr (Complete_Command res) \<and> db' = db"
proof (cases "parseStored rd (result_json row)")
  case (Inr stored)
  then show ?thesis by (cases stored) (auto simp: replayControl_def assertMatchingDigest_def)
qed (simp add: replayControl_def assertMatchingDigest_def)

lemma recorded_answer:
  assumes "canonicalJson (completed (control_result_json res)) = Inr t"
  shows "control_recorded (Some \<lparr>request_digest = d, result_json = t, claim = cl\<rparr>) = Some (d, Control_Answer res)"
  using parseStored_complete [OF inverts_control assms] by (simp add: control_recorded_def)

lemma recorded_persona_answer:
  assumes "canonicalJson (completed (persona_result_json res)) = Inr t"
  shows "persona_recorded (Some \<lparr>request_digest = d, result_json = t, claim = cl\<rparr>) = Some (d, Persona_Answer res)"
  using parseStored_complete [OF inverts_persona assms] by (simp add: persona_recorded_def)

lemma recorded_row_of:
  "control_recorded (Some row) = Some (g, a) \<longleftrightarrow> g = request_digest row \<and>
     (\<exists>res. a = Control_Answer res \<and> parseStored read_control_result (result_json row) = Inr (Complete_Command res))"
  "persona_recorded (Some row) = Some (g, a) \<longleftrightarrow> g = request_digest row \<and>
     (\<exists>res. a = Persona_Answer res \<and> parseStored read_persona_result (result_json row) = Inr (Complete_Command res))"
  by (auto simp: control_recorded_def persona_recorded_def split: sum.splits stored_command.splits)

lemma room_body_ok:
  assumes "room_body sha c db = (Inr a, db')"
  shows "(room_recorded db (room_key_of c) = Some (room_digest sha c, a) \<and> db' = db) \<or>
    (room_recorded db (room_key_of c) = None \<and> room_recorded db' (room_key_of c) = Some (room_digest sha c, a) \<and>
     rows_kept db db' \<and> current_room db' = current_room db)"
proof (cases c)
  case (Control kind cmd)
  show ?thesis
  proof (cases "db_commands db (rc_roomId cmd, rc_requestId cmd)")
    case (Some row)
    with assms show ?thesis by (auto simp: Control replay_ok recorded_row_of)
  next
    case None
    with assms obtain aborts res room where a: "a = Control_Answer res" and
      ins: "insertCommand (rc_roomId cmd) (rc_requestId cmd) (room_digest sha c) (completed (control_result_json res)) None
        (controlled kind room (rc_roomId cmd) db) = (Inr (), db')"
      by (auto simp: Control controlRoom_ok)
    from ins obtain t where t: "canonicalJson (completed (control_result_json res)) = Inr t" and
      row: "db_commands db' (rc_roomId cmd, rc_requestId cmd) = Some \<lparr>request_digest = room_digest sha c, result_json = t, claim = None\<rparr>"
      by (auto simp: insertCommand_ok)
    show ?thesis
      using insert_kept [OF ins rows_kept_controls(1)] None
      by (simp add: Control row [unfolded Control] recorded_answer [OF t] a) (simp add: control_recorded_def)
  qed
next
  case (Persona_Control kind cmd)
  show ?thesis
  proof (cases "db_commands db (rc_roomId cmd, rc_requestId cmd)")
    case (Some row)
    with assms show ?thesis by (auto simp: Persona_Control replay_ok recorded_row_of)
  next
    case None
    with assms obtain aborts res persona where a: "a = Persona_Answer res" and
      ins: "insertCommand (rc_roomId cmd) (rc_requestId cmd) (room_digest sha c) (completed (persona_result_json res)) None
        (mute_controlled kind persona (rc_roomId cmd) (pcc_personaId cmd) db) = (Inr (), db')"
      by (auto simp: Persona_Control controlPersona_ok)
    from ins obtain t where t: "canonicalJson (completed (persona_result_json res)) = Inr t" and
      row: "db_commands db' (rc_roomId cmd, rc_requestId cmd) = Some \<lparr>request_digest = room_digest sha c, result_json = t, claim = None\<rparr>"
      by (auto simp: insertCommand_ok)
    show ?thesis
      using insert_kept [OF ins rows_kept_controls(2)] None
      by (simp add: Persona_Control row [unfolded Persona_Control] recorded_persona_answer [OF t] a) (simp add: persona_recorded_def)
  qed
qed

lemma room_frame [simp]:
  "room_recorded (db\<lparr>is_transaction := b\<rparr>) k = room_recorded db k" "rows_kept (db\<lparr>is_transaction := b\<rparr>) db' = rows_kept db db'"
  "rows_kept db (db'\<lparr>is_transaction := b\<rparr>) = rows_kept db db'"
  by (cases k; simp add: rows_kept_def)+

lemma runRoom_step:
  assumes "at_selection sel db" and "runRoom sha c db = (Inr a, db')"
  shows "room_valid sel c \<and> at_selection sel db' \<and>
    ((room_recorded db (room_key_of c) = Some (room_digest sha c, a) \<and> db' = db) \<or>
     (room_recorded db (room_key_of c) = None \<and> room_recorded db' (room_key_of c) = Some (room_digest sha c, a) \<and> rows_kept db db'))"
proof -
  from assms(2) [unfolded runRoom_ok [OF assms(1)]] obtain db1 where valid: "room_valid sel c" and
    body: "room_body sha c (db\<lparr>is_transaction := True\<rparr>) = (Inr a, db1)" and db': "db' = db1\<lparr>is_transaction := False\<rparr>" by blast
  have same: "(db\<lparr>is_transaction := True\<rparr>)\<lparr>is_transaction := False\<rparr> = db" using assms(1) by (cases db) (simp add: at_selection_def)
  from room_body_ok [OF body] show ?thesis
  proof (elim disjE conjE)
    assume "room_recorded (db\<lparr>is_transaction := True\<rparr>) (room_key_of c) = Some (room_digest sha c, a)" "db1 = db\<lparr>is_transaction := True\<rparr>"
    with same valid assms(1) show ?thesis by (simp add: db')
  next
    assume "room_recorded (db\<lparr>is_transaction := True\<rparr>) (room_key_of c) = None" "room_recorded db1 (room_key_of c) = Some (room_digest sha c, a)"
      "rows_kept (db\<lparr>is_transaction := True\<rparr>) db1" "current_room db1 = current_room (db\<lparr>is_transaction := True\<rparr>)"
    with valid assms(1) show ?thesis by (simp add: db' at_selection_def)
  qed
qed

lemma atomic_runRoom: "atomic (runRoom sha c)"
  unfolding runRoom_def by (cases c) (auto intro!: atomic_map service_atomic)

lemma recorded_body:
  assumes "room_recorded db (room_key_of c) = Some (room_digest sha c, a)"
  shows "room_body sha c db = (Inr a, db)"
proof (cases c)
  case (Control kind cmd)
  with assms show ?thesis
    by (cases "db_commands db (rc_roomId cmd, rc_requestId cmd)")
      (auto simp: recorded_row_of replay_ok control_recorded_def split: sum.splits stored_command.splits)
next
  case (Persona_Control kind cmd)
  with assms show ?thesis
    by (cases "db_commands db (rc_roomId cmd, rc_requestId cmd)")
      (auto simp: recorded_row_of replay_ok persona_recorded_def split: sum.splits stored_command.splits)
qed

interpretation ctl: idempotent_command "runRoom sha" room_recorded room_key_of "room_digest sha" "(=)" "at_selection sel"
  for sha sel
proof unfold_locales
  fix c c' :: room_request and db db' dc :: db and a a0 e g y k
  assume idle: "at_selection sel db"
  show "db' = db" if "runRoom sha c db = (Inl e, db')"
    using atomicD [OF atomic_runRoom _ that] idle by (simp add: at_selection_def)
  assume run: "runRoom sha c db = (Inr a, db')"
  note step = runRoom_step [OF idle run]
  show "room_recorded db' (room_key_of c) = Some (room_digest sha c, a)" "at_selection sel db'" using step by auto
  show "room_recorded db' k = Some y" if "room_recorded db k = Some y" using step that recorded_kept by blast
  show "g = room_digest sha c" if "room_recorded db (room_key_of c) = Some (g, a0)" using step that by auto
  show "runRoom sha c' dc = (Inr a0, dc)" if "c = c'" "at_selection sel dc" "room_recorded dc (room_key_of c) = Some (room_digest sha c, a0)"
  proof -
    have "room_body sha c (dc\<lparr>is_transaction := True\<rparr>) = (Inr a0, dc\<lparr>is_transaction := True\<rparr>)"
      using that(3) by (intro recorded_body) simp
    moreover have "(dc\<lparr>is_transaction := True\<rparr>)\<lparr>is_transaction := False\<rparr> = dc" using that(2) by (cases dc) (simp add: at_selection_def)
    ultimately show ?thesis using step that(1) by (simp add: runRoom_ok [OF that(2)])
  qed
qed

end
