(* ===== verification/Room_Example.thy ===== *)
theory Room_Example
  imports Room_Control
begin

text \<open>
  A new message inside its transaction, and a concrete run: in the database that the migrations leave
  a worker records a message, the provider answers it, and the worker completes it.
\<close>

section \<open>A new message, with its transaction\<close>

definition human_participant :: "db \<Rightarrow> string \<Rightarrow> participant_row option" where
  "human_participant db r = find (\<lambda>p. part_room p = r \<and> part_kind p = Human) (db_participants db)"

lemma prepare_fresh:
  assumes idle: "\<not> is_transaction db" and selected: "current_room db = Some (mc_roomId c, mc_selectionRevision c)"
    and valid: "js_canonical (mc_roomId c)" "length (mc_roomId c) \<le> 128" "safe_number (mc_selectionRevision c)"
    and now: "currentTime now = Inr n" and fresh: "db_commands db (mc_roomId c, mc_requestId c) = None"
    and room: "find_room db (mc_roomId c) = Some room" "room_status room = Active"
    and state: "db_director db (mc_roomId c) = Some state" and human: "human_participant db (mc_roomId c) = Some human"
    and run: "recordMessage lease c digest owner n room state (part_id human) (db\<lparr>is_transaction := True\<rparr>) = (Inr x, db')"
  shows "prepareMessage lease c digest owner now db = (Inr x, db'\<lparr>is_transaction := False\<rparr>)"
proof -
  let ?db = "db\<lparr>is_transaction := True\<rparr>"
  have sel: "requireRoomSelection (mc_roomId c) (JInt (int (mc_selectionRevision c))) ?db = (Inr (), ?db)"
    using selected valid by (simp add: safe_number_def)
  have views: "db_commands ?db (mc_roomId c, mc_requestId c) = None" "find_room ?db (mc_roomId c) = Some room"
    "db_director ?db (mc_roomId c) = Some state"
    "find (\<lambda>p. part_room p = mc_roomId c \<and> part_kind p = Human) (db_participants ?db) = Some human"
    using fresh room(1) state human by (simp_all add: find_room_def human_participant_def)
  have "prepareInTransaction lease c digest owner now ?db = (Inr x, db')"
    using selected valid now run room(2) views
    unfolding prepareInTransaction_def room_row_of_def findCommand_def by (simp add: safe_number_def)
  then show ?thesis unfolding prepareMessage_def transaction_ok [OF idle] by blast
qed

section \<open>A concrete run\<close>

definition hello_command :: send_message_command where
  "hello_command = \<lparr>rc_requestId = ''m1'', rc_roomId = ''first-playable'', rc_selectionRevision = JInt 0,
     smc_text = ''Hi'', smc_wantsResponse = JUndefined, smc_target = None\<rparr>"

definition hello :: message_command where
  "hello = \<lparr>mc_roomId = ''first-playable'', mc_requestId = ''m1'', mc_selectionRevision = 0, mc_text = ''Hi'',
     mc_wantsResponse = True, mc_target = None\<rparr>"

definition hello_pending :: pending_message where
  "hello_pending = \<lparr>pm_requestId = ''m1'', pm_human = 1, pm_director = 2, pm_decision = decision (Some ''detective'') Selected,
     pm_generation = 0, pm_prompt = ''Hi'', pm_providerDecision = None\<rparr>"

definition hello_digest :: string where
  "hello_digest = replicate 64 CHR ''a''"

lemma hello_normalized: "normalizeMessage hello_command = Inr hello"
  by code_simp

definition first_room :: "string \<Rightarrow> room_row" where
  "first_room clock = \<lparr>room_id = ''first-playable'', room_title = ''The Green Room'', room_status = Active,
     room_generation = 0, next_event_sequence = 1, room_created_at = clock, activity_order = 1, archived = False\<rparr>"

definition first_director :: director_row where
  "first_director = \<lparr>last_speaker_id = None, last_human_event_sequence = None, autonomous_turns = 0,
     scheduling_window_generation = 0\<rparr>"

lemma migrated_views:
  "find_room (migrated_db clock) ''first-playable'' = Some (first_room clock)"
  "db_director (migrated_db clock) ''first-playable'' = Some first_director"
  "human_participant (migrated_db clock) ''first-playable'' = Some (seeded_participant ''human'' Human ''You'' 0)"
  "db_commands (migrated_db clock) k = None" "current_room (migrated_db clock) = Some (''first-playable'', 0)"
  "log_entries (migrated_db clock) r = []" "db_bindings (migrated_db clock) = []"
  "phase_of (migrated_db clock) ''first-playable'' = Some (Active, 0)"
  by (simp_all add: migrated_db_def find_room_def first_room_def first_director_def human_participant_def
      seeded_participant_def log_entries_def room_events_def phase_of_def)

lemma migrated_personas:
  "personas_of (migrated_db clock) ''first-playable'' =
     [seeded_participant ''detective'' Persona ''The Detective'' 1, seeded_participant ''fixer'' Persona ''The Fixer'' 2,
      seeded_participant ''optimist'' Persona ''The Optimist'' 3]"
  by (simp add: personas_of_def room_participants_def migrated_db_def seeded_participant_def)

lemma hello_pick:
  "pick_speaker (personas_of (migrated_db clock) ''first-playable'') None True None = Inr (decision (Some ''detective'') Selected)"
  by (simp add: migrated_personas turns_after_def findIndex_def seeded_participant_def)

lemma frame_views [simp]:
  "find_room (db\<lparr>is_transaction := b\<rparr>) r = find_room db r" "log_entries (db\<lparr>is_transaction := b\<rparr>) = log_entries db"
  "participants_ok (db\<lparr>is_transaction := b\<rparr>) = participants_ok db" "personas_of (db\<lparr>is_transaction := b\<rparr>) r = personas_of db r"
  "phase_of (db\<lparr>is_transaction := b\<rparr>) = phase_of db"
  by (auto simp: find_room_def log_entries_def participants_ok_def personas_of_def room_participants_def phase_of_def fun_eq_iff
      room_events_def)

lemma hello_prepared:
  "\<exists>db row. prepareMessage 30000 hello hello_digest ''w1'' (JInt 1000) (migrated_db []) = (Inr (Claimed hello_pending), db) \<and>
    canonicalJson (pending_json hello_pending) = Inr (result_json row) \<and> claim row = Some (''w1'', 31000) \<and>
    request_digest row = hello_digest \<and> db_commands db = (\<lambda>_. None)((''first-playable'', ''m1'') \<mapsto> row) \<and>
    length (log_entries db ''first-playable'') = 2 \<and> db_participants db = db_participants (migrated_db []) \<and>
    current_room db = Some (''first-playable'', 0) \<and> phase_of db ''first-playable'' = Some (Active, 0) \<and> db_bindings db = [] \<and>
    \<not> is_transaction db"
proof -
  let ?db0 = "(migrated_db [])\<lparr>is_transaction := True\<rparr>"
  have parts: "mc_roomId hello = ''first-playable''" "mc_requestId hello = ''m1''" "mc_text hello = ''Hi''"
    "mc_wantsResponse hello = True" "mc_target hello = None" "mc_selectionRevision hello = 0"
    by (simp_all add: hello_def)
  have rec: "recorded hello (first_room []) 1 (decision (Some ''detective'') Selected) = Claimed hello_pending"
    by (simp add: recorded_def hello_pending_def hello_def first_room_def decision_def)
  have idle0: "\<not> is_transaction (migrated_db [])" by (simp add: migrated_db_def)
  have pick: "pick_speaker (personas_of ?db0 (mc_roomId hello)) (last_speaker_id first_director) (mc_wantsResponse hello)
      (mc_target hello) = Inr (decision (Some ''detective'') Selected)"
    using hello_pick [of "[]"] by (simp only: parts frame_views first_director_def director_row.simps)
  have "\<exists>db' row. recordMessage 30000 hello hello_digest ''w1'' 1000 (first_room []) first_director ''human'' ?db0 =
      (Inr (recorded hello (first_room []) 1 (decision (Some ''detective'') Selected)), db') \<and>
    recorded_row (recorded hello (first_room []) 1 (decision (Some ''detective'') Selected)) hello_digest (''w1'', 1000 + 30000) row \<and>
    db_commands db' = (db_commands ?db0)((mc_roomId hello, mc_requestId hello) \<mapsto> row) \<and>
    db_director db' = (db_director ?db0)(mc_roomId hello \<mapsto>
      director_after first_director 1 (decision (Some ''detective'') Selected) (room_generation (first_room []))) \<and>
    log_entries db' = (log_entries ?db0)(mc_roomId hello := log_entries ?db0 (mc_roomId hello) @
      [(1, Events.event_text (human_message_json ''human'' (mc_text hello))),
       (Suc 1, Events.event_text (director_event_json 1 (decision (Some ''detective'') Selected)))]) \<and>
    db_participants db' = db_participants ?db0 \<and> current_room db' = current_room ?db0 \<and> phase_of db' = phase_of ?db0 \<and>
    db_bindings db' = db_bindings ?db0"
  proof (rule record_new_message [OF _ _ _ hello_normalized _ _ _ _ _ pick])
    show "db_commands ?db0 (mc_roomId hello, mc_requestId hello) = None" "find_room ?db0 (mc_roomId hello) = Some (first_room [])"
      "db_director ?db0 (mc_roomId hello) = Some first_director" "1 = Suc (length (log_entries ?db0 (mc_roomId hello)))"
      "safe_number (length (log_entries ?db0 (mc_roomId hello)) + 2)"
      by (simp_all add: parts migrated_views safe_number_def max_safe_integer_def)
  qed (simp_all add: migrated_log_ok migrated_participants_ok hello_digest_def MAX_TIME_def safe_number_def
      max_safe_integer_def first_room_def)
  then obtain db1 row where run: "recordMessage 30000 hello hello_digest ''w1'' 1000 (first_room []) first_director ''human'' ?db0 =
      (Inr (Claimed hello_pending), db1)" and
    row: "recorded_row (Claimed hello_pending) hello_digest (''w1'', 1000 + 30000) row" and
    eff: "db_commands db1 = (db_commands ?db0)((''first-playable'', ''m1'') \<mapsto> row)"
      "length (log_entries db1 ''first-playable'') = 2"
      "db_participants db1 = db_participants ?db0" "current_room db1 = current_room ?db0" "phase_of db1 = phase_of ?db0"
      "db_bindings db1 = db_bindings ?db0"
    unfolding rec parts by (force simp: migrated_views)
  have "prepareMessage 30000 hello hello_digest ''w1'' (JInt 1000) (migrated_db []) =
      (Inr (Claimed hello_pending), db1\<lparr>is_transaction := False\<rparr>)"
  proof (rule prepare_fresh)
    show "human_participant (migrated_db []) (mc_roomId hello) = Some (seeded_participant ''human'' Human ''You'' 0)"
      by (simp add: parts migrated_views)
    show "recordMessage 30000 hello hello_digest ''w1'' 1000 (first_room []) first_director
        (part_id (seeded_participant ''human'' Human ''You'' 0)) ?db0 = (Inr (Claimed hello_pending), db1)"
      using run by (simp add: seeded_participant_def)
  qed (simp_all add: parts migrated_views idle0 js_canonical_def js_trim_def js_trim_start_def js_trim_end_def
      js_space_def safe_number_def max_safe_integer_def currentTime_def first_room_def)
  then show ?thesis using row eff
    by (auto simp: recorded_row_def migrated_views fun_eq_iff intro!: exI [of _ "db1\<lparr>is_transaction := False\<rparr>"] exI [of _ row])
qed


section \<open>What completing leaves in the row\<close>

lemma publish_frame:
  assumes "publishAnswer r i p stale res db = (Inr pub, db')"
  shows "db_commands db' = db_commands db" and "current_room db' = current_room db" and "db_participants db' = db_participants db"
proof -
  have "db_commands db' = db_commands db \<and> current_room db' = current_room db \<and> db_participants db' = db_participants db"
  proof (cases "\<exists>t. \<not> stale \<and> res = Some (Provider_Text t)")
    case True
    with assms obtain t ev where "appendEventInTransaction r (persona_message_json i (pm_human p) t) db = (Inr ev, db')"
      by (auto simp: publishAnswer_def)
    then show ?thesis by (simp add: append_keeps)
  next
    case False
    with assms show ?thesis
      by (cases stale; cases res rule: option.exhaust [case_product provider_result.exhaust])
        (auto simp: publishAnswer_def split: option.splits provider_result.splits)
  qed
  then show "db_commands db' = db_commands db" "current_room db' = current_room db" "db_participants db' = db_participants db" by simp_all
qed

lemma complete_row:
  assumes idle: "\<not> is_transaction db" and ok: "log_ok db" "provider_ok db"
    and row: "db_commands db (r, q) = Some row" "stores_pending row p'" "claim row = Some (owner, expires)"
    and run: "completeMessage r q p g owner now db = (Inr (Some res), db')"
  shows "current_room db' = current_room db \<and> \<not> is_transaction db' \<and>
    (\<exists>t. canonicalJson (completed (message_result_json res)) = Inr t \<and>
       db_commands db' = (db_commands db)((r, q) \<mapsto> row\<lparr>result_json := t, claim := None\<rparr>))"
proof -
  let ?db = "db\<lparr>is_transaction := True\<rparr>"
  from run [unfolded complete_unfold [OF row] transaction_ok [OF idle]] obtain db1 where
    fin: "finishMessage r q p g owner ?db = (Inr res, db1)" and db': "db' = db1\<lparr>is_transaction := False\<rparr>"
    by (auto split: sum.splits if_splits)
  from fin obtain i pub dba dbb t n where pub: "publishAnswer r i p (stale_now ?db r p g i) (gm_providerResult g) ?db = (Inr pub, dba)" and
    rec: "recordDecision r q (stale_now ?db r p g i) g dba = (Inr (), dbb)" and
    t: "canonicalJson (completed (message_result_json res)) = Inr t" and
    upd: "updateCommand r q (owned_by owner) (\<lambda>row. row\<lparr>result_json := t, claim := None\<rparr>) dbb = (Inr n, db1)"
    by (auto simp: finish_unfold)
  have "provider_ok dba" by (rule publish_ok [OF _ pub]) (use ok in simp_all)
  from recordDecision_ok [OF this rec] obtain sn where dbb: "dbb = dba\<lparr>db_snapshots := sn\<rparr>" by blast
  have "db_commands dbb (r, q) = Some row" "db_commands dbb = db_commands db" "current_room dbb = current_room db"
    using row(1) publish_frame [OF pub] by (simp_all add: dbb)
  with upd t row(3) show ?thesis by (auto simp: updateCommand_ok owned_by_def db')
qed

section \<open>The run as steps of workers\<close>

definition hello_sha :: "string \<Rightarrow> string" where
  "hello_sha t = hello_digest"

definition hello_worker :: "nat \<Rightarrow> worker_phase \<Rightarrow> worker" where
  "hello_worker s phase = \<lparr>w_service = s, w_command = hello, w_digest = hello_digest, w_lost = False, w_error = None, w_phase = phase\<rparr>"

lemma hello_worker_simps [simp]:
  "w_phase (hello_worker s ph) = ph" "w_service (hello_worker s ph) = s" "w_command (hello_worker s ph) = hello"
  "w_digest (hello_worker s ph) = hello_digest" "w_key (hello_worker s ph) = (''first-playable'', ''m1'')"
  "w_lost (hello_worker s ph) = False" "w_error (hello_worker s ph) = None"
  "(hello_worker s ph)\<lparr>w_phase := ph'\<rparr> = hello_worker s ph'"
  "(hello_worker s ph)\<lparr>w_lost := False, w_error := None, w_phase := ph'\<rparr> = hello_worker s ph'"
  "new_worker s hello hello_digest = hello_worker s Looping"
  by (simp_all add: hello_worker_def w_key_def hello_def new_worker_def)

lemma hello_request: "jsonDigest hello_sha (message_request_json hello) = Inr hello_digest"
proof -
  have "json_ok (message_request_json hello)" by (simp add: message_request_json_def hello_def opt_field_def)
  then obtain t where "canonicalJson (message_request_json hello) = Inr t" using canonicalJson_roundtrip by blast
  then show ?thesis by (simp add: jsonDigest_def hello_sha_def)
qed

lemma hello_key: "mc_roomId hello = ''first-playable''" "mc_requestId hello = ''m1''"
  by (simp_all add: hello_def)

definition hello_row :: "command_row \<Rightarrow> bool" where
  "hello_row row \<longleftrightarrow> canonicalJson (pending_json hello_pending) = Inr (result_json row) \<and> claim row = Some (''w1'', 31000) \<and>
     request_digest row = hello_digest"

text \<open>The message is recorded and its worker holds the claim.\<close>

definition hello_recorded :: "room_world \<Rightarrow> bool" where
  "hello_recorded W \<longleftrightarrow> rw_workers W = (\<lambda>_. None)(''w1'' \<mapsto> hello_worker 0 (Holding hello_pending)) \<and> rw_closed W = {} \<and>
     (\<exists>row. hello_row row \<and> db_commands (rw_db W) = (\<lambda>_. None)((''first-playable'', ''m1'') \<mapsto> row)) \<and>
     length (log_entries (rw_db W) ''first-playable'') = 2 \<and> db_participants (rw_db W) = db_participants (migrated_db []) \<and>
     current_room (rw_db W) = Some (''first-playable'', 0) \<and> phase_of (rw_db W) ''first-playable'' = Some (Active, 0) \<and>
     db_bindings (rw_db W) = [] \<and> \<not> is_transaction (rw_db W)"

lemma run_step: "room_run sha evidence lease W W1 \<Longrightarrow> room_step sha evidence lease W1 W2 \<Longrightarrow> room_run sha evidence lease W W2"
  by (rule room_run.go)

lemma run_trans: "room_run sha evidence lease W1 W2 \<Longrightarrow> room_run sha evidence lease W W1 \<Longrightarrow> room_run sha evidence lease W W2"
  by (induction rule: room_run.induct) (auto intro: room_run.go)

lemma hello_run: "\<exists>W. room_run hello_sha None 30000 (first_world []) W \<and> hello_recorded W"
proof -
  let ?W0 = "first_world []" and ?W1 = "put_worker ''w1'' (hello_worker 0 Looping) (first_world [])"
  have "room_step hello_sha None 30000 ?W0 (put_worker ''w1'' (new_worker 0 hello hello_digest) ?W0)"
    by (rule room_step.start [OF _ hello_normalized hello_request]) (simp_all add: first_world_def in_flight_def)
  then have one: "room_run hello_sha None 30000 ?W0 ?W1" using room_run.go [OF room_run.stay] by simp
  from hello_prepared obtain db row where prep: "prepareMessage 30000 hello hello_digest ''w1'' (JInt 1000) (migrated_db []) = (Inr (Claimed hello_pending), db)"
    and row: "hello_row row" "db_commands db = (\<lambda>_. None)((''first-playable'', ''m1'') \<mapsto> row)"
    and rest: "length (log_entries db ''first-playable'') = 2" "db_participants db = db_participants (migrated_db [])"
      "current_room db = Some (''first-playable'', 0)" "phase_of db ''first-playable'' = Some (Active, 0)" "db_bindings db = []"
      "\<not> is_transaction db"
    by (auto simp: hello_row_def)
  have "room_step hello_sha None 30000 ?W1 (put_worker ''w1'' ((hello_worker 0 Looping)\<lparr>w_lost := False, w_error := None,
      w_phase := after_prepare (Inr (Claimed hello_pending))\<rparr>) (?W1\<lparr>rw_db := db\<rparr>))"
    by (rule room_step.prepare) (use prep in \<open>simp_all add: put_worker_def first_world_def\<close>)
  with one have "room_run hello_sha None 30000 ?W0 (put_worker ''w1'' (hello_worker 0 (Holding hello_pending)) (?W1\<lparr>rw_db := db\<rparr>))"
    using room_run.go by simp
  moreover have "hello_recorded (put_worker ''w1'' (hello_worker 0 (Holding hello_pending)) (?W1\<lparr>rw_db := db\<rparr>))"
    using row rest by (auto simp: hello_recorded_def put_worker_def first_world_def)
  ultimately show ?thesis by blast
qed


lemma hello_stores: "hello_row row \<Longrightarrow> stores_pending row hello_pending"
proof -
  assume "hello_row row"
  then have t: "canonicalJson (pending_json hello_pending) = Inr (result_json row)" by (simp add: hello_row_def)
  have "pending_ok hello_pending" "normal_pending hello_pending = hello_pending"
    by (simp_all add: hello_pending_def pending_ok_def normal_pending_def)
  with parseStored_pending [OF _ t] show ?thesis by (simp add: stores_pending_def)
qed

lemma hello_row_fits:
  assumes "hello_row row"
  shows "command_row_ok row"
proof -
  have t: "canonicalJson (pending_json hello_pending) = Inr (result_json row)" using assms by (simp add: hello_row_def)
  have "text_bound (pending_json hello_pending) \<le> 131072"
    by (rule pending_fits) (simp_all add: hello_pending_def choice_short_def decision_def safe_number_def max_safe_integer_def MAX_MESSAGE_LENGTH_def)
  from pending_row_fits [OF _ t this, of hello_digest "(''w1'', 31000)"]
  have "command_row_ok \<lparr>request_digest = hello_digest, result_json = result_json row, claim = Some (''w1'', 31000)\<rparr>"
    by (simp add: hello_pending_def pending_ok_def MAX_MESSAGE_LENGTH_def hello_digest_def MAX_TIME_def)
  with assms show ?thesis by (cases row) (simp add: hello_row_def)
qed

lemma hello_pending_at: "hello_recorded W \<Longrightarrow> message_at (rw_db W) (''first-playable'', ''m1'') = Some (Pending_Command hello_pending)"
proof -
  assume "hello_recorded W"
  then obtain row where row: "hello_row row" "db_commands (rw_db W) = (\<lambda>_. None)((''first-playable'', ''m1'') \<mapsto> row)"
    by (auto simp: hello_recorded_def)
  show ?thesis by (rule stores_message [OF _ hello_stores [OF row(1)]]) (simp add: row(2))
qed

lemma hello_speaker: "speaker (pm_decision hello_pending) = Some ''detective''" "pm_generation hello_pending = 0"
  by (simp_all add: hello_pending_def decision_def)

lemma hello_live:
  assumes "hello_recorded W"
  shows "isStale (rw_db W) ''first-playable'' 0 ''detective'' = False"
proof -
  from assms have "phase_of (rw_db W) ''first-playable'' = Some (Active, 0)" by (simp add: hello_recorded_def)
  then obtain room where room: "find_room (rw_db W) ''first-playable'' = Some room" "room_status room = Active" "room_generation room = 0"
    by (auto simp: phase_of_def)
  from assms have "db_participants (rw_db W) = db_participants (migrated_db [])" by (simp add: hello_recorded_def)
  then have "find (\<lambda>p. part_room p = ''first-playable'' \<and> part_id p = ''detective'') (db_participants (rw_db W)) =
      Some (seeded_participant ''detective'' Persona ''The Detective'' 1)"
    by (simp add: migrated_db_def seeded_participant_def)
  then show ?thesis by (simp add: isStale_def room seeded_participant_def)
qed

lemma hello_unbound:
  assumes "hello_recorded W"
  shows "pinProviderDecision sha evidence ''first-playable'' ''m1'' ''w1'' (rw_db W) = (Inr None, rw_db W)"
proof -
  from assms obtain row where row: "hello_row row" "db_commands (rw_db W) = (\<lambda>_. None)((''first-playable'', ''m1'') \<mapsto> row)"
    and idle: "\<not> is_transaction (rw_db W)" and none: "db_bindings (rw_db W) = []" by (auto simp: hello_recorded_def)
  let ?db = "(rw_db W)\<lparr>is_transaction := True\<rparr>"
  have own: "owned_by ''w1'' row" using row(1) by (simp add: hello_row_def owned_by_def)
  have p: "parseStored read_message_result (result_json row) = Inr (Pending_Command hello_pending)"
    using hello_stores [OF row(1)] by (simp add: stores_pending_def)
  have b: "readEffectiveRoomBinding ''first-playable'' ''persona-default'' ?db = (Inr None, ?db)"
    unfolding readEffectiveRoomBinding_def by (simp add: action_run effective_row_def none bindingFromRow_def returnA_def)
  have same: "?db\<lparr>is_transaction := False\<rparr> = rw_db W" using idle by (cases "rw_db W") simp
  show ?thesis
    unfolding pinProviderDecision_def transaction_ok [OF idle]
    using b
    by (intro exI [of _ ?db] conjI same [symmetric])
      (simp add: findCommand_def action_run row(2) own p bind_run hello_pending_def returnA_def)
qed

lemma hello_persona:
  assumes "hello_recorded W"
  shows "fst (providerPersonaId ''first-playable'' ''detective'' (rw_db W)) = Inr ''detective''"
proof -
  from assms have "db_participants (rw_db W) = db_participants (migrated_db [])" by (simp add: hello_recorded_def)
  then have "persona_row (rw_db W) ''first-playable'' ''detective'' = Some (seeded_participant ''detective'' Persona ''The Detective'' 1)"
    by (simp add: persona_row_def migrated_db_def seeded_participant_def)
  then show ?thesis by (simp add: providerPersonaId_def action_run seeded_participant_def returnA_def)
qed

definition hello_generated :: generated_message where
  "hello_generated = \<lparr>gm_providerResult = Some (Provider_Text ''Hello''), gm_providerDecision = None\<rparr>"

definition hello_result :: send_message_result where
  "hello_result = finished_result ''m1'' hello_pending (Some 3, Text_Outcome)"

lemma hello_completes:
  assumes rec: "hello_recorded W" and log: "log_ok (rw_db W)"
  shows "\<exists>db. completeMessage ''first-playable'' ''m1'' hello_pending hello_generated ''w1'' (JInt 2000) (rw_db W) =
    (Inr (Some hello_result), db)"
proof -
  from rec obtain row where row: "hello_row row" "db_commands (rw_db W) = (\<lambda>_. None)((''first-playable'', ''m1'') \<mapsto> row)"
    and idle: "\<not> is_transaction (rw_db W)" and len: "length (log_entries (rw_db W) ''first-playable'') = 2"
    and ph: "phase_of (rw_db W) ''first-playable'' = Some (Active, 0)"
    by (auto simp: hello_recorded_def)
  obtain room where room: "find_room (rw_db W) ''first-playable'' = Some room" using ph by (auto simp: phase_of_def)
  have stale: "stale_now (rw_db W) ''first-playable'' hello_pending hello_generated ''detective'' = False"
    using hello_live [OF rec] by (simp add: stale_now_def hello_speaker hello_generated_def)
  have "\<exists>db'. completeMessage ''first-playable'' ''m1'' hello_pending hello_generated ''w1'' (JInt 2000) (rw_db W) =
    (Inr (Some (finished_result ''m1'' hello_pending (outcome_of (stale_now (rw_db W) ''first-playable'' hello_pending hello_generated ''detective'')
      (gm_providerResult hello_generated) (Suc (length (log_entries (rw_db W) ''first-playable'')))))), db')"
  proof (rule complete_succeeds [OF idle log room])
    show "db_commands (rw_db W) (''first-playable'', ''m1'') = Some row" by (simp add: row(2))
    show "stores_pending row hello_pending" by (rule hello_stores [OF row(1)])
    show "claim row = Some (''w1'', 31000)" "length (request_digest row) = 64" using row(1) by (simp_all add: hello_row_def hello_digest_def)
    show "currentTime (JInt 2000) = Inr 2000" by code_simp
    show "result_sizes ''m1'' hello_pending"
      by (simp add: result_sizes_def hello_pending_def choice_short_def decision_def safe_number_def max_safe_integer_def)
    show "safe_number (Suc (length (log_entries (rw_db W) ''first-playable'')))" by (simp add: len safe_number_def max_safe_integer_def)
  qed (simp_all add: hello_speaker hello_generated_def)
  moreover have "outcome_of (stale_now (rw_db W) ''first-playable'' hello_pending hello_generated ''detective'')
      (gm_providerResult hello_generated) (Suc (length (log_entries (rw_db W) ''first-playable''))) = (Some 3, Text_Outcome)"
    unfolding stale len by (simp add: hello_generated_def)
  ultimately show ?thesis by (simp only: hello_result_def)
qed


lemma put_put [simp]:
  "put_worker owner w2 (put_worker owner w1 W) = put_worker owner w2 W" "rw_db (put_worker owner w W) = rw_db W"
  "rw_closed (put_worker owner w W) = rw_closed W" "rw_workers (put_worker owner w W) owner = Some w"
  by (simp_all add: put_worker_def)

lemma put_db [simp]: "(put_worker owner w W)\<lparr>rw_db := db\<rparr> = put_worker owner w (W\<lparr>rw_db := db\<rparr>)"
  by (simp add: put_worker_def)

text \<open>From there the provider's answer is published.\<close>

lemma hello_generates:
  assumes run: "room_run hello_sha None 30000 (first_world []) W" and rec: "hello_recorded W"
  shows "room_run hello_sha None 30000 W (put_worker ''w1'' (hello_worker 0 (Generated hello_pending hello_generated)) W)"
proof -
  let ?put = "\<lambda>ph. put_worker ''w1'' (hello_worker 0 ph) W"
  let ?iv = "invitation_of ''first-playable'' hello_pending ''detective'' ''detective''"
  from rec have w: "rw_workers W ''w1'' = Some (hello_worker 0 (Holding hello_pending))" by (simp add: hello_recorded_def)
  have "after_stale_check (rw_db W) ''first-playable'' hello_pending = Checked hello_pending"
    using hello_live [OF rec] by (simp add: after_stale_check_def hello_speaker)
  then have 1: "room_step hello_sha None 30000 W (?put (Checked hello_pending))"
    using room_step.stale_check [OF w, of hello_pending hello_sha None 30000] by simp
  have 2: "room_step hello_sha None 30000 (?put (Checked hello_pending)) (?put (Pinned hello_pending None))"
    using room_step.pin [of "?put (Checked hello_pending)" "''w1''" "hello_worker 0 (Checked hello_pending)" hello_pending hello_sha None
        "Inr None" "rw_db W" 30000] hello_unbound [OF rec] by simp
  have "after_current_check (rw_db W) ''first-playable'' hello_pending None = Generating hello_pending None ?iv"
    using hello_persona [OF rec] by (simp add: after_current_check_def hello_speaker)
  then have 3: "room_step hello_sha None 30000 (?put (Pinned hello_pending None)) (?put (Generating hello_pending None ?iv))"
    using room_step.current_check [of "?put (Pinned hello_pending None)" "''w1''" "hello_worker 0 (Pinned hello_pending None)" hello_pending None
        hello_sha None 30000] by simp
  have "after_result (hello_worker 0 (Generating hello_pending None ?iv)) hello_pending None
      (JObj [(''kind'', JStr ''text''), (''text'', JStr ''Hello'')]) = Generated hello_pending hello_generated"
    by (simp add: after_result_def validatedProviderResult_def hello_generated_def MAX_PROVIDER_TEXT_LENGTH_def)
  then have 4: "room_step hello_sha None 30000 (?put (Generating hello_pending None ?iv)) (?put (Generated hello_pending hello_generated))"
    using room_step.provider_result [of "?put (Generating hello_pending None ?iv)" "''w1''" "hello_worker 0 (Generating hello_pending None ?iv)"
        hello_pending None ?iv "rw_db W" hello_sha None 30000 "JObj [(''kind'', JStr ''text''), (''text'', JStr ''Hello'')]"] by simp
  show ?thesis using room_run.stay [of hello_sha None 30000 W] 1 2 3 4 by (meson room_run.go)
qed

lemma hello_answered:
  assumes run: "room_run hello_sha None 30000 (first_world []) W" and rec: "hello_recorded W"
  shows "\<exists>db t. room_run hello_sha None 30000 W (put_worker ''w1'' (hello_worker 0 (Returned hello_result)) (W\<lparr>rw_db := db\<rparr>)) \<and>
    canonicalJson (completed (message_result_json hello_result)) = Inr t \<and>
    db_commands db (''first-playable'', ''m1'') = Some \<lparr>request_digest = hello_digest, result_json = t, claim = None\<rparr> \<and>
    current_room db = Some (''first-playable'', 0) \<and> \<not> is_transaction db"
proof -
  have ok: "log_ok (rw_db W)" "provider_ok (rw_db W)"
    using run_advances [OF run room_run.stay] by (auto simp: world_ok_def db_ok_def room_ok_def)
  from rec obtain row where row: "hello_row row" "db_commands (rw_db W) = (\<lambda>_. None)((''first-playable'', ''m1'') \<mapsto> row)"
    and idle: "\<not> is_transaction (rw_db W)" and sel: "current_room (rw_db W) = Some (''first-playable'', 0)" and open_services: "rw_closed W = {}"
    by (auto simp: hello_recorded_def)
  have at: "db_commands (rw_db W) (''first-playable'', ''m1'') = Some row" by (simp add: row(2))
  have cl: "claim row = Some (''w1'', 31000)" "request_digest row = hello_digest" using row(1) by (simp_all add: hello_row_def)
  from hello_completes [OF rec ok(1)] obtain db where
    c: "completeMessage ''first-playable'' ''m1'' hello_pending hello_generated ''w1'' (JInt 2000) (rw_db W) = (Inr (Some hello_result), db)" by blast
  from complete_row [OF idle ok at hello_stores [OF row(1)] cl(1) c] obtain t where t: "canonicalJson (completed (message_result_json hello_result)) = Inr t"
    and eff: "db_commands db = (db_commands (rw_db W))((''first-playable'', ''m1'') \<mapsto> row\<lparr>result_json := t, claim := None\<rparr>)"
      "current_room db = Some (''first-playable'', 0)" "\<not> is_transaction db" using sel by auto
  let ?w = "hello_worker 0 (Generated hello_pending hello_generated)"
  have "room_step hello_sha None 30000 (put_worker ''w1'' ?w W)
      (put_worker ''w1'' (?w\<lparr>w_phase := after_complete (Inr (Some hello_result))\<rparr>) ((put_worker ''w1'' ?w W)\<lparr>rw_db := db\<rparr>))"
    by (rule room_step.complete) (use c open_services in simp_all)
  with hello_generates [OF run rec] have "room_run hello_sha None 30000 W
      (put_worker ''w1'' (hello_worker 0 (Returned hello_result)) (W\<lparr>rw_db := db\<rparr>))"
    using room_run.go by simp
  moreover have "row\<lparr>result_json := t, claim := None\<rparr> = \<lparr>request_digest = hello_digest, result_json = t, claim = None\<rparr>"
    using cl(2) by (cases row) simp
  ultimately show ?thesis using t eff by auto
qed

text \<open>The same message sent again, to another service.\<close>

lemma hello_resent:
  assumes rec: "hello_recorded W" and t: "canonicalJson (completed (message_result_json hello_result)) = Inr t"
    and row: "db_commands db (''first-playable'', ''m1'') = Some \<lparr>request_digest = hello_digest, result_json = t, claim = None\<rparr>"
    and sel: "current_room db = Some (''first-playable'', 0)" "\<not> is_transaction db"
  defines "W1 \<equiv> put_worker ''w1'' (hello_worker 0 (Returned hello_result)) (W\<lparr>rw_db := db\<rparr>)"
  shows "room_run hello_sha None 30000 W1 (put_worker ''w2'' (hello_worker 1 (Returned hello_result)) W1)"
proof -
  from rec have none: "rw_workers W = (\<lambda>_. None)(''w1'' \<mapsto> hello_worker 0 (Holding hello_pending))" "rw_closed W = {}"
    by (simp_all add: hello_recorded_def)
  have db: "rw_db W1 = db" "rw_closed W1 = {}" by (simp_all add: W1_def none)
  have "room_step hello_sha None 30000 W1 (put_worker ''w2'' (new_worker 1 hello hello_digest) W1)"
    by (rule room_step.start [OF _ hello_normalized hello_request])
      (simp_all add: db(2), simp_all add: W1_def put_worker_def none in_flight_def)
  then have 1: "room_step hello_sha None 30000 W1 (put_worker ''w2'' (hello_worker 1 Looping) W1)" by simp
  let ?db = "db\<lparr>is_transaction := True\<rparr>"
  have p: "parseStored read_message_result t = Inr (Complete_Command hello_result)"
    using parseStored_complete [OF inverts_message t] .
  have "prepareInTransaction 30000 hello hello_digest ''w2'' (JInt 3000) ?db = (Inr (Answered hello_result), ?db)"
    unfolding prepareInTransaction_def findCommand_def resumeMessage_def assertMatchingDigest_def
    by (simp add: hello_key row sel p hello_def js_canonical_def js_trim_def js_trim_start_def js_trim_end_def js_space_def
        max_safe_integer_def currentTime_def)
  then have "prepareMessage 30000 hello hello_digest ''w2'' (JInt 3000) db = (Inr (Answered hello_result), db)"
    unfolding prepareMessage_def transaction_ok [OF sel(2)] using sel(2) by (cases db) auto
  then have "room_step hello_sha None 30000 (put_worker ''w2'' (hello_worker 1 Looping) W1)
     (put_worker ''w2'' ((hello_worker 1 Looping)\<lparr>w_lost := False, w_error := None, w_phase := after_prepare (Inr (Answered hello_result))\<rparr>)
       ((put_worker ''w2'' (hello_worker 1 Looping) W1)\<lparr>rw_db := db\<rparr>))"
    by (intro room_step.prepare) (simp_all add: db)
  moreover have "W1\<lparr>rw_db := db\<rparr> = W1" by (simp add: W1_def)
  ultimately have 2: "room_step hello_sha None 30000 (put_worker ''w2'' (hello_worker 1 Looping) W1)
      (put_worker ''w2'' (hello_worker 1 (Returned hello_result)) W1)" by simp
  show ?thesis using room_run.stay [of hello_sha None 30000 W1] 1 2 by (meson room_run.go)
qed

end
