(* ===== verification/Room_Control_Effects.thy ===== *)
theory Room_Control_Effects
  imports Room_Example
begin

text \<open>
  Control commands that are carried out for the first time: that a valid one succeeds and what it
  leaves, and that pausing, stopping and muting leave every message behind the room's generation.
\<close>

section \<open>A fresh command\<close>

lemma roomControl_fresh:
  assumes "at_selection sel db" and "db_commands db (rc_roomId cmd, rc_requestId cmd) = None"
  shows "roomControl sha kind cmd db = (Inr x, db') \<longleftrightarrow> room_valid sel (Control kind cmd) \<and>
    (\<exists>db1. controlRoom kind (rc_roomId cmd) (rc_requestId cmd) (room_digest sha (Control kind cmd)) (db\<lparr>is_transaction := True\<rparr>) =
       (Inr x, db1) \<and> db' = db1\<lparr>is_transaction := False\<rparr>)"
proof -
  have idle: "\<not> is_transaction db" and cur: "current_room db = Some sel" using assms by (simp_all add: at_selection_def)
  show ?thesis
  proof (cases "jsafe_nonneg (rc_selectionRevision cmd)")
    case None
    then show ?thesis by (auto simp: roomControl_def)
  next
    case (Some n)
    show ?thesis
      using cur digest_eqs(1) [OF Some, of sha kind] jsafe_nonneg_bound [OF Some] assms(2)
      by (cases sel; cases x) (auto simp: Some roomControl_def transaction_ok [OF idle] findCommand_def MAX_IDENTIFIER_LENGTH_def)
  qed
qed

lemma personaControl_fresh:
  assumes "at_selection sel db" and "db_commands db (rc_roomId cmd, rc_requestId cmd) = None"
  shows "personaControl sha kind cmd db = (Inr x, db') \<longleftrightarrow> room_valid sel (Persona_Control kind cmd) \<and>
    (\<exists>db1. controlPersona kind (rc_roomId cmd) (rc_requestId cmd) (pcc_personaId cmd) (room_digest sha (Persona_Control kind cmd))
       (db\<lparr>is_transaction := True\<rparr>) = (Inr x, db1) \<and> db' = db1\<lparr>is_transaction := False\<rparr>)"
proof -
  have idle: "\<not> is_transaction db" and cur: "current_room db = Some sel" using assms by (simp_all add: at_selection_def)
  show ?thesis
  proof (cases "jsafe_nonneg (rc_selectionRevision cmd)")
    case None
    then show ?thesis by (auto simp: personaControl_def)
  next
    case (Some n)
    show ?thesis
      using cur digest_eqs(2) [OF Some, of sha kind] jsafe_nonneg_bound [OF Some] assms(2)
      by (cases sel; cases x) (auto simp: Some personaControl_def transaction_ok [OF idle] findCommand_def MAX_IDENTIFIER_LENGTH_def)
  qed
qed

section \<open>The record fits\<close>

lemma control_result_fits:
  assumes "length (rcr_requestId res) \<le> 256" and "safe_number (rcr_generation res)"
  shows "text_bound (completed (control_result_json res)) \<le> 131072"
proof -
  have "text_bound (JStr (control_name (rcr_kind res))) \<le> 100" by (cases "rcr_kind res") simp_all
  moreover have "text_bound (JStr (status_name (rcr_status res))) \<le> 100" by (cases "rcr_status res") simp_all
  ultimately show ?thesis
    using assms(1) safe_bound [OF assms(2)] by (simp add: completed_def control_result_json_def)
qed

lemma persona_result_fits:
  assumes "length (pcr_requestId res) \<le> 256" and "length (pcr_personaId res) \<le> 256" and "safe_number (pcr_generation res)"
  shows "text_bound (completed (persona_result_json res)) \<le> 131072"
proof -
  have "text_bound (JStr (mute_name (pcr_kind res))) \<le> 100" by (cases "pcr_kind res") simp_all
  then show ?thesis
    using assms(1,2) safe_bound [OF assms(3)] by (simp add: completed_def persona_result_json_def)
qed

lemma insert_completed:
  assumes "json_ok v" and "text_bound (completed v) \<le> 131072" and "length digest = 64"
    and "db_commands db (r, q) = None" and "find_room db r \<noteq> None"
  shows "\<exists>t. canonicalJson (completed v) = Inr t \<and> insertCommand r q digest (completed v) None db =
    (Inr (), db\<lparr>db_commands := (db_commands db)((r, q) \<mapsto> \<lparr>request_digest = digest, result_json = t, claim = None\<rparr>)\<rparr>)"
proof -
  have "json_ok (completed v)" using assms(1) by (simp add: completed_def)
  then obtain t where t: "canonicalJson (completed v) = Inr t" using canonicalJson_roundtrip by blast
  then show ?thesis using complete_row_fits [OF t assms(1,2,3)] assms(4,5) by (auto simp: insertCommand_ok)
qed

section \<open>A valid command succeeds\<close>

lemma controlled_frame: "controlled kind room r (db\<lparr>is_transaction := b\<rparr>) = (controlled kind room r db)\<lparr>is_transaction := b\<rparr>"
  by (cases db) (simp add: controlled_def room_changed_def released_claims_def releaseRoomClaims_def updateA_def cong: if_cong)

lemma mute_frame: "mute_controlled kind p r i (db\<lparr>is_transaction := b\<rparr>) = (mute_controlled kind p r i db)\<lparr>is_transaction := b\<rparr>"
  by (cases db) (simp add: mute_controlled_def room_changed_def person_muted_def released_claims_def releaseRoomClaims_def updateA_def cong: if_cong)

text \<open>The commit of a transaction that changed the commands.\<close>

lemma committed_commands:
  "\<not> is_transaction db \<Longrightarrow> db\<lparr>is_transaction := True, db_commands := cs, is_transaction := False\<rparr> = db\<lparr>db_commands := cs\<rparr>"
  by (cases db) simp

lemma controlRoom_succeeds:
  assumes at: "at_selection sel db" and valid: "room_valid sel (Control kind cmd)"
    and fresh: "db_commands db (rc_roomId cmd, rc_requestId cmd) = None" and room: "find_room db (rc_roomId cmd) = Some room"
    and allowed: "\<not> (kind \<in> {Resume, Pause} \<and> room_status room = Stopped)"
    and size: "safe_number (Suc (room_generation room))" and digest: "length (room_digest sha (Control kind cmd)) = 64"
  shows "\<exists>t. canonicalJson (completed (control_result_json (control_result kind room (rc_requestId cmd)))) = Inr t \<and>
    roomControl sha kind cmd db = (Inr (control_fences kind room, control_result kind room (rc_requestId cmd)),
      (controlled kind room (rc_roomId cmd) db)\<lparr>db_commands := (db_commands (controlled kind room (rc_roomId cmd) db))
        ((rc_roomId cmd, rc_requestId cmd) \<mapsto> \<lparr>request_digest = room_digest sha (Control kind cmd), result_json = t, claim = None\<rparr>)\<rparr>)"
proof -
  let ?r = "rc_roomId cmd" and ?q = "rc_requestId cmd" and ?res = "control_result kind room (rc_requestId cmd)"
  let ?c = "controlled kind room ?r (db\<lparr>is_transaction := True\<rparr>)"
  have "text_bound (completed (control_result_json ?res)) \<le> 131072"
    using valid size by (intro control_result_fits) (auto simp: control_result_def safe_number_def)
  moreover have "json_ok (control_result_json ?res)" using inverts_ok [OF inverts_control] .
  moreover have "db_commands ?c (?r, ?q) = None" using fresh by simp
  moreover have "find_room ?c ?r \<noteq> None" using controlled_room [of "db\<lparr>is_transaction := True\<rparr>" ?r room kind] room by simp
  ultimately obtain t where t: "canonicalJson (completed (control_result_json ?res)) = Inr t" and
    ins: "insertCommand ?r ?q (room_digest sha (Control kind cmd)) (completed (control_result_json ?res)) None ?c =
      (Inr (), ?c\<lparr>db_commands := (db_commands ?c)((?r, ?q) \<mapsto>
        \<lparr>request_digest = room_digest sha (Control kind cmd), result_json = t, claim = None\<rparr>)\<rparr>)"
    using insert_completed digest by blast
  have idle: "\<not> is_transaction db" using at by (simp add: at_selection_def)
  then have "\<not> is_transaction (controlled kind room ?r db)" by (simp add: controlled_def room_changed_def)
  note same = committed_commands [OF this]
  show ?thesis
    unfolding roomControl_fresh [OF at fresh] controlRoom_ok
    using t valid room allowed ins same by (intro exI [of _ t] conjI) (simp_all add: controlled_frame, blast?)
qed

lemma controlPersona_succeeds:
  assumes at: "at_selection sel db" and valid: "room_valid sel (Persona_Control kind cmd)"
    and fresh: "db_commands db (rc_roomId cmd, rc_requestId cmd) = None" and room: "find_room db (rc_roomId cmd) = Some room"
    and live: "room_status room \<noteq> Stopped" and persona: "persona_row db (rc_roomId cmd) (pcc_personaId cmd) = Some p"
    and size: "safe_number (Suc (room_generation room))" and digest: "length (room_digest sha (Persona_Control kind cmd)) = 64"
  shows "\<exists>t. canonicalJson (completed (persona_result_json (mute_result kind room p (rc_requestId cmd) (pcc_personaId cmd)))) = Inr t \<and>
    personaControl sha kind cmd db = (Inr (mute_fences kind p, mute_result kind room p (rc_requestId cmd) (pcc_personaId cmd)),
      (mute_controlled kind p (rc_roomId cmd) (pcc_personaId cmd) db)\<lparr>db_commands :=
        (db_commands (mute_controlled kind p (rc_roomId cmd) (pcc_personaId cmd) db))
        ((rc_roomId cmd, rc_requestId cmd) \<mapsto> \<lparr>request_digest = room_digest sha (Persona_Control kind cmd), result_json = t, claim = None\<rparr>)\<rparr>)"
proof -
  let ?r = "rc_roomId cmd" and ?q = "rc_requestId cmd" and ?i = "pcc_personaId cmd"
  let ?res = "mute_result kind room p ?q ?i" and ?c = "mute_controlled kind p ?r ?i (db\<lparr>is_transaction := True\<rparr>)"
  have "text_bound (completed (persona_result_json ?res)) \<le> 131072"
    using valid size by (intro persona_result_fits) (auto simp: mute_result_def safe_number_def)
  moreover have "json_ok (persona_result_json ?res)" using inverts_ok [OF inverts_persona] .
  moreover have "db_commands ?c (?r, ?q) = None" using fresh by simp
  moreover have "find_room ?c ?r \<noteq> None" using mute_controlled_room [of "db\<lparr>is_transaction := True\<rparr>" ?r room kind p ?i] room by simp
  ultimately obtain t where t: "canonicalJson (completed (persona_result_json ?res)) = Inr t" and
    ins: "insertCommand ?r ?q (room_digest sha (Persona_Control kind cmd)) (completed (persona_result_json ?res)) None ?c =
      (Inr (), ?c\<lparr>db_commands := (db_commands ?c)((?r, ?q) \<mapsto>
        \<lparr>request_digest = room_digest sha (Persona_Control kind cmd), result_json = t, claim = None\<rparr>)\<rparr>)"
    using insert_completed digest by blast
  have idle: "\<not> is_transaction db" using at by (simp add: at_selection_def)
  then have "\<not> is_transaction (mute_controlled kind p ?r ?i db)"
    by (simp add: mute_controlled_def room_changed_def person_muted_def)
  note same = committed_commands [OF this]
  have "persona_row (db\<lparr>is_transaction := True\<rparr>) ?r ?i = Some p" using persona by (simp add: persona_row_def)
  then show ?thesis
    unfolding personaControl_fresh [OF at fresh] controlPersona_ok
    using t valid room live ins same by (intro exI [of _ t] conjI) (simp_all add: mute_frame)
qed

text \<open>A stopped room is neither paused nor resumed.\<close>

lemma controlRoom_refused:
  assumes "find_room db r = Some room" and "kind \<in> {Resume, Pause}" and "room_status room = Stopped"
  shows "controlRoom kind r q d db = (Inl (PlainError ''Room is stopped''), db)"
proof -
  have "room_row_of r db = (Inr room, db)" using assms(1) by (simp add: room_row_of_def)
  then show ?thesis using assms(2,3) by (simp add: controlRoom_def bind_run action_run roomError_def)
qed

lemma roomControl_refused:
  assumes at: "at_selection sel db" and valid: "room_valid sel (Control kind cmd)"
    and fresh: "db_commands db (rc_roomId cmd, rc_requestId cmd) = None" and room: "find_room db (rc_roomId cmd) = Some room"
    and refused: "kind \<in> {Resume, Pause}" "room_status room = Stopped"
  shows "roomControl sha kind cmd db = (Inl (PlainError ''Room is stopped''), db)"
proof -
  let ?r = "rc_roomId cmd" and ?q = "rc_requestId cmd" and ?db = "db\<lparr>is_transaction := True\<rparr>"
  have ids: "canonicalIdentifier ?r ''roomId'' = Inr ?r" "canonicalIdentifier ?q ''requestId'' = Inr ?q"
    using valid by (simp_all add: MAX_IDENTIFIER_LENGTH_def)
  have n: "jsafe_nonneg (rc_selectionRevision cmd) = Some (snd sel)" using valid by simp
  then have rev: "canonicalSelectionRevision (rc_selectionRevision cmd) = Inr (snd sel)" by simp
  have sel: "requireRoomSelection ?r (JInt (int (snd sel))) ?db = (Inr (), ?db)"
    using at valid jsafe_nonneg_bound [OF n] by (cases sel) (simp add: at_selection_def)
  have found: "findCommand ?r ?q ?db = (Inr None, ?db)" using fresh by (simp add: findCommand_def)
  have no: "controlRoom kind ?r ?q d ?db = (Inl (PlainError ''Room is stopped''), ?db)" for d
    using controlRoom_refused [of ?db ?r room kind ?q d] room refused by simp
  have idle: "\<not> is_transaction db" using at by (simp add: at_selection_def)
  show ?thesis
    using sel found no digest_eqs(1) [OF n, of sha kind] idle
    by (simp add: roomControl_def action_run ids rev withImmediateTransaction_def bind_run del: requireRoomSelection_ok room_validation)
qed

text \<open>The views of the database that is left.\<close>

lemma control_leaves:
  fixes db :: db and kind :: room_control and q d t :: string
  assumes room: "find_room db r = Some room"
  defines "db1 \<equiv> controlled kind room r db"
  defines "db' \<equiv> db1\<lparr>db_commands := (db_commands db1)((r, q) \<mapsto> \<lparr>request_digest = d, result_json = t, claim = None\<rparr>)\<rparr>"
  shows "phase_of db' = (phase_of db)(r \<mapsto> (target_status kind, room_generation room + (if control_fences kind room then 1 else 0)))"
    and "room_events db' = room_events db" and "db_participants db' = db_participants db"
    and "control_fences kind room \<Longrightarrow> fst k = r \<Longrightarrow> db_commands db' k = Some row \<Longrightarrow> row_pending row \<Longrightarrow> claim row = None"
proof -
  have other: "phase_of db1 s = phase_of db s" if "s \<noteq> r" for s
    using that by (simp add: db1_def controlled_def phase_of_def changed_room control_update_def option.map_ident)
  have own: "phase_of db1 r = Some (target_status kind, room_generation room + (if control_fences kind room then 1 else 0))"
    using controlled_room [OF room, of kind] by (auto simp: db1_def phase_of_def control_update_def control_fences_def)
  have same: "phase_of db' = phase_of db1" by (simp add: db'_def fun_eq_iff phase_of_def find_room_def)
  show "phase_of db' = (phase_of db)(r \<mapsto> (target_status kind, room_generation room + (if control_fences kind room then 1 else 0)))"
  proof
    fix s
    show "phase_of db' s = ((phase_of db)(r \<mapsto> (target_status kind, room_generation room + (if control_fences kind room then 1 else 0)))) s"
      using other [of s] own by (cases "s = r") (simp_all add: same)
  qed
  have "room_events db' = room_events db1" by (simp add: db'_def fun_eq_iff room_events_def)
  then show "room_events db' = room_events db" by (simp add: db1_def controlled_def)
  show "db_participants db' = db_participants db" by (simp add: db'_def db1_def controlled_def)
  assume k: "control_fences kind room" "fst k = r" "db_commands db' k = Some row" "row_pending row"
  show "claim row = None"
  proof (cases "k = (r, q)")
    case True
    with k(3) show ?thesis by (auto simp: db'_def)
  next
    case False
    with k(3) have "db_commands db1 k = Some row" by (simp add: db'_def)
    moreover have "db1 = released_claims r (room_changed r (control_update kind room) db)"
      using k(1) by (simp add: db1_def controlled_def control_fences_def)
    ultimately show ?thesis using released_row k(2,4) by metis
  qed
qed

section \<open>Commands that fence the room\<close>

text \<open>
  A control command of room \<open>r\<close> that reports that the running generations are aborted: pausing or
  stopping an active room, stopping a paused one, muting a persona that was not muted.
\<close>

definition fences :: "(string \<Rightarrow> string) \<Rightarrow> string \<Rightarrow> db \<Rightarrow> db \<Rightarrow> bool" where
  "fences sha r db db' \<longleftrightarrow>
     (\<exists>kind cmd res. rc_roomId cmd = r \<and> roomControl sha kind cmd db = (Inr (True, res), db')) \<or>
     (\<exists>kind cmd res. rc_roomId cmd = r \<and> personaControl sha kind cmd db = (Inr (True, res), db'))"

lemma fencing_fresh:
  assumes "\<not> is_transaction db"
  shows "roomControl sha kind rc db = (Inr (True, res), db') \<Longrightarrow>
      \<exists>d db1. controlRoom kind (rc_roomId rc) (rc_requestId rc) d (db\<lparr>is_transaction := True\<rparr>) = (Inr (True, res), db1) \<and>
        db' = db1\<lparr>is_transaction := False\<rparr>"
    and "personaControl sha mkind pc db = (Inr (True, pres), db') \<Longrightarrow>
      \<exists>d db1. controlPersona mkind (rc_roomId pc) (rc_requestId pc) (pcc_personaId pc) d (db\<lparr>is_transaction := True\<rparr>) =
        (Inr (True, pres), db1) \<and> db' = db1\<lparr>is_transaction := False\<rparr>"
  by (auto simp: roomControl_def personaControl_def transaction_ok [OF assms] findCommand_def split: option.splits)

lemma insert_messages:
  assumes "insertCommand r q d v None db1 = (Inr u, db')" and "message_at db1 = message_at db"
    and "\<And>k. db_commands db1 k = None \<longleftrightarrow> db_commands db k = None"
  shows "message_at db k = Some sc \<Longrightarrow> message_at db' k = Some sc" and "phase_of db' = phase_of db1"
proof -
  from assms(1) obtain t where t: "db_commands db1 (r, q) = None"
    "db' = db1\<lparr>db_commands := (db_commands db1)((r, q) \<mapsto> \<lparr>request_digest = d, result_json = t, claim = None\<rparr>)\<rparr>"
    by (auto simp: insertCommand_ok)
  show "message_at db' k = Some sc" if "message_at db k = Some sc"
  proof -
    have "k \<noteq> (r, q)" using that t(1) assms(3) by (auto simp: message_at_def)
    moreover have "message_at db1 k = Some sc" using that assms(2) by simp
    ultimately show ?thesis by (simp add: message_at_def t(2))
  qed
  show "phase_of db' = phase_of db1" by (simp add: t(2) phase_of_def fun_eq_iff find_room_def)
qed

lemma fence_effect:
  assumes idle: "\<not> is_transaction db" and fence: "fences sha r db db'"
  shows "\<exists>st g st'. phase_of db r = Some (st, g) \<and> phase_of db' r = Some (st', Suc g) \<and>
    (\<forall>k sc. message_at db k = Some sc \<longrightarrow> message_at db' k = Some sc)"
proof -
  let ?db = "db\<lparr>is_transaction := True\<rparr>"
  have frame: "message_at ?db = message_at db" "phase_of ?db = phase_of db" "db_commands ?db = db_commands db"
    by (simp_all add: fun_eq_iff message_at_def phase_of_def find_room_def)
  have committed: "message_at (d\<lparr>is_transaction := False\<rparr>) = message_at d" "phase_of (d\<lparr>is_transaction := False\<rparr>) = phase_of d" for d
    by (simp_all add: fun_eq_iff message_at_def phase_of_def find_room_def)
  from fence consider
      kind cmd res where "rc_roomId cmd = r" "roomControl sha kind cmd db = (Inr (True, res), db')"
    | mkind pc pres where "rc_roomId pc = r" "personaControl sha mkind pc db = (Inr (True, pres), db')"
    unfolding fences_def by blast
  then show ?thesis
  proof cases
    case 1
    from fencing_fresh(1) [OF idle 1(2)] 1(1) obtain d db1 room where room: "find_room ?db r = Some room" and
      fenced: "control_fences kind room" and db': "db' = db1\<lparr>is_transaction := False\<rparr>" and
      ins: "insertCommand r (rc_requestId cmd) d (completed (control_result_json res)) None (controlled kind room r ?db) = (Inr (), db1)"
      by (auto simp: controlRoom_ok)
    have same: "message_at (controlled kind room r ?db) = message_at ?db" by (simp add: controlled_def)
    note m = insert_messages [OF ins same]
    have "room_status room \<noteq> target_status kind" using fenced by (simp add: control_fences_def)
    then have "phase_of (controlled kind room r ?db) r = Some (target_status kind, Suc (room_generation room))"
      using controlled_room [OF room, of kind] fenced by (simp add: phase_of_def control_update_def)
    moreover have "phase_of db r = Some (room_status room, room_generation room)"
      using room unfolding frame(2) [symmetric] by (simp add: phase_of_def)
    ultimately show ?thesis using m by (simp add: db' committed frame)
  next
    case 2
    from fencing_fresh(2) [OF idle 2(2)] 2(1) obtain d db1 room persona where room: "find_room ?db r = Some room" and
      fenced: "mute_fences mkind persona" and db': "db' = db1\<lparr>is_transaction := False\<rparr>" and
      ins: "insertCommand r (rc_requestId pc) d (completed (persona_result_json pres)) None
        (mute_controlled mkind persona r (pcc_personaId pc) ?db) = (Inr (), db1)"
      by (auto simp: controlPersona_ok)
    have same: "message_at (mute_controlled mkind persona r (pcc_personaId pc) ?db) = message_at ?db" by (simp add: mute_controlled_def)
    note m = insert_messages [OF ins same]
    have "phase_of (mute_controlled mkind persona r (pcc_personaId pc) ?db) r = Some (room_status room, Suc (room_generation room))"
      using mute_controlled_room [OF room, of mkind persona "pcc_personaId pc"] fenced by (simp add: phase_of_def)
    moreover have "phase_of db r = Some (room_status room, room_generation room)"
      using room unfolding frame(2) [symmetric] by (simp add: phase_of_def)
    ultimately show ?thesis using m by (simp add: db' committed frame)
  qed
qed

text \<open>A message that is behind its room and unanswered stays unanswered.\<close>

lemma fenced_stays:
  assumes "message_grows db db'" and "message_at db (r, q) = Some sc" and "published sc = []"
    and "phase_of db r = Some (st, g)" and "generation_of sc < g"
  shows "\<exists>sc'. message_at db' (r, q) = Some sc' \<and> core_of sc' = core_of sc \<and> published sc' = []"
proof -
  from assms(1,2) obtain sc' where sc': "message_at db' (r, q) = Some sc'" "core_of sc' = core_of sc"
    "published sc' \<noteq> [] \<longrightarrow> sc' = sc \<or> unfenced db r sc" unfolding message_grows_def by blast
  have "\<not> unfenced db r sc" using assms(4,5) by (simp add: unfenced_def)
  with sc' assms(3) show ?thesis by blast
qed

lemma fence_step:
  assumes "fences sha r (rw_db W) db'"
  shows "room_step sha evidence lease W (W\<lparr>rw_db := db'\<rparr>)"
  using assms unfolding fences_def by (blast intro: room_step.room_control room_step.persona_control)

end
