(* ===== verification/Room_Claims.thy ===== *)
theory Room_Claims
  imports Room_Control_Effects
begin

text \<open>
  What the room service promises about messages, over every run of workers, control commands, library
  commands and provider operations from the database that the migrations leave.
\<close>

section \<open>One answer for a message\<close>

text \<open>
  C2: in every world that a run reaches, a stored message has its own human event
  in the room's log, the persona messages that name this event as their source are exactly those its
  command reports (none while it is pending, at most one afterwards, one exactly when the outcome is
  text), no other message has that human event, and every persona message of the room names the human
  event of some stored message. So however workers interleave, crash, lose their claims or are taken
  over, a message is answered at most once.
\<close>

theorem one_answer_per_message:
  assumes "room_run sha evidence lease (first_world clock) W" and "message_at (rw_db W) (r, q) = Some sc"
  shows "human_of sc \<in> set (humans (rw_db W) r) \<and>
    answers_to (rw_db W) r (human_of sc) = published sc \<and> length (published sc) \<le> 1 \<and> outcome_ok sc \<and>
    (\<forall>q' sc'. message_at (rw_db W) (r, q') = Some sc' \<longrightarrow> human_of sc' = human_of sc \<longrightarrow> q' = q) \<and>
    (\<forall>s \<in> set (map fst (answers (rw_db W) r)). \<exists>q sc. message_at (rw_db W) (r, q) = Some sc \<and> s = JInt (int (human_of sc)))"
proof -
  have ok: "messages_ok (rw_db W)" using run_advances(4) [OF assms(1) room_run.stay] .
  then have m: "message_ok (rw_db W) r sc" using assms(2) unfolding messages_ok_def by blast
  have "length (published sc) \<le> 1" by (cases sc) (auto split: option.splits)
  moreover have "\<forall>q' sc'. message_at (rw_db W) (r, q') = Some sc' \<longrightarrow> human_of sc' = human_of sc \<longrightarrow> q' = q"
    using ok assms(2) unfolding messages_ok_def by metis
  moreover have "\<forall>s \<in> set (map fst (answers (rw_db W) r)). \<exists>q sc. message_at (rw_db W) (r, q) = Some sc \<and> s = JInt (int (human_of sc))"
    using ok unfolding messages_ok_def by blast
  ultimately show ?thesis using m unfolding message_ok_def by blast
qed

theorem one_answer_per_message_witness:
  "\<exists>W. room_run hello_sha None 30000 (first_world []) W \<and> answers_to (rw_db W) ''first-playable'' 1 = [3]"
proof -
  from hello_run obtain W where run: "room_run hello_sha None 30000 (first_world []) W" and rec: "hello_recorded W" by blast
  from hello_answered [OF run rec] obtain db t where
    on: "room_run hello_sha None 30000 W (put_worker ''w1'' (hello_worker 0 (Returned hello_result)) (W\<lparr>rw_db := db\<rparr>))" (is "room_run _ _ _ _ ?W1") and
    t: "canonicalJson (completed (message_result_json hello_result)) = Inr t" and
    row: "db_commands db (''first-playable'', ''m1'') = Some \<lparr>request_digest = hello_digest, result_json = t, claim = None\<rparr>" by blast
  have at: "message_at (rw_db ?W1) (''first-playable'', ''m1'') = Some (Complete_Command hello_result)"
    using stored_complete [OF t] by (simp add: message_at_def row)
  have "answers_to (rw_db ?W1) ''first-playable'' 1 = [3]"
    using one_answer_per_message [OF run_trans [OF on run] at]
    by (auto simp: hello_result_def finished_result_def hello_pending_def)
  then show ?thesis using run_trans [OF on run] by blast
qed

text \<open>
  C4: a worker that returned leaves its answer for good. If a worker returned a result and,
  at any later point of the run, some worker for the same request has returned, it returned the same
  result, and that result is what the command stores.
\<close>

theorem workers_agree:
  assumes "room_run sha evidence lease (first_world clock) W1" and "room_run sha evidence lease W1 W2"
    and "rw_workers W1 owner = Some w" and "w_phase w = Returned res"
    and "rw_workers W2 owner' = Some w'" and "w_phase w' = Returned res'" and "w_key w' = w_key w"
  shows "res' = res \<and> message_at (rw_db W2) (w_key w) = Some (Complete_Command res)"
proof -
  note run = run_advances [OF assms(1,2)]
  have "message_at (rw_db W1) (w_key w) = Some (Complete_Command res)" using worker_ok [OF run(1) assms(3)] assms(4) by simp
  with phase_later [of "rw_db W1" "w_key w" "Returned res" "rw_db W2"] run(3)
  have "message_at (rw_db W2) (w_key w) = Some (Complete_Command res)" by simp
  moreover have "message_at (rw_db W2) (w_key w) = Some (Complete_Command res')"
    using worker_ok [OF run(2) assms(5)] assms(6,7) by simp
  ultimately show ?thesis by simp
qed

theorem workers_agree_witness:
  "\<exists>W :: room_world. message_at (rw_db W) (''first-playable'', ''m1'') = Some (Complete_Command hello_result)"
proof -
  from hello_run obtain W where run: "room_run hello_sha None 30000 (first_world []) W" and rec: "hello_recorded W" by blast
  from hello_answered [OF run rec] obtain db t where
    on: "room_run hello_sha None 30000 W (put_worker ''w1'' (hello_worker 0 (Returned hello_result)) (W\<lparr>rw_db := db\<rparr>))" (is "room_run _ _ _ _ ?W1") and
    rest: "canonicalJson (completed (message_result_json hello_result)) = Inr t"
      "db_commands db (''first-playable'', ''m1'') = Some \<lparr>request_digest = hello_digest, result_json = t, claim = None\<rparr>"
      "current_room db = Some (''first-playable'', 0)" "\<not> is_transaction db" by blast
  note again = hello_resent [OF rec rest]
  have "rw_workers ?W1 ''w1'' = Some (hello_worker 0 (Returned hello_result))"
    "rw_workers (put_worker ''w2'' (hello_worker 1 (Returned hello_result)) ?W1) ''w2'' = Some (hello_worker 1 (Returned hello_result))"
    by simp_all
  from workers_agree [OF run_trans [OF on run] again this(1) _ this(2), of hello_result hello_result]
  have "message_at (rw_db (put_worker ''w2'' (hello_worker 1 (Returned hello_result)) ?W1)) (''first-playable'', ''m1'') =
      Some (Complete_Command hello_result)" by simp
  then show ?thesis by blast
qed

section \<open>Controls fence messages\<close>

text \<open>
  C5: once a room is stopped, it stays stopped with its generation, and its log never
  changes again, whatever workers, commands and operations follow.
\<close>

theorem stopped_room_frozen:
  assumes "room_run sha evidence lease (first_world clock) W1" and "phase_of (rw_db W1) r = Some (Stopped, g)"
    and "room_run sha evidence lease W1 W2"
  shows "phase_of (rw_db W2) r = Some (Stopped, g) \<and> room_events (rw_db W2) r = room_events (rw_db W1) r"
proof -
  have "room_grows (rw_db W1) (rw_db W2)" using run_advances(3) [OF assms(1,3)] by (simp add: advances_def)
  with assms(2) show ?thesis unfolding room_grows_def by fastforce
qed


lemma first_phase: "phase_of (rw_db (first_world clock)) ''first-playable'' = Some (Active, 0)"
  by (simp add: first_world_def migrated_views)


text \<open>A stop in the first world.\<close>

definition stop_command :: room_command where
  "stop_command = \<lparr>rc_requestId = ''s1'', rc_roomId = ''first-playable'', rc_selectionRevision = JInt 0\<rparr>"

lemma hello_room_digest: "room_digest hello_sha c = hello_digest"
  using room_request_digest [of hello_sha c] by (auto simp: jsonDigest_def hello_sha_def split: sum.splits)

lemma stop_valid: "room_valid (''first-playable'', 0) (Control kind stop_command)"
  by (simp add: stop_command_def js_canonical_def js_trim_def js_trim_start_def js_trim_end_def js_space_def max_safe_integer_def)

theorem stopped_room_frozen_witness:
  "\<exists>W :: room_world. phase_of (rw_db W) ''first-playable'' = Some (Stopped, 1) \<and> room_events (rw_db W) ''first-playable'' = []"
proof -
  let ?W = "first_world []"
  have at: "at_selection (''first-playable'', 0) (rw_db ?W)" by (simp add: at_selection_def first_world_def migrated_views) (simp add: migrated_db_def)
  have key: "rc_roomId stop_command = ''first-playable''" "rc_requestId stop_command = ''s1''" by (simp_all add: stop_command_def)
  have room: "find_room (rw_db ?W) (rc_roomId stop_command) = Some (first_room [])" by (simp add: first_world_def migrated_views key)
  have fresh: "db_commands (rw_db ?W) (rc_roomId stop_command, rc_requestId stop_command) = None" by (simp add: first_world_def migrated_views)
  from controlRoom_succeeds [OF at stop_valid fresh room, of Stop hello_sha] obtain aborts res t where
    run: "roomControl hello_sha Stop stop_command (rw_db ?W) = (Inr (aborts, res),
      (controlled Stop (first_room []) ''first-playable'' (rw_db ?W))\<lparr>db_commands := t\<rparr>)" (is "_ = (_, ?db)")
    by (auto simp: first_room_def safe_number_def max_safe_integer_def hello_room_digest hello_digest_def key)
  have 1: "room_run hello_sha None 30000 ?W (?W\<lparr>rw_db := ?db\<rparr>)"
    using room_run.go [OF room_run.stay room_step.room_control [OF run]] .
  have "find_room ?db ''first-playable'' = find_room (controlled Stop (first_room []) ''first-playable'' (rw_db ?W)) ''first-playable''"
    by (simp add: find_room_def)
  then have 2: "phase_of (rw_db (?W\<lparr>rw_db := ?db\<rparr>)) ''first-playable'' = Some (Stopped, 1)"
    using controlled_room [of "rw_db ?W" "''first-playable''" "first_room []" Stop] room
    by (simp add: phase_of_def key control_update_def control_fences_def first_room_def)
  have "room_events ?db ''first-playable'' = []"
    by (simp add: controlled_def room_changed_def room_events_def first_world_def migrated_db_def released_claims_def releaseRoomClaims_def updateA_def)
  with stopped_room_frozen [OF 1 2 room_run.stay] 2 show ?thesis by (intro exI [where x = "?W\<lparr>rw_db := ?db\<rparr>"]) simp
qed

text \<open>
  C3: when a control command pauses or stops the room, or mutes a persona
  that could speak, no message that was pending at that moment is ever answered: whatever follows
  (workers still generating for it, taking over its claim, the room being resumed), its command never
  reports a persona message and no persona message ever names its human event as source.
\<close>

theorem fenced_message_never_answered:
  assumes "room_run sha evidence lease (first_world clock) W" and "message_at (rw_db W) (r, q) = Some (Pending_Command p)"
    and "fences sha r (rw_db W) db'" and "room_run sha evidence lease (W\<lparr>rw_db := db'\<rparr>) W2"
  shows "\<exists>sc. message_at (rw_db W2) (r, q) = Some sc \<and> published sc = [] \<and> answers_to (rw_db W2) r (pm_human p) = []"
proof -
  let ?W1 = "W\<lparr>rw_db := db'\<rparr>"
  have run1: "room_run sha evidence lease (first_world clock) ?W1" using room_run.go [OF assms(1) fence_step [OF assms(3)]] .
  have idle: "\<not> is_transaction (rw_db W)" using run_advances(1) [OF assms(1) room_run.stay] by (simp add: world_ok_def db_ok_def)
  from fence_effect [OF idle assms(3)] assms(2) obtain st g st' where ph: "phase_of (rw_db W) r = Some (st, g)"
    "phase_of db' r = Some (st', Suc g)" and at: "message_at db' (r, q) = Some (Pending_Command p)" by blast
  have "message_ok (rw_db W) r (Pending_Command p)"
    using run_advances(4) [OF assms(1) room_run.stay] assms(2) unfolding messages_ok_def by blast
  then have "generation_of (Pending_Command p) < Suc g" using ph(1) by (auto simp: message_ok_def)
  moreover have "message_grows db' (rw_db W2)" using run_advances(3) [OF run1 assms(4)] by (simp add: advances_def)
  ultimately obtain sc where sc: "message_at (rw_db W2) (r, q) = Some sc" "core_of sc = core_of (Pending_Command p)" "published sc = []"
    using fenced_stays [OF _ at _ ph(2)] by auto
  have "message_ok (rw_db W2) r sc" using run_advances(4) [OF run1 assms(4)] sc(1) unfolding messages_ok_def by blast
  then show ?thesis using sc same_core [OF sc(2)] by (auto simp: message_ok_def)
qed

text \<open>The message of the example, then a pause, while the provider is still to answer.\<close>

lemma pause_valid: "room_valid (''first-playable'', 0) (Control kind stop_command)"
  by (simp add: stop_command_def js_canonical_def js_trim_def js_trim_start_def js_trim_end_def js_space_def max_safe_integer_def)

lemma hello_paused:
  assumes "hello_recorded W"
  shows "\<exists>db. fences hello_sha ''first-playable'' (rw_db W) db"
proof -
  from assms have sel: "at_selection (''first-playable'', 0) (rw_db W)" by (simp add: hello_recorded_def at_selection_def)
  from assms have ph: "phase_of (rw_db W) ''first-playable'' = Some (Active, 0)" by (simp add: hello_recorded_def)
  then obtain room where room: "find_room (rw_db W) ''first-playable'' = Some room" "room_status room = Active" "room_generation room = 0"
    by (auto simp: phase_of_def)
  have key: "rc_roomId stop_command = ''first-playable''" "rc_requestId stop_command = ''s1''" by (simp_all add: stop_command_def)
  have fresh: "db_commands (rw_db W) (rc_roomId stop_command, rc_requestId stop_command) = None"
    using assms by (auto simp: hello_recorded_def key)
  have "find_room (rw_db W) (rc_roomId stop_command) = Some room" by (simp add: key room)
  from controlRoom_succeeds [OF sel pause_valid fresh this, of Pause hello_sha] room obtain res db where
    "roomControl hello_sha Pause stop_command (rw_db W) = (Inr (True, res), db)"
    by (auto simp: control_fences_def safe_number_def max_safe_integer_def hello_room_digest hello_digest_def)
  then show ?thesis unfolding fences_def using key(1) by blast
qed

theorem fenced_message_never_answered_witness:
  "\<exists>(W :: room_world) db. fences hello_sha ''first-playable'' (rw_db W) db \<and>
     answers_to (rw_db (W\<lparr>rw_db := db\<rparr>)) ''first-playable'' (pm_human hello_pending) = []"
proof -
  from hello_run obtain W where run: "room_run hello_sha None 30000 (first_world []) W" and rec: "hello_recorded W" by blast
  from hello_paused [OF rec] obtain db where fence: "fences hello_sha ''first-playable'' (rw_db W) db" by blast
  from fenced_message_never_answered [OF run hello_pending_at [OF rec] fence room_run.stay]
  have "answers_to (rw_db (W\<lparr>rw_db := db\<rparr>)) ''first-playable'' (pm_human hello_pending) = []" by blast
  with fence show ?thesis by blast
qed

section \<open>Control commands\<close>

text \<open>
  A control command (pause, resume, stop, mute, unmute) that succeeded is
  answered alike and without any effect when it is sent again, whatever control commands ran in
  between; and a command of the same family with its request id but another digest is refused.
\<close>

theorem control_answered_once:
  assumes "at_selection sel db" and "runRoom sha c db = (Inr answer, db1)" and "db2 = ctl.run_all sha cs db1"
  shows "runRoom sha c db2 = (Inr answer, db2) \<and>
    (room_key_of c' = room_key_of c \<longrightarrow> room_digest sha c' \<noteq> room_digest sha c \<longrightarrow> (\<exists>e. runRoom sha c' db2 = (Inl e, db2)))"
  using ctl.answered_once [OF assms(1,2)] ctl.id_not_reused [OF assms(1,2)] by (simp_all add: assms(3))

lemma first_at: "at_selection (''first-playable'', 0) (migrated_db clock)"
  by (simp add: at_selection_def migrated_views) (simp add: migrated_db_def)

lemma stop_key: "rc_roomId stop_command = ''first-playable''" "rc_requestId stop_command = ''s1''"
  by (simp_all add: stop_command_def)

lemma stop_runs: "\<exists>db. roomControl hello_sha Stop stop_command (migrated_db []) = (Inr (True, control_result Stop (first_room []) ''s1''), db)"
proof -
  have room: "find_room (migrated_db []) (rc_roomId stop_command) = Some (first_room [])" by (simp add: migrated_views stop_key)
  have fresh: "db_commands (migrated_db []) (rc_roomId stop_command, rc_requestId stop_command) = None" by (simp add: migrated_views)
  have "control_fences Stop (first_room []) = True" by (simp add: control_fences_def first_room_def)
  with controlRoom_succeeds [OF first_at stop_valid fresh room, of Stop hello_sha] show ?thesis
    by (auto simp: first_room_def safe_number_def max_safe_integer_def hello_room_digest hello_digest_def stop_key)
qed

theorem control_answered_once_witness:
  "\<exists>db. runRoom hello_sha (Control Stop stop_command) db = (Inr (Control_Answer (control_result Stop (first_room []) ''s1'')), db)"
proof -
  from stop_runs obtain db where "roomControl hello_sha Stop stop_command (migrated_db []) = (Inr (True, control_result Stop (first_room []) ''s1''), db)" by blast
  then have "runRoom hello_sha (Control Stop stop_command) (migrated_db []) = (Inr (Control_Answer (control_result Stop (first_room []) ''s1'')), db)"
    by (simp add: runRoom_def bind_run returnA_def)
  from control_answered_once [OF first_at this refl] show ?thesis by blast
qed

text \<open>
  C10: a valid control command with a new request id, sent to the selected room,
  succeeds unless it would pause or resume a stopped room, and then nothing changes. It leaves the room
  in its target status, moves the generation by one exactly when it pauses or stops a room that was not
  in that status already, drops in this case the claim of every pending message of the room, and leaves
  the logs, the participants and every other room alone.
\<close>

theorem control_carried_out:
  assumes "at_selection sel db" and "room_valid sel (Control kind cmd)" and "rc_roomId cmd = r" and "rc_requestId cmd = q"
    and "db_commands db (r, q) = None" and "find_room db r = Some room"
    and "safe_number (Suc (room_generation room))" and "length (room_digest sha (Control kind cmd)) = 64"
  shows "if kind \<in> {Resume, Pause} \<and> room_status room = Stopped
    then roomControl sha kind cmd db = (Inl (PlainError ''Room is stopped''), db)
    else \<exists>db'. roomControl sha kind cmd db = (Inr (control_fences kind room, control_result kind room q), db') \<and>
      phase_of db' = (phase_of db)(r \<mapsto> (target_status kind, room_generation room + (if control_fences kind room then 1 else 0))) \<and>
      room_events db' = room_events db \<and> db_participants db' = db_participants db \<and>
      (\<forall>k row. control_fences kind room \<longrightarrow> fst k = r \<longrightarrow> db_commands db' k = Some row \<longrightarrow> row_pending row \<longrightarrow> claim row = None)"
proof (cases "kind \<in> {Resume, Pause} \<and> room_status room = Stopped")
  case True
  with roomControl_refused [OF assms(1,2)] assms(3-6) show ?thesis by simp
next
  case False
  with controlRoom_succeeds [OF assms(1,2) _ _ _ assms(7,8)] assms(3-6) obtain t where
    "roomControl sha kind cmd db = (Inr (control_fences kind room, control_result kind room q),
      (controlled kind room r db)\<lparr>db_commands := (db_commands (controlled kind room r db))
        ((r, q) \<mapsto> \<lparr>request_digest = room_digest sha (Control kind cmd), result_json = t, claim = None\<rparr>)\<rparr>)" by auto
  moreover note control_leaves [OF assms(6), where kind = kind and q = q and d = "room_digest sha (Control kind cmd)" and t = t]
  ultimately show ?thesis unfolding if_not_P [OF False] by blast
qed

theorem control_carried_out_witness:
  "\<exists>db. roomControl hello_sha Stop stop_command (migrated_db []) = (Inr (True, control_result Stop (first_room []) ''s1''), db) \<and>
     phase_of db ''first-playable'' = Some (Stopped, 1)"
proof -
  have room: "find_room (migrated_db []) ''first-playable'' = Some (first_room [])" by (simp add: migrated_views)
  have fresh: "db_commands (migrated_db []) (''first-playable'', ''s1'') = None" by (simp add: migrated_views)
  have fences: "control_fences Stop (first_room []) = True" "room_generation (first_room []) = 0"
    by (simp_all add: control_fences_def first_room_def)
  from control_carried_out [OF first_at stop_valid stop_key fresh room, of hello_sha Stop] fences show ?thesis
    by (fastforce simp: safe_number_def max_safe_integer_def hello_room_digest hello_digest_def)
qed

end
