(* ===== verification/Room_Turns.thy ===== *)
theory Room_Turns
  imports Room_Recording
begin

text \<open>
  The speakers of consecutive messages of a room whose cast does not change: \<open>#decide\<close> gives every
  unmuted persona its turn.
\<close>

section \<open>Taking turns\<close>

definition may_speak :: "participant_row \<Rightarrow> bool" where
  "may_speak p \<longleftrightarrow> \<not> part_muted p"

lemma last_rotate:
  assumes "ps \<noteq> []"
  shows "last (rotate a ps) = ps ! ((a + length ps - 1) mod length ps)"
proof -
  have "a + (length ps - 1) = a + length ps - 1" using assms by (cases ps) simp_all
  then show ?thesis using assms nth_rotate [of "length ps - 1" ps a] by (simp add: last_conv_nth)
qed

lemma length_filter_rotate: "length (filter P (rotate m xs)) = length (filter P xs)"
proof -
  let ?k = "m mod length xs"
  have "filter P xs = filter P (take ?k xs) @ filter P (drop ?k xs)" by (metis append_take_drop_id filter_append)
  then have "length (filter P xs) = length (filter P (drop ?k xs @ take ?k xs))" by simp
  then show ?thesis by (simp only: rotate_drop_take)
qed

text \<open>A rotation of a list without repetitions is known by its last element.\<close>

lemma rotation_ending_with:
  assumes "distinct ps" and "k < length ps" and "last (rotate a ps) = ps ! k"
  shows "rotate a ps = rotate (Suc k) ps"
proof -
  let ?n = "length ps"
  have n: "0 < ?n" "ps \<noteq> []" using assms(2) by auto
  have "(a + ?n - 1) mod ?n = k"
    using assms n last_rotate [OF n(2), of a] by (metis mod_less_divisor nth_eq_iff_index_eq)
  then have "Suc k mod ?n = (a + ?n - 1 + 1) mod ?n" by (metis Suc_eq_plus1 mod_add_left_eq)
  also have "\<dots> = a mod ?n" using n by simp
  finally show ?thesis by (metis rotate_conv_mod)
qed

lemma turns_after_speaker:
  assumes d: "distinct (map part_id ps)" and split: "turns_after last_speaker ps = A @ p # B"
  shows "turns_after (Some (part_id p)) ps = B @ A @ [p]"
proof -
  obtain m where m: "rotate m ps = A @ p # B" using split by (simp add: turns_after_def)
  then have "p \<in> set ps" by (metis in_set_conv_decomp set_rotate)
  let ?P = "\<lambda>x. Some (part_id x) = Some (part_id p)"
  obtain k where k: "findIndex ?P ps = Some k"
    using findIndex_None [of ?P ps p] \<open>p \<in> set ps\<close> by (cases "findIndex ?P ps") auto
  then have kp: "k < length ps" "ps ! k = p"
    using findIndex_Some [OF k] \<open>p \<in> set ps\<close> d by (auto simp: in_set_conv_nth distinct_conv_nth)
  have "rotate (length (A @ [p])) (rotate m ps) = B @ A @ [p]"
    using rotate_append [of "A @ [p]" B] by (simp add: m)
  then have r: "rotate (length (A @ [p]) + m) ps = B @ A @ [p]" by (simp add: rotate_rotate)
  then have "last (rotate (length (A @ [p]) + m) ps) = ps ! k" by (simp add: kp(2))
  from rotation_ending_with [OF _ kp(1) this] d r have "rotate (Suc k) ps = B @ A @ [p]" by (simp add: distinct_map)
  then show ?thesis using k by (simp add: turns_after_def)
qed

text \<open>Who speaks next, and the order of turns after that.\<close>

lemma next_turn:
  assumes d: "distinct (map part_id ps)" and turns: "filter may_speak (turns_after last_speaker ps) = p # later"
  shows "pick_speaker ps last_speaker True None = Inr (decision (Some (part_id p)) Selected)"
    and "filter may_speak (turns_after (Some (part_id p)) ps) = later @ [p]"
proof -
  from turns obtain A B where split: "turns_after last_speaker ps = A @ p # B" and
    A: "\<forall>x \<in> set A. \<not> may_speak x" and p: "may_speak p" and later: "later = filter may_speak B"
    by (auto simp: filter_eq_Cons_iff)
  have none: "filter may_speak A = []" using A by (simp add: filter_empty_conv)
  have "find (\<lambda>x. \<not> part_muted x) (A @ p # B) = Some p"
  proof -
    have "find (\<lambda>x. \<not> part_muted x) (A @ C) = find (\<lambda>x. \<not> part_muted x) C" for C
      using A by (induction A) (auto simp: may_speak_def)
    with p show ?thesis by (simp add: may_speak_def)
  qed
  moreover have "ps \<noteq> []" using split turns_same(2) [of last_speaker ps] by auto
  ultimately show "pick_speaker ps last_speaker True None = Inr (decision (Some (part_id p)) Selected)" by (simp add: split)
  show "filter may_speak (turns_after (Some (part_id p)) ps) = later @ [p]"
    using p by (simp add: turns_after_speaker [OF d split] later none)
qed

section \<open>A sequence of messages\<close>

text \<open>
  The speakers that \<open>#decide\<close> chooses for messages with human events \<open>hs\<close> that name nobody, the
  director's row being updated after each.
\<close>

fun spoken :: "db \<Rightarrow> string \<Rightarrow> nat \<Rightarrow> director_row \<Rightarrow> nat list \<Rightarrow> string list" where
  "spoken db r g state [] = []"
| "spoken db r g state (h # hs) =
     (case fst (decide r state True None db) of
        Inl e \<Rightarrow> []
      | Inr d \<Rightarrow> (case speaker d of None \<Rightarrow> [] | Some i \<Rightarrow> i # spoken db r g (director_after state h d g) hs))"

lemma spoken_turns:
  assumes d: "distinct (map part_id (personas_of db r))"
  shows "length hs \<le> length (filter may_speak (personas_of db r)) \<Longrightarrow>
    spoken db r g state hs = map part_id (take (length hs) (filter may_speak (turns_after (last_speaker_id state) (personas_of db r))))"
proof (induction hs arbitrary: state)
  case Nil
  then show ?case by simp
next
  case (Cons h hs)
  let ?ps = "personas_of db r"
  let ?turns = "filter may_speak (turns_after (last_speaker_id state) ?ps)"
  have "length ?turns = length (filter may_speak ?ps)"
    by (simp add: turns_after_def length_filter_rotate)
  with Cons.prems obtain p later where turns: "?turns = p # later" and len: "length hs \<le> length later"
    by (cases ?turns) auto
  note nt = next_turn [OF d turns]
  let ?d = "decision (Some (part_id p)) Selected"
  have after: "last_speaker_id (director_after state h ?d g) = Some (part_id p)"
    by (simp add: director_after_def decision_def)
  have "spoken db r g state (h # hs) = part_id p # spoken db r g (director_after state h ?d g) hs"
    using decide_chooses [OF d, of state True None] nt(1) by (simp add: decision_def)
  also have "spoken db r g (director_after state h ?d g) hs = map part_id (take (length hs) (later @ [p]))"
    using Cons.IH [of "director_after state h ?d g"] Cons.prems by (simp add: after nt(2))
  also have "take (length hs) (later @ [p]) = take (length hs) later" using len by simp
  finally show ?case by (simp add: turns)
qed

end
