(* ===== verification/Room_Options.thy ===== *)
theory Room_Options
  imports Room_Control_Effects
begin

text \<open>
  The constructor of the room service of \<open>src/runtime/room-service.ts\<close>, its call of the room library
  (\<open>replaceCast\<close>), and the timing of the lease that the constructor accepts.
\<close>

section \<open>Options\<close>

text \<open>A number option can be any value; \<open>undefined\<close> and \<open>null\<close> stand for the default.\<close>

fun jinteger :: "jval \<Rightarrow> int option" where
  "jinteger (JNum (Num m e)) = (if e = 0 then Some m else None)"
| "jinteger _ = None"

record room_service_options =
  rso_evidence :: "(jval \<times> jval) option"
  rso_generationTimeoutMs :: jval
  rso_maxAutonomousTurns :: jval
  rso_pendingWorkLeaseMs :: jval
  rso_pendingWorkPollMs :: jval
  rso_personaCatalog :: "(string \<times> string) list"

text \<open>The fields that the constructor keeps of them.\<close>

record room_service_settings =
  rss_generationTimeoutMs :: nat
  rss_pendingWorkLeaseMs :: nat
  rss_pendingWorkPollMs :: nat
  rss_personaCatalog :: "(string \<times> string) list"

definition DEFAULT_ROOM_TURN_BUDGET :: nat where "DEFAULT_ROOM_TURN_BUDGET = 10"

definition boundedMs :: "jval \<Rightarrow> nat \<Rightarrow> string \<Rightarrow> js_error + nat" where
  "boundedMs v limit message =
     (case jsafe_nonneg v of
        None \<Rightarrow> Inl (TypeError message)
      | Some n \<Rightarrow> if n \<le> 0 \<or> n > limit then Inl (TypeError message) else Inr n)"

definition evidence_ok :: "(jval \<times> jval) option \<Rightarrow> bool" where
  "evidence_ok evidence =
     (case evidence of
        None \<Rightarrow> True
      | Some (d, p) \<Rightarrow>
          (case jinteger d of None \<Rightarrow> False | Some n \<Rightarrow> 1 \<le> n) \<and> (case jinteger p of None \<Rightarrow> False | Some n \<Rightarrow> 1 \<le> n))"

definition newRoomService :: "room_service_options \<Rightarrow> js_error + room_service_settings" where
  "newRoomService o' =
     (if (case jinteger (coalesce (rso_maxAutonomousTurns o') (JInt (int DEFAULT_ROOM_TURN_BUDGET))) of
            None \<Rightarrow> True | Some n \<Rightarrow> n < 0)
      then Inl (TypeError ''maxAutonomousTurns must be a non-negative integer'')
      else
        bindE (boundedMs (coalesce (rso_generationTimeoutMs o') (JInt (int DEFAULT_GENERATION_TIMEOUT_MS)))
                 MAX_GENERATION_TIMEOUT_MS ''generationTimeoutMs must be a bounded positive integer'') (\<lambda>timeout.
        bindE (boundedMs (coalesce (rso_pendingWorkLeaseMs o') (JInt (int DEFAULT_PENDING_WORK_LEASE_MS)))
                 MAX_PENDING_WORK_LEASE_MS ''pendingWorkLeaseMs must be a bounded positive integer'') (\<lambda>lease.
        bindE (boundedMs (coalesce (rso_pendingWorkPollMs o') (JInt (int DEFAULT_PENDING_WORK_POLL_MS)))
                 lease ''pendingWorkPollMs must not exceed the work lease'') (\<lambda>poll.
          if \<not> evidence_ok (rso_evidence o') then Inl (TypeError ''Provider decision revisions must be positive integers'')
          else if \<not> distinct (map fst (rso_personaCatalog o')) then Inl (TypeError ''personaCatalog contains duplicate slugs'')
          else Inr \<lparr>rss_generationTimeoutMs = timeout, rss_pendingWorkLeaseMs = lease, rss_pendingWorkPollMs = poll,
                    rss_personaCatalog = rso_personaCatalog o'\<rparr>))))"

lemma boundedMs_ok [simp]: "boundedMs v limit m = Inr n \<longleftrightarrow> jsafe_nonneg v = Some n \<and> 0 < n \<and> n \<le> limit"
  by (auto simp: boundedMs_def split: option.splits)

section \<open>Replacing the cast\<close>

definition catalogPersona :: "(string \<times> string) list \<Rightarrow> string \<Rightarrow> js_error + cast_persona_input" where
  "catalogPersona catalog slug =
     (case map_of catalog slug of
        None \<Rightarrow> Inl (TypeError ''persona slug is unknown'')
      | Some name \<Rightarrow> Inr \<lparr>cpi_slug = slug, cpi_name = name\<rparr>)"

text \<open>\<open>personaSlugs\<close> is a list of strings in the model, as its type says.\<close>

definition replaceCast ::
    "(string \<times> string) list \<Rightarrow> (string \<Rightarrow> string) \<Rightarrow> (nat \<Rightarrow> string) \<Rightarrow> string \<Rightarrow> jval \<Rightarrow> string list \<Rightarrow> cast_replacement_result action" where
  "replaceCast catalog sha uuid request wanted slugs =
     bindA (liftA (canonicalIdentifier request ''requestId'')) (\<lambda>q.
     bindA (liftA (canonicalSelectionRevision wanted)) (\<lambda>n.
     bindA (requireA (1 \<le> length slugs \<and> length slugs \<le> 3 \<and> distinct slugs)
             (TypeError ''personaSlugs must contain one to three unique slugs'')) (\<lambda>_.
     bindA (liftA (mapE (catalogPersona catalog) slugs)) (\<lambda>chosen.
       replaceCurrentRoomCast sha uuid
         \<lparr>rcc_expectedRevision = JInt (int n), rcc_requestId = q, rcc_personas = chosen\<rparr>))))"

lemma replaceCast_ok:
  "replaceCast catalog sha uuid request wanted slugs db = (Inr res, db') \<longleftrightarrow>
     js_canonical request \<and> length request \<le> MAX_IDENTIFIER_LENGTH \<and> 1 \<le> length slugs \<and> length slugs \<le> 3 \<and> distinct slugs \<and>
     (\<exists>n chosen. jsafe_nonneg wanted = Some n \<and> mapE (catalogPersona catalog) slugs = Inr chosen \<and>
        replaceCurrentRoomCast sha uuid \<lparr>rcc_expectedRevision = JInt (int n), rcc_requestId = request, rcc_personas = chosen\<rparr> db =
          (Inr res, db'))"
  by (auto simp: replaceCast_def)

lemma catalogPersona_ok: "catalogPersona catalog s = Inr p \<longleftrightarrow> cpi_slug p = s \<and> map_of catalog s = Some (cpi_name p)"
  by (cases p) (auto simp: catalogPersona_def split: option.splits)

lemma mapE_catalog:
  "mapE (catalogPersona catalog) slugs = Inr chosen \<longleftrightarrow>
     map cpi_slug chosen = slugs \<and> (\<forall>p \<in> set chosen. map_of catalog (cpi_slug p) = Some (cpi_name p))"
proof (induction slugs arbitrary: chosen)
  case Nil
  then show ?case by auto
next
  case (Cons s slugs)
  show ?case by (cases chosen) (auto simp: Cons.IH catalogPersona_ok)
qed

section \<open>Timing of the lease\<close>

lemma renewal_interval_bounds: "2 \<le> lease \<Longrightarrow> 1 \<le> renewal_interval lease \<and> renewal_interval lease < lease"
  by (auto simp: renewal_interval_def max_def)

lemma renewClaim_run:
  assumes idle: "\<not> is_transaction db" and row: "db_commands db (r, q) = Some row" "command_row_ok row" "row_pending row"
    and claim: "claim row = Some (owner, expires)" and now: "currentTime now = Inr t" "t + lease \<le> MAX_TIME"
  shows "renewClaim lease r q owner now db =
    (if t < expires then (Inr True, db\<lparr>db_commands := (db_commands db)((r, q) \<mapsto> row\<lparr>claim := Some (owner, t + lease)\<rparr>)\<rparr>)
     else (Inr False, db))"
proof -
  let ?db = "db\<lparr>is_transaction := True\<rparr>" and ?row = "row\<lparr>claim := Some (owner, t + lease)\<rparr>"
  let ?cond = "\<lambda>row. (case claim row of None \<Rightarrow> False | Some (own, expires) \<Rightarrow> own = owner \<and> t < expires) \<and> row_pending row"
  have "command_row_ok ?row" using row(2,3) claim now(2) by (auto simp: command_row_ok_def row_pending_def)
  then have upd: "updateCommand r q ?cond (\<lambda>row. row\<lparr>claim := Some (owner, t + lease)\<rparr>) ?db =
      (if t < expires then (Inr 1, ?db\<lparr>db_commands := (db_commands db)((r, q) \<mapsto> ?row)\<rparr>) else (Inr 0, ?db))"
    using row claim by (auto simp: updateCommand_ok)
  have "renewClaim lease r q owner now db = (if t < expires then (Inr True, ?db\<lparr>db_commands := (db_commands db)((r, q) \<mapsto> ?row), is_transaction := False\<rparr>)
      else (Inr False, ?db\<lparr>is_transaction := False\<rparr>))"
    using upd now(1) idle
    by (cases "t < expires") (auto simp: renewClaim_def transaction_ok)
  moreover have "?db\<lparr>is_transaction := False\<rparr> = db" using idle by (cases db) simp
  ultimately show ?thesis using committed_commands [OF idle] by simp
qed

section \<open>What the constructor accepts\<close>

text \<open>
  C11: the settings that the constructor accepts are within their bounds (the poll interval
  at most the lease, lease and timeout between 1 and 300000 milliseconds). A worker that took its claim
  at time \<open>t0\<close> and whose renewal timer fired runs the renewal at some \<open>t\<close> at least one interval later: it
  succeeds exactly when the lease has not ended. With a lease of two milliseconds or more the interval is
  shorter than the lease, so a timer that fires in time renews; the lease of one millisecond, which is
  accepted too, can never be renewed.
\<close>

theorem accepted_lease:
  assumes "newRoomService o' = Inr s" and "lease = rss_pendingWorkLeaseMs s"
    and "\<not> is_transaction db" and "db_commands db (r, q) = Some row" and "command_row_ok row" and "row_pending row"
    and "claim row = Some (owner, t0 + lease)" and "currentTime now = Inr t" and "t0 + renewal_interval lease \<le> t" and "t + lease \<le> MAX_TIME"
  shows "1 \<le> rss_pendingWorkPollMs s \<and> rss_pendingWorkPollMs s \<le> lease \<and> lease \<le> 300000 \<and>
    1 \<le> rss_generationTimeoutMs s \<and> rss_generationTimeoutMs s \<le> 300000 \<and> distinct (map fst (rss_personaCatalog s)) \<and>
    renewClaim lease r q owner now db =
      (if t < t0 + lease then (Inr True, db\<lparr>db_commands := (db_commands db)((r, q) \<mapsto> row\<lparr>claim := Some (owner, t + lease)\<rparr>)\<rparr>)
       else (Inr False, db)) \<and>
    (2 \<le> lease \<longrightarrow> renewal_interval lease < lease) \<and> (lease = 1 \<longrightarrow> renewClaim lease r q owner now db = (Inr False, db))"
proof -
  have "1 \<le> rss_pendingWorkPollMs s \<and> rss_pendingWorkPollMs s \<le> lease \<and> lease \<le> 300000 \<and>
      1 \<le> rss_generationTimeoutMs s \<and> rss_generationTimeoutMs s \<le> 300000 \<and> distinct (map fst (rss_personaCatalog s))"
    using assms(1,2)
    by (auto simp: newRoomService_def MAX_GENERATION_TIMEOUT_MS_def MAX_PENDING_WORK_LEASE_MS_def split: if_splits option.splits)
  moreover note run = renewClaim_run [OF assms(3-8,10)]
  moreover have "\<not> t < t0 + lease" if "lease = 1" using assms(9) that by (simp add: renewal_interval_def)
  then have "lease = 1 \<longrightarrow> renewClaim lease r q owner now db = (Inr False, db)" unfolding run by (intro impI) (simp only: if_False)
  ultimately show ?thesis using renewal_interval_bounds by blast
qed

definition default_options :: room_service_options where
  "default_options = \<lparr>rso_evidence = None, rso_generationTimeoutMs = JUndefined, rso_maxAutonomousTurns = JUndefined,
     rso_pendingWorkLeaseMs = JUndefined, rso_pendingWorkPollMs = JUndefined, rso_personaCatalog = [(''ada'', ''Ada'')]\<rparr>"

lemma default_accepted: "newRoomService default_options = Inr \<lparr>rss_generationTimeoutMs = 60000, rss_pendingWorkLeaseMs = 30000,
    rss_pendingWorkPollMs = 50, rss_personaCatalog = [(''ada'', ''Ada'')]\<rparr>"
  by (simp add: newRoomService_def default_options_def coalesce_def DEFAULT_ROOM_TURN_BUDGET_def DEFAULT_GENERATION_TIMEOUT_MS_def
      DEFAULT_PENDING_WORK_LEASE_MS_def DEFAULT_PENDING_WORK_POLL_MS_def MAX_GENERATION_TIMEOUT_MS_def MAX_PENDING_WORK_LEASE_MS_def
      boundedMs_def evidence_ok_def max_safe_integer_def)

theorem accepted_lease_witness:
  "\<exists>db :: db. fst (renewClaim 30000 ''first-playable'' ''m1'' ''w1'' (JInt 11000) db) = Inr True"
proof -
  from hello_run obtain W where rec: "hello_recorded W" by blast
  then obtain row where row: "hello_row row" "db_commands (rw_db W) = (\<lambda>_. None)((''first-playable'', ''m1'') \<mapsto> row)"
    and idle: "\<not> is_transaction (rw_db W)" by (auto simp: hello_recorded_def)
  have at: "db_commands (rw_db W) (''first-playable'', ''m1'') = Some row" by (simp add: row(2))
  have cl: "claim row = Some (''w1'', 1000 + 30000)" using row(1) by (simp add: hello_row_def)
  have now: "currentTime (JInt 11000) = Inr 11000" by (simp add: currentTime_def max_safe_integer_def)
  have lease: "30000 = rss_pendingWorkLeaseMs \<lparr>rss_generationTimeoutMs = 60000, rss_pendingWorkLeaseMs = 30000,
    rss_pendingWorkPollMs = 50, rss_personaCatalog = [(''ada'', ''Ada'')]\<rparr>" by simp
  have times: "(1000 :: nat) + renewal_interval 30000 \<le> 11000" "(11000 :: nat) + 30000 \<le> MAX_TIME" "(11000 :: nat) < 1000 + 30000"
    by (simp_all add: renewal_interval_def MAX_TIME_def)
  from accepted_lease [OF default_accepted lease idle at hello_row_fits [OF row(1)] pending_state [OF hello_stores [OF row(1)]] cl now times(1,2)] times(3)
  have "fst (renewClaim 30000 ''first-playable'' ''m1'' ''w1'' (JInt 11000) (rw_db W)) = Inr True" by simp
  then show ?thesis by blast
qed

end
