(* ===== verification/Room_Message_Claims.thy ===== *)
theory Room_Message_Claims
  imports Room_Turns Room_Options
begin

text \<open>
  What the room service promises about a single message: who answers it, what is recorded for it, what
  completing it publishes, and that a message whose worker is gone is completed by another.
\<close>

section \<open>Who answers\<close>

text \<open>
  C8: whatever the director's row and the log, the choice of \<open>#decide\<close> is the reference
  one: the named persona if it is in the room and not muted, silence when no answer is wanted, and
  otherwise the first unmuted persona in the turns that start after the last speaker. The cooldown of
  the code and its branch for it never change the choice.
\<close>

theorem decide_round_robin:
  assumes "participants_ok db"
  shows "decide r state wants target db = (pick_speaker (personas_of db r) (last_speaker_id state) wants target, db) \<and>
    (\<nexists>d. fst (decide r state wants target db) = Inr d \<and> reason d = Cooldown)"
proof -
  have 1: "decide r state wants target db = (pick_speaker (personas_of db r) (last_speaker_id state) wants target, db)"
    using decide_chooses [OF personas_distinct [OF assms]] .
  have "pick_speaker ps last_speaker wants target = Inr d \<Longrightarrow> reason d \<noteq> Cooldown" for ps last_speaker d
    by (cases target) (auto simp: decision_def split: option.splits if_splits)
  then show ?thesis unfolding 1 by auto
qed

theorem decide_round_robin_witness:
  "fst (decide ''first-playable'' \<lparr>last_speaker_id = Some ''fixer'', last_human_event_sequence = Some 1, autonomous_turns = 1,
     scheduling_window_generation = 0\<rparr> True None (migrated_db [])) = Inr (decision (Some ''optimist'') Selected)"
  unfolding conjunct1 [OF decide_round_robin [OF migrated_participants_ok]]
  by (simp add: migrated_personas turns_after_def findIndex_def seeded_participant_def)



section \<open>What is recorded\<close>

text \<open>
  A valid message with a new request id, sent to the selected, active room, is
  recorded whatever its text: its human event and the director's decision are the next two entries of
  the room's log, the decision is the reference choice, the director's row moves on, and its command,
  which always fits the table, is either complete (nobody was scheduled) or pending with a claim of the
  worker until the lease ends. Nothing else of the rooms, the participants or the selection changes.
\<close>

theorem new_message_recorded:
  assumes db: "\<not> is_transaction db" "log_ok db" "participants_ok db" "current_room db = Some (r, mc_selectionRevision c)"
    and cmd: "normalizeMessage cmd = Inr c" "mc_roomId c = r" "length r \<le> 128" "currentTime now = Inr n" "n + lease \<le> MAX_TIME"
    and fresh: "db_commands db (r, mc_requestId c) = None"
    and room: "find_room db r = Some room" "room_status room = Active" "db_director db r = Some state" "human_participant db r = Some human"
    and numbers: "safe_number (length (log_entries db r) + 2)" "safe_number (room_generation room)"
    and pick: "pick_speaker (personas_of db r) (last_speaker_id state) (mc_wantsResponse c) (mc_target c) = Inr d"
    and ids: "length digest = 64" "1 \<le> length owner" "length owner \<le> 128" and h: "h = Suc (length (log_entries db r))"
  shows "\<exists>db' row. prepareMessage lease c digest owner now db = (Inr (recorded c room h d), db') \<and>
    recorded_row (recorded c room h d) digest (owner, n + lease) row \<and> db_commands db' = (db_commands db)((r, mc_requestId c) \<mapsto> row) \<and>
    db_director db' = (db_director db)(r \<mapsto> director_after state h d (room_generation room)) \<and>
    log_entries db' = (log_entries db)(r := log_entries db r @
      [(h, Events.event_text (human_message_json (part_id human) (mc_text c))), (Suc h, Events.event_text (director_event_json h d))]) \<and>
    db_participants db' = db_participants db \<and> current_room db' = current_room db \<and> phase_of db' = phase_of db"
proof -
  let ?db = "db\<lparr>is_transaction := True\<rparr>"
  note valid = normalized [OF cmd(1)]
  have "\<exists>db1 row. recordMessage lease c digest owner n room state (part_id human) ?db = (Inr (recorded c room h d), db1) \<and>
    recorded_row (recorded c room h d) digest (owner, n + lease) row \<and>
    db_commands db1 = (db_commands ?db)((mc_roomId c, mc_requestId c) \<mapsto> row) \<and>
    db_director db1 = (db_director ?db)(mc_roomId c \<mapsto> director_after state h d (room_generation room)) \<and>
    log_entries db1 = (log_entries ?db)(mc_roomId c := log_entries ?db (mc_roomId c) @
      [(h, Events.event_text (human_message_json (part_id human) (mc_text c))), (Suc h, Events.event_text (director_event_json h d))]) \<and>
    db_participants db1 = db_participants ?db \<and> current_room db1 = current_room ?db \<and> phase_of db1 = phase_of ?db \<and>
    db_bindings db1 = db_bindings ?db"
    by (rule record_new_message [OF _ _ _ cmd(1)]) (use assms in simp_all)
  then obtain db1 row where run: "recordMessage lease c digest owner n room state (part_id human) ?db = (Inr (recorded c room h d), db1)"
    and eff: "recorded_row (recorded c room h d) digest (owner, n + lease) row" "db_commands db1 = (db_commands db)((r, mc_requestId c) \<mapsto> row)"
      "db_director db1 = (db_director db)(r \<mapsto> director_after state h d (room_generation room))"
      "log_entries db1 = (log_entries db)(r := log_entries db r @
        [(h, Events.event_text (human_message_json (part_id human) (mc_text c))), (Suc h, Events.event_text (director_event_json h d))])"
      "db_participants db1 = db_participants db" "current_room db1 = current_room db" "phase_of db1 = phase_of db"
    using cmd(2) by auto
  have "prepareMessage lease c digest owner now db = (Inr (recorded c room h d), db1\<lparr>is_transaction := False\<rparr>)"
    by (rule prepare_fresh [OF db(1) _ valid(1) _ valid(4) cmd(4) _ _ room(2) _ _ run]) (use assms in simp_all)
  with eff show ?thesis by (intro exI [of _ "db1\<lparr>is_transaction := False\<rparr>"] exI [of _ row]) simp
qed

theorem new_message_recorded_witness:
  "\<exists>db. prepareMessage 30000 hello hello_digest ''w1'' (JInt 1000) (migrated_db []) = (Inr (recorded hello (first_room []) 1 (decision (Some ''detective'') Selected)), db)"
proof -
  have idle: "\<not> is_transaction (migrated_db [])" by (simp add: migrated_db_def)
  have parts: "mc_roomId hello = ''first-playable''" "length ''first-playable'' \<le> 128" "currentTime (JInt 1000) = Inr 1000"
    "(1000 :: nat) + 30000 \<le> MAX_TIME" by (simp_all add: hello_def currentTime_def max_safe_integer_def MAX_TIME_def)
  have sel: "current_room (migrated_db []) = Some (''first-playable'', mc_selectionRevision hello)" by (simp add: migrated_views hello_def)
  have live: "room_status (first_room []) = Active" by (simp add: first_room_def)
  have numbers: "safe_number (length (log_entries (migrated_db []) ''first-playable'') + 2)" "safe_number (room_generation (first_room []))"
    by (simp_all add: migrated_views first_room_def safe_number_def max_safe_integer_def)
  have pick: "pick_speaker (personas_of (migrated_db []) ''first-playable'') (last_speaker_id first_director) (mc_wantsResponse hello) (mc_target hello) =
      Inr (decision (Some ''detective'') Selected)"
    using hello_pick [of "[]"] by (simp only: hello_def first_director_def message_command.simps director_row.simps)
  have ids: "length hello_digest = 64" "1 \<le> length ''w1''" "length ''w1'' \<le> 128" by (simp_all add: hello_digest_def)
  have h: "1 = Suc (length (log_entries (migrated_db []) ''first-playable''))" by (simp add: migrated_views)
  from new_message_recorded [OF idle migrated_log_ok migrated_participants_ok sel hello_normalized parts migrated_views(4)
      migrated_views(1) live migrated_views(2,3) numbers pick ids h]
  show ?thesis by blast
qed

section \<open>Completing\<close>

text \<open>
  C7: when the holder of the claim completes a pending message, the outcome is stale
  (and nothing is published) if the provider gave nothing, the room has moved on, the speaker is muted
  or the pinned provider decision is no longer current; it is silence if the provider chose silence;
  otherwise the answer is the next entry of the room's log and its number is reported. The command then
  holds exactly this result, without a claim; no other command and no other room's log changes.
\<close>

theorem completion_outcome:
  assumes "\<not> is_transaction db" and "log_ok db" and "provider_ok db"
    and "db_commands db (r, q) = Some row" and "stores_pending row p'" and "claim row = Some (owner, expires)"
    and "completeMessage r q p g owner now db = (Inr (Some res), db')" and "n = Suc (length (log_entries db r))"
  shows "\<exists>i t. speaker (pm_decision p) = Some i \<and>
    res = finished_result q p (outcome_of (stale_now db r p g i) (gm_providerResult g) n) \<and>
    log_entries db' = (log_entries db)(r := log_entries db r @ answer_entries (stale_now db r p g i) (gm_providerResult g) i p n) \<and>
    db_commands db' = (db_commands db)((r, q) \<mapsto> row\<lparr>result_json := t, claim := None\<rparr>) \<and>
    parseStored read_message_result t = Inr (Complete_Command res)"
proof -
  from complete_run [OF assms(1-7)] obtain i where 1: "speaker (pm_decision p) = Some i"
    "res = finished_result q p (outcome_of (stale_now db r p g i) (gm_providerResult g) n)"
    "log_entries db' = (log_entries db)(r := log_entries db r @ answer_entries (stale_now db r p g i) (gm_providerResult g) i p n)"
    by (auto simp: assms(8))
  from complete_row [OF assms(1-7)] obtain t where 2: "canonicalJson (completed (message_result_json res)) = Inr t"
    "db_commands db' = (db_commands db)((r, q) \<mapsto> row\<lparr>result_json := t, claim := None\<rparr>)" by blast
  from parseStored_complete [OF inverts_message 2(1)] 1 2(2) show ?thesis by blast
qed

theorem completion_outcome_witness:
  "\<exists>db db'. completeMessage ''first-playable'' ''m1'' hello_pending hello_generated ''w1'' (JInt 2000) db = (Inr (Some hello_result), db') \<and>
     length (log_entries db' ''first-playable'') = 3"
proof -
  from hello_run obtain W where run: "room_run hello_sha None 30000 (first_world []) W" and rec: "hello_recorded W" by blast
  have ok: "log_ok (rw_db W)" "provider_ok (rw_db W)"
    using run_advances [OF run room_run.stay] by (auto simp: world_ok_def db_ok_def room_ok_def)
  from rec obtain row where row: "hello_row row" "db_commands (rw_db W) = (\<lambda>_. None)((''first-playable'', ''m1'') \<mapsto> row)"
    and idle: "\<not> is_transaction (rw_db W)" and len: "length (log_entries (rw_db W) ''first-playable'') = 2"
    by (auto simp: hello_recorded_def)
  have at: "db_commands (rw_db W) (''first-playable'', ''m1'') = Some row" by (simp add: row(2))
  have cl: "claim row = Some (''w1'', 31000)" using row(1) by (simp add: hello_row_def)
  from hello_completes [OF rec ok(1)] obtain db where
    c: "completeMessage ''first-playable'' ''m1'' hello_pending hello_generated ''w1'' (JInt 2000) (rw_db W) = (Inr (Some hello_result), db)" by blast
  from completion_outcome [OF idle ok at hello_stores [OF row(1)] cl c refl] hello_live [OF rec]
  have "length (log_entries db ''first-playable'') = 3"
    by (auto simp: hello_speaker stale_now_def hello_generated_def len)
  with c show ?thesis by blast
qed



end
