(* ===== verification/Event_Stream.thy ===== *)
theory Event_Stream
  imports Cast_Invariant
begin

text \<open>
  Reading a room's log over HTTP (\<open>src/api/routes.ts\<close>): the paged replay and the server-sent event
  stream of a client, with its bounded queue. The stream is a state machine whose steps are the timers
  and listeners of the code (poll, heartbeat, drain, close); what \<open>response.write\<close> answers is arbitrary.
\<close>

section \<open>Reading events\<close>

definition EVENT_REPLAY_LIMIT :: nat where "EVENT_REPLAY_LIMIT = 100"

text \<open>\<open>SELECT ... WHERE room_id = ? AND sequence > ? ORDER BY sequence LIMIT ?\<close>\<close>

definition event_rows_after :: "db \<Rightarrow> string \<Rightarrow> nat \<Rightarrow> nat \<Rightarrow> event_row list" where
  "event_rows_after db r n limit =
     take limit (sort_key event_sequence (filter (\<lambda>e. n < event_sequence e) (room_events db r)))"

definition parsed_event :: "event_row \<Rightarrow> js_error + (nat \<times> jval)" where
  "parsed_event e = (case json_parse (event_json e) of
     None \<Rightarrow> Inl (PlainError ''SyntaxError'') | Some v \<Rightarrow> Inr (event_sequence e, v))"

definition readEvents :: "db \<Rightarrow> string \<Rightarrow> nat \<Rightarrow> nat \<Rightarrow> js_error + (nat \<times> jval) list" where
  "readEvents db r n limit = mapE parsed_event (event_rows_after db r n limit)"

text \<open>The body of \<open>GET /api/rooms/:roomId/events\<close>: one page and the cursor of the next.\<close>

definition eventPage :: "db \<Rightarrow> string \<Rightarrow> nat \<Rightarrow> js_error + ((nat \<times> jval) list \<times> nat)" where
  "eventPage db r n =
     bindE (readEvents db r n EVENT_REPLAY_LIMIT) (\<lambda>events.
       Inr (events, if events = [] then n else fst (last events)))"

section \<open>The stream of a client\<close>

text \<open>\<open>JSON.stringify\<close> of a parsed value.\<close>

fun stringify :: "jval \<Rightarrow> string" where
  "stringify JNull = ''null''"
| "stringify (JBool b) = (if b then ''true'' else ''false'')"
| "stringify (JNum n) = (if is_finite n then number_string n else ''null'')"
| "stringify (JStr s) = json_string s"
| "stringify (JArr xs) = ''['' @ js_join '','' (map stringify xs) @ '']''"
| "stringify (JObj fs) = ''{'' @ js_join '','' (map (\<lambda>p. json_string (fst p) @ '':'' @ stringify (snd p)) fs) @ ''}''"
| "stringify _ = ''null''"

definition newline :: string where "newline = [char_of (10 :: nat)]"

definition event_frame :: "nat \<times> jval \<Rightarrow> string" where
  "event_frame p =
     ''id: '' @ show_nat (fst p) @ newline @ ''event: room-event'' @ newline @ ''data: '' @
     stringify (JObj [(''sequence'', JInt (int (fst p))), (''event'', snd p)]) @ newline @ newline"

text \<open>What was written: an event's frame, or the heartbeat comment.\<close>

datatype sse_frame = Event_Frame "nat \<times> jval" | Heartbeat

fun frame_text :: "sse_frame \<Rightarrow> string" where
  "frame_text (Event_Frame p) = event_frame p"
| "frame_text Heartbeat = '': heartbeat'' @ newline @ newline"

text \<open>\<open>response.write\<close> returns true, returns false, or throws.\<close>

datatype write_outcome = Accepted | Backpressure | Write_Failed

text \<open>\<open>sse_written\<close> is the sequence of frames given to the response so far.\<close>

record sse_client =
  sse_cleaned :: bool
  sse_lastQueued :: nat
  sse_waiting :: bool
  sse_queue :: "(nat \<times> jval) list"
  sse_written :: "sse_frame list"

definition sse_connected :: "nat \<Rightarrow> sse_client" where
  "sse_connected n = \<lparr>sse_cleaned = False, sse_lastQueued = n, sse_waiting = False, sse_queue = [], sse_written = []\<rparr>"

definition sse_cleanup :: "sse_client \<Rightarrow> sse_client" where
  "sse_cleanup c = (if sse_cleaned c then c else c\<lparr>sse_cleaned := True, sse_queue := []\<rparr>)"

text \<open>The loop of \<open>flush\<close>: what is left of the queue, what was written, and how the last write went.\<close>

fun write_all :: "(nat \<Rightarrow> write_outcome) \<Rightarrow> nat \<Rightarrow> (nat \<times> jval) list \<Rightarrow> sse_frame list \<Rightarrow> (nat \<times> jval) list \<times> sse_frame list \<times> write_outcome" where
  "write_all w k [] out = ([], out, Accepted)"
| "write_all w k (p # q) out =
     (case w k of
        Accepted \<Rightarrow> write_all w (Suc k) q (out @ [Event_Frame p])
      | Backpressure \<Rightarrow> (q, out @ [Event_Frame p], Backpressure)
      | Write_Failed \<Rightarrow> (q, out, Write_Failed))"

definition sse_flush :: "(nat \<Rightarrow> write_outcome) \<Rightarrow> sse_client \<Rightarrow> sse_client" where
  "sse_flush w c =
     (if sse_cleaned c \<or> sse_waiting c then c
      else (case write_all w 0 (sse_queue c) (sse_written c) of (q, out, last_write) \<Rightarrow>
        (case last_write of
           Accepted \<Rightarrow> c\<lparr>sse_queue := q, sse_written := out\<rparr>
         | Backpressure \<Rightarrow> c\<lparr>sse_queue := q, sse_written := out, sse_waiting := True\<rparr>
         | Write_Failed \<Rightarrow> sse_cleanup (c\<lparr>sse_queue := q, sse_written := out\<rparr>))))"

definition sse_drain :: "(nat \<Rightarrow> write_outcome) \<Rightarrow> sse_client \<Rightarrow> sse_client" where
  "sse_drain w c = sse_flush w (c\<lparr>sse_waiting := False\<rparr>)"

definition sse_poll :: "nat \<Rightarrow> db \<Rightarrow> string \<Rightarrow> (nat \<Rightarrow> write_outcome) \<Rightarrow> sse_client \<Rightarrow> sse_client" where
  "sse_poll limit db r w c =
     (if sse_cleaned c then c
      else
        (let capacity = limit - length (sse_queue c)
         in case readEvents db r (sse_lastQueued c) (if sse_waiting c then capacity + 1 else capacity) of
              Inl e \<Rightarrow> sse_cleanup c
            | Inr events \<Rightarrow>
                if length events > capacity then sse_cleanup c
                else sse_flush w (c\<lparr>sse_queue := sse_queue c @ events,
                       sse_lastQueued := (if events = [] then sse_lastQueued c else fst (last events))\<rparr>)))"

definition sse_heartbeat :: "write_outcome \<Rightarrow> sse_client \<Rightarrow> sse_client" where
  "sse_heartbeat o' c =
     (if sse_cleaned c \<or> sse_waiting c \<or> sse_queue c \<noteq> [] then c
      else (case o' of
              Accepted \<Rightarrow> c\<lparr>sse_written := sse_written c @ [Heartbeat]\<rparr>
            | Backpressure \<Rightarrow> c\<lparr>sse_written := sse_written c @ [Heartbeat], sse_waiting := True\<rparr>
            | Write_Failed \<Rightarrow> sse_cleanup c))"

text \<open>
  The steps of a stream of room \<open>r\<close>. The log grows in between: what the rest of the program does to it.
\<close>

inductive sse_step :: "nat \<Rightarrow> string \<Rightarrow> db \<times> sse_client \<Rightarrow> db \<times> sse_client \<Rightarrow> bool" for limit r where
  log: "log_ok db' \<Longrightarrow> room_events db' r = room_events db r @ new \<Longrightarrow> sse_step limit r (db, c) (db', c)"
| poll: "sse_step limit r (db, c) (db, sse_poll limit db r w c)"
| drain: "sse_step limit r (db, c) (db, sse_drain w c)"
| heartbeat: "sse_step limit r (db, c) (db, sse_heartbeat out c)"
| close: "sse_step limit r (db, c) (db, sse_cleanup c)"

text \<open>\<open>connect\<close> ends with a first poll.\<close>

inductive sse_run :: "nat \<Rightarrow> string \<Rightarrow> nat \<Rightarrow> db \<times> sse_client \<Rightarrow> bool" for limit r n where
  connect: "log_ok db \<Longrightarrow> sse_run limit r n (db, sse_poll limit db r w (sse_connected n))"
| step: "sse_run limit r n s \<Longrightarrow> sse_step limit r s s' \<Longrightarrow> sse_run limit r n s'"

section \<open>What is read\<close>

text \<open>In a list numbered 1, 2, 3 and so on, a number is a position.\<close>

lemma numbered_nth: "map f xs = [1..<Suc (length xs)] \<Longrightarrow> i < length xs \<Longrightarrow> f (xs ! i) = Suc i"
proof -
  assume m: "map f xs = [1..<Suc (length xs)]" and i: "i < length xs"
  have "f (xs ! i) = map f xs ! i" using i by simp
  also have "\<dots> = Suc i" unfolding m using i by (simp del: upt_Suc)
  finally show ?thesis .
qed

lemma numbered_filter:
  assumes "map f xs = [1..<Suc (length xs)]"
  shows "filter (\<lambda>x. n < f x) xs = drop n xs"
proof -
  have low: "\<not> n < f x" if "x \<in> set (take n xs)" for x
  proof -
    from that obtain i where "i < n" "i < length xs" "x = xs ! i" by (auto simp: in_set_conv_nth)
    then show ?thesis using numbered_nth [OF assms] by simp
  qed
  have high: "n < f x" if "x \<in> set (drop n xs)" for x
  proof -
    from that obtain i where "i < length xs - n" "x = xs ! (n + i)" by (auto simp: in_set_conv_nth)
    then show ?thesis using numbered_nth [OF assms] by simp
  qed
  have "filter (\<lambda>x. n < f x) xs = filter (\<lambda>x. n < f x) (take n xs) @ filter (\<lambda>x. n < f x) (drop n xs)"
    by (metis append_take_drop_id filter_append)
  also have "\<dots> = drop n xs" using low high by (simp add: filter_id_conv filter_empty_conv)
  finally show ?thesis .
qed

definition event_of :: "event_row \<Rightarrow> nat \<times> jval" where
  "event_of e = (event_sequence e, the (json_parse (event_json e)))"

lemma log_numbered: "log_ok db \<Longrightarrow> map event_sequence (room_events db r) = [1..<Suc (length (room_events db r))]"
  by (simp add: log_ok_def)

lemma rows_after:
  assumes "log_ok db"
  shows "event_rows_after db r n limit = take limit (drop n (room_events db r))"
proof -
  have "sorted (map event_sequence (room_events db r))" unfolding log_numbered [OF assms] by (rule sorted_upt)
  then have "sorted (map event_sequence (drop n (room_events db r)))" by (simp add: drop_map [symmetric] sorted_wrt_drop)
  then show ?thesis
    unfolding event_rows_after_def numbered_filter [OF log_numbered [OF assms]] by (simp add: sort_key_id_if_sorted)
qed

lemma parsed_rows: "mapE parsed_event es = Inr ps \<Longrightarrow> ps = map event_of es"
  by (induction es arbitrary: ps) (auto simp: parsed_event_def event_of_def split: option.splits)

lemma rows_parse: "(\<And>e. e \<in> set es \<Longrightarrow> json_parse (event_json e) \<noteq> None) \<Longrightarrow> mapE parsed_event es = Inr (map event_of es)"
  by (rule mapE_InrI) (auto simp: parsed_event_def event_of_def)

lemma readEvents_ok:
  assumes "log_ok db" and "readEvents db r n limit = Inr events"
  shows "events = map event_of (take limit (drop n (room_events db r)))"
  using parsed_rows assms(2) by (simp add: readEvents_def rows_after [OF assms(1)])

text \<open>The cursor after some events have been read.\<close>

lemma cursor_moves:
  assumes "log_ok db" and "events = map event_of (take k (drop n (room_events db r)))"
  shows "(if events = [] then n else fst (last events)) = n + length events"
proof (cases "events = []")
  case False
  let ?log = "room_events db r" and ?len = "length events"
  have len: "?len = min k (length ?log - n)" using assms(2) by simp
  moreover have "0 < ?len" using False by simp
  ultimately have pos: "0 < ?len" "n + ?len \<le> length ?log" by linarith+
  have "last events = events ! (?len - 1)" using False by (simp add: last_conv_nth)
  moreover have "events ! j = event_of (?log ! (n + j))" if "j < ?len" for j
    using that len pos(2) by (simp add: assms(2))
  then have "events ! (?len - 1) = event_of (?log ! (n + (?len - 1)))" using pos(1) by simp
  moreover have "event_sequence (?log ! (n + (?len - 1))) = Suc (n + (?len - 1))"
    by (rule numbered_nth [OF log_numbered [OF assms(1)]]) (use pos in linarith)
  ultimately show ?thesis using False pos by (simp add: event_of_def)
qed simp

section \<open>The queue\<close>

fun frame_events :: "sse_frame \<Rightarrow> (nat \<times> jval) list" where
  "frame_events (Event_Frame p) = [p]"
| "frame_events Heartbeat = []"

definition delivered :: "sse_client \<Rightarrow> (nat \<times> jval) list" where
  "delivered c = concat (map frame_events (sse_written c))"

text \<open>
  Nothing is lost, repeated or reordered: what was written and what is queued are together the log
  after the client's cursor \<open>n\<close>, up to the last event queued; the queue holds at most \<open>limit\<close> events
  and is empty unless the response is waiting to drain. After the cleanup what was written stays.
\<close>

definition sse_ok :: "nat \<Rightarrow> string \<Rightarrow> nat \<Rightarrow> db \<times> sse_client \<Rightarrow> bool" where
  "sse_ok limit r n s \<longleftrightarrow> (case s of (db, c) \<Rightarrow>
     log_ok db \<and> n \<le> sse_lastQueued c \<and> (sse_lastQueued c = n \<or> sse_lastQueued c \<le> length (room_events db r)) \<and>
     (\<exists>later. delivered c @ sse_queue c @ later = map event_of (drop n (take (sse_lastQueued c) (room_events db r))) \<and>
        (\<not> sse_cleaned c \<longrightarrow> later = [])) \<and>
     length (sse_queue c) \<le> limit \<and> (sse_queue c \<noteq> [] \<longrightarrow> sse_waiting c) \<and> (sse_cleaned c \<longrightarrow> sse_queue c = []))"

text \<open>As before the flush: the queue may be full although nothing is waiting.\<close>

definition sse_loaded :: "nat \<Rightarrow> string \<Rightarrow> nat \<Rightarrow> db \<times> sse_client \<Rightarrow> bool" where
  "sse_loaded limit r n s \<longleftrightarrow> (case s of (db, c) \<Rightarrow>
     log_ok db \<and> n \<le> sse_lastQueued c \<and> (sse_lastQueued c = n \<or> sse_lastQueued c \<le> length (room_events db r)) \<and>
     (\<exists>later. delivered c @ sse_queue c @ later = map event_of (drop n (take (sse_lastQueued c) (room_events db r))) \<and>
        (\<not> sse_cleaned c \<longrightarrow> later = [])) \<and>
     length (sse_queue c) \<le> limit \<and> (sse_cleaned c \<longrightarrow> sse_queue c = []))"

lemma delivered_snoc:
  "delivered (c\<lparr>sse_written := out @ [Event_Frame p]\<rparr>) = delivered (c\<lparr>sse_written := out\<rparr>) @ [p]"
  "delivered (c\<lparr>sse_written := out @ [Heartbeat]\<rparr>) = delivered (c\<lparr>sse_written := out\<rparr>)"
  by (simp_all add: delivered_def)

lemma delivered_frame [simp]:
  "delivered (c\<lparr>sse_queue := q\<rparr>) = delivered c" "delivered (c\<lparr>sse_waiting := b\<rparr>) = delivered c"
  "delivered (c\<lparr>sse_lastQueued := m\<rparr>) = delivered c" "delivered (c\<lparr>sse_cleaned := b\<rparr>) = delivered c"
  by (simp_all add: delivered_def)

lemma write_all_moves:
  "write_all w k q out = (q', out', last_write) \<Longrightarrow>
   \<exists>xs ys. q = xs @ ys \<and> out' = out @ map Event_Frame xs \<and>
     (case last_write of Accepted \<Rightarrow> ys = [] \<and> q' = [] | Backpressure \<Rightarrow> q' = ys | Write_Failed \<Rightarrow> ys = [] \<or> q' = tl ys)"
proof (induction w k q out rule: write_all.induct)
  case (1 w k out)
  then show ?case by simp
next
  case (2 w k p q out)
  show ?case
  proof (cases "w k")
    case Accepted
    with 2 obtain xs ys where "q = xs @ ys" "out' = (out @ [Event_Frame p]) @ map Event_Frame xs"
      "(case last_write of Accepted \<Rightarrow> ys = [] \<and> q' = [] | Backpressure \<Rightarrow> q' = ys | Write_Failed \<Rightarrow> ys = [] \<or> q' = tl ys)" by auto
    then show ?thesis by (intro exI [of _ "p # xs"] exI [of _ ys]) simp
  next
    case Backpressure
    with 2 show ?thesis by (intro exI [of _ "[p]"] exI [of _ q]) auto
  next
    case Write_Failed
    with 2 show ?thesis by (intro exI [of _ "[]"] exI [of _ "p # q"]) auto
  qed
qed

lemma delivered_written: "delivered (c\<lparr>sse_written := out\<rparr>) = concat (map frame_events out)"
  by (simp add: delivered_def)

lemma frames_delivered: "concat (map frame_events (map Event_Frame xs)) = xs"
  by (induction xs) auto

lemma flush_ok:
  assumes "sse_loaded limit r n (db, c)" and "sse_queue c \<noteq> [] \<longrightarrow> \<not> sse_cleaned c"
  shows "sse_ok limit r n (db, sse_flush w c)"
proof (cases "sse_cleaned c \<or> sse_waiting c")
  case True
  with assms show ?thesis by (auto simp: sse_flush_def sse_ok_def sse_loaded_def)
next
  case False
  obtain q out last_write where run: "write_all w 0 (sse_queue c) (sse_written c) = (q, out, last_write)" by (cases "write_all w 0 (sse_queue c) (sse_written c)")
  from write_all_moves [OF run] obtain xs ys where q: "sse_queue c = xs @ ys" and out: "out = sse_written c @ map Event_Frame xs"
    and rest: "(case last_write of Accepted \<Rightarrow> ys = [] \<and> q = [] | Backpressure \<Rightarrow> q = ys | Write_Failed \<Rightarrow> ys = [] \<or> q = tl ys)" by blast
  have del: "delivered (c\<lparr>sse_written := out\<rparr>) = delivered c @ xs"
    by (simp add: delivered_def out frames_delivered del: map_map)
  from assms False have log: "delivered c @ sse_queue c = map event_of (drop n (take (sse_lastQueued c) (room_events db r)))"
    by (auto simp: sse_loaded_def)
  show ?thesis
  proof (cases last_write)
    case Accepted
    with rest assms False log del q run show ?thesis by (auto simp: sse_flush_def sse_ok_def sse_loaded_def delivered_def)
  next
    case Backpressure
    with rest assms False log del q run show ?thesis by (auto simp: sse_flush_def sse_ok_def sse_loaded_def delivered_def)
  next
    case Write_Failed
    with rest assms False log del q run show ?thesis by (auto simp: sse_flush_def sse_ok_def sse_loaded_def delivered_def sse_cleanup_def)
  qed
qed

lemma cleanup_ok: "sse_ok limit r n (db, c) \<Longrightarrow> sse_ok limit r n (db, sse_cleanup c)"
  by (auto simp: sse_ok_def sse_cleanup_def)

lemma poll_ok:
  assumes ok: "sse_ok limit r n (db, c)"
  shows "sse_ok limit r n (db, sse_poll limit db r w c)"
proof (cases "sse_cleaned c")
  case True
  with ok show ?thesis by (simp add: sse_poll_def)
next
  case False
  let ?log = "room_events db r" and ?n = "sse_lastQueued c" and ?cap = "limit - length (sse_queue c)"
  let ?k = "if sse_waiting c then ?cap + 1 else ?cap"
  show ?thesis
  proof (cases "readEvents db r ?n ?k")
    case (Inl e)
    with False cleanup_ok [OF ok] show ?thesis by (simp add: sse_poll_def Let_def)
  next
    case (Inr events)
    show ?thesis
    proof (cases "length events > ?cap")
      case True
      with Inr False cleanup_ok [OF ok] show ?thesis by (simp add: sse_poll_def Let_def)
    next
      case small: False
      from ok have log: "log_ok db" by (simp add: sse_ok_def)
      note ev = readEvents_ok [OF log Inr]
      note move = cursor_moves [OF log ev]
      let ?c = "c\<lparr>sse_queue := sse_queue c @ events, sse_lastQueued := ?n + length events\<rparr>"
      have flushes: "sse_poll limit db r w c = sse_flush w ?c"
        using False Inr small move by (simp add: sse_poll_def Let_def)
      have "sse_loaded limit r n (db, ?c)"
      proof -
        have len: "length events = min ?k (length ?log - ?n)" by (simp add: ev)
        have "take (length events) (drop ?n ?log) = take ?k (drop ?n ?log)" unfolding len by (simp add: min_def)
        then have events: "events = map event_of (take (length events) (drop ?n ?log))" using ev by simp
        have grow: "map event_of (drop n (take (?n + length events) ?log)) = map event_of (drop n (take ?n ?log)) @ events"
        proof (cases "events = []")
          case False
          then have "0 < length events" by simp
          then have "?n \<le> length ?log" using len by linarith
          moreover have "n \<le> ?n" using ok by (simp add: sse_ok_def)
          ultimately have "drop n (take (?n + length events) ?log) = drop n (take ?n ?log) @ take (length events) (drop ?n ?log)"
            by (simp add: take_add)
          then show ?thesis using events by simp
        qed simp
        have "?n + length events = n \<or> ?n + length events \<le> length ?log"
          using ok len by (auto simp: sse_ok_def)
        with ok False small grow log show ?thesis by (auto simp: sse_ok_def sse_loaded_def)
      qed
      then show ?thesis unfolding flushes by (rule flush_ok) (use False in simp)
    qed
  qed
qed

lemma drain_ok:
  assumes "sse_ok limit r n (db, c)"
  shows "sse_ok limit r n (db, sse_drain w c)"
  unfolding sse_drain_def by (rule flush_ok) (use assms in \<open>auto simp: sse_ok_def sse_loaded_def\<close>)

lemma heartbeat_ok:
  assumes "sse_ok limit r n (db, c)"
  shows "sse_ok limit r n (db, sse_heartbeat o' c)"
  using assms cleanup_ok [OF assms]
  by (cases o') (auto simp: sse_heartbeat_def sse_ok_def delivered_def)

lemma log_grown_ok:
  assumes "sse_ok limit r n (db, c)" and "log_ok db'" and "room_events db' r = room_events db r @ new"
  shows "sse_ok limit r n (db', c)"
proof -
  have "drop n (take (sse_lastQueued c) (room_events db r @ new)) = drop n (take (sse_lastQueued c) (room_events db r))"
    using assms(1) by (auto simp: sse_ok_def)
  with assms show ?thesis by (auto simp: sse_ok_def)
qed

lemma sse_step_ok: "sse_step limit r s s' \<Longrightarrow> sse_ok limit r n s \<Longrightarrow> sse_ok limit r n s'"
  by (induction rule: sse_step.induct) (auto intro: log_grown_ok poll_ok drain_ok heartbeat_ok cleanup_ok)

lemma connected_ok: "log_ok db \<Longrightarrow> sse_ok limit r n (db, sse_connected n)"
  by (simp add: sse_ok_def sse_connected_def delivered_def)

lemma sse_run_ok: "sse_run limit r n s \<Longrightarrow> sse_ok limit r n s"
  by (induction rule: sse_run.induct) (auto intro: poll_ok connected_ok sse_step_ok)

end
