(* ===== verification/Stream_Claims.thy ===== *)
theory Stream_Claims
  imports Event_Stream
begin

text \<open>
  What the event stream and the paged replay of a room's log promise to a client.
\<close>

section \<open>Exactly once, in order\<close>

text \<open>
  C28: whatever the log, the timers, the drains and the writes do, the events written to
  a stream that was opened with cursor \<open>n\<close> are, in order and without a gap or a repetition, an initial
  part of the room's log after \<open>n\<close>; as long as the stream is open, together with the queue they are all
  of it up to the last event queued; and the queue never exceeds its limit.
\<close>

theorem stream_exactly_once:
  assumes "sse_run limit r n (db, c)"
  shows "(\<exists>m. \<exists>later. delivered c @ sse_queue c @ later = map event_of (drop n (take m (room_events db r))) \<and>
      (\<not> sse_cleaned c \<longrightarrow> later = [] \<and> m = sse_lastQueued c)) \<and>
    length (sse_queue c) \<le> limit"
  using sse_run_ok [OF assms] unfolding sse_ok_def prod.case by blast

definition stream_db :: db where
  "stream_db = (migrated_db [])\<lparr>db_events :=
     [\<lparr>event_room = ''first-playable'', event_sequence = 1, event_json = ''{}'', event_created_at = []\<rparr>,
      \<lparr>event_room = ''first-playable'', event_sequence = 2, event_json = ''{}'', event_created_at = []\<rparr>],
     db_rooms := [\<lparr>room_id = ''first-playable'', room_title = ''The Green Room'', room_status = Active,
        room_generation = 0, next_event_sequence = 3, room_created_at = [], activity_order = 1, archived = False\<rparr>]\<rparr>"

lemma stream_db_ok: "log_ok stream_db"
  by (simp add: log_ok_def stream_db_def rooms_distinct_def room_events_def find_room_def upt_rec migrated_db_def)

lemma stream_log: "room_events stream_db ''first-playable'' =
  [\<lparr>event_room = ''first-playable'', event_sequence = 1, event_json = ''{}'', event_created_at = []\<rparr>,
   \<lparr>event_room = ''first-playable'', event_sequence = 2, event_json = ''{}'', event_created_at = []\<rparr>]"
  by (simp add: room_events_def stream_db_def)

theorem stream_exactly_once_witness:
  "\<exists>c. sse_run 128 ''first-playable'' 1 (stream_db, c) \<and> length (sse_queue c) \<le> 128"
  using sse_run.connect [OF stream_db_ok] stream_exactly_once by blast

section \<open>To the end of the log\<close>

definition all_parse :: "db \<Rightarrow> string \<Rightarrow> bool" where
  "all_parse db r \<longleftrightarrow> (\<forall>e \<in> set (room_events db r). json_parse (event_json e) \<noteq> None)"

lemma read_all: "log_ok db \<Longrightarrow> all_parse db r \<Longrightarrow>
  readEvents db r n limit = Inr (map event_of (take limit (drop n (room_events db r))))"
  unfolding readEvents_def rows_after by (rule rows_parse) (auto simp: all_parse_def dest!: in_set_takeD in_set_dropD)

text \<open>Pages, each from the cursor of the last.\<close>

fun replay :: "nat \<Rightarrow> db \<Rightarrow> string \<Rightarrow> nat \<Rightarrow> js_error + (nat \<times> jval) list" where
  "replay 0 db r n = Inr []"
| "replay (Suc k) db r n = bindE (eventPage db r n) (\<lambda>page. bindE (replay k db r (snd page)) (\<lambda>more. Inr (fst page @ more)))"

lemma replay_take:
  assumes "log_ok db" and "all_parse db r"
  shows "replay k db r n = Inr (map event_of (take (k * EVENT_REPLAY_LIMIT) (drop n (room_events db r))))"
proof (induction k arbitrary: n)
  case 0
  then show ?case by simp
next
  case (Suc k)
  let ?log = "room_events db r" and ?page = "map event_of (take EVENT_REPLAY_LIMIT (drop n (room_events db r)))"
  have "eventPage db r n = Inr (?page, n + length ?page)"
    using cursor_moves [OF assms(1) refl, of EVENT_REPLAY_LIMIT n r] by (simp add: eventPage_def read_all [OF assms])
  then have "replay (Suc k) db r n = Inr (?page @ map event_of (take (k * EVENT_REPLAY_LIMIT) (drop (n + length ?page) ?log)))"
    by (simp add: Suc.IH)
  also have "drop (n + length ?page) ?log = drop (n + EVENT_REPLAY_LIMIT) ?log"
    by (cases "n + EVENT_REPLAY_LIMIT \<le> length ?log") auto
  also have "?page @ map event_of (take (k * EVENT_REPLAY_LIMIT) (drop (n + EVENT_REPLAY_LIMIT) ?log)) =
      map event_of (take (Suc k * EVENT_REPLAY_LIMIT) (drop n ?log))"
    by (simp add: take_add add.commute)
  finally show ?case .
qed

text \<open>Polls of a stream whose writes are all accepted.\<close>

fun polls :: "nat \<Rightarrow> nat \<Rightarrow> db \<Rightarrow> string \<Rightarrow> sse_client \<Rightarrow> sse_client" where
  "polls 0 limit db r c = c"
| "polls (Suc k) limit db r c = polls k limit db r (sse_poll limit db r (\<lambda>_. Accepted) c)"

lemma write_all_accepted: "write_all (\<lambda>_. Accepted) k q out = ([], out @ map Event_Frame q, Accepted)"
  by (induction q arbitrary: k out) auto

definition sse_idle :: "sse_client \<Rightarrow> bool" where
  "sse_idle c \<longleftrightarrow> \<not> sse_cleaned c \<and> \<not> sse_waiting c \<and> sse_queue c = []"

lemma poll_moves:
  fixes limit :: nat
  assumes "log_ok db" and "all_parse db r" and "sse_idle c"
  defines "c' \<equiv> sse_poll limit db r (\<lambda>_. Accepted) c"
  shows "sse_idle c'" and "delivered c' = delivered c @ map event_of (take limit (drop (sse_lastQueued c) (room_events db r)))"
    and "sse_lastQueued c' = sse_lastQueued c + length (take limit (drop (sse_lastQueued c) (room_events db r)))"
proof -
  let ?ev = "map event_of (take limit (drop (sse_lastQueued c) (room_events db r)))"
  have "c' = c\<lparr>sse_written := sse_written c @ map Event_Frame ?ev, sse_queue := [],
      sse_lastQueued := sse_lastQueued c + length ?ev\<rparr>"
    using assms(3) cursor_moves [OF assms(1) refl, of limit "sse_lastQueued c" r]
    by (simp add: c'_def sse_poll_def Let_def read_all [OF assms(1,2)] sse_idle_def sse_flush_def write_all_accepted del: map_map)
  then show "sse_idle c'" "delivered c' = delivered c @ ?ev"
    "sse_lastQueued c' = sse_lastQueued c + length (take limit (drop (sse_lastQueued c) (room_events db r)))"
    using assms(3) by (simp_all add: sse_idle_def delivered_def frames_delivered del: map_map)
qed

lemma polls_deliver:
  assumes "log_ok db" and "all_parse db r"
  shows "sse_idle c \<Longrightarrow> delivered (polls k limit db r c) =
    delivered c @ map event_of (take (k * limit) (drop (sse_lastQueued c) (room_events db r)))"
proof (induction k arbitrary: c)
  case 0
  then show ?case by simp
next
  case (Suc k)
  let ?log = "room_events db r" and ?n = "sse_lastQueued c"
  note move = poll_moves [OF assms Suc.prems, of limit]
  have "drop (?n + length (take limit (drop ?n ?log))) ?log = drop (?n + limit) ?log"
    by (cases "?n + limit \<le> length ?log") auto
  then have "delivered (polls (Suc k) limit db r c) =
      delivered c @ map event_of (take limit (drop ?n ?log) @ take (k * limit) (drop (?n + limit) ?log))"
    by (simp add: Suc.IH [OF move(1)] move(2,3))
  also have "take limit (drop ?n ?log) @ take (k * limit) (drop (?n + limit) ?log) = take (Suc k * limit) (drop ?n ?log)"
    by (simp add: take_add add.commute)
  finally show ?case .
qed

text \<open>
  C29: a client reaches the end of a log that rests. Asking for pages from the cursor of
  the last page gives after \<open>k\<close> pages the first \<open>100 * k\<close> events after the cursor, so enough pages give
  all of them, each once and in order; and a stream whose writes are accepted has written after \<open>k\<close> more
  polls the first \<open>limit * k\<close> events that were not queued yet, so enough polls write them all.
\<close>

theorem log_read_to_the_end:
  assumes "log_ok db" and "all_parse db r" and "sse_run limit r n (db, c)" and "sse_idle c"
    and "length (room_events db r) \<le> n + k * EVENT_REPLAY_LIMIT" and "length (room_events db r) \<le> n + k' * limit"
  shows "replay k db r n = Inr (map event_of (drop n (room_events db r))) \<and>
    delivered (polls k' limit db r c) = map event_of (drop n (room_events db r))"
proof -
  let ?log = "room_events db r" and ?m = "sse_lastQueued c"
  have "replay k db r n = Inr (map event_of (drop n ?log))"
    using assms(5) by (simp add: replay_take [OF assms(1,2)])
  moreover have "delivered c = map event_of (drop n (take ?m ?log))" "n \<le> ?m"
    using sse_run_ok [OF assms(3)] assms(4) by (auto simp: sse_ok_def sse_idle_def)
  moreover have "delivered (polls k' limit db r c) = delivered c @ map event_of (drop ?m ?log)"
    using polls_deliver [OF assms(1,2,4), of k' limit] assms(6) \<open>n \<le> ?m\<close> by simp
  moreover have "drop n (take ?m ?log) @ drop ?m ?log = drop n ?log"
  proof (cases "n \<le> length ?log")
    case True
    have "drop n (take ?m ?log @ drop ?m ?log) = drop n (take ?m ?log) @ drop (n - length (take ?m ?log)) (drop ?m ?log)"
      by (rule drop_append)
    moreover have "n - length (take ?m ?log) = 0" using \<open>n \<le> ?m\<close> True by simp
    ultimately show ?thesis by (simp del: length_take)
  qed (use \<open>n \<le> ?m\<close> in simp)
  ultimately show ?thesis by (simp add: map_append [symmetric] del: map_append)
qed

theorem log_read_to_the_end_witness:
  "\<exists>c. delivered (polls 2 1 stream_db ''first-playable'' c) = map event_of (room_events stream_db ''first-playable'')"
proof -
  have "json_parse ''{}'' \<noteq> None" by code_simp
  then have parse: "all_parse stream_db ''first-playable''" by (simp add: all_parse_def stream_log)
  have start: "sse_idle (sse_connected 0)" by (simp add: sse_idle_def sse_connected_def)
  from poll_moves(1) [OF stream_db_ok parse start, of 1] sse_run.connect [OF stream_db_ok, of 1 "''first-playable''" 0 "\<lambda>_. Accepted"]
    log_read_to_the_end [OF stream_db_ok parse, of 1 0 _ 1 2]
  have "delivered (polls 2 1 stream_db ''first-playable'' (sse_poll 1 stream_db ''first-playable'' (\<lambda>_. Accepted) (sse_connected 0))) =
      map event_of (drop 0 (room_events stream_db ''first-playable''))"
    by (simp add: stream_log EVENT_REPLAY_LIMIT_def del: polls.simps)
  then show ?thesis by auto
qed

end
