(* ===== verification/Http_Requests.thy ===== *)
theory Http_Requests
  imports Room_Options Event_Stream "HOL-Library.Sublist"
begin

text \<open>
  The HTTP interface of \<open>src/api/routes.ts\<close>: the check that every request passes, the parsers of the
  bodies, the mapping of errors to responses, and the routes of the synchronous commands, each a
  function from the request and the database to the response and the database. Header and parameter
  decoding is the framework's; a body is any value.
\<close>

section \<open>Requests and responses\<close>

datatype http_header = No_Header | One_Value string | Many_Values "string list"

record http_request =
  req_method :: string
  req_url :: string
  req_host :: http_header
  req_origin :: http_header
  req_csrf :: http_header
  req_body :: jval
  req_query :: jval

record http_response =
  rsp_status :: nat
  rsp_body :: jval

text \<open>The fixed values of \<open>ApiRoutesOptions\<close>, with the authority of the allowed origin.\<close>

record api_options =
  api_authority :: string
  api_origin :: string
  api_csrfToken :: string

definition error_body :: "string \<Rightarrow> string \<Rightarrow> jval" where
  "error_body code message = JObj [(''error'', JObj [(''code'', JStr code), (''message'', JStr message)])]"

definition errorResponse :: "nat \<Rightarrow> string \<Rightarrow> string \<Rightarrow> http_response" where
  "errorResponse status code message = \<lparr>rsp_status = status, rsp_body = error_body code message\<rparr>"

definition conflict_response :: http_response where
  "conflict_response = errorResponse 409 ''request_conflict'' ''Request conflicts with existing state''"

definition generation_response :: http_response where
  "generation_response = errorResponse 503 ''generation_failed'' ''Message generation failed''"

definition host_response :: http_response where
  "host_response = errorResponse 400 ''invalid_host'' ''Request host is not allowed''"

definition origin_response :: http_response where
  "origin_response = errorResponse 403 ''invalid_origin'' ''Request origin is not allowed''"

definition csrf_response :: http_response where
  "csrf_response = errorResponse 403 ''invalid_csrf'' ''CSRF token is invalid''"

definition invalidRequest :: http_response where
  "invalidRequest = errorResponse 400 ''invalid_request'' ''Request body is invalid''"

definition cursor_response :: http_response where
  "cursor_response = errorResponse 400 ''invalid_cursor'' ''Event cursor is invalid''"

section \<open>Options\<close>

definition boundedPositiveInteger :: "jval \<Rightarrow> nat \<Rightarrow> nat \<Rightarrow> string \<Rightarrow> js_error + nat" where
  "boundedPositiveInteger v fallback maximum name =
     (case jsafe_nonneg (coalesce v (JInt (int fallback))) of
        None \<Rightarrow> Inl (TypeError (name @ '' must be a bounded positive integer''))
      | Some n \<Rightarrow> if n \<le> 0 \<or> n > maximum then Inl (TypeError (name @ '' must be a bounded positive integer'')) else Inr n)"

text \<open>The interval of the heartbeat, the interval of the poll and the limit of the queue of a stream.\<close>

definition sse_options :: "jval \<Rightarrow> jval \<Rightarrow> jval \<Rightarrow> js_error + (nat \<times> nat \<times> nat)" where
  "sse_options heartbeatMs pollIntervalMs queueLimit =
     bindE (boundedPositiveInteger heartbeatMs 15000 300000 ''sseHeartbeatMs'') (\<lambda>h.
     bindE (boundedPositiveInteger pollIntervalMs 25 10000 ''ssePollIntervalMs'') (\<lambda>p.
     bindE (boundedPositiveInteger queueLimit 128 1000 ''sseQueueLimit'') (\<lambda>q. Inr (h, p, q))))"

section \<open>The check of every request\<close>

fun singleHeader :: "http_header \<Rightarrow> string option" where
  "singleHeader (One_Value v) = Some v"
| "singleHeader _ = None"

text \<open>Comparing the bytes of two strings of the model is comparing the strings.\<close>

definition tokensEqual :: "string \<Rightarrow> string option \<Rightarrow> bool" where
  "tokensEqual expected received = (case received of None \<Rightarrow> False | Some t \<Rightarrow> t = expected)"

definition onRequest :: "api_options \<Rightarrow> http_request \<Rightarrow> http_response option" where
  "onRequest api req =
     (if singleHeader (req_host req) \<noteq> Some (api_authority api) then Some host_response
      else if req_method req \<noteq> ''GET'' then
        (if singleHeader (req_origin req) \<noteq> Some (api_origin api) then Some origin_response
         else if \<not> tokensEqual (api_csrfToken api) (singleHeader (req_csrf req)) then Some csrf_response
         else if CHR ''?'' \<in> set (req_url req) then Some invalidRequest
         else None)
      else None)"

section \<open>Bodies\<close>

fun hasExactlyKeys :: "jval \<Rightarrow> string list \<Rightarrow> string list \<Rightarrow> bool" where
  "hasExactlyKeys (JObj fs) required optional \<longleftrightarrow>
     list_all (\<lambda>k. k \<in> set (map fst fs)) required \<and> list_all (\<lambda>k. k \<in> set required \<or> k \<in> set optional) (map fst fs)"
| "hasExactlyKeys _ required optional \<longleftrightarrow> False"

definition hasOwn :: "jval \<Rightarrow> string \<Rightarrow> bool" where
  "hasOwn v k \<longleftrightarrow> k \<in> set (jkeys v)"

fun validIdentifier :: "jval \<Rightarrow> bool" where
  "validIdentifier (JStr s) \<longleftrightarrow> 0 < length s \<and> length s \<le> MAX_IDENTIFIER_LENGTH \<and> js_trim s = s"
| "validIdentifier _ \<longleftrightarrow> False"

fun jstr :: "jval \<Rightarrow> string" where
  "jstr (JStr s) = s"
| "jstr _ = []"

text \<open>\<open>/^room-[0-9a-f]{8}-[0-9a-f]{4}-4[0-9a-f]{3}-[89ab][0-9a-f]{3}-[0-9a-f]{12}$/\<close>\<close>

definition room_id_pattern :: "(char \<Rightarrow> bool) list" where
  "room_id_pattern = map (\<lambda>c x. x = c) ''room-'' @ replicate 8 lower_hex @ [(=) CHR ''-''] @ replicate 4 lower_hex @
     [(=) CHR ''-'', (=) CHR ''4''] @ replicate 3 lower_hex @ [(=) CHR ''-'', \<lambda>c. c \<in> set ''89ab''] @ replicate 3 lower_hex @
     [(=) CHR ''-''] @ replicate 12 lower_hex"

definition validRoomId :: "string \<Rightarrow> bool" where
  "validRoomId s \<longleftrightarrow> s = ''first-playable'' \<or> list_all2 (\<lambda>P c. P c) room_id_pattern s"

definition validSelectionRevision :: "jval \<Rightarrow> bool" where
  "validSelectionRevision v \<longleftrightarrow> jsafe_nonneg v \<noteq> None"

record parsed_control =
  pb_requestId :: string
  pb_selectionRevision :: jval

record parsed_message = parsed_control +
  pb_text :: string
  pb_wantsResponse :: "bool option"
  pb_target :: "string option"

record parsed_cast = parsed_control +
  pb_personaSlugs :: "string list"

definition parseControlBody :: "jval \<Rightarrow> parsed_control option" where
  "parseControlBody v =
     (if \<not> hasExactlyKeys v [''requestId'', ''selectionRevision''] [] \<or> \<not> validIdentifier (jget ''requestId'' v) \<or>
         \<not> validSelectionRevision (jget ''selectionRevision'' v)
      then None
      else Some \<lparr>pb_requestId = jstr (jget ''requestId'' v), pb_selectionRevision = jget ''selectionRevision'' v\<rparr>)"

fun message_text_ok :: "jval \<Rightarrow> bool" where
  "message_text_ok (JStr s) \<longleftrightarrow> js_trim s \<noteq> [] \<and> length s \<le> MAX_MESSAGE_LENGTH"
| "message_text_ok _ \<longleftrightarrow> False"

fun jbool :: "jval \<Rightarrow> bool option" where
  "jbool (JBool b) = Some b"
| "jbool _ = None"

fun jstring :: "jval \<Rightarrow> string option" where
  "jstring (JStr s) = Some s"
| "jstring _ = None"

definition parseMessageBody :: "jval \<Rightarrow> parsed_message option" where
  "parseMessageBody v =
     (if \<not> hasExactlyKeys v [''requestId'', ''selectionRevision'', ''text''] [''wantsResponse'', ''targetPersonaId''] \<or>
         \<not> validIdentifier (jget ''requestId'' v) \<or> \<not> validSelectionRevision (jget ''selectionRevision'' v) \<or>
         \<not> message_text_ok (jget ''text'' v) \<or>
         (hasOwn v ''wantsResponse'' \<and> jbool (jget ''wantsResponse'' v) = None) \<or>
         (hasOwn v ''targetPersonaId'' \<and> \<not> validIdentifier (jget ''targetPersonaId'' v)) \<or>
         (jget ''targetPersonaId'' v \<noteq> JUndefined \<and> jget ''wantsResponse'' v = JBool False)
      then None
      else Some \<lparr>pb_requestId = jstr (jget ''requestId'' v), pb_selectionRevision = jget ''selectionRevision'' v,
                 pb_text = jstr (jget ''text'' v), pb_wantsResponse = jbool (jget ''wantsResponse'' v),
                 pb_target = jstring (jget ''targetPersonaId'' v)\<rparr>)"

fun known_slugs :: "string list \<Rightarrow> jval \<Rightarrow> bool" where
  "known_slugs known (JArr xs) \<longleftrightarrow> 1 \<le> length xs \<and> length xs \<le> 3 \<and>
     list_all (\<lambda>x. case jstring x of None \<Rightarrow> False | Some s \<Rightarrow> s \<in> set known) xs \<and> distinct xs"
| "known_slugs known _ \<longleftrightarrow> False"

fun jstrings :: "jval \<Rightarrow> string list" where
  "jstrings (JArr xs) = map jstr xs"
| "jstrings _ = []"

definition parseCastBody :: "jval \<Rightarrow> string list \<Rightarrow> parsed_cast option" where
  "parseCastBody v known =
     (if \<not> hasExactlyKeys v [''requestId'', ''selectionRevision'', ''personaSlugs''] [] \<or> \<not> validIdentifier (jget ''requestId'' v) \<or>
         \<not> validSelectionRevision (jget ''selectionRevision'' v) \<or> \<not> known_slugs known (jget ''personaSlugs'' v)
      then None
      else Some \<lparr>pb_requestId = jstr (jget ''requestId'' v), pb_selectionRevision = jget ''selectionRevision'' v,
                 pb_personaSlugs = jstrings (jget ''personaSlugs'' v)\<rparr>)"

text \<open>The cursor \<open>after\<close> of a query: \<open>/^(0|[1-9][0-9]*)$/\<close>, then a safe integer.\<close>

definition cursor_digits :: "string \<Rightarrow> bool" where
  "cursor_digits s \<longleftrightarrow> s = ''0'' \<or> (s \<noteq> [] \<and> hd s \<noteq> CHR ''0'' \<and> list_all is_digit s)"

fun parseCursor :: "jval \<Rightarrow> nat option" where
  "parseCursor (JObj [(k, JStr s)]) =
     (if k = ''after'' \<and> cursor_digits s \<and> int (nat_of_digits s) \<le> max_safe_integer then Some (nat_of_digits s) else None)"
| "parseCursor _ = None"

section \<open>Errors as responses\<close>

fun error_message :: "js_error \<Rightarrow> string" where
  "error_message (TypeError m) = m"
| "error_message (RangeError m) = m"
| "error_message (PlainError m) = m"
| "error_message (SqlError m) = m"
| "error_message RoomServiceClosedError = ''Room service is closed''"

fun contains :: "string \<Rightarrow> string \<Rightarrow> bool" where
  "contains p [] \<longleftrightarrow> p = []"
| "contains p (c # s) \<longleftrightarrow> prefix p (c # s) \<or> contains p s"

definition conflict_phrases :: "string list" where
  "conflict_phrases = [''already used'', ''room is'', ''room selection'', ''room library'', ''unknown room'',
     ''unknown persona'', ''target persona'']"

definition sendServiceError :: "js_error \<Rightarrow> http_response" where
  "sendServiceError e =
     (if list_ex (\<lambda>p. contains p (ascii_lower (error_message e))) conflict_phrases then conflict_response else generation_response)"

text \<open>
  What the error handler answers when a handler throws outside its \<open>try\<close>; an error of another
  URL is the framework's to answer.
\<close>

definition errorHandler :: "(js_error \<Rightarrow> http_response) \<Rightarrow> http_request \<Rightarrow> js_error \<Rightarrow> http_response" where
  "errorHandler framework req e = (if prefix ''/api/'' (req_url req) then invalidRequest else framework e)"

definition ok_response :: "jval \<Rightarrow> http_response" where
  "ok_response v = \<lparr>rsp_status = 200, rsp_body = v\<rparr>"

text \<open>A call of an operation whose error the handler \<open>caught\<close> answers.\<close>

definition answered :: "(js_error \<Rightarrow> http_response) \<Rightarrow> ('a \<Rightarrow> jval) \<Rightarrow> 'a action \<Rightarrow> db \<Rightarrow> http_response \<times> db" where
  "answered caught render operation db =
     (case operation db of
        (Inl e, db') \<Rightarrow> (caught e, db')
      | (Inr x, db') \<Rightarrow> (ok_response (render x), db'))"

section \<open>Routes\<close>

datatype api_route =
    List_Rooms
  | Current_Selection
  | Read_Room string
  | Read_Events string
  | Select_Room string
  | Create_Cast
  | Control_Room room_control string
  | Control_Persona persona_control string string

fun route_method :: "api_route \<Rightarrow> string" where
  "route_method List_Rooms = ''GET''"
| "route_method Current_Selection = ''GET''"
| "route_method (Read_Room r) = ''GET''"
| "route_method (Read_Events r) = ''GET''"
| "route_method _ = ''POST''"

definition summary_json :: "room_summary_dto \<Rightarrow> jval" where
  "summary_json s = JObj
     [(''id'', JStr (sum_id s)), (''title'', JStr (sum_title s)), (''status'', JStr (status_name (sum_status s))),
      (''selected'', JBool (sum_selected s)), (''lastActivity'', JStr (sum_lastActivity s)),
      (''cast'', JArr (map participant_dto_json (sum_cast s)))]"

definition selection_state_json :: "room_selection_state_dto \<Rightarrow> jval" where
  "selection_state_json s = JObj [(''revision'', JInt (int (rss_revision s))), (''room'', room_dto_json (rss_room s))]"

definition page_json :: "(nat \<times> jval) list \<times> nat \<Rightarrow> jval" where
  "page_json p = JObj
     [(''events'', JArr (map (\<lambda>e. JObj [(''sequence'', JInt (int (fst e))), (''event'', snd e)]) (fst p))),
      (''nextCursor'', JInt (int (snd p)))]"

definition room_control_command :: "string \<Rightarrow> parsed_control \<Rightarrow> room_command" where
  "room_control_command r body =
     \<lparr>rc_requestId = pb_requestId body, rc_roomId = r, rc_selectionRevision = pb_selectionRevision body\<rparr>"

definition persona_command :: "string \<Rightarrow> string \<Rightarrow> parsed_control \<Rightarrow> persona_control_command" where
  "persona_command r i body =
     \<lparr>rc_requestId = pb_requestId body, rc_roomId = r, rc_selectionRevision = pb_selectionRevision body, pcc_personaId = i\<rparr>"

definition select_command :: "string \<Rightarrow> parsed_control \<Rightarrow> select_room_command" where
  "select_command r body =
     \<lparr>src_expectedRevision = pb_selectionRevision body, src_requestId = pb_requestId body, src_roomId = r\<rparr>"

definition undefined_or :: "('a \<Rightarrow> jval) \<Rightarrow> 'a option \<Rightarrow> jval" where
  "undefined_or f x = (case x of None \<Rightarrow> JUndefined | Some y \<Rightarrow> f y)"

definition message_command_of :: "string \<Rightarrow> parsed_message \<Rightarrow> send_message_command" where
  "message_command_of r body =
     \<lparr>rc_requestId = pb_requestId body, rc_roomId = r, rc_selectionRevision = pb_selectionRevision body,
      smc_text = pb_text body, smc_wantsResponse = undefined_or JBool (pb_wantsResponse body), smc_target = pb_target body\<rparr>"

text \<open>
  The handlers. \<open>createCast\<close> is the handler of the three paths that replace the cast; the handlers of
  the controls take the operation as the loops of the code do.
\<close>

definition createCast ::
    "(string \<times> string) list \<Rightarrow> (string \<Rightarrow> string) \<Rightarrow> (nat \<Rightarrow> string) \<Rightarrow> http_request \<Rightarrow> db \<Rightarrow> http_response \<times> db" where
  "createCast catalog sha uuid req db =
     (case parseCastBody (req_body req) (map fst catalog) of
        None \<Rightarrow> (invalidRequest, db)
      | Some body \<Rightarrow> answered sendServiceError cast_result_json
          (replaceCast catalog sha uuid (pb_requestId body) (pb_selectionRevision body) (pb_personaSlugs body)) db)"

definition controlRoute :: "(string \<Rightarrow> string) \<Rightarrow> room_control \<Rightarrow> string \<Rightarrow> http_request \<Rightarrow> db \<Rightarrow> http_response \<times> db" where
  "controlRoute sha kind r req db =
     (case parseControlBody (req_body req) of
        None \<Rightarrow> (invalidRequest, db)
      | Some body \<Rightarrow>
          if \<not> validRoomId r then (invalidRequest, db)
          else answered sendServiceError (\<lambda>p. control_result_json (snd p)) (roomControl sha kind (room_control_command r body)) db)"

definition personaRoute :: "(string \<Rightarrow> string) \<Rightarrow> persona_control \<Rightarrow> string \<Rightarrow> string \<Rightarrow> http_request \<Rightarrow> db \<Rightarrow> http_response \<times> db" where
  "personaRoute sha kind r i req db =
     (case parseControlBody (req_body req) of
        None \<Rightarrow> (invalidRequest, db)
      | Some body \<Rightarrow>
          if \<not> validRoomId r \<or> \<not> validIdentifier (JStr i) then (invalidRequest, db)
          else answered sendServiceError (\<lambda>p. persona_result_json (snd p)) (personaControl sha kind (persona_command r i body)) db)"

definition selectRoute :: "(string \<Rightarrow> string) \<Rightarrow> string \<Rightarrow> http_request \<Rightarrow> db \<Rightarrow> http_response \<times> db" where
  "selectRoute sha r req db =
     (case parseControlBody (req_body req) of
        None \<Rightarrow> (invalidRequest, db)
      | Some body \<Rightarrow>
          if \<not> validRoomId r then (invalidRequest, db)
          else answered sendServiceError selection_result_json (selectRoom sha (select_command r body)) db)"

definition eventsRoute :: "(js_error \<Rightarrow> http_response) \<Rightarrow> string \<Rightarrow> http_request \<Rightarrow> db \<Rightarrow> http_response \<times> db" where
  "eventsRoute framework r req db =
     (case parseCursor (req_query req) of
        None \<Rightarrow> (cursor_response, db)
      | Some after \<Rightarrow>
          if \<not> validRoomId r then (cursor_response, db)
          else (case readRoom r db of
                  (Inl e, db') \<Rightarrow> (sendServiceError e, db')
                | (Inr _, db') \<Rightarrow> answered (errorHandler framework req) page_json (liftA (eventPage db' r after)) db'))"

definition serve ::
    "api_options \<Rightarrow> (js_error \<Rightarrow> http_response) \<Rightarrow> (string \<times> string) list \<Rightarrow> (string \<Rightarrow> string) \<Rightarrow> (nat \<Rightarrow> string) \<Rightarrow>
     api_route \<Rightarrow> http_request \<Rightarrow> db \<Rightarrow> http_response \<times> db" where
  "serve api framework catalog sha uuid route req db =
     (case onRequest api req of
        Some rsp \<Rightarrow> (rsp, db)
      | None \<Rightarrow>
          (case route of
             List_Rooms \<Rightarrow> answered (errorHandler framework req)
               (\<lambda>rooms. JObj [(''rooms'', JArr (map summary_json rooms))]) listRooms db
           | Current_Selection \<Rightarrow> answered (errorHandler framework req) selection_state_json readRoomSelection db
           | Read_Room r \<Rightarrow> if \<not> validRoomId r then (invalidRequest, db) else answered sendServiceError room_dto_json (readRoom r) db
           | Read_Events r \<Rightarrow> eventsRoute framework r req db
           | Select_Room r \<Rightarrow> selectRoute sha r req db
           | Create_Cast \<Rightarrow> createCast catalog sha uuid req db
           | Control_Room kind r \<Rightarrow> controlRoute sha kind r req db
           | Control_Persona kind r i \<Rightarrow> personaRoute sha kind r i req db))"

end
