(* ===== verification/Http_Claims.thy ===== *)
theory Http_Claims
  imports Http_Requests Room_Claims
begin

text \<open>
  What the HTTP interface promises: a refused request changes nothing and says nothing beyond a fixed
  body, only requests of the allowed origin with the token reach an operation that writes, a control
  that was resent is answered with the same response, and a message that the parser accepts is one that
  the room service accepts.
\<close>

section \<open>Refused requests\<close>

definition fixed_refusals :: "http_response set" where
  "fixed_refusals = {host_response, origin_response, csrf_response, invalidRequest, cursor_response,
     conflict_response, generation_response}"

definition same_site :: "api_options \<Rightarrow> http_request \<Rightarrow> bool" where
  "same_site api req \<longleftrightarrow> req_origin req = One_Value (api_origin api) \<and> req_csrf req = One_Value (api_csrfToken api) \<and>
     CHR ''?'' \<notin> set (req_url req)"

lemma refusal_status: "rsp \<in> fixed_refusals \<Longrightarrow> rsp_status rsp \<noteq> 200"
  by (auto simp: fixed_refusals_def host_response_def origin_response_def csrf_response_def invalidRequest_def
      cursor_response_def conflict_response_def generation_response_def errorResponse_def)

lemma in_refusals [simp]:
  "invalidRequest \<in> fixed_refusals" "cursor_response \<in> fixed_refusals" "sendServiceError e \<in> fixed_refusals"
  by (simp_all add: fixed_refusals_def sendServiceError_def)

lemma handler_refuses [simp]: "prefix ''/api/'' (req_url req) \<Longrightarrow> errorHandler framework req e \<in> fixed_refusals"
  by (simp add: errorHandler_def)

lemma single_header: "singleHeader h = Some v \<longleftrightarrow> h = One_Value v"
  by (cases h) auto

lemma onRequest_refuses: "onRequest api req = Some rsp \<Longrightarrow> rsp \<in> fixed_refusals"
  by (auto simp: onRequest_def fixed_refusals_def split: if_splits)

lemma onRequest_allows:
  "onRequest api req = None \<longleftrightarrow> req_host req = One_Value (api_authority api) \<and> (req_method req = ''GET'' \<or> same_site api req)"
  by (auto simp: onRequest_def same_site_def single_header tokensEqual_def split: option.splits)

text \<open>A handler either answers with a fixed refusal and leaves the database, or succeeds.\<close>

definition refuses_or_serves :: "db \<Rightarrow> http_response \<times> db \<Rightarrow> bool" where
  "refuses_or_serves db p \<longleftrightarrow> (fst p \<in> fixed_refusals \<and> snd p = db) \<or> rsp_status (fst p) = 200"

lemma refuses_or_serves_fixed [simp]: "rsp \<in> fixed_refusals \<Longrightarrow> refuses_or_serves db (rsp, db)"
  by (simp add: refuses_or_serves_def)

lemma answered_atomic:
  assumes "atomic m" and "\<not> is_transaction db" and "\<And>e. caught e \<in> fixed_refusals"
  shows "refuses_or_serves db (answered caught render m db)"
proof (cases "m db")
  case (Pair x db')
  show ?thesis
  proof (cases x)
    case (Inl e)
    with Pair atomicD [OF assms(1,2)] assms(3) show ?thesis by (simp add: answered_def)
  qed (simp add: answered_def Pair refuses_or_serves_def ok_response_def)
qed

definition reads_only :: "'a action \<Rightarrow> bool" where
  "reads_only m \<longleftrightarrow> (\<forall>db. snd (m db) = db)"

named_theorems reading \<open>operations that only read\<close>

lemma reads_only_basic [reading]:
  "reads_only (returnA x)" "reads_only (failA e)" "reads_only (liftA r)" "reads_only (queryA f)" "reads_only (requireA b e)"
  "reads_only (someA y e)"
  by (auto simp: reads_only_def returnA_def failA_def liftA_def queryA_def requireA_def someA_def split: sum.splits option.splits)

lemma reads_only_bind [reading]: "reads_only m \<Longrightarrow> (\<And>x. reads_only (f x)) \<Longrightarrow> reads_only (bindA m f)"
  by (auto simp: reads_only_def bindA_def split: prod.splits sum.splits) (metis snd_conv)+

lemma reads_only_map [reading]: "(\<And>x. reads_only (f x)) \<Longrightarrow> reads_only (mapA f xs)"
  by (induction xs) (auto intro!: reading)

lemma reads_only_room [reading]: "reads_only (roomDto r)" "reads_only currentRoomId"
  unfolding roomDto_def currentRoomId_def by (intro reading)+

lemma reads_only_views [reading]: "reads_only (readRoom r)" "reads_only readRoomSelection" "reads_only listRooms"
  unfolding readRoom_def readRoomSelection_def listRooms_def by (intro reading)+

lemma reads_only_atomic: "reads_only m \<Longrightarrow> atomic m"
  by (auto simp: reads_only_def atomic_def) (metis snd_conv)

lemma answered_reads: "reads_only m \<Longrightarrow> snd (answered caught render m db) = db"
  by (auto simp: answered_def reads_only_def split: prod.splits sum.splits) (metis snd_conv)+

lemma atomic_replaceCast: "atomic (replaceCast catalog sha uuid q n slugs)"
  unfolding replaceCast_def by (intro atomic_intros atomic_replace)

lemma eventsRoute_reads: "snd (eventsRoute framework r req db) = db"
proof -
  have "snd (readRoom r db) = db" using reads_only_views(1) unfolding reads_only_def by blast
  then show ?thesis
    by (auto simp: eventsRoute_def answered_reads [OF reads_only_basic(3)] split: option.splits prod.splits sum.splits)
qed

lemma eventsRoute_refuses:
  assumes "prefix ''/api/'' (req_url req)"
  shows "refuses_or_serves db (eventsRoute framework r req db)"
proof (cases "parseCursor (req_query req)")
  case (Some after)
  show ?thesis
  proof (cases "readRoom r db")
    case (Pair x db')
    then have db': "db' = db" using reads_only_views(1) unfolding reads_only_def by (metis snd_conv)
    have "refuses_or_serves db (answered (errorHandler framework req) page_json (liftA (eventPage db r after)) db)"
      using eventsRoute_reads assms
      by (cases "eventPage db r after") (simp_all add: answered_def liftA_def refuses_or_serves_def ok_response_def)
    then show ?thesis by (cases x) (simp_all add: eventsRoute_def Some Pair db')
  qed
qed (simp add: eventsRoute_def)

lemma serve_refuses:
  assumes "\<not> is_transaction db" and "prefix ''/api/'' (req_url req)"
  shows "refuses_or_serves db (serve api framework catalog sha uuid route req db)"
proof (cases "onRequest api req")
  case (Some rsp)
  then show ?thesis using onRequest_refuses [OF Some] by (simp add: serve_def)
next
  case None
  note atomics = answered_atomic [OF _ assms(1)] reads_only_atomic reads_only_views service_atomic atomic_select atomic_replaceCast
  show ?thesis
    using eventsRoute_refuses [OF assms(2)] assms
    by (cases route)
      (auto simp: serve_def None selectRoute_def createCast_def controlRoute_def personaRoute_def intro!: atomics split: option.split)
qed

lemma get_reads:
  assumes "route_method route = ''GET''"
  shows "snd (serve api framework catalog sha uuid route req db) = db"
  using assms by (cases route) (auto simp: serve_def eventsRoute_reads answered_reads [OF reads_only_views(1)]
    answered_reads [OF reads_only_views(2)] answered_reads [OF reads_only_views(3)] split: option.split)


definition bad_token_request :: http_request where
  "bad_token_request = \<lparr>req_method = ''POST'', req_url = ''/api/rooms/first-playable/stop'',
     req_host = One_Value ''127.0.0.1:4173'', req_origin = One_Value ''http://127.0.0.1:4173'', req_csrf = No_Header,
     req_body = JObj [(''requestId'', JStr ''s1''), (''selectionRevision'', JInt 0)], req_query = JObj []\<rparr>"

definition local_api :: api_options where
  "local_api = \<lparr>api_authority = ''127.0.0.1:4173'', api_origin = ''http://127.0.0.1:4173'', api_csrfToken = ''token''\<rparr>"

definition stop_request :: http_request where
  "stop_request = bad_token_request\<lparr>req_csrf := One_Value ''token''\<rparr>"

abbreviation serve_local :: "api_route \<Rightarrow> http_request \<Rightarrow> db \<Rightarrow> http_response \<times> db" where
  "serve_local \<equiv> serve local_api (\<lambda>_. invalidRequest) [] hello_sha (\<lambda>_. [])"

lemma bad_token_served: "serve_local (Control_Room Stop ''first-playable'') bad_token_request db = (csrf_response, db)"
  by (simp add: serve_def onRequest_def bad_token_request_def local_api_def tokensEqual_def)


section \<open>A control that is sent again\<close>

fun control_route :: "api_route \<Rightarrow> bool" where
  "control_route (Control_Room kind r) = True"
| "control_route (Control_Persona kind r i) = True"
| "control_route _ = False"

definition keeps_selection :: "api_route \<Rightarrow> bool" where
  "keeps_selection route \<longleftrightarrow> control_route route \<or> route_method route = ''GET''"

fun answer_json :: "room_answer \<Rightarrow> jval" where
  "answer_json (Control_Answer res) = control_result_json res"
| "answer_json (Persona_Answer res) = persona_result_json res"

text \<open>The command that a request on a control route asks for.\<close>

fun requested :: "api_route \<Rightarrow> http_request \<Rightarrow> room_request option" where
  "requested (Control_Room kind r) req =
     (if validRoomId r then map_option (\<lambda>b. Control kind (room_control_command r b)) (parseControlBody (req_body req)) else None)"
| "requested (Control_Persona kind r i) req =
     (if validRoomId r \<and> validIdentifier (JStr i)
      then map_option (\<lambda>b. Persona_Control kind (persona_command r i b)) (parseControlBody (req_body req)) else None)"
| "requested _ req = None"

lemma answered_map:
  "answered caught (\<lambda>p. render (f p)) m db = answered caught render (bindA m (\<lambda>p. returnA (f p))) db"
  by (auto simp: answered_def bindA_def returnA_def split: prod.splits sum.splits)

lemma control_served:
  assumes "control_route route" and "onRequest api req = None"
  shows "serve api framework catalog sha uuid route req db =
    (case requested route req of None \<Rightarrow> (invalidRequest, db) | Some c \<Rightarrow> answered sendServiceError answer_json (runRoom sha c) db)"
proof -
  have "answered sendServiceError (\<lambda>p. control_result_json (snd p)) (roomControl sha kind cmd) db =
      answered sendServiceError answer_json (runRoom sha (Control kind cmd)) db" for kind cmd
    using answered_map [of sendServiceError answer_json "\<lambda>p. Control_Answer (snd p)"] by (simp add: runRoom_def)
  moreover have "answered sendServiceError (\<lambda>p. persona_result_json (snd p)) (personaControl sha mkind pcmd) db =
      answered sendServiceError answer_json (runRoom sha (Persona_Control mkind pcmd)) db" for mkind pcmd
    using answered_map [of sendServiceError answer_json "\<lambda>p. Persona_Answer (snd p)"] by (simp add: runRoom_def)
  ultimately show ?thesis
    using assms by (cases route) (auto simp: serve_def controlRoute_def personaRoute_def split: option.split)
qed

text \<open>Requests that are served one after the other.\<close>

fun serve_all ::
    "api_options \<Rightarrow> (js_error \<Rightarrow> http_response) \<Rightarrow> (string \<times> string) list \<Rightarrow> (string \<Rightarrow> string) \<Rightarrow> (nat \<Rightarrow> string) \<Rightarrow>
     (api_route \<times> http_request) list \<Rightarrow> db \<Rightarrow> db" where
  "serve_all api framework catalog sha uuid [] db = db"
| "serve_all api framework catalog sha uuid (p # ps) db =
     serve_all api framework catalog sha uuid ps (snd (serve api framework catalog sha uuid (fst p) (snd p) db))"

lemma serve_keeps_record:
  assumes "at_selection sel db" and "room_recorded db k = Some y" and "keeps_selection route"
  shows "at_selection sel (snd (serve api framework catalog sha uuid route req db)) \<and>
    room_recorded (snd (serve api framework catalog sha uuid route req db)) k = Some y"
proof (cases "route_method route = ''GET''")
  case True
  with assms show ?thesis by (simp add: get_reads)
next
  case False
  with assms(3) have route: "control_route route" by (simp add: keeps_selection_def)
  show ?thesis
  proof (cases "onRequest api req")
    case (Some rsp)
    with assms show ?thesis by (simp add: serve_def)
  next
    case None
    show ?thesis
    proof (cases "requested route req")
      case (Some c)
      obtain x db' where run: "runRoom sha c db = (x, db')" by fastforce
      show ?thesis
      proof (cases x)
        case (Inl e)
        with atomicD [OF atomic_runRoom _ run [unfolded Inl]] run assms show ?thesis by (simp add: at_selection_def control_served [OF route None] Some answered_def)
      next
        case (Inr a)
        with runRoom_step [OF assms(1)] run have "at_selection sel db' \<and> (db' = db \<or> rows_kept db db')" by blast
        with run Inr assms(2) recorded_kept show ?thesis by (cases y) (auto simp: control_served [OF route None] Some answered_def)
      qed
    qed (simp add: control_served [OF route None] assms)
  qed
qed

lemma serve_all_keeps_record:
  "at_selection sel db \<Longrightarrow> room_recorded db k = Some y \<Longrightarrow> \<forall>p \<in> set ps. keeps_selection (fst p) \<Longrightarrow>
   at_selection sel (serve_all api framework catalog sha uuid ps db) \<and>
   room_recorded (serve_all api framework catalog sha uuid ps db) k = Some y"
proof (induction ps arbitrary: db)
  case (Cons p ps)
  from serve_keeps_record [OF Cons.prems(1,2)] Cons.prems(3) Cons.IH show ?case by simp
qed simp

text \<open>
  When a request on a control route (pause, resume, stop, mute, unmute)
  was answered with status 200, sending it again gets the same response and changes nothing, whatever
  other control and reading requests were served in between.
\<close>

theorem resent_control_same_response:
  assumes "serve api framework catalog sha uuid route req db = (rsp, db1)" and "rsp_status rsp = 200"
    and "control_route route" and "at_selection sel db" and "\<forall>p \<in> set ps. keeps_selection (fst p)"
    and "db2 = serve_all api framework catalog sha uuid ps db1"
  shows "serve api framework catalog sha uuid route req db2 = (rsp, db2)"
proof -
  have none: "onRequest api req = None"
    using assms(1,2) onRequest_refuses refusal_status by (auto simp: serve_def split: option.splits)
  note served = control_served [OF assms(3) none]
  have "rsp \<noteq> invalidRequest" "rsp \<noteq> sendServiceError e" for e
    using assms(2) refusal_status [OF in_refusals(1)] refusal_status [OF in_refusals(3)] by auto
  then obtain c a where c: "requested route req = Some c" and run: "runRoom sha c db = (Inr a, db1)" and rsp: "rsp = ok_response (answer_json a)"
    using assms(1) unfolding served by (auto simp: answered_def split: option.splits prod.splits sum.splits)
  from runRoom_step [OF assms(4) run] have "at_selection sel db1" "room_recorded db1 (room_key_of c) = Some (room_digest sha c, a)" by auto
  from serve_all_keeps_record [OF this assms(5)] have "at_selection sel db2" "room_recorded db2 (room_key_of c) = Some (room_digest sha c, a)"
    by (simp_all add: assms(6))
  from ctl.replays [OF assms(4) run refl this] show ?thesis unfolding served by (simp add: c answered_def rsp)
qed

lemma stop_served:
  "\<exists>db. serve_local (Control_Room Stop ''first-playable'') stop_request (migrated_db []) =
     (ok_response (control_result_json (control_result Stop (first_room []) ''s1'')), db)"
proof -
  have "onRequest local_api stop_request = None"
    by (simp add: onRequest_def stop_request_def bad_token_request_def local_api_def tokensEqual_def)
  moreover have "requested (Control_Room Stop ''first-playable'') stop_request = Some (Control Stop stop_command)"
    by (simp add: stop_request_def bad_token_request_def validRoomId_def parseControlBody_def room_control_command_def stop_command_def
        validSelectionRevision_def max_safe_integer_def MAX_IDENTIFIER_LENGTH_def js_trim_def js_trim_start_def js_trim_end_def js_space_def)
  moreover from stop_runs obtain db where
    "roomControl hello_sha Stop stop_command (migrated_db []) = (Inr (True, control_result Stop (first_room []) ''s1''), db)" by blast
  then have "runRoom hello_sha (Control Stop stop_command) (migrated_db []) = (Inr (Control_Answer (control_result Stop (first_room []) ''s1'')), db)"
    by (simp add: runRoom_def bind_run returnA_def)
  ultimately show ?thesis by (simp add: control_served answered_def)
qed

theorem resent_control_same_response_witness:
  "\<exists>db. serve_local (Control_Room Stop ''first-playable'') stop_request db =
     (ok_response (control_result_json (control_result Stop (first_room []) ''s1'')), db)"
proof -
  from stop_served obtain db where db: "serve_local (Control_Room Stop ''first-playable'') stop_request (migrated_db []) =
     (ok_response (control_result_json (control_result Stop (first_room []) ''s1'')), db)" by blast
  have "rsp_status (ok_response v) = 200" for v by (simp add: ok_response_def)
  from resent_control_same_response [OF db this _ first_at, of "[]"] show ?thesis by auto
qed

section \<open>Messages\<close>

lemma dropWhile_none: "(\<And>c. c \<in> set s \<Longrightarrow> \<not> P c) \<Longrightarrow> dropWhile P s = s"
  by (cases s) auto

lemma no_space_trim: "(\<And>c. c \<in> set s \<Longrightarrow> \<not> js_space c) \<Longrightarrow> js_trim s = s"
  using dropWhile_none [of s js_space] dropWhile_none [of "rev s" js_space]
  by (simp add: js_trim_def js_trim_start_def js_trim_end_def)

lemma pattern_not_space: "P \<in> set room_id_pattern \<Longrightarrow> P c \<Longrightarrow> \<not> js_space c"
  by (auto simp: room_id_pattern_def js_space_def lower_hex_def is_digit_def)

lemma validRoomId_identifier:
  assumes "validRoomId r"
  shows "canonicalIdentifier r ''roomId'' = Inr r"
proof -
  have "\<not> js_space c" if "c \<in> set r" for c
  proof (cases "r = ''first-playable''")
    case True
    with that show ?thesis by (auto simp: js_space_def)
  next
    case False
    with assms have "list_all2 (\<lambda>P c. P c) room_id_pattern r" by (simp add: validRoomId_def)
    then have len: "length room_id_pattern = length r" and at: "i < length r \<Longrightarrow> (room_id_pattern ! i) (r ! i)" for i
      by (simp_all add: list_all2_conv_all_nth)
    from that obtain i where i: "i < length r" "c = r ! i" by (auto simp: in_set_conv_nth)
    have "room_id_pattern ! i \<in> set room_id_pattern" using i(1) len by simp
    from pattern_not_space [OF this at [OF i(1)]] show ?thesis by (simp add: i(2))
  qed
  moreover have "r \<noteq> []" "length r \<le> 256"
    using assms by (auto simp: validRoomId_def room_id_pattern_def dest: list_all2_lengthD)
  ultimately show ?thesis by (simp add: canonicalIdentifier_def no_space_trim MAX_IDENTIFIER_LENGTH_def)
qed

lemma validIdentifier_canonical:
  "validIdentifier v \<Longrightarrow> \<exists>s. v = JStr s \<and> canonicalIdentifier s field = Inr s"
  by (cases v) (auto simp: canonicalIdentifier_def)

lemma message_text_canonical: "message_text_ok v \<Longrightarrow> \<exists>s. v = JStr s \<and> messageText s = Inr s"
  by (cases v) (auto simp: messageText_def)

lemma not_own: "\<not> hasOwn v k \<Longrightarrow> jget k v = JUndefined"
  by (cases v) (auto simp: hasOwn_def split: option.split dest!: map_of_SomeD, force)

lemma normalize_run:
  assumes "canonicalIdentifier (rc_roomId c) ''roomId'' = Inr r" and "canonicalIdentifier (rc_requestId c) ''requestId'' = Inr q"
    and "canonicalSelectionRevision (rc_selectionRevision c) = Inr n" and "messageText (smc_text c) = Inr t"
    and "optional_identifier (smc_target c) ''targetPersonaId'' = Inr target" and "wants_response (smc_wantsResponse c) = Inr wants"
    and "\<not> wants \<longrightarrow> target = None"
  shows "normalizeMessage c = Inr \<lparr>mc_roomId = r, mc_requestId = q, mc_selectionRevision = n, mc_text = t,
    mc_wantsResponse = wants, mc_target = target\<rparr>"
  unfolding normalizeMessage_def assms(1-6) bindE_simps using assms(7) by auto

lemma exact_keys: "hasExactlyKeys v required optional \<Longrightarrow> set (jkeys v) \<subseteq> set required \<union> set optional"
  by (cases v) (auto simp: list_all_iff)

text \<open>
  A message body that the parser accepts on a valid room id makes a
  command that the room service's own validation accepts, with the same ids, revision and text, a
  response wanted unless the body says otherwise, and the target only when one is wanted. The body has
  exactly the required keys and at most the optional ones.
\<close>

theorem accepted_message_is_sendable:
  assumes "parseMessageBody v = Some body" and "validRoomId r"
  shows "\<exists>n. jsafe_nonneg (jget ''selectionRevision'' v) = Some n \<and>
    normalizeMessage (message_command_of r body) = Inr \<lparr>mc_roomId = r, mc_requestId = jstr (jget ''requestId'' v), mc_selectionRevision = n,
      mc_text = jstr (jget ''text'' v), mc_wantsResponse = (jget ''wantsResponse'' v \<noteq> JBool False),
      mc_target = jstring (jget ''targetPersonaId'' v)\<rparr> \<and>
    set (jkeys v) \<subseteq> {''requestId'', ''selectionRevision'', ''text'', ''wantsResponse'', ''targetPersonaId''}"
proof -
  let ?q = "jget ''requestId'' v" and ?n = "jget ''selectionRevision'' v" and ?t = "jget ''text'' v"
    and ?w = "jget ''wantsResponse'' v" and ?p = "jget ''targetPersonaId'' v"
  from assms(1) have keys: "hasExactlyKeys v [''requestId'', ''selectionRevision'', ''text''] [''wantsResponse'', ''targetPersonaId'']"
    and q: "validIdentifier ?q" and n: "validSelectionRevision ?n" and t: "message_text_ok ?t"
    and w: "hasOwn v ''wantsResponse'' \<longrightarrow> jbool ?w \<noteq> None" and p: "hasOwn v ''targetPersonaId'' \<longrightarrow> validIdentifier ?p"
    and pw: "\<not> (?p \<noteq> JUndefined \<and> ?w = JBool False)"
    and body: "body = \<lparr>pb_requestId = jstr ?q, pb_selectionRevision = ?n, pb_text = jstr ?t, pb_wantsResponse = jbool ?w, pb_target = jstring ?p\<rparr>"
    by (auto simp: parseMessageBody_def split: if_splits)
  obtain sq where sq: "?q = JStr sq" "canonicalIdentifier sq ''requestId'' = Inr sq" using validIdentifier_canonical [OF q] by blast
  obtain st where st: "?t = JStr st" "messageText st = Inr st" using message_text_canonical [OF t] by blast
  obtain m where m: "jsafe_nonneg ?n = Some m" using n by (auto simp: validSelectionRevision_def)
  have wants: "wants_response (undefined_or JBool (jbool ?w)) = Inr (?w \<noteq> JBool False)"
    using w not_own [of v "''wantsResponse''"] by (cases ?w) (auto simp: undefined_or_def wants_response_def)
  have target: "optional_identifier (jstring ?p) ''targetPersonaId'' = Inr (jstring ?p)"
  proof (cases "hasOwn v ''targetPersonaId''")
    case True
    with p validIdentifier_canonical [of ?p "''targetPersonaId''"] show ?thesis by (auto simp: optional_identifier_def)
  qed (simp add: not_own optional_identifier_def)
  let ?c = "message_command_of r body"
  have fields: "rc_roomId ?c = r" "rc_requestId ?c = jstr ?q" "rc_selectionRevision ?c = ?n" "smc_text ?c = jstr ?t"
    "smc_target ?c = jstring ?p" "smc_wantsResponse ?c = undefined_or JBool (jbool ?w)" by (simp_all add: message_command_of_def body)
  have "normalizeMessage ?c = Inr \<lparr>mc_roomId = r, mc_requestId = jstr ?q, mc_selectionRevision = m,
      mc_text = jstr ?t, mc_wantsResponse = (?w \<noteq> JBool False), mc_target = jstring ?p\<rparr>"
  proof (rule normalize_run, unfold fields)
    show "canonicalIdentifier r ''roomId'' = Inr r" by (rule validRoomId_identifier [OF assms(2)])
    show "canonicalIdentifier (jstr ?q) ''requestId'' = Inr (jstr ?q)" by (simp add: sq)
    show "canonicalSelectionRevision ?n = Inr m" by (simp add: canonicalSelectionRevision_def m)
    show "messageText (jstr ?t) = Inr (jstr ?t)" by (simp add: st)
    show "optional_identifier (jstring ?p) ''targetPersonaId'' = Inr (jstring ?p)" by (rule target)
    show "wants_response (undefined_or JBool (jbool ?w)) = Inr (?w \<noteq> JBool False)" by (rule wants)
    show "\<not> ?w \<noteq> JBool False \<longrightarrow> jstring ?p = None" using pw by auto
  qed
  moreover have "set (jkeys v) \<subseteq> {''requestId'', ''selectionRevision'', ''text'', ''wantsResponse'', ''targetPersonaId''}"
    using exact_keys [OF keys] by (simp add: insert_commute)
  ultimately show ?thesis using m by (intro exI [of _ m] conjI)
qed

theorem accepted_message_is_sendable_witness:
  "\<exists>c. normalizeMessage c = Inr \<lparr>mc_roomId = ''first-playable'', mc_requestId = ''m1'', mc_selectionRevision = 0, mc_text = ''Hi'',
     mc_wantsResponse = True, mc_target = None\<rparr>"
proof -
  let ?v = "JObj [(''requestId'', JStr ''m1''), (''selectionRevision'', JInt 0), (''text'', JStr ''Hi'')]"
  have "\<exists>body. parseMessageBody ?v = Some body"
    by (simp add: parseMessageBody_def hasOwn_def validSelectionRevision_def max_safe_integer_def MAX_IDENTIFIER_LENGTH_def
        MAX_MESSAGE_LENGTH_def js_trim_def js_trim_start_def js_trim_end_def js_space_def)
  then obtain body where body: "parseMessageBody ?v = Some body" by blast
  have "validRoomId ''first-playable''" by (simp add: validRoomId_def)
  from accepted_message_is_sendable [OF body this] show ?thesis by (auto simp: max_safe_integer_def)
qed

end
