(* ===== verification/Avatar.thy ===== *)
theory Avatar
  imports Http_Requests "HOL-Library.Word"
begin

text \<open>
  The avatar that a human uploads, of \<open>src/api/routes.ts\<close>: the data URL with its base64, the chunks of
  the WebP file, the image that is kept (\<open>parseAvatarDataUrl\<close>), and the routes that store, read and
  delete it. Bytes are 8-bit words; a read outside the buffer is the \<open>RangeError\<close> of Node.
\<close>

unbundle bit_operations_syntax

section \<open>Bytes\<close>

type_synonym bytes = "8 word list"

definition MAX_AVATAR_BYTES :: nat where "MAX_AVATAR_BYTES = 262144"
definition AVATAR_EDGE :: nat where "AVATAR_EDGE = 256"

fun little_endian :: "bytes \<Rightarrow> nat" where
  "little_endian [] = 0"
| "little_endian (b # bs) = unat b + 256 * little_endian bs"

text \<open>\<open>readUInt8\<close>, \<open>readUInt16LE\<close>, \<open>readUIntLE(\<dots>, 3)\<close> and \<open>readUInt32LE\<close>\<close>

definition readLE :: "nat \<Rightarrow> bytes \<Rightarrow> nat \<Rightarrow> js_error + nat" where
  "readLE k bs i =
     (if i + k \<le> length bs then Inr (little_endian (take k (drop i bs)))
      else Inl (RangeError ''The value of offset is out of range''))"

fun write_le :: "nat \<Rightarrow> nat \<Rightarrow> bytes" where
  "write_le 0 n = []"
| "write_le (Suc k) n = word_of_nat (n mod 256) # write_le k (n div 256)"

text \<open>\<open>bytes[i]\<close>, and \<open>toString("ascii", i, j)\<close>, which clears the high bit of every byte.\<close>

definition byte_at :: "bytes \<Rightarrow> nat \<Rightarrow> nat option" where
  "byte_at bs i = (if i < length bs then Some (unat (bs ! i)) else None)"

definition ascii_text :: "bytes \<Rightarrow> nat \<Rightarrow> nat \<Rightarrow> string" where
  "ascii_text bs i j = map (\<lambda>b. char_of (unat (b AND 127))) (take (j - i) (drop i bs))"

definition ascii_bytes :: "string \<Rightarrow> bytes" where
  "ascii_bytes s = map (\<lambda>c. word_of_nat (of_char c)) s"

section \<open>Base64\<close>

definition b64_alphabet :: string where
  "b64_alphabet = ''ABCDEFGHIJKLMNOPQRSTUVWXYZabcdefghijklmnopqrstuvwxyz0123456789+/''"

definition b64_value :: "char \<Rightarrow> nat option" where
  "b64_value c = index_of c b64_alphabet"

definition b64_digit :: "char \<Rightarrow> bool" where
  "b64_digit c \<longleftrightarrow> b64_value c \<noteq> None"

text \<open>\<open>/^[A-Za-z0-9+/]+={0,2}$/\<close>\<close>

definition b64_pattern :: "string \<Rightarrow> bool" where
  "b64_pattern s \<longleftrightarrow>
     (let digits = takeWhile b64_digit s; rest = dropWhile b64_digit s
      in digits \<noteq> [] \<and> (rest = [] \<or> rest = ''='' \<or> rest = ''==''))"

text \<open>\<open>Buffer.from(encoded, "base64")\<close> of such a text: eight bits at a time of the digits, six bits each.\<close>

fun b64_bytes :: "nat list \<Rightarrow> bytes" where
  "b64_bytes (a # b # c # d # ns) =
     word_of_nat (a * 4 + b div 16) # word_of_nat ((b mod 16) * 16 + c div 4) # word_of_nat ((c mod 4) * 64 + d) # b64_bytes ns"
| "b64_bytes [a, b, c] = [word_of_nat (a * 4 + b div 16), word_of_nat ((b mod 16) * 16 + c div 4)]"
| "b64_bytes [a, b] = [word_of_nat (a * 4 + b div 16)]"
| "b64_bytes _ = []"

definition b64_decode :: "string \<Rightarrow> bytes" where
  "b64_decode s = b64_bytes (List.map_filter b64_value (takeWhile b64_digit s))"

section \<open>The chunks of a WebP file\<close>

definition vp8x_refused :: "bytes \<Rightarrow> nat \<Rightarrow> nat \<Rightarrow> bool \<Rightarrow> js_error + bool" where
  "vp8x_refused bs offset len extended =
     (let start = offset + 8 in
      if offset \<noteq> 12 \<or> len \<noteq> 10 \<or> extended then Inr True
      else bindE (readLE 1 bs start) (\<lambda>flags.
        if int flags AND NOT 0x20 \<noteq> 0 then Inr True
        else bindE (readLE 3 bs (start + 4)) (\<lambda>w.
          if w + 1 \<noteq> AVATAR_EDGE then Inr True
          else bindE (readLE 3 bs (start + 7)) (\<lambda>h. Inr (h + 1 \<noteq> AVATAR_EDGE)))))"

definition vp8_refused :: "bytes \<Rightarrow> nat \<Rightarrow> nat \<Rightarrow> bytes option \<Rightarrow> js_error + bool" where
  "vp8_refused bs start len vp8Payload =
     (if vp8Payload \<noteq> None \<or> len < 10 \<or> byte_at bs (start + 3) \<noteq> Some 0x9d \<or>
         byte_at bs (start + 4) \<noteq> Some 0x01 \<or> byte_at bs (start + 5) \<noteq> Some 0x2a then Inr True
      else bindE (readLE 2 bs (start + 6)) (\<lambda>w.
        if w AND 0x3fff \<noteq> AVATAR_EDGE then Inr True
        else bindE (readLE 2 bs (start + 8)) (\<lambda>h. Inr (h AND 0x3fff \<noteq> AVATAR_EDGE))))"

text \<open>The loop: None when it returns \<open>undefined\<close>, else the last offset and the payload.\<close>

function (sequential) webp_chunks :: "bytes \<Rightarrow> nat \<Rightarrow> bool \<Rightarrow> bytes option \<Rightarrow> js_error + (nat \<times> bytes option) option" where
  "webp_chunks bs offset extended vp8Payload =
     (if length bs < offset + 8 then Inr (Some (offset, vp8Payload))
      else
        bindE (readLE 4 bs (offset + 4)) (\<lambda>len.
          let kind = ascii_text bs offset (offset + 4);
              start = offset + 8;
              stop = start + len;
              next_offset = stop + len mod 2
          in
          if stop > length bs \<or> next_offset > length bs then Inr None
          else if kind = ''VP8X'' then
            bindE (vp8x_refused bs offset len extended) (\<lambda>refused.
              if refused then Inr None else webp_chunks bs next_offset True vp8Payload)
          else if kind = ''ICCP'' then
            (if \<not> extended \<or> len < 1 \<or> len > 64 * 1024 then Inr None
             else webp_chunks bs next_offset extended vp8Payload)
          else if kind = ''VP8 '' then
            bindE (vp8_refused bs start len vp8Payload) (\<lambda>refused.
              if refused then Inr None
              else webp_chunks bs next_offset extended (Some (take len (drop start bs))))
          else Inr None))"
  by pat_completeness auto

termination webp_chunks
  by (relation "measure (\<lambda>(bs, offset, _). length bs - offset)") auto

declare webp_chunks.simps [simp del]

text \<open>The file that is kept: a header and the one payload, padded to an even length.\<close>

definition canonical_webp :: "bytes \<Rightarrow> bytes" where
  "canonical_webp payload =
     (let padding = length payload mod 2 in
      ascii_bytes ''RIFF'' @ write_le 4 (20 + length payload + padding - 8) @ ascii_bytes ''WEBPVP8 '' @
      write_le 4 (length payload) @ payload @ replicate padding 0)"

definition webp_avatar :: "bytes \<Rightarrow> js_error + bytes option" where
  "webp_avatar bs =
     (if length bs > MAX_AVATAR_BYTES \<or> length bs < 30 \<or> ascii_text bs 0 4 \<noteq> ''RIFF'' \<or> ascii_text bs 8 12 \<noteq> ''WEBP''
      then Inr None
      else bindE (readLE 4 bs 4) (\<lambda>size.
        if size + 8 \<noteq> length bs then Inr None
        else bindE (webp_chunks bs 12 False None) (\<lambda>found.
          case found of
            Some (offset, Some payload) \<Rightarrow> if offset \<noteq> length bs then Inr None else Inr (Some (canonical_webp payload))
          | _ \<Rightarrow> Inr None)))"

definition data_url_prefix :: string where "data_url_prefix = ''data:image/webp;base64,''"

definition parseAvatarDataUrl :: "jval \<Rightarrow> js_error + bytes option" where
  "parseAvatarDataUrl v =
     (if \<not> hasExactlyKeys v [''dataUrl''] [] then Inr None
      else case jget ''dataUrl'' v of
        JStr url \<Rightarrow>
          if \<not> prefix data_url_prefix url \<or> length url > 360000 then Inr None
          else
            (let encoded = drop (length data_url_prefix) url in
             if length encoded = 0 \<or> length encoded mod 4 \<noteq> 0 \<or> \<not> b64_pattern encoded then Inr None
             else webp_avatar (b64_decode encoded))
      | _ \<Rightarrow> Inr None)"

section \<open>The profile and its routes\<close>

text \<open>The row of \<open>human_profile\<close>; what an emoji is does not matter here.\<close>

record 'emoji human_profile =
  profile_emoji :: 'emoji
  avatar_webp :: "bytes option"
  avatar_sha256 :: "string option"

datatype avatar_answer = Avatar_Refused | Avatar_Missing | Avatar_Image bytes | Avatar_Profile bool "string option"

definition humanProfileDto :: "'emoji human_profile \<Rightarrow> avatar_answer" where
  "humanProfileDto row = Avatar_Profile (avatar_webp row \<noteq> None) (map_option (take 16) (avatar_sha256 row))"

definition getAvatar :: "'emoji human_profile \<Rightarrow> avatar_answer" where
  "getAvatar row = (case avatar_webp row of None \<Rightarrow> Avatar_Missing | Some bs \<Rightarrow> Avatar_Image bs)"

text \<open>An error that the parser throws is answered by the error handler as an invalid request.\<close>

definition postAvatar :: "(bytes \<Rightarrow> string) \<Rightarrow> jval \<Rightarrow> 'emoji human_profile \<Rightarrow> avatar_answer \<times> 'emoji human_profile" where
  "postAvatar sha body row =
     (case parseAvatarDataUrl body of
        Inr (Some bs) \<Rightarrow>
          (let row' = row\<lparr>avatar_webp := Some bs, avatar_sha256 := Some (sha bs)\<rparr> in (humanProfileDto row', row'))
      | _ \<Rightarrow> (Avatar_Refused, row))"

definition deleteAvatar :: "'emoji human_profile \<Rightarrow> avatar_answer \<times> 'emoji human_profile" where
  "deleteAvatar row = (let row' = row\<lparr>avatar_webp := None, avatar_sha256 := None\<rparr> in (humanProfileDto row', row'))"

end
