(* ===== verification/Avatar_Claims.thy ===== *)
theory Avatar_Claims
  imports Avatar
begin

text \<open>
  The avatar parser reads no byte outside its buffer and ends on every input, and what it keeps is a
  fixed point: one 256 by 256 frame in the smallest container, which is accepted again unchanged.
\<close>

section \<open>Every read is inside the buffer\<close>

lemma readLE_in [simp]: "i + k \<le> length bs \<Longrightarrow> readLE k bs i = Inr (little_endian (take k (drop i bs)))"
  by (simp add: readLE_def)

lemma isl_bindE [simp]: "isl (bindE m f) \<longleftrightarrow> isl m \<or> isl (f (projr m))"
  by (cases m) auto

lemma not_isl: "\<not> isl m \<longleftrightarrow> (\<exists>r. m = Inr r)"
  by (cases m) auto

lemma vp8x_total: "offset + 8 + len \<le> length bs \<Longrightarrow> \<not> isl (vp8x_refused bs offset len e)"
  by (simp add: vp8x_refused_def Let_def)

lemma vp8_total: "start + len \<le> length bs \<Longrightarrow> \<not> isl (vp8_refused bs start len p)"
  by (simp add: vp8_refused_def)

text \<open>One turn of the loop, with the length that it reads.\<close>

definition chunk_len :: "bytes \<Rightarrow> nat \<Rightarrow> nat" where
  "chunk_len bs offset = little_endian (take 4 (drop (offset + 4) bs))"

definition chunk_next :: "bytes \<Rightarrow> nat \<Rightarrow> nat" where
  "chunk_next bs offset = offset + 8 + chunk_len bs offset + chunk_len bs offset mod 2"

lemma chunks_end: "length bs < offset + 8 \<Longrightarrow> webp_chunks bs offset e p = Inr (Some (offset, p))"
  by (subst webp_chunks.simps) simp

lemma chunks_step:
  assumes "offset + 8 \<le> length bs"
  shows "webp_chunks bs offset e p =
    (if chunk_next bs offset > length bs then Inr None
     else if ascii_text bs offset (offset + 4) = ''VP8X'' then
       bindE (vp8x_refused bs offset (chunk_len bs offset) e) (\<lambda>refused.
         if refused then Inr None else webp_chunks bs (chunk_next bs offset) True p)
     else if ascii_text bs offset (offset + 4) = ''ICCP'' then
       (if \<not> e \<or> chunk_len bs offset < 1 \<or> chunk_len bs offset > 64 * 1024 then Inr None else webp_chunks bs (chunk_next bs offset) e p)
     else if ascii_text bs offset (offset + 4) = ''VP8 '' then
       bindE (vp8_refused bs (offset + 8) (chunk_len bs offset) p) (\<lambda>refused.
         if refused then Inr None
         else webp_chunks bs (chunk_next bs offset) e (Some (take (chunk_len bs offset) (drop (offset + 8) bs))))
     else Inr None)"
proof -
  have "readLE 4 bs (offset + 4) = Inr (chunk_len bs offset)" using assms by (simp add: chunk_len_def)
  with assms show ?thesis
    by (subst webp_chunks.simps) (simp only: Let_def bindE_simps chunk_next_def, auto)
qed

lemma next_moves: "offset + 8 + chunk_len bs offset \<le> chunk_next bs offset" "offset < chunk_next bs offset"
  by (simp_all add: chunk_next_def)

lemma chunks_total: "\<not> isl (webp_chunks bs offset e p)"
proof (induction "length bs - offset" arbitrary: offset e p rule: less_induct)
  case less
  show ?case
  proof (cases "offset + 8 \<le> length bs")
    case True
    then have "length bs - chunk_next bs offset < length bs - offset" using next_moves(2) [of offset bs] by arith
    note IH = less [OF this]
    have "chunk_next bs offset \<le> length bs \<Longrightarrow> offset + 8 + chunk_len bs offset \<le> length bs" using next_moves(1) [of offset bs] by arith
    with IH vp8x_total vp8_total show ?thesis unfolding chunks_step [OF True] by auto
  qed (simp add: chunks_end)
qed

text \<open>
  C31: the parser of an uploaded avatar returns on every body, without reading outside
  the buffer: it refuses the body or returns an image, and never throws.
\<close>

theorem avatar_never_throws: "\<exists>r. parseAvatarDataUrl v = Inr r"
proof -
  have "\<not> isl (webp_avatar bs)" for bs
    using chunks_total [of bs 12 False None] by (auto simp: webp_avatar_def split: option.split)
  then have "\<not> isl (parseAvatarDataUrl v)" by (simp add: parseAvatarDataUrl_def Let_def split: jval.split)
  then show ?thesis by (simp only: not_isl)
qed

section \<open>Frames\<close>

text \<open>A key frame of 256 by 256 pixels, as the code recognises it.\<close>

definition vp8_frame :: "bytes \<Rightarrow> bool" where
  "vp8_frame p \<longleftrightarrow> 10 \<le> length p \<and> unat (p ! 3) = 0x9d \<and> unat (p ! 4) = 0x01 \<and> unat (p ! 5) = 0x2a \<and>
     little_endian (take 2 (drop 6 p)) AND 0x3fff = AVATAR_EDGE \<and> little_endian (take 2 (drop 8 p)) AND 0x3fff = AVATAR_EDGE"

lemma vp8_accepted:
  assumes "start + len \<le> length bs"
  shows "vp8_refused bs start len p = Inr False \<longleftrightarrow> p = None \<and> vp8_frame (take len (drop start bs))"
proof (cases "p = None \<and> 10 \<le> len")
  case True
  then have "min 2 (len - 6) = 2" "min 2 (len - 8) = 2" by auto
  then have "take 2 (drop 6 (take len (drop start bs))) = take 2 (drop (start + 6) bs)"
    "take 2 (drop 8 (take len (drop start bs))) = take 2 (drop (start + 8) bs)"
    by (simp_all add: drop_take add.commute)
  with True assms show ?thesis by (auto simp: vp8_refused_def vp8_frame_def byte_at_def)
next
  case False
  with assms show ?thesis by (auto simp: vp8_refused_def vp8_frame_def)
qed

lemma chunks_payload:
  "webp_chunks bs offset e p = Inr (Some (final, Some payload)) \<Longrightarrow>
   offset \<le> final \<and> (if p = None then vp8_frame payload \<and> offset + 8 + length payload + length payload mod 2 \<le> final else p = Some payload)"
proof (induction "length bs - offset" arbitrary: offset e p rule: less_induct)
  case less
  show ?case
  proof (cases "offset + 8 \<le> length bs")
    case True
    then have "length bs - chunk_next bs offset < length bs - offset" using next_moves(2) [of offset bs] by arith
    note IH = less(1) [OF this]
    note run = less(2) [unfolded chunks_step [OF True]]
    from run have inside: "chunk_next bs offset \<le> length bs" by (auto split: if_splits)
    then have len: "offset + 8 + chunk_len bs offset \<le> length bs" using next_moves(1) [of offset bs] by arith
    from run inside consider (skip) e' where "webp_chunks bs (chunk_next bs offset) e' p = Inr (Some (final, Some payload))"
      | (frame) "p = None" "vp8_frame (take (chunk_len bs offset) (drop (offset + 8) bs))"
          "webp_chunks bs (chunk_next bs offset) e (Some (take (chunk_len bs offset) (drop (offset + 8) bs))) = Inr (Some (final, Some payload))"
      by (auto simp: vp8_accepted [OF len] split: if_splits)
    then show ?thesis
    proof cases
      case skip
      from IH [OF this] next_moves(2) [of offset bs] show ?thesis by (auto split: if_splits)
    next
      case frame
      from IH [OF frame(3)] frame(1,2) len show ?thesis by (auto simp: chunk_next_def)
    qed
  next
    case False
    with less(2) show ?thesis by (simp add: chunks_end)
  qed
qed

section \<open>The kept file is accepted unchanged\<close>

lemma length_write_le [simp]: "length (write_le k n) = k"
  by (induction k n rule: write_le.induct) auto

lemma little_endian_write: "little_endian (write_le k n) = n mod 256 ^ k"
proof (induction k n rule: write_le.induct)
  case (2 k n)
  then show ?case by (simp add: unat_of_nat mod_mult2_eq)
qed simp

lemma and_127: "unat (w AND 127) = unat (w :: 8 word) mod 128"
proof -
  have "w AND 127 = take_bit 7 w" by (simp add: take_bit_eq_mask mask_eq_exp_minus_1)
  then show ?thesis by (simp add: unsigned_take_bit_eq take_bit_eq_mod unat_mod)
qed

lemma ascii_bytes_text:
  assumes "\<forall>c \<in> set s. (of_char c :: nat) < 128"
  shows "map (\<lambda>b. char_of (unat (b AND 127))) (ascii_bytes s) = s"
proof -
  have "char_of (unat ((word_of_nat (of_char c) :: 8 word) AND 127)) = c" if "c \<in> set s" for c
    using bspec [OF assms that] by (simp add: and_127 unat_of_nat)
  then show ?thesis by (simp add: ascii_bytes_def map_idI)
qed

lemma length_ascii_bytes [simp]: "length (ascii_bytes s) = length s"
  by (simp add: ascii_bytes_def)

lemma canonical_length: "length (canonical_webp p) = 20 + length p + length p mod 2"
  by (simp add: canonical_webp_def Let_def)

lemma canonical_parts:
  shows "take 4 (canonical_webp p) = ascii_bytes ''RIFF''"
    and "take 4 (drop 4 (canonical_webp p)) = write_le 4 (12 + length p + length p mod 2)"
    and "take 4 (drop 8 (canonical_webp p)) = ascii_bytes ''WEBP''"
    and "take 4 (drop 12 (canonical_webp p)) = ascii_bytes ''VP8 ''"
    and "take 4 (drop 16 (canonical_webp p)) = write_le 4 (length p)"
    and "take (length p) (drop 20 (canonical_webp p)) = p"
proof -
  have webp: "ascii_bytes ''WEBPVP8 '' = ascii_bytes ''WEBP'' @ ascii_bytes ''VP8 ''" by (simp add: ascii_bytes_def)
  show "take 4 (canonical_webp p) = ascii_bytes ''RIFF''"
    "take 4 (drop 4 (canonical_webp p)) = write_le 4 (12 + length p + length p mod 2)"
    "take 4 (drop 8 (canonical_webp p)) = ascii_bytes ''WEBP''"
    "take 4 (drop 12 (canonical_webp p)) = ascii_bytes ''VP8 ''"
    "take 4 (drop 16 (canonical_webp p)) = write_le 4 (length p)"
    "take (length p) (drop 20 (canonical_webp p)) = p"
    by (simp_all add: canonical_webp_def Let_def webp add.assoc)
qed

lemma canonical_accepted:
  assumes "vp8_frame p" and "length (canonical_webp p) \<le> MAX_AVATAR_BYTES"
  shows "webp_avatar (canonical_webp p) = Inr (Some (canonical_webp p))"
proof -
  let ?bs = "canonical_webp p"
  have n: "10 \<le> length p" "length p < 256 ^ 4" "12 + length p + length p mod 2 < 256 ^ 4"
    using assms by (simp_all add: vp8_frame_def canonical_length MAX_AVATAR_BYTES_def)
  have texts: "ascii_text ?bs 0 4 = ''RIFF''" "ascii_text ?bs 8 12 = ''WEBP''" "ascii_text ?bs 12 16 = ''VP8 ''"
    by (simp_all add: ascii_text_def canonical_parts ascii_bytes_text)
  have len: "chunk_len ?bs 12 = length p"
    using n by (simp add: chunk_len_def canonical_parts little_endian_write)
  then have nxt: "chunk_next ?bs 12 = length ?bs" by (simp add: chunk_next_def canonical_length)
  have "vp8_refused ?bs 20 (length p) None = Inr False"
    using assms(1) vp8_accepted [of 20 "length p" ?bs None] by (simp add: canonical_parts canonical_length)
  then have "webp_chunks ?bs 12 False None = Inr (Some (length ?bs, Some p))"
    using n(1) canonical_length [of p] by (subst chunks_step) (simp_all add: nxt len texts chunks_end canonical_parts del: canonical_length)
  moreover have "little_endian (take 4 (drop 4 ?bs)) = 12 + length p + length p mod 2"
    unfolding canonical_parts little_endian_write using n(3) by (rule mod_less)
  then have "readLE 4 ?bs 4 = Inr (12 + length p + length p mod 2)" by (simp add: canonical_length)
  moreover have "\<not> length ?bs > MAX_AVATAR_BYTES" "\<not> length ?bs < 30" using n(1) assms(2) by (simp_all add: canonical_length)
  ultimately show ?thesis by (simp add: webp_avatar_def texts del: not_less) (simp add: canonical_length)
qed

lemma avatar_kept:
  assumes "webp_avatar bs = Inr (Some out)"
  shows "\<exists>p. out = canonical_webp p \<and> vp8_frame p \<and> length out \<le> length bs \<and> length bs \<le> MAX_AVATAR_BYTES"
proof -
  obtain found where found: "webp_chunks bs 12 False None = Inr found" using chunks_total [of bs 12 False None] unfolding not_isl by blast
  have max: "length bs \<le> MAX_AVATAR_BYTES"
  proof (rule ccontr)
    assume "\<not> length bs \<le> MAX_AVATAR_BYTES"
    then have "webp_avatar bs = Inr None" by (simp add: webp_avatar_def)
    with assms show False by simp
  qed
  from assms obtain p where p: "webp_chunks bs 12 False None = Inr (Some (length bs, Some p))" "out = canonical_webp p"
    by (auto simp: webp_avatar_def found split: if_splits option.splits)
  with max chunks_payload [OF p(1)] show ?thesis by (auto simp: canonical_length)
qed

section \<open>Base64\<close>

text \<open>The encoding that the decoder of the code inverts.\<close>

fun b64_numbers :: "bytes \<Rightarrow> nat list" where
  "b64_numbers (x # y # z # bs) =
     unat x div 4 # ((unat x mod 4) * 16 + unat y div 16) # ((unat y mod 16) * 4 + unat z div 64) # unat z mod 64 # b64_numbers bs"
| "b64_numbers [x, y] = [unat x div 4, (unat x mod 4) * 16 + unat y div 16, (unat y mod 16) * 4]"
| "b64_numbers [x] = [unat x div 4, (unat x mod 4) * 16]"
| "b64_numbers [] = []"

definition b64_text :: "bytes \<Rightarrow> string" where
  "b64_text bs = map ((!) b64_alphabet) (b64_numbers bs) @
     (if length bs mod 3 = 1 then ''=='' else if length bs mod 3 = 2 then ''='' else [])"

lemma byte_parts:
  fixes x y z :: nat
  assumes "y < 256" and "z < 256"
  shows "(x div 4) * 4 + ((x mod 4) * 16 + y div 16) div 16 = x"
    and "((x mod 4) * 16 + y div 16) mod 16 * 16 + ((y mod 16) * 4 + z div 64) div 4 = y"
    and "((y mod 16) * 4 + z div 64) mod 4 * 64 + z mod 64 = z"
proof -
  have "y div 16 < 16" "z div 64 < 4" using assms by auto
  then show "(x div 4) * 4 + ((x mod 4) * 16 + y div 16) div 16 = x"
    "((x mod 4) * 16 + y div 16) mod 16 * 16 + ((y mod 16) * 4 + z div 64) div 4 = y"
    "((y mod 16) * 4 + z div 64) mod 4 * 64 + z mod 64 = z" by simp_all
qed

lemma byte_less: "unat (x :: 8 word) < 256"
  using unsigned_less [of x] by simp

lemma b64_bytes_numbers: "b64_bytes (b64_numbers bs) = bs"
proof (induction bs rule: b64_numbers.induct)
  case (1 x y z bs)
  then show ?case using byte_parts(1,2) [OF byte_less [of y] byte_less [of z], of "unat x"] byte_parts(3) [OF byte_less [of y] byte_less [of z]] by simp
next
  case (2 x y)
  show ?case using byte_parts(1,2) [OF byte_less [of y], of 0 "unat x"] by simp
next
  case (3 x)
  show ?case using byte_parts(1) [of 0 0 "unat x"] by simp
qed simp

lemma numbers_small: "n \<in> set (b64_numbers bs) \<Longrightarrow> n < 64"
proof (induction bs rule: b64_numbers.induct)
  case (1 x y z bs)
  have "unat x div 4 < 64" "unat y div 16 < 16" "unat z div 64 < 4" using byte_less [of x] byte_less [of y] byte_less [of z] by auto
  with 1 show ?case by auto
next
  case (2 x y)
  have "unat x div 4 < 64" "unat y div 16 < 16" using byte_less [of x] byte_less [of y] by auto
  with 2 show ?case by auto
next
  case (3 x)
  have "unat x div 4 < 64" using byte_less [of x] by auto
  with 3 show ?case by auto
qed simp

lemma alphabet_distinct: "distinct b64_alphabet" "length b64_alphabet = 64" "CHR ''='' \<notin> set b64_alphabet"
  by (simp_all add: b64_alphabet_def)

lemma b64_value_char: "n < 64 \<Longrightarrow> b64_value (b64_alphabet ! n) = Some n"
  using index_of_nth [OF alphabet_distinct(1)] alphabet_distinct(2) by (simp add: b64_value_def)

lemma b64_split:
  "takeWhile b64_digit (b64_text bs) = map ((!) b64_alphabet) (b64_numbers bs)"
  "dropWhile b64_digit (b64_text bs) = (if length bs mod 3 = 1 then ''=='' else if length bs mod 3 = 2 then ''='' else [])"
proof -
  have digits: "\<forall>c \<in> set (map ((!) b64_alphabet) (b64_numbers bs)). b64_digit c"
    using numbers_small b64_value_char by (auto simp: b64_digit_def)
  have pad: "\<not> b64_digit CHR ''=''" using alphabet_distinct(3) by (simp add: b64_digit_def b64_value_def)
  let ?pad = "if length bs mod 3 = 1 then ''=='' else if length bs mod 3 = 2 then ''='' else []"
  have "takeWhile b64_digit ?pad = []" "dropWhile b64_digit ?pad = ?pad" using pad by auto
  with digits show "takeWhile b64_digit (b64_text bs) = map ((!) b64_alphabet) (b64_numbers bs)" "dropWhile b64_digit (b64_text bs) = ?pad"
    unfolding b64_text_def by (simp_all only: takeWhile_append2 dropWhile_append2 Ball_def append_Nil2 simp_thms)
qed

lemma b64_decode_text: "b64_decode (b64_text bs) = bs"
proof -
  have "List.map_filter b64_value (map ((!) b64_alphabet) ns) = ns" if "\<And>n. n \<in> set ns \<Longrightarrow> n < 64" for ns
    using that by (induction ns) (simp_all add: map_filter_simps b64_value_char)
  from this [of "b64_numbers bs"] numbers_small show ?thesis by (simp add: b64_decode_def b64_split b64_bytes_numbers)
qed

lemma length_numbers: "length (b64_numbers bs) = 4 * (length bs div 3) + (if length bs mod 3 = 0 then 0 else Suc (length bs mod 3))"
  by (induction bs rule: b64_numbers.induct) (auto simp: div_add_self1)

lemma length_b64: "length (b64_text bs) = 4 * ((length bs + 2) div 3)"
proof -
  obtain k r where k: "length bs = 3 * k + r" "r < 3" by (metis mod_less_divisor mult_div_mod_eq zero_less_numeral)
  then have "r = 0 \<or> r = 1 \<or> r = 2" by auto
  then have "length bs mod 3 = r" "length bs div 3 = k" "(length bs + 2) div 3 = (if r = 0 then k else Suc k)" using k by auto
  with k show ?thesis by (auto simp: b64_text_def length_numbers)
qed

definition data_url :: "bytes \<Rightarrow> jval" where
  "data_url bs = JObj [(''dataUrl'', JStr (data_url_prefix @ b64_text bs))]"

lemma data_url_parsed:
  assumes "bs \<noteq> []" and "length bs \<le> MAX_AVATAR_BYTES"
  shows "parseAvatarDataUrl (data_url bs) = webp_avatar bs"
proof -
  have "(length bs + 2) div 3 \<le> 87382" using assms(2) by (simp add: MAX_AVATAR_BYTES_def)
  then have len: "length (b64_text bs) \<le> 349528" "length (b64_text bs) mod 4 = 0" "length (b64_text bs) \<noteq> 0"
    using assms(1) by (auto simp: length_b64) (cases bs; simp)
  have "b64_numbers bs \<noteq> []" using assms(1) by (cases bs rule: b64_numbers.cases) auto
  then have "b64_pattern (b64_text bs)" by (simp add: b64_pattern_def b64_split)
  with len show ?thesis by (simp add: parseAvatarDataUrl_def data_url_def data_url_prefix_def b64_decode_text)
qed

text \<open>
  C30: an image that the parser keeps is the smallest container of one key frame
  of 256 by 256 pixels, no longer than the upload and at most 262144 bytes, without the profile, the
  flags or the padding of the upload; and uploading the kept image again keeps the same bytes.
\<close>

theorem kept_avatar_is_canonical:
  assumes "parseAvatarDataUrl v = Inr (Some out)"
  shows "(\<exists>p. out = canonical_webp p \<and> vp8_frame p) \<and> 30 \<le> length out \<and> length out \<le> MAX_AVATAR_BYTES \<and>
    parseAvatarDataUrl (data_url out) = Inr (Some out)"
proof -
  from assms obtain bs where "webp_avatar bs = Inr (Some out)"
    by (auto simp: parseAvatarDataUrl_def Let_def split: if_splits jval.splits)
  from avatar_kept [OF this] obtain p where p: "out = canonical_webp p" "vp8_frame p" and len: "length out \<le> MAX_AVATAR_BYTES" by auto
  moreover have "30 \<le> length out" using p by (simp add: vp8_frame_def canonical_length)
  moreover from this have "out \<noteq> []" by auto
  from data_url_parsed [OF this len] canonical_accepted [OF p(2)] p(1) len
  have "parseAvatarDataUrl (data_url out) = Inr (Some out)" by simp
  ultimately show ?thesis by blast
qed

definition plain_frame :: bytes where
  "plain_frame = [0, 0, 0, 0x9d, 0x01, 0x2a, 0, 1, 0, 1]"

lemma plain_frame_ok: "vp8_frame plain_frame"
  by (simp add: vp8_frame_def plain_frame_def AVATAR_EDGE_def)

theorem kept_avatar_is_canonical_witness:
  "length (canonical_webp plain_frame) = 30 \<and> 30 \<le> length (canonical_webp plain_frame) \<and>
   parseAvatarDataUrl (data_url (canonical_webp plain_frame)) = Inr (Some (canonical_webp plain_frame))"
proof -
  have len: "length (canonical_webp plain_frame) = 30" by (simp add: canonical_length) (simp add: plain_frame_def)
  then have "webp_avatar (canonical_webp plain_frame) = Inr (Some (canonical_webp plain_frame))"
    by (intro canonical_accepted plain_frame_ok) (simp add: MAX_AVATAR_BYTES_def)
  moreover have "canonical_webp plain_frame \<noteq> []" using len by auto
  ultimately have "parseAvatarDataUrl (data_url (canonical_webp plain_frame)) = Inr (Some (canonical_webp plain_frame))"
    using data_url_parsed len by (simp add: MAX_AVATAR_BYTES_def)
  from kept_avatar_is_canonical [OF this] len show ?thesis by blast
qed

end
