(* ===== verification/Phone_Native.thy ===== *)
theory Phone_Native
  imports Http_Requests
begin

text \<open>
  The native database of the phone application, as its runtime (\<open>ios-web/room-runtime.js\<close>) uses it: the
  tables of \<open>ios/App/App/Resources/Migrations\<close> with their checks and triggers, the reviewed statements
  of \<open>ios/App/App/GreenRoomDatabasePlugin.swift\<close>, and \<open>executeBatch\<close>. A JSON column holds the value that
  its text denotes.
\<close>

section \<open>Tables\<close>

record phone_room =
  phr_id :: string
  phr_title :: string
  phr_status :: room_status
  phr_demo :: bool
  phr_generation :: nat
  phr_next :: nat

record phone_person =
  php_room :: string
  php_id :: string
  php_name :: string
  php_muted :: bool
  php_order :: nat
  php_slug :: "string option"

text \<open>\<open>state_json\<close>, \<open>last_speaker_id\<close>, \<open>last_human_event_sequence\<close>, \<open>autonomous_turns\<close>, \<open>scheduling_window_generation\<close>\<close>

record phone_director =
  phd_state :: "jval option"
  phd_last_speaker :: "string option"
  phd_last_human :: "nat option"
  phd_turns :: nat
  phd_window :: nat

datatype command_state = Cmd_Prepared | Cmd_In_Flight | Cmd_Failed | Cmd_Interrupted | Cmd_Completed | Cmd_Abandoned

record generation_command =
  gc_id :: string
  gc_request :: string
  gc_room :: string
  gc_digest :: string
  gc_plan :: jval
  gc_human :: jval
  gc_director :: jval
  gc_snapshot :: jval
  gc_generation :: nat
  gc_source :: nat
  gc_slug :: "string option"
  gc_state :: command_state
  gc_epoch :: nat
  gc_failure :: "string option"
  gc_response :: "string option"
  gc_started :: bool
  gc_finished :: bool

record phone_selection =
  phs_provider :: string
  phs_profile :: string
  phs_revision :: nat
  phs_model :: string

record phone_credential =
  phc_profile :: string
  phc_revision :: nat
  phc_provider :: string
  phc_ref :: string
  phc_mutation :: string
  phc_state :: string
  phc_tombstoned :: bool

text \<open>The profile revisions are (profile, revision, provider, tombstoned), the consent is for a provider and a model.\<close>

record phone_settings =
  ps_selection :: "phone_selection option"
  ps_profiles :: "(string \<times> nat \<times> string \<times> bool) list"
  ps_credentials :: "phone_credential list"
  ps_consent :: "(string \<times> string) option"

record phone_db =
  phone_rooms :: "phone_room list"
  phone_people :: "phone_person list"
  phone_events :: "(string \<times> nat \<times> jval) list"
  phone_directors :: "string \<Rightarrow> phone_director option"
  phone_commands :: "generation_command list"
  phone_current :: "string option"
  phone_drafts :: "string \<Rightarrow> string option"
  phone_settings :: phone_settings

definition phone_room_of :: "phone_db \<Rightarrow> string \<Rightarrow> phone_room option" where
  "phone_room_of db r = find (\<lambda>room. phr_id room = r) (phone_rooms db)"

definition room_log :: "phone_db \<Rightarrow> string \<Rightarrow> (nat \<times> jval) list" where
  "room_log db r = map snd (filter (\<lambda>e. fst e = r) (phone_events db))"

definition room_people :: "phone_db \<Rightarrow> string \<Rightarrow> phone_person list" where
  "room_people db r = sort_key php_order (filter (\<lambda>p. php_room p = r) (phone_people db))"

definition command_of :: "phone_db \<Rightarrow> string \<Rightarrow> generation_command option" where
  "command_of db i = find (\<lambda>c. gc_id c = i) (phone_commands db)"

definition unresolved :: "generation_command \<Rightarrow> bool" where
  "unresolved c \<longleftrightarrow> gc_state c \<in> {Cmd_Prepared, Cmd_In_Flight, Cmd_Failed, Cmd_Interrupted}"

section \<open>Checks and triggers\<close>

definition uuid_pattern :: "(char \<Rightarrow> bool) list" where
  "uuid_pattern = replicate 8 lower_hex @ [(=) CHR ''-''] @ replicate 4 lower_hex @ [(=) CHR ''-'', (=) CHR ''4''] @
     replicate 3 lower_hex @ [(=) CHR ''-'', \<lambda>c. c \<in> set ''89ab''] @ replicate 3 lower_hex @ [(=) CHR ''-''] @
     replicate 12 lower_hex"

definition is_uuid :: "string \<Rightarrow> bool" where
  "is_uuid s \<longleftrightarrow> list_all2 (\<lambda>P c. P c) uuid_pattern s"

definition opt_jstr :: "string option \<Rightarrow> jval" where
  "opt_jstr s = (case s of None \<Rightarrow> JNull | Some t \<Rightarrow> JStr t)"

text \<open>\<open>json_extract(v, '$.key')\<close>, null for a missing key.\<close>

definition json_extract :: "string \<Rightarrow> jval \<Rightarrow> jval" where
  "json_extract k v = (case jget k v of JUndefined \<Rightarrow> JNull | w \<Rightarrow> w)"

definition response_ok :: "string \<Rightarrow> bool" where
  "response_ok t \<longleftrightarrow> list_ex (\<lambda>c. c \<noteq> CHR '' '') t \<and> utf8_length t \<le> 16384"

definition state_check :: "generation_command \<Rightarrow> bool" where
  "state_check c =
     (case gc_state c of
        Cmd_Prepared \<Rightarrow> gc_epoch c = 0 \<and> \<not> gc_started c \<and> \<not> gc_finished c \<and> gc_failure c = None \<and> gc_response c = None
      | Cmd_In_Flight \<Rightarrow> 1 \<le> gc_epoch c \<and> gc_started c \<and> \<not> gc_finished c \<and> gc_failure c = None \<and> gc_response c = None
      | Cmd_Failed \<Rightarrow> \<not> gc_started c \<and> \<not> gc_finished c \<and> gc_failure c \<noteq> None \<and> gc_response c = None \<and>
          (gc_epoch c = 0 \<or> gc_failure c = Some ''not_started'')
      | Cmd_Interrupted \<Rightarrow> 1 \<le> gc_epoch c \<and> gc_started c \<and> \<not> gc_finished c \<and> gc_failure c \<noteq> None \<and> gc_response c = None
      | Cmd_Completed \<Rightarrow> gc_finished c \<and> gc_failure c = None \<and> (gc_slug c = None \<longleftrightarrow> gc_response c = None)
      | Cmd_Abandoned \<Rightarrow> gc_finished c \<and> gc_response c = None)"

definition generation_row_ok :: "generation_command \<Rightarrow> bool" where
  "generation_row_ok c \<longleftrightarrow>
     is_uuid (gc_id c) \<and> is_uuid (gc_request c) \<and> length (gc_digest c) = 64 \<and> list_all lower_hex (gc_digest c) \<and>
     json_extract ''type'' (gc_human c) = JStr ''human_message'' \<and> json_extract ''type'' (gc_director c) = JStr ''director_decision'' \<and>
     json_ok (gc_plan c) \<and> json_ok (gc_human c) \<and> json_ok (gc_director c) \<and> json_ok (gc_snapshot c) \<and>
     (case gc_snapshot c of JObj _ \<Rightarrow> True | _ \<Rightarrow> False) \<and> 1 \<le> gc_source c \<and>
     json_extract ''kind'' (gc_plan c) = JStr (if gc_slug c = None then ''silence'' else ''provider'') \<and>
     json_extract ''requestId'' (gc_plan c) = JStr (gc_request c) \<and> json_extract ''roomId'' (gc_plan c) = JStr (gc_room c) \<and>
     json_extract ''sourceEventSequence'' (gc_plan c) = JInt (int (gc_source c)) \<and>
     json_extract ''personaSlug'' (gc_plan c) = opt_jstr (gc_slug c) \<and>
     json_extract ''generation'' (gc_director c) = JInt (int (gc_generation c)) \<and>
     json_extract ''sourceEventSequence'' (gc_director c) = JInt (int (gc_source c)) \<and>
     json_extract ''speaker'' (gc_director c) = opt_jstr (gc_slug c) \<and>
     (case gc_response c of None \<Rightarrow> True | Some t \<Rightarrow> response_ok t) \<and> state_check c"

text \<open>The trigger \<open>generation_command_transition_is_valid\<close>.\<close>

definition transition_ok :: "generation_command \<Rightarrow> generation_command \<Rightarrow> bool" where
  "transition_ok old new \<longleftrightarrow>
     (gc_state old = Cmd_Prepared \<and> gc_state new \<in> {Cmd_In_Flight, Cmd_Failed, Cmd_Completed, Cmd_Abandoned}) \<or>
     (gc_state old = Cmd_Failed \<and> gc_state new \<in> {Cmd_Failed, Cmd_In_Flight, Cmd_Completed, Cmd_Abandoned}) \<or>
     (gc_state old = Cmd_Interrupted \<and> gc_state new \<in> {Cmd_In_Flight, Cmd_Abandoned}) \<or>
     (gc_state old = Cmd_In_Flight \<and>
        (gc_state new = Cmd_Interrupted \<or> (gc_state new = Cmd_Completed \<and> gc_epoch new = gc_epoch old) \<or>
         (gc_state new = Cmd_Failed \<and> gc_failure new = Some ''not_started'' \<and> Suc (gc_epoch new) = gc_epoch old \<and> \<not> gc_started new))) \<or>
     (gc_state old = gc_state new \<and> gc_epoch old = gc_epoch new \<and> gc_failure old = gc_failure new \<and>
        gc_response old = gc_response new \<and> gc_started old = gc_started new \<and> gc_finished old = gc_finished new)"

text \<open>\<open>INSERT INTO events\<close> with the primary key and the trigger that advances the room.\<close>

definition insert_event :: "string \<Rightarrow> nat \<Rightarrow> jval \<Rightarrow> phone_db \<Rightarrow> phone_db option" where
  "insert_event r n v db =
     (if n \<in> fst ` set (room_log db r) then None
      else Some (db\<lparr>phone_events := phone_events db @ [(r, n, v)],
                    phone_rooms := map (\<lambda>room. if phr_id room = r \<and> phr_next room = n then room\<lparr>phr_next := Suc n\<rparr> else room) (phone_rooms db)\<rparr>))"

definition persona_event_json :: "nat \<Rightarrow> string \<Rightarrow> nat \<Rightarrow> string \<Rightarrow> jval" where
  "persona_event_json g slug source t = JObj
     [(''generation'', JInt (int g)), (''personaSlug'', JStr slug), (''sourceEventSequence'', JInt (int source)),
      (''text'', JStr t), (''type'', JStr ''persona_message'')]"

text \<open>The events that a completed command stands for.\<close>

definition turn_of :: "generation_command \<Rightarrow> (nat \<times> jval) list" where
  "turn_of c =
     [(gc_source c, gc_human c), (Suc (gc_source c), gc_director c)] @
     (case (gc_slug c, gc_response c) of
        (Some slug, Some t) \<Rightarrow> [(Suc (Suc (gc_source c)), persona_event_json (gc_generation c) slug (gc_source c) t)]
      | _ \<Rightarrow> [])"

fun insert_events :: "string \<Rightarrow> (nat \<times> jval) list \<Rightarrow> phone_db \<Rightarrow> phone_db option" where
  "insert_events r [] db = Some db"
| "insert_events r (e # es) db = Option.bind (insert_event r (fst e) (snd e) db) (insert_events r es)"

text \<open>
  The triggers of a completion: the fence, then the director's row (its last speaker must be a
  participant, its turns a non-negative integer), the events, and the draft.
\<close>

definition completion_fenced :: "generation_command \<Rightarrow> phone_db \<Rightarrow> bool" where
  "completion_fenced c db =
     (case phone_room_of db (gc_room c) of
        None \<Rightarrow> False
      | Some room \<Rightarrow> phr_status room = Active \<and> phr_generation room = gc_generation c \<and> phr_next room = gc_source c)"

definition commit_director :: "generation_command \<Rightarrow> phone_db \<Rightarrow> phone_db option" where
  "commit_director c db =
     (case phone_directors db (gc_room c) of
        None \<Rightarrow> Some db
      | Some row \<Rightarrow>
          (case jsafe_nonneg (json_extract ''autonomousTurns'' (gc_snapshot c)) of
             None \<Rightarrow> None
           | Some turns \<Rightarrow>
               let last_speaker = (case gc_slug c of None \<Rightarrow> phd_last_speaker row | Some slug \<Rightarrow> Some slug) in
               if (case last_speaker of None \<Rightarrow> False | Some i \<Rightarrow> i \<notin> php_id ` set (room_people db (gc_room c))) then None
               else Some (db\<lparr>phone_directors := (phone_directors db)(gc_room c \<mapsto>
                      \<lparr>phd_state = Some (gc_snapshot c), phd_last_speaker = last_speaker, phd_last_human = Some (gc_source c),
                       phd_turns = turns, phd_window = gc_generation c\<rparr>)\<rparr>)))"

definition commit_room :: "generation_command \<Rightarrow> phone_db \<Rightarrow> phone_db option" where
  "commit_room c db =
     Option.bind (commit_director c db) (\<lambda>db1.
     Option.bind (insert_events (gc_room c) (turn_of c) db1) (\<lambda>db2.
       Some (db2\<lparr>phone_drafts := (phone_drafts db2)(gc_room c := None)\<rparr>)))"

section \<open>Statements\<close>

text \<open>
  An update of the one command with an id, under the condition of its \<open>WHERE\<close>; None when no row
  changed (\<open>requiredSingleChangeStatements\<close>) or a check or trigger aborted.
\<close>

definition store_command :: "generation_command \<Rightarrow> phone_db \<Rightarrow> phone_db" where
  "store_command c db = db\<lparr>phone_commands := map (\<lambda>x. if gc_id x = gc_id c then c else x) (phone_commands db)\<rparr>"

definition update_command ::
    "string \<Rightarrow> (generation_command \<Rightarrow> bool) \<Rightarrow> (generation_command \<Rightarrow> generation_command) \<Rightarrow> phone_db \<Rightarrow> phone_db option" where
  "update_command i P f db =
     (case command_of db i of
        None \<Rightarrow> None
      | Some c \<Rightarrow>
          if \<not> P c \<or> \<not> transition_ok c (f c) \<or> \<not> generation_row_ok (f c) then None
          else if gc_state (f c) = Cmd_Completed \<and> gc_state c \<noteq> Cmd_Completed then
            (if gc_epoch (f c) \<noteq> gc_epoch c \<or> \<not> completion_fenced c db then None
             else commit_room (f c) (store_command (f c) db))
          else Some (store_command (f c) db))"

definition same_command :: "string \<Rightarrow> string \<Rightarrow> generation_command \<Rightarrow> bool" where
  "same_command request digest c \<longleftrightarrow> gc_request c = request \<and> gc_digest c = digest"

text \<open>The join over the selection, the profile, the credential and the consent, for a plan.\<close>

definition selection_for :: "jval \<Rightarrow> phone_selection \<Rightarrow> bool" where
  "selection_for plan s \<longleftrightarrow> json_extract ''providerId'' plan = JStr (phs_provider s) \<and> json_extract ''profileId'' plan = JStr (phs_profile s) \<and>
     json_extract ''profileRevision'' plan = JInt (int (phs_revision s)) \<and> json_extract ''model'' plan = JStr (phs_model s)"

definition credential_for :: "phone_selection \<Rightarrow> phone_credential \<Rightarrow> bool" where
  "credential_for s c \<longleftrightarrow> phc_profile c = phs_profile s \<and> phc_revision c = phs_revision s \<and> phc_provider c = phs_provider s \<and>
     phc_state c = ''ready'' \<and> \<not> phc_tombstoned c"

definition authority_for :: "jval \<Rightarrow> phone_settings \<Rightarrow> bool" where
  "authority_for plan st =
     (case ps_selection st of
        None \<Rightarrow> False
      | Some s \<Rightarrow> selection_for plan s \<and> list_ex (credential_for s) (ps_credentials st) \<and>
          (phs_profile s, phs_revision s, phs_provider s, False) \<in> set (ps_profiles st) \<and>
          ps_consent st = Some (phs_provider s, phs_model s))"

definition current_profile :: "phone_selection \<Rightarrow> phone_settings \<Rightarrow> bool" where
  "current_profile s st \<longleftrightarrow> list_all (\<lambda>(p, n, _, _). p = phs_profile s \<longrightarrow> n \<le> phs_revision s) (ps_profiles st)"

definition prepare_command :: "generation_command \<Rightarrow> phone_db \<Rightarrow> phone_db option" where
  "prepare_command c0 db =
     (let c = c0\<lparr>gc_state := Cmd_Prepared, gc_epoch := 0, gc_failure := None, gc_response := None, gc_started := False, gc_finished := False\<rparr>
      in case phone_room_of db (gc_room c) of
        None \<Rightarrow> None
      | Some room \<Rightarrow>
          if phr_status room \<noteq> Active \<or> phr_demo room \<or> phr_generation room \<noteq> gc_generation c \<or> phr_next room \<noteq> gc_source c \<or>
             list_ex (\<lambda>x. gc_room x = gc_room c \<and> unresolved x) (phone_commands db) \<or>
             \<not> (if gc_slug c = None then json_extract ''kind'' (gc_plan c) = JStr ''silence''
                 else json_extract ''kind'' (gc_plan c) = JStr ''provider'' \<and> authority_for (gc_plan c) (phone_settings db)) \<or>
             \<not> generation_row_ok c \<or>
             list_ex (\<lambda>x. gc_id x = gc_id c \<or> gc_request x = gc_request c) (phone_commands db) \<or>
             \<not> list_ex (\<lambda>p. php_slug p = None \<and> json_extract ''participantId'' (gc_human c) = JStr (php_id p)) (room_people db (gc_room c))
          then None
          else Some (db\<lparr>phone_commands := phone_commands db @ [c]\<rparr>))"

definition begin_command :: "string \<Rightarrow> string \<Rightarrow> string \<Rightarrow> jval \<Rightarrow> nat \<Rightarrow> string \<Rightarrow> string \<Rightarrow> phone_db \<Rightarrow> phone_db option" where
  "begin_command i request digest plan epoch ref mutation db =
     update_command i
       (\<lambda>c. same_command request digest c \<and> gc_plan c = plan \<and> gc_epoch c = epoch \<and>
          gc_state c \<in> {Cmd_Prepared, Cmd_Failed, Cmd_Interrupted} \<and> json_extract ''kind'' plan = JStr ''provider'' \<and>
          (case ps_selection (phone_settings db) of
             None \<Rightarrow> False
           | Some s \<Rightarrow> authority_for plan (phone_settings db) \<and> current_profile s (phone_settings db) \<and>
               list_ex (\<lambda>k. credential_for s k \<and> phc_ref k = ref \<and> phc_mutation k = mutation) (ps_credentials (phone_settings db))) \<and>
          (case phone_room_of db (gc_room c) of
             None \<Rightarrow> False
           | Some room \<Rightarrow> phr_status room = Active \<and> \<not> phr_demo room \<and> phr_generation room = gc_generation c \<and>
               phr_next room = gc_source c \<and> phone_current db = Some (gc_room c)))
       (\<lambda>c. c\<lparr>gc_state := Cmd_In_Flight, gc_epoch := Suc (gc_epoch c), gc_started := True, gc_failure := None\<rparr>) db"

definition fail_command :: "string \<Rightarrow> string \<Rightarrow> string \<Rightarrow> string \<Rightarrow> nat \<Rightarrow> phone_db \<Rightarrow> phone_db option" where
  "fail_command code i request digest epoch db =
     update_command i (\<lambda>c. same_command request digest c \<and> gc_epoch c = epoch \<and> gc_state c \<in> {Cmd_Prepared, Cmd_Failed})
       (\<lambda>c. c\<lparr>gc_state := Cmd_Failed, gc_failure := Some code\<rparr>) db"

definition interrupt_command :: "string \<Rightarrow> string \<Rightarrow> string \<Rightarrow> string \<Rightarrow> nat \<Rightarrow> phone_db \<Rightarrow> phone_db option" where
  "interrupt_command code i request digest epoch db =
     update_command i (\<lambda>c. same_command request digest c \<and> gc_epoch c = epoch \<and> gc_state c = Cmd_In_Flight)
       (\<lambda>c. c\<lparr>gc_state := Cmd_Interrupted, gc_failure := Some code\<rparr>) db"

definition complete_command :: "string \<Rightarrow> string \<Rightarrow> string \<Rightarrow> string \<Rightarrow> nat \<Rightarrow> phone_db \<Rightarrow> phone_db option" where
  "complete_command t i request digest epoch db =
     update_command i (\<lambda>c. same_command request digest c \<and> gc_epoch c = epoch \<and> gc_state c = Cmd_In_Flight \<and> gc_slug c \<noteq> None)
       (\<lambda>c. c\<lparr>gc_state := Cmd_Completed, gc_response := Some t, gc_failure := None, gc_finished := True\<rparr>) db"

definition complete_silent :: "string \<Rightarrow> string \<Rightarrow> string \<Rightarrow> nat \<Rightarrow> phone_db \<Rightarrow> phone_db option" where
  "complete_silent i request digest epoch db =
     update_command i (\<lambda>c. same_command request digest c \<and> gc_epoch c = epoch \<and> gc_state c \<in> {Cmd_Prepared, Cmd_Failed} \<and> gc_slug c = None)
       (\<lambda>c. c\<lparr>gc_state := Cmd_Completed, gc_failure := None, gc_finished := True\<rparr>) db"

definition abandon_command :: "string \<Rightarrow> string \<Rightarrow> string \<Rightarrow> string \<Rightarrow> phone_db \<Rightarrow> phone_db option" where
  "abandon_command code i request digest db =
     update_command i (\<lambda>c. same_command request digest c \<and> gc_state c \<in> {Cmd_Prepared, Cmd_Failed, Cmd_Interrupted})
       (\<lambda>c. c\<lparr>gc_state := Cmd_Abandoned, gc_failure := Some code, gc_finished := True\<rparr>) db"

text \<open>Native code beside the batches: the reconciliation on activation, and an attempt that did not start.\<close>

definition not_executing :: "generation_command \<Rightarrow> generation_command" where
  "not_executing c =
     (if gc_state c = Cmd_Prepared then c\<lparr>gc_state := Cmd_Failed, gc_failure := Some ''not_started''\<rparr>
      else if gc_state c = Cmd_In_Flight then c\<lparr>gc_state := Cmd_Interrupted, gc_failure := Some ''canceled''\<rparr> else c)"

definition interrupt_in_flight :: "phone_db \<Rightarrow> phone_db" where
  "interrupt_in_flight db = db\<lparr>phone_commands := map not_executing (phone_commands db)\<rparr>"

definition fail_not_started :: "string \<Rightarrow> string \<Rightarrow> string \<Rightarrow> nat \<Rightarrow> phone_db \<Rightarrow> phone_db option" where
  "fail_not_started i request digest prior db =
     update_command i (\<lambda>c. same_command request digest c \<and>
         ((gc_epoch c = prior \<and> gc_state c \<in> {Cmd_Prepared, Cmd_Failed}) \<or> (gc_epoch c = Suc prior \<and> gc_state c = Cmd_In_Flight)))
       (\<lambda>c. c\<lparr>gc_state := Cmd_Failed, gc_epoch := prior, gc_started := False, gc_failure := Some ''not_started''\<rparr>) db"

section \<open>Rooms and drafts\<close>

definition sql_name :: "string \<Rightarrow> bool" where
  "sql_name s \<longleftrightarrow> 1 \<le> length s \<and> length s \<le> 128 \<and> sql_trimmed s"

definition create_room :: "string \<Rightarrow> string \<Rightarrow> bool \<Rightarrow> phone_db \<Rightarrow> phone_db option" where
  "create_room r title demo db =
     (if \<not> sql_name r \<or> \<not> sql_name title \<or> phone_room_of db r \<noteq> None then None
      else Some (db\<lparr>phone_rooms := phone_rooms db @
        [\<lparr>phr_id = r, phr_title = title, phr_status = Active, phr_demo = demo, phr_generation = 0, phr_next = 1\<rparr>]\<rparr>))"

text \<open>\<open>create_human\<close> (no slug, order 0) and \<open>create_persona\<close>.\<close>

definition create_participant :: "string \<Rightarrow> string \<Rightarrow> string \<Rightarrow> nat \<Rightarrow> string option \<Rightarrow> phone_db \<Rightarrow> phone_db option" where
  "create_participant i r name order slug db =
     (if phone_room_of db r = None \<or> \<not> sql_name name \<or> order > 3 \<or> (slug = None) \<noteq> (order = 0) \<or>
         list_ex (\<lambda>p. php_room p = r \<and> (php_id p = i \<or> php_order p = order \<or> (slug \<noteq> None \<and> php_slug p = slug))) (phone_people db)
      then None
      else Some (db\<lparr>phone_people := phone_people db @
        [\<lparr>php_room = r, php_id = i, php_name = name, php_muted = False, php_order = order, php_slug = slug\<rparr>]\<rparr>))"

definition create_director :: "string \<Rightarrow> phone_db \<Rightarrow> phone_db option" where
  "create_director r db =
     (if phone_room_of db r = None \<or> phone_directors db r \<noteq> None then None
      else Some (db\<lparr>phone_directors := (phone_directors db)(r \<mapsto>
        \<lparr>phd_state = None, phd_last_speaker = None, phd_last_human = None, phd_turns = 0, phd_window = 0\<rparr>)\<rparr>))"

definition select_phone_room :: "string \<Rightarrow> phone_db \<Rightarrow> phone_db option" where
  "select_phone_room r db = (if phone_room_of db r = None then None else Some (db\<lparr>phone_current := Some r\<rparr>))"

definition save_draft :: "string \<Rightarrow> string \<Rightarrow> phone_db \<Rightarrow> phone_db option" where
  "save_draft r t db =
     (if phone_room_of db r = None \<or> length t > 16384 then None else Some (db\<lparr>phone_drafts := (phone_drafts db)(r \<mapsto> t)\<rparr>))"

definition delete_draft :: "string \<Rightarrow> phone_db \<Rightarrow> phone_db option" where
  "delete_draft r db = Some (db\<lparr>phone_drafts := (phone_drafts db)(r := None)\<rparr>)"

section \<open>A demonstration turn\<close>

text \<open>
  The five statements of one batch: \<open>update_review_demo_director_state\<close>, the three
  \<open>append_review_demo_\<dots>\<close> (each at the room's next number, which the one before it advanced) and
  \<open>delete_local_draft\<close>.
\<close>

definition demo_turn :: "string \<Rightarrow> nat \<Rightarrow> nat \<Rightarrow> string \<Rightarrow> nat \<Rightarrow> jval \<Rightarrow> jval \<Rightarrow> jval \<Rightarrow> jval \<Rightarrow> phone_db \<Rightarrow> phone_db option" where
  "demo_turn r g source who turns state human director persona db =
     (case (phone_room_of db r, phone_directors db r) of
        (Some room, Some row) \<Rightarrow>
          if phr_status room \<noteq> Active \<or> \<not> phr_demo room \<or> phr_generation room \<noteq> g \<or> phr_next room \<noteq> source \<or>
             phone_current db \<noteq> Some r \<or> who \<notin> php_id ` set (room_people db r) \<or>
             json_extract ''type'' human \<noteq> JStr ''human_message'' \<or>
             \<not> list_ex (\<lambda>p. php_slug p = None \<and> json_extract ''participantId'' human = JStr (php_id p)) (room_people db r) \<or>
             json_extract ''type'' director \<noteq> JStr ''director_decision'' \<or>
             json_extract ''sourceEventSequence'' director \<noteq> JInt (int source) \<or> json_extract ''speaker'' director \<noteq> JStr who \<or>
             json_extract ''type'' persona \<noteq> JStr ''persona_message'' \<or>
             json_extract ''sourceEventSequence'' persona \<noteq> JInt (int source) \<or> json_extract ''personaSlug'' persona \<noteq> JStr who \<or>
             \<not> list_ex (\<lambda>p. php_slug p = Some who) (room_people db r)
          then None
          else
            Option.bind (insert_events r [(source, human), (Suc source, director), (Suc (Suc source), persona)]
              (db\<lparr>phone_directors := (phone_directors db)(r \<mapsto> \<lparr>phd_state = Some state, phd_last_speaker = Some who,
                  phd_last_human = Some source, phd_turns = turns, phd_window = g\<rparr>)\<rparr>)) (delete_draft r)
      | _ \<Rightarrow> None)"

section \<open>Steps\<close>

inductive phone_statement :: "(phone_db \<Rightarrow> phone_db option) \<Rightarrow> bool" where
  "phone_statement (prepare_command c)"
| "phone_statement (begin_command i q d plan n ref mutation)"
| "phone_statement (fail_command code i q d n)"
| "phone_statement (interrupt_command code i q d n)"
| "phone_statement (complete_command t i q d n)"
| "phone_statement (complete_silent i q d n)"
| "phone_statement (abandon_command code i q d)"
| "phone_statement (fail_not_started i q d n)"
| "phone_statement (create_room r title demo)"
| "phone_statement (create_participant i r name order slug)"
| "phone_statement (create_director r)"
| "phone_statement (select_phone_room r)"
| "phone_statement (save_draft r t)"
| "phone_statement (delete_draft r)"
| "phone_statement (demo_turn r g source who turns state human director persona)"

text \<open>
  Everything that can happen to the database: a statement, the reconciliation on activation, and any
  change of the provider settings, which other plugins make.
\<close>

inductive phone_step :: "phone_db \<Rightarrow> phone_db \<Rightarrow> bool" where
  statement: "phone_statement f \<Longrightarrow> f db = Some db' \<Longrightarrow> phone_step db db'"
| activation: "phone_step db (interrupt_in_flight db)"
| settings: "phone_step db (db\<lparr>phone_settings := st\<rparr>)"

inductive phone_steps :: "phone_db \<Rightarrow> phone_db \<Rightarrow> bool" where
  stay: "phone_steps db db"
| go: "phone_steps db db1 \<Longrightarrow> phone_step db1 db2 \<Longrightarrow> phone_steps db db2"

text \<open>The migrations seed nothing.\<close>

definition empty_phone :: phone_db where
  "empty_phone = \<lparr>phone_rooms = [], phone_people = [], phone_events = [], phone_directors = (\<lambda>_. None), phone_commands = [],
     phone_current = None, phone_drafts = (\<lambda>_. None),
     phone_settings = \<lparr>ps_selection = None, ps_profiles = [], ps_credentials = [], ps_consent = None\<rparr>\<rparr>"

end
