(* ===== verification/Phone_Turns.thy ===== *)
theory Phone_Turns
  imports Phone_Native
begin

text \<open>
  The atomic turns of the phone's database: whatever statements run, whenever the application is
  suspended or resumed and whatever happens to the provider settings, the log of a room consists of the
  turns of its completed generation commands, in the order they were prepared.
\<close>

section \<open>The invariant\<close>

definition completed_command :: "generation_command \<Rightarrow> bool" where
  "completed_command c \<longleftrightarrow> gc_state c = Cmd_Completed"

definition room_commands :: "phone_db \<Rightarrow> string \<Rightarrow> generation_command list" where
  "room_commands db r = filter (\<lambda>c. gc_room c = r) (phone_commands db)"

definition turns_of :: "generation_command list \<Rightarrow> (nat \<times> jval) list" where
  "turns_of cs = concat (map turn_of (filter completed_command cs))"

text \<open>Only the last command of a room can be unresolved.\<close>

definition resolved_before :: "generation_command list \<Rightarrow> bool" where
  "resolved_before cs \<longleftrightarrow> (\<forall>c \<in> set (butlast cs). \<not> unresolved c)"

definition room_turns_ok :: "phone_db \<Rightarrow> phone_room \<Rightarrow> bool" where
  "room_turns_ok db room \<longleftrightarrow>
     map fst (room_log db (phr_id room)) = [1..<phr_next room] \<and> 1 \<le> phr_next room \<and>
     resolved_before (room_commands db (phr_id room)) \<and>
     (if phr_demo room then room_commands db (phr_id room) = []
      else room_log db (phr_id room) = turns_of (room_commands db (phr_id room)))"

definition phone_ok :: "phone_db \<Rightarrow> bool" where
  "phone_ok db \<longleftrightarrow>
     distinct (map phr_id (phone_rooms db)) \<and> distinct (map gc_id (phone_commands db)) \<and>
     distinct (map gc_request (phone_commands db)) \<and> list_all generation_row_ok (phone_commands db) \<and>
     list_all (\<lambda>c. gc_room c \<in> phr_id ` set (phone_rooms db)) (phone_commands db) \<and>
     list_all (\<lambda>e. fst e \<in> phr_id ` set (phone_rooms db)) (phone_events db) \<and>
     list_all (room_turns_ok db) (phone_rooms db)"

lemma phone_room_of_Some: "phone_room_of db r = Some room \<Longrightarrow> room \<in> set (phone_rooms db) \<and> phr_id room = r"
  by (auto simp: phone_room_of_def find_Some_iff)

lemma phone_room_of_None: "phone_room_of db r = None \<longleftrightarrow> r \<notin> phr_id ` set (phone_rooms db)"
  by (auto simp: phone_room_of_def find_None_iff)

lemma phone_room_of_eq:
  "distinct (map phr_id (phone_rooms db)) \<Longrightarrow> room \<in> set (phone_rooms db) \<Longrightarrow> phone_room_of db (phr_id room) = Some room"
proof -
  assume d: "distinct (map phr_id (phone_rooms db))" and m: "room \<in> set (phone_rooms db)"
  then obtain room' where f: "phone_room_of db (phr_id room) = Some room'" using phone_room_of_None by fastforce
  from phone_room_of_Some [OF f] d m have "room' = room" by (metis distinct_map inj_onD)
  with f show ?thesis by simp
qed

lemma same_room:
  "distinct (map phr_id (phone_rooms db)) \<Longrightarrow> x \<in> set (phone_rooms db) \<Longrightarrow> y \<in> set (phone_rooms db) \<Longrightarrow> phr_id x = phr_id y \<Longrightarrow> x = y"
  by (metis distinct_map inj_onD)

lemma command_of_Some: "command_of db i = Some c \<Longrightarrow> c \<in> set (phone_commands db) \<and> gc_id c = i"
  by (auto simp: command_of_def find_Some_iff)

section \<open>Changing one command\<close>

text \<open>The unresolved command of a room is its last one, and replacing it leaves the ones before.\<close>

definition replaced :: "generation_command \<Rightarrow> generation_command \<Rightarrow> generation_command" where
  "replaced c' x = (if gc_id x = gc_id c' then c' else x)"

lemma filter_replaced:
  assumes "distinct (map gc_id cs)" and "c \<in> set cs" and "gc_id c' = gc_id c" and "gc_room c' = gc_room c"
  shows "filter (\<lambda>x. gc_room x = r) (map (replaced c') cs) = map (replaced c') (filter (\<lambda>x. gc_room x = r) cs)"
proof -
  have same: "x = c" if "x \<in> set cs" "gc_id x = gc_id c" for x
    using assms(1,2) that by (auto simp: distinct_map dest: inj_onD)
  have "filter (\<lambda>x. gc_room x = r) (map (replaced c') xs) = map (replaced c') (filter (\<lambda>x. gc_room x = r) xs)"
    if "set xs \<subseteq> set cs" for xs
    using that
  proof (induction xs)
    case (Cons x xs)
    have "gc_room (replaced c' x) = gc_room x" using same [of x] Cons.prems assms(3,4) by (auto simp: replaced_def)
    with Cons show ?case by simp
  qed simp
  then show ?thesis by blast
qed

lemma replaced_other: "\<forall>x \<in> set cs. gc_id x \<noteq> gc_id c' \<Longrightarrow> map (replaced c') cs = cs"
  by (auto simp: replaced_def intro!: map_idI)

lemma last_unresolved:
  assumes "resolved_before cs" and "c \<in> set cs" and "unresolved c"
  shows "cs = butlast cs @ [c]"
proof -
  have "cs \<noteq> []" using assms(2) by auto
  then have cs: "cs = butlast cs @ [last cs]" by simp
  have "c \<notin> set (butlast cs)" using assms(1,3) by (auto simp: resolved_before_def)
  moreover have "c \<in> set (butlast cs) \<union> {last cs}" using assms(2) cs by (metis Un_insert_right list.set(1,2) set_append sup_bot.right_neutral)
  ultimately show ?thesis using cs by auto
qed

lemma replace_last:
  assumes "distinct (map gc_id cs)" and "cs = xs @ [c]" and "gc_id c' = gc_id c"
  shows "map (replaced c') cs = xs @ [c']"
proof -
  have "\<forall>x \<in> set xs. gc_id x \<noteq> gc_id c'" using assms by (auto simp: image_iff)
  then show ?thesis using assms(2,3) by (simp add: replaced_other) (simp add: replaced_def)
qed

lemma turns_snoc: "turns_of (xs @ [c]) = turns_of xs @ (if completed_command c then turn_of c else [])"
  by (simp add: turns_of_def)

lemma store_command_replaced: "store_command c db = db\<lparr>phone_commands := map (replaced c) (phone_commands db)\<rparr>"
  by (simp add: store_command_def replaced_def)

lemma unresolved_iff: "unresolved c \<longleftrightarrow> gc_state c \<noteq> Cmd_Completed \<and> gc_state c \<noteq> Cmd_Abandoned"
  by (cases "gc_state c") (auto simp: unresolved_def)

text \<open>The commands of a room after the update of an unresolved one.\<close>

lemma stored_room_commands:
  assumes "distinct (map gc_id (phone_commands db))" and "c \<in> set (phone_commands db)" and "gc_id c' = gc_id c" and "gc_room c' = gc_room c"
    and "resolved_before (room_commands db (gc_room c))" and "unresolved c"
  shows "room_commands db (gc_room c) = butlast (room_commands db (gc_room c)) @ [c]"
    and "room_commands (store_command c' db) r = (if r = gc_room c then butlast (room_commands db r) @ [c'] else room_commands db r)"
proof -
  have mem: "c \<in> set (room_commands db (gc_room c))" using assms(2) by (simp add: room_commands_def)
  from last_unresolved [OF assms(5) mem assms(6)] show split: "room_commands db (gc_room c) = butlast (room_commands db (gc_room c)) @ [c]" .
  have commands: "room_commands (store_command c' db) r = map (replaced c') (room_commands db r)"
    unfolding room_commands_def store_command_replaced using filter_replaced [OF assms(1-4)] by simp
  show "room_commands (store_command c' db) r = (if r = gc_room c then butlast (room_commands db r) @ [c'] else room_commands db r)"
  proof (cases "r = gc_room c")
    case True
    have "distinct (map gc_id (room_commands db r))" using assms(1) by (simp add: room_commands_def distinct_map_filter)
    with replace_last [OF _ split assms(3)] True commands show ?thesis by simp
  next
    case False
    have "gc_id x \<noteq> gc_id c'" if "x \<in> set (room_commands db r)" for x
      using that False assms(1-3) by (auto simp: room_commands_def distinct_map dest: inj_onD)
    then show ?thesis using False by (simp add: commands replaced_other)
  qed
qed

section \<open>Appending events\<close>

definition advanced :: "string \<Rightarrow> nat \<Rightarrow> phone_room \<Rightarrow> phone_room" where
  "advanced r k room = (if phr_id room = r then room\<lparr>phr_next := phr_next room + k\<rparr> else room)"

definition pushed :: "string \<Rightarrow> (nat \<times> jval) list \<Rightarrow> phone_db \<Rightarrow> phone_db" where
  "pushed r es db = db\<lparr>phone_events := phone_events db @ map (\<lambda>e. (r, e)) es,
     phone_rooms := map (advanced r (length es)) (phone_rooms db)\<rparr>"

lemma advanced_simps [simp]:
  "phr_id (advanced r k room) = phr_id room" "phr_demo (advanced r k room) = phr_demo room"
  "phr_status (advanced r k room) = phr_status room" "phr_generation (advanced r k room) = phr_generation room"
  "phr_title (advanced r k room) = phr_title room" "advanced r 0 room = room"
  "phr_next (advanced r k room) = (if phr_id room = r then phr_next room + k else phr_next room)"
  by (simp_all add: advanced_def)

lemma advanced_twice: "advanced r k (advanced r j room) = advanced r (j + k) room"
  by (simp add: advanced_def add.assoc)

lemma pushed_log: "room_log (pushed r es db) r' = room_log db r' @ (if r' = r then es else [])"
  by (simp add: room_log_def pushed_def filter_map comp_def)

lemma pushed_twice: "pushed r es' (pushed r es db) = pushed r (es @ es') db"
  by (simp add: pushed_def comp_def advanced_twice)

lemma pushed_nil: "pushed r [] db = db"
  by (cases db) (simp add: pushed_def map_idI)

lemma phone_room_of_map:
  "(\<And>room. phr_id (f room) = phr_id room) \<Longrightarrow>
   find (\<lambda>room. phr_id room = r) (map f rooms) = map_option f (find (\<lambda>room. phr_id room = r) rooms)"
  by (induction rooms) auto

lemma pushed_room: "phone_room_of (pushed r es db) r' = map_option (advanced r (length es)) (phone_room_of db r')"
  by (simp add: phone_room_of_def pushed_def phone_room_of_map)

lemma insert_event_pushed:
  assumes "map fst (room_log db r) = [1..<n]" and "\<forall>room \<in> set (phone_rooms db). phr_id room = r \<longrightarrow> phr_next room = n"
  shows "insert_event r n v db = Some (pushed r [(n, v)] db)"
proof -
  have "fst ` set (room_log db r) = set [1..<n]" unfolding assms(1) [symmetric] by simp
  then have "n \<notin> fst ` set (room_log db r)" by simp
  moreover have "map (\<lambda>room. if phr_id room = r \<and> phr_next room = n then room\<lparr>phr_next := Suc n\<rparr> else room) (phone_rooms db) =
      map (advanced r 1) (phone_rooms db)"
    using assms(2) by (auto simp: advanced_def)
  ultimately show ?thesis by (simp add: insert_event_def pushed_def)
qed

lemma insert_events_pushed:
  assumes "map fst (room_log db r) = [1..<n]" and "1 \<le> n" and "\<forall>room \<in> set (phone_rooms db). phr_id room = r \<longrightarrow> phr_next room = n"
    and "map fst es = [n..<n + length es]"
  shows "insert_events r es db = Some (pushed r es db)"
  using assms
proof (induction es arbitrary: n db)
  case Nil
  then show ?case by (simp add: pushed_nil)
next
  case (Cons e es)
  have "[n..<n + length (e # es)] = n # [Suc n..<Suc n + length es]" by (simp add: upt_conv_Cons del: upt_Suc)
  with Cons.prems(4) have e: "fst e = n" "map fst es = [Suc n..<Suc n + length es]" by (simp_all del: upt_Suc)
  have one: "insert_event r (fst e) (snd e) db = Some (pushed r [e] db)"
    using insert_event_pushed [OF Cons.prems(1,3), of "snd e"] by (simp add: e(1) [symmetric])
  have "insert_events r es (pushed r [e] db) = Some (pushed r es (pushed r [e] db))"
  proof (rule Cons.IH [of _ "Suc n"])
    show "map fst (room_log (pushed r [e] db) r) = [1..<Suc n]" using Cons.prems(1,2) by (simp add: pushed_log e(1))
    show "\<forall>room \<in> set (phone_rooms (pushed r [e] db)). phr_id room = r \<longrightarrow> phr_next room = Suc n"
      using Cons.prems(3) by (auto simp: pushed_def)
    show "1 \<le> Suc n" by simp
  qed (use e in simp)
  then show ?case by (simp add: one pushed_twice)
qed

text \<open>A commit appends the turn of the command.\<close>

definition director_committed :: "generation_command \<Rightarrow> phone_db \<Rightarrow> phone_db \<Rightarrow> bool" where
  "director_committed c db db' \<longleftrightarrow> phone_rooms db' = phone_rooms db \<and> phone_people db' = phone_people db \<and> phone_events db' = phone_events db \<and>
     phone_commands db' = phone_commands db \<and> phone_current db' = phone_current db \<and> phone_drafts db' = phone_drafts db \<and>
     phone_settings db' = phone_settings db \<and>
     (case phone_directors db (gc_room c) of None \<Rightarrow> phone_directors db' = phone_directors db
      | Some row \<Rightarrow> (\<exists>row'. phone_directors db' = (phone_directors db)(gc_room c \<mapsto> row') \<and> phd_state row' = Some (gc_snapshot c)))"

lemma commit_director_ok: "commit_director c db = Some db' \<Longrightarrow> director_committed c db db'"
  by (auto simp: commit_director_def director_committed_def Let_def split: option.splits if_splits)

lemma turn_numbers: "map fst (turn_of c) = [gc_source c..<gc_source c + length (turn_of c)]"
  by (cases "gc_slug c"; cases "gc_response c") (simp_all add: turn_of_def upt_conv_Cons del: upt_Suc)

section \<open>Every step keeps the invariant\<close>

lemma phone_okD:
  assumes "phone_ok db"
  shows "distinct (map phr_id (phone_rooms db))" "distinct (map gc_id (phone_commands db))" "distinct (map gc_request (phone_commands db))"
    and "c \<in> set (phone_commands db) \<Longrightarrow> generation_row_ok c" "c \<in> set (phone_commands db) \<Longrightarrow> gc_room c \<in> phr_id ` set (phone_rooms db)"
    and "room \<in> set (phone_rooms db) \<Longrightarrow> room_turns_ok db room"
    and "e \<in> set (phone_events db) \<Longrightarrow> fst e \<in> phr_id ` set (phone_rooms db)"
  using assms by (auto simp: phone_ok_def list_all_iff)

definition same_core :: "generation_command \<Rightarrow> generation_command \<Rightarrow> bool" where
  "same_core c c' \<longleftrightarrow> gc_id c' = gc_id c \<and> gc_request c' = gc_request c \<and> gc_room c' = gc_room c \<and> gc_digest c' = gc_digest c \<and>
     gc_plan c' = gc_plan c \<and> gc_human c' = gc_human c \<and> gc_director c' = gc_director c \<and> gc_snapshot c' = gc_snapshot c \<and>
     gc_generation c' = gc_generation c \<and> gc_source c' = gc_source c \<and> gc_slug c' = gc_slug c"

lemma same_core_refl [simp]: "same_core c c"
  by (simp add: same_core_def)

lemma same_coreD: "same_core c c' \<Longrightarrow> gc_id c' = gc_id c \<and> gc_request c' = gc_request c \<and> gc_room c' = gc_room c"
  by (simp add: same_core_def)

lemma requests_kept:
  assumes "distinct (map gc_id cs)" and "c \<in> set cs" and "same_core c c'"
  shows "map gc_id (map (replaced c') cs) = map gc_id cs" "map gc_request (map (replaced c') cs) = map gc_request cs"
    and "x \<in> set (map (replaced c') cs) \<Longrightarrow> x = c' \<or> x \<in> set cs"
proof -
  have "gc_request (replaced c' x) = gc_request x" if "x \<in> set cs" for x
    using assms that by (auto simp: replaced_def distinct_map same_core_def dest: inj_onD)
  then show "map gc_id (map (replaced c') cs) = map gc_id cs" "map gc_request (map (replaced c') cs) = map gc_request cs"
    by (auto simp: replaced_def)
  show "x \<in> set (map (replaced c') cs) \<Longrightarrow> x = c' \<or> x \<in> set cs" by (auto simp: replaced_def split: if_splits)
qed

lemma commands_replaced:
  assumes ok: "phone_ok db" and c: "c \<in> set (phone_commands db)" and core: "same_core c c'" and row: "generation_row_ok c'"
    and cmds: "phone_commands db' = map (replaced c') (phone_commands db)" and rooms: "phr_id ` set (phone_rooms db') = phr_id ` set (phone_rooms db)"
  shows "distinct (map gc_id (phone_commands db')) \<and> distinct (map gc_request (phone_commands db')) \<and>
    list_all generation_row_ok (phone_commands db') \<and> list_all (\<lambda>c. gc_room c \<in> phr_id ` set (phone_rooms db')) (phone_commands db')"
proof -
  note kept = requests_kept [OF phone_okD(2) [OF ok] c core]
  have "generation_row_ok x \<and> gc_room x \<in> phr_id ` set (phone_rooms db)" if "x \<in> set (phone_commands db')" for x
    using kept(3) [of x] that [unfolded cmds] row phone_okD(4,5) [OF ok] c core by (auto simp: same_core_def)
  moreover have "map gc_id (phone_commands db') = map gc_id (phone_commands db)" "map gc_request (phone_commands db') = map gc_request (phone_commands db)"
    unfolding cmds by (rule kept(1), rule kept(2))
  ultimately show ?thesis unfolding rooms list_all_iff using phone_okD(2,3) [OF ok] by simp
qed

lemma store_command_frame [simp]:
  "phone_rooms (store_command c db) = phone_rooms db" "phone_events (store_command c db) = phone_events db"
  "phone_people (store_command c db) = phone_people db" "phone_directors (store_command c db) = phone_directors db"
  by (simp_all add: store_command_def)

lemma room_log_frame: "phone_events db' = phone_events db \<Longrightarrow> room_log db' r = room_log db r"
  by (simp add: room_log_def)

lemma room_commands_frame: "phone_commands db' = phone_commands db \<Longrightarrow> room_commands db' r = room_commands db r"
  by (simp add: room_commands_def)

text \<open>An unresolved command that stays uncompleted.\<close>

lemma stored_uncompleted:
  assumes ok: "phone_ok db" and c: "c \<in> set (phone_commands db)" "unresolved c" and core: "same_core c c'"
    and row: "generation_row_ok c'" and new: "\<not> completed_command c'"
  shows "phone_ok (store_command c' db)"
proof -
  note ids = phone_okD(2) [OF ok]
  obtain room where room: "room \<in> set (phone_rooms db)" "phr_id room = gc_room c" using phone_okD(5) [OF ok c(1)] by auto
  have before: "resolved_before (room_commands db (gc_room c))" using phone_okD(6) [OF ok room(1)] by (simp add: room_turns_ok_def room(2))
  have core': "gc_id c' = gc_id c" "gc_room c' = gc_room c" using core by (simp_all add: same_core_def)
  note cmds = stored_room_commands [OF ids c(1) core' before c(2)]
  have "room_turns_ok (store_command c' db) room'" if "room' \<in> set (phone_rooms db)" for room'
  proof -
    have old: "\<not> completed_command c" using c(2) by (simp add: completed_command_def unresolved_iff)
    have "turns_of (room_commands (store_command c' db) (phr_id room')) = turns_of (room_commands db (phr_id room'))"
    proof (cases "phr_id room' = gc_room c")
      case True
      show ?thesis unfolding cmds(2) True using old new by (subst (3) cmds(1)) (simp add: turns_snoc)
    qed (simp add: cmds(2))
    moreover have "resolved_before (room_commands (store_command c' db) (phr_id room'))"
      using phone_okD(6) [OF ok that] before by (auto simp: cmds(2) resolved_before_def room_turns_ok_def dest: in_set_butlastD)
    moreover have "room_commands (store_command c' db) (phr_id room') = []" if "room_commands db (phr_id room') = []"
    proof -
      have "phr_id room' \<noteq> gc_room c" using that c(1) by (auto simp: room_commands_def filter_empty_conv)
      then show ?thesis using that by (simp add: cmds(2))
    qed
    ultimately show ?thesis
      using phone_okD(6) [OF ok that] room_log_frame [of "store_command c' db" db] by (simp add: room_turns_ok_def split: if_splits)
  qed
  moreover have "phone_commands (store_command c' db) = map (replaced c') (phone_commands db)" by (simp add: store_command_replaced)
  note commands_replaced [OF ok c(1) core row this]
  ultimately show ?thesis using ok by (simp add: phone_ok_def list_all_iff)
qed

text \<open>What completing a command leaves: its row, the director's row, the turn, and no draft.\<close>

lemma commit_room_ok:
  assumes ok: "phone_ok db" and c: "c \<in> set (phone_commands db)" and core: "same_core c c'"
    and fence: "completion_fenced c db" and run: "commit_room c' (store_command c' db) = Some db'"
  shows "\<exists>db1. director_committed c' (store_command c' db) db1 \<and>
    db' = (pushed (gc_room c) (turn_of c') db1)\<lparr>phone_drafts := (phone_drafts db1)(gc_room c := None)\<rparr>"
proof -
  from run obtain db1 db2 where db1: "commit_director c' (store_command c' db) = Some db1"
    and db2: "insert_events (gc_room c') (turn_of c') db1 = Some db2" and db': "db' = db2\<lparr>phone_drafts := (phone_drafts db2)(gc_room c' := None)\<rparr>"
    by (auto simp: commit_room_def bind_eq_Some_conv)
  have core': "gc_room c' = gc_room c" "gc_source c' = gc_source c" using core by (simp_all add: same_core_def)
  note dc = commit_director_ok [OF db1]
  from fence obtain room where room: "phone_room_of db (gc_room c) = Some room" "phr_next room = gc_source c"
    by (auto simp: completion_fenced_def split: option.splits)
  have mem: "room \<in> set (phone_rooms db)" "phr_id room = gc_room c" using phone_room_of_Some [OF room(1)] by simp_all
  have frame: "phone_rooms db1 = phone_rooms db" "room_log db1 (gc_room c) = room_log db (gc_room c)"
    using dc by (simp_all add: director_committed_def room_log_def)
  have "insert_events (gc_room c) (turn_of c') db1 = Some (pushed (gc_room c) (turn_of c') db1)"
  proof (rule insert_events_pushed)
    show "map fst (room_log db1 (gc_room c)) = [1..<gc_source c]" "1 \<le> gc_source c"
      using phone_okD(6) [OF ok mem(1)] by (simp_all add: room_turns_ok_def frame mem(2) room(2))
    show "\<forall>x \<in> set (phone_rooms db1). phr_id x = gc_room c \<longrightarrow> phr_next x = gc_source c"
      using mem room(2) same_room [OF phone_okD(1) [OF ok]] unfolding frame by metis
    show "map fst (turn_of c') = [gc_source c..<gc_source c + length (turn_of c')]" using turn_numbers [of c'] by (simp add: core')
  qed
  with db2 have "db2 = pushed (gc_room c) (turn_of c') db1" by (simp add: core')
  with dc db' show ?thesis by (auto simp: core' pushed_def)
qed

lemma stored_completed:
  assumes ok: "phone_ok db" and c: "c \<in> set (phone_commands db)" "unresolved c" and core: "same_core c c'"
    and row: "generation_row_ok c'" and new: "completed_command c'"
    and dc: "director_committed c' (store_command c' db) db1" and fence: "completion_fenced c db"
    and db': "db' = (pushed (gc_room c) (turn_of c') db1)\<lparr>phone_drafts := drafts\<rparr>"
  shows "phone_ok db'"
proof -
  note ids = phone_okD(2) [OF ok]
  obtain room where room: "room \<in> set (phone_rooms db)" "phr_id room = gc_room c" using phone_okD(5) [OF ok c(1)] by auto
  have before: "resolved_before (room_commands db (gc_room c))" using phone_okD(6) [OF ok room(1)] by (simp add: room_turns_ok_def room(2))
  have core': "gc_id c' = gc_id c" "gc_room c' = gc_room c" "gc_source c' = gc_source c" using core by (simp_all add: same_core_def)
  note cmds = stored_room_commands [OF ids c(1) core'(1,2) before c(2)]
  have old: "\<not> completed_command c" using c(2) by (simp add: completed_command_def unresolved_iff)
  let ?r = "gc_room c" and ?k = "length (turn_of c')"
  have commands: "phone_commands db' = phone_commands (store_command c' db)" and rooms: "phone_rooms db' = map (advanced ?r ?k) (phone_rooms db)"
    and events: "phone_events db' = phone_events db @ map (Pair ?r) (turn_of c')"
    using dc by (auto simp: db' pushed_def director_committed_def)
  then have log: "room_log db' r = room_log db r @ (if r = ?r then turn_of c' else [])" for r
    by (simp add: room_log_def filter_map comp_def)
  have rcmds: "room_commands db' r = room_commands (store_command c' db) r" for r using room_commands_frame [OF commands] .
  have "room_turns_ok db' (advanced ?r ?k room')" if m: "room' \<in> set (phone_rooms db)" for room'
  proof (cases "phr_id room' = ?r")
    case True
    have same: "room' = room" using same_room [OF phone_okD(1) [OF ok] m room(1)] True room(2) by simp
    from fence have nxt: "phr_next room = gc_source c"
      using phone_room_of_eq [OF phone_okD(1) [OF ok] room(1)] by (simp add: completion_fenced_def room(2))
    have live: "\<not> phr_demo room"
      using phone_okD(6) [OF ok room(1)] cmds(1) by (auto simp: room_turns_ok_def room(2) split: if_splits)
    have "turns_of (room_commands db ?r) = turns_of (butlast (room_commands db ?r))"
      by (subst (1) cmds(1)) (simp add: turns_snoc old)
    then have told: "room_log db ?r = turns_of (butlast (room_commands db ?r))"
      using phone_okD(6) [OF ok room(1)] live by (simp add: room_turns_ok_def room(2))
    have nums: "map fst (turns_of (butlast (room_commands db ?r))) = [1..<phr_next room]" "1 \<le> phr_next room"
      using phone_okD(6) [OF ok room(1)] by (simp_all add: room_turns_ok_def room(2) told [symmetric])
    have "[1..<phr_next room + ?k] = [1..<phr_next room] @ [phr_next room..<phr_next room + ?k]"
      by (rule upt_add_eq_append [OF nums(2)])
    moreover have "map fst (turn_of c') = [phr_next room..<phr_next room + ?k]" using turn_numbers [of c'] by (simp add: core' nxt)
    ultimately show ?thesis
      using live new before nums
      by (simp add: same room_turns_ok_def room(2) log rcmds cmds(2) told turns_snoc) (simp add: resolved_before_def)
  next
    case False
    with phone_okD(6) [OF ok m] show ?thesis by (simp add: room_turns_ok_def log rcmds cmds(2))
  qed
  then have turns: "list_all (room_turns_ok db') (phone_rooms db')" by (simp add: rooms list_all_iff)
  have ids': "map phr_id (phone_rooms db') = map phr_id (phone_rooms db)" by (simp add: rooms)
  then have idset: "phr_id ` set (phone_rooms db') = phr_id ` set (phone_rooms db)" by (metis set_map)
  have "phone_commands db' = map (replaced c') (phone_commands db)" by (simp add: commands store_command_replaced)
  note cs = commands_replaced [OF ok c(1) core row this idset]
  have "fst e \<in> phr_id ` set (phone_rooms db)" if "e \<in> set (phone_events db')" for e
  proof -
    from that have "e \<in> set (phone_events db) \<or> fst e = ?r" unfolding events by auto
    then show ?thesis by (elim disjE) (use phone_okD(7) [OF ok, of e] phone_okD(5) [OF ok c(1)] in simp_all)
  qed
  then have "list_all (\<lambda>e. fst e \<in> phr_id ` set (phone_rooms db')) (phone_events db')" unfolding idset list_all_iff by blast
  then show ?thesis using phone_okD(1) [OF ok] turns cs unfolding phone_ok_def ids' by blast
qed

lemma update_keeps:
  assumes ok: "phone_ok db" and run: "update_command i P f db = Some db'"
    and P: "\<And>c. P c \<Longrightarrow> unresolved c \<and> same_core c (f c)"
  shows "phone_ok db'"
proof -
  from run obtain c where c: "command_of db i = Some c" "P c" "generation_row_ok (f c)"
    by (auto simp: update_command_def split: option.splits if_splits)
  have mem: "c \<in> set (phone_commands db)" using command_of_Some [OF c(1)] by simp
  note uc = P [OF c(2)]
  have state: "gc_state c \<noteq> Cmd_Completed" using uc by (simp add: unresolved_iff)
  show ?thesis
  proof (cases "completed_command (f c)")
    case True
    with run c state have fence: "completion_fenced c db" and commit: "commit_room (f c) (store_command (f c) db) = Some db'"
      by (auto simp: update_command_def completed_command_def split: if_splits)
    from commit_room_ok [OF ok mem conjunct2 [OF uc] fence commit] obtain db1 where
      "director_committed (f c) (store_command (f c) db) db1"
      "db' = (pushed (gc_room c) (turn_of (f c)) db1)\<lparr>phone_drafts := (phone_drafts db1)(gc_room c := None)\<rparr>" by blast
    from stored_completed [OF ok mem _ _ c(3) True this(1) fence this(2)] uc show ?thesis by blast
  next
    case False
    with run c have "db' = store_command (f c) db" by (auto simp: update_command_def completed_command_def split: if_splits)
    with stored_uncompleted [OF ok mem _ _ c(3) False] uc show ?thesis by simp
  qed
qed

lemma turns_ok_frame:
  assumes "phone_ok db" and "phone_rooms db' = phone_rooms db" and "phone_events db' = phone_events db" and "phone_commands db' = phone_commands db"
  shows "phone_ok db'"
proof -
  have "room_turns_ok db' = room_turns_ok db"
    using room_log_frame [OF assms(3)] room_commands_frame [OF assms(4)] by (simp add: fun_eq_iff room_turns_ok_def)
  then show ?thesis using assms by (simp add: phone_ok_def)
qed

lemma mapped_commands:
  assumes ok: "phone_ok db" and db': "db' = db\<lparr>phone_commands := map g (phone_commands db)\<rparr>"
    and g: "\<And>c. c \<in> set (phone_commands db) \<Longrightarrow> same_core c (g c) \<and> generation_row_ok (g c) \<and> unresolved (g c) = unresolved c \<and>
      (if completed_command c then g c = c else \<not> completed_command (g c))"
  shows "phone_ok db'"
proof -
  have room: "gc_room (g c) = gc_room c" if "c \<in> set (phone_commands db)" for c using g [OF that] same_coreD by blast
  have cmds: "room_commands db' r = map g (room_commands db r)" for r
  proof -
    have "filter (\<lambda>c. gc_room c = r) (map g xs) = map g (filter (\<lambda>c. gc_room c = r) xs)" if "set xs \<subseteq> set (phone_commands db)" for xs
      using that room by (induction xs) auto
    then show ?thesis by (simp add: room_commands_def db')
  qed
  have sub: "c \<in> set (phone_commands db)" if "c \<in> set (room_commands db r)" for c r using that by (simp add: room_commands_def)
  have turns: "turns_of (map g xs) = turns_of xs" if "set xs \<subseteq> set (phone_commands db)" for xs
    using that g by (induction xs) (auto simp: turns_of_def split: if_splits)
  have "room_turns_ok db' room" if "room \<in> set (phone_rooms db)" for room
  proof -
    have "resolved_before (room_commands db' (phr_id room))"
      using phone_okD(6) [OF ok that] g sub by (fastforce simp: room_turns_ok_def resolved_before_def cmds map_butlast [symmetric] dest: in_set_butlastD)
    moreover have "turns_of (room_commands db' (phr_id room)) = turns_of (room_commands db (phr_id room))"
      using turns sub by (auto simp: cmds)
    ultimately show ?thesis
      using phone_okD(6) [OF ok that] cmds room_log_frame [of db' db] by (auto simp: room_turns_ok_def db' split: if_splits)
  qed
  moreover have "map gc_id (phone_commands db') = map gc_id (phone_commands db)" "map gc_request (phone_commands db') = map gc_request (phone_commands db)"
    using g by (auto simp: db' same_core_def)
  moreover have "generation_row_ok x \<and> gc_room x \<in> phr_id ` set (phone_rooms db)" if "x \<in> set (phone_commands db')" for x
  proof -
    from that obtain c where "c \<in> set (phone_commands db)" "x = g c" by (auto simp: db')
    with g room phone_okD(5) [OF ok] show ?thesis by simp
  qed
  moreover have "phone_rooms db' = phone_rooms db" "phone_events db' = phone_events db" by (simp_all add: db')
  ultimately show ?thesis
    using phone_okD(1-3) [OF ok] phone_okD(7) [OF ok] unfolding phone_ok_def list_all_iff by simp
qed

lemma not_executing_ok:
  "generation_row_ok c \<Longrightarrow> same_core c (not_executing c) \<and> generation_row_ok (not_executing c) \<and>
     unresolved (not_executing c) = unresolved c \<and>
     (if completed_command c then not_executing c = c else \<not> completed_command (not_executing c))"
  by (cases "gc_state c")
    (simp_all add: not_executing_def same_core_def generation_row_ok_def state_check_def unresolved_iff completed_command_def)

lemma activation_keeps:
  assumes "phone_ok db"
  shows "phone_ok (interrupt_in_flight db)"
  by (rule mapped_commands [OF assms interrupt_in_flight_def not_executing_ok [OF phone_okD(4) [OF assms]]])

lemma command_statements_keep:
  assumes ok: "phone_ok db"
  shows "begin_command i q d plan n ref mutation db = Some db' \<Longrightarrow> phone_ok db'"
    and "fail_command code i q d n db = Some db' \<Longrightarrow> phone_ok db'" and "interrupt_command code i q d n db = Some db' \<Longrightarrow> phone_ok db'"
    and "complete_command t i q d n db = Some db' \<Longrightarrow> phone_ok db'" and "complete_silent i q d n db = Some db' \<Longrightarrow> phone_ok db'"
    and "abandon_command code i q d db = Some db' \<Longrightarrow> phone_ok db'" and "fail_not_started i q d n db = Some db' \<Longrightarrow> phone_ok db'"
  unfolding begin_command_def fail_command_def interrupt_command_def complete_command_def complete_silent_def
    abandon_command_def fail_not_started_def
  by (erule update_keeps [OF ok]; auto simp: same_core_def unresolved_def)+

lemma prepare_command_keeps:
  assumes ok: "phone_ok db" and run: "prepare_command c0 db = Some db'"
  shows "phone_ok db'"
proof -
  define c where "c = c0\<lparr>gc_state := Cmd_Prepared, gc_epoch := 0, gc_failure := None, gc_response := None, gc_started := False, gc_finished := False\<rparr>"
  from run obtain room where room: "phone_room_of db (gc_room c) = Some room" "\<not> phr_demo room"
    and free: "\<not> list_ex (\<lambda>x. gc_room x = gc_room c \<and> unresolved x) (phone_commands db)" and row: "generation_row_ok c"
    and new: "\<not> list_ex (\<lambda>x. gc_id x = gc_id c \<or> gc_request x = gc_request c) (phone_commands db)"
    and db': "db' = db\<lparr>phone_commands := phone_commands db @ [c]\<rparr>"
    unfolding prepare_command_def Let_def c_def [symmetric] by (auto split: option.splits if_splits)
  have mem: "room \<in> set (phone_rooms db)" "phr_id room = gc_room c" using phone_room_of_Some [OF room(1)] by simp_all
  have open_c: "unresolved c" "\<not> completed_command c" by (simp_all add: c_def unresolved_def completed_command_def)
  have cmds: "room_commands db' r = room_commands db r @ (if gc_room c = r then [c] else [])" for r by (simp add: room_commands_def db')
  have log: "room_log db' r = room_log db r" for r by (simp add: room_log_def db')
  have "room_turns_ok db' room'" if m: "room' \<in> set (phone_rooms db)" for room'
  proof (cases "phr_id room' = gc_room c")
    case True
    then have "room' = room" using same_room [OF phone_okD(1) [OF ok] m mem(1)] mem(2) by simp
    then have live: "\<not> phr_demo room'" using room(2) by simp
    have "\<forall>x \<in> set (room_commands db (gc_room c)). \<not> unresolved x" using free by (auto simp: room_commands_def list_ex_iff)
    then have "resolved_before (room_commands db' (phr_id room'))" by (simp add: cmds True resolved_before_def)
    then show ?thesis
      using phone_okD(6) [OF ok m] live open_c(2) by (auto simp: room_turns_ok_def cmds True turns_snoc log)
  next
    case False
    with phone_okD(6) [OF ok m] show ?thesis by (simp add: room_turns_ok_def cmds log)
  qed
  moreover have "gc_room c \<in> phr_id ` set (phone_rooms db)" using mem by force
  ultimately show ?thesis
    using ok row new unfolding phone_ok_def list_all_iff by (auto simp: db' list_ex_iff)
qed

lemma create_room_keeps:
  assumes ok: "phone_ok db" and run: "create_room r title demo db = Some db'"
  shows "phone_ok db'"
proof -
  let ?room = "\<lparr>phr_id = r, phr_title = title, phr_status = Active, phr_demo = demo, phr_generation = 0, phr_next = 1\<rparr>"
  from run have new: "r \<notin> phr_id ` set (phone_rooms db)" and db': "db' = db\<lparr>phone_rooms := phone_rooms db @ [?room]\<rparr>"
    by (auto simp: create_room_def phone_room_of_None [symmetric] split: if_splits)
  have none: "room_commands db r = []" "room_log db r = []"
    using new phone_okD(5,7) [OF ok] by (auto simp: room_commands_def room_log_def filter_empty_conv)
  have same: "room_log db' r' = room_log db r'" "room_commands db' r' = room_commands db r'" for r' by (simp_all add: room_log_def room_commands_def db')
  have "room_turns_ok db' ?room" by (simp add: room_turns_ok_def same none turns_of_def resolved_before_def)
  moreover have "room_turns_ok db' room" if "room \<in> set (phone_rooms db)" for room
    using phone_okD(6) [OF ok that] by (simp add: room_turns_ok_def same)
  ultimately show ?thesis using ok new unfolding phone_ok_def list_all_iff by (auto simp: db')
qed

lemma demo_keeps:
  assumes ok: "phone_ok db" and run: "demo_turn r g source who turns state human director persona db = Some db'"
  shows "phone_ok db'"
proof -
  let ?es = "[(source, human), (Suc source, director), (Suc (Suc source), persona)]"
  obtain room row where room: "phone_room_of db r = Some room" and row: "phone_directors db r = Some row"
    using run by (auto simp: demo_turn_def split: option.splits)
  define db1 where "db1 = db\<lparr>phone_directors := (phone_directors db)(r \<mapsto> \<lparr>phd_state = Some state, phd_last_speaker = Some who,
                  phd_last_human = Some source, phd_turns = turns, phd_window = g\<rparr>)\<rparr>"
  from run room row have demo: "phr_demo room" and nxt: "phr_next room = source"
    and es: "Option.bind (insert_events r ?es db1) (delete_draft r) = Some db'"
    by (auto simp: demo_turn_def db1_def split: if_splits)
  have mem: "room \<in> set (phone_rooms db)" "phr_id room = r" using phone_room_of_Some [OF room] by simp_all
  have turns: "map fst (room_log db r) = [1..<source]" "1 \<le> source" "room_commands db r = []"
    using phone_okD(6) [OF ok mem(1)] demo by (simp_all add: room_turns_ok_def mem(2) nxt)
  have ins: "insert_events r ?es db1 = Some (pushed r ?es db1)"
  proof (rule insert_events_pushed [OF _ turns(2)])
    show "map fst (room_log db1 r) = [1..<source]" using turns(1) room_log_frame [of db1 db] by (simp add: db1_def)
    show "\<forall>x \<in> set (phone_rooms db1). phr_id x = r \<longrightarrow> phr_next x = source"
      using mem nxt same_room [OF phone_okD(1) [OF ok]] by (auto simp: db1_def)
    show "map fst ?es = [source..<source + length ?es]" by (simp add: upt_conv_Cons del: upt_Suc)
  qed
  have "delete_draft r (pushed r ?es db1) = Some db'" using es unfolding ins by simp
  then have db': "db' = (pushed r ?es db1)\<lparr>phone_drafts := (phone_drafts db1)(r := None)\<rparr>" by (auto simp: delete_draft_def pushed_def)
  have parts: "phone_rooms db' = map (advanced r 3) (phone_rooms db)" "phone_events db' = phone_events db @ map (Pair r) ?es"
    "phone_commands db' = phone_commands db" by (simp_all add: db' pushed_def db1_def)
  have log: "room_log db' r' = room_log db r' @ (if r' = r then ?es else [])" for r'
    by (simp add: room_log_def parts filter_map comp_def)
  have "room_turns_ok db' (advanced r 3 room')" if m: "room' \<in> set (phone_rooms db)" for room'
  proof (cases "phr_id room' = r")
    case True
    then have "room' = room" using same_room [OF phone_okD(1) [OF ok] m mem(1)] mem(2) by simp
    moreover have "[1..<source + 3] = [1..<source] @ [source, Suc source, Suc (Suc source)]"
      using upt_add_eq_append [OF turns(2), of 3] by (simp add: upt_conv_Cons)
    ultimately show ?thesis
      using phone_okD(6) [OF ok mem(1)] demo turns nxt
      by (simp add: room_turns_ok_def mem(2) log room_commands_frame [OF parts(3)])
  next
    case False
    with phone_okD(6) [OF ok m] show ?thesis by (simp add: room_turns_ok_def log room_commands_frame [OF parts(3)])
  qed
  then have "list_all (room_turns_ok db') (phone_rooms db')" by (simp add: parts(1) list_all_iff)
  moreover have ids: "map phr_id (phone_rooms db') = map phr_id (phone_rooms db)" by (simp add: parts(1))
  moreover from this have idset: "phr_id ` set (phone_rooms db') = phr_id ` set (phone_rooms db)" by (metis set_map)
  moreover have "fst e \<in> phr_id ` set (phone_rooms db)" if "e \<in> set (phone_events db')" for e
  proof -
    from that have "e \<in> set (phone_events db) \<or> fst e = phr_id room" by (auto simp: parts(2) mem(2))
    then show ?thesis by (elim disjE) (use phone_okD(7) [OF ok, of e] mem(1) in simp_all)
  qed
  ultimately show ?thesis
    using ok unfolding phone_ok_def parts(3) idset list_all_iff ids by blast
qed

lemma statements_keep: "phone_statement f \<Longrightarrow> phone_ok db \<Longrightarrow> f db = Some db' \<Longrightarrow> phone_ok db'"
proof (induction rule: phone_statement.induct)
  case (10 i r name order slug)
  then show ?case by (auto simp: create_participant_def split: if_splits intro: turns_ok_frame)
next
  case (11 r)
  then show ?case by (auto simp: create_director_def split: if_splits intro: turns_ok_frame)
next
  case (12 r)
  then show ?case by (auto simp: select_phone_room_def split: if_splits intro: turns_ok_frame)
next
  case (13 r t)
  then show ?case by (auto simp: save_draft_def split: if_splits intro: turns_ok_frame)
next
  case (14 r)
  then show ?case by (auto simp: delete_draft_def intro: turns_ok_frame)
qed (blast intro: command_statements_keep prepare_command_keeps create_room_keeps demo_keeps)+

lemma phone_step_keeps: "phone_step db db' \<Longrightarrow> phone_ok db \<Longrightarrow> phone_ok db'"
  by (induction rule: phone_step.induct) (auto intro: statements_keep activation_keeps turns_ok_frame)

lemma steps_keep: "phone_steps db db' \<Longrightarrow> phone_ok db \<Longrightarrow> phone_ok db'"
  by (induction rule: phone_steps.induct) (auto intro: phone_step_keeps)

lemma empty_ok: "phone_ok empty_phone"
  by (simp add: phone_ok_def empty_phone_def)

section \<open>What a step does\<close>

text \<open>An update of a command changes that command and, when it completes it, commits its turn.\<close>

definition commits :: "generation_command \<Rightarrow> phone_db \<Rightarrow> phone_db \<Rightarrow> bool" where
  "commits c db db' \<longleftrightarrow> completion_fenced c db \<and>
     (\<exists>k \<ge> 2. phone_rooms db' = map (advanced (gc_room c) k) (phone_rooms db)) \<and>
     (phone_directors db' = phone_directors db \<or>
      (\<exists>row'. phone_directors db' = (phone_directors db)(gc_room c \<mapsto> row') \<and> phd_state row' = Some (gc_snapshot c)))"

lemma turn_length: "2 \<le> length (turn_of c)"
  by (simp add: turn_of_def)

lemma update_effect:
  assumes ok: "phone_ok db" and run: "update_command i P f db = Some db'"
    and P: "\<And>c. P c \<Longrightarrow> unresolved c \<and> same_core c (f c)"
  shows "\<exists>c \<in> set (phone_commands db). unresolved c \<and> same_core c (f c) \<and> phone_commands db' = map (replaced (f c)) (phone_commands db) \<and>
    phone_people db' = phone_people db \<and>
    ((phone_rooms db' = phone_rooms db \<and> phone_directors db' = phone_directors db) \<or> commits c db db')"
proof -
  from run obtain c where c: "command_of db i = Some c" "P c"
    by (auto simp: update_command_def split: option.splits if_splits)
  have mem: "c \<in> set (phone_commands db)" using command_of_Some [OF c(1)] by simp
  note uc = P [OF c(2)]
  have state: "gc_state c \<noteq> Cmd_Completed" using uc by (simp add: unresolved_iff)
  have "phone_commands db' = phone_commands (store_command (f c) db) \<and> phone_people db' = phone_people db \<and>
    ((phone_rooms db' = phone_rooms db \<and> phone_directors db' = phone_directors db) \<or> commits c db db')"
  proof (cases "completed_command (f c)")
    case True
    with run c state have fence: "completion_fenced c db" and commit: "commit_room (f c) (store_command (f c) db) = Some db'"
      by (auto simp: update_command_def completed_command_def split: if_splits)
    from commit_room_ok [OF ok mem conjunct2 [OF uc] fence commit] obtain db1 where db1: "director_committed (f c) (store_command (f c) db) db1"
      "db' = (pushed (gc_room c) (turn_of (f c)) db1)\<lparr>phone_drafts := (phone_drafts db1)(gc_room c := None)\<rparr>" by blast
    have core: "gc_room (f c) = gc_room c" "gc_snapshot (f c) = gc_snapshot c" using uc by (simp_all add: same_core_def)
    have "commits c db db'"
      unfolding commits_def using db1 fence turn_length [of "f c"] core
      by (auto simp: director_committed_def pushed_def split: option.splits)
    then show ?thesis using db1 by (auto simp: director_committed_def pushed_def)
  next
    case False
    with run c show ?thesis by (auto simp: update_command_def completed_command_def split: if_splits)
  qed
  then show ?thesis using mem uc by (auto simp: store_command_replaced)
qed

lemma demo_effect:
  assumes ok: "phone_ok db" and run: "demo_turn r g source who turns state human director persona db = Some db'"
  shows "\<exists>room row. phone_room_of db r = Some room \<and> phr_next room = source \<and> phone_rooms db' = map (advanced r 3) (phone_rooms db) \<and>
    phone_directors db' = (phone_directors db)(r \<mapsto> row) \<and> phd_state row = Some state \<and> phone_people db' = phone_people db \<and>
    phone_commands db' = phone_commands db"
proof -
  let ?es = "[(source, human), (Suc source, director), (Suc (Suc source), persona)]"
  obtain room row where room: "phone_room_of db r = Some room" and row: "phone_directors db r = Some row"
    using run by (auto simp: demo_turn_def split: option.splits)
  define db1 where "db1 = db\<lparr>phone_directors := (phone_directors db)(r \<mapsto> \<lparr>phd_state = Some state, phd_last_speaker = Some who,
                  phd_last_human = Some source, phd_turns = turns, phd_window = g\<rparr>)\<rparr>"
  from run room row have nxt: "phr_next room = source" and es: "Option.bind (insert_events r ?es db1) (delete_draft r) = Some db'"
    by (auto simp: demo_turn_def db1_def split: if_splits)
  have mem: "room \<in> set (phone_rooms db)" "phr_id room = r" using phone_room_of_Some [OF room] by simp_all
  have turns: "map fst (room_log db r) = [1..<source]" "1 \<le> source"
    using phone_okD(6) [OF ok mem(1)] by (simp_all add: room_turns_ok_def mem(2) nxt)
  have ins: "insert_events r ?es db1 = Some (pushed r ?es db1)"
  proof (rule insert_events_pushed [OF _ turns(2)])
    show "map fst (room_log db1 r) = [1..<source]" using turns(1) room_log_frame [of db1 db] by (simp add: db1_def)
    show "\<forall>x \<in> set (phone_rooms db1). phr_id x = r \<longrightarrow> phr_next x = source"
      using mem nxt same_room [OF phone_okD(1) [OF ok]] by (auto simp: db1_def)
    show "map fst ?es = [source..<source + length ?es]" by (simp add: upt_conv_Cons del: upt_Suc)
  qed
  have "delete_draft r (pushed r ?es db1) = Some db'" using es unfolding ins by simp
  then have "db' = (pushed r ?es db1)\<lparr>phone_drafts := (phone_drafts db1)(r := None)\<rparr>" by (auto simp: delete_draft_def pushed_def)
  then show ?thesis using room nxt by (auto simp: pushed_def db1_def eval_nat_numeral)
qed

end
