(* ===== verification/Json_Text.thy ===== *)
theory Json_Text
  imports Event_Stream
begin

text \<open>
  What \<open>JSON.stringify\<close> writes is read back by \<open>JSON.parse\<close>, and the bytes that \<open>TextEncoder\<close> makes of a text.
\<close>

lemma stringify_parses: "json_ok v \<Longrightarrow> parses v (stringify v)"
proof (induction v rule: stringify.induct)
  case 1
  have "parses JNull ''null''"
    by (rule parses_leaf) (auto simp: token_start_def json_space_def skip_ws_def parse_keyword_def)
  then show ?case by simp
next
  case (2 b)
  from canonicalize_parses [OF this] show ?case by simp
next
  case (3 n)
  from canonicalize_parses [OF this] 3 show ?case by simp
next
  case (4 s)
  from canonicalize_parses [OF this] show ?case by simp
next
  case (5 xs)
  then have "list_all2 parses xs (map stringify xs)" by (simp add: list_all2_map2 list.rel_refl_strong)
  from parses_array [OF this] show ?case by simp
next
  case (6 fs)
  have "list_all2 entry_parses fs (map (\<lambda>p. json_string (fst p) @ '':'' @ stringify (snd p)) fs)"
    using 6 by (auto simp: list_all2_map2 entry_parses_def intro!: list.rel_refl_strong)
  from parses_object [OF this] 6(2) show ?case by simp
qed simp_all

lemma parse_stringify: "json_ok v \<Longrightarrow> json_parse (stringify v) = Some v"
proof -
  assume "json_ok v"
  then have "parses v (stringify v)" by (rule stringify_parses)
  moreover have "number_end []" by (simp add: number_end_def)
  ultimately have "parse_value (Suc (length (stringify v))) (stringify v) = Some (v, [])"
    unfolding parses_def by (metis append_Nil2 le_SucI le_refl)
  then show ?thesis by (simp add: json_parse_def skip_ws_def)
qed

text \<open>\<open>new TextEncoder().encode(s)\<close> of a Latin-1 string.\<close>

definition utf8_char :: "char \<Rightarrow> nat list" where
  "utf8_char c = (let n = (of_char c :: nat) in if n < 128 then [n] else [192 + n div 64, 128 + n mod 64])"

definition utf8_encode :: "string \<Rightarrow> nat list" where
  "utf8_encode s = concat (map utf8_char s)"

lemma length_utf8_encode [simp]: "length (utf8_encode s) = utf8_length s"
  unfolding utf8_encode_def utf8_length_def by (induction s) (simp_all add: utf8_char_def Let_def)

lemma utf8_length_append [simp]: "utf8_length (s @ t) = utf8_length s + utf8_length t"
  by (simp add: utf8_length_def)

end
