(* ===== verification/Phone_Bridge.thy ===== *)
theory Phone_Bridge
  imports Phone_Native Json_Text
begin

text \<open>
  How the phone's runtime (\<open>ios-web/room-runtime.js\<close>) reaches the native database: the calls over the
  bridge with their size limits, the reviewed queries and what the runtime checks of their rows. The
  size that the native serialiser gives a result is a parameter (\<open>fits\<close>); the personas and providers
  of the bundle are data (\<open>app_bundle\<close>).
\<close>

section \<open>Errors\<close>

datatype phone_error = Thrown js_error | NativeBridgeError string bool

type_synonym 'a native = "phone_db \<Rightarrow> (phone_error + 'a) \<times> phone_db"

definition returnN :: "'a \<Rightarrow> 'a native" where
  "returnN x db = (Inr x, db)"

definition throwN :: "phone_error \<Rightarrow> 'a native" where
  "throwN e db = (Inl e, db)"

definition bindN :: "'a native \<Rightarrow> ('a \<Rightarrow> 'b native) \<Rightarrow> 'b native" where
  "bindN m f db = (case m db of (Inl e, db') \<Rightarrow> (Inl e, db') | (Inr x, db') \<Rightarrow> f x db')"

definition liftN :: "phone_error + 'a \<Rightarrow> 'a native" where
  "liftN r db = (r, db)"

definition requireN :: "bool \<Rightarrow> phone_error \<Rightarrow> unit native" where
  "requireN b e = (if b then returnN () else throwN e)"

text \<open>A synchronous call of modelled code that may throw.\<close>

definition thrown :: "js_error + 'a \<Rightarrow> phone_error + 'a" where
  "thrown r = (case r of Inl e \<Rightarrow> Inl (Thrown e) | Inr x \<Rightarrow> Inr x)"

lemma thrown_simps [simp]: "thrown (Inl e) = Inl (Thrown e)" "thrown (Inr x) = Inr x" "thrown r = Inr x \<longleftrightarrow> r = Inr x"
  by (auto simp: thrown_def split: sum.splits)

definition plain :: "string \<Rightarrow> phone_error" where
  "plain message = Thrown (PlainError message)"

lemma native_ok [simp]:
  "returnN x1 db = (Inr y1, db') \<longleftrightarrow> y1 = x1 \<and> db' = db"
  "throwN e db \<noteq> (Inr y2, db')"
  "liftN r db = (Inr y3, db') \<longleftrightarrow> r = Inr y3 \<and> db' = db"
  "requireN b e db = (Inr u, db') \<longleftrightarrow> b \<and> db' = db"
  by (auto simp: returnN_def throwN_def liftN_def requireN_def)

lemma bindN_ok [simp]: "bindN m f db = (Inr y, db') \<longleftrightarrow> (\<exists>x db1. m db = (Inr x, db1) \<and> f x db1 = (Inr y, db'))"
  by (auto simp: bindN_def split: sum.splits prod.splits)

lemma native_run:
  "bindN (returnN x) f1 db = f1 x db"
  "bindN (throwN e) f2 db = (Inl e, db)"
  "bindN (requireN b e) f5 db = (if b then f5 () db else (Inl e, db))"
  "bindN (liftN r) f7 db = (case r of Inl e \<Rightarrow> (Inl e, db) | Inr z \<Rightarrow> f7 z db)"
  by (auto simp: bindN_def returnN_def throwN_def requireN_def liftN_def split: sum.splits)

text \<open>\<open>exactRecord\<close>\<close>

fun exactRecord :: "jval \<Rightarrow> string list \<Rightarrow> bool" where
  "exactRecord (JObj fs) ks \<longleftrightarrow> js_join nul (sort (map fst fs)) = js_join nul (sort ks)"
| "exactRecord _ ks \<longleftrightarrow> False"

fun jlist :: "jval \<Rightarrow> jval list option" where
  "jlist (JArr xs) = Some xs"
| "jlist _ = None"

section \<open>The bundle\<close>

record phone_persona =
  pp_slug :: string
  pp_name :: string
  pp_prompt :: string

record app_bundle =
  bu_personas :: "phone_persona list"
  bu_providers :: "string list"

definition catalog_of :: "app_bundle \<Rightarrow> jval \<Rightarrow> phone_persona option" where
  "catalog_of bu v = find (\<lambda>p. JStr (pp_slug p) = v) (bu_personas bu)"

section \<open>Calls\<close>

definition MAX_CAST :: nat where "MAX_CAST = 3"
definition MAX_EVENT_PAGE :: nat where "MAX_EVENT_PAGE = 100"
definition MAX_BRIDGE_BYTES :: nat where "MAX_BRIDGE_BYTES = 262144"
definition MAX_PROVIDER_MESSAGE_BYTES :: nat where "MAX_PROVIDER_MESSAGE_BYTES = 65536"
definition MAX_PROVIDER_MESSAGES :: nat where "MAX_PROVIDER_MESSAGES = 32"

definition NATIVE_FAILURE_CODES :: "string list" where
  "NATIVE_FAILURE_CODES =
     [''invalid_call'', ''incompatible_contract'', ''database_locked'', ''database_unavailable'',
      ''migration_rejected'', ''transaction_rejected'', ''result_too_large'', ''provider_consent_required'', ''credential_unavailable'',
      ''credential_missing'', ''credential_write_failed'', ''offline'', ''provider_unreachable'',
      ''provider_rejected'', ''invalid_response'', ''response_too_large'', ''timeout'',
      ''capacity_rejected'', ''canceled'', ''internal_failure'']"

definition encodedBytes :: "jval \<Rightarrow> nat" where
  "encodedBytes v = utf8_length (case v of JStr s \<Rightarrow> s | _ \<Rightarrow> stringify v)"

text \<open>The id of a call is a random UUID; nothing depends on its value.\<close>

definition call_id :: string where
  "call_id = ''00000000-0000-4000-8000-000000000000''"

definition bridge_request :: "string \<Rightarrow> jval \<Rightarrow> jval" where
  "bridge_request method payload = JObj [(''contractVersion'', JStr ''iphone-native-bridge/1.0''), (''callId'', JStr call_id),
     (''method'', JStr method), (''payload'', payload)]"

definition bridge_response :: "jval \<Rightarrow> jval" where
  "bridge_response v = JObj [(''callId'', JStr call_id), (''ok'', JBool True), (''value'', v)]"

definition bridge_failure :: "string \<times> bool \<Rightarrow> phone_error" where
  "bridge_failure e = (if fst e \<in> set NATIVE_FAILURE_CODES then NativeBridgeError (fst e) (snd e) else NativeBridgeError ''internal_failure'' False)"

definition invoke :: "string \<Rightarrow> jval \<Rightarrow> (phone_db \<Rightarrow> ((string \<times> bool) + jval) \<times> phone_db) \<Rightarrow> jval native" where
  "invoke method payload plugin db =
     (if encodedBytes (bridge_request method payload) > MAX_BRIDGE_BYTES
      then (Inl (plain ''Native room database failed: invalid_call''), db)
      else (case plugin db of
          (Inl e, db') \<Rightarrow> (Inl (bridge_failure e), db')
        | (Inr v, db') \<Rightarrow>
            if encodedBytes (bridge_response v) > MAX_BRIDGE_BYTES then (Inl (plain ''Native room database failed: result_too_large''), db')
            else (Inr v, db')))"

section \<open>Native queries\<close>

definition mode_name :: "bool \<Rightarrow> string" where
  "mode_name demo = (if demo then ''review_demo'' else ''provider'')"

definition participant_json :: "phone_person \<Rightarrow> jval" where
  "participant_json p = JObj [(''id'', JStr (php_id p)), (''kind'', JStr (if php_slug p = None then ''human'' else ''persona'')),
     (''displayName'', JStr (php_name p)), (''muted'', JBool (php_muted p)), (''sortOrder'', JInt (int (php_order p))),
     (''personaSlug'', opt_jstr (php_slug p))]"

definition room_json :: "phone_db \<Rightarrow> phone_room \<Rightarrow> jval" where
  "room_json db room = JObj [(''id'', JStr (phr_id room)), (''title'', JStr (phr_title room)), (''status'', JStr (status_name (phr_status room))),
     (''inferenceMode'', JStr (mode_name (phr_demo room))), (''generation'', JInt (int (phr_generation room))),
     (''participants'', JArr (map participant_json (room_people db (phr_id room))))]"

definition event_record :: "nat \<times> jval \<Rightarrow> jval" where
  "event_record e = JObj [(''sequence'', JInt (int (fst e))), (''event'', snd e)]"

definition recent_events :: "phone_db \<Rightarrow> string \<Rightarrow> (nat \<times> jval) list" where
  "recent_events db r = (let log = sort_key fst (room_log db r) in drop (length log - MAX_EVENT_PAGE) log)"

definition context_persona_json :: "phone_person \<Rightarrow> jval" where
  "context_persona_json p = JObj [(''id'', JStr (php_id p)), (''personaSlug'', opt_jstr (php_slug p)), (''displayName'', JStr (php_name p)),
     (''muted'', JBool (php_muted p)), (''sortOrder'', JInt (int (php_order p)))]"

definition room_personas :: "phone_db \<Rightarrow> string \<Rightarrow> phone_person list" where
  "room_personas db r = filter (\<lambda>p. php_slug p \<noteq> None) (room_people db r)"

definition director_context_json :: "phone_db \<Rightarrow> phone_room \<Rightarrow> phone_director \<Rightarrow> jval" where
  "director_context_json db room row = JObj [(''roomId'', JStr (phr_id room)), (''generation'', JInt (int (phr_generation room))),
     (''nextEventSequence'', JInt (int (phr_next room))), (''state'', (case phd_state row of None \<Rightarrow> JNull | Some s \<Rightarrow> s)),
     (''personas'', JArr (map context_persona_json (room_personas db (phr_id room))))]"

definition selection_json :: "phone_selection \<Rightarrow> jval" where
  "selection_json s = JObj [(''providerId'', JStr (phs_provider s)), (''profileId'', JStr (phs_profile s)),
     (''profileRevision'', JInt (int (phs_revision s))), (''model'', JStr (phs_model s))]"

definition profile_rows :: "phone_settings \<Rightarrow> string \<Rightarrow> jval list" where
  "profile_rows st profile =
     concat (map (\<lambda>(p, n, provider, _).
         if p = profile \<and> list_all (\<lambda>(p', n', _). p' = profile \<longrightarrow> n' \<le> n) (ps_profiles st)
         then map (\<lambda>c. JObj [(''providerId'', JStr provider), (''profileId'', JStr p), (''profileRevision'', JInt (int n)),
                 (''mutationId'', JStr (phc_mutation c)), (''state'', JStr (phc_state c)), (''tombstoned'', JBool (phc_tombstoned c))])
               (filter (\<lambda>c. phc_profile c = p \<and> phc_revision c = n \<and> phc_provider c = provider) (ps_credentials st))
         else []) (ps_profiles st))"

fun state_name :: "command_state \<Rightarrow> string" where
  "state_name Cmd_Prepared = ''prepared''"
| "state_name Cmd_In_Flight = ''in_flight''"
| "state_name Cmd_Failed = ''failed''"
| "state_name Cmd_Interrupted = ''interrupted''"
| "state_name Cmd_Completed = ''completed''"
| "state_name Cmd_Abandoned = ''abandoned''"

definition unresolved_json :: "generation_command \<Rightarrow> jval" where
  "unresolved_json c = JObj [(''commandId'', JStr (gc_id c)), (''requestId'', JStr (gc_request c)), (''roomId'', JStr (gc_room c)),
     (''requestDigest'', JStr (gc_digest c)), (''requestPlan'', gc_plan c), (''state'', JStr (state_name (gc_state c))),
     (''attemptEpoch'', JInt (int (gc_epoch c))), (''failureCode'', opt_jstr (gc_failure c)), (''personaSlug'', opt_jstr (gc_slug c))]"

definition resolved_json :: "generation_command \<Rightarrow> jval" where
  "resolved_json c = JObj [(''commandId'', JStr (gc_id c)), (''requestId'', JStr (gc_request c)), (''roomId'', JStr (gc_room c)),
     (''requestDigest'', JStr (gc_digest c)), (''state'', JStr (state_name (gc_state c))),
     (''attemptEpoch'', JInt (int (gc_epoch c))), (''failureCode'', opt_jstr (gc_failure c)), (''responseText'', opt_jstr (gc_response c))]"

definition query_rows :: "string \<Rightarrow> string list \<Rightarrow> phone_db \<Rightarrow> (string \<times> jval list) option" where
  "query_rows sqlId params db =
     (let room_row = (\<lambda>r. case phone_room_of db r of None \<Rightarrow> [] | Some room \<Rightarrow> [room_json db room]) in
      case params of
        [] \<Rightarrow>
          if sqlId = ''current_room'' then Some (''room_json'', case phone_current db of None \<Rightarrow> [] | Some r \<Rightarrow> room_row r)
          else if sqlId = ''provider_selection''
          then Some (''provider_selection_json'', case ps_selection (phone_settings db) of None \<Rightarrow> [] | Some s \<Rightarrow> [selection_json s])
          else None
      | [x] \<Rightarrow>
          if sqlId = ''room_by_id'' then Some (''room_json'', room_row x)
          else if sqlId = ''room_events'' then Some (''event_record_json'', map event_record (recent_events db x))
          else if sqlId = ''director_context''
          then Some (''director_context_json'',
                 case (phone_room_of db x, phone_directors db x) of (Some room, Some row) \<Rightarrow> [director_context_json db room row] | _ \<Rightarrow> [])
          else if sqlId = ''provider_profile'' then Some (''provider_profile_json'', profile_rows (phone_settings db) x)
          else if sqlId = ''local_draft''
          then Some (''local_draft_json'', case phone_drafts db x of None \<Rightarrow> [] | Some t \<Rightarrow> [JObj [(''roomId'', JStr x), (''text'', JStr t)]])
          else if sqlId = ''unresolved_generation_command''
          then Some (''generation_command_json'', map unresolved_json (filter (\<lambda>c. gc_room c = x \<and> unresolved c) (phone_commands db)))
          else if sqlId = ''generation_command_by_id''
          then Some (''generation_command_json'', map resolved_json (filter (\<lambda>c. gc_id c = x) (phone_commands db)))
          else None
      | _ \<Rightarrow> None)"

definition provider_only :: "string list" where
  "provider_only = [''provider_selection'', ''provider_profile'', ''unresolved_generation_command'', ''generation_command_by_id'',
     ''prepare_generation_command'', ''fail_generation_command'', ''interrupt_generation_command'',
     ''complete_generation_command'', ''complete_silent_generation_command'', ''abandon_generation_command'']"

definition current_demo :: "phone_db \<Rightarrow> bool" where
  "current_demo db = (case Option.bind (phone_current db) (phone_room_of db) of None \<Rightarrow> False | Some room \<Rightarrow> phr_demo room)"

definition rows_json :: "string \<Rightarrow> jval list \<Rightarrow> jval" where
  "rows_json column vs = JObj [(''columns'', JArr [JStr column]), (''rows'', JArr (map (\<lambda>v. JArr [JStr (stringify v)]) vs))]"

definition native_query :: "(jval \<Rightarrow> bool) \<Rightarrow> string \<Rightarrow> string list \<Rightarrow> phone_db \<Rightarrow> ((string \<times> bool) + jval) \<times> phone_db" where
  "native_query fits sqlId params db =
     (if current_demo db \<and> sqlId \<in> set provider_only then Inl (''database_unavailable'', False)
      else (case query_rows sqlId params db of
          None \<Rightarrow> Inl (''invalid_call'', False)
        | Some (column, vs) \<Rightarrow> if fits (rows_json column vs) then Inr (rows_json column vs) else Inl (''result_too_large'', False)), db)"

definition queryN :: "(jval \<Rightarrow> bool) \<Rightarrow> string \<Rightarrow> string list \<Rightarrow> jval native" where
  "queryN fits sqlId params =
     invoke ''database.query'' (JObj [(''sqlId'', JStr sqlId), (''parameters'', JArr (map JStr params))]) (native_query fits sqlId params)"

section \<open>Batches\<close>

text \<open>
  A statement is its id, its parameters (only their size matters here) and what it does. A batch has a
  transaction id of its own, so the replay of an earlier batch with the same id does not happen. The
  runtime does not read the number of changes that a batch returns; here it is that of its statements.
\<close>

type_synonym statement = "string \<times> jval list \<times> (phone_db \<Rightarrow> phone_db option)"

definition run_statements :: "(phone_db \<Rightarrow> phone_db option) list \<Rightarrow> phone_db \<Rightarrow> phone_db option" where
  "run_statements fs db = foldl Option.bind (Some db) fs"

definition native_batch :: "statement list \<Rightarrow> phone_db \<Rightarrow> ((string \<times> bool) + jval) \<times> phone_db" where
  "native_batch sts db =
     (if current_demo db \<and> list_ex (\<lambda>s. fst s \<in> set provider_only) sts then (Inl (''database_unavailable'', False), db)
      else (case run_statements (map (\<lambda>s. snd (snd s)) sts) db of
          None \<Rightarrow> (Inl (''transaction_rejected'', False), db)
        | Some db' \<Rightarrow> (Inr (JObj [(''changes'', JInt (int (length sts)))]), db')))"

definition batch_payload :: "string \<Rightarrow> statement list \<Rightarrow> jval" where
  "batch_payload tid sts = JObj [(''transactionId'', JStr tid),
     (''statements'', JArr (map (\<lambda>s. JObj [(''sqlId'', JStr (fst s)), (''parameters'', JArr (fst (snd s)))]) sts))]"

definition batchN :: "string \<Rightarrow> statement list \<Rightarrow> jval native" where
  "batchN tid sts = invoke ''database.executeBatch'' (batch_payload tid sts) (native_batch sts)"

end
