(* ===== verification/Phone_Reads.thy ===== *)
theory Phone_Reads
  imports Phone_Bridge
begin

text \<open>
  What the runtime of the phone accepts from the native database (\<open>ios-web/room-runtime.js\<close>): the
  parsers of rooms, events, the director's context, drafts, provider selections, profiles and
  generation commands, and the functions that read them. \<open>JNull\<close> is the \<open>null\<close> of a missing row.
\<close>

section \<open>Rows\<close>

definition parse_json :: "string \<Rightarrow> phone_error + jval" where
  "parse_json t = (case json_parse t of None \<Rightarrow> Inl (plain ''SyntaxError'') | Some v \<Rightarrow> Inr v)"

text \<open>\<open>row?.[0]\<close>\<close>

fun first_cell :: "jval \<Rightarrow> jval" where
  "first_cell (JArr (x # xs)) = x"
| "first_cell _ = JUndefined"

definition result_rows :: "jval \<Rightarrow> jval list option" where
  "result_rows v = (if exactRecord v [''columns'', ''rows''] then jlist (jget ''rows'' v) else None)"

lemma result_rows_rows [simp]: "result_rows (rows_json column vs) = Some (map (\<lambda>v. JArr [JStr (stringify v)]) vs)"
  by (simp add: result_rows_def rows_json_def)

fun room_id_ok :: "jval \<Rightarrow> bool" where
  "room_id_ok (JStr s) \<longleftrightarrow> s = ''room-local-default'' \<or>
     (take 5 s = ''room-'' \<and> length s = 41 \<and> list_all (\<lambda>c. lower_hex c \<or> c = CHR ''-'') (drop 5 s))"
| "room_id_ok _ \<longleftrightarrow> False"

fun uuid_ok :: "jval \<Rightarrow> bool" where
  "uuid_ok (JStr s) \<longleftrightarrow> is_uuid s"
| "uuid_ok _ \<longleftrightarrow> False"

definition safe_nat :: "jval \<Rightarrow> bool" where
  "safe_nat v \<longleftrightarrow> jsafe_nonneg v \<noteq> None"

definition safe_pos :: "jval \<Rightarrow> bool" where
  "safe_pos v \<longleftrightarrow> (case jsafe_nonneg v of None \<Rightarrow> False | Some n \<Rightarrow> 1 \<le> n)"

fun is_string :: "jval \<Rightarrow> bool" where
  "is_string (JStr s) \<longleftrightarrow> True"
| "is_string _ \<longleftrightarrow> False"

section \<open>Rooms\<close>

definition participants_of :: "jval \<Rightarrow> jval list" where
  "participants_of room = (case jlist (jget ''participants'' room) of None \<Rightarrow> [] | Some ps \<Rightarrow> ps)"

definition of_kind :: "string \<Rightarrow> jval list \<Rightarrow> jval list" where
  "of_kind k ps = filter (\<lambda>p. jget ''kind'' p = JStr k) ps"

definition persona_known :: "app_bundle \<Rightarrow> jval \<Rightarrow> bool" where
  "persona_known bu p \<longleftrightarrow>
     (case catalog_of bu (jget ''personaSlug'' p) of
        None \<Rightarrow> False
      | Some persona \<Rightarrow> jget ''id'' p = jget ''personaSlug'' p \<and> jget ''displayName'' p = JStr (pp_name persona))"

definition room_shape :: "jval \<Rightarrow> bool" where
  "room_shape room \<longleftrightarrow>
     exactRecord room [''generation'', ''id'', ''inferenceMode'', ''participants'', ''status'', ''title''] \<and>
     room_id_ok (jget ''id'' room) \<and> jget ''status'' room = JStr ''active'' \<and> safe_nat (jget ''generation'' room) \<and>
     jget ''inferenceMode'' room \<in> {JStr ''provider'', JStr ''review_demo''} \<and>
     (case jget ''title'' room of JStr t \<Rightarrow> 1 \<le> length t \<and> length t \<le> 128 | _ \<Rightarrow> False) \<and>
     (case jlist (jget ''participants'' room) of None \<Rightarrow> False | Some ps \<Rightarrow> 2 \<le> length ps \<and> length ps \<le> 4)"

definition cast_shape :: "app_bundle \<Rightarrow> jval \<Rightarrow> bool" where
  "cast_shape bu room \<longleftrightarrow>
     (let humans = of_kind ''human'' (participants_of room); cast = of_kind ''persona'' (participants_of room) in
      length humans = 1 \<and> 1 \<le> length cast \<and> length cast \<le> MAX_CAST \<and> list_all (persona_known bu) cast \<and>
      distinct (map (jget ''personaSlug'') cast))"

definition parseRoom :: "app_bundle \<Rightarrow> jval \<Rightarrow> phone_error + jval" where
  "parseRoom bu v =
     (let invalid = Inl (plain ''Invalid local room projection.'') in
      case result_rows v of
        None \<Rightarrow> invalid
      | Some [] \<Rightarrow> Inr JNull
      | Some [row] \<Rightarrow>
          (case first_cell row of
             JStr encoded \<Rightarrow>
               if length encoded > 65536 then invalid
               else bindE (parse_json encoded) (\<lambda>room.
                 if \<not> room_shape room then invalid
                 else if \<not> cast_shape bu room then Inl (plain ''Invalid local room cast.'')
                 else Inr room)
           | _ \<Rightarrow> invalid)
      | _ \<Rightarrow> invalid)"

definition readCurrentPhoneRoom :: "(jval \<Rightarrow> bool) \<Rightarrow> app_bundle \<Rightarrow> jval native" where
  "readCurrentPhoneRoom fits bu = bindN (queryN fits ''current_room'' []) (\<lambda>v. liftN (parseRoom bu v))"

definition readRoomById :: "(jval \<Rightarrow> bool) \<Rightarrow> app_bundle \<Rightarrow> string \<Rightarrow> jval native" where
  "readRoomById fits bu r = bindN (queryN fits ''room_by_id'' [r]) (\<lambda>v. liftN (parseRoom bu v))"

definition parseSingleJsonRow :: "string \<Rightarrow> string \<Rightarrow> jval \<Rightarrow> phone_error + jval" where
  "parseSingleJsonRow column label v =
     (let invalid = Inl (plain (''Invalid '' @ label @ '' projection.'')) in
      case result_rows v of
        None \<Rightarrow> invalid
      | Some rows \<Rightarrow>
          if first_cell (jget ''columns'' v) \<noteq> JStr column \<or> length rows > 1 then invalid
          else (case rows of
              [] \<Rightarrow> Inr JNull
            | row # _ \<Rightarrow>
                (case first_cell row of
                   JStr encoded \<Rightarrow> if utf8_length encoded > MAX_BRIDGE_BYTES then invalid else parse_json encoded
                 | _ \<Rightarrow> invalid)))"

section \<open>Events\<close>

definition director_reasons :: "string list" where
  "director_reasons = map reason_name [Selected, Directed, Cancelled, Unverified_Event, Duplicate, Self_Trigger_Blocked,
     Budget_Exhausted, Deliberate_Silence, No_Persona, No_Eligible_Persona, Cooldown]"

definition event_error :: phone_error where
  "event_error = plain ''Invalid local event projection.''"

definition human_event_ok :: "jval \<Rightarrow> bool" where
  "human_event_ok event \<longleftrightarrow> exactRecord event [''participantId'', ''text'', ''type''] \<and> is_string (jget ''participantId'' event) \<and>
     (case jget ''text'' event of JStr t \<Rightarrow> 1 \<le> length t \<and> length t \<le> 16384 | _ \<Rightarrow> False)"

definition director_event_ok :: "app_bundle \<Rightarrow> nat \<Rightarrow> jval \<Rightarrow> bool" where
  "director_event_ok bu sequence event \<longleftrightarrow>
     exactRecord event [''generation'', ''reason'', ''sourceEventSequence'', ''speaker'', ''type''] \<and>
     safe_nat (jget ''generation'' event) \<and> safe_pos (jget ''sourceEventSequence'' event) \<and>
     (case jsafe_nonneg (jget ''sourceEventSequence'' event) of None \<Rightarrow> False | Some s \<Rightarrow> s < sequence) \<and>
     jget ''reason'' event \<in> set (map JStr director_reasons) \<and>
     (jget ''speaker'' event = JNull \<or> catalog_of bu (jget ''speaker'' event) \<noteq> None)"

definition persona_event_ok :: "app_bundle \<Rightarrow> jval \<Rightarrow> bool" where
  "persona_event_ok bu event \<longleftrightarrow>
     exactRecord event [''generation'', ''personaSlug'', ''sourceEventSequence'', ''text'', ''type''] \<and>
     safe_nat (jget ''generation'' event) \<and> safe_pos (jget ''sourceEventSequence'' event) \<and>
     catalog_of bu (jget ''personaSlug'' event) \<noteq> None \<and>
     (case jget ''text'' event of JStr t \<Rightarrow> js_trim t \<noteq> [] \<and> utf8_length t \<le> 16384 | _ \<Rightarrow> False)"

definition parseEvent :: "app_bundle \<Rightarrow> jval \<Rightarrow> nat option \<Rightarrow> phone_error + jval" where
  "parseEvent bu record expected =
     (let event = jget ''event'' record in
      case jsafe_nonneg (jget ''sequence'' record) of
        None \<Rightarrow> Inl event_error
      | Some n \<Rightarrow>
          if \<not> exactRecord record [''event'', ''sequence''] \<or> expected \<noteq> Some n \<or> n < 1 then Inl event_error
          else if (if jget ''type'' event = JStr ''human_message'' then human_event_ok event
                   else if jget ''type'' event = JStr ''director_decision'' then director_event_ok bu n event
                   else if jget ''type'' event = JStr ''persona_message'' then persona_event_ok bu event
                   else False)
          then Inr record else Inl event_error)"

text \<open>
  The rows of a page; \<open>expected\<close> is the sequence of the next row, None at the first one, which sets it.
\<close>

fun parseEventRows :: "app_bundle \<Rightarrow> nat option \<Rightarrow> jval list \<Rightarrow> phone_error + jval list" where
  "parseEventRows bu expected [] = Inr []"
| "parseEventRows bu expected (row # rows) =
     (case first_cell row of
        JStr encoded \<Rightarrow>
          if length encoded > 20000 then Inl event_error
          else bindE (parse_json encoded) (\<lambda>record.
            let n = (case expected of None \<Rightarrow> jsafe_nonneg (jget ''sequence'' record) | Some m \<Rightarrow> Some m) in
            bindE (parseEvent bu record n) (\<lambda>r.
            bindE (parseEventRows bu (map_option Suc n) rows) (\<lambda>rs. Inr (r # rs))))
      | _ \<Rightarrow> Inl event_error)"

definition parseEvents :: "app_bundle \<Rightarrow> jval \<Rightarrow> phone_error + jval list" where
  "parseEvents bu v =
     (case result_rows v of
        None \<Rightarrow> Inl event_error
      | Some rows \<Rightarrow> if length rows > MAX_EVENT_PAGE then Inl event_error else parseEventRows bu None rows)"

definition readRoomEvents :: "(jval \<Rightarrow> bool) \<Rightarrow> app_bundle \<Rightarrow> string \<Rightarrow> jval list native" where
  "readRoomEvents fits bu r = bindN (queryN fits ''room_events'' [r]) (\<lambda>v. liftN (parseEvents bu v))"

section \<open>The director's context\<close>

definition context_persona_ok :: "app_bundle \<Rightarrow> nat \<times> jval \<Rightarrow> bool" where
  "context_persona_ok bu p \<longleftrightarrow>
     exactRecord (snd p) [''displayName'', ''id'', ''muted'', ''personaSlug'', ''sortOrder''] \<and>
     (case jget ''id'' (snd p) of JStr i \<Rightarrow> 1 \<le> length i \<and> length i \<le> 256 | _ \<Rightarrow> False) \<and> persona_known bu (snd p) \<and>
     jget ''muted'' (snd p) \<in> {JBool True, JBool False} \<and> jget ''sortOrder'' (snd p) = JInt (int (fst p) + 1)"

definition context_personas :: "jval \<Rightarrow> jval list" where
  "context_personas c = (case jlist (jget ''personas'' c) of None \<Rightarrow> [] | Some ps \<Rightarrow> ps)"

definition context_ok :: "app_bundle \<Rightarrow> jval \<Rightarrow> jval \<Rightarrow> bool" where
  "context_ok bu room c \<longleftrightarrow>
     exactRecord c [''generation'', ''nextEventSequence'', ''personas'', ''roomId'', ''state''] \<and>
     jget ''roomId'' c = jget ''id'' room \<and> jget ''generation'' c = jget ''generation'' room \<and> safe_nat (jget ''generation'' c) \<and>
     safe_pos (jget ''nextEventSequence'' c) \<and>
     (case jlist (jget ''personas'' c) of None \<Rightarrow> False | Some ps \<Rightarrow> 1 \<le> length ps \<and> length ps \<le> MAX_CAST) \<and>
     list_all (context_persona_ok bu) (zip [0..<length (context_personas c)] (context_personas c)) \<and>
     distinct (map (jget ''id'') (context_personas c)) \<and> distinct (map (jget ''personaSlug'') (context_personas c))"

definition parseDirectorContext :: "app_bundle \<Rightarrow> jval \<Rightarrow> jval \<Rightarrow> phone_error + jval" where
  "parseDirectorContext bu room v =
     (let invalid = Inl (plain ''Invalid native director projection.'') in
      case result_rows v of
        Some [row] \<Rightarrow>
          (case first_cell row of
             JStr encoded \<Rightarrow>
               if utf8_length encoded > MAX_BRIDGE_BYTES then invalid
               else bindE (parse_json encoded) (\<lambda>c. if context_ok bu room c then Inr c else invalid)
           | _ \<Rightarrow> invalid)
      | _ \<Rightarrow> invalid)"

definition readDirectorContext :: "(jval \<Rightarrow> bool) \<Rightarrow> app_bundle \<Rightarrow> jval \<Rightarrow> jval native" where
  "readDirectorContext fits bu room =
     bindN (queryN fits ''director_context'' [jstr (jget ''id'' room)]) (\<lambda>v. liftN (parseDirectorContext bu room v))"

section \<open>Drafts\<close>

definition deleteLocalDraft :: "string \<Rightarrow> string \<Rightarrow> unit native" where
  "deleteLocalDraft uuid r =
     bindN (requireN (room_id_ok (JStr r)) (Thrown (TypeError ''Invalid local draft room.''))) (\<lambda>_.
     bindN (batchN (''draft-delete-'' @ uuid) [(''delete_local_draft'', [JStr r], delete_draft r)]) (\<lambda>_. returnN ()))"

definition saveLocalDraft :: "string \<Rightarrow> string \<Rightarrow> string \<Rightarrow> unit native" where
  "saveLocalDraft uuid r t =
     bindN (requireN (room_id_ok (JStr r) \<and> length t \<le> 16384) (Thrown (TypeError ''Invalid local draft.''))) (\<lambda>_.
       if t = [] then deleteLocalDraft uuid r
       else bindN (batchN (''draft-save-'' @ uuid) [(''save_local_draft'', [JStr r, JStr t], save_draft r t)]) (\<lambda>_. returnN ()))"

definition loadLocalDraft :: "(jval \<Rightarrow> bool) \<Rightarrow> string \<Rightarrow> jval native" where
  "loadLocalDraft fits r =
     bindN (queryN fits ''local_draft'' [r]) (\<lambda>v.
     bindN (liftN (parseSingleJsonRow ''local_draft_json'' ''local draft'' v)) (\<lambda>draft.
       if draft = JNull then returnN JNull
       else if \<not> exactRecord draft [''roomId'', ''text''] \<or> jget ''roomId'' draft \<noteq> JStr r \<or>
               (case jget ''text'' draft of JStr t \<Rightarrow> length t > 16384 | _ \<Rightarrow> True)
       then throwN (plain ''Invalid local draft projection.'')
       else returnN draft))"

section \<open>Providers\<close>

definition model_char :: "char \<Rightarrow> bool" where
  "model_char c \<longleftrightarrow> (let n = (of_char c :: nat) in 32 < n \<and> n \<noteq> 127 \<and> \<not> (128 \<le> n \<and> n \<le> 160) \<and> n \<noteq> 173)"

text \<open>Latin-1 text is in normal form C; its control, format and space characters are those excluded.\<close>

definition isCanonicalModelId :: "jval \<Rightarrow> bool" where
  "isCanonicalModelId v \<longleftrightarrow> (case v of JStr s \<Rightarrow> s \<noteq> [] \<and> utf8_length s \<le> 256 \<and> list_all model_char s | _ \<Rightarrow> False)"

definition known_provider :: "app_bundle \<Rightarrow> jval \<Rightarrow> bool" where
  "known_provider bu v \<longleftrightarrow> v \<in> set (map JStr (bu_providers bu))"

definition parseProviderSelection :: "app_bundle \<Rightarrow> jval \<Rightarrow> phone_error + jval" where
  "parseProviderSelection bu v =
     (if v = JNull then Inr JNull
      else if \<not> exactRecord v [''model'', ''profileId'', ''profileRevision'', ''providerId''] \<or> \<not> known_provider bu (jget ''providerId'' v) \<or>
              jget ''profileId'' v \<noteq> JStr (''iphone.'' @ jstr (jget ''providerId'' v)) \<or> \<not> safe_pos (jget ''profileRevision'' v) \<or>
              \<not> isCanonicalModelId (jget ''model'' v)
      then Inl (plain ''Invalid provider selection projection.'')
      else Inr v)"

definition readProviderSelection :: "(jval \<Rightarrow> bool) \<Rightarrow> app_bundle \<Rightarrow> jval native" where
  "readProviderSelection fits bu =
     bindN (queryN fits ''provider_selection'' []) (\<lambda>v.
     bindN (liftN (parseSingleJsonRow ''provider_selection_json'' ''provider selection'' v)) (\<lambda>s. liftN (parseProviderSelection bu s)))"

definition readProviderProfile :: "(jval \<Rightarrow> bool) \<Rightarrow> app_bundle \<Rightarrow> string \<Rightarrow> jval native" where
  "readProviderProfile fits bu profile =
     bindN (queryN fits ''provider_profile'' [profile]) (\<lambda>v.
     bindN (liftN (parseSingleJsonRow ''provider_profile_json'' ''provider profile'' v)) (\<lambda>p.
       if p = JNull then returnN JNull
       else if \<not> exactRecord p [''mutationId'', ''profileId'', ''profileRevision'', ''providerId'', ''state'', ''tombstoned''] \<or>
               jget ''profileId'' p \<noteq> JStr profile \<or> \<not> known_provider bu (jget ''providerId'' p) \<or> \<not> safe_pos (jget ''profileRevision'' p) \<or>
               \<not> uuid_ok (jget ''mutationId'' p) \<or> jbool (jget ''tombstoned'' p) = None \<or>
               jget ''state'' p \<notin> set (map JStr [''credential_pending'', ''ready'', ''delete_pending'', ''missing''])
       then throwN (plain ''Invalid provider profile projection.'')
       else returnN p))"

section \<open>Generation commands\<close>

definition digest_ok :: "jval \<Rightarrow> bool" where
  "digest_ok v \<longleftrightarrow> (case v of JStr s \<Rightarrow> length s = 64 \<and> list_all lower_hex s | _ \<Rightarrow> False)"

definition parseGenerationCommand :: "app_bundle \<Rightarrow> jval \<Rightarrow> phone_error + jval" where
  "parseGenerationCommand bu v =
     (if v = JNull then Inr JNull
      else if \<not> exactRecord v [''attemptEpoch'', ''commandId'', ''failureCode'', ''personaSlug'', ''requestDigest'',
                ''requestId'', ''requestPlan'', ''roomId'', ''state''] \<or>
              \<not> uuid_ok (jget ''commandId'' v) \<or> \<not> uuid_ok (jget ''requestId'' v) \<or> \<not> room_id_ok (jget ''roomId'' v) \<or>
              \<not> digest_ok (jget ''requestDigest'' v) \<or>
              jget ''state'' v \<notin> set (map JStr [''prepared'', ''in_flight'', ''failed'', ''interrupted'']) \<or>
              \<not> safe_nat (jget ''attemptEpoch'' v) \<or> \<not> (jget ''failureCode'' v = JNull \<or> is_string (jget ''failureCode'' v)) \<or>
              \<not> (jget ''personaSlug'' v = JNull \<or> catalog_of bu (jget ''personaSlug'' v) \<noteq> None) \<or>
              (case jget ''requestPlan'' v of JObj _ \<Rightarrow> False | JArr _ \<Rightarrow> False | _ \<Rightarrow> True)
      then Inl (plain ''Invalid generation command projection.'')
      else Inr v)"

definition readUnresolvedGenerationCommand :: "(jval \<Rightarrow> bool) \<Rightarrow> app_bundle \<Rightarrow> string \<Rightarrow> jval native" where
  "readUnresolvedGenerationCommand fits bu r =
     bindN (queryN fits ''unresolved_generation_command'' [r]) (\<lambda>v.
     bindN (liftN (parseSingleJsonRow ''generation_command_json'' ''generation command'' v)) (\<lambda>c. liftN (parseGenerationCommand bu c)))"

definition readCompletedGenerationCommand :: "(jval \<Rightarrow> bool) \<Rightarrow> jval \<Rightarrow> jval native" where
  "readCompletedGenerationCommand fits command =
     bindN (queryN fits ''generation_command_by_id'' [jstr (jget ''commandId'' command)]) (\<lambda>v.
     bindN (liftN (parseSingleJsonRow ''generation_command_json'' ''completed generation command'' v)) (\<lambda>c.
       if \<not> exactRecord c [''attemptEpoch'', ''commandId'', ''failureCode'', ''requestDigest'', ''requestId'', ''responseText'', ''roomId'', ''state''] \<or>
          jget ''commandId'' c \<noteq> jget ''commandId'' command \<or> jget ''requestId'' c \<noteq> jget ''requestId'' command \<or>
          jget ''requestDigest'' c \<noteq> jget ''requestDigest'' command \<or> jget ''roomId'' c \<noteq> jget ''roomId'' command \<or>
          jget ''state'' c \<noteq> JStr ''completed'' \<or> \<not> safe_nat (jget ''attemptEpoch'' c) \<or> jget ''failureCode'' c \<noteq> JNull \<or>
          \<not> (jget ''responseText'' c = JNull \<or> is_string (jget ''responseText'' c))
       then throwN (plain ''The generation command completion was not durably acknowledged.'')
       else returnN c))"

end
