(* ===== verification/Phone_Runtime.thy ===== *)
theory Phone_Runtime
  imports Phone_Reads "HOL-Library.Word"
begin

unbundle bit_operations_syntax

text \<open>
  The turns of a room in the phone's runtime (\<open>ios-web/room-runtime.js\<close>): creating and reopening a room,
  preparing, executing, retrying, reconciling and abandoning an atomic turn, and the demonstration
  turn. Random identifiers are arguments; SHA-256 and the native provider call are parameters. A call
  runs undisturbed here; what may happen between the calls is the subject of \<open>Phone_Turns\<close>.
\<close>

section \<open>Availability\<close>

record lifecycle =
  lc_active :: bool
  lc_protected :: bool
  lc_path :: bool
  lc_database :: bool
  lc_epoch :: nat

definition parseLifecycleStatus :: "jval \<Rightarrow> phone_error + lifecycle" where
  "parseLifecycleStatus v =
     (case (jbool (jget ''active'' v), jbool (jget ''databaseReady'' v), jbool (jget ''pathAvailable'' v),
            jbool (jget ''protectedDataAvailable'' v), jsafe_nonneg (jget ''epoch'' v)) of
        (Some a, Some d, Some p, Some q, Some n) \<Rightarrow>
          if exactRecord v [''active'', ''databaseReady'', ''epoch'', ''pathAvailable'', ''protectedDataAvailable'']
          then Inr \<lparr>lc_active = a, lc_protected = q, lc_path = p, lc_database = d, lc_epoch = n\<rparr>
          else Inl (plain ''Invalid native lifecycle status.'')
      | _ \<Rightarrow> Inl (plain ''Invalid native lifecycle status.''))"

definition lifecycleAllowsLocalWrites :: "lifecycle \<Rightarrow> bool" where
  "lifecycleAllowsLocalWrites s \<longleftrightarrow> lc_active s \<and> lc_protected s \<and> lc_database s"

record availability =
  may_abandon :: bool
  may_create :: bool
  may_draft :: bool
  may_save_provider :: bool
  may_retry :: bool
  may_send :: bool

definition mutationAvailability :: "lifecycle \<Rightarrow> bool \<Rightarrow> bool \<Rightarrow> bool \<Rightarrow> availability" where
  "mutationAvailability status ready unresolved_command demo =
     (let local_writes = lifecycleAllowsLocalWrites status; network = local_writes \<and> lc_path status in
      \<lparr>may_abandon = (local_writes \<and> unresolved_command), may_create = network, may_draft = (local_writes \<and> \<not> unresolved_command),
       may_save_provider = network, may_retry = (network \<and> ready \<and> unresolved_command),
       may_send = (\<not> unresolved_command \<and> (if demo then local_writes else network \<and> ready))\<rparr>)"

definition lifecycleChangeNeedsRoomReprojection :: "lifecycle \<Rightarrow> lifecycle \<Rightarrow> bool" where
  "lifecycleChangeNeedsRoomReprojection before after \<longleftrightarrow>
     lc_active before \<noteq> lc_active after \<or> lc_protected before \<noteq> lc_protected after \<or> lc_database before \<noteq> lc_database after"

section \<open>Rooms\<close>

definition castTitle :: "phone_persona list \<Rightarrow> string" where
  "castTitle ps = (case map pp_name ps of
     [a] \<Rightarrow> a @ '' Room'' | [a, b] \<Rightarrow> a @ '' & '' @ b | a # b # c # _ \<Rightarrow> a @ '', '' @ b @ '' & '' @ c | [] \<Rightarrow> ''undefined Room'')"

definition personas_for :: "app_bundle \<Rightarrow> string list \<Rightarrow> phone_persona list option" where
  "personas_for bu slugs =
     (let found = map (\<lambda>s. catalog_of bu (JStr s)) slugs in
      if None \<in> set found then None else Some (map the found))"

definition persona_statement :: "string \<Rightarrow> nat \<times> phone_persona \<Rightarrow> statement" where
  "persona_statement r p = (''create_persona'',
     [JStr (pp_slug (snd p)), JStr r, JStr (pp_name (snd p)), JInt (int (fst p) + 1), JStr (pp_slug (snd p))],
     create_participant (pp_slug (snd p)) r (pp_name (snd p)) (fst p + 1) (Some (pp_slug (snd p))))"

definition create_statements :: "string \<Rightarrow> string \<Rightarrow> phone_persona list \<Rightarrow> bool \<Rightarrow> statement list" where
  "create_statements r human ps demo =
     [(''create_room'', [JStr r, JStr (castTitle ps), JStr (mode_name demo)], create_room r (castTitle ps) demo),
      (''create_human'', [JStr human, JStr r, JStr ''You''], create_participant human r ''You'' 0 None)] @
     map (persona_statement r) (zip [0..<length ps] ps) @
     [(''create_director_state'', [JStr r], create_director r), (''select_room'', [JStr r], select_phone_room r)]"

definition createLocalRoom :: "(jval \<Rightarrow> bool) \<Rightarrow> app_bundle \<Rightarrow> string \<Rightarrow> string \<Rightarrow> string list \<Rightarrow> bool \<Rightarrow> jval native" where
  "createLocalRoom fits bu uuid1 uuid2 slugs demo =
     (case personas_for bu slugs of
        None \<Rightarrow> throwN (Thrown (TypeError ''Choose one to three unique bundled characters.''))
      | Some ps \<Rightarrow>
          bindN (requireN (1 \<le> length slugs \<and> length slugs \<le> MAX_CAST \<and> distinct slugs)
                   (Thrown (TypeError ''Choose one to three unique bundled characters.''))) (\<lambda>_.
          bindN (requireN (is_uuid uuid1 \<and> is_uuid uuid2) (Thrown (TypeError ''A random UUID is required.''))) (\<lambda>_.
            let r = ''room-'' @ uuid1 in
            bindN (batchN (''create-'' @ r) (create_statements r (''human-'' @ uuid2) ps demo)) (\<lambda>_.
            bindN (readCurrentPhoneRoom fits bu) (\<lambda>room.
              if room \<noteq> JNull \<and> jget ''id'' room = JStr r then returnN room
              else throwN (plain ''The selected local room was not committed.''))))))"

record opened_room =
  or_command :: jval
  or_draft :: jval
  or_events :: "jval list"
  or_room :: jval

text \<open>Opening the application: \<open>open_db\<close> is what the native side does to open and migrate the database.\<close>

definition openLocalRoom ::
    "(jval \<Rightarrow> bool) \<Rightarrow> app_bundle \<Rightarrow> (phone_db \<Rightarrow> ((string \<times> bool) + jval) \<times> phone_db) \<Rightarrow> opened_room native" where
  "openLocalRoom fits bu open_db =
     bindN (invoke ''database.open'' (JObj [(''expectedSchema'', JInt 9)]) open_db) (\<lambda>_.
     bindN (readCurrentPhoneRoom fits bu) (\<lambda>room.
       let r = jstr (jget ''id'' room) in
       bindN (if room = JNull then returnN [] else readRoomEvents fits bu r) (\<lambda>events.
       bindN (if room = JNull then returnN JNull else loadLocalDraft fits r) (\<lambda>draft.
       bindN (if room = JNull \<or> jget ''inferenceMode'' room = JStr ''review_demo'' then returnN JNull
              else readUnresolvedGenerationCommand fits bu r) (\<lambda>command.
         returnN \<lparr>or_command = command, or_draft = draft, or_events = events, or_room = room\<rparr>)))))"

definition reopenLocalRoom :: "(jval \<Rightarrow> bool) \<Rightarrow> app_bundle \<Rightarrow> string \<Rightarrow> string \<Rightarrow> opened_room native" where
  "reopenLocalRoom fits bu uuid r =
     bindN (requireN (room_id_ok (JStr r)) (Thrown (TypeError ''A valid local room ID is required.''))) (\<lambda>_.
     bindN (batchN (''select-'' @ r @ ''-'' @ uuid) [(''select_room'', [JStr r], select_phone_room r)]) (\<lambda>_.
     bindN (readRoomById fits bu r) (\<lambda>room.
     bindN (requireN (room \<noteq> JNull \<and> jget ''id'' room = JStr r) (plain ''The local room is unavailable.'')) (\<lambda>_.
     bindN (readRoomEvents fits bu r) (\<lambda>events.
     bindN (loadLocalDraft fits r) (\<lambda>draft.
     bindN (if jget ''inferenceMode'' room = JStr ''review_demo'' then returnN JNull else readUnresolvedGenerationCommand fits bu r) (\<lambda>command.
     bindN (readRoomById fits bu r) (\<lambda>confirmed.
       if confirmed \<noteq> JNull \<and> jget ''generation'' confirmed = jget ''generation'' room
       then returnN \<lparr>or_command = command, or_draft = draft, or_events = events, or_room = room\<rparr>
       else throwN (plain ''The local room changed while reopening.'')))))))))"

section \<open>The messages of a plan\<close>

definition message_of :: "jval \<Rightarrow> (string \<times> string) option" where
  "message_of record =
     (let event = jget ''event'' record; t = jstr (jget ''text'' event) in
      if jget ''type'' event = JStr ''persona_message'' then Some (''assistant'', t)
      else if jget ''type'' event = JStr ''human_message'' then Some (''user'', t)
      else None)"

definition sequence_after :: "jval \<Rightarrow> nat \<Rightarrow> bool" where
  "sequence_after record n \<longleftrightarrow> (case jget ''sequence'' record of JNum x \<Rightarrow> num_greater x (int n) | _ \<Rightarrow> False)"

text \<open>The loop from the newest record to the oldest.\<close>

fun gather :: "nat \<Rightarrow> jval list \<Rightarrow> nat \<Rightarrow> (string \<times> string) list \<Rightarrow> (string \<times> string) list" where
  "gather source [] bytes recent = recent"
| "gather source (record # older) bytes recent =
     (if length recent \<ge> MAX_PROVIDER_MESSAGES - 1 then recent
      else if sequence_after record source then gather source older bytes recent
      else (case message_of record of
          None \<Rightarrow> gather source older bytes recent
        | Some m \<Rightarrow>
            if bytes + utf8_length (snd m) > MAX_PROVIDER_MESSAGE_BYTES then gather source older bytes recent
            else gather source older (bytes + utf8_length (snd m)) (m # recent)))"

definition providerMessages :: "string \<Rightarrow> jval list \<Rightarrow> nat \<Rightarrow> phone_error + (string \<times> string) list" where
  "providerMessages prompt events source =
     (let recent = gather source (rev events) (utf8_length prompt) [] in
      if recent = [] \<or> fst (last recent) \<noteq> ''user''
      then Inl (plain ''The selected source message is outside provider context bounds.'')
      else Inr ((''system'', prompt) # recent))"

section \<open>Preparing a turn\<close>

definition validMessageOptions :: "app_bundle \<Rightarrow> jval \<Rightarrow> bool" where
  "validMessageOptions bu options \<longleftrightarrow>
     (case options of JObj fs \<Rightarrow> True | _ \<Rightarrow> False) \<and> set (jkeys options) \<subseteq> {''requestId'', ''targetPersonaSlug'', ''wantsResponse''} \<and>
     (jget ''wantsResponse'' options \<noteq> JUndefined \<longrightarrow> jbool (jget ''wantsResponse'' options) \<noteq> None) \<and>
     (jget ''targetPersonaSlug'' options \<noteq> JUndefined \<longrightarrow> catalog_of bu (jget ''targetPersonaSlug'' options) \<noteq> None) \<and>
     \<not> (jget ''targetPersonaSlug'' options \<noteq> JUndefined \<and> jget ''wantsResponse'' options = JBool False)"

definition phone_message_ok :: "string \<Rightarrow> bool" where
  "phone_message_ok t \<longleftrightarrow> js_trim t \<noteq> [] \<and> length t \<le> 16384"

definition room_human :: "jval \<Rightarrow> jval option" where
  "room_human room = find (\<lambda>p. jget ''kind'' p = JStr ''human'') (participants_of room)"

text \<open>The director of the context: restored from its state, then muted as the participants are.\<close>

definition mute_all :: "jval list \<Rightarrow> director \<Rightarrow> js_error + director" where
  "mute_all ps d = foldl (\<lambda>r p. bindE r (\<lambda>e. setMuted e (jstr (jget ''id'' p)) (jget ''muted'' p = JBool True))) (Inr d) ps"

definition context_director :: "jval \<Rightarrow> js_error + director" where
  "context_director c =
     bindE (newDirector (map (\<lambda>p. jstr (jget ''id'' p)) (context_personas c)) JUndefined
              (if jget ''state'' c = JNull then JUndefined else jget ''state'' c)) (mute_all (context_personas c))"

definition adapter_namespace :: "jval \<Rightarrow> string" where
  "adapter_namespace room = ''iphone-room:'' @ jstr (jget ''id'' room)"

definition schedule_human ::
    "jval \<Rightarrow> string \<Rightarrow> string \<Rightarrow> bool \<Rightarrow> string option \<Rightarrow> director \<Rightarrow> js_error + (director_decision \<times> director)" where
  "schedule_human room request t wants target d =
     bindE (trustedEventAdapter (adapter_namespace room)) (\<lambda>ns.
     bindE (humanEvent ns request t wants) (\<lambda>input. schedule d input target))"

definition human_event_json :: "jval \<Rightarrow> string \<Rightarrow> jval" where
  "human_event_json human t = JObj [(''participantId'', jget ''id'' human), (''text'', JStr t), (''type'', JStr ''human_message'')]"

definition phone_director_event :: "jval \<Rightarrow> director_decision \<Rightarrow> nat \<Rightarrow> jval" where
  "phone_director_event c decided source = JObj [(''generation'', jget ''generation'' c), (''reason'', JStr (reason_name (reason decided))),
     (''sourceEventSequence'', JInt (int source)), (''speaker'', opt_jstr (speaker decided)), (''type'', JStr ''director_decision'')]"

definition message_json :: "string \<times> string \<Rightarrow> jval" where
  "message_json m = JObj [(''role'', JStr (fst m)), (''content'', JStr (snd m))]"

definition silence_plan :: "jval \<Rightarrow> string \<Rightarrow> nat \<Rightarrow> jval" where
  "silence_plan room request source = JObj [(''kind'', JStr ''silence''), (''requestId'', JStr request), (''roomId'', jget ''id'' room),
     (''sourceEventSequence'', JInt (int source))]"

definition provider_plan :: "jval \<Rightarrow> string \<Rightarrow> nat \<Rightarrow> string \<Rightarrow> (string \<times> string) list \<Rightarrow> jval \<Rightarrow> jval" where
  "provider_plan room request source slug messages selection = JObj
     [(''kind'', JStr ''provider''), (''requestId'', JStr request), (''roomId'', jget ''id'' room), (''sourceEventSequence'', JInt (int source)),
      (''personaSlug'', JStr slug), (''messages'', JArr (map message_json messages)), (''model'', jget ''model'' selection),
      (''temperature'', JNum (Num 8 1)), (''maxOutputTokens'', JInt 700), (''profileId'', jget ''profileId'' selection),
      (''profileRevision'', jget ''profileRevision'' selection), (''providerId'', jget ''providerId'' selection)]"

definition request_plan ::
    "app_bundle \<Rightarrow> jval \<Rightarrow> string \<Rightarrow> nat \<Rightarrow> jval list \<Rightarrow> jval \<Rightarrow> director_decision \<Rightarrow> jval \<Rightarrow> phone_error + jval" where
  "request_plan bu room request source events human decided selection =
     (case speaker decided of
        None \<Rightarrow> Inr (silence_plan room request source)
      | Some slug \<Rightarrow>
          (case catalog_of bu (JStr slug) of
             None \<Rightarrow> Inl (plain ''The selected bundled persona is unavailable.'')
           | Some persona \<Rightarrow>
               bindE (providerMessages (pp_prompt persona)
                        (events @ [JObj [(''event'', human), (''sequence'', JInt (int source))]]) source) (\<lambda>messages.
                 Inr (provider_plan room request source (pp_slug persona) messages selection))))"

text \<open>\<open>context.personas.find(({ personaSlug }) => personaSlug === options.targetPersonaSlug)\<close>, with its refusals.\<close>

definition target_of :: "jval \<Rightarrow> jval \<Rightarrow> bool \<Rightarrow> phone_error + string option" where
  "target_of c options check_muted =
     (let slug = jget ''targetPersonaSlug'' options in
      if slug = JUndefined then Inr None
      else (case find (\<lambda>p. jget ''personaSlug'' p = slug) (context_personas c) of
          None \<Rightarrow> Inl (Thrown (TypeError ''The selected character is not in the active room.''))
        | Some p \<Rightarrow> if check_muted \<and> jget ''muted'' p = JBool True then Inl (Thrown (TypeError ''The selected character is muted.''))
                    else Inr (Some (jstr (jget ''id'' p)))))"

definition request_of :: "jval \<Rightarrow> string \<Rightarrow> phone_error + string" where
  "request_of options uuid =
     (let v = coalesce (jget ''requestId'' options) (JStr uuid) in
      if uuid_ok v then Inr (jstr v) else Inl (Thrown (TypeError ''requestId must be a canonical lowercase UUID.'')))"

definition next_of :: "jval \<Rightarrow> nat" where
  "next_of c = (case jsafe_nonneg (jget ''nextEventSequence'' c) of None \<Rightarrow> 0 | Some n \<Rightarrow> n)"

definition context_generation :: "jval \<Rightarrow> nat" where
  "context_generation c = (case jsafe_nonneg (jget ''generation'' c) of None \<Rightarrow> 0 | Some n \<Rightarrow> n)"

definition record_sequence :: "jval \<Rightarrow> nat" where
  "record_sequence record = (case jsafe_nonneg (jget ''sequence'' record) of None \<Rightarrow> 0 | Some n \<Rightarrow> n)"

definition projected_next :: "jval list \<Rightarrow> nat" where
  "projected_next events = (if events = [] then 1 else record_sequence (last events) + 1)"

definition provider_ready :: "(jval \<Rightarrow> bool) \<Rightarrow> app_bundle \<Rightarrow> jval native" where
  "provider_ready fits bu =
     bindN (readProviderSelection fits bu) (\<lambda>selection.
     bindN (requireN (selection \<noteq> JNull) (plain ''Provider setup is required.'')) (\<lambda>_.
     bindN (readProviderProfile fits bu (jstr (jget ''profileId'' selection))) (\<lambda>profile.
       if profile \<noteq> JNull \<and> jget ''state'' profile = JStr ''ready'' \<and> jget ''tombstoned'' profile = JBool False \<and>
          jget ''profileRevision'' profile = jget ''profileRevision'' selection
       then returnN selection else throwN (plain ''Provider setup is required.''))))"

text \<open>The command that a decided turn stands for.\<close>

definition planned_command ::
    "string \<Rightarrow> string \<Rightarrow> string \<Rightarrow> jval \<Rightarrow> jval \<Rightarrow> jval \<Rightarrow> jval \<Rightarrow> jval \<Rightarrow> nat \<Rightarrow> nat \<Rightarrow> string option \<Rightarrow> generation_command" where
  "planned_command commandId request digest room plan human decided snap g source slug =
     \<lparr>gc_id = commandId, gc_request = request, gc_room = jstr (jget ''id'' room), gc_digest = digest, gc_plan = plan, gc_human = human,
      gc_director = decided, gc_snapshot = snap, gc_generation = g, gc_source = source, gc_slug = slug,
      gc_state = Cmd_Prepared, gc_epoch = 0, gc_failure = None, gc_response = None, gc_started = False, gc_finished = False\<rparr>"

definition prepare_parameters :: "generation_command \<Rightarrow> string \<Rightarrow> jval list" where
  "prepare_parameters c planJSON =
     [JStr (gc_id c), JStr (gc_request c), JStr (gc_digest c), JStr (stringify (gc_human c)), JStr (stringify (gc_director c)),
      JStr (stringify (gc_snapshot c)), JInt (int (gc_generation c)), JInt (int (gc_source c)), opt_jstr (gc_slug c), JStr planJSON,
      JStr (gc_room c), JInt (int (gc_generation c)), JInt (int (gc_source c))]"

record prepared_turn =
  pt_command :: jval
  pt_decision :: director_decision
  pt_events :: "jval list"

text \<open>What the runtime decides from what it has read; the last component is the text of the plan.\<close>

definition decide_turn ::
    "app_bundle \<Rightarrow> (string \<Rightarrow> string) \<Rightarrow> string \<Rightarrow> jval \<Rightarrow> jval \<Rightarrow> jval \<Rightarrow> jval list \<Rightarrow> jval \<Rightarrow> string \<Rightarrow> string \<Rightarrow> jval \<Rightarrow>
     phone_error + (director_decision \<times> generation_command \<times> string)" where
  "decide_turn bu sha commandId room human selection events c request t options =
     (let source = next_of c in
      if source \<noteq> projected_next events then Inl (plain ''Invalid native director sequence projection.'')
      else
      bindE (thrown (context_director c)) (\<lambda>d.
      bindE (target_of c options True) (\<lambda>target.
      bindE (thrown (schedule_human room request t (coalesce (jget ''wantsResponse'' options) (JBool True) = JBool True) target d)) (\<lambda>p.
      let decided = fst p; humanJ = human_event_json human t; directorJ = phone_director_event c decided source in
      if reason decided = Duplicate then Inl (plain ''The command request ID was already used.'')
      else
      bindE (request_plan bu room request source events humanJ decided selection) (\<lambda>plan.
      bindE (thrown (canonicalJson plan)) (\<lambda>planJSON.
        Inr (decided, planned_command commandId request (sha planJSON) room plan humanJ directorJ (snapshot (snd p)) (context_generation c)
               source (speaker decided), planJSON)))))))"

definition prepareAtomicTurn ::
    "(jval \<Rightarrow> bool) \<Rightarrow> app_bundle \<Rightarrow> (string \<Rightarrow> string) \<Rightarrow> string \<Rightarrow> string \<Rightarrow> jval \<Rightarrow> string \<Rightarrow> jval \<Rightarrow> prepared_turn native" where
  "prepareAtomicTurn fits bu sha uuid commandId room t options =
     bindN (requireN (phone_message_ok t) (Thrown (TypeError ''Message must be nonblank and at most 16,384 characters.''))) (\<lambda>_.
     case room_human room of
       None \<Rightarrow> throwN (Thrown (TypeError ''A valid open room is required.''))
     | Some human \<Rightarrow>
     bindN (requireN (room_id_ok (jget ''id'' room)) (Thrown (TypeError ''A valid open room is required.''))) (\<lambda>_.
     bindN (requireN (validMessageOptions bu options) (Thrown (TypeError ''Invalid message options.''))) (\<lambda>_.
     bindN (liftN (request_of options uuid)) (\<lambda>request.
     bindN (provider_ready fits bu) (\<lambda>selection.
     bindN (readRoomEvents fits bu (jstr (jget ''id'' room))) (\<lambda>events.
     bindN (readDirectorContext fits bu room) (\<lambda>c.
     bindN (liftN (decide_turn bu sha commandId room human selection events c request t options)) (\<lambda>(decided, command, planJSON).
     bindN (requireN (is_uuid commandId) (Thrown (TypeError ''A random UUID is required.''))) (\<lambda>_.
     bindN (batchN (''prepare-'' @ commandId)
              [(''prepare_generation_command'', prepare_parameters command planJSON, prepare_command command)]) (\<lambda>_.
     bindN (readUnresolvedGenerationCommand fits bu (jstr (jget ''id'' room))) (\<lambda>stored.
       if stored = JNull \<or> jget ''commandId'' stored \<noteq> JStr commandId \<or> jget ''requestId'' stored \<noteq> JStr request \<or>
          jget ''requestDigest'' stored \<noteq> JStr (gc_digest command) \<or> jget ''state'' stored \<noteq> JStr ''prepared''
       then throwN (plain ''The generation command was not durably prepared.'')
       else returnN \<lparr>pt_command = stored, pt_decision = decided, pt_events = events\<rparr>)))))))))))"

section \<open>Completing a turn\<close>

definition verifyCommittedTurn :: "jval \<Rightarrow> jval \<Rightarrow> jval list \<Rightarrow> jval \<Rightarrow> phone_error + unit" where
  "verifyCommittedTurn slug source_value events responseText =
     (case jsafe_nonneg source_value of
        None \<Rightarrow> Inl (plain ''Invalid completed generation command.'')
      | Some source \<Rightarrow>
          if source < 1 then Inl (plain ''Invalid completed generation command.'')
          else
            let n = (if slug = JNull then 2 else 3);
                records = filter (\<lambda>r. source \<le> record_sequence r \<and> record_sequence r < source + n) events;
                at = (\<lambda>i. if i < length records then records ! i else JUndefined);
                is = (\<lambda>i t. jget ''sequence'' (at i) = JInt (int (source + i)) \<and> jget ''type'' (jget ''event'' (at i)) = JStr t);
                has = (\<lambda>i k v. jget k (jget ''event'' (at i)) = v)
            in if length records \<noteq> n \<or> \<not> is 0 ''human_message'' \<or> \<not> is 1 ''director_decision'' \<or>
                  \<not> has 1 ''sourceEventSequence'' (JInt (int source)) \<or> \<not> has 1 ''speaker'' slug
               then Inl (plain ''The atomic turn was not committed by room authority.'')
               else if slug \<noteq> JNull \<and> (\<not> is 2 ''persona_message'' \<or> \<not> has 2 ''sourceEventSequence'' (JInt (int source)) \<or>
                       \<not> has 2 ''personaSlug'' slug \<or> \<not> has 2 ''text'' responseText)
               then Inl (plain ''The atomic turn was not committed by room authority.'')
               else Inr ())"

record completed_turn =
  ct_command :: jval
  ct_events :: "jval list"
  ct_text :: jval

definition complete_statement :: "jval \<Rightarrow> jval \<Rightarrow> nat \<Rightarrow> statement" where
  "complete_statement command responseText epoch =
     (let i = jstr (jget ''commandId'' command); q = jstr (jget ''requestId'' command); d = jstr (jget ''requestDigest'' command) in
      if jget ''personaSlug'' command = JNull
      then (''complete_silent_generation_command'', [JStr i, JStr q, JStr d, JInt (int epoch)], complete_silent i q d epoch)
      else (''complete_generation_command'', [responseText, JStr i, JStr q, JStr d, JInt (int epoch)],
            complete_command (jstr responseText) i q d epoch))"

definition completeAndReadBack :: "(jval \<Rightarrow> bool) \<Rightarrow> app_bundle \<Rightarrow> jval \<Rightarrow> jval \<Rightarrow> nat \<Rightarrow> completed_turn native" where
  "completeAndReadBack fits bu command responseText epoch =
     (let silent = (jget ''personaSlug'' command = JNull) in
      bindN (batchN ((if silent then ''complete-silence-'' else ''complete-'') @ jstr (jget ''commandId'' command))
               [complete_statement command responseText epoch]) (\<lambda>_.
      bindN (readCompletedGenerationCommand fits command) (\<lambda>completed.
      bindN (requireN (jget ''responseText'' completed = (if silent then JNull else responseText))
               (plain ''The completed response changed during readback.'')) (\<lambda>_.
      bindN (readRoomEvents fits bu (jstr (jget ''roomId'' command))) (\<lambda>events.
      bindN (liftN (verifyCommittedTurn (jget ''personaSlug'' command) (jget ''sourceEventSequence'' (jget ''requestPlan'' command)) events responseText)) (\<lambda>_.
        returnN \<lparr>ct_command = completed, ct_events = events, ct_text = responseText\<rparr>))))))"

definition completePreparedSilence :: "(jval \<Rightarrow> bool) \<Rightarrow> app_bundle \<Rightarrow> jval \<Rightarrow> completed_turn native" where
  "completePreparedSilence fits bu command =
     (if jget ''personaSlug'' command \<noteq> JNull \<or> jget ''kind'' (jget ''requestPlan'' command) \<noteq> JStr ''silence''
      then throwN (Thrown (TypeError ''A prepared silence command is required.''))
      else completeAndReadBack fits bu command JNull
             (case jsafe_nonneg (jget ''attemptEpoch'' command) of None \<Rightarrow> 0 | Some n \<Rightarrow> n))"

text \<open>The native provider call: what it answers and what it leaves, from the request, command and digest.\<close>

type_synonym provider_plugin = "string \<Rightarrow> string \<Rightarrow> string \<Rightarrow> phone_db \<Rightarrow> ((string \<times> bool) + jval) \<times> phone_db"

definition generated_ok :: "jval \<Rightarrow> bool" where
  "generated_ok v \<longleftrightarrow> exactRecord v [''attemptEpoch'', ''text''] \<and>
     (case jget ''text'' v of JStr t \<Rightarrow> js_trim t \<noteq> [] \<and> utf8_length t \<le> 16384 | _ \<Rightarrow> False) \<and> safe_pos (jget ''attemptEpoch'' v)"

definition executePreparedGeneration :: "(jval \<Rightarrow> bool) \<Rightarrow> app_bundle \<Rightarrow> provider_plugin \<Rightarrow> jval \<Rightarrow> completed_turn native" where
  "executePreparedGeneration fits bu generate command =
     (if jget ''personaSlug'' command = JNull \<or> jget ''kind'' (jget ''requestPlan'' command) \<noteq> JStr ''provider''
      then throwN (Thrown (TypeError ''A prepared provider command is required.''))
      else
      bindN (invoke ''provider.generate'' (JObj [(''requestId'', jget ''requestId'' command), (''commandId'', jget ''commandId'' command),
               (''requestDigest'', jget ''requestDigest'' command)])
               (generate (jstr (jget ''requestId'' command)) (jstr (jget ''commandId'' command)) (jstr (jget ''requestDigest'' command)))) (\<lambda>v.
        if \<not> generated_ok v then throwN (plain ''Native provider failed: invalid_response'')
        else completeAndReadBack fits bu command (jget ''text'' v)
               (case jsafe_nonneg (jget ''attemptEpoch'' v) of None \<Rightarrow> 0 | Some n \<Rightarrow> n)))"

section \<open>Failure, retry, abandonment\<close>

definition same_request :: "jval \<Rightarrow> jval \<Rightarrow> bool" where
  "same_request current command \<longleftrightarrow> jget ''commandId'' current = jget ''commandId'' command \<and>
     jget ''requestId'' current = jget ''requestId'' command \<and> jget ''requestDigest'' current = jget ''requestDigest'' command"

definition failure_code :: "phone_error \<Rightarrow> string" where
  "failure_code e = (case e of NativeBridgeError code retryable \<Rightarrow> if code \<in> set NATIVE_FAILURE_CODES then code else ''internal_failure''
     | _ \<Rightarrow> ''internal_failure'')"

definition reconcileGenerationFailure :: "(jval \<Rightarrow> bool) \<Rightarrow> app_bundle \<Rightarrow> string \<Rightarrow> jval \<Rightarrow> phone_error \<Rightarrow> jval native" where
  "reconcileGenerationFailure fits bu uuid command failure =
     (let code = failure_code failure; r = jstr (jget ''roomId'' command); i = jstr (jget ''commandId'' command);
          q = jstr (jget ''requestId'' command); d = jstr (jget ''requestDigest'' command) in
      bindN (readUnresolvedGenerationCommand fits bu r) (\<lambda>current.
        if current = JNull \<or> \<not> same_request current command then returnN current
        else
          let epoch = (case jsafe_nonneg (jget ''attemptEpoch'' current) of None \<Rightarrow> 0 | Some n \<Rightarrow> n);
              params = [JStr code, JStr i, JStr q, JStr d, JInt (int epoch)] in
          bindN (if jget ''state'' current = JStr ''in_flight''
                 then batchN (''interrupt-'' @ i @ ''-'' @ uuid) [(''interrupt_generation_command'', params, interrupt_command code i q d epoch)]
                 else if jget ''state'' current = JStr ''prepared''
                 then batchN (''fail-'' @ i @ ''-'' @ uuid) [(''fail_generation_command'', params, fail_command code i q d epoch)]
                 else returnN JNull) (\<lambda>_.
            readUnresolvedGenerationCommand fits bu r)))"

text \<open>\<open>try \<dots> catch (failure) { await reconcile; throw failure; }\<close>\<close>

definition reconciled :: "'a native \<Rightarrow> (phone_error \<Rightarrow> 'b native) \<Rightarrow> 'a native" where
  "reconciled m handler db =
     (case m db of
        (Inr x, db') \<Rightarrow> (Inr x, db')
      | (Inl e, db') \<Rightarrow> (case handler e db' of (Inl e', db'') \<Rightarrow> (Inl e', db'') | (Inr _, db'') \<Rightarrow> (Inl e, db'')))"

definition retryAtomicGeneration :: "(jval \<Rightarrow> bool) \<Rightarrow> app_bundle \<Rightarrow> provider_plugin \<Rightarrow> string \<Rightarrow> jval \<Rightarrow> completed_turn native" where
  "retryAtomicGeneration fits bu generate uuid command =
     bindN (readUnresolvedGenerationCommand fits bu (jstr (jget ''roomId'' command))) (\<lambda>current.
       if current = JNull \<or> \<not> same_request current command
       then throwN (plain ''The exact generation command is no longer retryable.'')
       else reconciled
              (if jget ''personaSlug'' current = JNull then completePreparedSilence fits bu current
               else executePreparedGeneration fits bu generate current)
              (reconcileGenerationFailure fits bu uuid current))"

definition abandonAtomicGeneration :: "(jval \<Rightarrow> bool) \<Rightarrow> app_bundle \<Rightarrow> jval \<Rightarrow> unit native" where
  "abandonAtomicGeneration fits bu command =
     (let r = jstr (jget ''roomId'' command); i = jstr (jget ''commandId'' command);
          q = jstr (jget ''requestId'' command); d = jstr (jget ''requestDigest'' command) in
      bindN (readUnresolvedGenerationCommand fits bu r) (\<lambda>current.
      bindN (requireN (current \<noteq> JNull \<and> same_request current command \<and> jget ''state'' current \<noteq> JStr ''in_flight'')
               (plain ''The exact generation command cannot be abandoned.'')) (\<lambda>_.
      bindN (batchN (''abandon-'' @ i) [(''abandon_generation_command'', [JStr ''user_abandoned'', JStr i, JStr q, JStr d],
               abandon_command ''user_abandoned'' i q d)]) (\<lambda>_.
      bindN (readUnresolvedGenerationCommand fits bu r) (\<lambda>rest.
        if rest \<noteq> JNull then throwN (plain ''The generation command was not abandoned.'') else returnN ())))))"

section \<open>The demonstration turn\<close>

definition REVIEW_DEMO_LINES :: "string list" where
  "REVIEW_DEMO_LINES =
     [''I would begin by naming the premise clearly, then test it against what the room has already said.'',
      ''A useful next step is to separate the observation from the conclusion and examine each in turn.'',
      ''Let us keep this bounded: one claim, one reason, and one question for the room to carry forward.'']"

text \<open>The bytes of a text in UTF-8.\<close>

definition utf8_bytes :: "string \<Rightarrow> nat list" where
  "utf8_bytes s = concat (map (\<lambda>c. let n = (of_char c :: nat) in if n < 128 then [n] else [192 + n div 64, 128 + n mod 64]) s)"

definition demo_hash :: "nat list \<Rightarrow> 32 word" where
  "demo_hash bytes = foldl (\<lambda>value byte. (value XOR word_of_nat byte) * 16777619) 2166136261 bytes"

definition demoReplyIndex :: "string \<Rightarrow> string \<Rightarrow> nat \<Rightarrow> nat" where
  "demoReplyIndex slug t turn = unat (demo_hash (utf8_bytes (slug @ nul @ t @ nul @ show_nat turn))) mod length REVIEW_DEMO_LINES"

text \<open>The dash of the prefix is U+2014, three bytes in UTF-8; the model writes it as \<open>--\<close>.\<close>

definition deterministicReviewDemoReply :: "app_bundle \<Rightarrow> string \<Rightarrow> string \<Rightarrow> nat \<Rightarrow> phone_error + string" where
  "deterministicReviewDemoReply bu slug t turn =
     (case catalog_of bu (JStr slug) of
        None \<Rightarrow> Inl (Thrown (TypeError ''Invalid demonstration reply input.''))
      | Some persona \<Rightarrow>
          if \<not> phone_message_ok t \<or> turn < 1 \<or> int turn > max_safe_integer then Inl (Thrown (TypeError ''Invalid demonstration reply input.''))
          else
            let reply = ''Demonstration reply (offline) -- '' @ pp_name persona @ '': '' @ REVIEW_DEMO_LINES ! demoReplyIndex slug t turn in
            if utf8_length reply + 1 > 700 then Inl (plain ''Demonstration reply exceeded its local bound.'') else Inr reply)"

text \<open>The five statements of the batch; \<open>demo_turn\<close> is what they do together.\<close>

definition completed_demo_statements ::
    "jval \<Rightarrow> nat \<Rightarrow> nat \<Rightarrow> string \<Rightarrow> nat \<Rightarrow> jval \<Rightarrow> jval \<Rightarrow> jval \<Rightarrow> jval \<Rightarrow> statement list" where
  "completed_demo_statements room g source who turns state human director persona =
     (let r = jstr (jget ''id'' room); h = JStr (stringify human); d = JStr (stringify director); p = JStr (stringify persona);
          n = (\<lambda>k. JInt (int k)) in
      [(''update_review_demo_director_state'', [JStr (stringify state), n source, JStr who, n turns, n g, JStr r, n g, n source],
        demo_turn r g source who turns state human director persona),
       (''append_review_demo_human_event'', [h, JStr r, n g, n source, h, h], Some),
       (''append_review_demo_director_event'', [d, JStr r, n g, n (source + 1), d, d, n source, d, JStr who], Some),
       (''append_review_demo_persona_event'', [p, JStr r, n g, n (source + 2), p, p, n source, p, JStr who, JStr who], Some),
       (''delete_local_draft'', [JStr r], Some)])"

definition decide_demo_turn ::
    "app_bundle \<Rightarrow> jval \<Rightarrow> jval \<Rightarrow> jval \<Rightarrow> string \<Rightarrow> string \<Rightarrow> jval \<Rightarrow> phone_error + (director_decision \<times> string \<times> string \<times> statement list)" where
  "decide_demo_turn bu room human c request t options =
     (let source = next_of c in
      bindE (thrown (context_director c)) (\<lambda>d.
      bindE (target_of c options False) (\<lambda>target.
      bindE (thrown (schedule_human room request t True target d)) (\<lambda>p.
        case speaker (fst p) of
          None \<Rightarrow> Inl (plain ''The demonstration director did not select a speaker.'')
        | Some who \<Rightarrow>
            let turns = autonomousTurns (snd p) in
            bindE (deterministicReviewDemoReply bu who t turns) (\<lambda>reply.
              Inr (fst p, who, reply,
                completed_demo_statements room (context_generation c) source who turns (snapshot (snd p)) (human_event_json human t)
                  (phone_director_event c (fst p) source) (persona_event_json (context_generation c) who source reply)))))))"

definition completeReviewDemoTurn ::
    "(jval \<Rightarrow> bool) \<Rightarrow> app_bundle \<Rightarrow> string \<Rightarrow> jval \<Rightarrow> string \<Rightarrow> jval \<Rightarrow> (director_decision \<times> jval list \<times> string) native" where
  "completeReviewDemoTurn fits bu uuid room t options =
     bindN (requireN (jget ''inferenceMode'' room = JStr ''review_demo'') (Thrown (TypeError ''A Demonstration Mode room is required.''))) (\<lambda>_.
     bindN (requireN (phone_message_ok t) (Thrown (TypeError ''Message must be nonblank and bounded.''))) (\<lambda>_.
     bindN (requireN (validMessageOptions bu options) (Thrown (TypeError ''Invalid message options.''))) (\<lambda>_.
     bindN (liftN (request_of options uuid)) (\<lambda>request.
     bindN (readRoomEvents fits bu (jstr (jget ''id'' room))) (\<lambda>events.
     bindN (readDirectorContext fits bu room) (\<lambda>c.
     case room_human room of
       None \<Rightarrow> throwN (Thrown (TypeError ''A valid open room is required.''))
     | Some human \<Rightarrow>
     bindN (liftN (decide_demo_turn bu room human c request t options)) (\<lambda>(decided, who, reply, statements).
     bindN (batchN (''review-demo-'' @ request) statements) (\<lambda>_.
     bindN (readRoomEvents fits bu (jstr (jget ''id'' room))) (\<lambda>committed.
     bindN (liftN (verifyCommittedTurn (JStr who) (JInt (int (next_of c))) committed (JStr reply))) (\<lambda>_.
       returnN (decided, committed, reply)))))))))))"

section \<open>The latch of an operation\<close>

text \<open>
  \<open>operationLatch\<close>: the current operation is an object of its own for every \<open>begin\<close>; here the number of
  operations begun so far, and the running one.
\<close>

record latch =
  la_begun :: nat
  la_current :: "nat option"

definition latch_begin :: "latch \<Rightarrow> nat option \<times> latch" where
  "latch_begin l = (case la_current l of
     Some _ \<Rightarrow> (None, l)
   | None \<Rightarrow> (Some (la_begun l), \<lparr>la_begun = Suc (la_begun l), la_current = Some (la_begun l)\<rparr>))"

definition latch_end :: "nat \<Rightarrow> latch \<Rightarrow> bool \<times> latch" where
  "latch_end operation l =
     (if la_current l \<noteq> Some operation then (False, l) else (True, l\<lparr>la_current := None\<rparr>))"

end
