(* ===== verification/Phone_Example.thy ===== *)
theory Phone_Example
  imports Phone_Turns Phone_Runtime
begin

text \<open>
  A concrete room of the phone with one character, at which the properties are applied: the room, a
  silent turn of it prepared, and that turn committed.
\<close>

definition phone_example_room :: string where "phone_example_room = ''room-local-default''"

definition example_id :: string where "example_id = ''11111111-1111-4111-8111-111111111111''"

definition example_request :: string where "example_request = ''22222222-2222-4222-8222-222222222222''"

definition example_bundle :: app_bundle where
  "example_bundle = \<lparr>bu_personas = [\<lparr>pp_slug = ''ada'', pp_name = ''Ada'', pp_prompt = ''You are Ada.''\<rparr>], bu_providers = [''openai'']\<rparr>"

definition opened_phone :: phone_db where
  "opened_phone = empty_phone\<lparr>phone_rooms := [\<lparr>phr_id = phone_example_room, phr_title = ''Ada Room'', phr_status = Active, phr_demo = False,
       phr_generation = 0, phr_next = 1\<rparr>],
     phone_people := [\<lparr>php_room = phone_example_room, php_id = ''human-1'', php_name = ''You'', php_muted = False, php_order = 0, php_slug = None\<rparr>,
       \<lparr>php_room = phone_example_room, php_id = ''ada'', php_name = ''Ada'', php_muted = False, php_order = 1, php_slug = Some ''ada''\<rparr>],
     phone_directors := [phone_example_room \<mapsto> \<lparr>phd_state = None, phd_last_speaker = None, phd_last_human = None, phd_turns = 0, phd_window = 0\<rparr>],
     phone_current := Some phone_example_room\<rparr>"

definition silent_command :: "string \<Rightarrow> generation_command" where
  "silent_command t = \<lparr>gc_id = example_id, gc_request = example_request, gc_room = phone_example_room, gc_digest = replicate 64 CHR ''a'',
     gc_plan = silence_plan (JObj [(''id'', JStr phone_example_room)]) example_request 1, gc_human = human_event_json (JObj [(''id'', JStr ''human-1'')]) t,
     gc_director = phone_director_event (JObj [(''generation'', JInt 0)]) (decision None Deliberate_Silence) 1,
     gc_snapshot = JObj [(''autonomousTurns'', JInt 0)], gc_generation = 0, gc_source = 1, gc_slug = None,
     gc_state = Cmd_Prepared, gc_epoch = 0, gc_failure = None, gc_response = None, gc_started = False, gc_finished = False\<rparr>"

definition prepared_phone :: "string \<Rightarrow> phone_db" where
  "prepared_phone t = opened_phone\<lparr>phone_commands := [silent_command t]\<rparr>"

definition silent_done :: "string \<Rightarrow> generation_command" where
  "silent_done t = (silent_command t)\<lparr>gc_state := Cmd_Completed, gc_finished := True\<rparr>"

definition committed_phone :: "string \<Rightarrow> phone_db" where
  "committed_phone t = opened_phone\<lparr>phone_commands := [silent_done t],
     phone_rooms := [\<lparr>phr_id = phone_example_room, phr_title = ''Ada Room'', phr_status = Active, phr_demo = False, phr_generation = 0, phr_next = 3\<rparr>],
     phone_events := [(phone_example_room, 1, gc_human (silent_command t)), (phone_example_room, 2, gc_director (silent_command t))],
     phone_directors := [phone_example_room \<mapsto> \<lparr>phd_state = Some (JObj [(''autonomousTurns'', JInt 0)]), phd_last_speaker = None,
       phd_last_human = Some 1, phd_turns = 0, phd_window = 0\<rparr>]\<rparr>"

lemma example_names [simp]: "sql_name phone_example_room" "sql_name ''Ada Room''" "sql_name ''You''" "sql_name ''Ada''"
  by code_simp+

lemma opened_reachable: "phone_steps empty_phone opened_phone"
proof -
  let ?s1 = "empty_phone\<lparr>phone_rooms := phone_rooms opened_phone\<rparr>"
  let ?s2 = "?s1\<lparr>phone_people := [hd (phone_people opened_phone)]\<rparr>"
  let ?s3 = "?s1\<lparr>phone_people := phone_people opened_phone\<rparr>"
  let ?s4 = "?s3\<lparr>phone_directors := phone_directors opened_phone\<rparr>"
  have 1: "create_room phone_example_room ''Ada Room'' False empty_phone = Some ?s1"
    by (simp add: create_room_def opened_phone_def phone_room_of_def empty_phone_def)
  have 2: "create_participant ''human-1'' phone_example_room ''You'' 0 None ?s1 = Some ?s2"
    by (simp add: create_participant_def opened_phone_def phone_room_of_def empty_phone_def)
  have 3: "create_participant ''ada'' phone_example_room ''Ada'' 1 (Some ''ada'') ?s2 = Some ?s3"
    by (simp add: create_participant_def opened_phone_def phone_room_of_def empty_phone_def)
  have 4: "create_director phone_example_room ?s3 = Some ?s4"
    by (simp add: create_director_def opened_phone_def phone_room_of_def empty_phone_def)
  have 5: "select_phone_room phone_example_room ?s4 = Some opened_phone"
    by (simp add: select_phone_room_def opened_phone_def phone_room_of_def empty_phone_def)
  show ?thesis
    using stay [of empty_phone]
      go [OF _ statement [OF phone_statement.intros(9) 1]] go [OF _ statement [OF phone_statement.intros(10) 2]]
      go [OF _ statement [OF phone_statement.intros(10) 3]] go [OF _ statement [OF phone_statement.intros(11) 4]]
      go [OF _ statement [OF phone_statement.intros(12) 5]] by blast
qed

lemma phone_example_uuids [simp]: "is_uuid example_id" "is_uuid example_request"
  by code_simp+

lemma silent_row: "generation_row_ok (silent_command t)" "generation_row_ok (silent_done t)"
  by (simp_all add: generation_row_ok_def silent_command_def silent_done_def state_check_def json_extract_def silence_plan_def
      human_event_json_def phone_director_event_def decision_def opt_jstr_def lower_hex_def list_all_iff)

lemma prepared_reachable: "phone_steps empty_phone (prepared_phone t)"
proof -
  have "prepare_command (silent_command t) opened_phone = Some (prepared_phone t)"
  proof -
    have same: "(silent_command t)\<lparr>gc_state := Cmd_Prepared, gc_epoch := 0, gc_failure := None, gc_response := None, gc_started := False,
        gc_finished := False\<rparr> = silent_command t" by (simp add: silent_command_def)
    have room: "phone_room_of opened_phone (gc_room (silent_command t)) = Some \<lparr>phr_id = phone_example_room, phr_title = ''Ada Room'', phr_status = Active,
        phr_demo = False, phr_generation = 0, phr_next = 1\<rparr>" by (simp add: phone_room_of_def opened_phone_def silent_command_def)
    show ?thesis
      unfolding prepare_command_def same Let_def room
      by (simp add: silent_row)
        (simp add: silent_command_def prepared_phone_def opened_phone_def empty_phone_def room_people_def json_extract_def
          silence_plan_def human_event_json_def)
  qed
  from go [OF opened_reachable statement [OF phone_statement.intros(1) this]] show ?thesis .
qed

lemma silent_completes: "complete_silent example_id example_request (replicate 64 CHR ''a'') 0 (prepared_phone t) = Some (committed_phone t)"
proof -
  let ?f = "\<lambda>c. c\<lparr>gc_state := Cmd_Completed, gc_failure := None, gc_finished := True\<rparr>"
  have f: "?f (silent_command t) = silent_done t" by (simp add: silent_done_def silent_command_def)
  have c: "command_of (prepared_phone t) example_id = Some (silent_command t)"
    by (simp add: command_of_def prepared_phone_def silent_command_def)
  have ok: "transition_ok (silent_command t) (silent_done t)" by (simp add: transition_ok_def silent_command_def silent_done_def)
  have fenced: "completion_fenced (silent_command t) (prepared_phone t)"
    by (simp add: completion_fenced_def phone_room_of_def prepared_phone_def opened_phone_def silent_command_def)
  have commit: "commit_room (silent_done t) (store_command (silent_done t) (prepared_phone t)) = Some (committed_phone t)"
    by (auto simp: commit_room_def commit_director_def store_command_def prepared_phone_def opened_phone_def empty_phone_def committed_phone_def
        silent_done_def silent_command_def turn_of_def insert_event_def room_log_def json_extract_def max_safe_integer_def fun_eq_iff)
  show ?thesis
    unfolding complete_silent_def update_command_def c option.case f
    using ok silent_row(2) [of t] fenced commit by (simp add: same_command_def) (simp add: silent_command_def silent_done_def)
qed

lemma committed_reachable: "phone_steps empty_phone (committed_phone t)"
  by (rule go [OF prepared_reachable statement [OF phone_statement.intros(6) silent_completes]])

section \<open>Calls that succeed\<close>

lemma query_succeeds:
  assumes "query_rows sqlId ps db = Some (column, vs)" and "\<not> current_demo db"
    and "encodedBytes (bridge_request ''database.query'' (JObj [(''sqlId'', JStr sqlId), (''parameters'', JArr (map JStr ps))])) \<le> 9999"
    and "encodedBytes (bridge_response (rows_json column vs)) \<le> 9999"
  shows "queryN (\<lambda>_. True) sqlId ps db = (Inr (rows_json column vs), db)"
  using assms by (simp add: queryN_def invoke_def native_query_def MAX_BRIDGE_BYTES_def)

lemma batch_succeeds:
  assumes "run_statements (map (\<lambda>s. snd (snd s)) sts) db = Some db'" and "\<not> current_demo db"
    and "encodedBytes (bridge_request ''database.executeBatch'' (batch_payload tid sts)) \<le> 9999"
    and "length sts = n" and "encodedBytes (bridge_response (JObj [(''changes'', JInt (int n))])) \<le> 9999"
  shows "\<exists>v. batchN tid sts db = (Inr v, db')"
  using assms by (simp add: batchN_def invoke_def native_batch_def MAX_BRIDGE_BYTES_def)

lemma example_provider_rooms [simp]: "\<not> current_demo opened_phone" "\<not> current_demo (prepared_phone t)"
  by (simp_all add: current_demo_def prepared_phone_def opened_phone_def phone_room_of_def)

end
