(* ===== verification/Phone_Director.thy ===== *)
theory Phone_Director
  imports Phone_Example Director_Claims
begin

text \<open>
  The director of a room on the phone: between two turns it lives only as the snapshot in the native
  database. The runtime restores it, lets it schedule the next line and stores the snapshot in the
  prepared command, which becomes the room's state when the turn is committed. Here: whatever the
  interleaving, a stored state can be restored.
\<close>

section \<open>Directors and contexts\<close>

text \<open>A state over a roster that restores, after at most \<open>n\<close> accepted lines.\<close>

definition restorable :: "string list \<Rightarrow> nat \<Rightarrow> jval \<Rightarrow> bool" where
  "restorable ids n s \<longleftrightarrow> (\<exists>d. director_wf d \<and> personas d = ids \<and> s = snapshot d \<and> acceptedHumanEventNumber d \<le> n \<and>
     int (acceptedHumanEventNumber d) \<le> max_safe_integer)"

lemma restorable_mono: "restorable ids n s \<Longrightarrow> n \<le> m \<Longrightarrow> restorable ids m s"
  by (force simp: restorable_def)

lemma snapshot_json_ok: "json_ok (snapshot d)"
  by (auto simp: snapshot_def)

definition catalog_ok :: "app_bundle \<Rightarrow> bool" where
  "catalog_ok bu \<longleftrightarrow> (\<forall>p \<in> set (bu_personas bu). js_canonical (pp_slug p))"

lemma catalog_canonical: "catalog_ok bu \<Longrightarrow> catalog_of bu (JStr s) = Some p \<Longrightarrow> js_canonical s"
  by (auto simp: catalog_ok_def catalog_of_def find_Some_iff)

definition context_ids :: "jval \<Rightarrow> string list" where
  "context_ids c = map (\<lambda>p. jstr (jget ''id'' p)) (context_personas c)"

lemma mute_step: "setMuted e p m = Inr e' \<Longrightarrow> personas e' = personas e \<and> acceptedHumanEventNumber e' = acceptedHumanEventNumber e"
  by (auto simp: setMuted_def split: if_splits)

lemma mute_all_ok:
  assumes "director_wf d" and "\<forall>p \<in> set ps. jstr (jget ''id'' p) \<in> set (personas d)"
  shows "\<exists>d'. mute_all ps d = Inr d' \<and> director_wf d' \<and> personas d' = personas d \<and> acceptedHumanEventNumber d' = acceptedHumanEventNumber d"
  using assms(2)
proof (induction ps rule: rev_induct)
  case Nil
  then show ?case using assms(1) by (simp add: mute_all_def)
next
  case (snoc p ps)
  then obtain d1 where d1: "mute_all ps d = Inr d1" "director_wf d1" "personas d1 = personas d" "acceptedHumanEventNumber d1 = acceptedHumanEventNumber d"
    by auto
  have "jstr (jget ''id'' p) \<in> set (personas d1)" using snoc.prems d1(3) by simp
  then obtain d2 where d2: "setMuted d1 (jstr (jget ''id'' p)) (jget ''muted'' p = JBool True) = Inr d2" by (simp add: setMuted_def)
  have "mute_all (ps @ [p]) d = Inr d2" using d1(1) d2 by (simp add: mute_all_def)
  then show ?case using setMuted_wf [OF d1(2) d2] mute_step [OF d2] d1(3,4) by auto
qed

lemma new_director_ok:
  assumes "distinct ids" and "\<forall>i \<in> set ids. js_canonical i"
  shows "\<exists>d. newDirector ids JUndefined JUndefined = Inr d \<and> director_wf d \<and> personas d = ids \<and> acceptedHumanEventNumber d = 0"
proof -
  have "mapE (\<lambda>p. requireCanonicalIdentifier p ''persona id'' None) ids = Inr (map id ids)"
    using assms(2) by (intro mapE_InrI) (simp add: requireCanonicalIdentifier_iff)
  then have "\<exists>d. newDirector ids JUndefined JUndefined = Inr d \<and> personas d = ids \<and> acceptedHumanEventNumber d = 0"
    using assms(1) by (simp add: newDirector_def coalesce_def DEFAULT_AUTONOMOUS_TURN_BUDGET_def max_safe_integer_def)
  then show ?thesis using newDirector_wf by blast
qed

text \<open>A context that the runtime may have read: its director is restored.\<close>

definition good_context :: "jval \<Rightarrow> bool" where
  "good_context c \<longleftrightarrow> distinct (context_ids c) \<and> (\<forall>i \<in> set (context_ids c). js_canonical i) \<and> length (context_ids c) \<le> 3 \<and>
     1 \<le> next_of c \<and> int (next_of c) \<le> max_safe_integer \<and>
     (jget ''state'' c = JNull \<or> restorable (context_ids c) (next_of c - 1) (jget ''state'' c))"

lemma snapshot_not_null: "snapshot d \<noteq> JNull"
  by (simp add: snapshot_def)

lemma good_context_director:
  assumes "good_context c"
  shows "\<exists>d. context_director c = Inr d \<and> director_wf d \<and> personas d = context_ids c \<and> acceptedHumanEventNumber d < next_of c"
proof -
  have ids: "distinct (context_ids c)" "\<forall>i \<in> set (context_ids c). js_canonical i" "length (context_ids c) \<le> 3" "1 \<le> next_of c"
    using assms by (simp_all add: good_context_def)
  have "\<exists>d. newDirector (context_ids c) JUndefined (if jget ''state'' c = JNull then JUndefined else jget ''state'' c) = Inr d \<and>
      director_wf d \<and> personas d = context_ids c \<and> acceptedHumanEventNumber d < next_of c"
  proof (cases "jget ''state'' c = JNull")
    case True
    with new_director_ok [OF ids(1,2)] ids(4) show ?thesis by fastforce
  next
    case False
    with assms obtain d where d: "director_wf d" "personas d = context_ids c" "jget ''state'' c = snapshot d"
      "acceptedHumanEventNumber d \<le> next_of c - 1" "int (acceptedHumanEventNumber d) \<le> max_safe_integer"
      by (auto simp: good_context_def restorable_def)
    have "int (length (personas d)) \<le> max_safe_integer" using ids(3) d(2) by (simp add: max_safe_integer_def)
    from snapshot_restores [OF d(1,5) this] have "newDirector (context_ids c) JUndefined (snapshot d) = Inr (d\<lparr>muted := {}\<rparr>)" using d(2) by simp
    moreover from newDirector_wf [OF this] have "director_wf (d\<lparr>muted := {}\<rparr>)" .
    ultimately show ?thesis using d ids(4) False by (auto simp: snapshot_not_null)
  qed
  then obtain d where d: "newDirector (context_ids c) JUndefined (if jget ''state'' c = JNull then JUndefined else jget ''state'' c) = Inr d"
    "director_wf d" "personas d = context_ids c" "acceptedHumanEventNumber d < next_of c" by blast
  have "\<forall>p \<in> set (context_personas c). jstr (jget ''id'' p) \<in> set (personas d)" by (simp add: d(3) context_ids_def)
  from mute_all_ok [OF d(2) this] show ?thesis
    unfolding context_director_def using d(1,3,4) by (auto simp: context_ids_def [symmetric])
qed

section \<open>Scheduling a line\<close>

lemma schedule_accepts:
  assumes "schedule d input target = Inr (r, d')"
  shows "personas d' = personas d \<and> acceptedHumanEventNumber d' \<le> Suc (acceptedHumanEventNumber d)"
proof (cases input)
  case (Verified e)
  show ?thesis using assms Verified
    by (auto simp: schedule_def Let_def recordSeen_def scheduleHuman_window split: if_splits)
      (auto simp: scheduleHuman_window recordSeen_def Let_def prod_eq_iff dest!: arg_cong [of _ _ snd])+
next
  case Unverified
  then show ?thesis using assms by (auto simp: schedule_def split: if_splits)
qed

lemma schedule_human_ok:
  assumes "schedule_human room request t wants target d = Inr (r, d')" and "director_wf d"
  shows "director_wf d' \<and> personas d' = personas d \<and> acceptedHumanEventNumber d' \<le> Suc (acceptedHumanEventNumber d)"
proof -
  from assms(1) obtain ns input where run: "trustedEventAdapter (adapter_namespace room) = Inr ns" "humanEvent ns request t wants = Inr input"
    "schedule d input target = Inr (r, d')" by (auto simp: schedule_human_def)
  then have "adapter_input input" unfolding adapter_input_def humanEvent_def by blast
  from schedule_wf [OF assms(2) adapter_input_ok [OF this] run(3)] schedule_accepts [OF run(3)] show ?thesis by blast
qed

text \<open>What is decided from a good context carries a state that restores.\<close>

lemma scheduled_restorable:
  assumes "good_context c" and "context_director c = Inr d" and "schedule_human room request t wants target d = Inr (r, d')"
  shows "restorable (context_ids c) (next_of c) (snapshot d')"
proof -
  from good_context_director [OF assms(1)] assms(2) have d: "director_wf d" "personas d = context_ids c" "acceptedHumanEventNumber d < next_of c" by auto
  from schedule_human_ok [OF assms(3) d(1)] d have "director_wf d'" "personas d' = context_ids c" "acceptedHumanEventNumber d' \<le> next_of c" by auto
  moreover have "int (next_of c) \<le> max_safe_integer" using assms(1) by (simp add: good_context_def)
  ultimately show ?thesis unfolding restorable_def by (intro exI [of _ d']) simp
qed

lemma decided_restorable:
  assumes "good_context c" and "decide_turn bu sha i room human selection events c request t options = Inr (decided, command, planJSON)"
  shows "restorable (context_ids c) (gc_source command) (gc_snapshot command) \<and> gc_room command = jstr (jget ''id'' room)"
proof -
  from assms(2) obtain d target p plan where run: "context_director c = Inr d"
    "schedule_human room request t (coalesce (jget ''wantsResponse'' options) (JBool True) = JBool True) target d = Inr p"
    "command = planned_command i request (sha planJSON) room plan (human_event_json human t) (phone_director_event c (fst p) (next_of c))
       (snapshot (snd p)) (context_generation c) (next_of c) (speaker (fst p))"
    by (auto simp: decide_turn_def Let_def split: if_splits)
  from scheduled_restorable [OF assms(1) run(1), of room request t _ target "fst p" "snd p"] run(2,3) show ?thesis
    by (simp add: planned_command_def)
qed

section \<open>Reading a context\<close>

definition persona_ids :: "phone_db \<Rightarrow> string \<Rightarrow> string list" where
  "persona_ids db r = map php_id (room_personas db r)"

lemma context_json_ok:
  "phd_state row = None \<or> (\<exists>s. phd_state row = Some s \<and> json_ok s) \<Longrightarrow> json_ok (director_context_json db room row)"
  by (auto simp: director_context_json_def context_persona_json_def opt_jstr_def split: option.splits)

lemma queryN_ok:
  "queryN fits sqlId ps db = (Inr v, db') \<Longrightarrow> \<exists>column vs. query_rows sqlId ps db = Some (column, vs) \<and> v = rows_json column vs \<and> db' = db"
  by (auto simp: queryN_def invoke_def native_query_def split: if_splits option.splits)

lemma context_query:
  "query_rows ''director_context'' [r] db =
     Some (''director_context_json'', case (phone_room_of db r, phone_directors db r) of (Some room, Some row) \<Rightarrow> [director_context_json db room row] | _ \<Rightarrow> [])"
  by (simp add: query_rows_def)

lemma context_read:
  assumes run: "readDirectorContext fits bu view db = (Inr c, db')" and r: "r = jstr (jget ''id'' view)"
    and states: "\<And>room row. phone_room_of db r = Some room \<Longrightarrow> phone_directors db r = Some row \<Longrightarrow> phd_state row = None \<or> (\<exists>s. phd_state row = Some s \<and> json_ok s)"
  shows "\<exists>room row. phone_room_of db r = Some room \<and> phone_directors db r = Some row \<and> c = director_context_json db room row \<and>
    context_ok bu view c \<and> db' = db"
proof -
  from run obtain v where v: "queryN fits ''director_context'' [r] db = (Inr v, db')" "parseDirectorContext bu view v = Inr c"
    by (auto simp: readDirectorContext_def r)
  from queryN_ok [OF v(1)] context_query [of r db] have rows: "db' = db"
    "v = rows_json ''director_context_json'' (case (phone_room_of db r, phone_directors db r) of (Some room, Some row) \<Rightarrow> [director_context_json db room row] | _ \<Rightarrow> [])"
    by auto
  from v(2) rows(2) obtain room row where found: "phone_room_of db r = Some room" "phone_directors db r = Some row"
    by (auto simp: parseDirectorContext_def Let_def split: option.splits)
  have "json_parse (stringify (director_context_json db room row)) = Some (director_context_json db room row)"
    using states [OF found] by (intro parse_stringify context_json_ok)
  with v(2) rows(2) found have "c = director_context_json db room row" "context_ok bu view c"
    by (auto simp: parseDirectorContext_def Let_def parse_json_def split: if_splits)
  with found rows(1) show ?thesis by blast
qed

lemma context_fields [simp]:
  "context_personas (director_context_json db room row) = map context_persona_json (room_personas db (phr_id room))"
  "context_ids (director_context_json db room row) = persona_ids db (phr_id room)"
  "jget ''state'' (director_context_json db room row) = (case phd_state row of None \<Rightarrow> JNull | Some s \<Rightarrow> s)"
  "jget ''roomId'' (director_context_json db room row) = JStr (phr_id room)"
  "jget ''nextEventSequence'' (director_context_json db room row) = JInt (int (phr_next room))"
  by (simp_all add: context_personas_def context_ids_def persona_ids_def director_context_json_def context_persona_json_def comp_def)

lemma persona_id_canonical:
  assumes "catalog_ok bu" and "persona_known bu p" and "jget ''id'' p = JStr i"
  shows "js_canonical i"
  using assms catalog_canonical by (fastforce simp: persona_known_def split: option.splits)

lemma context_ok_good:
  assumes ok: "context_ok bu view c" and cat: "catalog_ok bu" and c: "c = director_context_json db room row"
    and state: "\<And>s. phd_state row = Some s \<Longrightarrow> restorable (persona_ids db (phr_id room)) (phr_next room - 1) s"
  shows "good_context c \<and> next_of c = phr_next room"
proof -
  let ?ps = "room_personas db (phr_id room)"
  have next_safe: "safe_pos (jget ''nextEventSequence'' c)" using ok by (simp add: context_ok_def)
  then have n: "next_of c = phr_next room" "1 \<le> phr_next room" "int (phr_next room) \<le> max_safe_integer"
    by (auto simp: c safe_pos_def next_of_def split: if_splits)
  have dist: "distinct (map (jget ''id'') (context_personas c))" using ok by (simp add: context_ok_def)
  then have "distinct (map (\<lambda>p. JStr (php_id p)) ?ps)" by (simp add: c comp_def context_persona_json_def)
  then have ids: "distinct (context_ids c)" unfolding c context_fields persona_ids_def by (auto simp: distinct_map inj_on_def)
  have "case jlist (jget ''personas'' c) of None \<Rightarrow> False | Some ps \<Rightarrow> 1 \<le> length ps \<and> length ps \<le> MAX_CAST"
    using ok by (simp add: context_ok_def)
  moreover have "jlist (jget ''personas'' c) = Some (map context_persona_json ?ps)" by (simp add: c director_context_json_def)
  ultimately have len: "length (context_ids c) \<le> 3" by (simp add: MAX_CAST_def c persona_ids_def)
  have "js_canonical (php_id p)" if "p \<in> set ?ps" for p
  proof -
    from that obtain i where i: "i < length ?ps" "?ps ! i = p" by (auto simp: in_set_conv_nth)
    have "list_all (context_persona_ok bu) (zip [0..<length (context_personas c)] (context_personas c))" using ok by (simp add: context_ok_def)
    then have "context_persona_ok bu (zip [0..<length ?ps] (map context_persona_json ?ps) ! i)"
      using i(1) unfolding list_all_length by (simp add: c)
    then have "persona_known bu (context_persona_json p)" using i by (simp add: context_persona_ok_def)
    from persona_id_canonical [OF cat this] show ?thesis by (simp add: context_persona_json_def)
  qed
  then have canon: "\<forall>i \<in> set (context_ids c). js_canonical i" by (auto simp: c persona_ids_def)
  show ?thesis
    using ids canon len n state by (auto simp: good_context_def c split: option.splits)
qed

section \<open>Every interleaving\<close>

text \<open>
  The statements that run beside the preparation of turns. A room is created by one batch; a context,
  once read, may be used at any later time, even after other turns were prepared or committed.
\<close>

inductive background_statement :: "(phone_db \<Rightarrow> phone_db option) \<Rightarrow> bool" where
  "background_statement (begin_command i q d plan n ref mutation)"
| "background_statement (fail_command code i q d n)"
| "background_statement (interrupt_command code i q d n)"
| "background_statement (complete_command t i q d n)"
| "background_statement (complete_silent i q d n)"
| "background_statement (abandon_command code i q d)"
| "background_statement (fail_not_started i q d n)"
| "background_statement (select_phone_room r)"
| "background_statement (save_draft r t)"
| "background_statement (delete_draft r)"

definition effects :: "statement list \<Rightarrow> (phone_db \<Rightarrow> phone_db option) list" where
  "effects sts = map (\<lambda>s. snd (snd s)) sts"

inductive turn_reach :: "app_bundle \<Rightarrow> (string \<Rightarrow> string) \<Rightarrow> jval set \<Rightarrow> phone_db \<Rightarrow> bool" for bu sha where
  start: "turn_reach bu sha {} empty_phone"
| create: "turn_reach bu sha C db \<Longrightarrow> run_statements (effects (create_statements r human ps demo)) db = Some db' \<Longrightarrow> turn_reach bu sha C db'"
| read: "turn_reach bu sha C db \<Longrightarrow> readDirectorContext fits bu room db = (Inr c, db') \<Longrightarrow> turn_reach bu sha (insert c C) db'"
| prepare: "turn_reach bu sha C db \<Longrightarrow> c \<in> C \<Longrightarrow> jget ''id'' room = jget ''roomId'' c \<Longrightarrow>
    decide_turn bu sha i room human selection events c request t options = Inr (decided, command, planJSON) \<Longrightarrow>
    prepare_command command db = Some db' \<Longrightarrow> turn_reach bu sha C db'"
| demo: "turn_reach bu sha C db \<Longrightarrow> c \<in> C \<Longrightarrow> jget ''id'' room = jget ''roomId'' c \<Longrightarrow>
    decide_demo_turn bu room human c request t options = Inr (decided, who, reply, sts) \<Longrightarrow>
    run_statements (effects sts) db = Some db' \<Longrightarrow> turn_reach bu sha C db'"
| background: "turn_reach bu sha C db \<Longrightarrow> background_statement f \<Longrightarrow> f db = Some db' \<Longrightarrow> turn_reach bu sha C db'"
| activated: "turn_reach bu sha C db \<Longrightarrow> turn_reach bu sha C (interrupt_in_flight db)"
| configured: "turn_reach bu sha C db \<Longrightarrow> turn_reach bu sha C (db\<lparr>phone_settings := st\<rparr>)"

definition room_state_ok :: "phone_db \<Rightarrow> phone_room \<Rightarrow> bool" where
  "room_state_ok db room \<longleftrightarrow>
     (\<forall>row s. phone_directors db (phr_id room) = Some row \<longrightarrow> phd_state row = Some s \<longrightarrow>
        restorable (persona_ids db (phr_id room)) (phr_next room - 1) s)"

definition context_of_room :: "phone_db \<Rightarrow> jval \<Rightarrow> bool" where
  "context_of_room db c \<longleftrightarrow> good_context c \<and>
     (\<exists>room \<in> set (phone_rooms db). jget ''roomId'' c = JStr (phr_id room) \<and> context_ids c = persona_ids db (phr_id room))"

definition turn_ok :: "jval set \<Rightarrow> phone_db \<Rightarrow> bool" where
  "turn_ok C db \<longleftrightarrow> phone_ok db \<and> (\<forall>room \<in> set (phone_rooms db). room_state_ok db room) \<and>
     (\<forall>c \<in> set (phone_commands db). restorable (persona_ids db (gc_room c)) (gc_source c) (gc_snapshot c)) \<and>
     (\<forall>c \<in> C. context_of_room db c)"

lemma turn_ok_frame:
  assumes ok: "turn_ok C db" and ok': "phone_ok db'"
    and ids: "\<And>r. r \<in> phr_id ` set (phone_rooms db) \<Longrightarrow> persona_ids db' r = persona_ids db r"
    and keep: "phr_id ` set (phone_rooms db) \<subseteq> phr_id ` set (phone_rooms db')"
    and rooms: "\<And>room'. room' \<in> set (phone_rooms db') \<Longrightarrow> room_state_ok db' room'"
    and cmds: "\<And>c'. c' \<in> set (phone_commands db') \<Longrightarrow> \<exists>c \<in> set (phone_commands db). same_core c c'"
  shows "turn_ok C db'"
proof -
  have pok: "phone_ok db" using ok by (simp add: turn_ok_def)
  have "restorable (persona_ids db' (gc_room c')) (gc_source c') (gc_snapshot c')" if c': "c' \<in> set (phone_commands db')" for c'
  proof -
    from cmds [OF c'] obtain c where c: "c \<in> set (phone_commands db)" "gc_room c' = gc_room c" "gc_source c' = gc_source c" "gc_snapshot c' = gc_snapshot c"
      by (auto simp: same_core_def)
    have "restorable (persona_ids db (gc_room c)) (gc_source c) (gc_snapshot c)" using ok c(1) by (simp add: turn_ok_def)
    then show ?thesis using ids [OF phone_okD(5) [OF pok c(1)]] c by simp
  qed
  moreover have "context_of_room db' c" if "c \<in> C" for c
  proof -
    have "context_of_room db c" using ok that by (simp add: turn_ok_def)
    then obtain room where room: "room \<in> set (phone_rooms db)" "jget ''roomId'' c = JStr (phr_id room)" "context_ids c = persona_ids db (phr_id room)"
      "good_context c" by (auto simp: context_of_room_def)
    have "phr_id room \<in> phr_id ` set (phone_rooms db')" using keep room(1) by blast
    then obtain room' where room': "room' \<in> set (phone_rooms db')" "phr_id room' = phr_id room" by (metis imageE)
    have "persona_ids db' (phr_id room) = persona_ids db (phr_id room)" using ids room(1) by simp
    then show ?thesis unfolding context_of_room_def using room room' by (intro conjI bexI [of _ room']) simp_all
  qed
  ultimately show ?thesis using ok' rooms by (simp add: turn_ok_def)
qed

lemma persona_ids_frame: "phone_people db' = phone_people db \<Longrightarrow> persona_ids db' r = persona_ids db r"
  by (simp add: persona_ids_def room_personas_def room_people_def)

lemma room_state_frame:
  assumes "room_state_ok db room" and "phr_id room' = phr_id room" and "phr_next room \<le> phr_next room'"
    and "phone_directors db' (phr_id room) = phone_directors db (phr_id room)" and "persona_ids db' (phr_id room) = persona_ids db (phr_id room)"
  shows "room_state_ok db' room'"
  using assms restorable_mono by (fastforce simp: room_state_ok_def)

text \<open>Steps that change no director and create nothing.\<close>

lemma turn_ok_quiet:
  assumes ok: "turn_ok C db" and ok': "phone_ok db'" and same: "phone_people db' = phone_people db" "phone_rooms db' = phone_rooms db"
    "phone_directors db' = phone_directors db"
    and cmds: "\<And>c'. c' \<in> set (phone_commands db') \<Longrightarrow> \<exists>c \<in> set (phone_commands db). same_core c c'"
  shows "turn_ok C db'"
proof (rule turn_ok_frame [OF ok ok'])
  show "room_state_ok db' room'" if "room' \<in> set (phone_rooms db')" for room'
  proof (rule room_state_frame)
    show "room_state_ok db room'" using ok that unfolding same(2) turn_ok_def by blast
  qed (simp_all only: same(3) persona_ids_frame [OF same(1)] order_refl)
  show "\<And>r. persona_ids db' r = persona_ids db r" by (rule persona_ids_frame [OF same(1)])
  show "phr_id ` set (phone_rooms db) \<subseteq> phr_id ` set (phone_rooms db')" by (simp add: same(2))
qed (rule cmds)

lemma turn_ok_same:
  assumes "turn_ok C db" and "phone_ok db'" and "phone_people db' = phone_people db" "phone_rooms db' = phone_rooms db"
    "phone_directors db' = phone_directors db" "phone_commands db' = phone_commands db"
  shows "turn_ok C db'"
proof (rule turn_ok_quiet [OF assms(1-5)])
  show "\<exists>c \<in> set (phone_commands db). same_core c c'" if "c' \<in> set (phone_commands db')" for c'
    using that same_core_refl unfolding assms(6) by blast
qed

text \<open>Steps that give one room a new state.\<close>

lemma turn_ok_advance:
  assumes ok: "turn_ok C db" and ok': "phone_ok db'" and same: "phone_people db' = phone_people db"
    and rooms: "phone_rooms db' = map (advanced r k) (phone_rooms db)"
    and directors: "phone_directors db' = phone_directors db \<or> (\<exists>row'. phone_directors db' = (phone_directors db)(r \<mapsto> row') \<and> phd_state row' = Some s)"
    and s: "restorable (persona_ids db r) n s" and next_of_r: "\<And>room. room \<in> set (phone_rooms db) \<Longrightarrow> phr_id room = r \<Longrightarrow> n \<le> phr_next room + k - 1"
    and cmds: "\<And>c'. c' \<in> set (phone_commands db') \<Longrightarrow> \<exists>c \<in> set (phone_commands db). same_core c c'"
  shows "turn_ok C db'"
proof (rule turn_ok_frame [OF ok ok'])
  show "room_state_ok db' room'" if room': "room' \<in> set (phone_rooms db')" for room'
  proof -
    from room' rooms obtain room where room: "room \<in> set (phone_rooms db)" "room' = advanced r k room" by auto
    have old: "room_state_ok db room" using ok room(1) by (simp add: turn_ok_def)
    show ?thesis
    proof (cases "phr_id room = r \<and> phone_directors db' \<noteq> phone_directors db")
      case True
      then obtain row' where "phone_directors db' = (phone_directors db)(r \<mapsto> row')" "phd_state row' = Some s" using directors by blast
      moreover have "restorable (persona_ids db' r) (phr_next room' - 1) s"
        using restorable_mono [OF s] next_of_r [OF room(1)] True persona_ids_frame [OF same] room(2) by simp
      ultimately show ?thesis using True room(2) by (auto simp: room_state_ok_def)
    next
      case False
      then have "phone_directors db' (phr_id room) = phone_directors db (phr_id room)" using directors by auto
      then show ?thesis using room_state_frame [OF old, of room' db'] persona_ids_frame [OF same] room(2) by simp
    qed
  qed
  show "\<And>r. persona_ids db' r = persona_ids db r" by (rule persona_ids_frame [OF same])
  show "phr_id ` set (phone_rooms db) \<subseteq> phr_id ` set (phone_rooms db')" by (simp add: rooms image_image)
qed (rule cmds)

lemma update_turn_ok:
  assumes ok: "turn_ok C db" and ok': "phone_ok db'" and run: "update_command i P f db = Some db'"
    and P: "\<And>c. P c \<Longrightarrow> unresolved c \<and> same_core c (f c)"
  shows "turn_ok C db'"
proof -
  have pok: "phone_ok db" using ok by (simp add: turn_ok_def)
  from update_effect [OF pok run P] obtain c where c: "c \<in> set (phone_commands db)" "same_core c (f c)"
    and cmds: "phone_commands db' = map (replaced (f c)) (phone_commands db)" and people: "phone_people db' = phone_people db"
    and rest: "(phone_rooms db' = phone_rooms db \<and> phone_directors db' = phone_directors db) \<or> commits c db db'" by blast
  have core: "\<exists>x \<in> set (phone_commands db). same_core x c'" if "c' \<in> set (phone_commands db')" for c'
  proof -
    from that obtain x where x: "x \<in> set (phone_commands db)" "c' = replaced (f c) x" by (auto simp: cmds)
    show ?thesis
    proof (cases "gc_id x = gc_id (f c)")
      case True
      then have "c' = f c" using x(2) by (simp add: replaced_def)
      then show ?thesis using c by blast
    next
      case False
      then have "c' = x" using x(2) by (simp add: replaced_def)
      then show ?thesis using x(1) same_core_refl by blast
    qed
  qed
  from rest show ?thesis
  proof
    assume "phone_rooms db' = phone_rooms db \<and> phone_directors db' = phone_directors db"
    then show ?thesis using turn_ok_quiet [OF ok ok' people _ _ core] by blast
  next
    assume com: "commits c db db'"
    then obtain k where k: "k \<ge> 2" "phone_rooms db' = map (advanced (gc_room c) k) (phone_rooms db)" by (auto simp: commits_def)
    have s: "restorable (persona_ids db (gc_room c)) (gc_source c) (gc_snapshot c)" using ok c(1) by (simp add: turn_ok_def)
    have "gc_source c \<le> phr_next room + k - 1" if "room \<in> set (phone_rooms db)" "phr_id room = gc_room c" for room
    proof -
      from phone_room_of_eq [OF phone_okD(1) [OF pok] that(1)] that(2) have "phone_room_of db (gc_room c) = Some room" by simp
      then have "phr_next room = gc_source c" using com by (simp add: commits_def completion_fenced_def)
      then show ?thesis using k(1) by simp
    qed
    moreover have "phone_directors db' = phone_directors db \<or>
       (\<exists>row'. phone_directors db' = (phone_directors db)(gc_room c \<mapsto> row') \<and> phd_state row' = Some (gc_snapshot c))"
      using com by (simp add: commits_def)
    ultimately show ?thesis using turn_ok_advance [OF ok ok' people k(2) _ s _ core] by blast
  qed
qed

lemma update_statements_turn_ok:
  assumes ok: "turn_ok C db" and ok': "phone_ok db'"
  shows "begin_command i q d plan n ref mutation db = Some db' \<Longrightarrow> turn_ok C db'"
    and "fail_command code i q d n db = Some db' \<Longrightarrow> turn_ok C db'" and "interrupt_command code i q d n db = Some db' \<Longrightarrow> turn_ok C db'"
    and "complete_command t i q d n db = Some db' \<Longrightarrow> turn_ok C db'" and "complete_silent i q d n db = Some db' \<Longrightarrow> turn_ok C db'"
    and "abandon_command code i q d db = Some db' \<Longrightarrow> turn_ok C db'" and "fail_not_started i q d n db = Some db' \<Longrightarrow> turn_ok C db'"
  unfolding begin_command_def fail_command_def interrupt_command_def complete_command_def complete_silent_def
    abandon_command_def fail_not_started_def
  by (erule update_turn_ok [OF ok ok']; auto simp: same_core_def unresolved_def)+

lemma background_keeps:
  assumes ok: "turn_ok C db" and f: "background_statement f" and run: "f db = Some db'"
  shows "turn_ok C db'"
proof -
  have "phone_statement f" using f by (cases rule: background_statement.cases) (auto intro: phone_statement.intros)
  then have ok': "phone_ok db'" using statements_keep run ok by (auto simp: turn_ok_def)
  note upd = update_statements_turn_ok [OF ok ok']
  from f show ?thesis
  proof cases
    case (8 r)
    then show ?thesis using run by (intro turn_ok_same [OF ok ok']) (auto simp: select_phone_room_def split: if_splits)
  next
    case (9 r t)
    then show ?thesis using run by (intro turn_ok_same [OF ok ok']) (auto simp: save_draft_def split: if_splits)
  next
    case (10 r)
    then show ?thesis using run by (intro turn_ok_same [OF ok ok']) (auto simp: delete_draft_def)
  next
    case 1
    show ?thesis by (rule upd(1) [OF run [unfolded 1]])
  next
    case 2
    show ?thesis by (rule upd(2) [OF run [unfolded 2]])
  next
    case 3
    show ?thesis by (rule upd(3) [OF run [unfolded 3]])
  next
    case 4
    show ?thesis by (rule upd(4) [OF run [unfolded 4]])
  next
    case 5
    show ?thesis by (rule upd(5) [OF run [unfolded 5]])
  next
    case 6
    show ?thesis by (rule upd(6) [OF run [unfolded 6]])
  next
    case 7
    show ?thesis by (rule upd(7) [OF run [unfolded 7]])
  qed
qed

lemma activation_turn_ok: "turn_ok C db \<Longrightarrow> turn_ok C (interrupt_in_flight db)"
proof (rule turn_ok_quiet)
  assume ok: "turn_ok C db"
  then show "turn_ok C db" .
  show "phone_ok (interrupt_in_flight db)" using ok by (simp add: turn_ok_def activation_keeps)
  show "\<exists>c \<in> set (phone_commands db). same_core c c'" if "c' \<in> set (phone_commands (interrupt_in_flight db))" for c'
    using that by (auto simp: interrupt_in_flight_def not_executing_def same_core_def)
qed (simp_all add: interrupt_in_flight_def)

lemma settings_turn_ok:
  assumes "turn_ok C db"
  shows "turn_ok C (db\<lparr>phone_settings := st\<rparr>)"
proof (rule turn_ok_same [OF assms])
  show "phone_ok (db\<lparr>phone_settings := st\<rparr>)" using assms unfolding turn_ok_def by (elim conjE turns_ok_frame) simp_all
qed simp_all

lemma same_rooms:
  assumes "phone_people db' = phone_people db" and "phone_rooms db' = phone_rooms db" and "phone_directors db' = phone_directors db"
  shows "room_state_ok db' room = room_state_ok db room" and "context_of_room db' c = context_of_room db c"
  unfolding room_state_ok_def context_of_room_def assms persona_ids_frame [OF assms(1)] by simp_all

lemma prepare_turn_ok:
  assumes ok: "turn_ok C db" and c: "c \<in> C" "jget ''id'' view = jget ''roomId'' c"
    and decide: "decide_turn bu sha i view human selection events c request t options = Inr (decided, command, planJSON)"
    and run: "prepare_command command db = Some db'"
  shows "turn_ok C db'"
proof -
  have ctx: "context_of_room db c" using ok c(1) by (simp add: turn_ok_def)
  then obtain room :: phone_room where room: "jget ''roomId'' c = JStr (phr_id room)" "context_ids c = persona_ids db (phr_id room)" "good_context c"
    unfolding context_of_room_def by blast
  from decided_restorable [OF room(3) decide] c(2) room have new:
    "restorable (persona_ids db (gc_room command)) (gc_source command) (gc_snapshot command)" by simp
  from run obtain x where x: "db' = db\<lparr>phone_commands := phone_commands db @ [x]\<rparr>" "gc_room x = gc_room command" "gc_source x = gc_source command"
    "gc_snapshot x = gc_snapshot command"
    unfolding prepare_command_def Let_def by (auto split: option.splits if_splits)
  have same: "phone_people db' = phone_people db" "phone_rooms db' = phone_rooms db" "phone_directors db' = phone_directors db" by (simp_all add: x(1))
  have "phone_ok db'" using prepare_command_keeps [OF _ run] ok by (simp add: turn_ok_def)
  moreover have "\<forall>c' \<in> set (phone_commands db'). restorable (persona_ids db' (gc_room c')) (gc_source c') (gc_snapshot c')"
    using ok new x persona_ids_frame [OF same(1)] by (auto simp: turn_ok_def)
  ultimately show ?thesis using ok unfolding turn_ok_def same(2) same_rooms [OF same] by blast
qed

lemma run_statements_Cons: "run_statements (f # fs) db = Option.bind (f db) (run_statements fs)"
proof -
  have none: "foldl Option.bind None gs = None" for gs :: "(phone_db \<Rightarrow> phone_db option) list" by (induction gs) simp_all
  show ?thesis by (cases "f db") (simp_all add: run_statements_def none)
qed

lemma run_statements_Nil: "run_statements [] db = Some db"
  by (simp add: run_statements_def)

lemma demo_turn_keeps:
  assumes ok: "turn_ok C db" and c: "c \<in> C" "jget ''id'' view = jget ''roomId'' c"
    and decide: "decide_demo_turn bu view human c request t options = Inr (decided, who, reply, sts)"
    and run: "run_statements (effects sts) db = Some db'"
  shows "turn_ok C db'"
proof -
  have pok: "phone_ok db" using ok by (simp add: turn_ok_def)
  have ctx: "context_of_room db c" using ok c(1) by (simp add: turn_ok_def)
  then obtain room0 :: phone_room where room0: "jget ''roomId'' c = JStr (phr_id room0)" "context_ids c = persona_ids db (phr_id room0)" "good_context c"
    unfolding context_of_room_def by blast
  let ?r = "phr_id room0"
  have r: "jstr (jget ''id'' view) = ?r" using c(2) room0(1) by simp
  from decide obtain d target p turns h dj pj where sched: "context_director c = Inr d" "schedule_human view request t True target d = Inr p"
    "sts = completed_demo_statements view (context_generation c) (next_of c) who turns (snapshot (snd p)) h dj pj"
    by (auto simp: decide_demo_turn_def Let_def split: option.splits)
  have "run_statements [Some, Some, Some, Some] = Some" by (rule ext) (simp add: run_statements_def)
  with run have demo: "demo_turn ?r (context_generation c) (next_of c) who turns (snapshot (snd p)) h dj pj db = Some db'"
    by (simp add: sched(3) completed_demo_statements_def effects_def Let_def run_statements_Cons [of "demo_turn _ _ _ _ _ _ _ _ _"] r)
  from demo_effect [OF pok demo] obtain room row where eff: "phone_room_of db ?r = Some room" "phr_next room = next_of c"
    "phone_rooms db' = map (advanced ?r 3) (phone_rooms db)" "phone_directors db' = (phone_directors db)(?r \<mapsto> row)"
    "phd_state row = Some (snapshot (snd p))" "phone_people db' = phone_people db" "phone_commands db' = phone_commands db" by blast
  have ok': "phone_ok db'" using demo_keeps [OF pok demo] .
  from scheduled_restorable [OF room0(3) sched(1), of view request t True target "fst p" "snd p"] sched(2) room0(2)
  have s: "restorable (persona_ids db ?r) (next_of c) (snapshot (snd p))" by simp
  have "next_of c \<le> phr_next x + 3 - 1" if "x \<in> set (phone_rooms db)" "phr_id x = ?r" for x
  proof -
    have "x = room" using same_room [OF phone_okD(1) [OF pok] that(1)] phone_room_of_Some [OF eff(1)] that(2) by simp
    then show ?thesis using eff(2) by simp
  qed
  moreover have "\<exists>x \<in> set (phone_commands db). same_core x c'" if "c' \<in> set (phone_commands db')" for c'
    using that same_core_refl unfolding eff(7) by blast
  ultimately show ?thesis using turn_ok_advance [OF ok ok' eff(6,3) _ s] eff(4,5) by blast
qed

text \<open>The batch that creates a room.\<close>

definition building :: "string \<Rightarrow> phone_db \<Rightarrow> phone_db \<Rightarrow> bool" where
  "building r db0 db \<longleftrightarrow> phone_ok db \<and> phone_commands db = phone_commands db0 \<and> phone_directors db = phone_directors db0 \<and>
     (\<forall>r'. r' \<noteq> r \<longrightarrow> persona_ids db r' = persona_ids db0 r') \<and> r \<notin> phr_id ` set (phone_rooms db0) \<and>
     (\<exists>room. phone_rooms db = phone_rooms db0 @ [room] \<and> phr_id room = r)"

lemma building_room: "phone_ok db \<Longrightarrow> create_room r title demo db = Some db' \<Longrightarrow> building r db db'"
proof -
  assume ok: "phone_ok db" and run: "create_room r title demo db = Some db'"
  then have "phone_room_of db r = None" and db': "db' = db\<lparr>phone_rooms := phone_rooms db @
      [\<lparr>phr_id = r, phr_title = title, phr_status = Active, phr_demo = demo, phr_generation = 0, phr_next = 1\<rparr>]\<rparr>"
    by (auto simp: create_room_def split: if_splits)
  then have "r \<notin> phr_id ` set (phone_rooms db)" by (simp add: phone_room_of_None)
  moreover have "phone_ok db'" using create_room_keeps [OF ok run] .
  moreover have "persona_ids db' r' = persona_ids db r'" for r' by (rule persona_ids_frame) (simp add: db')
  ultimately show ?thesis by (simp add: building_def db')
qed

lemma building_participant:
  assumes b: "building r db0 db" and run: "create_participant i r name order slug db = Some db'"
  shows "building r db0 db'"
proof -
  define p where "p = \<lparr>php_room = r, php_id = i, php_name = name, php_muted = False, php_order = order, php_slug = slug\<rparr>"
  from run have p: "php_room p = r" "db' = db\<lparr>phone_people := phone_people db @ [p]\<rparr>"
    by (auto simp: create_participant_def p_def split: if_splits)
  have "phone_ok db'" using statements_keep [OF phone_statement.intros(10) _ run] b by (simp add: building_def)
  moreover have "persona_ids db' r' = persona_ids db r'" if "r' \<noteq> r" for r'
    using that p by (simp add: persona_ids_def room_personas_def room_people_def)
  ultimately show ?thesis using b p by (simp add: building_def)
qed

lemma building_participants:
  "building r db0 db \<Longrightarrow> run_statements fs db = Some db' \<Longrightarrow> (\<forall>f \<in> set fs. \<exists>i name order slug. f = create_participant i r name order slug) \<Longrightarrow>
   building r db0 db'"
proof (induction fs arbitrary: db)
  case Nil
  then show ?case by (simp add: run_statements_Nil)
next
  case (Cons f fs)
  then obtain db1 where "f db = Some db1" "run_statements fs db1 = Some db'" by (auto simp: run_statements_Cons bind_eq_Some_conv)
  moreover from this Cons.prems have "building r db0 db1" using building_participant by fastforce
  ultimately show ?case using Cons.IH Cons.prems(3) by simp
qed

lemma run_statements_append: "run_statements (fs @ gs) db = Option.bind (run_statements fs db) (run_statements gs)"
proof (induction fs arbitrary: db)
  case (Cons f fs)
  then show ?case by (cases "f db") (simp_all add: run_statements_Cons)
qed (simp add: run_statements_Nil)

lemma create_turn_ok:
  assumes ok: "turn_ok C db" and run: "run_statements (effects (create_statements r human ps demo)) db = Some db'"
  shows "turn_ok C db'"
proof -
  have pok: "phone_ok db" using ok by (simp add: turn_ok_def)
  let ?people = "map (\<lambda>s. snd (snd s)) ((''create_human'', [JStr human, JStr r, JStr ''You''], create_participant human r ''You'' 0 None) #
      map (persona_statement r) (zip [0..<length ps] ps))"
  have split: "effects (create_statements r human ps demo) =
      [create_room r (castTitle ps) demo] @ ?people @ [create_director r, select_phone_room r]"
    by (simp add: effects_def create_statements_def)
  from run obtain db1 db2 db3 where db1: "create_room r (castTitle ps) demo db = Some db1" and db2: "run_statements ?people db1 = Some db2"
    and db3: "create_director r db2 = Some db3" and db': "select_phone_room r db3 = Some db'"
    unfolding split run_statements_append
    by (auto simp: run_statements_Cons run_statements_Nil bind_eq_Some_conv)
  have "building r db db2"
    using building_participants [OF building_room [OF pok db1] db2] by (auto simp: persona_statement_def)
  then obtain room where b: "phone_ok db2" "phone_commands db2 = phone_commands db" "phone_directors db2 = phone_directors db"
    "\<And>r'. r' \<noteq> r \<Longrightarrow> persona_ids db2 r' = persona_ids db r'" "r \<notin> phr_id ` set (phone_rooms db)"
    "phone_rooms db2 = phone_rooms db @ [room]" "phr_id room = r" by (auto simp: building_def)
  from db3 db' obtain row where fin: "phone_directors db' = (phone_directors db)(r \<mapsto> row)" "phd_state row = None" "phone_rooms db' = phone_rooms db @ [room]"
    "phone_commands db' = phone_commands db" "phone_people db' = phone_people db2"
    by (auto simp: create_director_def select_phone_room_def b split: if_splits)
  have ids: "persona_ids db' r' = persona_ids db r'" if "r' \<noteq> r" for r' using b(4) [OF that] persona_ids_frame [OF fin(5)] by simp
  show ?thesis
  proof (rule turn_ok_frame [OF ok])
    have "phone_ok db3" using statements_keep [OF phone_statement.intros(11) b(1) db3] .
    then show "phone_ok db'" using statements_keep [OF phone_statement.intros(12) _ db'] by simp
    show "persona_ids db' r' = persona_ids db r'" if "r' \<in> phr_id ` set (phone_rooms db)" for r'
    proof (rule ids)
      show "r' \<noteq> r" using that b(5) by (cases "r' = r") simp_all
    qed
    show "phr_id ` set (phone_rooms db) \<subseteq> phr_id ` set (phone_rooms db')" unfolding fin(3) by auto
    show "room_state_ok db' room'" if m: "room' \<in> set (phone_rooms db')" for room'
    proof (cases "phr_id room' = r")
      case True
      then show ?thesis by (simp add: room_state_ok_def fin(1,2))
    next
      case False
      then have old: "room' \<in> set (phone_rooms db)" using m b(7) by (auto simp: fin(3))
      then have "room_state_ok db room'" using ok by (simp add: turn_ok_def)
      from room_state_frame [OF this refl order_refl _ ids [OF False]] show ?thesis using False by (simp add: fin(1))
    qed
    show "\<exists>c \<in> set (phone_commands db). same_core c c'" if "c' \<in> set (phone_commands db')" for c'
      using that same_core_refl unfolding fin(4) by blast
  qed
qed

lemma read_good:
  assumes cat: "catalog_ok bu" and ok: "turn_ok C db" and run: "readDirectorContext fits bu view db = (Inr c, db')"
  shows "context_of_room db c \<and> db' = db \<and> context_ids c = persona_ids db (jstr (jget ''id'' view))"
proof -
  let ?r = "jstr (jget ''id'' view)"
  have state: "restorable (persona_ids db (phr_id room)) (phr_next room - 1) s"
    if "phone_room_of db ?r = Some room" "phone_directors db ?r = Some row" "phd_state row = Some s" for room row s
    using ok that phone_room_of_Some [OF that(1)] by (auto simp: turn_ok_def room_state_ok_def)
  have json: "phd_state row = None \<or> (\<exists>s. phd_state row = Some s \<and> json_ok s)"
    if "phone_room_of db ?r = Some room" "phone_directors db ?r = Some row" for room row
  proof (cases "phd_state row")
    case (Some s)
    from state [OF that Some] obtain d where "s = snapshot d" by (auto simp: restorable_def)
    then show ?thesis using Some snapshot_json_ok by simp
  qed simp
  have "\<exists>room row. phone_room_of db ?r = Some room \<and> phone_directors db ?r = Some row \<and> c = director_context_json db room row \<and>
    context_ok bu view c \<and> db' = db"
    by (rule context_read [OF run refl]) (rule json)
  then obtain room row where found: "phone_room_of db ?r = Some room" "phone_directors db ?r = Some row"
    "c = director_context_json db room row" "context_ok bu view c" "db' = db" by (elim exE conjE) (rule that)
  have mem: "room \<in> set (phone_rooms db)" "phr_id room = ?r" using phone_room_of_Some [OF found(1)] by simp_all
  from context_ok_good [OF found(4) cat found(3) state [OF found(1,2)]] have "good_context c" by blast
  moreover have "jget ''roomId'' c = JStr (phr_id room)" "context_ids c = persona_ids db (phr_id room)" unfolding found(3) by simp_all
  ultimately have "context_of_room db c" using mem(1) unfolding context_of_room_def by blast
  moreover have "context_ids c = persona_ids db ?r" using \<open>context_ids c = persona_ids db (phr_id room)\<close> mem(2) by (rule subst [rotated])
  ultimately show ?thesis using found(5) by blast
qed

lemma turn_reach_ok: "turn_reach bu sha C db \<Longrightarrow> catalog_ok bu \<Longrightarrow> turn_ok C db"
proof (induction rule: turn_reach.induct)
  case start
  show ?case by (simp add: turn_ok_def empty_ok) (simp add: empty_phone_def)
next
  case (read C db fits room c db')
  then have ok: "turn_ok C db" by simp
  from read_good [OF read.prems ok read.hyps(2)] ok show ?case by (auto simp: turn_ok_def)
qed (blast intro: create_turn_ok prepare_turn_ok demo_turn_keeps background_keeps activation_turn_ok settings_turn_ok)+

text \<open>
  C15: the director of a phone room survives every interleaving: whenever the runtime reads the context of
  a room, after whatever turns were prepared (also from contexts read long before), committed, failed,
  retried or abandoned in whatever room, restoring the director from it never throws: it yields a director
  that satisfies the invariant, over exactly the room's characters, that has accepted fewer lines than the
  room has events.
\<close>

theorem phone_director_restored:
  assumes "catalog_ok bu" and "turn_reach bu sha C db" and "readDirectorContext fits bu view db = (Inr c, db')"
  shows "\<exists>d. context_director c = Inr d \<and> director_wf d \<and> personas d = map php_id (room_personas db (jstr (jget ''id'' view))) \<and>
    acceptedHumanEventNumber d < next_of c"
proof -
  from read_good [OF assms(1) turn_reach_ok [OF assms(2,1)] assms(3)] have good: "good_context c"
    and ids: "context_ids c = persona_ids db (jstr (jget ''id'' view))" by (simp_all add: context_of_room_def)
  from good_context_director [OF good] show ?thesis unfolding ids persona_ids_def .
qed

text \<open>The room of the example, just opened.\<close>

definition opened_view :: jval where
  "opened_view = JObj [(''id'', JStr phone_example_room), (''generation'', JInt 0)]"

definition opened_context :: jval where
  "opened_context = JObj [(''roomId'', JStr phone_example_room), (''generation'', JInt 0), (''nextEventSequence'', JInt 1), (''state'', JNull),
     (''personas'', JArr [JObj [(''id'', JStr ''ada''), (''personaSlug'', JStr ''ada''), (''displayName'', JStr ''Ada''), (''muted'', JBool False),
        (''sortOrder'', JInt 1)]])]"

lemma opened_context_read:
  "readDirectorContext (\<lambda>_. True) example_bundle opened_view opened_phone = (Inr opened_context, opened_phone)"
proof -
  let ?rows = "rows_json ''director_context_json'' [opened_context]"
  have rows: "query_rows ''director_context'' [phone_example_room] opened_phone = Some (''director_context_json'', [opened_context])"
    by (simp add: context_query opened_phone_def empty_phone_def phone_room_of_def director_context_json_def room_personas_def room_people_def
        context_persona_json_def opened_context_def opt_jstr_def)
  have query: "queryN (\<lambda>_. True) ''director_context'' [jstr (jget ''id'' opened_view)] opened_phone = (Inr ?rows, opened_phone)"
    unfolding opened_view_def by simp (rule query_succeeds [OF rows], simp, code_simp, code_simp)
  have "context_ok example_bundle opened_view opened_context" by code_simp
  moreover have "json_parse (stringify opened_context) = Some opened_context" by (rule parse_stringify) (simp add: opened_context_def)
  moreover have "utf8_length (stringify opened_context) \<le> 1000" by code_simp
  ultimately have "parseDirectorContext example_bundle opened_view ?rows = Inr opened_context"
    by (simp add: parseDirectorContext_def Let_def parse_json_def MAX_BRIDGE_BYTES_def bindE_def)
  with query show ?thesis by (simp add: readDirectorContext_def bindN_def liftN_def)
qed

theorem phone_director_restored_witness:
  "\<exists>d. context_director opened_context = Inr d \<and> director_wf d \<and>
     personas d = map php_id (room_personas opened_phone phone_example_room) \<and> acceptedHumanEventNumber d < next_of opened_context"
proof -
  have "run_statements (effects (create_statements phone_example_room ''human-1'' (bu_personas example_bundle) False)) empty_phone = Some opened_phone"
    by (simp add: effects_def create_statements_def persona_statement_def example_bundle_def castTitle_def run_statements_Cons run_statements_Nil
        create_room_def create_participant_def create_director_def select_phone_room_def phone_room_of_def empty_phone_def opened_phone_def)
  from turn_reach.create [OF turn_reach.start this] have "turn_reach example_bundle id {} opened_phone" .
  moreover have "catalog_ok example_bundle" by code_simp
  ultimately show ?thesis using phone_director_restored [OF _ _ opened_context_read] by (simp add: opened_view_def)
qed

end
