(* ===== verification/Phone_Claims.thy ===== *)
theory Phone_Claims
  imports Phone_Example
begin

text \<open>
  What the native database of the phone guarantees, whatever the runtime, the provider and the
  lifecycle of the application do and in whatever order.
\<close>

section \<open>The fate of a command\<close>

text \<open>What one step may do to a command: nothing, when it is resolved, and never to its request.\<close>

definition command_kept :: "generation_command \<Rightarrow> phone_db \<Rightarrow> bool" where
  "command_kept c db' \<longleftrightarrow> (\<exists>c' \<in> set (phone_commands db'). same_core c c' \<and> (\<not> unresolved c \<longrightarrow> c' = c))"

lemma command_kept_same: "c \<in> set (phone_commands db') \<Longrightarrow> command_kept c db'"
  unfolding command_kept_def using same_core_refl by blast

lemma command_keptI: "set (phone_commands db) \<subseteq> set (phone_commands db') \<Longrightarrow> c \<in> set (phone_commands db) \<Longrightarrow> command_kept c db'"
  using command_kept_same by blast

lemma update_kept:
  assumes ok: "phone_ok db" and run: "update_command i P f db = Some db'"
    and P: "\<And>c. P c \<Longrightarrow> unresolved c \<and> same_core c (f c)" and mem: "x \<in> set (phone_commands db)"
  shows "command_kept x db'"
proof -
  from update_effect [OF ok run P] obtain c where c: "c \<in> set (phone_commands db)" "unresolved c" "same_core c (f c)"
    "phone_commands db' = map (replaced (f c)) (phone_commands db)" by blast
  have eq: "x = c" if "gc_id x = gc_id c"
    using that mem c(1) phone_okD(2) [OF ok] by (auto simp: distinct_map dest: inj_onD)
  have id: "gc_id (f c) = gc_id c" using c(3) by (simp add: same_core_def)
  show ?thesis
  proof (cases "gc_id x = gc_id c")
    case True
    then have "x = c" by (rule eq)
    moreover have "f c \<in> set (phone_commands db')" unfolding c(4) using c(1) id by (force simp: replaced_def)
    ultimately show ?thesis using c(2,3) by (auto simp: command_kept_def)
  next
    case False
    then have "replaced (f c) x = x" by (simp add: replaced_def id)
    then have "x \<in> set (phone_commands db')" unfolding c(4) using mem by force
    then show ?thesis by (rule command_kept_same)
  qed
qed

lemma insert_events_commands: "insert_events r es db = Some db' \<Longrightarrow> phone_commands db' = phone_commands db"
  by (induction es arbitrary: db) (auto simp: insert_event_def bind_eq_Some_conv split: if_splits)

lemma bind_SomeE: "Option.bind m f = Some y \<Longrightarrow> (\<And>x. m = Some x \<Longrightarrow> f x = Some y \<Longrightarrow> P) \<Longrightarrow> P"
  by (cases m) simp_all

lemma demo_turn_ok:
  assumes run: "demo_turn r g source who turns state human director persona db = Some db'"
  shows "\<exists>es db1 db2. insert_events r es db1 = Some db2 \<and> phone_events db1 = phone_events db \<and> phone_commands db1 = phone_commands db \<and>
    phone_events db' = phone_events db2 \<and> phone_commands db' = phone_commands db2"
proof -
  let ?es = "[(source, human), (Suc source, director), (Suc (Suc source), persona)]"
  obtain room row where room: "phone_room_of db r = Some room" and row: "phone_directors db r = Some row"
    using run by (auto simp: demo_turn_def split: option.splits)
  define db1 where "db1 = db\<lparr>phone_directors := (phone_directors db)(r \<mapsto> \<lparr>phd_state = Some state, phd_last_speaker = Some who,
                  phd_last_human = Some source, phd_turns = turns, phd_window = g\<rparr>)\<rparr>"
  from run room row have "Option.bind (insert_events r ?es db1) (delete_draft r) = Some db'"
    by (auto simp: demo_turn_def db1_def split: if_splits)
  then obtain db2 where "insert_events r ?es db1 = Some db2" "delete_draft r db2 = Some db'" by (rule bind_SomeE)
  moreover have "phone_events db1 = phone_events db" "phone_commands db1 = phone_commands db" by (simp_all add: db1_def)
  moreover from \<open>delete_draft r db2 = Some db'\<close> have "phone_events db' = phone_events db2" "phone_commands db' = phone_commands db2"
    unfolding delete_draft_def by auto
  ultimately show ?thesis by blast
qed

lemma demo_commands: "demo_turn r g source who turns state human director persona db = Some db' \<Longrightarrow> phone_commands db' = phone_commands db"
  using demo_turn_ok insert_events_commands by metis

lemma command_statements_fate:
  assumes ok: "phone_ok db" and c: "c \<in> set (phone_commands db)"
  shows "begin_command i q d plan n ref mutation db = Some db' \<Longrightarrow> command_kept c db'"
    and "fail_command code i q d n db = Some db' \<Longrightarrow> command_kept c db'" and "interrupt_command code i q d n db = Some db' \<Longrightarrow> command_kept c db'"
    and "complete_command t i q d n db = Some db' \<Longrightarrow> command_kept c db'" and "complete_silent i q d n db = Some db' \<Longrightarrow> command_kept c db'"
    and "abandon_command code i q d db = Some db' \<Longrightarrow> command_kept c db'" and "fail_not_started i q d n db = Some db' \<Longrightarrow> command_kept c db'"
  unfolding begin_command_def fail_command_def interrupt_command_def complete_command_def complete_silent_def
    abandon_command_def fail_not_started_def
  by (erule update_kept [OF ok _ _ c]; auto simp: same_core_def unresolved_def)+

lemma prepare_commands: "prepare_command c0 db = Some db' \<Longrightarrow> set (phone_commands db) \<subseteq> set (phone_commands db')"
  unfolding prepare_command_def Let_def by (auto split: option.splits if_splits)

lemma statement_fate:
  "phone_statement f \<Longrightarrow> phone_ok db \<Longrightarrow> c \<in> set (phone_commands db) \<Longrightarrow> f db = Some db' \<Longrightarrow> command_kept c db'"
proof (induction rule: phone_statement.induct)
  case (1 c)
  then show ?case using prepare_commands command_keptI by blast
next
  case (9 r title demo)
  then show ?case by (auto simp: create_room_def split: if_splits intro: command_keptI)
next
  case (10 i r name order slug)
  then show ?case by (auto simp: create_participant_def split: if_splits intro: command_keptI)
next
  case (11 r)
  then show ?case by (auto simp: create_director_def split: if_splits intro: command_keptI)
next
  case (12 r)
  then show ?case by (auto simp: select_phone_room_def split: if_splits intro: command_keptI)
next
  case (13 r t)
  then show ?case by (auto simp: save_draft_def split: if_splits intro: command_keptI)
next
  case (14 r)
  then show ?case by (auto simp: delete_draft_def intro: command_keptI)
next
  case (15 r g source who turns state human director persona)
  then show ?case using demo_commands command_keptI by (metis order_refl)
qed (blast intro: command_statements_fate)+

lemma step_fate:
  assumes "phone_step db db'" and ok: "phone_ok db" and c: "c \<in> set (phone_commands db)"
  shows "command_kept c db'"
  using assms
proof (induction rule: phone_step.induct)
  case (statement f db db')
  then show ?case using statement_fate by blast
next
  case (activation db)
  have "not_executing c \<in> set (phone_commands (interrupt_in_flight db))" using activation by (simp add: interrupt_in_flight_def)
  moreover have "same_core c (not_executing c)" by (simp add: not_executing_def same_core_def)
  moreover have "\<not> unresolved c \<longrightarrow> not_executing c = c" by (auto simp: not_executing_def unresolved_iff unresolved_def)
  ultimately show ?case by (auto simp: command_kept_def)
next
  case (settings db st)
  then show ?case by (auto intro: command_keptI)
qed

lemma steps_fate: "phone_steps db db' \<Longrightarrow> phone_ok db \<Longrightarrow> c \<in> set (phone_commands db) \<Longrightarrow> command_kept c db'"
proof (induction rule: phone_steps.induct)
  case (stay db)
  then show ?case using command_kept_same by blast
next
  case (go db db1 db2)
  then obtain c1 where c1: "c1 \<in> set (phone_commands db1)" "same_core c c1" "\<not> unresolved c \<longrightarrow> c1 = c"
    by (auto simp: command_kept_def)
  have "phone_ok db1" using steps_keep [OF go.hyps(1) go.prems(1)] .
  from step_fate [OF go.hyps(2) this c1(1)] obtain c2 where "c2 \<in> set (phone_commands db2)" "same_core c1 c2" "\<not> unresolved c1 \<longrightarrow> c2 = c1"
    by (auto simp: command_kept_def)
  with c1 show ?case by (auto simp: command_kept_def same_core_def)
qed

section \<open>The log only grows\<close>

definition phone_log_grows :: "phone_db \<Rightarrow> phone_db \<Rightarrow> bool" where
  "phone_log_grows db db' \<longleftrightarrow> (\<forall>r. \<exists>es. room_log db' r = room_log db r @ es)"

lemma phone_log_grows_events: "phone_events db' = phone_events db @ es \<Longrightarrow> phone_log_grows db db'"
  by (auto simp: phone_log_grows_def room_log_def)

lemma phone_log_grows_same: "phone_events db' = phone_events db \<Longrightarrow> phone_log_grows db db'"
  using phone_log_grows_events [of db' db "[]"] by simp

lemma phone_log_grows_trans: "phone_log_grows a b \<Longrightarrow> phone_log_grows b c \<Longrightarrow> phone_log_grows a c"
  by (metis append.assoc phone_log_grows_def)

lemma insert_events_grow: "insert_events r es db = Some db' \<Longrightarrow> phone_log_grows db db'"
proof (induction es arbitrary: db)
  case Nil
  then show ?case by (simp add: phone_log_grows_same)
next
  case (Cons e es)
  then obtain db1 where one: "insert_event r (fst e) (snd e) db = Some db1" and rest: "insert_events r es db1 = Some db'"
    by (auto simp: bind_eq_Some_conv)
  from one have "phone_events db1 = phone_events db @ [(r, e)]" by (auto simp: insert_event_def split: if_splits)
  from phone_log_grows_trans [OF phone_log_grows_events [OF this] Cons.IH [OF rest]] show ?case .
qed

lemma commit_room_grows: "commit_room c db = Some db' \<Longrightarrow> phone_log_grows db db'"
proof -
  assume "commit_room c db = Some db'"
  then obtain db1 db2 where "commit_director c db = Some db1" and two: "insert_events (gc_room c) (turn_of c) db1 = Some db2"
    and db': "db' = db2\<lparr>phone_drafts := (phone_drafts db2)(gc_room c := None)\<rparr>"
    by (auto simp: commit_room_def bind_eq_Some_conv)
  then have "phone_log_grows db db1" using commit_director_ok by (auto simp: director_committed_def intro: phone_log_grows_same)
  moreover have "phone_log_grows db2 db'" by (simp add: db' phone_log_grows_same)
  ultimately show ?thesis using insert_events_grow [OF two] phone_log_grows_trans by blast
qed

lemma update_grows: "update_command i P f db = Some db' \<Longrightarrow> phone_log_grows db db'"
proof -
  assume "update_command i P f db = Some db'"
  then obtain c where "db' = store_command (f c) db \<or> commit_room (f c) (store_command (f c) db) = Some db'"
    by (auto simp: update_command_def split: option.splits if_splits)
  moreover have "phone_log_grows db (store_command (f c) db)" by (simp add: phone_log_grows_same)
  ultimately show ?thesis using commit_room_grows phone_log_grows_trans by blast
qed

lemma demo_grows:
  assumes "demo_turn r g source who turns state human director persona db = Some db'"
  shows "phone_log_grows db db'"
proof -
  from demo_turn_ok [OF assms] obtain es db1 db2 where es: "insert_events r es db1 = Some db2"
    and same: "phone_events db1 = phone_events db" "phone_events db' = phone_events db2" by blast
  from phone_log_grows_trans [OF phone_log_grows_same [OF same(1)] insert_events_grow [OF es]] phone_log_grows_same [OF same(2)]
  show ?thesis by (rule phone_log_grows_trans)
qed

lemma statement_grows: "phone_statement f \<Longrightarrow> f db = Some db' \<Longrightarrow> phone_log_grows db db'"
proof (induction rule: phone_statement.induct)
  case (1 c)
  then show ?case unfolding prepare_command_def Let_def by (auto split: option.splits if_splits intro: phone_log_grows_same)
next
  case (9 r title demo)
  then show ?case by (auto simp: create_room_def split: if_splits intro: phone_log_grows_same)
next
  case (10 i r name order slug)
  then show ?case by (auto simp: create_participant_def split: if_splits intro: phone_log_grows_same)
next
  case (11 r)
  then show ?case by (auto simp: create_director_def split: if_splits intro: phone_log_grows_same)
next
  case (12 r)
  then show ?case by (auto simp: select_phone_room_def split: if_splits intro: phone_log_grows_same)
next
  case (13 r t)
  then show ?case by (auto simp: save_draft_def split: if_splits intro: phone_log_grows_same)
next
  case (14 r)
  then show ?case by (auto simp: delete_draft_def intro: phone_log_grows_same)
next
  case (15 r g source who turns state human director persona)
  then show ?case by (rule demo_grows)
qed (simp_all add: begin_command_def fail_command_def interrupt_command_def complete_command_def complete_silent_def
      abandon_command_def fail_not_started_def update_grows)

lemma step_grows: "phone_step db db' \<Longrightarrow> phone_log_grows db db'"
  by (induction rule: phone_step.induct) (auto intro: statement_grows phone_log_grows_same simp: interrupt_in_flight_def)

lemma steps_grow: "phone_steps db db' \<Longrightarrow> phone_log_grows db db'"
  by (induction rule: phone_steps.induct) (auto intro: phone_log_grows_same phone_log_grows_trans step_grows)

section \<open>Properties\<close>



text \<open>
  A generation command keeps its identity, request, plan and proposed events for ever, and once it
  is completed or abandoned it never changes again: an abandoned turn is never committed, a committed
  one neither altered nor committed again; and the log of a room only grows at its end.
\<close>

theorem resolved_command_is_final:
  assumes "phone_steps empty_phone db" and "phone_steps db db'" and "c \<in> set (phone_commands db)"
  shows "(\<exists>c' \<in> set (phone_commands db'). same_core c c' \<and> (gc_state c \<in> {Cmd_Completed, Cmd_Abandoned} \<longrightarrow> c' = c)) \<and>
    (\<exists>es. room_log db' r = room_log db r @ es)"
proof
  have "phone_ok db" using steps_keep [OF assms(1) empty_ok] .
  from steps_fate [OF assms(2) this assms(3)]
  show "\<exists>c' \<in> set (phone_commands db'). same_core c c' \<and> (gc_state c \<in> {Cmd_Completed, Cmd_Abandoned} \<longrightarrow> c' = c)"
    by (auto simp: command_kept_def unresolved_iff)
  show "\<exists>es. room_log db' r = room_log db r @ es" using steps_grow [OF assms(2)] by (simp add: phone_log_grows_def)
qed

theorem resolved_command_is_final_witness:
  "\<exists>c' \<in> set (phone_commands (interrupt_in_flight (committed_phone ''hello''))). c' = silent_done ''hello''"
proof -
  have "phone_steps (committed_phone ''hello'') (interrupt_in_flight (committed_phone ''hello''))" by (rule go [OF stay activation])
  from conjunct1 [OF resolved_command_is_final [OF committed_reachable this, of "silent_done ''hello''" phone_example_room]] show ?thesis
    by (auto simp: committed_phone_def silent_done_def)
qed

end
