(* ===== verification/Phone_Runtime_Claims.thy ===== *)
theory Phone_Runtime_Claims
  imports Phone_Claims
begin

text \<open>
  What the phone's runtime promises of the messages it sends and of the turns it commits, and the two
  limits that do not fit each other.
\<close>

section \<open>The messages of a plan\<close>

definition message_bytes :: "(string \<times> string) list \<Rightarrow> nat" where
  "message_bytes ms = (\<Sum>m\<leftarrow>ms. utf8_length (snd m))"

lemma message_bytes_simps [simp]: "message_bytes [] = 0" "message_bytes (m # ms) = utf8_length (snd m) + message_bytes ms"
  "message_bytes (xs @ ys) = message_bytes xs + message_bytes ys"
  by (simp_all add: message_bytes_def)

definition eligible_messages :: "nat \<Rightarrow> jval list \<Rightarrow> (string \<times> string) list" where
  "eligible_messages source events = List.map_filter message_of (filter (\<lambda>r. \<not> sequence_after r source) events)"

lemma eligible_simps [simp]:
  "eligible_messages source [] = []"
  "eligible_messages source (events @ [r]) = eligible_messages source events @
     (if sequence_after r source then [] else case message_of r of None \<Rightarrow> [] | Some m \<Rightarrow> [m])"
  by (auto simp: eligible_messages_def List.map_filter_def split: option.splits)

text \<open>What the loop adds in front of the messages it has: a subsequence of the older ones, within both bounds.\<close>

definition extends :: "nat \<Rightarrow> jval list \<Rightarrow> nat \<Rightarrow> (string \<times> string) list \<Rightarrow> (string \<times> string) list \<Rightarrow> bool" where
  "extends source events bytes recent result \<longleftrightarrow>
     (\<exists>new. result = new @ recent \<and> subseq new (eligible_messages source events) \<and>
        length result \<le> MAX_PROVIDER_MESSAGES - 1 \<and> (new = [] \<or> bytes + message_bytes new \<le> MAX_PROVIDER_MESSAGE_BYTES))"

lemma extends_stop: "length recent \<le> MAX_PROVIDER_MESSAGES - 1 \<Longrightarrow> extends source events bytes recent recent"
  by (auto simp: extends_def)

lemma extends_skip: "extends source events bytes recent result \<Longrightarrow> extends source (events @ [r]) bytes recent result"
  by (fastforce simp: extends_def intro: subseq_rev_drop_many list_emb_append2)

lemma extends_add:
  assumes "extends source events (bytes + utf8_length (snd m)) (m # recent) result" and "message_of r = Some m"
    and "\<not> sequence_after r source" and "bytes + utf8_length (snd m) \<le> MAX_PROVIDER_MESSAGE_BYTES"
  shows "extends source (events @ [r]) bytes recent result"
proof -
  from assms(1) obtain new where new: "result = new @ m # recent" "subseq new (eligible_messages source events)"
    "length result \<le> MAX_PROVIDER_MESSAGES - 1" "new = [] \<or> bytes + utf8_length (snd m) + message_bytes new \<le> MAX_PROVIDER_MESSAGE_BYTES"
    by (auto simp: extends_def)
  have "subseq (new @ [m]) (eligible_messages source (events @ [r]))"
    using new(2) assms(2,3) by (simp add: list_emb_append_mono)
  moreover have "bytes + message_bytes (new @ [m]) \<le> MAX_PROVIDER_MESSAGE_BYTES" using new(4) assms(4) by auto
  ultimately show ?thesis unfolding extends_def using new(1,3) by (intro exI [of _ "new @ [m]"]) simp
qed

lemma gather_extends:
  "length recent \<le> MAX_PROVIDER_MESSAGES - 1 \<Longrightarrow> extends source events bytes recent (gather source (rev events) bytes recent)"
proof (induction events arbitrary: bytes recent rule: rev_induct)
  case Nil
  then show ?case by (simp add: extends_stop)
next
  case (snoc r events)
  show ?case
  proof (cases "length recent \<ge> MAX_PROVIDER_MESSAGES - 1")
    case True
    then show ?thesis using snoc.prems by (simp add: extends_stop)
  next
    case False
    note go = this
    show ?thesis
    proof (cases "sequence_after r source")
      case True
      then show ?thesis using go snoc.IH [OF snoc.prems] by (simp add: extends_skip)
    next
      case False
      note here = this
      show ?thesis
      proof (cases "message_of r")
        case None
        then show ?thesis using go here snoc.IH [OF snoc.prems] by (simp add: extends_skip)
      next
        case (Some m)
        show ?thesis
        proof (cases "bytes + utf8_length (snd m) > MAX_PROVIDER_MESSAGE_BYTES")
          case True
          then show ?thesis using go here Some snoc.IH [OF snoc.prems] by (simp add: extends_skip)
        next
          case False
          have "length (m # recent) \<le> MAX_PROVIDER_MESSAGES - 1" using go by simp
          from extends_add [OF snoc.IH [OF this] Some here] False show ?thesis using go here Some by simp
        qed
      qed
    qed
  qed
qed

definition line_record :: "jval \<Rightarrow> string \<Rightarrow> nat \<Rightarrow> jval" where
  "line_record human t n = JObj [(''event'', human_event_json human t), (''sequence'', JInt (int n))]"

lemma line_record [simp]: "message_of (line_record human t n) = Some (''user'', t)" "\<not> sequence_after (line_record human t n) n"
  by (simp_all add: line_record_def message_of_def human_event_json_def sequence_after_def)

text \<open>
  What is sent to a provider: at most 32 messages and 64 KiB of text, the character's prompt
  first, then messages of the log up to the line being answered, in the order of the log and without
  repetition, the last one a line of the human; and when prompt and line fit into 64 KiB together, a
  plan is always made and its last message is that line.
\<close>

theorem provider_messages_bounded:
  "(\<forall>ms. providerMessages prompt events source = Inr ms \<longrightarrow>
      length ms \<le> 32 \<and> message_bytes ms \<le> 65536 \<and> hd ms = (''system'', prompt) \<and> fst (last ms) = ''user'' \<and>
      subseq (tl ms) (eligible_messages source events)) \<and>
   (utf8_length prompt + utf8_length t \<le> 65536 \<longrightarrow>
      (\<exists>ms. providerMessages prompt (events @ [line_record human t source]) source = Inr ms \<and> last ms = (''user'', t)))"
proof (intro conjI allI impI)
  fix ms assume run: "providerMessages prompt events source = Inr ms"
  let ?recent = "gather source (rev events) (utf8_length prompt) []"
  from run have ms: "ms = (''system'', prompt) # ?recent" "?recent \<noteq> []" "fst (last ?recent) = ''user''"
    by (auto simp: providerMessages_def Let_def split: if_splits)
  from gather_extends [of "[]" source events "utf8_length prompt"] ms(2) have
    "subseq ?recent (eligible_messages source events)" "length ?recent \<le> MAX_PROVIDER_MESSAGES - 1"
    "utf8_length prompt + message_bytes ?recent \<le> MAX_PROVIDER_MESSAGE_BYTES" by (auto simp: extends_def)
  then show "length ms \<le> 32" "message_bytes ms \<le> 65536" "hd ms = (''system'', prompt)" "fst (last ms) = ''user''"
    "subseq (tl ms) (eligible_messages source events)"
    using ms by (simp_all add: MAX_PROVIDER_MESSAGES_def MAX_PROVIDER_MESSAGE_BYTES_def)
next
  assume fits: "utf8_length prompt + utf8_length t \<le> 65536"
  let ?new = "line_record human t source"
  have "gather source (rev (events @ [?new])) (utf8_length prompt) [] =
      gather source (rev events) (utf8_length prompt + utf8_length t) [(''user'', t)]"
    using fits by (simp add: MAX_PROVIDER_MESSAGES_def MAX_PROVIDER_MESSAGE_BYTES_def)
  moreover from gather_extends [of "[(''user'', t)]" source events "utf8_length prompt + utf8_length t"] obtain new where
    "gather source (rev events) (utf8_length prompt + utf8_length t) [(''user'', t)] = new @ [(''user'', t)]"
    by (auto simp: extends_def MAX_PROVIDER_MESSAGES_def)
  ultimately show "\<exists>ms. providerMessages prompt (events @ [?new]) source = Inr ms \<and> last ms = (''user'', t)"
    by (simp add: providerMessages_def)
qed

text \<open>A witness, with the longest prompt of the bundle and a short line.\<close>

theorem provider_messages_bounded_witness:
  "\<exists>ms. providerMessages (replicate 34778 CHR ''p'') ([] @ [line_record JNull ''hello'' 1]) 1 = Inr ms \<and> last ms = (''user'', ''hello'')"
  by (rule mp [OF conjunct2 [OF provider_messages_bounded]]) (simp add: utf8_length_def sum_list_replicate)

lemma utf8_length_replicate: "utf8_length (replicate n c) = n * (if (of_char c :: nat) < 128 then 1 else 2)"
  by (simp add: utf8_length_def sum_list_replicate)

lemma member_bytes: "m \<in> set ms \<Longrightarrow> utf8_length (snd m) \<le> message_bytes ms"
  by (simp add: message_bytes_def member_le_sum_list)

text \<open>
  The check behind the loop does not see every line that is left out: when the new line does not
  fit beside the prompt and the room's turn before was a silence, a plan is made, without error, whose
  last message is the older line, and the line to be answered is in no message of it.
\<close>

theorem oversized_line_is_dropped:
  assumes "utf8_length prompt + utf8_length t > 65536" and "utf8_length prompt + utf8_length u \<le> 65536"
    and "n \<le> source" and "message_of silence = None"
  shows "\<exists>ms. providerMessages prompt (older @ [line_record human u n, silence, line_record human t source]) source = Inr ms \<and>
    last ms = (''user'', u) \<and> (''user'', t) \<notin> set ms"
proof -
  let ?events = "older @ [line_record human u n, silence, line_record human t source]"
  have early: "\<not> sequence_after (line_record human u n) source" using assms(3) by (simp add: line_record_def sequence_after_def)
  define recent where "recent = gather source (rev ?events) (utf8_length prompt) []"
  have "recent = gather source (rev older) (utf8_length prompt + utf8_length u) [(''user'', u)]"
    using assms(1,2,4) early by (simp add: recent_def MAX_PROVIDER_MESSAGES_def MAX_PROVIDER_MESSAGE_BYTES_def)
  moreover from gather_extends [of "[(''user'', u)]" source older "utf8_length prompt + utf8_length u"] obtain new where
    "gather source (rev older) (utf8_length prompt + utf8_length u) [(''user'', u)] = new @ [(''user'', u)]"
    by (auto simp: extends_def MAX_PROVIDER_MESSAGES_def)
  ultimately have recent: "recent = new @ [(''user'', u)]" by simp
  have "extends source ?events (utf8_length prompt) [] recent"
    unfolding recent_def by (rule gather_extends) simp
  then have "utf8_length prompt + message_bytes recent \<le> 65536"
    using recent by (auto simp: extends_def MAX_PROVIDER_MESSAGE_BYTES_def)
  with assms(1) have "(''user'', t) \<notin> set recent" using member_bytes [of "(''user'', t)" recent] by auto
  moreover have "providerMessages prompt ?events source = Inr ((''system'', prompt) # recent)"
    unfolding providerMessages_def recent_def [symmetric] by (simp add: recent)
  ultimately show ?thesis using recent by auto
qed

theorem oversized_line_is_dropped_witness:
  "phone_message_ok (replicate 16384 (CHR 0xE9)) \<and>
   (\<exists>ms. providerMessages (replicate 34778 CHR ''p'')
       ([] @ [line_record JNull ''hello'' 1, event_record (2, JObj [(''type'', JStr ''director_decision'')]), line_record JNull (replicate 16384 (CHR 0xE9)) 3]) 3 = Inr ms \<and>
     last ms = (''user'', ''hello'') \<and> (''user'', replicate 16384 (CHR 0xE9)) \<notin> set ms)"
proof
  have "js_trim (replicate 16384 (CHR 0xE9)) \<noteq> []"
    by (simp add: js_trim_def js_trim_end_def js_trim_start_def js_space_def dropWhile_replicate)
  then show "phone_message_ok (replicate 16384 (CHR 0xE9))" by (simp add: phone_message_ok_def)
  show "\<exists>ms. providerMessages (replicate 34778 CHR ''p'')
       ([] @ [line_record JNull ''hello'' 1, event_record (2, JObj [(''type'', JStr ''director_decision'')]), line_record JNull (replicate 16384 (CHR 0xE9)) 3]) 3 = Inr ms \<and>
     last ms = (''user'', ''hello'') \<and> (''user'', replicate 16384 (CHR 0xE9)) \<notin> set ms"
  proof (rule oversized_line_is_dropped)
    show "utf8_length (replicate 34778 CHR ''p'') + utf8_length (replicate 16384 (CHR 0xE9)) > 65536" by (simp add: utf8_length_replicate)
    show "utf8_length (replicate 34778 CHR ''p'') + utf8_length ''hello'' \<le> 65536" unfolding utf8_length_replicate by (simp add: utf8_length_def)
  qed (simp_all add: message_of_def event_record_def)
qed

section \<open>Reading a room\<close>

lemma parse_rows_fail:
  "v \<in> set vs \<Longrightarrow> length (stringify v) > 20000 \<Longrightarrow> \<exists>e. parseEventRows bu expected (map (\<lambda>v. JArr [JStr (stringify v)]) vs) = Inl e"
proof (induction vs arbitrary: expected)
  case Nil
  then show ?case by simp
next
  case (Cons w vs)
  show ?case
  proof (cases "v \<in> set vs")
    case True
    from Cons.IH [OF this Cons.prems(2)] have "\<exists>e. parseEventRows bu m (map (\<lambda>v. JArr [JStr (stringify v)]) vs) = Inl e" for m .
    then have rest: "isl (parseEventRows bu m (map (\<lambda>v. JArr [JStr (stringify v)]) vs))" for m by (metis isl_def)
    have "isl (parseEventRows bu expected (map (\<lambda>v. JArr [JStr (stringify v)]) (w # vs)))"
      using rest by (auto simp: bindE_def Let_def isl_def split: sum.splits option.splits) (metis Inl_Inr_False isl_def)+
    then show ?thesis by (simp add: isl_def)
  next
    case False
    with Cons.prems show ?thesis by auto
  qed
qed

lemma queryN_run:
  assumes "query_rows sqlId ps db = Some (column, vs)"
  shows "(\<exists>e. queryN fits sqlId ps db = (Inl e, db)) \<or> queryN fits sqlId ps db = (Inr (rows_json column vs), db)"
  by (simp add: queryN_def invoke_def native_query_def assms)

lemma read_fails:
  assumes "e \<in> set (recent_events db r)" and "length (stringify (event_record e)) > 20000"
  shows "\<exists>failure. fst (readRoomEvents fits bu r db) = Inl failure"
proof -
  have query: "query_rows ''room_events'' [r] db = Some (''event_record_json'', map event_record (recent_events db r))"
    by (simp add: query_rows_def)
  have "\<exists>failure. parseEvents bu (rows_json ''event_record_json'' (map event_record (recent_events db r))) = Inl failure"
    using parse_rows_fail [of "event_record e" "map event_record (recent_events db r)" bu None] assms
    by (auto simp: parseEvents_def comp_def)
  with queryN_run [OF query, of fits] show ?thesis
    by (elim disjE exE) (simp_all add: readRoomEvents_def bindN_def liftN_def)
qed

section \<open>Reads leave the database alone\<close>

definition read_only :: "'a native \<Rightarrow> bool" where
  "read_only m \<longleftrightarrow> (\<forall>db. snd (m db) = db)"

named_theorems read_only_intros \<open>reads of the runtime\<close>

lemma read_only_basic [read_only_intros]:
  "read_only (returnN x)" "read_only (throwN e)" "read_only (liftN r)" "read_only (requireN b e)"
  by (simp_all add: read_only_def returnN_def throwN_def liftN_def requireN_def)

lemma read_only_bindN [read_only_intros]: "read_only m \<Longrightarrow> (\<And>x. read_only (f x)) \<Longrightarrow> read_only (bindN m f)"
  by (auto simp: read_only_def bindN_def split: prod.splits sum.splits) (metis snd_conv)+

lemma read_only_if [read_only_intros]: "read_only m \<Longrightarrow> read_only n \<Longrightarrow> read_only (if b then m else n)"
  by simp

lemma read_only_queryN [read_only_intros]: "read_only (queryN fits sqlId ps)"
  by (auto simp: read_only_def queryN_def invoke_def native_query_def split: prod.splits sum.splits)

lemma readers_read_only [read_only_intros]:
  "read_only (readCurrentPhoneRoom fits bu)" "read_only (readRoomById fits bu r)" "read_only (readRoomEvents fits bu r)"
  "read_only (readDirectorContext fits bu room)" "read_only (loadLocalDraft fits r)" "read_only (readProviderSelection fits bu)"
  "read_only (readProviderProfile fits bu p)" "read_only (readUnresolvedGenerationCommand fits bu r)"
  "read_only (readCompletedGenerationCommand fits v)" "read_only (provider_ready fits bu)"
  unfolding readCurrentPhoneRoom_def readRoomById_def readRoomEvents_def readDirectorContext_def loadLocalDraft_def readProviderSelection_def
    readProviderProfile_def readUnresolvedGenerationCommand_def readCompletedGenerationCommand_def provider_ready_def
  by (intro read_only_intros)+

lemma read_onlyD: "read_only m \<Longrightarrow> m db = (x, db') \<Longrightarrow> db' = db"
  by (metis read_only_def snd_conv)

lemma bindN_read:
  assumes "read_only m" and "\<And>x. m db = (Inr x, db) \<Longrightarrow> \<exists>e. f x db = (Inl e, db)"
  shows "\<exists>e. bindN m f db = (Inl e, db)"
proof (cases "m db")
  case (Pair r db')
  then have "db' = db" using read_onlyD [OF assms(1)] by blast
  with Pair assms(2) show ?thesis by (cases r) (auto simp: bindN_def)
qed

lemma prepare_needs_events:
  assumes "jget ''id'' view = JStr r" and "readRoomEvents fits bu r db = (Inl e, db)"
  shows "\<exists>e. prepareAtomicTurn fits bu sha uuid commandId view line options db = (Inl e, db)"
proof (cases "room_human view")
  case None
  show ?thesis
    unfolding prepareAtomicTurn_def None option.case
    by (intro bindN_read [of "requireN _ _"] read_only_intros) (simp add: throwN_def)
next
  case (Some human)
  have "readRoomEvents fits bu (jstr (jget ''id'' view)) db = (Inl e, db)" using assms by simp
  then have stop: "\<exists>e. bindN (readRoomEvents fits bu (jstr (jget ''id'' view))) f db = (Inl e, db)" for f :: "jval list \<Rightarrow> prepared_turn native"
    by (simp add: bindN_def)
  show ?thesis
    unfolding prepareAtomicTurn_def Some option.case
    by (intro bindN_read [of "requireN _ _"] bindN_read [of "liftN _"] bindN_read [of "provider_ready _ _"] stop read_only_intros)
qed

section \<open>A line that cannot be read back\<close>

lemma sorted_log: "map fst log = [1..<n] \<Longrightarrow> sort_key fst log = log"
  by (simp add: sort_key_id_if_sorted)

lemma phone_log_nth:
  assumes "map fst log = [1..<n]" and "(k, v) \<in> set log"
  shows "1 \<le> k \<and> k < n \<and> length log = n - 1 \<and> log ! (k - 1) = (k, v)"
proof -
  have len: "length log = n - 1" using arg_cong [OF assms(1), of length] by simp
  from assms(2) obtain i where i: "i < length log" "log ! i = (k, v)" by (auto simp: in_set_conv_nth)
  have "fst (log ! i) = [1..<n] ! i" unfolding assms(1) [symmetric] using i(1) by simp
  then have "k = Suc i" using i len by simp
  then show ?thesis using i len by simp
qed

lemma nth_in_drop: "d \<le> i \<Longrightarrow> i < length xs \<Longrightarrow> xs ! i \<in> set (drop d xs)"
  unfolding in_set_conv_nth by (rule exI [of _ "i - d"]) simp

lemma recent_event:
  assumes "map fst (room_log db r) = [1..<n]" and "(k, v) \<in> set (room_log db r)" and "n \<le> k + 100"
  shows "(k, v) \<in> set (recent_events db r)"
proof -
  note k = phone_log_nth [OF assms(1,2)]
  have "length (room_log db r) - 100 \<le> k - 1" using k assms(3) by auto
  moreover have "k - 1 < length (room_log db r)" using k by auto
  ultimately have "room_log db r ! (k - 1) \<in> set (drop (length (room_log db r) - 100) (room_log db r))" by (rule nth_in_drop)
  then show ?thesis using k by (simp add: recent_events_def Let_def sorted_log [OF assms(1)] MAX_EVENT_PAGE_def)
qed

lemma record_text_length: "length (stringify (event_record (k, human_event_json human t))) \<ge> length (json_string t)"
  by (simp add: event_record_def human_event_json_def)

text \<open>
  C16: the limit on the text of an event's record (20,000 characters) is below what a line within its
  own limit can need: once a turn with such a line is committed, every read of the room fails while the
  line is among the last 100 events, and it stays there, because preparing the next turn fails as well
  and changes nothing.
\<close>

theorem escaped_line_blocks_room:
  assumes "phone_steps empty_phone db" and "phone_room_of db (gc_room c) = Some room"
    and "c \<in> set (phone_commands db)" and "completed_command c" and "gc_human c = human_event_json human t"
    and "length (json_string t) > 20000" and "phr_next room \<le> gc_source c + 100"
  shows "(\<exists>e. fst (readRoomEvents fits bu (gc_room c) db) = Inl e) \<and>
    (jget ''id'' view = JStr (gc_room c) \<longrightarrow>
       (\<exists>e. prepareAtomicTurn fits bu sha uuid commandId view line options db = (Inl e, db)))"
proof -
  have ok: "phone_ok db" using steps_keep [OF assms(1) empty_ok] .
  have room: "room \<in> set (phone_rooms db)" "phr_id room = gc_room c" using phone_room_of_Some [OF assms(2)] by simp_all
  have mine: "c \<in> set (room_commands db (gc_room c))" using assms(3) by (simp add: room_commands_def)
  then have log: "map fst (room_log db (gc_room c)) = [1..<phr_next room]" "room_log db (gc_room c) = turns_of (room_commands db (gc_room c))"
    using phone_okD(6) [OF ok room(1)] by (auto simp: room_turns_ok_def room(2) split: if_splits)
  have "(gc_source c, gc_human c) \<in> set (turn_of c)" by (simp add: turn_of_def)
  then have "(gc_source c, gc_human c) \<in> set (room_log db (gc_room c))" unfolding log(2) turns_of_def using mine assms(4) by auto
  from recent_event [OF log(1) this assms(7)] have "(gc_source c, gc_human c) \<in> set (recent_events db (gc_room c))" .
  moreover have "length (stringify (event_record (gc_source c, gc_human c))) > 20000"
    using record_text_length [of t "gc_source c" human] assms(5,6) by simp
  ultimately obtain e where e: "fst (readRoomEvents fits bu (gc_room c) db) = Inl e" using read_fails by blast
  then have read: "readRoomEvents fits bu (gc_room c) db = (Inl e, db)"
    using readers_read_only(3) [of fits bu "gc_room c"] by (simp add: read_only_def prod_eq_iff)
  show ?thesis
  proof (intro conjI impI)
    show "\<exists>e. fst (readRoomEvents fits bu (gc_room c) db) = Inl e" using e by blast
    assume view: "jget ''id'' view = JStr (gc_room c)"
    show "\<exists>e. prepareAtomicTurn fits bu sha uuid commandId view line options db = (Inl e, db)"
      using read prepare_needs_events [OF view] by blast
  qed
qed

text \<open>A line of ten thousand quotation marks, in its own room.\<close>

lemma json_string_length_replicate: "length (json_string (replicate n (CHR 0x22))) = 2 * n + 2"
  by (simp add: json_string_def escape_char_def length_concat comp_def sum_list_triv map_replicate_const) (induction n; simp)

theorem escaped_line_blocks_room_witness:
  "phone_message_ok (replicate 10000 (CHR 0x22)) \<and>
   (\<exists>e. fst (readRoomEvents (\<lambda>_. True) example_bundle phone_example_room (committed_phone (replicate 10000 (CHR 0x22)))) = Inl e)"
proof
  show "phone_message_ok (replicate 10000 (CHR 0x22))"
    by (simp add: phone_message_ok_def js_trim_def js_trim_end_def js_trim_start_def js_space_def dropWhile_replicate)
  let ?t = "replicate 10000 (CHR 0x22)"
  have room: "phone_room_of (committed_phone ?t) (gc_room (silent_done ?t)) = Some \<lparr>phr_id = phone_example_room, phr_title = ''Ada Room'', phr_status = Active,
      phr_demo = False, phr_generation = 0, phr_next = 3\<rparr>" by (simp add: phone_room_of_def committed_phone_def silent_done_def silent_command_def)
  have "gc_room (silent_done ?t) = phone_example_room" by (simp add: silent_done_def silent_command_def)
  moreover have "length (json_string ?t) > 20000" by (simp add: json_string_length_replicate)
  ultimately show "\<exists>e. fst (readRoomEvents (\<lambda>_. True) example_bundle phone_example_room (committed_phone ?t)) = Inl e"
    using escaped_line_blocks_room [OF committed_reachable room, of "JObj [(''id'', JStr ''human-1'')]" ?t "\<lambda>_. True" example_bundle]
    by (simp add: committed_phone_def completed_command_def) (simp add: silent_done_def silent_command_def)
qed

end
