(* ===== verification/Phone_Atomic.thy ===== *)
theory Phone_Atomic
  imports Phone_Runtime_Claims
begin

text \<open>
  The calls of the phone's runtime against its native database: each of them, whatever it returns, is a
  sequence of the steps of \<open>Phone_Native\<close>; completing and abandoning a turn is all or nothing, even when
  the answer of the database is lost on the way back.
\<close>

section \<open>Calls are steps\<close>

definition stepping :: "'a native \<Rightarrow> bool" where
  "stepping m \<longleftrightarrow> (\<forall>db. phone_steps db (snd (m db)))"

named_theorems stepping_intros \<open>calls of the runtime\<close>

lemma phone_steps_trans: "phone_steps b c \<Longrightarrow> phone_steps a b \<Longrightarrow> phone_steps a c"
  by (induction rule: phone_steps.induct) (auto intro: go)

lemma stepping_read: "read_only m \<Longrightarrow> stepping m"
  by (simp add: stepping_def read_only_def stay)

lemma stepping_bindN [stepping_intros]:
  assumes "stepping m" and "\<And>x. stepping (f x)"
  shows "stepping (bindN m f)"
  unfolding stepping_def
proof
  fix db
  obtain r db1 where m: "m db = (r, db1)" by fastforce
  then have one: "phone_steps db db1" using assms(1) by (metis snd_conv stepping_def)
  show "phone_steps db (snd (bindN m f db))"
  proof (cases r)
    case (Inl e)
    then show ?thesis using m one by (simp add: bindN_def)
  next
    case (Inr x)
    have "phone_steps db1 (snd (f x db1))" using assms(2) by (simp add: stepping_def)
    then show ?thesis using m one Inr phone_steps_trans by (auto simp: bindN_def)
  qed
qed

lemma stepping_if [stepping_intros]: "(b \<Longrightarrow> stepping m) \<Longrightarrow> (\<not> b \<Longrightarrow> stepping n) \<Longrightarrow> stepping (if b then m else n)"
  by simp

lemma stepping_option [stepping_intros]: "stepping m \<Longrightarrow> (\<And>x. stepping (f x)) \<Longrightarrow> stepping (case v of None \<Rightarrow> m | Some x \<Rightarrow> f x)"
  by (cases v) simp_all

lemma stepping_pair [stepping_intros]: "(\<And>x y. stepping (f x y)) \<Longrightarrow> stepping (case v of (x, y) \<Rightarrow> f x y)"
  by (cases v) simp

lemma stepping_invoke [stepping_intros]: "(\<And>db. phone_steps db (snd (plugin db))) \<Longrightarrow> stepping (invoke method payload plugin)"
proof (unfold stepping_def, intro allI)
  fix db assume steps: "\<And>db. phone_steps db (snd (plugin db))"
  show "phone_steps db (snd (invoke method payload plugin db))"
    using steps [of db] by (cases "plugin db"; cases "fst (plugin db)") (simp_all add: invoke_def stay)
qed

text \<open>A statement of a batch: one of the database, or nothing.\<close>

definition steps_as :: "(phone_db \<Rightarrow> phone_db option) \<Rightarrow> bool" where
  "steps_as f \<longleftrightarrow> phone_statement f \<or> f = Some"

lemma run_steps: "\<forall>f \<in> set fs. steps_as f \<Longrightarrow> run_statements fs db = Some db' \<Longrightarrow> phone_steps db db'"
proof (induction fs arbitrary: db)
  case Nil
  then show ?case by (simp add: run_statements_def stay)
next
  case (Cons f fs)
  have "foldl Option.bind None xs = None" for xs :: "(phone_db \<Rightarrow> phone_db option) list" by (induction xs) simp_all
  then obtain db1 where one: "f db = Some db1" "run_statements fs db1 = Some db'"
    using Cons.prems(2) by (cases "f db") (simp_all add: run_statements_def)
  have "phone_steps db db1"
  proof (cases "f = Some")
    case False
    with Cons.prems(1) have "phone_statement f" by (simp add: steps_as_def)
    from go [OF stay statement [OF this one(1)]] show ?thesis .
  qed (use one(1) stay in auto)
  moreover have "phone_steps db1 db'" using Cons.IH Cons.prems(1) one(2) by simp
  ultimately show ?case using phone_steps_trans by blast
qed

lemma native_batch_result: "native_batch sts db = (r, db') \<Longrightarrow> (isl r \<and> db' = db) \<or> run_statements (map (\<lambda>s. snd (snd s)) sts) db = Some db'"
  by (auto simp: native_batch_def split: if_splits option.splits)

lemma stepping_batchN [stepping_intros]:
  assumes "\<And>s. s \<in> set sts \<Longrightarrow> steps_as (snd (snd s))"
  shows "stepping (batchN tid sts)"
  unfolding batchN_def
proof (rule stepping_invoke)
  fix db
  have all: "\<forall>f \<in> set (map (\<lambda>s. snd (snd s)) sts). steps_as f" using assms by auto
  obtain r db' where b: "native_batch sts db = (r, db')" by fastforce
  from native_batch_result [OF this] run_steps [OF all] stay show "phone_steps db (snd (native_batch sts db))"
    unfolding b by auto
qed

lemma stepping_reconciled [stepping_intros]:
  assumes "stepping m" and "\<And>e. stepping (h e)"
  shows "stepping (reconciled m h)"
  unfolding stepping_def
proof
  fix db
  obtain r db1 where m: "m db = (r, db1)" by fastforce
  then have one: "phone_steps db db1" using assms(1) by (metis snd_conv stepping_def)
  show "phone_steps db (snd (reconciled m h db))"
  proof (cases r)
    case (Inr x)
    then show ?thesis using m one by (simp add: reconciled_def)
  next
    case (Inl e)
    obtain r2 db2 where h: "h e db1 = (r2, db2)" by fastforce
    have "phone_steps db1 db2" using assms(2) [of e] h unfolding stepping_def by (metis snd_conv)
    then have "phone_steps db db2" using one phone_steps_trans by blast
    then show ?thesis using m h Inl by (cases r2) (simp_all add: reconciled_def)
  qed
qed

lemma steps_as_statement: "phone_statement f \<Longrightarrow> steps_as f" "steps_as Some"
  by (simp_all add: steps_as_def)

lemma create_statements_step: "s \<in> set (create_statements r human ps demo) \<Longrightarrow> steps_as (snd (snd s))"
  by (auto simp: create_statements_def persona_statement_def intro!: steps_as_statement phone_statement.intros)

lemma complete_statement_step: "steps_as (snd (snd (complete_statement command v epoch)))"
  by (auto simp: complete_statement_def Let_def intro!: steps_as_statement phone_statement.intros)

lemma demo_statements_step: "s \<in> set (completed_demo_statements room g source who turns state human director persona) \<Longrightarrow> steps_as (snd (snd s))"
  by (auto simp: completed_demo_statements_def Let_def steps_as_def intro: phone_statement.intros)

lemma stepping_single [stepping_intros]: "phone_statement f \<Longrightarrow> stepping (batchN tid [(n, ps, f)])"
  by (rule stepping_batchN) (simp add: steps_as_def)

lemma stepping_batches [stepping_intros]:
  "stepping (batchN tid (create_statements r human ps demo))" "stepping (batchN tid [complete_statement command v epoch])"
  "stepping (batchN tid (completed_demo_statements room g source who turns state human_json director persona))"
  by (rule stepping_batchN, use create_statements_step complete_statement_step demo_statements_step in auto)+

lemma stepping_reads [stepping_intros]:
  "stepping (returnN x)" "stepping (throwN e)" "stepping (liftN r)" "stepping (requireN b e)"
  "stepping (readCurrentPhoneRoom fits bu)" "stepping (readRoomById fits bu r')" "stepping (readRoomEvents fits bu r')"
  "stepping (readDirectorContext fits bu room)" "stepping (loadLocalDraft fits r')" "stepping (provider_ready fits bu)"
  "stepping (readUnresolvedGenerationCommand fits bu r')" "stepping (readCompletedGenerationCommand fits v)"
  by (rule stepping_read, rule read_only_intros)+

lemma room_calls_step:
  "stepping (createLocalRoom fits bu uuid1 uuid2 slugs demo)" "stepping (reopenLocalRoom fits bu uuid r)"
  unfolding createLocalRoom_def reopenLocalRoom_def Let_def
  by (intro stepping_intros phone_statement.intros)+

lemma draft_calls_step: "stepping (deleteLocalDraft uuid r)" "stepping (saveLocalDraft uuid r t)"
proof -
  show "stepping (deleteLocalDraft uuid r)" for r unfolding deleteLocalDraft_def by (intro stepping_intros phone_statement.intros)
  then show "stepping (saveLocalDraft uuid r t)" unfolding saveLocalDraft_def by (intro stepping_intros phone_statement.intros)
qed

lemma prepare_step: "stepping (prepareAtomicTurn fits bu sha uuid i room t options)"
  unfolding prepareAtomicTurn_def by (intro stepping_intros phone_statement.intros)

lemma complete_step: "stepping (completeAndReadBack fits bu command v epoch)" "stepping (completePreparedSilence fits bu command)"
  unfolding completePreparedSilence_def completeAndReadBack_def Let_def by (intro stepping_intros)+

lemma decided_demo_statements:
  "decide_demo_turn bu room human c request t options = Inr (decided, who, reply, sts) \<Longrightarrow> s \<in> set sts \<Longrightarrow> steps_as (snd (snd s))"
  by (auto simp: decide_demo_turn_def Let_def intro: demo_statements_step split: option.splits)

lemma stepping_decided:
  assumes "\<And>decided who reply sts. v = Inr (decided, who, reply, sts) \<Longrightarrow> stepping (f decided who reply sts)"
  shows "stepping (bindN (liftN v) (\<lambda>(decided, who, reply, sts). f decided who reply sts))"
  using assms by (cases v) (auto simp: stepping_def bindN_def liftN_def stay)

lemma demo_step: "stepping (completeReviewDemoTurn fits bu uuid room t options)"
  unfolding completeReviewDemoTurn_def
  by (intro stepping_bindN stepping_reads stepping_option stepping_decided stepping_batchN) (rule decided_demo_statements)

lemma failure_steps: "stepping (reconcileGenerationFailure fits bu uuid command e)" "stepping (abandonAtomicGeneration fits bu command)"
  unfolding reconcileGenerationFailure_def abandonAtomicGeneration_def Let_def by (intro stepping_intros phone_statement.intros)+

lemma execute_step: "(\<And>q i d db. phone_steps db (snd (generate q i d db))) \<Longrightarrow> stepping (executePreparedGeneration fits bu generate command)"
  unfolding executePreparedGeneration_def by (intro stepping_intros complete_step)

lemma retry_step: "(\<And>q i d db. phone_steps db (snd (generate q i d db))) \<Longrightarrow> stepping (retryAtomicGeneration fits bu generate uuid command)"
  unfolding retryAtomicGeneration_def by (intro stepping_intros complete_step execute_step failure_steps)

lemma resolved_before_count: "resolved_before cs \<Longrightarrow> length (filter unresolved cs) \<le> 1"
  by (cases cs rule: rev_cases) (auto simp: resolved_before_def filter_empty_conv)

text \<open>The calls that a user can cause, and what one leaves.\<close>

datatype runtime_call =
    Create_Local_Room string string "string list" bool
  | Reopen_Local_Room string string
  | Save_Local_Draft string string string
  | Delete_Local_Draft string string
  | Prepare_Turn string string jval string jval
  | Complete_Silence jval
  | Execute_Generation jval
  | Reconcile_Failure string jval phone_error
  | Retry_Generation string jval
  | Abandon_Generation jval
  | Complete_Demo_Turn string jval string jval

fun run_call ::
    "(jval \<Rightarrow> bool) \<Rightarrow> app_bundle \<Rightarrow> (string \<Rightarrow> string) \<Rightarrow> provider_plugin \<Rightarrow> runtime_call \<Rightarrow> phone_db \<Rightarrow> phone_db" where
  "run_call fits bu sha generate (Create_Local_Room u1 u2 slugs demo) db = snd (createLocalRoom fits bu u1 u2 slugs demo db)"
| "run_call fits bu sha generate (Reopen_Local_Room u r) db = snd (reopenLocalRoom fits bu u r db)"
| "run_call fits bu sha generate (Save_Local_Draft u r t) db = snd (saveLocalDraft u r t db)"
| "run_call fits bu sha generate (Delete_Local_Draft u r) db = snd (deleteLocalDraft u r db)"
| "run_call fits bu sha generate (Prepare_Turn u i room t options) db = snd (prepareAtomicTurn fits bu sha u i room t options db)"
| "run_call fits bu sha generate (Complete_Silence command) db = snd (completePreparedSilence fits bu command db)"
| "run_call fits bu sha generate (Execute_Generation command) db = snd (executePreparedGeneration fits bu generate command db)"
| "run_call fits bu sha generate (Reconcile_Failure u command e) db = snd (reconcileGenerationFailure fits bu u command e db)"
| "run_call fits bu sha generate (Retry_Generation u command) db = snd (retryAtomicGeneration fits bu generate u command db)"
| "run_call fits bu sha generate (Abandon_Generation command) db = snd (abandonAtomicGeneration fits bu command db)"
| "run_call fits bu sha generate (Complete_Demo_Turn u room t options) db = snd (completeReviewDemoTurn fits bu u room t options db)"

inductive app_run :: "(jval \<Rightarrow> bool) \<Rightarrow> app_bundle \<Rightarrow> (string \<Rightarrow> string) \<Rightarrow> provider_plugin \<Rightarrow> phone_db \<Rightarrow> bool"
  for fits bu sha generate where
  installed: "app_run fits bu sha generate empty_phone"
| called: "app_run fits bu sha generate db \<Longrightarrow> app_run fits bu sha generate (run_call fits bu sha generate call db)"
| native: "app_run fits bu sha generate db \<Longrightarrow> phone_step db db' \<Longrightarrow> app_run fits bu sha generate db'"

lemma run_call_steps:
  assumes "\<And>q i d db. phone_steps db (snd (generate q i d db))"
  shows "phone_steps db (run_call fits bu sha generate call db)"
  using room_calls_step draft_calls_step prepare_step complete_step(2) demo_step failure_steps execute_step [OF assms] retry_step [OF assms]
  by (cases call) (simp_all add: stepping_def)

lemma app_run_steps:
  assumes "app_run fits bu sha generate db" and "\<And>q i d db. phone_steps db (snd (generate q i d db))"
  shows "phone_steps empty_phone db"
  using assms(1)
proof (induction rule: app_run.induct)
  case installed
  show ?case by (rule stay)
next
  case (called db call)
  from phone_steps_trans [OF run_call_steps [OF assms(2)] called.IH] show ?case .
next
  case (native db db')
  from go [OF native.IH native.hyps(2)] show ?case .
qed

text \<open>Completing the silent turn of the example by a call of the runtime.\<close>

lemma app_run_native: "phone_steps a b \<Longrightarrow> app_run fits bu sha generate a \<Longrightarrow> app_run fits bu sha generate b"
  by (induction rule: phone_steps.induct) (auto intro: native)

lemma bindN_keeps: "m db = (Inr x, db1) \<Longrightarrow> (\<And>y. read_only (f y)) \<Longrightarrow> snd (bindN m f db) = db1"
  by (simp add: bindN_def read_only_def)

lemma silent_run:
  "snd (completeAndReadBack fits bu (unresolved_json (silent_command ''hello'')) JNull 0 (prepared_phone ''hello'')) = committed_phone ''hello''"
proof -
  let ?command = "unresolved_json (silent_command ''hello'')"
  let ?st = "(''complete_silent_generation_command'', [JStr example_id, JStr example_request, JStr (replicate 64 CHR ''a''), JInt 0],
     complete_silent example_id example_request (replicate 64 CHR ''a'') 0)"
  have st: "complete_statement ?command JNull 0 = ?st"
    by (simp add: complete_statement_def unresolved_json_def silent_command_def opt_jstr_def Let_def)
  have "\<exists>v. batchN (''complete-silence-'' @ example_id) [?st] (prepared_phone ''hello'') = (Inr v, committed_phone ''hello'')"
  proof (rule batch_succeeds)
    show "run_statements (map (\<lambda>s. snd (snd s)) [?st]) (prepared_phone ''hello'') = Some (committed_phone ''hello'')"
      by (simp add: run_statements_def silent_completes)
    show "encodedBytes (bridge_request ''database.executeBatch'' (batch_payload (''complete-silence-'' @ example_id) [?st])) \<le> 9999"
      unfolding batch_payload_def by simp code_simp
    show "encodedBytes (bridge_response (JObj [(''changes'', JInt (int 1))])) \<le> 9999" by code_simp
  qed simp_all
  then obtain v where "batchN (''complete-silence-'' @ example_id) [?st] (prepared_phone ''hello'') = (Inr v, committed_phone ''hello'')" by blast
  moreover have "jget ''personaSlug'' ?command = JNull" "jget ''commandId'' ?command = JStr example_id"
    by (simp_all add: unresolved_json_def silent_command_def opt_jstr_def)
  ultimately show ?thesis
    unfolding completeAndReadBack_def Let_def st by (intro bindN_keeps) (simp_all, (intro read_only_intros)+)
qed

lemma silent_call:
  "run_call fits bu sha generate (Complete_Silence (unresolved_json (silent_command ''hello''))) (prepared_phone ''hello'') = committed_phone ''hello''"
proof -
  have "completePreparedSilence fits bu (unresolved_json (silent_command ''hello'')) =
      completeAndReadBack fits bu (unresolved_json (silent_command ''hello'')) JNull 0"
    by (simp add: completePreparedSilence_def unresolved_json_def silent_command_def opt_jstr_def silence_plan_def)
  then show ?thesis by (simp add: silent_run)
qed

text \<open>
  C13: the runtime implements the native protocol: after any calls of its operations, with any arguments
  and whatever each of them returned, between which the native side may take any step, the database is one
  that the reviewed statements alone can reach; so in a provider room the log still consists of the turns
  of completed commands, and at most one command of a room is unresolved. Of the native provider
  call it is assumed that it changes the database by reviewed statements only.
\<close>

theorem runtime_refines_native_steps:
  assumes "app_run fits bu sha generate db" and "\<And>q i d db. phone_steps db (snd (generate q i d db))"
    and "phone_room_of db r = Some room" and "\<not> phr_demo room"
  shows "phone_steps empty_phone db \<and> room_log db r = turns_of (room_commands db r) \<and>
    length (filter unresolved (room_commands db r)) \<le> 1"
proof -
  have steps: "phone_steps empty_phone db" by (rule app_run_steps [OF assms(1,2)])
  have room: "room \<in> set (phone_rooms db)" "phr_id room = r" using phone_room_of_Some [OF assms(3)] by simp_all
  from phone_okD(6) [OF steps_keep [OF steps empty_ok] room(1)] have turns: "room_log db r = turns_of (room_commands db r)"
    and before: "resolved_before (room_commands db r)" using assms(4) by (simp_all add: room_turns_ok_def room(2))
  from resolved_before_count [OF before] steps turns show ?thesis by simp
qed

theorem runtime_refines_native_steps_witness:
  "room_log (committed_phone ''hello'') phone_example_room = turns_of (room_commands (committed_phone ''hello'') phone_example_room) \<and>
   length (filter unresolved (room_commands (committed_phone ''hello'') phone_example_room)) \<le> 1"
proof -
  let ?gen = "\<lambda>_ _ _ db. (Inl (''offline'', True), db)"
  let ?room = "\<lparr>phr_id = phone_example_room, phr_title = ''Ada Room'', phr_status = Active, phr_demo = False, phr_generation = 0, phr_next = 3\<rparr>"
  have run: "app_run (\<lambda>_. True) example_bundle id ?gen (committed_phone ''hello'')"
    using called [OF app_run_native [OF prepared_reachable installed], of "\<lambda>_. True" example_bundle id ?gen
      "Complete_Silence (unresolved_json (silent_command ''hello''))" "''hello''"] unfolding silent_call .
  have still: "phone_steps db (snd (?gen q i d db))" for q i d db by (simp add: stay)
  have room: "phone_room_of (committed_phone ''hello'') phone_example_room = Some ?room" by (simp add: phone_room_of_def committed_phone_def)
  from runtime_refines_native_steps [OF run still room] show ?thesis by simp
qed

section \<open>All or nothing\<close>

lemma completing_update:
  assumes ok: "phone_ok db" and run: "update_command i P f db = Some db'"
    and P: "\<And>c. P c \<Longrightarrow> unresolved c \<and> same_core c (f c) \<and> completed_command (f c)"
  shows "\<exists>c \<in> set (phone_commands db). gc_id c = i \<and> P c \<and> f c \<in> set (phone_commands db') \<and>
    (\<forall>r. room_log db' r = room_log db r @ (if r = gc_room c then turn_of (f c) else []))"
proof -
  from run obtain c where c: "command_of db i = Some c" "P c"
    by (auto simp: update_command_def split: option.splits if_splits)
  have mem: "c \<in> set (phone_commands db)" "gc_id c = i" using command_of_Some [OF c(1)] by simp_all
  have fc: "unresolved c" "same_core c (f c)" "completed_command (f c)" using P [OF c(2)] by simp_all
  then have "gc_state c \<noteq> Cmd_Completed" "gc_state (f c) = Cmd_Completed" by (simp_all add: unresolved_iff completed_command_def)
  with run c have fence: "completion_fenced c db" and commit: "commit_room (f c) (store_command (f c) db) = Some db'"
    by (auto simp: update_command_def split: if_splits)
  from commit_room_ok [OF ok mem(1) fc(2) fence commit] obtain db1 where db1: "director_committed (f c) (store_command (f c) db) db1"
    "db' = (pushed (gc_room c) (turn_of (f c)) db1)\<lparr>phone_drafts := (phone_drafts db1)(gc_room c := None)\<rparr>" by blast
  have "phone_commands db' = map (replaced (f c)) (phone_commands db)" and events: "phone_events db1 = phone_events db"
    using db1 by (simp_all add: director_committed_def pushed_def store_command_replaced)
  moreover have "replaced (f c) c = f c" using fc(2) by (simp add: replaced_def same_core_def)
  ultimately have "f c \<in> set (phone_commands db')" using mem(1) by force
  moreover have "room_log db' r = room_log (pushed (gc_room c) (turn_of (f c)) db1) r" for r unfolding db1(2) by (rule room_log_frame) simp
  then have "room_log db' r = room_log db r @ (if r = gc_room c then turn_of (f c) else [])" for r
    using room_log_frame [OF events] by (simp add: pushed_log)
  ultimately show ?thesis using mem c(2) by blast
qed

definition statement_response :: "jval \<Rightarrow> jval \<Rightarrow> string option" where
  "statement_response command response = (if jget ''personaSlug'' command = JNull then None else Some (jstr response))"

text \<open>The turn that one statement committed.\<close>

definition turn_committed :: "jval \<Rightarrow> string option \<Rightarrow> phone_db \<Rightarrow> phone_db \<Rightarrow> bool" where
  "turn_committed command response db db' \<longleftrightarrow>
     (\<exists>c \<in> set (phone_commands db). \<exists>c' \<in> set (phone_commands db').
        gc_id c = jstr (jget ''commandId'' command) \<and> unresolved c \<and> same_core c c' \<and> completed_command c' \<and> gc_response c' = response \<and>
        (\<forall>r. room_log db' r = room_log db r @ (if r = gc_room c then turn_of c' else [])))"

lemma complete_statement_commits:
  assumes ok: "phone_ok db" and run: "snd (snd (complete_statement command v epoch)) db = Some db'"
  shows "turn_committed command (statement_response command v) db db'"
proof -
  let ?i = "jstr (jget ''commandId'' command)" and ?q = "jstr (jget ''requestId'' command)" and ?d = "jstr (jget ''requestDigest'' command)"
  show ?thesis
  proof (cases "jget ''personaSlug'' command = JNull")
    case True
    let ?P = "\<lambda>c. same_command ?q ?d c \<and> gc_epoch c = epoch \<and> gc_state c \<in> {Cmd_Prepared, Cmd_Failed} \<and> gc_slug c = None"
    let ?f = "\<lambda>c. c\<lparr>gc_state := Cmd_Completed, gc_failure := None, gc_finished := True\<rparr>"
    from run True have up: "update_command ?i ?P ?f db = Some db'" by (simp add: complete_statement_def complete_silent_def Let_def)
    have "\<exists>c \<in> set (phone_commands db). gc_id c = ?i \<and> ?P c \<and> ?f c \<in> set (phone_commands db') \<and>
        (\<forall>r. room_log db' r = room_log db r @ (if r = gc_room c then turn_of (?f c) else []))"
      by (rule completing_update [OF ok up]) (auto simp: unresolved_def same_core_def completed_command_def)
    then obtain c where c: "c \<in> set (phone_commands db)" "gc_id c = ?i" "?P c" "?f c \<in> set (phone_commands db')"
      "\<forall>r. room_log db' r = room_log db r @ (if r = gc_room c then turn_of (?f c) else [])" by blast
    have "generation_row_ok c" using phone_okD(4) [OF ok c(1)] .
    then have "gc_response c = None" using c(3) by (auto simp: generation_row_ok_def state_check_def)
    then show ?thesis unfolding turn_committed_def using c True
      by (intro bexI [of _ c] bexI [of _ "?f c"]) (auto simp: statement_response_def unresolved_def same_core_def completed_command_def)
  next
    case False
    let ?P = "\<lambda>c. same_command ?q ?d c \<and> gc_epoch c = epoch \<and> gc_state c = Cmd_In_Flight \<and> gc_slug c \<noteq> None"
    let ?f = "\<lambda>c. c\<lparr>gc_state := Cmd_Completed, gc_response := Some (jstr v), gc_failure := None, gc_finished := True\<rparr>"
    from run False have up: "update_command ?i ?P ?f db = Some db'" by (simp add: complete_statement_def complete_command_def Let_def)
    have "\<exists>c \<in> set (phone_commands db). gc_id c = ?i \<and> ?P c \<and> ?f c \<in> set (phone_commands db') \<and>
        (\<forall>r. room_log db' r = room_log db r @ (if r = gc_room c then turn_of (?f c) else []))"
      by (rule completing_update [OF ok up]) (auto simp: unresolved_def same_core_def completed_command_def)
    then obtain c where c: "c \<in> set (phone_commands db)" "gc_id c = ?i" "?P c" "?f c \<in> set (phone_commands db')"
      "\<forall>r. room_log db' r = room_log db r @ (if r = gc_room c then turn_of (?f c) else [])" by blast
    then show ?thesis unfolding turn_committed_def using False
      by (intro bexI [of _ c] bexI [of _ "?f c"]) (auto simp: statement_response_def unresolved_def same_core_def completed_command_def)
  qed
qed

text \<open>A batch either did not happen, or its statements ran, whatever became of the answer.\<close>

lemma batch_all_or_nothing:
  "batchN tid sts db = (r, db') \<Longrightarrow> (isl r \<and> db' = db) \<or> run_statements (map (\<lambda>s. snd (snd s)) sts) db = Some db'"
  by (auto simp: batchN_def invoke_def split: if_splits prod.splits sum.splits dest: native_batch_result)

lemma bindN_state: "(\<And>x. read_only (f x)) \<Longrightarrow> bindN m f db = (r, db') \<Longrightarrow> \<exists>r1. m db = (r1, db') \<and> (isl r1 \<longrightarrow> isl r)"
  by (auto simp: bindN_def read_only_def split: prod.splits sum.splits) (metis snd_conv)+

lemma run_single: "run_statements [f] db = f db"
  by (simp add: run_statements_def)

text \<open>What a reading of the unresolved command of a room returns.\<close>

lemma unresolved_json_ok: "generation_row_ok c \<Longrightarrow> json_ok (unresolved_json c)"
  by (auto simp: unresolved_json_def opt_jstr_def generation_row_ok_def split: option.splits)

lemma unresolved_query:
  "query_rows ''unresolved_generation_command'' [r] db =
     Some (''generation_command_json'', map unresolved_json (filter (\<lambda>c. gc_room c = r \<and> unresolved c) (phone_commands db)))"
  by (simp add: query_rows_def)

lemma rows_json_columns [simp]: "jget ''columns'' (rows_json column vs) = JArr [JStr column]"
  by (simp add: rows_json_def)

lemma parse_single_row:
  "parseSingleJsonRow column label (rows_json column vs) = Inr v \<Longrightarrow> (vs = [] \<and> v = JNull) \<or> (\<exists>w. vs = [w] \<and> parse_json (stringify w) = Inr v)"
  by (cases vs) (simp_all add: parseSingleJsonRow_def Let_def split: if_splits)

lemma parsed_command: "parseGenerationCommand bu w = Inr v \<Longrightarrow> v = w"
  by (simp add: parseGenerationCommand_def split: if_splits)

lemma read_unresolved:
  assumes ok: "phone_ok db" and run: "readUnresolvedGenerationCommand fits bu r db = (Inr v, db')"
  shows "v = JNull \<and> (\<forall>c \<in> set (phone_commands db). gc_room c = r \<longrightarrow> \<not> unresolved c) \<or>
    (\<exists>c \<in> set (phone_commands db). gc_room c = r \<and> unresolved c \<and> v = unresolved_json c)"
proof -
  let ?cs = "filter (\<lambda>c. gc_room c = r \<and> unresolved c) (phone_commands db)"
  from run queryN_run [OF unresolved_query, of fits r db] obtain w where
    row: "parseSingleJsonRow ''generation_command_json'' ''generation command'' (rows_json ''generation_command_json'' (map unresolved_json ?cs)) = Inr w"
    and "parseGenerationCommand bu w = Inr v"
    by (auto simp: readUnresolvedGenerationCommand_def)
  from parsed_command [OF this(2)] have w: "w = v" by simp
  from parse_single_row [OF row] consider "?cs = []" "v = JNull" | c where "?cs = [c]" "parse_json (stringify (unresolved_json c)) = Inr v"
    unfolding w by (auto simp: map_eq_Cons_conv)
  then show ?thesis
  proof cases
    case 1
    then show ?thesis by (auto simp: filter_empty_conv)
  next
    case 2
    then have "c \<in> set ?cs" by simp
    then have c: "c \<in> set (phone_commands db)" "gc_room c = r" "unresolved c" by auto
    have "json_parse (stringify (unresolved_json c)) = Some (unresolved_json c)"
      by (intro parse_stringify unresolved_json_ok phone_okD(4) [OF ok c(1)])
    with 2 have "v = unresolved_json c" by (simp add: parse_json_def)
    with c show ?thesis by blast
  qed
qed

lemma retry_refused:
  assumes ok: "phone_ok db" and gone: "\<And>c. c \<in> set (phone_commands db) \<Longrightarrow> gc_id c = jstr (jget ''commandId'' command) \<Longrightarrow> \<not> unresolved c"
  shows "\<exists>e. retryAtomicGeneration fits bu generate uuid command db = (Inl e, db)"
proof -
  have none: "v = JNull \<or> \<not> same_request v command"
    if "readUnresolvedGenerationCommand fits bu (jstr (jget ''roomId'' command)) db = (Inr v, db)" for v
  proof (rule ccontr)
    assume no: "\<not> (v = JNull \<or> \<not> same_request v command)"
    with read_unresolved [OF ok that] obtain c where c: "c \<in> set (phone_commands db)" "unresolved c" "v = unresolved_json c" by blast
    with no have "jget ''commandId'' command = JStr (gc_id c)" by (simp add: same_request_def unresolved_json_def)
    with gone [OF c(1)] c(2) show False by simp
  qed
  show ?thesis unfolding retryAtomicGeneration_def
    by (rule bindN_read) (intro read_only_intros, use none in \<open>auto simp: throwN_def\<close>)
qed



section \<open>Abandoning a turn\<close>

lemma bindN_readE:
  assumes "read_only m" and "bindN m f db = (r, db')"
  shows "(isl r \<and> db' = db) \<or> (\<exists>x. m db = (Inr x, db) \<and> f x db = (r, db'))"
proof (cases "m db")
  case (Pair r1 db1)
  then have "db1 = db" using read_onlyD [OF assms(1)] by blast
  then show ?thesis using Pair assms(2) by (cases r1) (auto simp: bindN_def)
qed

lemma abandoned_effect:
  assumes ok: "phone_ok db" and run: "abandon_command code i q d db = Some db'"
  shows "\<exists>c \<in> set (phone_commands db). \<exists>c' \<in> set (phone_commands db'). gc_id c = i \<and> unresolved c \<and> gc_state c \<noteq> Cmd_In_Flight \<and>
    same_core c c' \<and> gc_state c' = Cmd_Abandoned \<and> (\<forall>r. room_log db' r = room_log db r) \<and>
    (\<forall>x \<in> set (phone_commands db'). gc_room x = gc_room c \<longrightarrow> \<not> unresolved x)"
proof -
  let ?P = "\<lambda>c. same_command q d c \<and> gc_state c \<in> {Cmd_Prepared, Cmd_Failed, Cmd_Interrupted}"
  let ?f = "\<lambda>c. c\<lparr>gc_state := Cmd_Abandoned, gc_failure := Some code, gc_finished := True\<rparr>"
  from run obtain c where c: "command_of db i = Some c" "?P c" and db': "db' = store_command (?f c) db"
    unfolding abandon_command_def update_command_def by (auto split: option.splits if_splits)
  have mem: "c \<in> set (phone_commands db)" "gc_id c = i" using command_of_Some [OF c(1)] by simp_all
  have un: "unresolved c" "gc_state c \<noteq> Cmd_In_Flight" using c(2) by (auto simp: unresolved_def)
  obtain room where room: "room \<in> set (phone_rooms db)" "phr_id room = gc_room c" using phone_okD(5) [OF ok mem(1)] by auto
  have before: "resolved_before (room_commands db (gc_room c))" using phone_okD(6) [OF ok room(1)] by (simp add: room_turns_ok_def room(2))
  have "room_commands db' (gc_room c) = butlast (room_commands db (gc_room c)) @ [?f c]"
    unfolding db' using stored_room_commands(2) [OF phone_okD(2) [OF ok] mem(1) _ _ before un(1), of "?f c" "gc_room c"] by simp
  then have "\<not> unresolved x" if "x \<in> set (room_commands db' (gc_room c))" for x
    using that before by (auto simp: resolved_before_def unresolved_def)
  then have gone: "\<forall>x \<in> set (phone_commands db'). gc_room x = gc_room c \<longrightarrow> \<not> unresolved x" by (simp add: room_commands_def)
  have "?f c \<in> set (phone_commands db')" unfolding db' store_command_def using mem by force
  moreover have "room_log db' r = room_log db r" for r unfolding db' by (rule room_log_frame) simp
  ultimately show ?thesis using mem un gone by (intro bexI [of _ c] bexI [of _ "?f c"]) (simp_all add: same_core_def)
qed

text \<open>
  Giving up a turn frees the room and adds nothing to it: either the call failed and the database is
  as before, or the command, which was not executing, is abandoned, no log changed, and no command of its
  room is unresolved any more, so the next line can be prepared.
\<close>

theorem abandoned_turn_frees_room:
  assumes "phone_steps empty_phone db" and "abandonAtomicGeneration fits bu command db = (result, db')"
  shows "(isl result \<and> db' = db) \<or>
    (\<exists>c \<in> set (phone_commands db). \<exists>c' \<in> set (phone_commands db'). gc_id c = jstr (jget ''commandId'' command) \<and> unresolved c \<and>
       gc_state c \<noteq> Cmd_In_Flight \<and> same_core c c' \<and> gc_state c' = Cmd_Abandoned \<and> (\<forall>r. room_log db' r = room_log db r) \<and>
       (\<forall>x \<in> set (phone_commands db'). gc_room x = gc_room c \<longrightarrow> \<not> unresolved x))"
proof -
  have ok: "phone_ok db" using steps_keep [OF assms(1) empty_ok] .
  let ?i = "jstr (jget ''commandId'' command)" and ?q = "jstr (jget ''requestId'' command)" and ?d = "jstr (jget ''requestDigest'' command)"
  let ?st = "(''abandon_generation_command'', [JStr ''user_abandoned'', JStr ?i, JStr ?q, JStr ?d], abandon_command ''user_abandoned'' ?i ?q ?d)"
  from bindN_readE [OF _ assms(2) [unfolded abandonAtomicGeneration_def Let_def]] consider "isl result" "db' = db" |
    current where "bindN (requireN (current \<noteq> JNull \<and> same_request current command \<and> jget ''state'' current \<noteq> JStr ''in_flight'')
               (plain ''The exact generation command cannot be abandoned.'')) (\<lambda>_.
      bindN (batchN (''abandon-'' @ ?i) [?st]) (\<lambda>_.
      bindN (readUnresolvedGenerationCommand fits bu (jstr (jget ''roomId'' command))) (\<lambda>rest.
        if rest \<noteq> JNull then throwN (plain ''The generation command was not abandoned.'') else returnN ()))) db = (result, db')"
    by (metis (no_types, lifting) readers_read_only(8))
  then show ?thesis
  proof cases
    case 1
    then show ?thesis by blast
  next
    case 2
    from bindN_readE [OF read_only_basic(4) 2] consider "isl result" "db' = db" |
      "bindN (batchN (''abandon-'' @ ?i) [?st]) (\<lambda>_.
      bindN (readUnresolvedGenerationCommand fits bu (jstr (jget ''roomId'' command))) (\<lambda>rest.
        if rest \<noteq> JNull then throwN (plain ''The generation command was not abandoned.'') else returnN ())) db = (result, db')"
      by blast
    then show ?thesis
    proof cases
      case 1
      then show ?thesis by blast
    next
      case 2
      have "\<exists>r1. batchN (''abandon-'' @ ?i) [?st] db = (r1, db') \<and> (isl r1 \<longrightarrow> isl result)"
        by (rule bindN_state [OF _ 2]) (intro read_only_intros)
      then obtain r1 where b: "batchN (''abandon-'' @ ?i) [?st] db = (r1, db')" "isl r1 \<longrightarrow> isl result" by blast
      from batch_all_or_nothing [OF b(1)] show ?thesis
      proof
        assume "isl r1 \<and> db' = db"
        with b(2) show ?thesis by blast
      next
        assume "run_statements (map (\<lambda>s. snd (snd s)) [?st]) db = Some db'"
        then have "abandon_command ''user_abandoned'' ?i ?q ?d db = Some db'" by (simp add: run_single)
        from abandoned_effect [OF ok this] show ?thesis by blast
      qed
    qed
  qed
qed

lemma bindN_of: "m db = (Inr x, db1) \<Longrightarrow> bindN m f db = f x db1"
  by (simp add: bindN_def)

lemma silent_read:
  "readUnresolvedGenerationCommand (\<lambda>_. True) example_bundle phone_example_room (prepared_phone ''hello'') =
     (Inr (unresolved_json (silent_command ''hello'')), prepared_phone ''hello'')"
proof -
  let ?command = "unresolved_json (silent_command ''hello'')"
  let ?rows = "rows_json ''generation_command_json'' [?command]"
  have rows: "query_rows ''unresolved_generation_command'' [phone_example_room] (prepared_phone ''hello'') =
      Some (''generation_command_json'', [?command])"
    unfolding unresolved_query by (simp add: prepared_phone_def silent_command_def unresolved_def)
  have query: "queryN (\<lambda>_. True) ''unresolved_generation_command'' [phone_example_room] (prepared_phone ''hello'') = (Inr ?rows, prepared_phone ''hello'')"
    by (rule query_succeeds [OF rows]) (simp, code_simp+)
  have "json_parse (stringify ?command) = Some ?command"
    by (intro parse_stringify unresolved_json_ok silent_row)
  moreover have "utf8_length (stringify ?command) \<le> 9999" by code_simp
  moreover have "parseGenerationCommand example_bundle ?command = Inr ?command" by code_simp
  ultimately show ?thesis
    using query by (simp add: readUnresolvedGenerationCommand_def bindN_def liftN_def parseSingleJsonRow_def Let_def parse_json_def MAX_BRIDGE_BYTES_def)
qed

theorem abandoned_turn_frees_room_witness:
  "\<exists>c \<in> set (phone_commands (snd (abandonAtomicGeneration (\<lambda>_. True) example_bundle (unresolved_json (silent_command ''hello'')) (prepared_phone ''hello'')))).
     gc_id c = example_id \<and> gc_state c = Cmd_Abandoned"
proof -
  let ?command = "unresolved_json (silent_command ''hello'')" and ?db = "prepared_phone ''hello''"
  let ?f = "\<lambda>c. c\<lparr>gc_state := Cmd_Abandoned, gc_failure := Some ''user_abandoned'', gc_finished := True\<rparr>"
  let ?digest = "replicate 64 CHR ''a''"
  let ?st = "(''abandon_generation_command'', [JStr ''user_abandoned'', JStr example_id, JStr example_request, JStr ?digest],
    abandon_command ''user_abandoned'' example_id example_request ?digest)"
  have fields: "jget ''roomId'' ?command = JStr phone_example_room" "jget ''commandId'' ?command = JStr example_id"
    "jget ''requestId'' ?command = JStr example_request" "jget ''requestDigest'' ?command = JStr ?digest" "jget ''state'' ?command = JStr ''prepared''"
    "?command \<noteq> JNull" by (simp_all add: unresolved_json_def silent_command_def)
  have gone: "abandon_command ''user_abandoned'' example_id example_request ?digest ?db = Some (store_command (?f (silent_command ''hello'')) ?db)"
  proof -
    have c: "command_of ?db example_id = Some (silent_command ''hello'')" by (simp add: command_of_def prepared_phone_def silent_command_def)
    have row: "generation_row_ok (?f (silent_command ''hello''))"
      using silent_row(1) [of "''hello''"] by (simp add: generation_row_ok_def state_check_def) (simp add: silent_command_def)
    have move: "transition_ok (silent_command ''hello'') (?f (silent_command ''hello''))" by (simp add: transition_ok_def silent_command_def)
    show ?thesis unfolding abandon_command_def update_command_def c option.case using row move
      by (simp add: same_command_def) (simp add: silent_command_def)
  qed
  have "\<exists>v. batchN (''abandon-'' @ example_id) [?st] ?db = (Inr v, store_command (?f (silent_command ''hello'')) ?db)"
  proof (rule batch_succeeds)
    show "encodedBytes (bridge_request ''database.executeBatch'' (batch_payload (''abandon-'' @ example_id) [?st])) \<le> 9999"
      unfolding batch_payload_def by simp code_simp
    show "encodedBytes (bridge_response (JObj [(''changes'', JInt (int 1))])) \<le> 9999" by code_simp
  qed (simp_all add: run_single gone)
  then obtain v where batch: "batchN (''abandon-'' @ example_id) [?st] ?db = (Inr v, store_command (?f (silent_command ''hello'')) ?db)" by blast
  let ?rest = "\<lambda>_. bindN (readUnresolvedGenerationCommand (\<lambda>_. True) example_bundle phone_example_room) (\<lambda>rest.
      if rest \<noteq> JNull then throwN (plain ''The generation command was not abandoned.'') else returnN ())"
  have "abandonAtomicGeneration (\<lambda>_. True) example_bundle ?command ?db = bindN (batchN (''abandon-'' @ example_id) [?st]) ?rest ?db"
    unfolding abandonAtomicGeneration_def Let_def fields jstr.simps bindN_of [of "readUnresolvedGenerationCommand (\<lambda>_. True) example_bundle phone_example_room" ?db, OF silent_read] native_run
    by (simp add: same_request_def fields)
  moreover have "snd (bindN (batchN (''abandon-'' @ example_id) [?st]) ?rest ?db) = store_command (?f (silent_command ''hello'')) ?db"
    by (rule bindN_keeps, rule batch) (intro read_only_intros)
  ultimately have "snd (abandonAtomicGeneration (\<lambda>_. True) example_bundle ?command ?db) = store_command (?f (silent_command ''hello'')) ?db"
    by simp
  moreover have "map gc_state (phone_commands (store_command (?f (silent_command ''hello'')) ?db)) \<noteq> map gc_state (phone_commands ?db)"
    by (simp add: store_command_def prepared_phone_def silent_command_def)
  then have "store_command (?f (silent_command ''hello'')) ?db \<noteq> ?db" by metis
  ultimately obtain c c' where "c' \<in> set (phone_commands (snd (abandonAtomicGeneration (\<lambda>_. True) example_bundle ?command ?db)))"
    "gc_id c = example_id" "same_core c c'" "gc_state c' = Cmd_Abandoned"
    using abandoned_turn_frees_room [OF prepared_reachable prod.collapse [symmetric], of "\<lambda>_. True" example_bundle ?command "''hello''"]
    unfolding fields jstr.simps by metis
  then show ?thesis by (intro bexI [of _ c']) (simp_all add: same_core_def)
qed

end
