(* ===== verification/Transport_Address.thy ===== *)
theory Transport_Address
  imports Contracts "HOL-Library.Product_Lexorder"
begin

text \<open>
  The addresses a provider may be reached at (\<open>src/providers/secure-http-transport.ts\<close>): parsing of the textual
  forms, the canonical text that is compared with the peer of a connection, the ranges that are never
  dialled, and the vetting of the answers of a name lookup. An address as a number is a \<open>bigint\<close> of the
  code; here it is a natural number.
\<close>

section \<open>IPv4\<close>

record canonical_address =
  ca_family :: nat
  ca_canonical :: string
  ca_numeric :: nat

definition of_digits :: "nat \<Rightarrow> nat list \<Rightarrow> nat" where
  "of_digits b ds = foldl (\<lambda>n d. n * b + d) 0 ds"

text \<open>\<open>0|[1-9]\d{0,2}\<close>\<close>

definition octet_text :: "string \<Rightarrow> bool" where
  "octet_text s \<longleftrightarrow> list_all is_digit s \<and> 1 \<le> length s \<and> length s \<le> 3 \<and> (length s = 1 \<or> hd s \<noteq> CHR ''0'')"

definition parseIpv4 :: "string \<Rightarrow> canonical_address option" where
  "parseIpv4 v =
     (let parts = split_on (CHR ''.'') v; ns = map nat_of_digits parts in
      if length parts \<noteq> 4 \<or> \<not> list_all octet_text parts \<or> list_ex (\<lambda>n. n > 255) ns then None
      else Some \<lparr>ca_family = 4, ca_canonical = js_join ''.'' (map show_nat ns), ca_numeric = of_digits 256 ns\<rparr>)"

definition ipv4In :: "nat \<Rightarrow> string \<Rightarrow> nat \<Rightarrow> bool" where
  "ipv4In a pre bits =
     (case parseIpv4 pre of None \<Rightarrow> False | Some p \<Rightarrow> drop_bit (32 - bits) a = drop_bit (32 - bits) (ca_numeric p))"

section \<open>IPv6\<close>

fun show_hex :: "nat \<Rightarrow> string" where
  "show_hex n = (if n < 16 then [hex_digit n] else show_hex (n div 16) @ [hex_digit (n mod 16)])"

declare show_hex.simps [simp del]

definition hex_text :: "string \<Rightarrow> bool" where
  "hex_text s \<longleftrightarrow> list_all (\<lambda>c. hex_value c \<noteq> None) s \<and> 1 \<le> length s \<and> length s \<le> 4"

definition nat_of_hex :: "string \<Rightarrow> nat" where
  "nat_of_hex s = of_digits 16 (map (\<lambda>c. the (hex_value c)) s)"

abbreviation colon :: char where
  "colon \<equiv> CHR '':''"

text \<open>\<open>source.split("::")\<close>; the matches of \<open>/::/gu\<close> are one fewer than its parts.\<close>

fun split_double :: "string \<Rightarrow> string list" where
  "split_double [] = [[]]"
| "split_double [c] = [[c]]"
| "split_double (c # d # s) =
     (if c = colon \<and> d = colon then [] # split_double s
      else (case split_double (d # s) of [] \<Rightarrow> [[c]] | w # ws \<Rightarrow> (c # w) # ws))"

definition part_texts :: "string \<Rightarrow> string list" where
  "part_texts s = (if s = [] then [] else split_on colon s)"

text \<open>The text up to and the text after the last colon.\<close>

definition last_colon :: "string \<Rightarrow> (string \<times> string) option" where
  "last_colon s = (if colon \<in> set s
     then Some (rev (tl (dropWhile (\<lambda>c. c \<noteq> colon) (rev s))), rev (takeWhile (\<lambda>c. c \<noteq> colon) (rev s))) else None)"

text \<open>A final dotted part is replaced by two words.\<close>

definition dotted_tail :: "string \<Rightarrow> string option" where
  "dotted_tail v =
     (if CHR ''.'' \<notin> set v then Some v
      else (case last_colon v of
          None \<Rightarrow> None
        | Some (front, tail) \<Rightarrow>
            map_option (\<lambda>a. front @ [colon] @ show_hex (ca_numeric a div 65536) @ [colon] @ show_hex (ca_numeric a mod 65536)) (parseIpv4 tail)))"

text \<open>The longest run of at least two zero words, the first of them when there are several; length 0 for none.\<close>

function zero_run :: "nat list \<Rightarrow> nat \<Rightarrow> nat \<times> nat \<Rightarrow> nat \<times> nat" where
  "zero_run ws i best =
     (if i < length ws
      then (if ws ! i \<noteq> 0 then zero_run ws (i + 1) best
            else let n = length (takeWhile (\<lambda>w. w = 0) (drop i ws)) in
              zero_run ws (i + n) (if n > snd best \<and> n \<ge> 2 then (i, n) else best))
      else best)"
  by pat_completeness auto
termination
  by (relation "measure (\<lambda>(ws, i, best). length ws - i)") (auto simp: Cons_nth_drop_Suc [symmetric])

declare zero_run.simps [simp del]

definition canonical_words :: "nat list \<Rightarrow> string" where
  "canonical_words ws =
     (let (start, n) = zero_run ws 0 (0, 0); rendered = map show_hex ws in
      if n = 0 then js_join '':'' rendered
      else js_join '':'' (take start rendered) @ ''::'' @ js_join '':'' (drop (start + n) rendered))"

definition ipv6_words :: "string \<Rightarrow> nat list option" where
  "ipv6_words source =
     (let halves = split_double source; left = part_texts (hd halves); right = (if length halves = 1 then [] else part_texts (halves ! 1));
          missing = 8 - (length left + length right) in
      if length halves > 2 \<or> \<not> list_all hex_text (left @ right) then None
      else if (length halves = 1 \<and> length left + length right \<noteq> 8) \<or> (length halves = 2 \<and> 8 < length left + length right + 1) then None
      else Some (map nat_of_hex left @ replicate missing 0 @ map nat_of_hex right))"

definition address_char :: "char \<Rightarrow> bool" where
  "address_char c \<longleftrightarrow> hex_value c \<noteq> None \<or> c = colon \<or> c = CHR ''.''"

definition parseIpv6 :: "string \<Rightarrow> canonical_address option" where
  "parseIpv6 v =
     (if length v < 2 \<or> \<not> list_all address_char v then None
      else map_option (\<lambda>ws. \<lparr>ca_family = 6, ca_canonical = canonical_words ws, ca_numeric = of_digits 65536 ws\<rparr>)
             (Option.bind (dotted_tail v) ipv6_words))"

definition ipv6In :: "nat \<Rightarrow> string \<Rightarrow> nat \<Rightarrow> bool" where
  "ipv6In a pre bits =
     (case parseIpv6 pre of None \<Rightarrow> False | Some p \<Rightarrow> drop_bit (128 - bits) a = drop_bit (128 - bits) (ca_numeric p))"

section \<open>Ranges that are never dialled\<close>

definition prohibited_ipv4 :: "(string \<times> nat) list" where
  "prohibited_ipv4 =
     [(''0.0.0.0'', 8), (''10.0.0.0'', 8), (''100.64.0.0'', 10), (''127.0.0.0'', 8), (''169.254.0.0'', 16), (''172.16.0.0'', 12),
      (''192.0.0.0'', 24), (''192.0.2.0'', 24), (''192.88.99.0'', 24), (''192.168.0.0'', 16), (''198.18.0.0'', 15),
      (''198.51.100.0'', 24), (''203.0.113.0'', 24), (''224.0.0.0'', 4), (''240.0.0.0'', 4)]"

definition prohibited_ipv6 :: "(string \<times> nat) list" where
  "prohibited_ipv6 =
     [(''::'', 8), (''100::'', 64), (''2001::'', 23), (''2001:db8::'', 32), (''2002::'', 16), (''3fff::'', 20), (''5f00::'', 16),
      (''fc00::'', 7), (''fe80::'', 10), (''ff00::'', 8)]"

definition classifyAddress :: "string \<Rightarrow> canonical_address option" where
  "classifyAddress v =
     (case parseIpv4 v of
        Some a \<Rightarrow> if list_ex (\<lambda>(pre, bits). ipv4In (ca_numeric a) pre bits) prohibited_ipv4 then None else Some a
      | None \<Rightarrow> (case parseIpv6 v of
            None \<Rightarrow> None
          | Some a \<Rightarrow>
              if \<not> ipv6In (ca_numeric a) ''2000::'' 3 \<or> list_ex (\<lambda>(pre, bits). ipv6In (ca_numeric a) pre bits) prohibited_ipv6 then None
              else Some a))"

definition canonicalPeer :: "string option \<Rightarrow> string option" where
  "canonicalPeer peer = map_option ca_canonical (Option.bind peer classifyAddress)"

section \<open>Answers of a lookup\<close>

definition MAX_DNS_ANSWERS :: nat where "MAX_DNS_ANSWERS = 16"
definition MAX_DNS_BYTES :: nat where "MAX_DNS_BYTES = 2048"

definition vetted_entry :: "jval \<Rightarrow> (string \<times> canonical_address) option" where
  "vetted_entry v =
     (case v of
        JObj fs \<Rightarrow>
          if \<not> set (map fst fs) \<subseteq> {''address'', ''family''} \<or> length fs \<noteq> 2 then None
          else (case jget ''address'' v of
              JStr s \<Rightarrow> (case classifyAddress s of
                  None \<Rightarrow> None
                | Some a \<Rightarrow> if jget ''family'' v \<noteq> JInt (int (ca_family a)) then None else Some (s, a))
            | _ \<Rightarrow> None)
      | _ \<Rightarrow> None)"

text \<open>The loop: bytes counted so far and the addresses accepted so far.\<close>

fun vet_entries :: "nat \<Rightarrow> canonical_address list \<Rightarrow> jval list \<Rightarrow> canonical_address list option" where
  "vet_entries n accepted [] = Some accepted"
| "vet_entries n accepted (v # vs) =
     (case vetted_entry v of
        None \<Rightarrow> None
      | Some (s, a) \<Rightarrow>
          (let n' = n + utf8_length s + 8 in
           if n' > MAX_DNS_BYTES then None
           else if list_ex (\<lambda>b. ca_canonical b = ca_canonical a \<and> ca_family b \<noteq> ca_family a) accepted then None
           else if list_ex (\<lambda>b. ca_canonical b = ca_canonical a) accepted then vet_entries n' accepted vs
           else vet_entries n' (accepted @ [a]) vs))"

fun vettedAnswers :: "jval \<Rightarrow> canonical_address list option" where
  "vettedAnswers (JArr vs) =
     (if length vs < 1 \<or> length vs > MAX_DNS_ANSWERS then None
      else map_option (sort_key (\<lambda>a. (ca_family a, ca_numeric a))) (vet_entries 0 [] vs))"
| "vettedAnswers _ = None"

text \<open>
  \<open>resolverLookup\<close>: what the two family queries answer, None for a failure that says no more than that there is no
  such record, an error for any other.
\<close>

type_synonym family_answer = "unit + string list option"

fun family_entries :: "nat \<Rightarrow> family_answer \<Rightarrow> jval list option" where
  "family_entries f (Inl _) = None"
| "family_entries f (Inr None) = Some []"
| "family_entries f (Inr (Some xs)) = Some (map (\<lambda>s. JObj [(''address'', JStr s), (''family'', JInt (int f))]) xs)"

definition resolverLookup :: "family_answer \<Rightarrow> family_answer \<Rightarrow> jval option" where
  "resolverLookup r4 r6 =
     Option.bind (family_entries 4 r4) (\<lambda>xs. Option.bind (family_entries 6 r6) (\<lambda>ys. Some (JArr (xs @ ys))))"

end
