(* ===== verification/Address_Text.thy ===== *)
theory Address_Text
  imports Transport_Address
begin

text \<open>
  The canonical text of an address parses back to the address, and an address is determined by its family
  and its number.
\<close>

section \<open>Splitting and joining\<close>

lemma split_on_word: "d \<notin> set w \<Longrightarrow> split_on d w = [w]"
  by (induction w) auto

lemma split_on_first: "d \<notin> set w \<Longrightarrow> split_on d (w @ d # s) = w # split_on d s"
  by (induction w) auto

lemma split_on_join: "ps \<noteq> [] \<Longrightarrow> (\<And>p. p \<in> set ps \<Longrightarrow> d \<notin> set p) \<Longrightarrow> split_on d (js_join [d] ps) = ps"
proof (induction "[d]" ps rule: js_join.induct)
  case (2 x)
  then show ?case by (simp add: split_on_word)
next
  case (3 x y ys)
  then have "split_on d (x @ d # js_join [d] (y # ys)) = x # y # ys" by (subst split_on_first) simp_all
  then show ?case by simp
qed simp

lemma split_on_nonempty: "split_on d s \<noteq> []"
  by (induction s) (auto split: list.splits)

lemma join_split_on: "js_join [d] (split_on d s) = s"
proof (induction s)
  case (Cons c s)
  obtain w ws where w: "split_on d s = w # ws" using split_on_nonempty [of d s] by (cases "split_on d s") auto
  then show ?case using Cons by (cases ws) auto
qed simp

lemma set_join: "set (js_join sep ps) \<subseteq> set sep \<union> (\<Union>p \<in> set ps. set p)"
  by (induction sep ps rule: js_join.induct) auto

section \<open>Numbers in a base\<close>

lemma of_digits_snoc: "of_digits b (ds @ [d]) = of_digits b ds * b + d"
  by (simp add: of_digits_def)

lemma of_digits_bound: "(\<And>d. d \<in> set ds \<Longrightarrow> d < b) \<Longrightarrow> of_digits b ds < b ^ length ds"
proof (induction ds rule: rev_induct)
  case (snoc d ds)
  then have "of_digits b ds + 1 \<le> b ^ length ds" "d < b" by (auto simp: Suc_le_eq)
  then have "(of_digits b ds + 1) * b \<le> b ^ length ds * b" "d < b" using mult_le_mono1 by blast+
  then have "of_digits b ds * b + d < b ^ length ds * b" by simp
  then show ?case by (simp add: of_digits_snoc mult.commute)
qed (simp add: of_digits_def)

lemma of_digits_inj:
  "length xs = length ys \<Longrightarrow> (\<And>d. d \<in> set xs \<union> set ys \<Longrightarrow> d < b) \<Longrightarrow> of_digits b xs = of_digits b ys \<Longrightarrow> xs = ys"
proof (induction xs arbitrary: ys rule: rev_induct)
  case (snoc x xs)
  obtain ys' y where ys: "ys = ys' @ [y]" using snoc.prems(1) by (cases ys rule: rev_cases) auto
  have lt: "x < b" "y < b" using snoc.prems(2) by (auto simp: ys)
  have e: "of_digits b xs * b + x = of_digits b ys' * b + y" using snoc.prems(3) by (simp add: ys of_digits_snoc)
  then have "(of_digits b xs * b + x) mod b = (of_digits b ys' * b + y) mod b" "(of_digits b xs * b + x) div b = (of_digits b ys' * b + y) div b" by simp_all
  then have "x = y" "of_digits b xs = of_digits b ys'" using lt by simp_all
  then show ?case using snoc.IH [of ys'] snoc.prems(1,2) by (auto simp: ys)
qed simp

section \<open>IPv4\<close>

lemma show_nat_octet: "n \<le> 255 \<Longrightarrow> octet_text (show_nat n)"
proof -
  assume n: "n \<le> 255"
  have digits: "list_all is_digit (show_nat n)" using show_nat_digits by (simp add: list_all_iff)
  have one: "length (show_nat m) = 1" if "m < 10" for m using that by (subst show_nat.simps) simp
  have two: "length (show_nat m) \<le> 2" if "m < 100" for m
    using that one [of "m div 10"] one [of m] by (subst show_nat.simps) auto
  have three: "length (show_nat n) \<le> 3" using n two [of "n div 10"] one [of n] by (subst show_nat.simps) auto
  have "length (show_nat n) = 1 \<or> hd (show_nat n) \<noteq> CHR ''0''" using show_nat_hd [of n] one [of n] by (cases "n = 0") auto
  moreover have "1 \<le> length (show_nat n)" using show_nat_nonempty [of n] by (cases "show_nat n") auto
  ultimately show ?thesis using digits three by (simp add: octet_text_def)
qed

definition ipv4_of :: "nat list \<Rightarrow> canonical_address" where
  "ipv4_of ns = \<lparr>ca_family = 4, ca_canonical = js_join ''.'' (map show_nat ns), ca_numeric = of_digits 256 ns\<rparr>"

lemma parseIpv4_Some: "parseIpv4 v = Some a \<Longrightarrow> \<exists>ns. a = ipv4_of ns \<and> length ns = 4 \<and> (\<forall>n \<in> set ns. n \<le> 255)"
  by (rule exI [of _ "map nat_of_digits (split_on (CHR ''.'') v)"])
    (auto simp: parseIpv4_def Let_def ipv4_of_def list_ex_iff not_less split: if_splits)

lemma dot_not_digit: "CHR ''.'' \<notin> set (show_nat n)"
  using show_nat_digits [of n] by (auto simp: is_digit_def)

lemma parse_ipv4_of:
  assumes "length ns = 4" and "\<And>n. n \<in> set ns \<Longrightarrow> n \<le> 255"
  shows "parseIpv4 (ca_canonical (ipv4_of ns)) = Some (ipv4_of ns)"
proof -
  have s: "split_on (CHR ''.'') (js_join ''.'' (map show_nat ns)) = map show_nat ns"
    by (rule split_on_join) (use assms(1) dot_not_digit in auto)
  have again: "map (nat_of_digits \<circ> show_nat) ns = ns" by (simp add: comp_def nat_of_digits_show)
  have ok: "list_all octet_text (map show_nat ns)" using assms(2) show_nat_octet by (auto simp: list_all_iff)
  have le: "\<not> list_ex (\<lambda>n. n > 255) ns" using assms(2) by (auto simp: list_ex_iff not_less)
  show ?thesis using assms(1) by (simp add: parseIpv4_def ipv4_of_def s again ok le Let_def)
qed

lemma parseIpv4_chars: "parseIpv4 v = Some a \<Longrightarrow> c \<in> set v \<Longrightarrow> is_digit c \<or> c = CHR ''.''"
proof -
  assume v: "parseIpv4 v = Some a" "c \<in> set v"
  then have "list_all octet_text (split_on (CHR ''.'') v)" by (auto simp: parseIpv4_def Let_def split: if_splits)
  moreover have "c \<in> set (js_join ''.'' (split_on (CHR ''.'') v))" using v(2) by (simp add: join_split_on)
  ultimately show ?thesis using set_join [of "''.''" "split_on (CHR ''.'') v"] by (auto simp: list_all_iff octet_text_def)
qed

section \<open>Words in hexadecimal\<close>

lemma hex_digit_value: "n < 16 \<Longrightarrow> hex_value (hex_digit n) = Some n"
  by (auto simp: hex_value_def hex_digit_def Let_def)

lemma show_hex_chars: "c \<in> set (show_hex n) \<Longrightarrow> hex_value c \<noteq> None"
proof (induction n rule: show_hex.induct)
  case (1 n)
  show ?case
  proof (cases "n < 16")
    case True
    then show ?thesis using 1(2) hex_digit_value [of n] by (subst (asm) show_hex.simps) auto
  next
    case False
    then show ?thesis using 1 hex_digit_value [of "n mod 16"] by (subst (asm) (2) show_hex.simps) auto
  qed
qed

lemma show_hex_nonempty [simp]: "show_hex n \<noteq> []"
  by (subst show_hex.simps) simp

lemma show_hex_length: "n < 16 ^ k \<Longrightarrow> 0 < k \<Longrightarrow> length (show_hex n) \<le> k"
proof (induction k arbitrary: n)
  case (Suc k)
  show ?case
  proof (cases "n < 16")
    case True
    then show ?thesis by (subst show_hex.simps) simp
  next
    case False
    then have "0 < k" using Suc.prems by (cases k) auto
    moreover have "n div 16 < 16 ^ k" using Suc.prems(1) by (simp add: less_mult_imp_div_less mult.commute)
    ultimately have "length (show_hex (n div 16)) \<le> k" using Suc.IH by simp
    then show ?thesis using False by (subst show_hex.simps) simp
  qed
qed simp

lemma hex_text_show: "n < 65536 \<Longrightarrow> hex_text (show_hex n)"
  using show_hex_chars [of _ n] show_hex_length [of n 4] show_hex_nonempty [of n]
  by (cases "show_hex n") (auto simp: hex_text_def list_all_iff)

lemma nat_of_hex_show: "nat_of_hex (show_hex n) = n"
proof (induction n rule: show_hex.induct)
  case (1 n)
  show ?case
  proof (cases "n < 16")
    case True
    then show ?thesis by (subst show_hex.simps) (simp add: nat_of_hex_def of_digits_def hex_digit_value)
  next
    case False
    then have "show_hex n = show_hex (n div 16) @ [hex_digit (n mod 16)]" by (subst show_hex.simps) simp
    then have "nat_of_hex (show_hex n) = nat_of_hex (show_hex (n div 16)) * 16 + n mod 16"
      by (simp add: nat_of_hex_def of_digits_snoc hex_digit_value)
    then show ?thesis using 1 False by simp
  qed
qed

lemma nat_of_hex_bound: "hex_text s \<Longrightarrow> nat_of_hex s < 65536"
proof -
  assume s: "hex_text s"
  have v: "the (hex_value c) < 16" if "hex_value c \<noteq> None" for c using that by (auto simp: hex_value_def Let_def split: if_splits)
  have "nat_of_hex s < 16 ^ length s"
  proof -
    have "d < 16" if "d \<in> set (map (\<lambda>c. the (hex_value c)) s)" for d
      using that s v by (fastforce simp: hex_text_def list_all_iff)
    from of_digits_bound [of "map (\<lambda>c. the (hex_value c)) s" 16, OF this] show ?thesis by (simp add: nat_of_hex_def)
  qed
  also have "\<dots> \<le> 16 ^ 4" using s by (intro power_increasing) (auto simp: hex_text_def)
  finally show ?thesis by simp
qed

lemma not_hex: "hex_value colon = None" "hex_value (CHR ''.'') = None"
  by (simp_all add: hex_value_def)

section \<open>Words between colons\<close>

fun no_double :: "string \<Rightarrow> bool" where
  "no_double (c # d # s) \<longleftrightarrow> \<not> (c = colon \<and> d = colon) \<and> no_double (d # s)"
| "no_double _ \<longleftrightarrow> True"

lemma split_double_single: "no_double s \<Longrightarrow> split_double s = [s]"
  by (induction s rule: split_double.induct) auto

lemma split_double_at: "no_double s \<Longrightarrow> s = [] \<or> last s \<noteq> colon \<Longrightarrow> split_double (s @ colon # colon # u) = s # split_double u"
proof (induction s rule: split_double.induct)
  case (3 c d s)
  then have "split_double ((d # s) @ colon # colon # u) = (d # s) # split_double u" by auto
  then show ?case using 3(3) by auto
qed auto

lemma no_double_word: "colon \<notin> set w \<Longrightarrow> no_double s \<Longrightarrow> s = [] \<or> hd s \<noteq> colon \<Longrightarrow> no_double (w @ colon # s)"
proof (induction w)
  case Nil
  then show ?case by (cases s) auto
next
  case (Cons c w)
  then show ?case by (cases w) auto
qed

lemma no_double_plain: "colon \<notin> set w \<Longrightarrow> no_double w"
  by (induction w rule: no_double.induct) auto

definition plain_words :: "string list \<Rightarrow> bool" where
  "plain_words ps \<longleftrightarrow> (\<forall>p \<in> set ps. p \<noteq> [] \<and> colon \<notin> set p)"

lemma plain_join:
  "plain_words ps \<Longrightarrow> no_double (js_join [colon] ps) \<and> (ps \<noteq> [] \<longrightarrow> js_join [colon] ps \<noteq> [] \<and> hd (js_join [colon] ps) \<noteq> colon \<and> last (js_join [colon] ps) \<noteq> colon)"
proof (induction "[colon]" ps rule: js_join.induct)
  case (2 x)
  then have "x \<noteq> []" "colon \<notin> set x" by (simp_all add: plain_words_def)
  moreover from this have "hd x \<noteq> colon" "last x \<noteq> colon" using hd_in_set last_in_set by metis+
  ultimately show ?case using no_double_plain [of x] by simp
next
  case (3 x y ys)
  then have x: "x \<noteq> []" "colon \<notin> set x" and ih: "no_double (js_join [colon] (y # ys))" "js_join [colon] (y # ys) \<noteq> []"
    "hd (js_join [colon] (y # ys)) \<noteq> colon" "last (js_join [colon] (y # ys)) \<noteq> colon"
    by (auto simp: plain_words_def)
  then have "no_double (x @ colon # js_join [colon] (y # ys))" by (intro no_double_word) auto
  moreover have "hd x \<noteq> colon" using x hd_in_set by metis
  ultimately show ?case using x ih by simp
qed simp

lemma plain_ends: "plain_words ps \<Longrightarrow> no_double (js_join [colon] ps) \<and> (js_join [colon] ps = [] \<or> last (js_join [colon] ps) \<noteq> colon)"
  using plain_join [of ps] js_join.simps(1) [of "[colon]"] by blast

lemma part_texts_join: "plain_words ps \<Longrightarrow> part_texts (js_join [colon] ps) = ps"
proof (cases "ps = []")
  case False
  assume "plain_words ps"
  then have "js_join [colon] ps \<noteq> []" "split_on colon (js_join [colon] ps) = ps"
    using plain_join [of ps] split_on_join [of ps colon] False by (auto simp: plain_words_def)
  then show ?thesis by (simp add: part_texts_def)
qed (simp add: part_texts_def)

section \<open>The run of zeros\<close>

definition run_ok :: "nat list \<Rightarrow> nat \<times> nat \<Rightarrow> bool" where
  "run_ok ws b \<longleftrightarrow> snd b = 0 \<or> (2 \<le> snd b \<and> fst b + snd b \<le> length ws \<and> take (snd b) (drop (fst b) ws) = replicate (snd b) 0)"

lemma takeWhile_zeros: "take (length (takeWhile (\<lambda>w. w = 0) xs)) xs = replicate (length (takeWhile (\<lambda>w. w = 0) xs)) (0 :: nat)"
  by (induction xs) auto

lemma zero_run_ok: "run_ok ws b \<Longrightarrow> run_ok ws (zero_run ws i b)"
proof (induction ws i b rule: zero_run.induct)
  case (1 ws i b)
  show ?case
  proof (cases "i < length ws")
    case True
    show ?thesis
    proof (cases "ws ! i = 0")
      case z: True
      let ?n = "length (takeWhile (\<lambda>w. w = 0) (drop i ws))"
      have "i + ?n \<le> length ws" using length_takeWhile_le [of "\<lambda>w. w = 0" "drop i ws"] True by simp
      then have "run_ok ws (if ?n > snd b \<and> ?n \<ge> 2 then (i, ?n) else b)" using 1(3) takeWhile_zeros [of "drop i ws"] by (simp add: run_ok_def)
      from 1(2) [OF True _ refl this] z True show ?thesis by (subst zero_run.simps) (simp add: Let_def)
    next
      case False
      with 1(1) [OF True _ 1(3)] True show ?thesis by (subst zero_run.simps) simp
    qed
  next
    case False
    with 1(3) show ?thesis by (subst zero_run.simps) simp
  qed
qed

section \<open>IPv6\<close>

lemma show_hex_plain: "plain_words (map show_hex ws)"
  using show_hex_chars not_hex by (fastforce simp: plain_words_def)

lemma hex_texts: "(\<And>w. w \<in> set ws \<Longrightarrow> w < 65536) \<Longrightarrow> list_all hex_text (map show_hex ws)"
  using hex_text_show by (auto simp: list_all_iff)

lemma hex_map: "map (nat_of_hex \<circ> show_hex) ws = ws"
  by (simp add: comp_def nat_of_hex_show)

lemma plain_part: "plain_words ps \<Longrightarrow> plain_words (take n ps) \<and> plain_words (drop n ps)"
  by (auto simp: plain_words_def dest: in_set_takeD in_set_dropD)

lemma canonical_words_text:
  obtains "canonical_words ws = js_join '':'' (map show_hex ws)"
  | k n where "2 \<le> n" "k + n \<le> length ws" "ws = take k ws @ replicate n 0 @ drop (k + n) ws"
      "canonical_words ws = js_join '':'' (map show_hex (take k ws)) @ ''::'' @ js_join '':'' (map show_hex (drop (k + n) ws))"
proof -
  obtain k n where r: "zero_run ws 0 (0, 0) = (k, n)" by fastforce
  have ok: "run_ok ws (k, n)" using zero_run_ok [of ws "(0, 0)" 0] by (simp add: r run_ok_def)
  show thesis
  proof (cases "n = 0")
    case True
    then show ?thesis using that(1) by (simp add: canonical_words_def r)
  next
    case False
    then have z: "2 \<le> n" "k + n \<le> length ws" "take n (drop k ws) = replicate n 0" using ok by (simp_all add: run_ok_def)
    have "ws = take k ws @ take n (drop k ws) @ drop n (drop k ws)" by (simp only: append_take_drop_id)
    then have "ws = take k ws @ replicate n 0 @ drop (k + n) ws" unfolding z(3) by (simp add: add.commute)
    then show ?thesis using that(2) z(1,2) False by (simp add: canonical_words_def r take_map drop_map)
  qed
qed

lemma ipv6_words_canonical:
  assumes len: "length ws = 8" and small: "\<And>w. w \<in> set ws \<Longrightarrow> w < 65536"
  shows "ipv6_words (canonical_words ws) = Some ws"
proof (rule canonical_words_text [of ws], goal_cases)
  case 1
  have "split_double (canonical_words ws) = [canonical_words ws]"
    unfolding 1 using plain_join [OF show_hex_plain [of ws]] by (simp add: split_double_single)
  moreover have "part_texts (canonical_words ws) = map show_hex ws" unfolding 1 using part_texts_join [OF show_hex_plain] by simp
  ultimately show ?case using len hex_texts [OF small] by (simp add: ipv6_words_def Let_def hex_map)
next
  case (2 k n)
  let ?a = "map show_hex (take k ws)" and ?b = "map show_hex (drop (k + n) ws)"
  have ja: "no_double (js_join [colon] ?a)" "js_join [colon] ?a = [] \<or> last (js_join [colon] ?a) \<noteq> colon"
    using plain_ends [OF show_hex_plain [of "take k ws"]] by blast+
  have jb: "no_double (js_join [colon] ?b)" using plain_join [OF show_hex_plain] by simp
  have "split_double (canonical_words ws) = [js_join [colon] ?a, js_join [colon] ?b]"
    unfolding 2(4) using split_double_at [OF ja] split_double_single [OF jb] by simp
  moreover have "part_texts (js_join [colon] ?a) = ?a" "part_texts (js_join [colon] ?b) = ?b"
    using part_texts_join [OF show_hex_plain] by simp_all
  moreover have "list_all hex_text (?a @ ?b)"
    using hex_texts [of "take k ws @ drop (k + n) ws"] small by (auto dest: in_set_takeD in_set_dropD)
  moreover have "length ?a + length ?b = 8 - n" "8 - (length ?a + length ?b) = n" using 2(2) len by simp_all
  ultimately have "ipv6_words (canonical_words ws) = Some (take k ws @ replicate n 0 @ drop (k + n) ws)"
    using 2(1,2) len by (simp add: ipv6_words_def Let_def hex_map)
  then show ?case using 2(3) by simp
qed

lemma ipv6_words_ok: "ipv6_words s = Some ws \<Longrightarrow> length ws = 8 \<and> (\<forall>w \<in> set ws. w < 65536)"
proof -
  assume s: "ipv6_words s = Some ws"
  have "1 \<le> length (split_double s)" by (induction s rule: split_double.induct) (auto split: list.splits)
  then show ?thesis using s nat_of_hex_bound
    by (auto simp: ipv6_words_def Let_def list_all_iff split: if_splits)
qed

definition ipv6_of :: "nat list \<Rightarrow> canonical_address" where
  "ipv6_of ws = \<lparr>ca_family = 6, ca_canonical = canonical_words ws, ca_numeric = of_digits 65536 ws\<rparr>"

lemma parseIpv6_Some: "parseIpv6 v = Some a \<Longrightarrow> \<exists>ws. a = ipv6_of ws \<and> length ws = 8 \<and> (\<forall>w \<in> set ws. w < 65536)"
proof -
  assume "parseIpv6 v = Some a"
  then obtain u ws where "ipv6_words u = Some ws" "a = ipv6_of ws"
    by (auto simp: parseIpv6_def ipv6_of_def bind_eq_Some_conv split: if_splits)
  with ipv6_words_ok show ?thesis by blast
qed

lemma hex_join_chars: "c \<in> set (js_join '':'' (map show_hex ws)) \<Longrightarrow> hex_value c \<noteq> None \<or> c = colon"
  using set_join [of "'':''" "map show_hex ws"] show_hex_chars by fastforce

lemma canonical_chars: "c \<in> set (canonical_words ws) \<Longrightarrow> hex_value c \<noteq> None \<or> c = colon"
  by (rule canonical_words_text [of ws]) (use hex_join_chars in auto)

lemma canonical_colons:
  assumes "length ws = 8"
  shows "2 \<le> length (canonical_words ws)" "colon \<in> set (canonical_words ws)"
proof -
  have "length ws = Suc (Suc 6)" using assms by simp
  then obtain x y ys where ws: "ws = x # y # ys" by (auto simp only: length_Suc_conv)
  have "2 \<le> length (canonical_words ws) \<and> colon \<in> set (canonical_words ws)"
  proof (rule canonical_words_text [of ws], goal_cases)
    case 1
    have "show_hex x \<noteq> []" by simp
    then show ?case unfolding 1 by (cases "show_hex x") (simp_all add: ws)
  next
    case (2 k n)
    show ?case unfolding 2(4) by simp
  qed
  then show "2 \<le> length (canonical_words ws)" "colon \<in> set (canonical_words ws)" by simp_all
qed

lemma parse_ipv6_of:
  assumes "length ws = 8" and "\<And>w. w \<in> set ws \<Longrightarrow> w < 65536"
  shows "parseIpv6 (ca_canonical (ipv6_of ws)) = Some (ipv6_of ws)"
proof -
  have "list_all address_char (canonical_words ws)" using canonical_chars by (fastforce simp: address_char_def list_all_iff)
  moreover have "CHR ''.'' \<notin> set (canonical_words ws)" using canonical_chars [of "CHR ''.''" ws] not_hex by auto
  then have "dotted_tail (canonical_words ws) = Some (canonical_words ws)" by (simp add: dotted_tail_def)
  ultimately show ?thesis
    using canonical_colons(1) [OF assms(1)] ipv6_words_canonical [OF assms] by (simp add: parseIpv6_def ipv6_of_def)
qed

lemma ipv6_not_ipv4: "length ws = 8 \<Longrightarrow> parseIpv4 (ca_canonical (ipv6_of ws)) = None"
proof (rule ccontr)
  assume "length ws = 8" "parseIpv4 (ca_canonical (ipv6_of ws)) \<noteq> None"
  then show False using canonical_colons(2) [of ws] parseIpv4_chars [of "canonical_words ws" _ colon] by (auto simp: ipv6_of_def is_digit_def)
qed

end
