(* ===== verification/Address_Claims.thy ===== *)
theory Address_Claims
  imports Address_Text
begin

text \<open>
  Which addresses are dialled, what the comparison with the peer of a connection means, and what the vetting of
  a lookup's answers gives.
\<close>

section \<open>Ranges by their first and last addresses\<close>

definition ip4 :: "nat \<Rightarrow> nat \<Rightarrow> nat \<Rightarrow> nat \<Rightarrow> nat" where
  "ip4 a b c d = ((a * 256 + b) * 256 + c) * 256 + d"

definition ip6 :: "nat list \<Rightarrow> nat" where
  "ip6 ws = of_digits 65536 ws"

definition in_ranges :: "(nat \<times> nat) list \<Rightarrow> nat \<Rightarrow> bool" where
  "in_ranges rs n \<longleftrightarrow> list_ex (\<lambda>(lo, hi). lo \<le> n \<and> n \<le> hi) rs"

text \<open>This network, private use, shared, loopback, link local, protocol assignments, documentation, relays, benchmarks, multicast, reserved.\<close>

definition special_ipv4 :: "(nat \<times> nat) list" where
  "special_ipv4 =
    [(ip4 0 0 0 0, ip4 0 255 255 255), (ip4 10 0 0 0, ip4 10 255 255 255), (ip4 100 64 0 0, ip4 100 127 255 255),
     (ip4 127 0 0 0, ip4 127 255 255 255), (ip4 169 254 0 0, ip4 169 254 255 255), (ip4 172 16 0 0, ip4 172 31 255 255),
     (ip4 192 0 0 0, ip4 192 0 0 255), (ip4 192 0 2 0, ip4 192 0 2 255), (ip4 192 88 99 0, ip4 192 88 99 255),
     (ip4 192 168 0 0, ip4 192 168 255 255), (ip4 198 18 0 0, ip4 198 19 255 255), (ip4 198 51 100 0, ip4 198 51 100 255),
     (ip4 203 0 113 0, ip4 203 0 113 255), (ip4 224 0 0 0, ip4 239 255 255 255), (ip4 240 0 0 0, ip4 255 255 255 255)]"

text \<open>Global unicast, and what lies elsewhere or is reserved within it.\<close>

definition global_ipv6 :: "(nat \<times> nat) list" where
  "global_ipv6 = [(ip6 [0x2000, 0, 0, 0, 0, 0, 0, 0],
     ip6 [0x3FFF, 0xFFFF, 0xFFFF, 0xFFFF, 0xFFFF, 0xFFFF, 0xFFFF, 0xFFFF])]"

definition special_ipv6 :: "(nat \<times> nat) list" where
  "special_ipv6 =
    [(ip6 [0, 0, 0, 0, 0, 0, 0, 0],
      ip6 [0xFF, 0xFFFF, 0xFFFF, 0xFFFF, 0xFFFF, 0xFFFF, 0xFFFF, 0xFFFF]),
     (ip6 [0x100, 0, 0, 0, 0, 0, 0, 0],
      ip6 [0x100, 0, 0, 0, 0xFFFF, 0xFFFF, 0xFFFF, 0xFFFF]),
     (ip6 [0x2001, 0, 0, 0, 0, 0, 0, 0],
      ip6 [0x2001, 0x1FF, 0xFFFF, 0xFFFF, 0xFFFF, 0xFFFF, 0xFFFF, 0xFFFF]),
     (ip6 [0x2001, 0xDB8, 0, 0, 0, 0, 0, 0],
      ip6 [0x2001, 0xDB8, 0xFFFF, 0xFFFF, 0xFFFF, 0xFFFF, 0xFFFF, 0xFFFF]),
     (ip6 [0x2002, 0, 0, 0, 0, 0, 0, 0],
      ip6 [0x2002, 0xFFFF, 0xFFFF, 0xFFFF, 0xFFFF, 0xFFFF, 0xFFFF, 0xFFFF]),
     (ip6 [0x3FFF, 0, 0, 0, 0, 0, 0, 0],
      ip6 [0x3FFF, 0xFFF, 0xFFFF, 0xFFFF, 0xFFFF, 0xFFFF, 0xFFFF, 0xFFFF]),
     (ip6 [0x5F00, 0, 0, 0, 0, 0, 0, 0],
      ip6 [0x5F00, 0xFFFF, 0xFFFF, 0xFFFF, 0xFFFF, 0xFFFF, 0xFFFF, 0xFFFF]),
     (ip6 [0xFC00, 0, 0, 0, 0, 0, 0, 0],
      ip6 [0xFDFF, 0xFFFF, 0xFFFF, 0xFFFF, 0xFFFF, 0xFFFF, 0xFFFF, 0xFFFF]),
     (ip6 [0xFE80, 0, 0, 0, 0, 0, 0, 0],
      ip6 [0xFEBF, 0xFFFF, 0xFFFF, 0xFFFF, 0xFFFF, 0xFFFF, 0xFFFF, 0xFFFF]),
     (ip6 [0xFF00, 0, 0, 0, 0, 0, 0, 0],
      ip6 [0xFFFF, 0xFFFF, 0xFFFF, 0xFFFF, 0xFFFF, 0xFFFF, 0xFFFF, 0xFFFF])]"

lemma div_range: "0 < k \<Longrightarrow> (n :: nat) div k = q \<longleftrightarrow> q * k \<le> n \<and> n \<le> q * k + (k - 1)"
proof -
  assume k: "0 < k"
  then have "n div k = q \<longleftrightarrow> q * k \<le> n \<and> n < q * k + k"
    by (metis add.commute div_nat_eqI dividend_less_times_div mult.commute mult_Suc times_div_less_eq_dividend)
  then show ?thesis using k by auto
qed

lemma ipv4In_range:
  "map_option ca_numeric (parseIpv4 pre) = Some m \<Longrightarrow>
    ipv4In n pre bits \<longleftrightarrow> m div 2 ^ (32 - bits) * 2 ^ (32 - bits) \<le> n \<and> n \<le> m div 2 ^ (32 - bits) * 2 ^ (32 - bits) + (2 ^ (32 - bits) - 1)"
  by (auto simp: ipv4In_def drop_bit_eq_div div_range)

lemma ipv6In_range:
  "map_option ca_numeric (parseIpv6 pre) = Some m \<Longrightarrow>
    ipv6In n pre bits \<longleftrightarrow> m div 2 ^ (128 - bits) * 2 ^ (128 - bits) \<le> n \<and> n \<le> m div 2 ^ (128 - bits) * 2 ^ (128 - bits) + (2 ^ (128 - bits) - 1)"
  by (auto simp: ipv6In_def drop_bit_eq_div div_range)

lemma ipv4_prefixes:
  "map_option ca_numeric (parseIpv4 ''0.0.0.0'') = Some 0"
  "map_option ca_numeric (parseIpv4 ''10.0.0.0'') = Some 167772160"
  "map_option ca_numeric (parseIpv4 ''100.64.0.0'') = Some 1681915904"
  "map_option ca_numeric (parseIpv4 ''127.0.0.0'') = Some 2130706432"
  "map_option ca_numeric (parseIpv4 ''169.254.0.0'') = Some 2851995648"
  "map_option ca_numeric (parseIpv4 ''172.16.0.0'') = Some 2886729728"
  "map_option ca_numeric (parseIpv4 ''192.0.0.0'') = Some 3221225472"
  "map_option ca_numeric (parseIpv4 ''192.0.2.0'') = Some 3221225984"
  "map_option ca_numeric (parseIpv4 ''192.88.99.0'') = Some 3227017984"
  "map_option ca_numeric (parseIpv4 ''192.168.0.0'') = Some 3232235520"
  "map_option ca_numeric (parseIpv4 ''198.18.0.0'') = Some 3323068416"
  "map_option ca_numeric (parseIpv4 ''198.51.100.0'') = Some 3325256704"
  "map_option ca_numeric (parseIpv4 ''203.0.113.0'') = Some 3405803776"
  "map_option ca_numeric (parseIpv4 ''224.0.0.0'') = Some 3758096384"
  "map_option ca_numeric (parseIpv4 ''240.0.0.0'') = Some 4026531840"
  by (simp_all add: parseIpv4_def Let_def octet_text_def is_digit_def nat_of_digits_def digit_value_def of_digits_def)

lemma zeros: "replicate 8 (0 :: nat) = [0, 0, 0, 0, 0, 0, 0, 0]" "replicate 7 (0 :: nat) = [0, 0, 0, 0, 0, 0, 0]" "replicate 6 (0 :: nat) = [0, 0, 0, 0, 0, 0]"
  by (simp_all add: numeral_eq_Suc)

lemma ipv6_prefixes:
  "map_option ca_numeric (parseIpv6 ''2000::'') = Some 42535295865117307932921825928971026432"
  "map_option ca_numeric (parseIpv6 ''::'') = Some 0"
  "map_option ca_numeric (parseIpv6 ''100::'') = Some 1329227995784915872903807060280344576"
  "map_option ca_numeric (parseIpv6 ''2001::'') = Some 42540488161975842760550356425300246528"
  "map_option ca_numeric (parseIpv6 ''2001:db8::'') = Some 42540766411282592856903984951653826560"
  "map_option ca_numeric (parseIpv6 ''2002::'') = Some 42545680458834377588178886921629466624"
  "map_option ca_numeric (parseIpv6 ''3fff::'') = Some 85065399433376081038215121361612832768"
  "map_option ca_numeric (parseIpv6 ''5f00::'') = Some 126276659599567007925861670726632734720"
  "map_option ca_numeric (parseIpv6 ''fc00::'') = Some 334965454937798799971759379190646833152"
  "map_option ca_numeric (parseIpv6 ''fe80::'') = Some 338288524927261089654018896841347694592"
  "map_option ca_numeric (parseIpv6 ''ff00::'') = Some 338953138925153547590470800371487866880"
  by (simp_all add: parseIpv6_def address_char_def hex_value_def Let_def dotted_tail_def ipv6_words_def part_texts_def hex_text_def
      nat_of_hex_def of_digits_def zeros)

lemmas ipv4_ranges = ipv4In_range [OF ipv4_prefixes(1)] ipv4In_range [OF ipv4_prefixes(2)] ipv4In_range [OF ipv4_prefixes(3)] ipv4In_range [OF ipv4_prefixes(4)]
  ipv4In_range [OF ipv4_prefixes(5)] ipv4In_range [OF ipv4_prefixes(6)] ipv4In_range [OF ipv4_prefixes(7)] ipv4In_range [OF ipv4_prefixes(8)]
  ipv4In_range [OF ipv4_prefixes(9)] ipv4In_range [OF ipv4_prefixes(10)] ipv4In_range [OF ipv4_prefixes(11)] ipv4In_range [OF ipv4_prefixes(12)]
  ipv4In_range [OF ipv4_prefixes(13)] ipv4In_range [OF ipv4_prefixes(14)] ipv4In_range [OF ipv4_prefixes(15)]

lemmas ipv6_ranges = ipv6In_range [OF ipv6_prefixes(1)] ipv6In_range [OF ipv6_prefixes(2)] ipv6In_range [OF ipv6_prefixes(3)] ipv6In_range [OF ipv6_prefixes(4)]
  ipv6In_range [OF ipv6_prefixes(5)] ipv6In_range [OF ipv6_prefixes(6)] ipv6In_range [OF ipv6_prefixes(7)] ipv6In_range [OF ipv6_prefixes(8)]
  ipv6In_range [OF ipv6_prefixes(9)] ipv6In_range [OF ipv6_prefixes(10)] ipv6In_range [OF ipv6_prefixes(11)]

lemma prohibited_ipv4_ranges: "list_ex (\<lambda>(pre, bits). ipv4In n pre bits) prohibited_ipv4 \<longleftrightarrow> in_ranges special_ipv4 n"
  by (simp add: prohibited_ipv4_def special_ipv4_def in_ranges_def ipv4_ranges ip4_def)

lemma prohibited_ipv6_ranges: "list_ex (\<lambda>(pre, bits). ipv6In n pre bits) prohibited_ipv6 \<longleftrightarrow> in_ranges special_ipv6 n"
  by (simp add: prohibited_ipv6_def special_ipv6_def in_ranges_def ipv6_ranges ip6_def of_digits_def)

lemma global_ipv6_range: "ipv6In n ''2000::'' 3 \<longleftrightarrow> in_ranges global_ipv6 n"
  by (simp add: global_ipv6_def in_ranges_def ipv6_ranges ip6_def of_digits_def)

section \<open>Accepted addresses\<close>

lemma classified: "classifyAddress v = Some a \<Longrightarrow>
    (\<exists>ns. a = ipv4_of ns \<and> length ns = 4 \<and> (\<forall>n \<in> set ns. n \<le> 255)) \<or> (\<exists>ws. a = ipv6_of ws \<and> length ws = 8 \<and> (\<forall>w \<in> set ws. w < 65536))"
proof (cases "parseIpv4 v")
  case None
  assume "classifyAddress v = Some a"
  then have "parseIpv6 v = Some a" using None by (auto simp: classifyAddress_def split: option.splits if_splits)
  from parseIpv6_Some [OF this] show ?thesis by blast
next
  case (Some b)
  assume "classifyAddress v = Some a"
  then have "parseIpv4 v = Some a" using Some by (auto simp: classifyAddress_def split: if_splits)
  from parseIpv4_Some [OF this] show ?thesis by blast
qed

lemma classified_again: "classifyAddress v = Some a \<Longrightarrow> classifyAddress (ca_canonical a) = Some a"
proof -
  assume c: "classifyAddress v = Some a"
  show ?thesis
  proof (cases "parseIpv4 v")
    case None
    then have p: "parseIpv6 v = Some a" and ok: "ipv6In (ca_numeric a) ''2000::'' 3" "\<not> list_ex (\<lambda>(pre, bits). ipv6In (ca_numeric a) pre bits) prohibited_ipv6"
      using c by (auto simp: classifyAddress_def split: option.splits if_splits)
    from parseIpv6_Some [OF p] obtain ws where ws: "a = ipv6_of ws" "length ws = 8" "\<forall>w \<in> set ws. w < 65536" by blast
    then have "parseIpv4 (ca_canonical a) = None" "parseIpv6 (ca_canonical a) = Some a" using ipv6_not_ipv4 parse_ipv6_of by auto
    then show ?thesis using ok by (simp add: classifyAddress_def)
  next
    case (Some b)
    then have p: "parseIpv4 v = Some a" and ok: "\<not> list_ex (\<lambda>(pre, bits). ipv4In (ca_numeric a) pre bits) prohibited_ipv4"
      using c by (auto simp: classifyAddress_def split: if_splits)
    from parseIpv4_Some [OF p] obtain ns where "a = ipv4_of ns" "length ns = 4" "\<forall>n \<in> set ns. n \<le> 255" by blast
    then have "parseIpv4 (ca_canonical a) = Some a" using parse_ipv4_of by auto
    then show ?thesis using ok by (simp add: classifyAddress_def)
  qed
qed

lemma classified_inj:
  assumes "classifyAddress v = Some a" and "classifyAddress u = Some b" and "ca_family a = ca_family b" and "ca_numeric a = ca_numeric b"
  shows "a = b"
proof -
  consider ns ms where "a = ipv4_of ns" "b = ipv4_of ms" "length ns = length ms" "\<forall>n \<in> set ns \<union> set ms. n \<le> 255"
    | ws vs where "a = ipv6_of ws" "b = ipv6_of vs" "length ws = length vs" "\<forall>w \<in> set ws \<union> set vs. w < 65536"
  proof -
    have f: "ca_family (ipv4_of ns) = 4" "ca_family (ipv6_of ws) = 6" for ns ws by (simp_all add: ipv4_of_def ipv6_of_def)
    from classified [OF assms(1)] classified [OF assms(2)] assms(3) show thesis
      by (elim disjE exE conjE) (simp_all add: f that ball_Un)
  qed
  then show ?thesis
  proof cases
    case 1
    have "d < 256" if "d \<in> set ns \<union> set ms" for d using bspec [OF 1(4) that] by simp
    from of_digits_inj [OF 1(3) this] show ?thesis using 1(1,2) assms(4) by (simp add: ipv4_of_def)
  next
    case 2
    from of_digits_inj [OF 2(3), of 65536] 2(4) show ?thesis using 2(1,2) assms(4) by (simp add: ipv6_of_def)
  qed
qed

lemma classified_ranges:
  "classifyAddress v = Some a \<longleftrightarrow>
    (parseIpv4 v = Some a \<and> \<not> in_ranges special_ipv4 (ca_numeric a)) \<or>
    (parseIpv4 v = None \<and> parseIpv6 v = Some a \<and> in_ranges global_ipv6 (ca_numeric a) \<and> \<not> in_ranges special_ipv6 (ca_numeric a))"
  unfolding classifyAddress_def prohibited_ipv4_ranges prohibited_ipv6_ranges global_ipv6_range
  by (cases "parseIpv4 v"; cases "parseIpv6 v"; simp) (blast | simp)+

text \<open>
  C21: An address is dialled exactly when it is an IPv4 address outside the special ranges (private,
  loopback, link local, shared, documentation, multicast and the like) or an IPv6 address of global unicast outside
  the special ranges in it, the ranges being given by their first and last addresses.
\<close>

theorem dialled_addresses:
  "classifyAddress v = Some a \<longleftrightarrow>
    (parseIpv4 v = Some a \<and> \<not> in_ranges special_ipv4 (ca_numeric a)) \<or>
    (parseIpv4 v = None \<and> parseIpv6 v = Some a \<and> in_ranges global_ipv6 (ca_numeric a) \<and> \<not> in_ranges special_ipv6 (ca_numeric a))"
  by (rule classified_ranges)

text \<open>
  C22: The canonical text of a dialled address is dialled as the same address, and the comparison with
  the peer of the connection succeeds exactly when the peer's text denotes an address of the same family and
  number that may be dialled, however it is written.
\<close>

theorem peer_is_dialled:
  assumes "classifyAddress v = Some a"
  shows "classifyAddress (ca_canonical a) = Some a \<and>
    (canonicalPeer (Some p) = Some (ca_canonical a) \<longleftrightarrow>
      (\<exists>b. classifyAddress p = Some b \<and> ca_family b = ca_family a \<and> ca_numeric b = ca_numeric a))"
proof (rule conjI)
  show same: "classifyAddress (ca_canonical a) = Some a" by (rule classified_again [OF assms])
  show "canonicalPeer (Some p) = Some (ca_canonical a) \<longleftrightarrow>
      (\<exists>b. classifyAddress p = Some b \<and> ca_family b = ca_family a \<and> ca_numeric b = ca_numeric a)"
  proof
    assume "canonicalPeer (Some p) = Some (ca_canonical a)"
    then obtain b where b: "classifyAddress p = Some b" "ca_canonical b = ca_canonical a" by (auto simp: canonicalPeer_def)
    have "b = a" using classified_again [OF b(1)] same unfolding b(2) by (metis option.inject)
    with b(1) show "\<exists>b. classifyAddress p = Some b \<and> ca_family b = ca_family a \<and> ca_numeric b = ca_numeric a" by blast
  next
    assume "\<exists>b. classifyAddress p = Some b \<and> ca_family b = ca_family a \<and> ca_numeric b = ca_numeric a"
    then obtain b where b: "classifyAddress p = Some b" "ca_family b = ca_family a" "ca_numeric b = ca_numeric a" by blast
    have "b = a" by (rule classified_inj [OF b(1) assms b(2,3)])
    then show "canonicalPeer (Some p) = Some (ca_canonical a)" using b(1) by (simp only: canonicalPeer_def bind.bind_lunit option.map)
  qed
qed

definition example_address :: canonical_address where
  "example_address = \<lparr>ca_family = 4, ca_canonical = ''8.8.8.8'', ca_numeric = 134744072\<rparr>"

lemma example_dialled: "classifyAddress ''8.8.8.8'' = Some example_address"
proof -
  have e: "show_nat 8 = ''8''" by code_simp
  have "parseIpv4 ''8.8.8.8'' = Some example_address"
    by (simp add: parseIpv4_def Let_def octet_text_def is_digit_def nat_of_digits_def digit_value_def of_digits_def example_address_def e)
  then show ?thesis by (simp add: classified_ranges example_address_def in_ranges_def special_ipv4_def ip4_def)
qed

lemma peer_is_dialled_witness: "canonicalPeer (Some ''8.8.8.8'') = Some (ca_canonical example_address)"
  using peer_is_dialled [OF example_dialled, of "''8.8.8.8''"] example_dialled by blast

section \<open>Vetted answers\<close>

definition entry_of :: "jval \<Rightarrow> canonical_address \<Rightarrow> bool" where
  "entry_of e a \<longleftrightarrow> (\<exists>s. jget ''address'' e = JStr s \<and> classifyAddress s = Some a \<and> jget ''family'' e = JInt (int (ca_family a)))"

lemma vetted_entry_of: "vetted_entry e = Some (s, a) \<Longrightarrow> classifyAddress s = Some a \<and> entry_of e a"
  unfolding vetted_entry_def entry_of_def
  by (cases e; simp split: if_splits; cases "jget ''address'' e"; simp split: option.splits if_splits)

lemma entry_of_unique: "entry_of e a \<Longrightarrow> entry_of e b \<Longrightarrow> a = b"
proof -
  assume "entry_of e a" "entry_of e b"
  then obtain s t where s: "jget ''address'' e = JStr s" "classifyAddress s = Some a" and t: "jget ''address'' e = JStr t" "classifyAddress t = Some b"
    unfolding entry_of_def by blast
  from s(1) t(1) have "s = t" by simp
  with s(2) t(2) show "a = b" by (metis option.inject)
qed

lemma vet_entries_result:
  "vet_entries n acc vs = Some r \<Longrightarrow> distinct acc \<Longrightarrow> (\<And>a. a \<in> set acc \<Longrightarrow> classifyAddress (ca_canonical a) = Some a) \<Longrightarrow>
    distinct r \<and> (\<forall>a \<in> set r. classifyAddress (ca_canonical a) = Some a) \<and> (\<forall>e \<in> set vs. \<exists>a \<in> set r. entry_of e a) \<and>
    set acc \<subseteq> set r \<and> (\<forall>a \<in> set r. a \<in> set acc \<or> (\<exists>e \<in> set vs. entry_of e a))"
proof (induction n acc vs rule: vet_entries.induct)
  case (2 n acc v vs)
  obtain s a where v: "vetted_entry v = Some (s, a)" using 2(3) by (auto split: option.splits)
  note e = vetted_entry_of [OF v]
  have again: "classifyAddress (ca_canonical a) = Some a" using e classified_again by blast
  let ?known = "list_ex (\<lambda>b. ca_canonical b = ca_canonical a) acc"
  have known: "?known \<longleftrightarrow> a \<in> set acc"
  proof
    assume ?known
    then obtain b where "b \<in> set acc" "ca_canonical b = ca_canonical a" by (auto simp: list_ex_iff)
    then have "b = a" using 2(5) [of b] again by (metis option.inject)
    with \<open>b \<in> set acc\<close> show "a \<in> set acc" by simp
  qed (auto simp: list_ex_iff)
  let ?n = "n + utf8_length s + 8"
  have small: "\<not> ?n > MAX_DNS_BYTES" and fam: "\<not> list_ex (\<lambda>b. ca_canonical b = ca_canonical a \<and> ca_family b \<noteq> ca_family a) acc"
    using 2(3) by (auto simp: v Let_def split: if_splits)
  show ?case
  proof (cases ?known)
    case True
    then have r: "vet_entries ?n acc vs = Some r" using 2(3) small fam by (simp add: v Let_def)
    from 2(1) [OF v refl refl small fam True r 2(4,5)] e True known show ?thesis by auto
  next
    case False
    then have r: "vet_entries ?n (acc @ [a]) vs = Some r" using 2(3) small fam by (simp add: v Let_def)
    have "distinct (acc @ [a])" "\<And>b. b \<in> set (acc @ [a]) \<Longrightarrow> classifyAddress (ca_canonical b) = Some b"
      using 2(4,5) again False known by auto
    from 2(2) [OF v refl refl small fam False r this] e show ?thesis by auto
  qed
qed auto

text \<open>
  C23: When the answers of a lookup are accepted there are 1 to 16 of them, every one is an address that
  may be dialled and of the family it claims, and the result is exactly those addresses, each once, IPv4 first and
  in ascending order, so that the first is dialled; one bad answer refuses them all.
\<close>

theorem vetted_answers:
  assumes "vettedAnswers v = Some result"
  shows "\<exists>es. v = JArr es \<and> 1 \<le> length es \<and> length es \<le> MAX_DNS_ANSWERS \<and> result \<noteq> [] \<and>
    (\<forall>e \<in> set es. \<exists>a. entry_of e a) \<and> (\<forall>a. a \<in> set result \<longleftrightarrow> (\<exists>e \<in> set es. entry_of e a)) \<and>
    (\<forall>a \<in> set result. classifyAddress (ca_canonical a) = Some a) \<and>
    sorted_wrt (\<lambda>a b. (ca_family a, ca_numeric a) < (ca_family b, ca_numeric b)) result"
proof -
  obtain es r where es: "v = JArr es" "1 \<le> length es" "length es \<le> MAX_DNS_ANSWERS" "vet_entries 0 [] es = Some r"
    and res: "result = sort_key (\<lambda>a. (ca_family a, ca_numeric a)) r"
  proof -
    obtain es where e: "v = JArr es" using assms by (cases v) auto
    then have l: "\<not> (length es < 1 \<or> length es > MAX_DNS_ANSWERS)" using assms by (metis option.distinct(1) vettedAnswers.simps(1))
    then obtain r where "vet_entries 0 [] es = Some r" "result = sort_key (\<lambda>a. (ca_family a, ca_numeric a)) r"
      using assms e by (auto simp del: One_nat_def)
    moreover have "1 \<le> length es" "length es \<le> MAX_DNS_ANSWERS" using l by linarith+
    ultimately show thesis using that e by blast
  qed
  have ok: "distinct r" "\<forall>a \<in> set r. classifyAddress (ca_canonical a) = Some a" "\<forall>e \<in> set es. \<exists>a \<in> set r. entry_of e a"
    "\<forall>a \<in> set r. \<exists>e \<in> set es. entry_of e a"
    using vet_entries_result [OF es(4)] by auto
  let ?key = "\<lambda>a. (ca_family a, ca_numeric a)"
  have inj: "inj_on ?key (set r)"
  proof (rule inj_onI)
    fix a b assume m: "a \<in> set r" "b \<in> set r" and k: "?key a = ?key b"
    show "a = b" by (rule classified_inj [OF bspec [OF ok(2) m(1)] bspec [OF ok(2) m(2)]]) (use k in simp_all)
  qed
  have "sorted (map ?key result)" "distinct (map ?key result)" using inj ok(1) by (simp_all add: res distinct_map)
  then have "sorted_wrt (\<lambda>x y. x < y) (map ?key result)" by (simp add: strict_sorted_iff)
  then have s: "sorted_wrt (\<lambda>a b. ?key a < ?key b) result" by (simp add: sorted_wrt_map)
  have "es \<noteq> []" using es(2) by auto
  then have "r \<noteq> []" using ok(3) by (cases es) auto
  then have "result \<noteq> []" by (metis res length_0_conv length_sort)
  moreover have members: "set result = set r" by (simp add: res)
  moreover have all: "\<forall>e \<in> set es. \<exists>a. entry_of e a" using ok(3) by blast
  moreover have exact: "\<forall>a. a \<in> set result \<longleftrightarrow> (\<exists>e \<in> set es. entry_of e a)"
  proof
    fix a
    show "a \<in> set result \<longleftrightarrow> (\<exists>e \<in> set es. entry_of e a)" unfolding members using ok(3,4) entry_of_unique by blast
  qed
  moreover have dialled: "\<forall>a \<in> set result. classifyAddress (ca_canonical a) = Some a" unfolding members by (rule ok(2))
  ultimately show ?thesis by (intro exI [of _ es] conjI es(1-3) s all exact dialled)
qed

lemma vetted_answers_witness:
  "\<exists>es. JArr [JObj [(''address'', JStr ''8.8.8.8''), (''family'', JInt 4)]] = JArr es \<and> 1 \<le> length es"
proof -
  have "vettedAnswers (JArr [JObj [(''address'', JStr ''8.8.8.8''), (''family'', JInt 4)]]) = Some [example_address]"
    by (simp add: vetted_entry_def example_dialled example_address_def MAX_DNS_ANSWERS_def MAX_DNS_BYTES_def Let_def utf8_length_def)
  from vetted_answers [OF this] show ?thesis by blast
qed

end
