(* ===== verification/Response_Policy.thy ===== *)
theory Response_Policy
  imports Http_Requests
begin

text \<open>
  The policy for what a model answered (\<open>src/providers/response-policy.ts\<close>): plain text without markup,
  cut after the last of at most five complete sentences that ends within 160 words. The patterns of the code
  are regular expressions; here they are built from combinators on a place in a text, which return the
  places where a match can end.
\<close>

section \<open>Patterns\<close>

text \<open>A place: the text before it, reversed, and the text after it.\<close>

type_synonym place = "string \<times> string"

type_synonym pattern = "place \<Rightarrow> place list"

definition one :: "(char \<Rightarrow> bool) \<Rightarrow> pattern" where
  "one P p = (case snd p of [] \<Rightarrow> [] | c # s \<Rightarrow> if P c then [(c # fst p, s)] else [])"

definition nothing :: pattern where
  "nothing p = [p]"

definition followed :: "pattern \<Rightarrow> pattern \<Rightarrow> pattern" where
  "followed r1 r2 p = concat (map r2 (r1 p))"

definition either :: "pattern \<Rightarrow> pattern \<Rightarrow> pattern" where
  "either r1 r2 p = r1 p @ r2 p"

primrec up_to :: "nat \<Rightarrow> pattern \<Rightarrow> pattern" where
  "up_to 0 r = nothing"
| "up_to (Suc n) r = either (followed r (up_to n r)) nothing"

text \<open>\<open>r*\<close> and \<open>r{n,}\<close>: every repeated pattern consumes a character, so the length of the text is enough.\<close>

definition many :: "pattern \<Rightarrow> pattern" where
  "many r p = up_to (length (snd p)) r p"

primrec at_least :: "nat \<Rightarrow> pattern \<Rightarrow> pattern" where
  "at_least 0 r = many r"
| "at_least (Suc n) r = followed r (at_least n r)"

definition ahead :: "pattern \<Rightarrow> pattern" where
  "ahead r p = (if r p = [] then [] else [p])"

definition not_ahead :: "(char \<Rightarrow> bool) \<Rightarrow> pattern" where
  "not_ahead P p = (case snd p of [] \<Rightarrow> [p] | c # s \<Rightarrow> if P c then [] else [p])"

definition not_behind :: "(char \<Rightarrow> bool) \<Rightarrow> pattern" where
  "not_behind P p = (case fst p of [] \<Rightarrow> [p] | c # s \<Rightarrow> if P c then [] else [p])"

definition at_start :: pattern where
  "at_start p = (if fst p = [] then [p] else [])"

definition at_end :: pattern where
  "at_end p = (if snd p = [] then [p] else [])"

definition literal :: "string \<Rightarrow> pattern" where
  "literal s = foldr (\<lambda>c. followed (one (\<lambda>x. x = c))) s nothing"

text \<open>Whether a pattern matches somewhere (\<open>RegExp.test\<close>).\<close>

fun found :: "pattern \<Rightarrow> string \<Rightarrow> string \<Rightarrow> bool" where
  "found r b [] \<longleftrightarrow> r (b, []) \<noteq> []"
| "found r b (c # s) \<longleftrightarrow> r (b, c # s) \<noteq> [] \<or> found r (c # b) s"

definition occurs :: "pattern \<Rightarrow> string \<Rightarrow> bool" where
  "occurs r s \<longleftrightarrow> found r [] s"

section \<open>Characters\<close>

definition line_feed :: char where "line_feed = CHR 10"
definition tab :: char where "tab = CHR 9"

definition is_blank :: "char \<Rightarrow> bool" where
  "is_blank c \<longleftrightarrow> c = tab \<or> c = CHR '' ''"

definition ascii_letter :: "char \<Rightarrow> bool" where
  "ascii_letter c \<longleftrightarrow> (let n = (of_char c :: nat) in (65 \<le> n \<and> n \<le> 90) \<or> (97 \<le> n \<and> n \<le> 122))"

definition ascii_digit :: "char \<Rightarrow> bool" where
  "ascii_digit c \<longleftrightarrow> (let n = (of_char c :: nat) in 48 \<le> n \<and> n \<le> 57)"

text \<open>\<open>toLowerCase\<close> as far as a comparison with lower-case letters of ASCII can tell.\<close>

definition lower_char :: "char \<Rightarrow> char" where
  "lower_char c = (let n = (of_char c :: nat) in if 65 \<le> n \<and> n \<le> 90 then char_of (n + 32) else c)"

text \<open>\<open>[\p{L}\p{N}]\<close> in Latin-1.\<close>

definition WORD_CHARACTER :: "char \<Rightarrow> bool" where
  "WORD_CHARACTER c \<longleftrightarrow> ascii_letter c \<or> ascii_digit c \<or>
     (let n = (of_char c :: nat) in n \<in> {170, 178, 179, 181, 185, 186, 188, 189, 190} \<or> (192 \<le> n \<and> n \<noteq> 215 \<and> n \<noteq> 247))"

definition CLOSING_PUNCTUATION :: "char \<Rightarrow> bool" where
  "CLOSING_PUNCTUATION c \<longleftrightarrow> c \<in> {CHR 0x22, CHR 0x27, CHR 0xBB, CHR 0x29, CHR 0x7D, CHR 0x5D}"

definition terminator :: "char \<Rightarrow> bool" where
  "terminator c \<longleftrightarrow> c \<in> {CHR ''.'', CHR ''!'', CHR ''?''}"

definition regex_word :: "char \<Rightarrow> bool" where
  "regex_word c \<longleftrightarrow> ascii_letter c \<or> ascii_digit c \<or> c = CHR ''_''"

text \<open>\<open>\b\<close>\<close>

definition boundary :: pattern where
  "boundary p = (let l = (fst p \<noteq> [] \<and> regex_word (hd (fst p))); r = (snd p \<noteq> [] \<and> regex_word (hd (snd p))) in
     if l \<noteq> r then [p] else [])"

section \<open>Markup\<close>

definition line_start :: pattern where
  "line_start = either at_start (one (\<lambda>c. c = line_feed))"

definition line_end :: pattern where
  "line_end = ahead (either (one (\<lambda>c. c = line_feed)) at_end)"

abbreviation exactly :: "char \<Rightarrow> pattern" where
  "exactly c \<equiv> one (\<lambda>x. x = c)"

abbreviation none_of :: "char list \<Rightarrow> pattern" where
  "none_of cs \<equiv> one (\<lambda>x. x \<notin> set cs)"

text \<open>Headings, quotations and list items; fences; code spans and left-over emphasis; indented code.\<close>

definition block_mark :: pattern where
  "block_mark = followed line_start (followed (up_to 3 (one is_blank))
     (either (followed (exactly (CHR 0x23)) (followed (up_to 5 (exactly (CHR 0x23))) (one is_blank)))
     (either (followed (exactly (CHR 0x3E)) (one is_blank))
     (either (followed (one (\<lambda>c. c \<in> {CHR 0x2D, CHR 0x2B, CHR 0x2A})) (one is_blank))
             (followed (at_least 1 (one ascii_digit)) (followed (one (\<lambda>c. c \<in> {CHR 0x2E, CHR 0x29})) (one is_blank)))))))"

definition fence :: pattern where
  "fence = followed line_start (followed (up_to 3 (exactly (CHR 0x20)))
     (either (at_least 3 (exactly (CHR 0x60))) (at_least 3 (exactly (CHR 0x7E)))))"

definition code_or_mark :: pattern where
  "code_or_mark = either (followed (exactly (CHR 0x60)) (followed (many (none_of [CHR 0x60, line_feed])) (exactly (CHR 0x60))))
     (either (literal ''**'') (literal ''__''))"

definition indented_code :: pattern where
  "indented_code = followed line_start (either (at_least 4 (exactly (CHR 0x20))) (exactly tab))"

text \<open>Rulers, underlined headings, the ruler of a table.\<close>

definition ruler_of :: "char \<Rightarrow> pattern" where
  "ruler_of c = at_least 3 (followed (exactly c) (many (one is_blank)))"

definition ruler :: pattern where
  "ruler = followed line_start (followed (up_to 3 (exactly (CHR 0x20)))
     (either (ruler_of (CHR 0x2A)) (either (ruler_of (CHR 0x5F)) (ruler_of (CHR 0x2D)))))"

definition underlined :: pattern where
  "underlined = followed line_start (followed (at_least 1 (none_of [line_feed])) (followed (exactly line_feed) (followed (up_to 3 (exactly (CHR 0x20)))
     (followed (either (at_least 1 (exactly (CHR 0x3D))) (at_least 1 (exactly (CHR 0x2D)))) (many (one is_blank))))))"

definition table_char :: "char \<Rightarrow> bool" where
  "table_char c \<longleftrightarrow> c \<in> {CHR 0x7C, CHR 0x3A, CHR 0x20, tab, CHR 0x2D}"

definition table_ruler :: pattern where
  "table_ruler = followed line_start (followed (up_to 3 (exactly (CHR 0x20)))
     (followed (ahead (followed (many (none_of [line_feed])) (exactly (CHR 0x7C))))
     (followed (ahead (followed (many (none_of [line_feed])) (exactly (CHR 0x2D)))) (at_least 1 (one table_char)))))"

text \<open>Emphasis by one mark, links, elements, addresses.\<close>

definition emphasis :: "char \<Rightarrow> pattern" where
  "emphasis c = followed (not_behind (\<lambda>x. x = c)) (followed (exactly c)
     (followed (not_ahead (\<lambda>x. js_space x \<or> x = c)) (followed (many (none_of [c, line_feed])) (followed (one (\<lambda>x. \<not> js_space x)) (exactly c)))))"

definition link :: pattern where
  "link = followed (up_to 1 (exactly (CHR 0x21))) (followed (exactly (CHR 0x5B)) (followed (at_least 1 (none_of [CHR 0x5D, line_feed]))
     (followed (exactly (CHR 0x5D)) (followed (exactly (CHR 0x28)) (followed (at_least 1 (none_of [line_feed, CHR 0x29])) (exactly (CHR 0x29)))))))"

definition element :: pattern where
  "element = followed (exactly (CHR 0x3C)) (followed
     (either (followed (up_to 1 (exactly (CHR 0x2F))) (one ascii_letter)) (either (exactly (CHR 0x21)) (exactly (CHR 0x3F))))
     (followed (many (none_of [CHR 0x3E])) (exactly (CHR 0x3E))))"

definition letters :: "string \<Rightarrow> pattern" where
  "letters s = foldr (\<lambda>c. followed (one (\<lambda>x. lower_char x = c))) s nothing"

definition address :: pattern where
  "address = followed boundary (followed
     (either (followed (letters ''http'') (followed (up_to 1 (letters ''s'')) (letters ''://''))) (letters ''www.''))
     (at_least 1 (one (\<lambda>c. \<not> js_space c))))"

definition has_markup :: "string \<Rightarrow> bool" where
  "has_markup s \<longleftrightarrow> occurs block_mark s \<or> occurs fence s \<or> occurs code_or_mark s \<or> occurs (followed ruler line_end) s \<or>
     occurs (followed underlined line_end) s \<or> occurs (followed table_ruler line_end) s \<or>
     occurs (either (followed (emphasis (CHR 0x2A)) (not_ahead (\<lambda>x. x = CHR 0x2A))) (followed (emphasis (CHR 0x5F)) (not_ahead (\<lambda>x. x = CHR 0x5F)))) s \<or>
     occurs link s \<or> occurs element s \<or> occurs address s"

text \<open>
  \<open>replace(/\*\*(?=\S)([^*\n]*?\S)\*\*/gu, "$1")\<close>, and the same with underscores: what the lazy group takes
  and what follows the closing marks.
\<close>

fun close_mark :: "char \<Rightarrow> string \<Rightarrow> (string \<times> string) option" where
  "close_mark d [] = None"
| "close_mark d (c # s) =
     (if \<not> js_space c \<and> take 2 s = [d, d] then Some ([c], drop 2 s)
      else if c = d \<or> c = line_feed then None
      else map_option (\<lambda>(g, rest). (c # g, rest)) (close_mark d s))"

definition opened_mark :: "char \<Rightarrow> string \<Rightarrow> (string \<times> string) option" where
  "opened_mark d s = (if take 2 s = [d, d] \<and> drop 2 s \<noteq> [] \<and> \<not> js_space (hd (drop 2 s)) then close_mark d (drop 2 s) else None)"

lemma close_mark_text: "close_mark d s = Some (g, rest) \<Longrightarrow> s = g @ [d, d] @ rest \<and> g \<noteq> []"
proof (induction s arbitrary: g)
  case (Cons c s)
  show ?case
  proof (cases "\<not> js_space c \<and> take 2 s = [d, d]")
    case True
    then have "s = [d, d] @ drop 2 s" by (metis append_take_drop_id)
    then show ?thesis using True Cons.prems by auto
  next
    case False
    with Cons.prems obtain g' where "g = c # g'" "close_mark d s = Some (g', rest)" by (auto split: if_splits)
    with Cons.IH show ?thesis by auto
  qed
qed simp

lemma opened_mark_text:
  "opened_mark d s = Some (g, rest) \<Longrightarrow> s = [d, d] @ g @ [d, d] @ rest \<and> g \<noteq> [] \<and> \<not> js_space (hd g)"
proof -
  assume o: "opened_mark d s = Some (g, rest)"
  then have s: "s = [d, d] @ drop 2 s" and c: "close_mark d (drop 2 s) = Some (g, rest)" and n: "\<not> js_space (hd (drop 2 s))"
    by (auto simp: opened_mark_def split: if_splits) (metis append_Cons append_Nil append_take_drop_id)
  from close_mark_text [OF c] s n show ?thesis by (metis hd_append2)
qed

function replace_marks :: "char \<Rightarrow> string \<Rightarrow> string" where
  "replace_marks d s =
     (case opened_mark d s of
        Some (g, rest) \<Rightarrow> g @ replace_marks d rest
      | None \<Rightarrow> (case s of [] \<Rightarrow> [] | c # s' \<Rightarrow> c # replace_marks d s'))"
  by pat_completeness auto
termination
  by (relation "measure (\<lambda>(d, s). length s)") (auto dest: opened_mark_text)

declare replace_marks.simps [simp del]

definition invalid_response :: js_error where
  "invalid_response = PlainError ''Provider response was invalid''"

definition normalizedPlainText :: "string \<Rightarrow> js_error + string" where
  "normalizedPlainText content =
     (let n = replace_marks (CHR 0x5F) (replace_marks (CHR 0x2A) (js_trim content)) in
      if has_markup n \<or> occurs indented_code content then Inl invalid_response else Inr n)"

section \<open>Sentences\<close>

definition NON_TERMINAL_ABBREVIATIONS :: "string list" where
  "NON_TERMINAL_ABBREVIATIONS = [''dr.'', ''e.g.'', ''i.e.'', ''jr.'', ''mr.'', ''mrs.'', ''ms.'', ''prof.'', ''sr.'', ''st.'']"

definition regionEqualsIgnoreCase :: "string \<Rightarrow> nat \<Rightarrow> nat \<Rightarrow> string \<Rightarrow> bool" where
  "regionEqualsIgnoreCase t start stop expected \<longleftrightarrow> stop - start = length expected \<and>
     list_all (\<lambda>i. start + i < length t \<and> lower_char (t ! (start + i)) = expected ! i) [0..<length expected]"

definition isNonTerminalAbbreviation :: "string \<Rightarrow> nat \<Rightarrow> nat \<Rightarrow> bool" where
  "isNonTerminalAbbreviation t start punctuation =
     (let stop = punctuation + 1; n = stop - start in
      if list_ex (regionEqualsIgnoreCase t start stop) NON_TERMINAL_ABBREVIATIONS then True
      else if n = 2 \<and> start < length t \<and> ascii_letter (t ! start) then True
      else if n < 4 \<or> n mod 2 \<noteq> 0 then False
      else list_all (\<lambda>k. let i = start + 2 * k in i < length t \<and> ascii_letter (t ! i) \<and> i + 1 < length t \<and> t ! (i + 1) = CHR ''.'') [0..<n div 2])"

record scan_state =
  sc_index :: nat
  sc_end :: nat
  sc_sentences :: nat
  sc_words :: nat
  sc_in_word :: bool
  sc_token :: nat

datatype scan_result = Halt nat | Continue scan_state

definition skip_while :: "(char \<Rightarrow> bool) \<Rightarrow> string \<Rightarrow> nat \<Rightarrow> nat" where
  "skip_while P t i = i + length (takeWhile P (drop i t))"

definition MAX_RESPONSE_WORDS :: nat where "MAX_RESPONSE_WORDS = 160"
definition MAX_RESPONSE_SENTENCES :: nat where "MAX_RESPONSE_SENTENCES = 5"

text \<open>What follows the punctuation at \<open>i\<close>.\<close>

definition scan_stop :: "string \<Rightarrow> nat \<Rightarrow> scan_state \<Rightarrow> scan_result" where
  "scan_stop t i st =
     (let j = skip_while terminator t i; single = (j = i + 1 \<and> t ! i = CHR ''.''); e = skip_while CLOSING_PUNCTUATION t j;
          st' = st\<lparr>sc_index := e\<rparr> in
      if e < length t \<and> \<not> js_space (t ! e) then Continue st'
      else if single \<and> e < length t \<and> isNonTerminalAbbreviation t (sc_token st) i then Continue st'
      else if sc_words st = 0 then Continue st'
      else if sc_sentences st + 1 = MAX_RESPONSE_SENTENCES then Halt e
      else Continue (st'\<lparr>sc_sentences := sc_sentences st + 1, sc_end := e\<rparr>))"

definition scan_step :: "string \<Rightarrow> scan_state \<Rightarrow> scan_result" where
  "scan_step t st =
     (let i = sc_index st; c = t ! i in
      if js_space c then Continue (st\<lparr>sc_in_word := False, sc_token := i + 1, sc_index := i + 1\<rparr>)
      else if WORD_CHARACTER c then
        (if sc_in_word st then Continue (st\<lparr>sc_index := i + 1\<rparr>)
         else if sc_words st + 1 > MAX_RESPONSE_WORDS then Halt (sc_end st)
         else Continue (st\<lparr>sc_words := sc_words st + 1, sc_in_word := True, sc_index := i + 1\<rparr>))
      else if (c = CHR 0x27 \<or> c = CHR 0x2D) \<and> sc_in_word st \<and> i + 1 < length t \<and> WORD_CHARACTER (t ! (i + 1))
      then Continue (st\<lparr>sc_index := i + 1\<rparr>)
      else if \<not> terminator c then Continue (st\<lparr>sc_in_word := False, sc_index := i + 1\<rparr>)
      else scan_stop t i (st\<lparr>sc_in_word := False\<rparr>))"

lemma skip_while_ge: "i \<le> skip_while P t i"
  by (simp add: skip_while_def)

lemma skip_while_first: "i < length t \<Longrightarrow> P (t ! i) \<Longrightarrow> i < skip_while P t i"
  by (simp add: skip_while_def Cons_nth_drop_Suc [symmetric])

lemma scan_stop_index: "i < length t \<Longrightarrow> terminator (t ! i) \<Longrightarrow> scan_stop t i st = Continue st' \<Longrightarrow> i < sc_index st'"
  using skip_while_first [of i t terminator] skip_while_ge [of "skip_while terminator t i" CLOSING_PUNCTUATION t]
  by (auto simp: scan_stop_def Let_def split: if_splits)

lemma scan_step_index: "sc_index st < length t \<Longrightarrow> scan_step t st = Continue st' \<Longrightarrow> sc_index st < sc_index st'"
  using scan_stop_index [of "sc_index st" t "st\<lparr>sc_in_word := False\<rparr>" st'] by (auto simp: scan_step_def Let_def split: if_splits)

function scan :: "string \<Rightarrow> scan_state \<Rightarrow> nat" where
  "scan t st =
     (if sc_index st < length t
      then (case scan_step t st of Halt e \<Rightarrow> e | Continue st' \<Rightarrow> scan t st')
      else sc_end st)"
  by pat_completeness auto
termination
  by (relation "measure (\<lambda>(t, st). length t - sc_index st)") (use scan_step_index in \<open>force+\<close>)

declare scan.simps [simp del]

definition scan_start :: scan_state where
  "scan_start = \<lparr>sc_index = 0, sc_end = 0, sc_sentences = 0, sc_words = 0, sc_in_word = False, sc_token = 0\<rparr>"

definition boundedCompleteResponse :: "string \<Rightarrow> js_error + string" where
  "boundedCompleteResponse content =
     bindE (normalizedPlainText content) (\<lambda>n.
       if n = [] then Inl invalid_response
       else let e = scan n scan_start in if e = 0 then Inl invalid_response else Inr (js_trim (take e n)))"

section \<open>Responses\<close>

definition MAX_RESPONSE_BODY_BYTES :: nat where "MAX_RESPONSE_BODY_BYTES = 65536"
definition MAX_RESPONSE_CONTENT_BYTES :: nat where "MAX_RESPONSE_CONTENT_BYTES = 16384"

text \<open>\<open>decode\<close> is the strict UTF-8 decoder; a body is the list of what its reader returns, None for a failure.\<close>

type_synonym octets = "nat list"

definition decodeBoundedJson :: "(octets \<Rightarrow> string option) \<Rightarrow> octets \<Rightarrow> nat \<Rightarrow> js_error + jval" where
  "decodeBoundedJson decode bs max_bytes =
     (if max_bytes < 1 \<or> length bs > max_bytes then Inl invalid_response
      else (case Option.bind (decode bs) json_parse of None \<Rightarrow> Inl invalid_response | Some v \<Rightarrow> Inr v))"

fun read_body :: "octets \<Rightarrow> octets option list \<Rightarrow> octets option" where
  "read_body got [] = Some got"
| "read_body got (None # rest) = None"
| "read_body got (Some chunk # rest) = (if length got + length chunk > MAX_RESPONSE_BODY_BYTES then None else read_body (got @ chunk) rest)"

definition declared_ok :: "string option \<Rightarrow> bool" where
  "declared_ok declared = (case declared of None \<Rightarrow> True
     | Some s \<Rightarrow> s \<noteq> [] \<and> list_all ascii_digit s \<and> foldl (\<lambda>n c. 10 * n + (of_char c - 48)) (0 :: nat) s \<le> MAX_RESPONSE_BODY_BYTES)"

definition readBoundedJsonResponse ::
    "(octets \<Rightarrow> string option) \<Rightarrow> string option \<Rightarrow> octets option list option \<Rightarrow> string \<Rightarrow> js_error + jval" where
  "readBoundedJsonResponse decode declared body message =
     (if \<not> declared_ok declared then Inl (PlainError message)
      else (case Option.bind body (read_body []) of
          None \<Rightarrow> Inl (PlainError message)
        | Some bs \<Rightarrow> (case decodeBoundedJson decode bs MAX_RESPONSE_BODY_BYTES of Inl _ \<Rightarrow> Inl (PlainError message) | Inr v \<Rightarrow> Inr v)))"

fun is_object :: "jval \<Rightarrow> bool" where
  "is_object (JObj fs) \<longleftrightarrow> True"
| "is_object _ \<longleftrightarrow> False"

definition response_content :: "jval \<Rightarrow> string option" where
  "response_content v =
     (case jget ''choices'' v of
        JArr (choice # _) \<Rightarrow>
          (if is_object v \<and> is_object choice \<and> jget ''finish_reason'' choice \<in> {JUndefined, JStr ''stop'', JStr ''length''} \<and>
              is_object (jget ''message'' choice)
           then (case jget ''content'' (jget ''message'' choice) of
               JStr content \<Rightarrow> if js_trim content = [] \<or> utf8_length content > MAX_RESPONSE_CONTENT_BYTES then None else Some content
             | _ \<Rightarrow> None)
           else None)
      | _ \<Rightarrow> None)"

definition extractOpenAICompatibleText :: "jval \<Rightarrow> string \<Rightarrow> js_error + string" where
  "extractOpenAICompatibleText v message =
     (case response_content v of
        None \<Rightarrow> Inl (PlainError message)
      | Some content \<Rightarrow> (case boundedCompleteResponse content of Inl _ \<Rightarrow> Inl (PlainError message) | Inr t \<Rightarrow> Inr t))"

text \<open>What \<open>src/providers/lm-studio.ts\<close> makes of a response to its request.\<close>

definition local_answer :: "(octets \<Rightarrow> string option) \<Rightarrow> string option \<Rightarrow> octets option list option \<Rightarrow> js_error + string" where
  "local_answer decode declared body =
     bindE (readBoundedJsonResponse decode declared body ''LM Studio response was invalid'') (\<lambda>v.
       extractOpenAICompatibleText v ''LM Studio response was invalid'')"

end
