(* ===== verification/Cloud_Adapter.thy ===== *)
theory Cloud_Adapter
  imports Response_Policy Json_Text Contracts
begin

text \<open>
  The adapter for the approved cloud providers (\<open>src/providers/openai-compatible-cloud.ts\<close>): what it accepts from
  its caller, the one request it makes of an input, and what it makes of the transport's response. The transport
  is a parameter; a run of the adapter returns the requests it sent with its result.
\<close>

section \<open>Requests, responses, failures\<close>

datatype cloud_failure = Invalid_Request | Canceled | Timed_Out | Provider_Failure | Invalid_Response

record cloud_request =
  cq_definitionId :: string
  cq_scheme :: string
  cq_hostname :: string
  cq_port :: int
  cq_method :: string
  cq_path :: string
  cq_headers :: "(string \<times> string) list"
  cq_body :: "octets option"

record cloud_response =
  cp_status :: int
  cp_headers :: "(string \<times> string) list"
  cp_body :: octets

text \<open>
  An \<open>AbortSignal\<close> as the adapter sees it: something else, or a genuine one that is aborted or not. What the
  transport does: it throws (the timeout symbol or something else), returns no native promise, or its promise
  is rejected or resolved; a resolved value is an object of own data properties or something else.
\<close>

datatype signal_view = Not_A_Signal | Signal_Aborted bool

datatype transport_field = Field_Value jval | Field_Bytes octets

datatype transport_value = Value_Object "(string \<times> transport_field) list" | Value_Other

datatype transport_outcome = Threw bool | No_Promise | Rejected bool | Resolved transport_value

type_synonym cloud_transport = "cloud_request \<Rightarrow> transport_outcome \<times> signal_view"

definition MAX_MODEL_LIST_BODY_BYTES :: nat where "MAX_MODEL_LIST_BODY_BYTES = 2097152"
definition MAX_TRANSPORT_HEADER_COUNT :: nat where "MAX_TRANSPORT_HEADER_COUNT = 128"
definition MAX_TRANSPORT_HEADER_BYTES :: nat where "MAX_TRANSPORT_HEADER_BYTES = 65536"

section \<open>The input\<close>

fun input_fields :: "jval \<Rightarrow> string list \<Rightarrow> cloud_failure + jval" where
  "input_fields (JObj fs) allowed = (if set (map fst fs) \<subseteq> set allowed then Inr (JObj fs) else Inl Invalid_Request)"
| "input_fields _ allowed = Inl Invalid_Request"

definition exact_fields :: "jval \<Rightarrow> string list \<Rightarrow> cloud_failure + jval" where
  "exact_fields v allowed = bindE (input_fields v allowed) (\<lambda>r. if length (jkeys r) \<noteq> length allowed then Inl Invalid_Request else Inr r)"

fun cloud_credential :: "jval \<Rightarrow> cloud_failure + string" where
  "cloud_credential (JStr s) =
     (if s = [] \<or> length s > 8192 \<or> list_ex (\<lambda>c. c \<in> {CHR 0x0D, CHR 0x0A, CHR 0x00}) s then Inl Invalid_Request else Inr s)"
| "cloud_credential _ = Inl Invalid_Request"

definition name_char :: "char \<Rightarrow> bool" where
  "name_char c \<longleftrightarrow> ascii_letter c \<or> ascii_digit c"

definition name_part :: "char list \<Rightarrow> string \<Rightarrow> bool" where
  "name_part extra s = (case s of [] \<Rightarrow> False | c # cs \<Rightarrow> name_char c \<and> list_all (\<lambda>d. name_char d \<or> d \<in> set extra) cs)"

text \<open>\<open>/^[A-Za-z0-9][A-Za-z0-9._-]*\/[A-Za-z0-9][A-Za-z0-9._:-]*$/u\<close>\<close>

definition router_model :: "string \<Rightarrow> bool" where
  "router_model s =
     (let a = takeWhile (\<lambda>c. c \<noteq> CHR 0x2F) s; rest = dropWhile (\<lambda>c. c \<noteq> CHR 0x2F) s in
      rest \<noteq> [] \<and> name_part [CHR 0x2E, CHR 0x5F, CHR 0x2D] a \<and> name_part [CHR 0x2E, CHR 0x5F, CHR 0x3A, CHR 0x2D] (tl rest))"

definition ROUTING_SUFFIXES :: "string list" where
  "ROUTING_SUFFIXES = ['':nitro'', '':floor'', '':online'', '':exacto'']"

definition cloud_modelId :: "jval \<Rightarrow> bool \<Rightarrow> cloud_failure + string" where
  "cloud_modelId v openrouter =
     (case v of
        JStr s \<Rightarrow>
          if \<not> opaque_model_id s then Inl Invalid_Request
          else if openrouter \<and> (\<not> router_model s \<or> prefix ''openrouter/'' s \<or> list_ex (\<lambda>x. suffix x s) ROUTING_SUFFIXES)
          then Inl Invalid_Request
          else Inr s
      | _ \<Rightarrow> Inl Invalid_Request)"

definition cloud_message :: "jval \<Rightarrow> (string \<times> string) option" where
  "cloud_message v =
     (case exact_fields v [''role'', ''content''] of
        Inl _ \<Rightarrow> None
      | Inr r \<Rightarrow> (case (jget ''role'' r, jget ''content'' r) of
            (JStr role, JStr content) \<Rightarrow>
              if role \<notin> {''system'', ''user'', ''assistant''} \<or> content = [] \<or> CHR 0x00 \<in> set content then None else Some (role, content)
          | _ \<Rightarrow> None))"

fun messages_from :: "nat \<Rightarrow> jval list \<Rightarrow> cloud_failure + (string \<times> string) list" where
  "messages_from acc [] = Inr []"
| "messages_from acc (v # vs) =
     (case cloud_message v of
        None \<Rightarrow> Inl Invalid_Request
      | Some m \<Rightarrow>
          (let acc' = acc + utf8_length (snd m) in
           if acc' > 65536 then Inl Invalid_Request else bindE (messages_from acc' vs) (\<lambda>ms. Inr (m # ms))))"

fun cloud_messages :: "jval \<Rightarrow> cloud_failure + (string \<times> string) list" where
  "cloud_messages (JArr vs) = (if length vs < 1 \<or> length vs > 32 then Inl Invalid_Request else messages_from 0 vs)"
| "cloud_messages _ = Inl Invalid_Request"

fun cloud_temperature :: "jval \<Rightarrow> bool" where
  "cloud_temperature (JNum n) \<longleftrightarrow> is_finite n \<and> \<not> num_less n 0 \<and> \<not> num_greater n 2"
| "cloud_temperature _ \<longleftrightarrow> False"

fun cloud_tokens :: "jval \<Rightarrow> bool" where
  "cloud_tokens (JNum n) \<longleftrightarrow> is_integer n \<and> \<not> num_less n 1 \<and> \<not> num_greater n 32768"
| "cloud_tokens _ \<longleftrightarrow> False"

section \<open>Requests\<close>

definition chat_message_json :: "string \<times> string \<Rightarrow> jval" where
  "chat_message_json m = JObj [(''role'', JStr (fst m)), (''content'', JStr (snd m))]"

definition chat_body :: "cloud_provider_definition \<Rightarrow> string \<Rightarrow> (string \<times> string) list \<Rightarrow> jval \<Rightarrow> jval \<Rightarrow> jval" where
  "chat_body d model ms temp tokens =
     JObj ([(''model'', JStr model), (''messages'', JArr (map chat_message_json ms)), (''temperature'', temp),
            (output_token_field_name (outputTokenField d), tokens), (''stream'', JBool False)] @
           (if def_id d = ''openrouter'' then [(''provider'', JObj [(''allow_fallbacks'', JBool False)])] else []))"

definition chat_request :: "cloud_provider_definition \<Rightarrow> string \<Rightarrow> jval \<Rightarrow> cloud_request" where
  "chat_request d secret body =
     \<lparr>cq_definitionId = def_id d, cq_scheme = scheme d, cq_hostname = hostname d, cq_port = port d, cq_method = ''POST'',
      cq_path = chatPath d,
      cq_headers = [(''accept'', ''application/json''), (''authorization'', ''Bearer '' @ secret), (''content-type'', ''application/json'')],
      cq_body = Some (utf8_encode (stringify body))\<rparr>"

definition models_request :: "cloud_provider_definition \<Rightarrow> string \<Rightarrow> cloud_request" where
  "models_request d secret =
     \<lparr>cq_definitionId = def_id d, cq_scheme = scheme d, cq_hostname = hostname d, cq_port = port d, cq_method = ''GET'',
      cq_path = modelsPath d,
      cq_headers = [(''accept'', ''application/json''), (''authorization'', ''Bearer '' @ secret)],
      cq_body = None\<rparr>"

definition cloud_chat_request :: "cloud_provider_definition \<Rightarrow> jval \<Rightarrow> cloud_failure + (string \<times> cloud_request)" where
  "cloud_chat_request d input =
     bindE (exact_fields input [''credential'', ''model'', ''messages'', ''temperature'', ''maxOutputTokens'']) (\<lambda>p.
     bindE (cloud_modelId (jget ''model'' p) (def_id d = ''openrouter'')) (\<lambda>model.
       if \<not> cloud_temperature (jget ''temperature'' p) \<or> \<not> cloud_tokens (jget ''maxOutputTokens'' p) then Inl Invalid_Request
       else
     bindE (cloud_messages (jget ''messages'' p)) (\<lambda>ms.
     bindE (cloud_credential (jget ''credential'' p)) (\<lambda>secret.
       Inr (model, chat_request d secret (chat_body d model ms (jget ''temperature'' p) (jget ''maxOutputTokens'' p)))))))"

section \<open>Responses\<close>

definition control_char :: "char \<Rightarrow> bool" where
  "control_char c \<longleftrightarrow> (let n = (of_char c :: nat) in n < 32 \<or> (127 \<le> n \<and> n < 160))"

text \<open>\<open>/^[!#$%&'*+.^_`|~0-9a-z-]+$/u\<close>\<close>

definition header_name :: "string \<Rightarrow> bool" where
  "header_name s \<longleftrightarrow> s \<noteq> [] \<and> list_all (\<lambda>c. lower_alnum c \<or> c \<in> {CHR 0x21, CHR 0x23, CHR 0x24, CHR 0x25, CHR 0x26, CHR 0x27, CHR 0x2A,
     CHR 0x2B, CHR 0x2E, CHR 0x5E, CHR 0x5F, CHR 0x60, CHR 0x7C, CHR 0x7E, CHR 0x2D}) s"

fun copied_headers :: "nat \<Rightarrow> (string \<times> jval) list \<Rightarrow> (string \<times> string) list option" where
  "copied_headers acc [] = Some []"
| "copied_headers acc ((k, v) # rest) =
     (case v of
        JStr s \<Rightarrow>
          (let acc' = acc + utf8_length k + utf8_length s in
           if \<not> header_name k \<or> list_ex control_char s \<or> acc' > MAX_TRANSPORT_HEADER_BYTES then None
           else map_option (\<lambda>hs. (k, s) # hs) (copied_headers acc' rest))
      | _ \<Rightarrow> None)"

fun copyResponseHeaders :: "transport_field \<Rightarrow> (string \<times> string) list option" where
  "copyResponseHeaders (Field_Value (JObj hs)) = (if length hs > MAX_TRANSPORT_HEADER_COUNT then None else copied_headers 0 hs)"
| "copyResponseHeaders _ = None"

fun responseFields :: "transport_value \<Rightarrow> (string \<times> transport_field) list option" where
  "responseFields (Value_Object fs) =
     (if set (map fst fs) \<subseteq> {''status'', ''headers'', ''body''} \<and> length fs = 3 then Some fs else None)"
| "responseFields Value_Other = None"

fun response_status :: "transport_field option \<Rightarrow> int option" where
  "response_status (Some (Field_Value (JNum (Num n e)))) = (if e = 0 \<and> 100 \<le> n \<and> n \<le> 599 then Some n else None)"
| "response_status _ = None"

fun response_bytes :: "transport_field option \<Rightarrow> octets option" where
  "response_bytes (Some (Field_Bytes bs)) = (if length bs > MAX_MODEL_LIST_BODY_BYTES then None else Some bs)"
| "response_bytes _ = None"

definition copyTransportResponse :: "transport_value \<Rightarrow> cloud_response option" where
  "copyTransportResponse v =
     Option.bind (responseFields v) (\<lambda>fs.
     Option.bind (response_status (map_of fs ''status'')) (\<lambda>status.
     Option.bind (response_bytes (map_of fs ''body'')) (\<lambda>body.
     Option.bind (Option.bind (map_of fs ''headers'') copyResponseHeaders) (\<lambda>headers.
       Some \<lparr>cp_status = status, cp_headers = headers, cp_body = body\<rparr>))))"

text \<open>\<open>value.split(";", 1)[0]?.trim().toLowerCase() === "application/json"\<close>\<close>

definition json_media :: "string \<Rightarrow> bool" where
  "json_media s \<longleftrightarrow> map lower_char (js_trim (takeWhile (\<lambda>c. c \<noteq> CHR 0x3B) s)) = ''application/json''"

definition json_response :: "cloud_response \<Rightarrow> bool" where
  "json_response r = (case map_of (cp_headers r) ''content-type'' of None \<Rightarrow> False | Some s \<Rightarrow> json_media s)"

section \<open>The calls\<close>

fun mappedTransportFailure :: "bool \<Rightarrow> signal_view \<Rightarrow> cloud_failure" where
  "mappedTransportFailure timed_out Not_A_Signal = Invalid_Request"
| "mappedTransportFailure timed_out (Signal_Aborted aborted) = (if aborted then Canceled else if timed_out then Timed_Out else Provider_Failure)"

fun transported :: "transport_outcome \<times> signal_view \<Rightarrow> cloud_failure + cloud_response" where
  "transported (Threw timed_out, after) = Inl (mappedTransportFailure timed_out after)"
| "transported (Rejected timed_out, after) = Inl (mappedTransportFailure timed_out after)"
| "transported (No_Promise, after) = Inl Invalid_Response"
| "transported (Resolved v, after) = (case copyTransportResponse v of None \<Rightarrow> Inl Invalid_Response | Some r \<Rightarrow> Inr r)"

definition cloud_send :: "cloud_transport \<Rightarrow> signal_view \<Rightarrow> cloud_request \<Rightarrow> cloud_request list \<times> (cloud_failure + cloud_response)" where
  "cloud_send transport sig q =
     (case sig of
        Not_A_Signal \<Rightarrow> ([], Inl Invalid_Request)
      | Signal_Aborted aborted \<Rightarrow> if aborted then ([], Inl Canceled) else ([q], transported (transport q)))"

definition chat_answer :: "(octets \<Rightarrow> string option) \<Rightarrow> string \<Rightarrow> cloud_response \<Rightarrow> cloud_failure + string" where
  "chat_answer decode model r =
     (if cp_status r \<noteq> 200 then Inl Provider_Failure
      else if \<not> json_response r then Inl Invalid_Response
      else (case decodeBoundedJson decode (cp_body r) MAX_RESPONSE_BODY_BYTES of
          Inl _ \<Rightarrow> Inl Invalid_Response
        | Inr v \<Rightarrow>
            if \<not> is_object v \<or> jget ''model'' v \<noteq> JStr model then Inl Invalid_Response
            else (case extractOpenAICompatibleText v ''Provider response was invalid'' of Inl _ \<Rightarrow> Inl Invalid_Response | Inr t \<Rightarrow> Inr t)))"

definition cloud_generate ::
    "(octets \<Rightarrow> string option) \<Rightarrow> cloud_transport \<Rightarrow> cloud_provider_definition \<Rightarrow> jval \<Rightarrow> signal_view \<Rightarrow>
     cloud_request list \<times> (cloud_failure + string)" where
  "cloud_generate decode transport d input sig =
     (case cloud_chat_request d input of
        Inl e \<Rightarrow> ([], Inl e)
      | Inr (model, q) \<Rightarrow> apsnd (\<lambda>r. bindE r (chat_answer decode model)) (cloud_send transport sig q))"

definition models_answer :: "(octets \<Rightarrow> string option) \<Rightarrow> cloud_provider_definition \<Rightarrow> cloud_response \<Rightarrow> cloud_failure + string list" where
  "models_answer decode d r =
     (if cp_status r \<noteq> 200 \<or> \<not> json_response r then Inl (if cp_status r = 200 then Invalid_Response else Provider_Failure)
      else (case bindE (decodeBoundedJson decode (cp_body r) MAX_MODEL_LIST_BODY_BYTES) (parseProviderModels (def_id d)) of
          Inl _ \<Rightarrow> Inl Invalid_Response | Inr ms \<Rightarrow> Inr ms))"

definition cloud_listModels ::
    "(octets \<Rightarrow> string option) \<Rightarrow> cloud_transport \<Rightarrow> cloud_provider_definition \<Rightarrow> jval \<Rightarrow> signal_view \<Rightarrow>
     cloud_request list \<times> (cloud_failure + string list)" where
  "cloud_listModels decode transport d input sig =
     (case bindE (exact_fields input [''credential'']) (\<lambda>p. cloud_credential (jget ''credential'' p)) of
        Inl e \<Rightarrow> ([], Inl e)
      | Inr secret \<Rightarrow> apsnd (\<lambda>r. bindE r (models_answer decode d)) (cloud_send transport sig (models_request d secret)))"

end
