(* ===== verification/Secure_Transport.thy ===== *)
theory Secure_Transport
  imports Cloud_Adapter Transport_Address
begin

text \<open>
  The transport below the adapter (\<open>src/providers/secure-http-transport.ts\<close>): its own check of every request and the
  semaphore that bounds the requests in flight and those that wait. Sockets, TLS, timers and the reading of a
  response are not modelled.
\<close>

section \<open>Requests\<close>

definition MAX_REQUEST_BYTES :: nat where "MAX_REQUEST_BYTES = 131072"
definition MAX_API_KEY_BYTES :: nat where "MAX_API_KEY_BYTES = 8192"

record validated_request =
  vr_authorization :: string
  vr_body :: "octets option"
  vr_providerId :: string

definition authorization_ok :: "string \<Rightarrow> bool" where
  "authorization_ok s \<longleftrightarrow> prefix ''Bearer '' s \<and> 7 < length s \<and> utf8_length s \<le> MAX_API_KEY_BYTES + 7 \<and> \<not> list_ex control_char s"

definition validateRequest :: "cloud_request \<Rightarrow> validated_request option" where
  "validateRequest q =
     (case getProviderDefinition (cq_definitionId q) of
        Inl _ \<Rightarrow> None
      | Inr d \<Rightarrow>
          (let chat = (cq_method q = ''POST''); models = (cq_method q = ''GET'');
               allowed = (if chat then [''accept'', ''authorization'', ''content-type''] else [''accept'', ''authorization'']) in
           if \<not> chat \<and> \<not> models then None
           else if cq_scheme q \<noteq> ''https'' \<or> cq_hostname q \<noteq> hostname d \<or> cq_port q \<noteq> 443 \<or>
                   cq_path q \<noteq> (if models then modelsPath d else chatPath d) then None
           else if \<not> set (map fst (cq_headers q)) \<subseteq> set allowed \<or> length (cq_headers q) \<noteq> length allowed \<or>
                   map_of (cq_headers q) ''accept'' \<noteq> Some ''application/json'' \<or>
                   (chat \<and> map_of (cq_headers q) ''content-type'' \<noteq> Some ''application/json'') then None
           else (case map_of (cq_headers q) ''authorization'' of
               None \<Rightarrow> None
             | Some secret \<Rightarrow>
                 if \<not> authorization_ok secret then None
                 else (case cq_body q of
                     None \<Rightarrow> if chat then None else Some \<lparr>vr_authorization = secret, vr_body = None, vr_providerId = def_id d\<rparr>
                   | Some bs \<Rightarrow>
                       if models \<or> length bs < 1 \<or> length bs > MAX_REQUEST_BYTES then None
                       else Some \<lparr>vr_authorization = secret, vr_body = Some bs, vr_providerId = def_id d\<rparr>))))"

section \<open>The semaphore\<close>

definition MAX_QUEUED_REQUESTS :: nat where "MAX_QUEUED_REQUESTS = 64"

text \<open>
  Entries are named by numbers; every call of \<open>acquire\<close> makes a new one. \<open>sem_leases\<close> are the entries that were
  granted and not yet released: the flag \<open>released\<close> of their release functions is not set.
\<close>

record semaphore =
  sem_active :: nat
  sem_queue :: "nat list"
  sem_leases :: "nat list"

datatype acquire_result = Acquire_Canceled | Acquire_Capacity | Acquire_Granted | Acquire_Waits

definition sem_grant :: "nat \<Rightarrow> semaphore \<Rightarrow> semaphore" where
  "sem_grant i s = s\<lparr>sem_active := sem_active s + 1, sem_leases := sem_leases s @ [i]\<rparr>"

definition sem_acquire :: "nat \<Rightarrow> nat \<Rightarrow> bool \<Rightarrow> semaphore \<Rightarrow> acquire_result \<times> semaphore" where
  "sem_acquire limit i aborted s =
     (if aborted then (Acquire_Canceled, s)
      else if sem_active s \<ge> limit \<and> length (sem_queue s) \<ge> MAX_QUEUED_REQUESTS then (Acquire_Capacity, s)
      else if sem_active s < limit \<and> sem_queue s = [] then (Acquire_Granted, sem_grant i s)
      else (Acquire_Waits, s\<lparr>sem_queue := sem_queue s @ [i]\<rparr>))"

definition sem_abort :: "nat \<Rightarrow> semaphore \<Rightarrow> semaphore" where
  "sem_abort i s = s\<lparr>sem_queue := remove1 i (sem_queue s)\<rparr>"

definition sem_release :: "nat \<Rightarrow> semaphore \<Rightarrow> semaphore" where
  "sem_release i s =
     (if i \<notin> set (sem_leases s) then s
      else (let s' = s\<lparr>sem_active := sem_active s - 1, sem_leases := remove1 i (sem_leases s)\<rparr> in
        case sem_queue s' of [] \<Rightarrow> s' | x # xs \<Rightarrow> sem_grant x (s'\<lparr>sem_queue := xs\<rparr>)))"

definition sem_start :: semaphore where
  "sem_start = \<lparr>sem_active = 0, sem_queue = [], sem_leases = []\<rparr>"

text \<open>The events of a run.\<close>

datatype sem_event = Acquire nat bool | Abort nat | Release nat

fun sem_event_step :: "nat \<Rightarrow> sem_event \<Rightarrow> semaphore \<Rightarrow> semaphore" where
  "sem_event_step limit (Acquire i aborted) s = snd (sem_acquire limit i aborted s)"
| "sem_event_step limit (Abort i) s = sem_abort i s"
| "sem_event_step limit (Release i) s = sem_release i s"

definition sem_known :: "semaphore \<Rightarrow> nat set" where
  "sem_known s = set (sem_queue s) \<union> set (sem_leases s)"

text \<open>A run: every acquisition is of a new entry.\<close>

fun sem_fresh :: "semaphore \<Rightarrow> sem_event \<Rightarrow> bool" where
  "sem_fresh s (Acquire i aborted) \<longleftrightarrow> i \<notin> sem_known s"
| "sem_fresh s _ \<longleftrightarrow> True"

inductive sem_run :: "nat \<Rightarrow> semaphore \<Rightarrow> sem_event list \<Rightarrow> semaphore \<Rightarrow> bool" where
  none: "sem_run limit s [] s"
| more: "sem_fresh s e \<Longrightarrow> sem_run limit (sem_event_step limit e s) es s' \<Longrightarrow> sem_run limit s (e # es) s'"

text \<open>The releases of a run that return a lease.\<close>

fun sem_releases :: "nat \<Rightarrow> sem_event list \<Rightarrow> semaphore \<Rightarrow> nat" where
  "sem_releases limit [] s = 0"
| "sem_releases limit (e # es) s =
     (case e of Release i \<Rightarrow> if i \<in> set (sem_leases s) then 1 else 0 | _ \<Rightarrow> 0) + sem_releases limit es (sem_event_step limit e s)"

section \<open>The invariant\<close>

definition sem_ok :: "nat \<Rightarrow> semaphore \<Rightarrow> bool" where
  "sem_ok limit s \<longleftrightarrow> sem_active s = length (sem_leases s) \<and> sem_active s \<le> limit \<and> length (sem_queue s) \<le> MAX_QUEUED_REQUESTS \<and>
     distinct (sem_queue s @ sem_leases s) \<and> (sem_queue s \<noteq> [] \<longrightarrow> sem_active s = limit)"

lemma sem_acquire_ok: "sem_ok limit s \<Longrightarrow> i \<notin> sem_known s \<Longrightarrow> sem_ok limit (snd (sem_acquire limit i aborted s))"
  by (auto simp: sem_ok_def sem_acquire_def sem_grant_def sem_known_def MAX_QUEUED_REQUESTS_def)

lemma sem_abort_ok: "sem_ok limit s \<Longrightarrow> sem_ok limit (sem_abort i s)"
  by (cases "sem_queue s = []") (auto simp: sem_ok_def sem_abort_def length_remove1 dest: notin_set_remove1 in_set_remove1 [THEN iffD1] set_remove1_subset [THEN subsetD])

lemma sem_release_ok: "sem_ok limit s \<Longrightarrow> sem_ok limit (sem_release i s)"
proof (cases "i \<in> set (sem_leases s)")
  case True
  assume ok: "sem_ok limit s"
  have l: "length (remove1 i (sem_leases s)) = length (sem_leases s) - 1" "0 < length (sem_leases s)"
    using True by (auto simp: length_remove1 dest: length_pos_if_in_set)
  have sub: "set (remove1 i (sem_leases s)) \<subseteq> set (sem_leases s)" by (rule set_remove1_subset)
  show ?thesis
  proof (cases "sem_queue s")
    case Nil
    then show ?thesis using ok True l by (auto simp: sem_ok_def sem_release_def Let_def)
  next
    case (Cons x xs)
    then show ?thesis using ok True l sub by (auto simp: sem_ok_def sem_release_def sem_grant_def Let_def)
  qed
qed (simp add: sem_release_def)

lemma sem_step_ok: "sem_fresh s e \<Longrightarrow> sem_ok limit s \<Longrightarrow> sem_ok limit (sem_event_step limit e s)"
  by (cases e) (simp_all add: sem_acquire_ok sem_abort_ok sem_release_ok)

lemma sem_run_ok: "sem_run limit s es s' \<Longrightarrow> sem_ok limit s \<Longrightarrow> sem_ok limit s'"
  by (induction rule: sem_run.induct) (simp_all add: sem_step_ok)

lemma sem_start_ok: "sem_ok limit sem_start"
  by (simp add: sem_ok_def sem_start_def)

end
