(* ===== verification/Response_Patterns.thy ===== *)
theory Response_Patterns
  imports Response_Policy
begin

text \<open>
  How patterns behave when the text is cut: most of them, when they match in a text, match in every
  longer one; those that look one character ahead do so too unless they touch the end of the text.
\<close>

section \<open>Stable patterns\<close>

text \<open>A match consumes what stands before its end, and does not depend on the text behind its end.\<close>

definition stable :: "pattern \<Rightarrow> bool" where
  "stable r \<longleftrightarrow> (\<forall>b s b' s'. (b', s') \<in> set (r (b, s)) \<longrightarrow>
     (\<exists>u. s = u @ s' \<and> b' = rev u @ b) \<and> (\<forall>t. (b', s' @ t) \<in> set (r (b, s @ t))))"

definition fails_at_end :: "pattern \<Rightarrow> bool" where
  "fails_at_end r \<longleftrightarrow> (\<forall>b. r (b, []) = [])"

named_theorems stable_intros \<open>patterns that a longer text keeps\<close>

lemma stableI:
  assumes "\<And>b s b' s' t. (b', s') \<in> set (r (b, s)) \<Longrightarrow> (\<exists>u. s = u @ s' \<and> b' = rev u @ b) \<and> (b', s' @ t) \<in> set (r (b, s @ t))"
  shows "stable r"
  using assms unfolding stable_def by blast

lemma stableD:
  assumes "stable r" and "(b', s') \<in> set (r (b, s))"
  shows "\<exists>u. s = u @ s' \<and> b' = rev u @ b" "(b', s' @ t) \<in> set (r (b, s @ t))"
  using assms unfolding stable_def by blast+

lemma set_followed: "(b', s') \<in> set (followed r1 r2 p) \<longleftrightarrow> (\<exists>b1 s1. (b1, s1) \<in> set (r1 p) \<and> (b', s') \<in> set (r2 (b1, s1)))"
  by (force simp: followed_def)

lemma set_either: "q \<in> set (either r1 r2 p) \<longleftrightarrow> q \<in> set (r1 p) \<or> q \<in> set (r2 p)"
  by (simp add: either_def)

lemma set_one: "(b', s') \<in> set (one P (b, s)) \<longleftrightarrow> (\<exists>c. s = c # s' \<and> P c \<and> b' = c # b)"
  by (auto simp: one_def split: list.splits)

lemma stable_one [stable_intros]: "stable (one P)"
  by (rule stableI) (auto simp: set_one)

lemma stable_nothing [stable_intros]: "stable nothing"
  by (rule stableI) (auto simp: nothing_def)

lemma stable_followed [stable_intros]:
  assumes "stable r1" and "stable r2"
  shows "stable (followed r1 r2)"
proof (rule stableI)
  fix b s b' s' t assume "(b', s') \<in> set (followed r1 r2 (b, s))"
  then obtain b1 s1 where m: "(b1, s1) \<in> set (r1 (b, s))" "(b', s') \<in> set (r2 (b1, s1))" by (auto simp: set_followed)
  from stableD(1) [OF assms(1) m(1)] stableD(2) [OF assms(1) m(1), of t] stableD(1) [OF assms(2) m(2)] stableD(2) [OF assms(2) m(2), of t]
  show "(\<exists>u. s = u @ s' \<and> b' = rev u @ b) \<and> (b', s' @ t) \<in> set (followed r1 r2 (b, s @ t))"
    unfolding set_followed by (metis append.assoc rev_append)
qed

lemma stable_either [stable_intros]: "stable r1 \<Longrightarrow> stable r2 \<Longrightarrow> stable (either r1 r2)"
  unfolding stable_def set_either by blast

lemma stable_up_to [stable_intros]: "stable r \<Longrightarrow> stable (up_to n r)"
  by (induction n) (simp_all add: stable_intros)

lemma up_to_mono: "n \<le> m \<Longrightarrow> set (up_to n r p) \<subseteq> set (up_to m r p)"
proof (induction n arbitrary: m p)
  case 0
  then show ?case by (cases m) (auto simp: either_def nothing_def)
next
  case (Suc n)
  then obtain m' where m: "m = Suc m'" "n \<le> m'" by (cases m) auto
  have "set (followed r (up_to n r) p) \<subseteq> set (followed r (up_to m' r) p)"
    using Suc.IH [OF m(2)] by (auto simp: followed_def)
  then show ?case by (auto simp: m(1) either_def)
qed

lemma stable_many [stable_intros]:
  assumes "stable r"
  shows "stable (many r)"
proof (rule stableI)
  fix b s b' s' t assume "(b', s') \<in> set (many r (b, s))"
  then have m: "(b', s') \<in> set (up_to (length s) r (b, s))" by (simp add: many_def)
  have "(b', s' @ t) \<in> set (up_to (length s) r (b, s @ t))" by (rule stableD(2) [OF stable_up_to [OF assms] m])
  then have "(b', s' @ t) \<in> set (many r (b, s @ t))" using up_to_mono [of "length s" "length (s @ t)" r] by (auto simp: many_def)
  with stableD(1) [OF stable_up_to [OF assms] m] show "(\<exists>u. s = u @ s' \<and> b' = rev u @ b) \<and> (b', s' @ t) \<in> set (many r (b, s @ t))" by blast
qed

lemma stable_at_least [stable_intros]: "stable r \<Longrightarrow> stable (at_least n r)"
  by (induction n) (simp_all add: stable_intros)

lemma stable_ahead [stable_intros]:
  assumes "stable r"
  shows "stable (ahead r)"
proof (rule stableI)
  fix b s b' s' t assume "(b', s') \<in> set (ahead r (b, s))"
  then have m: "r (b, s) \<noteq> []" "b' = b" "s' = s" by (auto simp: ahead_def split: if_splits)
  then obtain b1 s1 where "(b1, s1) \<in> set (r (b, s))" by (cases "r (b, s)") auto
  from stableD(2) [OF assms this, of t] have "r (b, s @ t) \<noteq> []" by auto
  then show "(\<exists>u. s = u @ s' \<and> b' = rev u @ b) \<and> (b', s' @ t) \<in> set (ahead r (b, s @ t))" by (simp add: ahead_def m)
qed

lemma stable_not_behind [stable_intros]: "stable (not_behind P)"
  by (rule stableI) (auto simp: not_behind_def split: list.splits)

lemma stable_at_start [stable_intros]: "stable at_start"
  by (rule stableI) (auto simp: at_start_def split: if_splits)

lemma stable_literals [stable_intros]: "stable (literal w)" "stable (letters w)"
  unfolding literal_def letters_def by (induction w) (simp_all add: stable_intros)

lemma stable_line_start [stable_intros]: "stable line_start"
  unfolding line_start_def by (intro stable_intros)

text \<open>A look at the next character before a pattern that needs one.\<close>

lemma fails_one [intro]: "fails_at_end (one P)"
  by (simp add: fails_at_end_def one_def)

lemma fails_followed: "fails_at_end r1 \<Longrightarrow> fails_at_end (followed r1 r2)"
  by (simp add: fails_at_end_def followed_def)

lemma fails_followed2:
  assumes "stable r1" and "fails_at_end r2"
  shows "fails_at_end (followed r1 r2)"
proof -
  have "r2 q = []" if "q \<in> set (r1 (b, []))" for q b
    using stableD(1) [OF assms(1), of "fst q" "snd q" b "[]"] that assms(2) by (cases q) (auto simp: fails_at_end_def)
  then show ?thesis by (simp add: fails_at_end_def followed_def)
qed

lemma fails_either: "fails_at_end r1 \<Longrightarrow> fails_at_end r2 \<Longrightarrow> fails_at_end (either r1 r2)"
  by (simp add: fails_at_end_def either_def)

lemma stable_guarded:
  assumes k: "\<And>b s q. q \<in> set (k (b, s)) \<Longrightarrow> q = (b, s)" "\<And>b c s s2. k (b, c # s) \<noteq> [] \<Longrightarrow> k (b, c # s2) \<noteq> []"
    and r: "stable r" "fails_at_end r"
  shows "stable (followed k r)"
proof (rule stableI)
  fix b s b' s' t assume "(b', s') \<in> set (followed k r (b, s))"
  then obtain q where q: "q \<in> set (k (b, s))" "(b', s') \<in> set (r q)" by (auto simp: followed_def)
  then have here: "k (b, s) \<noteq> []" "(b', s') \<in> set (r (b, s))" using k(1) [OF q(1)] by auto
  then obtain c s1 where s: "s = c # s1" using r(2) by (cases s) (auto simp: fails_at_end_def)
  then have "k (b, s @ t) \<noteq> []" using here(1) k(2) by simp
  then obtain q' where "q' \<in> set (k (b, s @ t))" by (cases "k (b, s @ t)") auto
  with k(1) have "(b, s @ t) \<in> set (k (b, s @ t))" by metis
  with stableD(1) [OF r(1) here(2)] stableD(2) [OF r(1) here(2), of t] show "(\<exists>u. s = u @ s' \<and> b' = rev u @ b) \<and> (b', s' @ t) \<in> set (followed k r (b, s @ t))"
    unfolding set_followed by blast
qed

lemma stable_not_ahead: "stable r \<Longrightarrow> fails_at_end r \<Longrightarrow> stable (followed (not_ahead P) r)"
  by (rule stable_guarded) (auto simp: not_ahead_def split: list.splits if_splits)

lemma stable_boundary: "stable r \<Longrightarrow> fails_at_end r \<Longrightarrow> stable (followed boundary r)"
  by (rule stable_guarded) (auto simp: boundary_def Let_def split: if_splits)

section \<open>Searching\<close>

lemma found_here: "r (b, s) \<noteq> [] \<Longrightarrow> found r b s"
  by (cases s) simp_all

lemma found_longer:
  assumes "stable r"
  shows "found r b s \<Longrightarrow> found r b (s @ t)"
proof (induction s arbitrary: b)
  case Nil
  then obtain b1 s1 where "(b1, s1) \<in> set (r (b, []))" by (cases "r (b, [])") auto
  from stableD(2) [OF assms this, of t] have "r (b, t) \<noteq> []" by auto
  then show ?case by (simp add: found_here)
next
  case (Cons c s)
  show ?case
  proof (cases "r (b, c # s) \<noteq> []")
    case True
    then obtain b1 s1 where "(b1, s1) \<in> set (r (b, c # s))" by (cases "r (b, c # s)") auto
    from stableD(2) [OF assms this, of t] have "r (b, c # s @ t) \<noteq> []" by auto
    then show ?thesis by simp
  qed (use Cons in simp)
qed

lemma occurs_longer: "stable r \<Longrightarrow> occurs r s \<Longrightarrow> occurs r (s @ t)"
  unfolding occurs_def by (rule found_longer)

text \<open>A last look at the next character, behind a pattern that ends with a character of a set.\<close>

definition ends_in :: "pattern \<Rightarrow> char set \<Rightarrow> bool" where
  "ends_in r C \<longleftrightarrow> (\<forall>b s b' s'. (b', s') \<in> set (r (b, s)) \<longrightarrow> b' \<noteq> [] \<and> hd b' \<in> C)"

definition adds_in :: "pattern \<Rightarrow> char set \<Rightarrow> bool" where
  "adds_in r C \<longleftrightarrow> (\<forall>b s b' s'. (b', s') \<in> set (r (b, s)) \<longrightarrow> (b', s') = (b, s) \<or> (b' \<noteq> [] \<and> hd b' \<in> C))"

lemma ends_one: "(\<And>c. P c \<Longrightarrow> c \<in> C) \<Longrightarrow> ends_in (one P) C"
  by (auto simp: ends_in_def set_one)

lemma ends_followed: "ends_in r2 C \<Longrightarrow> ends_in (followed r1 r2) C"
  by (auto simp: ends_in_def set_followed)

lemma ends_followed_adds: "ends_in r1 C \<Longrightarrow> adds_in r2 C \<Longrightarrow> ends_in (followed r1 r2) C"
  unfolding ends_in_def adds_in_def set_followed by blast

lemma ends_either: "ends_in r1 C \<Longrightarrow> ends_in r2 C \<Longrightarrow> ends_in (either r1 r2) C"
  unfolding ends_in_def set_either by blast

lemma ends_adds: "ends_in r C \<Longrightarrow> adds_in r C"
  unfolding ends_in_def adds_in_def by blast

lemma adds_up_to: "ends_in r C \<Longrightarrow> adds_in (up_to n r) C"
proof (induction n)
  case 0
  then show ?case by (simp add: adds_in_def nothing_def)
next
  case (Suc n)
  then have "adds_in (followed r (up_to n r)) C" by (intro ends_adds [OF ends_followed_adds [OF Suc.prems Suc.IH [OF Suc.prems]]])
  then show ?case unfolding up_to.simps adds_in_def set_either by (auto simp: nothing_def)
qed

lemma adds_many: "ends_in r C \<Longrightarrow> adds_in (many r) C"
  using adds_up_to unfolding adds_in_def many_def by metis

lemma ends_at_least: "ends_in r C \<Longrightarrow> ends_in (at_least (Suc n) r) C"
proof (induction n)
  case 0
  then show ?case by (simp add: ends_followed_adds adds_many)
next
  case (Suc n)
  then show ?case by (subst at_least.simps) (rule ends_followed)
qed

definition looks_ahead :: "pattern \<Rightarrow> bool" where
  "looks_ahead k \<longleftrightarrow> (\<forall>b c s s2. k (b, c # s) \<noteq> [] \<longrightarrow> k (b, c # s2) \<noteq> [])"

lemma looks [intro]: "looks_ahead line_end" "looks_ahead (not_ahead P)"
  by (auto simp: looks_ahead_def line_end_def not_ahead_def ahead_def either_def one_def at_end_def split: if_splits)

lemma found_longer_ahead:
  assumes r: "stable r" "ends_in r C" and k: "looks_ahead k" and s: "rev b @ s = [] \<or> last (rev b @ s) \<notin> C"
  shows "found (followed r k) b s \<Longrightarrow> found (followed r k) b (s @ t)"
proof -
  have here: "followed r k (b, s @ t) \<noteq> []" if m: "followed r k (b, s) \<noteq> []" and e: "rev b @ s = [] \<or> last (rev b @ s) \<notin> C" for b s
  proof -
    from m obtain b1 s1 where m1: "(b1, s1) \<in> set (r (b, s))" "k (b1, s1) \<noteq> []" by (force simp: followed_def)
    obtain u where u: "s = u @ s1" "b1 = rev u @ b" using stableD(1) [OF r(1) m1(1)] by blast
    have last: "b1 \<noteq> []" "hd b1 \<in> C" using r(2) m1(1) by (auto simp: ends_in_def)
    obtain c s2 where "s1 = c # s2"
    proof (cases s1)
      case Nil
      then have "rev b @ s = rev b1" using u by simp
      then have "last (rev b @ s) = hd b1" "rev b @ s \<noteq> []" using last(1) by (simp_all add: last_rev)
      with last(2) e show ?thesis by simp
    qed
    then have "k (b1, s1 @ t) \<noteq> []" using k m1(2) unfolding looks_ahead_def by (metis append_Cons)
    with stableD(2) [OF r(1) m1(1), of t] show ?thesis by (force simp: followed_def)
  qed
  show "found (followed r k) b s \<Longrightarrow> found (followed r k) b (s @ t)"
    using s
  proof (induction s arbitrary: b)
    case Nil
    from here [of b "[]"] Nil show ?case by (simp add: found_here)
  next
    case (Cons c s)
    show ?case
    proof (cases "followed r k (b, c # s) \<noteq> []")
      case True
      from here [OF this Cons.prems(2)] show ?thesis by simp
    next
      case False
      then have "found (followed r k) (c # b) s" using Cons.prems(1) by simp
      from Cons.IH [OF this] Cons.prems(2) show ?thesis by simp
    qed
  qed
qed

lemma occurs_longer_ahead:
  "stable r \<Longrightarrow> ends_in r C \<Longrightarrow> looks_ahead k \<Longrightarrow> s = [] \<or> last s \<notin> C \<Longrightarrow> occurs (followed r k) s \<Longrightarrow> occurs (followed r k) (s @ t)"
  unfolding occurs_def by (rule found_longer_ahead) simp_all

end
