(* ===== verification/Response_Text.thy ===== *)
theory Response_Text
  imports Response_Patterns
begin

text \<open>
  Cutting a text that was accepted: its front part contains no markup and no indented code either, and
  replacing emphasis leaves it alone.
\<close>

section \<open>Markup in a front part\<close>

lemma stable_marks [stable_intros]:
  "stable block_mark" "stable fence" "stable code_or_mark" "stable (ruler_of c)" "stable ruler" "stable underlined" "stable table_ruler"
  "stable link" "stable element"
  unfolding block_mark_def fence_def code_or_mark_def ruler_def ruler_of_def underlined_def table_ruler_def link_def element_def
  by (intro stable_intros)+

lemma stable_emphasis [stable_intros]: "stable (emphasis c)"
  unfolding emphasis_def
  by (intro stable_followed stable_not_behind stable_one stable_not_ahead stable_many fails_followed2 fails_followed fails_one)

lemma stable_address [stable_intros]: "stable address"
proof -
  have h: "fails_at_end (followed (letters ''http'') r)" "fails_at_end (letters ''www.'')" for r
    by (simp_all add: letters_def fails_at_end_def followed_def one_def)
  show ?thesis unfolding address_def
    by (intro stable_boundary stable_followed stable_either stable_literals stable_up_to stable_at_least stable_one fails_followed fails_either h)
qed

definition mark_chars :: "char set" where
  "mark_chars = {CHR 0x2A, CHR 0x5F, CHR 0x2D, CHR 0x3D, CHR 0x7C, CHR 0x3A, CHR 0x20, tab}"

lemma ends_in_marks:
  "ends_in ruler mark_chars" "ends_in underlined mark_chars" "ends_in table_ruler mark_chars" "c \<in> mark_chars \<Longrightarrow> ends_in (emphasis c) mark_chars"
proof -
  have blanks: "adds_in (many (one is_blank)) mark_chars" by (intro adds_many ends_one) (auto simp: is_blank_def mark_chars_def)
  have many1: "ends_in (at_least 1 r) C" "ends_in (at_least 3 r) C" if "ends_in r C" for r C
    using ends_at_least [OF that, of 0] ends_at_least [OF that, of 2] by (simp_all add: eval_nat_numeral)
  have "ends_in (ruler_of c) mark_chars" if "c \<in> mark_chars" for c
    unfolding ruler_of_def by (intro many1 ends_followed_adds ends_one blanks) (use that in simp)
  then show "ends_in ruler mark_chars" unfolding ruler_def
    by (intro ends_followed ends_either) (simp_all add: mark_chars_def)
  show "ends_in underlined mark_chars" unfolding underlined_def
    by (intro ends_followed ends_followed_adds [OF _ blanks] ends_either many1 ends_one) (simp_all add: mark_chars_def)
  show "ends_in table_ruler mark_chars" unfolding table_ruler_def
    by (intro ends_followed many1 ends_one) (auto simp: table_char_def mark_chars_def)
  show "ends_in (emphasis c) mark_chars" if "c \<in> mark_chars"
    unfolding emphasis_def by (intro ends_followed ends_one) (use that in simp)
qed

lemma occurs_either: "occurs (either r1 r2) s \<longleftrightarrow> occurs r1 s \<or> occurs r2 s"
proof -
  have "found (either r1 r2) b s \<longleftrightarrow> found r1 b s \<or> found r2 b s" for b by (induction s arbitrary: b) (auto simp: either_def)
  then show ?thesis by (simp add: occurs_def)
qed

lemma markup_in_front:
  assumes "has_markup s" and "s = [] \<or> last s \<notin> mark_chars"
  shows "has_markup (s @ t)"
proof -
  have keep: "stable r \<Longrightarrow> occurs r s \<Longrightarrow> occurs r (s @ t)" for r by (rule occurs_longer)
  have peek: "stable r \<Longrightarrow> ends_in r mark_chars \<Longrightarrow> looks_ahead k \<Longrightarrow> occurs (followed r k) s \<Longrightarrow> occurs (followed r k) (s @ t)" for r k
    using occurs_longer_ahead [of r mark_chars k s t] assms(2) by blast
  have star: "CHR 0x2A \<in> mark_chars" "CHR 0x5F \<in> mark_chars" by (simp_all add: mark_chars_def)
  have ahead: "occurs (followed ruler line_end) s \<Longrightarrow> occurs (followed ruler line_end) (s @ t)"
    "occurs (followed underlined line_end) s \<Longrightarrow> occurs (followed underlined line_end) (s @ t)"
    "occurs (followed table_ruler line_end) s \<Longrightarrow> occurs (followed table_ruler line_end) (s @ t)"
    "c \<in> mark_chars \<Longrightarrow> occurs (followed (emphasis c) (not_ahead P)) s \<Longrightarrow> occurs (followed (emphasis c) (not_ahead P)) (s @ t)" for c P
    by (rule peek; (rule stable_intros ends_in_marks looks | assumption))+
  show ?thesis
    using assms(1) keep [of block_mark] keep [of fence] keep [of code_or_mark] keep [of link] keep [of element] keep [of address]
      ahead(1-3) ahead(4) [OF star(1)] ahead(4) [OF star(2)]
    unfolding has_markup_def occurs_either by (auto intro: stable_intros)
qed

section \<open>Indented code\<close>

definition indent :: "string \<Rightarrow> bool" where
  "indent s \<longleftrightarrow> take 4 s = replicate 4 (CHR 0x20) \<or> take 1 s = [tab]"

text \<open>\<open>fresh\<close>: at the start of a line.\<close>

fun indented :: "bool \<Rightarrow> string \<Rightarrow> bool" where
  "indented fresh [] \<longleftrightarrow> False"
| "indented fresh (c # s) \<longleftrightarrow> (fresh \<and> indent (c # s)) \<or> indented (c = line_feed) s"

lemma exactly_Cons: "exactly x (b, c # s) = (if c = x then [(c # b, s)] else [])" "exactly x (b, []) = []"
  by (simp_all add: one_def)

lemma many_nonempty: "many r p \<noteq> []"
  by (cases "length (snd p)") (simp_all add: many_def either_def nothing_def)

lemma indent_pattern: "either (at_least 4 (exactly (CHR 0x20))) (exactly tab) (b, s) \<noteq> [] \<longleftrightarrow> indent s"
proof -
  have steps: "followed (exactly x) r (b, s) \<noteq> [] \<longleftrightarrow> (\<exists>s'. s = x # s' \<and> r (x # b, s') \<noteq> [])" for x r b s
    by (cases s) (auto simp: followed_def exactly_Cons)
  have four: "at_least 4 (exactly x) (b, s) \<noteq> [] \<longleftrightarrow> take 4 s = replicate 4 x" for x
  proof -
    have "at_least 4 (exactly x) (b, s) \<noteq> [] \<longleftrightarrow> (\<exists>s'. s = x # x # x # x # s')"
      by (simp add: eval_nat_numeral steps many_nonempty) blast
    also have "\<dots> \<longleftrightarrow> take 4 s = replicate 4 x"
    proof
      assume "take 4 s = replicate 4 x"
      then have "s = replicate 4 x @ drop 4 s" by (metis append_take_drop_id)
      then show "\<exists>s'. s = x # x # x # x # s'" by (simp add: eval_nat_numeral) blast
    qed (auto simp: eval_nat_numeral)
    finally show ?thesis .
  qed
  have "exactly tab (b, s) \<noteq> [] \<longleftrightarrow> take 1 s = [tab]" by (cases s) (simp_all add: exactly_Cons)
  then show ?thesis by (simp add: either_def four indent_def)
qed

lemma indented_fresh: "indented True s \<longleftrightarrow> indent s \<or> indented False s"
  by (cases s) (auto simp: indent_def)

lemma found_indented: "found indented_code b s \<longleftrightarrow> (b = [] \<and> indent s) \<or> indented False s"
proof (induction s arbitrary: b)
  case Nil
  have "\<not> indent []" by (simp add: indent_def)
  then show ?case by (simp add: indented_code_def followed_def line_start_def either_def at_start_def one_def eval_nat_numeral)
next
  case (Cons c s)
  have none: "either (at_least 4 (exactly (CHR 0x20))) (exactly tab) (b, s) = [] \<longleftrightarrow> \<not> indent s" for b s using indent_pattern by blast
  have start: "line_start (b, c # s) = (if b = [] then [(b, c # s)] else []) @ (if c = line_feed then [(c # b, s)] else [])"
    by (simp add: line_start_def either_def at_start_def exactly_Cons)
  have "indented_code (b, c # s) \<noteq> [] \<longleftrightarrow> (b = [] \<and> indent (c # s)) \<or> (c = line_feed \<and> indent s)"
    unfolding indented_code_def followed_def start
    by (cases "b = []"; cases "c = line_feed") (simp_all add: none)
  with Cons.IH [of "c # b"] show ?case by (cases "c = line_feed") (auto simp: indented_fresh)
qed

lemma occurs_indented: "occurs indented_code s \<longleftrightarrow> indented True s"
  unfolding occurs_def found_indented indented_fresh by simp

lemma indent_longer: "indent s \<Longrightarrow> indent (s @ t)"
proof -
  have long: "take n (s @ t) = replicate n x" if "take n s = replicate n x" for n and x :: char
  proof -
    have "length (take n s) = n" unfolding that by simp
    then have "n \<le> length s" by simp
    then show ?thesis using that by simp
  qed
  then show "indent s \<Longrightarrow> indent (s @ t)" using long [of 1 tab] unfolding indent_def by auto
qed

lemma indented_longer: "indented fresh s \<Longrightarrow> indented fresh (s @ t)"
  using indent_longer by (induction s arbitrary: fresh) (simp_all, metis append_Cons)

lemma indented_behind: "indented False s \<Longrightarrow> indented fresh (u @ s)"
proof (induction u arbitrary: fresh)
  case Nil
  then show ?case by (cases s) auto
qed auto

lemma not_fresh: "s = [] \<or> \<not> js_space (hd s) \<Longrightarrow> indented fresh s \<longleftrightarrow> indented False s"
  by (cases s) (auto simp: indent_def js_space_def tab_def eval_nat_numeral)

lemma indented_trim: "indented True (js_trim s) \<Longrightarrow> indented True s"
proof -
  assume i: "indented True (js_trim s)"
  let ?f = "dropWhile js_space s"
  obtain w where w: "?f = js_trim s @ w"
  proof
    have "rev (dropWhile js_space (rev ?f)) @ rev (takeWhile js_space (rev ?f)) = ?f"
      by (metis rev_append rev_rev_ident takeWhile_dropWhile_id)
    then show "?f = js_trim s @ rev (takeWhile js_space (rev ?f))" by (simp add: js_trim_def js_trim_end_def js_trim_start_def)
  qed
  then have "indented True ?f" using indented_longer [OF i] by simp
  moreover have "?f = [] \<or> \<not> js_space (hd ?f)" using hd_dropWhile by blast
  ultimately have "indented False ?f" using not_fresh by blast
  from indented_behind [OF this, of True "takeWhile js_space s"] show ?thesis by simp
qed

section \<open>Replacing emphasis\<close>

lemma close_mark_line: "close_mark d s = Some (g, rest) \<Longrightarrow> line_feed \<notin> set g"
proof (induction s arbitrary: g)
  case (Cons c s)
  have "js_space line_feed" by (simp add: js_space_def line_feed_def)
  with Cons show ?case by (auto split: if_splits)
qed simp

lemma opened_mark_line: "opened_mark d s = Some (g, rest) \<Longrightarrow> line_feed \<notin> set g"
  using close_mark_line by (auto simp: opened_mark_def split: if_splits)

lemma replace_None: "opened_mark d (c # s) = None \<Longrightarrow> replace_marks d (c # s) = c # replace_marks d s"
  by (subst replace_marks.simps) simp

lemma replace_Some: "opened_mark d s = Some (g, rest) \<Longrightarrow> replace_marks d s = g @ replace_marks d rest"
  by (subst replace_marks.simps) simp

lemma replace_Nil [simp]: "replace_marks d [] = []"
  by (subst replace_marks.simps) (simp add: opened_mark_def)

lemma replace_empty: "replace_marks d s = [] \<longleftrightarrow> s = []"
proof (cases "opened_mark d s")
  case None
  then show ?thesis by (cases s) (simp_all add: replace_None)
next
  case (Some x)
  obtain g rest where x: "x = (g, rest)" by fastforce
  from Some opened_mark_text [of d s g rest] replace_Some [of d s g rest] show ?thesis by (auto simp: x)
qed

text \<open>A space at the front of the result is one of the text.\<close>

lemma replace_space:
  assumes "replace_marks d s = c # t" and "js_space c"
  shows "\<exists>s'. s = c # s' \<and> t = replace_marks d s'"
proof (cases "opened_mark d s")
  case None
  then show ?thesis using assms(1) by (cases s) (simp_all add: replace_None)
next
  case (Some x)
  obtain g rest where x: "x = (g, rest)" by fastforce
  from Some opened_mark_text [of d s g rest] replace_Some [of d s g rest] assms show ?thesis
    by (cases g) (auto simp: x)
qed

lemma replace_start: "s = [] \<or> \<not> js_space (hd s) \<Longrightarrow> replace_marks d s = [] \<or> \<not> js_space (hd (replace_marks d s))"
  using replace_space [of d s "hd (replace_marks d s)" "tl (replace_marks d s)"] by (cases "replace_marks d s") auto

lemma indent_replace: "indent (replace_marks d s) \<Longrightarrow> indent s"
proof -
  have sp: "js_space (CHR 0x20)" "js_space tab" by (simp_all add: js_space_def tab_def)
  have "take n s = replicate n x" if "take n (replace_marks d s) = replicate n x" "js_space x" for n x s
    using that
  proof (induction n arbitrary: s)
    case (Suc n)
    then obtain t where t: "replace_marks d s = x # t" "take n t = replicate n x" by (cases "replace_marks d s") auto
    from replace_space [OF t(1) Suc.prems(2)] obtain s' where "s = x # s'" "t = replace_marks d s'" by blast
    with Suc t show ?case by simp
  qed simp
  from this [of 4 _ "CHR 0x20"] this [of 1 _ tab] sp show "indent (replace_marks d s) \<Longrightarrow> indent s"
    unfolding indent_def by auto
qed

lemma indented_same_line: "line_feed \<notin> set u \<Longrightarrow> indented False (u @ s) \<longleftrightarrow> indented False s"
  by (induction u) auto

lemma indented_replace:
  assumes d: "\<not> js_space d"
  shows "indented fresh (replace_marks d s) \<Longrightarrow> indented fresh s"
proof (induction "length s" arbitrary: s fresh rule: less_induct)
  case less
  show ?case
  proof (cases "opened_mark d s")
    case None
    show ?thesis
    proof (cases s)
      case Nil
      with less.prems show ?thesis by simp
    next
      case (Cons c s')
      have r: "replace_marks d s = c # replace_marks d s'" using None by (simp add: Cons replace_None)
      then consider "fresh" "indent (replace_marks d s)" | "indented (c = line_feed) (replace_marks d s')" using less.prems by auto
      then show ?thesis
      proof cases
        case 1
        then show ?thesis using indent_replace by (simp add: Cons)
      next
        case 2
        with less.hyps [of s'] show ?thesis by (simp add: Cons)
      qed
    qed
  next
    case (Some x)
    obtain g rest where x: "x = (g, rest)" by fastforce
    have whole: "s = [d, d] @ g @ [d, d] @ rest" "g \<noteq> []" "\<not> js_space (hd g)" using opened_mark_text [of d s g rest] Some x by auto
    have g: "line_feed \<notin> set g" using opened_mark_line [of d s g rest] Some x by simp
    have nd: "d \<noteq> line_feed" using d by (auto simp: js_space_def line_feed_def)
    have "indented fresh (g @ replace_marks d rest)" using less.prems replace_Some [of d s g rest] Some x by simp
    then have "indented False (g @ replace_marks d rest)" using not_fresh [of "g @ replace_marks d rest" fresh] whole by simp
    then have "indented False (replace_marks d rest)" using indented_same_line [OF g] by simp
    then have "indented False rest" using less.hyps [of rest] whole by simp
    then have "indented False s" using nd g indented_same_line [of "[d, d] @ g @ [d, d]" rest] by (simp add: whole)
    moreover have "s \<noteq> []" "hd s = d" by (simp_all add: whole)
    ultimately show ?thesis using not_fresh [of s fresh] d by simp
  qed
qed

text \<open>Without marks nothing is replaced.\<close>

lemma found_drop: "found r b (c # s) \<Longrightarrow> r (b, c # s) = [] \<Longrightarrow> found r (c # b) s"
  by simp

lemma no_marks_here: "code_or_mark (b, [CHR 0x2A, CHR 0x2A] @ s) \<noteq> []" "code_or_mark (b, [CHR 0x5F, CHR 0x5F] @ s) \<noteq> []"
  by (simp_all add: code_or_mark_def either_def literal_def followed_def exactly_Cons nothing_def)

lemma replace_plain:
  assumes "d = CHR 0x2A \<or> d = CHR 0x5F"
  shows "\<not> found code_or_mark b s \<Longrightarrow> replace_marks d s = s"
proof (induction s arbitrary: b)
  case (Cons c s)
  have "opened_mark d (c # s) = None"
  proof (rule ccontr)
    assume "opened_mark d (c # s) \<noteq> None"
    then obtain g rest where "opened_mark d (c # s) = Some (g, rest)" by auto
    then have "c # s = [d, d] @ g @ [d, d] @ rest" using opened_mark_text by blast
    then have "code_or_mark (b, c # s) \<noteq> []" using no_marks_here [of b] assms by auto
    with Cons.prems show False by simp
  qed
  moreover have "replace_marks d s = s" by (rule Cons.IH [of "c # b"]) (use Cons.prems in simp)
  ultimately show ?case by (simp add: replace_None)
qed simp

end
