(* ===== verification/Response_Scan.thy ===== *)
theory Response_Scan
  imports Response_Policy
begin

text \<open>
  The scan for complete sentences: where it can stop, how many words stand before the place where the text
  is cut, and that scanning the cut text again stops at its end.
\<close>

section \<open>One stop\<close>

lemma skip_while_le: "i \<le> length t \<Longrightarrow> skip_while P t i \<le> length t"
  using length_takeWhile_le [of P "drop i t"] by (simp add: skip_while_def)

lemma skip_while_all:
  assumes "i \<le> m" and "m < skip_while P t i"
  shows "P (t ! m)"
proof -
  have m: "m - i < length (takeWhile P (drop i t))" using assms by (simp add: skip_while_def)
  have "takeWhile P (drop i t) ! (m - i) = t ! m" using takeWhile_nth [OF m] assms(1) m length_takeWhile_le [of P "drop i t"] by simp
  moreover have "P (takeWhile P (drop i t) ! (m - i))" using set_takeWhileD [OF nth_mem [OF m]] by simp
  ultimately show ?thesis by simp
qed

lemma takeWhile_take: "takeWhile P (take n xs) = take n (takeWhile P xs)"
  by (induction xs arbitrary: n) (auto simp: take_Cons split: nat.splits)

lemma skip_while_take: "i \<le> k \<Longrightarrow> k \<le> length t \<Longrightarrow> skip_while P (take k t) i = min k (skip_while P t i)"
  using skip_while_ge [of i P t] by (auto simp: skip_while_def drop_take takeWhile_take min_def)

definition stop_end :: "string \<Rightarrow> nat \<Rightarrow> nat" where
  "stop_end t i = skip_while CLOSING_PUNCTUATION t (skip_while terminator t i)"

lemma stop_end_bounds: "i < length t \<Longrightarrow> terminator (t ! i) \<Longrightarrow> i < stop_end t i \<and> stop_end t i \<le> length t"
  using skip_while_first [of i t terminator] skip_while_le [of i t terminator]
    skip_while_ge [of "skip_while terminator t i" CLOSING_PUNCTUATION t] skip_while_le [of "skip_while terminator t i" t CLOSING_PUNCTUATION]
  by (simp add: stop_end_def)

lemma stop_end_chars: "i \<le> m \<Longrightarrow> m < stop_end t i \<Longrightarrow> terminator (t ! m) \<or> CLOSING_PUNCTUATION (t ! m)"
  using skip_while_all [of i m terminator t] skip_while_all [of "skip_while terminator t i" m CLOSING_PUNCTUATION t]
  by (auto simp: stop_end_def) (metis not_le)

definition sentence_end :: "string \<Rightarrow> nat \<Rightarrow> bool" where
  "sentence_end t e \<longleftrightarrow> e = length t \<or> (e < length t \<and> js_space (t ! e))"

lemma scan_stop_eq:
  "scan_stop t i st =
    (if stop_end t i < length t \<and> \<not> js_space (t ! stop_end t i) then Continue (st\<lparr>sc_index := stop_end t i\<rparr>)
     else if (skip_while terminator t i = i + 1 \<and> t ! i = CHR ''.'') \<and> stop_end t i < length t \<and> isNonTerminalAbbreviation t (sc_token st) i
     then Continue (st\<lparr>sc_index := stop_end t i\<rparr>)
     else if sc_words st = 0 then Continue (st\<lparr>sc_index := stop_end t i\<rparr>)
     else if sc_sentences st + 1 = MAX_RESPONSE_SENTENCES then Halt (stop_end t i)
     else Continue (st\<lparr>sc_index := stop_end t i, sc_sentences := sc_sentences st + 1, sc_end := stop_end t i\<rparr>))"
  by (simp only: scan_stop_def Let_def stop_end_def)

lemma scan_stop_cases:
  assumes b: "stop_end t i \<le> length t"
  obtains "scan_stop t i st = Continue (st\<lparr>sc_index := stop_end t i\<rparr>)"
    | "sentence_end t (stop_end t i)" "scan_stop t i st = Halt (stop_end t i)"
    | "sentence_end t (stop_end t i)"
      "scan_stop t i st = Continue (st\<lparr>sc_index := stop_end t i, sc_sentences := sc_sentences st + 1, sc_end := stop_end t i\<rparr>)"
proof -
  let ?e = "stop_end t i"
  note e = scan_stop_eq [of t i st]
  show thesis
  proof (cases "?e < length t \<and> \<not> js_space (t ! ?e)")
    case True
    show ?thesis by (rule that(1)) (simp only: e True simp_thms if_True)
  next
    case False
    then have s: "sentence_end t ?e" using b by (auto simp: sentence_end_def)
    show ?thesis
    proof (cases "((skip_while terminator t i = i + 1 \<and> t ! i = CHR ''.'') \<and> ?e < length t \<and> isNonTerminalAbbreviation t (sc_token st) i) \<or> sc_words st = 0")
      case True
      show ?thesis by (rule that(1)) (use True in \<open>simp only: e if_not_P [OF False], auto\<close>)
    next
      case rest: False
      then have "scan_stop t i st = (if sc_sentences st + 1 = MAX_RESPONSE_SENTENCES then Halt ?e
          else Continue (st\<lparr>sc_index := ?e, sc_sentences := sc_sentences st + 1, sc_end := ?e\<rparr>))"
        by (simp only: e if_not_P [OF False]) auto
      then show ?thesis using that(2,3) [OF s] by (cases "sc_sentences st + 1 = MAX_RESPONSE_SENTENCES") simp_all
    qed
  qed
qed

section \<open>Words\<close>

definition joiner :: "char \<Rightarrow> bool" where
  "joiner c \<longleftrightarrow> c = CHR 0x27 \<or> c = CHR 0x2D"

text \<open>A word: letters and digits, joined by single apostrophes and hyphens between them.\<close>

definition continues_word :: "string \<Rightarrow> nat \<Rightarrow> bool" where
  "continues_word t i \<longleftrightarrow> 0 < i \<and> (WORD_CHARACTER (t ! (i - 1)) \<or> (1 < i \<and> joiner (t ! (i - 1)) \<and> WORD_CHARACTER (t ! (i - 2)) \<and>
     i < length t \<and> WORD_CHARACTER (t ! i)))"

definition starts_word :: "string \<Rightarrow> nat \<Rightarrow> bool" where
  "starts_word t i \<longleftrightarrow> i < length t \<and> WORD_CHARACTER (t ! i) \<and> \<not> continues_word t i"

definition words_before :: "string \<Rightarrow> nat \<Rightarrow> nat" where
  "words_before t n = length (filter (starts_word t) [0..<n])"

lemma words_before_Suc: "words_before t (Suc n) = words_before t n + (if starts_word t n then 1 else 0)"
  by (simp add: words_before_def)

lemma words_before_skip: "n \<le> m \<Longrightarrow> (\<And>i. n \<le> i \<Longrightarrow> i < m \<Longrightarrow> \<not> starts_word t i) \<Longrightarrow> words_before t m = words_before t n"
proof (induction m)
  case (Suc m)
  then show ?case by (cases "n = Suc m") (auto simp: words_before_Suc)
qed simp

definition scan_ok :: "string \<Rightarrow> scan_state \<Rightarrow> bool" where
  "scan_ok t st \<longleftrightarrow> sc_index st \<le> length t \<and> sc_words st = words_before t (sc_index st) \<and> sc_words st \<le> MAX_RESPONSE_WORDS \<and>
     (sc_in_word st \<longleftrightarrow> continues_word t (sc_index st)) \<and> sc_token st \<le> sc_index st \<and>
     (sc_end st \<noteq> 0 \<longrightarrow> sentence_end t (sc_end st) \<and> words_before t (sc_end st) \<le> MAX_RESPONSE_WORDS \<and> sc_end st \<le> sc_index st \<and>
        (terminator (t ! (sc_end st - 1)) \<or> CLOSING_PUNCTUATION (t ! (sc_end st - 1))))"

lemma space_char: "js_space c \<Longrightarrow> \<not> WORD_CHARACTER c \<and> \<not> joiner c \<and> \<not> terminator c \<and> \<not> CLOSING_PUNCTUATION c"
  by (auto simp: js_space_def WORD_CHARACTER_def ascii_letter_def ascii_digit_def joiner_def terminator_def CLOSING_PUNCTUATION_def Let_def)

lemma punctuation_char: "terminator c \<or> CLOSING_PUNCTUATION c \<Longrightarrow> \<not> WORD_CHARACTER c" "terminator c \<Longrightarrow> \<not> joiner c"
  by (auto simp: WORD_CHARACTER_def ascii_letter_def ascii_digit_def joiner_def terminator_def CLOSING_PUNCTUATION_def Let_def)

lemma scan_ok_next:
  assumes "scan_ok t st" and "sc_index st < length t"
    and "sc_words st' = sc_words st + (if starts_word t (sc_index st) then 1 else 0)" and "sc_words st' \<le> MAX_RESPONSE_WORDS"
    and "sc_index st' = sc_index st + 1" and "sc_in_word st' \<longleftrightarrow> continues_word t (sc_index st + 1)"
    and "sc_token st' \<le> sc_index st + 1" and "sc_end st' = sc_end st"
  shows "scan_ok t st'"
  using assms by (auto simp: scan_ok_def words_before_Suc)

lemma scan_stop_ok:
  assumes ok: "scan_ok t st" and i: "sc_index st < length t" and p: "terminator (t ! sc_index st)"
    and e: "e = stop_end t (sc_index st)"
  shows "words_before t e = sc_words st" "\<not> continues_word t e" "terminator (t ! (e - 1)) \<or> CLOSING_PUNCTUATION (t ! (e - 1))"
proof -
  let ?i = "sc_index st"
  have b: "?i < e" "e \<le> length t" using stop_end_bounds [OF i p] by (simp_all add: e)
  have chars: "terminator (t ! m) \<or> CLOSING_PUNCTUATION (t ! m)" if "?i \<le> m" "m < e" for m
    using stop_end_chars [OF that(1)] that(2) by (simp add: e)
  then have no: "\<not> starts_word t m" if "?i \<le> m" "m < e" for m using punctuation_char(1) that by (auto simp: starts_word_def)
  show "words_before t e = sc_words st" using words_before_skip [of ?i e t] no b ok by (simp add: scan_ok_def)
  show "terminator (t ! (e - 1)) \<or> CLOSING_PUNCTUATION (t ! (e - 1))" using chars [of "e - 1"] b by simp
  then have "\<not> WORD_CHARACTER (t ! (e - 1))" by (rule punctuation_char(1))
  moreover have "\<not> (joiner (t ! (e - 1)) \<and> WORD_CHARACTER (t ! (e - 2)))"
  proof (cases "e = Suc ?i")
    case True
    then show ?thesis using p punctuation_char(2) by simp
  next
    case False
    then have "\<not> WORD_CHARACTER (t ! (e - 2))" using chars [of "e - 2"] b punctuation_char(1) by simp
    then show ?thesis by simp
  qed
  ultimately show "\<not> continues_word t e" unfolding continues_word_def by blast
qed

section \<open>The scan\<close>

text \<open>What a place where the scan ends promises.\<close>

definition answer_end :: "string \<Rightarrow> nat \<Rightarrow> bool" where
  "answer_end t e \<longleftrightarrow> e = 0 \<or> (sentence_end t e \<and> words_before t e \<le> MAX_RESPONSE_WORDS \<and>
     (terminator (t ! (e - 1)) \<or> CLOSING_PUNCTUATION (t ! (e - 1))))"

lemma scan_ok_end: "scan_ok t st \<Longrightarrow> answer_end t (sc_end st)"
  by (auto simp: scan_ok_def answer_end_def)

definition step_ok :: "string \<Rightarrow> scan_result \<Rightarrow> bool" where
  "step_ok t R = (case R of Halt e \<Rightarrow> answer_end t e | Continue st \<Rightarrow> scan_ok t st)"

lemma stopped_scan_ok:
  assumes ok: "scan_ok t st" and i: "sc_index st < length t" and p: "terminator (t ! sc_index st)"
  shows "step_ok t (scan_stop t (sc_index st) (st\<lparr>sc_in_word := False\<rparr>))"
proof -
  let ?e = "stop_end t (sc_index st)"
  note w = scan_stop_ok [OF ok i p refl] and b = stop_end_bounds [OF i p]
  have later: "sc_end st \<le> ?e" using ok b by (auto simp: scan_ok_def)
  have l: "?e \<le> length t" using b by simp
  show ?thesis
  proof (rule scan_stop_cases [OF l, of "st\<lparr>sc_in_word := False\<rparr>"], goal_cases)
    case 1
    then show ?case using ok w b later by (simp add: step_ok_def scan_ok_def)
  next
    case 2
    then show ?case using ok w b later by (simp add: step_ok_def answer_end_def scan_ok_def)
  next
    case 3
    then show ?case using ok w b later by (simp add: step_ok_def scan_ok_def)
  qed
qed

lemma scan_step_ok:
  assumes ok: "scan_ok t st" and i: "sc_index st < length t"
  shows "step_ok t (scan_step t st)"
proof -
  let ?i = "sc_index st" and ?c = "t ! sc_index st"
  have inw: "sc_in_word st \<longleftrightarrow> continues_word t ?i" and token: "sc_token st \<le> ?i" and words: "sc_words st \<le> MAX_RESPONSE_WORDS"
    using ok by (simp_all add: scan_ok_def)
  have go: "step_ok t (Continue st')" if "scan_ok t st'" for st' using that by (simp add: step_ok_def)
  consider "js_space ?c" | "\<not> js_space ?c" "WORD_CHARACTER ?c" | "\<not> js_space ?c" "\<not> WORD_CHARACTER ?c" "joiner ?c \<and> sc_in_word st \<and> ?i + 1 < length t \<and> WORD_CHARACTER (t ! (?i + 1))"
    | "\<not> js_space ?c" "\<not> WORD_CHARACTER ?c" "\<not> (joiner ?c \<and> sc_in_word st \<and> ?i + 1 < length t \<and> WORD_CHARACTER (t ! (?i + 1)))" "\<not> terminator ?c"
    | "\<not> js_space ?c" "\<not> WORD_CHARACTER ?c" "\<not> (joiner ?c \<and> sc_in_word st \<and> ?i + 1 < length t \<and> WORD_CHARACTER (t ! (?i + 1)))" "terminator ?c"
    by blast
  then show ?thesis
  proof cases
    case 1
    then have e: "scan_step t st = Continue (st\<lparr>sc_in_word := False, sc_token := ?i + 1, sc_index := ?i + 1\<rparr>)" by (simp add: scan_step_def Let_def)
    show ?thesis unfolding e
      by (rule go, rule scan_ok_next [OF ok i]) (use space_char [OF 1] words in \<open>simp_all add: starts_word_def continues_word_def\<close>)
  next
    case 2
    show ?thesis
    proof (cases "sc_in_word st")
      case True
      then have e: "scan_step t st = Continue (st\<lparr>sc_index := ?i + 1\<rparr>)" using 2 by (simp add: scan_step_def Let_def)
      show ?thesis unfolding e
        by (rule go, rule scan_ok_next [OF ok i]) (use True 2 inw token words in \<open>simp_all add: starts_word_def continues_word_def [of t "Suc ?i"]\<close>)
    next
      case False
      show ?thesis
      proof (cases "sc_words st + 1 > MAX_RESPONSE_WORDS")
        case True
        then have e: "scan_step t st = Halt (sc_end st)" using 2 False by (simp add: scan_step_def Let_def)
        show ?thesis unfolding e using scan_ok_end [OF ok] by (simp add: step_ok_def)
      next
        case few: False
        then have e: "scan_step t st = Continue (st\<lparr>sc_words := sc_words st + 1, sc_in_word := True, sc_index := ?i + 1\<rparr>)"
          using 2 False by (simp add: scan_step_def Let_def)
        show ?thesis unfolding e
          by (rule go, rule scan_ok_next [OF ok i]) (use False 2 few inw token i in \<open>simp_all add: starts_word_def continues_word_def [of t "Suc ?i"]\<close>)
      qed
    qed
  next
    case 3
    then have e: "scan_step t st = Continue (st\<lparr>sc_index := ?i + 1\<rparr>)" by (simp add: scan_step_def joiner_def Let_def)
    have "0 < ?i \<and> WORD_CHARACTER (t ! (?i - 1))" using 3 inw by (auto simp: continues_word_def)
    then have "continues_word t (?i + 1)" using 3 by (simp add: continues_word_def)
    then show ?thesis unfolding e
      by (intro go scan_ok_next [OF ok i]) (use 3 token words in \<open>simp_all add: starts_word_def\<close>)
  next
    case 4
    then have e: "scan_step t st = Continue (st\<lparr>sc_in_word := False, sc_index := ?i + 1\<rparr>)" by (auto simp: scan_step_def joiner_def Let_def)
    have "\<not> continues_word t (?i + 1)" using 4 inw by (auto simp: continues_word_def)
    then show ?thesis unfolding e
      by (intro go scan_ok_next [OF ok i]) (use 4 token words in \<open>simp_all add: starts_word_def\<close>)
  next
    case 5
    then have e: "scan_step t st = scan_stop t ?i (st\<lparr>sc_in_word := False\<rparr>)"
      using punctuation_char(2) [of ?c] by (auto simp: scan_step_def joiner_def Let_def)
    show ?thesis unfolding e using stopped_scan_ok [OF ok i] 5 by simp
  qed
qed

lemma scan_answer_end: "scan_ok t st \<Longrightarrow> answer_end t (scan t st)"
proof (induction t st rule: scan.induct)
  case (1 t st)
  show ?case
  proof (cases "sc_index st < length t")
    case True
    note ok = scan_step_ok [OF 1(2) True]
    show ?thesis
    proof (cases "scan_step t st")
      case (Halt e)
      then show ?thesis using ok True by (subst scan.simps) (simp add: step_ok_def)
    next
      case (Continue st')
      then show ?thesis using ok True 1(1) [OF True Continue] by (subst scan.simps) (simp add: step_ok_def)
    qed
  next
    case False
    then show ?thesis using scan_ok_end [OF 1(2)] by (subst scan.simps) simp
  qed
qed

lemma scan_start_ok: "scan_ok t scan_start"
  by (simp add: scan_ok_def scan_start_def words_before_def continues_word_def)

section \<open>Scanning the cut text\<close>

lemma stop_end_take:
  assumes "i < k" and "k \<le> length t" and "stop_end t i \<le> k"
  shows "stop_end (take k t) i = stop_end t i" "skip_while terminator (take k t) i = skip_while terminator t i"
proof -
  have "skip_while terminator t i \<le> k" using assms(3) skip_while_ge [of "skip_while terminator t i" CLOSING_PUNCTUATION t] by (simp add: stop_end_def)
  then show s: "skip_while terminator (take k t) i = skip_while terminator t i" using skip_while_take [of i k t terminator] assms by simp
  show "stop_end (take k t) i = stop_end t i"
    using skip_while_take [of "skip_while terminator t i" k t CLOSING_PUNCTUATION] \<open>skip_while terminator t i \<le> k\<close> assms(2,3)
    by (simp add: stop_end_def s)
qed

lemma region_take:
  assumes "e \<le> k" and "k \<le> length t"
  shows "regionEqualsIgnoreCase (take k t) s e x = regionEqualsIgnoreCase t s e x"
proof (cases "e - s = length x")
  case True
  then have b: "s + i < k" if "i < length x" for i using that assms(1) by simp
  have "(s + i < length (take k t) \<and> lower_char (take k t ! (s + i)) = x ! i) = (s + i < length t \<and> lower_char (t ! (s + i)) = x ! i)"
    if "i < length x" for i using b [OF that] assms(2) by auto
  then show ?thesis unfolding regionEqualsIgnoreCase_def list_all_iff by auto
qed (simp add: regionEqualsIgnoreCase_def)

lemma abbreviation_take:
  assumes "i < k" and "k \<le> length t"
  shows "isNonTerminalAbbreviation (take k t) s i = isNonTerminalAbbreviation t s i"
proof -
  have r: "regionEqualsIgnoreCase (take k t) s (i + 1) = regionEqualsIgnoreCase t s (i + 1)"
    using region_take [of "i + 1" k t s] assms by auto
  have one: "(i + 1 - s = 2 \<and> s < length (take k t) \<and> ascii_letter (take k t ! s)) = (i + 1 - s = 2 \<and> s < length t \<and> ascii_letter (t ! s))"
    using assms by auto
  have pairs: "list_all (\<lambda>m. s + 2 * m < length (take k t) \<and> ascii_letter (take k t ! (s + 2 * m)) \<and> s + 2 * m + 1 < length (take k t) \<and>
        take k t ! (s + 2 * m + 1) = CHR ''.'') [0..<(i + 1 - s) div 2] =
      list_all (\<lambda>m. s + 2 * m < length t \<and> ascii_letter (t ! (s + 2 * m)) \<and> s + 2 * m + 1 < length t \<and>
        t ! (s + 2 * m + 1) = CHR ''.'') [0..<(i + 1 - s) div 2]"
  proof (rule list.pred_cong [OF refl])
    fix m assume "m \<in> set [0..<(i + 1 - s) div 2]"
    then have "s + 2 * m + 1 < k" using assms(1) by simp
    then show "(s + 2 * m < length (take k t) \<and> ascii_letter (take k t ! (s + 2 * m)) \<and> s + 2 * m + 1 < length (take k t) \<and>
        take k t ! (s + 2 * m + 1) = CHR ''.'') = (s + 2 * m < length t \<and> ascii_letter (t ! (s + 2 * m)) \<and> s + 2 * m + 1 < length t \<and>
        t ! (s + 2 * m + 1) = CHR ''.'')" using assms(2) by simp
  qed
  show ?thesis unfolding isNonTerminalAbbreviation_def Let_def r one pairs ..
qed

text \<open>A result that the rest of the scan can still turn into an end at \<open>k\<close>.\<close>

definition step_reaches :: "nat \<Rightarrow> scan_result \<Rightarrow> bool" where
  "step_reaches k R = (case R of Halt e \<Rightarrow> e = k | Continue st \<Rightarrow> sc_index st \<le> k \<and> (sc_index st = k \<longrightarrow> sc_end st = k))"

lemma scan_stop_take:
  assumes i: "i < k" and k: "k \<le> length t" and p: "terminator (t ! i)" and before: "sc_end st < k"
    and reaches: "step_reaches k (scan_stop t i st)"
  shows "scan_stop (take k t) i st = scan_stop t i st"
proof -
  let ?e = "stop_end t i"
  have "i < length t" using i k by simp
  then have b: "?e \<le> length t" using stop_end_bounds p by blast
  have le: "?e \<le> k"
    by (rule scan_stop_cases [OF b, of st]) (use reaches in \<open>simp_all add: step_reaches_def\<close>)
  note e = stop_end_take [OF i k le]
  show ?thesis
  proof (cases "?e < k")
    case True
    have c: "take k t ! i = t ! i" "take k t ! ?e = t ! ?e" "(?e < length (take k t)) = (?e < length t)" using True i k by simp_all
    show ?thesis unfolding scan_stop_eq e c abbreviation_take [OF i k] ..
  next
    case False
    then have k_end: "?e = k" using le by simp
    have go: "scan_stop t i st \<noteq> Continue (st\<lparr>sc_index := ?e\<rparr>)"
      using reaches before k_end by (auto simp: step_reaches_def)
    have one: "\<not> (?e < length t \<and> \<not> js_space (t ! ?e))" using go by (metis scan_stop_eq)
    have two: "\<not> ((skip_while terminator t i = i + 1 \<and> t ! i = CHR ''.'') \<and> ?e < length t \<and> isNonTerminalAbbreviation t (sc_token st) i)"
      using go one by (metis scan_stop_eq)
    have end1: "\<not> (?e < length (take k t) \<and> \<not> js_space (take k t ! ?e))"
      and end2: "\<not> ((skip_while terminator t i = i + 1 \<and> take k t ! i = CHR ''.'') \<and> ?e < length (take k t) \<and> isNonTerminalAbbreviation (take k t) (sc_token st) i)"
      using k_end by simp_all
    show ?thesis unfolding scan_stop_eq e if_not_P [OF one] if_not_P [OF two] if_not_P [OF end1] if_not_P [OF end2] ..
  qed
qed

text \<open>The step on a character that is, and on one that is not, the punctuation at the end of a sentence.\<close>

definition at_stop :: "char \<Rightarrow> bool" where
  "at_stop c \<longleftrightarrow> \<not> js_space c \<and> \<not> WORD_CHARACTER c \<and> terminator c"

lemma scan_step_stop: "at_stop (t ! sc_index st) \<Longrightarrow> scan_step t st = scan_stop t (sc_index st) (st\<lparr>sc_in_word := False\<rparr>)"
  using punctuation_char(2) [of "t ! sc_index st"] by (auto simp: at_stop_def scan_step_def joiner_def Let_def)

lemma scan_step_plain:
  "\<not> at_stop (t ! sc_index st) \<Longrightarrow> scan_step t st =
    (if js_space (t ! sc_index st) then Continue (st\<lparr>sc_in_word := False, sc_token := sc_index st + 1, sc_index := sc_index st + 1\<rparr>)
     else if WORD_CHARACTER (t ! sc_index st) then
       (if sc_in_word st then Continue (st\<lparr>sc_index := sc_index st + 1\<rparr>)
        else if sc_words st + 1 > MAX_RESPONSE_WORDS then Halt (sc_end st)
        else Continue (st\<lparr>sc_words := sc_words st + 1, sc_in_word := True, sc_index := sc_index st + 1\<rparr>))
     else if joiner (t ! sc_index st) \<and> sc_in_word st \<and> sc_index st + 1 < length t \<and> WORD_CHARACTER (t ! (sc_index st + 1))
     then Continue (st\<lparr>sc_index := sc_index st + 1\<rparr>)
     else Continue (st\<lparr>sc_in_word := False, sc_index := sc_index st + 1\<rparr>))"
  by (cases "js_space (t ! sc_index st)"; cases "WORD_CHARACTER (t ! sc_index st)"; auto simp: at_stop_def scan_step_def joiner_def Let_def)

lemma plain_end: "\<not> at_stop (t ! sc_index st) \<Longrightarrow> (\<exists>st'. scan_step t st = Continue st' \<and> sc_index st' = sc_index st + 1 \<and> sc_end st' = sc_end st) \<or>
    scan_step t st = Halt (sc_end st)"
  unfolding scan_step_plain by simp

lemma scan_step_take:
  assumes i: "sc_index st < k" and k: "k \<le> length t" and before: "sc_end st < k" and reaches: "step_reaches k (scan_step t st)"
  shows "scan_step (take k t) st = scan_step t st"
proof -
  let ?i = "sc_index st"
  have c: "take k t ! ?i = t ! ?i" using i by simp
  show ?thesis
  proof (cases "at_stop (t ! ?i)")
    case True
    have e: "sc_end (st\<lparr>sc_in_word := False\<rparr>) < k" using before by simp
    have stop: "scan_step (take k t) st = scan_stop (take k t) ?i (st\<lparr>sc_in_word := False\<rparr>)" using scan_step_stop [of "take k t" st] True c by simp
    show ?thesis
      using scan_stop_take [OF i k _ e] True reaches unfolding stop scan_step_stop [OF True] by (simp add: at_stop_def)
  next
    case False
    have plain: "\<not> at_stop (take k t ! ?i)" using False c by simp
    have "?i + 1 < k"
      using plain_end [OF False] reaches before i by (auto simp: step_reaches_def)
    then have l: "take k t ! (?i + 1) = t ! (?i + 1)" "(?i + 1 < length (take k t)) = (?i + 1 < length t)" using k by simp_all
    show ?thesis unfolding scan_step_plain [OF plain] scan_step_plain [OF False] c l ..
  qed
qed

lemma stop_later:
  assumes "i < length t" and "terminator (t ! i)" and "sc_end st \<le> i"
  shows "(scan_stop t i st = Halt h \<longrightarrow> i < h) \<and> (scan_stop t i st = Continue st' \<longrightarrow> sc_end st' = sc_end st \<or> sc_end st' = sc_index st') \<and>
    (scan_stop t i st = Continue st' \<longrightarrow> sc_end st' \<le> sc_index st')"
proof -
  have b: "i < stop_end t i" "stop_end t i \<le> length t" using stop_end_bounds [OF assms(1,2)] by simp_all
  show ?thesis by (rule scan_stop_cases [OF b(2), of st]) (use assms(3) b in auto)
qed

lemma step_later:
  assumes i: "sc_index st < length t" and e: "sc_end st \<le> sc_index st"
  shows "scan_step t st = Halt h \<Longrightarrow> h = sc_end st \<or> sc_index st < h"
    and "scan_step t st = Continue st' \<Longrightarrow> sc_end st' = sc_end st \<or> sc_end st' = sc_index st'"
    and "scan_step t st = Continue st' \<Longrightarrow> sc_end st' \<le> sc_index st'"
proof -
  let ?i = "sc_index st"
  have all: "(scan_step t st = Halt h \<longrightarrow> h = sc_end st \<or> ?i < h) \<and> (scan_step t st = Continue st' \<longrightarrow> sc_end st' = sc_end st \<or> sc_end st' = sc_index st') \<and>
      (scan_step t st = Continue st' \<longrightarrow> sc_end st' \<le> sc_index st')"
  proof (cases "at_stop (t ! ?i)")
    case True
    then show ?thesis
      using stop_later [OF i, of "st\<lparr>sc_in_word := False\<rparr>" h st'] e unfolding scan_step_stop [OF True] by (auto simp: at_stop_def)
  next
    case False
    then show ?thesis using plain_end [OF False] e by auto
  qed
  show "scan_step t st = Halt h \<Longrightarrow> h = sc_end st \<or> sc_index st < h" using all by blast
  show "scan_step t st = Continue st' \<Longrightarrow> sc_end st' = sc_end st \<or> sc_end st' = sc_index st'" using all by blast
  show "scan_step t st = Continue st' \<Longrightarrow> sc_end st' \<le> sc_index st'" using all by blast
qed

lemma scan_later: "sc_end st \<le> sc_index st \<Longrightarrow> scan t st = sc_end st \<or> sc_index st < scan t st"
proof (induction t st rule: scan.induct)
  case (1 t st)
  show ?case
  proof (cases "sc_index st < length t")
    case True
    show ?thesis
    proof (cases "scan_step t st")
      case (Halt h)
      then show ?thesis using step_later(1) [OF True 1(2) Halt] True by (subst (1 2) scan.simps) simp
    next
      case (Continue st')
      have "scan t st = scan t st'" using True Continue by (subst scan.simps) simp
      then show ?thesis
        using 1(1) [OF True Continue step_later(3) [OF True 1(2) Continue]] step_later(2) [OF True 1(2) Continue]
          scan_step_index [OF True Continue] by auto
    qed
  next
    case False
    then show ?thesis by (subst (1 2) scan.simps) simp
  qed
qed

theorem scan_rerun:
  "scan t st = k \<Longrightarrow> k \<le> length t \<Longrightarrow> sc_index st \<le> k \<Longrightarrow> sc_end st \<le> sc_index st \<Longrightarrow> scan (take k t) st = k"
proof (induction t st rule: scan.induct)
  case (1 t st)
  note k = 1(2-5)
  have l: "length (take k t) = k" using k(2) by simp
  show ?case
  proof (cases "sc_index st = k")
    case True
    then have "sc_end st = k" using scan_later [OF k(4), of t] k(1) by simp
    then show ?thesis using True l by (subst scan.simps) simp
  next
    case False
    then have i: "sc_index st < k" using k(3) by simp
    then have it: "sc_index st < length t" using k(2) by simp
    have before: "sc_end st < k" using k(4) i by simp
    show ?thesis
    proof (cases "scan_step t st")
      case (Halt h)
      then have "h = k" using k(1) it by (subst (asm) scan.simps) simp
      moreover from this have "scan_step (take k t) st = Halt h" using scan_step_take [OF i k(2) before] Halt by (simp add: step_reaches_def)
      ultimately show ?thesis using i l by (subst scan.simps) simp
    next
      case (Continue st')
      have s: "scan t st' = k" using k(1) it Continue by (subst (asm) scan.simps) simp
      note after = step_later(2,3) [OF it k(4) Continue]
      have "sc_end st' = k \<or> sc_index st' < k" using scan_later [OF after(2), of t] s by auto
      then have le: "sc_index st' \<le> k" "sc_index st' = k \<longrightarrow> sc_end st' = k" using after before by auto
      then have "scan_step (take k t) st = Continue st'" using scan_step_take [OF i k(2) before] Continue by (simp add: step_reaches_def)
      then show ?thesis using 1(1) [OF it Continue s k(2) le(1) after(2)] i l by (subst scan.simps) simp
    qed
  qed
qed

end
