(* ===== verification/Response_Claims.thy ===== *)
theory Response_Claims
  imports Response_Text Response_Scan
begin

text \<open>
  What the policy accepts: a trimmed text without markup, of at most 160 words, that ends with a complete
  sentence, and that the policy accepts again as it stands.
\<close>

section \<open>The accepted text\<close>

lemma trim_starts: "js_trim s = [] \<or> \<not> js_space (hd (js_trim s))"
proof (cases "js_trim s")
  case (Cons c u)
  obtain w where w: "dropWhile js_space s = js_trim s @ w"
  proof -
    have "rev (dropWhile js_space s) = takeWhile js_space (rev (dropWhile js_space s)) @ dropWhile js_space (rev (dropWhile js_space s))" by simp
    then have "rev (rev (dropWhile js_space s)) = js_trim s @ rev (takeWhile js_space (rev (dropWhile js_space s)))"
      unfolding js_trim_def js_trim_end_def js_trim_start_def by (metis rev_append)
    then show ?thesis using that by simp
  qed
  then have "dropWhile js_space s \<noteq> []" "hd (dropWhile js_space s) = c" by (simp_all add: Cons)
  then show ?thesis using hd_dropWhile [of js_space s] by (simp add: Cons)
qed simp

lemma trim_trimmed: "t \<noteq> [] \<Longrightarrow> \<not> js_space (hd t) \<Longrightarrow> \<not> js_space (last t) \<Longrightarrow> js_trim t = t"
proof -
  assume t: "t \<noteq> []" "\<not> js_space (hd t)" "\<not> js_space (last t)"
  have start: "dropWhile js_space t = t" using t(1,2) by (cases t) simp_all
  have "dropWhile js_space (rev t) = rev t" using t(1,3) by (cases "rev t") (auto simp: hd_rev [symmetric])
  then show "js_trim t = t" by (simp add: js_trim_def js_trim_end_def js_trim_start_def start)
qed

definition normal_text :: "string \<Rightarrow> string" where
  "normal_text s = replace_marks (CHR 0x5F) (replace_marks (CHR 0x2A) (js_trim s))"

lemma normalized_text:
  "normalizedPlainText s = (if has_markup (normal_text s) \<or> occurs indented_code s then Inl invalid_response else Inr (normal_text s))"
  by (simp add: normalizedPlainText_def normal_text_def Let_def)

lemma normal_text_starts: "normal_text s = [] \<or> \<not> js_space (hd (normal_text s))"
  unfolding normal_text_def by (intro replace_start trim_starts)

lemma normal_text_indented: "indented True (normal_text s) \<Longrightarrow> occurs indented_code s"
proof -
  have d: "\<not> js_space (CHR 0x5F)" "\<not> js_space (CHR 0x2A)" by (simp_all add: js_space_def)
  assume "indented True (normal_text s)"
  then have "indented True (js_trim s)"
    unfolding normal_text_def by (rule indented_replace [OF d(2) indented_replace [OF d(1)]])
  then show "occurs indented_code s" unfolding occurs_indented by (rule indented_trim)
qed

lemma normal_text_plain: "js_trim t = t \<Longrightarrow> \<not> has_markup t \<Longrightarrow> normal_text t = t"
proof -
  assume t: "js_trim t = t" "\<not> has_markup t"
  then have "\<not> found code_or_mark [] t" by (simp add: has_markup_def occurs_def)
  then show "normal_text t = t" using t(1) replace_plain by (simp add: normal_text_def)
qed

lemma end_char: "terminator c \<or> CLOSING_PUNCTUATION c \<Longrightarrow> \<not> js_space c \<and> c \<notin> mark_chars"
  by (auto simp: terminator_def CLOSING_PUNCTUATION_def js_space_def mark_chars_def tab_def)

lemma starts_word_take: "i < k \<Longrightarrow> k \<le> length t \<Longrightarrow> starts_word (take k t) i = starts_word t i"
  by (auto simp: starts_word_def continues_word_def)

lemma words_take: "k \<le> length t \<Longrightarrow> words_before (take k t) k = words_before t k"
  unfolding words_before_def using starts_word_take [of _ k t] by (intro arg_cong [where f = length] filter_cong) auto

text \<open>The accepted text is the part of the normal text before the place where the scan ends.\<close>

lemma accepted_text:
  assumes "boundedCompleteResponse content = Inr t"
  obtains n e where "n = normal_text content" "\<not> has_markup n" "\<not> occurs indented_code content" "n \<noteq> []"
    "e = scan n scan_start" "e \<noteq> 0" "e \<le> length n" "t = take e n" "t \<noteq> []" "last t = n ! (e - 1)" "js_trim t = t"
    "terminator (last t) \<or> CLOSING_PUNCTUATION (last t)" "words_before t (length t) \<le> MAX_RESPONSE_WORDS"
proof -
  define n where "n = normal_text content"
  define e where "e = scan n scan_start"
  have ok: "\<not> has_markup n" "\<not> occurs indented_code content"
    using assms by (auto simp: boundedCompleteResponse_def normalized_text n_def bindE_def split: if_splits)
  then have r: "boundedCompleteResponse content = (if n = [] then Inl invalid_response
      else if e = 0 then Inl invalid_response else Inr (js_trim (take e n)))"
    by (simp add: boundedCompleteResponse_def normalized_text n_def e_def bindE_def Let_def)
  then have n0: "n \<noteq> []" and e0: "e \<noteq> 0" and t: "t = js_trim (take e n)" using assms by (auto split: if_splits)
  have good: "sentence_end n e" "words_before n e \<le> MAX_RESPONSE_WORDS" "terminator (n ! (e - 1)) \<or> CLOSING_PUNCTUATION (n ! (e - 1))"
    using scan_answer_end [OF scan_start_ok [of n]] e0 by (auto simp: answer_end_def e_def)
  have le: "e \<le> length n" using good(1) by (auto simp: sentence_end_def)
  have last: "last (take e n) = n ! (e - 1)" using e0 le n0 by (simp add: last_conv_nth)
  have "hd (take e n) = hd n" using e0 n0 by (cases n; cases e) simp_all
  then have trimmed: "js_trim (take e n) = take e n"
    using trim_trimmed [of "take e n"] e0 n0 end_char [OF good(3)] last normal_text_starts [of content] by (simp add: n_def)
  have w: "words_before (take e n) (length (take e n)) \<le> MAX_RESPONSE_WORDS" using good(2) words_take [OF le] le by simp
  show thesis
    by (rule that [of n e]) (use n_def ok n0 e_def e0 le t trimmed last good(3) w in simp_all)
qed

lemma accepted_plain:
  assumes "boundedCompleteResponse content = Inr t"
  shows "\<not> has_markup t \<and> \<not> occurs indented_code t"
proof (rule accepted_text [OF assms], goal_cases)
  case (1 n e)
  have whole: "n = t @ drop e n" using 1(8) by simp
  have "last t \<notin> mark_chars" using end_char 1(12) by blast
  then have "\<not> has_markup t" using markup_in_front [of t "drop e n"] whole 1(2) by auto
  moreover have "\<not> indented True t"
    using indented_longer [of True t "drop e n"] whole normal_text_indented [of content] 1(1,3) by auto
  ultimately show ?case by (simp add: occurs_indented)
qed

section \<open>Properties\<close>

text \<open>
  C17: Whatever a model wrote, a text that the policy accepts is not empty, has no white space at its ends, contains
  no markup and no indented code, has at most 160 words and ends with the punctuation of a sentence.
\<close>

theorem accepted_answer:
  assumes "boundedCompleteResponse content = Inr t"
  shows "t \<noteq> [] \<and> js_trim t = t \<and> \<not> has_markup t \<and> \<not> occurs indented_code t \<and> words_before t (length t) \<le> MAX_RESPONSE_WORDS \<and>
    (terminator (last t) \<or> CLOSING_PUNCTUATION (last t))"
proof (rule accepted_text [OF assms], goal_cases)
  case (1 n e)
  then show ?case using accepted_plain [OF assms] by simp
qed

definition example_answer :: string where
  "example_answer = '' Hello **there**. I am well, Dr. Who! And then''"

lemma example_accepted: "boundedCompleteResponse example_answer = Inr ''Hello there. I am well, Dr. Who!''"
  by code_simp

lemma accepted_answer_witness: "\<not> has_markup ''Hello there. I am well, Dr. Who!'' \<and> \<not> occurs indented_code ''Hello there. I am well, Dr. Who!''"
  using accepted_answer [OF example_accepted] by blast

text \<open>
  C18: The policy is stable: a text it accepted is accepted again and comes back unchanged.
\<close>

theorem accepted_again:
  assumes "boundedCompleteResponse content = Inr t"
  shows "boundedCompleteResponse t = Inr t"
proof (rule accepted_text [OF assms], goal_cases)
  case (1 n e)
  have plain: "\<not> has_markup t" "\<not> occurs indented_code t" using accepted_plain [OF assms] by simp_all
  have same: "normal_text t = t" by (rule normal_text_plain [OF 1(11) plain(1)])
  have len: "length t = e" using 1(7,8) by simp
  have "scan t scan_start = e"
    using scan_rerun [of n scan_start e] 1(5,7,8) by (simp add: scan_start_def)
  then show ?case
    using plain 1(6,9,11) len by (simp add: boundedCompleteResponse_def normalized_text same bindE_def Let_def)
qed

lemma accepted_again_witness: "boundedCompleteResponse ''Hello there. I am well, Dr. Who!'' = Inr ''Hello there. I am well, Dr. Who!''"
  by (rule accepted_again [OF example_accepted])

text \<open>
  A local model's answer is taken exactly when its body was read to the end without a failure, has at most 64 KiB,
  was declared (if at all) with a number of at most 64 KiB, is JSON text, and holds a content of at most
  16 KiB that the policy accepts; every other answer ends with one fixed error.
\<close>

lemma read_body_whole: "length got \<le> MAX_RESPONSE_BODY_BYTES \<Longrightarrow>
    read_body got body = Some bs \<longleftrightarrow> None \<notin> set body \<and> bs = got @ concat (map the body) \<and> length bs \<le> MAX_RESPONSE_BODY_BYTES"
  by (induction got body rule: read_body.induct) auto

lemma decoded_json: "decodeBoundedJson decode bs MAX_RESPONSE_BODY_BYTES = Inr v \<longleftrightarrow>
    length bs \<le> MAX_RESPONSE_BODY_BYTES \<and> Option.bind (decode bs) json_parse = Some v"
  by (auto simp: decodeBoundedJson_def MAX_RESPONSE_BODY_BYTES_def split: option.splits)

lemma read_response: "readBoundedJsonResponse decode declared body message = Inr v \<longleftrightarrow>
    declared_ok declared \<and> (\<exists>chunks. body = Some chunks \<and> None \<notin> set chunks \<and> length (concat (map the chunks)) \<le> MAX_RESPONSE_BODY_BYTES \<and>
      Option.bind (decode (concat (map the chunks))) json_parse = Some v)"
proof -
  have r: "(case x of Inl _ \<Rightarrow> Inl e | Inr v \<Rightarrow> Inr v) = Inr w \<longleftrightarrow> x = Inr w" for x :: "js_error + jval" and e :: js_error and w
    by (cases x) auto
  show ?thesis
    using read_body_whole [of "[]"]
    by (cases body) (auto simp: readBoundedJsonResponse_def r decoded_json split: option.splits)
qed

lemma extracted_text: "extractOpenAICompatibleText v message = Inr t \<longleftrightarrow>
    (\<exists>content. response_content v = Some content \<and> boundedCompleteResponse content = Inr t)"
proof (cases "response_content v")
  case (Some content)
  then show ?thesis by (cases "boundedCompleteResponse content") (simp_all add: extractOpenAICompatibleText_def)
qed (simp add: extractOpenAICompatibleText_def)

lemma content_small: "response_content v = Some content \<Longrightarrow> utf8_length content \<le> MAX_RESPONSE_CONTENT_BYTES"
  by (auto simp: response_content_def split: jval.splits list.splits if_splits)

theorem local_answer_taken:
  "(local_answer decode declared body = Inr t \<longleftrightarrow>
      declared_ok declared \<and>
      (\<exists>chunks v content. body = Some chunks \<and> None \<notin> set chunks \<and> length (concat (map the chunks)) \<le> MAX_RESPONSE_BODY_BYTES \<and>
         Option.bind (decode (concat (map the chunks))) json_parse = Some v \<and> response_content v = Some content \<and>
         utf8_length content \<le> MAX_RESPONSE_CONTENT_BYTES \<and> boundedCompleteResponse content = Inr t)) \<and>
   (local_answer decode declared body = Inl (PlainError ''LM Studio response was invalid'') \<or> (\<exists>t. local_answer decode declared body = Inr t))"
proof (rule conjI)
  show "local_answer decode declared body = Inr t \<longleftrightarrow>
      declared_ok declared \<and>
      (\<exists>chunks v content. body = Some chunks \<and> None \<notin> set chunks \<and> length (concat (map the chunks)) \<le> MAX_RESPONSE_BODY_BYTES \<and>
         Option.bind (decode (concat (map the chunks))) json_parse = Some v \<and> response_content v = Some content \<and>
         utf8_length content \<le> MAX_RESPONSE_CONTENT_BYTES \<and> boundedCompleteResponse content = Inr t)"
    unfolding local_answer_def bindE_eq_Inr read_response extracted_text using content_small by blast
  show "local_answer decode declared body = Inl (PlainError ''LM Studio response was invalid'') \<or> (\<exists>t. local_answer decode declared body = Inr t)"
    by (auto simp: local_answer_def readBoundedJsonResponse_def extractOpenAICompatibleText_def bindE_def split: option.splits sum.splits)
qed

end
