(* ===== verification/Transport_Claims.thy ===== *)
theory Transport_Claims
  imports Secure_Transport Response_Claims
begin

text \<open>
  The adapter and the transport together: what a successful answer stands for, which of the adapter's requests the
  transport sends, and the bounds and the fairness of its semaphore.
\<close>

section \<open>The semaphore\<close>

text \<open>
  In every run of the semaphore at most as many requests are in flight as its limit and at most 64
  wait, no request is both or twice, and none waits while there is room.
\<close>

theorem semaphore_bounds:
  assumes "sem_run limit sem_start es s"
  shows "length (sem_leases s) \<le> limit \<and> sem_active s = length (sem_leases s) \<and> length (sem_queue s) \<le> MAX_QUEUED_REQUESTS \<and>
    distinct (sem_queue s @ sem_leases s) \<and> (sem_queue s \<noteq> [] \<longrightarrow> sem_active s = limit)"
  using sem_run_ok [OF assms sem_start_ok] by (auto simp: sem_ok_def)

definition example_events :: "sem_event list" where
  "example_events = [Acquire 1 False, Acquire 2 False, Acquire 3 False, Release 1]"

lemma sem_example_run: "sem_run 1 sem_start example_events \<lparr>sem_active = 1, sem_queue = [3], sem_leases = [2]\<rparr>"
  unfolding example_events_def
  by ((rule sem_run.more, simp add: sem_start_def sem_known_def sem_acquire_def sem_grant_def sem_release_def MAX_QUEUED_REQUESTS_def)+,
      simp add: sem_start_def sem_acquire_def sem_grant_def sem_release_def MAX_QUEUED_REQUESTS_def sem_run.none)

lemma semaphore_bounds_witness: "length [2 :: nat] \<le> 1 \<and> distinct ([3] @ [2 :: nat])"
  using semaphore_bounds [OF sem_example_run] by simp

lemma remove1_position: "p < length xs \<Longrightarrow> j \<noteq> xs ! p \<Longrightarrow> \<exists>q \<le> p. q < length (remove1 j xs) \<and> remove1 j xs ! q = xs ! p"
proof (induction xs arbitrary: p)
  case (Cons x xs)
  show ?case
  proof (cases p)
    case 0
    then show ?thesis using Cons.prems by auto
  next
    case (Suc m)
    show ?thesis
    proof (cases "j = x")
      case True
      then show ?thesis using Cons.prems Suc by (auto intro: exI [of _ m])
    next
      case False
      from Cons.IH [of m] Cons.prems Suc obtain q where "q \<le> m" "q < length (remove1 j xs)" "remove1 j xs ! q = xs ! m" by auto
      then show ?thesis using False Suc by (intro exI [of _ "Suc q"]) simp
    qed
  qed
qed simp

text \<open>One event and the place of a waiting entry.\<close>

lemma sem_step_position:
  assumes p: "p < length (sem_queue s)" and no: "e \<noteq> Abort (sem_queue s ! p)"
  obtains "sem_queue s ! p \<in> set (sem_leases (sem_event_step limit e s))"
  | q where "q < length (sem_queue (sem_event_step limit e s))" "sem_queue (sem_event_step limit e s) ! q = sem_queue s ! p"
      "q + (case e of Release i \<Rightarrow> if i \<in> set (sem_leases s) then 1 else 0 | _ \<Rightarrow> 0) \<le> p"
proof (cases e)
  case (Acquire i aborted)
  have "sem_queue (sem_event_step limit e s) = sem_queue s \<or> sem_queue (sem_event_step limit e s) = sem_queue s @ [i]"
    using p by (auto simp: Acquire sem_acquire_def sem_grant_def)
  then show ?thesis using that(2) [of p] p by (auto simp: Acquire nth_append)
next
  case (Abort j)
  from remove1_position [OF p, of j] no obtain q where "q \<le> p" "q < length (remove1 j (sem_queue s))" "remove1 j (sem_queue s) ! q = sem_queue s ! p"
    by (auto simp: Abort)
  then show ?thesis using that(2) [of q] by (simp add: Abort sem_abort_def)
next
  case (Release j)
  show ?thesis
  proof (cases "j \<in> set (sem_leases s)")
    case True
    obtain x xs where q: "sem_queue s = x # xs" using p by (cases "sem_queue s") auto
    have e: "sem_queue (sem_event_step limit e s) = xs" "sem_leases (sem_event_step limit e s) = remove1 j (sem_leases s) @ [x]"
      using True by (simp_all add: Release sem_release_def sem_grant_def Let_def q)
    show ?thesis
    proof (cases p)
      case 0
      then show ?thesis using that(1) by (simp add: e q)
    next
      case (Suc m)
      then show ?thesis using that(2) [of m] p True unfolding e q by (simp add: Release)
    qed
  next
    case False
    then show ?thesis using that(2) [of p] p by (simp add: Release sem_release_def)
  qed
qed

lemma waiting_granted:
  "sem_run limit s es s' \<Longrightarrow> p < length (sem_queue s) \<Longrightarrow> sem_queue s ! p = i \<Longrightarrow> Abort i \<notin> set es \<Longrightarrow> p < sem_releases limit es s \<Longrightarrow>
    \<exists>k \<le> length es. i \<in> set (sem_leases (fold (sem_event_step limit) (take k es) s))"
proof (induction arbitrary: p rule: sem_run.induct)
  case (more s e limit es s')
  have "e \<noteq> Abort (sem_queue s ! p)" using more.prems by auto
  from more.prems(1) this show ?case
  proof (rule sem_step_position [where limit = limit], goal_cases)
    case 1
    then have "i \<in> set (sem_leases (fold (sem_event_step limit) (take 1 (e # es)) s))" using more.prems(2) by simp
    then show ?case by (intro exI [of _ 1]) simp
  next
    case (2 q)
    then have "q < sem_releases limit es (sem_event_step limit e s)" using more.prems(4) by auto
    from more.IH [OF 2(1) _ _ this] 2(2) more.prems(2,3) obtain k where
      "k \<le> length es" "i \<in> set (sem_leases (fold (sem_event_step limit) (take k es) (sem_event_step limit e s)))" by auto
    then show ?case by (intro exI [of _ "Suc k"]) simp
  qed
qed simp

text \<open>
  C24: Requests are served in the order of their arrival: one that waits behind \<open>p\<close> others and is
  not aborted is granted at the latest when \<open>p + 1\<close> requests in flight have been released, whatever else
  arrives or is aborted meanwhile.
\<close>

theorem waiting_request_served:
  assumes "sem_run limit s es s'" and "p < length (sem_queue s)" and "Abort (sem_queue s ! p) \<notin> set es" and "p < sem_releases limit es s"
  shows "\<exists>k \<le> length es. sem_queue s ! p \<in> set (sem_leases (fold (sem_event_step limit) (take k es) s))"
  by (rule waiting_granted [OF assms(1,2) refl assms(3,4)])

lemma waiting_request_served_witness:
  "\<exists>k \<le> 1. 2 \<in> set (sem_leases (fold (sem_event_step 1) (take k [Release 1]) \<lparr>sem_active = 1, sem_queue = [2], sem_leases = [1]\<rparr>))"
proof -
  let ?s = "\<lparr>sem_active = 1, sem_queue = [2], sem_leases = [1 :: nat]\<rparr>"
  have "sem_run 1 ?s [Release 1] (sem_event_step 1 (Release 1) ?s)" by (rule sem_run.more) (simp_all add: sem_run.none)
  moreover have "0 < sem_releases 1 [Release 1] ?s" by simp
  ultimately show ?thesis using waiting_request_served [of 1 ?s "[Release 1]" _ 0] by simp
qed

section \<open>Requests\<close>

lemma definition_fields:
  "getProviderDefinition i = Inr d \<Longrightarrow> getProviderDefinition (def_id d) = Inr d \<and> scheme d = ''https'' \<and> port d = 443"
proof -
  assume g: "getProviderDefinition i = Inr d"
  then have d: "d \<in> set APPROVED_CLOUD_PROVIDER_DEFINITIONS" "def_id d = i" using getProviderDefinition_sound by blast+
  have "scheme d = ''https'' \<and> port d = 443" using d(1) by (auto simp: APPROVED_CLOUD_PROVIDER_DEFINITIONS_def provider_definition_def)
  then show ?thesis using g d(2) by simp
qed

definition secret_sendable :: "string \<Rightarrow> bool" where
  "secret_sendable s \<longleftrightarrow> utf8_length s \<le> MAX_API_KEY_BYTES \<and> \<not> list_ex control_char s"

lemma bearer_ok: "s \<noteq> [] \<Longrightarrow> authorization_ok (''Bearer '' @ s) \<longleftrightarrow> secret_sendable s"
proof -
  assume "s \<noteq> []"
  moreover have "utf8_length ''Bearer '' = 7" "\<not> list_ex control_char ''Bearer ''" by (simp_all add: utf8_length_def control_char_def Let_def)
  ultimately show ?thesis unfolding authorization_ok_def secret_sendable_def utf8_length_append list_ex_append by auto
qed

lemma cloud_credential_Inr: "cloud_credential v = Inr s \<Longrightarrow> v = JStr s \<and> s \<noteq> []"
  by (cases v) (auto split: if_splits)

lemma exact_fields_Inr: "exact_fields v allowed = Inr r \<Longrightarrow> r = v"
  by (cases v) (auto simp: exact_fields_def split: if_splits)

lemma chat_request_parts:
  assumes "cloud_chat_request d input = Inr (model, q)"
  obtains ms secret where "jget ''model'' input = JStr model" "jget ''credential'' input = JStr secret" "secret \<noteq> []"
    "cloud_messages (jget ''messages'' input) = Inr ms" "cloud_temperature (jget ''temperature'' input)" "cloud_tokens (jget ''maxOutputTokens'' input)"
    "q = chat_request d secret (chat_body d model ms (jget ''temperature'' input) (jget ''maxOutputTokens'' input))"
proof -
  obtain ms secret where p: "cloud_modelId (jget ''model'' input) (def_id d = ''openrouter'') = Inr model"
      "cloud_temperature (jget ''temperature'' input)" "cloud_tokens (jget ''maxOutputTokens'' input)"
      "cloud_messages (jget ''messages'' input) = Inr ms" "cloud_credential (jget ''credential'' input) = Inr secret"
      "q = chat_request d secret (chat_body d model ms (jget ''temperature'' input) (jget ''maxOutputTokens'' input))"
    using assms exact_fields_Inr by (auto simp: cloud_chat_request_def split: if_splits) blast
  have "jget ''model'' input = JStr model" using p(1) by (auto simp: cloud_modelId_def split: jval.splits if_splits)
  then show thesis using that p cloud_credential_Inr [OF p(5)] by blast
qed

lemma stringify_nonempty: "stringify (JObj fs) \<noteq> []"
  by simp

text \<open>
  C20: The transport accepts a request of the adapter, of either kind, exactly when the
  credential has at most 8 KiB and no control character and the body at most 128 KiB; it then sends the
  provider's own credential, body and definition. Nothing else in the adapter's requests is ever refused.
\<close>

theorem adapter_requests_validated:
  assumes "getProviderDefinition i = Inr d"
  shows "(cloud_chat_request d input = Inr (model, q) \<longrightarrow>
      (\<exists>secret body. jget ''credential'' input = JStr secret \<and> cq_body q = Some body \<and>
        validateRequest q = (if secret_sendable secret \<and> length body \<le> MAX_REQUEST_BYTES
          then Some \<lparr>vr_authorization = ''Bearer '' @ secret, vr_body = Some body, vr_providerId = def_id d\<rparr> else None))) \<and>
    (cloud_credential v = Inr s \<longrightarrow>
      validateRequest (models_request d s) = (if secret_sendable s
        then Some \<lparr>vr_authorization = ''Bearer '' @ s, vr_body = None, vr_providerId = def_id d\<rparr> else None))"
proof (intro conjI impI)
  note d = definition_fields [OF assms]
  assume "cloud_chat_request d input = Inr (model, q)"
  then obtain secret fs where q: "q = chat_request d secret (JObj fs)" and s: "jget ''credential'' input = JStr secret" "secret \<noteq> []"
    by (rule chat_request_parts) (auto simp: chat_body_def)
  let ?body = "utf8_encode (stringify (JObj fs))"
  have "stringify (JObj fs) \<noteq> []" by simp
  then have "1 \<le> utf8_length (stringify (JObj fs))" by (cases "stringify (JObj fs)") (simp_all add: utf8_length_def del: stringify.simps)
  then have "validateRequest q = (if secret_sendable secret \<and> length ?body \<le> MAX_REQUEST_BYTES
      then Some \<lparr>vr_authorization = ''Bearer '' @ secret, vr_body = Some ?body, vr_providerId = def_id d\<rparr> else None)"
    using d bearer_ok [OF s(2)] by (auto simp: validateRequest_def q chat_request_def Let_def simp del: stringify.simps)
  then show "\<exists>secret body. jget ''credential'' input = JStr secret \<and> cq_body q = Some body \<and>
        validateRequest q = (if secret_sendable secret \<and> length body \<le> MAX_REQUEST_BYTES
          then Some \<lparr>vr_authorization = ''Bearer '' @ secret, vr_body = Some body, vr_providerId = def_id d\<rparr> else None)"
    using s(1) by (intro exI [of _ secret] exI [of _ ?body]) (simp add: q chat_request_def)
next
  note d = definition_fields [OF assms]
  assume "cloud_credential v = Inr s"
  then have "s \<noteq> []" using cloud_credential_Inr by blast
  then show "validateRequest (models_request d s) = (if secret_sendable s
        then Some \<lparr>vr_authorization = ''Bearer '' @ s, vr_body = None, vr_providerId = def_id d\<rparr> else None)"
    using d bearer_ok by (auto simp: validateRequest_def models_request_def Let_def)
qed

section \<open>Answers\<close>

lemma transported_Inr: "transported x = Inr r \<longleftrightarrow> (\<exists>v. fst x = Resolved v \<and> copyTransportResponse v = Some r)"
  by (cases x rule: transported.cases) (auto split: option.splits)

lemma messages_json_ok: "list_all json_ok (map chat_message_json ms)"
  by (induction ms) (simp_all add: chat_message_json_def)

lemma field_names: "output_token_field_name f \<in> {''max_tokens'', ''max_completion_tokens''}"
  by (cases f) simp_all

lemma chat_body_json_ok: "json_ok temp \<Longrightarrow> json_ok tokens \<Longrightarrow> json_ok (chat_body d model ms temp tokens)"
  using messages_json_ok [of ms] field_names [of "outputTokenField d"] by (auto simp: chat_body_def list_all_iff)

lemma chat_answer_Inr: "chat_answer decode model r = Inr t \<longleftrightarrow>
    cp_status r = 200 \<and> json_response r \<and> length (cp_body r) \<le> MAX_RESPONSE_BODY_BYTES \<and>
    (\<exists>v content. Option.bind (decode (cp_body r)) json_parse = Some v \<and> is_object v \<and> jget ''model'' v = JStr model \<and>
      response_content v = Some content \<and> boundedCompleteResponse content = Inr t)"
proof -
  have x: "(case x of Inl _ \<Rightarrow> Inl e | Inr t \<Rightarrow> Inr t) = Inr u \<longleftrightarrow> x = Inr u" for x :: "js_error + string" and e :: cloud_failure and u
    by (cases x) simp_all
  have y: "(case x of Inl _ \<Rightarrow> Inl e | Inr v \<Rightarrow> f v) = Inr u \<longleftrightarrow> (\<exists>v. x = Inr v \<and> f v = Inr u)"
    for x :: "js_error + jval" and e :: cloud_failure and f :: "jval \<Rightarrow> cloud_failure + string" and u
    by (cases x) simp_all
  show ?thesis by (auto simp: chat_answer_def x y decoded_json extracted_text)
qed

text \<open>
  C19: An answer of the adapter stands for one request, sent once and to the provider's own host over
  https with the caller's credential, whose body is JSON text that reads back as the caller's model, messages and
  settings, and for a response with status 200, JSON content and the same model, holding a content that the
  response policy accepts.
\<close>

theorem cloud_answer:
  assumes "getProviderDefinition i = Inr d" and "json_ok (jget ''temperature'' input)"
    and "cloud_generate decode transport d input sig = (qs, Inr t)"
  shows "\<exists>model secret ms q body. jget ''model'' input = JStr model \<and> jget ''credential'' input = JStr secret \<and>
    cloud_messages (jget ''messages'' input) = Inr ms \<and> sig = Signal_Aborted False \<and> qs = [q] \<and>
    cq_scheme q = ''https'' \<and> cq_hostname q = hostname d \<and> cq_port q = 443 \<and> cq_path q = chatPath d \<and>
    map_of (cq_headers q) ''authorization'' = Some (''Bearer '' @ secret) \<and> cq_body q = Some (utf8_encode body) \<and>
    json_parse body = Some (chat_body d model ms (jget ''temperature'' input) (jget ''maxOutputTokens'' input)) \<and>
    (\<exists>resolved r v content. fst (transport q) = Resolved resolved \<and> copyTransportResponse resolved = Some r \<and> cp_status r = 200 \<and>
      json_response r \<and> length (cp_body r) \<le> MAX_RESPONSE_BODY_BYTES \<and> Option.bind (decode (cp_body r)) json_parse = Some v \<and>
      jget ''model'' v = JStr model \<and> response_content v = Some content \<and> boundedCompleteResponse content = Inr t)"
proof -
  note d = definition_fields [OF assms(1)]
  obtain model q where c: "cloud_chat_request d input = Inr (model, q)"
    using assms(3) by (auto simp: cloud_generate_def split: sum.splits)
  then have g: "apsnd (\<lambda>r. bindE r (chat_answer decode model)) (cloud_send transport sig q) = (qs, Inr t)"
    using assms(3) by (simp add: cloud_generate_def)
  then have sig: "sig = Signal_Aborted False" "qs = [q]"
    by (auto simp: cloud_send_def apsnd_def split: signal_view.splits if_splits)
  then obtain r where r: "transported (transport q) = Inr r" "chat_answer decode model r = Inr t" using g by (auto simp: cloud_send_def)
  from c obtain ms secret where p: "jget ''model'' input = JStr model" "jget ''credential'' input = JStr secret"
      "cloud_messages (jget ''messages'' input) = Inr ms" "cloud_tokens (jget ''maxOutputTokens'' input)"
      "q = chat_request d secret (chat_body d model ms (jget ''temperature'' input) (jget ''maxOutputTokens'' input))"
    by (rule chat_request_parts)
  let ?body = "chat_body d model ms (jget ''temperature'' input) (jget ''maxOutputTokens'' input)"
  obtain n where "jget ''maxOutputTokens'' input = JNum n" "is_integer n" using p(4) by (cases "jget ''maxOutputTokens'' input") auto
  then have tokens: "json_ok (jget ''maxOutputTokens'' input)" by (cases n) simp_all
  have parsed: "json_parse (stringify ?body) = Some ?body"
    by (rule parse_stringify [OF chat_body_json_ok [OF assms(2) tokens]])
  obtain resolved where res: "fst (transport q) = Resolved resolved" "copyTransportResponse resolved = Some r" using r(1) transported_Inr by blast
  have sent: "cq_scheme q = ''https''" "cq_hostname q = hostname d" "cq_port q = 443" "cq_path q = chatPath d"
      "map_of (cq_headers q) ''authorization'' = Some (''Bearer '' @ secret)" "cq_body q = Some (utf8_encode (stringify ?body))"
    using d by (simp_all add: p(5) chat_request_def)
  from r(2) chat_answer_Inr obtain v content where "cp_status r = 200" "json_response r" "length (cp_body r) \<le> MAX_RESPONSE_BODY_BYTES"
      "Option.bind (decode (cp_body r)) json_parse = Some v" "jget ''model'' v = JStr model" "response_content v = Some content"
      "boundedCompleteResponse content = Inr t" by blast
  then show ?thesis
    by (intro exI [of _ model] exI [of _ secret] exI [of _ ms] exI [of _ q] exI [of _ "stringify ?body"] conjI p(1-3) sig sent parsed
        exI [of _ resolved] exI [of _ r] exI [of _ v] exI [of _ content] res)
qed

section \<open>An example\<close>

definition example_groq :: cloud_provider_definition where
  "example_groq = provider_definition ''groq'' ''Groq'' ''api.groq.com'' ''/openai/v1'' Max_Completion_Tokens Data_Id"

definition cloud_example_input :: jval where
  "cloud_example_input = JObj [(''credential'', JStr ''key''), (''model'', JStr ''m1''),
     (''messages'', JArr [JObj [(''role'', JStr ''user''), (''content'', JStr ''Hello?'')]]),
     (''temperature'', JInt 1), (''maxOutputTokens'', JInt 100)]"

definition cloud_example_request :: cloud_request where
  "cloud_example_request = chat_request example_groq ''key'' (chat_body example_groq ''m1'' [(''user'', ''Hello?'')] (JInt 1) (JInt 100))"

definition example_reply :: jval where
  "example_reply = JObj [(''model'', JStr ''m1''), (''choices'', JArr [JObj [(''message'', JObj [(''content'', JStr ''Well.'')])]])]"

definition example_transport :: cloud_transport where
  "example_transport q = (Resolved (Value_Object [(''status'', Field_Value (JInt 200)),
     (''headers'', Field_Value (JObj [(''content-type'', JStr ''application/json'')])),
     (''body'', Field_Bytes (utf8_encode (stringify example_reply)))]), Signal_Aborted False)"

definition ascii_decode :: "octets \<Rightarrow> string option" where
  "ascii_decode bs = (if list_all (\<lambda>b. b < 128) bs then Some (map char_of bs) else None)"

lemma cloud_example_definition: "getProviderDefinition ''groq'' = Inr example_groq"
  by (simp add: getProviderDefinition_def isApprovedCloudProviderId_def APPROVED_CLOUD_PROVIDER_IDS_def
      APPROVED_CLOUD_PROVIDER_DEFINITIONS_def provider_definition_def example_groq_def)

lemma example_chat_request: "cloud_chat_request example_groq cloud_example_input = Inr (''m1'', cloud_example_request)"
  by (simp add: cloud_chat_request_def cloud_example_input_def exact_fields_def cloud_modelId_def opaque_model_id_def example_groq_def
      provider_definition_def MAX_OPAQUE_MODEL_ID_BYTES_def control_or_whitespace_def utf8_length_def cloud_message_def cloud_example_request_def)

lemma example_body: "utf8_encode (stringify example_reply) = map of_char (stringify example_reply)" "length (stringify example_reply) < 100"
  by code_simp+

lemma example_decoded: "ascii_decode (utf8_encode (stringify example_reply)) = Some (stringify example_reply)"
proof -
  have "list_all (\<lambda>b. b < 128) (utf8_encode (stringify example_reply))" by code_simp
  then show ?thesis by (simp add: ascii_decode_def example_body(1) comp_def)
qed

lemma example_copied: "copyTransportResponse (Value_Object [(''status'', Field_Value (JInt 200)),
     (''headers'', Field_Value (JObj [(''content-type'', JStr ''application/json'')])),
     (''body'', Field_Bytes (utf8_encode (stringify example_reply)))]) =
   Some \<lparr>cp_status = 200, cp_headers = [(''content-type'', ''application/json'')], cp_body = utf8_encode (stringify example_reply)\<rparr>"
proof -
  have "length (utf8_encode (stringify example_reply)) \<le> MAX_MODEL_LIST_BODY_BYTES"
    using example_body by (simp add: MAX_MODEL_LIST_BODY_BYTES_def del: length_utf8_encode)
  moreover have "header_name ''content-type''" "\<not> list_ex control_char ''application/json''" by code_simp+
  moreover have "utf8_length ''content-type'' = 12" "utf8_length ''application/json'' = 16" by code_simp+
  ultimately show ?thesis
    by (simp add: copyTransportResponse_def MAX_TRANSPORT_HEADER_COUNT_def MAX_TRANSPORT_HEADER_BYTES_def)
qed

lemma example_generated: "cloud_generate ascii_decode example_transport example_groq cloud_example_input (Signal_Aborted False) = ([cloud_example_request], Inr ''Well.'')"
proof -
  have "json_media ''application/json''" by code_simp
  moreover have "json_parse (stringify example_reply) = Some example_reply" by (rule parse_stringify) (simp add: example_reply_def)
  moreover have "length (utf8_encode (stringify example_reply)) \<le> MAX_RESPONSE_BODY_BYTES"
    using example_body by (simp add: MAX_RESPONSE_BODY_BYTES_def del: length_utf8_encode)
  moreover have "is_object example_reply" "jget ''model'' example_reply = JStr ''m1''" by (simp_all add: example_reply_def)
  moreover have "response_content example_reply = Some ''Well.''"
    by (simp add: response_content_def example_reply_def MAX_RESPONSE_CONTENT_BYTES_def utf8_length_def js_trim_def js_trim_start_def js_trim_end_def js_space_def)
  moreover have "boundedCompleteResponse ''Well.'' = Inr ''Well.''" by code_simp
  ultimately have "chat_answer ascii_decode ''m1'' \<lparr>cp_status = 200, cp_headers = [(''content-type'', ''application/json'')],
      cp_body = utf8_encode (stringify example_reply)\<rparr> = Inr ''Well.''"
    by (subst chat_answer_Inr) (simp add: json_response_def example_decoded)
  then show ?thesis by (simp add: cloud_generate_def example_chat_request cloud_send_def example_transport_def example_copied)
qed

lemma cloud_answer_witness: "\<exists>q. cq_scheme q = ''https'' \<and> [cloud_example_request] = [q] \<and> cq_hostname q = hostname example_groq"
proof -
  have "json_ok (jget ''temperature'' cloud_example_input)" by (simp add: cloud_example_input_def)
  from cloud_answer [OF cloud_example_definition this example_generated] show ?thesis by blast
qed

lemma adapter_requests_validated_witness: "validateRequest cloud_example_request \<noteq> None"
proof -
  obtain secret body where v: "jget ''credential'' cloud_example_input = JStr secret" "cq_body cloud_example_request = Some body"
      "validateRequest cloud_example_request = (if secret_sendable secret \<and> length body \<le> MAX_REQUEST_BYTES
          then Some \<lparr>vr_authorization = ''Bearer '' @ secret, vr_body = Some body, vr_providerId = def_id example_groq\<rparr> else None)"
    using adapter_requests_validated [OF cloud_example_definition, of cloud_example_input "''m1''" cloud_example_request] example_chat_request by blast
  have "secret = ''key''" using v(1) by (simp add: cloud_example_input_def)
  moreover have "secret_sendable ''key''" by (simp add: secret_sendable_def utf8_length_def control_char_def MAX_API_KEY_BYTES_def Let_def)
  moreover have "length body \<le> MAX_REQUEST_BYTES"
  proof -
    have "body = utf8_encode (stringify (chat_body example_groq ''m1'' [(''user'', ''Hello?'')] (JInt 1) (JInt 100)))"
      using v(2) by (simp add: cloud_example_request_def chat_request_def)
    moreover have "length (utf8_encode (stringify (chat_body example_groq ''m1'' [(''user'', ''Hello?'')] (JInt 1) (JInt 100)))) < 200" by code_simp
    ultimately show ?thesis by (simp add: MAX_REQUEST_BYTES_def)
  qed
  ultimately show ?thesis using v(3) by simp
qed

end
