(* ===== verification/Spec2Isabelle.thy ===== *)
theory Spec2Isabelle
  imports Director_Claims Director_Fairness Cast_Claims Provider_Claims Snapshot_Claims Room_Claims Room_Message_Claims
    Stream_Claims Http_Claims Avatar_Claims Phone_Director Phone_Atomic Address_Claims Transport_Claims
begin

text \<open>
  \<^bold>\<open>The Green Room: the verification development.\<close>

  The program is a local chat room in which one human talks with up to three personas that language
  models play. A server (\<open>src/\<close>) keeps rooms, messages and settings in one SQLite database; a package
  (\<open>packages/core/src\<close>) holds what the server shares with the phone application. A request comes in over
  HTTP (\<open>src/api/routes.ts\<close>), is checked and parsed, and becomes a command of the room library
  (\<open>src/db/cast.ts\<close>), of the room service (\<open>src/runtime/room-service.ts\<close>) or of the provider settings
  (\<open>src/db/provider-*.ts\<close>). A message is recorded together with the choice of its speaker, a worker of
  the room service then resolves which provider and model speak for the persona, asks it, and publishes
  the answer in the room's event log (\<open>src/db/events.ts\<close>), which the browser reads as pages or as a
  stream. Everything that two requests could do to each other goes through the database: an immediate
  transaction per command, a revision number on the selected room, a generation number per room, and a
  lease on every message in work. The phone application has no server: its runtime
  (\<open>ios-web/room-runtime.js\<close>) decides a turn with the same director, stores it as a generation command in
  the native database (\<open>ios/App/App/GreenRoomDatabasePlugin.swift\<close>, \<open>Resources/Migrations\<close>), and the
  native side commits the whole turn when the answer is there.

  \<^bold>\<open>Shared theories.\<close> \<open>Green_Prelude\<close> has strings, numbers and values of JavaScript, thrown errors as the
  left side of a sum (\<open>bindE\<close>, \<open>mapE\<close>), and list lemmas. \<open>Json\<close> is \<open>JSON.parse\<close>, \<open>JSON.stringify\<close> and
  \<open>canonicalJson\<close>; \<open>Json_Size\<close> bounds the length of a text by its value. \<open>Database\<close> has the rows of the
  tables of \<open>migrations/\<close>, the state of the connection as one record, actions on it that may throw
  (\<open>bindA\<close>, \<open>queryA\<close>, \<open>updateA\<close>), \<open>withImmediateTransaction\<close> of \<open>src/db/transaction.ts\<close> with its
  rollback, and the collections \<open>atomic_intros\<close>, \<open>idle_intros\<close>, \<open>open_intros\<close>, \<open>preserves_intros\<close> by which
  an operation is shown to change nothing when it throws, to leave no transaction open and to keep an
  invariant. Constraints and triggers of the tables are conditions of the insertions of the model, so
  that what SQLite would refuse is the error \<open>SqlError\<close>.

  \<^bold>\<open>Interfaces.\<close> Each is a locale with its lemmas, interpreted on the model's own definitions:
  \<^item> \<open>Dedup_Window\<close>: a bounded window of keys, interpreted on the director's event identities.
  \<^item> \<open>Events\<close>: an append-only numbered log, interpreted on the event log of a room.
  \<^item> \<open>Command_Store\<close>: commands keyed by a request id and a digest (\<open>idempotent_command\<close>), interpreted on
    the room library and on the controls; and commands that compare and set a revision.
  \<^item> \<open>Revision_Store\<close>: tables of numbered revisions, interpreted on connection profiles, model profiles
    and room bindings.

  \<^bold>\<open>Components.\<close>
  \<^item> \<open>Director\<close>: \<open>packages/core/src/director.ts\<close>, the deterministic choice of who speaks, its snapshot and
    its duplicate window. \<open>Director_Properties\<close> and \<open>Director_Claims\<close> show the invariant and the round trip of
    the snapshot; \<open>Director_Fairness\<close> that the choice refines a rotating agenda, so nobody starves.
  \<^item> \<open>Events\<close>: \<open>src/db/events.ts\<close>; numbering, appending and reading the log.
  \<^item> \<open>Provider_Definitions\<close>, \<open>Contracts\<close>, \<open>Contract_Codec\<close>: the approved providers
    (\<open>packages/core/src/providers/provider-definitions.ts\<close>), model lists, and the parsers of
    \<open>src/providers/profile-contracts.ts\<close>; what they accept is well formed, holds no credential, and is read
    back as it was stored.
  \<^item> \<open>Cast_Dto\<close>, \<open>Cast\<close>: \<open>src/db/cast.ts\<close>; listing, selecting and replacing rooms.
    \<open>Cast_Properties\<close>, \<open>Cast_Invariant\<close> and \<open>Cast_Claims\<close> show the compare-and-set on the selection revision,
    answering a request once, the invariant of the library and the listing.
  \<^item> \<open>Profiles\<close>, \<open>Bindings\<close>: \<open>src/db/provider-profiles.ts\<close>, \<open>provider-bindings.ts\<close> and
    \<open>provider-snapshots.ts\<close>. \<open>Provider_Invariant\<close>, \<open>Provider_History\<close>, \<open>Provider_Decisions\<close>,
    \<open>Connection_Refinement\<close>, \<open>Provider_Example\<close>, \<open>Provider_Claims\<close> and \<open>Snapshot_Claims\<close> show that stored
    revisions never change, that the operations refine histories with a compare-and-set, what a resolved
    decision consists of, and that a retired connection is never used again.
  \<^item> \<open>Room_Dto\<close>, \<open>Room_Service\<close>, \<open>Room_Completion\<close>, \<open>Room_Workers\<close>, \<open>Room_Options\<close>:
    \<open>src/runtime/room-service.ts\<close>; the transactions of messages and controls, and \<open>room_step\<close>, the
    interleaved steps of any number of workers (with crashes, lost leases, aborts and closing) beside
    controls, library commands and provider operations. \<open>Room_Messages\<close>, \<open>Room_Steps\<close>,
    \<open>Room_Message_Steps\<close> and \<open>Room_Invariant\<close> prove the invariant of the messages for every step;
    \<open>Room_Recording\<close>, \<open>Room_Finishing\<close>, \<open>Room_Choice\<close>, \<open>Room_Turns\<close>, \<open>Room_Control\<close> and
    \<open>Room_Control_Effects\<close> say what each transaction does; \<open>Room_Example\<close> is a complete run for the
    witnesses; \<open>Room_Claims\<close> and \<open>Room_Message_Claims\<close> hold the properties.
  \<^item> \<open>Http_Requests\<close>, \<open>Event_Stream\<close>, \<open>Avatar\<close>: \<open>src/api/routes.ts\<close>; the check of every request, the
    parsers, the routes, a stream of events with backpressure, and the avatar parser over bytes.
    \<open>Http_Claims\<close>, \<open>Stream_Claims\<close> and \<open>Avatar_Claims\<close> hold the properties.
  \<^item> \<open>Phone_Native\<close>: the phone's database: tables with their checks and triggers, the reviewed statements,
    and \<open>phone_steps\<close>, any sequence of statements, activations and changes of the provider settings.
    \<open>Phone_Turns\<close> proves that a room's log is the turns of its completed commands, for every step.
  \<^item> \<open>Phone_Bridge\<close>, \<open>Phone_Reads\<close>, \<open>Phone_Runtime\<close>: \<open>ios-web/room-runtime.js\<close>; the calls over the bridge,
    the parsers of what comes back, and the operations on rooms and turns. \<open>Phone_Atomic\<close> shows that
    these operations are native steps and that a turn is committed whole or not at all;
    \<open>Phone_Director\<close> that the stored director can always be restored; \<open>Phone_Runtime_Claims\<close> the bounds of what a
    provider is sent, and two limits that do not fit each other; \<open>Phone_Claims\<close> the fate of a command and of a
    log; \<open>Phone_Example\<close> is the run of the witnesses.

  \<^item> \<open>Response_Policy\<close>: \<open>src/providers/response-policy.ts\<close>; the regular expressions as combinators on a place in
    a text, the scan for complete sentences, and the bounded body. \<open>Response_Patterns\<close> and \<open>Response_Text\<close> show
    that a front part of a text has no markup the text has not, \<open>Response_Scan\<close> what the scan counts and that it
    stops again at the end of its own result; \<open>Response_Claims\<close> that an accepted text is accepted again.
  \<^item> \<open>Cloud_Adapter\<close>: \<open>src/providers/openai-compatible-cloud.ts\<close>; the input, the one request made of it and the
    answer taken from the response of the transport, a parameter. \<open>Secure_Transport\<close> and \<open>Transport_Address\<close>:
    \<open>src/providers/secure-http-transport.ts\<close>; the check of a request, the semaphore of the requests in flight, and
    the addresses that may be dialled. \<open>Address_Text\<close> shows that the canonical text of an address parses back,
    \<open>Address_Claims\<close> which addresses are dialled and what the comparison with the peer means, and
    \<open>Transport_Claims\<close> what an answer stands for, what the transport refuses of the adapter, and that waiting
    requests are served in order. \<open>Json_Text\<close> reads back what \<open>JSON.stringify\<close> writes.

  \<^bold>\<open>Bounds and termination.\<close> Numbers of JavaScript are a mantissa and a decimal exponent, and a number
  that the code requires to be a safe integer is checked against \<open>2 ^ 53 - 1\<close> where the code checks it;
  sums that the code lets grow beyond are integers without rounding in the model. Bytes are 8-bit words.
  \<open>json_parse\<close> has fuel, the length of the text plus one: every call consumes a character, and
  \<open>canonical_json_identifies\<close> shows that it is enough for every text the program stores. The chunk loop
  of the avatar, the scan of an answer and the search for a run of zero words are functions with termination
  proofs; a repeated pattern is unrolled once per character left, as each repetition consumes one. Pages of the log need fuel in
  \<open>log_read_to_the_end\<close>, which says how much. The steps of workers and streams are inductive relations;
  liveness is stated as runs that exist or as what a given sequence of steps reaches.

  \<^bold>\<open>Assumptions.\<close> Strings are sequences of characters below 256: texts beyond Latin-1 are not
  represented, so lengths are code units. SHA-256, \<open>randomUUID\<close>, the clock, what a provider answers, the
  persona catalog and what \<open>response.write\<close> returns are parameters and may be anything. SQLite keeps its
  documented promises: statements are atomic, \<open>BEGIN IMMEDIATE\<close> excludes other writers, \<open>ROLLBACK\<close> restores.
  Values that reach the parsers are trees without shared or cyclic parts. On the phone, a JSON column
  holds the value of its text, the JSON text that SQLite builds is that of \<open>JSON.stringify\<close>, a call of the
  runtime runs undisturbed (interleavings are the sequences of native steps), every transaction has an
  id of its own, and the bundle's personas and providers, the size that the native side computes for a
  result and the native provider call are parameters; the provider call changes the database by reviewed
  statements only. The strict UTF-8 decoder and the transport below the cloud adapter are parameters; that a
  value is an ordinary object, a promise of the same realm or a genuine signal is part of how it is given.

  \<^bold>\<open>Not modelled.\<close> Opening, migrating and backing up the server's database; sockets, static files and the
  provider setup routes; of the transport to providers its sockets, TLS, timers and the reading of a response;
  the choice of a provider at the start, the keychain and the credential store; inspection of persona packs; configuration and paths; packaging scripts. Of the phone: provider setup, consent and
  credentials, which reach the model as arbitrary changes of the settings; the replay of a transaction id;
  the list of rooms; and, as in the browser, the screens. These are mostly input and output. The human
  profile's emojis and the dash of the demonstration reply are outside the characters of the model.

  \<^bold>\<open>Plan.\<close> Open: the reading of a response in the transport, the choice of a provider and its credential,
  provider setup on the phone, the configuration parsers and the data root lock.
\<close>

end
